(* ===== verification/Json.thy ===== *)
theory Json
  imports PyStr Complex_Main
begin

section \<open>Decoded JSON values\<close>

text \<open>
  What \<open>json.loads\<close> returns and \<open>json.dumps\<close> prints. A dictionary is the list of its items in
  insertion order, with distinct keys. A finite float is the rational number it denotes; the decoder
  also accepts \<open>Infinity\<close>, \<open>-Infinity\<close> and \<open>NaN\<close>. \<open>py_eq\<close> is the language's \<open>==\<close>: numbers of
  different types compare by value, dictionaries without regard to order.
\<close>

datatype pyfloat = Flt rat | PosInf | NegInf | NotANumber

datatype json = JNull | JBool bool | JInt int | JFloat pyfloat | JStr string
  | JArr "json list" | JObj "(string \<times> json) list"

fun num_val :: "json \<Rightarrow> pyfloat option" where
  "num_val (JBool b) = Some (Flt (if b then 1 else 0))"
| "num_val (JInt i) = Some (Flt (of_int i))"
| "num_val (JFloat f) = Some f"
| "num_val _ = None"

definition num_eq :: "json \<Rightarrow> json \<Rightarrow> bool" where
  "num_eq a b = (case num_val a of None \<Rightarrow> False | Some x \<Rightarrow> x \<noteq> NotANumber \<and> num_val b = Some x)"

fun py_eq :: "json \<Rightarrow> json \<Rightarrow> bool"
  and py_eq_list :: "json list \<Rightarrow> json list \<Rightarrow> bool"
  and py_sub_dict :: "(string \<times> json) list \<Rightarrow> (string \<times> json) list \<Rightarrow> bool" where
  "py_eq JNull b = (b = JNull)"
| "py_eq (JBool x) b = num_eq (JBool x) b"
| "py_eq (JInt x) b = num_eq (JInt x) b"
| "py_eq (JFloat x) b = num_eq (JFloat x) b"
| "py_eq (JStr s) b = (b = JStr s)"
| "py_eq (JArr xs) b = (case b of JArr ys \<Rightarrow> py_eq_list xs ys | _ \<Rightarrow> False)"
| "py_eq (JObj xs) b = (case b of JObj ys \<Rightarrow> length xs = length ys \<and> py_sub_dict xs ys | _ \<Rightarrow> False)"
| "py_eq_list [] ys = (ys = [])"
| "py_eq_list (x # xs) ys = (case ys of [] \<Rightarrow> False | y # ys' \<Rightarrow> py_eq x y \<and> py_eq_list xs ys')"
| "py_sub_dict [] ys = True"
| "py_sub_dict ((k, v) # xs) ys =
     ((case map_of ys k of None \<Rightarrow> False | Some w \<Rightarrow> py_eq v w) \<and> py_sub_dict xs ys)"

text \<open>The truth value of a decoded value, and \<open>value.get(key)\<close> on a dictionary.\<close>

fun truthy :: "json \<Rightarrow> bool" where
  "truthy JNull = False"
| "truthy (JBool b) = b"
| "truthy (JInt i) = (i \<noteq> 0)"
| "truthy (JFloat f) = (f \<noteq> Flt 0)"
| "truthy (JStr s) = (s \<noteq> [])"
| "truthy (JArr xs) = (xs \<noteq> [])"
| "truthy (JObj xs) = (xs \<noteq> [])"

definition keys :: "(string \<times> 'v) list \<Rightarrow> string set" where
  "keys d = set (map fst d)"

text \<open>
  \<open>fields_are\<close>: the dictionary has exactly the required keys (\<open>set(value) != required\<close> in the
  loaders).
\<close>

definition fields_are :: "string list \<Rightarrow> (string \<times> 'v) list \<Rightarrow> bool" where
  "fields_are required d \<longleftrightarrow> list_all (\<lambda>k. k \<in> set (map fst d)) required \<and>
     list_all (\<lambda>k. k \<in> set required) (map fst d)"

text \<open>The message of a loader about missing and unknown keys.\<close>

definition keys_message :: "string \<Rightarrow> string list \<Rightarrow> (string \<times> 'v) list \<Rightarrow> string" where
  "keys_message context required d =
     context @ '' keys invalid: missing='' @ repr_strs (sort (filter (\<lambda>k. k \<notin> set (map fst d)) required)) @
     '', unknown='' @ repr_strs (sort (filter (\<lambda>k. k \<notin> set required) (map fst d)))"

definition field :: "(string \<times> json) list \<Rightarrow> string \<Rightarrow> json" where
  "field d k = (case map_of d k of Some v \<Rightarrow> v | None \<Rightarrow> JNull)"

subsection \<open>Well-formed values\<close>

text \<open>Dictionaries have distinct keys at every depth.\<close>

fun json_ok :: "json \<Rightarrow> bool" where
  "json_ok (JArr xs) = list_all json_ok xs"
| "json_ok (JObj d) = (distinct (map fst d) \<and> list_all (\<lambda>(k, v). json_ok v) d)"
| "json_ok _ = True"

text \<open>No \<open>NaN\<close> at any depth, so that \<open>==\<close> is reflexive.\<close>

fun nan_free :: "json \<Rightarrow> bool" where
  "nan_free (JFloat f) = (f \<noteq> NotANumber)"
| "nan_free (JArr xs) = list_all nan_free xs"
| "nan_free (JObj d) = list_all (\<lambda>(k, v). nan_free v) d"
| "nan_free _ = True"

lemma fields_are_field:
  assumes "fields_are required d" and "k \<in> set required"
  shows "map_of d k = Some (field d k)"
proof -
  have "k \<in> fst ` set d" using assms by (simp add: fields_are_def list_all_iff)
  then have "map_of d k \<noteq> None" by (simp add: map_of_eq_None_iff)
  then show ?thesis unfolding field_def by (cases "map_of d k") simp_all
qed

lemma py_sub_dict_iff:
  "distinct (map fst xs) \<Longrightarrow> py_sub_dict xs ys \<longleftrightarrow>
     (\<forall>(k, v) \<in> set xs. \<exists>w. map_of ys k = Some w \<and> py_eq v w)"
  by (induction xs) (auto split: option.splits)

lemma py_eq_refl: "json_ok v \<Longrightarrow> nan_free v \<Longrightarrow> py_eq v v"
proof (induction v)
  case (JArr xs)
  then have "\<forall>x \<in> set xs. py_eq x x" by (auto simp: list_all_iff)
  then have "py_eq_list xs xs" by (induction xs) auto
  then show ?case by simp
next
  case (JObj d)
  then have "\<forall>(k, v) \<in> set d. py_eq v v" by (fastforce simp: list_all_iff)
  moreover from JObj.prems have "distinct (map fst d)" by simp
  ultimately have "py_sub_dict d d" by (fastforce simp: py_sub_dict_iff)
  then show ?case by simp
qed (auto simp: num_eq_def)

subsection \<open>Printing\<close>

text \<open>
  \<open>json.dumps(value, sort_keys=True, separators=(",", ":"))\<close>; \<open>ascii\<close> is \<open>ensure_ascii\<close> and \<open>frepr\<close>
  is the decimal form the interpreter gives a float.
\<close>

definition escape_char :: "bool \<Rightarrow> char \<Rightarrow> string" where
  "escape_char ascii c = (let n = code_point c in
     if n = 34 then [char_of (92::nat), char_of (34::nat)]
     else if n = 92 then [char_of (92::nat), char_of (92::nat)]
     else if n = 10 then [char_of (92::nat), CHR ''n'']
     else if n = 13 then [char_of (92::nat), CHR ''r'']
     else if n = 9 then [char_of (92::nat), CHR ''t'']
     else if n = 8 then [char_of (92::nat), CHR ''b'']
     else if n = 12 then [char_of (92::nat), CHR ''f'']
     else if n < 32 \<or> ascii \<and> 126 < n
       then [char_of (92::nat), CHR ''u'', CHR ''0'', CHR ''0'', hex_digit (n div 16), hex_digit (n mod 16)]
     else [c])"

definition quote_str :: "bool \<Rightarrow> string \<Rightarrow> string" where
  "quote_str ascii s = [char_of (34::nat)] @ concat (map (escape_char ascii) s) @ [char_of (34::nat)]"

fun dumps :: "bool \<Rightarrow> (pyfloat \<Rightarrow> string) \<Rightarrow> json \<Rightarrow> string" where
  "dumps ascii frepr JNull = ''null''"
| "dumps ascii frepr (JBool b) = (if b then ''true'' else ''false'')"
| "dumps ascii frepr (JInt i) = int_str i"
| "dumps ascii frepr (JFloat f) = frepr f"
| "dumps ascii frepr (JStr s) = quote_str ascii s"
| "dumps ascii frepr (JArr xs) = ''['' @ join '','' (map (dumps ascii frepr) xs) @ '']''"
| "dumps ascii frepr (JObj d) =
     ''{'' @ join '','' (map snd (sort_key fst
        (map (\<lambda>(k, v). (k, quote_str ascii k @ '':'' @ dumps ascii frepr v)) d))) @ ''}''"

text \<open>\<open>json.dumps(value, separators=(",", ":"))\<close>: dictionaries in insertion order.\<close>

fun dumps_plain :: "(pyfloat \<Rightarrow> string) \<Rightarrow> json \<Rightarrow> string" where
  "dumps_plain frepr (JArr xs) = ''['' @ join '','' (map (dumps_plain frepr) xs) @ '']''"
| "dumps_plain frepr (JObj d) =
     ''{'' @ join '','' (map (\<lambda>(k, v). quote_str True k @ '':'' @ dumps_plain frepr v) d) @ ''}''"
| "dumps_plain frepr v = dumps True frepr v"

text \<open>
  \<open>json.dumps(value, indent=2, sort_keys=\<dots>)\<close>: one item per line, two spaces per level.
\<close>

definition newline :: "nat \<Rightarrow> string" where
  "newline level = char_of (10::nat) # replicate (2 * level) CHR '' ''"

definition block :: "char \<Rightarrow> char \<Rightarrow> nat \<Rightarrow> string list \<Rightarrow> string" where
  "block a b level items =
     (if items = [] then [a, b]
      else [a] @ newline (level + 1) @ join ('','' @ newline (level + 1)) items @ newline level @ [b])"

fun dumps_indent :: "bool \<Rightarrow> (pyfloat \<Rightarrow> string) \<Rightarrow> nat \<Rightarrow> json \<Rightarrow> string" where
  "dumps_indent sorted_keys frepr level (JArr xs) =
     block CHR ''['' CHR '']'' level (map (dumps_indent sorted_keys frepr (level + 1)) xs)"
| "dumps_indent sorted_keys frepr level (JObj d) =
     (let items = map (\<lambda>(k, v). (k, quote_str True k @ '': '' @ dumps_indent sorted_keys frepr (level + 1) v)) d
      in block CHR ''{'' CHR ''}'' level (map snd (if sorted_keys then sort_key fst items else items)))"
| "dumps_indent sorted_keys frepr level v = dumps True frepr v"

lemma filter_key_single:
  "distinct (map fst d) \<Longrightarrow> x \<in> set d \<Longrightarrow> filter (\<lambda>y. fst x = fst y) d = [x]"
proof (induction d)
  case (Cons y d)
  show ?case
  proof (cases "x = y")
    case True
    then have "filter (\<lambda>z. fst x = fst z) d = []"
      using Cons.prems(1) by (auto simp: filter_empty_conv image_iff)
    with True show ?thesis by simp
  next
    case False
    with Cons show ?thesis by (auto simp: image_iff)
  qed
qed simp

lemma sort_key_fst_mset:
  fixes d e :: "(string \<times> 'v) list"
  assumes "distinct (map fst d)" and "mset d = mset e"
  shows "sort_key fst d = sort_key fst e"
proof (rule properties_for_sort_key)
  have e: "distinct (map fst e)"
    using assms by (metis mset_map mset_eq_imp_distinct_iff)
  show "mset (sort_key fst e) = mset d" using assms(2) by simp
  show "sorted (map fst (sort_key fst e))" by simp
  fix k :: "string \<times> 'v"
  assume ks: "k \<in> set (sort_key fst e)"
  then have k: "k \<in> set d" "k \<in> set e" using mset_eq_setD [OF assms(2)] by simp_all
  have s: "distinct (map fst (sort_key fst e))"
    using e by (metis mset_map mset_eq_imp_distinct_iff mset_sort)
  from ks k assms(1) s show "filter (\<lambda>x. fst k = fst x) (sort_key fst e) = filter (\<lambda>x. fst k = fst x) d"
    by (simp only: filter_key_single)
qed

text \<open>The printed form does not depend on the insertion order of a dictionary.\<close>

lemma dumps_JObj_mset:
  assumes "distinct (map fst d)" and "mset d = mset e"
  shows "dumps ascii frepr (JObj d) = dumps ascii frepr (JObj e)"
proof -
  let ?f = "\<lambda>(k, v). (k, quote_str ascii k @ '':'' @ dumps ascii frepr v)"
  have "map fst (map ?f d) = map fst d" by (simp add: case_prod_beta o_def)
  moreover have "mset (map ?f d) = mset (map ?f e)" using assms(2) by simp
  ultimately have "sort_key fst (map ?f d) = sort_key fst (map ?f e)"
    using assms(1) by (intro sort_key_fst_mset) (simp_all only:)
  then show ?thesis by simp
qed

end
