(* ===== verification/ObjectStore.thy ===== *)
theory ObjectStore
  imports PyStr
begin

section \<open>The content-addressed object store\<close>

text \<open>
  \<open>src/dsvire/object_store.py\<close>: object keys, immutable references, the local filesystem backend and
  the S3 backend. SHA-256 is the parameter \<open>sha\<close> (the hexadecimal digest of a payload). A file
  system is the association list of its regular files, a path the list of its components; a directory
  is a proper prefix of a file, and there are no symbolic links. The flag \<open>disk_ok\<close> says whether the
  operating system completes a write. The S3 service is the pair of parameters \<open>svc_put\<close> (a
  conditional \<open>put_object\<close>, \<open>Inl\<close> with the HTTP status of a \<open>ClientError\<close>) and \<open>svc_get\<close>.
\<close>

datatype store_error = InvalidKindOrDigest | InvalidTenantOrSuffix | KeyEscapesRoot
  | ImmutableCollision | IntegrityMismatch | OsError | NoPublicUrl
  | InvalidExpiry | MetadataMismatch | ClientError int

record object_ref =
  ref_key :: string
  ref_sha256 :: string
  ref_size :: int
  ref_content_type :: string

subsection \<open>Keys\<close>

definition KINDS :: "string list" where
  "KINDS = [''pdf'', ''crop'', ''evidence'', ''pack'', ''symbol'', ''report'', ''bundle'']"

definition tenant_char :: "char \<Rightarrow> bool" where
  "tenant_char c \<longleftrightarrow> ascii_alnum c \<or> c = CHR ''_'' \<or> c = CHR ''-''"

definition suffix_char :: "char \<Rightarrow> bool" where
  "suffix_char c \<longleftrightarrow> ascii_alnum c \<or> c = CHR ''.''"

definition object_key :: "string \<Rightarrow> string \<Rightarrow> string \<Rightarrow> string \<Rightarrow> store_error + string" where
  "object_key tenant_id kind digest suffix' =
     (if kind \<notin> set KINDS \<or> \<not> is_hex 64 digest then Inl InvalidKindOrDigest
      else let safe_tenant = filter tenant_char tenant_id;
               safe_suffix = dropWhile (\<lambda>c. c = CHR ''.'') (filter suffix_char suffix')
           in if safe_tenant = [] \<or> safe_tenant \<noteq> tenant_id \<or> safe_suffix = []
              then Inl InvalidTenantOrSuffix
              else Inr (''tenants/'' @ safe_tenant @ ''/'' @ kind @ ''/'' @ take 2 digest @ ''/'' @
                        digest @ ''.'' @ safe_suffix))"

subsection \<open>The local backend\<close>

type_synonym path = "string list"
type_synonym filesystem = "(path \<times> bytes) list"

text \<open>\<open>Path.resolve\<close> over the components of a key, and the escape check of \<open>_path\<close>.\<close>

fun walk :: "path \<Rightarrow> string list \<Rightarrow> path" where
  "walk acc [] = acc"
| "walk acc (c # cs) =
     (if c = '''' \<or> c = ''.'' then walk acc cs
      else if c = ''..'' then walk (butlast acc) cs
      else walk (acc @ [c]) cs)"

definition local_path :: "path \<Rightarrow> string \<Rightarrow> store_error + path" where
  "local_path root key =
     (let candidate = walk (if starts_with ''/'' key then [] else root) (split_on CHR ''/'' key)
      in if strict_prefix root candidate then Inr candidate else Inl KeyEscapesRoot)"

definition is_file :: "filesystem \<Rightarrow> path \<Rightarrow> bool" where
  "is_file fs p \<longleftrightarrow> p \<in> set (map fst fs)"

definition is_dir :: "filesystem \<Rightarrow> path \<Rightarrow> bool" where
  "is_dir fs p \<longleftrightarrow> list_ex (strict_prefix p) (map fst fs)"

definition read_bytes :: "filesystem \<Rightarrow> path \<Rightarrow> store_error + bytes" where
  "read_bytes fs p = (case map_of fs p of Some b \<Rightarrow> Inr b | None \<Rightarrow> Inl OsError)"

definition write_atomic :: "bool \<Rightarrow> path \<Rightarrow> bytes \<Rightarrow> filesystem \<Rightarrow> store_error + filesystem" where
  "write_atomic disk_ok p payload fs =
     (if list_ex (\<lambda>q. strict_prefix q p) (map fst fs) then Inl OsError
      else if is_file fs p \<or> is_dir fs p then
        bindE (read_bytes fs p) (\<lambda>existing.
          if existing \<noteq> payload then Inl ImmutableCollision else Inr fs)
      else if disk_ok then Inr (AList.update p payload fs) else Inl OsError)"

definition make_ref :: "string \<Rightarrow> string \<Rightarrow> bytes \<Rightarrow> string \<Rightarrow> object_ref" where
  "make_ref key digest payload content_type =
     \<lparr>ref_key = key, ref_sha256 = digest, ref_size = int (length payload),
      ref_content_type = content_type\<rparr>"

definition local_put :: "(bytes \<Rightarrow> string) \<Rightarrow> path \<Rightarrow> bool \<Rightarrow> filesystem \<Rightarrow> string \<Rightarrow> string \<Rightarrow> bytes \<Rightarrow>
    string \<Rightarrow> string \<Rightarrow> store_error + (object_ref \<times> filesystem)" where
  "local_put sha root disk_ok fs tenant_id kind payload suffix' content_type =
     bindE (object_key tenant_id kind (sha payload) suffix') (\<lambda>key.
     bindE (local_path root key) (\<lambda>p.
     bindE (write_atomic disk_ok p payload fs) (\<lambda>fs'.
       Inr (make_ref key (sha payload) payload content_type, fs'))))"

definition ref_matches :: "(bytes \<Rightarrow> string) \<Rightarrow> object_ref \<Rightarrow> bytes \<Rightarrow> bool" where
  "ref_matches sha ref payload \<longleftrightarrow>
     int (length payload) = ref_size ref \<and> sha payload = ref_sha256 ref"

definition local_read :: "(bytes \<Rightarrow> string) \<Rightarrow> path \<Rightarrow> filesystem \<Rightarrow> object_ref \<Rightarrow> store_error + bytes" where
  "local_read sha root fs ref =
     bindE (local_path root (ref_key ref)) (\<lambda>p.
     bindE (read_bytes fs p) (\<lambda>payload.
       if ref_matches sha ref payload then Inr payload else Inl IntegrityMismatch))"

definition local_presign :: "object_ref \<Rightarrow> int \<Rightarrow> store_error + string" where
  "local_presign ref expires_seconds = Inl NoPublicUrl"

subsection \<open>The S3 backend\<close>

record s3_object =
  s3_body :: bytes
  s3_type :: string
  s3_sha :: string

definition s3_read :: "(string \<Rightarrow> 'b \<Rightarrow> int + s3_object) \<Rightarrow> (bytes \<Rightarrow> string) \<Rightarrow> 'b \<Rightarrow> object_ref \<Rightarrow>
    store_error + bytes" where
  "s3_read svc_get sha bucket ref =
     (case svc_get (ref_key ref) bucket of
        Inl status \<Rightarrow> Inl (ClientError status)
      | Inr obj \<Rightarrow> if ref_matches sha ref (s3_body obj) then Inr (s3_body obj)
                  else Inl IntegrityMismatch)"

definition s3_put :: "(string \<Rightarrow> s3_object \<Rightarrow> 'b \<Rightarrow> int + 'b) \<Rightarrow> (string \<Rightarrow> 'b \<Rightarrow> int + s3_object) \<Rightarrow>
    (bytes \<Rightarrow> string) \<Rightarrow> 'b \<Rightarrow> string \<Rightarrow> string \<Rightarrow> bytes \<Rightarrow> string \<Rightarrow> string \<Rightarrow>
    store_error + (object_ref \<times> 'b)" where
  "s3_put svc_put svc_get sha bucket tenant_id kind payload suffix' content_type =
     bindE (object_key tenant_id kind (sha payload) suffix') (\<lambda>key.
       let ref = make_ref key (sha payload) payload content_type
       in case svc_put key \<lparr>s3_body = payload, s3_type = content_type, s3_sha = sha payload\<rparr> bucket of
            Inr bucket' \<Rightarrow> Inr (ref, bucket')
          | Inl status \<Rightarrow>
              if status \<notin> {409, 412} then Inl (ClientError status)
              else bindE (s3_read svc_get sha bucket ref) (\<lambda>existing.
                     if existing \<noteq> payload then Inl ImmutableCollision else Inr (ref, bucket)))"

definition s3_presign :: "(string \<Rightarrow> 'b \<Rightarrow> int + s3_object) \<Rightarrow> (string \<Rightarrow> int \<Rightarrow> string) \<Rightarrow> 'b \<Rightarrow> object_ref \<Rightarrow>
    int \<Rightarrow> store_error + string" where
  "s3_presign svc_get svc_url bucket ref expires_seconds =
     (if expires_seconds < 1 \<or> expires_seconds > 3600 then Inl InvalidExpiry
      else case svc_get (ref_key ref) bucket of
        Inl status \<Rightarrow> Inl (ClientError status)
      | Inr obj \<Rightarrow>
          if int (length (s3_body obj)) \<noteq> ref_size ref \<or> s3_sha obj \<noteq> ref_sha256 ref
          then Inl MetadataMismatch
          else Inr (svc_url (ref_key ref) expires_seconds))"

subsection \<open>The interface\<close>

text \<open>
  What the worker and the API rely on: a stored payload is read back by its reference, no later
  \<open>put\<close> changes what a reference reads, and a read returns only bytes that match the reference.
  The environment \<open>'e\<close> stands for the faults of the medium. \<open>run_puts\<close> is any sequence of puts,
  a failing one leaving the store as it was.
\<close>

record put_request =
  put_tenant :: string
  put_kind :: string
  put_payload :: bytes
  put_suffix :: string
  put_type :: string

fun run_puts :: "('e \<Rightarrow> 's \<Rightarrow> string \<Rightarrow> string \<Rightarrow> bytes \<Rightarrow> string \<Rightarrow> string \<Rightarrow> store_error + (object_ref \<times> 's)) \<Rightarrow>
    's \<Rightarrow> ('e \<times> put_request) list \<Rightarrow> 's" where
  "run_puts put s [] = s"
| "run_puts put s ((e, r) # rs) =
     (case put e s (put_tenant r) (put_kind r) (put_payload r) (put_suffix r) (put_type r) of
        Inl _ \<Rightarrow> run_puts put s rs
      | Inr (_, s') \<Rightarrow> run_puts put s' rs)"

locale immutable_store =
  fixes put :: "'e \<Rightarrow> 's \<Rightarrow> string \<Rightarrow> string \<Rightarrow> bytes \<Rightarrow> string \<Rightarrow> string \<Rightarrow> store_error + (object_ref \<times> 's)"
    and get :: "'s \<Rightarrow> object_ref \<Rightarrow> store_error + bytes"
    and sha :: "bytes \<Rightarrow> string"
  assumes get_after_put: "put e s t k p x c = Inr (r, s') \<Longrightarrow> get s' r = Inr p"
    and get_stable: "put e s t k p x c = Inr (r, s') \<Longrightarrow> get s q = Inr b \<Longrightarrow> get s' q = Inr b"
    and get_checked: "get s q = Inr b \<Longrightarrow> ref_matches sha q b"
begin

lemma get_run_puts: "get s q = Inr b \<Longrightarrow> get (run_puts put s rs) q = Inr b"
proof (induction rs arbitrary: s)
  case (Cons er rs)
  obtain e r where er: "er = (e, r)" by (cases er)
  show ?case
  proof (cases "put e s (put_tenant r) (put_kind r) (put_payload r) (put_suffix r) (put_type r)")
    case (Inl a)
    with Cons er show ?thesis by simp
  next
    case (Inr b')
    then obtain q' s' where "put e s (put_tenant r) (put_kind r) (put_payload r) (put_suffix r) (put_type r) = Inr (q', s')"
      by (cases b') auto
    with Cons er get_stable show ?thesis by fastforce
  qed
qed simp

lemma put_survives:
  assumes "put e s t k p x c = Inr (r, s')"
  shows "get (run_puts put s' rs) r = Inr p"
  by (rule get_run_puts) (rule get_after_put [OF assms])

lemma get_deterministic_digest:
  "get s q = Inr b \<Longrightarrow> get s' q = Inr b' \<Longrightarrow> sha b = sha b' \<and> length b = length b'"
  by (auto dest!: get_checked simp: ref_matches_def)

end

subsection \<open>Facts about keys and paths\<close>

lemma KINDS_plain: "k \<in> set KINDS \<Longrightarrow> CHR ''/'' \<notin> set k \<and> k \<noteq> [] \<and> k \<noteq> ''.'' \<and> k \<noteq> ''..''"
  by (auto simp: KINDS_def)

lemma tenant_char_punct [simp]: "\<not> tenant_char CHR ''/''" "\<not> tenant_char CHR ''.''"
  by (simp_all add: tenant_char_def ascii_alnum_def ascii_digit_def ascii_upper_def ascii_lower_def
      code_point_def)

lemma suffix_char_slash [simp]: "\<not> suffix_char CHR ''/''"
  by (simp add: suffix_char_def ascii_alnum_def ascii_digit_def ascii_upper_def ascii_lower_def
      code_point_def)

lemma object_keyD:
  assumes "object_key t k d x = Inr key"
  obtains y where "k \<in> set KINDS" and "is_hex 64 d" and "t \<noteq> []" and "list_all tenant_char t"
    and "y \<noteq> []" and "list_all suffix_char y"
    and "y = dropWhile (\<lambda>c. c = CHR ''.'') (filter suffix_char x)"
    and "key = ''tenants/'' @ t @ ''/'' @ k @ ''/'' @ take 2 d @ ''/'' @ d @ ''.'' @ y"
proof -
  let ?y = "dropWhile (\<lambda>c. c = CHR ''.'') (filter suffix_char x)"
  from assms have 1: "k \<in> set KINDS" "is_hex 64 d" "t \<noteq> []" "filter tenant_char t = t" "?y \<noteq> []"
    "key = ''tenants/'' @ t @ ''/'' @ k @ ''/'' @ take 2 d @ ''/'' @ d @ ''.'' @ ?y"
    by (auto simp: object_key_def Let_def split: if_splits)
  have "list_all tenant_char t"
    by (metis 1(4) filter_id_conv list_all_iff)
  moreover have "list_all suffix_char ?y"
    using set_dropWhileD by (fastforce simp: list_all_iff)
  ultimately show ?thesis using 1 that by blast
qed

lemma split_key:
  assumes "list_all tenant_char t" and "k \<in> set KINDS" and "is_hex 64 d" and "list_all suffix_char y"
  shows "split_on CHR ''/'' (''tenants/'' @ t @ ''/'' @ k @ ''/'' @ take 2 d @ ''/'' @ d @ ''.'' @ y) =
    [''tenants'', t, k, take 2 d, d @ ''.'' @ y]"
proof -
  have t: "CHR ''/'' \<notin> set t" using assms(1) by (auto simp: list_all_iff)
  have k: "CHR ''/'' \<notin> set k" using KINDS_plain [OF assms(2)] by simp
  have d: "CHR ''/'' \<notin> set d" using is_hex_no_slash [OF assms(3)] by simp
  have d2: "CHR ''/'' \<notin> set (take 2 d)" using d by (meson in_set_takeD)
  have y: "CHR ''/'' \<notin> set (d @ ''.'' @ y)" using d assms(4) by (auto simp: list_all_iff)
  have "split_on CHR ''/'' (''tenants'' @ CHR ''/'' # t @ CHR ''/'' # k @ CHR ''/'' # take 2 d @
      CHR ''/'' # (d @ ''.'' @ y)) = [''tenants'', t, k, take 2 d, d @ ''.'' @ y]"
    using t k d2 y by (subst split_on_append, simp)+ (simp add: split_on_single)
  then show ?thesis by simp
qed

lemma walk_plain:
  "\<forall>c \<in> set cs. c \<noteq> '''' \<and> c \<noteq> ''.'' \<and> c \<noteq> ''..'' \<Longrightarrow> walk acc cs = acc @ cs"
  by (induction cs arbitrary: acc) auto

lemma object_key_path:
  assumes "object_key t k d x = Inr key"
  shows "\<exists>y. local_path root key = Inr (root @ [''tenants'', t, k, take 2 d, d @ ''.'' @ y])"
proof -
  from assms obtain y where y: "k \<in> set KINDS" "is_hex 64 d" "t \<noteq> []" "list_all tenant_char t"
    "list_all suffix_char y"
    "key = ''tenants/'' @ t @ ''/'' @ k @ ''/'' @ take 2 d @ ''/'' @ d @ ''.'' @ y"
    by (rule object_keyD)
  have len: "length d = 64" using y(2) by simp
  have "CHR ''.'' \<notin> set d" using is_hex_no_slash [OF y(2)] by simp
  then have d2: "take 2 d \<noteq> '''' \<and> take 2 d \<noteq> ''.'' \<and> take 2 d \<noteq> ''..''"
    using len by (auto dest: in_set_takeD simp: take_eq_Nil) (metis in_set_takeD list.set_intros(1))+
  have t: "t \<noteq> ''.'' \<and> t \<noteq> ''..''" using y(4) by auto
  have f: "d @ ''.'' @ y \<noteq> '''' \<and> d @ ''.'' @ y \<noteq> ''.'' \<and> d @ ''.'' @ y \<noteq> ''..''"
    using len by (auto dest: arg_cong [where f = length])
  have s: "split_on CHR ''/'' key = [''tenants'', t, k, take 2 d, d @ ''.'' @ y]"
    unfolding y(6) by (rule split_key [OF y(4,1,2,5)])
  have "walk root (split_on CHR ''/'' key) = root @ [''tenants'', t, k, take 2 d, d @ ''.'' @ y]"
    unfolding s using y(3) t d2 f KINDS_plain [OF y(1)] by (intro walk_plain) simp
  moreover have "\<not> starts_with ''/'' key" unfolding y(6) by simp
  ultimately have "local_path root key = Inr (root @ [''tenants'', t, k, take 2 d, d @ ''.'' @ y])"
    by (simp add: local_path_def strict_prefix_def Let_def)
  then show ?thesis by blast
qed

subsection \<open>The local backend provides the interface\<close>

lemma read_bytes_update [simp]:
  "read_bytes (AList.update p b fs) q = (if q = p then Inr b else read_bytes fs q)"
  by (simp add: read_bytes_def update_conv')

lemma read_bytes_is_file: "read_bytes fs p = Inr b \<Longrightarrow> is_file fs p"
  by (force simp: read_bytes_def is_file_def split: option.splits dest: map_of_SomeD)

lemma write_atomic_read:
  "write_atomic ok p payload fs = Inr fs' \<Longrightarrow> read_bytes fs' p = Inr payload"
  by (auto simp: write_atomic_def split: if_splits)

lemma write_atomic_keeps:
  assumes "write_atomic ok p payload fs = Inr fs'" and "read_bytes fs q = Inr b"
  shows "read_bytes fs' q = Inr b"
  using assms read_bytes_is_file [OF assms(2)] by (auto simp: write_atomic_def split: if_splits)

interpretation local_store: immutable_store "local_put sha root" "local_read sha root" sha
  for sha :: "bytes \<Rightarrow> string" and root :: path
proof (unfold_locales, goal_cases)
  case (1 e s t k p x c r s')
  then show ?case
    by (auto simp: local_put_def local_read_def make_ref_def ref_matches_def dest!: write_atomic_read)
next
  case (2 e s t k p x c r s' q b)
  then show ?case
    by (auto simp: local_put_def local_read_def split: if_splits dest!: write_atomic_keeps)
next
  case (3 s q b)
  then show ?case by (auto simp: local_read_def split: if_splits)
qed

subsection \<open>Properties\<close>

text \<open>
  Tenant isolation of keys: when two keys built by \<open>object_key\<close> are equal, they were built for
  the same tenant, the same kind and the same digest.
\<close>

theorem object_key_injective:
  assumes "object_key t k d x = Inr key" and "object_key t' k' d' x' = Inr key"
  shows "t = t' \<and> k = k' \<and> d = d'"
proof -
  obtain y where y: "k \<in> set KINDS" "is_hex 64 d" "list_all tenant_char t" "list_all suffix_char y"
    "key = ''tenants/'' @ t @ ''/'' @ k @ ''/'' @ take 2 d @ ''/'' @ d @ ''.'' @ y"
    using assms(1) by (rule object_keyD)
  obtain y' where y': "k' \<in> set KINDS" "is_hex 64 d'" "list_all tenant_char t'" "list_all suffix_char y'"
    "key = ''tenants/'' @ t' @ ''/'' @ k' @ ''/'' @ take 2 d' @ ''/'' @ d' @ ''.'' @ y'"
    using assms(2) by (rule object_keyD)
  have "[''tenants'', t, k, take 2 d, d @ ''.'' @ y] = [''tenants'', t', k', take 2 d', d' @ ''.'' @ y']"
    using split_key [OF y(3,1,2,4)] split_key [OF y'(3,1,2,4)] y(5) y'(5) by simp
  moreover have "length d = length d'" using y(2) y'(2) by simp
  ultimately show ?thesis by simp
qed

theorem object_key_injective_witness:
  "\<exists>key. object_key ''t1'' ''pdf'' (replicate 64 CHR ''a'') ''pdf'' = Inr key"
proof -
  let ?d = "replicate 64 CHR ''a''"
  obtain key where k: "object_key ''t1'' ''pdf'' ?d ''pdf'' = Inr key"
    by (simp add: object_key_def KINDS_def is_hex_def lower_hex_def tenant_char_def suffix_char_def
        ascii_alnum_def ascii_digit_def ascii_upper_def ascii_lower_def code_point_def
        numeral_eq_Suc)
  from object_key_injective [OF k k] k show ?thesis by blast
qed

text \<open>
  Confinement of the local backend: whatever the key, a path that \<open>_path\<close> accepts lies strictly
  below the storage root.
\<close>

theorem local_path_confined:
  "local_path root key = Inr p \<Longrightarrow> strict_prefix root p"
  by (auto simp: local_path_def Let_def split: if_splits)

theorem local_path_confined_witness:
  "local_path [''srv''] ''a/../b'' = Inr [''srv'', ''b''] \<and> strict_prefix [''srv''] [''srv'', ''b'']"
proof -
  have h: "local_path [''srv''] ''a/../b'' = Inr [''srv'', ''b'']"
    by (simp add: local_path_def strict_prefix_def)
  from local_path_confined [OF h] h show ?thesis by simp
qed

text \<open>
  Storing succeeds in reading back: a payload stored by \<open>put_immutable\<close> on the local backend is
  returned by \<open>read_verified\<close> of its reference after any further sequence of puts, failing or not.
\<close>

theorem local_put_survives:
  assumes "local_put sha root ok fs t k p x c = Inr (r, fs')"
  shows "local_read sha root (run_puts (local_put sha root) fs' rs) r = Inr p"
  using assms by (rule local_store.put_survives)

theorem local_put_survives_witness:
  "\<exists>r fs'. local_put (\<lambda>b. replicate 64 CHR ''0'') [''srv''] True [] ''t'' ''pdf'' ''abc'' ''pdf'' ''application/pdf''
       = Inr (r, fs') \<and>
     local_read (\<lambda>b. replicate 64 CHR ''0'') [''srv'']
       (run_puts (local_put (\<lambda>b. replicate 64 CHR ''0'') [''srv'']) fs'
          [(True, \<lparr>put_tenant = ''t'', put_kind = ''pdf'', put_payload = ''xyz'', put_suffix = ''pdf'',
                  put_type = ''application/pdf''\<rparr>)]) r = Inr ''abc''"
proof -
  let ?sha = "\<lambda>b::bytes. replicate 64 CHR ''0''"
  obtain r fs' where h: "local_put ?sha [''srv''] True [] ''t'' ''pdf'' ''abc'' ''pdf'' ''application/pdf''
      = Inr (r, fs')"
    by (simp add: local_put_def object_key_def KINDS_def is_hex_def lower_hex_def tenant_char_def
        suffix_char_def ascii_alnum_def ascii_digit_def ascii_upper_def ascii_lower_def code_point_def
        numeral_eq_Suc local_path_def Let_def strict_prefix_def write_atomic_def is_file_def is_dir_def)
  from local_put_survives [OF h] h show ?thesis by blast
qed

text \<open>
  The S3 backend: when the service reads an object back as it was written, a reference returned by
  \<open>put_immutable\<close> reads the payload, also when the conditional write found the key taken.
\<close>

theorem s3_put_read:
  assumes "\<And>k obj b b'. svc_put k obj b = Inr b' \<Longrightarrow> svc_get k b' = Inr obj"
    and "s3_put svc_put svc_get sha b t k p x c = Inr (r, b')"
  shows "s3_read svc_get sha b' r = Inr p"
proof -
  from assms(2) obtain key where key: "object_key t k (sha p) x = Inr key"
    by (auto simp: s3_put_def)
  let ?obj = "\<lparr>s3_body = p, s3_type = c, s3_sha = sha p\<rparr>"
  let ?ref = "make_ref key (sha p) p c"
  have m: "ref_matches sha ?ref p" by (simp add: make_ref_def ref_matches_def)
  show ?thesis
  proof (cases "svc_put key ?obj b")
    case (Inr b1)
    with assms(2) key have "r = ?ref" and "b' = b1" by (simp_all add: s3_put_def Let_def)
    with assms(1) [OF Inr] m show ?thesis by (simp add: s3_read_def make_ref_def)
  next
    case (Inl status)
    with assms(2) key show ?thesis by (auto simp: s3_put_def Let_def split: if_splits)
  qed
qed

theorem s3_put_read_witness:
  "\<exists>r b'. s3_put (\<lambda>k obj b. if k \<in> dom b then Inl 412 else Inr (b(k \<mapsto> obj)))
       (\<lambda>k b. case b k of None \<Rightarrow> Inl 404 | Some obj \<Rightarrow> Inr obj) (\<lambda>b. replicate 64 CHR ''0'')
       Map.empty ''t'' ''pdf'' ''abc'' ''pdf'' ''application/pdf'' = Inr (r, b') \<and>
     s3_read (\<lambda>k b. case b k of None \<Rightarrow> Inl 404 | Some obj \<Rightarrow> Inr obj) (\<lambda>b. replicate 64 CHR ''0'') b' r
       = Inr ''abc''"
proof -
  let ?put = "\<lambda>(k::string) (obj::s3_object) b. if k \<in> dom b then Inl 412 else Inr (b(k \<mapsto> obj))"
  let ?get = "\<lambda>(k::string) b. case b k of None \<Rightarrow> Inl 404 | Some obj \<Rightarrow> Inr (obj :: s3_object)"
  let ?sha = "\<lambda>b::bytes. replicate 64 CHR ''0''"
  obtain r b' where h: "s3_put ?put ?get ?sha Map.empty ''t'' ''pdf'' ''abc'' ''pdf'' ''application/pdf''
      = Inr (r, b')"
    by (simp add: s3_put_def object_key_def KINDS_def is_hex_def lower_hex_def tenant_char_def
        suffix_char_def ascii_alnum_def ascii_digit_def ascii_upper_def ascii_lower_def code_point_def
        numeral_eq_Suc Let_def)
  have "s3_read ?get ?sha b' r = Inr ''abc''"
    by (rule s3_put_read [where svc_put = ?put and svc_get = ?get, OF _ h]) (auto split: if_splits)
  with h show ?thesis by blast
qed

end
