(* ===== verification/PlatformDb.thy ===== *)
theory PlatformDb
  imports Json ObjectStore
begin

section \<open>The job database\<close>

text \<open>
  \<open>src/dsvire/platform_db.py\<close> over the tables of \<open>src/dsvire/sql/001_platform.sql\<close>. A table is the
  list of its rows; each method of \<open>PlatformDatabase\<close> is one transaction and one function here. A
  raised exception (a violated constraint included) is \<open>Inl\<close>, and then the transaction has rolled
  back, so no new state is returned. Values the server or the runtime draws are arguments: \<open>now\<close> is
  \<open>clock_timestamp()\<close> in microseconds, \<open>new\<dots>\<close> a generated UUID, \<open>secret\<close> the random part of a
  token. Rows that other transactions hold locked are the argument \<open>locked\<close>, which
  \<open>FOR UPDATE SKIP LOCKED\<close> skips. SHA-256 of a text is the parameter \<open>sha\<close>.
\<close>

subsection \<open>Tables\<close>

datatype job_state = Queued | Running | Succeeded | Failed | Cancelled

record job =
  job_id :: uuid
  job_tenant :: uuid
  job_document :: uuid
  job_key :: string
  job_state :: job_state
  stage :: string
  request :: json
  attempt :: int
  max_attempts :: int
  lease_owner :: "string option"
  lease_expires_at :: "time option"
  cancel_requested :: bool
  job_result :: "json option"
  error_code :: "string option"
  created_at :: time
  updated_at :: time
  completed_at :: "time option"

record document =
  document_id :: uuid
  doc_tenant :: uuid
  doc_ref :: object_ref

record event =
  event_id :: int
  ev_job :: uuid
  ev_tenant :: uuid
  ev_kind :: string
  ev_payload :: json
  ev_created :: time

record outbox_row =
  outbox_id :: int
  topic :: string
  aggregate_id :: uuid
  ob_payload :: json
  published_at :: "time option"
  lock_owner :: "string option"
  lock_expires_at :: "time option"
  attempts :: int

record api_key =
  key_id :: uuid
  key_tenant :: uuid
  label :: string
  token_sha256 :: string
  last_used_at :: "time option"
  revoked_at :: "time option"

record tenant =
  tenant_id :: uuid
  slug :: string

record db =
  tenants :: "tenant list"
  api_keys :: "api_key list"
  documents :: "document list"
  jobs :: "job list"
  events :: "event list"
  outbox :: "outbox_row list"
  next_event :: int
  next_outbox :: int

datatype db_error = CheckViolation | UniqueViolation | ForeignKeyViolation
  | JobConflict | JobNotFound | SubmissionDisappeared

definition empty_db :: db where
  "empty_db = \<lparr>tenants = [], api_keys = [], documents = [], jobs = [], events = [], outbox = [],
     next_event = 1, next_outbox = 1\<rparr>"

definition terminal :: "job_state \<Rightarrow> bool" where
  "terminal st \<longleftrightarrow> st \<in> {Succeeded, Failed, Cancelled}"

text \<open>\<open>clock_timestamp() + make_interval(secs => n)\<close>.\<close>

definition after_seconds :: "time \<Rightarrow> int \<Rightarrow> time" where
  "after_seconds now secs = now + 1000000 * secs"

text \<open>A row comparison with a null timestamp is not true.\<close>

definition before :: "time option \<Rightarrow> time \<Rightarrow> bool" where
  "before ts now = (case ts of None \<Rightarrow> False | Some t \<Rightarrow> t < now)"

subsection \<open>Events and the outbox\<close>

definition event_message :: "event \<Rightarrow> json" where
  "event_message e = JObj [(''event_id'', JInt (event_id e)), (''tenant_id'', JStr (ev_tenant e)),
     (''kind'', JStr (ev_kind e))]"

definition insert_event :: "time \<Rightarrow> uuid \<Rightarrow> uuid \<Rightarrow> string \<Rightarrow> json \<Rightarrow> db \<Rightarrow> db" where
  "insert_event now tid jid kind payload d =
     (let e = \<lparr>event_id = next_event d, ev_job = jid, ev_tenant = tid, ev_kind = kind,
               ev_payload = payload, ev_created = now\<rparr>
      in d\<lparr>events := events d @ [e], next_event := next_event d + 1,
           outbox := outbox d @ [\<lparr>outbox_id = next_outbox d, topic = ''dsvire.job.event'',
             aggregate_id = jid, ob_payload = event_message e, published_at = None,
             lock_owner = None, lock_expires_at = None, attempts = 0\<rparr>],
           next_outbox := next_outbox d + 1\<rparr>)"

subsection \<open>Tenants and keys\<close>

definition slug_head :: "char \<Rightarrow> bool" where
  "slug_head c \<longleftrightarrow> ascii_lower c \<or> ascii_digit c"

definition slug_ok :: "string \<Rightarrow> bool" where
  "slug_ok s = (case s of [] \<Rightarrow> False
     | c # cs \<Rightarrow> slug_head c \<and> 1 \<le> length cs \<and> length cs \<le> 62 \<and>
         list_all (\<lambda>c. slug_head c \<or> c = CHR ''-'') cs)"

definition ensure_tenant :: "string \<Rightarrow> uuid \<Rightarrow> db \<Rightarrow> db_error + (uuid \<times> db)" where
  "ensure_tenant slug' newid d =
     (if \<not> slug_ok slug' then Inl CheckViolation
      else case List.find (\<lambda>t. slug t = slug') (tenants d) of
        Some t \<Rightarrow> Inr (tenant_id t, d)
      | None \<Rightarrow>
          if newid \<in> set (map tenant_id (tenants d)) then Inl UniqueViolation
          else Inr (newid, d\<lparr>tenants := tenants d @ [\<lparr>tenant_id = newid, slug = slug'\<rparr>]\<rparr>))"

definition issue_api_key :: "(string \<Rightarrow> string) \<Rightarrow> uuid \<Rightarrow> string \<Rightarrow> string \<Rightarrow> uuid \<Rightarrow> db \<Rightarrow>
    db_error + (string \<times> db)" where
  "issue_api_key sha tid lbl secret newid d =
     (let token = ''dsv_live_'' @ secret; digest = sha token
      in if \<not> (1 \<le> length lbl \<and> length lbl \<le> 100) \<or> \<not> is_hex 64 digest then Inl CheckViolation
         else if newid \<in> set (map key_id (api_keys d)) \<or>
                 digest \<in> set (map token_sha256 (api_keys d)) then Inl UniqueViolation
         else if tid \<notin> set (map tenant_id (tenants d)) then Inl ForeignKeyViolation
         else Inr (token, d\<lparr>api_keys := api_keys d @ [\<lparr>key_id = newid, key_tenant = tid, label = lbl,
                token_sha256 = digest, last_used_at = None, revoked_at = None\<rparr>]\<rparr>))"

definition key_matches :: "string \<Rightarrow> api_key \<Rightarrow> bool" where
  "key_matches digest k \<longleftrightarrow> token_sha256 k = digest \<and> revoked_at k = None"

definition authenticate :: "(string \<Rightarrow> string) \<Rightarrow> time \<Rightarrow> string \<Rightarrow> db \<Rightarrow> uuid option \<times> db" where
  "authenticate sha now token d =
     (if \<not> starts_with ''dsv_live_'' token \<or> 128 < length token then (None, d)
      else (map_option key_tenant (List.find (key_matches (sha token)) (api_keys d)),
            d\<lparr>api_keys := update_where (key_matches (sha token)) (\<lambda>k. k\<lparr>last_used_at := Some now\<rparr>)
                 (api_keys d)\<rparr>))"

subsection \<open>Submission\<close>

definition document_checks :: "object_ref \<Rightarrow> bool" where
  "document_checks r \<longleftrightarrow> is_hex 64 (ref_sha256 r) \<and> 8 \<le> ref_size r \<and> ref_size r \<le> 67108864 \<and>
     ref_content_type r = ''application/pdf''"

definition insert_document :: "uuid \<Rightarrow> object_ref \<Rightarrow> uuid \<Rightarrow> db \<Rightarrow> db_error + (uuid \<times> db)" where
  "insert_document tid r newid d =
     (if \<not> document_checks r then Inl CheckViolation
      else case List.find (\<lambda>x. doc_tenant x = tid \<and> ref_sha256 (doc_ref x) = ref_sha256 r) (documents d) of
        Some x \<Rightarrow> Inr (document_id x, d)
      | None \<Rightarrow>
          if newid \<in> set (map document_id (documents d)) then Inl UniqueViolation
          else if tid \<notin> set (map tenant_id (tenants d)) then Inl ForeignKeyViolation
          else Inr (newid, d\<lparr>documents := documents d @
                 [\<lparr>document_id = newid, doc_tenant = tid, doc_ref = r\<rparr>]\<rparr>))"

definition new_job :: "time \<Rightarrow> uuid \<Rightarrow> uuid \<Rightarrow> string \<Rightarrow> json \<Rightarrow> int \<Rightarrow> uuid \<Rightarrow> job" where
  "new_job now tid did key req maxa newid =
     \<lparr>job_id = newid, job_tenant = tid, job_document = did, job_key = key, job_state = Queued,
      stage = ''queued'', request = req, attempt = 0, max_attempts = maxa, lease_owner = None,
      lease_expires_at = None, cancel_requested = False, job_result = None, error_code = None,
      created_at = now, updated_at = now, completed_at = None\<rparr>"

definition job_checks :: "string \<Rightarrow> int \<Rightarrow> bool" where
  "job_checks key maxa \<longleftrightarrow> 8 \<le> length key \<and> length key \<le> 200 \<and> 1 \<le> maxa \<and> maxa \<le> 20"

definition submit :: "time \<Rightarrow> uuid \<Rightarrow> object_ref \<Rightarrow> string \<Rightarrow> json \<Rightarrow> int \<Rightarrow> uuid \<Rightarrow> uuid \<Rightarrow> db \<Rightarrow>
    db_error + ((uuid \<times> bool) \<times> db)" where
  "submit now tid doc key req maxa newdoc newid d =
     bindE (insert_document tid doc newdoc d) (\<lambda>(did, d1).
       if \<not> job_checks key maxa then Inl CheckViolation
       else case List.find (\<lambda>j. job_tenant j = tid \<and> job_key j = key) (jobs d1) of
         None \<Rightarrow>
           if newid \<in> set (map job_id (jobs d1)) then Inl UniqueViolation
           else Inr ((newid, True),
             insert_event now tid newid ''queued'' (JObj [(''stage'', JStr ''queued'')])
               (d1\<lparr>jobs := jobs d1 @ [new_job now tid did key req maxa newid]\<rparr>))
       | Some existing \<Rightarrow>
           if job_document existing \<noteq> did \<or> \<not> py_eq (request existing) req then Inl JobConflict
           else Inr ((job_id existing, False), d1))"

subsection \<open>Leases\<close>

definition leasable :: "uuid list \<Rightarrow> time \<Rightarrow> job \<Rightarrow> bool" where
  "leasable locked now j \<longleftrightarrow>
     (job_state j = Queued \<or> job_state j = Running \<and> before (lease_expires_at j) now) \<and>
     attempt j < max_attempts j \<and> \<not> cancel_requested j \<and> job_id j \<notin> set locked"

definition start_lease :: "string \<Rightarrow> int \<Rightarrow> time \<Rightarrow> job \<Rightarrow> job" where
  "start_lease owner secs now j =
     j\<lparr>job_state := Running, stage := ''starting'', attempt := attempt j + 1,
       lease_owner := Some owner, lease_expires_at := Some (after_seconds now secs),
       updated_at := now\<rparr>"

record lease =
  le_job :: uuid
  le_tenant :: uuid
  le_document :: object_ref
  le_request :: json
  le_attempt :: int
  le_cancel :: bool

definition lease_next :: "uuid list \<Rightarrow> time \<Rightarrow> string \<Rightarrow> int \<Rightarrow> db \<Rightarrow> lease option \<times> db" where
  "lease_next locked now owner secs d =
     (case first_by (\<lambda>j. (created_at j, job_id j)) (leasable locked now) (jobs d) of
        None \<Rightarrow> (None, d)
      | Some c \<Rightarrow>
         (case List.find (\<lambda>x. document_id x = job_document c) (documents d) of
            None \<Rightarrow> (None, d)
          | Some doc \<Rightarrow>
              let j = start_lease owner secs now c
              in (Some \<lparr>le_job = job_id j, le_tenant = job_tenant j, le_document = doc_ref doc,
                        le_request = request j, le_attempt = attempt j,
                        le_cancel = cancel_requested j\<rparr>,
                  insert_event now (job_tenant j) (job_id j) ''leased''
                    (JObj [(''attempt'', JInt (attempt j))])
                    (d\<lparr>jobs := update_where (\<lambda>r. job_id r = job_id c) (start_lease owner secs now)
                         (jobs d)\<rparr>))))"

definition live_lease :: "uuid \<Rightarrow> string \<Rightarrow> time \<Rightarrow> job \<Rightarrow> bool" where
  "live_lease jid owner now j \<longleftrightarrow> job_id j = jid \<and> lease_owner j = Some owner \<and>
     job_state j = Running \<and>
     (case lease_expires_at j of None \<Rightarrow> False | Some t \<Rightarrow> now \<le> t)"

definition extend_lease :: "string \<Rightarrow> int \<Rightarrow> time \<Rightarrow> job \<Rightarrow> job" where
  "extend_lease stage' secs now j =
     j\<lparr>stage := stage', lease_expires_at := Some (after_seconds now secs), updated_at := now\<rparr>"

definition heartbeat :: "time \<Rightarrow> uuid \<Rightarrow> string \<Rightarrow> string \<Rightarrow> int \<Rightarrow> db \<Rightarrow> bool \<times> db" where
  "heartbeat now jid owner stage' secs d =
     (case List.find (live_lease jid owner now) (jobs d) of
        None \<Rightarrow> (False, d)
      | Some j \<Rightarrow>
          (\<not> cancel_requested j,
           insert_event now (job_tenant j) jid ''progress'' (JObj [(''stage'', JStr stage')])
             (d\<lparr>jobs := update_where (live_lease jid owner now) (extend_lease stage' secs now) (jobs d)\<rparr>)))"

subsection \<open>Completion and cancellation\<close>

definition finish_outcome :: "job \<Rightarrow> json option \<Rightarrow> bool \<Rightarrow> job_state \<times> string \<times> string" where
  "finish_outcome j result retryable =
     (if cancel_requested j then (Cancelled, ''cancelled'', ''cancelled'')
      else if result \<noteq> None then (Succeeded, ''complete'', ''succeeded'')
      else if retryable \<and> attempt j < max_attempts j then (Queued, ''retrying'', ''retrying'')
      else (Failed, ''failed'', ''failed''))"

definition close_lease :: "job_state \<Rightarrow> string \<Rightarrow> json option \<Rightarrow> string option \<Rightarrow> time \<Rightarrow> job \<Rightarrow> job" where
  "close_lease st stage' result code now j =
     j\<lparr>job_state := st, stage := stage', job_result := result, error_code := code,
       lease_owner := None, lease_expires_at := None,
       completed_at := (if terminal st then Some now else None), updated_at := now\<rparr>"

definition error_payload :: "string option \<Rightarrow> json" where
  "error_payload code = (case code of
     Some c \<Rightarrow> if c = [] then JObj [] else JObj [(''error_code'', JStr c)]
   | None \<Rightarrow> JObj [])"

definition finish :: "time \<Rightarrow> uuid \<Rightarrow> string \<Rightarrow> json option \<Rightarrow> string option \<Rightarrow> bool \<Rightarrow> db \<Rightarrow>
    db_error + db" where
  "finish now jid owner result code retryable d =
     (case List.find (\<lambda>j. job_id j = jid \<and> lease_owner j = Some owner \<and> job_state j = Running) (jobs d) of
        None \<Rightarrow> Inl JobNotFound
      | Some current \<Rightarrow>
          (case finish_outcome current result retryable of (st, stage', kind) \<Rightarrow>
             Inr (insert_event now (job_tenant current) jid kind (error_payload code)
               (d\<lparr>jobs := update_where (\<lambda>j. job_id j = jid \<and> lease_owner j = Some owner)
                    (close_lease st stage' result code now) (jobs d)\<rparr>))))"

definition cancel_row :: "time \<Rightarrow> job \<Rightarrow> job" where
  "cancel_row now j =
     j\<lparr>cancel_requested := True,
       job_state := (if job_state j = Queued then Cancelled else job_state j),
       stage := (if job_state j = Queued then ''cancelled'' else stage j),
       completed_at := (if job_state j = Queued then Some now else completed_at j),
       updated_at := now\<rparr>"

definition cancellable :: "uuid \<Rightarrow> uuid \<Rightarrow> job \<Rightarrow> bool" where
  "cancellable tid jid j \<longleftrightarrow> job_tenant j = tid \<and> job_id j = jid \<and> job_state j \<in> {Queued, Running}"

definition request_cancel :: "time \<Rightarrow> uuid \<Rightarrow> uuid \<Rightarrow> db \<Rightarrow> bool \<times> db" where
  "request_cancel now tid jid d =
     (case List.find (cancellable tid jid) (jobs d) of
        None \<Rightarrow> (False, d)
      | Some j \<Rightarrow>
          (True, insert_event now tid jid ''cancel_requested'' (JObj [])
             (d\<lparr>jobs := update_where (cancellable tid jid) (cancel_row now) (jobs d)\<rparr>)))"

subsection \<open>Reading\<close>

record job_view =
  view_id :: uuid
  view_state :: job_state
  view_stage :: string
  view_attempt :: int
  view_max_attempts :: int
  view_cancel :: bool
  view_result :: "json option"
  view_error :: "string option"
  view_created :: time
  view_updated :: time
  view_completed :: "time option"

definition job_columns :: "job \<Rightarrow> job_view" where
  "job_columns j = \<lparr>view_id = job_id j, view_state = job_state j, view_stage = stage j,
     view_attempt = attempt j, view_max_attempts = max_attempts j, view_cancel = cancel_requested j,
     view_result = job_result j, view_error = error_code j, view_created = created_at j,
     view_updated = updated_at j, view_completed = completed_at j\<rparr>"

definition get_job :: "uuid \<Rightarrow> uuid \<Rightarrow> db \<Rightarrow> db_error + job_view" where
  "get_job tid jid d =
     (case List.find (\<lambda>j. job_tenant j = tid \<and> job_id j = jid) (jobs d) of
        None \<Rightarrow> Inl JobNotFound
      | Some j \<Rightarrow> Inr (job_columns j))"

definition clamp_limit :: "int \<Rightarrow> nat" where
  "clamp_limit limit = nat (min (max limit 1) 500)"

definition job_events :: "uuid \<Rightarrow> uuid \<Rightarrow> int \<Rightarrow> int \<Rightarrow> db \<Rightarrow> event list" where
  "job_events tid jid after limit d =
     take (clamp_limit limit)
       (select_by event_id (\<lambda>e. ev_tenant e = tid \<and> ev_job e = jid \<and> after < event_id e) (events d))"

subsection \<open>Delivery\<close>

record message =
  msg_id :: int
  msg_topic :: string
  msg_job :: uuid
  msg_payload :: json

definition claimable :: "int list \<Rightarrow> time \<Rightarrow> outbox_row \<Rightarrow> bool" where
  "claimable locked now r \<longleftrightarrow> published_at r = None \<and>
     (lock_expires_at r = None \<or> before (lock_expires_at r) now) \<and> outbox_id r \<notin> set locked"

definition claim_row :: "string \<Rightarrow> time \<Rightarrow> outbox_row \<Rightarrow> outbox_row" where
  "claim_row owner now r =
     r\<lparr>lock_owner := Some owner, lock_expires_at := Some (after_seconds now 30),
       attempts := attempts r + 1\<rparr>"

definition claim_outbox :: "int list \<Rightarrow> time \<Rightarrow> string \<Rightarrow> int \<Rightarrow> db \<Rightarrow> message list \<times> db" where
  "claim_outbox locked now owner limit d =
     (let rows = take (clamp_limit limit) (select_by outbox_id (claimable locked now) (outbox d));
          ids = map outbox_id rows
      in (map (\<lambda>r. \<lparr>msg_id = outbox_id r, msg_topic = topic r, msg_job = aggregate_id r,
                    msg_payload = ob_payload r\<rparr>) rows,
          d\<lparr>outbox := update_where (\<lambda>r. outbox_id r \<in> set ids) (claim_row owner now) (outbox d)\<rparr>))"

definition acknowledgeable :: "string \<Rightarrow> int \<Rightarrow> outbox_row \<Rightarrow> bool" where
  "acknowledgeable owner oid r \<longleftrightarrow> outbox_id r = oid \<and> lock_owner r = Some owner \<and> published_at r = None"

definition acknowledge_outbox :: "time \<Rightarrow> string \<Rightarrow> int \<Rightarrow> db \<Rightarrow> bool \<times> db" where
  "acknowledge_outbox now owner oid d =
     (length (filter (acknowledgeable owner oid) (outbox d)) = 1,
      d\<lparr>outbox := update_where (acknowledgeable owner oid)
          (\<lambda>r. r\<lparr>published_at := Some now, lock_owner := None, lock_expires_at := None\<rparr>) (outbox d)\<rparr>)"

end
