(* ===== verification/PlatformInv.thy ===== *)
theory PlatformInv
  imports PlatformDb
begin

section \<open>The job life cycle\<close>

text \<open>
  The transactions of \<open>PlatformDb\<close> as operations of one machine, the abstract life cycle of a single
  job (\<open>job_step\<close>), the refinement of the database to it, and the invariants of every reachable
  database.
\<close>

subsection \<open>Operations and reachable databases\<close>

datatype db_op =
    EnsureTenant string uuid
  | IssueKey uuid string string uuid
  | Authenticate string
  | Submit uuid object_ref string json int uuid uuid
  | LeaseNext "uuid list" string int
  | Heartbeat uuid string string int
  | Finish uuid string "json option" "string option" bool
  | RequestCancel uuid uuid
  | ClaimOutbox "int list" string int
  | AcknowledgeOutbox string int

definition committed :: "db \<Rightarrow> db_error + 'a \<times> db \<Rightarrow> db" where
  "committed d r = (case r of Inl _ \<Rightarrow> d | Inr (_, d') \<Rightarrow> d')"

fun apply_op :: "(string \<Rightarrow> string) \<Rightarrow> time \<Rightarrow> db_op \<Rightarrow> db \<Rightarrow> db" where
  "apply_op sha now (EnsureTenant s newid) d = committed d (ensure_tenant s newid d)"
| "apply_op sha now (IssueKey tid lbl secret newid) d = committed d (issue_api_key sha tid lbl secret newid d)"
| "apply_op sha now (Authenticate token) d = snd (authenticate sha now token d)"
| "apply_op sha now (Submit tid doc key req maxa newdoc newid) d =
     committed d (submit now tid doc key req maxa newdoc newid d)"
| "apply_op sha now (LeaseNext locked owner secs) d = snd (lease_next locked now owner secs d)"
| "apply_op sha now (Heartbeat jid owner stage' secs) d = snd (heartbeat now jid owner stage' secs d)"
| "apply_op sha now (Finish jid owner result code retryable) d =
     (case finish now jid owner result code retryable d of Inl _ \<Rightarrow> d | Inr d' \<Rightarrow> d')"
| "apply_op sha now (RequestCancel tid jid) d = snd (request_cancel now tid jid d)"
| "apply_op sha now (ClaimOutbox locked owner limit) d = snd (claim_outbox locked now owner limit d)"
| "apply_op sha now (AcknowledgeOutbox owner oid) d = snd (acknowledge_outbox now owner oid d)"

fun run_ops :: "(string \<Rightarrow> string) \<Rightarrow> (time \<times> db_op) list \<Rightarrow> db \<Rightarrow> db" where
  "run_ops sha [] d = d"
| "run_ops sha ((now, op) # ops) d = run_ops sha ops (apply_op sha now op d)"

inductive reachable :: "(string \<Rightarrow> string) \<Rightarrow> db \<Rightarrow> bool" for sha where
  init: "reachable sha empty_db"
| op: "reachable sha d \<Longrightarrow> reachable sha (apply_op sha now op d)"

lemma run_ops_append: "run_ops sha (xs @ ys) d = run_ops sha ys (run_ops sha xs d)"
  by (induction sha xs d rule: run_ops.induct) simp_all

lemma reachable_run_ops: "reachable sha d \<Longrightarrow> reachable sha (run_ops sha ops d)"
  by (induction sha ops d rule: run_ops.induct) (auto intro: reachable.op)

subsection \<open>One job\<close>

text \<open>
  The life cycle of a single row: what a transaction may do to it at time \<open>now\<close>.
\<close>

inductive job_step :: "time \<Rightarrow> job \<Rightarrow> job \<Rightarrow> bool" for now where
  start: "leasable [] now j \<Longrightarrow> job_step now j (start_lease owner secs now j)"
| extend: "live_lease (job_id j) owner now j \<Longrightarrow> job_step now j (extend_lease stage' secs now j)"
| close: "job_state j = Running \<Longrightarrow> lease_owner j = Some owner \<Longrightarrow>
    finish_outcome j result retryable = (st, stage', kind) \<Longrightarrow>
    job_step now j (close_lease st stage' result code now j)"
| cancel: "job_state j \<in> {Queued, Running} \<Longrightarrow> job_step now j (cancel_row now j)"

inductive_cases job_stepE: "job_step now j j'"

definition job_ok :: "job \<Rightarrow> bool" where
  "job_ok j \<longleftrightarrow>
     (job_state j = Running) = (lease_owner j \<noteq> None \<and> lease_expires_at j \<noteq> None) \<and>
     (lease_owner j = None) = (lease_expires_at j = None) \<and>
     (terminal (job_state j) \<longrightarrow> completed_at j \<noteq> None) \<and>
     (job_state j = Queued \<longrightarrow> \<not> cancel_requested j) \<and>
     (job_state j = Cancelled \<longrightarrow> cancel_requested j) \<and>
     (job_state j = Succeeded \<longrightarrow> job_result j \<noteq> None) \<and>
     0 \<le> attempt j \<and> attempt j \<le> max_attempts j \<and> 1 \<le> max_attempts j \<and> max_attempts j \<le> 20"

lemmas row_defs = start_lease_def extend_lease_def close_lease_def cancel_row_def

lemma finish_outcome_cases:
  "finish_outcome j result retryable = (st, stage', kind) \<Longrightarrow>
     st = Cancelled \<and> cancel_requested j \<or>
     st = Succeeded \<and> \<not> cancel_requested j \<and> result \<noteq> None \<or>
     st = Queued \<and> \<not> cancel_requested j \<and> result = None \<and> retryable \<and> attempt j < max_attempts j \<or>
     st = Failed \<and> \<not> cancel_requested j \<and> result = None"
  by (auto simp: finish_outcome_def split: if_splits)

lemma job_step_ok: "job_step now j j' \<Longrightarrow> job_ok j \<Longrightarrow> job_ok j'"
proof (induction rule: job_step.induct)
  case (start j owner secs)
  then show ?case by (auto simp: job_ok_def leasable_def start_lease_def terminal_def)
next
  case (extend j owner stage' secs)
  then show ?case by (auto simp: job_ok_def live_lease_def extend_lease_def terminal_def)
next
  case (close j owner result retryable st stage' kind code)
  from finish_outcome_cases [OF close(3)] close(1,4) show ?case
    by (auto simp: job_ok_def close_lease_def terminal_def)
next
  case (cancel j)
  then show ?case by (auto simp: job_ok_def cancel_row_def terminal_def)
qed

text \<open>What no step changes, and that a terminal row has no step.\<close>

lemma job_step_frame:
  "job_step now j j' \<Longrightarrow> job_id j' = job_id j \<and> job_tenant j' = job_tenant j \<and>
     job_document j' = job_document j \<and> job_key j' = job_key j \<and> request j' = request j \<and>
     max_attempts j' = max_attempts j \<and> created_at j' = created_at j"
  by (induction rule: job_step.induct) (simp_all add: row_defs)

lemma job_step_not_terminal: "job_step now j j' \<Longrightarrow> \<not> terminal (job_state j)"
  by (induction rule: job_step.induct) (auto simp: leasable_def live_lease_def terminal_def)

lemma job_step_cancel_sticks: "job_step now j j' \<Longrightarrow> cancel_requested j \<Longrightarrow> cancel_requested j'"
  by (induction rule: job_step.induct) (simp_all add: row_defs)

lemma job_step_attempt:
  "job_step now j j' \<Longrightarrow> attempt j' = attempt j \<or> attempt j' = attempt j + 1 \<and> leasable [] now j"
  by (induction rule: job_step.induct) (simp_all add: row_defs)

subsection \<open>The invariant\<close>

definition ids_ok :: "db \<Rightarrow> bool" where
  "ids_ok d \<longleftrightarrow> distinct (map job_id (jobs d)) \<and>
     distinct (map (\<lambda>j. (job_tenant j, job_key j)) (jobs d)) \<and>
     distinct (map document_id (documents d)) \<and>
     (\<forall>j \<in> set (jobs d). job_document j \<in> set (map document_id (documents d)))"

definition log_ok :: "db \<Rightarrow> bool" where
  "log_ok d \<longleftrightarrow> sorted_wrt (<) (map event_id (events d)) \<and>
     (\<forall>e \<in> set (events d). event_id e < next_event d) \<and>
     sorted_wrt (<) (map outbox_id (outbox d)) \<and>
     (\<forall>r \<in> set (outbox d). outbox_id r < next_outbox d) \<and>
     map (\<lambda>r. (topic r, aggregate_id r, ob_payload r)) (outbox d) =
       map (\<lambda>e. (''dsvire.job.event'', ev_job e, event_message e)) (events d)"

definition is_leased_event :: "uuid \<Rightarrow> event \<Rightarrow> bool" where
  "is_leased_event jid e \<longleftrightarrow> ev_job e = jid \<and> ev_kind e = ''leased''"

definition lease_count :: "uuid \<Rightarrow> event list \<Rightarrow> int" where
  "lease_count jid es = int (length (filter (is_leased_event jid) es))"

definition counts_ok :: "db \<Rightarrow> bool" where
  "counts_ok d \<longleftrightarrow> (\<forall>j \<in> set (jobs d). lease_count (job_id j) (events d) = attempt j) \<and>
     (\<forall>e \<in> set (events d). ev_job e \<in> set (map job_id (jobs d)))"

definition db_inv :: "db \<Rightarrow> bool" where
  "db_inv d \<longleftrightarrow> ids_ok d \<and> list_all job_ok (jobs d) \<and> log_ok d \<and> counts_ok d"

subsection \<open>Refinement to the life cycle\<close>

text \<open>Every row stays or makes one step of the life cycle.\<close>

definition rows_step :: "time \<Rightarrow> job list \<Rightarrow> job list \<Rightarrow> bool" where
  "rows_step now = list_all2 (\<lambda>j j'. j' = j \<or> job_step now j j')"

lemma rows_step_refl [simp]: "rows_step now js js"
  by (simp add: rows_step_def list_all2_refl)

lemma rows_step_update:
  "(\<And>j. j \<in> set js \<Longrightarrow> p j \<Longrightarrow> job_step now j (f j)) \<Longrightarrow> rows_step now js (update_where p f js)"
  by (induction js) (auto simp: rows_step_def update_where_def)

lemma rows_step_map:
  assumes "rows_step now js js'" and "\<And>j j'. job_step now j j' \<Longrightarrow> g j' = g j"
  shows "map g js' = map g js"
  using assms(1) unfolding rows_step_def by (induction rule: list_all2_induct) (use assms(2) in auto)

lemma rows_step_in:
  "rows_step now js js' \<Longrightarrow> j' \<in> set js' \<Longrightarrow> \<exists>j \<in> set js. j' = j \<or> job_step now j j'"
  unfolding rows_step_def by (induction rule: list_all2_induct) auto

lemma rows_step_from:
  "rows_step now js js' \<Longrightarrow> j \<in> set js \<Longrightarrow> \<exists>j' \<in> set js'. j' = j \<or> job_step now j j'"
  unfolding rows_step_def by (induction rule: list_all2_induct) auto

lemma rows_step_ok: "rows_step now js js' \<Longrightarrow> list_all job_ok js \<Longrightarrow> list_all job_ok js'"
  unfolding rows_step_def by (induction rule: list_all2_induct) (auto dest: job_step_ok)

text \<open>
  What an operation does to the whole database: the old rows step, at most one fresh queued row is
  appended, and the log grows by the events the operation writes.
\<close>

lemma insert_event_frame [simp]:
  "jobs (insert_event now tid jid kind payload d) = jobs d"
  "documents (insert_event now tid jid kind payload d) = documents d"
  "tenants (insert_event now tid jid kind payload d) = tenants d"
  "api_keys (insert_event now tid jid kind payload d) = api_keys d"
  by (simp_all add: insert_event_def Let_def)

lemma events_insert_event:
  "\<exists>e. events (insert_event now tid jid kind payload d) = events d @ [e] \<and> ev_job e = jid \<and>
     ev_tenant e = tid \<and> ev_kind e = kind \<and> ev_payload e = payload \<and> event_id e = next_event d"
  by (simp add: insert_event_def Let_def)

lemma insert_event_log_ok [intro]:
  "log_ok d \<Longrightarrow> log_ok (insert_event now tid jid kind payload d)"
  by (force simp: log_ok_def insert_event_def Let_def sorted_wrt_append)

lemma log_ok_jobs [simp]: "log_ok (d\<lparr>jobs := js\<rparr>) = log_ok d"
  by (simp add: log_ok_def)

lemma log_ok_documents [simp]: "log_ok (d\<lparr>documents := ds\<rparr>) = log_ok d"
  by (simp add: log_ok_def)

end
