(* ===== verification/PlatformRefine.thy ===== *)
theory PlatformRefine
  imports PlatformInv
begin

section \<open>Every operation refines the life cycle and keeps the invariant\<close>

text \<open>
  The effect of each transaction on the rows and the log, the refinement of \<open>apply_op\<close> to
  \<open>job_step\<close>, and the preservation of \<open>db_inv\<close>.
\<close>

subsection \<open>Effects\<close>

lemma insert_document_effect:
  assumes "insert_document tid r newid d = Inr (did, d')"
  obtains ds where "d' = d\<lparr>documents := documents d @ ds\<rparr>" and "did \<in> set (map document_id (documents d'))"
    and "set (map document_id ds) \<inter> set (map document_id (documents d)) = {}" and "distinct (map document_id ds)"
    and "document_checks r"
proof (cases "List.find (\<lambda>x. doc_tenant x = tid \<and> ref_sha256 (doc_ref x) = ref_sha256 r) (documents d)")
  case None
  with assms have "did = newid" "d' = d\<lparr>documents := documents d @ [\<lparr>document_id = newid, doc_tenant = tid, doc_ref = r\<rparr>]\<rparr>"
    "newid \<notin> set (map document_id (documents d))" "document_checks r"
    by (auto simp: insert_document_def split: if_splits)
  then show ?thesis using that [of "[\<lparr>document_id = newid, doc_tenant = tid, doc_ref = r\<rparr>]"] by simp
next
  case (Some x)
  with assms have "did = document_id x" "d' = d" "document_checks r"
    by (auto simp: insert_document_def split: if_splits)
  moreover from Some have "x \<in> set (documents d)" by (auto dest: find_SomeD)
  ultimately show ?thesis using that [of "[]"] by simp
qed

lemma submit_effect:
  assumes "submit now tid doc key req maxa newdoc newid d = Inr ((jid, created), d')"
  obtains did d1 where "insert_document tid doc newdoc d = Inr (did, d1)" and "job_checks key maxa"
    and "created \<Longrightarrow> jid = newid \<and> newid \<notin> set (map job_id (jobs d)) \<and>
      (tid, key) \<notin> set (map (\<lambda>j. (job_tenant j, job_key j)) (jobs d)) \<and>
      d' = insert_event now tid newid ''queued'' (JObj [(''stage'', JStr ''queued'')])
             (d1\<lparr>jobs := jobs d @ [new_job now tid did key req maxa newid]\<rparr>)"
    and "\<not> created \<Longrightarrow> d' = d1 \<and> (\<exists>j \<in> set (jobs d). job_id j = jid \<and> job_tenant j = tid \<and>
      job_key j = key \<and> job_document j = did \<and> py_eq (request j) req)"
proof -
  from assms obtain did d1 where ins: "insert_document tid doc newdoc d = Inr (did, d1)"
    and jc: "job_checks key maxa"
    by (auto simp: submit_def split: if_splits)
  from ins have jobs: "jobs d1 = jobs d" by (rule insert_document_effect) simp
  show ?thesis
  proof (rule that [OF ins jc])
    assume created
    with assms ins jc jobs show "jid = newid \<and> newid \<notin> set (map job_id (jobs d)) \<and>
      (tid, key) \<notin> set (map (\<lambda>j. (job_tenant j, job_key j)) (jobs d)) \<and>
      d' = insert_event now tid newid ''queued'' (JObj [(''stage'', JStr ''queued'')])
             (d1\<lparr>jobs := jobs d @ [new_job now tid did key req maxa newid]\<rparr>)"
      by (auto simp: submit_def find_None_iff split: if_splits option.splits)
  next
    assume "\<not> created"
    with assms ins jc jobs show "d' = d1 \<and> (\<exists>j \<in> set (jobs d). job_id j = jid \<and> job_tenant j = tid \<and>
      job_key j = key \<and> job_document j = did \<and> py_eq (request j) req)"
      by (auto simp: submit_def split: if_splits option.splits dest!: find_SomeD)
  qed
qed

lemma lease_next_effect:
  assumes "lease_next locked now owner secs d = (Some l, d')"
  obtains c doc where "c \<in> set (jobs d)" and "leasable locked now c"
    and "\<forall>j \<in> set (jobs d). leasable locked now j \<longrightarrow> (created_at c, job_id c) \<le> (created_at j, job_id j)"
    and "doc \<in> set (documents d)" and "document_id doc = job_document c"
    and "l = \<lparr>le_job = job_id c, le_tenant = job_tenant c, le_document = doc_ref doc,
              le_request = request c, le_attempt = attempt c + 1, le_cancel = cancel_requested c\<rparr>"
    and "d' = insert_event now (job_tenant c) (job_id c) ''leased''
                (JObj [(''attempt'', JInt (attempt c + 1))])
                (d\<lparr>jobs := update_where (\<lambda>r. job_id r = job_id c) (start_lease owner secs now) (jobs d)\<rparr>)"
proof -
  from assms obtain c where c: "first_by (\<lambda>j. (created_at j, job_id j)) (leasable locked now) (jobs d) = Some c"
    by (auto simp: lease_next_def split: option.splits)
  with assms obtain doc where doc: "List.find (\<lambda>x. document_id x = job_document c) (documents d) = Some doc"
    by (auto simp: lease_next_def split: option.splits)
  from assms c doc have "l = \<lparr>le_job = job_id c, le_tenant = job_tenant c, le_document = doc_ref doc,
              le_request = request c, le_attempt = attempt c + 1, le_cancel = cancel_requested c\<rparr>"
    "d' = insert_event now (job_tenant c) (job_id c) ''leased''
                (JObj [(''attempt'', JInt (attempt c + 1))])
                (d\<lparr>jobs := update_where (\<lambda>r. job_id r = job_id c) (start_lease owner secs now) (jobs d)\<rparr>)"
    by (simp_all add: lease_next_def Let_def start_lease_def)
  with first_by_Some [OF c] find_SomeD [OF doc] show ?thesis using that by blast
qed

lemma lease_next_None: "lease_next locked now owner secs d = (None, d') \<Longrightarrow> d' = d"
  by (auto simp: lease_next_def Let_def split: option.splits)

lemma finish_effect:
  assumes "finish now jid owner result code retryable d = Inr d'"
  obtains j st stage' kind where "j \<in> set (jobs d)" and "job_id j = jid" and "lease_owner j = Some owner"
    and "job_state j = Running" and "finish_outcome j result retryable = (st, stage', kind)"
    and "d' = insert_event now (job_tenant j) jid kind (error_payload code)
         (d\<lparr>jobs := update_where (\<lambda>j. job_id j = jid \<and> lease_owner j = Some owner)
              (close_lease st stage' result code now) (jobs d)\<rparr>)"
  using assms by (auto simp: finish_def split: option.splits prod.splits dest!: find_SomeD)

lemma heartbeat_effect:
  "heartbeat now jid owner stage' secs d = (ok, d') \<Longrightarrow>
     d' = d \<and> \<not> ok \<and> (\<forall>j \<in> set (jobs d). \<not> live_lease jid owner now j) \<or>
     (\<exists>j \<in> set (jobs d). live_lease jid owner now j \<and> ok = (\<not> cancel_requested j) \<and>
        d' = insert_event now (job_tenant j) jid ''progress'' (JObj [(''stage'', JStr stage')])
             (d\<lparr>jobs := update_where (live_lease jid owner now) (extend_lease stage' secs now) (jobs d)\<rparr>))"
  by (auto simp: heartbeat_def find_None_iff split: option.splits dest!: find_SomeD)

lemma request_cancel_effect:
  "request_cancel now tid jid d = (ok, d') \<Longrightarrow>
     d' = d \<and> \<not> ok \<and> (\<forall>j \<in> set (jobs d). \<not> cancellable tid jid j) \<or>
     ok \<and> (\<exists>j \<in> set (jobs d). cancellable tid jid j) \<and>
        d' = insert_event now tid jid ''cancel_requested'' (JObj [])
             (d\<lparr>jobs := update_where (cancellable tid jid) (cancel_row now) (jobs d)\<rparr>)"
  by (auto simp: request_cancel_def find_None_iff split: option.splits dest!: find_SomeD)

subsection \<open>Refinement\<close>

definition fresh_row :: "time \<Rightarrow> db \<Rightarrow> db \<Rightarrow> job list \<Rightarrow> bool" where
  "fresh_row now d d' js \<longleftrightarrow> js = [] \<or>
     (\<exists>tid did key req maxa newid. js = [new_job now tid did key req maxa newid] \<and>
        job_checks key maxa \<and> newid \<notin> set (map job_id (jobs d)) \<and>
        (tid, key) \<notin> set (map (\<lambda>j. (job_tenant j, job_key j)) (jobs d)) \<and>
        did \<in> set (map document_id (documents d')))"

lemma fresh_rowI:
  "job_checks key maxa \<Longrightarrow> newid \<notin> set (map job_id (jobs d)) \<Longrightarrow>
   (tid, key) \<notin> set (map (\<lambda>j. (job_tenant j, job_key j)) (jobs d)) \<Longrightarrow>
   did \<in> set (map document_id (documents d')) \<Longrightarrow>
   fresh_row now d d' [new_job now tid did key req maxa newid]"
  unfolding fresh_row_def by blast

definition refines :: "time \<Rightarrow> db \<Rightarrow> db \<Rightarrow> bool" where
  "refines now d d' \<longleftrightarrow> (\<exists>old new. jobs d' = old @ new \<and> rows_step now (jobs d) old \<and> fresh_row now d d' new)"

lemma refines_jobs: "rows_step now (jobs d) (jobs d') \<Longrightarrow> refines now d d'"
  by (auto simp: refines_def fresh_row_def)

lemma refines_same: "jobs d' = jobs d \<Longrightarrow> refines now d d'"
  by (auto intro!: refines_jobs)

lemma rows_step_update_id:
  assumes "distinct (map job_id js)" and "c \<in> set js" and "job_step now c (f c)"
  shows "rows_step now js (update_where (\<lambda>r. job_id r = job_id c) f js)"
  using assms by (intro rows_step_update) (metis distinct_map_eq)

lemma db_invD:
  "db_inv d \<Longrightarrow> distinct (map job_id (jobs d))"
  "db_inv d \<Longrightarrow> j \<in> set (jobs d) \<Longrightarrow> job_ok j"
  "db_inv d \<Longrightarrow> log_ok d"
  "db_inv d \<Longrightarrow> counts_ok d"
  "db_inv d \<Longrightarrow> ids_ok d"
  by (auto simp: db_inv_def ids_ok_def list_all_iff)

lemma leasable_unlocked: "leasable locked now j \<Longrightarrow> leasable [] now j"
  by (simp add: leasable_def)

lemma refines_lease_next:
  assumes "db_inv d"
  shows "refines now d (snd (lease_next locked now owner secs d))"
proof (cases "lease_next locked now owner secs d")
  case (Pair l d')
  show ?thesis
  proof (cases l)
    case None
    with Pair show ?thesis by (auto dest: lease_next_None intro: refines_same)
  next
    case (Some a)
    with Pair obtain c where "c \<in> set (jobs d)" "leasable locked now c"
      "jobs d' = update_where (\<lambda>r. job_id r = job_id c) (start_lease owner secs now) (jobs d)"
      by (auto elim: lease_next_effect)
    with Pair db_invD(1) [OF assms] show ?thesis
      by (auto intro!: refines_jobs rows_step_update_id job_step.start leasable_unlocked)
  qed
qed

lemma refines_finish:
  assumes "db_inv d" and "finish now jid owner result code retryable d = Inr d'"
  shows "refines now d d'"
  using assms(2)
proof (rule finish_effect)
  fix j st stage' kind
  assume j: "j \<in> set (jobs d)" "job_id j = jid" "lease_owner j = Some owner" "job_state j = Running"
    "finish_outcome j result retryable = (st, stage', kind)"
    and d': "d' = insert_event now (job_tenant j) jid kind (error_payload code)
         (d\<lparr>jobs := update_where (\<lambda>j. job_id j = jid \<and> lease_owner j = Some owner)
              (close_lease st stage' result code now) (jobs d)\<rparr>)"
  have "rows_step now (jobs d) (jobs d')"
    unfolding d' insert_event_frame using j db_invD(1) [OF assms(1)]
    by (auto intro!: rows_step_update) (metis distinct_map_eq job_step.close)
  then show ?thesis by (rule refines_jobs)
qed

lemma refines_submit:
  assumes "submit now tid doc key req maxa newdoc newid d = Inr ((jid, created), d')"
  shows "refines now d d'"
  using assms
proof (rule submit_effect)
  fix did d1
  assume ins: "insert_document tid doc newdoc d = Inr (did, d1)" and "job_checks key maxa"
    and c: "created \<Longrightarrow> jid = newid \<and> newid \<notin> set (map job_id (jobs d)) \<and>
      (tid, key) \<notin> set (map (\<lambda>j. (job_tenant j, job_key j)) (jobs d)) \<and>
      d' = insert_event now tid newid ''queued'' (JObj [(''stage'', JStr ''queued'')])
             (d1\<lparr>jobs := jobs d @ [new_job now tid did key req maxa newid]\<rparr>)"
    and n: "\<not> created \<Longrightarrow> d' = d1 \<and> (\<exists>j \<in> set (jobs d). job_id j = jid \<and> job_tenant j = tid \<and>
      job_key j = key \<and> job_document j = did \<and> py_eq (request j) req)"
  from ins obtain ds where d1: "d1 = d\<lparr>documents := documents d @ ds\<rparr>"
    and did: "did \<in> set (map document_id (documents d1))" by (rule insert_document_effect)
  show ?thesis
  proof (cases created)
    case True
    note c = c [OF True]
    then have "jobs d' = jobs d @ [new_job now tid did key req maxa newid]" by simp
    moreover have "fresh_row now d d' [new_job now tid did key req maxa newid]"
      using c did \<open>job_checks key maxa\<close> by (intro fresh_rowI) simp_all
    ultimately show ?thesis unfolding refines_def using rows_step_refl by blast
  next
    case False
    with n d1 show ?thesis by (simp add: refines_same)
  qed
qed

theorem apply_op_refines:
  assumes "db_inv d"
  shows "refines now d (apply_op sha now op d)"
proof (cases op)
  case (EnsureTenant s newid)
  then show ?thesis
    by (auto simp: committed_def ensure_tenant_def intro!: refines_same split: sum.splits option.splits if_splits)
next
  case (IssueKey tid lbl secret newid)
  then show ?thesis
    by (auto simp: committed_def issue_api_key_def Let_def intro!: refines_same split: sum.splits if_splits)
next
  case (Authenticate token)
  then show ?thesis by (auto simp: authenticate_def intro!: refines_same)
next
  case (Submit tid doc key req maxa newdoc newid)
  then show ?thesis
    by (auto simp: committed_def intro: refines_same refines_submit split: sum.splits)
next
  case (LeaseNext locked owner secs)
  then show ?thesis by (simp add: refines_lease_next [OF assms])
next
  case (Heartbeat jid owner stage' secs)
  obtain ok d' where h: "heartbeat now jid owner stage' secs d = (ok, d')" by fastforce
  have "refines now d d'" using heartbeat_effect [OF h]
  proof (elim disjE conjE bexE)
    assume "d' = d" then show ?thesis by (simp add: refines_same)
  next
    fix j
    assume "d' = insert_event now (job_tenant j) jid ''progress'' (JObj [(''stage'', JStr stage')])
             (d\<lparr>jobs := update_where (live_lease jid owner now) (extend_lease stage' secs now) (jobs d)\<rparr>)"
    then show ?thesis
      by (auto intro!: refines_jobs rows_step_update job_step.extend simp: live_lease_def)
  qed
  with Heartbeat h show ?thesis by simp
next
  case (Finish jid owner result code retryable)
  then show ?thesis
    by (auto intro: refines_same refines_finish [OF assms] split: sum.splits)
next
  case (RequestCancel tid jid)
  obtain ok d' where h: "request_cancel now tid jid d = (ok, d')" by fastforce
  have "refines now d d'" using request_cancel_effect [OF h]
    by (auto intro!: refines_same refines_jobs rows_step_update job_step.cancel simp: cancellable_def)
  with RequestCancel h show ?thesis by simp
next
  case (ClaimOutbox locked owner limit)
  then show ?thesis by (simp add: claim_outbox_def Let_def refines_same)
next
  case (AcknowledgeOutbox owner oid)
  then show ?thesis by (simp add: acknowledge_outbox_def refines_same)
qed

subsection \<open>Preservation\<close>

lemma new_job_ok [simp]: "job_checks key maxa \<Longrightarrow> job_ok (new_job now tid did key req maxa newid)"
  by (simp add: job_ok_def new_job_def job_checks_def terminal_def)

lemma refines_job_ok:
  assumes "refines now d d'" and "list_all job_ok (jobs d)"
  shows "list_all job_ok (jobs d')"
  using assms by (auto simp: refines_def fresh_row_def dest: rows_step_ok)

lemma documents_grow: "\<exists>ds. documents (apply_op sha now op d) = documents d @ ds \<and>
    distinct (map document_id ds) \<and> set (map document_id ds) \<inter> set (map document_id (documents d)) = {}"
proof (cases op)
  case (Submit tid doc key req maxa newdoc newid)
  show ?thesis
  proof (cases "submit now tid doc key req maxa newdoc newid d")
    case (Inl e)
    with Submit show ?thesis by (simp add: committed_def)
  next
    case (Inr r)
    obtain jid created d' where r: "r = ((jid, created), d')" by (metis prod.exhaust)
    from Inr [unfolded r] obtain did d1 where ins: "insert_document tid doc newdoc d = Inr (did, d1)"
      and doc': "documents d' = documents d1"
      by (rule submit_effect) (cases created; auto)
    from ins show ?thesis
      by (rule insert_document_effect) (use Submit Inr r doc' in \<open>auto simp: committed_def\<close>)
  qed
next
  case (LeaseNext locked owner secs)
  then show ?thesis by (auto simp: lease_next_def Let_def split: option.splits)
next
  case (Finish jid owner result code retryable)
  then show ?thesis by (auto simp: finish_def split: option.splits prod.splits)
qed (auto simp: committed_def ensure_tenant_def issue_api_key_def authenticate_def Let_def heartbeat_def
  request_cancel_def claim_outbox_def acknowledge_outbox_def split: sum.splits option.splits if_splits)

lemma rows_step_keys:
  assumes "rows_step now js js'"
  shows "map job_id js' = map job_id js"
    and "map (\<lambda>j. (job_tenant j, job_key j)) js' = map (\<lambda>j. (job_tenant j, job_key j)) js"
    and "map job_document js' = map job_document js"
  by (rule rows_step_map [OF assms], simp add: job_step_frame)+

lemma apply_op_ids_ok:
  assumes "db_inv d"
  shows "ids_ok (apply_op sha now op d)"
proof -
  let ?d = "apply_op sha now op d"
  obtain old new where jobs: "jobs ?d = old @ new"
    and step: "rows_step now (jobs d) old" and fresh: "fresh_row now d ?d new"
    using apply_op_refines [OF assms] unfolding refines_def by blast
  obtain ds where ds: "documents ?d = documents d @ ds" "distinct (map document_id ds)"
    "set (map document_id ds) \<inter> set (map document_id (documents d)) = {}"
    using documents_grow by blast
  note keys = rows_step_keys [OF step]
  from assms have ids: "ids_ok d" by (rule db_invD)
  have "set (map job_document old) \<subseteq> set (map document_id (documents ?d))"
    using ids ds(1) unfolding keys ids_ok_def by auto
  then have docs: "\<forall>j \<in> set old. job_document j \<in> set (map document_id (documents ?d))" by auto
  from fresh show ?thesis
    unfolding fresh_row_def
  proof (elim disjE exE conjE)
    assume "new = []"
    with jobs ds ids docs show ?thesis
      by (auto simp: ids_ok_def keys)
  next
    fix tid did key req maxa newid
    assume "new = [new_job now tid did key req maxa newid]" "newid \<notin> set (map job_id (jobs d))"
      "(tid, key) \<notin> set (map (\<lambda>j. (job_tenant j, job_key j)) (jobs d))"
      "did \<in> set (map document_id (documents ?d))"
    with jobs ds ids docs show ?thesis
      by (auto simp: ids_ok_def keys new_job_def simp flip: set_map)
  qed
qed

lemma log_ok_update_outbox:
  assumes "log_ok d" and "map outbox_id rows = map outbox_id (outbox d)"
    and "map (\<lambda>r. (topic r, aggregate_id r, ob_payload r)) rows =
         map (\<lambda>r. (topic r, aggregate_id r, ob_payload r)) (outbox d)"
  shows "log_ok (d\<lparr>outbox := rows\<rparr>)"
proof -
  from assms(1) have "\<forall>i \<in> set (map outbox_id (outbox d)). i < next_outbox d"
    by (simp add: log_ok_def)
  then have "\<forall>r \<in> set rows. outbox_id r < next_outbox d"
    by (simp flip: assms(2))
  with assms show ?thesis by (simp add: log_ok_def)
qed

lemma claim_outbox_log_ok:
  "log_ok d \<Longrightarrow> log_ok (snd (claim_outbox locked now owner limit d))"
  unfolding claim_outbox_def Let_def snd_conv
  by (intro log_ok_update_outbox map_update_where) (simp_all add: claim_row_def)

lemma acknowledge_outbox_log_ok:
  "log_ok d \<Longrightarrow> log_ok (snd (acknowledge_outbox now owner oid d))"
  unfolding acknowledge_outbox_def snd_conv
  by (intro log_ok_update_outbox map_update_where) simp_all

lemma apply_op_log_ok:
  assumes "log_ok d"
  shows "log_ok (apply_op sha now op d)"
proof (cases op)
  case (EnsureTenant s newid)
  with assms show ?thesis
    by (auto simp: committed_def ensure_tenant_def log_ok_def split: option.splits)
next
  case (IssueKey tid lbl secret newid)
  with assms show ?thesis
    by (auto simp: committed_def issue_api_key_def Let_def log_ok_def)
next
  case (Authenticate token)
  with assms show ?thesis by (auto simp: authenticate_def log_ok_def)
next
  case (Submit tid doc key req maxa newdoc newid)
  show ?thesis
  proof (cases "submit now tid doc key req maxa newdoc newid d")
    case (Inr r)
    obtain jid created d' where r: "r = ((jid, created), d')" by (metis prod.exhaust)
    have "log_ok d'" using Inr [unfolded r]
    proof (rule submit_effect)
      fix did d1
      assume "insert_document tid doc newdoc d = Inr (did, d1)"
        and c: "created \<Longrightarrow> jid = newid \<and> newid \<notin> set (map job_id (jobs d)) \<and>
          (tid, key) \<notin> set (map (\<lambda>j. (job_tenant j, job_key j)) (jobs d)) \<and>
          d' = insert_event now tid newid ''queued'' (JObj [(''stage'', JStr ''queued'')])
             (d1\<lparr>jobs := jobs d @ [new_job now tid did key req maxa newid]\<rparr>)"
        and n: "\<not> created \<Longrightarrow> d' = d1 \<and> (\<exists>j \<in> set (jobs d). job_id j = jid \<and> job_tenant j = tid \<and>
          job_key j = key \<and> job_document j = did \<and> py_eq (request j) req)"
      then have "log_ok d1" using assms by (auto elim: insert_document_effect)
      then show ?thesis using c n by (cases created) auto
    qed
    with Submit Inr r show ?thesis by (simp add: committed_def)
  qed (use assms Submit in \<open>simp add: committed_def\<close>)
next
  case (LeaseNext locked owner secs)
  with assms show ?thesis by (auto simp: lease_next_def Let_def split: option.splits)
next
  case (Heartbeat jid owner stage' secs)
  with assms show ?thesis by (auto simp: heartbeat_def split: option.splits)
next
  case (Finish jid owner result code retryable)
  with assms show ?thesis by (auto simp: finish_def split: option.splits prod.splits)
next
  case (RequestCancel tid jid)
  with assms show ?thesis by (auto simp: request_cancel_def split: option.splits)
next
  case (ClaimOutbox locked owner limit)
  with assms show ?thesis by (simp add: claim_outbox_log_ok)
next
  case (AcknowledgeOutbox owner oid)
  with assms show ?thesis by (simp add: acknowledge_outbox_log_ok)
qed

lemma lease_count_append [simp]:
  "lease_count jid (es @ [e]) = lease_count jid es + (if is_leased_event jid e then 1 else 0)"
  by (simp add: lease_count_def)

lemma lease_count_fresh: "(\<And>e. e \<in> set es \<Longrightarrow> ev_job e \<noteq> jid) \<Longrightarrow> lease_count jid es = 0"
  by (auto simp: lease_count_def is_leased_event_def filter_empty_conv)

lemma counts_ok_frame:
  "counts_ok d \<Longrightarrow> jobs d' = jobs d \<Longrightarrow> events d' = events d \<Longrightarrow> counts_ok d'"
  by (simp add: counts_ok_def)

text \<open>
  An update of rows that leaves identifiers and attempts alone, followed by an event of another kind
  than \<open>leased\<close>, keeps the counts.
\<close>

lemma counts_ok_event:
  assumes "counts_ok d"
    and eq: "map (\<lambda>j. (job_id j, attempt j)) js = map (\<lambda>j. (job_id j, attempt j)) (jobs d)"
    and "jid \<in> set (map job_id (jobs d))" and "kind \<noteq> ''leased''"
  shows "counts_ok (insert_event now tid jid kind payload (d\<lparr>jobs := js\<rparr>))"
proof -
  obtain e where e: "events (insert_event now tid jid kind payload (d\<lparr>jobs := js\<rparr>)) = events d @ [e]"
    "ev_job e = jid" "ev_kind e = kind"
    using events_insert_event [of now tid jid kind payload "d\<lparr>jobs := js\<rparr>"] by auto
  from eq have s: "(\<lambda>j. (job_id j, attempt j)) ` set js = (\<lambda>j. (job_id j, attempt j)) ` set (jobs d)"
    by (metis set_map)
  have "\<exists>j0 \<in> set (jobs d). job_id j0 = job_id j \<and> attempt j0 = attempt j" if "j \<in> set js" for j
  proof -
    from that have "(job_id j, attempt j) \<in> (\<lambda>j. (job_id j, attempt j)) ` set js" by (rule imageI)
    then show ?thesis unfolding s by auto
  qed
  moreover have "set (map job_id js) = set (map job_id (jobs d))"
    using arg_cong [OF s, of "image fst"] by (simp add: image_image)
  ultimately show ?thesis
    using assms(1,3,4) e by (fastforce simp: counts_ok_def is_leased_event_def)
qed

lemma counts_ok_update:
  assumes "counts_ok d" and "\<And>j. p j \<Longrightarrow> job_id (f j) = job_id j \<and> attempt (f j) = attempt j"
    and "jid \<in> set (map job_id (jobs d))" and "kind \<noteq> ''leased''"
  shows "counts_ok (insert_event now tid jid kind payload (d\<lparr>jobs := update_where p f (jobs d)\<rparr>))"
  using assms by (intro counts_ok_event map_update_where) simp_all

lemma counts_ok_lease:
  assumes "db_inv d" and "c \<in> set (jobs d)"
  shows "counts_ok (insert_event now tid (job_id c) ''leased'' payload
    (d\<lparr>jobs := update_where (\<lambda>r. job_id r = job_id c) (start_lease owner secs now) (jobs d)\<rparr>))"
proof -
  let ?js = "update_where (\<lambda>r. job_id r = job_id c) (start_lease owner secs now) (jobs d)"
  obtain e where e: "events (insert_event now tid (job_id c) ''leased'' payload (d\<lparr>jobs := ?js\<rparr>)) = events d @ [e]"
    "ev_job e = job_id c" "ev_kind e = ''leased''"
    using events_insert_event [of now tid "job_id c" "''leased''" payload "d\<lparr>jobs := ?js\<rparr>"] by auto
  from assms(1) have ok: "counts_ok d" by (rule db_invD)
  have "map job_id ?js = map job_id (jobs d)"
    by (rule map_update_where) (simp add: start_lease_def)
  then have "set (map job_id ?js) = set (map job_id (jobs d))" by simp
  moreover have "lease_count (job_id j) (events d @ [e]) = attempt j" if "j \<in> set ?js" for j
    using that ok e(2,3)
    by (elim in_update_whereE) (auto simp: counts_ok_def is_leased_event_def start_lease_def)
  ultimately show ?thesis
    using ok e assms(2) by (auto simp: counts_ok_def)
qed

lemma counts_ok_new:
  assumes "counts_ok d" and "newid \<notin> set (map job_id (jobs d))"
  shows "counts_ok (insert_event now tid newid ''queued'' payload
    (d\<lparr>jobs := jobs d @ [new_job now tid did key req maxa newid]\<rparr>))"
proof -
  let ?d = "d\<lparr>jobs := jobs d @ [new_job now tid did key req maxa newid]\<rparr>"
  obtain e where e: "events (insert_event now tid newid ''queued'' payload ?d) = events d @ [e]"
    "ev_job e = newid" "ev_kind e = ''queued''"
    using events_insert_event [of now tid newid "''queued''" payload ?d] by auto
  have "lease_count newid (events d) = 0"
    using assms by (intro lease_count_fresh) (auto simp: counts_ok_def)
  with assms e show ?thesis
    by (auto simp: counts_ok_def is_leased_event_def new_job_def)
qed

lemma apply_op_counts_ok:
  assumes "db_inv d"
  shows "counts_ok (apply_op sha now op d)"
proof (cases op)
  case (EnsureTenant s newid)
  then show ?thesis
    by (auto simp: committed_def ensure_tenant_def split: option.splits
        intro: counts_ok_frame [OF db_invD(4) [OF assms]] db_invD(4) [OF assms])
next
  case (IssueKey tid lbl secret newid)
  then show ?thesis
    by (auto simp: committed_def issue_api_key_def Let_def
        intro: counts_ok_frame [OF db_invD(4) [OF assms]] db_invD(4) [OF assms])
next
  case (Authenticate token)
  then show ?thesis
    by (auto simp: authenticate_def intro: counts_ok_frame [OF db_invD(4) [OF assms]] db_invD(4) [OF assms])
next
  case (Submit tid doc key req maxa newdoc newid)
  show ?thesis
  proof (cases "submit now tid doc key req maxa newdoc newid d")
    case (Inr r)
    obtain jid created d' where r: "r = ((jid, created), d')" by (metis prod.exhaust)
    have "counts_ok d'" using Inr [unfolded r]
    proof (rule submit_effect)
      fix did d1
      assume ins: "insert_document tid doc newdoc d = Inr (did, d1)"
        and c: "created \<Longrightarrow> jid = newid \<and> newid \<notin> set (map job_id (jobs d)) \<and>
          (tid, key) \<notin> set (map (\<lambda>j. (job_tenant j, job_key j)) (jobs d)) \<and>
          d' = insert_event now tid newid ''queued'' (JObj [(''stage'', JStr ''queued'')])
             (d1\<lparr>jobs := jobs d @ [new_job now tid did key req maxa newid]\<rparr>)"
        and n: "\<not> created \<Longrightarrow> d' = d1 \<and> (\<exists>j \<in> set (jobs d). job_id j = jid \<and> job_tenant j = tid \<and>
          job_key j = key \<and> job_document j = did \<and> py_eq (request j) req)"
      from ins obtain ds where d1: "d1 = d\<lparr>documents := documents d @ ds\<rparr>" by (rule insert_document_effect)
      then have ok: "counts_ok d1" "jobs d1 = jobs d"
        using db_invD(4) [OF assms] by (simp_all add: counts_ok_def)
      show ?thesis
      proof (cases created)
        case True
        with c ok show ?thesis using counts_ok_new [of d1] by simp
      next
        case False
        with n ok show ?thesis by simp
      qed
    qed
    with Submit Inr r show ?thesis by (simp add: committed_def)
  qed (use db_invD(4) [OF assms] Submit in \<open>simp add: committed_def\<close>)
next
  case (LeaseNext locked owner secs)
  obtain l d' where h: "lease_next locked now owner secs d = (l, d')" by fastforce
  have "counts_ok d'"
  proof (cases l)
    case None
    with h db_invD(4) [OF assms] show ?thesis by (auto dest: lease_next_None)
  next
    case (Some a)
    with h show ?thesis by (auto elim!: lease_next_effect intro!: counts_ok_lease [OF assms])
  qed
  with LeaseNext h show ?thesis by simp
next
  case (Heartbeat jid owner stage' secs)
  obtain ok d' where h: "heartbeat now jid owner stage' secs d = (ok, d')" by fastforce
  have "counts_ok d'" using heartbeat_effect [OF h] db_invD(4) [OF assms]
    by (auto intro!: counts_ok_update simp: extend_lease_def live_lease_def)
  with Heartbeat h show ?thesis by simp
next
  case (Finish jid owner result code retryable)
  show ?thesis
  proof (cases "finish now jid owner result code retryable d")
    case (Inl e)
    with Finish db_invD(4) [OF assms] show ?thesis by simp
  next
    case (Inr d')
    then have "counts_ok d'"
      by (rule finish_effect)
        (auto intro!: counts_ok_update db_invD(4) [OF assms] simp: close_lease_def finish_outcome_def split: if_splits)
    with Finish Inr show ?thesis by simp
  qed
next
  case (RequestCancel tid jid)
  obtain ok d' where h: "request_cancel now tid jid d = (ok, d')" by fastforce
  have "counts_ok d'" using request_cancel_effect [OF h] db_invD(4) [OF assms]
    by (auto intro!: counts_ok_update simp: cancel_row_def cancellable_def)
  with RequestCancel h show ?thesis by simp
next
  case (ClaimOutbox locked owner limit)
  then show ?thesis
    by (simp add: claim_outbox_def Let_def counts_ok_frame [OF db_invD(4) [OF assms]])
next
  case (AcknowledgeOutbox owner oid)
  then show ?thesis
    by (simp add: acknowledge_outbox_def counts_ok_frame [OF db_invD(4) [OF assms]])
qed

lemma db_inv_empty [simp]: "db_inv empty_db"
  by (simp add: db_inv_def ids_ok_def log_ok_def counts_ok_def empty_db_def)

theorem apply_op_inv: "db_inv d \<Longrightarrow> db_inv (apply_op sha now op d)"
  using apply_op_ids_ok apply_op_counts_ok apply_op_log_ok refines_job_ok apply_op_refines
  unfolding db_inv_def by blast

lemma reachable_inv: "reachable sha d \<Longrightarrow> db_inv d"
  by (induction rule: reachable.induct) (simp_all add: apply_op_inv)

end
