(* ===== verification/PlatformProps.thy ===== *)
theory PlatformProps
  imports PlatformRefine
begin

section \<open>Guarantees of the job database\<close>

text \<open>
  What the database promises the API and the workers, over any sequence of transactions at any clock
  readings: well-formed rows, terminal states that stay, exactly-once submission, exclusive leases,
  bounded attempts, the transactional outbox, tenant isolation, and the jobs that no transaction can
  bring to an end.
\<close>

subsection \<open>Rows over sequences of transactions\<close>

lemma apply_op_row:
  assumes "db_inv d" and "j \<in> set (jobs d)"
  shows "\<exists>j' \<in> set (jobs (apply_op sha now op d)). j' = j \<or> job_step now j j'"
proof -
  obtain old new where "jobs (apply_op sha now op d) = old @ new" "rows_step now (jobs d) old"
    using apply_op_refines [OF assms(1)] unfolding refines_def by blast
  with rows_step_from [OF _ assms(2)] show ?thesis by (metis Un_iff set_append)
qed

lemma run_ops_inv: "db_inv d \<Longrightarrow> db_inv (run_ops sha ops d)"
  by (induction sha ops d rule: run_ops.induct) (simp_all add: apply_op_inv)

text \<open>
  The rule for following a row: a relation to the starting row that every step of the life cycle
  keeps holds for the row with the same identifier after any sequence of transactions.
\<close>

lemma run_ops_row:
  assumes "db_inv d" and "j \<in> set (jobs d)" and "P j"
    and step: "\<And>now j j'. job_step now j j' \<Longrightarrow> P j \<Longrightarrow> P j'"
  shows "\<exists>j' \<in> set (jobs (run_ops sha ops d)). P j'"
  using assms(1-3)
proof (induction sha ops d arbitrary: j rule: run_ops.induct)
  case (2 sha now op ops d)
  obtain j1 where j1: "j1 \<in> set (jobs (apply_op sha now op d))" "j1 = j \<or> job_step now j j1"
    using apply_op_row [OF 2(2,3)] by blast
  with step 2(4) have "P j1" by auto
  with 2(1) [OF apply_op_inv [OF 2(2)] j1(1)] show ?case by simp
qed auto

lemma run_ops_frame:
  assumes "db_inv d" and "j \<in> set (jobs d)"
  shows "\<exists>j' \<in> set (jobs (run_ops sha ops d)). job_id j' = job_id j \<and> job_tenant j' = job_tenant j \<and>
    job_document j' = job_document j \<and> job_key j' = job_key j \<and> request j' = request j"
  using assms by (rule run_ops_row) (auto dest: job_step_frame)

lemma run_ops_documents: "\<exists>ds. documents (run_ops sha ops d) = documents d @ ds"
proof (induction sha ops d rule: run_ops.induct)
  case (2 sha now op ops d)
  then show ?case using documents_grow [of sha now op d] by fastforce
qed simp

subsection \<open>Properties\<close>

text \<open>
  Every row of every reachable database satisfies the table constraints and more: a row is
  running exactly when it carries an owner and an expiry, a terminal row has a completion time, a
  queued row is not marked for cancellation, a succeeded one has a result, and
  \<open>0 <= attempt <= max_attempts <= 20\<close>.
\<close>

theorem reachable_rows_well_formed:
  assumes "reachable sha d" and "j \<in> set (jobs d)"
  shows "job_ok j"
  using db_invD(2) [OF reachable_inv [OF assms(1)] assms(2)] .

text \<open>
  C2. Terminal states are absorbing: once a job succeeded, failed or was cancelled, its row is never
  changed again, by any sequence of transactions of any clients and workers.
\<close>

theorem terminal_rows_never_change:
  assumes "reachable sha d" and "j \<in> set (jobs d)" and "terminal (job_state j)"
  shows "j \<in> set (jobs (run_ops sha ops d))"
proof -
  have "\<exists>j' \<in> set (jobs (run_ops sha ops d)). j' = j"
    using reachable_inv [OF assms(1)] assms(2) refl
    by (rule run_ops_row) (use assms(3) job_step_not_terminal in blast)
  then show ?thesis by blast
qed

text \<open>
  C6. Attempts are counted and bounded: the number of \<open>leased\<close> events in the log of a job is its
  attempt counter, and never exceeds \<open>max_attempts\<close>.
\<close>

theorem leases_counted_and_bounded:
  assumes "reachable sha d" and "j \<in> set (jobs d)"
  shows "lease_count (job_id j) (events d) = attempt j \<and> lease_count (job_id j) (events d) \<le> max_attempts j"
  using reachable_inv [OF assms(1)] assms(2) db_invD(2,4)
  by (fastforce simp: counts_ok_def job_ok_def)

text \<open>
  The outbox is transactional: in every reachable database the outbox holds exactly one message
  per event, in the same order, and event identifiers increase.
\<close>

theorem outbox_mirrors_event_log:
  assumes "reachable sha d"
  shows "map (\<lambda>r. (topic r, aggregate_id r, ob_payload r)) (outbox d) =
      map (\<lambda>e. (''dsvire.job.event'', ev_job e, event_message e)) (events d) \<and>
    sorted_wrt (<) (map event_id (events d))"
  using db_invD(3) [OF reachable_inv [OF assms]] by (simp add: log_ok_def)

text \<open>
  C5. Submission is exactly once: after a submission created job \<open>jid\<close>, submitting the same document
  and an equal request under the same idempotency key returns \<open>(jid, False)\<close> and changes nothing,
  whatever transactions ran in between; a different request under the key is a \<open>JobConflict\<close>.
\<close>

theorem submission_exactly_once:
  assumes "reachable sha d"
    and "submit now tid doc key req maxa newdoc newid d = Inr ((jid, True), d')"
    and "job_checks key maxa'" and "document_checks doc'" and "ref_sha256 doc' = ref_sha256 doc"
  shows "submit now' tid doc' key req' maxa' newdoc' newid' (run_ops sha ops d') =
    (if py_eq req req' then Inr ((jid, False), run_ops sha ops d') else Inl JobConflict)"
  using assms(2)
proof (rule submit_effect)
  fix did d1
  let ?e = "run_ops sha ops d'"
  assume ins: "insert_document tid doc newdoc d = Inr (did, d1)" and jc: "job_checks key maxa"
    and "True \<Longrightarrow> jid = newid \<and> newid \<notin> set (map job_id (jobs d)) \<and>
      (tid, key) \<notin> set (map (\<lambda>j. (job_tenant j, job_key j)) (jobs d)) \<and>
      d' = insert_event now tid newid ''queued'' (JObj [(''stage'', JStr ''queued'')])
             (d1\<lparr>jobs := jobs d @ [new_job now tid did key req maxa newid]\<rparr>)"
  then have new: "jid = newid" "d' = insert_event now tid newid ''queued'' (JObj [(''stage'', JStr ''queued'')])
             (d1\<lparr>jobs := jobs d @ [new_job now tid did key req maxa newid]\<rparr>)" by blast+
  have "d' = apply_op sha now (Submit tid doc key req maxa newdoc newid) d"
    using assms(2) by (simp add: committed_def)
  then have inv: "db_inv d'" using apply_op_inv [OF reachable_inv [OF assms(1)]] by metis
  have "new_job now tid did key req maxa newid \<in> set (jobs d')" using new by simp
  from run_ops_frame [OF inv this] obtain j where j: "j \<in> set (jobs ?e)" "job_id j = newid" "job_tenant j = tid"
    "job_document j = did" "job_key j = key" "request j = req"
    by (auto simp: new_job_def)
  have "distinct (map (\<lambda>j. (job_tenant j, job_key j)) (jobs ?e))"
    using db_invD(5) [OF run_ops_inv [OF inv]] by (simp add: ids_ok_def)
  from find_unique [OF this j(1)] j have find: "List.find (\<lambda>j. job_tenant j = tid \<and> job_key j = key) (jobs ?e) = Some j"
    by simp
  have doc: "\<exists>x. List.find (\<lambda>x. doc_tenant x = tid \<and> ref_sha256 (doc_ref x) = ref_sha256 doc) (documents d1) = Some x
      \<and> document_id x = did"
    using ins by (auto simp: insert_document_def find_append split: if_splits option.splits)
  obtain ds where "documents ?e = documents d' @ ds" using run_ops_documents by blast
  with doc new(2) have "insert_document tid doc' newdoc' ?e = Inr (did, ?e)"
    using assms(4,5) by (auto simp: insert_document_def find_append split: option.splits)
  with find j assms(3) new(1) show ?thesis by (simp add: submit_def)
qed


subsection \<open>Leases over sequences of transactions\<close>

definition held :: "string \<Rightarrow> time \<Rightarrow> job \<Rightarrow> bool" where
  "held owner until j \<longleftrightarrow> job_state j = Running \<and> lease_owner j = Some owner \<and>
     lease_expires_at j = Some until"

definition by_owner :: "uuid \<Rightarrow> string \<Rightarrow> db_op \<Rightarrow> bool" where
  "by_owner jid owner op \<longleftrightarrow> (case op of
     Heartbeat jid' owner' _ _ \<Rightarrow> jid' = jid \<and> owner' = owner
   | Finish jid' owner' _ _ _ \<Rightarrow> jid' = jid \<and> owner' = owner
   | _ \<Rightarrow> False)"

definition finishes :: "uuid \<Rightarrow> string \<Rightarrow> db_op \<Rightarrow> bool" where
  "finishes jid owner op \<longleftrightarrow> (case op of
     Finish jid' owner' _ _ _ \<Rightarrow> jid' = jid \<and> owner' = owner | _ \<Rightarrow> False)"

lemma in_update_where:
  "j \<in> set js \<Longrightarrow> (if p j then f j else j) \<in> set (update_where p f js)"
  by (auto simp: update_where_def)

text \<open>
  How one operation changes one row: the row is kept, or it is the image of the row under the one
  change the operation makes, and then the row satisfies the operation's guard.
\<close>

definition row_change :: "time \<Rightarrow> db_op \<Rightarrow> job \<Rightarrow> job \<Rightarrow> bool" where
  "row_change now op j j' \<longleftrightarrow> j' = j \<or> (case op of
     LeaseNext locked owner secs \<Rightarrow> leasable locked now j \<and> j' = start_lease owner secs now j
   | Heartbeat jid owner stage' secs \<Rightarrow> live_lease jid owner now j \<and> j' = extend_lease stage' secs now j
   | Finish jid owner result code retryable \<Rightarrow> job_id j = jid \<and> lease_owner j = Some owner \<and>
       job_state j = Running \<and> (\<exists>st stage' kind. finish_outcome j result retryable = (st, stage', kind) \<and>
         j' = close_lease st stage' result code now j)
   | RequestCancel tid jid \<Rightarrow> cancellable tid jid j \<and> j' = cancel_row now j
   | _ \<Rightarrow> False)"

lemma apply_op_row_change:
  assumes "db_inv d" and "j \<in> set (jobs d)"
  shows "\<exists>j' \<in> set (jobs (apply_op sha now op d)). row_change now op j j'"
proof (cases op)
  case (LeaseNext locked owner secs)
  obtain l d' where h: "lease_next locked now owner secs d = (l, d')" by fastforce
  show ?thesis
  proof (cases l)
    case None
    with h LeaseNext assms(2) show ?thesis by (auto dest!: lease_next_None simp: row_change_def)
  next
    case (Some a)
    with h obtain c where c: "c \<in> set (jobs d)" "leasable locked now c"
      "jobs d' = update_where (\<lambda>r. job_id r = job_id c) (start_lease owner secs now) (jobs d)"
      by (auto elim: lease_next_effect)
    have "job_id j = job_id c \<Longrightarrow> j = c" using db_invD(1) [OF assms(1)] assms(2) c(1) by (metis distinct_map_eq)
    with in_update_where [OF assms(2), of "\<lambda>r. job_id r = job_id c" "start_lease owner secs now"] c h LeaseNext
    show ?thesis by (intro bexI) (auto simp: row_change_def)
  qed
next
  case (Heartbeat jid owner stage' secs)
  obtain ok d' where h: "heartbeat now jid owner stage' secs d = (ok, d')" by fastforce
  from heartbeat_effect [OF h] Heartbeat h assms(2)
    in_update_where [OF assms(2), of "live_lease jid owner now" "extend_lease stage' secs now"]
  show ?thesis by (elim disjE conjE bexE) (force simp: row_change_def split: if_splits)+
next
  case (Finish jid owner result code retryable)
  show ?thesis
  proof (cases "finish now jid owner result code retryable d")
    case (Inl e)
    with Finish assms(2) show ?thesis by (auto simp: row_change_def)
  next
    case (Inr d')
    then obtain c st stage' kind where c: "c \<in> set (jobs d)" "job_id c = jid" "job_state c = Running"
      "finish_outcome c result retryable = (st, stage', kind)"
      "jobs d' = update_where (\<lambda>j. job_id j = jid \<and> lease_owner j = Some owner)
              (close_lease st stage' result code now) (jobs d)"
      by (rule finish_effect) auto
    have "job_id j = jid \<Longrightarrow> j = c" using db_invD(1) [OF assms(1)] assms(2) c(1,2) by (metis distinct_map_eq)
    with in_update_where [OF assms(2), of "\<lambda>j. job_id j = jid \<and> lease_owner j = Some owner"
        "close_lease st stage' result code now"] c Inr Finish
    show ?thesis by (intro bexI) (auto simp: row_change_def)
  qed
next
  case (RequestCancel tid jid)
  obtain ok d' where h: "request_cancel now tid jid d = (ok, d')" by fastforce
  from request_cancel_effect [OF h] RequestCancel h assms(2)
    in_update_where [OF assms(2), of "cancellable tid jid" "cancel_row now"]
  show ?thesis by (elim disjE conjE bexE) (force simp: row_change_def split: if_splits)+
next
  case (Submit tid doc key req maxa newdoc newid)
  show ?thesis
  proof (cases "submit now tid doc key req maxa newdoc newid d")
    case (Inr r)
    obtain jid created d' where r: "r = ((jid, created), d')" by (metis prod.exhaust)
    have "j \<in> set (jobs d')" using Inr [unfolded r]
    proof (rule submit_effect)
      fix did d1
      assume "insert_document tid doc newdoc d = Inr (did, d1)"
        and "created \<Longrightarrow> jid = newid \<and> newid \<notin> set (map job_id (jobs d)) \<and>
          (tid, key) \<notin> set (map (\<lambda>j. (job_tenant j, job_key j)) (jobs d)) \<and>
          d' = insert_event now tid newid ''queued'' (JObj [(''stage'', JStr ''queued'')])
             (d1\<lparr>jobs := jobs d @ [new_job now tid did key req maxa newid]\<rparr>)"
        and "\<not> created \<Longrightarrow> d' = d1 \<and> (\<exists>j \<in> set (jobs d). job_id j = jid \<and> job_tenant j = tid \<and>
          job_key j = key \<and> job_document j = did \<and> py_eq (request j) req)"
      then show ?thesis using assms(2) by (cases created) (auto elim: insert_document_effect)
    qed
    with Submit Inr r show ?thesis by (auto simp: committed_def row_change_def)
  qed (use assms Submit in \<open>auto simp: committed_def row_change_def\<close>)
qed (use assms(2) in \<open>auto simp: committed_def ensure_tenant_def issue_api_key_def authenticate_def Let_def
  claim_outbox_def acknowledge_outbox_def row_change_def split: sum.splits option.splits if_splits\<close>)

text \<open>
  The rule for following a row through operations that satisfy a side condition.
\<close>

lemma run_ops_row_change:
  assumes "db_inv d" and "j \<in> set (jobs d)" and "P j" and "\<And>now op. (now, op) \<in> set ops \<Longrightarrow> Q now op"
    and step: "\<And>now op j j'. row_change now op j j' \<Longrightarrow> Q now op \<Longrightarrow> P j \<Longrightarrow> P j'"
  shows "\<exists>j' \<in> set (jobs (run_ops sha ops d)). P j'"
  using assms(1-4)
proof (induction sha ops d arbitrary: j rule: run_ops.induct)
  case (2 sha now op ops d)
  obtain j1 where j1: "j1 \<in> set (jobs (apply_op sha now op d))" "row_change now op j j1"
    using apply_op_row_change [OF 2(2,3)] by blast
  with step 2(4) 2(5) [of now op] have "P j1" by auto
  with 2(1) [OF apply_op_inv [OF 2(2)] j1(1) _ 2(5)] show ?case by simp
qed auto

text \<open>
  C1. A lease is exclusive until it expires: while worker \<open>w\<close> holds a job until time \<open>t\<close>, no
  sequence of transactions executed by time \<open>t\<close>, other than the heartbeats and the completion of
  \<open>w\<close> itself, takes the job away: it stays running, owned by \<open>w\<close>, with the same attempt and expiry.
\<close>

theorem lease_is_exclusive:
  assumes "reachable sha d" and "j \<in> set (jobs d)" and "held w t j"
    and "\<forall>(now, op) \<in> set ops. now \<le> t \<and> \<not> by_owner (job_id j) w op"
  shows "\<exists>j' \<in> set (jobs (run_ops sha ops d)). job_id j' = job_id j \<and> held w t j' \<and> attempt j' = attempt j"
proof (rule run_ops_row_change [where j = j and Q = "\<lambda>now op. now \<le> t \<and> \<not> by_owner (job_id j) w op"])
  show "db_inv d" using assms(1) by (rule reachable_inv)
  show "\<And>now op. (now, op) \<in> set ops \<Longrightarrow> now \<le> t \<and> \<not> by_owner (job_id j) w op" using assms(4) by auto
  fix now op i i'
  assume "row_change now op i i'" "now \<le> t \<and> \<not> by_owner (job_id j) w op"
    "job_id i = job_id j \<and> held w t i \<and> attempt i = attempt j"
  then show "job_id i' = job_id j \<and> held w t i' \<and> attempt i' = attempt j"
    by (cases op) (auto simp: row_change_def held_def by_owner_def leasable_def live_lease_def before_def cancel_row_def)
qed (use assms in simp_all)

text \<open>
  Jobs no transaction can end. A running job that was cancelled, or that is on its last attempt,
  is running for ever unless its own lease holder completes it: whatever the other clients and
  workers do and however late, it is neither leased again nor ended, also after its lease expired.
\<close>

theorem stranded_jobs_run_forever:
  assumes "reachable sha d" and "j \<in> set (jobs d)" and "job_state j = Running" and "lease_owner j = Some w"
    and "cancel_requested j \<or> attempt j = max_attempts j"
    and "\<forall>(now, op) \<in> set ops. \<not> finishes (job_id j) w op"
  shows "\<exists>j' \<in> set (jobs (run_ops sha ops d)). job_id j' = job_id j \<and> job_state j' = Running \<and>
    lease_owner j' = Some w \<and> (\<forall>now locked. \<not> leasable locked now j')"
proof -
  let ?P = "\<lambda>i. job_id i = job_id j \<and> job_state i = Running \<and> lease_owner i = Some w \<and>
    (cancel_requested i \<or> attempt i = max_attempts i)"
  have "\<exists>j' \<in> set (jobs (run_ops sha ops d)). ?P j'"
  proof (rule run_ops_row_change [where j = j and Q = "\<lambda>now op. \<not> finishes (job_id j) w op"])
    show "db_inv d" using assms(1) by (rule reachable_inv)
    show "\<And>now op. (now, op) \<in> set ops \<Longrightarrow> \<not> finishes (job_id j) w op" using assms(6) by auto
    fix now op i i'
    assume "row_change now op i i'" "\<not> finishes (job_id j) w op" "?P i"
    then show "?P i'"
      by (cases op) (auto simp: row_change_def finishes_def leasable_def live_lease_def cancel_row_def extend_lease_def)
  qed (use assms in simp_all)
  then show ?thesis by (auto simp: leasable_def)
qed


subsection \<open>Leasing and finishing\<close>

text \<open>
  The queue is fair and complete: \<open>lease_next\<close> hands out the oldest leasable job that no other
  transaction has locked, marks exactly that row as running for the worker until the lease expires,
  and returns nothing only if there is no such job.
\<close>

theorem lease_next_takes_oldest:
  assumes "reachable sha d"
  shows "case lease_next locked now w secs d of
      (None, d') \<Rightarrow> d' = d \<and> (\<forall>j \<in> set (jobs d). \<not> leasable locked now j)
    | (Some l, d') \<Rightarrow> \<exists>j \<in> set (jobs d). leasable locked now j \<and> le_job l = job_id j \<and>
        le_request l = request j \<and> le_attempt l = attempt j + 1 \<and>
        (\<forall>i \<in> set (jobs d). leasable locked now i \<longrightarrow> (created_at j, job_id j) \<le> (created_at i, job_id i)) \<and>
        jobs d' = update_where (\<lambda>r. r = j) (start_lease w secs now) (jobs d)"
proof (cases "lease_next locked now w secs d")
  case (Pair l d')
  note inv = reachable_inv [OF assms]
  show ?thesis
  proof (cases l)
    case None
    have "\<not> leasable locked now j" if "j \<in> set (jobs d)" for j
    proof
      assume "leasable locked now j"
      with that have "first_by (\<lambda>j. (created_at j, job_id j)) (leasable locked now) (jobs d) \<noteq> None"
        unfolding first_by_None by blast
      then obtain c where c: "first_by (\<lambda>j. (created_at j, job_id j)) (leasable locked now) (jobs d) = Some c"
        by blast
      then have "job_document c \<in> set (map document_id (documents d))"
        using first_by_Some [OF c] db_invD(5) [OF inv] by (simp add: ids_ok_def)
      then have "List.find (\<lambda>x. document_id x = job_document c) (documents d) \<noteq> None"
        unfolding find_None_iff by force
      with Pair None c show False
        by (simp add: lease_next_def Let_def split: option.splits)
    qed
    with Pair None show ?thesis by (auto dest: lease_next_None)
  next
    case (Some a)
    from Pair [unfolded Some] obtain c doc where c: "c \<in> set (jobs d)" "leasable locked now c"
      "\<forall>j \<in> set (jobs d). leasable locked now j \<longrightarrow> (created_at c, job_id c) \<le> (created_at j, job_id j)"
      "doc \<in> set (documents d)" "document_id doc = job_document c"
      "a = \<lparr>le_job = job_id c, le_tenant = job_tenant c, le_document = doc_ref doc,
            le_request = request c, le_attempt = attempt c + 1, le_cancel = cancel_requested c\<rparr>"
      and d': "d' = insert_event now (job_tenant c) (job_id c) ''leased''
                (JObj [(''attempt'', JInt (attempt c + 1))])
                (d\<lparr>jobs := update_where (\<lambda>r. job_id r = job_id c) (start_lease w secs now) (jobs d)\<rparr>)"
      by (rule lease_next_effect)
    from d' have jobs': "jobs d' = update_where (\<lambda>r. job_id r = job_id c) (start_lease w secs now) (jobs d)"
      by simp
    have "job_id r = job_id c \<longleftrightarrow> r = c" if "r \<in> set (jobs d)" for r
      using that c(1) db_invD(1) [OF inv] by (metis distinct_map_eq)
    then have "jobs d' = update_where (\<lambda>r. r = c) (start_lease w secs now) (jobs d)"
      unfolding jobs' update_where_def by (intro map_cong) auto
    moreover have "le_job a = job_id c" "le_request a = request c" "le_attempt a = attempt c + 1"
      unfolding c(6) by simp_all
    ultimately show ?thesis unfolding Pair Some using c(1-3) by (simp only: option.case prod.case) blast
  qed
qed

text \<open>
  C4. Completion. Only the worker that holds a running job can complete it; everybody else gets
  \<open>JobNotFound\<close>. A pending cancellation wins over any outcome, a result succeeds, a retryable error
  goes back to the queue while attempts are left, anything else fails for good. Exactly the one row
  changes, and one event tells the outcome.
\<close>

theorem finish_outcomes:
  assumes "reachable sha d" and "j \<in> set (jobs d)"
  shows "finish now (job_id j) w result code retryable d =
    (if job_state j = Running \<and> lease_owner j = Some w then
       let (st, stage', kind) =
         (if cancel_requested j then (Cancelled, ''cancelled'', ''cancelled'')
          else if result \<noteq> None then (Succeeded, ''complete'', ''succeeded'')
          else if retryable \<and> attempt j < max_attempts j then (Queued, ''retrying'', ''retrying'')
          else (Failed, ''failed'', ''failed''))
       in Inr (insert_event now (job_tenant j) (job_id j) kind (error_payload code)
            (d\<lparr>jobs := update_where (\<lambda>i. i = j) (close_lease st stage' result code now) (jobs d)\<rparr>))
     else Inl JobNotFound)"
proof -
  note dist = db_invD(1) [OF reachable_inv [OF assms(1)]]
  have same: "i = j" if "i \<in> set (jobs d)" "job_id i = job_id j" for i
    using that dist assms(2) by (metis distinct_map_eq)
  show ?thesis
  proof (cases "job_state j = Running \<and> lease_owner j = Some w")
    case True
    let ?p = "\<lambda>i. job_id i = job_id j \<and> lease_owner i = Some w \<and> job_state i = Running"
    obtain i where i: "List.find ?p (jobs d) = Some i"
      using True assms(2) by (cases "List.find ?p (jobs d)") (auto simp: find_None_iff)
    from find_SomeD [OF i] same have "i = j" by blast
    moreover have "update_where (\<lambda>i. job_id i = job_id j \<and> lease_owner i = Some w) f (jobs d) =
        update_where (\<lambda>i. i = j) f (jobs d)" for f
      unfolding update_where_def using same True by (intro map_cong) auto
    ultimately show ?thesis using True i by (simp add: finish_def finish_outcome_def)
  next
    case False
    then have "List.find (\<lambda>i. job_id i = job_id j \<and> lease_owner i = Some w \<and> job_state i = Running) (jobs d) = None"
      using same by (auto simp: find_None_iff)
    then show ?thesis using False by (auto simp: finish_def)
  qed
qed

subsection \<open>Delivery of the outbox\<close>

definition out_change :: "time \<Rightarrow> db_op \<Rightarrow> outbox_row \<Rightarrow> outbox_row \<Rightarrow> bool" where
  "out_change now op r r' \<longleftrightarrow> r' = r \<or> (case op of
     ClaimOutbox locked owner limit \<Rightarrow> claimable locked now r \<and> r' = claim_row owner now r
   | AcknowledgeOutbox owner oid \<Rightarrow> acknowledgeable owner oid r \<and>
       r' = r\<lparr>published_at := Some now, lock_owner := None, lock_expires_at := None\<rparr>
   | _ \<Rightarrow> False)"

lemma claim_outbox_selected:
  assumes "m \<in> set (fst (claim_outbox locked now owner limit d))"
  shows "\<exists>r \<in> set (outbox d). claimable locked now r \<and> msg_id m = outbox_id r \<and> msg_topic m = topic r \<and>
    msg_job m = aggregate_id r \<and> msg_payload m = ob_payload r"
  using assms by (auto simp: claim_outbox_def Let_def select_by_def dest!: in_set_takeD)

lemma outbox_insert_event:
  "r \<in> set (outbox d) \<Longrightarrow> r \<in> set (outbox (insert_event now tid jid kind payload d))"
  by (simp add: insert_event_def Let_def)

lemma outbox_grows:
  assumes "r \<in> set (outbox d)" and "\<And>l w n. op \<noteq> ClaimOutbox l w n" and "\<And>w i. op \<noteq> AcknowledgeOutbox w i"
  shows "r \<in> set (outbox (apply_op sha now op d))"
proof (cases op)
  case (Submit tid doc key req maxa newdoc newid)
  show ?thesis
  proof (cases "submit now tid doc key req maxa newdoc newid d")
    case (Inr a)
    obtain jid created d' where a: "a = ((jid, created), d')" by (metis prod.exhaust)
    have "r \<in> set (outbox d')" using Inr [unfolded a]
    proof (rule submit_effect)
      fix did d1
      assume ins: "insert_document tid doc newdoc d = Inr (did, d1)"
        and c: "created \<Longrightarrow> jid = newid \<and> newid \<notin> set (map job_id (jobs d)) \<and>
          (tid, key) \<notin> set (map (\<lambda>j. (job_tenant j, job_key j)) (jobs d)) \<and>
          d' = insert_event now tid newid ''queued'' (JObj [(''stage'', JStr ''queued'')])
             (d1\<lparr>jobs := jobs d @ [new_job now tid did key req maxa newid]\<rparr>)"
        and n: "\<not> created \<Longrightarrow> d' = d1 \<and> (\<exists>j \<in> set (jobs d). job_id j = jid \<and> job_tenant j = tid \<and>
          job_key j = key \<and> job_document j = did \<and> py_eq (request j) req)"
      from ins have "outbox d1 = outbox d" by (rule insert_document_effect) simp
      then show ?thesis using assms(1) c n by (cases created) (simp_all add: outbox_insert_event)
    qed
    with Inr a Submit show ?thesis by (simp add: committed_def)
  qed (use assms(1) Submit in \<open>simp add: committed_def\<close>)
next
  case (EnsureTenant s newid)
  then show ?thesis using assms(1) by (simp add: committed_def ensure_tenant_def split: option.splits)
next
  case (IssueKey tid lbl secret newid)
  then show ?thesis using assms(1) by (simp add: committed_def issue_api_key_def Let_def)
next
  case (Authenticate token)
  then show ?thesis using assms(1) by (simp add: authenticate_def)
next
  case (LeaseNext locked owner secs)
  then show ?thesis using assms(1)
    by (auto simp: lease_next_def Let_def intro!: outbox_insert_event split: option.splits)
next
  case (Heartbeat jid owner stage' secs)
  then show ?thesis using assms(1)
    by (auto simp: heartbeat_def intro!: outbox_insert_event split: option.splits)
next
  case (Finish jid owner result code retryable)
  then show ?thesis using assms(1)
    by (auto simp: finish_def intro!: outbox_insert_event split: option.splits prod.splits)
next
  case (RequestCancel tid jid)
  then show ?thesis using assms(1)
    by (auto simp: request_cancel_def intro!: outbox_insert_event split: option.splits)
qed (use assms in auto)

lemma apply_op_out_change:
  assumes "db_inv d" and "r \<in> set (outbox d)"
  shows "\<exists>r' \<in> set (outbox (apply_op sha now op d)). out_change now op r r'"
proof (cases op)
  case (ClaimOutbox locked owner limit)
  let ?rows = "take (clamp_limit limit) (select_by outbox_id (claimable locked now) (outbox d))"
  have dist: "distinct (map outbox_id (outbox d))"
    using db_invD(3) [OF assms(1)] by (simp add: log_ok_def strict_sorted_iff)
  have "claimable locked now r" if "outbox_id r \<in> set (map outbox_id ?rows)"
  proof -
    from that obtain s where s: "s \<in> set (outbox d)" "claimable locked now s" "outbox_id s = outbox_id r"
      by (auto simp: select_by_def dest!: in_set_takeD)
    with dist assms(2) have "s = r" by (metis distinct_map_eq)
    with s show ?thesis by simp
  qed
  with in_update_where [OF assms(2), of "\<lambda>r. outbox_id r \<in> set (map outbox_id ?rows)" "claim_row owner now"]
  show ?thesis using ClaimOutbox by (intro bexI) (auto simp: out_change_def claim_outbox_def Let_def)
next
  case (AcknowledgeOutbox owner oid)
  with in_update_where [OF assms(2), of "acknowledgeable owner oid"
      "\<lambda>r. r\<lparr>published_at := Some now, lock_owner := None, lock_expires_at := None\<rparr>"]
  show ?thesis by (intro bexI) (auto simp: out_change_def acknowledge_outbox_def)
qed (rule bexI [OF _ outbox_grows [OF assms(2)]]; simp add: out_change_def)+

lemma run_ops_out_change:
  assumes "db_inv d" and "r \<in> set (outbox d)" and "P r" and "\<And>now op. (now, op) \<in> set ops \<Longrightarrow> Q now op"
    and step: "\<And>now op r r'. out_change now op r r' \<Longrightarrow> Q now op \<Longrightarrow> P r \<Longrightarrow> P r'"
  shows "\<exists>r' \<in> set (outbox (run_ops sha ops d)). P r'"
  using assms(1-4)
proof (induction sha ops d arbitrary: r rule: run_ops.induct)
  case (2 sha now op ops d)
  obtain r1 where r1: "r1 \<in> set (outbox (apply_op sha now op d))" "out_change now op r r1"
    using apply_op_out_change [OF 2(2,3)] by blast
  with step 2(4) 2(5) [of now op] have "P r1" by auto
  with 2(1) [OF apply_op_inv [OF 2(2)] r1(1) _ 2(5)] show ?case by simp
qed auto

lemma outbox_id_unique:
  "db_inv d \<Longrightarrow> r \<in> set (outbox d) \<Longrightarrow> s \<in> set (outbox d) \<Longrightarrow> outbox_id r = outbox_id s \<Longrightarrow> r = s"
  by (metis db_invD(3) distinct_map_eq log_ok_def strict_sorted_iff)

text \<open>
  A published message is never delivered again: once a dispatcher acknowledged it, no later
  claim, by any dispatcher at any time, returns it.
\<close>

theorem acknowledged_message_not_redelivered:
  assumes "reachable sha d" and "acknowledge_outbox now w oid d = (True, d')"
    and "m \<in> set (fst (claim_outbox locked later w' limit (run_ops sha ops d')))"
  shows "msg_id m \<noteq> oid"
proof
  assume oid: "msg_id m = oid"
  have "d' = apply_op sha now (AcknowledgeOutbox w oid) d" using assms(2) by simp
  then have inv: "db_inv d'" using apply_op_inv [OF reachable_inv [OF assms(1)]] by metis
  obtain r where r: "r \<in> set (outbox d)" "acknowledgeable w oid r"
  proof -
    from assms(2) have "filter (acknowledgeable w oid) (outbox d) \<noteq> []"
      by (auto simp: acknowledge_outbox_def)
    then show ?thesis using that by (auto simp: filter_empty_conv)
  qed
  have mem: "r\<lparr>published_at := Some now, lock_owner := None, lock_expires_at := None\<rparr> \<in> set (outbox d')"
    using assms(2) in_update_where [OF r(1), of "acknowledgeable w oid"] r(2)
    by (auto simp: acknowledge_outbox_def)
  have "\<exists>p \<in> set (outbox (run_ops sha ops d')). outbox_id p = oid \<and> published_at p \<noteq> None"
  proof (rule run_ops_out_change [OF inv mem, where Q = "\<lambda>_ _. True"])
    fix now op i i'
    assume "out_change now op i i'" "outbox_id i = oid \<and> published_at i \<noteq> None"
    then show "outbox_id i' = oid \<and> published_at i' \<noteq> None"
      by (cases op) (auto simp: out_change_def claimable_def acknowledgeable_def)
  qed (use r(2) in \<open>simp_all add: acknowledgeable_def\<close>)
  then obtain p where p: "p \<in> set (outbox (run_ops sha ops d'))" "outbox_id p = oid" "published_at p \<noteq> None"
    by blast
  from claim_outbox_selected [OF assms(3)] oid obtain s where
    s: "s \<in> set (outbox (run_ops sha ops d'))" "claimable locked later s" "outbox_id s = oid" by auto
  with p have "s = p" using outbox_id_unique [OF run_ops_inv [OF inv]] by metis
  with p s show False by (simp add: claimable_def)
qed

text \<open>
  Claims are exclusive: while the claim of dispatcher \<open>w\<close> on a message has not expired, no other
  dispatcher's claim returns the message, whatever ran in between, unless \<open>w\<close> acknowledged it.
\<close>

theorem claimed_message_exclusive:
  assumes "reachable sha d" and "r \<in> set (outbox d)" and "published_at r = None"
    and "lock_owner r = Some w" and "lock_expires_at r = Some t"
    and "\<forall>(now, op) \<in> set ops. now \<le> t \<and> op \<noteq> AcknowledgeOutbox w (outbox_id r)" and "now \<le> t"
  shows "r \<in> set (outbox (run_ops sha ops d)) \<and>
    outbox_id r \<notin> set (map msg_id (fst (claim_outbox locked now w' limit (run_ops sha ops d))))"
proof -
  note inv = reachable_inv [OF assms(1)]
  have "\<exists>r' \<in> set (outbox (run_ops sha ops d)). r' = r"
  proof (rule run_ops_out_change [OF inv assms(2), where Q = "\<lambda>now op. now \<le> t \<and> op \<noteq> AcknowledgeOutbox w (outbox_id r)"])
    show "\<And>now op. (now, op) \<in> set ops \<Longrightarrow> now \<le> t \<and> op \<noteq> AcknowledgeOutbox w (outbox_id r)"
      using assms(6) by auto
    fix now op s s'
    assume "out_change now op s s'" "now \<le> t \<and> op \<noteq> AcknowledgeOutbox w (outbox_id r)" "s = r"
    then show "s' = r" using assms(3-5)
      by (auto simp: out_change_def claimable_def before_def acknowledgeable_def split: db_op.splits)
  qed simp
  then have kept: "r \<in> set (outbox (run_ops sha ops d))" by simp
  moreover have "outbox_id r \<noteq> msg_id m"
    if m: "m \<in> set (fst (claim_outbox locked now w' limit (run_ops sha ops d)))" for m
  proof
    assume "outbox_id r = msg_id m"
    with claim_outbox_selected [OF m] kept outbox_id_unique [OF run_ops_inv [OF inv]]
    have "claimable locked now r" by force
    with assms(5,7) show False by (simp add: claimable_def before_def)
  qed
  ultimately show ?thesis by auto
qed

subsection \<open>Tenants\<close>

text \<open>The tenant a client operation acts for.\<close>

definition acts_for :: "uuid \<Rightarrow> db_op \<Rightarrow> bool" where
  "acts_for tid op \<longleftrightarrow> (case op of Submit tid' _ _ _ _ _ _ \<Rightarrow> tid' = tid | RequestCancel tid' _ \<Rightarrow> tid' = tid
     | _ \<Rightarrow> False)"

lemma find_update_keep:
  "(\<And>r. p r \<Longrightarrow> \<not> q r) \<Longrightarrow> (\<And>r. p r \<Longrightarrow> \<not> q (f r)) \<Longrightarrow> List.find q (update_where p f rows) = List.find q rows"
  by (induction rows) (auto simp: update_where_def)

lemma job_events_insert_other:
  "tid' \<noteq> tid \<Longrightarrow> events d' = events d \<Longrightarrow>
     job_events tid jid after limit (insert_event now tid' jid' kind payload d') = job_events tid jid after limit d"
  by (simp add: job_events_def insert_event_def Let_def select_by_def)

text \<open>
  C7. Tenants are isolated: what a tenant reads of its jobs and of their events does not depend on
  what another tenant submits or cancels, also if that tenant names a foreign job.
\<close>

theorem tenants_isolated:
  assumes "acts_for other op" and "other \<noteq> tid"
  shows "get_job tid jid (apply_op sha now op d) = get_job tid jid d \<and>
    job_events tid jid after limit (apply_op sha now op d) = job_events tid jid after limit d"
proof -
  from assms(1) consider doc key req maxa newdoc newid where "op = Submit other doc key req maxa newdoc newid"
    | jid' where "op = RequestCancel other jid'"
    by (auto simp: acts_for_def split: db_op.splits)
  then show ?thesis
  proof cases
    case 1
    show ?thesis
    proof (cases "submit now other doc key req maxa newdoc newid d")
      case (Inr a)
      then have "get_job tid jid (snd a) = get_job tid jid d" "job_events tid jid after limit (snd a) = job_events tid jid after limit d"
        using assms(2)
        by (auto simp: submit_def insert_document_def get_job_def find_append new_job_def
            job_events_insert_other [where d = d] split: option.splits if_splits)
           (auto simp: job_events_def)
      with 1 Inr show ?thesis by (cases a) (simp add: committed_def)
    qed (use 1 in \<open>simp add: committed_def\<close>)
  next
    case 2
    have "List.find (\<lambda>j. job_tenant j = tid \<and> job_id j = jid)
        (update_where (cancellable other jid') (cancel_row now) (jobs d)) =
      List.find (\<lambda>j. job_tenant j = tid \<and> job_id j = jid) (jobs d)"
      by (rule find_update_keep) (use assms(2) in \<open>auto simp: cancellable_def cancel_row_def\<close>)
    with 2 assms(2) show ?thesis
      by (auto simp: request_cancel_def get_job_def job_events_insert_other [where d = d] split: option.splits)
  qed
qed

subsection \<open>Keys\<close>

definition key_columns :: "api_key \<Rightarrow> uuid \<times> string \<times> time option" where
  "key_columns k = (key_tenant k, token_sha256 k, revoked_at k)"

lemma find_key:
  "map_option key_tenant (List.find (key_matches h) ks) =
     map_option fst (List.find (\<lambda>(_, g, r). g = h \<and> r = None) (map key_columns ks))"
  by (induction ks) (auto simp: key_matches_def key_columns_def)

lemma insert_event_keys: "api_keys (insert_event now tid jid kind payload d) = api_keys d"
  by simp

lemma apply_op_keys:
  "\<exists>ks. map key_columns (api_keys (apply_op sha now op d)) = map key_columns (api_keys d) @ ks"
proof (cases op)
  case (Authenticate token)
  have "map key_columns (update_where p (\<lambda>k. k\<lparr>last_used_at := x\<rparr>) ks) = map key_columns ks" for p x ks
    by (rule map_update_where) (simp add: key_columns_def)
  with Authenticate show ?thesis by (auto simp: authenticate_def)
next
  case (Submit tid doc key req maxa newdoc newid)
  have "api_keys (snd a) = api_keys d" if "submit now tid doc key req maxa newdoc newid d = Inr a" for a
    using that by (auto simp: submit_def insert_document_def split: option.splits if_splits)
  with Submit show ?thesis by (auto simp: committed_def split: sum.splits)
next
  case (Finish jid owner result code retryable)
  then show ?thesis by (auto simp: finish_def split: option.splits prod.splits)
next
  case (LeaseNext locked owner secs)
  then show ?thesis by (auto simp: lease_next_def Let_def split: option.splits)
qed (auto simp: committed_def ensure_tenant_def issue_api_key_def Let_def heartbeat_def request_cancel_def
  claim_outbox_def acknowledge_outbox_def split: option.splits if_splits)

lemma run_ops_keys:
  "\<exists>ks. map key_columns (api_keys (run_ops sha ops d)) = map key_columns (api_keys d) @ ks"
proof (induction sha ops d rule: run_ops.induct)
  case (2 sha now op ops d)
  then show ?case using apply_op_keys [of sha now op d] by fastforce
qed simp

text \<open>
  An issued key authenticates its tenant: whatever transactions run after the key was issued, the
  token the tenant was given authenticates as this tenant, and as nobody else.
\<close>

theorem issued_key_authenticates:
  assumes "issue_api_key sha tid lbl secret newid d = Inr (token, d')" and "length secret \<le> 118"
  shows "fst (authenticate sha now token (run_ops sha ops d')) = Some tid"
proof -
  from assms(1) have t: "token = ''dsv_live_'' @ secret" "sha token \<notin> set (map token_sha256 (api_keys d))"
    "api_keys d' = api_keys d @ [\<lparr>key_id = newid, key_tenant = tid, label = lbl,
                token_sha256 = sha token, last_used_at = None, revoked_at = None\<rparr>]"
    by (auto simp: issue_api_key_def Let_def split: if_splits)
  obtain ks where ks: "map key_columns (api_keys (run_ops sha ops d')) = map key_columns (api_keys d') @ ks"
    using run_ops_keys by blast
  have "List.find (\<lambda>(_, g, r). g = sha token \<and> r = None) (map key_columns (api_keys d)) = None"
    using t(2) by (force simp: find_None_iff key_columns_def)
  with ks t(3) show ?thesis
    using assms(2) t(1) by (simp add: authenticate_def find_key find_append key_columns_def starts_with_def)
qed

end
