(* ===== verification/PlatformRun.thy ===== *)
theory PlatformRun
  imports PlatformProps
begin

section \<open>A run of the job database\<close>

text \<open>
  A concrete history (a tenant, a key, two submissions, a lease, a claim) on which the hypotheses of
  the guarantees hold, evaluated by \<open>code_simp\<close>.
\<close>

definition demo_sha :: "string \<Rightarrow> string" where
  "demo_sha s = replicate 64 CHR ''0''"

definition demo_ref :: object_ref where
  "demo_ref = \<lparr>ref_key = ''k'', ref_sha256 = replicate 64 CHR ''a'', ref_size = 100,
     ref_content_type = ''application/pdf''\<rparr>"

definition demo_request :: json where
  "demo_request = JObj [(''mpn'', JStr ''X1'')]"

definition demo_ops :: "(time \<times> db_op) list" where
  "demo_ops = [(0, EnsureTenant ''acme'' ''T''),
     (10, Submit ''T'' demo_ref ''key-0001'' demo_request 2 ''D'' ''J''),
     (20, LeaseNext [] ''w1'' 90), (30, ClaimOutbox [] ''p1'' 1)]"

definition demo_db :: db where
  "demo_db = run_ops demo_sha demo_ops empty_db"

definition demo_job :: job where
  "demo_job = hd (jobs demo_db)"

lemma demo_reachable: "reachable demo_sha demo_db"
  unfolding demo_db_def by (rule reachable_run_ops [OF reachable.init])

lemma demo_job_in: "demo_job \<in> set (jobs demo_db)"
  by code_simp

lemma demo_job_held: "held ''w1'' 90000020 demo_job"
  by code_simp

lemma demo_job_view: "job_id demo_job = ''J'' \<and> attempt demo_job = 1 \<and> max_attempts demo_job = 2"
  by code_simp

subsection \<open>Witnesses\<close>


theorem reachable_rows_well_formed_witness: "job_ok demo_job"
  by (rule reachable_rows_well_formed [OF demo_reachable demo_job_in])

definition cancelled_ops :: "(time \<times> db_op) list" where
  "cancelled_ops = [(40, RequestCancel ''T'' ''J''), (50, Finish ''J'' ''w1'' None None True)]"

definition cancelled_db :: db where
  "cancelled_db = run_ops demo_sha cancelled_ops demo_db"

lemma cancelled_reachable: "reachable demo_sha cancelled_db"
  unfolding cancelled_db_def by (rule reachable_run_ops [OF demo_reachable])

theorem terminal_rows_never_change_witness:
  "hd (jobs cancelled_db) \<in>
     set (jobs (run_ops demo_sha [(60, LeaseNext [] ''w2'' 90), (70, RequestCancel ''T'' ''J'')] cancelled_db))"
proof (rule terminal_rows_never_change [OF cancelled_reachable])
  show "hd (jobs cancelled_db) \<in> set (jobs cancelled_db)" by code_simp
  show "terminal (job_state (hd (jobs cancelled_db)))" by code_simp
qed

theorem leases_counted_and_bounded_witness:
  "lease_count (job_id demo_job) (events demo_db) = attempt demo_job \<and>
   lease_count (job_id demo_job) (events demo_db) \<le> max_attempts demo_job"
  by (rule leases_counted_and_bounded [OF demo_reachable demo_job_in])

theorem outbox_mirrors_event_log_witness:
  "map (\<lambda>r. (topic r, aggregate_id r, ob_payload r)) (outbox demo_db) =
      map (\<lambda>e. (''dsvire.job.event'', ev_job e, event_message e)) (events demo_db) \<and>
    sorted_wrt (<) (map event_id (events demo_db))"
  by (rule outbox_mirrors_event_log [OF demo_reachable])

definition second_submit :: "db_error + ((uuid \<times> bool) \<times> db)" where
  "second_submit = submit 40 ''T'' demo_ref ''key-0002'' demo_request 3 ''D2'' ''J2'' demo_db"

theorem submission_exactly_once_witness:
  "submit 60 ''T'' demo_ref ''key-0002'' demo_request 5 ''D3'' ''J3''
     (run_ops demo_sha [(50, LeaseNext [] ''w2'' 90)] (snd (projr second_submit))) =
   (if py_eq demo_request demo_request
    then Inr ((''J2'', False), run_ops demo_sha [(50, LeaseNext [] ''w2'' 90)] (snd (projr second_submit)))
    else Inl JobConflict)"
proof (rule submission_exactly_once [OF demo_reachable])
  have "isl second_submit = False" by code_simp
  moreover have "fst (projr second_submit) = (''J2'', True)" by code_simp
  ultimately show "submit 40 ''T'' demo_ref ''key-0002'' demo_request 3 ''D2'' ''J2'' demo_db =
      Inr ((''J2'', True), snd (projr second_submit))"
    unfolding second_submit_def by (metis prod.collapse sum.collapse(2))
  show "job_checks ''key-0002'' 5" by code_simp
  show "document_checks demo_ref" by code_simp
qed simp

theorem lease_is_exclusive_witness:
  "\<exists>j \<in> set (jobs (run_ops demo_sha [(60, LeaseNext [] ''w2'' 90), (90000020, Heartbeat ''J'' ''w2'' ''x'' 9)] demo_db)).
     job_id j = job_id demo_job \<and> held ''w1'' 90000020 j \<and> attempt j = attempt demo_job"
  by (rule lease_is_exclusive [OF demo_reachable demo_job_in demo_job_held]) (simp add: by_owner_def)

definition last_attempt_db :: db where
  "last_attempt_db = run_ops demo_sha [(100000000, LeaseNext [] ''w2'' 90)] demo_db"

lemma last_attempt_reachable: "reachable demo_sha last_attempt_db"
  unfolding last_attempt_db_def by (rule reachable_run_ops [OF demo_reachable])

theorem stranded_jobs_run_forever_witness:
  "\<exists>j \<in> set (jobs (run_ops demo_sha [(900000000, LeaseNext [] ''w3'' 90), (990000000, RequestCancel ''T'' ''J'')]
       last_attempt_db)).
     job_id j = job_id (hd (jobs last_attempt_db)) \<and> job_state j = Running \<and> lease_owner j = Some ''w2'' \<and>
     (\<forall>now locked. \<not> leasable locked now j)"
proof (rule stranded_jobs_run_forever [OF last_attempt_reachable])
  show "hd (jobs last_attempt_db) \<in> set (jobs last_attempt_db)" by code_simp
  show "job_state (hd (jobs last_attempt_db)) = Running" by code_simp
  show "lease_owner (hd (jobs last_attempt_db)) = Some ''w2''" by code_simp
  show "cancel_requested (hd (jobs last_attempt_db)) \<or>
      attempt (hd (jobs last_attempt_db)) = max_attempts (hd (jobs last_attempt_db))" by code_simp
qed (simp add: finishes_def)

theorem lease_next_takes_oldest_witness:
  "case lease_next [] 100000000 ''w2'' 90 demo_db of
      (None, d') \<Rightarrow> d' = demo_db \<and> (\<forall>j \<in> set (jobs demo_db). \<not> leasable [] 100000000 j)
    | (Some l, d') \<Rightarrow> \<exists>j \<in> set (jobs demo_db). leasable [] 100000000 j \<and> le_job l = job_id j \<and>
        le_request l = request j \<and> le_attempt l = attempt j + 1 \<and>
        (\<forall>i \<in> set (jobs demo_db). leasable [] 100000000 i \<longrightarrow>
           (created_at j, job_id j) \<le> (created_at i, job_id i)) \<and>
        jobs d' = update_where (\<lambda>r. r = j) (start_lease ''w2'' 90 100000000) (jobs demo_db)"
  by (rule lease_next_takes_oldest [OF demo_reachable])

theorem finish_outcomes_witness:
  "finish 40 ''J'' ''w2'' None None True demo_db = Inl JobNotFound"
proof -
  have "lease_owner demo_job \<noteq> Some ''w2''" by code_simp
  then show ?thesis
    using finish_outcomes [OF demo_reachable demo_job_in, of 40 "''w2''" None None True] demo_job_view by simp
qed

definition claimed_row :: outbox_row where
  "claimed_row = hd (outbox demo_db)"

theorem claimed_message_exclusive_witness:
  "claimed_row \<in> set (outbox (run_ops demo_sha [(60, ClaimOutbox [] ''p2'' 10)] demo_db)) \<and>
    outbox_id claimed_row \<notin> set (map msg_id (fst (claim_outbox [] 70 ''p2'' 10
      (run_ops demo_sha [(60, ClaimOutbox [] ''p2'' 10)] demo_db))))"
proof (rule claimed_message_exclusive [OF demo_reachable])
  show "claimed_row \<in> set (outbox demo_db)" by code_simp
  show "published_at claimed_row = None" by code_simp
  show "lock_owner claimed_row = Some ''p1''" by code_simp
  show "lock_expires_at claimed_row = Some 30000030" by code_simp
qed simp_all

theorem acknowledged_message_not_redelivered_witness:
  "\<exists>m. m \<in> set (fst (claim_outbox [] 60 ''p2'' 10 (run_ops demo_sha []
     (snd (acknowledge_outbox 50 ''p1'' 1 demo_db))))) \<and> msg_id m \<noteq> 1"
proof -
  let ?c = "fst (claim_outbox [] 60 ''p2'' 10 (run_ops demo_sha [] (snd (acknowledge_outbox 50 ''p1'' 1 demo_db))))"
  have "length ?c = 1" by code_simp
  then have m: "hd ?c \<in> set ?c" by (metis hd_in_set list.size(3) zero_neq_one)
  have "fst (acknowledge_outbox 50 ''p1'' 1 demo_db) = True" by code_simp
  then have "acknowledge_outbox 50 ''p1'' 1 demo_db = (True, snd (acknowledge_outbox 50 ''p1'' 1 demo_db))"
    by (metis prod.collapse)
  from acknowledged_message_not_redelivered [OF demo_reachable this m] m show ?thesis by blast
qed

theorem tenants_isolated_witness:
  "get_job ''U'' ''J'' (apply_op demo_sha 60 (RequestCancel ''T'' ''J'') demo_db) = get_job ''U'' ''J'' demo_db \<and>
   job_events ''U'' ''J'' 0 10 (apply_op demo_sha 60 (RequestCancel ''T'' ''J'') demo_db) =
     job_events ''U'' ''J'' 0 10 demo_db"
  by (rule tenants_isolated [where other = "''T''"]) (simp_all add: acts_for_def)

definition issued :: "db_error + (string \<times> db)" where
  "issued = issue_api_key demo_sha ''T'' ''ci'' ''secret'' ''K'' demo_db"

theorem issued_key_authenticates_witness:
  "fst (authenticate demo_sha 80 ''dsv_live_secret''
     (run_ops demo_sha [(70, RequestCancel ''T'' ''J'')] (snd (projr issued)))) = Some ''T''"
proof (rule issued_key_authenticates)
  have "isl issued = False" by code_simp
  moreover have "fst (projr issued) = ''dsv_live_secret''" by code_simp
  ultimately show "issue_api_key demo_sha ''T'' ''ci'' ''secret'' ''K'' demo_db =
      Inr (''dsv_live_secret'', snd (projr issued))"
    unfolding issued_def by (metis prod.collapse sum.collapse(2))
qed simp

end
