(* ===== verification/LifeCycle.thy ===== *)
theory LifeCycle
  imports PlatformRun
begin

section \<open>The life cycle of a job as a specification\<close>

text \<open>
  What the job table promises about one job, stated without the code: a job waits, is held by a worker until a time, or has
  ended. The steps are labelled by the operations of \<open>PlatformInv\<close>; their guards and results are those of the contract, not the
  predicates and row functions of \<open>PlatformDb\<close>. The table refines this system.
\<close>

datatype phase = Waiting | Held string time | Ended job_state

record life =
  life_job :: uuid
  life_tenant :: uuid
  life_phase :: phase
  life_tries :: int
  life_limit :: int
  life_cancel :: bool

text \<open>
  A waiting job, or one whose holder let the time pass, can be taken while tries are left and nobody has cancelled it. The holder
  can prolong its time while it lasts. It ends the job with a result, gives it back for another try, or fails it; a cancelled job
  can only be closed as cancelled. A tenant withdraws its waiting job at once, and asks the holder of another to stop.
\<close>

inductive life_step :: "time \<Rightarrow> db_op \<Rightarrow> life \<Rightarrow> life \<Rightarrow> bool" for now where
  claim: "life_phase l = Waiting \<Longrightarrow> life_tries l < life_limit l \<Longrightarrow> \<not> life_cancel l \<Longrightarrow> life_job l \<notin> set locked \<Longrightarrow>
    life_step now (LeaseNext locked w secs) l (l\<lparr>life_phase := Held w (now + 1000000 * secs), life_tries := life_tries l + 1\<rparr>)"
| takeover: "life_phase l = Held w' t \<Longrightarrow> t < now \<Longrightarrow> life_tries l < life_limit l \<Longrightarrow> \<not> life_cancel l \<Longrightarrow> life_job l \<notin> set locked \<Longrightarrow>
    life_step now (LeaseNext locked w secs) l (l\<lparr>life_phase := Held w (now + 1000000 * secs), life_tries := life_tries l + 1\<rparr>)"
| renew: "life_phase l = Held w t \<Longrightarrow> now \<le> t \<Longrightarrow>
    life_step now (Heartbeat (life_job l) w st secs) l (l\<lparr>life_phase := Held w (now + 1000000 * secs)\<rparr>)"
| succeed: "life_phase l = Held w t \<Longrightarrow> \<not> life_cancel l \<Longrightarrow>
    life_step now (Finish (life_job l) w (Some r) code retry) l (l\<lparr>life_phase := Ended Succeeded\<rparr>)"
| retry: "life_phase l = Held w t \<Longrightarrow> \<not> life_cancel l \<Longrightarrow> life_tries l < life_limit l \<Longrightarrow>
    life_step now (Finish (life_job l) w None code True) l (l\<lparr>life_phase := Waiting\<rparr>)"
| fail: "life_phase l = Held w t \<Longrightarrow> \<not> life_cancel l \<Longrightarrow> retry = False \<or> life_limit l \<le> life_tries l \<Longrightarrow>
    life_step now (Finish (life_job l) w None code retry) l (l\<lparr>life_phase := Ended Failed\<rparr>)"
| stop: "life_phase l = Held w t \<Longrightarrow> life_cancel l \<Longrightarrow>
    life_step now (Finish (life_job l) w r code retry) l (l\<lparr>life_phase := Ended Cancelled\<rparr>)"
| withdraw: "life_phase l = Waiting \<Longrightarrow>
    life_step now (RequestCancel (life_tenant l) (life_job l)) l (l\<lparr>life_phase := Ended Cancelled, life_cancel := True\<rparr>)"
| ask: "life_phase l = Held w t \<Longrightarrow>
    life_step now (RequestCancel (life_tenant l) (life_job l)) l (l\<lparr>life_cancel := True\<rparr>)"

inductive_cases life_stepE: "life_step now op l l'"

text \<open>The abstraction of a row, and the columns that no step may touch.\<close>

definition phase_of :: "job \<Rightarrow> phase" where
  "phase_of j = (case job_state j of
     Queued \<Rightarrow> Waiting | Running \<Rightarrow> Held (the (lease_owner j)) (the (lease_expires_at j)) | ended \<Rightarrow> Ended ended)"

definition life_of :: "job \<Rightarrow> life" where
  "life_of j = \<lparr>life_job = job_id j, life_tenant = job_tenant j, life_phase = phase_of j, life_tries = attempt j,
     life_limit = max_attempts j, life_cancel = cancel_requested j\<rparr>"

definition fixed_columns :: "job \<Rightarrow> uuid \<times> string \<times> json \<times> time" where
  "fixed_columns j = (job_document j, job_key j, request j, created_at j)"

definition row_lives :: "time \<Rightarrow> db_op \<Rightarrow> job \<Rightarrow> job \<Rightarrow> bool" where
  "row_lives now op j j' \<longleftrightarrow> j' = j \<or> life_step now op (life_of j) (life_of j') \<and> fixed_columns j' = fixed_columns j"

text \<open>A new job waits, has not been tried and belongs to the submission.\<close>

definition newly_queued :: "db_op \<Rightarrow> job list \<Rightarrow> bool" where
  "newly_queued op js \<longleftrightarrow> js = [] \<or> (\<exists>tid doc key req limit newdoc newid j. op = Submit tid doc key req limit newdoc newid \<and> js = [j] \<and>
     life_of j = \<lparr>life_job = newid, life_tenant = tid, life_phase = Waiting, life_tries = 0, life_limit = limit, life_cancel = False\<rparr> \<and>
     job_key j = key \<and> request j = req)"

definition table_lives :: "time \<Rightarrow> db_op \<Rightarrow> job list \<Rightarrow> job list \<Rightarrow> bool" where
  "table_lives now op js js' \<longleftrightarrow> (\<exists>old new. js' = old @ new \<and> list_all2 (row_lives now op) js old \<and> newly_queued op new)"

subsection \<open>Rows\<close>

lemma row_lives_refl [simp]: "row_lives now op j j"
  by (simp add: row_lives_def)

lemma table_lives_same: "jobs d' = jobs d \<Longrightarrow> table_lives now op (jobs d) (jobs d')"
  unfolding table_lives_def newly_queued_def by (intro exI [of _ "jobs d"] exI [of _ "[]"]) (simp add: list_all2_refl)

lemma table_lives_update:
  assumes "\<And>j. j \<in> set js \<Longrightarrow> p j \<Longrightarrow> row_lives now op j (f j)"
  shows "table_lives now op js (update_where p f js)"
proof -
  have "list_all2 (row_lives now op) js (update_where p f js)"
    using assms by (induction js) (auto simp: update_where_def)
  then show ?thesis by (auto simp: table_lives_def newly_queued_def)
qed

lemma start_lease_lives:
  assumes "leasable locked now j" and "job_ok j"
  shows "row_lives now (LeaseNext locked w secs) j (start_lease w secs now j)"
proof -
  let ?l = "life_of j"
  have new: "life_of (start_lease w secs now j) = ?l\<lparr>life_phase := Held w (now + 1000000 * secs), life_tries := life_tries ?l + 1\<rparr>"
    by (simp add: life_of_def phase_of_def start_lease_def after_seconds_def)
  have guard: "life_tries ?l < life_limit ?l" "\<not> life_cancel ?l" "life_job ?l \<notin> set locked"
    using assms(1) by (simp_all add: leasable_def life_of_def)
  have "life_step now (LeaseNext locked w secs) ?l (life_of (start_lease w secs now j))"
  proof (cases "job_state j = Queued")
    case True
    then have "life_phase ?l = Waiting" by (simp add: life_of_def phase_of_def)
    then show ?thesis unfolding new using guard by (rule life_step.claim)
  next
    case False
    with assms(1) obtain t where "job_state j = Running" "lease_expires_at j = Some t" "t < now"
      by (auto simp: leasable_def before_def split: option.splits)
    then have "life_phase ?l = Held (the (lease_owner j)) t" "t < now" by (simp_all add: life_of_def phase_of_def)
    then show ?thesis unfolding new using guard by (rule life_step.takeover)
  qed
  then show ?thesis by (simp add: row_lives_def fixed_columns_def start_lease_def)
qed

lemma extend_lease_lives:
  assumes "live_lease jid w now j"
  shows "row_lives now (Heartbeat jid w st secs) j (extend_lease st secs now j)"
proof -
  let ?l = "life_of j"
  from assms obtain t where "life_phase ?l = Held w t" "now \<le> t" and jid: "jid = life_job ?l"
    by (auto simp: live_lease_def life_of_def phase_of_def split: option.splits)
  then have "life_step now (Heartbeat jid w st secs) ?l (?l\<lparr>life_phase := Held w (now + 1000000 * secs)\<rparr>)"
    unfolding jid by (intro life_step.renew)
  moreover have "life_of (extend_lease st secs now j) = ?l\<lparr>life_phase := Held w (now + 1000000 * secs)\<rparr>"
    using assms by (simp add: live_lease_def life_of_def phase_of_def extend_lease_def after_seconds_def)
  ultimately show ?thesis by (simp add: row_lives_def fixed_columns_def extend_lease_def)
qed

lemma close_lease_lives:
  assumes "job_state j = Running" and "lease_owner j = Some w" and "finish_outcome j result retryable = (st, stage', kind)"
  shows "row_lives now (Finish (job_id j) w result code retryable) j (close_lease st stage' result code now j)"
proof -
  let ?l = "life_of j"
  have held: "life_phase ?l = Held w (the (lease_expires_at j))" and id: "job_id j = life_job ?l"
    using assms(1,2) by (simp_all add: life_of_def phase_of_def)
  have ended: "life_of (close_lease st stage' result code now j) =
      ?l\<lparr>life_phase := (case st of Queued \<Rightarrow> Waiting | Running \<Rightarrow> Held (the None) (the None) | ended \<Rightarrow> Ended ended)\<rparr>"
    by (cases st) (simp_all add: life_of_def phase_of_def close_lease_def)
  have "life_step now (Finish (life_job ?l) w result code retryable) ?l (life_of (close_lease st stage' result code now j))"
  proof (cases "cancel_requested j")
    case True
    then have "st = Cancelled" "life_cancel ?l" using assms(3) by (simp_all add: finish_outcome_def life_of_def)
    then show ?thesis using ended life_step.stop [OF held] by simp
  next
    case False
    then have c: "\<not> life_cancel ?l" by (simp add: life_of_def)
    show ?thesis
    proof (cases result)
      case (Some r)
      then have "st = Succeeded" using assms(3) False by (simp add: finish_outcome_def)
      then show ?thesis using ended life_step.succeed [OF held c] by (simp add: Some)
    next
      case None
      show ?thesis
      proof (cases "retryable \<and> attempt j < max_attempts j")
        case True
        then have "st = Queued" "retryable = True" "life_tries ?l < life_limit ?l"
          using assms(3) False None by (simp_all add: finish_outcome_def life_of_def)
        then show ?thesis using ended life_step.retry [OF held c] by (simp add: None)
      next
        case no: False
        then have "st = Failed" "retryable = False \<or> life_limit ?l \<le> life_tries ?l"
          using assms(3) False None by (auto simp: finish_outcome_def life_of_def)
        then show ?thesis using ended life_step.fail [OF held c] by (simp add: None)
      qed
    qed
  qed
  then show ?thesis unfolding id by (simp add: row_lives_def fixed_columns_def close_lease_def)
qed

lemma cancel_row_lives:
  assumes "cancellable tid jid j"
  shows "row_lives now (RequestCancel tid jid) j (cancel_row now j)"
proof -
  let ?l = "life_of j"
  have ids: "tid = life_tenant ?l" "jid = life_job ?l" using assms by (simp_all add: cancellable_def life_of_def)
  have "life_step now (RequestCancel tid jid) ?l (life_of (cancel_row now j))"
  proof (cases "job_state j = Queued")
    case True
    then have "life_phase ?l = Waiting" and "life_of (cancel_row now j) = ?l\<lparr>life_phase := Ended Cancelled, life_cancel := True\<rparr>"
      by (simp_all add: life_of_def phase_of_def cancel_row_def)
    then show ?thesis unfolding ids using life_step.withdraw by simp
  next
    case False
    then have "job_state j = Running" using assms by (simp add: cancellable_def)
    then have "life_phase ?l = Held (the (lease_owner j)) (the (lease_expires_at j))" and "life_of (cancel_row now j) = ?l\<lparr>life_cancel := True\<rparr>"
      by (simp_all add: life_of_def phase_of_def cancel_row_def)
    then show ?thesis unfolding ids using life_step.ask by simp
  qed
  then show ?thesis by (simp add: row_lives_def fixed_columns_def cancel_row_def)
qed

subsection \<open>Transactions\<close>

lemma submit_lives:
  assumes "submit now tid doc key req maxa newdoc newid d = Inr ((jid, created), d')"
  shows "table_lives now (Submit tid doc key req maxa newdoc newid) (jobs d) (jobs d')"
  using assms
proof (rule submit_effect)
  fix did d1
  assume ins: "insert_document tid doc newdoc d = Inr (did, d1)"
    and c: "created \<Longrightarrow> jid = newid \<and> newid \<notin> set (map job_id (jobs d)) \<and>
      (tid, key) \<notin> set (map (\<lambda>j. (job_tenant j, job_key j)) (jobs d)) \<and>
      d' = insert_event now tid newid ''queued'' (JObj [(''stage'', JStr ''queued'')])
             (d1\<lparr>jobs := jobs d @ [new_job now tid did key req maxa newid]\<rparr>)"
    and n: "\<not> created \<Longrightarrow> d' = d1 \<and> (\<exists>j \<in> set (jobs d). job_id j = jid \<and> job_tenant j = tid \<and>
      job_key j = key \<and> job_document j = did \<and> py_eq (request j) req)"
  from ins have same: "jobs d1 = jobs d" by (rule insert_document_effect) simp
  show ?thesis
  proof (cases created)
    case True
    have "newly_queued (Submit tid doc key req maxa newdoc newid) [new_job now tid did key req maxa newid]"
      by (simp add: newly_queued_def life_of_def phase_of_def new_job_def)
    moreover have "jobs d' = jobs d @ [new_job now tid did key req maxa newid]" using c [OF True] by simp
    ultimately show ?thesis unfolding table_lives_def
      by (intro exI [of _ "jobs d"] exI [of _ "[new_job now tid did key req maxa newid]"]) (simp add: list_all2_refl)
  next
    case False
    with n same show ?thesis by (simp add: table_lives_same)
  qed
qed

lemma lease_next_lives:
  assumes "db_inv d"
  shows "table_lives now (LeaseNext locked w secs) (jobs d) (jobs (snd (lease_next locked now w secs d)))"
proof (cases "lease_next locked now w secs d")
  case (Pair l d')
  show ?thesis
  proof (cases l)
    case None
    with Pair show ?thesis by (auto dest: lease_next_None intro: table_lives_same)
  next
    case (Some a)
    with Pair obtain c where c: "c \<in> set (jobs d)" "leasable locked now c"
      and d': "jobs d' = update_where (\<lambda>r. job_id r = job_id c) (start_lease w secs now) (jobs d)"
      by (auto elim: lease_next_effect)
    have "row_lives now (LeaseNext locked w secs) j (start_lease w secs now j)" if "j \<in> set (jobs d)" "job_id j = job_id c" for j
      using start_lease_lives [OF c(2) db_invD(2) [OF assms c(1)]] distinct_map_eq [OF db_invD(1) [OF assms] that(1) c(1) that(2)] by simp
    then show ?thesis using Pair by (simp add: d' table_lives_update)
  qed
qed

lemma finish_lives:
  assumes "db_inv d" and "finish now jid w result code retryable d = Inr d'"
  shows "table_lives now (Finish jid w result code retryable) (jobs d) (jobs d')"
  using assms(2)
proof (rule finish_effect)
  fix j st stage' kind
  assume j: "j \<in> set (jobs d)" "job_id j = jid" "lease_owner j = Some w" "job_state j = Running"
    "finish_outcome j result retryable = (st, stage', kind)"
    and d': "d' = insert_event now (job_tenant j) jid kind (error_payload code)
         (d\<lparr>jobs := update_where (\<lambda>j. job_id j = jid \<and> lease_owner j = Some w) (close_lease st stage' result code now) (jobs d)\<rparr>)"
  have "row_lives now (Finish jid w result code retryable) j' (close_lease st stage' result code now j')"
    if "j' \<in> set (jobs d)" "job_id j' = jid \<and> lease_owner j' = Some w" for j'
    using close_lease_lives [OF j(4,3,5)] distinct_map_eq [OF db_invD(1) [OF assms(1)] that(1) j(1)] that(2) j(2) by simp
  then show ?thesis by (simp add: d' table_lives_update)
qed

lemma apply_op_lives:
  assumes "db_inv d"
  shows "table_lives now op (jobs d) (jobs (apply_op sha now op d))"
proof (cases op)
  case (EnsureTenant s newid)
  then show ?thesis
    by (auto simp: committed_def ensure_tenant_def intro!: table_lives_same split: sum.splits option.splits if_splits)
next
  case (IssueKey tid lbl secret newid)
  then show ?thesis
    by (auto simp: committed_def issue_api_key_def Let_def intro!: table_lives_same split: sum.splits if_splits)
next
  case (Authenticate token)
  then show ?thesis by (auto simp: authenticate_def intro!: table_lives_same)
next
  case (Submit tid doc key req maxa newdoc newid)
  then show ?thesis
    by (auto simp: committed_def intro: table_lives_same submit_lives split: sum.splits)
next
  case (LeaseNext locked owner secs)
  then show ?thesis by (simp add: lease_next_lives [OF assms])
next
  case (Heartbeat jid owner stage' secs)
  obtain ok d' where h: "heartbeat now jid owner stage' secs d = (ok, d')" by fastforce
  have "table_lives now op (jobs d) (jobs d')" using heartbeat_effect [OF h]
  proof (elim disjE conjE bexE)
    fix j assume "d' = insert_event now (job_tenant j) jid ''progress'' (JObj [(''stage'', JStr stage')])
        (d\<lparr>jobs := update_where (live_lease jid owner now) (extend_lease stage' secs now) (jobs d)\<rparr>)"
    then show ?thesis by (simp add: Heartbeat table_lives_update extend_lease_lives)
  qed (simp add: table_lives_same)
  with Heartbeat h show ?thesis by simp
next
  case (Finish jid owner result code retryable)
  then show ?thesis
    by (auto intro: table_lives_same finish_lives [OF assms] split: sum.splits)
next
  case (RequestCancel tid jid)
  obtain ok d' where h: "request_cancel now tid jid d = (ok, d')" by fastforce
  have "table_lives now op (jobs d) (jobs d')" using request_cancel_effect [OF h]
  proof (elim disjE conjE)
    assume "d' = insert_event now tid jid ''cancel_requested'' (JObj [])
        (d\<lparr>jobs := update_where (cancellable tid jid) (cancel_row now) (jobs d)\<rparr>)"
    then show ?thesis by (simp add: RequestCancel table_lives_update cancel_row_lives)
  qed (simp add: table_lives_same)
  with RequestCancel h show ?thesis by simp
next
  case (ClaimOutbox locked owner limit)
  then show ?thesis by (simp add: claim_outbox_def Let_def table_lives_same)
next
  case (AcknowledgeOutbox owner oid)
  then show ?thesis by (simp add: acknowledge_outbox_def table_lives_same)
qed

text \<open>A row over a sequence of transactions walks along the steps of the specification.\<close>

definition life_walk :: "life \<Rightarrow> life \<Rightarrow> bool" where
  "life_walk = rtranclp (\<lambda>l l'. \<exists>now op. life_step now op l l')"

lemma table_lives_from:
  assumes "table_lives now op js js'" and "j \<in> set js"
  shows "\<exists>j' \<in> set js'. row_lives now op j j'"
proof -
  from assms(1) obtain old new where js': "js' = old @ new" and rows: "list_all2 (row_lives now op) js old"
    by (auto simp: table_lives_def)
  from rows assms(2) have "\<exists>j' \<in> set old. row_lives now op j j'" by (induction rule: list_all2_induct) auto
  then show ?thesis unfolding js' by auto
qed

lemma run_ops_walk:
  assumes "db_inv d" and "j \<in> set (jobs d)"
  shows "\<exists>j' \<in> set (jobs (run_ops sha ops d)). life_walk (life_of j) (life_of j') \<and> fixed_columns j' = fixed_columns j"
  using assms
proof (induction sha ops d arbitrary: j rule: run_ops.induct)
  case (1 sha d)
  then show ?case by (auto simp: life_walk_def)
next
  case (2 sha now op ops d)
  obtain j1 where j1: "j1 \<in> set (jobs (apply_op sha now op d))" "row_lives now op j j1"
    using table_lives_from [OF apply_op_lives [OF 2(2)] 2(3)] by blast
  from 2(1) [OF apply_op_inv [OF 2(2)] j1(1)] obtain j2 where j2: "j2 \<in> set (jobs (run_ops sha ops (apply_op sha now op d)))"
    "life_walk (life_of j1) (life_of j2)" "fixed_columns j2 = fixed_columns j1" by blast
  have "life_walk (life_of j) (life_of j2) \<and> fixed_columns j2 = fixed_columns j"
    using j1(2) j2(2,3) unfolding row_lives_def life_walk_def by (auto intro: converse_rtranclp_into_rtranclp)
  with j2(1) show ?case by auto
qed

text \<open>
  C3. The table refines the life cycle: on a reachable database, every operation of the code leaves each row as it is or makes the one step of
  the specification that carries its name, for the same job, worker, tenant and times, and adds at most the waiting job of a submission;
  after any sequence of transactions every row has walked along such steps, with its document, key, request and creation time unchanged.
\<close>

theorem transactions_refine_life_cycle:
  assumes "reachable sha d"
  shows "table_lives now op (jobs d) (jobs (apply_op sha now op d)) \<and>
    (\<forall>j \<in> set (jobs d). \<exists>j' \<in> set (jobs (run_ops sha ops d)). life_walk (life_of j) (life_of j') \<and> fixed_columns j' = fixed_columns j)"
  using apply_op_lives [OF reachable_inv [OF assms]] run_ops_walk [OF reachable_inv [OF assms]] by blast

theorem transactions_refine_life_cycle_witness:
  "table_lives 90000020 (RequestCancel ''T'' ''J'') (jobs demo_db) (jobs (apply_op demo_sha 90000020 (RequestCancel ''T'' ''J'') demo_db)) \<and>
   (\<exists>j' \<in> set (jobs (run_ops demo_sha [(40, RequestCancel ''T'' ''J''), (50, Finish ''J'' ''w1'' None None True)] demo_db)).
      life_walk (life_of demo_job) (life_of j'))"
  using transactions_refine_life_cycle [OF demo_reachable] demo_job_in by blast

text \<open>What the specification excludes: a lease that still holds is not taken over, and an ended job has no step.\<close>

lemma held_not_taken:
  "life_phase l = Held w t \<Longrightarrow> now \<le> t \<Longrightarrow> \<not> life_step now (LeaseNext locked w' secs) l l'"
  by (auto elim: life_stepE)

lemma ended_has_no_step: "life_phase l = Ended st \<Longrightarrow> \<not> life_step now op l l'"
  by (auto elim: life_stepE)

end
