(* ===== verification/PlatformApi.thy ===== *)
theory PlatformApi
  imports PlatformRun
begin

section \<open>The tenant API\<close>

text \<open>
  \<open>src/dsvire/platform_api.py\<close>: authentication, upload, reading, cancelling, downloading and the event
  stream. A handler takes the request and the state (database, store, and what the server draws) and
  returns the reply or the exception together with the state it leaves. An \<open>HTTPException\<close> is
  \<open>Http status detail\<close>; exceptions the handler does not catch are \<open>Store\<close> and \<open>Db\<close>. The checks that
  the route declares for its query parameters are the first guard of \<open>submit_job\<close>. A job row and an
  event are returned as records; their JSON rendering by the framework is not modelled, apart from the
  event frames.
\<close>

datatype api_exn = Http int string | StoreExn store_error | DbExn db_error

type_synonym ('a, 's) handler = "(api_exn + 'a) \<times> 's"

subsection \<open>Requests\<close>

record upload =
  authorization :: "string option"
  idempotency_key :: "string option"
  content_type :: "string option"
  chunks :: "bytes list"
  q_manufacturer :: string
  q_mpn :: string
  q_package :: string
  q_source_url :: "string option"

definition principal :: "(string \<Rightarrow> string) \<Rightarrow> time \<Rightarrow> string option \<Rightarrow> db option \<Rightarrow>
    (api_exn + (uuid \<times> db)) \<times> db option" where
  "principal sha now auth state =
     (case auth of
        None \<Rightarrow> (Inl (Http 401 ''unauthorized''), state)
      | Some header \<Rightarrow>
          if \<not> starts_with ''Bearer '' header then (Inl (Http 401 ''unauthorized''), state)
          else (case state of
              None \<Rightarrow> (Inl (Http 503 ''platform unavailable''), state)
            | Some d \<Rightarrow>
                (case authenticate sha now (remove_prefix ''Bearer '' header) d of
                   (None, d') \<Rightarrow> (Inl (Http 401 ''unauthorized''), Some d')
                 | (Some tid, d') \<Rightarrow> (Inr (tid, d'), Some d'))))"

definition idempotency_ok :: "string \<Rightarrow> bool" where
  "idempotency_ok key \<longleftrightarrow> list_all (\<lambda>c. 33 \<le> code_point c \<and> code_point c \<le> 126) key \<and>
     8 \<le> length key \<and> length key \<le> 200"

definition media_type :: "string option \<Rightarrow> string" where
  "media_type header = lower (hd (split_once CHR '';'' (case header of None \<Rightarrow> [] | Some h \<Rightarrow> h)))"

definition add_chunk :: "int \<Rightarrow> bytes \<Rightarrow> bytes \<Rightarrow> api_exn + bytes" where
  "add_chunk maximum body chunk =
     (if maximum < int (length body) + int (length chunk)
      then Inl (Http 413 ''PDF exceeds configured size limit'') else Inr (body @ chunk))"

definition read_pdf :: "int \<Rightarrow> string option \<Rightarrow> bytes list \<Rightarrow> api_exn + bytes" where
  "read_pdf maximum header body_chunks =
     (if media_type header \<noteq> ''application/pdf''
      then Inl (Http 415 ''content-type must be application/pdf'')
      else bindE (foldE (add_chunk maximum) [] body_chunks) (\<lambda>body.
        if length body < 8 \<or> \<not> starts_with ''%PDF-'' body then Inl (Http 422 ''invalid PDF envelope'')
        else Inr body))"

definition query_ok :: "upload \<Rightarrow> bool" where
  "query_ok u \<longleftrightarrow> 1 \<le> length (q_manufacturer u) \<and> length (q_manufacturer u) \<le> 160 \<and>
     1 \<le> length (q_mpn u) \<and> length (q_mpn u) \<le> 120 \<and> 1 \<le> length (q_package u) \<and> length (q_package u) \<le> 120 \<and>
     (case q_source_url u of None \<Rightarrow> True | Some s \<Rightarrow> length s \<le> 2048)"

definition job_request :: "upload \<Rightarrow> object_ref \<Rightarrow> json" where
  "job_request u r = JObj [(''schema_version'', JStr ''dsvire.job-request.v1''),
     (''manufacturer'', JStr (q_manufacturer u)), (''mpn'', JStr (q_mpn u)),
     (''package'', JStr (q_package u)),
     (''source_url'', case q_source_url u of None \<Rightarrow> JNull | Some s \<Rightarrow> JStr s),
     (''document_sha256'', JStr (ref_sha256 r))]"

record submitted =
  reply_job :: uuid
  reply_created :: bool
  reply_state :: string
  reply_status :: int
  reply_location :: string

text \<open>
  \<open>put\<close> is the store's \<open>put_immutable\<close> for this request, \<open>maximum\<close> and \<open>maxa\<close> the configured limits,
  \<open>newdoc\<close> and \<open>newid\<close> the identifiers the server would generate.
\<close>

definition submit_job :: "(string \<Rightarrow> string) \<Rightarrow>
    ('s \<Rightarrow> string \<Rightarrow> string \<Rightarrow> bytes \<Rightarrow> string \<Rightarrow> string \<Rightarrow> store_error + (object_ref \<times> 's)) \<Rightarrow>
    int \<Rightarrow> int \<Rightarrow> time \<Rightarrow> uuid \<Rightarrow> uuid \<Rightarrow> upload \<Rightarrow> db option \<Rightarrow> 's \<Rightarrow> (submitted, db option \<times> 's) handler" where
  "submit_job sha put maximum maxa now newdoc newid u state s =
     (if \<not> query_ok u then (Inl (Http 422 ''validation error''), state, s)
      else case principal sha now (authorization u) state of
        (Inl e, state') \<Rightarrow> (Inl e, state', s)
      | (Inr (tid, d), state') \<Rightarrow>
          (case idempotency_key u of
             None \<Rightarrow> (Inl (Http 400 ''valid Idempotency-Key header required''), state', s)
           | Some key \<Rightarrow>
               if \<not> idempotency_ok key
               then (Inl (Http 400 ''valid Idempotency-Key header required''), state', s)
               else (case read_pdf maximum (content_type u) (chunks u) of
                   Inl e \<Rightarrow> (Inl e, state', s)
                 | Inr payload \<Rightarrow>
                     (case put s tid ''pdf'' payload ''pdf'' ''application/pdf'' of
                        Inl e \<Rightarrow> (Inl (StoreExn e), state', s)
                      | Inr (r, s') \<Rightarrow>
                          (case submit now tid r key (job_request u r) maxa newdoc newid d of
                             Inl JobConflict \<Rightarrow>
                               (Inl (Http 409 ''idempotency key is bound to a different request''), state', s')
                           | Inl e \<Rightarrow> (Inl (DbExn e), state', s')
                           | Inr ((jid, created), d') \<Rightarrow>
                               (Inr \<lparr>reply_job = jid, reply_created = created, reply_state = ''queued'',
                                     reply_status = (if created then 202 else 200),
                                     reply_location = ''/v1/platform/jobs/'' @ jid\<rparr>, Some d', s'))))))"

subsection \<open>Reading, cancelling, downloading\<close>

definition get_job_route :: "(string \<Rightarrow> string) \<Rightarrow> time \<Rightarrow> string option \<Rightarrow> uuid \<Rightarrow> db option \<Rightarrow>
    (job_view, db option) handler" where
  "get_job_route sha now auth jid state =
     (case principal sha now auth state of
        (Inl e, state') \<Rightarrow> (Inl e, state')
      | (Inr (tid, d), state') \<Rightarrow>
          (case get_job tid jid d of
             Inl JobNotFound \<Rightarrow> (Inl (Http 404 ''job not found''), state')
           | Inl e \<Rightarrow> (Inl (DbExn e), state')
           | Inr v \<Rightarrow> (Inr v, state')))"

text \<open>\<open>isinstance(size, int)\<close> holds for the two booleans as well.\<close>

definition as_int :: "json \<Rightarrow> int option" where
  "as_int v = (case v of JInt i \<Rightarrow> Some i | JBool b \<Rightarrow> Some (if b then 1 else 0) | _ \<Rightarrow> None)"

definition bundle_ref :: "job_view \<Rightarrow> api_exn + object_ref" where
  "bundle_ref v =
     (case view_result v of
        Some (JObj result) \<Rightarrow>
          (case field result ''bundle'' of
             JObj b \<Rightarrow>
               (case (map_of b ''key'', map_of b ''sha256'', map_of b ''size'', map_of b ''content_type'') of
                  (Some (JStr key), Some (JStr digest), Some sz, Some (JStr ctype)) \<Rightarrow>
                    (case as_int sz of
                       Some n \<Rightarrow> Inr \<lparr>ref_key = key, ref_sha256 = digest, ref_size = n, ref_content_type = ctype\<rparr>
                     | None \<Rightarrow> Inl (Http 500 ''invalid stored bundle reference''))
                | _ \<Rightarrow> Inl (Http 500 ''invalid stored bundle reference''))
           | _ \<Rightarrow> Inl (Http 409 ''bundle is not available''))
      | _ \<Rightarrow> Inl (Http 409 ''bundle is not available''))"

record download =
  dl_payload :: bytes
  dl_disposition :: string
  dl_length :: string
  dl_etag :: string

definition quoted :: "string \<Rightarrow> string" where
  "quoted s = [char_of (34::nat)] @ s @ [char_of (34::nat)]"

definition download_bundle :: "(string \<Rightarrow> string) \<Rightarrow> ('s \<Rightarrow> object_ref \<Rightarrow> store_error + bytes) \<Rightarrow> time \<Rightarrow>
    string option \<Rightarrow> uuid \<Rightarrow> db option \<Rightarrow> 's \<Rightarrow> (download, db option) handler" where
  "download_bundle sha get now auth jid state s =
     (case principal sha now auth state of
        (Inl e, state') \<Rightarrow> (Inl e, state')
      | (Inr (tid, d), state') \<Rightarrow>
          (case get_job tid jid d of
             Inl JobNotFound \<Rightarrow> (Inl (Http 404 ''job not found''), state')
           | Inl e \<Rightarrow> (Inl (DbExn e), state')
           | Inr v \<Rightarrow>
               if view_state v \<noteq> Succeeded then (Inl (Http 409 ''job has not succeeded''), state')
               else (case bundle_ref v of
                   Inl e \<Rightarrow> (Inl e, state')
                 | Inr r \<Rightarrow>
                     if 134217728 < ref_size r then (Inl (Http 413 ''bundle exceeds API download limit''), state')
                     else (case get s r of
                         Inl e \<Rightarrow> (Inl (StoreExn e), state')
                       | Inr payload \<Rightarrow>
                           (Inr \<lparr>dl_payload = payload,
                                 dl_disposition = ''attachment; filename='' @ quoted (''dsvire-'' @ jid @ ''.zip''),
                                 dl_length = nat_str (length payload), dl_etag = quoted (ref_sha256 r)\<rparr>, state')))))"

definition cancel_job :: "(string \<Rightarrow> string) \<Rightarrow> time \<Rightarrow> string option \<Rightarrow> uuid \<Rightarrow> db option \<Rightarrow>
    (uuid, db option) handler" where
  "cancel_job sha now auth jid state =
     (case principal sha now auth state of
        (Inl e, state') \<Rightarrow> (Inl e, state')
      | (Inr (tid, d), state') \<Rightarrow>
          (case request_cancel now tid jid d of
             (False, d') \<Rightarrow> (Inl (Http 409 ''job cannot be cancelled''), Some d')
           | (True, d') \<Rightarrow> (Inr jid, Some d')))"

subsection \<open>The event stream\<close>

definition sse_frame :: "(pyfloat \<Rightarrow> string) \<Rightarrow> event \<Rightarrow> string" where
  "sse_frame frepr e = (let nl = [char_of (10::nat)] in
     ''id: '' @ int_str (event_id e) @ nl @ ''event: '' @ ev_kind e @ nl @
     ''data: '' @ dumps_plain frepr (ev_payload e) @ nl @ nl)"

datatype frame = EventFrame event | KeepAlive

text \<open>
  One round of the generator sees two database snapshots: the one of the \<open>events\<close> query and the one of
  the \<open>get_job\<close> query after it. The stream ends by itself (\<open>True\<close>) when the job is in a terminal state
  after a round that delivered something; otherwise it runs until the client disconnects.
\<close>

fun sse_stream :: "uuid \<Rightarrow> uuid \<Rightarrow> (db \<times> db) list \<Rightarrow> int \<Rightarrow> nat \<Rightarrow> frame list \<times> bool" where
  "sse_stream tid jid [] cursor idle = ([], False)"
| "sse_stream tid jid ((d1, d2) # rounds) cursor idle =
     (case job_events tid jid cursor 500 d1 of
        [] \<Rightarrow>
          (case sse_stream tid jid rounds cursor (idle + 1) of (fs, ended) \<Rightarrow>
             ((if (idle + 1) mod 15 = 0 then [KeepAlive] else []) @ fs, ended))
      | e # es \<Rightarrow>
          (case get_job tid jid d2 of
             Inr v \<Rightarrow>
               if terminal (view_state v) then (map EventFrame (e # es), True)
               else (case sse_stream tid jid rounds (event_id (last (e # es))) 0 of (fs, ended) \<Rightarrow>
                 (map EventFrame (e # es) @ fs, ended))
           | Inl _ \<Rightarrow> (map EventFrame (e # es), True)))"

definition job_events_route :: "(string \<Rightarrow> string) \<Rightarrow> time \<Rightarrow> string option \<Rightarrow> uuid \<Rightarrow> int \<Rightarrow>
    (db \<times> db) list \<Rightarrow> db option \<Rightarrow> (frame list \<times> bool, db option) handler" where
  "job_events_route sha now auth jid last_event_id rounds state =
     (if last_event_id < 0 then (Inl (Http 422 ''validation error''), state)
      else case principal sha now auth state of
        (Inl e, state') \<Rightarrow> (Inl e, state')
      | (Inr (tid, d), state') \<Rightarrow>
          (case get_job tid jid d of
             Inl JobNotFound \<Rightarrow> (Inl (Http 404 ''job not found''), state')
           | Inl e \<Rightarrow> (Inl (DbExn e), state')
           | Inr _ \<Rightarrow> (Inr (sse_stream tid jid rounds last_event_id 0), state')))"


subsection \<open>Facts about requests\<close>

lemma authenticate_frame:
  assumes "authenticate sha now token d = (r, d')"
  shows "jobs d' = jobs d" "documents d' = documents d" "events d' = events d" "outbox d' = outbox d"
    "tenants d' = tenants d" "next_event d' = next_event d" "next_outbox d' = next_outbox d"
  using assms by (auto simp: authenticate_def split: if_splits)

text \<open>The tables a request must not touch when it is rejected.\<close>

definition same_work :: "db option \<Rightarrow> db option \<Rightarrow> bool" where
  "same_work a b \<longleftrightarrow> rel_option (\<lambda>d d'. jobs d' = jobs d \<and> documents d' = documents d \<and>
     events d' = events d \<and> outbox d' = outbox d \<and> tenants d' = tenants d) a b"

lemma same_work_refl [simp]: "same_work a a"
  by (cases a) (simp_all add: same_work_def)

lemma same_work_Some [simp]: "same_work (Some d) (Some d') \<longleftrightarrow> jobs d' = jobs d \<and> documents d' = documents d \<and>
     events d' = events d \<and> outbox d' = outbox d \<and> tenants d' = tenants d"
  by (simp add: same_work_def)

lemma principal_cases:
  assumes "principal sha now auth state = (r, state')"
  shows "same_work state state' \<and> (case r of Inl e \<Rightarrow> e \<in> {Http 401 ''unauthorized'', Http 503 ''platform unavailable''}
    | Inr (tid, d') \<Rightarrow> state' = Some d' \<and> (\<exists>header d. auth = Some header \<and> state = Some d \<and>
        authenticate sha now (remove_prefix ''Bearer '' header) d = (Some tid, d')))"
  using assms
  by (auto simp: principal_def dest: authenticate_frame split: option.splits if_splits prod.splits)

lemma add_chunks:
  "foldE (add_chunk maximum) body cs = Inr b \<Longrightarrow>
     b = body @ concat cs \<and> (cs \<noteq> [] \<longrightarrow> int (length b) \<le> maximum)"
proof (induction cs arbitrary: body)
  case (Cons c cs)
  then obtain body' where b': "add_chunk maximum body c = Inr body'" "foldE (add_chunk maximum) body' cs = Inr b"
    by auto
  then have step: "\<not> maximum < int (length body) + int (length c)"
    "foldE (add_chunk maximum) (body @ c) cs = Inr b"
    by (simp_all add: add_chunk_def split: if_splits)
  with Cons.IH [OF step(2)] show ?case by (cases cs) auto
qed simp

lemma read_pdf_ok:
  assumes "read_pdf maximum header cs = Inr payload"
  shows "payload = concat cs \<and> 8 \<le> length payload \<and> int (length payload) \<le> maximum \<and>
    starts_with ''%PDF-'' payload \<and> media_type header = ''application/pdf''"
proof -
  from assms have body: "foldE (add_chunk maximum) [] cs = Inr payload" "\<not> length payload < 8"
    "starts_with ''%PDF-'' payload" "media_type header = ''application/pdf''"
    by (auto simp: read_pdf_def split: if_splits)
  from add_chunks [OF body(1)] have c: "payload = concat cs" "cs \<noteq> [] \<longrightarrow> int (length payload) \<le> maximum"
    by (simp, blast)
  with body(2) have "cs \<noteq> []" by auto
  with c body show ?thesis by simp
qed

lemma submit_job_cases:
  assumes "submit_job sha put maximum maxa now newdoc newid u (Some d) s = (Inr rep, state', s')"
  obtains tid d1 d' r payload key where "fst (authenticate sha now (remove_prefix ''Bearer '' (the (authorization u))) d) = Some tid"
    and "jobs d1 = jobs d" and "documents d1 = documents d"
    and "read_pdf maximum (content_type u) (chunks u) = Inr payload"
    and "put s tid ''pdf'' payload ''pdf'' ''application/pdf'' = Inr (r, s')"
    and "submit now tid r key (job_request u r) maxa newdoc newid d1 = Inr ((reply_job rep, reply_created rep), d')"
    and "state' = Some d'" and "reply_status rep = (if reply_created rep then 202 else 200)"
proof -
  obtain p st where p: "principal sha now (authorization u) (Some d) = (p, st)" by fastforce
  with assms obtain tid d1 where p': "p = Inr (tid, d1)"
    by (auto simp: submit_job_def split: if_splits sum.splits)
  from principal_cases [OF p [unfolded p']] have st: "st = Some d1" "jobs d1 = jobs d" "documents d1 = documents d"
    and auth: "fst (authenticate sha now (remove_prefix ''Bearer '' (the (authorization u))) d) = Some tid"
    by (auto simp: same_work_def)
  from assms p p' obtain key payload where k: "idempotency_key u = Some key" "idempotency_ok key"
    and payload: "read_pdf maximum (content_type u) (chunks u) = Inr payload"
    by (auto simp: submit_job_def split: if_splits option.splits sum.splits)
  with assms p p' obtain r where put: "put s tid ''pdf'' payload ''pdf'' ''application/pdf'' = Inr (r, s')"
    and sub: "\<exists>jid created d'. submit now tid r key (job_request u r) maxa newdoc newid d1 = Inr ((jid, created), d') \<and>
      state' = Some d' \<and> reply_job rep = jid \<and> reply_created rep = created \<and> reply_status rep = (if created then 202 else 200)"
    by (auto simp: submit_job_def split: if_splits sum.splits prod.splits db_error.splits)
  from sub obtain d' where "submit now tid r key (job_request u r) maxa newdoc newid d1 =
      Inr ((reply_job rep, reply_created rep), d')" "state' = Some d'" "reply_status rep = (if reply_created rep then 202 else 200)" by blast
  with that [OF auth st(2,3) payload put] show ?thesis by blast
qed

lemma submit_job_rejected:
  assumes "fst (submit_job sha put maximum maxa now newdoc newid u state s) = Inl e"
  shows "same_work state (fst (snd (submit_job sha put maximum maxa now newdoc newid u state s)))"
proof -
  obtain p st where p: "principal sha now (authorization u) state = (p, st)" by fastforce
  with principal_cases [OF p] assms show ?thesis
    by (auto simp: submit_job_def split: if_splits sum.splits option.splits prod.splits db_error.splits)
qed

text \<open>The document row a job refers to: the one of this tenant with the digest of the upload.\<close>

lemma insert_document_row:
  assumes "insert_document tid r newid d = Inr (did, d')"
  shows "\<exists>doc \<in> set (documents d'). document_id doc = did \<and> doc_tenant doc = tid \<and> ref_sha256 (doc_ref doc) = ref_sha256 r \<and>
    (doc_ref doc = r \<or> doc \<in> set (documents d))"
proof (cases "List.find (\<lambda>x. doc_tenant x = tid \<and> ref_sha256 (doc_ref x) = ref_sha256 r) (documents d)")
  case None
  with assms show ?thesis by (auto simp: insert_document_def split: if_splits)
next
  case (Some x)
  with assms have "did = document_id x" "d' = d" by (auto simp: insert_document_def split: if_splits)
  with Some show ?thesis by (auto dest!: find_SomeD)
qed

lemma submit_row:
  assumes "submit now tid doc key req maxa newdoc newid d = Inr ((jid, created), d')"
  shows "\<exists>j \<in> set (jobs d'). job_id j = jid \<and> job_tenant j = tid \<and> job_key j = key \<and>
    (if created then request j = req \<and> job_state j = Queued \<and> j \<notin> set (jobs d) \<and> set (jobs d') = insert j (set (jobs d))
     else py_eq (request j) req \<and> jobs d' = jobs d) \<and>
    (\<exists>row \<in> set (documents d'). document_id row = job_document j \<and> doc_tenant row = tid \<and>
       ref_sha256 (doc_ref row) = ref_sha256 doc \<and> (doc_ref row = doc \<or> row \<in> set (documents d)))"
  using assms
proof (rule submit_effect)
  fix did d1
  assume ins: "insert_document tid doc newdoc d = Inr (did, d1)"
    and c: "created \<Longrightarrow> jid = newid \<and> newid \<notin> set (map job_id (jobs d)) \<and>
      (tid, key) \<notin> set (map (\<lambda>j. (job_tenant j, job_key j)) (jobs d)) \<and>
      d' = insert_event now tid newid ''queued'' (JObj [(''stage'', JStr ''queued'')])
             (d1\<lparr>jobs := jobs d @ [new_job now tid did key req maxa newid]\<rparr>)"
    and n: "\<not> created \<Longrightarrow> d' = d1 \<and> (\<exists>j \<in> set (jobs d). job_id j = jid \<and> job_tenant j = tid \<and>
      job_key j = key \<and> job_document j = did \<and> py_eq (request j) req)"
  from ins have same: "jobs d1 = jobs d" by (rule insert_document_effect) simp
  note row = insert_document_row [OF ins]
  show ?thesis
  proof (cases created)
    case True
    note c = c [OF True]
    let ?j = "new_job now tid did key req maxa newid"
    have "job_id ?j = newid" by (simp add: new_job_def)
    then have "?j \<notin> set (jobs d)" using c by (metis image_eqI list.set_map)
    moreover have "jobs d' = jobs d @ [?j]" "documents d' = documents d1" using c by simp_all
    ultimately show ?thesis using c row True by (intro bexI [of _ ?j]) (simp_all add: new_job_def)
  next
    case False
    with n obtain j where "j \<in> set (jobs d)" "job_id j = jid" "job_tenant j = tid" "job_key j = key" "job_document j = did"
      "py_eq (request j) req" and "d' = d1" by blast
    with same row False show ?thesis by (intro bexI [of _ j]) simp_all
  qed
qed

subsection \<open>Facts about the stream\<close>

definition delivered :: "frame list \<Rightarrow> event list" where
  "delivered fs = concat (map (\<lambda>f. case f of EventFrame e \<Rightarrow> [e] | KeepAlive \<Rightarrow> []) fs)"

lemma delivered_simps [simp]:
  "delivered [] = []" "delivered (EventFrame e # fs) = e # delivered fs"
  "delivered (KeepAlive # fs) = delivered fs" "delivered (fs @ gs) = delivered fs @ delivered gs"
  "delivered (map EventFrame es) = es"
  by (simp_all add: delivered_def comp_def)

definition wanted :: "uuid \<Rightarrow> uuid \<Rightarrow> int \<Rightarrow> event \<Rightarrow> bool" where
  "wanted tid jid cursor e \<longleftrightarrow> ev_tenant e = tid \<and> ev_job e = jid \<and> cursor < event_id e"

lemma sorted_filter_id:
  "sorted_wrt (<) (map event_id es) \<Longrightarrow> sorted_wrt (<) (map event_id (filter p es))"
  by (induction es) auto

lemma job_events_page:
  assumes "sorted_wrt (<) (map event_id (events d))"
  shows "job_events tid jid cursor 500 d = take 500 (filter (wanted tid jid cursor) (events d))"
proof -
  have "sorted (map event_id (filter (wanted tid jid cursor) (events d)))"
    using sorted_filter_id [OF assms] by (simp add: strict_sorted_iff)
  then show ?thesis
    by (simp add: job_events_def select_by_def clamp_limit_def wanted_def [abs_def] sorted_sort_id sort_key_id_if_sorted)
qed

text \<open>Moving the cursor to the last event of a page drops exactly the page.\<close>

lemma filter_after_page:
  assumes "sorted_wrt (<) (map event_id es)" and "page = take n (filter (wanted tid jid cursor) es)"
    and "page \<noteq> []"
  shows "filter (wanted tid jid (event_id (last page))) es = drop (length page) (filter (wanted tid jid cursor) es)"
proof -
  let ?w = "filter (wanted tid jid cursor) es"
  let ?m = "event_id (last page)"
  have w: "?w = page @ drop (length page) ?w"
    using assms(2) by (metis append_take_drop_id length_take min.absorb_iff2 nle_le take_all)
  have sorted: "sorted_wrt (<) (map event_id (page @ drop (length page) ?w))"
    using sorted_filter_id [OF assms(1)] w by metis
  have "\<exists>e \<in> set es. event_id e = ?m \<and> cursor < ?m"
    using assms(2,3) by (metis (no_types, lifting) in_set_takeD last_in_set mem_Collect_eq set_filter wanted_def)
  then have "cursor < ?m" by blast
  then have "filter (wanted tid jid ?m) es = filter (\<lambda>e. ?m < event_id e) ?w"
    by (auto simp: wanted_def intro!: filter_cong)
  also have "\<dots> = filter (\<lambda>e. ?m < event_id e) page @ filter (\<lambda>e. ?m < event_id e) (drop (length page) ?w)"
    using w by (metis filter_append)
  also have "filter (\<lambda>e. ?m < event_id e) page = []"
  proof -
    obtain b l where page: "page = b @ [l]" using assms(3) by (cases page rule: rev_cases) auto
    have "sorted_wrt (<) (map event_id page)" using sorted by (simp add: sorted_wrt_append)
    then have "\<forall>e \<in> set page. event_id e \<le> ?m" unfolding page by (auto simp: sorted_wrt_append)
    then show ?thesis by (force simp: filter_empty_conv)
  qed
  also have "filter (\<lambda>e. ?m < event_id e) (drop (length page) ?w) = drop (length page) ?w"
    using sorted assms(3) by (force simp: sorted_wrt_append filter_id_conv)
  finally show ?thesis by simp
qed

lemma drop_split:
  assumes "n \<le> k" and "k \<le> m"
  shows "drop n (take k xs) @ drop k (take m xs) = drop n (take m xs)"
proof -
  let ?y = "take m xs"
  have "drop n (take k ?y @ drop k ?y) = drop n (take k ?y) @ drop (n - length (take k ?y)) (drop k ?y)" by simp
  also have "drop (n - length (take k ?y)) (drop k ?y) = drop k ?y"
    using assms(1) by (cases "length ?y \<le> k") simp_all
  finally have "drop n ?y = drop n (take k ?y) @ drop k ?y" unfolding append_take_drop_id .
  moreover have "take k ?y = take k xs" using assms(2) by (simp add: min_absorb1)
  ultimately show ?thesis by simp
qed

text \<open>The same holds for every earlier snapshot of the log.\<close>

lemma prefix_after_page:
  assumes "sorted_wrt (<) (map event_id es)" and "prefix p es" and "prefix page (filter (wanted tid jid cursor) es)"
    and "page \<noteq> []"
  shows "filter (wanted tid jid (event_id (last page))) p = drop (length page) (filter (wanted tid jid cursor) p)"
proof -
  let ?w = "filter (wanted tid jid cursor)"
  have p: "prefix (?w p) (?w es)" using assms(2) by (auto simp: prefix_def)
  have sp: "sorted_wrt (<) (map event_id p)" using assms(1,2) by (auto simp: prefix_def sorted_wrt_append)
  from p assms(3) consider "prefix page (?w p)" | "prefix (?w p) page" using prefix_same_cases by blast
  then show ?thesis
  proof cases
    case 1
    then have "page = take (length page) (?w p)" by (auto simp: prefix_def)
    from filter_after_page [OF sp this assms(4)] show ?thesis .
  next
    case 2
    obtain b l where page: "page = b @ [l]" using assms(4) by (cases page rule: rev_cases) auto
    have "sorted_wrt (<) (map event_id page)"
      using sorted_filter_id [OF assms(1), of "wanted tid jid cursor"] assms(3) by (auto simp: prefix_def sorted_wrt_append)
    then have le: "\<forall>e \<in> set page. event_id e \<le> event_id l" unfolding page by (auto simp: sorted_wrt_append)
    have "l \<in> set (?w es)" using assms(3) page by (auto dest: set_mono_prefix)
    then have "cursor < event_id l" by (simp add: wanted_def)
    then have "e \<in> set (?w p)" if "e \<in> set p" "wanted tid jid (event_id l) e" for e
      using that by (auto simp: wanted_def)
    with le set_mono_prefix [OF 2] have "filter (wanted tid jid (event_id l)) p = []"
      by (force simp: filter_empty_conv wanted_def)
    with prefix_length_le [OF 2] show ?thesis unfolding page by simp
  qed
qed

text \<open>How far the polls of a stream reach, counted in events of the log: no cursor, no page.\<close>

definition job_over :: "uuid \<Rightarrow> uuid \<Rightarrow> db \<Rightarrow> bool" where
  "job_over tid jid d \<longleftrightarrow> (case get_job tid jid d of Inl _ \<Rightarrow> True | Inr v \<Rightarrow> terminal (view_state v))"

fun polled :: "uuid \<Rightarrow> uuid \<Rightarrow> int \<Rightarrow> (db \<times> db) list \<Rightarrow> nat \<Rightarrow> nat \<times> bool" where
  "polled tid jid cursor [] n = (n, False)"
| "polled tid jid cursor ((d1, d2) # rounds) n =
     (let m = length (filter (wanted tid jid cursor) (events d1)) in
      if m \<le> n then polled tid jid cursor rounds n
      else if job_over tid jid d2 then (min (n + 500) m, True)
      else polled tid jid cursor rounds (min (n + 500) m))"

lemma polled_grows: "n \<le> fst (polled tid jid cursor rounds n)"
  by (induction tid jid cursor rounds n rule: polled.induct) (fastforce simp: Let_def)+

lemma stream_polled:
  assumes "sorted_wrt (<) (map event_id es)" and "\<forall>(d1, d2) \<in> set rounds. prefix (events d1) es"
    and "\<And>p. prefix p es \<Longrightarrow> filter (wanted tid jid cursor) p = drop n (filter (wanted tid jid cursor0) p)"
  shows "delivered (fst (sse_stream tid jid rounds cursor idle)) =
      drop n (take (fst (polled tid jid cursor0 rounds n)) (filter (wanted tid jid cursor0) es)) \<and>
    snd (sse_stream tid jid rounds cursor idle) = snd (polled tid jid cursor0 rounds n)"
  using assms(2,3)
proof (induction rounds arbitrary: cursor n idle)
  case Nil
  then show ?case by simp
next
  case (Cons r rounds)
  obtain d1 d2 where r: "r = (d1, d2)" by fastforce
  let ?w0 = "filter (wanted tid jid cursor0)"
  let ?m = "length (?w0 (events d1))"
  have pre: "prefix (events d1) es" "\<forall>(d1, d2) \<in> set rounds. prefix (events d1) es" using Cons.prems(1) r by auto
  then have "sorted_wrt (<) (map event_id (events d1))" using assms(1) by (auto simp: prefix_def sorted_wrt_append)
  note page = job_events_page [OF this, of tid jid cursor, unfolded Cons.prems(2) [OF pre(1)]]
  show ?case
  proof (cases "?m \<le> n")
    case True
    then have "job_events tid jid cursor 500 d1 = []" using page by simp
    with True Cons.IH [OF pre(2) Cons.prems(2), of "idle + 1"] show ?thesis
      by (simp add: r case_prod_beta)
  next
    case False
    let ?page = "take 500 (drop n (?w0 (events d1)))"
    let ?k = "min (n + 500) ?m"
    have ne: "?page \<noteq> []" using False by simp
    then obtain e ev where ev: "?page = e # ev" by (cases ?page) auto
    have len: "n + length ?page = ?k" using False by simp
    have w0: "prefix (?w0 (events d1)) (?w0 es)" using pre(1) by (auto simp: prefix_def)
    have sent: "?page = drop n (take ?k (?w0 es))"
    proof -
      obtain rest where "?w0 es = ?w0 (events d1) @ rest" using w0 by (auto simp: prefix_def)
      then show ?thesis using False by (simp add: take_drop add.commute min_def)
    qed
    have "prefix ?page (filter (wanted tid jid cursor) es)"
      unfolding Cons.prems(2) [OF prefix_order.refl] sent by (simp add: drop_take take_is_prefix)
    note after = prefix_after_page [OF assms(1) _ this ne]
    have next_inv: "filter (wanted tid jid (event_id (last ?page))) p = drop ?k (?w0 p)" if "prefix p es" for p
      unfolding after [OF that] Cons.prems(2) [OF that] using len by (simp add: add.commute)
    note IH = Cons.IH [OF pre(2) next_inv, of 0, unfolded ev]
    show ?thesis
    proof (cases "job_over tid jid d2")
      case True
      then have "sse_stream tid jid (r # rounds) cursor idle = (map EventFrame ?page, True)"
        using page unfolding r ev by (simp add: job_over_def split: sum.splits)
      with True \<open>\<not> ?m \<le> n\<close> sent show ?thesis by (simp add: r)
    next
      case live: False
      then have "delivered (fst (sse_stream tid jid (r # rounds) cursor idle)) =
            ?page @ delivered (fst (sse_stream tid jid rounds (event_id (last (e # ev))) 0)) \<and>
          snd (sse_stream tid jid (r # rounds) cursor idle) = snd (sse_stream tid jid rounds (event_id (last (e # ev))) 0)"
        using page unfolding r ev by (auto simp: job_over_def split: sum.splits prod.splits)
      moreover have "?page @ drop ?k (take (fst (polled tid jid cursor0 rounds ?k)) (?w0 es)) =
          drop n (take (fst (polled tid jid cursor0 rounds ?k)) (?w0 es))"
        using drop_split [of n ?k "fst (polled tid jid cursor0 rounds ?k)" "?w0 es"] sent False
          polled_grows [of ?k tid jid cursor0 rounds] by simp
      ultimately show ?thesis using live \<open>\<not> ?m \<le> n\<close> IH by (simp add: r)
    qed
  qed
qed


subsection \<open>Properties\<close>

text \<open>
  C9. No job without its document: whatever the outcome of the upload route, a job it queued has its payload in the store. When the
  route raises (an invalid body, a failing store, a conflict), no job, document, event or message was added. When it answers, the body
  is a PDF envelope within the size limit, and it is read back verified under the reference of the store, whatever is put later. The
  job named in the answer is of the authenticated tenant and refers to a document row of this tenant with the digest of the body. A
  created job is the one new row, queued, with the request the client sent (which names that digest), and the status is 202;
  otherwise the rows of jobs are as before, the named one has an equal request, and the status is 200.
\<close>

theorem accepted_upload_is_stored_and_queued:
  "case submit_job sha (local_put sha store_root disk_ok) maximum maxa now newdoc newid u (Some d) s of
     (Inl e, state', s') \<Rightarrow> same_work (Some d) state'
   | (Inr rep, state', s') \<Rightarrow>
       \<exists>tid r payload d' j row. fst (authenticate sha now (remove_prefix ''Bearer '' (the (authorization u))) d) = Some tid \<and>
         payload = concat (chunks u) \<and> starts_with ''%PDF-'' payload \<and> int (length payload) \<le> maximum \<and>
         ref_sha256 r = sha payload \<and>
         (\<forall>rs. local_read sha store_root (run_puts (local_put sha store_root) s' rs) r = Inr payload) \<and>
         state' = Some d' \<and> j \<in> set (jobs d') \<and> job_id j = reply_job rep \<and> job_tenant j = tid \<and>
         row \<in> set (documents d') \<and> document_id row = job_document j \<and> doc_tenant row = tid \<and>
         ref_sha256 (doc_ref row) = sha payload \<and> (doc_ref row = r \<or> row \<in> set (documents d)) \<and>
         (if reply_created rep
          then reply_status rep = 202 \<and> job_state j = Queued \<and> request j = job_request u r \<and>
            j \<notin> set (jobs d) \<and> set (jobs d') = insert j (set (jobs d))
          else reply_status rep = 200 \<and> py_eq (request j) (job_request u r) \<and> jobs d' = jobs d)"
proof -
  obtain reply state' s' where run: "submit_job sha (local_put sha store_root disk_ok) maximum maxa now newdoc newid u (Some d) s =
    (reply, state', s')" by (metis prod.collapse)
  show ?thesis
  proof (cases reply)
    case (Inl e)
    have "same_work (Some d) state'" using submit_job_rejected run Inl by (metis fst_conv snd_conv)
    with run Inl show ?thesis by simp
  next
    case (Inr rep)
    from run [unfolded Inr] show ?thesis
    proof (rule submit_job_cases)
      fix tid d1 d' r payload key
      assume auth: "fst (authenticate sha now (remove_prefix ''Bearer '' (the (authorization u))) d) = Some tid"
        and d1: "jobs d1 = jobs d" "documents d1 = documents d"
        and payload: "read_pdf maximum (content_type u) (chunks u) = Inr payload"
        and put: "local_put sha store_root disk_ok s tid ''pdf'' payload ''pdf'' ''application/pdf'' = Inr (r, s')"
        and sub: "submit now tid r key (job_request u r) maxa newdoc newid d1 = Inr ((reply_job rep, reply_created rep), d')"
        and st: "state' = Some d'" and status: "reply_status rep = (if reply_created rep then 202 else 200)"
      have r: "ref_sha256 r = sha payload" using put by (auto simp: local_put_def make_ref_def)
      from submit_row [OF sub, unfolded d1] obtain j row where
        j: "j \<in> set (jobs d')" "job_id j = reply_job rep" "job_tenant j = tid"
          "if reply_created rep then request j = job_request u r \<and> job_state j = Queued \<and> j \<notin> set (jobs d) \<and> set (jobs d') = insert j (set (jobs d))
           else py_eq (request j) (job_request u r) \<and> jobs d' = jobs d"
        and row: "row \<in> set (documents d')" "document_id row = job_document j" "doc_tenant row = tid"
          "ref_sha256 (doc_ref row) = ref_sha256 r" "doc_ref row = r \<or> row \<in> set (documents d)"
        by auto
      have pdf: "payload = concat (chunks u)" "starts_with ''%PDF-'' payload" "int (length payload) \<le> maximum"
        using read_pdf_ok [OF payload] by blast+
      note facts = auth pdf r local_store.put_survives [OF put] st j(1-3) row [unfolded r]
      have last: "if reply_created rep then reply_status rep = 202 \<and> job_state j = Queued \<and> request j = job_request u r \<and>
            j \<notin> set (jobs d) \<and> set (jobs d') = insert j (set (jobs d))
          else reply_status rep = 200 \<and> py_eq (request j) (job_request u r) \<and> jobs d' = jobs d"
        using j(4) status by (cases "reply_created rep") simp_all
      show ?thesis unfolding run Inr prod.case sum.case
        by (rule exI [of _ tid], rule exI [of _ r], rule exI [of _ payload], rule exI [of _ d'], rule exI [of _ j], rule exI [of _ row],
            intro conjI allI) (rule facts last)+
    qed
  qed
qed

text \<open>
  C10. Rejected requests do no work: whatever the reason, when a route of the API raises an exception,
  the jobs, documents, events and messages are as before (only the time a key was last used may
  differ), and a rejected upload leaves the database unchanged in the same sense.
\<close>

theorem rejected_requests_change_nothing:
  "(\<forall>e. fst (submit_job sha put maximum maxa now newdoc newid u state s) = Inl e \<longrightarrow>
      same_work state (fst (snd (submit_job sha put maximum maxa now newdoc newid u state s)))) \<and>
   same_work state (snd (get_job_route sha now auth jid state)) \<and>
   same_work state (snd (download_bundle sha get now auth jid state s)) \<and>
   (\<forall>e. fst (cancel_job sha now auth jid state) = Inl e \<longrightarrow> same_work state (snd (cancel_job sha now auth jid state))) \<and>
   same_work state (snd (job_events_route sha now auth jid last_id rounds state))"
proof (intro conjI allI impI)
  fix e
  assume "fst (submit_job sha put maximum maxa now newdoc newid u state s) = Inl e"
  then show "same_work state (fst (snd (submit_job sha put maximum maxa now newdoc newid u state s)))"
    by (rule submit_job_rejected)
next
  obtain p st where p: "principal sha now auth state = (p, st)" by fastforce
  note same = principal_cases [OF p]
  show "same_work state (snd (get_job_route sha now auth jid state))"
    using p same by (auto simp: get_job_route_def split: sum.splits db_error.splits)
  show "same_work state (snd (download_bundle sha get now auth jid state s))"
    using p same by (auto simp: download_bundle_def split: sum.splits db_error.splits)
  show "same_work state (snd (job_events_route sha now auth jid last_id rounds state))"
    using p same by (auto simp: job_events_route_def split: sum.splits db_error.splits)
  fix e
  assume "fst (cancel_job sha now auth jid state) = Inl e"
  with p same show "same_work state (snd (cancel_job sha now auth jid state))"
    by (auto simp: cancel_job_def request_cancel_def split: sum.splits option.splits)
qed

text \<open>
  C11. Downloads are verified and tenant-scoped: a served bundle is the payload of the bundle reference
  in the result of a succeeded job of the authenticated tenant, its bytes have the size and the hash of
  that reference, the entity tag shows the hash, the announced length is theirs, and they are at most 128 MiB.
\<close>

theorem download_verified:
  assumes "download_bundle sha (local_read sha store_root) now auth jid (Some d) s = (Inr dl, state')"
  shows "\<exists>tid j r. fst (authenticate sha now (remove_prefix ''Bearer '' (the auth)) d) = Some tid \<and>
    j \<in> set (jobs d) \<and> job_id j = jid \<and> job_tenant j = tid \<and> job_state j = Succeeded \<and>
    bundle_ref (job_columns j) = Inr r \<and> int (length (dl_payload dl)) = ref_size r \<and> sha (dl_payload dl) = ref_sha256 r \<and>
    dl_etag dl = quoted (sha (dl_payload dl)) \<and> dl_length dl = nat_str (length (dl_payload dl)) \<and>
    length (dl_payload dl) \<le> 134217728"
proof -
  obtain p st where p: "principal sha now auth (Some d) = (p, st)" by fastforce
  with assms obtain tid d1 where p': "p = Inr (tid, d1)"
    by (auto simp: download_bundle_def split: sum.splits)
  from principal_cases [OF p [unfolded p']] have jobs: "jobs d1 = jobs d"
    and auth: "fst (authenticate sha now (remove_prefix ''Bearer '' (the auth)) d) = Some tid"
    by auto
  from assms p p' obtain v where v: "get_job tid jid d1 = Inr v" "view_state v = Succeeded"
    by (auto simp: download_bundle_def split: sum.splits db_error.splits if_splits)
  with assms p p' obtain r where r: "bundle_ref v = Inr r" "\<not> 134217728 < ref_size r"
    by (auto simp: download_bundle_def split: sum.splits if_splits)
  with assms p p' v have get: "local_read sha store_root s r = Inr (dl_payload dl)"
    and dl: "dl_length dl = nat_str (length (dl_payload dl))" "dl_etag dl = quoted (ref_sha256 r)"
    by (auto simp: download_bundle_def split: sum.splits if_splits)
  from v(1) jobs obtain j where j: "j \<in> set (jobs d)" "job_tenant j = tid" "job_id j = jid" "v = job_columns j"
    by (auto simp: get_job_def split: option.splits dest!: find_SomeD)
  have "ref_matches sha r (dl_payload dl)" by (rule local_store.get_checked [OF get])
  then have "int (length (dl_payload dl)) = ref_size r" "sha (dl_payload dl) = ref_sha256 r" "length (dl_payload dl) \<le> 134217728"
    using r(2) by (auto simp: ref_matches_def)
  with auth j v r dl show ?thesis by (auto simp: job_columns_def)
qed

text \<open>
  C12. The stream replays the log, and how far is decided by the polls alone: the events a client receives are the first ones of its
  tenant and job after its cursor, in order, without gap or duplicate, and their number and whether the stream ended are those of
  \<open>polled\<close>, which knows no cursor: each poll of a snapshot reaches up to 500 further events of it, and the stream ends with the first
  poll that reached something while the job has ended or is gone.
\<close>

theorem sse_replays_in_order:
  assumes "sorted_wrt (<) (map event_id es)" and "\<forall>(d1, d2) \<in> set rounds. prefix (events d1) es"
  shows "delivered (fst (sse_stream tid jid rounds cursor idle)) =
      take (fst (polled tid jid cursor rounds 0)) (filter (wanted tid jid cursor) es) \<and>
    snd (sse_stream tid jid rounds cursor idle) = snd (polled tid jid cursor rounds 0)"
  using stream_polled [OF assms, where n = 0] by simp

definition finished_db :: db where
  "finished_db = run_ops demo_sha [(40, Finish ''J'' ''w1'' (Some (JObj [])) None False)] demo_db"

text \<open>
  The stream can end without the end: when the job finishes between the two queries of one round,
  the stream ends by itself although the event that tells the outcome has not been delivered. (The
  first snapshot is a leased job, the second the same database after the worker finished it.)
\<close>

theorem sse_misses_final_event:
  "reachable demo_sha demo_db \<and> reachable demo_sha finished_db \<and>
   map ev_kind (delivered (fst (sse_stream ''T'' ''J'' [(demo_db, finished_db)] 0 0))) = [''queued'', ''leased''] \<and>
   snd (sse_stream ''T'' ''J'' [(demo_db, finished_db)] 0 0) \<and>
   map ev_kind (job_events ''T'' ''J'' 0 500 finished_db) = [''queued'', ''leased'', ''succeeded'']"
proof (intro conjI)
  show "reachable demo_sha demo_db" by (rule demo_reachable)
  show "reachable demo_sha finished_db"
    unfolding finished_db_def by (rule reachable_run_ops [OF demo_reachable])
qed code_simp+

text \<open>
  A client that is up to date waits for ever: when no event follows the cursor the client sends, for
  example when it reconnects after the last event of a finished job, the stream never ends by itself
  and sends nothing but keep-alive comments.
\<close>

theorem sse_up_to_date_never_ends:
  assumes "\<forall>(d1, d2) \<in> set rounds. job_events tid jid cursor 500 d1 = []"
  shows "\<not> snd (sse_stream tid jid rounds cursor idle) \<and>
    delivered (fst (sse_stream tid jid rounds cursor idle)) = []"
  using assms by (induction tid jid rounds cursor idle rule: sse_stream.induct) (auto split: prod.splits)

end
