(* ===== verification/ApiRun.thy ===== *)
theory ApiRun
  imports PlatformApi
begin

section \<open>A run of the tenant API\<close>

text \<open>
  An authenticated upload, a finished job and its download, and two rounds of the event stream, on
  which the hypotheses of the API's guarantees hold.
\<close>

definition key_db :: db where
  "key_db = snd (projr issued)"

definition upload1 :: upload where
  "upload1 = \<lparr>authorization = Some ''Bearer dsv_live_secret'', idempotency_key = Some ''key-0009'',
     content_type = Some ''application/pdf'', chunks = [''%PDF-1.7'', '' body''], q_manufacturer = ''TI'',
     q_mpn = ''X1'', q_package = ''DIP-8'', q_source_url = None\<rparr>"

definition answer :: "(api_exn + submitted) \<times> db option \<times> filesystem" where
  "answer = submit_job demo_sha (local_put demo_sha [''store''] True) 1000 3 50 ''D9'' ''J9'' upload1 (Some key_db) []"

lemma answer_ok: "map_option reply_job (case fst answer of Inl _ \<Rightarrow> None | Inr r \<Rightarrow> Some r) = Some ''J9''"
  by code_simp

theorem accepted_upload_is_stored_and_queued_witness:
  "\<exists>rep tid r payload d' j row. fst answer = Inr rep \<and> payload = concat (chunks upload1) \<and>
    (\<forall>rs. local_read demo_sha [''store''] (run_puts (local_put demo_sha [''store'']) (snd (snd answer)) rs) r = Inr payload) \<and>
    fst (snd answer) = Some d' \<and> j \<in> set (jobs d') \<and> job_id j = reply_job rep \<and> job_tenant j = tid \<and>
    row \<in> set (documents d') \<and> document_id row = job_document j \<and> ref_sha256 (doc_ref row) = demo_sha payload"
proof -
  obtain rep where rep: "fst answer = Inr rep" using answer_ok by (cases "fst answer") simp_all
  then have run: "submit_job demo_sha (local_put demo_sha [''store''] True) 1000 3 50 ''D9'' ''J9'' upload1 (Some key_db) [] =
      (Inr rep, fst (snd answer), snd (snd answer))"
    by (metis answer_def prod.collapse)
  show ?thesis
    using accepted_upload_is_stored_and_queued [where sha = demo_sha and store_root = "[''store'']" and disk_ok = True and maximum = 1000 and
        maxa = 3 and now = 50 and newdoc = "''D9''" and newid = "''J9''" and u = upload1 and d = key_db and s = "[]"] rep
    unfolding run prod.case sum.case by blast
qed

text \<open>
  Two rejections of an authenticated client that come after the last guard: an idempotency key used again for another part, and the
  second cancellation of a job. Both requests reach the transaction, and the database only records the use of the key.
\<close>

definition conflicting :: upload where
  "conflicting = upload1\<lparr>q_mpn := ''X2''\<rparr>"

definition conflict_answer :: "(api_exn + submitted) \<times> db option \<times> filesystem" where
  "conflict_answer = submit_job demo_sha (local_put demo_sha [''store''] True) 1000 3 60 ''D8'' ''J8'' conflicting (fst (snd answer)) (snd (snd answer))"

definition withdrawn_db :: "db option" where
  "withdrawn_db = snd (cancel_job demo_sha 60 (Some ''Bearer dsv_live_secret'') ''J9'' (fst (snd answer)))"

definition second_cancel :: "(api_exn + uuid) \<times> db option" where
  "second_cancel = cancel_job demo_sha 70 (Some ''Bearer dsv_live_secret'') ''J9'' withdrawn_db"

lemma conflict_rejected:
  "map_option (\<lambda>e. case e of Http st _ \<Rightarrow> st | _ \<Rightarrow> 0) (case fst conflict_answer of Inl e \<Rightarrow> Some e | Inr _ \<Rightarrow> None) = Some 409"
  by code_simp

lemma second_cancel_rejected:
  "map_option (\<lambda>e. case e of Http st _ \<Rightarrow> st | _ \<Rightarrow> 0) (case fst second_cancel of Inl e \<Rightarrow> Some e | Inr _ \<Rightarrow> None) = Some 409"
  by code_simp

theorem rejected_requests_change_nothing_witness:
  "(\<exists>e. fst conflict_answer = Inl e) \<and> same_work (fst (snd answer)) (fst (snd conflict_answer)) \<and>
   (\<exists>e. fst second_cancel = Inl e) \<and> same_work withdrawn_db (snd second_cancel) \<and>
   map job_id (jobs (the withdrawn_db)) = [''J'', ''J9''] \<and> map job_state (jobs (the withdrawn_db)) = [Running, Cancelled]"
proof (intro conjI)
  show "\<exists>e. fst conflict_answer = Inl e" using conflict_rejected by (auto split: sum.splits)
  then show "same_work (fst (snd answer)) (fst (snd conflict_answer))"
    unfolding conflict_answer_def by (elim exE) (rule rejected_requests_change_nothing [THEN conjunct1, rule_format])
  show "\<exists>e. fst second_cancel = Inl e" using second_cancel_rejected by (auto split: sum.splits)
  then show "same_work withdrawn_db (snd second_cancel)"
    unfolding second_cancel_def
    by (elim exE) (rule rejected_requests_change_nothing [THEN conjunct2, THEN conjunct2, THEN conjunct2, THEN conjunct1, rule_format])
qed code_simp+

definition bundle_ref1 :: object_ref where
  "bundle_ref1 = \<lparr>ref_key = ''b'', ref_sha256 = replicate 64 CHR ''0'', ref_size = 3, ref_content_type = ''application/zip''\<rparr>"

definition bundled_db :: db where
  "bundled_db = run_ops demo_sha [(40, Finish ''J'' ''w1'' (Some (JObj [(''bundle'', JObj
     [(''key'', JStr ''b''), (''sha256'', JStr (replicate 64 CHR ''0'')), (''size'', JInt 3),
      (''content_type'', JStr ''application/zip'')])])) None False)] key_db"

definition served :: "(api_exn + download) \<times> db option" where
  "served = download_bundle demo_sha (local_read demo_sha [''store'']) 60 (Some ''Bearer dsv_live_secret'') ''J''
     (Some bundled_db) [([''store'', ''b''], ''zip'')]"

lemma served_ok: "map_option dl_payload (case fst served of Inl _ \<Rightarrow> None | Inr r \<Rightarrow> Some r) = Some ''zip''"
  by code_simp

theorem download_verified_witness:
  "\<exists>dl tid j. fst served = Inr dl \<and> j \<in> set (jobs bundled_db) \<and> job_id j = ''J'' \<and> job_tenant j = tid \<and>
     job_state j = Succeeded \<and> dl_etag dl = quoted (demo_sha (dl_payload dl)) \<and>
     (\<exists>r. bundle_ref (job_columns j) = Inr r \<and> int (length (dl_payload dl)) = ref_size r)"
proof -
  obtain dl where dl: "fst served = Inr dl" using served_ok by (cases "fst served") simp_all
  then have "download_bundle demo_sha (local_read demo_sha [''store'']) 60 (Some ''Bearer dsv_live_secret'') ''J''
     (Some bundled_db) [([''store'', ''b''], ''zip'')] = (Inr dl, snd served)"
    by (metis served_def prod.collapse)
  from download_verified [OF this] dl show ?thesis by blast
qed

text \<open>
  Three polls: the first sees the two events of the leased job, the second nothing new, the third the end; so all three events arrive.
\<close>

theorem sse_replays_in_order_witness:
  "delivered (fst (sse_stream ''T'' ''J'' [(demo_db, demo_db), (demo_db, demo_db), (finished_db, finished_db)] 0 0)) =
     take 3 (filter (wanted ''T'' ''J'' 0) (events finished_db)) \<and>
   snd (sse_stream ''T'' ''J'' [(demo_db, demo_db), (demo_db, demo_db), (finished_db, finished_db)] 0 0)"
proof -
  let ?rounds = "[(demo_db, demo_db), (demo_db, demo_db), (finished_db, finished_db)]"
  have r: "reachable demo_sha finished_db"
    unfolding finished_db_def by (rule reachable_run_ops [OF demo_reachable])
  have sorted: "sorted_wrt (<) (map event_id (events finished_db))"
    using db_invD(3) [OF reachable_inv [OF r]] by (simp add: log_ok_def)
  have "take (length (events demo_db)) (events finished_db) = events demo_db" by code_simp
  then have "prefix (events demo_db) (events finished_db)" by (metis take_is_prefix)
  then have "\<forall>(d1, d2) \<in> set ?rounds. prefix (events d1) (events finished_db)" by simp
  note stream = sse_replays_in_order [OF sorted this, of "''T''" "''J''" 0 0]
  have "polled ''T'' ''J'' 0 ?rounds 0 = (3, True)" by code_simp
  with stream show ?thesis by simp
qed

theorem sse_up_to_date_never_ends_witness:
  "\<not> snd (sse_stream ''T'' ''J'' [(finished_db, finished_db)] 9 0) \<and>
   delivered (fst (sse_stream ''T'' ''J'' [(finished_db, finished_db)] 9 0)) = []"
proof (rule sse_up_to_date_never_ends)
  have "job_events ''T'' ''J'' 9 500 finished_db = []" by code_simp
  then show "\<forall>(d1, d2) \<in> set [(finished_db, finished_db)]. job_events ''T'' ''J'' 9 500 d1 = []" by simp
qed

end
