(* ===== verification/Float64.thy ===== *)
theory Float64
  imports Json "HOL-Library.Log_Nat"
begin

section \<open>Floating-point arithmetic\<close>

text \<open>
  The arithmetic of finite binary64 values: a value is the rational number it denotes, and each
  operation rounds its exact result to the nearest representable number, ties to even (\<open>rnd\<close>). The
  values the program computes with stay below the overflow threshold, so results are not clipped to
  infinity. \<open>to_float\<close> is \<open>float(i)\<close> of an integer, which raises on overflow.
\<close>

definition pow2 :: "int \<Rightarrow> rat" where
  "pow2 e = (if 0 \<le> e then 2 ^ nat e else 1 / 2 ^ nat (- e))"

text \<open>The exponent of the leading bit of a positive rational.\<close>

definition rat_exponent :: "rat \<Rightarrow> int" where
  "rat_exponent r = (case quotient_of r of (p, q) \<Rightarrow>
     let k = bitlen p - bitlen q in if pow2 k \<le> r then k else k - 1)"

definition round_half_even :: "rat \<Rightarrow> int" where
  "round_half_even x = (let f = \<lfloor>x\<rfloor>; d = x - of_int f in
     if d < 1 / 2 then f else if 1 / 2 < d then f + 1 else if even f then f else f + 1)"

definition rnd :: "rat \<Rightarrow> rat" where
  "rnd r = (if r = 0 then 0
     else let e = max (- 1074) (rat_exponent \<bar>r\<bar> - 52)
          in of_int (round_half_even (r / pow2 e)) * pow2 e)"

definition fadd :: "rat \<Rightarrow> rat \<Rightarrow> rat" where "fadd a b = rnd (a + b)"
definition fsub :: "rat \<Rightarrow> rat \<Rightarrow> rat" where "fsub a b = rnd (a - b)"
definition fmul :: "rat \<Rightarrow> rat \<Rightarrow> rat" where "fmul a b = rnd (a * b)"
definition fdiv :: "rat \<Rightarrow> rat \<Rightarrow> rat" where "fdiv a b = rnd (a / b)"

text \<open>\<open>math.fsum\<close> is the correctly rounded exact sum.\<close>

definition fsum :: "rat list \<Rightarrow> rat" where "fsum xs = rnd (sum_list xs)"

definition int_overflows :: "int \<Rightarrow> bool" where
  "int_overflows i \<longleftrightarrow> 2 ^ 1024 - 2 ^ 970 \<le> \<bar>i\<bar>"

text \<open>Integers up to \<open>2^53\<close> are represented exactly.\<close>

definition to_float :: "int \<Rightarrow> rat option" where
  "to_float i =
     (if \<bar>i\<bar> \<le> 9007199254740992 then Some (of_int i)
      else if int_overflows i then None else Some (rnd (of_int i)))"

lemma rnd_0 [simp]: "rnd 0 = 0"
  by (simp add: rnd_def)

lemma pow2_pos [simp]: "0 < pow2 e"
  by (simp add: pow2_def)

lemma round_half_even_int [simp]: "round_half_even (of_int i) = i"
  by (simp add: round_half_even_def Let_def)

lemma round_half_even_mono: "x \<le> y \<Longrightarrow> round_half_even x \<le> round_half_even y"
proof -
  assume le: "x \<le> y"
  have fl: "\<lfloor>x\<rfloor> \<le> \<lfloor>y\<rfloor>" using le by (rule floor_mono)
  show ?thesis
  proof (cases "\<lfloor>x\<rfloor> = \<lfloor>y\<rfloor>")
    case True
    with le show ?thesis by (auto simp: round_half_even_def Let_def)
  next
    case False
    with fl show ?thesis by (auto simp: round_half_even_def Let_def)
  qed
qed

lemma rnd_nonneg: "0 \<le> r \<Longrightarrow> 0 \<le> rnd r"
proof (cases "r = 0")
  case False
  assume "0 \<le> r"
  let ?e = "max (- 1074) (rat_exponent \<bar>r\<bar> - 52)"
  have "0 \<le> r / pow2 ?e" using \<open>0 \<le> r\<close> pow2_pos [of ?e] by (simp add: less_imp_le)
  then have "0 \<le> round_half_even (r / pow2 ?e)"
    using round_half_even_mono [of 0 "r / pow2 ?e"] round_half_even_int [of 0] by simp
  then have "0 \<le> of_int (round_half_even (r / pow2 ?e)) * pow2 ?e"
    using pow2_pos [of ?e] by (simp add: less_imp_le)
  then show ?thesis using False by (simp add: rnd_def Let_def)
qed simp

text \<open>Rounding never crosses an integer that is represented exactly.\<close>

lemma two_powi_le_bitlen: "0 < n \<Longrightarrow> (2::rat) ^ nat (bitlen n - 1) \<le> of_int n"
proof -
  assume n: "0 < n"
  have "2 ^ nat (bitlen n - 1) \<le> n" using bitlen_bounds [OF n] by simp
  then have "of_int (2 ^ nat (bitlen n - 1)) \<le> (of_int n :: rat)" by (simp only: of_int_le_iff)
  then show ?thesis by simp
qed

lemma pow2_add: "pow2 (a + b) = pow2 a * pow2 b"
proof -
  have "pow2 e = 2 powi e" for e by (simp add: pow2_def power_int_def field_simps)
  then show ?thesis by (simp add: power_int_add)
qed

lemma pow2_mono: "a \<le> b \<Longrightarrow> pow2 a \<le> pow2 b"
proof -
  assume "a \<le> b"
  then have "pow2 b = pow2 a * 2 ^ nat (b - a)" using pow2_add [of a "b - a"] by (simp add: pow2_def [of "b - a"])
  then show ?thesis by simp
qed

lemma pow2_rat_exponent: "0 < r \<Longrightarrow> pow2 (rat_exponent r) \<le> r"
proof -
  assume r: "0 < r"
  obtain p q where pq: "quotient_of r = (p, q)" by fastforce
  then have q: "0 < q" and eq: "r = of_int p / of_int q" using quotient_of_denom_pos quotient_of_div by auto
  then have p: "0 < p" using r by (simp add: zero_less_divide_iff)
  let ?k = "bitlen p - bitlen q"
  have bp: "pow2 (bitlen p - 1) \<le> of_int p" using two_powi_le_bitlen [OF p] bitlen_nonneg [of p] bitlen_eq_zero_iff [of p] p by (simp add: pow2_def)
  have "q \<le> 2 ^ nat (bitlen q)" using bitlen_bounds [OF q] by simp
  then have "of_int q \<le> (of_int (2 ^ nat (bitlen q)) :: rat)" by (simp only: of_int_le_iff)
  then have bq: "of_int q \<le> pow2 (bitlen q)" using bitlen_nonneg [of q] by (simp add: pow2_def)
  have "pow2 (?k - 1) * of_int q \<le> pow2 (?k - 1) * pow2 (bitlen q)" using bq by (simp add: mult_left_mono)
  also have "\<dots> = pow2 (bitlen p - 1)" by (simp flip: pow2_add)
  finally have "pow2 (?k - 1) * of_int q \<le> of_int p" using bp by simp
  then have "pow2 (?k - 1) \<le> r" using q by (simp add: eq pos_le_divide_eq)
  then show ?thesis by (simp add: rat_exponent_def pq Let_def)
qed

lemma div_pow2_int: "e \<le> 0 \<Longrightarrow> of_int n / pow2 e = of_int (n * 2 ^ nat (- e))"
  by (cases "e = 0") (simp_all add: pow2_def)

lemma rnd_le_int:
  assumes "r \<le> of_int n" and "0 \<le> r" and "n < 2 ^ 53"
  shows "rnd r \<le> of_int n"
proof (cases "r = 0")
  case False
  with assms have pos: "0 < r" by simp
  let ?k = "rat_exponent \<bar>r\<bar>"
  let ?e = "max (- 1074) (?k - 52)"
  have "pow2 ?k \<le> r" using pow2_rat_exponent [OF pos] pos by simp
  also have "r < pow2 53"
  proof -
    have "(of_int n :: rat) < of_int (2 ^ 53)" using assms(3) by (simp only: of_int_less_iff)
    then show ?thesis using assms(1) by (simp add: pow2_def)
  qed
  finally have "?k < 53" using pow2_mono [of 53 ?k] by (cases "?k < 53") auto
  then have e: "?e \<le> 0" by simp
  have int: "of_int n / pow2 ?e = of_int (n * 2 ^ nat (- ?e))"
    using e by (rule div_pow2_int)
  have "r / pow2 ?e \<le> of_int (n * 2 ^ nat (- ?e))"
    using assms(1) unfolding int [symmetric] by (intro divide_right_mono) (simp_all add: less_imp_le)
  then have "round_half_even (r / pow2 ?e) \<le> n * 2 ^ nat (- ?e)"
    using round_half_even_mono round_half_even_int by metis
  then have "of_int (round_half_even (r / pow2 ?e)) \<le> (of_int (n * 2 ^ nat (- ?e)) :: rat)" by (simp only: of_int_le_iff)
  also have "\<dots> = of_int n / pow2 ?e" by (rule int [symmetric])
  finally have "of_int (round_half_even (r / pow2 ?e)) * pow2 ?e \<le> of_int n"
    by (simp add: pos_le_divide_eq)
  then show ?thesis using False by (simp add: rnd_def Let_def)
qed (use assms in simp)

lemma rnd_nonpos: "r \<le> 0 \<Longrightarrow> rnd r \<le> 0"
proof (cases "r = 0")
  case False
  assume "r \<le> 0"
  let ?e = "max (- 1074) (rat_exponent \<bar>r\<bar> - 52)"
  have "r / pow2 ?e \<le> 0" using \<open>r \<le> 0\<close> pow2_pos [of ?e] by (simp add: divide_nonpos_pos)
  then have "round_half_even (r / pow2 ?e) \<le> 0"
    using round_half_even_mono [of "r / pow2 ?e" 0] round_half_even_int [of 0] by simp
  then have "of_int (round_half_even (r / pow2 ?e)) * pow2 ?e \<le> 0"
    using pow2_pos [of ?e] by (simp add: mult_nonpos_nonneg less_imp_le)
  then show ?thesis using False by (simp add: rnd_def Let_def)
qed simp

text \<open>Nor does it cross any value that is a float itself.\<close>

lemma rat_exponent_less: "0 < r \<Longrightarrow> r < pow2 (rat_exponent r + 1)"
proof -
  assume r: "0 < r"
  obtain p q where pq: "quotient_of r = (p, q)" by fastforce
  then have q: "0 < q" and eq: "r = of_int p / of_int q" using quotient_of_denom_pos quotient_of_div by auto
  then have p: "0 < p" using r by (simp add: zero_less_divide_iff)
  let ?k = "bitlen p - bitlen q"
  have "p < 2 ^ nat (bitlen p)" using bitlen_bounds [OF p] by simp
  then have "of_int p < (of_int (2 ^ nat (bitlen p)) :: rat)" by (simp only: of_int_less_iff)
  then have bp: "of_int p < pow2 (bitlen p)" using bitlen_nonneg [of p] by (simp add: pow2_def)
  have bq: "pow2 (bitlen q - 1) \<le> of_int q"
    using two_powi_le_bitlen [OF q] bitlen_nonneg [of q] bitlen_eq_zero_iff [of q] q by (simp add: pow2_def)
  have "pow2 (bitlen p) = pow2 (?k + 1) * pow2 (bitlen q - 1)" by (simp flip: pow2_add)
  also have "\<dots> \<le> pow2 (?k + 1) * of_int q" using bq by (intro mult_left_mono) (simp_all add: less_imp_le)
  finally have "r < pow2 (?k + 1)" using bp q by (simp add: eq pos_divide_less_eq)
  then show ?thesis by (simp add: rat_exponent_def pq Let_def)
qed

lemma rat_exponent_mono: "0 < r \<Longrightarrow> r \<le> w \<Longrightarrow> rat_exponent r \<le> rat_exponent w"
proof (rule ccontr)
  assume r: "0 < r" "r \<le> w" and "\<not> rat_exponent r \<le> rat_exponent w"
  then have "pow2 (rat_exponent w + 1) \<le> pow2 (rat_exponent r)" by (intro pow2_mono) simp
  with rat_exponent_less [of w] pow2_rat_exponent [OF r(1)] r show False by simp
qed

lemma rnd_le_float:
  assumes "r \<le> w" and "0 \<le> r" and "rnd w = w"
  shows "rnd r \<le> w"
proof (cases "r = 0")
  case False
  with assms have pos: "0 < r" "0 < w" by simp_all
  let ?e = "max (- 1074) (rat_exponent \<bar>r\<bar> - 52)" and ?d = "max (- 1074) (rat_exponent \<bar>w\<bar> - 52)"
  let ?k = "round_half_even (w / pow2 ?d)"
  have ed: "?e \<le> ?d" using rat_exponent_mono [OF pos(1) assms(1)] pos by simp
  have w: "w = of_int ?k * pow2 ?d" using assms(3) pos(2) by (simp add: rnd_def Let_def)
  have d: "pow2 ?d = pow2 (?d - ?e) * pow2 ?e" by (simp flip: pow2_add)
  have shift: "pow2 (?d - ?e) = of_int (2 ^ nat (?d - ?e))" using ed by (simp add: pow2_def)
  have m: "w = of_int (?k * 2 ^ nat (?d - ?e)) * pow2 ?e" by (subst w, subst d, subst shift) simp
  have "r / pow2 ?e \<le> w / pow2 ?e" using assms(1) by (intro divide_right_mono) (simp_all add: less_imp_le)
  also have "\<dots> = of_int (?k * 2 ^ nat (?d - ?e))"
    using less_imp_neq [OF pow2_pos [of ?e]] by (subst m) simp
  finally have "round_half_even (r / pow2 ?e) \<le> ?k * 2 ^ nat (?d - ?e)"
    using round_half_even_mono round_half_even_int by metis
  then have "of_int (round_half_even (r / pow2 ?e)) \<le> (of_int (?k * 2 ^ nat (?d - ?e)) :: rat)" by (simp only: of_int_le_iff)
  then have "of_int (round_half_even (r / pow2 ?e)) * pow2 ?e \<le> of_int (?k * 2 ^ nat (?d - ?e)) * pow2 ?e"
    by (rule mult_right_mono) (simp add: less_imp_le)
  then show ?thesis using False unfolding m [symmetric] by (simp add: rnd_def Let_def)
qed (use assms in simp)

lemma rnd_ge_int:
  assumes "of_int n \<le> r" and "0 \<le> n" and "n < 2 ^ 53"
  shows "of_int n \<le> rnd r"
proof (cases "r = 0")
  case False
  with assms have pos: "0 < r" by (simp add: order_le_less_trans le_less) (metis assms(1,2) of_int_0_le_iff order.trans less_le)
  let ?k = "rat_exponent \<bar>r\<bar>"
  let ?e = "max (- 1074) (?k - 52)"
  let ?m = "round_half_even (r / pow2 ?e)"
  have val: "rnd r = of_int ?m * pow2 ?e" using False by (simp add: rnd_def Let_def)
  show ?thesis
  proof (cases "?e \<le> 0")
    case True
    have int: "of_int n / pow2 ?e = of_int (n * 2 ^ nat (- ?e))" using True by (rule div_pow2_int)
    have "of_int n / pow2 ?e \<le> r / pow2 ?e" using assms(1) by (intro divide_right_mono) (simp_all add: less_imp_le)
    then have "n * 2 ^ nat (- ?e) \<le> ?m" unfolding int using round_half_even_mono round_half_even_int by metis
    then have "(of_int (n * 2 ^ nat (- ?e)) :: rat) \<le> of_int ?m" by (simp only: of_int_le_iff)
    then have "of_int n / pow2 ?e \<le> of_int ?m" by (simp only: int)
    then show ?thesis unfolding val by (simp add: pos_divide_le_eq)
  next
    case False
    then have e: "?e = ?k - 52" "0 < ?e" by simp_all
    have "pow2 ?k = pow2 52 * pow2 ?e" by (subst e(1)) (simp flip: pow2_add)
    moreover have "pow2 ?k \<le> r" using pow2_rat_exponent [OF pos] pos by simp
    ultimately have "of_int (2 ^ 52) \<le> r / pow2 ?e" by (simp add: pos_le_divide_eq pow2_def [of 52])
    then have "2 ^ 52 \<le> ?m" using round_half_even_mono round_half_even_int by metis
    then have m: "(of_int (2 ^ 52) :: rat) \<le> of_int ?m" by (simp only: of_int_le_iff)
    have "(2::rat) \<le> pow2 ?e" using pow2_mono [of 1 ?e] e(2) by (simp add: pow2_def)
    then have "of_int (2 ^ 52) * 2 \<le> of_int ?m * pow2 ?e" using m by (intro mult_mono) simp_all
    moreover have "(of_int n :: rat) < of_int (2 ^ 53)" using assms(3) by (simp only: of_int_less_iff)
    ultimately show ?thesis unfolding val by simp
  qed
qed (use assms in simp)

text \<open>How far rounding moves a value.\<close>

lemma round_half_even_error: "\<bar>of_int (round_half_even x) - x\<bar> \<le> 1 / 2"
proof -
  have "of_int \<lfloor>x\<rfloor> \<le> x" "x < of_int \<lfloor>x\<rfloor> + 1" by linarith+
  then show ?thesis unfolding round_half_even_def Let_def by (simp add: abs_if, linarith)
qed

lemma rnd_error:
  assumes "\<bar>r\<bar> \<le> pow2 k" and "- 1000 \<le> k"
  shows "\<bar>rnd r - r\<bar> \<le> pow2 (k - 53)"
proof (cases "r = 0")
  case False
  let ?k = "rat_exponent \<bar>r\<bar>"
  let ?e = "max (- 1074) (?k - 52)"
  let ?x = "r / pow2 ?e"
  have "pow2 ?k \<le> \<bar>r\<bar>" using pow2_rat_exponent [of "\<bar>r\<bar>"] False by simp
  then have "\<not> pow2 (k + 1) \<le> pow2 ?k" using assms(1) by (simp add: pow2_add pow2_def [of 1]) (use pow2_pos [of k] in linarith)
  then have "?k \<le> k" using pow2_mono [of "k + 1" ?k] by (cases "?k \<le> k") auto
  then have e: "?e - 1 \<le> k - 53" using assms(2) by simp
  have "rnd r - r = (of_int (round_half_even ?x) - ?x) * pow2 ?e"
    using False less_imp_neq [OF pow2_pos [of ?e]] by (simp add: rnd_def Let_def left_diff_distrib)
  then have "\<bar>rnd r - r\<bar> = \<bar>of_int (round_half_even ?x) - ?x\<bar> * pow2 ?e"
    by (simp add: abs_mult abs_of_pos)
  also have "\<dots> \<le> 1 / 2 * pow2 ?e" by (intro mult_right_mono round_half_even_error) (simp add: less_imp_le)
  also have "\<dots> = pow2 (?e - 1)" using pow2_add [of "?e - 1" 1] by (simp add: pow2_def [of 1])
  also have "\<dots> \<le> pow2 (k - 53)" by (rule pow2_mono [OF e])
  finally show ?thesis .
qed (simp add: less_imp_le)

end
