(* ===== verification/PdfBackend.thy ===== *)
theory PdfBackend
  imports Float64 PyStr
begin

section \<open>The PDF backend\<close>

text \<open>
  \<open>src/dsvire/pdf_backend.py\<close>: what the program makes of what PDFium and the strict reader report. A page is
  its rotation, its size, its text and its characters, each with its box when it has one; a page PDFium cannot
  load is \<open>None\<close>. An error is the message of a \<open>PdfBackendError\<close>.
\<close>

type_synonym box = "rat \<times> rat \<times> rat \<times> rat"

record raw_page =
  rp_rotation :: int
  rp_width :: rat
  rp_height :: rat
  rp_text :: string
  rp_chars :: "(string \<times> box option) list"

text \<open>
  What opening a payload gives: the text of PDFium's exception, or the pages with the revision of the security
  handler and whether the strict reader accepts the payload.
\<close>

datatype opened = Refused string | Opened "raw_page option list" int bool

definition newline_char :: char where
  "newline_char = char_of (10::nat)"

definition return_char :: char where
  "return_char = char_of (13::nat)"

subsection \<open>Documents\<close>

definition has_xref :: "bytes \<Rightarrow> bool" where
  "has_xref payload \<longleftrightarrow> contains ([newline_char] @ ''xref'' @ [newline_char]) payload \<or>
     contains ([newline_char] @ ''trailer'' @ [newline_char]) payload \<or> contains ''startxref'' payload"

definition rejection :: "bytes \<Rightarrow> string" where
  "rejection payload =
     (if has_xref payload then ''PDF required parser repair and was rejected'' else ''PDF parser rejected input'')"

definition max_document_pages :: int where
  "max_document_pages = 2000"

definition page_range_message :: "int \<Rightarrow> int \<Rightarrow> string" where
  "page_range_message n limit = ''PDF page count '' @ int_str n @ '' outside 1..='' @ int_str limit"

definition open_document :: "bytes \<Rightarrow> opened \<Rightarrow> string + raw_page option list" where
  "open_document payload result = (case result of
     Refused message \<Rightarrow>
       if contains ''password'' (casefold message) then Inl ''encrypted PDFs are not accepted'' else Inl (rejection payload)
   | Opened pages security_revision strict \<Rightarrow>
       if \<not> (1 \<le> int (length pages) \<and> int (length pages) \<le> max_document_pages)
       then Inl (page_range_message (int (length pages)) max_document_pages)
       else if 0 \<le> security_revision then Inr pages
       else if strict then Inr pages
       else Inl (rejection payload))"

definition load_page :: "raw_page option list \<Rightarrow> nat \<Rightarrow> string + raw_page" where
  "load_page pages i = (if i < length pages
     then (case pages ! i of Some p \<Rightarrow> Inr p | None \<Rightarrow> Inl (''PDF page '' @ nat_str (i + 1) @ '' could not be loaded''))
     else Inl (''PDF page '' @ nat_str (i + 1) @ '' could not be loaded''))"

subsection \<open>Text\<close>

text \<open>\<open>.replace("\r\n", "\n").replace("\r", "\n")\<close>.\<close>

fun crlf_to_lf :: "string \<Rightarrow> string" where
  "crlf_to_lf [] = []"
| "crlf_to_lf [c] = [c]"
| "crlf_to_lf (c # d # s) =
     (if c = return_char \<and> d = newline_char then newline_char # crlf_to_lf s else c # crlf_to_lf (d # s))"

definition unix_lines :: "string \<Rightarrow> string" where
  "unix_lines s = replace_char return_char newline_char (crlf_to_lf s)"

definition page_text :: "raw_page \<Rightarrow> string" where
  "page_text p = unix_lines (rp_text p)"

subsection \<open>Blocks\<close>

record text_block =
  tb_bbox :: box
  tb_text :: string

definition display_bbox :: "raw_page \<Rightarrow> box \<Rightarrow> box" where
  "display_bbox p b = (case b of (left, lower_edge, right, upper_edge) \<Rightarrow>
     (let rotation = rp_rotation p mod 360; w = rp_width p; h = rp_height p in
      if rotation = 0 then (left, fsub h upper_edge, right, fsub h lower_edge)
      else if rotation = 90 then (lower_edge, left, upper_edge, right)
      else if rotation = 180 then (fsub w right, lower_edge, fsub w left, upper_edge)
      else (fsub w upper_edge, fsub h right, fsub w lower_edge, fsub h left)))"

definition least_of :: "rat list \<Rightarrow> rat" where
  "least_of xs = foldl min (hd xs) (tl xs)"

definition greatest_of :: "rat list \<Rightarrow> rat" where
  "greatest_of xs = foldl max (hd xs) (tl xs)"

definition bounding :: "box list \<Rightarrow> box" where
  "bounding bs = (least_of (map fst bs), least_of (map (\<lambda>b. fst (snd b)) bs), greatest_of (map (\<lambda>b. fst (snd (snd b))) bs),
     greatest_of (map (\<lambda>b. snd (snd (snd b))) bs))"

text \<open>The closure \<open>flush\<close> over the characters, the boxes and the blocks so far, and one step of the loop.\<close>

definition flush :: "raw_page \<Rightarrow> string list \<times> box list \<times> text_block list \<Rightarrow> string list \<times> box list \<times> text_block list" where
  "flush p state = (case state of (chars, boxes, blocks) \<Rightarrow>
     (let text = strip (concat chars) in
      if text \<noteq> [] \<and> boxes \<noteq> []
      then ([], [], blocks @ [\<lparr>tb_bbox = display_bbox p (bounding boxes), tb_text = text\<rparr>])
      else ([], [], blocks)))"

definition block_step :: "raw_page \<Rightarrow> string list \<times> box list \<times> text_block list \<Rightarrow> string \<times> box option \<Rightarrow>
    string list \<times> box list \<times> text_block list" where
  "block_step p state item = (case item of (character, owned) \<Rightarrow>
     if character = [return_char] \<or> character = [newline_char] then flush p state
     else (case state of (chars, boxes, blocks) \<Rightarrow>
       (chars @ [character], (case owned of None \<Rightarrow> boxes | Some b \<Rightarrow> boxes @ [b]), blocks)))"

definition page_blocks :: "raw_page \<Rightarrow> text_block list" where
  "page_blocks p = snd (snd (flush p (foldl (block_step p) ([], [], []) (rp_chars p))))"

subsection \<open>Crops\<close>

definition validated_bbox :: "raw_page \<Rightarrow> box \<Rightarrow> string + box" where
  "validated_bbox p b = (case b of (x0, y0, x1, y1) \<Rightarrow>
     if x0 < 0 \<or> y0 < 0 \<or> rp_width p < x1 \<or> rp_height p < y1 then Inl ''PDF crop lies outside the page''
     else if x1 \<le> x0 \<or> y1 \<le> y0 then Inl ''PDF crop must have positive area''
     else Inr b)"

definition render_png :: "(raw_page \<Rightarrow> box \<Rightarrow> int \<Rightarrow> bytes) \<Rightarrow> raw_page \<Rightarrow> box \<Rightarrow> int \<Rightarrow> string + bytes" where
  "render_png png p b dpi =
     bindE (validated_bbox p b) (\<lambda>box.
     if \<not> (36 \<le> dpi \<and> dpi \<le> 600) then Inl ''render DPI must be an integer in 36..=600'' else Inr (png p box dpi))"

subsection \<open>Facts\<close>

lemma flush_empties: "fst (flush p state) = [] \<and> fst (snd (flush p state)) = []"
  by (simp add: flush_def Let_def split: prod.splits)

text \<open>Every block has a non-empty stripped text.\<close>

lemma page_blocks_text: "b \<in> set (page_blocks p) \<Longrightarrow> tb_text b \<noteq> [] \<and> strip (tb_text b) = tb_text b"
proof -
  let ?ok = "\<lambda>state. \<forall>b \<in> set (snd (snd state)). tb_text b \<noteq> [] \<and> strip (tb_text b) = tb_text b"
  have fl: "?ok (flush p state)" if "?ok state" for state
    using that by (auto simp: flush_def Let_def split: prod.splits if_splits)
  have "?ok (foldl (block_step p) state items)" if "?ok state" for state :: "string list \<times> box list \<times> text_block list" and items
    using that
  proof (induction items arbitrary: state)
    case (Cons item items)
    have "?ok (block_step p state item)"
      using Cons.prems fl [OF Cons.prems] by (auto simp: block_step_def split: prod.splits)
    from Cons.IH [OF this] show ?case by simp
  qed simp
  from fl [OF this [of "([], [], [])"]] show "b \<in> set (page_blocks p) \<Longrightarrow> tb_text b \<noteq> [] \<and> strip (tb_text b) = tb_text b"
    by (simp add: page_blocks_def)
qed

lemma unix_lines_no_return: "return_char \<notin> set (unix_lines s)"
  by (auto simp: unix_lines_def replace_char_def newline_char_def return_char_def)

lemma opened_document_pages:
  assumes "open_document payload result = Inr pages"
  shows "1 \<le> length pages \<and> length pages \<le> 2000"
proof -
  have "1 \<le> int (length pages) \<and> int (length pages) \<le> 2000"
    using assms by (auto simp: open_document_def max_document_pages_def split: opened.splits if_splits)
  then show ?thesis by linarith
qed

end
