(* ===== verification/Regex.thy ===== *)
theory Regex
  imports PyStr
begin

section \<open>Regular expressions\<close>

text \<open>
  The part of the language's \<open>re\<close> module the program uses: classes, bounded and unbounded runs of a class,
  sequence, ordered alternatives, greedy options, word boundaries and one-character look-around. A matcher
  returns every end of a match from a position in the order the backtracking engine tries them, so the match
  it reports is the first. \<open>rx_match\<close> says what a match is without that order.
\<close>

datatype rx =
    Here
  | One "char \<Rightarrow> bool"
  | Run "char \<Rightarrow> bool" nat "nat option"
  | Both rx rx
  | Either rx rx
  | Perhaps rx
  | Boundary
  | NotAfter "char \<Rightarrow> bool"
  | NotBefore "char \<Rightarrow> bool"

definition char_at :: "(char \<Rightarrow> bool) \<Rightarrow> string \<Rightarrow> nat \<Rightarrow> bool" where
  "char_at p s i \<longleftrightarrow> i < length s \<and> p (s ! i)"

definition char_before :: "(char \<Rightarrow> bool) \<Rightarrow> string \<Rightarrow> nat \<Rightarrow> bool" where
  "char_before p s i \<longleftrightarrow> 0 < i \<and> i \<le> length s \<and> p (s ! (i - 1))"

text \<open>\<open>\w\<close> and \<open>\b\<close> on the characters of the model: letters and digits of the first 256 code points, and \<open>_\<close>.\<close>

definition py_alpha :: "char \<Rightarrow> bool" where
  "py_alpha c \<longleftrightarrow> ascii_upper c \<or> ascii_lower c \<or>
     (let n = code_point c in n = 170 \<or> n = 181 \<or> n = 186 \<or> 192 \<le> n \<and> n \<noteq> 215 \<and> n \<noteq> 247)"

definition py_digit :: "char \<Rightarrow> bool" where
  "py_digit c \<longleftrightarrow> ascii_digit c \<or> (let n = code_point c in n = 178 \<or> n = 179 \<or> n = 185)"

definition py_alnum :: "char \<Rightarrow> bool" where
  "py_alnum c \<longleftrightarrow> py_alpha c \<or> py_digit c \<or> (let n = code_point c in 188 \<le> n \<and> n \<le> 190)"

definition word_char :: "char \<Rightarrow> bool" where
  "word_char c \<longleftrightarrow> py_alnum c \<or> c = CHR ''_''"

definition at_boundary :: "string \<Rightarrow> nat \<Rightarrow> bool" where
  "at_boundary s i \<longleftrightarrow> char_before word_char s i \<noteq> char_at word_char s i"

definition run_length :: "(char \<Rightarrow> bool) \<Rightarrow> string \<Rightarrow> nat \<Rightarrow> nat" where
  "run_length p s i = length (takeWhile p (drop i s))"

definition capped :: "nat option \<Rightarrow> nat \<Rightarrow> nat" where
  "capped limit n = (case limit of None \<Rightarrow> n | Some m \<Rightarrow> min m n)"

primrec rx_ends :: "rx \<Rightarrow> string \<Rightarrow> nat \<Rightarrow> nat list" where
  "rx_ends Here s i = [i]"
| "rx_ends (One p) s i = (if char_at p s i then [i + 1] else [])"
| "rx_ends (Run p lo hi) s i = rev [i + lo..<i + capped hi (run_length p s i) + 1]"
| "rx_ends (Both a b) s i = concat (map (rx_ends b s) (rx_ends a s i))"
| "rx_ends (Either a b) s i = rx_ends a s i @ rx_ends b s i"
| "rx_ends (Perhaps a) s i = rx_ends a s i @ [i]"
| "rx_ends Boundary s i = (if at_boundary s i then [i] else [])"
| "rx_ends (NotAfter p) s i = (if char_before p s i then [] else [i])"
| "rx_ends (NotBefore p) s i = (if char_at p s i then [] else [i])"

primrec rx_match :: "rx \<Rightarrow> string \<Rightarrow> nat \<Rightarrow> nat \<Rightarrow> bool" where
  "rx_match Here s i j = (j = i)"
| "rx_match (One p) s i j = (j = i + 1 \<and> char_at p s i)"
| "rx_match (Run p lo hi) s i j =
     (i + lo \<le> j \<and> (\<forall>m. hi = Some m \<longrightarrow> j \<le> i + m) \<and> (\<forall>k. i \<le> k \<and> k < j \<longrightarrow> char_at p s k))"
| "rx_match (Both a b) s i j = (\<exists>k. rx_match a s i k \<and> rx_match b s k j)"
| "rx_match (Either a b) s i j = (rx_match a s i j \<or> rx_match b s i j)"
| "rx_match (Perhaps a) s i j = (rx_match a s i j \<or> j = i)"
| "rx_match Boundary s i j = (j = i \<and> at_boundary s i)"
| "rx_match (NotAfter p) s i j = (j = i \<and> \<not> char_before p s i)"
| "rx_match (NotBefore p) s i j = (j = i \<and> \<not> char_at p s i)"

text \<open>\<open>search\<close> and \<open>fullmatch\<close>: the position and end of the match, and whether all of the text can match.\<close>

definition slice :: "'a list \<Rightarrow> nat \<Rightarrow> nat \<Rightarrow> 'a list" where
  "slice s i j = drop i (take j s)"

fun rx_search_from :: "rx \<Rightarrow> string \<Rightarrow> nat list \<Rightarrow> (nat \<times> nat) option" where
  "rx_search_from r s [] = None"
| "rx_search_from r s (i # is) = (case rx_ends r s i of [] \<Rightarrow> rx_search_from r s is | j # _ \<Rightarrow> Some (i, j))"

definition rx_search :: "rx \<Rightarrow> string \<Rightarrow> (nat \<times> nat) option" where
  "rx_search r s = rx_search_from r s [0..<length s + 1]"

definition rx_fullmatch :: "rx \<Rightarrow> string \<Rightarrow> bool" where
  "rx_fullmatch r s \<longleftrightarrow> length s \<in> set (rx_ends r s 0)"

text \<open>
  \<open>findall\<close> of an expression that never matches the empty text: the next search starts where the match ended.
  An empty match would be skipped.
\<close>

function rx_findall_from :: "rx \<Rightarrow> string \<Rightarrow> nat \<Rightarrow> string list" where
  "rx_findall_from r s i =
     (if length s \<le> i then []
      else case rx_ends r s i of
        [] \<Rightarrow> rx_findall_from r s (i + 1)
      | j # _ \<Rightarrow> if i < j then slice s i j # rx_findall_from r s j else rx_findall_from r s (i + 1))"
  by pat_completeness auto
termination
  by (relation "measure (\<lambda>(r, s, i). length s - i)") auto

declare rx_findall_from.simps [simp del]

definition rx_findall :: "rx \<Rightarrow> string \<Rightarrow> string list" where
  "rx_findall r s = rx_findall_from r s 0"

subsection \<open>Building expressions\<close>

definition any_of :: "string \<Rightarrow> char \<Rightarrow> bool" where
  "any_of cs c \<longleftrightarrow> c \<in> set cs"

text \<open>A literal, and a literal under \<open>(?i)\<close>.\<close>

definition lit :: "string \<Rightarrow> rx" where
  "lit w = foldr (\<lambda>c r. Both (One (\<lambda>x. x = c)) r) w Here"

definition same_letter :: "char \<Rightarrow> char \<Rightarrow> bool" where
  "same_letter c x \<longleftrightarrow> lower_char x = lower_char c"

definition ilit :: "string \<Rightarrow> rx" where
  "ilit w = foldr (\<lambda>c r. Both (One (same_letter c)) r) w Here"

definition sequence :: "rx list \<Rightarrow> rx" where
  "sequence rs = foldr Both rs Here"

fun choice :: "rx list \<Rightarrow> rx" where
  "choice [] = One (\<lambda>_. False)"
| "choice [r] = r"
| "choice (r # rs) = Either r (choice rs)"

subsection \<open>Facts\<close>

lemma run_length_prefix:
  "k < run_length p s i \<Longrightarrow> char_at p s (i + k)"
proof -
  assume k: "k < run_length p s i"
  then have len: "k < length (drop i s)"
    using length_takeWhile_le [of p "drop i s"] unfolding run_length_def by linarith
  have "takeWhile p (drop i s) ! k = drop i s ! k" using k unfolding run_length_def by (rule takeWhile_nth)
  moreover have "p (takeWhile p (drop i s) ! k)"
    using nth_mem [OF k [unfolded run_length_def]] by (blast dest: set_takeWhileD)
  ultimately show ?thesis using len by (simp add: char_at_def)
qed

lemma run_length_end: "\<not> char_at p s (i + run_length p s i)"
proof
  assume a: "char_at p s (i + run_length p s i)"
  let ?n = "run_length p s i"
  from a have len: "?n < length (drop i s)" by (simp add: char_at_def less_diff_conv add.commute)
  then have "\<not> p (drop i s ! ?n)" unfolding run_length_def by (rule nth_length_takeWhile)
  with a len show False by (simp add: char_at_def)
qed

lemma run_iff: "(\<forall>k. i \<le> k \<and> k < j \<longrightarrow> char_at p s k) \<longleftrightarrow> j \<le> i + run_length p s i"
proof
  assume "\<forall>k. i \<le> k \<and> k < j \<longrightarrow> char_at p s k"
  then show "j \<le> i + run_length p s i" using run_length_end [of p s i] by (metis le_add1 not_le)
next
  assume j: "j \<le> i + run_length p s i"
  show "\<forall>k. i \<le> k \<and> k < j \<longrightarrow> char_at p s k"
  proof (intro allI impI)
    fix k assume "i \<le> k \<and> k < j"
    then have "char_at p s (i + (k - i))" using j by (intro run_length_prefix) linarith
    then show "char_at p s k" using \<open>i \<le> k \<and> k < j\<close> by simp
  qed
qed

lemma rx_ends_match: "j \<in> set (rx_ends r s i) \<longleftrightarrow> rx_match r s i j"
proof (induction r arbitrary: i j)
  case (Run p lo hi)
  have "i + lo \<le> j \<and> j < i + capped hi (run_length p s i) + 1 \<longleftrightarrow>
      i + lo \<le> j \<and> (\<forall>m. hi = Some m \<longrightarrow> j \<le> i + m) \<and> j \<le> i + run_length p s i"
    by (cases hi) (auto simp: capped_def)
  then show ?case unfolding rx_match.simps run_iff rx_ends.simps set_rev set_upt atLeastLessThan_iff .
qed auto

lemma rx_match_bounds: "rx_match r s i j \<Longrightarrow> i \<le> j \<and> (i \<le> length s \<longrightarrow> j \<le> length s)"
proof (induction r arbitrary: i j)
  case (Run p lo hi)
  then have j: "j \<le> i + run_length p s i" by (simp add: run_iff)
  have "run_length p s i \<le> length s - i" using length_takeWhile_le [of p "drop i s"] by (simp add: run_length_def)
  with Run j show ?case by auto
next
  case (Both a b)
  then show ?case by (auto dest!: Both.IH)
qed (auto simp: char_at_def)

text \<open>A search finds the leftmost match.\<close>

lemma rx_search_from_Some:
  "rx_search_from r s is = Some (i, j) \<Longrightarrow> i \<in> set is \<and> rx_match r s i j"
proof (induction "is")
  case (Cons a "is")
  show ?case
  proof (cases "rx_ends r s a")
    case (Cons e es)
    then have "rx_match r s a e" by (simp flip: rx_ends_match)
    then show ?thesis using Cons \<open>rx_search_from r s (a # is) = Some (i, j)\<close> by auto
  qed (use Cons in auto)
qed simp

lemma rx_search_from_None:
  "rx_search_from r s is = None \<longleftrightarrow> (\<forall>i \<in> set is. \<forall>j. \<not> rx_match r s i j)"
proof (induction "is")
  case (Cons a "is")
  have "rx_ends r s a = [] \<longleftrightarrow> (\<forall>j. \<not> rx_match r s a j)" using rx_ends_match [of _ r s a] by (metis list.set_intros(1) neq_Nil_conv empty_iff empty_set)
  with Cons show ?case by (auto split: list.splits)
qed simp

lemma rx_search_Some:
  "rx_search r s = Some (i, j) \<Longrightarrow> rx_match r s i j \<and> i \<le> j \<and> j \<le> length s"
  unfolding rx_search_def using rx_search_from_Some rx_match_bounds by fastforce

lemma rx_search_None: "rx_search r s = None \<longleftrightarrow> (\<forall>i j. i \<le> length s \<longrightarrow> \<not> rx_match r s i j)"
  unfolding rx_search_def rx_search_from_None by auto

lemma rx_fullmatch_iff: "rx_fullmatch r s \<longleftrightarrow> rx_match r s 0 (length s)"
  by (simp add: rx_fullmatch_def rx_ends_match)

subsection \<open>Expressions with groups\<close>

text \<open>
  A sequence of expressions, matched in the order the backtracking engine tries them: the end of each part in the
  first complete match.
\<close>

fun first_some :: "('a \<Rightarrow> 'b option) \<Rightarrow> 'a list \<Rightarrow> 'b option" where
  "first_some f [] = None"
| "first_some f (x # xs) = (case f x of None \<Rightarrow> first_some f xs | Some y \<Rightarrow> Some y)"

primrec rx_parts :: "rx list \<Rightarrow> string \<Rightarrow> nat \<Rightarrow> nat list option" where
  "rx_parts [] s i = Some []"
| "rx_parts (r # rs) s i = first_some (\<lambda>j. map_option (Cons j) (rx_parts rs s j)) (rx_ends r s i)"

lemma first_some_None: "first_some f xs = None \<longleftrightarrow> (\<forall>x \<in> set xs. f x = None)"
  by (induction xs) (auto split: option.splits)

lemma first_some_Some: "first_some f xs = Some y \<Longrightarrow> \<exists>x \<in> set xs. f x = Some y"
  by (induction xs) (auto split: option.splits)

text \<open>The ends delimit a match of every part; there are none exactly when the whole sequence does not match.\<close>

lemma rx_parts_match:
  "rx_parts rs s i = Some js \<Longrightarrow> length js = length rs \<and> (\<forall>k < length rs. rx_match (rs ! k) s ((i # js) ! k) (js ! k))"
proof (induction rs arbitrary: i js)
  case (Cons r rs)
  then obtain j js' where j: "j \<in> set (rx_ends r s i)" "rx_parts rs s j = Some js'" "js = j # js'"
    by (auto dest!: first_some_Some)
  have "rx_match r s i j" using j(1) by (simp add: rx_ends_match)
  with Cons.IH [OF j(2)] show ?case by (auto simp: j(3) nth_Cons split: nat.splits)
qed simp

lemma rx_parts_None: "rx_parts rs s i = None \<longleftrightarrow> (\<forall>j. \<not> rx_match (sequence rs) s i j)"
proof (induction rs arbitrary: i)
  case (Cons r rs)
  have "rx_match (sequence (r # rs)) s i j \<longleftrightarrow> (\<exists>k. rx_match r s i k \<and> rx_match (sequence rs) s k j)" for j
    by (simp add: sequence_def)
  then show ?case using Cons by (auto simp: first_some_None rx_ends_match)
qed (simp add: sequence_def)

end
