(* ===== verification/PartText.thy ===== *)
theory PartText
  imports Regex "HOL-Library.Sublist"
begin

section \<open>Matching part identities in text\<close>

text \<open>
  The text functions of \<open>src/dsvire/pipeline.py\<close>: normalisation, phrases, ordered tokens, token-bounded part
  numbers, the pin and package expressions. The Unicode tables are a parameter: compatibility normalisation
  (\<open>unicodedata.normalize("NFKC", _)\<close>) and \<open>str.upper\<close>; the dashes that \<open>_normalise_mpn\<close> replaces lie outside the
  characters of the model.
\<close>

record unicode =
  uni_nfkc :: "string \<Rightarrow> string"
  uni_upper :: "string \<Rightarrow> string"

subsection \<open>Splitting\<close>

fun pieces :: "(char \<Rightarrow> bool) \<Rightarrow> string \<Rightarrow> string list" where
  "pieces p [] = [[]]"
| "pieces p (c # s) = (if p c then [] # pieces p s else (case pieces p s of [] \<Rightarrow> [[c]] | w # ws \<Rightarrow> (c # w) # ws))"

text \<open>\<open>s.split()\<close>.\<close>

definition words :: "string \<Rightarrow> string list" where
  "words s = filter (\<lambda>w. w \<noteq> []) (pieces py_space s)"

text \<open>
  \<open>[line.strip() for line in s.splitlines() if line.strip()]\<close>; a carriage return with its line feed only adds a
  blank line here, which is dropped.
\<close>

definition line_break :: "char \<Rightarrow> bool" where
  "line_break c = (let n = code_point c in 10 \<le> n \<and> n \<le> 13 \<or> 28 \<le> n \<and> n \<le> 30 \<or> n = 133)"

definition text_lines :: "string \<Rightarrow> string list" where
  "text_lines s = filter (\<lambda>l. l \<noteq> []) (map strip (pieces line_break s))"

text \<open>\<open>s.strip(characters)\<close>.\<close>

definition strip_chars :: "string \<Rightarrow> string \<Rightarrow> string" where
  "strip_chars cs s = rev (dropWhile (any_of cs) (rev (dropWhile (any_of cs) s)))"

subsection \<open>Phrases and tokens\<close>

definition normalise_text :: "string \<Rightarrow> string" where
  "normalise_text s = join '' '' (words (replace_char (char_of (0::nat)) CHR '' '' s))"

definition normalise_phrase :: "unicode \<Rightarrow> string \<Rightarrow> string" where
  "normalise_phrase u s = join '' '' (words (map (\<lambda>c. if py_alnum c then c else CHR '' '') (casefold (uni_nfkc u s))))"

definition contains_phrase :: "unicode \<Rightarrow> string \<Rightarrow> string \<Rightarrow> bool" where
  "contains_phrase u text phrase =
     (let haystack = normalise_phrase u text; needle = normalise_phrase u phrase
      in needle \<noteq> [] \<and> contains ('' '' @ needle @ '' '') ('' '' @ haystack @ '' ''))"

text \<open>The inner loop: how many tokens of the needle are matched after the candidates.\<close>

fun match_tokens :: "string list \<Rightarrow> nat \<Rightarrow> string list \<Rightarrow> nat" where
  "match_tokens needle matched [] = matched"
| "match_tokens needle matched (c # cs) =
     match_tokens needle (if matched < length needle \<and> c = needle ! matched then matched + 1 else matched) cs"

definition ordered_from :: "string list \<Rightarrow> string list \<Rightarrow> nat \<Rightarrow> nat \<Rightarrow> bool" where
  "ordered_from haystack needle extra start \<longleftrightarrow> haystack ! start = hd needle \<and>
     match_tokens needle 1 (slice haystack (start + 1) (min (length haystack) (start + length needle + extra))) = length needle"

definition ordered_tokens :: "string list \<Rightarrow> string list \<Rightarrow> nat \<Rightarrow> bool" where
  "ordered_tokens haystack needle extra \<longleftrightarrow> needle \<noteq> [] \<and> list_ex (ordered_from haystack needle extra) [0..<length haystack]"

definition contains_ordered_tokens :: "unicode \<Rightarrow> string \<Rightarrow> string \<Rightarrow> nat \<Rightarrow> bool" where
  "contains_ordered_tokens u text phrase extra =
     ordered_tokens (words (normalise_phrase u text)) (words (normalise_phrase u phrase)) extra"

subsection \<open>Part numbers\<close>

definition normalise_mpn :: "unicode \<Rightarrow> string \<Rightarrow> string" where
  "normalise_mpn u s = strip (uni_upper u (uni_nfkc u s))"

text \<open>\<open>haystack.find(needle, start)\<close> of a non-empty needle.\<close>

definition find_from :: "string \<Rightarrow> string \<Rightarrow> nat \<Rightarrow> nat option" where
  "find_from haystack needle start = List.find (\<lambda>i. starts_with needle (drop i haystack)) [start..<length haystack]"

definition token_bounded :: "string \<Rightarrow> nat \<Rightarrow> nat \<Rightarrow> bool" where
  "token_bounded s i j \<longleftrightarrow> \<not> char_before py_alnum s i \<and> \<not> char_at py_alnum s j"

function mpn_from :: "string \<Rightarrow> string \<Rightarrow> nat \<Rightarrow> bool" where
  "mpn_from haystack needle start =
     (case find_from haystack needle start of
        None \<Rightarrow> False
      | Some i \<Rightarrow> if token_bounded haystack i (i + length needle) then True else mpn_from haystack needle (i + 1))"
  by pat_completeness auto
termination
  by (relation "measure (\<lambda>(haystack, needle, start). length haystack - start)")
    (auto simp: find_from_def dest!: find_SomeD)

declare mpn_from.simps [simp del]

definition contains_exact_mpn :: "unicode \<Rightarrow> string \<Rightarrow> string \<Rightarrow> bool" where
  "contains_exact_mpn u text mpn =
     (let haystack = normalise_mpn u text; needle = normalise_mpn u mpn
      in needle \<noteq> [] \<and> mpn_from haystack needle 0)"

definition starts_new_part_row :: "unicode \<Rightarrow> string \<Rightarrow> string \<Rightarrow> bool" where
  "starts_new_part_row u line package =
     (case words (strip line) of
        [] \<Rightarrow> False
      | w # _ \<Rightarrow>
          (let first = strip_chars ''()[]{}|,;:'' (uni_nfkc u w);
               first_norm = normalise_phrase u first;
               package_norm = normalise_phrase u package
           in list_ex py_alpha first \<and> list_ex py_digit first \<and> first_norm \<noteq> [] \<and> \<not> starts_with first_norm package_norm))"

subsection \<open>Pins and packages\<close>

definition PINOUT_TERMS :: "string list" where
  "PINOUT_TERMS = [''pinout'', ''pin out'', ''pin configuration'', ''terminal configuration'', ''top view'', ''bottom view'',
     ''ball map'', ''pin assignment'']"

definition PIN_TABLE_TERMS :: "string list" where
  "PIN_TABLE_TERMS = [''pin functions'', ''pin function'', ''pin description'', ''terminal functions'', ''terminal function'',
     ''pin name'', ''signal name'']"

definition TABLE_HEADER_TERMS :: "string list" where
  "TABLE_HEADER_TERMS = [''description'', ''function'', ''type'', ''name'', ''pin'']"

definition term_hits :: "string \<Rightarrow> string list \<Rightarrow> nat" where
  "term_hits text terms = (let lower = casefold text in length (filter (\<lambda>t. contains t lower) terms))"

definition pin_neighbour :: "char \<Rightarrow> bool" where
  "pin_neighbour c \<longleftrightarrow> ascii_upper c \<or> ascii_digit c \<or> c = CHR ''_''"

definition PIN_TOKEN :: rx where
  "PIN_TOKEN = sequence [NotAfter pin_neighbour,
     choice ([sequence [Run ascii_upper 1 (Some 6), Run ascii_digit 1 (Some 3)], Run ascii_digit 1 (Some 3),
       sequence [lit ''V'', choice (map lit [''DD'', ''SS'', ''IN'', ''OUT''])]] @
       map lit [''GND'', ''AGND'', ''DGND'', ''EN'', ''NC'', ''COMP'', ''BOOT'', ''PH'', ''FB'', ''SCL'', ''SDA'', ''TX'', ''RX'',
         ''RESET'', ''NRST'']),
     NotBefore pin_neighbour]"

definition pin_token_count :: "unicode \<Rightarrow> string \<Rightarrow> nat" where
  "pin_token_count u text = length (remdups (rx_findall PIN_TOKEN (uni_upper u text)))"

definition ascii_letter :: "char \<Rightarrow> bool" where
  "ascii_letter c \<longleftrightarrow> ascii_upper c \<or> ascii_lower c"

text \<open>A name, an optional dash and digits: the shape of most alternatives.\<close>

definition numbered :: "string \<Rightarrow> rx" where
  "numbered name = sequence [ilit name, Perhaps (lit ''-''), Run ascii_digit 1 None]"

definition PACKAGE_TOKEN :: rx where
  "PACKAGE_TOKEN = sequence [Boundary,
     choice ([sequence [ilit ''s'', One (\<lambda>c. same_letter CHR ''o'' c \<or> same_letter CHR ''u'' c), Perhaps (ilit ''ic''),
         Perhaps (lit ''-''), ilit ''powerpad'', Perhaps (lit ''-''), Run ascii_digit 1 None]] @
       map numbered [''soic'', ''tssop'', ''ssop'', ''msop'', ''qfn'', ''lqfp'', ''tqfp'', ''dfn'', ''vson'', ''wson'', ''bga'',
         ''sot'', ''dip''] @
       [sequence [ilit ''to-'', Run ascii_digit 1 None], sequence [ilit ''so-powerpad-'', Run ascii_digit 1 None],
        sequence [Run ascii_letter 2 (Some 12), lit ''-'', Run ascii_digit 1 (Some 4),
          Perhaps (sequence [lit ''-'', Run ascii_alnum 1 None])]]),
     Boundary]"

definition looks_like_mpn :: "unicode \<Rightarrow> string \<Rightarrow> bool" where
  "looks_like_mpn u token =
     (let compact = strip_chars ''()[]{},;:'' (uni_nfkc u token)
      in 2 \<le> length compact \<and> length compact \<le> 40 \<and> \<not> rx_fullmatch PACKAGE_TOKEN compact \<and>
         list_ex py_alpha compact \<and> list_ex py_digit compact)"

subsection \<open>Facts\<close>

text \<open>The inner loop is greedy; it finishes exactly when the rest of the needle is a subsequence of the window.\<close>

lemma match_tokens_subseq:
  assumes "matched \<le> length needle"
  shows "match_tokens needle matched cs = length needle \<longleftrightarrow> subseq (drop matched needle) cs"
  using assms
proof (induction cs arbitrary: matched)
  case Nil
  have "subseq (drop matched needle) [] \<longleftrightarrow> drop matched needle = []" by (auto dest: list_emb_Nil2)
  with Nil show ?case by auto
next
  case (Cons c cs)
  show ?case
  proof (cases "matched < length needle")
    case True
    then have d: "drop matched needle = needle ! matched # drop (Suc matched) needle" by (simp add: Cons_nth_drop_Suc)
    show ?thesis
    proof (cases "c = needle ! matched")
      case eq: True
      with True Cons.IH [of "Suc matched"] show ?thesis unfolding d by (simp add: subseq_Cons2_iff)
    next
      case False
      with True Cons.IH [of matched] show ?thesis unfolding d by (simp add: subseq_Cons2_iff)
    qed
  next
    case False
    with Cons show ?thesis by (simp add: Cons.IH)
  qed
qed

lemma slice_window: "slice xs i (min (length xs) j) = take (j - i) (drop i xs)"
proof -
  have "take (min (length xs) j) xs = take j xs" by (simp add: min_def)
  then show ?thesis by (simp add: slice_def drop_take)
qed

text \<open>The rest of the needle is found in order within the window after its first token.\<close>

lemma ordered_tokens_iff:
  "ordered_tokens haystack needle extra \<longleftrightarrow> needle \<noteq> [] \<and>
     (\<exists>start < length haystack. haystack ! start = hd needle \<and>
        subseq (tl needle) (take (length needle + extra - 1) (drop (start + 1) haystack)))"
proof (cases needle)
  case (Cons t ts)
  have "ordered_from haystack needle extra start \<longleftrightarrow> haystack ! start = hd needle \<and>
      subseq (tl needle) (take (length needle + extra - 1) (drop (start + 1) haystack))" for start
    unfolding ordered_from_def slice_window by (subst match_tokens_subseq) (simp_all add: Cons)
  then show ?thesis by (auto simp: ordered_tokens_def list_ex_iff Cons)
qed (simp add: ordered_tokens_def)

lemma starts_with_drop:
  assumes "needle \<noteq> []" and "starts_with needle (drop i s)"
  shows "i + length needle \<le> length s"
proof -
  have "min (length s - i) (length needle) = length needle"
    using assms(2) unfolding starts_with_def by (metis length_drop length_take min.commute)
  then have "length needle \<le> length s - i" by (metis min.cobounded1)
  moreover have "0 < length needle" using assms(1) by simp
  ultimately show ?thesis by linarith
qed

lemma find_upt_Some:
  "List.find P [a..<b] = Some i \<longleftrightarrow> a \<le> i \<and> i < b \<and> P i \<and> (\<forall>k. a \<le> k \<and> k < i \<longrightarrow> \<not> P k)"
proof
  assume "List.find P [a..<b] = Some i"
  then obtain n where n: "n < length [a..<b]" "P ([a..<b] ! n)" "i = [a..<b] ! n" "\<forall>m < n. \<not> P ([a..<b] ! m)"
    by (auto simp: find_Some_iff)
  have "\<not> P k" if k: "a \<le> k" "k < i" for k
  proof -
    have "k - a < n" using n(1,3) k by simp
    with n(4) have "\<not> P ([a..<b] ! (k - a))" by blast
    then show ?thesis using k n(1,3) by simp
  qed
  with n show "a \<le> i \<and> i < b \<and> P i \<and> (\<forall>k. a \<le> k \<and> k < i \<longrightarrow> \<not> P k)" by auto
next
  assume r: "a \<le> i \<and> i < b \<and> P i \<and> (\<forall>k. a \<le> k \<and> k < i \<longrightarrow> \<not> P k)"
  show "List.find P [a..<b] = Some i"
    unfolding find_Some_iff by (rule exI [of _ "i - a"]) (use r in auto)
qed

lemma mpn_from_iff:
  assumes "needle \<noteq> []"
  shows "mpn_from haystack needle start \<longleftrightarrow>
    (\<exists>i \<ge> start. starts_with needle (drop i haystack) \<and> token_bounded haystack i (i + length needle))"
  using assms
proof (induction haystack needle start rule: mpn_from.induct)
  case (1 haystack needle start)
  let ?at = "\<lambda>i. starts_with needle (drop i haystack)"
  have inside: "i < length haystack" if "?at i" for i
    using starts_with_drop [OF 1(2) that] 1(2) by (cases needle) simp_all
  show ?case
  proof (cases "find_from haystack needle start")
    case None
    then have "\<not> ?at i" if "start \<le> i" for i
      using that inside by (auto simp: find_from_def find_None_iff)
    then show ?thesis using None by (subst mpn_from.simps) auto
  next
    case (Some i)
    then have i: "start \<le> i" "?at i" and least: "\<forall>k. start \<le> k \<and> k < i \<longrightarrow> \<not> ?at k"
      by (auto simp: find_from_def find_upt_Some)
    show ?thesis
    proof (cases "token_bounded haystack i (i + length needle)")
      case True
      then show ?thesis using Some i by (subst mpn_from.simps) auto
    next
      case False
      have later: "Suc i \<le> k" if "start \<le> k" "?at k" "token_bounded haystack k (k + length needle)" for k
        using that least False by (metis Suc_leI linorder_neqE_nat)
      have "mpn_from haystack needle start \<longleftrightarrow> mpn_from haystack needle (i + 1)"
        using Some False by (subst mpn_from.simps) simp
      also have "\<dots> \<longleftrightarrow> (\<exists>k \<ge> i + 1. ?at k \<and> token_bounded haystack k (k + length needle))"
        using 1(1) [OF Some False 1(2)] .
      also have "\<dots> \<longleftrightarrow> (\<exists>k \<ge> start. ?at k \<and> token_bounded haystack k (k + length needle))"
        using later i(1) by (metis Suc_eq_plus1 Suc_leD le_trans)
      finally show ?thesis .
    qed
  qed
qed

end
