(* ===== verification/Contracts.thy ===== *)
theory Contracts
  imports Float64
begin

section \<open>Checks shared by the evaluation artifacts\<close>

text \<open>
  The loaders of \<open>src/dsvire/\<close> that validate evaluation artifacts repeat three checks, each with its own
  exception class: non-empty text, exactly the required keys, a finite number. They are stated once
  here, over the constructor \<open>mk\<close> of the exception; a loader instantiates them under its own names.
\<close>

definition nonempty_text :: "(string \<Rightarrow> 'e) \<Rightarrow> string \<Rightarrow> json \<Rightarrow> 'e + string" where
  "nonempty_text mk context v = (case v of
     JStr s \<Rightarrow> if strip s = [] then Inl (mk (context @ '' must be non-empty text'')) else Inr (strip s)
   | _ \<Rightarrow> Inl (mk (context @ '' must be non-empty text'')))"

definition strict_keys :: "(string \<Rightarrow> 'e) \<Rightarrow> string \<Rightarrow> string list \<Rightarrow> (string \<times> json) list \<Rightarrow> 'e + unit" where
  "strict_keys mk context required d =
     ensure (fields_are required d) (mk (keys_message context required d))"

text \<open>\<open>isinstance\<close> of a number that is not a boolean, then \<open>math.isfinite\<close>, which overflows on a huge integer.\<close>

datatype number_check = NotFinite | Overflows | Finite rat

definition check_number :: "json \<Rightarrow> number_check" where
  "check_number v = (case v of
     JInt i \<Rightarrow> (case to_float i of None \<Rightarrow> Overflows | Some r \<Rightarrow> Finite r)
   | JFloat (Flt r) \<Rightarrow> Finite r
   | _ \<Rightarrow> NotFinite)"

text \<open>The digest of a decoded value: SHA-256 of its canonical form.\<close>

definition canonical_sha :: "(bytes \<Rightarrow> string) \<Rightarrow> (pyfloat \<Rightarrow> string) \<Rightarrow> json \<Rightarrow> string" where
  "canonical_sha sha frepr v = sha (utf8_encode (dumps True frepr v))"

text \<open>\<open>mapping.setdefault(key, value)\<close>: the value now stored, and the mapping.\<close>

definition setdefault :: "('k \<times> 'v) list \<Rightarrow> 'k \<Rightarrow> 'v \<Rightarrow> 'v \<times> ('k \<times> 'v) list" where
  "setdefault m k v = (case map_of m k of Some old \<Rightarrow> (old, m) | None \<Rightarrow> (v, m @ [(k, v)]))"

text \<open>A dictionary built from items in order: a repeated key keeps its place and takes the last value.\<close>

definition dict_of :: "('k \<times> 'v) list \<Rightarrow> ('k \<times> 'v) list" where
  "dict_of items = foldl (\<lambda>d (k, v). AList.update k v d) [] items"

text \<open>\<open>max(items, key=...)\<close>: the first item with the largest key.\<close>

definition max_by :: "('a \<Rightarrow> 'k::linorder) \<Rightarrow> 'a list \<Rightarrow> 'a" where
  "max_by key xs = foldl (\<lambda>a b. if key a < key b then b else a) (hd xs) (tl xs)"

lemma max_by_in: "xs \<noteq> [] \<Longrightarrow> max_by key xs \<in> set xs \<and> (\<forall>x \<in> set xs. key x \<le> key (max_by key xs))"
proof -
  have "foldl (\<lambda>a b. if key a < key b then b else a) a ys \<in> insert a (set ys) \<and>
      (\<forall>x \<in> insert a (set ys). key x \<le> key (foldl (\<lambda>a b. if key a < key b then b else a) a ys))" for a ys
  proof (induction ys arbitrary: a)
    case (Cons y ys)
    show ?case
    proof (cases "key a < key y")
      case True
      with Cons [of y] show ?thesis by (auto simp: less_imp_le intro: order_trans)
    next
      case False
      with Cons [of a] show ?thesis by (auto simp: not_less intro: order_trans)
    qed
  qed simp
  moreover assume "xs \<noteq> []"
  ultimately show ?thesis unfolding max_by_def by (cases xs) simp_all
qed

text \<open>\<open>context[index]\<close> and \<open>context.name\<close>, as the messages name the parts of an artifact.\<close>

definition at_index :: "string \<Rightarrow> nat \<Rightarrow> string" where
  "at_index context i = context @ ''['' @ nat_str i @ '']''"

text \<open>\<open>repr\<close> of a decoded value; \<open>frepr\<close> prints the finite floats.\<close>

fun repr_json :: "(pyfloat \<Rightarrow> string) \<Rightarrow> json \<Rightarrow> string" where
  "repr_json frepr JNull = ''None''"
| "repr_json frepr (JBool b) = (if b then ''True'' else ''False'')"
| "repr_json frepr (JInt i) = int_str i"
| "repr_json frepr (JFloat f) = (case f of PosInf \<Rightarrow> ''inf'' | NegInf \<Rightarrow> ''-inf'' | NotANumber \<Rightarrow> ''nan'' | Flt _ \<Rightarrow> frepr f)"
| "repr_json frepr (JStr s) = repr_str s"
| "repr_json frepr (JArr xs) = ''['' @ join '', '' (map (repr_json frepr) xs) @ '']''"
| "repr_json frepr (JObj d) = ''{'' @ join '', '' (map (\<lambda>(k, v). repr_str k @ '': '' @ repr_json frepr v) d) @ ''}''"

text \<open>An array of the decoded value, for the loaders that require one.\<close>

definition array_items :: "json \<Rightarrow> json list option" where
  "array_items v = (case v of JArr xs \<Rightarrow> Some xs | _ \<Rightarrow> None)"

definition object_items :: "json \<Rightarrow> (string \<times> json) list option" where
  "object_items v = (case v of JObj d \<Rightarrow> Some d | _ \<Rightarrow> None)"

lemma dict_of_snoc: "dict_of (items @ [(k, v)]) = AList.update k v (dict_of items)"
  by (simp add: dict_of_def)

lemma map_of_dict_of: "map_of (dict_of items) = map_of (rev items)"
  by (induction items rule: rev_induct) (auto simp: dict_of_snoc update_conv dict_of_def)

lemma keys_update: "set (map fst (AList.update k v d)) = insert k (set (map fst d))"
  using dom_update [of k v d] by simp

lemma dict_of_keys [simp]: "fst ` set (dict_of items) = fst ` set items"
proof (induction items rule: rev_induct)
  case (snoc x xs)
  then show ?case using keys_update [of "fst x" "snd x" "dict_of xs"] by (cases x) (simp add: dict_of_snoc)
qed (simp add: dict_of_def)

lemma dict_of_distinct [simp]: "distinct (map fst (dict_of items))"
  by (induction items rule: rev_induct) (auto simp: dict_of_snoc distinct_update dict_of_def)

lemma update_fresh: "k \<notin> set (map fst d) \<Longrightarrow> AList.update k v d = d @ [(k, v)]"
  by (induction d) auto

lemma dict_of_id: "distinct (map fst items) \<Longrightarrow> dict_of items = items"
proof (induction items rule: rev_induct)
  case (snoc x xs)
  obtain k v where x: "x = (k, v)" by (cases x)
  with snoc show ?case by (simp add: dict_of_snoc update_fresh)
qed (simp add: dict_of_def)

lemma nonempty_text_ok: "nonempty_text mk context v = Inr s \<Longrightarrow> s \<noteq> [] \<and> (\<exists>raw. v = JStr raw \<and> s = strip raw)"
  by (auto simp: nonempty_text_def split: json.splits if_splits)

lemma strict_keys_ok: "strict_keys mk context required d = Inr u \<longleftrightarrow> fields_are required d"
  by (simp add: strict_keys_def)

text \<open>
  A loop that files every item under a key and refuses an item whose value differs from the one already
  filed: afterwards equal keys have equal values.
\<close>

lemma setdefault_fst: "fst (setdefault m k v) = (case map_of m k of Some old \<Rightarrow> old | None \<Rightarrow> v)"
  by (simp add: setdefault_def split: option.splits)

lemma setdefault_lookup:
  "map_of (snd (setdefault m k v)) = (if map_of m k = None then (map_of m)(k \<mapsto> v) else map_of m)"
  by (auto simp: setdefault_def map_add_def fun_eq_iff split: option.splits)

lemma setdefault_agrees:
  "setdefault m k v = (v, m') \<Longrightarrow> map_of m' x = (if x = k then Some v else map_of m x)"
  by (auto simp: setdefault_def map_add_def split: option.splits)

lemma setdefault_old: "setdefault m k v = (v, m') \<Longrightarrow> map_of m k = None \<or> map_of m k = Some v"
  by (auto simp: setdefault_def split: option.splits)

text \<open>A text that white space neither starts nor ends is its own \<open>strip()\<close>.\<close>

lemma dropWhile_same: "s \<noteq> [] \<Longrightarrow> dropWhile p s = s \<longleftrightarrow> \<not> p (hd s)"
  by (cases s) (auto dest: arg_cong [of _ _ length] simp: length_dropWhile_le [THEN le_imp_less_Suc, THEN less_not_refl3])

lemma strip_same:
  assumes "s \<noteq> []"
  shows "strip s = s \<longleftrightarrow> \<not> py_space (hd s) \<and> \<not> py_space (last s)"
proof
  assume same: "strip s = s"
  have "length (strip s) \<le> length (dropWhile py_space s)"
    by (simp add: strip_def length_dropWhile_le [THEN order_trans])
  then have "length s \<le> length (dropWhile py_space s)" by (simp add: same)
  then have d: "dropWhile py_space s = s"
    by (metis append_Nil length_append length_0_conv add_le_same_cancel2 le_zero_eq takeWhile_dropWhile_id)
  then have "rev (dropWhile py_space (rev s)) = s" using same by (simp add: strip_def)
  then have "dropWhile py_space (rev s) = rev s" by (metis rev_rev_ident)
  then show "\<not> py_space (hd s) \<and> \<not> py_space (last s)"
    using d assms dropWhile_same [of s py_space] dropWhile_same [of "rev s" py_space] by (simp add: hd_rev)
next
  assume "\<not> py_space (hd s) \<and> \<not> py_space (last s)"
  then have "dropWhile py_space s = s" "dropWhile py_space (rev s) = rev s"
    using assms dropWhile_same [of s py_space] dropWhile_same [of "rev s" py_space] by (simp_all add: hd_rev)
  then show "strip s = s" by (simp add: strip_def)
qed

subsection \<open>Loops of a loader\<close>

text \<open>
  The interface between a loader and its loop: one iteration either raises or yields a state that is still
  good. The loops over documents, cases, queries, judgments, rankings and candidates provide it, each with
  what the loader promises of the parts it has accepted so far.
\<close>

locale checked_loop =
  fixes iteration :: "'s \<Rightarrow> 'x \<Rightarrow> 'e + 's" and good :: "'s \<Rightarrow> bool"
  assumes iteration_good: "good s \<Longrightarrow> iteration s x = Inr s' \<Longrightarrow> good s'"
begin

lemma loop_good: "foldE iteration s xs = Inr t \<Longrightarrow> good s \<Longrightarrow> good t"
  by (rule foldE_invariant [where P = good]) (auto intro: iteration_good)

text \<open>A loop that succeeds passes through a good state after every prefix of its items.\<close>

lemma loop_prefix_good:
  assumes "foldE iteration s (xs @ ys) = Inr t" and "good s"
  shows "\<exists>u. foldE iteration s xs = Inr u \<and> good u \<and> foldE iteration u ys = Inr t"
  using assms loop_good unfolding foldE_append by (auto simp: bindE_eq_Inr)

end

text \<open>A loop that accepts one part for every item: none is skipped and none is added.\<close>

locale collecting_loop = checked_loop +
  fixes collected :: "'a \<Rightarrow> nat"
  assumes iteration_collects: "good s \<Longrightarrow> iteration s x = Inr s' \<Longrightarrow> collected s' = Suc (collected s)"
begin

lemma loop_collects: "foldE iteration s xs = Inr t \<Longrightarrow> good s \<Longrightarrow> collected t = collected s + length xs"
proof (induction xs arbitrary: s)
  case (Cons x xs)
  then obtain u where u: "iteration s x = Inr u" and rest: "foldE iteration u xs = Inr t" by auto
  show ?case
    using Cons.IH [OF rest iteration_good [OF Cons.prems(2) u]] iteration_collects [OF Cons.prems(2) u] by simp
qed simp

end

text \<open>
  The interface between a scanner and its loop over \<open>range(n)\<close>: what holds of the state after \<open>i\<close> iterations. The
  loops over the pages and the lines provide it, each with the summary of what they have seen.
\<close>

locale counted_loop =
  fixes body :: "'s \<Rightarrow> nat \<Rightarrow> 'e + 's" and seen :: "nat \<Rightarrow> 's \<Rightarrow> bool"
  assumes body_seen: "seen i s \<Longrightarrow> body s i = Inr s' \<Longrightarrow> seen (Suc i) s'"
begin

lemma loop_seen: "foldE body s [0..<n] = Inr t \<Longrightarrow> seen 0 s \<Longrightarrow> seen n t"
proof (induction n arbitrary: t)
  case (Suc n)
  then obtain u where u: "foldE body s [0..<n] = Inr u" and t: "body u n = Inr t" by (auto simp: foldE_append)
  from body_seen [OF Suc.IH [OF u Suc.prems(2)] t] show ?case .
qed simp

end

end
