(* ===== verification/Pipeline.thy ===== *)
theory Pipeline
  imports PdfBackend PartText Contracts
begin

section \<open>Retrieving evidence from a document\<close>

text \<open>
  \<open>src/dsvire/pipeline.py\<close>: scoring of candidate regions, the proof of the requested identity, the discovery of
  identities, crops. What comes from other packages is the record \<open>engine\<close>: the Unicode tables, what opening a
  payload reports, the renderer, the image encoder, SHA-256, the decimal form of a float, the JSON decoder and the
  name of the backend.
\<close>

record part_identity =
  di_manufacturer :: string
  di_mpn :: string
  di_package :: string
  di_source_url :: "string option"

datatype retrieval_error = RetrievalError string | IdentityAmbiguous "part_identity list"
  | PdfBackendError string | UnsupportedKind string | ZeroDivision | PackOsError | MissingKey string | ValueError string

record engine =
  en_unicode :: unicode
  en_open :: "bytes \<Rightarrow> opened"
  en_png :: "raw_page \<Rightarrow> box \<Rightarrow> int \<Rightarrow> bytes"
  en_webp :: "bytes \<Rightarrow> bytes"
  en_sha :: "bytes \<Rightarrow> string"
  en_frepr :: "pyfloat \<Rightarrow> string"
  en_decode :: "bytes \<Rightarrow> json option"
  en_backend :: string

subsection \<open>Limits and identities\<close>

definition MAX_PDF_BYTES :: int where "MAX_PDF_BYTES = 64 * 1024 * 1024"
definition MAX_PAGES :: int where "MAX_PAGES = 2000"
definition MAX_TEXT_CHARS_PER_PAGE :: int where "MAX_TEXT_CHARS_PER_PAGE = 250000"
definition RENDER_DPI :: int where "RENDER_DPI = 220"
definition MAX_RENDER_SIDE_PIXELS :: rat where "MAX_RENDER_SIDE_PIXELS = 12000"
definition MAX_RENDER_PIXELS :: rat where "MAX_RENDER_PIXELS = 40000000"

definition INDEX_VERSION :: string where "INDEX_VERSION = ''dsvire-baseline@0.4.0''"
definition EVIDENCE_SCHEMA_VERSION :: string where "EVIDENCE_SCHEMA_VERSION = ''dsvire.symbol-evidence.v2''"
definition IDENTITY_POLICY_VERSION :: string where "IDENTITY_POLICY_VERSION = ''dsvire.identity-text@2.0.0''"
definition REGION_POLICY_VERSION :: string where "REGION_POLICY_VERSION = ''dsvire.region-text-layout@2.0.0''"

definition MODEL_IDS :: "engine \<Rightarrow> string list" where
  "MODEL_IDS e = [en_backend e @ ''-layout-text@2'']"

definition validate_field :: "string \<times> string \<times> int \<Rightarrow> retrieval_error + unit" where
  "validate_field item = (case item of (name, text, limit) \<Rightarrow>
     if strip text = [] then Inl (RetrievalError (name @ '' is required; DS-ViRe never guesses part identity''))
     else if limit < int (length (utf8_encode text))
     then Inl (RetrievalError (name @ '' exceeds '' @ int_str limit @ '' UTF-8 bytes''))
     else Inr ())"

definition validate_identity :: "part_identity \<Rightarrow> retrieval_error + unit" where
  "validate_identity i = foldE (\<lambda>_. validate_field) ()
     [(''manufacturer'', di_manufacturer i, 160), (''mpn'', di_mpn i, 120), (''package'', di_package i, 120)]"

record identity_hint =
  ih_manufacturer :: string
  ih_mpn :: string
  ih_package :: string
  ih_source_url :: "string option"

definition complete_hint :: "identity_hint \<Rightarrow> retrieval_error + part_identity option" where
  "complete_hint h =
     (let m = strip (ih_manufacturer h); n = strip (ih_mpn h); p = strip (ih_package h)
      in if m \<noteq> [] \<and> n \<noteq> [] \<and> p \<noteq> []
         then (let i = \<lparr>di_manufacturer = m, di_mpn = n, di_package = p, di_source_url = ih_source_url h\<rparr>
               in bindE (validate_identity i) (\<lambda>_. Inr (Some i)))
         else Inr None)"

subsection \<open>Candidates\<close>

record region_candidate =
  ca_kind :: string
  ca_page :: nat
  ca_bbox :: box
  ca_caption :: string
  ca_text :: string
  ca_score :: rat
  ca_verified :: bool

text \<open>A decimal literal, and \<open>round(score, n)\<close> of a finite float.\<close>

definition dec :: "int \<Rightarrow> int \<Rightarrow> rat" where
  "dec a b = rnd (of_int a / of_int b)"

definition round_digits :: "nat \<Rightarrow> rat \<Rightarrow> rat" where
  "round_digits n r = rnd (of_int (round_half_even (r * 10 ^ n)) / 10 ^ n)"

definition pinout_score :: "nat \<Rightarrow> nat \<Rightarrow> rat" where
  "pinout_score title_hits pins =
     min 1 (fadd (fmul (of_nat title_hits) (dec 34 100)) (fmul (of_nat (min pins 12)) (dec 45 1000)))"

definition table_score :: "nat \<Rightarrow> nat \<Rightarrow> nat \<Rightarrow> rat" where
  "table_score title_hits header_hits pins =
     min 1 (fadd (fadd (fmul (of_nat title_hits) (dec 30 100)) (fmul (of_nat (min header_hits 3)) (dec 9 100)))
       (fmul (of_nat (min pins 16)) (dec 3 100)))"

definition score_candidate :: "unicode \<Rightarrow> string \<Rightarrow> string \<Rightarrow> retrieval_error + (rat \<times> bool)" where
  "score_candidate u kind raw =
     (let text = normalise_text raw; pins = pin_token_count u text in
      if kind = ''pinout'' then
        (let title_hits = term_hits text PINOUT_TERMS;
             score = pinout_score title_hits pins
         in Inr (round_digits 4 score, 1 \<le> title_hits \<and> 4 \<le> pins \<and> dec 70 100 \<le> score))
      else if kind = ''table'' then
        (let title_hits = min 1 (term_hits text PIN_TABLE_TERMS);
             header_hits = term_hits text TABLE_HEADER_TERMS;
             score = table_score title_hits header_hits pins
         in Inr (round_digits 4 score, 1 \<le> title_hits \<and> 2 \<le> header_hits \<and> 4 \<le> pins \<and> dec 72 100 \<le> score))
      else Inl (UnsupportedKind (''unsupported candidate kind: '' @ kind)))"

definition extract_block :: "int \<times> text_block list \<Rightarrow> text_block \<Rightarrow> retrieval_error + (int \<times> text_block list)" where
  "extract_block state item = (case state of (chars, blocks) \<Rightarrow>
     (let text = normalise_text (tb_text item) in
      if text = [] then Inr state
      else if MAX_TEXT_CHARS_PER_PAGE < chars + int (length text) then Inl (RetrievalError ''page text exceeds safety limit'')
      else Inr (chars + int (length text), blocks @ [\<lparr>tb_bbox = tb_bbox item, tb_text = text\<rparr>])))"

definition extract_blocks :: "raw_page \<Rightarrow> retrieval_error + text_block list" where
  "extract_blocks page = bindE (foldE extract_block (0, []) (page_blocks page)) (\<lambda>(_, blocks). Inr blocks)"

definition box_top :: "text_block \<Rightarrow> rat" where "box_top b = fst (snd (tb_bbox b))"
definition box_bottom :: "text_block \<Rightarrow> rat" where "box_bottom b = snd (snd (snd (tb_bbox b)))"

definition lines_joined :: "string list \<Rightarrow> string" where
  "lines_joined = join [newline_char]"

text \<open>The window around the anchor of a heading, and the text in it.\<close>

definition anchor_of :: "string list \<Rightarrow> text_block list \<Rightarrow> text_block option" where
  "anchor_of terms blocks = (case filter (\<lambda>b. term_hits (tb_text b) terms \<noteq> 0) blocks of
     [] \<Rightarrow> None
   | anchors \<Rightarrow> Some (max_by (\<lambda>b. (term_hits (tb_text b) terms, - box_top b)) anchors))"

definition region_box :: "string \<Rightarrow> raw_page \<Rightarrow> text_block \<Rightarrow> box" where
  "region_box kind page anchor =
     (let h = rp_height page; w = rp_width page;
          y0 = max 0 (fsub (box_top anchor) (fmul h (dec 35 1000)));
          height = fmul h (if kind = ''pinout'' then dec 34 100 else dec 42 100);
          y1 = min h (max (fadd (box_bottom anchor) (fmul h (dec 16 100))) (fadd y0 height))
      in (fmul w (dec 35 1000), y0, fmul w (dec 965 1000), y1))"

definition nearby_text :: "box \<Rightarrow> text_block list \<Rightarrow> string" where
  "nearby_text b blocks = (case b of (_, y0, _, y1) \<Rightarrow>
     lines_joined (map tb_text (filter (\<lambda>k. y0 \<le> box_bottom k \<and> box_top k \<le> y1) blocks)))"

definition candidate_for_page :: "unicode \<Rightarrow> string \<Rightarrow> nat \<Rightarrow> raw_page \<Rightarrow> text_block list \<Rightarrow>
    retrieval_error + region_candidate option" where
  "candidate_for_page u kind page_index page blocks =
     (case anchor_of (if kind = ''pinout'' then PINOUT_TERMS else PIN_TABLE_TERMS) blocks of
        None \<Rightarrow> Inr None
      | Some anchor \<Rightarrow>
          (let b = region_box kind page anchor; nearby = nearby_text b blocks
           in bindE (score_candidate u kind nearby) (\<lambda>(score, verified).
                Inr (Some \<lparr>ca_kind = kind, ca_page = page_index, ca_bbox = b, ca_caption = take 500 (tb_text anchor),
                  ca_text = nearby, ca_score = score, ca_verified = verified\<rparr>))))"

subsection \<open>The best region of each kind\<close>

type_synonym candidates = "(string \<times> region_candidate) list"

definition keep_better :: "candidates \<Rightarrow> region_candidate option \<Rightarrow> candidates" where
  "keep_better best found = (case found of
     None \<Rightarrow> best
   | Some c \<Rightarrow> (case map_of best (ca_kind c) of
       None \<Rightarrow> best @ [(ca_kind c, c)]
     | Some old \<Rightarrow> if ca_score old < ca_score c then AList.update (ca_kind c) c best else best))"

definition backend_call :: "string + 'a \<Rightarrow> retrieval_error + 'a" where
  "backend_call r = (case r of Inl m \<Rightarrow> Inl (PdfBackendError m) | Inr x \<Rightarrow> Inr x)"

definition region_kinds :: "string list" where
  "region_kinds = [''pinout'', ''table'']"

definition best_on_page :: "unicode \<Rightarrow> raw_page option list \<Rightarrow> candidates \<Rightarrow> nat \<Rightarrow> retrieval_error + candidates" where
  "best_on_page u document best i =
     bindE (backend_call (load_page document i)) (\<lambda>page.
     bindE (extract_blocks page) (\<lambda>blocks.
     foldE (\<lambda>best kind. bindE (candidate_for_page u kind i page blocks) (\<lambda>c. Inr (keep_better best c))) best region_kinds))"

text \<open>\<open>f"{score:.2f}"\<close> of a score between 0 and 1.\<close>

definition two_digits :: "rat \<Rightarrow> string" where
  "two_digits r = (let n = nat (round_half_even (r * 100))
     in nat_str (n div 100) @ ''.'' @ [digit_char (n div 10 mod 10), digit_char (n mod 10)])"

definition page_count_ok :: "raw_page option list \<Rightarrow> retrieval_error + unit" where
  "page_count_ok document =
     (if int (length document) < 1 \<or> MAX_PAGES < int (length document)
      then Inl (RetrievalError (page_range_message (int (length document)) MAX_PAGES)) else Inr ())"

definition best_candidates :: "unicode \<Rightarrow> raw_page option list \<Rightarrow> retrieval_error + candidates" where
  "best_candidates u document =
     bindE (page_count_ok document) (\<lambda>_.
     bindE (foldE (best_on_page u document) [] [0..<length document]) (\<lambda>best.
     let missing = filter (\<lambda>kind. map_of best kind = None) region_kinds;
         unverified = filter (\<lambda>(_, c). \<not> ca_verified c) best
     in if missing \<noteq> [] then Inl (RetrievalError (''no candidate region found for: '' @ join '', '' missing))
        else if unverified \<noteq> []
        then Inl (RetrievalError (''evidence verification abstained: '' @
          join '', '' (map (\<lambda>(kind, c). kind @ ''='' @ two_digits (ca_score c)) unverified)))
        else Inr best))"

subsection \<open>The requested identity\<close>

definition row_lines :: "unicode \<Rightarrow> part_identity \<Rightarrow> string list \<Rightarrow> nat \<Rightarrow> string list" where
  "row_lines u identity ls i =
     ls ! i # takeWhile (\<lambda>l. \<not> starts_new_part_row u l (di_package identity)) (slice ls (i + 1) (i + 4))"

definition package_box :: "raw_page \<Rightarrow> text_block option \<Rightarrow> box" where
  "package_box page anchor =
     (let h = rp_height page; w = rp_width page;
          y0 = (case anchor of None \<Rightarrow> 0 | Some a \<Rightarrow> max 0 (fsub (box_top a) (fmul h (dec 35 1000))));
          y1 = (case anchor of
                  None \<Rightarrow> min h (fmul h (dec 22 100))
                | Some a \<Rightarrow> min h (max (fadd (box_bottom a) (fmul h (dec 9 100))) (fadd y0 (fmul h (dec 16 100)))))
      in (fmul w (dec 35 1000), y0, fmul w (dec 965 1000), y1))"

definition identity_caption :: "part_identity \<Rightarrow> string" where
  "identity_caption i = ''Exact identity evidence: '' @ strip (di_manufacturer i) @ '' '' @ strip (di_mpn i) @ '' '' @
     strip (di_package i)"

definition package_candidate :: "unicode \<Rightarrow> part_identity \<Rightarrow> nat \<Rightarrow> raw_page \<Rightarrow> string list \<Rightarrow> nat \<Rightarrow> text_block list \<Rightarrow>
    region_candidate" where
  "package_candidate u identity page_index page ls i blocks =
     \<lparr>ca_kind = ''package'', ca_page = page_index,
      ca_bbox = package_box page (List.find (\<lambda>b. contains_exact_mpn u (tb_text b) (di_mpn identity)) blocks),
      ca_caption = identity_caption identity,
      ca_text = lines_joined (slice ls (i - 1) (min (length ls) (i + length (row_lines u identity ls i) + 1))),
      ca_score = 1, ca_verified = True\<rparr>"

definition scan_line :: "unicode \<Rightarrow> part_identity \<Rightarrow> nat \<Rightarrow> raw_page \<Rightarrow> string list \<Rightarrow> bool \<times> region_candidate list \<Rightarrow> nat \<Rightarrow>
    retrieval_error + (bool \<times> region_candidate list)" where
  "scan_line u identity page_index page ls state i = (case state of (mpn_seen, found) \<Rightarrow>
     if \<not> contains_exact_mpn u (ls ! i) (di_mpn identity) then Inr (mpn_seen, found)
     else if \<not> contains_ordered_tokens u (lines_joined (row_lines u identity ls i)) (di_package identity) 2
     then Inr (True, found)
     else bindE (extract_blocks page) (\<lambda>blocks.
       Inr (True, found @ [package_candidate u identity page_index page ls i blocks])))"

definition page_lines :: "raw_page \<Rightarrow> retrieval_error + string list" where
  "page_lines page =
     (if MAX_TEXT_CHARS_PER_PAGE < int (length (page_text page)) then Inl (RetrievalError ''page text exceeds safety limit'')
      else Inr (text_lines (page_text page)))"

definition scan_page :: "unicode \<Rightarrow> part_identity \<Rightarrow> raw_page option list \<Rightarrow> bool \<times> bool \<times> region_candidate list \<Rightarrow> nat \<Rightarrow>
    retrieval_error + (bool \<times> bool \<times> region_candidate list)" where
  "scan_page u identity document state page_index = (case state of (manufacturer_seen, mpn_seen, found) \<Rightarrow>
     bindE (backend_call (load_page document page_index)) (\<lambda>page.
     bindE (page_lines page) (\<lambda>ls.
     bindE (foldE (scan_line u identity page_index page ls) (mpn_seen, found) [0..<length ls]) (\<lambda>(seen, found').
       Inr (manufacturer_seen \<or> contains_phrase u (page_text page) (di_manufacturer identity), seen, found')))))"

definition identity_package_candidate :: "unicode \<Rightarrow> raw_page option list \<Rightarrow> part_identity \<Rightarrow>
    retrieval_error + region_candidate" where
  "identity_package_candidate u document identity =
     bindE (foldE (scan_page u identity document) (False, False, []) [0..<length document])
       (\<lambda>(manufacturer_seen, mpn_seen, found).
         if \<not> manufacturer_seen then Inl (RetrievalError ''exact manufacturer identity is absent from PDF text'')
         else if \<not> mpn_seen then Inl (RetrievalError ''exact token-bounded MPN is absent from PDF text'')
         else if found = []
         then Inl (RetrievalError ''requested package is not associated with the exact MPN in PDF text'')
         else Inr (max_by ca_score found))"

subsection \<open>Discovering identities\<close>

definition hint_matches :: "unicode \<Rightarrow> part_identity \<Rightarrow> identity_hint option \<Rightarrow> bool" where
  "hint_matches u i hint = (case hint of
     None \<Rightarrow> True
   | Some h \<Rightarrow>
       (strip (ih_manufacturer h) = [] \<or> contains_phrase u (di_manufacturer i) (ih_manufacturer h)) \<and>
       (strip (ih_mpn h) = [] \<or> normalise_mpn u (di_mpn i) = normalise_mpn u (ih_mpn h)) \<and>
       (strip (ih_package h) = [] \<or> contains_ordered_tokens u (di_package i) (ih_package h) 2))"

text \<open>The identity that the token at a position of a line names, when every test of the loop body passes.\<close>

definition token_identity :: "unicode \<Rightarrow> identity_hint option \<Rightarrow> string \<Rightarrow> string list \<Rightarrow> nat \<Rightarrow> part_identity option" where
  "token_identity u hint raw_text tokens i =
     (let token = tokens ! i; remainder = join '' '' (drop (i + 1) tokens) in
      if \<not> looks_like_mpn u token then None
      else case rx_search PACKAGE_TOKEN remainder of
        None \<Rightarrow> None
      | Some (a, b) \<Rightarrow>
          (let manufacturer = strip (join '' '' (take i tokens));
               identity = \<lparr>di_manufacturer = manufacturer, di_mpn = strip_chars ''()[]{},;:'' (uni_nfkc u token),
                 di_package = slice remainder a b,
                 di_source_url = (case hint of None \<Rightarrow> None | Some h \<Rightarrow> ih_source_url h)\<rparr>
           in if manufacturer = [] \<or> list_ex py_digit manufacturer then None
              else if \<not> contains_phrase u raw_text manufacturer then None
              else if \<not> hint_matches u identity hint then None
              else Some identity))"

type_synonym identity_triple = "string \<times> string \<times> string"

definition identity_key :: "unicode \<Rightarrow> part_identity \<Rightarrow> identity_triple" where
  "identity_key u i = (normalise_phrase u (di_manufacturer i), normalise_mpn u (di_mpn i), normalise_phrase u (di_package i))"

definition discover_line :: "unicode \<Rightarrow> identity_hint option \<Rightarrow> string \<Rightarrow> (identity_triple \<times> part_identity) list \<Rightarrow> string \<Rightarrow>
    (identity_triple \<times> part_identity) list" where
  "discover_line u hint raw_text found l =
     foldl (\<lambda>found i. case token_identity u hint raw_text (words l) i of
         None \<Rightarrow> found
       | Some identity \<Rightarrow> AList.update (identity_key u identity) identity found) found [0..<length (words l)]"

definition discover_page :: "unicode \<Rightarrow> identity_hint option \<Rightarrow> raw_page option list \<Rightarrow> (identity_triple \<times> part_identity) list \<Rightarrow>
    nat \<Rightarrow> retrieval_error + (identity_triple \<times> part_identity) list" where
  "discover_page u hint document found i =
     bindE (backend_call (load_page document i)) (\<lambda>page.
     bindE (page_lines page) (\<lambda>ls. Inr (foldl (discover_line u hint (page_text page)) found ls)))"

definition payload_ok :: "bytes \<Rightarrow> retrieval_error + unit" where
  "payload_ok payload =
     (if int (length payload) < 8 \<or> MAX_PDF_BYTES < int (length payload)
      then Inl (RetrievalError (''PDF size outside 8..='' @ int_str MAX_PDF_BYTES @ '' bytes''))
      else if \<not> starts_with ''%PDF-'' payload then Inl (RetrievalError ''input is not a PDF (missing %PDF header)'')
      else Inr ())"

definition open_pdf :: "engine \<Rightarrow> bytes \<Rightarrow> retrieval_error + raw_page option list" where
  "open_pdf e payload = (case open_document payload (en_open e payload) of
     Inl m \<Rightarrow> Inl (RetrievalError m) | Inr document \<Rightarrow> Inr document)"

definition discover_part_identities :: "engine \<Rightarrow> bytes \<Rightarrow> identity_hint option \<Rightarrow> retrieval_error + part_identity list" where
  "discover_part_identities e payload hint =
     bindE (payload_ok payload) (\<lambda>_.
     bindE (open_pdf e payload) (\<lambda>document.
     bindE (page_count_ok document) (\<lambda>_.
     bindE (foldE (discover_page (en_unicode e) hint document) [] [0..<length document]) (\<lambda>found. Inr (map snd found)))))"

definition resolve_identity :: "engine \<Rightarrow> bytes \<Rightarrow> identity_hint option \<Rightarrow> retrieval_error + part_identity" where
  "resolve_identity e payload hint =
     bindE (case hint of None \<Rightarrow> Inr None | Some h \<Rightarrow> complete_hint h) (\<lambda>complete.
     case complete of
       Some i \<Rightarrow> Inr i
     | None \<Rightarrow> bindE (discover_part_identities e payload hint) (\<lambda>found.
         case found of
           [] \<Rightarrow> Inl (RetrievalError ''no unique manufacturer, MPN, and package could be grounded in PDF text'')
         | [i] \<Rightarrow> Inr i
         | _ \<Rightarrow> Inl (IdentityAmbiguous found)))"

definition load_verified_region_candidates :: "engine \<Rightarrow> bytes \<Rightarrow> retrieval_error + candidates" where
  "load_verified_region_candidates e payload =
     bindE (payload_ok payload) (\<lambda>_. bindE (open_pdf e payload) (best_candidates (en_unicode e)))"

subsection \<open>Crops\<close>

definition bbox_norm :: "region_candidate \<Rightarrow> raw_page \<Rightarrow> retrieval_error + rat list" where
  "bbox_norm c page = (case ca_bbox c of (x0, y0, x1, y1) \<Rightarrow>
     let w = rp_width page; h = rp_height page in
     if w = 0 \<or> h = 0 then Inl ZeroDivision
     else Inr [round_digits 6 (fdiv x0 w), round_digits 6 (fdiv y0 h), round_digits 6 (fdiv x1 w), round_digits 6 (fdiv y1 h)])"

definition pixels :: "rat \<Rightarrow> rat \<Rightarrow> rat" where
  "pixels a b = fdiv (fmul (fsub b a) (of_int RENDER_DPI)) 72"

definition render_crop :: "engine \<Rightarrow> raw_page \<Rightarrow> box \<Rightarrow> retrieval_error + bytes" where
  "render_crop e page b = (case b of (x0, y0, x1, y1) \<Rightarrow>
     let w = pixels x0 x1; h = pixels y0 y1 in
     if w \<le> 0 \<or> h \<le> 0 \<or> MAX_RENDER_SIDE_PIXELS < w \<or> MAX_RENDER_SIDE_PIXELS < h \<or> MAX_RENDER_PIXELS < fmul w h
     then Inl (RetrievalError ''candidate crop exceeds render safety limit'')
     else bindE (backend_call (render_png (en_png e) page b RENDER_DPI)) (\<lambda>png. Inr (en_webp e png)))"

definition artifact_id :: "engine \<Rightarrow> string \<Rightarrow> part_identity \<Rightarrow> string" where
  "artifact_id e content_sha256 i =
     take 32 (canonical_sha (en_sha e) (en_frepr e) (JObj
       [(''content_sha256'', JStr content_sha256), (''manufacturer'', JStr (strip (di_manufacturer i))),
        (''mpn'', JStr (strip (di_mpn i))), (''package'', JStr (strip (di_package i))),
        (''index_version'', JStr INDEX_VERSION), (''model_ids'', JArr (map JStr (MODEL_IDS e)))]))"

end
