(* ===== verification/Grounding.thy ===== *)
theory Grounding
  imports Pipeline
begin

section \<open>What the pipeline accepts\<close>

text \<open>
  The facts about \<open>Pipeline\<close>: scores are between 0 and 1, the accepted regions are the best ones and verified, the
  requested identity is accepted exactly when the text grounds it, discovered identities are grounded and distinct,
  crops lie inside their page.
\<close>

subsection \<open>Scores\<close>

lemma dec_nonneg: "0 \<le> a \<Longrightarrow> 0 \<le> b \<Longrightarrow> 0 \<le> dec a b"
  by (simp add: dec_def rnd_nonneg)

lemma fmul_nonneg: "0 \<le> a \<Longrightarrow> 0 \<le> b \<Longrightarrow> 0 \<le> fmul a b"
  by (simp add: fmul_def rnd_nonneg)

lemma fadd_nonneg: "0 \<le> a \<Longrightarrow> 0 \<le> b \<Longrightarrow> 0 \<le> fadd a b"
  by (simp add: fadd_def rnd_nonneg)

lemma pinout_score_unit: "0 \<le> pinout_score t p \<and> pinout_score t p \<le> 1"
  unfolding pinout_score_def by (auto intro!: fadd_nonneg fmul_nonneg dec_nonneg)

lemma table_score_unit: "0 \<le> table_score t h p \<and> table_score t h p \<le> 1"
  unfolding table_score_def by (auto intro!: fadd_nonneg fmul_nonneg dec_nonneg)

lemma round_digits_unit:
  assumes "0 \<le> r" and "r \<le> 1"
  shows "0 \<le> round_digits n r \<and> round_digits n r \<le> 1"
proof -
  let ?k = "round_half_even (r * 10 ^ n)"
  have "0 \<le> r * 10 ^ n" using assms by simp
  then have lo: "0 \<le> ?k" using round_half_even_mono [of 0 "r * 10 ^ n"] round_half_even_int [of 0] by simp
  have "r * 10 ^ n \<le> of_int (10 ^ n)" using assms by simp
  then have hi: "?k \<le> 10 ^ n" using round_half_even_mono round_half_even_int by metis
  then have "(of_int ?k :: rat) \<le> of_int (10 ^ n)" by (simp only: of_int_le_iff)
  then have "(of_int ?k :: rat) / 10 ^ n \<le> of_int 1" by simp
  moreover have nonneg: "0 \<le> (of_int ?k :: rat) / 10 ^ n" using lo by simp
  ultimately have "rnd (of_int ?k / 10 ^ n) \<le> of_int 1" by (intro rnd_le_int) simp_all
  then show ?thesis using rnd_nonneg [OF nonneg] by (simp add: round_digits_def)
qed

lemma score_candidate_unit: "score_candidate u kind text = Inr (score, verified) \<Longrightarrow> 0 \<le> score \<and> score \<le> 1"
  using pinout_score_unit table_score_unit by (auto simp: score_candidate_def Let_def round_digits_unit split: if_splits)

subsection \<open>The accepted regions\<close>

text \<open>\<open>found_on\<close>: the candidate of a kind that a page of the document offers.\<close>

definition found_on :: "unicode \<Rightarrow> raw_page option list \<Rightarrow> string \<Rightarrow> nat \<Rightarrow> region_candidate \<Rightarrow> bool" where
  "found_on u document kind i c \<longleftrightarrow> (case load_page document i of
     Inl _ \<Rightarrow> False
   | Inr page \<Rightarrow> (case extract_blocks page of
       Inl _ \<Rightarrow> False
     | Inr blocks \<Rightarrow> candidate_for_page u kind i page blocks = Inr (Some c)))"

text \<open>\<open>best_before\<close>: for every kind, the first of the highest-scoring candidates among the first pages.\<close>

definition best_before :: "unicode \<Rightarrow> raw_page option list \<Rightarrow> nat \<Rightarrow> candidates \<Rightarrow> bool" where
  "best_before u document n best \<longleftrightarrow> distinct (map fst best) \<and> set (map fst best) \<subseteq> set region_kinds \<and>
     (\<forall>kind \<in> set region_kinds. case map_of best kind of
        None \<Rightarrow> \<forall>i < n. \<forall>c. \<not> found_on u document kind i c
      | Some b \<Rightarrow> (\<exists>i < n. found_on u document kind i b) \<and>
          (\<forall>i < n. \<forall>c. found_on u document kind i c \<longrightarrow> ca_score c \<le> ca_score b \<and> (ca_score c = ca_score b \<longrightarrow> ca_page b \<le> i)))"

lemma candidate_for_page_fields:
  assumes "candidate_for_page u kind i page blocks = Inr (Some c)"
  shows "ca_kind c = kind \<and> ca_page c = i \<and> 0 \<le> ca_score c \<and> ca_score c \<le> 1 \<and>
    (\<exists>anchor. ca_bbox c = region_box kind page anchor) \<and> score_candidate u kind (ca_text c) = Inr (ca_score c, ca_verified c)"
  using assms score_candidate_unit by (fastforce simp: candidate_for_page_def Let_def split: option.splits)

text \<open>What one kind keeps of what it had and what a page offers.\<close>

fun better :: "region_candidate option \<Rightarrow> region_candidate option \<Rightarrow> region_candidate option" where
  "better old None = old"
| "better None (Some c) = Some c"
| "better (Some b) (Some c) = (if ca_score b < ca_score c then Some c else Some b)"

lemma keep_better_lookup:
  "map_of (keep_better best f) kind =
     (if \<forall>c. f = Some c \<longrightarrow> ca_kind c = kind then better (map_of best kind) f else map_of best kind)"
  by (cases f; cases "map_of best kind") (auto simp: keep_better_def map_add_def update_conv' split: option.splits)

lemma keep_same: "\<forall>c. f = Some c \<longrightarrow> ca_kind c = kind \<Longrightarrow> map_of (keep_better best f) kind = better (map_of best kind) f"
  unfolding keep_better_lookup by (rule if_P)

lemma keep_other: "\<forall>c. f = Some c \<longrightarrow> ca_kind c \<noteq> kind \<Longrightarrow> map_of (keep_better best f) kind = map_of best kind"
  unfolding keep_better_lookup by (cases f) auto

lemma keep_better_shape:
  assumes "distinct (map fst best)" and "set (map fst best) \<subseteq> set region_kinds" and "\<forall>c. f = Some c \<longrightarrow> ca_kind c \<in> set region_kinds"
  shows "distinct (map fst (keep_better best f)) \<and> set (map fst (keep_better best f)) \<subseteq> set region_kinds"
proof (cases f)
  case (Some c)
  have dom: "map_of best k = None \<longleftrightarrow> k \<notin> fst ` set best" for k by (rule map_of_eq_None_iff)
  have "distinct (map fst (keep_better best (Some c)))"
    using assms(1) dom by (auto simp: keep_better_def distinct_update split: option.splits)
  moreover have "set (map fst (keep_better best (Some c))) = insert (ca_kind c) (set (map fst best))"
    using dom [of "ca_kind c"] keys_update [of "ca_kind c" c best] by (auto simp: keep_better_def split: option.splits)
  ultimately show ?thesis using assms(2,3) Some by simp
qed (use assms in \<open>simp add: keep_better_def\<close>)

lemma best_on_page_lookup:
  assumes run: "best_on_page u document best i = Inr best'" and d: "distinct (map fst best)"
    and keys: "set (map fst best) \<subseteq> set region_kinds"
  shows "distinct (map fst best') \<and> set (map fst best') \<subseteq> set region_kinds" (is ?shape)
    and "kind \<in> set region_kinds \<Longrightarrow>
      \<exists>found. (\<forall>c. found_on u document kind i c \<longleftrightarrow> found = Some c) \<and> map_of best' kind = better (map_of best kind) found"
proof -
  from run obtain page blocks c1 c2 where page: "load_page document i = Inr page" and blocks: "extract_blocks page = Inr blocks"
    and c1: "candidate_for_page u ''pinout'' i page blocks = Inr c1" and c2: "candidate_for_page u ''table'' i page blocks = Inr c2"
    and best': "best' = keep_better (keep_better best c1) c2"
    unfolding best_on_page_def backend_call_def region_kinds_def
    by (cases "load_page document i"; cases "extract_blocks (projr (load_page document i))") fastforce+
  have found: "found_on u document kind i c \<longleftrightarrow> candidate_for_page u kind i page blocks = Inr (Some c)" for kind c
    by (simp add: found_on_def page blocks)
  have k1: "\<forall>c. c1 = Some c \<longrightarrow> ca_kind c = ''pinout''" using candidate_for_page_fields c1 by blast
  have k2: "\<forall>c. c2 = Some c \<longrightarrow> ca_kind c = ''table''" using candidate_for_page_fields c2 by blast
  have "distinct (map fst (keep_better best c1)) \<and> set (map fst (keep_better best c1)) \<subseteq> set region_kinds"
    by (rule keep_better_shape [OF d keys]) (simp add: k1 region_kinds_def)
  then show ?shape unfolding best' by (intro keep_better_shape) (simp_all add: k2 region_kinds_def)
  assume "kind \<in> set region_kinds"
  then consider "kind = ''pinout''" | "kind = ''table''" by (auto simp: region_kinds_def)
  then show "\<exists>found. (\<forall>c. found_on u document kind i c \<longleftrightarrow> found = Some c) \<and> map_of best' kind = better (map_of best kind) found"
  proof cases
    case 1
    have "map_of best' ''pinout'' = better (map_of best ''pinout'') c1"
      unfolding best' using keep_other [of c2 "''pinout''"] keep_same [OF k1] k2 by simp
    then show ?thesis unfolding 1 found by (intro exI [of _ c1]) (simp add: c1 eq_commute)
  next
    case 2
    have "map_of best' ''table'' = better (map_of best ''table'') c2"
      unfolding best' using keep_other [of c1 "''table''"] keep_same [OF k2] k1 by simp
    then show ?thesis unfolding 2 found by (intro exI [of _ c2]) (simp add: c2 eq_commute)
  qed
qed

lemma found_on_page: "found_on u document kind i c \<Longrightarrow> ca_kind c = kind \<and> ca_page c = i"
  using candidate_for_page_fields by (fastforce simp: found_on_def split: sum.splits)

text \<open>The loop over the pages provides its interface: each page keeps the table of the best candidates so far.\<close>

interpretation page_scan: counted_loop "best_on_page u document" "best_before u document" for u document
proof (unfold_locales, goal_cases)
  case (1 n best best')
  then have b: "distinct (map fst best)" "set (map fst best) \<subseteq> set region_kinds" by (auto simp: best_before_def)
  note shape = best_on_page_lookup(1) [OF 1(2) b] and lookup = best_on_page_lookup(2) [OF 1(2) b]
  have "case map_of best' kind of
        None \<Rightarrow> \<forall>i < Suc n. \<forall>c. \<not> found_on u document kind i c
      | Some b \<Rightarrow> (\<exists>i < Suc n. found_on u document kind i b) \<and>
          (\<forall>i < Suc n. \<forall>c. found_on u document kind i c \<longrightarrow> ca_score c \<le> ca_score b \<and> (ca_score c = ca_score b \<longrightarrow> ca_page b \<le> i))"
    if k: "kind \<in> set region_kinds" for kind
  proof -
    from lookup [OF k] obtain found where f: "\<And>c. found_on u document kind n c \<longleftrightarrow> found = Some c"
      and best': "map_of best' kind = better (map_of best kind) found"
      by blast
    from 1(1) k have old: "case map_of best kind of
        None \<Rightarrow> \<forall>i < n. \<forall>c. \<not> found_on u document kind i c
      | Some b \<Rightarrow> (\<exists>i < n. found_on u document kind i b) \<and>
          (\<forall>i < n. \<forall>c. found_on u document kind i c \<longrightarrow> ca_score c \<le> ca_score b \<and> (ca_score c = ca_score b \<longrightarrow> ca_page b \<le> i))"
      unfolding best_before_def by blast
    have page_n: "ca_page c = n" if "found = Some c" for c using f found_on_page that by blast
    show ?thesis
    proof (cases "map_of best kind")
      case None
      with old have "\<forall>i < n. \<forall>c. \<not> found_on u document kind i c" by simp
      with None best' f page_n show ?thesis by (cases found) (auto simp: less_Suc_eq)
    next
      case (Some b)
      with old have b: "\<exists>i < n. found_on u document kind i b"
        "\<forall>i < n. \<forall>c. found_on u document kind i c \<longrightarrow> ca_score c \<le> ca_score b \<and> (ca_score c = ca_score b \<longrightarrow> ca_page b \<le> i)"
        by simp_all
      then have page_b: "ca_page b < n" using found_on_page by blast
      show ?thesis
      proof (cases found)
        case None
        with Some best' f b show ?thesis by (auto simp: less_Suc_eq)
      next
        case c: (Some c)
        show ?thesis
        proof (cases "ca_score b < ca_score c")
          case True
          then have new: "map_of best' kind = Some c" using best' Some c by simp
          have "ca_score d \<le> ca_score c \<and> (ca_score d = ca_score c \<longrightarrow> ca_page c \<le> i)" if "i < Suc n" "found_on u document kind i d" for i d
          proof (cases "i = n")
            case False
            with that(1) have "i < n" by simp
            with that(2) b(2) have "ca_score d \<le> ca_score b" by blast
            with True show ?thesis by auto
          qed (use that f c page_n in auto)
          then show ?thesis using new f c by auto
        next
          case False
          then have "map_of best' kind = Some b" using best' Some c by simp
          with False b f c page_b show ?thesis by (auto simp: less_Suc_eq not_less)
        qed
      qed
    qed
  qed
  with shape show ?case unfolding best_before_def by blast
qed

lemma best_before_0: "best_before u document 0 []"
  by (simp add: best_before_def)

lemma best_candidates_best:
  assumes "best_candidates u document = Inr best"
  shows "best_before u document (length document) best \<and> (\<forall>kind \<in> set region_kinds. \<exists>c. map_of best kind = Some c \<and> ca_verified c)"
proof -
  from assms have run: "foldE (best_on_page u document) [] [0..<length document] = Inr best"
    and none: "filter (\<lambda>kind. map_of best kind = None) region_kinds = []" "filter (\<lambda>(_, c). \<not> ca_verified c) best = []"
    by (auto simp: best_candidates_def Let_def split: if_splits)
  have "\<exists>c. map_of best kind = Some c \<and> ca_verified c" if "kind \<in> set region_kinds" for kind
  proof -
    from none(1) that obtain c where c: "map_of best kind = Some c" by (auto simp: filter_empty_conv)
    with none(2) have "ca_verified c" by (auto simp: filter_empty_conv dest!: map_of_SomeD)
    with c show ?thesis by blast
  qed
  then show ?thesis using page_scan.loop_seen [OF run best_before_0] by blast
qed

subsection \<open>The requested identity\<close>

text \<open>
  What the text must say: a line with the part number as a token, and the tokens of the package in order in the row
  the line starts; \<open>grounded\<close> adds that the manufacturer is named on some page.
\<close>

definition mpn_line :: "unicode \<Rightarrow> part_identity \<Rightarrow> string list \<Rightarrow> nat \<Rightarrow> bool" where
  "mpn_line u identity ls i \<longleftrightarrow> contains_exact_mpn u (ls ! i) (di_mpn identity)"

definition grounded_row :: "unicode \<Rightarrow> part_identity \<Rightarrow> string list \<Rightarrow> nat \<Rightarrow> bool" where
  "grounded_row u identity ls i \<longleftrightarrow> mpn_line u identity ls i \<and>
     contains_ordered_tokens u (lines_joined (row_lines u identity ls i)) (di_package identity) 2"

definition names_manufacturer :: "unicode \<Rightarrow> raw_page option list \<Rightarrow> part_identity \<Rightarrow> nat \<Rightarrow> bool" where
  "names_manufacturer u document identity n \<longleftrightarrow>
     (\<exists>i < n. \<exists>page. load_page document i = Inr page \<and> contains_phrase u (page_text page) (di_manufacturer identity))"

definition names_row :: "unicode \<Rightarrow> raw_page option list \<Rightarrow> part_identity \<Rightarrow> nat \<Rightarrow> bool" where
  "names_row u document identity n \<longleftrightarrow>
     (\<exists>i < n. \<exists>page ls. load_page document i = Inr page \<and> page_lines page = Inr ls \<and> (\<exists>l < length ls. grounded_row u identity ls l))"

definition grounded :: "unicode \<Rightarrow> raw_page option list \<Rightarrow> part_identity \<Rightarrow> bool" where
  "grounded u document identity \<longleftrightarrow>
     names_manufacturer u document identity (length document) \<and> names_row u document identity (length document)"

definition evidence_for :: "unicode \<Rightarrow> raw_page option list \<Rightarrow> part_identity \<Rightarrow> region_candidate \<Rightarrow> bool" where
  "evidence_for u document identity c \<longleftrightarrow>
     (\<exists>i < length document. \<exists>page ls l blocks. load_page document i = Inr page \<and> page_lines page = Inr ls \<and> l < length ls \<and>
        grounded_row u identity ls l \<and> extract_blocks page = Inr blocks \<and> c = package_candidate u identity i page ls l blocks)"

definition row_candidates :: "unicode \<Rightarrow> part_identity \<Rightarrow> nat \<Rightarrow> raw_page \<Rightarrow> string list \<Rightarrow> nat \<Rightarrow> text_block list \<Rightarrow>
    region_candidate list" where
  "row_candidates u identity page_index page ls n blocks =
     map (\<lambda>l. package_candidate u identity page_index page ls l blocks) (filter (grounded_row u identity ls) [0..<n])"

definition lines_seen :: "unicode \<Rightarrow> part_identity \<Rightarrow> nat \<Rightarrow> raw_page \<Rightarrow> string list \<Rightarrow> bool \<times> region_candidate list \<Rightarrow> nat \<Rightarrow>
    bool \<times> region_candidate list \<Rightarrow> bool" where
  "lines_seen u identity page_index page ls start n state \<longleftrightarrow>
     fst state = (fst start \<or> (\<exists>l < n. mpn_line u identity ls l)) \<and>
     (\<exists>blocks. snd state = snd start @ row_candidates u identity page_index page ls n blocks \<and>
        (row_candidates u identity page_index page ls n blocks \<noteq> [] \<longrightarrow> extract_blocks page = Inr blocks))"

lemma row_candidates_Suc:
  "row_candidates u identity i page ls (Suc n) blocks = row_candidates u identity i page ls n blocks @
     (if grounded_row u identity ls n then [package_candidate u identity i page ls n blocks] else [])"
  by (simp add: row_candidates_def)

interpretation line_scan: counted_loop "scan_line u identity page_index page ls"
  "lines_seen u identity page_index page ls start" for u identity page_index page ls start
proof (unfold_locales, goal_cases)
  case (1 n state state')
  let ?rows = "row_candidates u identity page_index page ls"
  obtain s f where st: "state = (s, f)" by (cases state)
  from 1(1) have seen: "s = (fst start \<or> (\<exists>l < n. mpn_line u identity ls l))" unfolding lines_seen_def st by simp
  from 1(1) obtain blocks where f: "f = snd start @ ?rows n blocks" and b: "?rows n blocks \<noteq> [] \<longrightarrow> extract_blocks page = Inr blocks"
    unfolding lines_seen_def st by auto
  have suc: "(\<exists>l < Suc n. mpn_line u identity ls l) \<longleftrightarrow> (\<exists>l < n. mpn_line u identity ls l) \<or> mpn_line u identity ls n"
    by (auto simp: less_Suc_eq)
  consider (plain) "\<not> grounded_row u identity ls n" "state' = (s \<or> mpn_line u identity ls n, f)"
    | (row) b where "grounded_row u identity ls n" "extract_blocks page = Inr b"
        "state' = (True, f @ [package_candidate u identity page_index page ls n b])"
    using 1(2) unfolding st scan_line_def mpn_line_def grounded_row_def by (auto split: if_splits)
  then show ?case
  proof cases
    case plain
    have "?rows (Suc n) blocks = ?rows n blocks" using plain(1) by (simp add: row_candidates_Suc)
    then have "snd state' = snd start @ ?rows (Suc n) blocks \<and> (?rows (Suc n) blocks \<noteq> [] \<longrightarrow> extract_blocks page = Inr blocks)"
      using plain(2) f b by simp
    moreover have "fst state' = (fst start \<or> (\<exists>l < Suc n. mpn_line u identity ls l))"
      unfolding suc using plain(2) seen by simp
    ultimately show ?thesis unfolding lines_seen_def by blast
  next
    case (row b')
    have "?rows n blocks = ?rows n b'" using b row(2) by (cases "?rows n blocks = []") (auto simp: row_candidates_def)
    then have "snd state' = snd start @ ?rows (Suc n) b'" using row f by (simp add: row_candidates_Suc)
    moreover have "fst state' = (fst start \<or> (\<exists>l < Suc n. mpn_line u identity ls l))"
      using row(1,3) by (auto simp: grounded_row_def)
    ultimately show ?thesis using row(2) unfolding lines_seen_def by blast
  qed
qed

lemma scan_lines:
  assumes "foldE (scan_line u identity page_index page ls) start [0..<n] = Inr state"
  shows "lines_seen u identity page_index page ls start n state"
  using line_scan.loop_seen [OF assms, of start] by (auto simp: lines_seen_def row_candidates_def)

definition pages_seen :: "unicode \<Rightarrow> raw_page option list \<Rightarrow> part_identity \<Rightarrow> nat \<Rightarrow> bool \<times> bool \<times> region_candidate list \<Rightarrow> bool" where
  "pages_seen u document identity n state \<longleftrightarrow> n \<le> length document \<longrightarrow>
     fst state = names_manufacturer u document identity n \<and> (snd (snd state) \<noteq> [] \<longleftrightarrow> names_row u document identity n) \<and>
     (\<forall>c \<in> set (snd (snd state)). evidence_for u document identity c) \<and> (snd (snd state) \<noteq> [] \<longrightarrow> fst (snd state))"

interpretation identity_scan: counted_loop "scan_page u identity document" "pages_seen u document identity" for u identity document
proof (unfold_locales, goal_cases)
  case (1 n state state')
  obtain m s f where st: "state = (m, s, f)" by (cases state)
  from 1(2) obtain page ls s' f' where page: "load_page document n = Inr page" and ls: "page_lines page = Inr ls"
    and scan: "foldE (scan_line u identity n page ls) (s, f) [0..<length ls] = Inr (s', f')"
    and st': "state' = (m \<or> contains_phrase u (page_text page) (di_manufacturer identity), s', f')"
    unfolding st by (auto simp: scan_page_def backend_call_def split: sum.splits)
  from scan_lines [OF scan] obtain blocks where s': "s' = (s \<or> (\<exists>l < length ls. mpn_line u identity ls l))"
    and f': "f' = f @ row_candidates u identity n page ls (length ls) blocks"
    and blocks: "row_candidates u identity n page ls (length ls) blocks \<noteq> [] \<longrightarrow> extract_blocks page = Inr blocks"
    unfolding lines_seen_def by auto
  show ?case unfolding pages_seen_def
  proof (intro impI conjI)
    assume n: "Suc n \<le> length document"
    then have old: "m = names_manufacturer u document identity n" "f \<noteq> [] \<longleftrightarrow> names_row u document identity n"
      "\<forall>c \<in> set f. evidence_for u document identity c" "f \<noteq> [] \<longrightarrow> s"
      using 1(1) unfolding pages_seen_def st by auto
    show "fst state' = names_manufacturer u document identity (Suc n)"
      using old(1) page unfolding st' names_manufacturer_def by (auto simp: less_Suc_eq)
    have rows: "row_candidates u identity n page ls (length ls) blocks \<noteq> [] \<longleftrightarrow> (\<exists>l < length ls. grounded_row u identity ls l)"
      by (auto simp: row_candidates_def filter_empty_conv)
    show "snd (snd state') \<noteq> [] \<longleftrightarrow> names_row u document identity (Suc n)"
      using old(2) page ls rows unfolding st' f' names_row_def by (auto simp: less_Suc_eq)
    show "\<forall>c \<in> set (snd (snd state')). evidence_for u document identity c"
    proof
      fix c assume "c \<in> set (snd (snd state'))"
      then consider "c \<in> set f"
        | l where "l < length ls" "grounded_row u identity ls l" "c = package_candidate u identity n page ls l blocks"
        unfolding st' f' row_candidates_def by auto
      then show "evidence_for u document identity c"
      proof cases
        case 1
        with old(3) show ?thesis by blast
      next
        case 2
        then have "extract_blocks page = Inr blocks" using blocks by (auto simp: row_candidates_def filter_empty_conv)
        with 2 page ls n show ?thesis unfolding evidence_for_def Suc_le_eq by blast
      qed
    qed
    assume "snd (snd state') \<noteq> []"
    then show "fst (snd state')"
      using old(4) rows unfolding st' f' s' by (auto simp: grounded_row_def)
  qed
qed

text \<open>Nothing stops the scan: every page loads, and its text and blocks are within the limit.\<close>

definition scannable :: "raw_page option list \<Rightarrow> bool" where
  "scannable document \<longleftrightarrow> list_all (\<lambda>p. case p of None \<Rightarrow> False
     | Some page \<Rightarrow> \<not> isl (page_lines page) \<and> \<not> isl (extract_blocks page)) document"

lemma scannable_page:
  assumes "scannable document" and "i < length document"
  obtains page ls blocks where "load_page document i = Inr page" and "page_lines page = Inr ls" and "extract_blocks page = Inr blocks"
proof -
  from assms obtain page where "document ! i = Some page" "\<not> isl (page_lines page)" "\<not> isl (extract_blocks page)"
    by (cases "document ! i") (auto simp: scannable_def list_all_length)
  then show ?thesis using assms(2) that [of page] by (cases "page_lines page"; cases "extract_blocks page") (auto simp: load_page_def)
qed

lemma scan_page_total:
  assumes "scannable document" and "i < length document"
  shows "\<exists>t. scan_page u identity document state i = Inr t"
proof -
  obtain page ls blocks where p: "load_page document i = Inr page" "page_lines page = Inr ls" "extract_blocks page = Inr blocks"
    using assms by (rule scannable_page)
  obtain m s f where st: "state = (m, s, f)" by (cases state)
  have "\<exists>t. scan_line u identity i page ls st l = Inr t" for st l
    by (auto simp: scan_line_def p split: prod.split)
  then have "\<exists>t. foldE (scan_line u identity i page ls) (s, f) [0..<length ls] = Inr t" by (intro foldE_total)
  then show ?thesis by (auto simp: scan_page_def st p backend_call_def)
qed

lemma identity_package_candidate_scan:
  assumes "identity_package_candidate u document identity = Inr c"
  shows "grounded u document identity \<and> evidence_for u document identity c"
proof -
  from assms obtain m s f where run: "foldE (scan_page u identity document) (False, False, []) [0..<length document] = Inr (m, s, f)"
    and m: "m" and f: "f \<noteq> []" and c: "c = max_by ca_score f"
    by (auto simp: identity_package_candidate_def split: if_splits)
  have start: "pages_seen u document identity 0 (False, False, [])"
    by (simp add: pages_seen_def names_manufacturer_def names_row_def)
  have "c \<in> set f" using max_by_in [OF f] c by blast
  with identity_scan.loop_seen [OF run start] m f show ?thesis by (auto simp: pages_seen_def grounded_def)
qed

text \<open>
  Of a document whose pages can be read, the scan accepts an identity exactly when one of its lines matches: the loops
  miss nothing. \<open>IdentityGate\<close> restates the matching itself.
\<close>

lemma gate_grounded:
  assumes "scannable document"
  shows "(\<exists>c. identity_package_candidate u document identity = Inr c) \<longleftrightarrow> grounded u document identity"
proof -
  have "\<exists>t. scan_page u identity document state i = Inr t" if "i \<in> set [0..<length document]" for state i
    using that scan_page_total [OF assms] by simp
  then have "\<exists>t. foldE (scan_page u identity document) (False, False, []) [0..<length document] = Inr t" by (rule foldE_total)
  then obtain m s f where run: "foldE (scan_page u identity document) (False, False, []) [0..<length document] = Inr (m, s, f)"
    by (metis prod_cases3)
  have "pages_seen u document identity 0 (False, False, [])"
    by (simp add: pages_seen_def names_manufacturer_def names_row_def)
  from identity_scan.loop_seen [OF run this]
  have m: "m = names_manufacturer u document identity (length document)" and f: "f \<noteq> [] \<longleftrightarrow> names_row u document identity (length document)"
    and s: "f \<noteq> [] \<longrightarrow> s" by (auto simp: pages_seen_def)
  have "identity_package_candidate u document identity = Inr (max_by ca_score f)" if "grounded u document identity"
    using that m f s by (simp add: identity_package_candidate_def run grounded_def)
  then show ?thesis using identity_package_candidate_scan by auto
qed

subsection \<open>Crops\<close>

text \<open>The size of a page as the renderer reports it: floats, not negative.\<close>

definition float_page :: "raw_page \<Rightarrow> bool" where
  "float_page p \<longleftrightarrow> 0 \<le> rp_width p \<and> 0 \<le> rp_height p \<and> rnd (rp_width p) = rp_width p \<and> rnd (rp_height p) = rp_height p"

definition inside_page :: "raw_page \<Rightarrow> box \<Rightarrow> bool" where
  "inside_page p b \<longleftrightarrow> (case b of (x0, y0, x1, y1) \<Rightarrow> 0 \<le> x0 \<and> 0 \<le> y0 \<and> x1 \<le> rp_width p \<and> y1 \<le> rp_height p)"

lemma dec_le_1: "0 \<le> a \<Longrightarrow> a \<le> b \<Longrightarrow> dec a b \<le> 1"
proof -
  assume "0 \<le> a" "a \<le> b"
  then have "(of_int a :: rat) \<le> of_int b" "0 \<le> (of_int b :: rat)" by simp_all
  then have "of_int a / of_int b \<le> (of_int 1 :: rat)" by (cases "b = 0") (simp_all add: divide_le_eq)
  moreover have "0 \<le> (of_int a / of_int b :: rat)" using \<open>0 \<le> a\<close> \<open>a \<le> b\<close> by simp
  ultimately have "rnd (of_int a / of_int b) \<le> of_int 1" by (rule rnd_le_int) simp
  then show ?thesis by (simp add: dec_def)
qed

lemma fmul_fraction_le: "0 \<le> w \<Longrightarrow> rnd w = w \<Longrightarrow> 0 \<le> c \<Longrightarrow> c \<le> 1 \<Longrightarrow> fmul w c \<le> w"
  unfolding fmul_def by (rule rnd_le_float) (simp_all add: mult_left_le)

lemma region_box_inside: "float_page page \<Longrightarrow> inside_page page (region_box kind page anchor)"
  by (simp add: inside_page_def region_box_def Let_def float_page_def fmul_nonneg dec_nonneg fmul_fraction_le dec_le_1)

lemma package_box_inside: "float_page page \<Longrightarrow> inside_page page (package_box page anchor)"
  by (simp add: inside_page_def package_box_def Let_def float_page_def fmul_nonneg dec_nonneg fmul_fraction_le dec_le_1
      split: option.split)

lemma pixels_pos: "0 < pixels a b \<Longrightarrow> a < b"
proof (rule ccontr)
  assume p: "0 < pixels a b" and "\<not> a < b"
  then have "fsub b a \<le> 0" unfolding fsub_def by (intro rnd_nonpos) simp
  then have "fmul (fsub b a) (of_int RENDER_DPI) \<le> 0"
    unfolding fmul_def by (intro rnd_nonpos) (simp add: RENDER_DPI_def mult_nonpos_nonneg)
  then have "pixels a b \<le> 0" unfolding pixels_def fdiv_def by (intro rnd_nonpos) (simp add: divide_nonpos_pos)
  with p show False by simp
qed

lemma unit_fraction:
  assumes "0 \<le> x" and "x \<le> w"
  shows "0 \<le> round_digits n (fdiv x w) \<and> round_digits n (fdiv x w) \<le> 1"
proof -
  have q: "0 \<le> x / w" "x / w \<le> of_int 1" using assms by (simp_all add: divide_le_eq)
  have "fdiv x w \<le> of_int 1" unfolding fdiv_def by (rule rnd_le_int [OF q(2) q(1)]) simp
  then show ?thesis using rnd_nonneg [OF q(1)] by (intro round_digits_unit) (simp_all add: fdiv_def)
qed

text \<open>The size limits of a crop: what \<open>_render_crop\<close> checks before it asks the renderer.\<close>

definition crop_allowed :: "box \<Rightarrow> bool" where
  "crop_allowed b \<longleftrightarrow> (case b of (x0, y0, x1, y1) \<Rightarrow>
     let w = pixels x0 x1; h = pixels y0 y1 in
     0 < w \<and> 0 < h \<and> w \<le> MAX_RENDER_SIDE_PIXELS \<and> h \<le> MAX_RENDER_SIDE_PIXELS \<and> fmul w h \<le> MAX_RENDER_PIXELS)"

text \<open>Crops of ordinary pages are within the limits: a box of 1 to 2000 points a side.\<close>

lemma rnd_between: "of_int a \<le> r \<Longrightarrow> r \<le> of_int b \<Longrightarrow> 0 \<le> a \<Longrightarrow> b < 2 ^ 53 \<Longrightarrow> of_int a \<le> rnd r \<and> rnd r \<le> of_int b"
proof -
  assume r: "of_int a \<le> r" "r \<le> of_int b" and a: "0 \<le> a" and b: "b < 2 ^ 53"
  have "(of_int 0 :: rat) \<le> of_int a" using a by (simp only: of_int_le_iff)
  then have "0 \<le> r" using r(1) by simp
  moreover have "(of_int a :: rat) \<le> of_int b" using r by simp
  then have "a < 2 ^ 53" using b by (simp only: of_int_le_iff)
  ultimately show ?thesis using rnd_ge_int [OF r(1) a] rnd_le_int [OF r(2) _ b] by simp
qed

lemma pixels_ordinary:
  assumes "1 \<le> b - a" and "b - a \<le> 2000"
  shows "3 \<le> pixels a b \<and> pixels a b \<le> 6112"
proof -
  have s: "1 \<le> fsub b a \<and> fsub b a \<le> 2000"
    using rnd_between [of 1 "b - a" 2000] assms by (simp add: fsub_def)
  then have "220 \<le> fsub b a * 220 \<and> fsub b a * 220 \<le> 440000" by simp
  then have m: "220 \<le> fmul (fsub b a) (of_int RENDER_DPI) \<and> fmul (fsub b a) (of_int RENDER_DPI) \<le> 440000"
    using rnd_between [of 220 "fsub b a * 220" 440000] by (simp add: fmul_def RENDER_DPI_def)
  then have "3 \<le> fmul (fsub b a) (of_int RENDER_DPI) / 72 \<and> fmul (fsub b a) (of_int RENDER_DPI) / 72 \<le> 6112" by simp
  then show ?thesis using rnd_between [of 3 "fmul (fsub b a) (of_int RENDER_DPI) / 72" 6112] by (simp add: pixels_def fdiv_def)
qed

lemma ordinary_crop_allowed:
  assumes "1 \<le> x1 - x0" "x1 - x0 \<le> 2000" "1 \<le> y1 - y0" "y1 - y0 \<le> 2000"
  shows "crop_allowed (x0, y0, x1, y1)"
proof -
  have w: "3 \<le> pixels x0 x1" "pixels x0 x1 \<le> 6112" using pixels_ordinary [OF assms(1,2)] by simp_all
  have h: "3 \<le> pixels y0 y1" "pixels y0 y1 \<le> 6112" using pixels_ordinary [OF assms(3,4)] by simp_all
  have "pixels x0 x1 * pixels y0 y1 \<le> 6112 * 6112" using w h by (intro mult_mono) simp_all
  moreover have "0 \<le> pixels x0 x1 * pixels y0 y1" using w h by simp
  ultimately have "fmul (pixels x0 x1) (pixels y0 y1) \<le> 37356544"
    using rnd_le_int [of "pixels x0 x1 * pixels y0 y1" 37356544] by (simp add: fmul_def)
  then show ?thesis using w h by (simp add: crop_allowed_def Let_def MAX_RENDER_SIDE_PIXELS_def MAX_RENDER_PIXELS_def)
qed

lemma render_crop_inside:
  assumes "inside_page page b"
  shows "render_crop e page b = (if crop_allowed b then Inr (en_webp e (en_png e page b RENDER_DPI))
    else Inl (RetrievalError ''candidate crop exceeds render safety limit''))"
proof -
  obtain x0 y0 x1 y1 where b: "b = (x0, y0, x1, y1)" by (cases b)
  have i: "0 \<le> x0" "0 \<le> y0" "x1 \<le> rp_width page" "y1 \<le> rp_height page" using assms by (simp_all add: inside_page_def b)
  show ?thesis
  proof (cases "crop_allowed b")
    case True
    then have "x0 < x1" "y0 < y1" using pixels_pos by (auto simp: crop_allowed_def b Let_def)
    with i have "validated_bbox page b = Inr b" by (simp add: validated_bbox_def b not_less not_le)
    then have "render_png (en_png e) page b RENDER_DPI = Inr (en_png e page b RENDER_DPI)"
      by (simp add: render_png_def RENDER_DPI_def)
    with True show ?thesis by (auto simp: render_crop_def crop_allowed_def b backend_call_def Let_def)
  next
    case False
    then show ?thesis by (auto simp: render_crop_def crop_allowed_def b Let_def not_le not_less)
  qed
qed

lemma bbox_norm_unit:
  assumes "inside_page page (ca_bbox c)" and "crop_allowed (ca_bbox c)"
  shows "\<exists>xs. bbox_norm c page = Inr xs \<and> length xs = 4 \<and> list_all (\<lambda>x. 0 \<le> x \<and> x \<le> 1) xs"
proof -
  obtain x0 y0 x1 y1 where b: "ca_bbox c = (x0, y0, x1, y1)" by (cases "ca_bbox c")
  have i: "0 \<le> x0" "0 \<le> y0" "x1 \<le> rp_width page" "y1 \<le> rp_height page" using assms(1) by (simp_all add: inside_page_def b)
  have lt: "x0 < x1" "y0 < y1" using assms(2) pixels_pos by (auto simp: crop_allowed_def b Let_def)
  then have "rp_width page \<noteq> 0" "rp_height page \<noteq> 0" using i by auto
  with i lt show ?thesis by (simp add: bbox_norm_def b Let_def unit_fraction)
qed

text \<open>
  Crops stay inside their page. A region that the scorer or the identity gate proposes lies inside a page of finite
  size, so the crop is either refused by the size limit before anything is rendered or rendered as requested, with
  its image within the limits: the backend never refuses the box. Its normalised coordinates are then defined and
  between 0 and 1.
\<close>

theorem crops_inside_page:
  assumes "float_page page" and "ca_bbox c = region_box kind page anchor \<or> ca_bbox c = package_box page found"
  shows "render_crop e page (ca_bbox c) = (if crop_allowed (ca_bbox c) then Inr (en_webp e (en_png e page (ca_bbox c) 220))
      else Inl (RetrievalError ''candidate crop exceeds render safety limit'')) \<and>
    (\<not> crop_allowed (ca_bbox c) \<or>
      (\<exists>xs. bbox_norm c page = Inr xs \<and> length xs = 4 \<and> list_all (\<lambda>x. 0 \<le> x \<and> x \<le> 1) xs))"
proof -
  have "inside_page page (ca_bbox c)" using assms region_box_inside package_box_inside by auto
  then show ?thesis using bbox_norm_unit by (auto simp: render_crop_inside RENDER_DPI_def)
qed

subsection \<open>Discovered identities\<close>

text \<open>
  A document names an identity when some line of some page has it: the words before the part number name the
  manufacturer, the words after it contain the package, and the hint agrees.
\<close>

definition named_on :: "unicode \<Rightarrow> identity_hint option \<Rightarrow> raw_page option list \<Rightarrow> nat \<Rightarrow> part_identity \<Rightarrow> bool" where
  "named_on u hint document i identity \<longleftrightarrow>
     (\<exists>page ls. load_page document i = Inr page \<and> page_lines page = Inr ls \<and>
        (\<exists>l \<in> set ls. \<exists>w < length (words l). token_identity u hint (page_text page) (words l) w = Some identity))"

definition named :: "unicode \<Rightarrow> identity_hint option \<Rightarrow> raw_page option list \<Rightarrow> nat \<Rightarrow> part_identity \<Rightarrow> bool" where
  "named u hint document n identity \<longleftrightarrow> (\<exists>i < n. named_on u hint document i identity)"

text \<open>
  The table after some pages: one entry for every key of a named identity, keyed by it, holding the last one.
\<close>

definition table_ok :: "unicode \<Rightarrow> (part_identity \<Rightarrow> bool) \<Rightarrow> (identity_triple \<times> part_identity) list \<Rightarrow> bool" where
  "table_ok u P found \<longleftrightarrow> distinct (map fst found) \<and> (\<forall>(k, i) \<in> set found. k = identity_key u i \<and> P i) \<and>
     (\<forall>i. P i \<longrightarrow> identity_key u i \<in> fst ` set found)"

lemma table_ok_update:
  assumes "table_ok u P found"
  shows "table_ok u (\<lambda>j. P j \<or> j = i) (AList.update (identity_key u i) i found)"
proof -
  have d: "distinct (map fst found)" using assms by (simp add: table_ok_def)
  have upd: "set (AList.update k i found) \<subseteq> insert (k, i) (set found)" for k
    by (induction found) auto
  show ?thesis
    using assms upd [of "identity_key u i"] distinct_update [OF d, of "identity_key u i" i] keys_update [of "identity_key u i" i found]
    unfolding table_ok_def by auto
qed

lemma table_ok_cong: "table_ok u P found \<Longrightarrow> (\<And>i. P i \<longleftrightarrow> Q i) \<Longrightarrow> table_ok u Q found"
  by (simp add: table_ok_def)

lemma discover_line_table:
  assumes "table_ok u P found"
  shows "table_ok u (\<lambda>i. P i \<or> (\<exists>w < length (words l). token_identity u hint raw (words l) w = Some i)) (discover_line u hint raw found l)"
proof -
  let ?body = "\<lambda>found i. case token_identity u hint raw (words l) i of
      None \<Rightarrow> found | Some identity \<Rightarrow> AList.update (identity_key u identity) identity found"
  have "table_ok u (\<lambda>i. P i \<or> (\<exists>w < n. token_identity u hint raw (words l) w = Some i)) (foldl ?body found [0..<n])" for n
  proof (induction n)
    case 0
    show ?case using assms by simp
  next
    case (Suc n)
    have suc: "(\<exists>w < Suc n. token_identity u hint raw (words l) w = Some i) \<longleftrightarrow>
        (\<exists>w < n. token_identity u hint raw (words l) w = Some i) \<or> token_identity u hint raw (words l) n = Some i" for i
      by (auto simp: less_Suc_eq)
    show ?case
    proof (cases "token_identity u hint raw (words l) n")
      case None
      with Suc show ?thesis by (simp add: suc)
    next
      case (Some j)
      from table_ok_update [OF Suc, of j] show ?thesis
        by (simp add: Some suc) (rule table_ok_cong, assumption, auto)
    qed
  qed
  then show ?thesis by (simp add: discover_line_def)
qed

lemma discover_lines_table:
  assumes "table_ok u P found"
  shows "table_ok u (\<lambda>i. P i \<or> (\<exists>l \<in> set ls. \<exists>w < length (words l). token_identity u hint raw (words l) w = Some i))
    (foldl (discover_line u hint raw) found ls)"
  using assms
proof (induction ls arbitrary: P found)
  case (Cons l ls)
  show ?case unfolding foldl.simps
    by (rule table_ok_cong [OF Cons.IH [OF discover_line_table [OF Cons.prems, where l = l and hint = hint and raw = raw]]]) auto
qed simp

interpretation discovery: counted_loop "discover_page u hint document" "\<lambda>n. table_ok u (named u hint document n)"
  for u hint document
proof (unfold_locales, goal_cases)
  case (1 n found found')
  from 1(2) obtain page ls where p: "load_page document n = Inr page" "page_lines page = Inr ls"
    and f: "found' = foldl (discover_line u hint (page_text page)) found ls"
    by (auto simp: discover_page_def backend_call_def split: sum.splits)
  have on_n: "named_on u hint document n i \<longleftrightarrow>
      (\<exists>l \<in> set ls. \<exists>w < length (words l). token_identity u hint (page_text page) (words l) w = Some i)" for i
    by (simp add: named_on_def p)
  have "named u hint document (Suc n) i \<longleftrightarrow> named u hint document n i \<or> named_on u hint document n i" for i
    by (auto simp: named_def less_Suc_eq)
  then show ?case unfolding f
    using table_ok_cong [OF discover_lines_table [OF 1(1)]] by (simp add: on_n)
qed

definition sole_identity :: "unicode \<Rightarrow> identity_hint option \<Rightarrow> raw_page option list \<Rightarrow> part_identity \<Rightarrow> bool" where
  "sole_identity u hint document identity \<longleftrightarrow> named u hint document (length document) identity \<and>
     (\<forall>j. named u hint document (length document) j \<longrightarrow> identity_key u j = identity_key u identity)"

definition ambiguous :: "unicode \<Rightarrow> identity_hint option \<Rightarrow> raw_page option list \<Rightarrow> part_identity list \<Rightarrow> bool" where
  "ambiguous u hint document found \<longleftrightarrow> 2 \<le> length found \<and> distinct (map (identity_key u) found) \<and>
     (\<forall>i \<in> set found. named u hint document (length document) i) \<and>
     (\<forall>j. named u hint document (length document) j \<longrightarrow> identity_key u j \<in> identity_key u ` set found)"

lemma discovered:
  assumes "discover_part_identities e payload hint = Inr found"
  shows "\<exists>document. open_pdf e payload = Inr document \<and> distinct (map (identity_key (en_unicode e)) found) \<and>
    (\<forall>i \<in> set found. named (en_unicode e) hint document (length document) i) \<and>
    (\<forall>j. named (en_unicode e) hint document (length document) j \<longrightarrow> identity_key (en_unicode e) j \<in> identity_key (en_unicode e) ` set found)"
proof -
  let ?u = "en_unicode e"
  from assms obtain document t where doc: "open_pdf e payload = Inr document"
    and run: "foldE (discover_page ?u hint document) [] [0..<length document] = Inr t" and found: "found = map snd t"
    by (auto simp: discover_part_identities_def)
  have "table_ok ?u (named ?u hint document 0) []" by (simp add: table_ok_def named_def)
  from discovery.loop_seen [OF run this] have t: "table_ok ?u (named ?u hint document (length document)) t" .
  then have keyed: "\<forall>x \<in> set t. fst x = identity_key ?u (snd x)" by (auto simp: table_ok_def)
  then have "map (identity_key ?u) found = map fst t" unfolding found map_map by (intro map_cong) simp_all
  moreover have "identity_key ?u ` set found = fst ` set t" using keyed by (force simp: found)
  moreover have "\<forall>i \<in> set found. named ?u hint document (length document) i" using t by (auto simp: table_ok_def found)
  ultimately show ?thesis using t doc unfolding table_ok_def by metis
qed

lemma foldE_Inl: "foldE f s xs = Inl x \<Longrightarrow> \<exists>s' y. y \<in> set xs \<and> f s' y = Inl x"
  by (induction xs arbitrary: s) (auto simp: bindE_eq_Inl, blast+)

lemma discover_not_ambiguous: "discover_part_identities e payload hint \<noteq> Inl (IdentityAmbiguous found)"
proof -
  have "discover_page u hint document t i \<noteq> Inl (IdentityAmbiguous found)" for u document t i
    by (auto simp: discover_page_def bindE_eq_Inl backend_call_def page_lines_def split: sum.splits if_splits)
  then show ?thesis
    by (auto simp: discover_part_identities_def bindE_eq_Inl payload_ok_def open_pdf_def page_count_ok_def
        split: sum.splits if_splits dest!: foldE_Inl)
qed

text \<open>
  Identities are grounded and never guessed. What \<open>resolve_identity\<close> returns is the caller's complete hint, or the
  only identity the document names, up to normalisation; several named identities are all reported, once each, for
  the caller to choose, and no other identity is named.
\<close>

theorem resolved_identity_grounded:
  "case resolve_identity e payload hint of
     Inr i \<Rightarrow> (\<exists>h. hint = Some h \<and> complete_hint h = Inr (Some i)) \<or>
       (\<exists>document. open_pdf e payload = Inr document \<and> sole_identity (en_unicode e) hint document i)
   | Inl (IdentityAmbiguous found) \<Rightarrow>
       \<exists>document. open_pdf e payload = Inr document \<and> ambiguous (en_unicode e) hint document found
   | Inl _ \<Rightarrow> True"
proof -
  consider (hint) h i where "hint = Some h" "complete_hint h = Inr (Some i)"
    | (bad) h x where "hint = Some h" "complete_hint h = Inl x"
    | (none) "(case hint of None \<Rightarrow> Inr None | Some h \<Rightarrow> complete_hint h) = Inr None"
    by (cases hint) (auto, metis not_None_eq old.sum.exhaust)
  then show ?thesis
  proof cases
    case hint
    then show ?thesis by (simp add: resolve_identity_def)
  next
    case bad
    then have "\<not> (\<exists>found. x = IdentityAmbiguous found)"
      by (auto simp: complete_hint_def Let_def validate_identity_def validate_field_def bindE_eq_Inl split: if_splits)
    with bad show ?thesis by (cases x) (auto simp: resolve_identity_def)
  next
    case none
    show ?thesis
    proof (cases "discover_part_identities e payload hint")
      case (Inl x)
      then have "\<not> (\<exists>found. x = IdentityAmbiguous found)" using discover_not_ambiguous by metis
      with none Inl show ?thesis by (cases x) (auto simp: resolve_identity_def)
    next
      case (Inr found)
      let ?named = "named (en_unicode e) hint" and ?key = "identity_key (en_unicode e)"
      from discovered [OF Inr] obtain document where d: "open_pdf e payload = Inr document" "distinct (map ?key found)"
        "\<forall>i \<in> set found. ?named document (length document) i"
        "\<forall>j. ?named document (length document) j \<longrightarrow> ?key j \<in> ?key ` set found"
        by blast
      consider (zero) "found = []" | (one) i where "found = [i]" | (more) i j rest where "found = i # j # rest"
        by (cases found rule: remdups_adj.cases) simp_all
      then show ?thesis
      proof cases
        case zero
        with none Inr show ?thesis by (simp add: resolve_identity_def)
      next
        case one
        then have "resolve_identity e payload hint = Inr i" using none Inr by (simp add: resolve_identity_def)
        moreover have "sole_identity (en_unicode e) hint document i"
          using d(3,4) unfolding sole_identity_def one list.set image_insert image_empty by blast
        ultimately show ?thesis using d(1) by auto
      next
        case more
        then have "resolve_identity e payload hint = Inl (IdentityAmbiguous found)" using none Inr by (simp add: resolve_identity_def)
        moreover have "ambiguous (en_unicode e) hint document found" using d(2-4) more unfolding ambiguous_def by auto
        ultimately show ?thesis using d(1) by simp
      qed
    qed
  qed
qed

subsection \<open>Matching\<close>

lemma mpn_split:
  assumes "needle \<noteq> []"
  shows "(\<exists>i. starts_with needle (drop i s) \<and> token_bounded s i (i + length needle)) \<longleftrightarrow>
   (\<exists>a b. s = a @ needle @ b \<and> \<not> (a \<noteq> [] \<and> py_alnum (last a)) \<and> \<not> (b \<noteq> [] \<and> py_alnum (hd b)))"
proof
  assume "\<exists>i. starts_with needle (drop i s) \<and> token_bounded s i (i + length needle)"
  then obtain i b where b: "drop i s = needle @ b" and t: "token_bounded s i (i + length needle)" by (auto simp: starts_with_iff)
  have s: "s = take i s @ needle @ b" by (metis append_take_drop_id b)
  have hd_b: "b \<noteq> [] \<Longrightarrow> char_at py_alnum s (i + length needle) = py_alnum (hd b)"
  proof -
    assume ne: "b \<noteq> []"
    have len: "length needle < length (drop i s)" using ne by (simp add: b)
    have "drop i s ! length needle = hd b" using ne by (simp add: b nth_append hd_conv_nth)
    moreover have "i + length needle < length s" using len by simp
    ultimately show ?thesis using len by (simp add: char_at_def)
  qed
  have last_a: "take i s \<noteq> [] \<Longrightarrow> i \<le> length s \<Longrightarrow> char_before py_alnum s i = py_alnum (last (take i s))"
    by (cases i) (auto simp: char_before_def take_Suc_conv_app_nth)
  show "\<exists>a b. s = a @ needle @ b \<and> \<not> (a \<noteq> [] \<and> py_alnum (last a)) \<and> \<not> (b \<noteq> [] \<and> py_alnum (hd b))"
  proof (cases "i \<le> length s")
    case True
    with s t hd_b last_a show ?thesis unfolding token_bounded_def by metis
  next
    case False
    with b assms show ?thesis by simp
  qed
next
  assume "\<exists>a b. s = a @ needle @ b \<and> \<not> (a \<noteq> [] \<and> py_alnum (last a)) \<and> \<not> (b \<noteq> [] \<and> py_alnum (hd b))"
  then obtain a b where ab: "s = a @ needle @ b" "\<not> (a \<noteq> [] \<and> py_alnum (last a))" "\<not> (b \<noteq> [] \<and> py_alnum (hd b))" by blast
  have "starts_with needle (drop (length a) s)" by (simp add: ab(1))
  moreover have "\<not> char_before py_alnum s (length a)"
    using ab(2) by (cases a rule: rev_cases) (auto simp: char_before_def ab(1) nth_append)
  moreover have "\<not> char_at py_alnum s (length a + length needle)"
    using ab(3) by (cases b) (auto simp: char_at_def ab(1) nth_append)
  ultimately show "\<exists>i. starts_with needle (drop i s) \<and> token_bounded s i (i + length needle)"
    unfolding token_bounded_def by blast
qed

text \<open>
  The search loop for a part number finds exactly the occurrences that stand alone: a non-empty normalised number
  occurs in the normalised text with no letter or digit directly before or after it.
\<close>

theorem part_number_match_exact:
  "contains_exact_mpn u text mpn \<longleftrightarrow> normalise_mpn u mpn \<noteq> [] \<and>
     (\<exists>a b. normalise_mpn u text = a @ normalise_mpn u mpn @ b \<and> \<not> (a \<noteq> [] \<and> py_alnum (last a)) \<and> \<not> (b \<noteq> [] \<and> py_alnum (hd b)))"
proof (cases "normalise_mpn u mpn = []")
  case False
  then show ?thesis by (simp add: contains_exact_mpn_def Let_def mpn_from_iff mpn_split [OF False])
qed (simp add: contains_exact_mpn_def)

lemma subseq_prefix_append: "subseq xs ys \<Longrightarrow> subseq xs (ys @ zs)"
  by (meson prefixI prefix_imp_subseq subseq_order.order_trans)

text \<open>
  Package tokens are matched in order within a window: the first token occurs, and the others follow in order among the
  next tokens, with at most \<open>extra\<close> other tokens in between. The loop's greedy matching misses no such occurrence.
\<close>

theorem package_tokens_match_exact:
  "contains_ordered_tokens u text phrase extra \<longleftrightarrow> words (normalise_phrase u phrase) \<noteq> [] \<and>
     (\<exists>before window after. words (normalise_phrase u text) = before @ hd (words (normalise_phrase u phrase)) # window @ after \<and>
        subseq (tl (words (normalise_phrase u phrase))) window \<and>
        length window < length (words (normalise_phrase u phrase)) + extra)"
proof -
  let ?h = "words (normalise_phrase u text)" and ?n = "words (normalise_phrase u phrase)"
  show ?thesis unfolding contains_ordered_tokens_def ordered_tokens_iff
  proof (intro conj_cong refl iffI)
    assume ne: "?n \<noteq> []"
    assume "\<exists>start < length ?h. ?h ! start = hd ?n \<and> subseq (tl ?n) (take (length ?n + extra - 1) (drop (start + 1) ?h))"
    then obtain k where k: "k < length ?h" "?h ! k = hd ?n" "subseq (tl ?n) (take (length ?n + extra - 1) (drop (k + 1) ?h))" by blast
    have "?h = take k ?h @ hd ?n # take (length ?n + extra - 1) (drop (k + 1) ?h) @ drop (length ?n + extra - 1) (drop (k + 1) ?h)"
      unfolding append_take_drop_id using id_take_nth_drop [OF k(1)] k(2) by simp
    moreover have "length (take (length ?n + extra - 1) (drop (k + 1) ?h)) < length ?n + extra" using ne by (cases ?n) auto
    ultimately show "\<exists>before window after. ?h = before @ hd ?n # window @ after \<and> subseq (tl ?n) window \<and> length window < length ?n + extra"
      using k(3) by blast
  next
    assume "\<exists>before window after. ?h = before @ hd ?n # window @ after \<and> subseq (tl ?n) window \<and> length window < length ?n + extra"
    then obtain before window after where w: "?h = before @ hd ?n # window @ after" "subseq (tl ?n) window"
      "length window < length ?n + extra" by blast
    have "take (length ?n + extra - 1) (window @ after) = window @ take (length ?n + extra - 1 - length window) after"
      using w(3) by simp
    then have "subseq (tl ?n) (take (length ?n + extra - 1) (window @ after))" 
      using w(2) subseq_prefix_append [OF w(2)] by simp
    moreover have "drop (length before + 1) ?h = window @ after" "length before < length ?h" "?h ! length before = hd ?n"
      unfolding w(1) by simp_all
    ultimately show "\<exists>start < length ?h. ?h ! start = hd ?n \<and> subseq (tl ?n) (take (length ?n + extra - 1) (drop (start + 1) ?h))"
      by metis
  qed
qed

end
