(* ===== verification/EvidenceCache.thy ===== *)
theory EvidenceCache
  imports Grounding ObjectStore
begin

section \<open>The evidence packs on disk\<close>

text \<open>
  \<open>_load_cached_bundle\<close> and \<open>retrieve_symbol_evidence\<close> of \<open>src/dsvire/pipeline.py\<close> over the files of
  \<open>ObjectStore\<close>: a pack is a directory with a manifest and three crops, built in a staging directory and renamed into
  place; a directory without files is not represented. The operating system decides for every step whether it completes (\<open>ok\<close>); an incomplete removal is taken to
  remove nothing. Whether the file lock is obtained in time and the random part of the staging name are inputs. The
  files of the lock, which its package keeps, are not part of the modelled files.
\<close>

datatype io_step = MakeRoot | MakeStaging | WriteCrop string | WriteManifest | MoveAside | RemoveCorrupt | RemoveAside
  | Publish | RemoveStaging

type_synonym 'a io = "filesystem \<Rightarrow> (retrieval_error + 'a) \<times> filesystem"

definition bind_io :: "'a io \<Rightarrow> ('a \<Rightarrow> 'b io) \<Rightarrow> 'b io" where
  "bind_io m f fs = (case m fs of (Inl x, fs') \<Rightarrow> (Inl x, fs') | (Inr a, fs') \<Rightarrow> f a fs')"

definition pure_io :: "retrieval_error + 'a \<Rightarrow> 'a io" where
  "pure_io r fs = (r, fs)"

definition step_io :: "(io_step \<Rightarrow> bool) \<Rightarrow> io_step \<Rightarrow> (filesystem \<Rightarrow> filesystem) \<Rightarrow> unit io" where
  "step_io ok s f fs = (if ok s then (Inr (), f fs) else (Inl PackOsError, fs))"

subsection \<open>Directories\<close>

definition beneath :: "path \<Rightarrow> path \<Rightarrow> bool" where
  "beneath d p \<longleftrightarrow> prefix d p"

definition remove_tree :: "path \<Rightarrow> filesystem \<Rightarrow> filesystem" where
  "remove_tree d fs = filter (\<lambda>(p, _). \<not> beneath d p) fs"

definition rename_tree :: "path \<Rightarrow> path \<Rightarrow> filesystem \<Rightarrow> filesystem" where
  "rename_tree a b fs = map (\<lambda>(p, c). (if beneath a p then b @ drop (length a) p else p, c)) fs"

definition path_exists :: "filesystem \<Rightarrow> path \<Rightarrow> bool" where
  "path_exists fs p \<longleftrightarrow> is_file fs p \<or> is_dir fs p"

text \<open>\<open>shutil.rmtree\<close> refuses a file, \<open>os.replace\<close> of a directory refuses a target with entries.\<close>

definition rmtree :: "(io_step \<Rightarrow> bool) \<Rightarrow> io_step \<Rightarrow> path \<Rightarrow> unit io" where
  "rmtree ok s d fs = (if is_file fs d then (Inl PackOsError, fs) else step_io ok s (remove_tree d) fs)"

definition replace_dir :: "(io_step \<Rightarrow> bool) \<Rightarrow> io_step \<Rightarrow> path \<Rightarrow> path \<Rightarrow> unit io" where
  "replace_dir ok s a b fs =
     (if path_exists fs b \<or> \<not> path_exists fs a then (Inl PackOsError, fs) else step_io ok s (rename_tree a b) fs)"

definition write_file :: "(io_step \<Rightarrow> bool) \<Rightarrow> io_step \<Rightarrow> path \<Rightarrow> bytes \<Rightarrow> unit io" where
  "write_file ok s p payload = step_io ok s (AList.update p payload)"

subsection \<open>The manifest\<close>

definition region_ids :: "(string \<times> string) list" where
  "region_ids = [(''pinout'', ''r_pinout_01''), (''table'', ''r_pin_table_01''), (''package'', ''r_package_01'')]"

definition expected_regions :: "(string \<times> string) list" where
  "expected_regions = [(''r_pinout_01'', ''pinout''), (''r_pin_table_01'', ''table''), (''r_package_01'', ''package'')]"

definition cached_crop_path :: "path \<Rightarrow> string \<Rightarrow> path" where
  "cached_crop_path dir region_id = dir @ [''crops'', region_id @ ''.webp'']"

definition manifest_path :: "path \<Rightarrow> path" where
  "manifest_path dir = dir @ [''evidence.json'']"

definition crop_uri :: "string \<Rightarrow> string \<Rightarrow> string" where
  "crop_uri pack_id region_id = ''dsvire://pack/'' @ pack_id @ ''/'' @ region_id @ ''.webp''"

definition content_hash :: "engine \<Rightarrow> bytes \<Rightarrow> string" where
  "content_hash e crop = ''sha256:'' @ en_sha e crop"

definition verification_json :: "json \<Rightarrow> json" where
  "verification_json score = JObj
     [(''method'', JStr ''text_layout_heuristic''), (''policy_version'', JStr REGION_POLICY_VERSION),
      (''outcome'', JStr ''accepted''), (''score'', score), (''score_semantics'', JStr ''heuristic_evidence_strength'')]"

definition identity_verification :: json where
  "identity_verification = JObj
     [(''method'', JStr ''exact_text_orderable_part''), (''policy_version'', JStr IDENTITY_POLICY_VERSION),
      (''outcome'', JStr ''accepted''), (''manufacturer_observed'', JBool True), (''exact_mpn_observed'', JBool True),
      (''package_associated'', JBool True), (''evidence_region_ids'', JArr [JStr ''r_package_01''])]"

definition region_json :: "engine \<Rightarrow> string \<Rightarrow> string \<Rightarrow> string \<Rightarrow> region_candidate \<Rightarrow> rat list \<Rightarrow> bytes \<Rightarrow> json" where
  "region_json e pack_id region_id kind c box crop = JObj
     [(''region_id'', JStr region_id), (''type'', JStr kind), (''page'', JInt (int (ca_page c) + 1)),
      (''bbox_norm'', JArr (map (\<lambda>x. JFloat (Flt x)) box)), (''crop_uri'', JStr (crop_uri pack_id region_id)),
      (''content_hash'', JStr (content_hash e crop)), (''verification'', verification_json (JFloat (Flt (ca_score c)))),
      (''caption'', JStr (ca_caption c))]"

definition bundle_json :: "engine \<Rightarrow> part_identity \<Rightarrow> string \<Rightarrow> json list \<Rightarrow> json" where
  "bundle_json e i digest regions = JObj
     [(''schema_version'', JStr EVIDENCE_SCHEMA_VERSION),
      (''datasheet'', JObj [(''id'', JStr (''ds_sha256_'' @ take 24 digest)), (''content_sha256'', JStr digest),
         (''manufacturer'', JStr (strip (di_manufacturer i))), (''mpn'', JStr (strip (di_mpn i))),
         (''package'', JStr (strip (di_package i)))]),
      (''identity_verification'', identity_verification),
      (''regions'', JArr regions),
      (''retrieval'', JObj [(''index_version'', JStr INDEX_VERSION), (''model_ids'', JArr (map JStr (MODEL_IDS e))),
         (''query_ids'', JArr [JStr ''q_pinout'', JStr ''q_pin_table'', JStr ''q_exact_identity_package''])])]"

definition manifest_bytes :: "engine \<Rightarrow> json \<Rightarrow> bytes" where
  "manifest_bytes e bundle' = utf8_encode (dumps_indent False (en_frepr e) 0 bundle' @ [newline_char])"

subsection \<open>Reading a pack\<close>

text \<open>\<open>value[key]\<close>, \<open>None\<close> for a \<open>KeyError\<close> or a \<open>TypeError\<close>; every exception makes the loader return \<open>None\<close>.\<close>

definition subscript :: "json \<Rightarrow> string \<Rightarrow> json option" where
  "subscript v k = (case v of JObj d \<Rightarrow> map_of d k | _ \<Rightarrow> None)"

definition at_path :: "json \<Rightarrow> string \<Rightarrow> string \<Rightarrow> json option" where
  "at_path v k l = Option.bind (subscript v k) (\<lambda>w. subscript w l)"

definition cached_header_ok :: "engine \<Rightarrow> part_identity \<Rightarrow> string \<Rightarrow> json \<Rightarrow> bool" where
  "cached_header_ok e i digest b \<longleftrightarrow>
     subscript b ''schema_version'' = Some (JStr EVIDENCE_SCHEMA_VERSION) \<and>
     at_path b ''datasheet'' ''content_sha256'' = Some (JStr digest) \<and>
     at_path b ''datasheet'' ''manufacturer'' = Some (JStr (strip (di_manufacturer i))) \<and>
     at_path b ''datasheet'' ''mpn'' = Some (JStr (strip (di_mpn i))) \<and>
     at_path b ''datasheet'' ''package'' = Some (JStr (strip (di_package i))) \<and>
     at_path b ''retrieval'' ''index_version'' = Some (JStr INDEX_VERSION) \<and>
     at_path b ''retrieval'' ''model_ids'' = Some (JArr (map JStr (MODEL_IDS e)))"

definition unit_number :: "json \<Rightarrow> bool" where
  "unit_number v = (case v of JInt i \<Rightarrow> 0 \<le> i \<and> i \<le> 1 | JFloat (Flt r) \<Rightarrow> 0 \<le> r \<and> r \<le> 1 | _ \<Rightarrow> False)"

definition verification_ok :: "json option \<Rightarrow> bool" where
  "verification_ok v = (case v of
     Some (JObj d) \<Rightarrow> py_eq (JObj d) (verification_json (field d ''score'')) \<and> unit_number (field d ''score'')
   | _ \<Rightarrow> False)"

definition cached_region_ok :: "engine \<Rightarrow> path \<Rightarrow> filesystem \<Rightarrow> string \<Rightarrow> string list \<Rightarrow> json \<Rightarrow> string list option" where
  "cached_region_ok e pack_dir fs pack_id seen region = (case region of
     JObj r \<Rightarrow> (case map_of r ''region_id'' of
       Some (JStr rid) \<Rightarrow> (case map_of expected_regions rid of
         None \<Rightarrow> None
       | Some kind \<Rightarrow>
           if map_of r ''type'' \<noteq> Some (JStr kind) \<or> rid \<in> set seen \<or> map_of r ''crop_uri'' \<noteq> Some (JStr (crop_uri pack_id rid))
           then None
           else if \<not> verification_ok (map_of r ''verification'') then None
           else case read_bytes fs (cached_crop_path pack_dir rid) of
             Inl _ \<Rightarrow> None
           | Inr crop \<Rightarrow> if map_of r ''content_hash'' = Some (JStr (content_hash e crop)) then Some (seen @ [rid]) else None)
     | _ \<Rightarrow> None)
   | _ \<Rightarrow> None)"

fun regions_ok :: "engine \<Rightarrow> path \<Rightarrow> filesystem \<Rightarrow> string \<Rightarrow> string list \<Rightarrow> json list \<Rightarrow> string list option" where
  "regions_ok e pack_dir fs pack_id seen [] = Some seen"
| "regions_ok e pack_dir fs pack_id seen (r # rs) =
     Option.bind (cached_region_ok e pack_dir fs pack_id seen r) (\<lambda>seen'. regions_ok e pack_dir fs pack_id seen' rs)"

definition cached_bundle_ok :: "engine \<Rightarrow> path \<Rightarrow> string \<Rightarrow> filesystem \<Rightarrow> part_identity \<Rightarrow> string \<Rightarrow> json \<Rightarrow> bool" where
  "cached_bundle_ok e pack_dir pack_id fs i digest b \<longleftrightarrow> cached_header_ok e i digest b \<and>
     (case subscript b ''regions'' of
        Some (JArr regions) \<Rightarrow> length regions = 3 \<and>
          (case subscript b ''identity_verification'' of Some v \<Rightarrow> py_eq v identity_verification | None \<Rightarrow> False) \<and>
          (case regions_ok e pack_dir fs pack_id [] regions of
             Some seen \<Rightarrow> set seen = set (map fst expected_regions)
           | None \<Rightarrow> False)
      | _ \<Rightarrow> False)"

definition load_cached_bundle :: "engine \<Rightarrow> path \<Rightarrow> string \<Rightarrow> filesystem \<Rightarrow> part_identity \<Rightarrow> string \<Rightarrow> json option" where
  "load_cached_bundle e pack_dir pack_id fs i digest =
     (case read_bytes fs (manifest_path pack_dir) of
        Inl _ \<Rightarrow> None
      | Inr text \<Rightarrow> (case en_decode e text of
          None \<Rightarrow> None
        | Some b \<Rightarrow> if cached_bundle_ok e pack_dir pack_id fs i digest b then Some b else None))"

subsection \<open>Building a pack\<close>

definition write_region :: "engine \<Rightarrow> (io_step \<Rightarrow> bool) \<Rightarrow> raw_page option list \<Rightarrow> string \<Rightarrow> path \<Rightarrow> string \<times> region_candidate \<Rightarrow> json io" where
  "write_region e ok document pack_id staging item = (case item of (kind, c) \<Rightarrow>
     bind_io (pure_io (backend_call (load_page document (ca_page c)))) (\<lambda>page.
     bind_io (pure_io (render_crop e page (ca_bbox c))) (\<lambda>crop.
     let region_id = the (map_of region_ids kind) in
     bind_io (write_file ok (WriteCrop kind) (cached_crop_path staging region_id) crop) (\<lambda>_.
     bind_io (pure_io (bbox_norm c page)) (\<lambda>box.
     pure_io (Inr (region_json e pack_id region_id kind c box crop)))))))"

fun write_regions :: "engine \<Rightarrow> (io_step \<Rightarrow> bool) \<Rightarrow> raw_page option list \<Rightarrow> string \<Rightarrow> path \<Rightarrow> (string \<times> region_candidate) list \<Rightarrow>
    json list io" where
  "write_regions e ok document pack_id staging [] = pure_io (Inr [])"
| "write_regions e ok document pack_id staging (item # items) =
     bind_io (write_region e ok document pack_id staging item) (\<lambda>r.
     bind_io (write_regions e ok document pack_id staging items) (\<lambda>rs. pure_io (Inr (r # rs))))"

text \<open>The three candidates in the order of their regions.\<close>

definition chosen_candidates :: "engine \<Rightarrow> raw_page option list \<Rightarrow> part_identity \<Rightarrow> retrieval_error + candidates" where
  "chosen_candidates e document i =
     bindE (best_candidates (en_unicode e) document) (\<lambda>best.
     bindE (identity_package_candidate (en_unicode e) document i) (\<lambda>package.
       Inr [(''pinout'', the (map_of best ''pinout'')), (''table'', the (map_of best ''table'')), (''package'', package)]))"

definition set_aside :: "(io_step \<Rightarrow> bool) \<Rightarrow> path \<Rightarrow> path \<Rightarrow> unit io" where
  "set_aside ok pack_dir corrupt fs =
     (if \<not> path_exists fs pack_dir then pure_io (Inr ()) fs
      else bind_io (\<lambda>fs. if path_exists fs corrupt then rmtree ok RemoveCorrupt corrupt fs else pure_io (Inr ()) fs) (\<lambda>_.
           bind_io (replace_dir ok MoveAside pack_dir corrupt) (\<lambda>_.
           rmtree ok RemoveAside corrupt)) fs)"

text \<open>The bundle with its files in the staging directory, and its publication.\<close>

definition prepare_pack :: "engine \<Rightarrow> (io_step \<Rightarrow> bool) \<Rightarrow> bytes \<Rightarrow> part_identity \<Rightarrow> string \<Rightarrow> string \<Rightarrow> path \<Rightarrow> json io" where
  "prepare_pack e ok payload i digest pack_id staging =
     bind_io (pure_io (open_pdf e payload)) (\<lambda>document.
     bind_io (pure_io (chosen_candidates e document i)) (\<lambda>chosen.
     bind_io (write_regions e ok document pack_id staging chosen) (\<lambda>regions.
     let b = bundle_json e i digest regions in
     bind_io (write_file ok WriteManifest (manifest_path staging) (manifest_bytes e b)) (\<lambda>_. pure_io (Inr b)))))"

definition build_pack :: "engine \<Rightarrow> (io_step \<Rightarrow> bool) \<Rightarrow> bytes \<Rightarrow> part_identity \<Rightarrow> string \<Rightarrow> string \<Rightarrow> path \<Rightarrow> path \<Rightarrow> path \<Rightarrow> json io" where
  "build_pack e ok payload i digest pack_id staging pack_dir corrupt =
     bind_io (prepare_pack e ok payload i digest pack_id staging) (\<lambda>b.
     bind_io (set_aside ok pack_dir corrupt) (\<lambda>_.
     bind_io (replace_dir ok Publish staging pack_dir) (\<lambda>_. pure_io (Inr b))))"

text \<open>The \<open>finally\<close> clause: a staging directory that still exists is removed; a failure there replaces the outcome.\<close>

definition clean_staging :: "(io_step \<Rightarrow> bool) \<Rightarrow> path \<Rightarrow> (retrieval_error + json) \<times> filesystem \<Rightarrow> (retrieval_error + json) \<times> filesystem" where
  "clean_staging ok staging outcome = (case outcome of (r, fs) \<Rightarrow>
     if path_exists fs staging
     then (case rmtree ok RemoveStaging staging fs of (Inl x, fs') \<Rightarrow> (Inl x, fs') | (Inr _, fs') \<Rightarrow> (r, fs'))
     else (r, fs))"

definition retrieve_symbol_evidence :: "engine \<Rightarrow> (io_step \<Rightarrow> bool) \<Rightarrow> bool \<Rightarrow> string \<Rightarrow> bytes \<Rightarrow> part_identity \<Rightarrow> path \<Rightarrow> json io" where
  "retrieve_symbol_evidence e ok lock_free tag payload i output_root fs =
     (case bindE (validate_identity i) (\<lambda>_. payload_ok payload) of
        Inl x \<Rightarrow> (Inl x, fs)
      | Inr _ \<Rightarrow>
          (let digest = en_sha e payload; pack_id = artifact_id e digest i;
               pack_dir = output_root @ [pack_id]; staging = output_root @ [''.'' @ pack_id @ ''-'' @ tag];
               corrupt = output_root @ [''.'' @ pack_id @ ''.corrupt'']
           in if \<not> ok MakeRoot then (Inl PackOsError, fs)
              else if \<not> lock_free then (Inl (RetrievalError ''evidence pack is busy; retry the request''), fs)
              else case load_cached_bundle e pack_dir pack_id fs i digest of
                Some b \<Rightarrow> (Inr b, fs)
              | None \<Rightarrow>
                  if \<not> ok MakeStaging then (Inl PackOsError, fs)
                  else clean_staging ok staging (build_pack e ok payload i digest pack_id staging pack_dir corrupt fs)))"

subsection \<open>What a step touches\<close>

text \<open>Two file systems agree outside some directories; an operation touches only some directories.\<close>

definition same_outside :: "path list \<Rightarrow> filesystem \<Rightarrow> filesystem \<Rightarrow> bool" where
  "same_outside ds fs fs' \<longleftrightarrow> (\<forall>p. (\<forall>d \<in> set ds. \<not> beneath d p) \<longrightarrow> map_of fs' p = map_of fs p)"

definition touches :: "path list \<Rightarrow> 'a io \<Rightarrow> bool" where
  "touches ds m \<longleftrightarrow> (\<forall>fs. same_outside ds fs (snd (m fs)))"

named_theorems touching

lemma same_outside_refl [simp]: "same_outside ds fs fs"
  by (simp add: same_outside_def)

lemma same_outside_trans: "same_outside ds fs gs \<Longrightarrow> same_outside ds gs hs \<Longrightarrow> same_outside ds fs hs"
  by (simp add: same_outside_def)

lemma same_outside_mono: "same_outside ds fs gs \<Longrightarrow> set ds \<subseteq> set es \<Longrightarrow> same_outside es fs gs"
  by (auto simp: same_outside_def)

lemma touches_mono: "touches ds m \<Longrightarrow> set ds \<subseteq> set es \<Longrightarrow> touches es m"
  unfolding touches_def by (blast intro: same_outside_mono)

lemma same_outside_coarser:
  "same_outside ds fs gs \<Longrightarrow> (\<And>d. d \<in> set ds \<Longrightarrow> \<exists>c \<in> set es. beneath c d) \<Longrightarrow> same_outside es fs gs"
  unfolding same_outside_def beneath_def by (meson prefix_order.trans)

lemma touchesD: "touches ds m \<Longrightarrow> m fs = (r, fs') \<Longrightarrow> same_outside ds fs fs'"
  unfolding touches_def by (metis snd_conv)

lemma touches_pure [touching]: "touches ds (pure_io r)"
  by (simp add: touches_def pure_io_def)

lemma touches_bind [touching]:
  assumes "touches ds m" and "\<And>a. touches ds (f a)"
  shows "touches ds (bind_io m f)"
  unfolding touches_def
proof
  fix fs
  obtain r gs where m: "m fs = (r, gs)" by (cases "m fs")
  have 1: "same_outside ds fs gs" using touchesD [OF assms(1) m] .
  have "same_outside ds gs (snd (f a gs))" for a using assms(2) by (simp add: touches_def)
  with 1 show "same_outside ds fs (snd (bind_io m f fs))"
    by (auto simp: bind_io_def m split: sum.split intro: same_outside_trans)
qed

lemma touches_if [touching]: "touches ds m \<Longrightarrow> touches ds m' \<Longrightarrow> touches ds (\<lambda>fs. if P fs then m fs else m' fs)"
  by (simp add: touches_def)

lemma lookup_remove_tree: "map_of (remove_tree d fs) p = (if beneath d p then None else map_of fs p)"
  by (induction fs) (auto simp: remove_tree_def)

lemma path_exists_iff: "path_exists fs p \<longleftrightarrow> (\<exists>q. beneath p q \<and> map_of fs q \<noteq> None)"
proof -
  have "path_exists fs p \<longleftrightarrow> (\<exists>q \<in> set (map fst fs). beneath p q)"
    by (auto simp: path_exists_def is_file_def is_dir_def list_ex_iff beneath_def strict_prefix_def)
  moreover have "q \<in> set (map fst fs) \<longleftrightarrow> map_of fs q \<noteq> None" for q using map_of_eq_None_iff [of fs q] by simp
  ultimately show ?thesis by blast
qed

lemma touches_write [touching]: "beneath d p \<Longrightarrow> touches [d] (write_file ok s p payload)"
  by (auto simp: touches_def write_file_def step_io_def same_outside_def update_conv')

lemma touches_rmtree [touching]: "d \<in> set ds \<Longrightarrow> touches ds (rmtree ok s d)"
  by (auto simp: touches_def rmtree_def step_io_def same_outside_def lookup_remove_tree)

lemma lookup_rename_outside:
  "\<not> beneath a p \<Longrightarrow> \<not> beneath b p \<Longrightarrow> map_of (rename_tree a b fs) p = map_of fs p"
  by (induction fs) (auto simp: rename_tree_def beneath_def)

lemma touches_replace [touching]: "a \<in> set ds \<Longrightarrow> b \<in> set ds \<Longrightarrow> touches ds (replace_dir ok s a b)"
  by (auto simp: touches_def replace_dir_def step_io_def same_outside_def lookup_rename_outside)

lemma lookup_rename:
  assumes "\<not> path_exists fs b"
  shows "map_of (rename_tree a b fs) (b @ s) = map_of fs (a @ s)"
proof -
  have "\<not> beneath b q" if "(q, c) \<in> set fs" for q c
    using assms that unfolding path_exists_iff by (metis not_None_eq weak_map_of_SomeI)
  then show ?thesis
  proof (induction fs)
    case (Cons x fs)
    obtain q c where x: "x = (q, c)" by (cases x)
    then have q: "\<not> beneath b q" using Cons.prems [of q c] by simp
    have IH: "map_of (rename_tree a b fs) (b @ s) = map_of fs (a @ s)" using Cons by (meson list.set_intros(2))
    have "(if beneath a q then b @ drop (length a) q else q) = b @ s \<longleftrightarrow> q = a @ s"
      using q by (auto simp: beneath_def prefix_def)
    moreover have "map_of (rename_tree a b (x # fs)) (b @ s) =
        (if (if beneath a q then b @ drop (length a) q else q) = b @ s then Some c else map_of (rename_tree a b fs) (b @ s))"
      by (auto simp: rename_tree_def x)
    ultimately show ?case using IH by (auto simp: x)
  qed (simp add: rename_tree_def)
qed

lemma rename_source_gone: "\<not> (beneath a p \<and> beneath b p) \<Longrightarrow> beneath a p \<Longrightarrow> map_of (rename_tree a b fs) p = None"
proof (induction fs)
  case (Cons x fs)
  obtain q c where x: "x = (q, c)" by (cases x)
  have "(if beneath a q then b @ drop (length a) q else q) \<noteq> p"
    using Cons.prems by (auto simp: beneath_def)
  with Cons x show ?case by (simp add: rename_tree_def split del: if_split)
qed (simp add: rename_tree_def)

subsection \<open>The directories of one pack\<close>

text \<open>The directories of a pack: siblings with different names, so nothing is beneath two of them.\<close>

definition siblings :: "path \<Rightarrow> path \<Rightarrow> bool" where
  "siblings a b \<longleftrightarrow> (\<forall>p. \<not> (beneath a p \<and> beneath b p))"

lemma siblings_sym: "siblings a b \<Longrightarrow> siblings b a"
  by (auto simp: siblings_def)

lemma sibling_names: "x \<noteq> y \<Longrightarrow> siblings (r @ [x]) (r @ [y])"
  by (auto simp: siblings_def beneath_def prefix_def)

lemma siblings_same:
  "siblings a b \<Longrightarrow> same_outside [b] fs gs \<Longrightarrow> beneath a p \<Longrightarrow> map_of gs p = map_of fs p"
  by (auto simp: siblings_def same_outside_def)

lemma siblings_exists: "siblings a b \<Longrightarrow> same_outside [b] fs gs \<Longrightarrow> path_exists gs a \<longleftrightarrow> path_exists fs a"
  unfolding path_exists_iff using siblings_same by metis

lemma beneath_refl [simp]: "beneath d d" "beneath d (cached_crop_path d rid)" "beneath d (manifest_path d)"
  by (simp_all add: beneath_def cached_crop_path_def manifest_path_def)

text \<open>Building writes below the staging directory: its crops and its manifest, never the directory itself.\<close>

definition staged :: "path \<Rightarrow> path list" where
  "staged d = [d @ [''crops''], manifest_path d]"

lemma touches_write_regions [touching]: "touches (staged staging) (write_regions e ok document pack_id staging items)"
proof (induction items)
  case (Cons item items)
  have "touches [staging @ [''crops'']] (write_region e ok document pack_id staging item)"
    unfolding write_region_def Let_def
    by (auto split: prod.split intro!: touching simp: beneath_def cached_crop_path_def)
  then have "touches (staged staging) (write_region e ok document pack_id staging item)"
    by (rule touches_mono) (simp add: staged_def)
  with Cons show ?case by (auto intro!: touching)
qed (simp add: touches_pure)

lemma touches_prepare: "touches (staged staging) (prepare_pack e ok payload i digest pack_id staging)"
  unfolding prepare_pack_def Let_def
  by (intro touching touches_mono [OF touches_write [of "manifest_path staging"]]) (simp_all add: staged_def)

lemma prepare_outside:
  assumes "prepare_pack e ok payload i digest pack_id staging fs = (x, gs)"
  shows "same_outside [staging] fs gs" and "map_of gs staging = map_of fs staging"
proof -
  have o: "same_outside (staged staging) fs gs" using touchesD [OF touches_prepare assms] .
  then show "same_outside [staging] fs gs"
    by (rule same_outside_coarser) (auto simp: staged_def beneath_def manifest_path_def)
  show "map_of gs staging = map_of fs staging"
    using o by (simp add: same_outside_def staged_def beneath_def manifest_path_def)
qed

lemma touches_prepare_staging: "touches [staging] (prepare_pack e ok payload i digest pack_id staging)"
  unfolding touches_def by (metis prepare_outside(1) prod.collapse)

lemma touches_set_aside [touching]: "touches [pack_dir, corrupt] (set_aside ok pack_dir corrupt)"
  unfolding set_aside_def by (intro touching) simp_all

lemma touches_build: "touches [staging, pack_dir, corrupt] (build_pack e ok payload i digest pack_id staging pack_dir corrupt)"
  unfolding build_pack_def
  by (intro touching touches_mono [OF touches_prepare_staging] touches_mono [OF touches_set_aside]) simp_all

text \<open>The directories of a request.\<close>

definition request_id :: "engine \<Rightarrow> bytes \<Rightarrow> part_identity \<Rightarrow> string" where
  "request_id e payload i = artifact_id e (en_sha e payload) i"

definition pack_path :: "engine \<Rightarrow> bytes \<Rightarrow> part_identity \<Rightarrow> path \<Rightarrow> path" where
  "pack_path e payload i output_root = output_root @ [request_id e payload i]"

definition staging_path :: "engine \<Rightarrow> string \<Rightarrow> bytes \<Rightarrow> part_identity \<Rightarrow> path \<Rightarrow> path" where
  "staging_path e tag payload i output_root = output_root @ [''.'' @ request_id e payload i @ ''-'' @ tag]"

definition corrupt_path :: "engine \<Rightarrow> bytes \<Rightarrow> part_identity \<Rightarrow> path \<Rightarrow> path" where
  "corrupt_path e payload i output_root = output_root @ [''.'' @ request_id e payload i @ ''.corrupt'']"

lemma request_siblings:
  "siblings (staging_path e tag payload i r) (pack_path e payload i r)"
  "siblings (staging_path e tag payload i r) (corrupt_path e payload i r)"
  "siblings (pack_path e payload i r) (corrupt_path e payload i r)"
  unfolding staging_path_def pack_path_def corrupt_path_def
  by (rule sibling_names; auto dest: arg_cong [where f = length])+

text \<open>The request after its validation, the lock and a cache miss.\<close>

lemma retrieve_cases:
  obtains (refused) x where "retrieve_symbol_evidence e ok lock_free tag payload i r fs = (Inl x, fs)"
  | (cached) b where "load_cached_bundle e (pack_path e payload i r) (request_id e payload i) fs i (en_sha e payload) = Some b"
      "retrieve_symbol_evidence e ok lock_free tag payload i r fs = (Inr b, fs)"
  | (built) "load_cached_bundle e (pack_path e payload i r) (request_id e payload i) fs i (en_sha e payload) = None"
      "retrieve_symbol_evidence e ok lock_free tag payload i r fs =
        clean_staging ok (staging_path e tag payload i r) (build_pack e ok payload i (en_sha e payload) (request_id e payload i)
          (staging_path e tag payload i r) (pack_path e payload i r) (corrupt_path e payload i r) fs)"
proof -
  let ?valid = "bindE (validate_identity i) (\<lambda>_. payload_ok payload)"
  let ?load = "load_cached_bundle e (pack_path e payload i r) (request_id e payload i) fs i (en_sha e payload)"
  show ?thesis
  proof (cases "isl ?valid \<or> \<not> ok MakeRoot \<or> \<not> lock_free \<or> (?load = None \<and> \<not> ok MakeStaging)")
    case True
    then have "\<exists>x. retrieve_symbol_evidence e ok lock_free tag payload i r fs = (Inl x, fs)"
      by (cases ?valid) (auto simp: retrieve_symbol_evidence_def Let_def pack_path_def request_id_def split: option.split)
    then show ?thesis using refused by blast
  next
    case False
    then obtain u where "?valid = Inr u" by (cases ?valid) auto
    with False cached built show ?thesis
      by (cases ?load) (simp_all add: retrieve_symbol_evidence_def Let_def pack_path_def staging_path_def corrupt_path_def request_id_def)
  qed
qed

lemma clean_staging_outside:
  "clean_staging ok d (x, fs) = (x', fs') \<Longrightarrow> same_outside [d] fs fs'"
  using touches_rmtree [of d "[d]" ok RemoveStaging]
  by (auto simp: clean_staging_def touches_def split: if_splits prod.splits sum.splits) (metis snd_conv)+

text \<open>
  Packs are isolated on disk. Whatever a request does and whatever the operating system refuses, every file outside
  the request's own pack, its staging directory and its set-aside directory is as before.
\<close>

theorem retrieval_touches_only_its_pack:
  "same_outside [staging_path e tag payload i r, pack_path e payload i r, corrupt_path e payload i r] fs
     (snd (retrieve_symbol_evidence e ok lock_free tag payload i r fs))"
proof (cases rule: retrieve_cases [of e ok lock_free tag payload i r fs])
  case built
  let ?s = "staging_path e tag payload i r"
  obtain x gs where b: "build_pack e ok payload i (en_sha e payload) (request_id e payload i) ?s (pack_path e payload i r)
      (corrupt_path e payload i r) fs = (x, gs)" by fastforce
  obtain x' hs where c: "clean_staging ok ?s (x, gs) = (x', hs)" by fastforce
  have "same_outside [?s, pack_path e payload i r, corrupt_path e payload i r] gs hs"
    using clean_staging_outside [OF c] by (rule same_outside_mono) simp
  with touchesD [OF touches_build b] show ?thesis unfolding built(2) b c by (auto intro: same_outside_trans)
qed simp_all

text \<open>A failed request: what its building may have left, before and after the clean-up.\<close>

lemma failed_build:
  assumes "build_pack e ok payload i digest pack_id staging pack_dir corrupt fs = (Inl x, gs)"
    and "siblings staging pack_dir"
    and "\<not> path_exists fs pack_dir"
  shows "same_outside [staging] fs gs \<and> map_of gs staging = map_of fs staging"
proof -
  obtain y hs where p: "prepare_pack e ok payload i digest pack_id staging fs = (y, hs)" by fastforce
  note out = prepare_outside [OF p]
  have "\<not> path_exists hs pack_dir" using siblings_exists [OF siblings_sym [OF assms(2)] out(1)] assms(3) by simp
  then have "set_aside ok pack_dir corrupt hs = (Inr (), hs)" by (simp add: set_aside_def pure_io_def)
  with assms(1) have "gs = hs"
    by (auto simp: build_pack_def bind_io_def p pure_io_def replace_dir_def step_io_def split: sum.splits if_splits)
  with out show ?thesis by simp
qed

subsection \<open>What a pack contains\<close>

text \<open>
  A region of the bundle is the rendered crop of its candidate; a pack holds the three crops and the manifest of a
  bundle whose candidates are accepted.
\<close>

type_synonym candidate_crop = "region_candidate \<times> bytes"

definition region_of :: "engine \<Rightarrow> raw_page option list \<Rightarrow> string \<Rightarrow> string \<times> candidate_crop \<Rightarrow> json \<Rightarrow> bool" where
  "region_of e document pack_id item r \<longleftrightarrow> (case item of (kind, c, crop) \<Rightarrow>
     \<exists>page box. load_page document (ca_page c) = Inr page \<and> render_crop e page (ca_bbox c) = Inr crop \<and>
       bbox_norm c page = Inr box \<and> r = region_json e pack_id (the (map_of region_ids kind)) kind c box crop)"

definition accepted_candidates :: "engine \<Rightarrow> raw_page option list \<Rightarrow> part_identity \<Rightarrow> candidate_crop list \<Rightarrow> bool" where
  "accepted_candidates e document i cs \<longleftrightarrow> (case cs of
     [(c1, _), (c2, _), (c3, _)] \<Rightarrow>
       (\<exists>best. best_before (en_unicode e) document (length document) best \<and>
          map_of best ''pinout'' = Some c1 \<and> map_of best ''table'' = Some c2) \<and> ca_verified c1 \<and> ca_verified c2 \<and>
       grounded (en_unicode e) document i \<and> evidence_for (en_unicode e) document i c3
   | _ \<Rightarrow> False)"

definition holds_crops :: "path \<Rightarrow> filesystem \<Rightarrow> candidate_crop list \<Rightarrow> bool" where
  "holds_crops dir fs cs \<longleftrightarrow>
     list_all2 (\<lambda>(_, rid) (_, crop). map_of fs (cached_crop_path dir rid) = Some crop) region_ids cs"

definition evidence_pack :: "engine \<Rightarrow> bytes \<Rightarrow> part_identity \<Rightarrow> string \<Rightarrow> path \<Rightarrow> filesystem \<Rightarrow> json \<Rightarrow> bool" where
  "evidence_pack e payload i pack_id dir fs b \<longleftrightarrow>
     (\<exists>document cs regions. open_pdf e payload = Inr document \<and> accepted_candidates e document i cs \<and>
        list_all2 (region_of e document pack_id) (zip (map fst region_ids) cs) regions \<and>
        b = bundle_json e i (en_sha e payload) regions \<and> holds_crops dir fs cs \<and>
        map_of fs (manifest_path dir) = Some (manifest_bytes e b))"

lemma bind_io_Inr: "bind_io m f fs = (Inr y, gs) \<longleftrightarrow> (\<exists>a hs. m fs = (Inr a, hs) \<and> f a hs = (Inr y, gs))"
  by (auto simp: bind_io_def split: prod.splits sum.splits)

lemma pure_io_Inr: "pure_io r fs = (Inr y, gs) \<longleftrightarrow> r = Inr y \<and> gs = fs"
  by (auto simp: pure_io_def)

lemma write_file_Inr: "write_file ok s p c fs = (Inr y, gs) \<longleftrightarrow> ok s \<and> gs = AList.update p c fs"
  by (auto simp: write_file_def step_io_def)

lemmas io_Inr = bind_io_Inr pure_io_Inr write_file_Inr

lemma write_region_Inr:
  assumes "write_region e ok document pack_id staging (kind, c) fs = (Inr r, gs)"
  shows "\<exists>crop. region_of e document pack_id (kind, c, crop) r \<and>
    gs = AList.update (cached_crop_path staging (the (map_of region_ids kind))) crop fs"
proof -
  from assms obtain page crop box where "load_page document (ca_page c) = Inr page" "render_crop e page (ca_bbox c) = Inr crop"
    "bbox_norm c page = Inr box" "r = region_json e pack_id (the (map_of region_ids kind)) kind c box crop"
    "gs = AList.update (cached_crop_path staging (the (map_of region_ids kind))) crop fs"
    by (auto simp: write_region_def Let_def io_Inr backend_call_def split: sum.splits)
  then show ?thesis by (auto simp: region_of_def)
qed

lemma region_kinds_ids:
  "map_of region_ids ''pinout'' = Some ''r_pinout_01''" "map_of region_ids ''table'' = Some ''r_pin_table_01''"
  "map_of region_ids ''package'' = Some ''r_package_01''"
  by (simp_all add: region_ids_def)

lemma prepared_pack:
  assumes "prepare_pack e ok payload i (en_sha e payload) pack_id staging fs = (Inr b, gs)"
  shows "evidence_pack e payload i pack_id staging gs b"
proof -
  from assms obtain document chosen regions hs where doc: "open_pdf e payload = Inr document"
    and chosen: "chosen_candidates e document i = Inr chosen"
    and rs: "write_regions e ok document pack_id staging chosen fs = (Inr regions, hs)"
    and b: "b = bundle_json e i (en_sha e payload) regions"
    and gs: "gs = AList.update (manifest_path staging) (manifest_bytes e b) hs"
    by (auto simp: prepare_pack_def Let_def io_Inr)
  from chosen obtain best c3 where best: "best_candidates (en_unicode e) document = Inr best"
    and c3: "identity_package_candidate (en_unicode e) document i = Inr c3"
    and ch: "chosen = [(''pinout'', the (map_of best ''pinout'')), (''table'', the (map_of best ''table'')), (''package'', c3)]"
    by (auto simp: chosen_candidates_def)
  from best_candidates_best [OF best] obtain c1 c2 where c: "map_of best ''pinout'' = Some c1" "map_of best ''table'' = Some c2"
    "ca_verified c1" "ca_verified c2" "best_before (en_unicode e) document (length document) best"
    by (auto simp: region_kinds_def)
  from rs obtain r1 r2 r3 f1 f2 where regions: "regions = [r1, r2, r3]"
    and w: "write_region e ok document pack_id staging (''pinout'', c1) fs = (Inr r1, f1)"
      "write_region e ok document pack_id staging (''table'', c2) f1 = (Inr r2, f2)"
      "write_region e ok document pack_id staging (''package'', c3) f2 = (Inr r3, hs)"
    unfolding ch by (auto simp: io_Inr c)
  from w [THEN write_region_Inr] obtain k1 k2 k3 where
    r: "region_of e document pack_id (''pinout'', c1, k1) r1" "region_of e document pack_id (''table'', c2, k2) r2"
      "region_of e document pack_id (''package'', c3, k3) r3"
    and f: "f1 = AList.update (cached_crop_path staging ''r_pinout_01'') k1 fs"
      "f2 = AList.update (cached_crop_path staging ''r_pin_table_01'') k2 f1"
      "hs = AList.update (cached_crop_path staging ''r_package_01'') k3 f2"
    by (auto simp: region_kinds_ids)
  let ?cs = "[(c1, k1), (c2, k2), (c3, k3)]"
  have "accepted_candidates e document i ?cs"
    using c identity_package_candidate_scan [OF c3] by (auto simp: accepted_candidates_def)
  moreover have "list_all2 (region_of e document pack_id) (zip (map fst region_ids) ?cs) regions"
    using r by (simp add: regions region_ids_def)
  moreover have "holds_crops staging gs ?cs" "map_of gs (manifest_path staging) = Some (manifest_bytes e b)"
    by (simp_all add: holds_crops_def region_ids_def gs f update_conv' cached_crop_path_def manifest_path_def)
  ultimately show ?thesis using doc b unfolding evidence_pack_def by blast
qed

text \<open>Setting an old pack aside keeps the staging directory, and publishing renames it with its contents.\<close>

lemma published_pack:
  assumes "build_pack e ok payload i (en_sha e payload) pack_id staging pack_dir corrupt fs = (Inr b, gs)"
    and "siblings staging pack_dir" and "siblings staging corrupt"
  shows "evidence_pack e payload i pack_id pack_dir gs b \<and> \<not> path_exists gs staging"
proof -
  from assms(1) obtain f1 f2 where prep: "prepare_pack e ok payload i (en_sha e payload) pack_id staging fs = (Inr b, f1)"
    and aside: "set_aside ok pack_dir corrupt f1 = (Inr (), f2)"
    and pub: "replace_dir ok Publish staging pack_dir f2 = (Inr (), gs)"
    by (auto simp: build_pack_def io_Inr)
  from pub have fresh: "\<not> path_exists f2 pack_dir" and gs: "gs = rename_tree staging pack_dir f2"
    by (auto simp: replace_dir_def step_io_def split: if_splits)
  have kept: "map_of f2 p = map_of f1 p" if "beneath staging p" for p
    using touchesD [OF touches_set_aside aside] assms(2,3) that by (auto simp: same_outside_def siblings_def)
  have moved: "map_of gs (pack_dir @ s) = map_of f1 (staging @ s)" for s
    unfolding gs lookup_rename [OF fresh] by (rule kept) (simp add: beneath_def)
  have "\<not> path_exists gs staging"
    using rename_source_gone assms(2) unfolding path_exists_iff gs siblings_def by metis
  moreover from prepared_pack [OF prep] have "evidence_pack e payload i pack_id pack_dir gs b"
    unfolding evidence_pack_def holds_crops_def cached_crop_path_def manifest_path_def moved .
  ultimately show ?thesis by blast
qed

lemma built_pack:
  assumes "retrieve_symbol_evidence e ok lock_free tag payload i r fs = (Inr b, fs')"
    and "load_cached_bundle e (pack_path e payload i r) (request_id e payload i) fs i (en_sha e payload) = None"
  shows "evidence_pack e payload i (request_id e payload i) (pack_path e payload i r) fs' b"
proof (cases rule: retrieve_cases [of e ok lock_free tag payload i r fs])
  case built
  let ?s = "staging_path e tag payload i r"
  obtain y gs where b: "build_pack e ok payload i (en_sha e payload) (request_id e payload i) ?s (pack_path e payload i r)
      (corrupt_path e payload i r) fs = (y, gs)" by fastforce
  have run: "clean_staging ok ?s (y, gs) = (Inr b, fs')" using assms(1) unfolding built(2) b .
  then obtain "y = Inr b" by (auto simp: clean_staging_def split: if_splits prod.splits sum.splits)
  from published_pack [OF b [unfolded this] request_siblings(1,2)] this run show ?thesis by (simp add: clean_staging_def)
qed (use assms in simp_all)

text \<open>
  C19. Evidence is published only when it is proved. A bundle that a request builds comes from a readable document whose
  text grounds the requested identity; its pin-out and table regions are the verified highest-scoring candidates of
  all pages, its package region is the row that associates the part number with the package, and the three crops on
  disk are the rendered images whose digests the bundle states.
\<close>

theorem built_evidence_is_proved:
  assumes "retrieve_symbol_evidence e ok lock_free tag payload i r fs = (Inr b, fs')"
    and "load_cached_bundle e (pack_path e payload i r) (request_id e payload i) fs i (en_sha e payload) = None"
  shows "evidence_pack e payload i (request_id e payload i) (pack_path e payload i r) fs' b"
  using assms by (rule built_pack)

subsection \<open>Reading back what was published\<close>

lemma verification_ok_score:
  assumes "0 \<le> r" and "r \<le> 1"
  shows "verification_ok (Some (verification_json (JFloat (Flt r))))"
  using assms by (simp add: verification_ok_def verification_json_def field_def num_eq_def unit_number_def)

lemma cached_region_of:
  assumes "region_of e document pack_id (kind, c, crop) r" and "(kind, rid) \<in> set region_ids"
    and "0 \<le> ca_score c" and "ca_score c \<le> 1" and "map_of fs (cached_crop_path dir rid) = Some crop" and "rid \<notin> set seen"
  shows "cached_region_ok e dir fs pack_id seen r = Some (seen @ [rid])"
proof -
  have id: "map_of region_ids kind = Some rid" and ex: "map_of expected_regions rid = Some kind"
    using assms(2) by (auto simp: region_ids_def expected_regions_def)
  from assms(1) id obtain box where r: "r = region_json e pack_id rid kind c box crop" by (auto simp: region_of_def)
  show ?thesis using assms(5,6) verification_ok_score [OF assms(3,4)]
    by (simp add: cached_region_ok_def r region_json_def ex read_bytes_def)
qed

lemma evidence_for_score: "evidence_for u document i c \<Longrightarrow> ca_score c = 1"
  by (auto simp: evidence_for_def package_candidate_def)

lemma best_score_unit:
  assumes "best_before u document n best" and "map_of best kind = Some c" and "kind \<in> set region_kinds"
  shows "0 \<le> ca_score c \<and> ca_score c \<le> 1"
proof -
  from assms obtain j where "found_on u document kind j c" unfolding best_before_def by fastforce
  then show ?thesis using candidate_for_page_fields by (fastforce simp: found_on_def split: sum.splits)
qed

lemma evidence_pack_cached:
  assumes "evidence_pack e payload i pack_id dir fs b" and "en_decode e (manifest_bytes e b) = Some b"
  shows "load_cached_bundle e dir pack_id fs i (en_sha e payload) = Some b"
proof -
  from assms(1) obtain document cs regions where cs: "accepted_candidates e document i cs"
    and rs: "list_all2 (region_of e document pack_id) (zip (map fst region_ids) cs) regions"
    and b: "b = bundle_json e i (en_sha e payload) regions" and crops: "holds_crops dir fs cs"
    and m: "map_of fs (manifest_path dir) = Some (manifest_bytes e b)"
    unfolding evidence_pack_def by blast
  from crops obtain c1 k1 c2 k2 c3 k3 where eq: "cs = [(c1, k1), (c2, k2), (c3, k3)]"
    and k: "map_of fs (cached_crop_path dir ''r_pinout_01'') = Some k1" "map_of fs (cached_crop_path dir ''r_pin_table_01'') = Some k2"
      "map_of fs (cached_crop_path dir ''r_package_01'') = Some k3"
    by (auto simp: holds_crops_def region_ids_def list_all2_Cons1)
  from rs obtain r1 r2 r3 where regions: "regions = [r1, r2, r3]"
    and r: "region_of e document pack_id (''pinout'', c1, k1) r1" "region_of e document pack_id (''table'', c2, k2) r2"
      "region_of e document pack_id (''package'', c3, k3) r3"
    by (auto simp: eq region_ids_def list_all2_Cons1)
  from cs obtain best where best: "best_before (en_unicode e) document (length document) best"
    "map_of best ''pinout'' = Some c1" "map_of best ''table'' = Some c2" and ev: "evidence_for (en_unicode e) document i c3"
    by (auto simp: accepted_candidates_def eq)
  note s1 = best_score_unit [OF best(1,2)] and s2 = best_score_unit [OF best(1,3)] and s3 = evidence_for_score [OF ev]
  have "cached_region_ok e dir fs pack_id [] r1 = Some [''r_pinout_01'']"
    by (subst cached_region_of [OF r(1), where rid = "''r_pinout_01''"]) (use s1 k in \<open>simp_all add: region_ids_def region_kinds_def\<close>)
  moreover have "cached_region_ok e dir fs pack_id [''r_pinout_01''] r2 = Some [''r_pinout_01'', ''r_pin_table_01'']"
    by (subst cached_region_of [OF r(2), where rid = "''r_pin_table_01''"]) (use s2 k in \<open>simp_all add: region_ids_def region_kinds_def\<close>)
  moreover have "cached_region_ok e dir fs pack_id [''r_pinout_01'', ''r_pin_table_01''] r3 =
      Some [''r_pinout_01'', ''r_pin_table_01'', ''r_package_01'']"
    by (subst cached_region_of [OF r(3), where rid = "''r_package_01''"]) (use s3 k in \<open>simp_all add: region_ids_def\<close>)
  ultimately have "regions_ok e dir fs pack_id [] regions = Some [''r_pinout_01'', ''r_pin_table_01'', ''r_package_01'']"
    by (simp add: regions)
  then have "cached_bundle_ok e dir pack_id fs i (en_sha e payload) b"
    unfolding cached_bundle_ok_def cached_header_ok_def at_path_def b bundle_json_def subscript_def
    by (simp add: regions expected_regions_def identity_verification_def num_eq_def)
  then show ?thesis using m assms(2) by (simp add: load_cached_bundle_def read_bytes_def)
qed

text \<open>
  C20. A published pack is found again. After a request that returns a bundle, the same request is answered from the pack
  with the same bundle and changes no file, whatever the operating system would refuse to build; the only thing asked
  of the decoder is that it reads the printed manifest back.
\<close>

theorem second_retrieval_reads_pack:
  assumes "retrieve_symbol_evidence e ok lock_free tag payload i r fs = (Inr b, fs')"
    and "en_decode e (manifest_bytes e b) = Some b" and "ok' MakeRoot"
  shows "retrieve_symbol_evidence e ok' True tag' payload i r fs' = (Inr b, fs')"
proof -
  let ?load = "\<lambda>fs. load_cached_bundle e (pack_path e payload i r) (request_id e payload i) fs i (en_sha e payload)"
  have "?load fs' = Some b"
  proof (cases rule: retrieve_cases [of e ok lock_free tag payload i r fs])
    case built
    from built_pack [OF assms(1) built(1)] assms(2) show ?thesis by (rule evidence_pack_cached)
  qed (use assms in simp_all)
  moreover have "\<exists>u. bindE (validate_identity i) (\<lambda>_. payload_ok payload) = Inr u"
    using assms(1) by (cases "bindE (validate_identity i) (\<lambda>_. payload_ok payload)") (auto simp: retrieve_symbol_evidence_def)
  ultimately show ?thesis
    using assms(3) by (auto simp: retrieve_symbol_evidence_def Let_def pack_path_def request_id_def)
qed

subsection \<open>Requests that fail\<close>

text \<open>What the building of a request may leave when it fails with an earlier pack in place: the pack as it was, or none.\<close>

lemma set_aside_pack:
  assumes "set_aside ok pack_dir corrupt fs = (x, gs)" and "siblings pack_dir corrupt"
  shows "(\<forall>p. beneath pack_dir p \<longrightarrow> map_of gs p = map_of fs p) \<or> \<not> path_exists gs pack_dir"
proof (cases "path_exists fs pack_dir")
  case False
  with assms(1) show ?thesis by (simp add: set_aside_def pure_io_def)
next
  case True
  obtain y f1 where f1: "(if path_exists fs corrupt then rmtree ok RemoveCorrupt corrupt fs else pure_io (Inr ()) fs) = (y, f1)" by fastforce
  have "touches [corrupt] (\<lambda>fs. if path_exists fs corrupt then rmtree ok RemoveCorrupt corrupt fs else pure_io (Inr ()) fs)"
    by (intro touching) simp
  from touchesD [OF this f1] have same: "map_of f1 p = map_of fs p" if "beneath pack_dir p" for p
    using siblings_same [OF assms(2)] that by blast
  obtain z f2 where f2: "replace_dir ok MoveAside pack_dir corrupt f1 = (z, f2)" by fastforce
  show ?thesis
  proof (cases "isl y \<or> isl z")
    case True
    then have "gs = f1"
      using assms(1) \<open>path_exists fs pack_dir\<close> f1 f2
      by (auto simp: set_aside_def bind_io_def replace_dir_def step_io_def split: sum.splits if_splits)
    then show ?thesis using same by blast
  next
    case False
    with assms(1) \<open>path_exists fs pack_dir\<close> f1 f2 have last: "rmtree ok RemoveAside corrupt f2 = (x, gs)"
      by (auto simp: set_aside_def bind_io_def split: sum.splits)
    have "f2 = rename_tree pack_dir corrupt f1"
      using f2 False by (auto simp: replace_dir_def step_io_def split: if_splits)
    then have gone: "map_of f2 p = None" if "beneath pack_dir p" for p
      using rename_source_gone that assms(2) by (simp add: siblings_def)
    have "touches [corrupt] (rmtree ok RemoveAside corrupt)" by (rule touches_rmtree) simp
    from touchesD [OF this last] have "map_of gs p = map_of f2 p" if "beneath pack_dir p" for p
      using siblings_same [OF assms(2)] that by blast
    then have "\<not> path_exists gs pack_dir" using gone unfolding path_exists_iff by metis
    then show ?thesis ..
  qed
qed

lemma failed_build_pack:
  assumes "build_pack e ok payload i digest pack_id staging pack_dir corrupt fs = (Inl x, gs)"
    and sib: "siblings staging pack_dir" "siblings staging corrupt" "siblings pack_dir corrupt"
  shows "map_of gs staging = map_of fs staging \<and>
    ((\<forall>p. beneath pack_dir p \<longrightarrow> map_of gs p = map_of fs p) \<or> \<not> path_exists gs pack_dir)"
proof -
  obtain y f1 where f1: "prepare_pack e ok payload i digest pack_id staging fs = (y, f1)" by fastforce
  note out = prepare_outside [OF f1]
  have same: "map_of f1 p = map_of fs p" if "beneath pack_dir p" for p
    using siblings_same [OF siblings_sym [OF sib(1)] out(1)] that by blast
  obtain z f2 where f2: "set_aside ok pack_dir corrupt f1 = (z, f2)" by fastforce
  have aside: "same_outside [pack_dir, corrupt] f1 f2" using touchesD [OF touches_set_aside f2] .
  have "\<not> beneath pack_dir staging" "\<not> beneath corrupt staging" using sib(1,2) by (auto simp: siblings_def)
  with aside have "map_of f2 staging = map_of f1 staging" by (simp add: same_outside_def)
  moreover have "gs = (if isl y then f1 else f2)"
    using assms(1) f1 f2
    by (auto simp: build_pack_def bind_io_def replace_dir_def step_io_def pure_io_def split: sum.splits if_splits)
  ultimately show ?thesis using out(2) same set_aside_pack [OF f2 sib(3)] by (cases "isl y") auto
qed

text \<open>The clean-up of a failed building, with any files around.\<close>

lemma cleaned_up:
  fixes gs fs' :: filesystem
  assumes "clean_staging ok staging (Inl z, gs) = (Inl x, fs')" and "ok RemoveStaging" and "map_of gs staging = None"
  shows "map_of fs' p = (if beneath staging p then None else map_of gs p)"
proof -
  have "\<not> is_file gs staging" using assms(3) by (simp add: is_file_def flip: map_of_eq_None_iff)
  then have "fs' = (if path_exists gs staging then remove_tree staging gs else gs)"
    using assms(1,2) by (auto simp: clean_staging_def rmtree_def step_io_def split: if_splits)
  then show ?thesis using path_exists_iff [of gs staging] by (auto simp: lookup_remove_tree)
qed

text \<open>
  C21. A failed request leaves no trace. Whatever was there before, when the operating system can remove the fresh staging directory, a
  request that raises leaves no staging files, leaves every file outside the directory of its pack and its set-aside directory as it was, and
  leaves the pack either whole, as it was, or absent: a partial pack is never visible. Without an earlier pack every file is as before.
\<close>

theorem failed_retrieval_leaves_no_trace:
  assumes "retrieve_symbol_evidence e ok lock_free tag payload i r fs = (Inl x, fs')"
    and "ok RemoveStaging" and "\<not> path_exists fs (staging_path e tag payload i r)"
  shows "\<not> path_exists fs' (staging_path e tag payload i r) \<and>
    same_outside [pack_path e payload i r, corrupt_path e payload i r] fs fs' \<and>
    ((\<forall>p. beneath (pack_path e payload i r) p \<longrightarrow> map_of fs' p = map_of fs p) \<or> \<not> path_exists fs' (pack_path e payload i r)) \<and>
    (\<not> path_exists fs (pack_path e payload i r) \<longrightarrow> same_outside [] fs fs')"
proof (cases rule: retrieve_cases [of e ok lock_free tag payload i r fs])
  case built
  let ?s = "staging_path e tag payload i r" and ?p = "pack_path e payload i r" and ?c = "corrupt_path e payload i r"
  note sib = request_siblings(1,2) [of e tag payload i r] request_siblings(3) [of e payload i r]
  obtain y gs where b: "build_pack e ok payload i (en_sha e payload) (request_id e payload i) ?s ?p ?c fs = (y, gs)" by fastforce
  have run: "clean_staging ok ?s (y, gs) = (Inl x, fs')" using assms(1) unfolding built(2) b .
  have "isl y"
  proof (rule ccontr)
    assume "\<not> isl y"
    then obtain b' where y: "y = Inr b'" by (cases y) auto
    from published_pack [OF b [unfolded y] sib(1,2)] run y show False by (simp add: clean_staging_def)
  qed
  then obtain z where y: "y = Inl z" by (cases y) auto
  have none: "map_of fs p = None" if "beneath ?s p" for p using assms(3) that unfolding path_exists_iff by blast
  note failed = failed_build_pack [OF b [unfolded y] sib]
  with none have "map_of gs ?s = None" by simp
  note clean = cleaned_up [OF run [unfolded y] assms(2) this]
  have "\<not> path_exists fs' ?s" unfolding path_exists_iff clean by simp
  moreover have "same_outside [?p, ?c] fs fs'"
    using touchesD [OF touches_build b] none unfolding same_outside_def clean by auto
  moreover have in_pack: "map_of fs' p = map_of gs p" if "beneath ?p p" for p
    using sib(1) that unfolding clean siblings_def by auto
  then have "(\<forall>p. beneath ?p p \<longrightarrow> map_of fs' p = map_of fs p) \<or> \<not> path_exists fs' ?p"
    using failed unfolding path_exists_iff by metis
  moreover have "same_outside [] fs fs'" if "\<not> path_exists fs ?p"
    using failed_build [OF b [unfolded y] sib(1) that] none unfolding same_outside_def clean by auto
  ultimately show ?thesis by blast
qed (use assms in simp_all)

subsection \<open>Requests that succeed\<close>

text \<open>\<open>renderable\<close>: the page of the candidate loads, has a finite size, and its crop is within the limits.\<close>

definition renderable :: "raw_page option list \<Rightarrow> region_candidate \<Rightarrow> bool" where
  "renderable document c \<longleftrightarrow> (case load_page document (ca_page c) of
     Inl _ \<Rightarrow> False | Inr page \<Rightarrow> inside_page page (ca_bbox c)) \<and> crop_allowed (ca_bbox c)"

lemma write_region_renderable:
  assumes "renderable document c" and ok: "\<forall>s. ok s"
  shows "\<exists>r gs. write_region e ok document pack_id staging (kind, c) fs = (Inr r, gs)"
proof -
  from assms(1) obtain page where p: "load_page document (ca_page c) = Inr page" "inside_page page (ca_bbox c)" "crop_allowed (ca_bbox c)"
    by (auto simp: renderable_def split: sum.splits)
  from bbox_norm_unit [OF p(2,3)] obtain box where "bbox_norm c page = Inr box" by blast
  with p ok show ?thesis
    by (simp add: write_region_def Let_def io_Inr backend_call_def render_crop_inside)
qed

text \<open>An earlier pack that cannot be loaded is set aside, unless one of the two paths is a file instead of a directory.\<close>

lemma is_file_lookup: "is_file fs p \<longleftrightarrow> map_of fs p \<noteq> None"
  by (simp add: is_file_def map_of_eq_None_iff)

lemma set_aside_succeeds:
  assumes ok: "\<forall>s. ok s" and old: "path_exists fs pack_dir \<longrightarrow> \<not> is_file fs pack_dir \<and> \<not> is_file fs corrupt"
    and sib: "siblings pack_dir corrupt"
  shows "\<exists>gs. set_aside ok pack_dir corrupt fs = (Inr (), gs) \<and> \<not> path_exists gs pack_dir"
proof (cases "path_exists fs pack_dir")
  case False
  then show ?thesis by (simp add: set_aside_def pure_io_def)
next
  case True
  with old have f: "\<not> is_file fs pack_dir" "\<not> is_file fs corrupt" by simp_all
  let ?f1 = "if path_exists fs corrupt then remove_tree corrupt fs else fs"
  let ?f2 = "rename_tree pack_dir corrupt ?f1"
  have one: "(if path_exists fs corrupt then rmtree ok RemoveCorrupt corrupt fs else pure_io (Inr ()) fs) = (Inr (), ?f1)"
    using ok f(2) by (simp add: rmtree_def step_io_def pure_io_def)
  have gone: "\<not> path_exists ?f1 corrupt" by (simp add: path_exists_iff lookup_remove_tree)
  have same: "map_of ?f1 p = map_of fs p" if "beneath pack_dir p" for p
    using sib that by (simp add: siblings_def lookup_remove_tree)
  then have "path_exists ?f1 pack_dir" using True unfolding path_exists_iff by metis
  with gone ok have two: "replace_dir ok MoveAside pack_dir corrupt ?f1 = (Inr (), ?f2)"
    by (simp add: replace_dir_def step_io_def)
  have "map_of ?f2 corrupt = map_of fs pack_dir" using lookup_rename [OF gone, of pack_dir "[]"] same by simp
  then have "\<not> is_file ?f2 corrupt" using f(1) unfolding is_file_lookup by simp
  then have three: "rmtree ok RemoveAside corrupt ?f2 = (Inr (), remove_tree corrupt ?f2)"
    using ok by (simp add: rmtree_def step_io_def)
  have "map_of ?f2 p = None" if "beneath pack_dir p" for p
    using rename_source_gone that sib by (simp add: siblings_def)
  then have "\<not> path_exists (remove_tree corrupt ?f2) pack_dir" unfolding path_exists_iff lookup_remove_tree by metis
  moreover have "set_aside ok pack_dir corrupt fs = (Inr (), remove_tree corrupt ?f2)"
    using True by (simp only: set_aside_def bind_io_def one two three if_False not_True_eq_False prod.case sum.case)
  ultimately show ?thesis by blast
qed

lemma build_pack_succeeds:
  assumes "open_pdf e payload = Inr document" and "chosen_candidates e document i = Inr chosen"
    and "list_all (\<lambda>(_, c). renderable document c) chosen" and ok: "\<forall>s. ok s"
    and old: "path_exists fs pack_dir \<longrightarrow> \<not> is_file fs pack_dir \<and> \<not> is_file fs corrupt"
    and sib: "siblings staging pack_dir" "siblings staging corrupt" "siblings pack_dir corrupt"
  shows "\<exists>b gs. build_pack e ok payload i digest pack_id staging pack_dir corrupt fs = (Inr b, gs)"
proof -
  have "\<exists>rs gs. write_regions e ok document pack_id staging cs fs = (Inr rs, gs)"
    if "list_all (\<lambda>(_, c). renderable document c) cs" for cs fs
    using that
  proof (induction cs arbitrary: fs)
    case (Cons item cs)
    obtain kind c where item: "item = (kind, c)" by (cases item)
    then have "renderable document c" using Cons.prems by simp
    from write_region_renderable [OF this ok] obtain r gs where
      "write_region e ok document pack_id staging (kind, c) fs = (Inr r, gs)" by blast
    then show ?case using Cons.IH [of gs] Cons.prems by (auto simp: item io_Inr)
  qed (simp add: pure_io_def)
  from this [OF assms(3)] obtain rs hs where "write_regions e ok document pack_id staging chosen fs = (Inr rs, hs)" by blast
  then have prep: "prepare_pack e ok payload i digest pack_id staging fs = (Inr (bundle_json e i digest rs),
      AList.update (manifest_path staging) (manifest_bytes e (bundle_json e i digest rs)) hs)" (is "_ = (Inr ?b, ?gs)")
    using assms(1,2) ok by (simp add: prepare_pack_def Let_def io_Inr)
  note out = prepare_outside(1) [OF prep]
  have files: "is_file ?gs p = is_file fs p" if "p = pack_dir \<or> p = corrupt" for p
    using siblings_same [OF siblings_sym [OF sib(1)] out, of p] siblings_same [OF siblings_sym [OF sib(2)] out, of p] that
    unfolding is_file_lookup by (metis beneath_refl(1))
  have "path_exists ?gs pack_dir = path_exists fs pack_dir" by (rule siblings_exists [OF siblings_sym [OF sib(1)] out])
  with old files have old': "path_exists ?gs pack_dir \<longrightarrow> \<not> is_file ?gs pack_dir \<and> \<not> is_file ?gs corrupt" by simp
  obtain hs' where aside: "set_aside ok pack_dir corrupt ?gs = (Inr (), hs')" "\<not> path_exists hs' pack_dir"
    using set_aside_succeeds [OF ok old' sib(3)] by blast
  have "map_of hs' (manifest_path staging) = map_of ?gs (manifest_path staging)"
    using touchesD [OF touches_set_aside aside(1)] sib(1,2) by (auto simp: same_outside_def siblings_def dest: spec [of _ "manifest_path staging"])
  then have "path_exists hs' staging"
    unfolding path_exists_iff by (intro exI [of _ "manifest_path staging"]) (simp add: update_conv')
  with aside show ?thesis
    using ok by (simp add: build_pack_def io_Inr prep replace_dir_def step_io_def)
qed

lemma request_succeeds:
  assumes "bindE (validate_identity i) (\<lambda>_. payload_ok payload) = Inr u" and "open_pdf e payload = Inr document"
    and "chosen_candidates e document i = Inr chosen" and "list_all (\<lambda>(_, c). renderable document c) chosen"
    and "path_exists fs (pack_path e payload i r) \<longrightarrow>
      \<not> is_file fs (pack_path e payload i r) \<and> \<not> is_file fs (corrupt_path e payload i r)"
  shows "\<exists>b fs'. retrieve_symbol_evidence e (\<lambda>_. True) True tag payload i r fs = (Inr b, fs')"
proof -
  let ?load = "load_cached_bundle e (pack_path e payload i r) (request_id e payload i) fs i (en_sha e payload)"
  let ?s = "staging_path e tag payload i r"
  let ?build = "build_pack e (\<lambda>_. True) payload i (en_sha e payload) (request_id e payload i) ?s (pack_path e payload i r)
    (corrupt_path e payload i r) fs"
  have run: "retrieve_symbol_evidence e (\<lambda>_. True) True tag payload i r fs =
      (case ?load of Some b \<Rightarrow> (Inr b, fs) | None \<Rightarrow> clean_staging (\<lambda>_. True) ?s ?build)"
    unfolding retrieve_symbol_evidence_def Let_def assms(1) pack_path_def staging_path_def corrupt_path_def request_id_def by simp
  from build_pack_succeeds [OF assms(2-4) _ assms(5) request_siblings(1,2,3), where ok = "\<lambda>_. True"]
  obtain b gs where build: "?build = (Inr b, gs)" by blast
  from published_pack [OF this request_siblings(1,2)] have "clean_staging (\<lambda>_. True) ?s ?build = (Inr b, gs)"
    by (simp add: build clean_staging_def)
  with run show ?thesis by (cases ?load) auto
qed

text \<open>
  C22. Grounded requests succeed, also over a damaged earlier pack. When the identity and the payload pass their checks, the document opens,
  the scorer and the identity gate choose the three candidates, each of them can be rendered within the limits of a crop, the
  lock is obtained and the operating system completes every step, a request returns a bundle, whatever directory an earlier request left.
\<close>

theorem grounded_request_succeeds:
  assumes "bindE (validate_identity i) (\<lambda>_. payload_ok payload) = Inr u" and "open_pdf e payload = Inr document"
    and "chosen_candidates e document i = Inr chosen" and "list_all (\<lambda>(_, c). renderable document c) chosen"
    and "path_exists fs (pack_path e payload i r) \<longrightarrow>
      \<not> is_file fs (pack_path e payload i r) \<and> \<not> is_file fs (corrupt_path e payload i r)"
  shows "\<exists>b fs'. retrieve_symbol_evidence e (\<lambda>_. True) True tag payload i r fs = (Inr b, fs')"
  using assms by (rule request_succeeds)

end
