(* ===== verification/EvidenceRun.thy ===== *)
theory EvidenceRun
  imports EvidenceCache
begin

section \<open>A document and its evidence\<close>

text \<open>
  A one-page document on which the hypotheses of the evidence properties hold: a pin-out heading, the heading and four rows
  of a pin table, a text line that associates a part number with its package, and an engine whose parameters are concrete
  functions.
\<close>

definition demo_unicode :: unicode where
  "demo_unicode = \<lparr>uni_nfkc = (\<lambda>s. s), uni_upper = map upper_char\<rparr>"

definition demo_part :: part_identity where
  "demo_part = \<lparr>di_manufacturer = ''U'', di_mpn = ''A1'', di_package = ''D8'', di_source_url = None\<rparr>"

definition demo_page :: raw_page where
  "demo_page = \<lparr>rp_rotation = 0, rp_width = 64, rp_height = 64, rp_text = ''U A1 D8'',
     rp_chars = [(''pinout pin out 1 2 3 4'', Some (8, 40, 56, 48)), ([newline_char], None),
       (''pin name type 1 2 3 4 5'', Some (8, 30, 56, 38)), ([newline_char], None),
       (''1 VIN power'', Some (8, 24, 56, 26)), ([newline_char], None), (''2 GND ground'', Some (8, 22, 56, 24)),
       ([newline_char], None), (''3 EN input'', Some (8, 20, 56, 22)), ([newline_char], None), (''4 OUT output'', Some (8, 18, 56, 20))]\<rparr>"

definition demo_document :: "raw_page option list" where
  "demo_document = [Some demo_page]"

definition demo_engine :: engine where
  "demo_engine = \<lparr>en_unicode = demo_unicode, en_open = (\<lambda>_. Opened demo_document 0 True), en_png = (\<lambda>_ _ _. ''png''),
     en_webp = (\<lambda>png. ''webp''), en_sha = (\<lambda>_. replicate 64 CHR ''0''), en_frepr = (\<lambda>_. ''0.5''), en_decode = (\<lambda>_. None),
     en_backend = ''pdfium-5''\<rparr>"

definition demo_pdf :: bytes where "demo_pdf = ''%PDF-1.7''"

definition demo_blocks :: "text_block list" where
  "demo_blocks = [\<lparr>tb_bbox = (8, 16, 56, 24), tb_text = ''pinout pin out 1 2 3 4''\<rparr>,
     \<lparr>tb_bbox = (8, 26, 56, 34), tb_text = ''pin name type 1 2 3 4 5''\<rparr>,
     \<lparr>tb_bbox = (8, 38, 56, 40), tb_text = ''1 VIN power''\<rparr>, \<lparr>tb_bbox = (8, 40, 56, 42), tb_text = ''2 GND ground''\<rparr>,
     \<lparr>tb_bbox = (8, 42, 56, 44), tb_text = ''3 EN input''\<rparr>, \<lparr>tb_bbox = (8, 44, 56, 46), tb_text = ''4 OUT output''\<rparr>]"

text \<open>The page in steps: its lines and blocks, and the candidate of each kind.\<close>

lemma demo_load: "load_page demo_document 0 = Inr demo_page"
  by (simp add: load_page_def demo_document_def)

lemma demo_lines: "page_lines demo_page = Inr [''U A1 D8'']"
  by code_simp

lemma demo_extract: "extract_blocks demo_page = Inr demo_blocks"
  by code_simp

definition pinout_block :: text_block where "pinout_block = hd demo_blocks"
definition table_block :: text_block where "table_block = hd (tl demo_blocks)"

definition pinout_box :: box where
  "pinout_box = (1261007895663739 / 562949953421312, 7746191359077253 / 562949953421312,
     8691947280825057 / 140737488355328, 4998995586381251 / 140737488355328)"

definition table_box :: box where
  "table_box = (1261007895663739 / 562949953421312, 3343922723322593 / 140737488355328,
     8691947280825057 / 140737488355328, 3563473205156905 / 70368744177664)"

definition part_box :: box where
  "part_box = (1261007895663739 / 562949953421312, 0, 8691947280825057 / 140737488355328, 7926335344172073 / 562949953421312)"

lemma demo_boxes:
  "region_box ''pinout'' demo_page pinout_block = pinout_box"
  "region_box ''table'' demo_page table_block = table_box"
  "package_box demo_page None = part_box"
  by code_simp+

lemma demo_allowed: "crop_allowed pinout_box" "crop_allowed table_box" "crop_allowed part_box"
  by (simp_all add: pinout_box_def table_box_def part_box_def ordinary_crop_allowed)

lemma demo_anchors:
  "anchor_of PINOUT_TERMS demo_blocks = Some pinout_block" "anchor_of PIN_TABLE_TERMS demo_blocks = Some table_block"
  by code_simp+

definition demo_nearby :: string where
  "demo_nearby = ''pinout pin out 1 2 3 4'' @ [newline_char] @ ''pin name type 1 2 3 4 5''"

definition demo_pin_table :: string where
  "demo_pin_table = join [newline_char] [demo_nearby, ''1 VIN power'', ''2 GND ground'', ''3 EN input'', ''4 OUT output'']"

lemma demo_nearby: "nearby_text pinout_box demo_blocks = demo_nearby" "nearby_text table_box demo_blocks = demo_pin_table"
  by code_simp+

definition verified_score :: "retrieval_error + rat \<times> bool \<Rightarrow> bool" where
  "verified_score r = (case r of Inr (_, v) \<Rightarrow> v | Inl _ \<Rightarrow> False)"

lemma demo_scores:
  "verified_score (score_candidate demo_unicode ''pinout'' demo_nearby)"
  "verified_score (score_candidate demo_unicode ''table'' demo_pin_table)"
  by code_simp+

lemma demo_identity: "\<not> isl (identity_package_candidate demo_unicode demo_document demo_part)"
  by code_simp

subsection \<open>The request\<close>

definition demo_best :: candidates where
  "demo_best = projr (best_candidates demo_unicode demo_document)"

definition demo_pinout :: region_candidate where
  "demo_pinout = the (projr (candidate_for_page demo_unicode ''pinout'' 0 demo_page demo_blocks))"

definition demo_table :: region_candidate where
  "demo_table = the (projr (candidate_for_page demo_unicode ''table'' 0 demo_page demo_blocks))"

lemma demo_candidate:
  assumes "anchor_of (if kind = ''pinout'' then PINOUT_TERMS else PIN_TABLE_TERMS) demo_blocks = Some anchor"
    and "region_box kind demo_page anchor = b" and "nearby_text b demo_blocks = near"
    and "verified_score (score_candidate demo_unicode kind near)"
  shows "\<exists>c. candidate_for_page demo_unicode kind 0 demo_page demo_blocks = Inr (Some c) \<and> ca_kind c = kind \<and> ca_page c = 0 \<and>
    ca_bbox c = b \<and> ca_text c = near \<and> ca_verified c"
proof -
  obtain sc where sc: "score_candidate demo_unicode kind near = Inr (sc, True)"
    using assms(4) by (auto simp: verified_score_def split: sum.splits)
  then show ?thesis
    using assms(1-3) by (intro exI [of _ "\<lparr>ca_kind = kind, ca_page = 0, ca_bbox = b, ca_caption = take 500 (tb_text anchor),
      ca_text = near, ca_score = sc, ca_verified = True\<rparr>"]) (simp add: candidate_for_page_def Let_def)
qed

lemma demo_pinout:
  "candidate_for_page demo_unicode ''pinout'' 0 demo_page demo_blocks = Inr (Some demo_pinout) \<and> ca_kind demo_pinout = ''pinout'' \<and>
   ca_page demo_pinout = 0 \<and> ca_bbox demo_pinout = pinout_box \<and> ca_verified demo_pinout"
proof -
  have "anchor_of (if ''pinout'' = ''pinout'' then PINOUT_TERMS else PIN_TABLE_TERMS) demo_blocks = Some pinout_block"
    by (simp add: demo_anchors)
  from demo_candidate [OF this demo_boxes(1) demo_nearby(1) demo_scores(1)] show ?thesis by (auto simp: demo_pinout_def)
qed

lemma demo_table:
  "candidate_for_page demo_unicode ''table'' 0 demo_page demo_blocks = Inr (Some demo_table) \<and> ca_kind demo_table = ''table'' \<and>
   ca_page demo_table = 0 \<and> ca_bbox demo_table = table_box \<and> ca_text demo_table = demo_pin_table \<and> ca_verified demo_table"
proof -
  have "anchor_of (if ''table'' = ''pinout'' then PINOUT_TERMS else PIN_TABLE_TERMS) demo_blocks = Some table_block"
    by (simp add: demo_anchors)
  from demo_candidate [OF this demo_boxes(2) demo_nearby(2) demo_scores(2)] show ?thesis by (auto simp: demo_table_def)
qed

lemma demo_best: "best_candidates demo_unicode demo_document = Inr [(''pinout'', demo_pinout), (''table'', demo_table)]"
proof -
  have "best_on_page demo_unicode demo_document [] 0 = Inr [(''pinout'', demo_pinout), (''table'', demo_table)]"
    using demo_pinout demo_table
    by (simp add: best_on_page_def demo_load backend_call_def demo_extract region_kinds_def keep_better_def)
  moreover have "length demo_document = 1" by (simp add: demo_document_def)
  ultimately show ?thesis
    using demo_pinout demo_table by (simp add: best_candidates_def page_count_ok_def MAX_PAGES_def region_kinds_def)
qed

lemma demo_no_anchor: "List.find (\<lambda>b. contains_exact_mpn demo_unicode (tb_text b) ''A1'') demo_blocks = None"
  by code_simp

lemma demo_part_candidate:
  "\<exists>c. identity_package_candidate demo_unicode demo_document demo_part = Inr c \<and> ca_page c = 0 \<and> ca_bbox c = part_box"
proof -
  obtain c where c: "identity_package_candidate demo_unicode demo_document demo_part = Inr c"
    using demo_identity by (cases "identity_package_candidate demo_unicode demo_document demo_part") auto
  have one: "length demo_document = 1" by (simp add: demo_document_def)
  from identity_package_candidate_scan [OF c] obtain ls l where
    "c = package_candidate demo_unicode demo_part 0 demo_page ls l demo_blocks"
    by (auto simp: evidence_for_def one demo_load demo_extract)
  then have "ca_page c = 0" "ca_bbox c = part_box"
    using demo_no_anchor demo_boxes(3) by (simp_all add: package_candidate_def demo_part_def)
  with c show ?thesis by blast
qed

lemma demo_float_page: "float_page demo_page"
  by code_simp

lemma demo_chosen:
  "\<exists>chosen. chosen_candidates demo_engine demo_document demo_part = Inr chosen \<and> list_all (\<lambda>(_, c). renderable demo_document c) chosen"
proof -
  obtain c where c: "identity_package_candidate demo_unicode demo_document demo_part = Inr c" "ca_page c = 0" "ca_bbox c = part_box"
    using demo_part_candidate by blast
  have inside: "inside_page demo_page pinout_box" "inside_page demo_page table_box" "inside_page demo_page part_box"
    using region_box_inside [OF demo_float_page] package_box_inside [OF demo_float_page] demo_boxes by metis+
  have ok: "renderable demo_document demo_pinout" "renderable demo_document demo_table" "renderable demo_document c"
    using demo_pinout demo_table c inside demo_allowed by (simp_all add: renderable_def demo_load)
  have "chosen_candidates demo_engine demo_document demo_part =
      Inr [(''pinout'', demo_pinout), (''table'', demo_table), (''package'', c)]"
    by (simp add: chosen_candidates_def demo_engine_def demo_best c)
  with ok show ?thesis by simp
qed

lemma demo_open: "open_pdf demo_engine demo_pdf = Inr demo_document"
  by (simp add: open_pdf_def open_document_def demo_engine_def demo_document_def max_document_pages_def)

lemma demo_valid: "bindE (validate_identity demo_part) (\<lambda>_. payload_ok demo_pdf) = Inr ()"
  by code_simp

lemma demo_scannable: "scannable demo_document"
  by (simp add: scannable_def demo_document_def demo_lines demo_extract)

text \<open>The decoder plays no part in building a pack, so it may be one that reads the built bundle back.\<close>

lemma render_crop_decode: "render_crop (e\<lparr>en_decode := d\<rparr>) page b = render_crop e page b"
  by (cases b) (simp add: render_crop_def Let_def)

lemma region_json_decode: "region_json (e\<lparr>en_decode := d\<rparr>) = region_json e"
  by (intro ext) (simp add: region_json_def content_hash_def)

lemma write_regions_decode:
  "write_regions (e\<lparr>en_decode := d\<rparr>) ok document pack_id staging cs = write_regions e ok document pack_id staging cs"
  by (induction cs) (simp_all add: write_region_def render_crop_decode region_json_decode split: prod.splits)

lemma build_pack_decode: "build_pack (e\<lparr>en_decode := d\<rparr>) = build_pack e"
  by (intro ext) (simp add: build_pack_def prepare_pack_def open_pdf_def chosen_candidates_def write_regions_decode
      bundle_json_def MODEL_IDS_def manifest_bytes_def)

lemma retrieve_decode:
  "retrieve_symbol_evidence (e\<lparr>en_decode := d\<rparr>) ok lock_free tag payload i r [] =
   retrieve_symbol_evidence e ok lock_free tag payload i r []"
proof -
  have "artifact_id (e\<lparr>en_decode := d\<rparr>) (en_sha e payload) i = artifact_id e (en_sha e payload) i"
    by (simp add: artifact_id_def MODEL_IDS_def canonical_sha_def)
  then show ?thesis
    by (cases "bindE (validate_identity i) (\<lambda>_. payload_ok payload)")
      (simp_all add: retrieve_symbol_evidence_def Let_def build_pack_decode load_cached_bundle_def read_bytes_def)
qed

lemma demo_request:
  "\<exists>b fs. retrieve_symbol_evidence demo_engine (\<lambda>_. True) True ''x'' demo_pdf demo_part [''out''] [] = (Inr b, fs)"
proof -
  obtain chosen where ch: "chosen_candidates demo_engine demo_document demo_part = Inr chosen"
    "list_all (\<lambda>(_, c). renderable demo_document c) chosen" using demo_chosen by blast
  have "\<not> path_exists [] (pack_path demo_engine demo_pdf demo_part [''out''])" by (simp add: path_exists_iff)
  then show ?thesis by (intro request_succeeds [OF demo_valid demo_open ch]) simp
qed

subsection \<open>The properties on it\<close>

lemma crops_inside_page_witness:
  "render_crop demo_engine demo_page part_box = Inr ''webp''"
  using crops_inside_page [OF demo_float_page, of "demo_pinout\<lparr>ca_bbox := part_box\<rparr>" "[]" pinout_block None demo_engine, THEN conjunct1]
    demo_boxes(3) demo_allowed(3) by (simp add: demo_engine_def)

text \<open>The second request finds a directory with a damaged manifest.\<close>

lemma grounded_request_succeeds_witness:
  "(\<exists>b fs. retrieve_symbol_evidence demo_engine (\<lambda>_. True) True ''y'' demo_pdf demo_part [''out''] [] = (Inr b, fs)) \<and>
   (\<exists>b fs. retrieve_symbol_evidence demo_engine (\<lambda>_. True) True ''y'' demo_pdf demo_part [''out'']
      [(manifest_path (pack_path demo_engine demo_pdf demo_part [''out'']), ''{'')] = (Inr b, fs))"
proof -
  obtain chosen where ch: "chosen_candidates demo_engine demo_document demo_part = Inr chosen"
    "list_all (\<lambda>(_, c). renderable demo_document c) chosen" using demo_chosen by blast
  let ?damaged = "[(manifest_path (pack_path demo_engine demo_pdf demo_part [''out'']), ''{'')] :: filesystem"
  have fresh: "path_exists [] (pack_path demo_engine demo_pdf demo_part [''out'']) \<longrightarrow> \<not> is_file [] (pack_path demo_engine demo_pdf demo_part [''out'']) \<and>
      \<not> is_file [] (corrupt_path demo_engine demo_pdf demo_part [''out''])" by (simp add: is_file_def)
  have damaged: "path_exists ?damaged (pack_path demo_engine demo_pdf demo_part [''out'']) \<longrightarrow>
      \<not> is_file ?damaged (pack_path demo_engine demo_pdf demo_part [''out'']) \<and>
      \<not> is_file ?damaged (corrupt_path demo_engine demo_pdf demo_part [''out''])"
    by (simp add: is_file_def manifest_path_def pack_path_def corrupt_path_def)
  show ?thesis
    using grounded_request_succeeds [OF demo_valid demo_open ch fresh] grounded_request_succeeds [OF demo_valid demo_open ch damaged] by simp
qed

lemma built_evidence_is_proved_witness:
  "\<exists>b fs. evidence_pack demo_engine demo_pdf demo_part (request_id demo_engine demo_pdf demo_part)
     (pack_path demo_engine demo_pdf demo_part [''out'']) fs b"
proof -
  obtain b fs where run: "retrieve_symbol_evidence demo_engine (\<lambda>_. True) True ''x'' demo_pdf demo_part [''out''] [] = (Inr b, fs)"
    using demo_request by blast
  have "load_cached_bundle demo_engine (pack_path demo_engine demo_pdf demo_part [''out'']) (request_id demo_engine demo_pdf demo_part)
      [] demo_part (en_sha demo_engine demo_pdf) = None"
    by (simp add: load_cached_bundle_def read_bytes_def)
  from built_evidence_is_proved [OF run this] show ?thesis by blast
qed

lemma second_retrieval_reads_pack_witness:
  "\<exists>e b fs. retrieve_symbol_evidence e (\<lambda>_. True) True ''x'' demo_pdf demo_part [''out''] [] = (Inr b, fs) \<and>
     retrieve_symbol_evidence e (\<lambda>s. s = MakeRoot) True ''y'' demo_pdf demo_part [''out''] fs = (Inr b, fs)"
proof -
  obtain b fs where run: "retrieve_symbol_evidence demo_engine (\<lambda>_. True) True ''x'' demo_pdf demo_part [''out''] [] = (Inr b, fs)"
    using demo_request by blast
  let ?e = "demo_engine\<lparr>en_decode := \<lambda>_. Some b\<rparr>"
  have "retrieve_symbol_evidence ?e (\<lambda>_. True) True ''x'' demo_pdf demo_part [''out''] [] = (Inr b, fs)"
    using run by (simp add: retrieve_decode)
  moreover from this have "retrieve_symbol_evidence ?e (\<lambda>s. s = MakeRoot) True ''y'' demo_pdf demo_part [''out''] fs = (Inr b, fs)"
    by (rule second_retrieval_reads_pack) simp_all
  ultimately show ?thesis by blast
qed

definition refusing_engine :: engine where
  "refusing_engine = demo_engine\<lparr>en_open := \<lambda>_. Refused ''password required''\<rparr>"

text \<open>A refused document, with a damaged earlier pack on the disk.\<close>

definition damaged_files :: filesystem where
  "damaged_files = [([''a''], ''b''), (manifest_path (pack_path refusing_engine demo_pdf demo_part [''out'']), ''{'')]"

lemma failed_retrieval_leaves_no_trace_witness:
  "isl (fst (retrieve_symbol_evidence refusing_engine (\<lambda>_. True) True ''x'' demo_pdf demo_part [''out''] damaged_files)) \<and>
   same_outside [pack_path refusing_engine demo_pdf demo_part [''out''], corrupt_path refusing_engine demo_pdf demo_part [''out'']]
     damaged_files (snd (retrieve_symbol_evidence refusing_engine (\<lambda>_. True) True ''x'' demo_pdf demo_part [''out''] damaged_files))"
proof -
  have refused: "open_pdf refusing_engine demo_pdf = Inl (RetrievalError ''encrypted PDFs are not accepted'')"
    by (code_simp)
  have miss: "load_cached_bundle refusing_engine d k damaged_files i h = None" for d k i h
    by (simp add: load_cached_bundle_def refusing_engine_def demo_engine_def split: sum.split)
  have fresh: "\<not> path_exists damaged_files (staging_path refusing_engine ''x'' demo_pdf demo_part [''out''])"
    using request_siblings(1) [of refusing_engine "''x''" demo_pdf demo_part "[''out'']"]
    unfolding path_exists_iff damaged_files_def
    by (auto simp: siblings_def staging_path_def beneath_def manifest_path_def pack_path_def split: if_splits)
  have "\<exists>x. retrieve_symbol_evidence refusing_engine (\<lambda>_. True) True ''x'' demo_pdf demo_part [''out''] damaged_files = (Inl x, damaged_files)"
    using demo_valid refused fresh
    by (simp add: retrieve_symbol_evidence_def Let_def miss build_pack_def
        prepare_pack_def bind_io_def pure_io_def clean_staging_def staging_path_def request_id_def)
  then obtain x where run: "retrieve_symbol_evidence refusing_engine (\<lambda>_. True) True ''x'' demo_pdf demo_part [''out''] damaged_files =
    (Inl x, damaged_files)" ..
  from failed_retrieval_leaves_no_trace [OF run _ fresh] show ?thesis by (simp add: run)
qed

text \<open>A page that cannot be loaded stops the scan with the backend's own exception, which is not a \<open>RetrievalError\<close>.\<close>

lemma unloadable_page_escapes: "best_candidates demo_unicode [Some demo_page, None] = Inl (PdfBackendError ''PDF page 2 could not be loaded'')"
proof -
  have "\<exists>best. best_on_page demo_unicode [Some demo_page, None] [] 0 = Inr best"
    using demo_pinout demo_table
    by (simp add: best_on_page_def load_page_def backend_call_def demo_extract region_kinds_def keep_better_def)
  moreover have "best_on_page demo_unicode [Some demo_page, None] best 1 = Inl (PdfBackendError ''PDF page 2 could not be loaded'')" for best
    by (simp add: best_on_page_def load_page_def backend_call_def) code_simp
  ultimately show ?thesis by (auto simp: best_candidates_def page_count_ok_def MAX_PAGES_def numeral_2_eq_2)
qed

end
