(* ===== verification/IdentityGate.thy ===== *)
theory IdentityGate
  imports EvidenceRun
begin

section \<open>The identity gate against a specification of its matching\<close>

text \<open>
  What \<open>_identity_package_candidate\<close> promises, stated over words and strings: no search loop, no haystack and needle, no greedy counting.
  The scan of \<open>Grounding\<close> and the matchers of \<open>PartText\<close> are proved equal to it.
\<close>

subsection \<open>Words\<close>

lemma pieces_not_Nil [simp]: "pieces p s \<noteq> []"
  by (cases s) (auto split: list.split)

lemma pieces_sep: "p c \<Longrightarrow> pieces p (s @ c # t) = pieces p s @ pieces p t"
  by (induction s) (auto split: list.split)

lemma words_space: "words (s @ CHR '' '' # t) = words s @ words t"
  by (simp add: words_def pieces_sep py_space_def code_point_def)

lemma words_nil [simp]: "words [] = []"
  by (simp add: words_def)

lemma pieces_plain: "list_all (\<lambda>c. \<not> p c) s \<Longrightarrow> pieces p s = [s]"
  by (induction s) auto

definition plain_word :: "string \<Rightarrow> bool" where
  "plain_word w \<longleftrightarrow> w \<noteq> [] \<and> list_all (\<lambda>c. \<not> py_space c) w"

lemma words_plain: "plain_word w \<Longrightarrow> words w = [w]"
  by (simp add: words_def plain_word_def pieces_plain)

lemma pieces_free: "w \<in> set (pieces p s) \<Longrightarrow> list_all (\<lambda>c. \<not> p c) w"
  by (induction s arbitrary: w) (auto split: if_splits list.splits)

lemma words_plain_word: "w \<in> set (words s) \<Longrightarrow> plain_word w"
  using pieces_free by (auto simp: words_def plain_word_def)

lemma words_join: "list_all plain_word ws \<Longrightarrow> words (join '' '' ws) = ws"
proof (induction ws rule: induct_list012)
  case (3 x y zs)
  then have "words (join '' '' (x # y # zs)) = words x @ words (join '' '' (y # zs))"
    by (simp add: words_space)
  with 3 show ?case by (simp add: words_plain)
qed (simp_all add: words_plain)

lemma spaced_join: "ws \<noteq> [] \<Longrightarrow> '' '' @ join '' '' ws = concat (map (\<lambda>w. '' '' @ w) ws)"
  by (induction ws rule: induct_list012) simp_all

text \<open>A phrase with spaces around it occurs in another exactly when its words are consecutive words of the other.\<close>

lemma contains_words:
  assumes ns: "list_all plain_word ns" "ns \<noteq> []" and hs: "list_all plain_word hs"
  shows "contains ('' '' @ join '' '' ns @ '' '') ('' '' @ join '' '' hs @ '' '') \<longleftrightarrow> (\<exists>before after. hs = before @ ns @ after)"
proof
  assume "contains ('' '' @ join '' '' ns @ '' '') ('' '' @ join '' '' hs @ '' '')"
  then obtain p q where "'' '' @ join '' '' hs @ '' '' = p @ ('' '' @ join '' '' ns @ '' '') @ q"
    unfolding contains_iff by blast
  then have "[] @ CHR '' '' # (join '' '' hs @ CHR '' '' # []) = p @ CHR '' '' # (join '' '' ns @ CHR '' '' # q)" by simp
  then have "words ([] @ CHR '' '' # (join '' '' hs @ CHR '' '' # [])) = words (p @ CHR '' '' # (join '' '' ns @ CHR '' '' # q))"
    by (rule arg_cong)
  then have "hs = words p @ ns @ words q" unfolding words_space words_nil by (simp add: words_join ns hs)
  then show "\<exists>before after. hs = before @ ns @ after" by blast
next
  let ?k = "\<lambda>ws. concat (map (\<lambda>w. '' '' @ w) ws)"
  assume "\<exists>before after. hs = before @ ns @ after"
  then obtain a b where ab: "hs = a @ ns @ b" by blast
  obtain r where r: "?k b @ '' '' = '' '' @ r" by (cases b) auto
  have "'' '' @ join '' '' hs @ '' '' = ?k hs @ '' ''" using ab ns(2) spaced_join [of hs] by simp
  also have "\<dots> = ?k a @ ?k ns @ '' '' @ r" using ab r by simp
  also have "?k ns = '' '' @ join '' '' ns" using spaced_join [OF ns(2)] by simp
  finally show "contains ('' '' @ join '' '' ns @ '' '') ('' '' @ join '' '' hs @ '' '')"
    unfolding contains_iff by (intro exI [of _ "?k a"] exI [of _ r]) simp
qed

subsection \<open>What the text must say\<close>

text \<open>The compared words of a text: case folded, in compatibility form, everything but letters and digits taken as space.\<close>

definition phrase_words :: "unicode \<Rightarrow> string \<Rightarrow> string list" where
  "phrase_words u s = words (map (\<lambda>c. if py_alnum c then c else CHR '' '') (casefold (uni_nfkc u s)))"

definition says_phrase :: "unicode \<Rightarrow> string \<Rightarrow> string \<Rightarrow> bool" where
  "says_phrase u text phrase \<longleftrightarrow> phrase_words u phrase \<noteq> [] \<and>
     (\<exists>before after. phrase_words u text = before @ phrase_words u phrase @ after)"

text \<open>The words of a phrase in order, the first one and then the others among the next ones, with at most two other words in between.\<close>

definition says_in_order :: "unicode \<Rightarrow> string \<Rightarrow> string \<Rightarrow> bool" where
  "says_in_order u text phrase \<longleftrightarrow> (case phrase_words u phrase of
     [] \<Rightarrow> False
   | t # ts \<Rightarrow> \<exists>before window after. phrase_words u text = before @ t # window @ after \<and> subseq ts window \<and> length window \<le> length ts + 2)"

text \<open>
  The upper-case number occurs in the line with no letter or digit directly before or after it. (A dash is neither: this is what the code
  checks, and less than the documentation promises of near misses.)
\<close>

definition number_alone :: "unicode \<Rightarrow> string \<Rightarrow> string \<Rightarrow> bool" where
  "number_alone u line mpn \<longleftrightarrow> normalise_mpn u mpn \<noteq> [] \<and>
     (\<exists>a b. normalise_mpn u line = a @ normalise_mpn u mpn @ b \<and> (a = [] \<or> \<not> py_alnum (last a)) \<and> (b = [] \<or> \<not> py_alnum (hd b)))"

text \<open>The row of a line: it and up to three lines after it, up to the first that starts the row of another part.\<close>

definition row_extent :: "unicode \<Rightarrow> string \<Rightarrow> string list \<Rightarrow> nat \<Rightarrow> nat \<Rightarrow> bool" where
  "row_extent u package ls l k \<longleftrightarrow> k \<le> 3 \<and> l + k < length ls \<and>
     (\<forall>m. l < m \<and> m \<le> l + k \<longrightarrow> \<not> starts_new_part_row u (ls ! m) package) \<and>
     (k = 3 \<or> l + k + 1 = length ls \<or> starts_new_part_row u (ls ! (l + k + 1)) package)"

definition row_names_part :: "unicode \<Rightarrow> part_identity \<Rightarrow> string list \<Rightarrow> nat \<Rightarrow> bool" where
  "row_names_part u i ls l \<longleftrightarrow> number_alone u (ls ! l) (di_mpn i) \<and>
     (\<exists>k. row_extent u (di_package i) ls l k \<and> says_in_order u (lines_joined (take (k + 1) (drop l ls))) (di_package i))"

definition text_names_part :: "unicode \<Rightarrow> raw_page option list \<Rightarrow> part_identity \<Rightarrow> bool" where
  "text_names_part u document i \<longleftrightarrow>
     (\<exists>page. Some page \<in> set document \<and> says_phrase u (page_text page) (di_manufacturer i)) \<and>
     (\<exists>page ls l. Some page \<in> set document \<and> page_lines page = Inr ls \<and> l < length ls \<and> row_names_part u i ls l)"

subsection \<open>The matchers of the code\<close>

lemma normalise_phrase_words: "normalise_phrase u s = join '' '' (phrase_words u s)"
  by (simp add: normalise_phrase_def phrase_words_def)

lemma phrase_words_plain: "list_all plain_word (phrase_words u s)"
  using words_plain_word by (auto simp: phrase_words_def list_all_iff)

lemma words_normalise: "words (normalise_phrase u s) = phrase_words u s"
  by (simp add: normalise_phrase_words words_join phrase_words_plain)

lemma contains_phrase_says: "contains_phrase u text phrase = says_phrase u text phrase"
proof -
  have "normalise_phrase u phrase = [] \<longleftrightarrow> phrase_words u phrase = []"
    by (metis list.simps(3) normalise_phrase_words words_nil words_normalise join.simps(1))
  moreover have "contains ('' '' @ normalise_phrase u phrase @ '' '') ('' '' @ normalise_phrase u text @ '' '') \<longleftrightarrow>
      (\<exists>before after. phrase_words u text = before @ phrase_words u phrase @ after)" if "phrase_words u phrase \<noteq> []"
    unfolding normalise_phrase_words by (rule contains_words [OF phrase_words_plain that phrase_words_plain])
  ultimately show ?thesis unfolding contains_phrase_def Let_def says_phrase_def by blast
qed

lemma ordered_tokens_says: "contains_ordered_tokens u text phrase 2 = says_in_order u text phrase"
  unfolding package_tokens_match_exact words_normalise says_in_order_def
  by (cases "phrase_words u phrase") (simp_all add: less_Suc_eq_le)

lemma exact_mpn_alone: "contains_exact_mpn u text mpn = number_alone u text mpn"
  unfolding part_number_match_exact number_alone_def by auto

lemma takeWhile_prefix:
  assumes "k \<le> length xs" and "\<And>m. m < k \<Longrightarrow> P (xs ! m)" and "k = length xs \<or> \<not> P (xs ! k)"
  shows "takeWhile P xs = take k xs"
proof -
  have "takeWhile P (take k xs @ drop k xs) = take k xs @ takeWhile P (drop k xs)"
    using assms(1,2) by (intro takeWhile_append2) (auto simp: in_set_conv_nth)
  also have "takeWhile P (drop k xs) = []"
  proof (cases "k < length xs")
    case True
    then have "drop k xs = xs ! k # drop (Suc k) xs" by (simp add: Cons_nth_drop_Suc)
    with True assms(3) show ?thesis by simp
  qed simp
  finally show ?thesis by simp
qed

text \<open>The loop that collects a row stops at its extent.\<close>

lemma row_lines_extent:
  assumes "row_extent u (di_package i) ls l k"
  shows "row_lines u i ls l = take (k + 1) (drop l ls)"
proof -
  let ?P = "\<lambda>x. \<not> starts_new_part_row u x (di_package i)"
  let ?xs = "take 3 (drop (l + 1) ls)"
  from assms have k: "k \<le> 3" "l + k < length ls" "\<And>m. l < m \<Longrightarrow> m \<le> l + k \<Longrightarrow> ?P (ls ! m)"
    "k = 3 \<or> l + k + 1 = length ls \<or> \<not> ?P (ls ! (l + k + 1))" unfolding row_extent_def by simp_all
  have nth: "?xs ! m = ls ! (l + 1 + m)" if "m < length ?xs" for m
  proof -
    have "m < 3" and "m < length ls - (l + 1)" using that by simp_all
    then have "m < 3" and "l + 1 + m < length ls" by linarith+
    then show ?thesis by (simp add: nth_drop)
  qed
  have "takeWhile ?P ?xs = take k ?xs"
  proof (rule takeWhile_prefix)
    show "k \<le> length ?xs" using k(1,2) by simp
    show "?P (?xs ! m)" if "m < k" for m using k(1,2) k(3) [of "l + 1 + m"] that nth [of m] by simp
    show "k = length ?xs \<or> \<not> ?P (?xs ! k)"
      using k(1,2,4) nth [of k] by (cases "k < length ?xs") (auto simp: min_def split: if_splits)
  qed
  moreover have "slice ls (l + 1) (l + 4) = ?xs" by (simp add: slice_def drop_take)
  moreover have "drop l ls = ls ! l # drop (l + 1) ls" using k(2) by (simp add: Cons_nth_drop_Suc)
  ultimately show ?thesis using k(1) by (simp add: row_lines_def take_Cons' min_def)
qed

lemma row_extent_exists:
  assumes "l < length ls"
  shows "\<exists>k. row_extent u package ls l k"
proof -
  let ?stop = "\<lambda>k. k = 3 \<or> l + k + 1 = length ls \<or> starts_new_part_row u (ls ! (l + k + 1)) package"
  define k where "k = (LEAST k. ?stop k)"
  have "?stop k" unfolding k_def by (rule LeastI [of ?stop 3]) simp
  moreover have before: "\<not> ?stop j" if "j < k" for j using that unfolding k_def by (rule not_less_Least)
  moreover have "k \<le> 3" unfolding k_def by (rule Least_le) simp
  moreover have "k \<le> length ls - l - 1" unfolding k_def by (rule Least_le) (use assms in auto)
  then have "l + k < length ls" using assms by simp
  moreover have "\<not> starts_new_part_row u (ls ! m) package" if m: "l < m" "m \<le> l + k" for m
    using before [of "m - l - 1"] m by simp
  ultimately show ?thesis unfolding row_extent_def by blast
qed

lemma grounded_row_names_part:
  assumes "l < length ls"
  shows "grounded_row u i ls l = row_names_part u i ls l"
  using row_extent_exists [OF assms] row_lines_extent
  unfolding grounded_row_def mpn_line_def row_names_part_def exact_mpn_alone ordered_tokens_says by metis

lemma loaded_pages: "(\<exists>i < length document. \<exists>page. load_page document i = Inr page \<and> P page) \<longleftrightarrow> (\<exists>page. Some page \<in> set document \<and> P page)"
  by (auto simp: load_page_def in_set_conv_nth split: option.splits)

lemma grounded_text_names_part: "grounded u document i = text_names_part u document i"
proof -
  have "names_row u document i (length document) \<longleftrightarrow>
      (\<exists>page. Some page \<in> set document \<and> (\<exists>ls l. page_lines page = Inr ls \<and> l < length ls \<and> row_names_part u i ls l))"
    unfolding names_row_def loaded_pages [symmetric] using grounded_row_names_part by blast
  then show ?thesis
    unfolding grounded_def names_manufacturer_def text_names_part_def contains_phrase_says loaded_pages by blast
qed

text \<open>
  C23. The identity gate is exact. Of a document whose pages can be read, \<open>_identity_package_candidate\<close> accepts an identity exactly when the
  text names it: on some page the words of the manufacturer stand together, and some line has the part number with no letter or
  digit at either end, while its row (that line and up to three more, up to the next part's) has the words of the package in order, closely together.
  The candidate is the crop of such a row. A number that continues with a letter or digit is a near miss and refused; one that continues
  with a dash is accepted, which the documentation does not say.
\<close>

theorem identity_gate_exact:
  assumes "scannable document"
  shows "((\<exists>c. identity_package_candidate u document i = Inr c) \<longleftrightarrow> text_names_part u document i) \<and>
    (case identity_package_candidate u document i of Inl _ \<Rightarrow> True
     | Inr c \<Rightarrow> \<exists>n page ls l blocks. load_page document n = Inr page \<and> page_lines page = Inr ls \<and> l < length ls \<and>
         row_names_part u i ls l \<and> extract_blocks page = Inr blocks \<and> c = package_candidate u i n page ls l blocks)"
proof -
  have "\<exists>n page ls l blocks. load_page document n = Inr page \<and> page_lines page = Inr ls \<and> l < length ls \<and>
      row_names_part u i ls l \<and> extract_blocks page = Inr blocks \<and> c = package_candidate u i n page ls l blocks"
    if "identity_package_candidate u document i = Inr c" for c
    using identity_package_candidate_scan [OF that] grounded_row_names_part unfolding evidence_for_def by metis
  then show ?thesis
    using gate_grounded [OF assms, of u i] unfolding grounded_text_names_part by (auto split: sum.split)
qed

text \<open>The demo document grounds its part; it does not ground a part whose number merely begins the same.\<close>

theorem identity_gate_exact_witness:
  "text_names_part demo_unicode demo_document demo_part \<and> \<not> text_names_part demo_unicode demo_document (demo_part\<lparr>di_mpn := ''A''\<rparr>)"
proof -
  have "isl (identity_package_candidate demo_unicode demo_document (demo_part\<lparr>di_mpn := ''A''\<rparr>))" by code_simp
  then have "\<not> (\<exists>c. identity_package_candidate demo_unicode demo_document (demo_part\<lparr>di_mpn := ''A''\<rparr>) = Inr c)" by auto
  then show ?thesis
    using identity_gate_exact [OF demo_scannable, of demo_unicode, THEN conjunct1] demo_part_candidate by blast
qed

text \<open>
  The documentation says that near-miss part numbers cause abstention; the variant \<open>A1-Q1\<close> satisfies the specification for \<open>A1\<close>.
\<close>

lemma variant_suffix_accepted: "number_alone demo_unicode ''U A1-Q1 D8'' ''A1''"
  unfolding exact_mpn_alone [symmetric] by code_simp

end
