(* ===== verification/PdfWorker.thy ===== *)
theory PdfWorker
  imports Json
begin

section \<open>The killable PDF worker\<close>

text \<open>
  \<open>src/dsvire/worker.py\<close>: the child process that parses an untrusted PDF under resource limits, the
  result file it leaves, and the parent that waits for it, decodes the result and cleans up. The
  parser the child runs is not modelled here: its outcome is a \<open>child_outcome\<close>. What the operating
  system and the scheduler decide (whether the scratch directory and the upload can be written, the
  process started, the
  deadline met, the exit code, the content of the result file) is the record \<open>observed\<close>. SIGKILL
  ends every process; SIGTERM ends one unless it \<open>ignores_term\<close>.
\<close>

subsection \<open>Exceptions and identities\<close>

record 't datasheet_identity =
  manufacturer :: 't
  mpn :: 't
  package :: 't
  source_url :: "'t option"

type_synonym identity = "string datasheet_identity"

datatype worker_exn = RetrievalFailed string | AmbiguousIdentity "identity list"
  | WorkerTimedOut | WorkerFailed string | OsFailure | JobCancelled
  | AttributeFailure | KeyFailure string | AssertionFailure string

text \<open>
  \<open>str(value)\<close> of a decoded value; \<open>rep\<close> is the interpreter's \<open>repr\<close> of floats and containers.
\<close>

fun py_str :: "(json \<Rightarrow> string) \<Rightarrow> json \<Rightarrow> string" where
  "py_str rep (JStr s) = s"
| "py_str rep (JInt i) = int_str i"
| "py_str rep (JBool b) = (if b then ''True'' else ''False'')"
| "py_str rep JNull = ''None''"
| "py_str rep v = rep v"

definition get_or :: "(string \<times> json) list \<Rightarrow> string \<Rightarrow> json \<Rightarrow> json" where
  "get_or d k dflt = (case map_of d k of Some v \<Rightarrow> v | None \<Rightarrow> dflt)"

subsection \<open>Resource limits\<close>

record worker_limits =
  cpu_seconds :: int
  memory_bytes :: int
  file_bytes :: int

datatype rlimit = RLIMIT_CPU | RLIMIT_AS | RLIMIT_FSIZE | RLIMIT_NOFILE | RLIMIT_CORE

text \<open>The soft and hard limit of a kind, \<open>None\<close> for \<open>RLIM_INFINITY\<close>.\<close>

type_synonym rlimits = "rlimit \<Rightarrow> int option \<times> int option"

definition cap :: "rlimit \<Rightarrow> int \<Rightarrow> rlimits \<Rightarrow> rlimits" where
  "cap kind requested lims =
     (let target = (case snd (lims kind) of None \<Rightarrow> requested | Some hard \<Rightarrow> min requested hard)
      in lims(kind := (Some target, Some target)))"

definition apply_resource_limits :: "bool \<Rightarrow> worker_limits \<Rightarrow> rlimits \<Rightarrow> rlimits" where
  "apply_resource_limits unix limits lims =
     (if \<not> unix then lims
      else cap RLIMIT_CORE 0 (cap RLIMIT_NOFILE 64 (cap RLIMIT_FSIZE (file_bytes limits)
             (cap RLIMIT_AS (memory_bytes limits) (cap RLIMIT_CPU (cpu_seconds limits) lims)))))"

subsection \<open>The child\<close>

datatype child_outcome = Returned json | RaisedRetrieval string
  | RaisedAmbiguous "identity list" | RaisedOther string

definition status_object :: "string \<Rightarrow> (string \<times> json) list \<Rightarrow> json" where
  "status_object status items = JObj ((''status'', JStr status) # items)"

definition ambiguity_message :: "identity list \<Rightarrow> string" where
  "ambiguity_message candidates =
     ''ambiguous part identity: '' @ nat_str (length candidates) @ '' candidates''"

definition public_candidates :: "identity list \<Rightarrow> json" where
  "public_candidates candidates = JArr (map (\<lambda>c. JObj [(''manufacturer'', JStr (manufacturer c)),
     (''mpn'', JStr (mpn c)), (''package'', JStr (package c))]) candidates)"

text \<open>
  The result file the two children write. \<open>IdentityAmbiguous\<close> is a \<open>RetrievalError\<close>, which is how the
  evidence child reports it.
\<close>

definition worker_main :: "child_outcome \<Rightarrow> json" where
  "worker_main out = (case out of
     Returned bundle \<Rightarrow> status_object ''ok'' [(''bundle'', bundle)]
   | RaisedRetrieval message \<Rightarrow> status_object ''retrieval_error'' [(''detail'', JStr message)]
   | RaisedAmbiguous candidates \<Rightarrow>
       status_object ''retrieval_error'' [(''detail'', JStr (ambiguity_message candidates))]
   | RaisedOther type_name \<Rightarrow>
       status_object ''worker_error'' [(''detail'', JStr (type_name @ '': worker failed''))])"

definition symbol_worker_main :: "child_outcome \<Rightarrow> json" where
  "symbol_worker_main out = (case out of
     Returned result \<Rightarrow> status_object ''ok'' [(''result'', result)]
   | RaisedAmbiguous candidates \<Rightarrow>
       status_object ''ambiguous_identity'' [(''candidates'', public_candidates candidates)]
   | RaisedRetrieval message \<Rightarrow> status_object ''retrieval_error'' [(''detail'', JStr message)]
   | RaisedOther type_name \<Rightarrow>
       status_object ''worker_error'' [(''detail'', JStr (type_name @ '': worker failed''))])"

subsection \<open>The parent\<close>

datatype signal = SIGTERM | SIGKILL

record child =
  started :: bool
  alive :: bool
  ignores_term :: bool
  exitcode :: "int option"
  signals :: "signal list"

text \<open>
  \<open>_terminate\<close>; \<open>join\<close> raises on a process that was never started.
\<close>

definition deliver :: "signal \<Rightarrow> child \<Rightarrow> child" where
  "deliver s c = c\<lparr>signals := signals c @ [s],
     alive := alive c \<and> s = SIGTERM \<and> ignores_term c,
     exitcode := (if alive c \<and> \<not> (s = SIGTERM \<and> ignores_term c)
                  then Some (if s = SIGTERM then - 15 else - 9) else exitcode c)\<rparr>"

definition terminate :: "child \<Rightarrow> worker_exn + child" where
  "terminate c =
     (if \<not> alive c then
        if started c then Inr c else Inl (AssertionFailure ''can only join a started process'')
      else let c1 = deliver SIGTERM c
           in if alive c1 then Inr (deliver SIGKILL c1) else Inr c1)"

datatype wait_outcome = Joined | DeadlinePassed | TaskCancelled

datatype result_file = Missing | Undecodable | Decoded json

record observed =
  scratch_name :: string
  scratch_ok :: bool
  upload_ok :: bool
  start_ok :: bool
  wait :: wait_outcome
  process_after_wait :: child
  result_text :: result_file

text \<open>The parent's world: the scratch directories under \<open>jobs/\<close> and the processes it started.\<close>

record host =
  scratch_dirs :: "string list"
  children :: "child list"

definition exit_message :: "int option \<Rightarrow> string" where
  "exit_message code = ''PDF worker exited with code '' @ (case code of None \<Rightarrow> ''None'' | Some i \<Rightarrow> int_str i)"

definition read_result :: "int option \<Rightarrow> result_file \<Rightarrow> worker_exn + (string \<times> json) list" where
  "read_result code file =
     (if code \<noteq> Some 0 then Inl (WorkerFailed (exit_message code))
      else case file of
        Missing \<Rightarrow> Inl (WorkerFailed ''PDF worker exited without a result'')
      | Undecodable \<Rightarrow> Inl (WorkerFailed ''PDF worker returned an invalid result'')
      | Decoded (JObj result) \<Rightarrow> Inr result
      | Decoded _ \<Rightarrow> Inl AttributeFailure)"

definition failure_detail :: "(json \<Rightarrow> string) \<Rightarrow> (string \<times> json) list \<Rightarrow> string \<Rightarrow> string" where
  "failure_detail rep result dflt = py_str rep (get_or result ''detail'' (JStr dflt))"

definition dict_field :: "(json \<Rightarrow> string) \<Rightarrow> string \<Rightarrow> (string \<times> json) list \<Rightarrow>
    worker_exn + (string \<times> json) list" where
  "dict_field rep key result =
     (if field result ''status'' = JStr ''retrieval_error''
      then Inl (RetrievalFailed (failure_detail rep result ''retrieval failed''))
      else case field result key of
        JObj payload \<Rightarrow>
          if field result ''status'' = JStr ''ok'' then Inr payload
          else Inl (WorkerFailed (failure_detail rep result ''PDF worker failed''))
      | _ \<Rightarrow> Inl (WorkerFailed (failure_detail rep result ''PDF worker failed'')))"

text \<open>The candidates of an ambiguity report; entries that are not dictionaries are skipped.\<close>

definition required :: "(json \<Rightarrow> string) \<Rightarrow> (string \<times> json) list \<Rightarrow> string \<Rightarrow> worker_exn + string" where
  "required rep item key = (case map_of item key of
     None \<Rightarrow> Inl (KeyFailure key) | Some v \<Rightarrow> Inr (py_str rep v))"

definition read_candidate :: "(json \<Rightarrow> string) \<Rightarrow> (string \<times> json) list \<Rightarrow> worker_exn + identity" where
  "read_candidate rep item =
     bindE (required rep item ''manufacturer'') (\<lambda>man.
     bindE (required rep item ''mpn'') (\<lambda>m.
     bindE (required rep item ''package'') (\<lambda>p.
       Inr \<lparr>manufacturer = man, mpn = m, package = p, source_url = None\<rparr>)))"

fun dict_items :: "json list \<Rightarrow> (string \<times> json) list list" where
  "dict_items [] = []"
| "dict_items (JObj d # vs) = d # dict_items vs"
| "dict_items (_ # vs) = dict_items vs"

definition decode_symbol_result :: "(json \<Rightarrow> string) \<Rightarrow> (string \<times> json) list \<Rightarrow>
    worker_exn + (string \<times> json) list" where
  "decode_symbol_result rep payload =
     (if field payload ''status'' = JStr ''ambiguous_identity''
      then case field payload ''candidates'' of
          JArr raw \<Rightarrow> bindE (mapE (read_candidate rep) (dict_items raw)) (\<lambda>cs. Inl (AmbiguousIdentity cs))
        | _ \<Rightarrow> Inl (WorkerFailed ''PDF worker returned invalid identity candidates'')
      else dict_field rep ''result'' payload)"

text \<open>
  The body of the \<open>try\<close> block: the result, and the process object if one was created.
\<close>

definition job_body :: "((string \<times> json) list \<Rightarrow> worker_exn + (string \<times> json) list) \<Rightarrow> observed \<Rightarrow>
    (worker_exn + (string \<times> json) list) \<times> child option" where
  "job_body decode w =
     (if \<not> scratch_ok w \<or> \<not> upload_ok w then (Inl OsFailure, None)
      else if \<not> start_ok w then
        (Inl OsFailure, Some \<lparr>started = False, alive = False, ignores_term = False, exitcode = None, signals = []\<rparr>)
      else let p = process_after_wait w in
        (case wait w of
           Joined \<Rightarrow> (bindE (read_result (exitcode p) (result_text w)) decode, Some p)
         | DeadlinePassed \<Rightarrow>
             (case terminate p of Inl e \<Rightarrow> (Inl e, Some p) | Inr p' \<Rightarrow> (Inl WorkerTimedOut, Some p'))
         | TaskCancelled \<Rightarrow>
             (case terminate p of Inl e \<Rightarrow> (Inl e, Some p) | Inr p' \<Rightarrow> (Inl JobCancelled, Some p'))))"

text \<open>
  The \<open>finally\<close> block: the process is terminated first, and an exception there replaces the result
  and skips the removal of the scratch directory.
\<close>

definition run_isolated :: "((string \<times> json) list \<Rightarrow> worker_exn + (string \<times> json) list) \<Rightarrow> observed \<Rightarrow>
    host \<Rightarrow> (worker_exn + (string \<times> json) list) \<times> host" where
  "run_isolated decode w h =
     (case job_body decode w of (result, process) \<Rightarrow>
        (case process of
           None \<Rightarrow> (result, h)
         | Some p \<Rightarrow>
             (case terminate p of
                Inl e \<Rightarrow> (Inl e, h\<lparr>scratch_dirs := scratch_dirs h @ [scratch_name w]\<rparr>)
              | Inr p' \<Rightarrow> (result, h\<lparr>children := children h @ [p']\<rparr>))))"

definition run_pdf_job :: "(json \<Rightarrow> string) \<Rightarrow> observed \<Rightarrow> host \<Rightarrow>
    (worker_exn + (string \<times> json) list) \<times> host" where
  "run_pdf_job rep = run_isolated (dict_field rep ''bundle'')"

definition run_symbol_job :: "(json \<Rightarrow> string) \<Rightarrow> observed \<Rightarrow> host \<Rightarrow>
    (worker_exn + (string \<times> json) list) \<times> host" where
  "run_symbol_job rep = run_isolated (decode_symbol_result rep)"


subsection \<open>Facts\<close>

lemma terminate_dead: "terminate p = Inr p' \<Longrightarrow> \<not> alive p'"
  by (auto simp: terminate_def deliver_def Let_def split: if_splits)

lemma terminate_started: "started p \<Longrightarrow> \<exists>p'. terminate p = Inr p' \<and> started p'"
  by (auto simp: terminate_def deliver_def Let_def)

lemma terminate_idle: "started p \<Longrightarrow> \<not> alive p \<Longrightarrow> terminate p = Inr p"
  by (simp add: terminate_def)

lemma job_body_started:
  assumes "started (process_after_wait w)" and "start_ok w \<or> \<not> upload_ok w \<or> \<not> scratch_ok w"
  shows "case snd (job_body decode w) of None \<Rightarrow> True | Some p \<Rightarrow> started p"
proof -
  obtain p' where "terminate (process_after_wait w) = Inr p'" "started p'"
    using terminate_started [OF assms(1)] by blast
  with assms show ?thesis by (auto simp: job_body_def Let_def split: wait_outcome.splits)
qed

lemma run_isolated_started:
  assumes "started (process_after_wait w)" and "start_ok w \<or> \<not> upload_ok w \<or> \<not> scratch_ok w"
  shows "fst (run_isolated decode w h) = fst (job_body decode w) \<and>
    scratch_dirs (snd (run_isolated decode w h)) = scratch_dirs h \<and>
    (\<exists>cs. children (snd (run_isolated decode w h)) = children h @ cs \<and> list_all (\<lambda>c. \<not> alive c) cs)"
proof (cases "job_body decode w")
  case (Pair result process)
  show ?thesis
  proof (cases process)
    case None
    with Pair show ?thesis by (simp add: run_isolated_def)
  next
    case (Some p)
    with job_body_started [OF assms, of decode] Pair have "started p" by simp
    then obtain p' where "terminate p = Inr p'" using terminate_started by blast
    with terminate_dead Pair Some show ?thesis by (simp add: run_isolated_def)
  qed
qed

text \<open>The parent's run when the child ends by itself with exit code 0.\<close>

definition clean_exit :: "observed \<Rightarrow> bool" where
  "clean_exit w \<longleftrightarrow> scratch_ok w \<and> upload_ok w \<and> start_ok w \<and> wait w = Joined \<and>
     started (process_after_wait w) \<and> \<not> alive (process_after_wait w) \<and>
     exitcode (process_after_wait w) = Some 0"

lemma run_isolated_clean:
  assumes "clean_exit w" and "result_text w = Decoded (JObj d)"
  shows "fst (run_isolated decode w h) = decode d"
  using assms run_isolated_started [of w decode h]
  by (simp add: clean_exit_def job_body_def read_result_def)

lemma dict_items_candidates:
  "dict_items (map (\<lambda>c. JObj (f c)) cs) = map f cs"
  by (induction cs) simp_all

lemma read_public_candidates:
  "(\<forall>c \<in> set cs. source_url c = None) \<Longrightarrow>
   mapE (read_candidate rep) (map (\<lambda>c. [(''manufacturer'', JStr (manufacturer c)),
     (''mpn'', JStr (mpn c)), (''package'', JStr (package c))]) cs) = Inr cs"
  by (induction cs) (auto simp: read_candidate_def required_def)

subsection \<open>Properties\<close>

text \<open>
  Cleaning up. Once the child was started (or the upload could not even be written), the parent
  leaves no scratch directory behind and no child alive, on every exit path: result, error of the
  child, deadline, cancellation, also when the child ignores SIGTERM.
\<close>

theorem pdf_job_cleans_up:
  assumes "started (process_after_wait w)" and "start_ok w \<or> \<not> upload_ok w \<or> \<not> scratch_ok w"
  shows "scratch_dirs (snd (run_pdf_job rep w h)) = scratch_dirs h \<and>
    scratch_dirs (snd (run_symbol_job rep w h)) = scratch_dirs h \<and>
    (\<exists>cs. children (snd (run_pdf_job rep w h)) = children h @ cs \<and> list_all (\<lambda>c. \<not> alive c) cs) \<and>
    (\<exists>cs. children (snd (run_symbol_job rep w h)) = children h @ cs \<and> list_all (\<lambda>c. \<not> alive c) cs)"
  unfolding run_pdf_job_def run_symbol_job_def using run_isolated_started [OF assms] by simp

definition stubborn_child :: child where
  "stubborn_child = \<lparr>started = True, alive = True, ignores_term = True, exitcode = None, signals = []\<rparr>"

definition late_run :: observed where
  "late_run = \<lparr>scratch_name = ''job-1'', scratch_ok = True, upload_ok = True, start_ok = True,
     wait = DeadlinePassed, process_after_wait = stubborn_child, result_text = Missing\<rparr>"

theorem pdf_job_cleans_up_witness:
  "scratch_dirs (snd (run_pdf_job (\<lambda>_. []) late_run \<lparr>scratch_dirs = [], children = []\<rparr>)) = [] \<and>
   fst (run_pdf_job (\<lambda>_. []) late_run \<lparr>scratch_dirs = [], children = []\<rparr>) = Inl WorkerTimedOut \<and>
   map signals (children (snd (run_pdf_job (\<lambda>_. []) late_run \<lparr>scratch_dirs = [], children = []\<rparr>))) =
     [[SIGTERM, SIGKILL]]"
proof -
  have "started (process_after_wait late_run)" "start_ok late_run" by code_simp+
  then have "scratch_dirs (snd (run_pdf_job (\<lambda>_. []) late_run \<lparr>scratch_dirs = [], children = []\<rparr>)) = []"
    using pdf_job_cleans_up [of late_run "\<lambda>_. []" "\<lparr>scratch_dirs = [], children = []\<rparr>"] by simp
  moreover have "fst (run_pdf_job (\<lambda>_. []) late_run \<lparr>scratch_dirs = [], children = []\<rparr>) = Inl WorkerTimedOut"
    by code_simp
  moreover have "map signals (children (snd (run_pdf_job (\<lambda>_. []) late_run \<lparr>scratch_dirs = [], children = []\<rparr>))) =
     [[SIGTERM, SIGKILL]]" by code_simp
  ultimately show ?thesis by simp
qed

text \<open>
  The exit path that does not clean up: when starting the process fails, the \<open>finally\<close> block joins
  a process that was never started, which raises, so the scratch directory with the uploaded PDF
  stays and the failure is reported as an assertion.
\<close>

theorem failed_start_leaves_upload:
  assumes "scratch_ok w" and "upload_ok w" and "\<not> start_ok w"
  shows "run_pdf_job rep w h = (Inl (AssertionFailure ''can only join a started process''),
    h\<lparr>scratch_dirs := scratch_dirs h @ [scratch_name w]\<rparr>)"
  using assms by (simp add: run_pdf_job_def run_isolated_def job_body_def terminate_def)

theorem failed_start_leaves_upload_witness:
  "run_pdf_job (\<lambda>_. []) (late_run\<lparr>start_ok := False\<rparr>) \<lparr>scratch_dirs = [], children = []\<rparr> =
     (Inl (AssertionFailure ''can only join a started process''), \<lparr>scratch_dirs = [''job-1''], children = []\<rparr>)"
proof -
  have "scratch_ok (late_run\<lparr>start_ok := False\<rparr>)" "upload_ok (late_run\<lparr>start_ok := False\<rparr>)"
    "\<not> start_ok (late_run\<lparr>start_ok := False\<rparr>)" "scratch_name (late_run\<lparr>start_ok := False\<rparr>) = ''job-1''"
    by code_simp+
  then show ?thesis using failed_start_leaves_upload by simp
qed

text \<open>
  What the child reports is what the caller gets: a child that ends normally after writing its
  result file makes the parent return its bundle or symbol, or raise the same retrieval error, or the
  same candidate identities; any other exception of the child becomes a \<open>WorkerError\<close> that names only
  the exception type. (An ambiguous identity reaches the caller of the evidence job as a plain
  retrieval error.)
\<close>

theorem child_outcome_reported:
  assumes "clean_exit w" and "clean_exit w'"
    and "result_text w = Decoded (worker_main out)" and "result_text w' = Decoded (symbol_worker_main out)"
  shows "case out of
      Returned (JObj b) \<Rightarrow> fst (run_pdf_job rep w h) = Inr b \<and> fst (run_symbol_job rep w' h) = Inr b
    | Returned _ \<Rightarrow> \<exists>m. fst (run_pdf_job rep w h) = Inl (WorkerFailed m)
    | RaisedRetrieval m \<Rightarrow> fst (run_pdf_job rep w h) = Inl (RetrievalFailed m) \<and>
        fst (run_symbol_job rep w' h) = Inl (RetrievalFailed m)
    | RaisedAmbiguous cs \<Rightarrow> fst (run_pdf_job rep w h) = Inl (RetrievalFailed (ambiguity_message cs)) \<and>
        fst (run_symbol_job rep w' h) = Inl (AmbiguousIdentity (map (\<lambda>c. c\<lparr>source_url := None\<rparr>) cs))
    | RaisedOther t \<Rightarrow> fst (run_pdf_job rep w h) = Inl (WorkerFailed (t @ '': worker failed'')) \<and>
        fst (run_symbol_job rep w' h) = Inl (WorkerFailed (t @ '': worker failed''))"
proof -
  have cands: "mapE (read_candidate rep) (dict_items (map (\<lambda>c. JObj [(''manufacturer'', JStr (manufacturer c)),
      (''mpn'', JStr (mpn c)), (''package'', JStr (package c))]) cs)) =
    Inr (map (\<lambda>c. c\<lparr>source_url := None\<rparr>) cs)" for cs
    using read_public_candidates [of "map (\<lambda>c. c\<lparr>source_url := None\<rparr>) cs" rep]
    by (simp add: dict_items_candidates comp_def)
  show ?thesis
    using assms cands
    by (auto simp: run_pdf_job_def run_symbol_job_def run_isolated_clean worker_main_def symbol_worker_main_def
        status_object_def dict_field_def decode_symbol_result_def field_def failure_detail_def get_or_def
        public_candidates_def split: child_outcome.splits json.splits)
qed

definition good_run :: "json \<Rightarrow> observed" where
  "good_run v = late_run\<lparr>wait := Joined, result_text := Decoded v,
     process_after_wait := \<lparr>started = True, alive = False, ignores_term = False, exitcode = Some 0, signals = []\<rparr>\<rparr>"

theorem child_outcome_reported_witness:
  "fst (run_symbol_job (\<lambda>_. []) (good_run (symbol_worker_main (RaisedAmbiguous
     [\<lparr>manufacturer = ''TI'', mpn = ''X1'', package = ''DIP-8'', source_url = None\<rparr>])))
     \<lparr>scratch_dirs = [], children = []\<rparr>) =
   Inl (AmbiguousIdentity [\<lparr>manufacturer = ''TI'', mpn = ''X1'', package = ''DIP-8'', source_url = None\<rparr>])"
proof -
  let ?cs = "[\<lparr>manufacturer = ''TI'', mpn = ''X1'', package = ''DIP-8'', source_url = None\<rparr>]"
  have "clean_exit (good_run v)" and "result_text (good_run v) = Decoded v" for v
    by (simp_all add: good_run_def late_run_def clean_exit_def)
  then show ?thesis
    using child_outcome_reported [of "good_run (worker_main (RaisedAmbiguous ?cs))"
        "good_run (symbol_worker_main (RaisedAmbiguous ?cs))" "RaisedAmbiguous ?cs" "\<lambda>_. []"
        "\<lparr>scratch_dirs = [], children = []\<rparr>"] by simp
qed

text \<open>
  Limits only tighten: after \<open>_apply_resource_limits\<close> every limited resource has equal soft and hard
  limits, at most what was requested and at most the hard limit before, so no \<open>setrlimit\<close> call can
  raise a limit.
\<close>

theorem resource_limits_only_tighten:
  "\<exists>n. apply_resource_limits True limits lims kind = (Some n, Some n) \<and>
     n \<le> (case kind of RLIMIT_CPU \<Rightarrow> cpu_seconds limits | RLIMIT_AS \<Rightarrow> memory_bytes limits
       | RLIMIT_FSIZE \<Rightarrow> file_bytes limits | RLIMIT_NOFILE \<Rightarrow> 64 | RLIMIT_CORE \<Rightarrow> 0) \<and>
     (case snd (lims kind) of None \<Rightarrow> True | Some hard \<Rightarrow> n \<le> hard)"
  by (cases kind) (auto simp: apply_resource_limits_def cap_def Let_def split: option.splits)

end
