(* ===== verification/Bundle.thy ===== *)
theory Bundle
  imports Json
begin

section \<open>Result bundles\<close>

text \<open>
  \<open>src/dsvire/bundle.py\<close>. The ZIP writer is the parameter \<open>zip_bytes\<close>: the archive bytes for a list of
  entries written in order with fixed times and attributes. \<open>sha\<close> is the hexadecimal SHA-256 and
  \<open>frepr\<close> the decimal form of a float. A mapping is the list of its items, in insertion order.
\<close>

record result_bundle =
  bundle_payload :: bytes
  bundle_sha256 :: string
  bundle_manifest :: json

datatype bundle_error = NoArtifacts | UnsafeBundlePath string | ReservedOrDuplicate string

type_synonym artifacts = "(string \<times> bytes) list"

definition canonical :: "(pyfloat \<Rightarrow> string) \<Rightarrow> json \<Rightarrow> bytes" where
  "canonical frepr v = utf8_encode (dumps False frepr v)"

definition normalized :: "string \<Rightarrow> string" where
  "normalized name = dropWhile (\<lambda>c. c = CHR ''/'') (replace_char (char_of (92::nat)) CHR ''/'' name)"

definition unsafe_path :: "string \<Rightarrow> bool" where
  "unsafe_path n \<longleftrightarrow> n = [] \<or> starts_with ''../'' n \<or> contains ''/../'' n"

definition clean_step :: "artifacts \<Rightarrow> string \<times> bytes \<Rightarrow> bundle_error + artifacts" where
  "clean_step clean item = (case item of (name, payload) \<Rightarrow>
     let n = normalized name in
       if unsafe_path n then Inl (UnsafeBundlePath name)
       else if n = ''manifest.json'' \<or> n \<in> set (map fst clean) then Inl (ReservedOrDuplicate n)
       else Inr (clean @ [(n, payload)]))"

definition file_entry :: "(bytes \<Rightarrow> string) \<Rightarrow> string \<times> bytes \<Rightarrow> json" where
  "file_entry sha item = JObj [(''path'', JStr (fst item)), (''bytes'', JInt (int (length (snd item)))),
     (''sha256'', JStr (sha (snd item)))]"

definition manifest_of :: "(bytes \<Rightarrow> string) \<Rightarrow> (string \<times> json) list \<Rightarrow> artifacts \<Rightarrow> json" where
  "manifest_of sha metadata clean =
     JObj [(''schema_version'', JStr ''dsvire.bundle.v1''), (''metadata'', JObj metadata),
       (''files'', JArr (map (file_entry sha) (sort_key fst clean)))]"

definition zip_entries :: "(pyfloat \<Rightarrow> string) \<Rightarrow> json \<Rightarrow> artifacts \<Rightarrow> artifacts" where
  "zip_entries frepr manifest clean = sort_key fst (clean @ [(''manifest.json'', canonical frepr manifest)])"

definition build_bundle :: "(artifacts \<Rightarrow> bytes) \<Rightarrow> (bytes \<Rightarrow> string) \<Rightarrow> (pyfloat \<Rightarrow> string) \<Rightarrow>
    artifacts \<Rightarrow> (string \<times> json) list \<Rightarrow> bundle_error + result_bundle" where
  "build_bundle zip_bytes sha frepr files metadata =
     (if files = [] then Inl NoArtifacts
      else bindE (foldE clean_step [] files) (\<lambda>clean.
        let manifest = manifest_of sha metadata clean;
            payload = zip_bytes (zip_entries frepr manifest clean)
        in Inr \<lparr>bundle_payload = payload, bundle_sha256 = sha payload, bundle_manifest = manifest\<rparr>))"

subsection \<open>Facts\<close>

text \<open>What the cleaning loop returns: the normalized items, when they are safe and distinct.\<close>

definition clean_names :: "string list \<Rightarrow> bool" where
  "clean_names ns \<longleftrightarrow> distinct ns \<and> list_all (\<lambda>n. \<not> unsafe_path n \<and> n \<noteq> ''manifest.json'') ns"

definition normalized_item :: "string \<times> bytes \<Rightarrow> string \<times> bytes" where
  "normalized_item item = (normalized (fst item), snd item)"

lemma clean_loop:
  "foldE clean_step acc files = Inr clean \<longleftrightarrow>
     clean = acc @ map normalized_item files \<and>
     list_all (\<lambda>n. \<not> unsafe_path n \<and> n \<noteq> ''manifest.json'') (map (\<lambda>i. normalized (fst i)) files) \<and>
     distinct (map (\<lambda>i. normalized (fst i)) files) \<and>
     set (map (\<lambda>i. normalized (fst i)) files) \<inter> set (map fst acc) = {}"
proof (induction files arbitrary: acc)
  case (Cons item files)
  obtain name payload where item: "item = (name, payload)" by (cases item)
  show ?case
  proof (cases "clean_step acc item")
    case (Inl e)
    then show ?thesis by (auto simp: item clean_step_def Let_def split: if_splits)
  next
    case (Inr acc')
    then have step: "acc' = acc @ [(normalized name, payload)]" "\<not> unsafe_path (normalized name)"
      "normalized name \<noteq> ''manifest.json''" "normalized name \<notin> set (map fst acc)"
      by (auto simp: item clean_step_def Let_def split: if_splits)
    have eq: "foldE clean_step acc (item # files) = foldE clean_step acc' files" using Inr by simp
    show ?thesis unfolding eq Cons.IH using step by (auto simp: item normalized_item_def comp_def)
  qed
qed auto

lemma clean_loop_names:
  "foldE clean_step [] files = Inr clean \<Longrightarrow> clean_names (map fst clean)"
  by (auto simp: clean_loop clean_names_def normalized_item_def comp_def list_all_iff)

lemma clean_loop_mset:
  assumes "foldE clean_step [] files = Inr clean" and "mset files' = mset files"
  shows "\<exists>clean'. foldE clean_step [] files' = Inr clean' \<and> mset clean' = mset clean"
proof -
  have m: "mset (map (\<lambda>i. normalized (fst i)) files') = mset (map (\<lambda>i. normalized (fst i)) files)"
    using assms(2) by (metis mset_map)
  have set: "set (map (\<lambda>i. normalized (fst i)) files') = set (map (\<lambda>i. normalized (fst i)) files)"
    using m by (rule mset_eq_setD)
  have "distinct (map (\<lambda>i. normalized (fst i)) files')"
    using assms(1) m by (metis clean_loop mset_eq_imp_distinct_iff)
  then have "foldE clean_step [] files' = Inr (map normalized_item files')"
    using assms(1) set by (simp only: clean_loop list_all_iff) simp
  moreover have "mset (map normalized_item files') = mset clean"
    using assms by (simp add: clean_loop mset_map)
  ultimately show ?thesis by blast
qed

text \<open>
  The part of a name that can climb out of a directory: a component \<open>..\<close>.
\<close>

definition climbs :: "string \<Rightarrow> bool" where
  "climbs n \<longleftrightarrow> ''..'' \<in> set (split_on CHR ''/'' n)"

subsection \<open>Properties\<close>

text \<open>
  Bundles are reproducible: the archive, its hash and its manifest do not depend on the order in
  which the files were collected.
\<close>

theorem bundle_order_independent:
  assumes "mset files' = mset files"
    and "build_bundle zip_bytes sha frepr files metadata = Inr b"
  shows "build_bundle zip_bytes sha frepr files' metadata = Inr b"
proof -
  from assms(2) obtain clean where clean: "foldE clean_step [] files = Inr clean" "files \<noteq> []"
    by (auto simp: build_bundle_def split: if_splits)
  obtain clean' where clean': "foldE clean_step [] files' = Inr clean'" "mset clean' = mset clean"
    using clean_loop_mset [OF clean(1) assms(1)] by blast
  have d: "distinct (map fst clean)" and m: "''manifest.json'' \<notin> set (map fst clean)"
    using clean_loop_names [OF clean(1)] by (auto simp: clean_names_def list_all_iff)
  then have "sort_key fst clean = sort_key fst clean'"
    using clean'(2) by (intro sort_key_fst_mset) simp_all
  moreover have "sort_key fst (clean @ [(''manifest.json'', x)]) = sort_key fst (clean' @ [(''manifest.json'', x)])" for x
    using d m clean'(2) by (intro sort_key_fst_mset) simp_all
  moreover have "files' \<noteq> []" using assms(1) clean(2) by auto
  ultimately show ?thesis
    using assms(2) clean clean' by (simp add: build_bundle_def Let_def manifest_of_def zip_entries_def)
qed

text \<open>
  Bundles describe themselves: the archive holds its manifest and exactly the artifacts, in sorted
  order under distinct, normalized names, and the manifest lists every artifact with its size and its
  hash, and nothing else.
\<close>

theorem bundle_self_describing:
  assumes "build_bundle zip_bytes sha frepr files metadata = Inr b"
  shows "\<exists>clean. mset clean = mset (map normalized_item files) \<and>
    sorted (map fst clean) \<and> clean_names (map fst clean) \<and>
    bundle_manifest b = JObj [(''schema_version'', JStr ''dsvire.bundle.v1''), (''metadata'', JObj metadata),
      (''files'', JArr (map (\<lambda>(n, p). JObj [(''path'', JStr n), (''bytes'', JInt (int (length p))),
         (''sha256'', JStr (sha p))]) clean))] \<and>
    (\<exists>entries. bundle_payload b = zip_bytes entries \<and> bundle_sha256 b = sha (zip_bytes entries) \<and>
       sorted (map fst entries) \<and> distinct (map fst entries) \<and>
       mset entries = mset clean + {#(''manifest.json'', canonical frepr (bundle_manifest b))#})"
proof -
  from assms obtain clean where clean: "foldE clean_step [] files = Inr clean"
    and b: "bundle_manifest b = manifest_of sha metadata clean"
      "bundle_payload b = zip_bytes (zip_entries frepr (bundle_manifest b) clean)"
      "bundle_sha256 b = sha (bundle_payload b)"
    by (auto simp: build_bundle_def Let_def split: if_splits)
  let ?s = "sort_key fst clean"
  let ?e = "zip_entries frepr (bundle_manifest b) clean"
  have names: "clean_names (map fst clean)" using clean by (rule clean_loop_names)
  have sm: "mset (map fst ?s) = mset (map fst clean)" by (simp add: mset_map)
  have "clean_names (map fst ?s)"
    using names mset_eq_imp_distinct_iff [OF sm] mset_eq_setD [OF sm] by (simp add: clean_names_def list_all_iff)
  moreover have "file_entry sha = (\<lambda>(n, p). JObj [(''path'', JStr n), (''bytes'', JInt (int (length p))),
         (''sha256'', JStr (sha p))])"
    by (auto simp: file_entry_def)
  moreover have "mset ?s = mset (map normalized_item files)"
    using clean by (simp add: clean_loop)
  moreover have em: "mset (map fst ?e) = mset (map fst clean @ [''manifest.json''])"
    by (simp add: zip_entries_def mset_map)
  have "distinct (map fst ?e)"
    using names mset_eq_imp_distinct_iff [OF em] by (auto simp: clean_names_def list_all_iff)
  moreover have "sorted (map fst ?e)" "mset ?e = mset ?s + {#(''manifest.json'', canonical frepr (bundle_manifest b))#}"
    by (simp_all add: zip_entries_def)
  ultimately show ?thesis using b by (intro exI [of _ ?s] conjI exI [of _ ?e]) (simp_all add: manifest_of_def)
qed

text \<open>
  The path guard is not a confinement: it rejects the components \<open>..\<close> that are followed by a slash,
  but accepts names that end in one, such as \<open>..\<close> itself.
\<close>

theorem bundle_guard_misses_final_dotdot:
  "\<not> unsafe_path (normalized ''..'') \<and> \<not> unsafe_path (normalized ''a/..'') \<and>
   climbs (normalized ''..'') \<and> climbs (normalized ''a/..'') \<and>
   \<not> isl (build_bundle zip_bytes sha frepr [(''..'', payload)] metadata)"
proof (intro conjI)
  show "\<not> unsafe_path (normalized ''..'')" "\<not> unsafe_path (normalized ''a/..'')"
    "climbs (normalized ''..'')" "climbs (normalized ''a/..'')" by code_simp+
  have "\<not> unsafe_path (normalized ''..'')" "normalized ''..'' \<noteq> ''manifest.json''" by code_simp+
  then show "\<not> isl (build_bundle zip_bytes sha frepr [(''..'', payload)] metadata)"
    by (simp add: build_bundle_def clean_step_def Let_def)
qed

definition demo_files :: artifacts where
  "demo_files = [(''evidence.json'', ''{}''), (''crops/r.webp'', ''RIFF'')]"

definition demo_zip :: "artifacts \<Rightarrow> bytes" where
  "demo_zip es = concat (map (\<lambda>(n, p). n @ p) es)"

lemma demo_build: "\<exists>b. build_bundle demo_zip id (\<lambda>_. []) demo_files [] = Inr b"
proof -
  have "isl (foldE clean_step [] demo_files) = False" by code_simp
  moreover have "demo_files \<noteq> []" by (simp add: demo_files_def)
  ultimately show ?thesis
    by (cases "foldE clean_step [] demo_files") (simp_all add: build_bundle_def Let_def)
qed

theorem bundle_order_independent_witness:
  "build_bundle demo_zip id (\<lambda>_. []) (rev demo_files) [] = build_bundle demo_zip id (\<lambda>_. []) demo_files []"
proof -
  obtain b where "build_bundle demo_zip id (\<lambda>_. []) demo_files [] = Inr b" using demo_build by blast
  then show ?thesis using bundle_order_independent [of "rev demo_files" demo_files] by simp
qed

theorem bundle_self_describing_witness:
  "\<exists>b clean. build_bundle demo_zip id (\<lambda>_. []) demo_files [] = Inr b \<and> clean_names (map fst clean) \<and>
     mset clean = mset (map normalized_item demo_files)"
proof -
  obtain b where "build_bundle demo_zip id (\<lambda>_. []) demo_files [] = Inr b" using demo_build by blast
  with bundle_self_describing [OF this] show ?thesis by blast
qed

end
