(* ===== verification/PlatformWorker.thy ===== *)
theory PlatformWorker
  imports PlatformRun PdfWorker Bundle
begin

section \<open>The lease worker\<close>

text \<open>
  \<open>src/dsvire/platform_worker.py\<close>: what one worker does with one lease. The database calls of a worker
  interleave with the transactions of everybody else: a \<open>schedule\<close> gives, for each call, the
  transactions that commit before it and the clock reading of the call itself, and the outcomes of
  the PDF child and of the storage medium. Services the worker uses are the record \<open>runtime\<close>: the
  object store, the ZIP writer, SHA-256, and the printed forms of values.
\<close>

subsection \<open>Services and schedules\<close>

record ('e, 's) runtime =
  store_put :: "'e \<Rightarrow> 's \<Rightarrow> string \<Rightarrow> string \<Rightarrow> bytes \<Rightarrow> string \<Rightarrow> string \<Rightarrow> store_error + (object_ref \<times> 's)"
  store_get :: "'s \<Rightarrow> object_ref \<Rightarrow> store_error + bytes"
  zip_bytes :: "artifacts \<Rightarrow> bytes"
  sha256_hex :: "bytes \<Rightarrow> string"
  float_repr :: "pyfloat \<Rightarrow> string"
  value_repr :: "json \<Rightarrow> string"

type_synonym call = "(time \<times> db_op) list \<times> time"

record 'e schedule =
  first_beat :: call
  second_beat :: call
  last_call :: call
  pdf_run :: observed
  packs :: filesystem
  bundle_medium :: 'e
  evidence_medium :: 'e

datatype lease_exn = WorkerRaised worker_exn | StoreRaised store_error
  | BundleRaised bundle_error | DbRaised db_error | TypeRaised

subsection \<open>Collecting the artifacts\<close>

definition crop_path :: "path \<Rightarrow> string \<Rightarrow> string \<Rightarrow> path" where
  "crop_path packs_root pack rest =
     (if starts_with ''/'' rest then walk [] (split_on CHR ''/'' rest)
      else walk packs_root ([pack, ''crops''] @ split_on CHR ''/'' rest))"

definition add_crop :: "path \<Rightarrow> filesystem \<Rightarrow> artifacts \<Rightarrow> json \<Rightarrow> lease_exn + artifacts" where
  "add_crop packs_root fs files region = (case region of
     JObj r \<Rightarrow>
       (case get_or r ''crop_uri'' (JStr []) of
          JStr uri \<Rightarrow>
            (case split_once CHR ''/'' (remove_prefix ''dsvire://pack/'' uri) of
               [pack, rest] \<Rightarrow>
                 if starts_with ''../'' rest
                 then Inl (WorkerRaised (WorkerFailed ''worker returned an unsafe crop URI''))
                 else (case read_bytes fs (crop_path packs_root pack rest) of
                     Inl e \<Rightarrow> Inl (WorkerRaised OsFailure)
                   | Inr crop \<Rightarrow> Inr (AList.update (''crops/'' @ rest) crop files))
             | _ \<Rightarrow> Inl (WorkerRaised (WorkerFailed ''worker returned an unsafe crop URI'')))
        | _ \<Rightarrow> Inl (WorkerRaised AttributeFailure))
   | _ \<Rightarrow> Inl (WorkerRaised AttributeFailure))"

definition iterate :: "json \<Rightarrow> lease_exn + json list" where
  "iterate v = (case v of
     JArr xs \<Rightarrow> Inr xs
   | JObj d \<Rightarrow> Inr (map (\<lambda>(k, _). JStr k) d)
   | JStr s \<Rightarrow> Inr (map (\<lambda>c. JStr [c]) s)
   | _ \<Rightarrow> Inl TypeRaised)"

definition collect_artifacts :: "(pyfloat \<Rightarrow> string) \<Rightarrow> path \<Rightarrow> filesystem \<Rightarrow> (string \<times> json) list \<Rightarrow>
    lease_exn + artifacts" where
  "collect_artifacts frepr packs_root fs evidence =
     bindE (iterate (get_or evidence ''regions'' (JArr []))) (\<lambda>regions.
       foldE (add_crop packs_root fs)
         [(''evidence.json'', utf8_encode (dumps_indent True frepr 0 (JObj evidence) @ [char_of (10::nat)]))]
         regions)"

subsection \<open>One lease\<close>

definition request_items :: "json \<Rightarrow> (string \<times> json) list" where
  "request_items v = (case v of JObj d \<Rightarrow> d | _ \<Rightarrow> [])"

definition lease_identity :: "(json \<Rightarrow> string) \<Rightarrow> json \<Rightarrow> worker_exn + identity" where
  "lease_identity rep req = (let r = request_items req in
     bindE (required rep r ''manufacturer'') (\<lambda>man.
     bindE (required rep r ''mpn'') (\<lambda>m.
     bindE (required rep r ''package'') (\<lambda>p.
       Inr \<lparr>manufacturer = man, mpn = m, package = p,
            source_url = (if truthy (field r ''source_url'') then Some (py_str rep (field r ''source_url'')) else None)\<rparr>))))"

definition lift :: "('e \<Rightarrow> lease_exn) \<Rightarrow> 'e + 'a \<Rightarrow> lease_exn + 'a" where
  "lift wrap m = (case m of Inl e \<Rightarrow> Inl (wrap e) | Inr x \<Rightarrow> Inr x)"

definition ref_json :: "object_ref \<Rightarrow> json" where
  "ref_json r = JObj [(''key'', JStr (ref_key r)), (''sha256'', JStr (ref_sha256 r)),
     (''size'', JInt (ref_size r)), (''content_type'', JStr (ref_content_type r))]"

definition job_result_json :: "object_ref \<Rightarrow> object_ref \<Rightarrow> json" where
  "job_result_json bundle_ref evidence_ref =
     JObj [(''schema_version'', JStr ''dsvire.job-result.v1''), (''bundle'', ref_json bundle_ref),
       (''evidence'', ref_json evidence_ref)]"

text \<open>
  The part of the \<open>try\<close> block after the second heartbeat: the two stored objects, the store, and the
  host of the PDF child.
\<close>

definition extract_and_store :: "('e, 's) runtime \<Rightarrow> 'e schedule \<Rightarrow> path \<Rightarrow> lease \<Rightarrow> 's \<Rightarrow> host \<Rightarrow>
    (lease_exn + (object_ref \<times> object_ref)) \<times> 's \<times> host" where
  "extract_and_store rt sch packs_root l s h =
     (case run_pdf_job (value_repr rt) (pdf_run sch) h of (outcome, h') \<Rightarrow>
        let prepared = bindE (lift WorkerRaised outcome) (\<lambda>evidence.
              bindE (collect_artifacts (float_repr rt) packs_root (packs sch) evidence) (\<lambda>files.
              bindE (lift BundleRaised (build_bundle (zip_bytes rt) (sha256_hex rt) (float_repr rt) files
                  [(''job_id'', JStr (le_job l)), (''document_sha256'', JStr (ref_sha256 (le_document l))),
                   (''pipeline_version'', field evidence ''schema_version'')])) (\<lambda>b.
                Inr (b, the (map_of files ''evidence.json'')))))
        in case prepared of
             Inl e \<Rightarrow> (Inl e, s, h')
           | Inr (b, evidence_bytes) \<Rightarrow>
               (case store_put rt (bundle_medium sch) s (le_tenant l) ''bundle'' (bundle_payload b) ''zip'' ''application/zip'' of
                  Inl e \<Rightarrow> (Inl (StoreRaised e), s, h')
                | Inr (bundle_ref, s1) \<Rightarrow>
                    (case store_put rt (evidence_medium sch) s1 (le_tenant l) ''evidence'' evidence_bytes ''json'' ''application/json'' of
                       Inl e \<Rightarrow> (Inl (StoreRaised e), s1, h')
                     | Inr (evidence_ref, s2) \<Rightarrow> (Inr (bundle_ref, evidence_ref), s2, h'))))"

text \<open>The \<open>except\<close> clauses: the error code and whether it is retryable; any other exception propagates.\<close>

definition handler :: "lease_exn \<Rightarrow> (string \<times> bool) option" where
  "handler e = (case e of
     WorkerRaised (RetrievalFailed _) \<Rightarrow> Some (''invalid_or_unsupported_pdf'', False)
   | WorkerRaised (AmbiguousIdentity _) \<Rightarrow> Some (''invalid_or_unsupported_pdf'', False)
   | WorkerRaised WorkerTimedOut \<Rightarrow> Some (''worker_timeout'', True)
   | WorkerRaised (WorkerFailed _) \<Rightarrow> Some (''worker_failed'', True)
   | WorkerRaised OsFailure \<Rightarrow> Some (''worker_failed'', True)
   | StoreRaised OsError \<Rightarrow> Some (''worker_failed'', True)
   | _ \<Rightarrow> None)"

definition finish_call :: "(string \<Rightarrow> string) \<Rightarrow> call \<Rightarrow> uuid \<Rightarrow> string \<Rightarrow> json option \<Rightarrow> string option \<Rightarrow>
    bool \<Rightarrow> db \<Rightarrow> (lease_exn + unit) \<times> db" where
  "finish_call sha c jid owner result code retryable d =
     (let d1 = run_ops sha (fst c) d
      in case finish (snd c) jid owner result code retryable d1 of
           Inl e \<Rightarrow> (Inl (DbRaised e), d1)
         | Inr d2 \<Rightarrow> (Inr (), d2))"

definition process_lease :: "('e, 's) runtime \<Rightarrow> 'e schedule \<Rightarrow> path \<Rightarrow> int \<Rightarrow> lease \<Rightarrow> string \<Rightarrow>
    db \<Rightarrow> 's \<Rightarrow> host \<Rightarrow> (lease_exn + unit) \<times> db \<times> 's \<times> host" where
  "process_lease rt sch packs_root secs l owner d s h =
     (let sha = sha256_hex rt; jid = le_job l in
      case heartbeat (snd (first_beat sch)) jid owner ''downloading'' secs (run_ops sha (fst (first_beat sch)) d) of
        (False, d1) \<Rightarrow>
          (case finish_call sha (last_call sch) jid owner None None False d1 of (r, d2) \<Rightarrow> (r, d2, s, h))
      | (True, d1) \<Rightarrow>
          (case bindE (lift StoreRaised (store_get rt s (le_document l)))
                  (\<lambda>_. lift WorkerRaised (lease_identity (value_repr rt) (le_request l))) of
             Inl e \<Rightarrow>
               (case handler e of
                  None \<Rightarrow> (Inl e, d1, s, h)
                | Some (code, retryable) \<Rightarrow>
                    (case finish_call sha (last_call sch) jid owner None (Some code) retryable d1 of
                       (r, d2) \<Rightarrow> (r, d2, s, h)))
           | Inr _ \<Rightarrow>
               (case heartbeat (snd (second_beat sch)) jid owner ''extracting'' secs
                       (run_ops sha (fst (second_beat sch)) d1) of
                  (False, d2) \<Rightarrow>
                    (case finish_call sha (last_call sch) jid owner None None False d2 of (r, d3) \<Rightarrow> (r, d3, s, h))
                | (True, d2) \<Rightarrow>
                    (case extract_and_store rt sch packs_root l s h of
                       (Inl e, s', h') \<Rightarrow>
                         (case handler e of
                            None \<Rightarrow> (Inl e, d2, s', h')
                          | Some (code, retryable) \<Rightarrow>
                              (case finish_call sha (last_call sch) jid owner None (Some code) retryable d2 of
                                 (r, d3) \<Rightarrow> (r, d3, s', h')))
                     | (Inr (bundle_ref, evidence_ref), s', h') \<Rightarrow>
                         (case finish_call sha (last_call sch) jid owner
                                 (Some (job_result_json bundle_ref evidence_ref)) None False d2 of
                            (r, d3) \<Rightarrow> (r, d3, s', h'))))))"


subsection \<open>A lease as a sequence of transactions\<close>

definition environment :: "'e schedule \<Rightarrow> (time \<times> db_op) list" where
  "environment sch = fst (first_beat sch) @ fst (second_beat sch) @ fst (last_call sch)"

text \<open>The operations a worker performs itself; a result it reports is the one it stored.\<close>

definition own_op :: "uuid \<Rightarrow> string \<Rightarrow> (json \<Rightarrow> bool) \<Rightarrow> db_op \<Rightarrow> bool" where
  "own_op jid owner stored op \<longleftrightarrow> (case op of
     Heartbeat jid' owner' _ _ \<Rightarrow> jid' = jid \<and> owner' = owner
   | Finish jid' owner' result _ _ \<Rightarrow> jid' = jid \<and> owner' = owner \<and>
       (case result of None \<Rightarrow> True | Some v \<Rightarrow> stored v)
   | _ \<Rightarrow> False)"

definition stored_result :: "('e, 's) runtime \<Rightarrow> 'e schedule \<Rightarrow> path \<Rightarrow> lease \<Rightarrow> 's \<Rightarrow> host \<Rightarrow> 's \<Rightarrow> json \<Rightarrow> bool" where
  "stored_result rt sch packs_root l s h s' v \<longleftrightarrow>
     (\<exists>b e h'. extract_and_store rt sch packs_root l s h = (Inr (b, e), s', h') \<and> v = job_result_json b e)"

definition trace_of :: "'e schedule \<Rightarrow> uuid \<Rightarrow> string \<Rightarrow> (json \<Rightarrow> bool) \<Rightarrow> (time \<times> db_op) list \<Rightarrow> bool" where
  "trace_of sch jid owner stored ops \<longleftrightarrow>
     (\<forall>(t, op) \<in> set ops. (t, op) \<in> set (environment sch) \<or> own_op jid owner stored op)"

lemma trace_of_append [simp]:
  "trace_of sch jid owner stored (xs @ ys) \<longleftrightarrow>
     trace_of sch jid owner stored xs \<and> trace_of sch jid owner stored ys"
  by (auto simp: trace_of_def)

lemma trace_of_environment [simp]:
  "trace_of sch jid owner stored (fst (first_beat sch))"
  "trace_of sch jid owner stored (fst (second_beat sch))"
  "trace_of sch jid owner stored (fst (last_call sch))"
  by (auto simp: trace_of_def environment_def)

lemma trace_of_heartbeat [simp]: "trace_of sch jid owner stored [(t, Heartbeat jid owner st secs)]"
  by (simp add: trace_of_def own_op_def)

lemma finish_call_trace:
  assumes "finish_call sha (last_call sch) jid owner result code retryable d = (r, d')"
    and "\<And>v. result = Some v \<Longrightarrow> stored v"
  shows "\<exists>ops. trace_of sch jid owner stored ops \<and> d' = run_ops sha ops d"
proof (cases "finish (snd (last_call sch)) jid owner result code retryable (run_ops sha (fst (last_call sch)) d)")
  case (Inl e)
  with assms(1) show ?thesis
    by (intro exI [of _ "fst (last_call sch)"]) (simp add: finish_call_def Let_def)
next
  case (Inr d2)
  let ?op = "(snd (last_call sch), Finish jid owner result code retryable)"
  have "trace_of sch jid owner stored [?op]"
    using assms(2) by (simp add: trace_of_def own_op_def split: option.splits)
  with assms(1) Inr show ?thesis
    by (intro exI [of _ "fst (last_call sch) @ [?op]"]) (simp add: finish_call_def Let_def run_ops_append)
qed

lemma handled_trace:
  assumes "case handler e of None \<Rightarrow> d' = d | Some (code, retryable) \<Rightarrow>
      finish_call sha (last_call sch) jid owner None (Some code) retryable d = (r, d')"
  shows "\<exists>ops. trace_of sch jid owner stored ops \<and> d' = run_ops sha ops d"
proof (cases "handler e")
  case None
  with assms show ?thesis by (intro exI [of _ "[]"]) (simp add: trace_of_def)
next
  case (Some cr)
  with assms show ?thesis
    using finish_call_trace [of sha sch jid owner None _ _ d r d' stored] by (cases cr) auto
qed

lemma heartbeat_trace:
  assumes "heartbeat t jid owner st secs (run_ops sha (fst c) d) = (ok, d')"
  shows "d' = run_ops sha (fst c @ [(t, Heartbeat jid owner st secs)]) d"
  using assms by (simp add: run_ops_append)

lemma process_lease_trace:
  assumes "process_lease rt sch packs_root secs l owner d s h = (r, d', s', h')"
  shows "\<exists>ops. trace_of sch (le_job l) owner (stored_result rt sch packs_root l s h s') ops \<and>
    d' = run_ops (sha256_hex rt) ops d"
proof -
  let ?sha = "sha256_hex rt" and ?jid = "le_job l"
  let ?T = "trace_of sch ?jid owner (stored_result rt sch packs_root l s h s')"
  have extend: "\<exists>ops. ?T ops \<and> d' = run_ops ?sha ops d"
    if "?T xs" "d1 = run_ops ?sha xs d" "?T ys" "d' = run_ops ?sha ys d1" for xs ys d1
    using that by (intro exI [of _ "xs @ ys"]) (simp add: run_ops_append)
  obtain ok1 d1 where b1: "heartbeat (snd (first_beat sch)) ?jid owner ''downloading'' secs
      (run_ops ?sha (fst (first_beat sch)) d) = (ok1, d1)" by fastforce
  obtain xs where xs: "?T xs" "d1 = run_ops ?sha xs d"
    using heartbeat_trace [OF b1] by (metis trace_of_append trace_of_environment(1) trace_of_heartbeat)
  show ?thesis
  proof (cases ok1)
    case False
    with assms b1 have "finish_call ?sha (last_call sch) ?jid owner None None False d1 = (r, d')"
      by (simp add: process_lease_def Let_def split: prod.splits)
    from finish_call_trace [OF this] extend [OF xs] show ?thesis by blast
  next
    case True
    note ok1 = True
    let ?pre = "bindE (lift StoreRaised (store_get rt s (le_document l)))
                  (\<lambda>_. lift WorkerRaised (lease_identity (value_repr rt) (le_request l)))"
    show ?thesis
    proof (cases ?pre)
      case (Inl e)
      with assms b1 ok1 have "case handler e of None \<Rightarrow> d' = d1 | Some (code, retryable) \<Rightarrow>
          finish_call ?sha (last_call sch) ?jid owner None (Some code) retryable d1 = (r, d')"
        by (simp add: process_lease_def Let_def split: option.splits prod.splits)
      from handled_trace [OF this] extend [OF xs] show ?thesis by blast
    next
      case (Inr i)
      obtain ok2 d2 where b2: "heartbeat (snd (second_beat sch)) ?jid owner ''extracting'' secs
          (run_ops ?sha (fst (second_beat sch)) d1) = (ok2, d2)" by fastforce
      obtain ys where ys: "?T ys" "d2 = run_ops ?sha ys d1"
        using heartbeat_trace [OF b2] by (metis trace_of_append trace_of_environment(2) trace_of_heartbeat)
      have xy: "?T (xs @ ys)" "d2 = run_ops ?sha (xs @ ys) d" using xs ys by (simp_all add: run_ops_append)
      show ?thesis
      proof (cases ok2)
        case False
        with assms b1 ok1 b2 Inr have "finish_call ?sha (last_call sch) ?jid owner None None False d2 = (r, d')"
          by (simp add: process_lease_def Let_def split: prod.splits)
        from finish_call_trace [OF this] extend [OF xy] show ?thesis by blast
      next
        case True
        obtain out s2 h2 where x: "extract_and_store rt sch packs_root l s h = (out, s2, h2)"
          by (metis prod.exhaust)
        show ?thesis
        proof (cases out)
          case (Inl e)
          with assms b1 ok1 b2 x True \<open>?pre = Inr i\<close> have "case handler e of None \<Rightarrow> d' = d2 | Some (code, retryable) \<Rightarrow>
              finish_call ?sha (last_call sch) ?jid owner None (Some code) retryable d2 = (r, d')"
            by (simp add: process_lease_def Let_def split: option.splits prod.splits)
          from handled_trace [OF this] extend [OF xy] show ?thesis by blast
        next
          case (Inr refs)
          obtain b e where refs: "refs = (b, e)" by (cases refs)
          have "finish_call ?sha (last_call sch) ?jid owner (Some (job_result_json b e)) None False d2 = (r, d')"
            and "s' = s2"
            using assms b1 ok1 b2 x True Inr refs \<open>?pre = Inr i\<close>
            by (simp_all add: process_lease_def Let_def split: prod.splits)
          moreover from this x Inr refs have "stored_result rt sch packs_root l s h s' (job_result_json b e)"
            by (auto simp: stored_result_def)
          ultimately have "\<exists>zs. ?T zs \<and> d' = run_ops ?sha zs d2"
            using finish_call_trace [where stored = "stored_result rt sch packs_root l s h s'"] by blast
          then show ?thesis using extend [OF xy] by blast
        qed
      qed
    qed
  qed
qed


subsection \<open>Results of succeeded jobs\<close>

text \<open>
  Over any object store that keeps its promises, the two objects a worker stored stay readable, with
  the bytes it stored, whatever is stored later.
\<close>

context immutable_store
begin

lemma extract_and_store_readable:
  assumes "store_put rt = put"
    and "extract_and_store rt sch packs_root l s h = (Inr (b, e), s', h')"
  shows "\<exists>p q. \<forall>rs. get (run_puts put s' rs) b = Inr p \<and> get (run_puts put s' rs) e = Inr q"
proof -
  from assms obtain p q s1 where put1: "put (bundle_medium sch) s (le_tenant l) ''bundle'' p ''zip'' ''application/zip'' = Inr (b, s1)"
    and put2: "put (evidence_medium sch) s1 (le_tenant l) ''evidence'' q ''json'' ''application/json'' = Inr (e, s')"
    by (auto simp: extract_and_store_def Let_def split: prod.splits sum.splits)
  have "get s' b = Inr p" using get_stable [OF put2 get_after_put [OF put1]] .
  moreover have "get s' e = Inr q" using get_after_put [OF put2] .
  ultimately show ?thesis using get_run_puts by blast
qed

end

definition reported :: "uuid \<Rightarrow> (json \<Rightarrow> bool) \<Rightarrow> job \<Rightarrow> bool" where
  "reported jid stored j \<longleftrightarrow> job_id j = jid \<and>
     (job_state j = Succeeded \<longrightarrow> (\<exists>v. job_result j = Some v \<and> stored v))"

definition quiet :: "uuid \<Rightarrow> db_op \<Rightarrow> bool" where
  "quiet jid op \<longleftrightarrow> (case op of Finish jid' _ result _ _ \<Rightarrow> jid' = jid \<longrightarrow> result = None | _ \<Rightarrow> True)"

lemma reported_change:
  assumes "row_change now op j j'" and "reported jid stored j" and "quiet jid op \<or> own_op jid owner stored op"
  shows "reported jid stored j'"
  using assms
  by (cases op) (auto simp: row_change_def reported_def quiet_def own_op_def start_lease_def extend_lease_def
      close_lease_def cancel_row_def leasable_def live_lease_def cancellable_def finish_outcome_def
      split: if_splits option.splits)

lemma process_lease_result:
  assumes "reachable (sha256_hex rt) d" and "j \<in> set (jobs d)" and "job_id j = le_job l"
    and "job_state j \<noteq> Succeeded" and "list_all (\<lambda>(t, op). quiet (le_job l) op) (environment sch)"
    and "process_lease rt sch packs_root secs l owner d s h = (r, d', s', h')"
    and "j' \<in> set (jobs d')" and "job_id j' = le_job l" and "job_state j' = Succeeded"
  shows "\<exists>v. job_result j' = Some v \<and> stored_result rt sch packs_root l s h s' v"
proof -
  let ?stored = "stored_result rt sch packs_root l s h s'" and ?sha = "sha256_hex rt"
  obtain ops where ops: "trace_of sch (le_job l) owner ?stored ops" "d' = run_ops ?sha ops d"
    using process_lease_trace [OF assms(6)] by blast
  note inv = reachable_inv [OF assms(1)]
  have "\<exists>i \<in> set (jobs (run_ops ?sha ops d)). reported (le_job l) ?stored i"
  proof (rule run_ops_row_change [OF inv assms(2),
        where Q = "\<lambda>now op. quiet (le_job l) op \<or> own_op (le_job l) owner ?stored op"])
    show "reported (le_job l) ?stored j" using assms(3,4) by (simp add: reported_def)
    show "\<And>now op. (now, op) \<in> set ops \<Longrightarrow> quiet (le_job l) op \<or> own_op (le_job l) owner ?stored op"
      using ops(1) assms(5) by (auto simp: trace_of_def list_all_iff)
  qed (rule reported_change)
  then obtain i where i: "i \<in> set (jobs d')" "reported (le_job l) ?stored i" using ops(2) by blast
  have "distinct (map job_id (jobs d'))" using db_invD(1) [OF run_ops_inv [OF inv]] ops(2) by simp
  with i assms(7,8) have "i = j'" by (metis distinct_map_eq reported_def)
  with i assms(9) show ?thesis by (simp add: reported_def)
qed

subsection \<open>Properties\<close>

definition local_runtime :: "(bytes \<Rightarrow> string) \<Rightarrow> path \<Rightarrow> (artifacts \<Rightarrow> bytes) \<Rightarrow> (pyfloat \<Rightarrow> string) \<Rightarrow>
    (json \<Rightarrow> string) \<Rightarrow> (bool, filesystem) runtime" where
  "local_runtime sha store_root zip_writer frepr rep = \<lparr>store_put = local_put sha store_root, store_get = local_read sha store_root,
     zip_bytes = zip_writer, sha256_hex = sha, float_repr = frepr, value_repr = rep\<rparr>"

text \<open>
  C8. A succeeded job has its artifacts: when the job is succeeded after a worker processed its lease,
  whatever other transactions ran in between, its result names two objects, the bundle and the
  evidence, and both are read back and verify against their hashes after any further uploads.
\<close>

theorem succeeded_job_artifacts_readable:
  assumes "rt = local_runtime sha store_root zip_writer frepr rep"
    and "reachable sha d" and "j \<in> set (jobs d)" and "job_id j = le_job l" and "job_state j \<noteq> Succeeded"
    and "list_all (\<lambda>(t, op). quiet (le_job l) op) (environment sch)"
    and "process_lease rt sch packs_root secs l owner d s h = (r, d', s', h')"
    and "j' \<in> set (jobs d')" and "job_id j' = le_job l" and "job_state j' = Succeeded"
  shows "\<exists>b e p q. job_result j' = Some (job_result_json b e) \<and>
    (\<forall>rs. local_read sha store_root (run_puts (local_put sha store_root) s' rs) b = Inr p \<and>
          local_read sha store_root (run_puts (local_put sha store_root) s' rs) e = Inr q)"
proof -
  have "sha256_hex rt = sha" "store_put rt = local_put sha store_root" using assms(1) by (simp_all add: local_runtime_def)
  then obtain v where v: "job_result j' = Some v" "stored_result rt sch packs_root l s h s' v"
    using process_lease_result [of rt d j l sch packs_root secs owner s h r d' s' h' j'] assms by auto
  then obtain b e h2 where "extract_and_store rt sch packs_root l s h = (Inr (b, e), s', h2)"
    and "v = job_result_json b e" by (auto simp: stored_result_def)
  with local_store.extract_and_store_readable [OF \<open>store_put rt = local_put sha store_root\<close>] v(1) show ?thesis by blast
qed

text \<open>
  A superseded worker does no harm: if the job is no longer this worker's when it sends its first
  heartbeat (the lease expired and another worker took it, or the job ended), the worker changes no
  job, event or message and stores nothing; its attempt to finish raises \<open>JobNotFound\<close>, which nothing
  in \<open>process_lease\<close> or its loop catches.
\<close>

theorem superseded_worker_changes_nothing:
  assumes "\<forall>j \<in> set (jobs (run_ops (sha256_hex rt) (fst (first_beat sch)) d)).
      \<not> (job_id j = le_job l \<and> job_state j = Running \<and> lease_owner j = Some owner)"
    and "fst (last_call sch) = []"
  shows "process_lease rt sch packs_root secs l owner d s h =
    (Inl (DbRaised JobNotFound), run_ops (sha256_hex rt) (fst (first_beat sch)) d, s, h)"
proof -
  let ?d = "run_ops (sha256_hex rt) (fst (first_beat sch)) d"
  have "List.find (live_lease (le_job l) owner (snd (first_beat sch))) (jobs ?d) = None"
    using assms(1) by (auto simp: find_None_iff live_lease_def)
  moreover have "List.find (\<lambda>j. job_id j = le_job l \<and> lease_owner j = Some owner \<and> job_state j = Running) (jobs ?d) = None"
    using assms(1) by (auto simp: find_None_iff)
  ultimately show ?thesis
    using assms(2) by (simp add: process_lease_def Let_def heartbeat_def finish_call_def finish_def)
qed

text \<open>
  A late heartbeat fails the job: a worker whose first heartbeat comes after its lease expired, with
  nobody else having taken the job, marks the job as failed for good, without an error code, although
  attempts are left and nobody cancelled it; the queue would have retried it.
\<close>

theorem late_heartbeat_fails_job:
  assumes "reachable (sha256_hex rt) d" and "j \<in> set (jobs d)" and "job_id j = le_job l"
    and "held owner t j" and "t < snd (first_beat sch)" and "\<not> cancel_requested j"
    and "fst (first_beat sch) = []" and "fst (last_call sch) = []"
  shows "\<exists>d'. process_lease rt sch packs_root secs l owner d s h = (Inr (), d', s, h) \<and>
    close_lease Failed ''failed'' None None (snd (last_call sch)) j \<in> set (jobs d')"
proof -
  note dist = db_invD(1) [OF reachable_inv [OF assms(1)]]
  have same: "i = j" if "i \<in> set (jobs d)" "job_id i = le_job l" for i
    using that dist assms(2,3) by (metis distinct_map_eq)
  have beat: "List.find (live_lease (le_job l) owner (snd (first_beat sch))) (jobs d) = None"
    using same assms(4,5) by (auto simp: find_None_iff live_lease_def held_def)
  let ?now = "snd (last_call sch)"
  let ?p = "\<lambda>i. job_id i = le_job l \<and> lease_owner i = Some owner \<and> job_state i = Running"
  have "?p j" using assms(3,4) by (simp add: held_def)
  then obtain i where i: "List.find ?p (jobs d) = Some i"
    using assms(2) by (cases "List.find ?p (jobs d)") (auto simp: find_None_iff)
  with find_SomeD [OF i] same have "i = j" by blast
  with i assms(6) have "finish ?now (le_job l) owner None None False d =
      Inr (insert_event ?now (job_tenant j) (le_job l) ''failed'' (error_payload None)
        (d\<lparr>jobs := update_where (\<lambda>j. job_id j = le_job l \<and> lease_owner j = Some owner)
          (close_lease Failed ''failed'' None None ?now) (jobs d)\<rparr>))"
    by (simp add: finish_def finish_outcome_def)
  with beat assms(7,8) in_update_where [OF assms(2), of "\<lambda>j. job_id j = le_job l \<and> lease_owner j = Some owner"
      "close_lease Failed ''failed'' None None ?now"] \<open>?p j\<close>
  show ?thesis by (simp add: process_lease_def Let_def heartbeat_def finish_call_def)
qed

text \<open>
  A corrupt document is not recorded: when the stored bytes of the document do not match its
  reference, the worker's exception propagates without finishing the lease, and the job is still
  running for this worker, without an error code, until the lease expires.
\<close>

theorem corrupt_document_unrecorded:
  assumes "store_get rt s (le_document l) = Inl IntegrityMismatch"
    and "heartbeat (snd (first_beat sch)) (le_job l) owner ''downloading'' secs
      (run_ops (sha256_hex rt) (fst (first_beat sch)) d) = (True, d1)"
  shows "process_lease rt sch packs_root secs l owner d s h = (Inl (StoreRaised IntegrityMismatch), d1, s, h) \<and>
    (\<exists>j \<in> set (jobs d1). job_id j = le_job l \<and> job_state j = Running \<and> lease_owner j = Some owner)"
proof
  show "process_lease rt sch packs_root secs l owner d s h = (Inl (StoreRaised IntegrityMismatch), d1, s, h)"
    using assms by (simp add: process_lease_def Let_def lift_def handler_def)
  let ?d = "run_ops (sha256_hex rt) (fst (first_beat sch)) d" and ?t = "snd (first_beat sch)"
  obtain j where j: "j \<in> set (jobs ?d)" "live_lease (le_job l) owner ?t j"
    and d1: "jobs d1 = update_where (live_lease (le_job l) owner ?t) (extend_lease ''downloading'' secs ?t) (jobs ?d)"
    using heartbeat_effect [OF assms(2)] by auto
  have "extend_lease ''downloading'' secs ?t j \<in> set (jobs d1)"
    using in_update_where [OF j(1), of "live_lease (le_job l) owner ?t" "extend_lease ''downloading'' secs ?t"] j(2) d1
    by simp
  with j(2) show "\<exists>j \<in> set (jobs d1). job_id j = le_job l \<and> job_state j = Running \<and> lease_owner j = Some owner"
    by (intro bexI) (auto simp: live_lease_def extend_lease_def)
qed

text \<open>
  The crop guard can be passed around: a crop URI whose part after the pack name starts with a
  slash makes the worker read that absolute path and put the file into the job's artifacts.
\<close>

theorem absolute_crop_uri_escapes:
  assumes "read_bytes fs [''etc'', ''passwd''] = Inr secret"
  shows "add_crop packs_root fs files (JObj [(''crop_uri'', JStr ''dsvire://pack/p//etc/passwd'')]) =
    Inr (AList.update ''crops//etc/passwd'' secret files)"
proof -
  have uri: "split_once CHR ''/'' (remove_prefix ''dsvire://pack/'' ''dsvire://pack/p//etc/passwd'') = [''p'', ''/etc/passwd'']"
    by code_simp
  have path: "crop_path packs_root ''p'' ''/etc/passwd'' = [''etc'', ''passwd'']"
  proof -
    have "walk [] (split_on CHR ''/'' ''/etc/passwd'') = [''etc'', ''passwd'']" by code_simp
    then show ?thesis by (simp add: crop_path_def)
  qed
  have "\<not> starts_with ''../'' ''/etc/passwd''" by code_simp
  with uri path assms show ?thesis by (simp add: add_crop_def get_or_def)
qed

end
