(* ===== verification/WorkerRun.thy ===== *)
theory WorkerRun
  imports PlatformWorker
begin

section \<open>A run of the lease worker\<close>

text \<open>
  One tenant submits a document, one worker leases and processes it on the local store; the hypotheses
  of the worker's guarantees hold here.
\<close>

definition doc_ref1 :: object_ref where
  "doc_ref1 = demo_ref\<lparr>ref_sha256 := replicate 64 CHR ''0''\<rparr>"

definition request1 :: json where
  "request1 = JObj [(''manufacturer'', JStr ''TI''), (''mpn'', JStr ''X1''), (''package'', JStr ''DIP-8'')]"

definition queued_db :: db where
  "queued_db = run_ops demo_sha [(0, EnsureTenant ''acme'' ''T''),
     (10, Submit ''T'' doc_ref1 ''key-0001'' request1 2 ''D'' ''J'')] empty_db"

definition leased :: "lease option \<times> db" where
  "leased = lease_next [] 20 ''w1'' 90 queued_db"

definition lease1 :: lease where
  "lease1 = the (fst leased)"

definition leased_db :: db where
  "leased_db = snd leased"

definition job1 :: job where
  "job1 = hd (jobs leased_db)"

definition evidence1 :: json where
  "evidence1 = JObj [(''schema_version'', JStr ''v2''),
     (''regions'', JArr [JObj [(''crop_uri'', JStr ''dsvire://pack/p/r.webp'')]])]"

definition schedule1 :: "bool schedule" where
  "schedule1 = \<lparr>first_beat = ([], 30), second_beat = ([(35, RequestCancel ''T'' ''other'')], 40), last_call = ([], 50),
     pdf_run = good_run (worker_main (Returned evidence1)),
     packs = [([''packs'', ''p'', ''crops'', ''r.webp''], ''RIFF'')],
     bundle_medium = True, evidence_medium = True\<rparr>"

definition runtime1 :: "(bool, filesystem) runtime" where
  "runtime1 = local_runtime demo_sha [''store''] demo_zip (\<lambda>_. []) (\<lambda>_. [])"

definition store1 :: filesystem where
  "store1 = [([''store'', ''k''], replicate 100 CHR ''x'')]"

definition idle_host :: host where
  "idle_host = \<lparr>scratch_dirs = [], children = []\<rparr>"

definition processed :: "(lease_exn + unit) \<times> db \<times> filesystem \<times> host" where
  "processed = process_lease runtime1 schedule1 [''packs''] 90 lease1 ''w1'' leased_db store1 idle_host"

lemma leased_reachable: "reachable demo_sha leased_db"
proof -
  have "leased_db = apply_op demo_sha 20 (LeaseNext [] ''w1'' 90) queued_db"
    by (simp add: leased_db_def leased_def)
  moreover have "reachable demo_sha queued_db"
    unfolding queued_db_def by (rule reachable_run_ops [OF reachable.init])
  ultimately show ?thesis using reachable.op by metis
qed

lemma job1_in: "job1 \<in> set (jobs leased_db)"
  by code_simp

lemma runtime1_sha: "sha256_hex runtime1 = demo_sha"
  by (simp add: runtime1_def local_runtime_def)

lemma lease1_job: "le_job lease1 = ''J''"
  by code_simp

lemma processed_job: "map (\<lambda>j. (job_id j, job_state j)) (jobs (fst (snd processed))) = [(''J'', Succeeded)]"
  by code_simp

theorem succeeded_job_artifacts_readable_witness:
  "\<exists>b e p q. job_result (hd (jobs (fst (snd processed)))) = Some (job_result_json b e) \<and>
    (\<forall>rs. local_read demo_sha [''store''] (run_puts (local_put demo_sha [''store'']) (fst (snd (snd processed))) rs) b = Inr p \<and>
          local_read demo_sha [''store''] (run_puts (local_put demo_sha [''store'']) (fst (snd (snd processed))) rs) e = Inr q)"
proof (rule succeeded_job_artifacts_readable [OF runtime1_def leased_reachable job1_in])
  show "job_id job1 = le_job lease1" by code_simp
  show "job_state job1 \<noteq> Succeeded" by code_simp
  show "list_all (\<lambda>(t, op). quiet (le_job lease1) op) (environment schedule1)" by code_simp
  show "process_lease runtime1 schedule1 [''packs''] 90 lease1 ''w1'' leased_db store1 idle_host =
      (fst processed, fst (snd processed), fst (snd (snd processed)), snd (snd (snd processed)))"
    by (simp add: processed_def)
  obtain j where j: "jobs (fst (snd processed)) = [j]" "job_id j = ''J''" "job_state j = Succeeded"
    using processed_job by (auto simp: map_eq_Cons_conv)
  then show "hd (jobs (fst (snd processed))) \<in> set (jobs (fst (snd processed)))" by simp
  show "job_id (hd (jobs (fst (snd processed)))) = le_job lease1" using j lease1_job by simp
  show "job_state (hd (jobs (fst (snd processed)))) = Succeeded" using j by simp
qed

definition takeover :: "bool schedule" where
  "takeover = schedule1\<lparr>first_beat := ([(100000000, LeaseNext [] ''w2'' 90)], 100000010)\<rparr>"

theorem superseded_worker_changes_nothing_witness:
  "process_lease runtime1 takeover [''packs''] 90 lease1 ''w1'' leased_db store1 idle_host =
     (Inl (DbRaised JobNotFound), run_ops demo_sha [(100000000, LeaseNext [] ''w2'' 90)] leased_db, store1, idle_host)"
proof -
  have "list_all (\<lambda>j. \<not> (job_id j = le_job lease1 \<and> job_state j = Running \<and> lease_owner j = Some ''w1''))
      (jobs (run_ops demo_sha (fst (first_beat takeover)) leased_db))" by code_simp
  moreover have "fst (last_call takeover) = []" "fst (first_beat takeover) = [(100000000, LeaseNext [] ''w2'' 90)]"
    by code_simp+
  ultimately show ?thesis
    using superseded_worker_changes_nothing [of runtime1 takeover leased_db lease1 "''w1''" "[''packs'']" 90 store1 idle_host]
    by (simp add: runtime1_sha list_all_iff)
qed

definition late :: "bool schedule" where
  "late = schedule1\<lparr>first_beat := ([], 100000010), last_call := ([], 100000020)\<rparr>"

theorem late_heartbeat_fails_job_witness:
  "\<exists>d'. process_lease runtime1 late [''packs''] 90 lease1 ''w1'' leased_db store1 idle_host = (Inr (), d', store1, idle_host) \<and>
     close_lease Failed ''failed'' None None (snd (last_call late)) job1 \<in> set (jobs d')"
proof (rule late_heartbeat_fails_job)
  show "reachable (sha256_hex runtime1) leased_db" using leased_reachable by (simp add: runtime1_sha)
  show "job1 \<in> set (jobs leased_db)" by (rule job1_in)
  show "job_id job1 = le_job lease1" by code_simp
  show "held ''w1'' 90000020 job1" by code_simp
  show "90000020 < snd (first_beat late)" by code_simp
  show "\<not> cancel_requested job1" by code_simp
  show "fst (first_beat late) = []" "fst (last_call late) = []" by code_simp+
qed

theorem corrupt_document_unrecorded_witness:
  "fst (process_lease runtime1 schedule1 [''packs''] 90 lease1 ''w1'' leased_db [([''store'', ''k''], ''?'')] idle_host) =
     Inl (StoreRaised IntegrityMismatch)"
proof -
  let ?b = "heartbeat (snd (first_beat schedule1)) (le_job lease1) ''w1'' ''downloading'' 90
      (run_ops (sha256_hex runtime1) (fst (first_beat schedule1)) leased_db)"
  have "store_get runtime1 [([''store'', ''k''], ''?'')] (le_document lease1) = Inl IntegrityMismatch" by code_simp
  moreover have "fst ?b = True" by code_simp
  then have "?b = (True, snd ?b)" by (metis prod.collapse)
  ultimately show ?thesis
    using corrupt_document_unrecorded [of runtime1 "[([''store'', ''k''], ''?'')]" lease1 schedule1 "''w1''" 90 leased_db
        "snd ?b" "[''packs'']" idle_host] by simp
qed

theorem absolute_crop_uri_escapes_witness:
  "add_crop [''packs''] [([''etc'', ''passwd''], ''root'')] []
     (JObj [(''crop_uri'', JStr ''dsvire://pack/p//etc/passwd'')]) = Inr [(''crops//etc/passwd'', ''root'')]"
  using absolute_crop_uri_escapes [of "[([''etc'', ''passwd''], ''root'')]" "''root''" "[''packs'']" "[]"]
  by (simp add: read_bytes_def)

end
