(* ===== verification/Outbox.thy ===== *)
theory Outbox
  imports PlatformRun
begin

section \<open>The outbox dispatcher\<close>

text \<open>
  \<open>dispatch_outbox\<close> of \<open>src/dsvire/accelerators.py\<close>: claim a batch of messages, publish each one to
  Redis, acknowledge it. Redis is the list of messages that reached it (\<open>channel\<close>); each \<open>publish\<close> may
  succeed, fail before anything was sent, or fail after the message was sent. The transactions of
  everybody else run between the calls.
\<close>

subsection \<open>One round\<close>

datatype publish_outcome = Sent | FailedUnsent | FailedSent

type_synonym channel = "(uuid \<times> string) list"

definition wire_form :: "(pyfloat \<Rightarrow> string) \<Rightarrow> message \<Rightarrow> uuid \<times> string" where
  "wire_form frepr m = (msg_job m, dumps True frepr (msg_payload m))"

text \<open>
  The \<open>for\<close> loop over a claimed batch; a failed \<open>publish\<close> abandons the rest of the batch, and an
  exhausted schedule is a dispatcher that is stopped in between.
\<close>

fun deliver_batch :: "(string \<Rightarrow> string) \<Rightarrow> (pyfloat \<Rightarrow> string) \<Rightarrow> string \<Rightarrow>
    ((time \<times> db_op) list \<times> publish_outcome \<times> (time \<times> db_op) list \<times> time) list \<Rightarrow>
    message list \<Rightarrow> db \<Rightarrow> channel \<Rightarrow> bool \<times> db \<times> channel" where
  "deliver_batch sha frepr owner sch [] d chan = (True, d, chan)"
| "deliver_batch sha frepr owner [] (m # ms) d chan = (False, d, chan)"
| "deliver_batch sha frepr owner ((before_send, outcome, before_ack, t) # sch) (m # ms) d chan =
     (let d1 = run_ops sha before_send d
      in case outcome of
           FailedUnsent \<Rightarrow> (False, d1, chan)
         | FailedSent \<Rightarrow> (False, d1, chan @ [wire_form frepr m])
         | Sent \<Rightarrow>
             let d2 = snd (acknowledge_outbox t owner (msg_id m) (run_ops sha before_ack d1))
             in deliver_batch sha frepr owner sch ms d2 (chan @ [wire_form frepr m]))"

definition dispatch_round :: "(string \<Rightarrow> string) \<Rightarrow> (pyfloat \<Rightarrow> string) \<Rightarrow> string \<Rightarrow> int list \<Rightarrow> time \<Rightarrow>
    ((time \<times> db_op) list \<times> publish_outcome \<times> (time \<times> db_op) list \<times> time) list \<Rightarrow>
    db \<Rightarrow> channel \<Rightarrow> bool \<times> db \<times> channel" where
  "dispatch_round sha frepr owner locked now sch d chan =
     (case claim_outbox locked now owner 100 d of
        (messages, d1) \<Rightarrow> deliver_batch sha frepr owner sch messages d1 chan)"

subsection \<open>The shape of the outbox\<close>

text \<open>
  Every operation maps the rows of the outbox one by one and appends unpublished ones.
\<close>

definition outbox_grown :: "time \<Rightarrow> db_op \<Rightarrow> db \<Rightarrow> db \<Rightarrow> bool" where
  "outbox_grown now op d d' \<longleftrightarrow> (\<forall>r' \<in> set (outbox d'). published_at r' = None \<or> (\<exists>r \<in> set (outbox d). out_change now op r r'))"

lemma outbox_grown_same: "outbox d' = outbox d \<Longrightarrow> outbox_grown now op d d'"
  by (auto simp: outbox_grown_def out_change_def)

lemma outbox_grown_insert:
  "outbox d' = outbox d \<Longrightarrow> outbox_grown now op d (insert_event now' tid jid kind payload d')"
  by (auto simp: outbox_grown_def out_change_def insert_event_def Let_def)

lemma apply_op_outbox_grown:
  assumes "db_inv d"
  shows "outbox_grown now op d (apply_op sha now op d)"
proof (cases op)
  case (Submit tid doc key req maxa newdoc newid)
  show ?thesis
  proof (cases "submit now tid doc key req maxa newdoc newid d")
    case (Inl e)
    with Submit show ?thesis by (simp add: committed_def outbox_grown_same)
  next
    case (Inr a)
    obtain jid created d' where a: "a = ((jid, created), d')" by (metis prod.exhaust)
    have "outbox_grown now op d d'" using Inr [unfolded a]
    proof (rule submit_effect)
      fix did d1
      assume ins: "insert_document tid doc newdoc d = Inr (did, d1)"
        and c: "created \<Longrightarrow> jid = newid \<and> newid \<notin> set (map job_id (jobs d)) \<and>
          (tid, key) \<notin> set (map (\<lambda>j. (job_tenant j, job_key j)) (jobs d)) \<and>
          d' = insert_event now tid newid ''queued'' (JObj [(''stage'', JStr ''queued'')])
             (d1\<lparr>jobs := jobs d @ [new_job now tid did key req maxa newid]\<rparr>)"
        and n: "\<not> created \<Longrightarrow> d' = d1 \<and> (\<exists>j \<in> set (jobs d). job_id j = jid \<and> job_tenant j = tid \<and>
          job_key j = key \<and> job_document j = did \<and> py_eq (request j) req)"
      from ins have "outbox d1 = outbox d" by (rule insert_document_effect) simp
      then show ?thesis using c n
        by (cases created) (auto intro: outbox_grown_same outbox_grown_insert)
    qed
    with Inr a Submit show ?thesis by (simp add: committed_def)
  qed
next
  case (EnsureTenant s newid)
  then show ?thesis
    by (auto simp: committed_def ensure_tenant_def intro!: outbox_grown_same split: option.splits)
next
  case (IssueKey tid lbl secret newid)
  then show ?thesis by (auto simp: committed_def issue_api_key_def Let_def intro!: outbox_grown_same)
next
  case (Authenticate token)
  then show ?thesis by (auto simp: authenticate_def intro!: outbox_grown_same)
next
  case (LeaseNext locked owner secs)
  then show ?thesis
    by (auto simp: lease_next_def Let_def intro: outbox_grown_same outbox_grown_insert split: option.splits)
next
  case (Heartbeat jid owner stage' secs)
  then show ?thesis
    by (auto simp: heartbeat_def intro: outbox_grown_same outbox_grown_insert split: option.splits)
next
  case (Finish jid owner result code retryable)
  then show ?thesis
    by (auto simp: finish_def intro: outbox_grown_same outbox_grown_insert split: option.splits prod.splits)
next
  case (RequestCancel tid jid)
  then show ?thesis
    by (auto simp: request_cancel_def intro: outbox_grown_same outbox_grown_insert split: option.splits)
next
  case (ClaimOutbox locked owner limit)
  show ?thesis unfolding outbox_grown_def
  proof
    fix r' assume r': "r' \<in> set (outbox (apply_op sha now op d))"
    let ?ids = "map outbox_id (take (clamp_limit limit) (select_by outbox_id (claimable locked now) (outbox d)))"
    from r' ClaimOutbox have "r' \<in> set (update_where (\<lambda>r. outbox_id r \<in> set ?ids) (claim_row owner now) (outbox d))"
      by (simp add: claim_outbox_def Let_def)
    then show "published_at r' = None \<or> (\<exists>r \<in> set (outbox d). out_change now op r r')"
    proof (rule in_update_whereE)
      fix r assume r: "r \<in> set (outbox d)" "outbox_id r \<in> set ?ids" "r' = claim_row owner now r"
      then obtain s where "s \<in> set (outbox d)" "claimable locked now s" "outbox_id s = outbox_id r"
        by (auto simp: select_by_def dest!: in_set_takeD)
      with r(1) outbox_id_unique [OF assms] have "claimable locked now r" by metis
      with r ClaimOutbox show ?thesis by (auto simp: out_change_def)
    next
      assume "r' \<in> set (outbox d)" then show ?thesis by (auto simp: out_change_def)
    qed
  qed
next
  case (AcknowledgeOutbox owner oid)
  then show ?thesis
    by (auto simp: outbox_grown_def acknowledge_outbox_def out_change_def elim!: in_update_whereE)
qed

definition acknowledges :: "db_op \<Rightarrow> bool" where
  "acknowledges op \<longleftrightarrow> (case op of AcknowledgeOutbox _ _ \<Rightarrow> True | _ \<Rightarrow> False)"

text \<open>Only an acknowledgement publishes a message.\<close>

lemma published_origin:
  assumes "db_inv d" and "\<forall>(t, op) \<in> set ops. \<not> acknowledges op"
    and "r' \<in> set (outbox (run_ops sha ops d))" and "published_at r' \<noteq> None"
  shows "r' \<in> set (outbox d)"
  using assms
proof (induction sha ops d rule: run_ops.induct)
  case (2 sha now op ops d)
  then have r': "r' \<in> set (outbox (apply_op sha now op d))" using apply_op_inv by auto
  have "outbox_grown now op d (apply_op sha now op d)" using 2(2) by (rule apply_op_outbox_grown)
  then have "published_at r' = None \<or> (\<exists>r \<in> set (outbox d). out_change now op r r')"
    unfolding outbox_grown_def using r' by (rule bspec)
  with 2(5) obtain r where "r \<in> set (outbox d)" "out_change now op r r'" by auto
  with 2(3,5) show ?case
    by (cases op) (auto simp: out_change_def acknowledges_def claimable_def claim_row_def)
qed simp

lemma acknowledge_published:
  assumes "r' \<in> set (outbox (snd (acknowledge_outbox t owner oid d)))" and "published_at r' \<noteq> None"
  shows "r' \<in> set (outbox d) \<or> (\<exists>r \<in> set (outbox d). outbox_id r = oid \<and> outbox_id r' = oid \<and>
    aggregate_id r' = aggregate_id r \<and> ob_payload r' = ob_payload r)"
  using assms by (auto simp: acknowledge_outbox_def acknowledgeable_def elim!: in_update_whereE)

text \<open>The identity of a message never changes: what a batch claimed is what the rows still say.\<close>

definition carries :: "db \<Rightarrow> message \<Rightarrow> bool" where
  "carries d m \<longleftrightarrow> (\<exists>r \<in> set (outbox d). outbox_id r = msg_id m \<and> aggregate_id r = msg_job m \<and> ob_payload r = msg_payload m)"

lemma out_change_carries:
  "out_change now op r r' \<Longrightarrow> outbox_id r' = outbox_id r \<and> aggregate_id r' = aggregate_id r \<and> ob_payload r' = ob_payload r"
  by (cases op) (auto simp: out_change_def claim_row_def)

lemma carries_run_ops:
  assumes "db_inv d" and "carries d m"
  shows "carries (run_ops sha ops d) m"
proof -
  obtain r where "r \<in> set (outbox d)" "outbox_id r = msg_id m" "aggregate_id r = msg_job m" "ob_payload r = msg_payload m"
    using assms(2) by (auto simp: carries_def)
  with run_ops_out_change [OF assms(1), where Q = "\<lambda>_ _. True" and r = r and ops = ops and sha = sha and
      P = "\<lambda>r. outbox_id r = msg_id m \<and> aggregate_id r = msg_job m \<and> ob_payload r = msg_payload m"]
  show ?thesis unfolding carries_def using out_change_carries by fastforce
qed

subsection \<open>Properties\<close>

definition quiet_schedule :: "((time \<times> db_op) list \<times> publish_outcome \<times> (time \<times> db_op) list \<times> time) list \<Rightarrow> bool" where
  "quiet_schedule sch \<longleftrightarrow> list_all (\<lambda>(xs, _, ys, _). list_all (\<lambda>(t, op). \<not> acknowledges op) (xs @ ys)) sch"

lemma deliver_batch_extends:
  "deliver_batch sha frepr owner sch ms d chan = (ok, d', chan') \<Longrightarrow> set chan \<subseteq> set chan'"
  by (induction sha frepr owner sch ms d chan rule: deliver_batch.induct)
    (auto simp: Let_def split: publish_outcome.splits)

lemma deliver_batch_published:
  assumes "db_inv d" and "quiet_schedule sch" and "\<forall>m \<in> set ms. carries d m"
    and "deliver_batch sha frepr owner sch ms d chan = (ok, d', chan')"
    and "r' \<in> set (outbox d')" and "published_at r' \<noteq> None"
  shows "r' \<in> set (outbox d) \<or> (aggregate_id r', dumps True frepr (ob_payload r')) \<in> set chan'"
  using assms
proof (induction sha frepr owner sch ms d chan rule: deliver_batch.induct)
  case (3 sha frepr owner xs outcome ys t sch m ms d chan)
  let ?d1 = "run_ops sha xs d"
  have quiet: "\<forall>(t, op) \<in> set xs. \<not> acknowledges op" "\<forall>(t, op) \<in> set ys. \<not> acknowledges op"
    "quiet_schedule sch" using 3(3) by (auto simp: quiet_schedule_def list_all_iff)
  note inv1 = run_ops_inv [OF 3(2), of sha xs]
  note origin = published_origin [OF 3(2) quiet(1)]
  show ?case
  proof (cases outcome)
    case Sent
    let ?d2 = "run_ops sha ys ?d1" and ?d3 = "snd (acknowledge_outbox t owner (msg_id m) (run_ops sha ys ?d1))"
    have d3: "?d3 = run_ops sha (ys @ [(t, AcknowledgeOutbox owner (msg_id m))]) ?d1"
      by (simp add: run_ops_append)
    have inv3: "db_inv ?d3" unfolding d3 by (rule run_ops_inv [OF inv1])
    have carries3: "\<forall>n \<in> set ms. carries ?d3 n"
      unfolding d3 using 3(4) carries_run_ops [OF 3(2)] carries_run_ops [OF inv1] by auto
    have rec: "deliver_batch sha frepr owner sch ms ?d3 (chan @ [wire_form frepr m]) = (ok, d', chan')"
      using 3(5) Sent by (simp add: Let_def)
    from 3(1) [OF refl Sent refl inv3 quiet(3) carries3 rec 3(6,7)]
    show ?thesis
    proof
      assume "r' \<in> set (outbox ?d3)"
      from acknowledge_published [OF this 3(7)] show ?thesis
      proof
        assume "r' \<in> set (outbox ?d2)"
        from published_origin [OF inv1 quiet(2) this 3(7)] origin [OF _ 3(7)] show ?thesis by blast
      next
        assume "\<exists>r \<in> set (outbox ?d2). outbox_id r = msg_id m \<and> outbox_id r' = msg_id m \<and>
          aggregate_id r' = aggregate_id r \<and> ob_payload r' = ob_payload r"
        moreover have "carries ?d2 m" using carries_run_ops [OF inv1 carries_run_ops [OF 3(2)]] 3(4) by simp
        ultimately have "aggregate_id r' = msg_job m" "ob_payload r' = msg_payload m"
          using outbox_id_unique [OF run_ops_inv [OF inv1]] unfolding carries_def by metis+
        with deliver_batch_extends [OF rec] show ?thesis by (simp add: wire_form_def)
      qed
    qed simp
  qed (use 3 origin in \<open>auto simp: Let_def\<close>)
qed auto

text \<open>
  C13. At-least-once delivery: when a round of the dispatcher leaves a message published that was not
  published before, the message reached the channel, whatever failed in between; nobody else
  acknowledging, an unsent message stays unpublished and claimable again.
\<close>

theorem published_only_after_sending:
  assumes "reachable sha d" and "quiet_schedule sch"
    and "dispatch_round sha frepr owner locked now sch d chan = (ok, d', chan')"
    and "r' \<in> set (outbox d')" and "published_at r' \<noteq> None" and "r' \<notin> set (outbox d)"
  shows "(aggregate_id r', dumps True frepr (ob_payload r')) \<in> set chan'"
proof -
  obtain ms d1 where claim: "claim_outbox locked now owner 100 d = (ms, d1)" by fastforce
  note inv = reachable_inv [OF assms(1)]
  have d1: "d1 = run_ops sha [(now, ClaimOutbox locked owner 100)] d" using claim by simp
  have inv1: "db_inv d1" unfolding d1 by (rule run_ops_inv [OF inv])
  have "carries d m" if "m \<in> set ms" for m
    using claim_outbox_selected [of m locked now owner 100 d] that claim by (auto simp: carries_def)
  then have ms: "\<forall>m \<in> set ms. carries d1 m" unfolding d1 using carries_run_ops [OF inv] by blast
  have batch: "deliver_batch sha frepr owner sch ms d1 chan = (ok, d', chan')"
    using assms(3) claim by (simp add: dispatch_round_def)
  have "r' \<in> set (outbox d)" if "r' \<in> set (outbox d1)"
    using published_origin [OF inv, of "[(now, ClaimOutbox locked owner 100)]" r' sha] that assms(5) d1
    by (simp add: acknowledges_def)
  with deliver_batch_published [OF inv1 assms(2) ms batch assms(4,5)] assms(6) show ?thesis by blast
qed

definition outbox_db :: db where
  "outbox_db = run_ops demo_sha [(0, EnsureTenant ''acme'' ''T''),
     (10, Submit ''T'' demo_ref ''key-0001'' demo_request 2 ''D'' ''J'')] empty_db"

theorem published_only_after_sending_witness:
  "\<exists>r \<in> set (outbox (fst (snd (dispatch_round demo_sha (\<lambda>_. []) ''p'' [] 20 [([], Sent, [], 30)] outbox_db [])))).
     published_at r \<noteq> None \<and> (aggregate_id r, dumps True (\<lambda>_. []) (ob_payload r)) \<in>
       set (snd (snd (dispatch_round demo_sha (\<lambda>_. []) ''p'' [] 20 [([], Sent, [], 30)] outbox_db [])))"
proof -
  let ?out = "dispatch_round demo_sha (\<lambda>_. []) ''p'' [] 20 [([], Sent, [], 30)] outbox_db []"
  have "map (\<lambda>r. published_at r) (outbox (fst (snd ?out))) = [Some 30]" by code_simp
  then obtain r where r: "r \<in> set (outbox (fst (snd ?out)))" "published_at r = Some 30" by (auto simp: map_eq_Cons_conv)
  have "map (\<lambda>r. published_at r) (outbox outbox_db) = [None]" by code_simp
  then have "r \<notin> set (outbox outbox_db)" using r(2) by auto
  moreover have "reachable demo_sha outbox_db"
    unfolding outbox_db_def by (rule reachable_run_ops [OF reachable.init])
  moreover have "quiet_schedule [([], Sent, [], 30)]" by (simp add: quiet_schedule_def)
  ultimately show ?thesis
    using published_only_after_sending [of demo_sha outbox_db "[([], Sent, [], 30)]" "\<lambda>_. []" "''p''" "[]" 20 "[]"
        "fst ?out" "fst (snd ?out)" "snd (snd ?out)" r] r by (intro bexI [of _ r]) simp_all
qed

end
