(* ===== verification/RetrievalPack.thy ===== *)
theory RetrievalPack
  imports Float64
begin

section \<open>Retrieval packs\<close>

text \<open>
  \<open>src/dsvire/retrieval_pack.py\<close>: the loader of a content-addressed pack from an untrusted decoded
  JSON value. SHA-256 is the parameter \<open>sha\<close>, the decimal form of a float \<open>frepr\<close>. A vector is the
  list of the numbers it denotes. Converting a huge integer to a float raises \<open>OverflowError\<close>, which
  is not a \<open>RetrievalPackError\<close>.
\<close>

datatype pack_error = PackError string | FloatOverflow

record model_identity =
  model_id :: string
  model_sha256 :: string

record region =
  reg_id :: string
  reg_page :: int
  reg_bbox :: "rat list"
  reg_type :: string
  reg_content_sha256 :: string
  reg_text_fields :: "(string \<times> string) list"
  reg_dense :: "rat list"
  reg_multi :: "rat list list"

record pack =
  pack_sha256 :: string
  source_sha256 :: string
  dense_model :: model_identity
  multi_model :: model_identity
  dense_dim :: int
  multi_dim :: int
  regions :: "region list"

definition region_types :: "string list" where
  "region_types = [''package'', ''pinout'', ''table'']"

definition canonical_payload :: "(pyfloat \<Rightarrow> string) \<Rightarrow> json \<Rightarrow> bytes" where
  "canonical_payload frepr v = utf8_encode (dumps True frepr v)"

definition bounded_text :: "int \<Rightarrow> string \<Rightarrow> json \<Rightarrow> pack_error + string" where
  "bounded_text max_bytes context v = (case v of
     JStr s \<Rightarrow>
       (let result = strip s
        in if result = [] then Inl (PackError (context @ '' must be non-empty text''))
           else if max_bytes < int (length (utf8_encode result)) \<or> char_of (0::nat) \<in> set result
           then Inl (PackError (context @ '' is outside its text limit''))
           else Inr result)
   | _ \<Rightarrow> Inl (PackError (context @ '' must be non-empty text'')))"

definition sha_text :: "string \<Rightarrow> json \<Rightarrow> pack_error + string" where
  "sha_text context v = (case v of
     JStr s \<Rightarrow> if is_hex 64 s then Inr s else Inl (PackError (context @ '' must be lowercase SHA-256''))
   | _ \<Rightarrow> Inl (PackError (context @ '' must be lowercase SHA-256'')))"

definition model_of :: "string \<Rightarrow> json \<Rightarrow> pack_error + model_identity" where
  "model_of context v = (case v of
     JObj d \<Rightarrow>
       if \<not> fields_are [''id'', ''sha256''] d
       then Inl (PackError (context @ '' must contain only id and sha256''))
       else bindE (bounded_text 512 (context @ ''.id'') (field d ''id'')) (\<lambda>i.
            bindE (sha_text (context @ ''.sha256'') (field d ''sha256'')) (\<lambda>s.
              Inr \<lparr>model_id = i, model_sha256 = s\<rparr>))
   | _ \<Rightarrow> Inl (PackError (context @ '' must contain only id and sha256'')))"

text \<open>\<open>float(raw)\<close> of a decoded number that is not a boolean.\<close>

definition as_float :: "pack_error \<Rightarrow> json \<Rightarrow> pack_error + pyfloat" where
  "as_float not_number v = (case v of
     JInt i \<Rightarrow> (case to_float i of None \<Rightarrow> Inl FloatOverflow | Some r \<Rightarrow> Inr (Flt r))
   | JFloat f \<Rightarrow> Inr f
   | _ \<Rightarrow> Inl not_number)"

definition vector_item :: "string \<Rightarrow> json \<Rightarrow> pack_error + rat" where
  "vector_item context v =
     bindE (as_float (PackError (context @ '' must contain only numbers'')) v) (\<lambda>f. case f of
       Flt r \<Rightarrow> if 1000000 < \<bar>r\<bar> then Inl (PackError (context @ '' contains an invalid value'')) else Inr r
     | _ \<Rightarrow> Inl (PackError (context @ '' contains an invalid value'')))"

definition vector_of :: "int \<Rightarrow> string \<Rightarrow> json \<Rightarrow> pack_error + rat list" where
  "vector_of dimension context v = (case v of
     JArr xs \<Rightarrow>
       if int (length xs) \<noteq> dimension then Inl (PackError (context @ '' must have dimension '' @ int_str dimension))
       else mapE (vector_item context) xs
   | _ \<Rightarrow> Inl (PackError (context @ '' must have dimension '' @ int_str dimension)))"

definition bbox_in_page :: "pack_error \<Rightarrow> pyfloat list \<Rightarrow> pack_error + rat list" where
  "bbox_in_page bad fs = (case fs of
     [Flt x0, Flt y0, Flt x1, Flt y1] \<Rightarrow>
       if 0 \<le> x0 \<and> x0 < x1 \<and> x1 \<le> 1 \<and> 0 \<le> y0 \<and> y0 < y1 \<and> y1 \<le> 1
       then Inr [x0, y0, x1, y1] else Inl bad
   | _ \<Rightarrow> Inl bad)"

definition is_number :: "json \<Rightarrow> bool" where
  "is_number v = (case v of JInt _ \<Rightarrow> True | JFloat _ \<Rightarrow> True | _ \<Rightarrow> False)"

definition bbox_of :: "string \<Rightarrow> json \<Rightarrow> pack_error + rat list" where
  "bbox_of context v =
     (let bad = PackError (context @ ''.bbox_norm is invalid'')
      in case v of
        JArr xs \<Rightarrow>
          if length xs \<noteq> 4 \<or> \<not> list_all is_number xs then Inl bad
          else bindE (mapE (as_float bad) xs) (bbox_in_page bad)
      | _ \<Rightarrow> Inl bad)"

definition safe_region_id :: "string \<Rightarrow> bool" where
  "safe_region_id s \<longleftrightarrow> s \<noteq> [] \<and> hd s \<noteq> CHR ''/'' \<and> hd s \<noteq> char_of (92::nat) \<and>
     ''..'' \<notin> set (split_on CHR ''/'' (replace_char (char_of (92::nat)) CHR ''/'' s))"

definition text_field_of :: "string \<Rightarrow> string \<times> json \<Rightarrow> pack_error + (string \<times> string)" where
  "text_field_of context item = (case item of (name, v) \<Rightarrow> (case v of
     JStr s \<Rightarrow> if char_of (0::nat) \<in> set s then Inl (PackError (context @ ''.text_fields.'' @ name @ '' is invalid''))
              else Inr (name, s)
   | _ \<Rightarrow> Inl (PackError (context @ ''.text_fields.'' @ name @ '' is invalid''))))"

definition text_fields_of :: "string \<Rightarrow> json \<Rightarrow> pack_error + (string \<times> string) list" where
  "text_fields_of context v = (case v of
     JObj d \<Rightarrow>
       if \<not> list_all (\<lambda>(k, _). k \<in> {''caption'', ''pins'', ''section'', ''crop''}) d
       then Inl (PackError (context @ ''.text_fields keys are invalid''))
       else bindE (mapE (text_field_of context) (sort_key fst d)) (\<lambda>fs.
         if 64000 < sum_list (map (\<lambda>(_, s). int (length (utf8_encode s))) fs)
         then Inl (PackError (context @ ''.text_fields exceed their byte limit''))
         else Inr fs)
   | _ \<Rightarrow> Inl (PackError (context @ ''.text_fields keys are invalid'')))"

definition region_keys :: "string list" where
  "region_keys = [''id'', ''page'', ''bbox_norm'', ''type'', ''content_sha256'', ''text_fields'', ''dense'', ''multi'']"

definition page_of :: "string \<Rightarrow> json \<Rightarrow> pack_error + int" where
  "page_of context v = (case v of
     JInt p \<Rightarrow> if 1 \<le> p \<and> p \<le> 100000 then Inr p else Inl (PackError (context @ ''.page is invalid''))
   | _ \<Rightarrow> Inl (PackError (context @ ''.page is invalid'')))"

definition patches_of :: "string \<Rightarrow> json \<Rightarrow> pack_error + json list" where
  "patches_of context v = (case v of
     JArr xs \<Rightarrow> if xs \<noteq> [] \<and> int (length xs) \<le> 4096 then Inr xs
               else Inl (PackError (context @ ''.multi is outside its patch limit''))
   | _ \<Rightarrow> Inl (PackError (context @ ''.multi is outside its patch limit'')))"

text \<open>
  One iteration of the loop over the raw regions. The state is the regions so far and the running
  number of vector values.
\<close>

definition load_region :: "int \<Rightarrow> int \<Rightarrow> region list \<times> int \<Rightarrow> nat \<times> json \<Rightarrow> pack_error + (region list \<times> int)" where
  "load_region ddim mdim state item =
     (case state of (acc, used) \<Rightarrow> case item of (index, raw) \<Rightarrow>
        let context = ''regions['' @ nat_str index @ '']''
        in case raw of
          JObj d \<Rightarrow>
            if \<not> fields_are region_keys d then Inl (PackError (context @ '' keys are invalid''))
            else
              bindE (bounded_text 1024 (context @ ''.id'') (field d ''id'')) (\<lambda>rid.
              if rid \<in> set (map reg_id acc) \<or> \<not> safe_region_id rid
              then Inl (PackError (context @ ''.id is duplicate or unsafe''))
              else
              bindE (page_of context (field d ''page'')) (\<lambda>page.
              bindE (bbox_of context (field d ''bbox_norm'')) (\<lambda>coords.
              bindE (bounded_text 512 (context @ ''.type'') (field d ''type'')) (\<lambda>rtype.
              if rtype \<notin> set region_types then Inl (PackError (context @ ''.type is unsupported''))
              else
              bindE (text_fields_of context (field d ''text_fields'')) (\<lambda>fs.
              bindE (patches_of context (field d ''multi'')) (\<lambda>patches.
              let used' = used + ddim + int (length patches) * mdim
              in if 50000000 < used' then Inl (PackError ''retrieval pack exceeds its aggregate vector limit'')
              else
              bindE (sha_text (context @ ''.content_sha256'') (field d ''content_sha256'')) (\<lambda>content.
              bindE (vector_of ddim (context @ ''.dense'') (field d ''dense'')) (\<lambda>dense.
              bindE (mapE (vector_of mdim (context @ ''.multi'')) patches) (\<lambda>multi.
                Inr (acc @ [\<lparr>reg_id = rid, reg_page = page, reg_bbox = coords, reg_type = rtype,
                       reg_content_sha256 = content, reg_text_fields = fs, reg_dense = dense,
                       reg_multi = multi\<rparr>], used'))))))))))
        | _ \<Rightarrow> Inl (PackError (context @ '' keys are invalid'')))"

definition dims_of :: "json \<Rightarrow> json \<Rightarrow> pack_error + (int \<times> int)" where
  "dims_of a b = (case (a, b) of
     (JInt x, JInt y) \<Rightarrow>
       if 1 \<le> x \<and> x \<le> 8192 \<and> 1 \<le> y \<and> y \<le> 8192 then Inr (x, y)
       else Inl (PackError ''vector dimensions are outside the supported range'')
   | _ \<Rightarrow> Inl (PackError ''vector dimensions are outside the supported range''))"

definition expect_model :: "model_identity option \<Rightarrow> model_identity \<Rightarrow> string \<Rightarrow> pack_error + unit" where
  "expect_model expected m message =
     ensure (case expected of None \<Rightarrow> True | Some e \<Rightarrow> m = e) (PackError message)"

definition load_payload :: "string \<Rightarrow> model_identity option \<Rightarrow> model_identity option \<Rightarrow> (string \<times> json) list \<Rightarrow>
    pack_error + pack" where
  "load_payload expected want_dense want_multi p =
     (if \<not> fields_are [''source_sha256'', ''models'', ''dense_dim'', ''multi_dim'', ''vector_dtype'', ''regions''] p
      then Inl (PackError ''retrieval pack payload keys are invalid'')
      else (case field p ''models'' of
        JObj m \<Rightarrow>
          if \<not> fields_are [''dense'', ''multi''] m then Inl (PackError ''models must contain only dense and multi'')
          else
          bindE (model_of ''models.dense'' (field m ''dense'')) (\<lambda>dm.
          bindE (model_of ''models.multi'' (field m ''multi'')) (\<lambda>mm.
          bindE (expect_model want_dense dm ''dense model identity mismatch'') (\<lambda>_.
          bindE (expect_model want_multi mm ''multi model identity mismatch'') (\<lambda>_.
          if field p ''vector_dtype'' \<noteq> JStr ''float32'' then Inl (PackError ''vector_dtype must be float32'')
          else
          bindE (dims_of (field p ''dense_dim'') (field p ''multi_dim'')) (\<lambda>(ddim, mdim).
          (case field p ''regions'' of
             JArr raw \<Rightarrow>
               if \<not> (raw \<noteq> [] \<and> int (length raw) \<le> 100000)
               then Inl (PackError ''regions are outside the supported count'')
               else
               bindE (foldE (load_region ddim mdim) ([], 0) (enumerate 0 raw)) (\<lambda>(rs, used).
               if map reg_id rs \<noteq> sort (map reg_id rs) then Inl (PackError ''regions must be sorted by id'')
               else
               bindE (sha_text ''source_sha256'' (field p ''source_sha256'')) (\<lambda>source.
                 Inr \<lparr>pack_sha256 = expected, source_sha256 = source, dense_model = dm, multi_model = mm,
                      dense_dim = ddim, multi_dim = mdim, regions = rs\<rparr>))
           | _ \<Rightarrow> Inl (PackError ''regions are outside the supported count'')))))))
      | _ \<Rightarrow> Inl (PackError ''models must contain only dense and multi'')))"

definition load_retrieval_pack :: "(bytes \<Rightarrow> string) \<Rightarrow> (pyfloat \<Rightarrow> string) \<Rightarrow> model_identity option \<Rightarrow>
    model_identity option \<Rightarrow> json \<Rightarrow> pack_error + pack" where
  "load_retrieval_pack sha frepr want_dense want_multi v = (case v of
     JObj e \<Rightarrow>
       if \<not> fields_are [''schema_version'', ''payload_sha256'', ''payload''] e
       then Inl (PackError ''pack envelope keys are invalid'')
       else if field e ''schema_version'' \<noteq> JStr ''dsvire.retrieval-pack.v1''
       then Inl (PackError ''unsupported retrieval pack version'')
       else bindE (sha_text ''payload_sha256'' (field e ''payload_sha256'')) (\<lambda>expected.
         if sha (canonical_payload frepr (field e ''payload'')) \<noteq> expected
         then Inl (PackError ''retrieval pack payload digest mismatch'')
         else (case field e ''payload'' of
           JObj p \<Rightarrow> load_payload expected want_dense want_multi p
         | _ \<Rightarrow> Inl (PackError ''retrieval pack payload keys are invalid'')))
   | _ \<Rightarrow> Inl (PackError ''pack envelope keys are invalid''))"

text \<open>
  \<open>reload\<close> stands for \<open>json.loads\<close> of the canonical bytes.
\<close>

definition build_retrieval_pack :: "(bytes \<Rightarrow> string) \<Rightarrow> (pyfloat \<Rightarrow> string) \<Rightarrow> (bytes \<Rightarrow> json) \<Rightarrow> json \<Rightarrow>
    pack_error + json" where
  "build_retrieval_pack sha frepr reload payload =
     (let frozen = reload (canonical_payload frepr payload);
          envelope = JObj [(''schema_version'', JStr ''dsvire.retrieval-pack.v1''),
            (''payload_sha256'', JStr (sha (canonical_payload frepr frozen))), (''payload'', frozen)]
      in bindE (load_retrieval_pack sha frepr None None envelope) (\<lambda>_. Inr envelope))"

subsection \<open>The contract of a loaded pack\<close>

definition vector_ok :: "int \<Rightarrow> rat list \<Rightarrow> bool" where
  "vector_ok width v \<longleftrightarrow> int (length v) = width \<and> list_all (\<lambda>x. \<bar>x\<bar> \<le> 1000000) v"

definition bbox_ok :: "rat list \<Rightarrow> bool" where
  "bbox_ok b \<longleftrightarrow> (case b of [x0, y0, x1, y1] \<Rightarrow> 0 \<le> x0 \<and> x0 < x1 \<and> x1 \<le> 1 \<and> 0 \<le> y0 \<and> y0 < y1 \<and> y1 \<le> 1 | _ \<Rightarrow> False)"

definition region_ok :: "int \<Rightarrow> int \<Rightarrow> region \<Rightarrow> bool" where
  "region_ok ddim mdim r \<longleftrightarrow> safe_region_id (reg_id r) \<and> 1 \<le> reg_page r \<and> reg_page r \<le> 100000 \<and>
     bbox_ok (reg_bbox r) \<and> reg_type r \<in> set region_types \<and> is_hex 64 (reg_content_sha256 r) \<and>
     vector_ok ddim (reg_dense r) \<and> reg_multi r \<noteq> [] \<and> int (length (reg_multi r)) \<le> 4096 \<and>
     list_all (vector_ok mdim) (reg_multi r)"

definition pack_ok :: "pack \<Rightarrow> bool" where
  "pack_ok p \<longleftrightarrow> is_hex 64 (pack_sha256 p) \<and> is_hex 64 (source_sha256 p) \<and>
     1 \<le> dense_dim p \<and> dense_dim p \<le> 8192 \<and> 1 \<le> multi_dim p \<and> multi_dim p \<le> 8192 \<and>
     regions p \<noteq> [] \<and> int (length (regions p)) \<le> 100000 \<and>
     sorted (map reg_id (regions p)) \<and> distinct (map reg_id (regions p)) \<and>
     list_all (region_ok (dense_dim p) (multi_dim p)) (regions p) \<and>
     sum_list (map (\<lambda>r. dense_dim p + int (length (reg_multi r)) * multi_dim p) (regions p)) \<le> 50000000"


subsection \<open>Facts\<close>

lemma as_float_number:
  "as_float e v = Inr f \<Longrightarrow> (\<exists>i. v = JInt i) \<or> v = JFloat f"
  by (auto simp: as_float_def split: json.splits option.splits)

lemma vector_item_ok:
  assumes "vector_item context v = Inr x"
  shows "\<bar>x\<bar> \<le> 1000000"
proof -
  from assms obtain f where "as_float (PackError (context @ '' must contain only numbers'')) v = Inr f"
    by (auto simp: vector_item_def)
  with assms show ?thesis by (cases f) (auto simp: vector_item_def split: if_splits)
qed

lemma vector_of_ok: "vector_of width context v = Inr xs \<Longrightarrow> vector_ok width xs"
proof -
  assume a: "vector_of width context v = Inr xs"
  then obtain js where js: "v = JArr js" "int (length js) = width" "mapE (vector_item context) js = Inr xs"
    by (auto simp: vector_of_def split: json.splits if_splits)
  have "\<bar>x\<bar> \<le> 1000000" if "x \<in> set xs" for x
    using mapE_in_set [OF js(3) that] vector_item_ok by blast
  with mapE_length [OF js(3)] js(2) show ?thesis by (simp add: vector_ok_def list_all_iff)
qed

lemma bbox_in_page_ok: "bbox_in_page bad fs = Inr b \<Longrightarrow> bbox_ok b"
  by (auto simp: bbox_in_page_def bbox_ok_def split: list.splits pyfloat.splits if_splits)

lemma bbox_of_ok: "bbox_of context v = Inr b \<Longrightarrow> bbox_ok b"
  by (cases v) (auto simp: bbox_of_def Let_def dest: bbox_in_page_ok split: if_splits)

lemma bounded_text_ok: "bounded_text n context v = Inr s \<Longrightarrow> s \<noteq> [] \<and> int (length (utf8_encode s)) \<le> n"
  by (auto simp: bounded_text_def Let_def split: json.splits if_splits)

lemma sha_text_ok: "sha_text context v = Inr s \<Longrightarrow> is_hex 64 s"
  by (auto simp: sha_text_def split: json.splits if_splits)

lemma page_of_ok: "page_of context v = Inr p \<Longrightarrow> 1 \<le> p \<and> p \<le> 100000"
  by (auto simp: page_of_def split: json.splits if_splits)

lemma patches_of_ok: "patches_of context v = Inr xs \<Longrightarrow> xs \<noteq> [] \<and> int (length xs) \<le> 4096"
  by (auto simp: patches_of_def split: json.splits if_splits)

definition region_size :: "int \<Rightarrow> int \<Rightarrow> region \<Rightarrow> int" where
  "region_size ddim mdim r = ddim + int (length (reg_multi r)) * mdim"

lemma load_region_ok:
  assumes "load_region ddim mdim (acc, used) item = Inr (acc', used')"
  obtains r where "acc' = acc @ [r]" and "region_ok ddim mdim r" and "reg_id r \<notin> set (map reg_id acc)"
    and "used' = used + region_size ddim mdim r" and "used' \<le> 50000000"
proof -
  obtain index raw where item: "item = (index, raw)" by (cases item)
  let ?c = "''regions['' @ nat_str index @ '']''"
  from assms item obtain d where raw: "raw = JObj d" by (auto simp: load_region_def Let_def split: json.splits)
  from assms item raw obtain rid page coords rtype fs patches content dense multi where
    f: "rid \<notin> set (map reg_id acc)" "safe_region_id rid"
      "page_of ?c (field d ''page'') = Inr page" "bbox_of ?c (field d ''bbox_norm'') = Inr coords"
      "rtype \<in> set region_types" "patches_of ?c (field d ''multi'') = Inr patches"
      "sha_text (?c @ ''.content_sha256'') (field d ''content_sha256'') = Inr content"
      "vector_of ddim (?c @ ''.dense'') (field d ''dense'') = Inr dense"
      "mapE (vector_of mdim (?c @ ''.multi'')) patches = Inr multi"
    and r: "acc' = acc @ [\<lparr>reg_id = rid, reg_page = page, reg_bbox = coords, reg_type = rtype,
        reg_content_sha256 = content, reg_text_fields = fs, reg_dense = dense, reg_multi = multi\<rparr>]"
      "used' = used + ddim + int (length patches) * mdim" "used' \<le> 50000000"
    by (auto simp: load_region_def Let_def split: if_splits)
  have "list_all (vector_ok mdim) multi"
    using mapE_in_set [OF f(9)] vector_of_ok unfolding list_all_iff by blast
  moreover have "multi \<noteq> []" "int (length multi) \<le> 4096"
    using mapE_length [OF f(9)] patches_of_ok [OF f(6)] by (cases multi; cases patches; simp)+
  ultimately show ?thesis
    using f r mapE_length [OF f(9)] page_of_ok [OF f(3)] bbox_of_ok [OF f(4)]
    sha_text_ok [OF f(7)] vector_of_ok [OF f(8)]
    by (intro that [OF r(1)]) (simp_all add: region_ok_def region_size_def)
qed

definition acc_ok :: "int \<Rightarrow> int \<Rightarrow> region list \<times> int \<Rightarrow> bool" where
  "acc_ok ddim mdim state = (case state of (acc, used) \<Rightarrow> list_all (region_ok ddim mdim) acc \<and>
     distinct (map reg_id acc) \<and> used = sum_list (map (region_size ddim mdim) acc) \<and> used \<le> 50000000)"

lemma load_regions_ok:
  assumes "foldE (load_region ddim mdim) ([], 0) items = Inr (rs, used)"
  shows "acc_ok ddim mdim (rs, used)"
  using assms
proof (rule foldE_invariant [where P = "acc_ok ddim mdim"])
  fix state item state'
  assume a: "acc_ok ddim mdim state" and "load_region ddim mdim state item = Inr state'"
  then obtain acc used acc' used' where s: "state = (acc, used)" "state' = (acc', used')"
    "load_region ddim mdim (acc, used) item = Inr (acc', used')" by (cases state, cases state') auto
  from s(3) obtain r where "acc' = acc @ [r]" "region_ok ddim mdim r" "reg_id r \<notin> set (map reg_id acc)"
    "used' = used + region_size ddim mdim r" "used' \<le> 50000000" by (rule load_region_ok)
  with a s show "acc_ok ddim mdim state'" by (auto simp: acc_ok_def)
qed (simp add: acc_ok_def)

lemma load_regions_length:
  "foldE (load_region ddim mdim) (acc, n) items = Inr (rs, used) \<Longrightarrow> length rs = length acc + length items"
proof (induction items arbitrary: acc n)
  case (Cons item items)
  then obtain acc' n' where step: "load_region ddim mdim (acc, n) item = Inr (acc', n')"
    "foldE (load_region ddim mdim) (acc', n') items = Inr (rs, used)" by auto
  from step(1) obtain r where "acc' = acc @ [r]" by (rule load_region_ok)
  with Cons.IH [OF step(2)] show ?case by simp
qed simp

lemma model_of_ok: "model_of context v = Inr m \<Longrightarrow> is_hex 64 (model_sha256 m) \<and> model_id m \<noteq> []"
  by (auto simp: model_of_def dest: sha_text_ok bounded_text_ok split: json.splits if_splits)

lemma load_payload_ok:
  assumes "load_payload expected want_dense want_multi p = Inr k" and "is_hex 64 expected"
  shows "pack_ok k \<and> pack_sha256 k = expected \<and>
    (case want_dense of None \<Rightarrow> True | Some m \<Rightarrow> dense_model k = m) \<and>
    (case want_multi of None \<Rightarrow> True | Some m \<Rightarrow> multi_model k = m)"
proof -
  obtain raw where raw: "field p ''regions'' = JArr raw"
    using assms(1) by (cases "field p ''regions''") (auto simp: load_payload_def split: json.splits if_splits)
  from assms(1) obtain dm mm ddim mdim rs used src where
    f: "expect_model want_dense dm ''dense model identity mismatch'' = Inr ()"
      "expect_model want_multi mm ''multi model identity mismatch'' = Inr ()"
      "dims_of (field p ''dense_dim'') (field p ''multi_dim'') = Inr (ddim, mdim)"
      "raw \<noteq> []" "int (length raw) \<le> 100000"
      "foldE (load_region ddim mdim) ([], 0) (enumerate 0 raw) = Inr (rs, used)"
      "map reg_id rs = sort (map reg_id rs)" "sha_text ''source_sha256'' (field p ''source_sha256'') = Inr src"
    and k: "k = \<lparr>pack_sha256 = expected, source_sha256 = src, dense_model = dm, multi_model = mm,
                      dense_dim = ddim, multi_dim = mdim, regions = rs\<rparr>"
    by (auto simp: load_payload_def raw split: json.splits if_splits)
  have dims: "1 \<le> ddim \<and> ddim \<le> 8192 \<and> 1 \<le> mdim \<and> mdim \<le> 8192"
    using f(3) by (auto simp: dims_of_def split: json.splits if_splits)
  have len: "length rs = length raw" using load_regions_length [OF f(6)] by simp
  have acc: "acc_ok ddim mdim (rs, used)" by (rule load_regions_ok [OF f(6)])
  have "sorted (map reg_id rs)" by (metis f(7) sorted_sort)
  then have "pack_ok k" unfolding pack_ok_def k
    using dims len acc f(4,5) assms(2) sha_text_ok [OF f(8)]
    by (auto simp: acc_ok_def region_size_def [abs_def])
  with f(1,2) k show ?thesis by (auto simp: expect_model_def split: option.splits)
qed

lemma pack_contract:
  assumes "load_retrieval_pack sha frepr want_dense want_multi v = Inr k"
  shows "pack_ok k \<and> (\<exists>e. v = JObj e \<and> sha (canonical_payload frepr (field e ''payload'')) = pack_sha256 k) \<and>
    (case want_dense of None \<Rightarrow> True | Some m \<Rightarrow> dense_model k = m) \<and>
    (case want_multi of None \<Rightarrow> True | Some m \<Rightarrow> multi_model k = m)"
proof -
  from assms obtain e where v: "v = JObj e" by (cases v) (simp_all add: load_retrieval_pack_def)
  from assms v obtain p where p: "field e ''payload'' = JObj p"
    by (cases "field e ''payload''") (auto simp: load_retrieval_pack_def split: if_splits)
  from assms v p obtain expected where
    sha: "sha_text ''payload_sha256'' (field e ''payload_sha256'') = Inr expected"
      "sha (canonical_payload frepr (field e ''payload'')) = expected"
    and load: "load_payload expected want_dense want_multi p = Inr k"
    by (auto simp: load_retrieval_pack_def split: if_splits)
  from load_payload_ok [OF load sha_text_ok [OF sha(1)]] v sha(2) show ?thesis by auto
qed

subsection \<open>Properties\<close>

text \<open>
  C14. A loaded pack meets its contract: whatever decoded JSON the loader accepts, the payload hashes to
  the declared digest, the models are the expected ones, the regions are non-empty, sorted by distinct
  and safe identifiers, with pages, boxes, types and hashes in range, vectors of the declared
  dimensions with bounded entries, and at most fifty million vector values in all.
\<close>

theorem loaded_pack_meets_contract:
  assumes "load_retrieval_pack sha frepr want_dense want_multi v = Inr k"
  shows "pack_ok k \<and> (\<exists>e. v = JObj e \<and> sha (canonical_payload frepr (field e ''payload'')) = pack_sha256 k) \<and>
    (case want_dense of None \<Rightarrow> True | Some m \<Rightarrow> dense_model k = m) \<and>
    (case want_multi of None \<Rightarrow> True | Some m \<Rightarrow> multi_model k = m)"
  using pack_contract [OF assms] .

text \<open>
  A number that does not fit a float escapes the validation: a vector that holds an integer of
  \<open>2^1024\<close> or more makes the loader raise \<open>OverflowError\<close> instead of a \<open>RetrievalPackError\<close>.
\<close>

theorem huge_integer_escapes_validation:
  assumes "2 ^ 1024 \<le> i"
  shows "vector_of 1 context (JArr [JInt i]) = Inl FloatOverflow"
proof -
  have "(2::int) ^ 1024 - 2 ^ 970 \<le> \<bar>i\<bar>" using assms by simp
  then have "int_overflows i" by (simp only: int_overflows_def)
  moreover have "\<not> \<bar>i\<bar> \<le> 9007199254740992" using assms by simp
  ultimately show ?thesis by (simp add: vector_of_def vector_item_def as_float_def to_float_def)
qed

theorem huge_integer_escapes_validation_witness:
  "vector_of 1 ''regions[0].dense'' (JArr [JInt (2 ^ 1024)]) = Inl FloatOverflow"
  by (rule huge_integer_escapes_validation) (rule order_refl)

definition demo_region_json :: json where
  "demo_region_json = JObj [(''id'', JStr ''r1''), (''page'', JInt 3),
     (''bbox_norm'', JArr [JInt 0, JFloat (Flt (1 / 4)), JInt 1, JFloat (Flt (1 / 2))]),
     (''type'', JStr ''table''), (''content_sha256'', JStr (replicate 64 CHR ''c'')),
     (''text_fields'', JObj [(''caption'', JStr ''Electrical'')]),
     (''dense'', JArr [JInt 1, JFloat (Flt (1 / 2))]), (''multi'', JArr [JArr [JInt 1], JArr [JInt 2]])]"

definition demo_model_json :: json where
  "demo_model_json = JObj [(''id'', JStr ''m''), (''sha256'', JStr (replicate 64 CHR ''d''))]"

definition demo_payload :: json where
  "demo_payload = JObj [(''source_sha256'', JStr (replicate 64 CHR ''b'')),
     (''models'', JObj [(''dense'', demo_model_json), (''multi'', demo_model_json)]),
     (''dense_dim'', JInt 2), (''multi_dim'', JInt 1), (''vector_dtype'', JStr ''float32''),
     (''regions'', JArr [demo_region_json])]"

definition zero_sha :: "bytes \<Rightarrow> string" where
  "zero_sha b = replicate 64 CHR ''0''"

definition demo_envelope :: json where
  "demo_envelope = JObj [(''schema_version'', JStr ''dsvire.retrieval-pack.v1''),
     (''payload_sha256'', JStr (replicate 64 CHR ''0'')), (''payload'', demo_payload)]"

definition demo_model :: model_identity where
  "demo_model = \<lparr>model_id = ''m'', model_sha256 = replicate 64 CHR ''d''\<rparr>"

definition demo_pack :: pack where
  "demo_pack = \<lparr>pack_sha256 = replicate 64 CHR ''0'', source_sha256 = replicate 64 CHR ''b'',
     dense_model = demo_model, multi_model = demo_model, dense_dim = 2, multi_dim = 1,
     regions = [\<lparr>reg_id = ''r1'', reg_page = 3, reg_bbox = [0, 1 / 4, 1, 1 / 2], reg_type = ''table'',
       reg_content_sha256 = replicate 64 CHR ''c'', reg_text_fields = [(''caption'', ''Electrical'')],
       reg_dense = [1, 1 / 2], reg_multi = [[1], [2]]\<rparr>]\<rparr>"

lemma demo_pack_loads:
  "load_retrieval_pack zero_sha (\<lambda>_. []) (Some demo_model) (Some demo_model) demo_envelope = Inr demo_pack"
  by code_simp

lemma demo_pack_ok: "pack_ok demo_pack"
  by code_simp

theorem loaded_pack_meets_contract_witness: "pack_ok demo_pack"
  using loaded_pack_meets_contract [OF demo_pack_loads] by blast

end
