(* ===== verification/Ranking.thy ===== *)
theory Ranking
  imports Prelude
begin

section \<open>Deterministic rankings\<close>

text \<open>
  The interface every ranked result of the program provides: a ranking is a permutation of its input,
  ordered by a key. From that alone follow that a cut-off keeps the best items, and that the result does
  not depend on the order of the input when the key tells all items apart.
\<close>

locale ranking =
  fixes rank :: "'a list \<Rightarrow> 'a list" and key :: "'a \<Rightarrow> 'k::linorder"
  assumes rank_mset: "mset (rank xs) = mset xs"
    and rank_sorted: "sorted (map key (rank xs))"
begin

lemma rank_set [simp]: "set (rank xs) = set xs"
  using rank_mset by (rule mset_eq_setD)

lemma rank_length [simp]: "length (rank xs) = length xs"
  using rank_mset by (rule mset_eq_length)

lemma rank_distinct [simp]: "distinct (rank xs) = distinct xs"
  using rank_mset by (rule mset_eq_imp_distinct_iff)

lemma top_subset: "x \<in> set (take k (rank xs)) \<Longrightarrow> x \<in> set xs"
  by (auto dest: in_set_takeD)

lemma top_dominates:
  assumes "x \<in> set (take k (rank xs))" and "y \<in> set xs" and "y \<notin> set (take k (rank xs))"
  shows "key x \<le> key y"
proof -
  have "y \<in> set (take k (rank xs) @ drop k (rank xs))" using assms(2) by simp
  then have "y \<in> set (drop k (rank xs))" using assms(3) by (metis UnE set_append)
  moreover have "sorted (map key (take k (rank xs)) @ map key (drop k (rank xs)))"
    using rank_sorted by (metis append_take_drop_id map_append)
  ultimately show ?thesis using assms(1) by (auto simp: sorted_append)
qed

lemma top_sorted: "sorted (map key (take k (rank xs)))"
  using rank_sorted by (simp add: sorted_wrt_take flip: take_map)

lemma rank_unique:
  assumes "inj_on key (set xs)" and "mset ys = mset xs"
  shows "rank ys = rank xs"
proof -
  have sets: "set ys = set xs" using assms(2) by (rule mset_eq_setD)
  have "mset (map key (rank ys)) = mset (map key (rank xs))"
    by (simp add: mset_map rank_mset assms(2))
  then have "map key (rank ys) = map key (rank xs)"
    by (metis rank_sorted properties_for_sort)
  then show ?thesis using assms(1) sets by (metis map_inj_on rank_set sup.idem)
qed

end

lemma ranking_sort_key: "ranking (sort_key f) f"
  by unfold_locales simp_all

end
