(* ===== verification/HybridQuery.thy ===== *)
theory HybridQuery
  imports RetrievalPack Ranking
begin

section \<open>The hybrid query\<close>

text \<open>
  \<open>src/dsvire/hybrid_query.py\<close>: BM25 and dense ranking, reciprocal rank fusion, bounded MaxSim. The
  natural logarithm is the parameter \<open>ln_fn\<close>. Query arguments come from decoded JSON, and a list of
  numbers is iterated the way the language does: a text yields its characters, a dictionary its keys,
  anything else raises \<open>TypeError\<close>. The NumPy scorer calls a third-party library and is not modelled.
\<close>

datatype query_error = HybridError string | TypeFailure | OverflowFailure

definition token_char :: "char \<Rightarrow> bool" where
  "token_char c \<longleftrightarrow> ascii_lower c \<or> ascii_digit c"

definition tokens :: "string \<Rightarrow> string list" where
  "tokens value = filter (\<lambda>w. w \<noteq> [])
     (split_on CHR '' '' (map (\<lambda>c. if token_char c then c else CHR '' '') (casefold value)))"

subsection \<open>Routing\<close>

definition type_terms :: "(string \<times> string list) list" where
  "type_terms =
     [(''pinout'', [''pin'', ''pins'', ''pinout'', ''terminal'', ''terminals'', ''lead'', ''leads'']),
      (''table'', [''table'', ''rating'', ''ratings'', ''characteristic'', ''characteristics'', ''electrical'']),
      (''package'', [''package'', ''footprint'', ''dimension'', ''dimensions'', ''drawing'', ''land'', ''outline''])]"

definition type_priority :: "string \<Rightarrow> int" where
  "type_priority name = (if name = ''pinout'' then 0 else if name = ''package'' then 1 else 2)"

definition type_score :: "string list \<Rightarrow> string \<Rightarrow> int" where
  "type_score terms name = (case map_of type_terms name of None \<Rightarrow> 0
     | Some hints \<Rightarrow> int (length (filter (\<lambda>h. h \<in> set terms) hints)))"

definition order_types :: "string list \<Rightarrow> string list \<Rightarrow> string list" where
  "order_types terms names = sort_key (\<lambda>n. (- type_score terms n, type_priority n)) names"

definition route_types :: "string \<Rightarrow> string list" where
  "route_types query = take 2 (order_types (tokens query) region_types)"

subsection \<open>Vectors\<close>

definition sequence_items :: "json \<Rightarrow> query_error + json list" where
  "sequence_items v = (case v of
     JArr xs \<Rightarrow> Inr xs
   | JObj d \<Rightarrow> Inr (map (\<lambda>(k, _). JStr k) d)
   | JStr s \<Rightarrow> Inr (map (\<lambda>c. JStr [c]) s)
   | _ \<Rightarrow> Inl TypeFailure)"

definition float_item :: "json \<Rightarrow> query_error + pyfloat" where
  "float_item v = (case v of
     JInt i \<Rightarrow> (case to_float i of None \<Rightarrow> Inl OverflowFailure | Some r \<Rightarrow> Inr (Flt r))
   | JFloat f \<Rightarrow> Inr f
   | _ \<Rightarrow> Inl TypeFailure)"

definition valid_item :: "string \<Rightarrow> pyfloat \<Rightarrow> query_error + rat" where
  "valid_item context f = (case f of
     Flt r \<Rightarrow> if \<bar>r\<bar> \<le> 1000000 then Inr r else Inl (HybridError (context @ '' contains an invalid value''))
   | _ \<Rightarrow> Inl (HybridError (context @ '' contains an invalid value'')))"

definition checked_vector :: "int \<Rightarrow> string \<Rightarrow> json \<Rightarrow> query_error + rat list" where
  "checked_vector dimension context v =
     bindE (sequence_items v) (\<lambda>xs.
       if int (length xs) \<noteq> dimension
       then Inl (HybridError (context @ '' must have dimension '' @ int_str dimension))
       else if \<not> list_all is_number xs then Inl (HybridError (context @ '' must contain only numbers''))
       else bindE (mapE float_item xs) (mapE (valid_item context)))"

definition dot :: "rat list \<Rightarrow> rat list \<Rightarrow> rat" where
  "dot left right = fsum (map (\<lambda>(a, b). fmul a b) (zip left right))"

definition max_of :: "rat list \<Rightarrow> rat" where
  "max_of xs = foldr max (tl xs) (hd xs)"

definition recheck :: "int \<Rightarrow> string \<Rightarrow> rat list \<Rightarrow> query_error + rat list" where
  "recheck dimension context v =
     (if int (length v) \<noteq> dimension
      then Inl (HybridError (context @ '' must have dimension '' @ int_str dimension))
      else mapE (\<lambda>r. valid_item context (Flt r)) v)"

definition maxsim :: "rat list list \<Rightarrow> rat list list \<Rightarrow> int \<Rightarrow> query_error + pyfloat" where
  "maxsim query_vectors document_vectors dimension =
     (if query_vectors = [] \<or> document_vectors = [] then Inl (HybridError ''MaxSim vectors must be non-empty'')
      else bindE (mapE (recheck dimension ''query_multi'') query_vectors) (\<lambda>qs.
           bindE (mapE (recheck dimension ''document_multi'') document_vectors) (\<lambda>ds.
             Inr (Flt (fsum (map (\<lambda>q. max_of (map (dot q) ds)) qs))))))"

subsection \<open>BM25\<close>

definition count_of :: "string \<Rightarrow> string list \<Rightarrow> int" where
  "count_of w ws = int (length (filter (\<lambda>x. x = w) ws))"

text \<open>The distinct items in the order of their first occurrence, as a counter keeps them.\<close>

definition first_occurrences :: "'a list \<Rightarrow> 'a list" where
  "first_occurrences xs = rev (remdups (rev xs))"

definition bm25_k1 :: rat where "bm25_k1 = rnd (12 / 10)"
definition bm25_b :: rat where "bm25_b = 3 / 4"

definition bm25_term :: "(rat \<Rightarrow> rat) \<Rightarrow> int \<Rightarrow> rat \<Rightarrow> string list \<Rightarrow> int \<Rightarrow> int \<Rightarrow> int \<Rightarrow> rat" where
  "bm25_term ln_fn n average doc query_frequency tf df =
     (let inverse = ln_fn (fadd 1 (fdiv (fadd (of_int (n - df)) (1 / 2)) (fadd (of_int df) (1 / 2))));
          length_norm = (if average \<noteq> 0
            then fadd (fsub 1 bm25_b) (fdiv (fmul bm25_b (of_int (int (length doc)))) average) else 1)
      in fdiv (fmul (fmul (fmul (of_int query_frequency) inverse) (of_int tf)) (fadd bm25_k1 1))
           (fadd (of_int tf) (fmul bm25_k1 length_norm)))"

definition bm25 :: "(rat \<Rightarrow> rat) \<Rightarrow> string list \<Rightarrow> string list \<Rightarrow> rat list" where
  "bm25 ln_fn query_terms texts =
     (let tokenized = map tokens texts;
          n = int (length tokenized);
          average = fdiv (fsum (map (\<lambda>d. of_int (int (length d))) tokenized)) (of_int n);
          terms = first_occurrences query_terms;
          df = (\<lambda>t. int (length (filter (\<lambda>d. t \<in> set d) tokenized)))
      in map (\<lambda>doc. foldl (\<lambda>score t.
           if count_of t doc = 0 then score
           else fadd score (bm25_term ln_fn n average doc (count_of t query_terms) (count_of t doc) (df t)))
           0 terms) tokenized)"

subsection \<open>Ranking and fusion\<close>

definition rank_key :: "string \<times> rat \<Rightarrow> rat \<times> string" where
  "rank_key item = (- snd item, fst item)"

definition order_scores :: "(string \<times> rat) list \<Rightarrow> (string \<times> rat) list" where
  "order_scores items = sort_key rank_key items"

definition rank_ids :: "string list \<Rightarrow> rat list \<Rightarrow> string list" where
  "rank_ids ids scores = map fst (order_scores (zip ids scores))"

definition score_of :: "(string \<times> rat) list \<Rightarrow> string \<Rightarrow> rat" where
  "score_of fused i = (case map_of fused i of Some s \<Rightarrow> s | None \<Rightarrow> 0)"

definition fuse_step :: "int \<Rightarrow> (string \<times> rat) list \<Rightarrow> nat \<times> string \<Rightarrow> (string \<times> rat) list" where
  "fuse_step rrf_k fused item = (case item of (rank, i) \<Rightarrow>
     AList.update i (fadd (score_of fused i) (fdiv 1 (of_int (rrf_k + int rank)))) fused)"

definition fuse :: "int \<Rightarrow> string list list \<Rightarrow> (string \<times> rat) list" where
  "fuse rrf_k orders = foldl (\<lambda>fused order. foldl (fuse_step rrf_k) fused (enumerate 1 order)) [] orders"

definition fused_key :: "pack \<Rightarrow> string list \<Rightarrow> (string \<times> rat) list \<Rightarrow> string \<Rightarrow> rat \<times> string" where
  "fused_key p routed fused i =
     (- (fadd (score_of fused i)
          (case List.find (\<lambda>r. reg_id r = i) (regions p) of
             Some r \<Rightarrow> if reg_type r \<in> set routed then rnd (1 / 1000) else 0
           | None \<Rightarrow> 0)), i)"

definition order_fused :: "pack \<Rightarrow> string list \<Rightarrow> (string \<times> rat) list \<Rightarrow> string list \<Rightarrow> string list" where
  "order_fused p routed fused ids = sort_key (fused_key p routed fused) ids"

record hit =
  hit_region :: string
  hit_score :: rat
  hit_bm25 :: rat
  hit_dense :: rat
  hit_maxsim :: rat

definition hit_key :: "hit \<Rightarrow> rat \<times> string" where
  "hit_key h = (- hit_score h, hit_region h)"

definition order_hits :: "hit list \<Rightarrow> hit list" where
  "order_hits hs = sort_key hit_key hs"

record query_result =
  routed_types :: "string list"
  considered :: nat
  maxsim_evaluated :: nat
  prefiltered :: "string list"
  hits :: "hit list"

type_synonym scorer = "rat list list \<Rightarrow> rat list list \<Rightarrow> int \<Rightarrow> query_error + pyfloat"

definition hit_of :: "string \<Rightarrow> rat \<Rightarrow> rat \<Rightarrow> pyfloat \<Rightarrow> query_error + hit" where
  "hit_of i b d score = (case score of
     Flt x \<Rightarrow> Inr \<lparr>hit_region = i, hit_score = x, hit_bm25 = b, hit_dense = d, hit_maxsim = x\<rparr>
   | _ \<Rightarrow> Inl (HybridError ''MaxSim scorer produced a non-finite score''))"

definition rescore :: "scorer \<Rightarrow> pack \<Rightarrow> rat list list \<Rightarrow> (string \<times> rat \<times> rat) list \<Rightarrow> string \<Rightarrow>
    query_error + hit" where
  "rescore scorer p query scores i =
     (case (List.find (\<lambda>r. reg_id r = i) (regions p), map_of scores i) of
        (Some r, Some (b, d)) \<Rightarrow>
          bindE (scorer query (reg_multi r) (multi_dim p)) (hit_of i b d)
      | _ \<Rightarrow> Inl TypeFailure)"

definition int_arg :: "json \<Rightarrow> query_error + int" where
  "int_arg v = (case v of JInt i \<Rightarrow> Inr i | _ \<Rightarrow> Inl (HybridError ''retrieval bounds must be integers''))"

definition region_text :: "region \<Rightarrow> string" where
  "region_text r = join [char_of (10::nat)] (map snd (reg_text_fields r))"

text \<open>The ranking after all arguments have been checked.\<close>

definition ranked_query :: "(rat \<Rightarrow> rat) \<Rightarrow> scorer \<Rightarrow> pack \<Rightarrow> string \<Rightarrow> rat list \<Rightarrow> rat list list \<Rightarrow>
    nat \<Rightarrow> nat \<Rightarrow> nat \<Rightarrow> int \<Rightarrow> query_error + query_result" where
  "ranked_query ln_fn scorer p query dense multi top_n maxsim_k limit rrf_k =
     (let ids = map reg_id (regions p);
          bm25_scores = bm25 ln_fn (tokens query) (map region_text (regions p));
          dense_scores = map (\<lambda>r. dot dense (reg_dense r)) (regions p);
          fused = fuse rrf_k [take top_n (rank_ids ids bm25_scores), take top_n (rank_ids ids dense_scores)];
          routed = route_types query;
          ordered = order_fused p routed fused (map fst fused);
          candidates = take maxsim_k ordered
      in bindE (mapE (rescore scorer p multi (zip ids (zip bm25_scores dense_scores))) candidates) (\<lambda>rescored.
           Inr \<lparr>routed_types = routed, considered = length fused, maxsim_evaluated = length candidates,
                prefiltered = ordered, hits = take limit (order_hits rescored)\<rparr>))"

definition hybrid_query :: "(rat \<Rightarrow> rat) \<Rightarrow> scorer \<Rightarrow> pack \<Rightarrow> json \<Rightarrow> json \<Rightarrow> json \<Rightarrow> json \<Rightarrow> json \<Rightarrow> json \<Rightarrow> json \<Rightarrow>
    query_error + query_result" where
  "hybrid_query ln_fn scorer p query dense_vector multi_vectors top_n maxsim_k limit rrf_k =
     (case query of
        JStr q \<Rightarrow>
          if strip q = [] \<or> 8192 < int (length (utf8_encode q))
          then Inl (HybridError ''query is empty or outside its byte limit'')
          else
          bindE (checked_vector (dense_dim p) ''dense_vector'' dense_vector) (\<lambda>dense.
          bindE (sequence_items multi_vectors) (\<lambda>raw_multi.
          if \<not> (raw_multi \<noteq> [] \<and> int (length raw_multi) \<le> 512)
          then Inl (HybridError ''multi_vectors are outside their token limit'')
          else
          bindE (mapE (checked_vector (multi_dim p) ''multi_vectors'') raw_multi) (\<lambda>multi.
          bindE (mapE int_arg [top_n, maxsim_k, limit, rrf_k]) (\<lambda>bounds.
          let tn = bounds ! 0; mk = bounds ! 1; lm = bounds ! 2; rk = bounds ! 3
          in if \<not> (1 \<le> tn \<and> tn \<le> min 10000 (int (length (regions p))))
             then Inl (HybridError ''top_n is outside its bounded range'')
             else if \<not> (1 \<le> mk \<and> mk \<le> min 1000 tn) \<or> \<not> (1 \<le> lm \<and> lm \<le> mk)
             then Inl (HybridError ''maxsim_k or limit is outside its bounded range'')
             else if \<not> (1 \<le> rk \<and> rk \<le> 10000) then Inl (HybridError ''rrf_k is outside its bounded range'')
             else ranked_query ln_fn scorer p q dense multi (nat tn) (nat mk) (nat lm) rk))))
      | _ \<Rightarrow> Inl (HybridError ''query is empty or outside its byte limit''))"


subsection \<open>The rankings provide the interface\<close>

interpretation score_ranking: ranking order_scores rank_key
  by unfold_locales (simp_all add: order_scores_def)

interpretation fused_ranking: ranking "order_fused p routed fused" "fused_key p routed fused"
  for p :: pack and routed :: "string list" and fused :: "(string \<times> rat) list"
  by unfold_locales (simp_all add: order_fused_def)

interpretation hit_ranking: ranking order_hits hit_key
  by unfold_locales (simp_all add: order_hits_def)

interpretation type_ranking: ranking "order_types terms" "\<lambda>n. (- type_score terms n, type_priority n)"
  for terms :: "string list"
  by unfold_locales (simp_all add: order_types_def)

subsection \<open>Facts\<close>

lemma rank_ids_distinct:
  assumes "distinct ids" and "length scores = length ids"
  shows "distinct (rank_ids ids scores)" and "length (rank_ids ids scores) = length ids"
    and "set (rank_ids ids scores) = set ids"
proof -
  have m: "mset (rank_ids ids scores) = mset ids"
    using assms(2) unfolding rank_ids_def by (metis mset_map score_ranking.rank_mset map_fst_zip)
  show "distinct (rank_ids ids scores)" using m assms(1) mset_eq_imp_distinct_iff by blast
  show "length (rank_ids ids scores) = length ids" using m by (rule mset_eq_length)
  show "set (rank_ids ids scores) = set ids" using m by (rule mset_eq_setD)
qed

lemma fuse_order_keys:
  "set (map fst (foldl (fuse_step k) fused (enumerate n order))) = set (map fst fused) \<union> set order \<and>
   (distinct (map fst fused) \<longrightarrow> distinct (map fst (foldl (fuse_step k) fused (enumerate n order))))"
proof (induction order arbitrary: fused n)
  case (Cons i order)
  let ?f = "fuse_step k fused (n, i)"
  have "set (map fst ?f) = insert i (set (map fst fused))"
    by (simp add: fuse_step_def update_conv' flip: dom_map_of_conv_image_fst)
  moreover have "distinct (map fst fused) \<longrightarrow> distinct (map fst ?f)"
    by (simp add: fuse_step_def distinct_update)
  ultimately show ?case using Cons.IH [of ?f "Suc n"] by auto
qed simp

lemma fuse_keys:
  "set (map fst (fuse k [a, b])) = set a \<union> set b" "distinct (map fst (fuse k [a, b]))"
  using fuse_order_keys [of k "[]" 1 a] fuse_order_keys [of k "foldl (fuse_step k) [] (enumerate 1 a)" 1 b]
  by (simp_all add: fuse_def)

lemma hit_of_region: "hit_of i b d f = Inr h \<Longrightarrow> hit_region h = i"
  by (auto simp: hit_of_def split: pyfloat.splits)

lemma rescore_region: "rescore scorer p query scores i = Inr h \<Longrightarrow> hit_region h = i"
  by (auto simp: rescore_def dest: hit_of_region split: option.splits)

lemma bm25_length [simp]: "length (bm25 ln_fn qs texts) = length texts"
  by (simp add: bm25_def Let_def)

lemma mapE_regions:
  "mapE (rescore scorer p query scores) is = Inr hs \<Longrightarrow> map hit_region hs = is"
  by (induction "is" arbitrary: hs) (auto dest: rescore_region)

lemma hit_key_inj: "inj_on hit_key (set hs) \<longleftrightarrow> inj_on (\<lambda>h. (hit_score h, hit_region h)) (set hs)"
  by (auto simp: inj_on_def hit_key_def)

lemma distinct_regions_sorted:
  assumes "distinct (map hit_region hs)" and "sorted (map hit_key hs)"
  shows "sorted_wrt (\<lambda>a b. hit_key a < hit_key b) hs"
  using assms
proof (induction hs)
  case (Cons h hs)
  then have "hit_key h \<noteq> hit_key g" if "g \<in> set hs" for g
    using that by (auto simp: hit_key_def image_iff)
  with Cons show ?case by (force simp: order_less_le)
qed simp

lemma ranked_query_shape:
  assumes "ranked_query ln_fn scorer p query dense multi top_n maxsim_k limit rrf_k = Inr res"
    and "distinct (map reg_id (regions p))" and "top_n \<le> length (regions p)" and "maxsim_k \<le> top_n" and "limit \<le> maxsim_k"
  shows "length (hits res) = limit" and "maxsim_evaluated res = maxsim_k"
    and "top_n \<le> considered res" and "considered res \<le> 2 * top_n"
    and "set (prefiltered res) \<subseteq> set (map reg_id (regions p))" and "distinct (prefiltered res)"
    and "length (prefiltered res) = considered res"
    and "distinct (map hit_region (hits res))"
    and "sorted_wrt (\<lambda>a b. hit_key a < hit_key b) (hits res)"
    and "set (map hit_region (hits res)) \<subseteq> set (take maxsim_k (prefiltered res))"
proof -
  let ?ids = "map reg_id (regions p)"
  let ?bm = "bm25 ln_fn (tokens query) (map region_text (regions p))"
  let ?de = "map (\<lambda>r. dot dense (reg_dense r)) (regions p)"
  let ?a = "take top_n (rank_ids ?ids ?bm)" and ?b = "take top_n (rank_ids ?ids ?de)"
  let ?fused = "fuse rrf_k [?a, ?b]"
  let ?ordered = "order_fused p (route_types query) ?fused (map fst ?fused)"
  from assms(1) obtain rescored where
    rescored: "mapE (rescore scorer p multi (zip ?ids (zip ?bm ?de))) (take maxsim_k ?ordered) = Inr rescored"
    and res: "considered res = length ?fused" "maxsim_evaluated res = length (take maxsim_k ?ordered)"
      "prefiltered res = ?ordered" "hits res = take limit (order_hits rescored)"
    by (auto simp: ranked_query_def Let_def)
  have a: "distinct ?a" "length ?a = top_n" "set ?a \<subseteq> set ?ids"
    using rank_ids_distinct [OF assms(2), of ?bm] assms(3) by (auto dest: in_set_takeD)
  have b: "length ?b = top_n" "set ?b \<subseteq> set ?ids"
    using rank_ids_distinct [OF assms(2), of ?de] assms(3) by (auto dest: in_set_takeD)
  have dist: "distinct (map fst ?fused)" by (rule fuse_keys)
  have len: "length ?fused = card (set ?a \<union> set ?b)"
    using distinct_card [OF dist] fuse_keys(1) by (metis length_map)
  show "top_n \<le> considered res"
    using res(1) len a(1,2) card_mono [of "set ?a \<union> set ?b" "set ?a"] distinct_card [OF a(1)] by simp
  then have tn: "top_n \<le> length ?fused" using res(1) by simp
  show "considered res \<le> 2 * top_n"
    using res(1) len card_Un_le [of "set ?a" "set ?b"] card_length [of ?a] card_length [of ?b] a(2) b(1) by simp
  show "distinct (prefiltered res)" using res(3) dist by simp
  show "length (prefiltered res) = considered res" using res(1,3) by simp
  have "set (map fst ?fused) \<subseteq> set ?ids" using a(3) b(2) unfolding fuse_keys(1) by blast
  then show "set (prefiltered res) \<subseteq> set ?ids" using res(3) by simp
  show "maxsim_evaluated res = maxsim_k" using res(2) tn assms(4) by simp
  have regs: "map hit_region rescored = take maxsim_k ?ordered" using rescored by (rule mapE_regions)
  have "length (take maxsim_k ?ordered) = maxsim_k" using tn assms(4) by simp
  then have lr: "length rescored = maxsim_k" using regs by (metis length_map)
  then show "length (hits res) = limit" using res(4) assms(5) by simp
  have "distinct (map hit_region rescored)" unfolding regs using dist by (simp add: distinct_take)
  moreover have "mset (map hit_region (order_hits rescored)) = mset (map hit_region rescored)"
    by (simp add: mset_map hit_ranking.rank_mset)
  ultimately have dr: "distinct (map hit_region (order_hits rescored))"
    using mset_eq_imp_distinct_iff by blast
  show d: "distinct (map hit_region (hits res))"
    unfolding res(4) take_map [symmetric] by (rule distinct_take [OF dr])
  show "sorted_wrt (\<lambda>a b. hit_key a < hit_key b) (hits res)"
    using d hit_ranking.top_sorted res(4) by (intro distinct_regions_sorted) simp_all
  have "set (hits res) \<subseteq> set rescored" unfolding res(4) by (auto dest: hit_ranking.top_subset)
  then have "set (map hit_region (hits res)) \<subseteq> set (map hit_region rescored)" by auto
  then show "set (map hit_region (hits res)) \<subseteq> set (take maxsim_k (prefiltered res))"
    unfolding regs res(3) .
qed

lemma hybrid_query_checked:
  assumes "hybrid_query ln_fn scorer p query dense_vector multi_vectors top_n maxsim_k limit rrf_k = Inr res"
  obtains q dense multi tn mk lm rk where "query = JStr q"
    and "ranked_query ln_fn scorer p q dense multi (nat tn) (nat mk) (nat lm) rk = Inr res"
    and "top_n = JInt tn" and "maxsim_k = JInt mk" and "limit = JInt lm"
    and "1 \<le> tn" and "tn \<le> 10000" and "tn \<le> int (length (regions p))" and "1 \<le> mk" and "mk \<le> tn" and "mk \<le> 1000"
    and "1 \<le> lm" and "lm \<le> mk" and "vector_ok (dense_dim p) dense" and "list_all (vector_ok (multi_dim p)) multi"
    and "int (length multi) \<le> 512"
proof -
  from assms obtain q where q: "query = JStr q" by (cases query) (simp_all add: hybrid_query_def)
  from assms q obtain dense raw_multi multi bounds where
    f: "checked_vector (dense_dim p) ''dense_vector'' dense_vector = Inr dense"
      "int (length raw_multi) \<le> 512"
      "mapE (checked_vector (multi_dim p) ''multi_vectors'') raw_multi = Inr multi"
      "mapE int_arg [top_n, maxsim_k, limit, rrf_k] = Inr bounds"
    and rest: "1 \<le> bounds ! 0" "bounds ! 0 \<le> min 10000 (int (length (regions p)))" "1 \<le> bounds ! 1"
      "bounds ! 1 \<le> min 1000 (bounds ! 0)" "1 \<le> bounds ! 2" "bounds ! 2 \<le> bounds ! 1"
      "ranked_query ln_fn scorer p q dense multi (nat (bounds ! 0)) (nat (bounds ! 1)) (nat (bounds ! 2)) (bounds ! 3) = Inr res"
    by (auto simp: hybrid_query_def Let_def simp del: mapE.simps split: if_splits)
  have item: "valid_item c fl = Inr r \<Longrightarrow> \<bar>r\<bar> \<le> 1000000" for c fl r
    by (auto simp: valid_item_def split: pyfloat.splits if_splits)
  have vec: "vector_ok n v" if "checked_vector n c x = Inr v" for n c x v
  proof -
    from that obtain xs fs where x: "int (length xs) = n" "mapE float_item xs = Inr fs" "mapE (valid_item c) fs = Inr v"
      by (auto simp: checked_vector_def split: if_splits)
    have "\<bar>r\<bar> \<le> 1000000" if "r \<in> set v" for r
      using mapE_in_set [OF x(3) that] item by blast
    with mapE_length [OF x(2)] mapE_length [OF x(3)] x(1) show ?thesis by (simp add: vector_ok_def list_all_iff)
  qed
  have int_argD: "int_arg v = Inr i \<Longrightarrow> v = JInt i" for v i
    by (simp add: int_arg_def split: json.splits)
  obtain tn mk lm rk where b: "bounds = [tn, mk, lm, rk]" "top_n = JInt tn" "maxsim_k = JInt mk" "limit = JInt lm"
    using f(4) int_argD by auto
  have multi: "list_all (vector_ok (multi_dim p)) multi"
    using mapE_in_set [OF f(3)] vec unfolding list_all_iff by blast
  from that [OF q _ b(2-4) _ _ _ _ _ _ _ _ vec [OF f(1)] multi] rest b(1) f(2) mapE_length [OF f(3)]
  show ?thesis by (simp add: eval_nat_numeral)
qed

text \<open>On a pack that meets its contract the ranking of checked arguments always ends with a result.\<close>

lemma recheck_ok: "vector_ok n v \<Longrightarrow> recheck n c v = Inr v"
proof -
  assume v: "vector_ok n v"
  have "list_all (\<lambda>x. \<bar>x\<bar> \<le> 1000000) xs \<Longrightarrow> mapE (\<lambda>r. valid_item c (Flt r)) xs = Inr xs" for xs
    by (induction xs) (simp_all add: valid_item_def)
  with v show ?thesis by (simp add: vector_ok_def recheck_def)
qed

lemma recheck_all: "list_all (vector_ok n) vs \<Longrightarrow> mapE (recheck n c) vs = Inr vs"
  by (induction vs) (simp_all add: recheck_ok)

lemma rescore_total:
  assumes "pack_ok p" and "q \<noteq> []" and "list_all (vector_ok (multi_dim p)) q" and "i \<in> set (map reg_id (regions p))"
    and "i \<in> fst ` set scores"
  shows "\<exists>h. rescore maxsim p q scores i = Inr h"
proof -
  obtain r where r: "List.find (\<lambda>r. reg_id r = i) (regions p) = Some r"
    using assms(4) by (cases "List.find (\<lambda>r. reg_id r = i) (regions p)") (auto simp: find_None_iff)
  then have "region_ok (dense_dim p) (multi_dim p) r"
    using assms(1) by (auto simp: pack_ok_def list_all_iff dest: find_SomeD)
  then have m: "reg_multi r \<noteq> []" "list_all (vector_ok (multi_dim p)) (reg_multi r)" by (simp_all add: region_ok_def)
  obtain b d where "map_of scores i = Some (b, d)"
    using assms(5) by (metis map_of_eq_None_iff option.exhaust surj_pair)
  with r m assms(2,3) show ?thesis by (simp add: rescore_def maxsim_def recheck_all hit_of_def)
qed

lemma ranked_query_total:
  assumes "pack_ok p" and "multi \<noteq> []" and "list_all (vector_ok (multi_dim p)) multi"
  shows "\<exists>res. ranked_query ln_fn maxsim p query dense multi top_n maxsim_k limit rrf_k = Inr res"
proof -
  let ?ids = "map reg_id (regions p)"
  let ?bm = "bm25 ln_fn (tokens query) (map region_text (regions p))"
  let ?de = "map (\<lambda>r. dot dense (reg_dense r)) (regions p)"
  let ?a = "take top_n (rank_ids ?ids ?bm)" and ?b = "take top_n (rank_ids ?ids ?de)"
  let ?fused = "fuse rrf_k [?a, ?b]"
  let ?scores = "zip ?ids (zip ?bm ?de)"
  let ?ordered = "order_fused p (route_types query) ?fused (map fst ?fused)"
  have dist: "distinct ?ids" using assms(1) by (simp add: pack_ok_def)
  have "set (map fst ?fused) \<subseteq> set ?ids"
    using rank_ids_distinct(3) [OF dist, of ?bm] rank_ids_distinct(3) [OF dist, of ?de]
      set_take_subset [of top_n "rank_ids ?ids ?bm"] set_take_subset [of top_n "rank_ids ?ids ?de"]
    unfolding fuse_keys(1) by simp
  then have "set ?ordered \<subseteq> set ?ids"
    using mset_eq_setD [OF fused_ranking.rank_mset [of p "route_types query" ?fused "map fst ?fused"]] by simp
  then have "set (take maxsim_k ?ordered) \<subseteq> set ?ids" using set_take_subset [of maxsim_k ?ordered] by blast
  moreover have "fst ` set ?scores = set ?ids" by (simp flip: set_map)
  ultimately have "\<exists>h. rescore maxsim p multi ?scores i = Inr h" if "i \<in> set (take maxsim_k ?ordered)" for i
    using that by (intro rescore_total [OF assms]) blast+
  then have "\<exists>hs. mapE (rescore maxsim p multi ?scores) (take maxsim_k ?ordered) = Inr hs"
    by (rule mapE_total)
  then show ?thesis by (auto simp: ranked_query_def Let_def)
qed

lemma query_shape:
  assumes "hybrid_query ln_fn scorer p query dense_vector multi_vectors top_n maxsim_k limit rrf_k = Inr res"
    and "pack_ok p"
  shows "\<exists>tn mk lm. top_n = JInt tn \<and> maxsim_k = JInt mk \<and> limit = JInt lm \<and>
    int (length (hits res)) = lm \<and> int (maxsim_evaluated res) = mk \<and>
    tn \<le> int (considered res) \<and> int (considered res) \<le> 2 * tn \<and> length (prefiltered res) = considered res \<and>
    distinct (map hit_region (hits res)) \<and> set (map hit_region (hits res)) \<subseteq> set (take (nat mk) (prefiltered res)) \<and>
    set (prefiltered res) \<subseteq> set (map reg_id (regions p)) \<and>
    sorted_wrt (\<lambda>a b. (- hit_score a, hit_region a) < (- hit_score b, hit_region b)) (hits res)"
  using assms(1)
proof (rule hybrid_query_checked)
  fix q dense multi tn mk lm rk
  assume r: "ranked_query ln_fn scorer p q dense multi (nat tn) (nat mk) (nat lm) rk = Inr res"
    and args: "top_n = JInt tn" "maxsim_k = JInt mk" "limit = JInt lm"
    and b: "1 \<le> tn" "tn \<le> int (length (regions p))" "1 \<le> mk" "mk \<le> tn" "1 \<le> lm" "lm \<le> mk"
  have "distinct (map reg_id (regions p))" "nat tn \<le> length (regions p)" "nat mk \<le> nat tn" "nat lm \<le> nat mk"
    using assms(2) b by (simp_all add: pack_ok_def nat_le_iff)
  note shape = ranked_query_shape [OF r this]
  show ?thesis
    using shape b args unfolding hit_key_def by (intro exI [of _ tn] exI [of _ mk] exI [of _ lm] conjI) simp_all
qed

lemma hits_in_pack:
  assumes "hybrid_query ln_fn scorer p query dense_vector multi_vectors top_n maxsim_k limit rrf_k = Inr res"
    and "pack_ok p"
  shows "set (map hit_region (hits res)) \<subseteq> set (map reg_id (regions p))"
proof -
  from query_shape [OF assms] obtain n where
    "set (map hit_region (hits res)) \<subseteq> set (take n (prefiltered res))"
    "set (prefiltered res) \<subseteq> set (map reg_id (regions p))" by blast
  then show ?thesis using set_take_subset [of n "prefiltered res"] by blast
qed

subsection \<open>Properties\<close>

text \<open>
  C15. The shape of a result: for a pack that meets its contract, an accepted query returns exactly
  \<open>limit\<close> hits, on distinct regions of the pack, strictly ordered by descending MaxSim score and then
  region identifier, all among the \<open>maxsim_k\<close> best fused candidates; MaxSim ran on exactly \<open>maxsim_k\<close>
  regions, and between \<open>top_n\<close> and twice \<open>top_n\<close> regions were considered.
\<close>

theorem hybrid_query_result_shape:
  assumes "hybrid_query ln_fn scorer p query dense_vector multi_vectors top_n maxsim_k limit rrf_k = Inr res"
    and "pack_ok p"
  shows "\<exists>tn mk lm. top_n = JInt tn \<and> maxsim_k = JInt mk \<and> limit = JInt lm \<and>
    int (length (hits res)) = lm \<and> int (maxsim_evaluated res) = mk \<and>
    tn \<le> int (considered res) \<and> int (considered res) \<le> 2 * tn \<and> length (prefiltered res) = considered res \<and>
    distinct (map hit_region (hits res)) \<and> set (map hit_region (hits res)) \<subseteq> set (take (nat mk) (prefiltered res)) \<and>
    set (prefiltered res) \<subseteq> set (map reg_id (regions p)) \<and>
    sorted_wrt (\<lambda>a b. (- hit_score a, hit_region a) < (- hit_score b, hit_region b)) (hits res)"
  using query_shape [OF assms] .


lemma demo_query_answers:
  "\<exists>res. hybrid_query (\<lambda>x. x) maxsim demo_pack (JStr ''electrical rating'') (JArr [JInt 1, JInt 2])
     (JArr [JArr [JInt 1], JArr [JInt 3]]) (JInt 1) (JInt 1) (JInt 1) (JInt 60) = Inr res"
proof -
  have "list_all (vector_ok (multi_dim demo_pack)) [[1], [3]]" by (simp add: demo_pack_def vector_ok_def)
  then have "\<exists>res. ranked_query (\<lambda>x. x) maxsim demo_pack ''electrical rating'' [1, 2] [[1], [3]] 1 1 1 60 = Inr res"
    by (intro ranked_query_total demo_pack_ok) simp_all
  then show ?thesis
    by (simp add: hybrid_query_def demo_pack_def strip_def py_space_def code_point_def Let_def utf8_encode_def
      checked_vector_def sequence_items_def is_number_def float_item_def to_float_def valid_item_def int_arg_def)
qed

theorem hybrid_query_result_shape_witness:
  "\<exists>res. hybrid_query (\<lambda>x. x) maxsim demo_pack (JStr ''electrical rating'') (JArr [JInt 1, JInt 2])
     (JArr [JArr [JInt 1], JArr [JInt 3]]) (JInt 1) (JInt 1) (JInt 1) (JInt 60) = Inr res \<and>
     length (hits res) = 1 \<and> set (map hit_region (hits res)) \<subseteq> set (map reg_id (regions demo_pack))"
proof -
  from demo_query_answers obtain res where res: "hybrid_query (\<lambda>x. x) maxsim demo_pack (JStr ''electrical rating'')
    (JArr [JInt 1, JInt 2]) (JArr [JArr [JInt 1], JArr [JInt 3]]) (JInt 1) (JInt 1) (JInt 1) (JInt 60) = Inr res" ..
  from hybrid_query_result_shape [OF res demo_pack_ok]
  obtain n where "int (length (hits res)) = 1" "set (map hit_region (hits res)) \<subseteq> set (take n (prefiltered res))"
    "set (prefiltered res) \<subseteq> set (map reg_id (regions demo_pack))" by auto
  then have "length (hits res) = 1" "set (map hit_region (hits res)) \<subseteq> set (map reg_id (regions demo_pack))"
    using set_take_subset [of n "prefiltered res"] by (simp, blast)
  with res show ?thesis by blast
qed

end
