(* ===== verification/QueryWorker.thy ===== *)
theory QueryWorker
  imports HybridQuery PdfWorker
begin

section \<open>The query worker\<close>

text \<open>
  \<open>src/dsvire/query_worker.py\<close>: the validation of a query request, the content-addressed packs under
  \<open>retrieval-packs/\<close> (\<open>pack_dir\<close>, by digest), the child that runs the query and the parent that waits
  for it in a temporary directory. SHA-256 is \<open>sha\<close>, the decoder of a file \<open>loads\<close>, the decimal form of a float \<open>frepr\<close>, the natural logarithm \<open>ln_fn\<close>.
\<close>

datatype query_failure = QueryRejected string | QueryEscape string

text \<open>
  What \<open>json.loads\<close> raises: \<open>NotJson\<close> for a decoding error, a Unicode error or the recursion limit, and
  \<open>OverlongInteger\<close> for the plain \<open>ValueError\<close> of an integer literal beyond the interpreter's digit limit.
\<close>

datatype decode_error = NotJson | OverlongInteger

type_synonym decoder = "bytes \<Rightarrow> decode_error + json"

definition strict_model :: "string \<Rightarrow> json \<Rightarrow> query_failure + model_identity" where
  "strict_model context v = (case v of
     JObj d \<Rightarrow>
       if \<not> fields_are [''id'', ''sha256''] d
       then Inl (QueryRejected (context @ '' must contain only id and sha256''))
       else (case field d ''id'' of
         JStr i \<Rightarrow>
           if strip i = [] \<or> 512 < int (length (utf8_encode i))
           then Inl (QueryRejected (context @ ''.id is invalid''))
           else (case field d ''sha256'' of
             JStr s \<Rightarrow> if is_hex 64 s then Inr \<lparr>model_id = strip i, model_sha256 = s\<rparr>
                      else Inl (QueryRejected (context @ ''.sha256 is invalid''))
           | _ \<Rightarrow> Inl (QueryRejected (context @ ''.sha256 is invalid'')))
       | _ \<Rightarrow> Inl (QueryRejected (context @ ''.id is invalid'')))
   | _ \<Rightarrow> Inl (QueryRejected (context @ '' must contain only id and sha256'')))"

subsection \<open>Packs on disk\<close>

text \<open>
  What opening \<open>retrieval-packs/<digest>.json\<close> finds: an error of the operating system (absent, a
  symbolic link), something that is not a regular file, or a regular file with the size its metadata
  gives and the bytes a read returns.
\<close>

datatype pack_file = Unopenable | SpecialFile | RegularFile int bytes

type_synonym pack_dir = "string \<Rightarrow> pack_file"

definition pack_limit :: int where "pack_limit = 512 * 1024 * 1024"

definition file_limit_message :: string where
  "file_limit_message = ''retrieval pack exceeds its file or type limit''"

definition read_pack :: "pack_dir \<Rightarrow> json \<Rightarrow> query_failure + bytes" where
  "read_pack packs digest = (case digest of
     JStr s \<Rightarrow>
       if \<not> is_hex 64 s then Inl (QueryRejected ''pack_sha256 is invalid'')
       else (case packs s of
         Unopenable \<Rightarrow> Inl (QueryRejected ''retrieval pack is unavailable'')
       | SpecialFile \<Rightarrow> Inl (QueryRejected file_limit_message)
       | RegularFile st_size content \<Rightarrow>
           if pack_limit < st_size then Inl (QueryRejected file_limit_message)
           else Inr (take (nat (pack_limit + 1)) content))
   | _ \<Rightarrow> Inl (QueryRejected ''pack_sha256 is invalid''))"

definition pack_failure :: "pack_error \<Rightarrow> query_failure" where
  "pack_failure e = (case e of
     PackError _ \<Rightarrow> QueryRejected ''retrieval pack failed integrity or compatibility validation''
   | FloatOverflow \<Rightarrow> QueryEscape ''OverflowError'')"

definition address_checked :: "json \<Rightarrow> pack_error + pack \<Rightarrow> query_failure + pack" where
  "address_checked digest loaded = (case loaded of
     Inl e \<Rightarrow> Inl (pack_failure e)
   | Inr p \<Rightarrow> if JStr (pack_sha256 p) \<noteq> digest
             then Inl (QueryRejected ''retrieval pack address does not match its payload digest'')
             else Inr p)"

definition load_pack :: "(bytes \<Rightarrow> string) \<Rightarrow> (pyfloat \<Rightarrow> string) \<Rightarrow> decoder \<Rightarrow> pack_dir \<Rightarrow>
    json \<Rightarrow> model_identity \<Rightarrow> model_identity \<Rightarrow> query_failure + pack" where
  "load_pack sha frepr loads packs digest dense multi =
     bindE (read_pack packs digest) (\<lambda>raw.
       if pack_limit < int (length raw) then Inl (QueryRejected ''retrieval pack exceeds its file limit'')
       else (case loads raw of
         Inl NotJson \<Rightarrow> Inl (QueryRejected ''retrieval pack failed integrity or compatibility validation'')
       | Inl OverlongInteger \<Rightarrow> Inl (QueryEscape ''ValueError'')
       | Inr envelope \<Rightarrow>
           address_checked digest (load_retrieval_pack sha frepr (Some dense) (Some multi) envelope)))"

subsection \<open>The query\<close>

definition request_keys :: "string list" where
  "request_keys = [''pack_sha256'', ''models'', ''query'', ''dense_vector'', ''multi_vectors'']"

definition optional_keys :: "string list" where
  "optional_keys = [''top_n'', ''maxsim_k'', ''limit'']"

definition request_keys_ok :: "(string \<times> json) list \<Rightarrow> bool" where
  "request_keys_ok d \<longleftrightarrow> list_all (\<lambda>k. k \<in> set (map fst d)) request_keys \<and>
     list_all (\<lambda>k. k \<in> set (request_keys @ optional_keys)) (map fst d)"

definition models_of :: "json \<Rightarrow> query_failure + (model_identity \<times> model_identity)" where
  "models_of v = (case v of
     JObj m \<Rightarrow>
       if \<not> fields_are [''dense'', ''multi''] m
       then Inl (QueryRejected ''models must contain only dense and multi'')
       else bindE (strict_model ''models.dense'' (field m ''dense'')) (\<lambda>dm.
            bindE (strict_model ''models.multi'' (field m ''multi'')) (\<lambda>mm. Inr (dm, mm)))
   | _ \<Rightarrow> Inl (QueryRejected ''models must contain only dense and multi''))"

definition bound_arg :: "(string \<times> json) list \<Rightarrow> string \<Rightarrow> int \<Rightarrow> pack \<Rightarrow> json" where
  "bound_arg d key most p = get_or d key (JInt (min most (int (length (regions p)))))"

definition query_failure_of :: "query_error \<Rightarrow> query_failure" where
  "query_failure_of e = (case e of OverflowFailure \<Rightarrow> QueryEscape ''OverflowError''
     | _ \<Rightarrow> QueryRejected ''query vectors or bounds are invalid'')"

definition region_by_id :: "pack \<Rightarrow> string \<Rightarrow> region option" where
  "region_by_id p = map_of (rev (map (\<lambda>r. (reg_id r, r)) (regions p)))"

definition num :: "rat \<Rightarrow> json" where
  "num x = JFloat (Flt x)"

definition hit_json :: "pack \<Rightarrow> hit \<Rightarrow> query_failure + json" where
  "hit_json p h = (case region_by_id p (hit_region h) of
     None \<Rightarrow> Inl (QueryEscape ''KeyError'')
   | Some r \<Rightarrow> Inr (JObj [(''region_id'', JStr (hit_region h)), (''page'', JInt (reg_page r)),
       (''type'', JStr (reg_type r)), (''content_sha256'', JStr (reg_content_sha256 r)),
       (''bbox_norm'', JArr (map num (reg_bbox r))), (''score'', num (hit_score h)),
       (''bm25_score'', num (hit_bm25 h)), (''dense_score'', num (hit_dense h)),
       (''maxsim_score'', num (hit_maxsim h))]))"

definition identity_json :: "model_identity \<Rightarrow> json" where
  "identity_json m = JObj [(''id'', JStr (model_id m)), (''sha256'', JStr (model_sha256 m))]"

definition result_json :: "pack \<Rightarrow> query_result \<Rightarrow> query_failure + json" where
  "result_json p res =
     bindE (mapE (hit_json p) (hits res)) (\<lambda>hs.
       Inr (JObj [(''schema_version'', JStr ''dsvire.hybrid-query-result.v1''),
         (''pack_sha256'', JStr (pack_sha256 p)), (''source_sha256'', JStr (source_sha256 p)),
         (''models'', JObj [(''dense'', identity_json (dense_model p)), (''multi'', identity_json (multi_model p))]),
         (''routed_types'', JArr (map JStr (routed_types res))), (''considered'', JInt (int (considered res))),
         (''maxsim_evaluated'', JInt (int (maxsim_evaluated res))), (''hits'', JArr hs)]))"

definition run_query :: "(rat \<Rightarrow> rat) \<Rightarrow> (string \<times> json) list \<Rightarrow> pack \<Rightarrow> query_failure + json" where
  "run_query ln_fn d p =
     (case hybrid_query ln_fn maxsim p (field d ''query'') (field d ''dense_vector'') (field d ''multi_vectors'')
         (bound_arg d ''top_n'' 100 p) (bound_arg d ''maxsim_k'' 32 p) (bound_arg d ''limit'' 5 p) (JInt 60) of
       Inl e \<Rightarrow> Inl (query_failure_of e)
     | Inr res \<Rightarrow> result_json p res)"

definition execute_query :: "(bytes \<Rightarrow> string) \<Rightarrow> (pyfloat \<Rightarrow> string) \<Rightarrow> decoder \<Rightarrow> (rat \<Rightarrow> rat) \<Rightarrow>
    pack_dir \<Rightarrow> json \<Rightarrow> query_failure + json" where
  "execute_query sha frepr loads ln_fn packs request = (case request of
     JObj d \<Rightarrow>
       if \<not> request_keys_ok d then Inl (QueryRejected ''query request keys are invalid'')
       else bindE (models_of (field d ''models'')) (\<lambda>ms.
            bindE (load_pack sha frepr loads packs (field d ''pack_sha256'') (fst ms) (snd ms)) (run_query ln_fn d))
   | _ \<Rightarrow> Inl (QueryRejected ''query request must be an object''))"

subsection \<open>The child and the parent\<close>

definition query_worker_main :: "decode_error + json \<Rightarrow> (json \<Rightarrow> query_failure + json) \<Rightarrow> json" where
  "query_worker_main request execute = (case request of
     Inl NotJson \<Rightarrow> status_object ''rejected'' []
   | Inl OverlongInteger \<Rightarrow> status_object ''worker_error'' [(''detail'', JStr ''ValueError'')]
   | Inr r \<Rightarrow> (case execute r of
       Inr result \<Rightarrow> status_object ''ok'' [(''result'', result)]
     | Inl (QueryRejected _) \<Rightarrow> status_object ''rejected'' []
     | Inl (QueryEscape name) \<Rightarrow> status_object ''worker_error'' [(''detail'', JStr name)]))"

datatype query_job_error = JobRejected | JobTimedOut | JobFailed string | JobOsError | JobTaskCancelled
  | JobAttributeError

definition read_query_result :: "int option \<Rightarrow> result_file \<Rightarrow> query_job_error + (string \<times> json) list" where
  "read_query_result code file =
     (if code \<noteq> Some 0 then Inl (JobFailed ''query worker failed'')
      else case file of
        Missing \<Rightarrow> Inl (JobFailed ''query worker failed'')
      | Undecodable \<Rightarrow> Inl (JobFailed ''query worker returned an invalid result'')
      | Decoded (JObj payload) \<Rightarrow>
          if field payload ''status'' = JStr ''rejected'' then Inl JobRejected
          else if field payload ''status'' \<noteq> JStr ''ok'' then Inl (JobFailed ''query worker failed'')
          else (case field payload ''result'' of JObj result \<Rightarrow> Inr result
            | _ \<Rightarrow> Inl (JobFailed ''query worker failed''))
      | Decoded _ \<Rightarrow> Inl JobAttributeError)"

text \<open>The process after \<open>_terminate\<close>, which cannot fail on a started process.\<close>

definition terminated :: "child \<Rightarrow> child" where
  "terminated p = (case terminate p of Inr p' \<Rightarrow> p' | Inl _ \<Rightarrow> p)"

definition stop_if_alive :: "child \<Rightarrow> child" where
  "stop_if_alive p = (if alive p then terminated p else p)"

text \<open>
  The \<open>with\<close> statement of the temporary directory removes it whatever its body raises.
\<close>

definition query_body :: "observed \<Rightarrow> (query_job_error + (string \<times> json) list) \<times> child list" where
  "query_body w =
     (if \<not> upload_ok w \<or> \<not> start_ok w then (Inl JobOsError, [])
      else let p = process_after_wait w
           in case wait w of
             DeadlinePassed \<Rightarrow> (Inl JobTimedOut, [stop_if_alive (terminated p)])
           | TaskCancelled \<Rightarrow> (Inl JobTaskCancelled, [stop_if_alive (terminated p)])
           | Joined \<Rightarrow> (read_query_result (exitcode (stop_if_alive p)) (result_text w), [stop_if_alive p]))"

definition run_query_job :: "observed \<Rightarrow> host \<Rightarrow> (query_job_error + (string \<times> json) list) \<times> host" where
  "run_query_job w h =
     (if \<not> scratch_ok w then (Inl JobOsError, h)
      else let entered = h\<lparr>scratch_dirs := scratch_dirs h @ [scratch_name w]\<rparr>;
               outcome = query_body w
           in (fst outcome, entered\<lparr>scratch_dirs := filter (\<lambda>d. d \<noteq> scratch_name w) (scratch_dirs entered),
                children := children entered @ snd outcome\<rparr>))"

subsection \<open>Facts\<close>

lemma read_pack_ok:
  "read_pack packs digest = Inr raw \<Longrightarrow> \<exists>s st_size content. digest = JStr s \<and> is_hex 64 s \<and>
     packs s = RegularFile st_size content \<and> raw = take (nat (pack_limit + 1)) content"
  by (auto simp: read_pack_def split: json.splits pack_file.splits if_splits)

lemma load_pack_ok:
  assumes "load_pack sha frepr loads packs digest dm mm = Inr p"
  obtains s st_size content e where "digest = JStr s" and "packs s = RegularFile st_size content"
    and "int (length content) \<le> pack_limit" and "loads content = Inr (JObj e)"
    and "load_retrieval_pack sha frepr (Some dm) (Some mm) (JObj e) = Inr p"
    and "sha (canonical_payload frepr (field e ''payload'')) = s" and "pack_sha256 p = s"
    and "pack_ok p" and "dense_model p = dm" and "multi_model p = mm"
proof -
  from assms obtain raw where raw: "read_pack packs digest = Inr raw" "int (length raw) \<le> pack_limit"
    by (auto simp: load_pack_def split: if_splits)
  from read_pack_ok [OF raw(1)] obtain s st_size content where s: "digest = JStr s"
    "packs s = RegularFile st_size content" "raw = take (nat (pack_limit + 1)) content" by blast
  have len: "int (length content) \<le> pack_limit" using raw(2) s(3) by (simp add: pack_limit_def split: if_splits)
  then have whole: "raw = content" using s(3) by (simp add: pack_limit_def)
  from assms raw obtain v where v: "loads content = Inr v"
    "address_checked digest (load_retrieval_pack sha frepr (Some dm) (Some mm) v) = Inr p"
    by (auto simp: load_pack_def whole split: sum.splits decode_error.splits)
  from v(2) have p: "load_retrieval_pack sha frepr (Some dm) (Some mm) v = Inr p" "pack_sha256 p = s"
    by (auto simp: address_checked_def s(1) split: sum.splits if_splits)
  from pack_contract [OF p(1)] obtain e where "v = JObj e"
    "sha (canonical_payload frepr (field e ''payload'')) = pack_sha256 p" "pack_ok p"
    "dense_model p = dm" "multi_model p = mm" by auto
  with that s len v(1) p show ?thesis by metis
qed

lemma region_by_id_Some:
  assumes "region_by_id p i = Some r"
  shows "r \<in> set (regions p) \<and> reg_id r = i"
  using map_of_SomeD [OF assms [unfolded region_by_id_def]] by auto

lemma region_by_id_found: "i \<in> set (map reg_id (regions p)) \<Longrightarrow> region_by_id p i \<noteq> None"
  by (auto simp: region_by_id_def map_of_eq_None_iff image_image)

lemma result_json_total:
  assumes "set (map hit_region (hits res)) \<subseteq> set (map reg_id (regions p))"
  shows "\<exists>v. result_json p res = Inr v"
proof -
  have "\<exists>v. mapE (hit_json p) hs = Inr v" if "set (map hit_region hs) \<subseteq> set (map reg_id (regions p))" for hs
    using that
  proof (induction hs)
    case (Cons h hs)
    then have "region_by_id p (hit_region h) \<noteq> None" by (intro region_by_id_found) simp
    then have "\<exists>v. hit_json p h = Inr v" by (auto simp: hit_json_def)
    with Cons show ?case by fastforce
  qed simp
  with assms show ?thesis unfolding result_json_def by fastforce
qed

lemma execute_query_parts:
  assumes "execute_query sha frepr loads ln_fn packs request = Inr v"
  obtains d dm mm p where "request = JObj d" and "models_of (field d ''models'') = Inr (dm, mm)"
    and "load_pack sha frepr loads packs (field d ''pack_sha256'') dm mm = Inr p" and "run_query ln_fn d p = Inr v"
proof -
  from assms obtain d where "request = JObj d" by (cases request) (auto simp: execute_query_def)
  with assms that show ?thesis by (auto simp: execute_query_def split: if_splits)
qed

lemma strict_model_failure: "strict_model c v = Inl e \<Longrightarrow> \<exists>m. e = QueryRejected m"
  by (auto simp: strict_model_def split: json.splits if_splits)

lemma models_of_failure: "models_of v = Inl e \<Longrightarrow> \<exists>m. e = QueryRejected m"
  by (auto simp: models_of_def bindE_eq_Inl dest: strict_model_failure split: json.splits if_splits)

lemma read_pack_failure: "read_pack packs digest = Inl e \<Longrightarrow> \<exists>m. e = QueryRejected m"
  by (auto simp: read_pack_def split: json.splits pack_file.splits if_splits)

lemma address_failure:
  "address_checked digest loaded = Inl e \<Longrightarrow> (\<exists>m. e = QueryRejected m) \<or> e \<in> {QueryEscape ''OverflowError'', QueryEscape ''ValueError''}"
  by (auto simp: address_checked_def pack_failure_def split: sum.splits pack_error.splits if_splits)

lemma load_pack_failure:
  assumes "load_pack sha frepr loads packs digest dm mm = Inl e"
  shows "(\<exists>m. e = QueryRejected m) \<or> e \<in> {QueryEscape ''OverflowError'', QueryEscape ''ValueError''}"
proof (cases "read_pack packs digest")
  case (Inl e')
  with assms show ?thesis by (auto simp: load_pack_def dest: read_pack_failure)
next
  case (Inr raw)
  with assms show ?thesis by (auto simp: load_pack_def dest: address_failure split: if_splits sum.splits decode_error.splits)
qed

lemma terminated_dead: "started p \<Longrightarrow> \<not> alive (stop_if_alive p) \<and> \<not> alive (stop_if_alive (terminated p))"
  using terminate_started [of p] terminate_dead [of p]
  by (auto simp: stop_if_alive_def terminated_def split: sum.splits)

text \<open>The hits of a result are regions of the pack, quoted with their page, type, hash and box.\<close>

fun cites :: "pack \<Rightarrow> json \<Rightarrow> bool" where
  "cites p (JObj h) \<longleftrightarrow> list_ex (\<lambda>r. field h ''region_id'' = JStr (reg_id r) \<and> field h ''page'' = JInt (reg_page r) \<and>
     field h ''type'' = JStr (reg_type r) \<and> field h ''content_sha256'' = JStr (reg_content_sha256 r) \<and>
     field h ''bbox_norm'' = JArr (map num (reg_bbox r))) (regions p)"
| "cites p _ \<longleftrightarrow> False"

lemma hit_json_cites: "hit_json p h = Inr v \<Longrightarrow> cites p v"
proof -
  assume v: "hit_json p h = Inr v"
  then obtain r where r: "region_by_id p (hit_region h) = Some r"
    by (auto simp: hit_json_def split: option.splits)
  have "cites p v \<longleftrightarrow> list_ex (\<lambda>q. reg_id r = reg_id q \<and> reg_page r = reg_page q \<and> reg_type r = reg_type q \<and>
      reg_content_sha256 r = reg_content_sha256 q \<and> map num (reg_bbox r) = map num (reg_bbox q)) (regions p)"
    using v r region_by_id_Some [OF r] by (auto simp: hit_json_def field_def)
  then show "cites p v" using region_by_id_Some [OF r] unfolding list_ex_iff by blast
qed

lemma result_json_cites:
  assumes "result_json p res = Inr v"
  obtains f hs where "v = JObj f" and "field f ''hits'' = JArr hs" and "list_all (cites p) hs"
    and "length hs = length (hits res)"
    and "field f ''pack_sha256'' = JStr (pack_sha256 p)" and "field f ''source_sha256'' = JStr (source_sha256 p)"
    and "field f ''models'' = JObj [(''dense'', identity_json (dense_model p)), (''multi'', identity_json (multi_model p))]"
proof -
  from assms obtain hs where hs: "mapE (hit_json p) (hits res) = Inr hs"
    by (auto simp: result_json_def)
  have "list_all (cites p) hs"
    using mapE_in_set [OF hs] hit_json_cites unfolding list_all_iff by blast
  with assms hs mapE_length [OF hs] show ?thesis
    by (intro that) (auto simp: result_json_def field_def)
qed

text \<open>
  A hit also quotes the file itself: \<open>quotes_row row hit\<close> compares it with one region object of the decoded JSON, stripped and converted to
  floats as the loader does. No pack stands between them.
\<close>

fun stripped :: "json \<Rightarrow> json" where
  "stripped (JStr s) = JStr (strip s)"
| "stripped v = v"

definition floated :: "json \<Rightarrow> json" where
  "floated v = (case v of JInt i \<Rightarrow> (case to_float i of Some r \<Rightarrow> JFloat (Flt r) | None \<Rightarrow> JNull) | _ \<Rightarrow> v)"

fun quotes_row :: "json \<Rightarrow> json \<Rightarrow> bool" where
  "quotes_row (JObj d) (JObj h) \<longleftrightarrow> field h ''region_id'' = stripped (field d ''id'') \<and> field h ''page'' = field d ''page'' \<and>
     field h ''type'' = stripped (field d ''type'') \<and> field h ''content_sha256'' = field d ''content_sha256'' \<and>
     (case field d ''bbox_norm'' of JArr xs \<Rightarrow> field h ''bbox_norm'' = JArr (map floated xs) | _ \<Rightarrow> False)"
| "quotes_row _ _ \<longleftrightarrow> False"

definition read_from :: "json \<Rightarrow> region \<Rightarrow> bool" where
  "read_from row r \<longleftrightarrow> (\<exists>d xs. row = JObj d \<and> stripped (field d ''id'') = JStr (reg_id r) \<and> field d ''page'' = JInt (reg_page r) \<and>
     stripped (field d ''type'') = JStr (reg_type r) \<and> field d ''content_sha256'' = JStr (reg_content_sha256 r) \<and>
     field d ''bbox_norm'' = JArr xs \<and> map floated xs = map num (reg_bbox r))"

lemma bbox_of_floated:
  assumes "bbox_of c v = Inr b"
  shows "\<exists>xs. v = JArr xs \<and> map floated xs = map num b"
proof -
  let ?bad = "PackError (c @ ''.bbox_norm is invalid'')"
  from assms obtain xs fs where xs: "v = JArr xs" "mapE (as_float ?bad) xs = Inr fs" and b: "bbox_in_page ?bad fs = Inr b"
    by (auto simp: bbox_of_def Let_def split: json.splits if_splits)
  have f: "floated x = JFloat f" if "as_float ?bad x = Inr f" for x f
    using that by (auto simp: as_float_def floated_def split: json.splits option.splits)
  from xs(2) have "map floated xs = map JFloat fs"
    by (induction xs arbitrary: fs) (auto simp: f)
  moreover have "fs = map Flt b"
    using b by (auto simp: bbox_in_page_def split: list.splits pyfloat.splits if_splits)
  ultimately show ?thesis using xs(1) by (auto simp: num_def)
qed

lemma load_region_read_from:
  assumes "load_region ddim mdim (acc, used) (i, row) = Inr (acc', used')"
  shows "\<exists>r. acc' = acc @ [r] \<and> read_from row r"
proof -
  let ?c = "''regions['' @ nat_str i @ '']''"
  from assms obtain d where row: "row = JObj d" by (auto simp: load_region_def Let_def split: json.splits)
  from assms row obtain rid page coords rtype fs content dense multi where
    f: "bounded_text 1024 (?c @ ''.id'') (field d ''id'') = Inr rid" "page_of ?c (field d ''page'') = Inr page"
      "bbox_of ?c (field d ''bbox_norm'') = Inr coords" "bounded_text 512 (?c @ ''.type'') (field d ''type'') = Inr rtype"
      "sha_text (?c @ ''.content_sha256'') (field d ''content_sha256'') = Inr content"
    and r: "acc' = acc @ [\<lparr>reg_id = rid, reg_page = page, reg_bbox = coords, reg_type = rtype,
        reg_content_sha256 = content, reg_text_fields = fs, reg_dense = dense, reg_multi = multi\<rparr>]"
    by (auto simp: load_region_def Let_def split: if_splits)
  have t: "stripped v = JStr x" if "bounded_text n c v = Inr x" for n c v x
    using that by (auto simp: bounded_text_def Let_def split: json.splits if_splits)
  have "field d ''page'' = JInt page" using f(2) by (auto simp: page_of_def split: json.splits if_splits)
  moreover have "field d ''content_sha256'' = JStr content" using f(5) by (auto simp: sha_text_def split: json.splits if_splits)
  ultimately have "read_from row \<lparr>reg_id = rid, reg_page = page, reg_bbox = coords, reg_type = rtype,
        reg_content_sha256 = content, reg_text_fields = fs, reg_dense = dense, reg_multi = multi\<rparr>"
    using t [OF f(1)] t [OF f(4)] bbox_of_floated [OF f(3)] row by (simp add: read_from_def)
  with r show ?thesis by blast
qed

lemma load_regions_read_from:
  "foldE (load_region ddim mdim) (acc, n) items = Inr (rs, used) \<Longrightarrow>
     \<exists>new. rs = acc @ new \<and> list_all2 read_from (map snd items) new"
proof (induction items arbitrary: acc n)
  case (Cons item items)
  obtain i row where item: "item = (i, row)" by fastforce
  from Cons.prems obtain acc' n' where step: "load_region ddim mdim (acc, n) (i, row) = Inr (acc', n')"
    "foldE (load_region ddim mdim) (acc', n') items = Inr (rs, used)" unfolding item by auto
  from load_region_read_from [OF step(1)] obtain r where r: "acc' = acc @ [r]" "read_from row r" by blast
  from Cons.IH [OF step(2)] obtain new where "rs = acc' @ new" "list_all2 read_from (map snd items) new" by blast
  with r show ?case by (intro exI [of _ "r # new"]) (simp add: item)
qed simp

text \<open>The regions of a loaded pack are the region objects of its payload, one for one.\<close>

lemma loaded_regions_read_from:
  assumes "load_retrieval_pack sha frepr want_dense want_multi (JObj e) = Inr p"
  obtains pl rows where "field e ''payload'' = JObj pl" and "field pl ''regions'' = JArr rows"
    and "list_all2 read_from rows (regions p)" and "field pl ''source_sha256'' = JStr (source_sha256 p)"
proof -
  from assms obtain pl where pl: "field e ''payload'' = JObj pl"
    by (cases "field e ''payload''") (auto simp: load_retrieval_pack_def split: if_splits)
  with assms obtain expected where load: "load_payload expected want_dense want_multi pl = Inr p"
    by (auto simp: load_retrieval_pack_def split: if_splits)
  then obtain rows where rows: "field pl ''regions'' = JArr rows"
    by (cases "field pl ''regions''") (auto simp: load_payload_def split: json.splits if_splits)
  with load obtain ddim mdim used where
    rs: "foldE (load_region ddim mdim) ([], 0) (enumerate 0 rows) = Inr (regions p, used)"
    and src: "sha_text ''source_sha256'' (field pl ''source_sha256'') = Inr (source_sha256 p)"
    by (auto simp: load_payload_def split: json.splits if_splits)
  from load_regions_read_from [OF rs] have "list_all2 read_from rows (regions p)" by simp
  moreover have "field pl ''source_sha256'' = JStr (source_sha256 p)"
    using src by (auto simp: sha_text_def split: json.splits if_splits)
  ultimately show ?thesis using that pl rows by blast
qed

lemma cites_quotes:
  assumes "list_all2 read_from rows (regions p)" and "cites p h"
  shows "list_ex (\<lambda>row. quotes_row row h) rows"
proof -
  from assms(2) obtain f r where h: "h = JObj f" and r: "r \<in> set (regions p)" "field f ''region_id'' = JStr (reg_id r)"
    "field f ''page'' = JInt (reg_page r)" "field f ''type'' = JStr (reg_type r)"
    "field f ''content_sha256'' = JStr (reg_content_sha256 r)" "field f ''bbox_norm'' = JArr (map num (reg_bbox r))"
    by (cases h) (auto simp: list_ex_iff)
  from assms(1) r(1) obtain row where "row \<in> set rows" "read_from row r"
    by (metis in_set_conv_nth list_all2_conv_all_nth)
  with h r show ?thesis unfolding list_ex_iff by (intro bexI [of _ row]) (auto simp: read_from_def)
qed

subsection \<open>Properties\<close>

text \<open>
  C16. An answer cites only the addressed pack: when a query succeeds, the request named a digest, the file at that address decodes to an
  envelope whose payload hashes to the digest and whose models are the requested ones, the answer names that digest and the payload's
  source, and every hit quotes a region object of that payload: its stripped id and type, its page and content hash, and its box as
  floats.
\<close>

theorem query_cites_addressed_pack:
  assumes "execute_query sha frepr loads ln_fn packs request = Inr v"
  shows "\<exists>d s st_size content e pl rows p f hs. request = JObj d \<and> field d ''pack_sha256'' = JStr s \<and>
    packs s = RegularFile st_size content \<and> loads content = Inr (JObj e) \<and>
    field e ''payload'' = JObj pl \<and> sha (canonical_payload frepr (JObj pl)) = s \<and> field pl ''regions'' = JArr rows \<and>
    load_retrieval_pack sha frepr (Some (dense_model p)) (Some (multi_model p)) (JObj e) = Inr p \<and>
    pack_ok p \<and> pack_sha256 p = s \<and> models_of (field d ''models'') = Inr (dense_model p, multi_model p) \<and>
    v = JObj f \<and> field f ''pack_sha256'' = JStr s \<and> field f ''source_sha256'' = field pl ''source_sha256'' \<and>
    field f ''hits'' = JArr hs \<and> list_all (cites p) hs \<and> list_all (\<lambda>h. list_ex (\<lambda>row. quotes_row row h) rows) hs"
proof -
  from assms obtain d dm mm p where d: "request = JObj d" "models_of (field d ''models'') = Inr (dm, mm)"
    and load: "load_pack sha frepr loads packs (field d ''pack_sha256'') dm mm = Inr p"
    and run: "run_query ln_fn d p = Inr v" by (rule execute_query_parts)
  from run obtain res where "result_json p res = Inr v" by (auto simp: run_query_def split: sum.splits)
  then obtain f hs where f: "v = JObj f" "field f ''hits'' = JArr hs" "list_all (cites p) hs"
    "length hs = length (hits res)" "field f ''pack_sha256'' = JStr (pack_sha256 p)"
    "field f ''source_sha256'' = JStr (source_sha256 p)" by (rule result_json_cites)
  from load obtain s st_size content e where opened: "field d ''pack_sha256'' = JStr s" "packs s = RegularFile st_size content"
    "int (length content) \<le> pack_limit" "loads content = Inr (JObj e)"
    "load_retrieval_pack sha frepr (Some dm) (Some mm) (JObj e) = Inr p"
    "sha (canonical_payload frepr (field e ''payload'')) = s" "pack_sha256 p = s" "pack_ok p"
    "dense_model p = dm" "multi_model p = mm" by (rule load_pack_ok)
  from opened(5) obtain pl rows where rows: "field e ''payload'' = JObj pl" "field pl ''regions'' = JArr rows"
    "list_all2 read_from rows (regions p)" "field pl ''source_sha256'' = JStr (source_sha256 p)" by (rule loaded_regions_read_from)
  have "list_all (\<lambda>h. list_ex (\<lambda>row. quotes_row row h) rows) hs"
    using f(3) cites_quotes [OF rows(3)] unfolding list_all_iff by blast
  with d f opened rows(1,2,4) show ?thesis by auto
qed

text \<open>
  What escapes validation: a query raises \<open>QueryRejected\<close>, or one of two errors that come from the
  size of a number (\<open>OverflowError\<close> of an integer too large for a float, \<open>ValueError\<close> of an overlong
  literal in the pack), and nothing else: no region of the ranking is missing from the pack.
\<close>

theorem only_number_errors_escape:
  assumes "execute_query sha frepr loads ln_fn packs request = Inl e"
  shows "(\<exists>m. e = QueryRejected m) \<or> e \<in> {QueryEscape ''OverflowError'', QueryEscape ''ValueError''}"
proof (cases "\<exists>d. request = JObj d \<and> request_keys_ok d")
  case False
  with assms show ?thesis by (cases request) (auto simp: execute_query_def)
next
  case True
  then obtain d where d: "request = JObj d" "request_keys_ok d" by blast
  with assms consider "models_of (field d ''models'') = Inl e"
    | dm mm where "load_pack sha frepr loads packs (field d ''pack_sha256'') dm mm = Inl e"
    | dm mm p where "load_pack sha frepr loads packs (field d ''pack_sha256'') dm mm = Inr p" "run_query ln_fn d p = Inl e"
    by (auto simp: execute_query_def bindE_eq_Inl)
  then show ?thesis
  proof cases
    case 1
    then show ?thesis by (auto dest: models_of_failure)
  next
    case 2
    then show ?thesis by (rule load_pack_failure)
  next
    case 3
    have "e \<noteq> e'" if r: "hybrid_query ln_fn maxsim p (field d ''query'') (field d ''dense_vector'')
        (field d ''multi_vectors'') (bound_arg d ''top_n'' 100 p) (bound_arg d ''maxsim_k'' 32 p)
        (bound_arg d ''limit'' 5 p) (JInt 60) = Inr res" for res e'
    proof -
      have "pack_ok p" using 3(1) by (rule load_pack_ok)
      have "set (map hit_region (hits res)) \<subseteq> set (map reg_id (regions p))"
        by (rule hits_in_pack [OF r \<open>pack_ok p\<close>])
      from result_json_total [OF this] 3(2) r show ?thesis by (auto simp: run_query_def)
    qed
    with 3(2) show ?thesis
      by (auto simp: run_query_def query_failure_of_def split: sum.splits query_error.splits)
  qed
qed

text \<open>
  The parent cleans up on every exit path, also when the child could not be started: the temporary
  directory is gone, the children are dead; and a child that ends by itself is reported faithfully.
\<close>

theorem query_job_cleans_up_and_reports:
  assumes "scratch_name w \<notin> set (scratch_dirs h)" and "start_ok w \<longrightarrow> started (process_after_wait w)"
  shows "scratch_dirs (snd (run_query_job w h)) = scratch_dirs h \<and>
    (\<exists>cs. children (snd (run_query_job w h)) = children h @ cs \<and> list_all (\<lambda>c. \<not> alive c) cs) \<and>
    (clean_exit w \<and> result_text w = Decoded (query_worker_main request execute) \<longrightarrow>
      fst (run_query_job w h) = (case request of Inl NotJson \<Rightarrow> Inl JobRejected
        | Inl OverlongInteger \<Rightarrow> Inl (JobFailed ''query worker failed'')
        | Inr r \<Rightarrow> (case execute r of Inr (JObj result) \<Rightarrow> Inr result | Inl (QueryRejected _) \<Rightarrow> Inl JobRejected
            | _ \<Rightarrow> Inl (JobFailed ''query worker failed''))))"
proof (intro conjI impI)
  have dirs: "filter (\<lambda>d. d \<noteq> scratch_name w) (scratch_dirs h) = scratch_dirs h"
    using assms(1) by (auto intro: filter_True)
  then show "scratch_dirs (snd (run_query_job w h)) = scratch_dirs h"
    by (simp add: run_query_job_def Let_def)
  have "list_all (\<lambda>c. \<not> alive c) (snd (query_body w))"
    using assms(2) terminated_dead [of "process_after_wait w"]
    by (auto simp: query_body_def Let_def split: wait_outcome.splits)
  then show "\<exists>cs. children (snd (run_query_job w h)) = children h @ cs \<and> list_all (\<lambda>c. \<not> alive c) cs"
    by (auto simp: run_query_job_def Let_def)
next
  assume a: "clean_exit w \<and> result_text w = Decoded (query_worker_main request execute)"
  then have "fst (run_query_job w h) = read_query_result (Some 0) (result_text w)"
    by (simp add: run_query_job_def query_body_def clean_exit_def stop_if_alive_def Let_def)
  with a show "fst (run_query_job w h) = (case request of Inl NotJson \<Rightarrow> Inl JobRejected
        | Inl OverlongInteger \<Rightarrow> Inl (JobFailed ''query worker failed'')
        | Inr r \<Rightarrow> (case execute r of Inr (JObj result) \<Rightarrow> Inr result | Inl (QueryRejected _) \<Rightarrow> Inl JobRejected
            | _ \<Rightarrow> Inl (JobFailed ''query worker failed'')))"
    by (auto simp: query_worker_main_def read_query_result_def status_object_def field_def
        split: sum.splits decode_error.splits query_failure.splits json.splits)
qed

end
