(* ===== verification/QueryRun.thy ===== *)
theory QueryRun
  imports QueryWorker
begin

section \<open>A concrete query\<close>

text \<open>
  The properties of the query worker at one request against the pack of \<open>RetrievalPack\<close>, stored under
  its digest.
\<close>

definition demo_packs :: pack_dir where
  "demo_packs s = (if s = replicate 64 CHR ''0'' then RegularFile 2 ''{}'' else Unopenable)"

definition demo_loads :: decoder where
  "demo_loads b = (if b = ''{}'' then Inr demo_envelope else Inl NotJson)"

definition envelope_fields :: "(string \<times> json) list" where
  "envelope_fields = (case demo_envelope of JObj e \<Rightarrow> e | _ \<Rightarrow> [])"

definition demo_payload_fields :: "(string \<times> json) list" where
  "demo_payload_fields = (case demo_payload of JObj pl \<Rightarrow> pl | _ \<Rightarrow> [])"

definition demo_query_request :: "json \<Rightarrow> json" where
  "demo_query_request x = JObj [(''pack_sha256'', JStr (replicate 64 CHR ''0'')),
     (''models'', JObj [(''dense'', demo_model_json), (''multi'', demo_model_json)]),
     (''query'', JStr ''electrical rating''), (''dense_vector'', JArr [JInt 1, x]),
     (''multi_vectors'', JArr [JArr [JInt 1], JArr [JInt 3]])]"

definition demo_execute :: "json \<Rightarrow> query_failure + json" where
  "demo_execute = execute_query zero_sha (\<lambda>_. []) demo_loads (\<lambda>x. x) demo_packs"

lemma demo_query_models:
  "models_of (JObj [(''dense'', demo_model_json), (''multi'', demo_model_json)]) = Inr (demo_model, demo_model)"
  by code_simp

lemma demo_pack_found:
  "load_pack zero_sha (\<lambda>_. []) demo_loads demo_packs (JStr (replicate 64 CHR ''0'')) demo_model demo_model = Inr demo_pack"
proof -
  have "is_hex 64 (replicate 64 CHR ''0'')" by code_simp
  moreover have "pack_sha256 demo_pack = replicate 64 CHR ''0''" by (simp add: demo_pack_def)
  ultimately show ?thesis
    by (simp add: load_pack_def read_pack_def demo_packs_def demo_loads_def demo_pack_loads address_checked_def
        pack_limit_def)
qed

lemma demo_execute_run:
  "\<exists>d. demo_query_request x = JObj d \<and> demo_execute (demo_query_request x) = run_query (\<lambda>x. x) d demo_pack \<and>
     field d ''pack_sha256'' = JStr (replicate 64 CHR ''0'') \<and> field d ''query'' = JStr ''electrical rating'' \<and>
     field d ''dense_vector'' = JArr [JInt 1, x] \<and> field d ''multi_vectors'' = JArr [JArr [JInt 1], JArr [JInt 3]] \<and>
     get_or d ''top_n'' v = v \<and> get_or d ''maxsim_k'' v = v \<and> get_or d ''limit'' v = v"
  using demo_query_models demo_pack_found
  by (simp add: demo_query_request_def demo_execute_def execute_query_def request_keys_ok_def request_keys_def
      optional_keys_def field_def get_or_def)

lemma demo_answer: "\<exists>v. demo_execute (demo_query_request (JInt 2)) = Inr v"
proof -
  from demo_query_answers obtain res where res: "hybrid_query (\<lambda>x. x) maxsim demo_pack (JStr ''electrical rating'')
    (JArr [JInt 1, JInt 2]) (JArr [JArr [JInt 1], JArr [JInt 3]]) (JInt 1) (JInt 1) (JInt 1) (JInt 60) = Inr res" ..
  have len: "length (regions demo_pack) = 1" by (simp add: demo_pack_def)
  from result_json_total [OF hits_in_pack [OF res demo_pack_ok]] obtain v where "result_json demo_pack res = Inr v" ..
  with res demo_execute_run [of "JInt 2" "JInt 1"] show ?thesis
    by (auto simp: run_query_def bound_arg_def len)
qed

lemma demo_answer_overflow: "demo_execute (demo_query_request (JInt (2 ^ 1024))) = Inl (QueryEscape ''OverflowError'')"
proof -
  have o: "int_overflows (2 ^ 1024)" and n: "\<not> \<bar>2 ^ 1024 :: int\<bar> \<le> 9007199254740992"
    by (simp_all add: int_overflows_def)
  have "hybrid_query (\<lambda>x. x) maxsim demo_pack (JStr ''electrical rating'') (JArr [JInt 1, JInt (2 ^ 1024)]) m t k l r =
    Inl OverflowFailure" for m t k l r
    using o n by (simp add: hybrid_query_def demo_pack_def strip_def py_space_def code_point_def Let_def utf8_encode_def
      checked_vector_def sequence_items_def is_number_def float_item_def to_float_def del: power_numeral)
  with demo_execute_run [of "JInt (2 ^ 1024)" "JInt 1"] show ?thesis
    by (auto simp: run_query_def query_failure_of_def)
qed

text \<open>The pack has one region object, which every hit of the answer quotes.\<close>

lemma demo_rows: "field demo_payload_fields ''regions'' = JArr [demo_region_json]"
  by (simp add: demo_payload_fields_def demo_payload_def field_def)

theorem query_cites_addressed_pack_witness:
  "\<exists>f hs. demo_execute (demo_query_request (JInt 2)) = Inr (JObj f) \<and>
     field f ''pack_sha256'' = JStr (replicate 64 CHR ''0'') \<and> field f ''hits'' = JArr hs \<and> list_all (quotes_row demo_region_json) hs"
proof -
  obtain v where v: "demo_execute (demo_query_request (JInt 2)) = Inr v" using demo_answer ..
  have digest: "field d ''pack_sha256'' = JStr (replicate 64 CHR ''0'')" if "demo_query_request (JInt 2) = JObj d" for d
    using that by (auto simp: demo_query_request_def field_def)
  have opened: "e = envelope_fields" if "demo_packs (replicate 64 CHR ''0'') = RegularFile n content" "demo_loads content = Inr (JObj e)"
    for n content e
    using that by (auto simp: demo_packs_def demo_loads_def envelope_fields_def demo_envelope_def split: if_splits)
  have payload: "field envelope_fields ''payload'' = JObj demo_payload_fields"
    by (simp add: envelope_fields_def demo_envelope_def demo_payload_fields_def demo_payload_def field_def)
  from query_cites_addressed_pack [OF v [unfolded demo_execute_def]] digest
  obtain n content e pl rows f hs where r: "demo_packs (replicate 64 CHR ''0'') = RegularFile n content" "demo_loads content = Inr (JObj e)"
    "field e ''payload'' = JObj pl" "field pl ''regions'' = JArr rows" "v = JObj f"
    "field f ''pack_sha256'' = JStr (replicate 64 CHR ''0'')" "field f ''hits'' = JArr hs"
    "list_all (\<lambda>h. list_ex (\<lambda>row. quotes_row row h) rows) hs"
    by fastforce
  have "rows = [demo_region_json]" using r(3,4) payload demo_rows opened [OF r(1,2)] by simp
  with r v show ?thesis by simp
qed

theorem only_number_errors_escape_witness:
  "\<exists>e. demo_execute (demo_query_request (JInt (2 ^ 1024))) = Inl e \<and> (\<forall>m. e \<noteq> QueryRejected m) \<and> e = QueryEscape ''OverflowError''"
  using only_number_errors_escape [OF demo_answer_overflow [unfolded demo_execute_def]] demo_answer_overflow by simp

theorem query_job_cleans_up_and_reports_witness:
  "scratch_dirs (snd (run_query_job (late_run\<lparr>start_ok := False\<rparr>) \<lparr>scratch_dirs = [''query-0''], children = []\<rparr>)) = [''query-0''] \<and>
   fst (run_query_job (good_run (query_worker_main (Inr JNull) (\<lambda>_. Inl (QueryRejected ''x'')))) \<lparr>scratch_dirs = [], children = []\<rparr>)
     = Inl JobRejected"
proof -
  have a: "scratch_name (late_run\<lparr>start_ok := False\<rparr>) \<notin> set (scratch_dirs \<lparr>scratch_dirs = [''query-0''], children = []\<rparr>)"
    and b: "\<not> start_ok (late_run\<lparr>start_ok := False\<rparr>)" by (simp_all add: late_run_def)
  have g: "clean_exit (good_run v)" "result_text (good_run v) = Decoded v"
    "start_ok (good_run v) \<longrightarrow> started (process_after_wait (good_run v))"
    "scratch_name (good_run v) \<notin> set (scratch_dirs \<lparr>scratch_dirs = [], children = []\<rparr>)" for v
    by (simp_all add: good_run_def late_run_def clean_exit_def)
  show ?thesis
    using query_job_cleans_up_and_reports [OF a, of "Inl NotJson" "\<lambda>_. Inr JNull"] b
      query_job_cleans_up_and_reports [OF g(4) g(3), of "query_worker_main (Inr JNull) (\<lambda>_. Inl (QueryRejected ''x''))"
        "Inr JNull" "\<lambda>_. Inl (QueryRejected ''x'')"] g(1,2) by simp
qed

end
