(* ===== verification/ServiceConfig.thy ===== *)
theory ServiceConfig
  imports Float64
begin

section \<open>Configuration\<close>

text \<open>
  \<open>src/dsvire/config.py\<close> and \<open>src/dsvire/platform_config.py\<close>: both configurations are read from the
  environment (\<open>env\<close>, a partial function) and from secret files (\<open>files\<close>), checked, and refused
  otherwise. A numeric setting is a decoded value, as a caller may construct the service
  configuration with any. \<open>float(text)\<close> and \<open>urlparse\<close> are written out; whether the text between
  brackets is an IPv6 address is the parameter \<open>bracket_ok\<close>.
\<close>

subsection \<open>Numbers from text\<close>

text \<open>\<open>float(text)\<close>: the digits before and after the point, the exponent, or one of the special names.\<close>

definition digit_part :: "string \<Rightarrow> bool" where
  "digit_part s \<longleftrightarrow> digits_ok s"

definition no_underscore :: "string \<Rightarrow> string" where
  "no_underscore s = filter (\<lambda>c. c \<noteq> CHR ''_'') s"

definition signed_part :: "string \<Rightarrow> bool \<times> string" where
  "signed_part s = (case s of [] \<Rightarrow> (False, []) | c # r \<Rightarrow>
     if c = CHR ''-'' then (True, r) else if c = CHR ''+'' then (False, r) else (False, s))"

definition pow10 :: "int \<Rightarrow> rat" where
  "pow10 e = (if 0 \<le> e then 10 ^ nat e else 1 / 10 ^ nat (- e))"

definition mantissa_of :: "string \<Rightarrow> (int \<times> int) option" where
  "mantissa_of s = (case split_once CHR ''.'' s of
     [w] \<Rightarrow> if digit_part w then Some (digits_val (no_underscore w), 0) else None
   | [w, f] \<Rightarrow>
       if (digit_part w \<and> (f = [] \<or> digit_part f)) \<or> (w = [] \<and> digit_part f)
       then Some (digits_val (no_underscore w @ no_underscore f), - int (length (no_underscore f))) else None
   | _ \<Rightarrow> None)"

definition exponent_of :: "string \<Rightarrow> int option" where
  "exponent_of s = (case signed_part s of (neg, ds) \<Rightarrow>
     if digit_part ds then Some ((if neg then - 1 else 1) * digits_val (no_underscore ds)) else None)"

definition decimal_of :: "string \<Rightarrow> rat option" where
  "decimal_of s = (case split_once CHR ''e'' s of
     [m] \<Rightarrow> map_option (\<lambda>(v, e). of_int v * pow10 e) (mantissa_of m)
   | [m, x] \<Rightarrow> (case (mantissa_of m, exponent_of x) of
         (Some (v, e), Some k) \<Rightarrow> Some (of_int v * pow10 (e + k)) | _ \<Rightarrow> None)
   | _ \<Rightarrow> None)"

definition rounded :: "rat \<Rightarrow> pyfloat" where
  "rounded r = (if 2 ^ 1024 - 2 ^ 970 \<le> r then PosInf else if r \<le> - (2 ^ 1024 - 2 ^ 970) then NegInf else Flt (rnd r))"

definition parse_float :: "string \<Rightarrow> pyfloat option" where
  "parse_float text =
     (case signed_part (lower (strip text)) of (neg, body) \<Rightarrow>
        if body \<in> {''inf'', ''infinity''} then Some (if neg then NegInf else PosInf)
        else if body = ''nan'' then Some NotANumber
        else map_option (\<lambda>r. rounded (if neg then - r else r)) (decimal_of body))"

subsection \<open>Settings\<close>

datatype config_error = ConfigError string | EscapedError string

datatype text_file = Unreadable | NotUtf8 | TextFile string

type_synonym env = "string \<Rightarrow> string option"
type_synonym secret_files = "string \<Rightarrow> text_file"

definition env_get :: "env \<Rightarrow> string \<Rightarrow> string \<Rightarrow> string" where
  "env_get env name dflt = (case env name of Some v \<Rightarrow> v | None \<Rightarrow> dflt)"

definition secret :: "secret_files \<Rightarrow> env \<Rightarrow> string \<Rightarrow> config_error + string" where
  "secret files env name =
     (let direct = strip (env_get env name []);
          file_name = strip (env_get env (name @ ''_FILE'') [])
      in if direct \<noteq> [] \<and> file_name \<noteq> []
         then Inl (ConfigError (''set only one of '' @ name @ '' and '' @ name @ ''_FILE''))
         else if file_name = [] then Inr direct
         else (case files file_name of
            Unreadable \<Rightarrow> Inl (ConfigError (''cannot read '' @ name @ ''_FILE''))
          | NotUtf8 \<Rightarrow> Inl (EscapedError ''UnicodeDecodeError'')
          | TextFile s \<Rightarrow> Inr (strip s)))"

definition env_bool :: "env \<Rightarrow> string \<Rightarrow> bool \<Rightarrow> config_error + bool" where
  "env_bool env name dflt = (case env name of
     None \<Rightarrow> Inr dflt
   | Some raw \<Rightarrow> (let value = casefold (strip raw)
       in if value \<in> {''1'', ''true'', ''yes'', ''on''} then Inr True
          else if value \<in> {''0'', ''false'', ''no'', ''off''} then Inr False
          else Inl (ConfigError (name @ '' must be a boolean''))))"

definition range_message :: "string \<Rightarrow> string \<Rightarrow> string \<Rightarrow> string" where
  "range_message name low high = name @ '' must be in '' @ low @ ''..='' @ high"

definition env_int :: "env \<Rightarrow> string \<Rightarrow> int \<Rightarrow> int \<Rightarrow> int \<Rightarrow> config_error + int" where
  "env_int env name dflt minimum maximum =
     (case (case env name of None \<Rightarrow> Some dflt | Some raw \<Rightarrow> parse_int (strip raw)) of
        None \<Rightarrow> Inl (ConfigError (name @ '' must be an integer''))
      | Some v \<Rightarrow> if v < minimum \<or> maximum < v
                then Inl (ConfigError (range_message name (int_str minimum) (int_str maximum))) else Inr v)"

definition env_float :: "env \<Rightarrow> string \<Rightarrow> rat \<Rightarrow> rat \<Rightarrow> rat \<Rightarrow> string \<Rightarrow> string \<Rightarrow> config_error + rat" where
  "env_float env name dflt minimum maximum low high =
     (case (case env name of None \<Rightarrow> Some (Flt dflt) | Some raw \<Rightarrow> parse_float (strip raw)) of
        None \<Rightarrow> Inl (ConfigError (name @ '' must be a number''))
      | Some (Flt v) \<Rightarrow> if v < minimum \<or> maximum < v then Inl (ConfigError (range_message name low high)) else Inr v
      | Some _ \<Rightarrow> Inl (ConfigError (range_message name low high)))"

subsection \<open>The service\<close>

record service_config =
  data_dir :: string
  service_token :: string
  environment :: string
  allow_insecure_dev :: bool
  max_pdf_bytes :: json
  max_concurrent_jobs :: json
  admission_timeout_seconds :: json
  job_timeout_seconds :: json
  worker_cpu_seconds :: json
  worker_memory_bytes :: json
  worker_file_bytes :: json
  max_query_bytes :: json
  max_concurrent_queries :: json
  query_timeout_seconds :: json

definition mib :: int where "mib = 1024 * 1024"
definition gib :: int where "gib = 1024 * 1024 * 1024"
definition pipeline_max_pdf_bytes :: int where "pipeline_max_pdf_bytes = 64 * 1024 * 1024"

text \<open>The literal \<open>0.1\<close>.\<close>

definition tenth :: rat where "tenth = rnd (1 / 10)"

definition service_from_env :: "secret_files \<Rightarrow> env \<Rightarrow> config_error + service_config" where
  "service_from_env files env =
     bindE (secret files env ''DSVIRE_SERVICE_TOKEN'') (\<lambda>token.
     bindE (env_bool env ''DSVIRE_ALLOW_INSECURE_DEV'' False) (\<lambda>insecure.
     bindE (env_int env ''DSVIRE_MAX_PDF_BYTES'' pipeline_max_pdf_bytes 1024 pipeline_max_pdf_bytes) (\<lambda>pdf.
     bindE (env_int env ''DSVIRE_MAX_CONCURRENT_JOBS'' 1 1 32) (\<lambda>jobs.
     bindE (env_float env ''DSVIRE_ADMISSION_TIMEOUT_SECONDS'' 2 tenth 60 ''0.1'' ''60.0'') (\<lambda>admission.
     bindE (env_float env ''DSVIRE_JOB_TIMEOUT_SECONDS'' 75 1 3600 ''1.0'' ''3600.0'') (\<lambda>timeout.
     bindE (env_int env ''DSVIRE_WORKER_CPU_SECONDS'' 60 1 3600) (\<lambda>cpu.
     bindE (env_int env ''DSVIRE_WORKER_MEMORY_BYTES'' (1536 * mib) (256 * mib) (64 * gib)) (\<lambda>memory.
     bindE (env_int env ''DSVIRE_WORKER_FILE_BYTES'' (512 * mib) (64 * mib) (8 * gib)) (\<lambda>file.
     bindE (env_int env ''DSVIRE_MAX_QUERY_BYTES'' (8 * mib) 1024 (64 * mib)) (\<lambda>query.
     bindE (env_int env ''DSVIRE_MAX_CONCURRENT_QUERIES'' 2 1 32) (\<lambda>queries.
     bindE (env_float env ''DSVIRE_QUERY_TIMEOUT_SECONDS'' 10 tenth 300 ''0.1'' ''300.0'') (\<lambda>qtimeout.
       Inr \<lparr>data_dir = env_get env ''DSVIRE_DATA_DIR'' ''/data/dsvire'', service_token = token,
            environment = casefold (strip (env_get env ''DSVIRE_ENVIRONMENT'' ''production'')),
            allow_insecure_dev = insecure, max_pdf_bytes = JInt pdf, max_concurrent_jobs = JInt jobs,
            admission_timeout_seconds = JFloat (Flt admission), job_timeout_seconds = JFloat (Flt timeout),
            worker_cpu_seconds = JInt cpu, worker_memory_bytes = JInt memory, worker_file_bytes = JInt file,
            max_query_bytes = JInt query, max_concurrent_queries = JInt queries,
            query_timeout_seconds = JFloat (Flt qtimeout)\<rparr>))))))))))))"

text \<open>A row of the range table: name, value, bounds, their text, and whether it must be an integer.\<close>

type_synonym range_row = "string \<times> json \<times> rat \<times> rat \<times> string \<times> string \<times> bool"

definition int_row :: "string \<Rightarrow> json \<Rightarrow> int \<Rightarrow> int \<Rightarrow> range_row" where
  "int_row name v low high = (name, v, of_int low, of_int high, int_str low, int_str high, True)"

definition range_rows :: "service_config \<Rightarrow> range_row list" where
  "range_rows c =
     [int_row ''DSVIRE_MAX_PDF_BYTES'' (max_pdf_bytes c) 1024 pipeline_max_pdf_bytes,
      int_row ''DSVIRE_MAX_CONCURRENT_JOBS'' (max_concurrent_jobs c) 1 32,
      (''DSVIRE_ADMISSION_TIMEOUT_SECONDS'', admission_timeout_seconds c, tenth, 60, ''0.1'', ''60'', False),
      (''DSVIRE_JOB_TIMEOUT_SECONDS'', job_timeout_seconds c, 1, 3600, ''1'', ''3600'', False),
      int_row ''DSVIRE_WORKER_CPU_SECONDS'' (worker_cpu_seconds c) 1 3600,
      int_row ''DSVIRE_WORKER_MEMORY_BYTES'' (worker_memory_bytes c) (256 * mib) (64 * gib),
      int_row ''DSVIRE_WORKER_FILE_BYTES'' (worker_file_bytes c) (64 * mib) (8 * gib),
      int_row ''DSVIRE_MAX_QUERY_BYTES'' (max_query_bytes c) 1024 (64 * mib),
      int_row ''DSVIRE_MAX_CONCURRENT_QUERIES'' (max_concurrent_queries c) 1 32,
      (''DSVIRE_QUERY_TIMEOUT_SECONDS'', query_timeout_seconds c, tenth, 300, ''0.1'', ''300'', False)]"

definition in_range :: "rat \<Rightarrow> rat \<Rightarrow> pyfloat \<Rightarrow> bool" where
  "in_range low high f = (case f of Flt r \<Rightarrow> low \<le> r \<and> r \<le> high | _ \<Rightarrow> False)"

definition check_row :: "range_row \<Rightarrow> config_error + unit" where
  "check_row row = (case row of (name, v, low, high, low_text, high_text, integer_only) \<Rightarrow>
     (case v of
        JInt i \<Rightarrow>
          if int_overflows i then Inl (EscapedError ''OverflowError'')
          else ensure (in_range low high (Flt (of_int i))) (ConfigError (range_message name low_text high_text))
      | JFloat f \<Rightarrow>
          if integer_only then Inl (ConfigError (name @ '' must be numeric''))
          else ensure (in_range low high f) (ConfigError (range_message name low_text high_text))
      | _ \<Rightarrow> Inl (ConfigError (name @ '' must be numeric''))))"

text \<open>The number a checked setting denotes.\<close>

definition setting :: "json \<Rightarrow> rat" where
  "setting v = (case num_val v of Some (Flt r) \<Rightarrow> r | _ \<Rightarrow> 0)"

definition validate_service :: "service_config \<Rightarrow> config_error + unit" where
  "validate_service c =
     bindE (mapE check_row (range_rows c)) (\<lambda>_.
       if environment c \<notin> {''production'', ''staging'', ''development'', ''test''}
       then Inl (ConfigError ''DSVIRE_ENVIRONMENT must be production, staging, development, or test'')
       else if service_token c \<noteq> [] \<and> length (utf8_encode (service_token c)) < 32
       then Inl (ConfigError ''DSVIRE_SERVICE_TOKEN must be at least 32 UTF-8 bytes'')
       else if service_token c = [] \<and> \<not> (environment c \<in> {''development'', ''test''} \<and> allow_insecure_dev c)
       then Inl (ConfigError (''DSVIRE_SERVICE_TOKEN is required; unauthenticated mode is only available '' @
         ''with DSVIRE_ENVIRONMENT=development|test and DSVIRE_ALLOW_INSECURE_DEV=true''))
       else if setting (job_timeout_seconds c) \<le> setting (admission_timeout_seconds c)
       then Inl (ConfigError ''DSVIRE_JOB_TIMEOUT_SECONDS must exceed DSVIRE_ADMISSION_TIMEOUT_SECONDS'')
       else if of_int (\<lfloor>setting (job_timeout_seconds c)\<rfloor> + 1) < setting (worker_cpu_seconds c)
       then Inl (ConfigError ''DSVIRE_WORKER_CPU_SECONDS must not exceed DSVIRE_JOB_TIMEOUT_SECONDS'')
       else Inr ())"

subsection \<open>URLs\<close>

text \<open>
  The part of \<open>urlparse\<close> the program uses: the scheme and the host name. Leading control characters
  and spaces are dropped, tabs and line breaks removed; unbalanced or invalid brackets raise
  \<open>ValueError\<close>.
\<close>

record parsed_url =
  url_scheme :: string
  url_netloc :: string

definition scheme_char :: "char \<Rightarrow> bool" where
  "scheme_char c \<longleftrightarrow> ascii_alnum c \<or> c \<in> {CHR ''+'', CHR ''-'', CHR ''.''}"

definition partition :: "char \<Rightarrow> string \<Rightarrow> string \<times> bool \<times> string" where
  "partition d s = (case split_once d s of [a, b] \<Rightarrow> (a, True, b) | _ \<Rightarrow> (s, False, []))"

definition before_any :: "char set \<Rightarrow> string \<Rightarrow> string" where
  "before_any ds s = takeWhile (\<lambda>c. c \<notin> ds) s"

text \<open>The part after the last \<open>@\<close>.\<close>

definition after_last :: "char \<Rightarrow> string \<Rightarrow> string" where
  "after_last d s = rev (takeWhile (\<lambda>c. c \<noteq> d) (rev s))"

definition split_scheme :: "string \<Rightarrow> string \<times> string" where
  "split_scheme url = (case partition CHR '':'' url of (head, found, rest) \<Rightarrow>
     if found \<and> head \<noteq> [] \<and> (ascii_lower (hd head) \<or> ascii_upper (hd head)) \<and> list_all scheme_char head
     then (lower head, rest) else ([], url))"

definition urlparse :: "(string \<Rightarrow> bool) \<Rightarrow> string \<Rightarrow> config_error + parsed_url" where
  "urlparse bracket_ok raw =
     (let url = filter (\<lambda>c. code_point c \<notin> {9, 10, 13}) (dropWhile (\<lambda>c. code_point c \<le> 32) raw)
      in case split_scheme url of (scheme, rest) \<Rightarrow>
        let netloc = (if starts_with ''//'' rest then before_any {CHR ''/'', CHR ''?'', CHR ''#''} (drop 2 rest) else [])
        in if (CHR ''['' \<in> set netloc) \<noteq> (CHR '']'' \<in> set netloc) then Inl (EscapedError ''ValueError'')
           else if CHR ''['' \<in> set netloc \<and>
             \<not> bracket_ok (fst (partition CHR '']'' (snd (snd (partition CHR ''['' netloc)))))
           then Inl (EscapedError ''ValueError'')
           else Inr \<lparr>url_scheme = scheme, url_netloc = netloc\<rparr>)"

definition hostname :: "parsed_url \<Rightarrow> string option" where
  "hostname u =
     (let hostinfo = after_last CHR ''@'' (url_netloc u);
          name = (case partition CHR ''['' hostinfo of (_, found, bracketed) \<Rightarrow>
             if found then fst (partition CHR '']'' bracketed) else fst (partition CHR '':'' hostinfo))
      in if name = [] then None
         else (case partition CHR ''%'' name of (host, found, zone) \<Rightarrow>
                 Some (lower host @ (if found then CHR ''%'' # zone else []))))"

subsection \<open>The platform\<close>

record platform_config =
  database_url :: string
  object_endpoint :: string
  object_region :: string
  object_bucket :: string
  object_access_key :: string
  object_secret_key :: string
  redis_url :: string
  qdrant_url :: string
  qdrant_api_key :: "string option"
  public_base_url :: string
  upload_ttl_seconds :: int
  lease_seconds :: int
  event_retention_days :: int
  max_attempts_setting :: int
  local_object_dir :: "string option"

definition required_secret :: "secret_files \<Rightarrow> env \<Rightarrow> string \<Rightarrow> config_error + string" where
  "required_secret files env name =
     bindE (secret files env name) (\<lambda>v.
       if v = [] then Inl (ConfigError (name @ '' is required when DSVIRE_PLATFORM_ENABLED=true'')) else Inr v)"

definition positive_int :: "env \<Rightarrow> string \<Rightarrow> int \<Rightarrow> int \<Rightarrow> config_error + int" where
  "positive_int env name dflt maximum =
     (case parse_int (env_get env name (int_str dflt)) of
        None \<Rightarrow> Inl (ConfigError (name @ '' must be an integer''))
      | Some v \<Rightarrow> if v < 1 \<or> maximum < v
                then Inl (ConfigError (name @ '' must be in 1..='' @ int_str maximum)) else Inr v)"

definition scheme_in :: "(string \<Rightarrow> bool) \<Rightarrow> string list \<Rightarrow> string \<Rightarrow> string \<Rightarrow> config_error + unit" where
  "scheme_in bracket_ok schemes url message =
     bindE (urlparse bracket_ok url) (\<lambda>u. ensure (url_scheme u \<in> set schemes) (ConfigError message))"

definition check_object_store :: "(string \<Rightarrow> bool) \<Rightarrow> platform_config \<Rightarrow> config_error + unit" where
  "check_object_store bracket_ok c =
     (if local_object_dir c \<noteq> None then Inr ()
      else if object_access_key c = [] \<or> object_secret_key c = []
      then Inl (ConfigError ''object-store credentials are required unless DSVIRE_LOCAL_OBJECT_DIR is set'')
      else if object_endpoint c = [] then Inr ()
      else scheme_in bracket_ok [''http'', ''https''] (object_endpoint c) ''DSVIRE_OBJECT_ENDPOINT must be an HTTP(S) URL'')"

definition validate_platform :: "(string \<Rightarrow> bool) \<Rightarrow> platform_config \<Rightarrow> config_error + unit" where
  "validate_platform bracket_ok c =
     bindE (urlparse bracket_ok (database_url c)) (\<lambda>database.
     if url_scheme database \<notin> {''postgres'', ''postgresql''} \<or> hostname database = None
     then Inl (ConfigError ''DSVIRE_DATABASE_URL must be a PostgreSQL URL'')
     else
     bindE (scheme_in bracket_ok [''redis'', ''rediss''] (redis_url c) ''DSVIRE_REDIS_URL must use redis:// or rediss://'') (\<lambda>_.
     bindE (scheme_in bracket_ok [''http'', ''https''] (qdrant_url c) ''DSVIRE_QDRANT_URL must be an HTTP(S) URL'') (\<lambda>_.
     bindE (scheme_in bracket_ok [''https''] (public_base_url c) ''DSVIRE_PUBLIC_BASE_URL must use HTTPS'') (\<lambda>_.
       check_object_store bracket_ok c))))"

definition or_none :: "string \<Rightarrow> string option" where
  "or_none s = (if s = [] then None else Some s)"

definition rstrip_slash :: "string \<Rightarrow> string" where
  "rstrip_slash s = rev (dropWhile (\<lambda>c. c = CHR ''/'') (rev s))"

definition platform_from_env :: "(string \<Rightarrow> bool) \<Rightarrow> secret_files \<Rightarrow> env \<Rightarrow> config_error + platform_config" where
  "platform_from_env bracket_ok files env =
     bindE (required_secret files env ''DSVIRE_DATABASE_URL'') (\<lambda>database.
     bindE (required_secret files env ''DSVIRE_OBJECT_BUCKET'') (\<lambda>bucket.
     bindE (secret files env ''DSVIRE_OBJECT_ACCESS_KEY'') (\<lambda>access.
     bindE (secret files env ''DSVIRE_OBJECT_SECRET_KEY'') (\<lambda>secret_key.
     bindE (required_secret files env ''DSVIRE_REDIS_URL'') (\<lambda>redis.
     bindE (required_secret files env ''DSVIRE_QDRANT_URL'') (\<lambda>qdrant.
     bindE (secret files env ''DSVIRE_QDRANT_API_KEY'') (\<lambda>qdrant_key.
     bindE (required_secret files env ''DSVIRE_PUBLIC_BASE_URL'') (\<lambda>base.
     bindE (positive_int env ''DSVIRE_UPLOAD_TTL_SECONDS'' 900 86400) (\<lambda>ttl.
     bindE (positive_int env ''DSVIRE_LEASE_SECONDS'' 90 3600) (\<lambda>lease.
     bindE (positive_int env ''DSVIRE_EVENT_RETENTION_DAYS'' 30 3650) (\<lambda>retention.
     bindE (positive_int env ''DSVIRE_MAX_ATTEMPTS'' 5 20) (\<lambda>attempts.
     let c = \<lparr>database_url = database, object_endpoint = strip (env_get env ''DSVIRE_OBJECT_ENDPOINT'' []),
          object_region = strip (env_get env ''DSVIRE_OBJECT_REGION'' ''us-east-1''), object_bucket = bucket,
          object_access_key = access, object_secret_key = secret_key, redis_url = redis, qdrant_url = qdrant,
          qdrant_api_key = or_none qdrant_key, public_base_url = rstrip_slash base, upload_ttl_seconds = ttl,
          lease_seconds = lease, event_retention_days = retention, max_attempts_setting = attempts,
          local_object_dir = or_none (strip (env_get env ''DSVIRE_LOCAL_OBJECT_DIR'' []))\<rparr>
     in bindE (validate_platform bracket_ok c) (\<lambda>_. Inr c)))))))))))))"

subsection \<open>Facts\<close>

lemma env_int_bounds: "env_int env name d low high = Inr v \<Longrightarrow> low \<le> v \<and> v \<le> high"
  by (auto simp: env_int_def split: option.splits if_splits)

lemma env_float_bounds: "env_float env name d low high lt ht = Inr v \<Longrightarrow> low \<le> v \<and> v \<le> high"
  by (auto simp: env_float_def split: option.splits if_splits pyfloat.splits)

lemma positive_int_bounds: "positive_int env name d high = Inr v \<Longrightarrow> 1 \<le> v \<and> v \<le> high"
  by (auto simp: positive_int_def split: option.splits if_splits)

lemma required_secret_nonempty: "required_secret files env name = Inr v \<Longrightarrow> v \<noteq> []"
  by (auto simp: required_secret_def split: if_splits)

lemma not_int_overflows: "\<bar>i\<bar> \<le> 1000000000000 \<Longrightarrow> \<not> int_overflows i"
proof -
  have "(1000000000000 :: int) < 2 ^ 1024 - 2 ^ 970" by simp
  then show "\<bar>i\<bar> \<le> 1000000000000 \<Longrightarrow> \<not> int_overflows i" by (simp only: int_overflows_def)
qed

lemma check_int_row:
  "low \<le> v \<Longrightarrow> v \<le> high \<Longrightarrow> 0 \<le> low \<Longrightarrow> high \<le> 1000000000000 \<Longrightarrow> check_row (int_row name (JInt v) low high) = Inr ()"
  using not_int_overflows [of v] by (simp add: check_row_def int_row_def in_range_def)

lemma check_float_row:
  "low \<le> v \<Longrightarrow> v \<le> high \<Longrightarrow> check_row (name, JFloat (Flt v), low, high, lt, ht, False) = Inr ()"
  by (simp add: check_row_def in_range_def)

definition ranges_ok :: "service_config \<Rightarrow> bool" where
  "ranges_ok c \<longleftrightarrow> list_all (\<lambda>row. check_row row = Inr ()) (range_rows c)"

lemma mapE_unit: "mapE f xs = Inr us \<longleftrightarrow> list_all (\<lambda>x. f x = Inr ()) xs \<and> us = replicate (length xs) ()"
  by (induction xs arbitrary: us) auto

lemma service_from_env_ranges:
  assumes "service_from_env files env = Inr c"
  shows "ranges_ok c"
proof -
  from assms obtain pdf jobs admission timeout cpu memory fbytes query queries qtimeout where
    v: "env_int env ''DSVIRE_MAX_PDF_BYTES'' pipeline_max_pdf_bytes 1024 pipeline_max_pdf_bytes = Inr pdf"
      "env_int env ''DSVIRE_MAX_CONCURRENT_JOBS'' 1 1 32 = Inr jobs"
      "env_float env ''DSVIRE_ADMISSION_TIMEOUT_SECONDS'' 2 tenth 60 ''0.1'' ''60.0'' = Inr admission"
      "env_float env ''DSVIRE_JOB_TIMEOUT_SECONDS'' 75 1 3600 ''1.0'' ''3600.0'' = Inr timeout"
      "env_int env ''DSVIRE_WORKER_CPU_SECONDS'' 60 1 3600 = Inr cpu"
      "env_int env ''DSVIRE_WORKER_MEMORY_BYTES'' (1536 * mib) (256 * mib) (64 * gib) = Inr memory"
      "env_int env ''DSVIRE_WORKER_FILE_BYTES'' (512 * mib) (64 * mib) (8 * gib) = Inr fbytes"
      "env_int env ''DSVIRE_MAX_QUERY_BYTES'' (8 * mib) 1024 (64 * mib) = Inr query"
      "env_int env ''DSVIRE_MAX_CONCURRENT_QUERIES'' 2 1 32 = Inr queries"
      "env_float env ''DSVIRE_QUERY_TIMEOUT_SECONDS'' 10 tenth 300 ''0.1'' ''300.0'' = Inr qtimeout"
    and c: "max_pdf_bytes c = JInt pdf" "max_concurrent_jobs c = JInt jobs"
      "admission_timeout_seconds c = JFloat (Flt admission)" "job_timeout_seconds c = JFloat (Flt timeout)"
      "worker_cpu_seconds c = JInt cpu" "worker_memory_bytes c = JInt memory" "worker_file_bytes c = JInt fbytes"
      "max_query_bytes c = JInt query" "max_concurrent_queries c = JInt queries"
      "query_timeout_seconds c = JFloat (Flt qtimeout)"
    by (auto simp: service_from_env_def)
  show ?thesis
    unfolding ranges_ok_def range_rows_def c
    using v(1,2,5-9) [THEN env_int_bounds] v(3,4,10) [THEN env_float_bounds]
    by (simp add: check_int_row check_float_row mib_def gib_def pipeline_max_pdf_bytes_def)
qed

lemma validate_service_ok:
  assumes "validate_service c = Inr ()"
  shows "ranges_ok c \<and> environment c \<in> {''production'', ''staging'', ''development'', ''test''} \<and>
    (service_token c = [] \<longrightarrow> environment c \<in> {''development'', ''test''} \<and> allow_insecure_dev c) \<and>
    (service_token c \<noteq> [] \<longrightarrow> 32 \<le> length (utf8_encode (service_token c))) \<and>
    setting (admission_timeout_seconds c) < setting (job_timeout_seconds c) \<and>
    setting (worker_cpu_seconds c) \<le> of_int (\<lfloor>setting (job_timeout_seconds c)\<rfloor> + 1)"
  using assms by (auto simp: validate_service_def ranges_ok_def mapE_unit split: if_splits)

lemma check_int_rowD:
  "check_row (int_row name v low high) = Inr () \<Longrightarrow> \<exists>i. v = JInt i \<and> low \<le> i \<and> i \<le> high"
  by (auto simp: check_row_def int_row_def in_range_def split: json.splits if_splits)

lemma check_float_rowD:
  "check_row (name, v, low, high, lt, ht, False) = Inr () \<Longrightarrow> low \<le> setting v \<and> setting v \<le> high"
  by (auto simp: check_row_def in_range_def setting_def split: json.splits if_splits pyfloat.splits)

definition int_within :: "json \<Rightarrow> int \<Rightarrow> int \<Rightarrow> bool" where
  "int_within v low high \<longleftrightarrow> (case v of JInt i \<Rightarrow> low \<le> i \<and> i \<le> high | _ \<Rightarrow> False)"

lemma int_withinI: "\<exists>i. v = JInt i \<and> low \<le> i \<and> i \<le> high \<Longrightarrow> int_within v low high"
  by (auto simp: int_within_def)

lemma ranges_ok_within:
  assumes "ranges_ok c"
  shows "int_within (max_pdf_bytes c) 1024 pipeline_max_pdf_bytes" "int_within (max_concurrent_jobs c) 1 32"
    "int_within (worker_cpu_seconds c) 1 3600" "int_within (worker_memory_bytes c) (256 * mib) (64 * gib)"
    "int_within (worker_file_bytes c) (64 * mib) (8 * gib)" "int_within (max_query_bytes c) 1024 (64 * mib)"
    "int_within (max_concurrent_queries c) 1 32"
    "tenth \<le> setting (admission_timeout_seconds c)" "setting (job_timeout_seconds c) \<le> 3600"
    "tenth \<le> setting (query_timeout_seconds c)" "setting (query_timeout_seconds c) \<le> 300"
  using assms unfolding ranges_ok_def range_rows_def
  by (auto intro!: int_withinI check_int_rowD dest: check_float_rowD)

subsection \<open>Properties\<close>

text \<open>
  What a validated service configuration guarantees: every limit lies in its documented interval,
  the deadline of a job exceeds the admission deadline, the processor limit of a worker is at most one
  second beyond the job deadline, and without a service token of at least 32 bytes the service runs
  only in development or test and only when insecure mode was asked for. A configuration read from the
  environment already has every limit in its interval.
\<close>

theorem validated_service_settings:
  assumes "validate_service c = Inr ()"
  shows "int_within (max_pdf_bytes c) 1024 pipeline_max_pdf_bytes \<and> int_within (max_concurrent_jobs c) 1 32 \<and>
    int_within (worker_cpu_seconds c) 1 3600 \<and> int_within (worker_memory_bytes c) (256 * mib) (64 * gib) \<and>
    int_within (worker_file_bytes c) (64 * mib) (8 * gib) \<and> int_within (max_query_bytes c) 1024 (64 * mib) \<and>
    int_within (max_concurrent_queries c) 1 32 \<and> setting (query_timeout_seconds c) \<le> 300 \<and>
    tenth \<le> setting (admission_timeout_seconds c) \<and>
    setting (admission_timeout_seconds c) < setting (job_timeout_seconds c) \<and> setting (job_timeout_seconds c) \<le> 3600 \<and>
    setting (worker_cpu_seconds c) \<le> of_int (\<lfloor>setting (job_timeout_seconds c)\<rfloor> + 1) \<and>
    (length (utf8_encode (service_token c)) < 32 \<longrightarrow>
      environment c \<in> {''development'', ''test''} \<and> allow_insecure_dev c \<and> service_token c = []) \<and>
    (\<forall>files env c'. service_from_env files env = Inr c' \<longrightarrow> ranges_ok c')"
  using validate_service_ok [OF assms] ranges_ok_within [of c] service_from_env_ranges by auto

definition demo_service_config :: service_config where
  "demo_service_config = \<lparr>data_dir = ''/data/dsvire'', service_token = replicate 32 CHR ''t'',
     environment = ''production'', allow_insecure_dev = False, max_pdf_bytes = JInt (64 * mib),
     max_concurrent_jobs = JInt 1, admission_timeout_seconds = JFloat (Flt 2), job_timeout_seconds = JFloat (Flt 75),
     worker_cpu_seconds = JInt 60, worker_memory_bytes = JInt (1536 * mib), worker_file_bytes = JInt (512 * mib),
     max_query_bytes = JInt (8 * mib), max_concurrent_queries = JInt 2, query_timeout_seconds = JFloat (Flt 10)\<rparr>"

lemma tenth_le: "tenth \<le> 1"
  by code_simp

lemma demo_service_config_valid: "validate_service demo_service_config = Inr ()"
proof -
  have "ranges_ok demo_service_config"
    using tenth_le unfolding ranges_ok_def range_rows_def demo_service_config_def
    by (simp add: check_int_row check_float_row mib_def gib_def pipeline_max_pdf_bytes_def)
  then have "mapE check_row (range_rows demo_service_config) = Inr (replicate (length (range_rows demo_service_config)) ())"
    by (simp add: mapE_unit ranges_ok_def)
  moreover have "length (utf8_encode (replicate 32 CHR ''t'')) = 32" by code_simp
  ultimately show ?thesis
    by (simp add: validate_service_def demo_service_config_def setting_def del: mapE.simps)
qed

theorem validated_service_settings_witness:
  "int_within (max_concurrent_jobs demo_service_config) 1 32 \<and> \<not> allow_insecure_dev demo_service_config"
  using validated_service_settings [OF demo_service_config_valid] by (simp add: demo_service_config_def)

text \<open>
  The platform configuration fails closed: what is returned has a PostgreSQL URL with a host, a
  Redis, an HTTP(S) and an HTTPS URL, credentials for the object store unless a local directory is set,
  and bounded lifetimes, leases and attempts.
\<close>

theorem platform_config_fails_closed:
  assumes "platform_from_env bracket_ok files env = Inr c"
  shows "(\<exists>u. urlparse bracket_ok (database_url c) = Inr u \<and> url_scheme u \<in> {''postgres'', ''postgresql''} \<and>
      hostname u \<noteq> None) \<and>
    (\<exists>u. urlparse bracket_ok (public_base_url c) = Inr u \<and> url_scheme u = ''https'') \<and>
    (\<exists>u. urlparse bracket_ok (redis_url c) = Inr u \<and> url_scheme u \<in> {''redis'', ''rediss''}) \<and>
    (\<exists>u. urlparse bracket_ok (qdrant_url c) = Inr u \<and> url_scheme u \<in> {''http'', ''https''}) \<and>
    (local_object_dir c = None \<longrightarrow> object_access_key c \<noteq> [] \<and> object_secret_key c \<noteq> []) \<and> object_bucket c \<noteq> [] \<and>
    1 \<le> lease_seconds c \<and> lease_seconds c \<le> 3600 \<and> 1 \<le> max_attempts_setting c \<and> max_attempts_setting c \<le> 20 \<and>
    1 \<le> upload_ttl_seconds c \<and> upload_ttl_seconds c \<le> 86400 \<and>
    1 \<le> event_retention_days c \<and> event_retention_days c \<le> 3650"
proof -
  from assms obtain bucket ttl lease retention attempts where
    v: "required_secret files env ''DSVIRE_OBJECT_BUCKET'' = Inr bucket"
      "positive_int env ''DSVIRE_UPLOAD_TTL_SECONDS'' 900 86400 = Inr ttl"
      "positive_int env ''DSVIRE_LEASE_SECONDS'' 90 3600 = Inr lease"
      "positive_int env ''DSVIRE_EVENT_RETENTION_DAYS'' 30 3650 = Inr retention"
      "positive_int env ''DSVIRE_MAX_ATTEMPTS'' 5 20 = Inr attempts"
    and c: "object_bucket c = bucket" "upload_ttl_seconds c = ttl" "lease_seconds c = lease"
      "event_retention_days c = retention" "max_attempts_setting c = attempts" "validate_platform bracket_ok c = Inr ()"
    by (auto simp: platform_from_env_def Let_def)
  have "validate_platform bracket_ok c = Inr () \<Longrightarrow> ?thesis"
    using v(2-5) [THEN positive_int_bounds] required_secret_nonempty [OF v(1)] c(1-5)
    by (auto simp: validate_platform_def scheme_in_def check_object_store_def split: if_splits)
  then show ?thesis using c(6) .
qed

definition demo_env :: env where
  "demo_env = map_of [(''DSVIRE_DATABASE_URL'', ''postgresql://u:p@db:5432/x''), (''DSVIRE_OBJECT_BUCKET'', ''b''),
     (''DSVIRE_REDIS_URL'', ''redis://r''), (''DSVIRE_QDRANT_URL'', ''http://q''),
     (''DSVIRE_PUBLIC_BASE_URL'', ''HTTPS://example.org/''), (''DSVIRE_LOCAL_OBJECT_DIR'', ''/o''),
     (''DSVIRE_MAX_ATTEMPTS'', '' 3 '')]"

lemma demo_env_accepted: "isl (platform_from_env (\<lambda>_. True) (\<lambda>_. Unreadable) demo_env) = False"
  by code_simp

theorem platform_config_fails_closed_witness:
  "\<exists>c. platform_from_env (\<lambda>_. True) (\<lambda>_. Unreadable) demo_env = Inr c \<and> lease_seconds c \<le> 3600"
proof -
  obtain c where c: "platform_from_env (\<lambda>_. True) (\<lambda>_. Unreadable) demo_env = Inr c"
    using demo_env_accepted by (metis sum.collapse(2))
  from platform_config_fails_closed [OF this] c show ?thesis by blast
qed

end
