(* ===== verification/ServiceApi.thy ===== *)
theory ServiceApi
  imports ServiceConfig QueryWorker
begin

section \<open>The hosted service boundary\<close>

text \<open>
  \<open>src/dsvire/api.py\<close> and \<open>src/dsvire/trace.py\<close>: authorization, trace context, bounded bodies,
  admission control and the three working routes, each split where the handler waits: the checks before
  the admission semaphore, the work under it. \<open>service_step\<close> interleaves any number of requests. The web
  framework decodes requests and turns an exception into a response; random hexadecimal text is a list
  of draws.
\<close>

subsection \<open>Trace context\<close>

record trace_context =
  trace_id :: string
  parent_id :: string
  flags :: string

definition hex_val :: "string \<Rightarrow> int" where
  "hex_val s = foldl (\<lambda>a c. 16 * a + (let n = int (code_point c) in if n < 58 then n - 48 else n - 87)) 0 s"

fun trace_of_parts :: "string list \<Rightarrow> trace_context option" where
  "trace_of_parts [version, t, p, f] =
     (if version \<noteq> ''00'' then None
      else if \<not> (is_hex 32 t \<and> is_hex 16 p \<and> is_hex 2 f) then None
      else if hex_val t = 0 \<or> hex_val p = 0 then None
      else Some \<lparr>trace_id = t, parent_id = p, flags = f\<rparr>)"
| "trace_of_parts _ = None"

definition parse_trace :: "string option \<Rightarrow> trace_context option" where
  "parse_trace value = (case value of
     None \<Rightarrow> None
   | Some v \<Rightarrow> if length v \<noteq> 55 then None else trace_of_parts (split_on CHR ''-'' v))"

text \<open>The loop that draws until the value is not zero; \<open>None\<close> when the draws given are used up.\<close>

fun nonzero_hex :: "string list \<Rightarrow> (string \<times> string list) option" where
  "nonzero_hex [] = None"
| "nonzero_hex (d # ds) = (if hex_val d \<noteq> 0 then Some (d, ds) else nonzero_hex ds)"

definition generate_trace :: "string list \<Rightarrow> string list \<Rightarrow> trace_context option" where
  "generate_trace long short = (case (nonzero_hex long, nonzero_hex short) of
     (Some (t, _), Some (p, _)) \<Rightarrow> Some \<lparr>trace_id = t, parent_id = p, flags = ''01''\<rparr> | _ \<Rightarrow> None)"

definition trace_child :: "string list \<Rightarrow> trace_context \<Rightarrow> trace_context option" where
  "trace_child short t = (case nonzero_hex short of None \<Rightarrow> None | Some (p, _) \<Rightarrow> Some (t\<lparr>parent_id := p\<rparr>))"

definition trace_header :: "trace_context \<Rightarrow> string" where
  "trace_header t = ''00-'' @ trace_id t @ ''-'' @ parent_id t @ ''-'' @ flags t"

subsection \<open>Requests and replies\<close>

record http_request =
  rq_authorization :: "string option"
  rq_traceparent :: "string option"
  rq_content_type :: "string option"
  rq_content_length :: "string option"
  rq_chunks :: "bytes list"
  rq_manufacturer :: string
  rq_mpn :: string
  rq_package :: string
  rq_source_url :: "string option"

type_synonym headers = "(string \<times> string) list"

datatype http_exn = HttpError int string headers | Unhandled string

datatype reply = Reply int json headers

definition ascii_only :: "string \<Rightarrow> bool" where
  "ascii_only s \<longleftrightarrow> list_all (\<lambda>c. code_point c < 128) s"

definition unauthorized :: http_exn where
  "unauthorized = HttpError 401 ''unauthorized'' [(''WWW-Authenticate'', ''Bearer'')]"

text \<open>\<open>hmac.compare_digest\<close> refuses texts with characters outside ASCII.\<close>

definition authorize :: "string option \<Rightarrow> service_config \<Rightarrow> http_exn + unit" where
  "authorize auth cfg =
     (if service_token cfg = [] then Inr ()
      else (case auth of
        None \<Rightarrow> Inl unauthorized
      | Some a \<Rightarrow>
          let expected = ''Bearer '' @ service_token cfg
          in if \<not> ascii_only a \<or> \<not> ascii_only expected then Inl (Unhandled ''TypeError'')
             else if a = expected then Inr () else Inl unauthorized))"

definition content_kind :: "string option \<Rightarrow> string" where
  "content_kind header = lower (strip (hd (split_once CHR '';'' (case header of None \<Rightarrow> [] | Some h \<Rightarrow> h))))"

definition too_large :: "string \<Rightarrow> http_exn" where
  "too_large noun = HttpError 413 (noun @ '' exceeds configured size limit'') []"

definition extend_body :: "int \<Rightarrow> string \<Rightarrow> bytes \<Rightarrow> bytes \<Rightarrow> http_exn + bytes" where
  "extend_body maximum noun body chunk =
     (if maximum < int (length body) + int (length chunk) then Inl (too_large noun) else Inr (body @ chunk))"

definition declared_ok :: "string option \<Rightarrow> int \<Rightarrow> string \<Rightarrow> http_exn + unit" where
  "declared_ok declared maximum noun = (case declared of
     None \<Rightarrow> Inr ()
   | Some [] \<Rightarrow> Inr ()
   | Some s \<Rightarrow> (case parse_int s of
       None \<Rightarrow> Inl (HttpError 400 ''invalid content-length'' [])
     | Some n \<Rightarrow> if n < 0 then Inl (HttpError 400 ''invalid content-length'' [])
               else if maximum < n then Inl (too_large noun) else Inr ()))"

definition read_bounded_body :: "http_request \<Rightarrow> int \<Rightarrow> string \<Rightarrow> http_exn + bytes" where
  "read_bounded_body r maximum noun =
     bindE (declared_ok (rq_content_length r) maximum noun) (\<lambda>_. foldE (extend_body maximum noun) [] (rq_chunks r))"

text \<open>A JSON response refuses numbers that are not finite.\<close>

fun finite_json :: "json \<Rightarrow> bool" where
  "finite_json (JFloat f) = (case f of Flt _ \<Rightarrow> True | _ \<Rightarrow> False)"
| "finite_json (JArr xs) = list_all finite_json xs"
| "finite_json (JObj d) = list_all (\<lambda>(k, v). finite_json v) d"
| "finite_json _ = True"

definition json_response :: "int \<Rightarrow> json \<Rightarrow> trace_context option \<Rightarrow> http_exn + reply" where
  "json_response status v child = (case child of
     None \<Rightarrow> Inl (Unhandled ''no draws left'')
   | Some t \<Rightarrow> if finite_json v then Inr (Reply status v [(''traceparent'', trace_header t)])
             else Inl (Unhandled ''ValueError''))"

subsection \<open>Routes\<close>

datatype route = EvidenceRoute | QueryRoute | SymbolRoute

definition int_setting :: "json \<Rightarrow> int" where
  "int_setting v = \<lfloor>setting v\<rfloor>"

definition pdf_limits :: "service_config \<Rightarrow> worker_limits" where
  "pdf_limits cfg = \<lparr>cpu_seconds = int_setting (worker_cpu_seconds cfg),
     memory_bytes = int_setting (worker_memory_bytes cfg), file_bytes = int_setting (worker_file_bytes cfg)\<rparr>"

definition query_limits :: "service_config \<Rightarrow> worker_limits" where
  "query_limits cfg = \<lparr>cpu_seconds = max 1 (min (int_setting (worker_cpu_seconds cfg))
       (int_setting (query_timeout_seconds cfg) + 1)),
     memory_bytes = int_setting (worker_memory_bytes cfg), file_bytes = int_setting (worker_file_bytes cfg)\<rparr>"

definition evidence_query_ok :: "http_request \<Rightarrow> bool" where
  "evidence_query_ok r \<longleftrightarrow> 1 \<le> length (rq_manufacturer r) \<and> length (rq_manufacturer r) \<le> 160 \<and>
     1 \<le> length (rq_mpn r) \<and> length (rq_mpn r) \<le> 120 \<and> 1 \<le> length (rq_package r) \<and> length (rq_package r) \<le> 120 \<and>
     (case rq_source_url r of None \<Rightarrow> True | Some s \<Rightarrow> length s \<le> 2048)"

definition accepted_types :: "route \<Rightarrow> string list" where
  "accepted_types route = (case route of EvidenceRoute \<Rightarrow> [''application/pdf'']
     | QueryRoute \<Rightarrow> [''application/json'']
     | SymbolRoute \<Rightarrow> [[], ''application/pdf'', ''application/octet-stream''])"

definition type_message :: "route \<Rightarrow> string" where
  "type_message route = (case route of QueryRoute \<Rightarrow> ''content-type must be application/json''
     | _ \<Rightarrow> ''content-type must be application/pdf'')"

text \<open>What a handler does before it waits for the semaphore.\<close>

definition before_admission :: "route \<Rightarrow> service_config \<Rightarrow> http_request \<Rightarrow> http_exn + unit" where
  "before_admission route cfg r =
     (if route = EvidenceRoute \<and> \<not> evidence_query_ok r then Inl (HttpError 422 ''validation error'' [])
      else bindE (authorize (rq_authorization r) cfg) (\<lambda>_.
        ensure (content_kind (rq_content_type r) \<in> set (accepted_types route)) (HttpError 415 (type_message route) [])))"

definition capacity_full :: "route \<Rightarrow> http_exn" where
  "capacity_full route = (case route of
     QueryRoute \<Rightarrow> HttpError 503 ''query capacity is currently full'' [(''Retry-After'', ''1'')]
   | _ \<Rightarrow> HttpError 503 ''PDF processing capacity is currently full'' [(''Retry-After'', ''2'')])"

definition pdf_failure :: "worker_exn \<Rightarrow> http_exn" where
  "pdf_failure e = (case e of
     RetrievalFailed m \<Rightarrow> HttpError 422 m []
   | AmbiguousIdentity cs \<Rightarrow> HttpError 422 (ambiguity_message cs) []
   | WorkerTimedOut \<Rightarrow> HttpError 504 ''PDF processing timed out'' []
   | WorkerFailed _ \<Rightarrow> HttpError 502 ''PDF processing worker failed'' []
   | _ \<Rightarrow> Unhandled ''worker'')"

definition query_failure_reply :: "query_job_error \<Rightarrow> http_exn" where
  "query_failure_reply e = (case e of
     JobRejected \<Rightarrow> HttpError 422 ''query or pack failed validation'' []
   | JobTimedOut \<Rightarrow> HttpError 504 ''query timed out'' []
   | JobFailed _ \<Rightarrow> HttpError 502 ''query worker failed'' []
   | _ \<Rightarrow> Unhandled ''worker'')"

definition candidates_reply :: "identity list \<Rightarrow> json" where
  "candidates_reply cs = JObj [(''schema_version'', JStr ''dsvire.symbol-identity.v1''),
     (''code'', JStr ''ambiguous_identity''), (''candidates'', public_candidates cs)]"

definition public_symbol :: "(string \<times> json) list \<Rightarrow> (string \<times> json) list" where
  "public_symbol result = filter (\<lambda>(k, _). k \<noteq> ''evidence'') result"

text \<open>The random draws and the observed run of the worker that a request meets.\<close>

record run_input =
  long_draws :: "string list"
  short_draws :: "string list"
  child_draws :: "string list"
  worker_run :: observed

definition trace_for :: "http_request \<Rightarrow> run_input \<Rightarrow> trace_context option" where
  "trace_for r i = (case parse_trace (rq_traceparent r) of
     Some t \<Rightarrow> Some t | None \<Rightarrow> generate_trace (long_draws i) (short_draws i))"

definition reply_trace :: "http_request \<Rightarrow> run_input \<Rightarrow> trace_context option" where
  "reply_trace r i = (case trace_for r i of None \<Rightarrow> None | Some t \<Rightarrow> trace_child (child_draws i) t)"

definition evidence_work :: "(json \<Rightarrow> string) \<Rightarrow> service_config \<Rightarrow> http_request \<Rightarrow> run_input \<Rightarrow> host \<Rightarrow>
    (http_exn + reply) \<times> host" where
  "evidence_work rep cfg r i h =
     (case read_bounded_body r (int_setting (max_pdf_bytes cfg)) ''PDF'' of
        Inl e \<Rightarrow> (Inl e, h)
      | Inr body \<Rightarrow> (case run_pdf_job rep (worker_run i) h of
          (Inl e, h') \<Rightarrow> (Inl (pdf_failure e), h')
        | (Inr evidence, h') \<Rightarrow> (json_response 200 (JObj evidence) (reply_trace r i), h')))"

text \<open>The completion log line takes the length of the hits.\<close>

definition has_length :: "json \<Rightarrow> bool" where
  "has_length v = (case v of JArr _ \<Rightarrow> True | JObj _ \<Rightarrow> True | JStr _ \<Rightarrow> True | _ \<Rightarrow> False)"

definition query_reply :: "(string \<times> json) list \<Rightarrow> trace_context option \<Rightarrow> http_exn + reply" where
  "query_reply result child =
     (if \<not> has_length (get_or result ''hits'' (JArr [])) then Inl (Unhandled ''TypeError'')
      else json_response 200 (JObj result) child)"

definition query_work :: "service_config \<Rightarrow> http_request \<Rightarrow> run_input \<Rightarrow> host \<Rightarrow> (http_exn + reply) \<times> host" where
  "query_work cfg r i h =
     (case read_bounded_body r (int_setting (max_query_bytes cfg)) ''query request'' of
        Inl e \<Rightarrow> (Inl e, h)
      | Inr body \<Rightarrow> (case run_query_job (worker_run i) h of
          (Inl e, h') \<Rightarrow> (Inl (query_failure_reply e), h')
        | (Inr result, h') \<Rightarrow> (query_reply result (reply_trace r i), h')))"

definition symbol_outcome :: "worker_exn + (string \<times> json) list \<Rightarrow> trace_context option \<Rightarrow> http_exn + reply" where
  "symbol_outcome outcome child = (case outcome of
     Inl (AmbiguousIdentity cs) \<Rightarrow> json_response 409 (candidates_reply cs) child
   | Inl e \<Rightarrow> Inl (pdf_failure e)
   | Inr result \<Rightarrow> json_response 200 (JObj (public_symbol result)) child)"

definition symbol_work :: "(json \<Rightarrow> string) \<Rightarrow> service_config \<Rightarrow> http_request \<Rightarrow> run_input \<Rightarrow> host \<Rightarrow>
    (http_exn + reply) \<times> host" where
  "symbol_work rep cfg r i h =
     (if int_setting (max_pdf_bytes cfg) < int (length (concat (rq_chunks r)))
      then (Inl (too_large ''PDF''), h)
      else (case run_symbol_job rep (worker_run i) h of (outcome, h') \<Rightarrow> (symbol_outcome outcome (reply_trace r i), h')))"

definition route_work :: "(json \<Rightarrow> string) \<Rightarrow> service_config \<Rightarrow> route \<Rightarrow> http_request \<Rightarrow> run_input \<Rightarrow> host \<Rightarrow>
    (http_exn + reply) \<times> host" where
  "route_work rep cfg route r i h = (case route of
     EvidenceRoute \<Rightarrow> evidence_work rep cfg r i h
   | QueryRoute \<Rightarrow> query_work cfg r i h
   | SymbolRoute \<Rightarrow> symbol_work rep cfg r i h)"

definition ready_route :: "bool \<Rightarrow> bool \<Rightarrow> bool \<Rightarrow> string \<Rightarrow> http_exn + json" where
  "ready_route admitting platform_on pings_ok version =
     (if \<not> admitting then Inl (HttpError 503 ''not ready'' [])
      else if platform_on \<and> \<not> pings_ok then Inl (HttpError 503 ''platform dependencies not ready'' [])
      else Inr (JObj [(''status'', JStr ''ready''), (''service'', JStr ''tokito-dsvire''), (''version'', JStr version)]))"

subsection \<open>Admission\<close>

text \<open>
  The state of the service: the permits of the two semaphores, the requests that wait for one, the
  requests that hold one, the replies given, and the parent's world.
\<close>

record service =
  pdf_permits :: nat
  query_permits :: nat
  waiting :: "(nat \<times> route \<times> http_request) list"
  running :: "(nat \<times> route \<times> http_request) list"
  replies :: "(nat \<times> (http_exn + reply)) list"
  service_host :: host

datatype service_event = Arrive nat route http_request | Admit nat | AdmissionTimeout nat
  | Complete nat run_input

definition permits :: "route \<Rightarrow> service \<Rightarrow> nat" where
  "permits route s = (if route = QueryRoute then query_permits s else pdf_permits s)"

definition take_permit :: "route \<Rightarrow> service \<Rightarrow> service" where
  "take_permit route s = (if route = QueryRoute then s\<lparr>query_permits := query_permits s - 1\<rparr>
     else s\<lparr>pdf_permits := pdf_permits s - 1\<rparr>)"

definition release_permit :: "route \<Rightarrow> service \<Rightarrow> service" where
  "release_permit route s = (if route = QueryRoute then s\<lparr>query_permits := query_permits s + 1\<rparr>
     else s\<lparr>pdf_permits := pdf_permits s + 1\<rparr>)"

definition drop_request :: "nat \<Rightarrow> (nat \<times> route \<times> http_request) list \<Rightarrow> (nat \<times> route \<times> http_request) list" where
  "drop_request n xs = filter (\<lambda>x. fst x \<noteq> n) xs"

definition reply_to :: "nat \<Rightarrow> http_exn + reply \<Rightarrow> service \<Rightarrow> service" where
  "reply_to n answer s = s\<lparr>replies := replies s @ [(n, answer)]\<rparr>"

definition known :: "service \<Rightarrow> nat \<Rightarrow> bool" where
  "known s n \<longleftrightarrow> n \<in> fst ` set (waiting s) \<or> n \<in> fst ` set (running s) \<or> n \<in> fst ` set (replies s)"

definition service_step :: "(json \<Rightarrow> string) \<Rightarrow> service_config \<Rightarrow> service_event \<Rightarrow> service \<Rightarrow> service option" where
  "service_step rep cfg ev s = (case ev of
     Arrive n route r \<Rightarrow>
       if known s n then None
       else (case before_admission route cfg r of
         Inl e \<Rightarrow> Some (reply_to n (Inl e) s)
       | Inr _ \<Rightarrow> Some (s\<lparr>waiting := waiting s @ [(n, route, r)]\<rparr>))
   | Admit n \<Rightarrow> (case map_of (waiting s) n of
       None \<Rightarrow> None
     | Some (route, r) \<Rightarrow>
         if permits route s = 0 then None
         else Some (take_permit route (s\<lparr>waiting := drop_request n (waiting s), running := running s @ [(n, route, r)]\<rparr>)))
   | AdmissionTimeout n \<Rightarrow> (case map_of (waiting s) n of
       None \<Rightarrow> None
     | Some (route, r) \<Rightarrow> Some (reply_to n (Inl (capacity_full route)) (s\<lparr>waiting := drop_request n (waiting s)\<rparr>)))
   | Complete n i \<Rightarrow> (case map_of (running s) n of
       None \<Rightarrow> None
     | Some (route, r) \<Rightarrow> (case route_work rep cfg route r i (service_host s) of (answer, h) \<Rightarrow>
         Some (reply_to n answer (release_permit route
           (s\<lparr>running := drop_request n (running s), service_host := h\<rparr>))))))"

definition started_service :: "service_config \<Rightarrow> service" where
  "started_service cfg = \<lparr>pdf_permits = nat (int_setting (max_concurrent_jobs cfg)),
     query_permits = nat (int_setting (max_concurrent_queries cfg)), waiting = [], running = [], replies = [],
     service_host = \<lparr>scratch_dirs = [], children = []\<rparr>\<rparr>"

inductive service_reaches :: "(json \<Rightarrow> string) \<Rightarrow> service_config \<Rightarrow> service \<Rightarrow> bool"
  for rep :: "json \<Rightarrow> string" and cfg :: service_config where
  start: "service_reaches rep cfg (started_service cfg)"
| step: "service_reaches rep cfg s \<Longrightarrow> service_step rep cfg ev s = Some t \<Longrightarrow> service_reaches rep cfg t"

subsection \<open>Startup and shutdown\<close>

text \<open>
  The lifespan of the application: the startup steps in order, any of which may raise, and the
  \<open>finally\<close> block, which stops the dispatcher and closes what was opened; an exception there leaves the
  rest open.
\<close>

datatype startup_step = PrepareConfig | PlatformSettings | ConnectDb | MigrateDb | PingDb | BuildStore
  | OpenRedis | OpenQdrant | PingQdrant | StartOutbox

datatype resource = DbPool | RedisClient | QdrantClient | OutboxTask

fun opened_by :: "startup_step \<Rightarrow> resource list" where
  "opened_by ConnectDb = [DbPool]"
| "opened_by OpenRedis = [RedisClient]"
| "opened_by OpenQdrant = [QdrantClient]"
| "opened_by StartOutbox = [OutboxTask]"
| "opened_by _ = []"

definition platform_steps :: "startup_step list" where
  "platform_steps = [PlatformSettings, ConnectDb, MigrateDb, PingDb, BuildStore, OpenRedis, OpenQdrant, PingQdrant, StartOutbox]"

fun start_up :: "(startup_step \<Rightarrow> bool) \<Rightarrow> startup_step list \<Rightarrow> resource list \<Rightarrow> bool \<times> resource list" where
  "start_up ok [] open_now = (True, open_now)"
| "start_up ok (st # steps) open_now =
     (if ok st then start_up ok steps (open_now @ opened_by st) else (False, open_now))"

fun shut_down :: "(resource \<Rightarrow> bool) \<Rightarrow> resource list \<Rightarrow> resource list \<Rightarrow> resource list" where
  "shut_down closes [] open_now = open_now"
| "shut_down closes (r # rs) open_now =
     (if r \<notin> set open_now then shut_down closes rs open_now
      else if closes r then shut_down closes rs (filter (\<lambda>x. x \<noteq> r) open_now) else open_now)"

definition close_order :: "resource list" where
  "close_order = [OutboxTask, RedisClient, QdrantClient, DbPool]"

text \<open>Whether requests were served, and what is still open after the end.\<close>

definition lifespan :: "bool \<Rightarrow> (startup_step \<Rightarrow> bool) \<Rightarrow> (resource \<Rightarrow> bool) \<Rightarrow> bool \<times> resource list" where
  "lifespan platform_enabled ok closes =
     (if \<not> ok PrepareConfig then (False, [])
      else (case start_up ok (if platform_enabled then platform_steps else []) [] of
        (served, open_now) \<Rightarrow> (served, shut_down closes close_order open_now)))"

subsection \<open>Facts\<close>

lemma trace_header_join: "trace_header t = join ''-'' [''00'', trace_id t, parent_id t, flags t]"
  by (simp add: trace_header_def)

definition trace_ok :: "trace_context \<Rightarrow> bool" where
  "trace_ok t \<longleftrightarrow> is_hex 32 (trace_id t) \<and> is_hex 16 (parent_id t) \<and> is_hex 2 (flags t) \<and>
     hex_val (trace_id t) \<noteq> 0 \<and> hex_val (parent_id t) \<noteq> 0"

lemma nonzero_hex_some: "nonzero_hex ds = Some (d, rest) \<Longrightarrow> d \<in> set ds \<and> hex_val d \<noteq> 0"
  by (induction ds) (auto split: if_splits)

lemma trace_of_parts_ok:
  "trace_of_parts ps = Some t \<Longrightarrow> ps = [''00'', trace_id t, parent_id t, flags t] \<and> trace_ok t"
  by (erule trace_of_parts.elims) (auto simp: trace_ok_def simp del: is_hex_length split: if_splits)

lemma parse_trace_ok: "parse_trace v = Some t \<Longrightarrow> v = Some (trace_header t) \<and> trace_ok t"
proof -
  assume a: "parse_trace v = Some t"
  then obtain s where s: "v = Some s" "trace_of_parts (split_on CHR ''-'' s) = Some t"
    by (auto simp: parse_trace_def split: option.splits if_splits)
  from trace_of_parts_ok [OF s(2)] s(1) show ?thesis by (metis join_split_on trace_header_join)
qed

lemma parse_trace_header: "trace_ok t \<Longrightarrow> parse_trace (Some (trace_header t)) = Some t"
proof -
  assume t: "trace_ok t"
  then have "split_on CHR ''-'' (trace_header t) = [''00'', trace_id t, parent_id t, flags t]"
    unfolding trace_header_join by (intro split_on_join) (auto simp: trace_ok_def dest: is_hex_no_slash)
  then have "trace_of_parts (split_on CHR ''-'' (trace_header t)) = Some t"
    using t unfolding trace_ok_def by (simp del: is_hex_length)
  moreover have "length (trace_id t) = 32" "length (parent_id t) = 16" "length (flags t) = 2"
    using t unfolding trace_ok_def is_hex_def by blast+
  then have "length (trace_header t) = 55" by (simp add: trace_header_def)
  ultimately show ?thesis unfolding parse_trace_def option.case by simp
qed

lemma before_admission_authorized: "before_admission route cfg r = Inr u \<Longrightarrow> authorize (rq_authorization r) cfg = Inr ()"
  by (auto simp: before_admission_def split: if_splits)

lemma authorize_exact:
  "authorize auth cfg = Inr () \<longleftrightarrow> service_token cfg = [] \<or>
     auth = Some (''Bearer '' @ service_token cfg) \<and> ascii_only (service_token cfg)"
  by (auto simp: authorize_def ascii_only_def code_point_def unauthorized_def Let_def split: option.splits if_splits)

text \<open>Every request is in one place: waiting, running or answered.\<close>

definition ids :: "(nat \<times> 'a) list \<Rightarrow> nat list" where
  "ids xs = map fst xs"

definition on_pdf :: "(nat \<times> route \<times> http_request) list \<Rightarrow> nat" where
  "on_pdf xs = length (filter (\<lambda>(_, route, _). route \<noteq> QueryRoute) xs)"

definition on_query :: "(nat \<times> route \<times> http_request) list \<Rightarrow> nat" where
  "on_query xs = length (filter (\<lambda>(_, route, _). route = QueryRoute) xs)"

definition admitted_ok :: "service_config \<Rightarrow> service \<Rightarrow> bool" where
  "admitted_ok cfg s \<longleftrightarrow>
     pdf_permits s + on_pdf (running s) = nat (int_setting (max_concurrent_jobs cfg)) \<and>
     query_permits s + on_query (running s) = nat (int_setting (max_concurrent_queries cfg)) \<and>
     distinct (ids (waiting s) @ ids (running s) @ ids (replies s)) \<and>
     list_all (\<lambda>(_, route, r). before_admission route cfg r = Inr ()) (waiting s @ running s)"

lemma ids_simps [simp]: "ids [] = []" "ids (x # xs) = fst x # ids xs" "ids (xs @ ys) = ids xs @ ids ys"
  by (simp_all add: ids_def)

lemma known_iff: "known s n \<longleftrightarrow> n \<in> set (ids (waiting s)) \<or> n \<in> set (ids (running s)) \<or> n \<in> set (ids (replies s))"
  by (simp add: known_def ids_def)

lemma on_simps [simp]:
  "on_pdf [] = 0" "on_query [] = 0"
  "on_pdf (xs @ [(n, route, r)]) = on_pdf xs + (if route = QueryRoute then 0 else 1)"
  "on_query (xs @ [(n, route, r)]) = on_query xs + (if route = QueryRoute then 1 else 0)"
  by (simp_all add: on_pdf_def on_query_def)

lemma drop_request_all: "list_all p xs \<Longrightarrow> list_all p (drop_request n xs)"
  by (simp add: drop_request_def list_all_iff)

lemma drop_request_ids: "set (ids (drop_request n xs)) = set (ids xs) - {n}"
  by (auto simp: ids_def drop_request_def)

lemma drop_request_distinct: "distinct (ids xs) \<Longrightarrow> distinct (ids (drop_request n xs))"
  by (simp add: ids_def drop_request_def distinct_map_filter)

lemma drop_request_other: "n \<notin> set (ids xs) \<Longrightarrow> drop_request n xs = xs"
  by (auto simp: ids_def drop_request_def intro!: filter_True)

lemma on_drop_request:
  "distinct (ids xs) \<Longrightarrow> map_of xs n = Some (route, r) \<Longrightarrow>
     (if route = QueryRoute then on_query xs = Suc (on_query (drop_request n xs)) \<and> on_pdf (drop_request n xs) = on_pdf xs
      else on_pdf xs = Suc (on_pdf (drop_request n xs)) \<and> on_query (drop_request n xs) = on_query xs)"
proof (induction xs)
  case (Cons x xs)
  obtain m rt q where x: "x = (m, rt, q)" by (cases x)
  show ?case
  proof (cases "m = n")
    case True
    with Cons.prems x have "drop_request n xs = xs" by (intro drop_request_other) (simp add: ids_def)
    with True Cons.prems x show ?thesis by (auto simp: drop_request_def on_pdf_def on_query_def)
  next
    case False
    with Cons x show ?thesis by (auto simp: drop_request_def on_pdf_def on_query_def ids_def split: if_splits)
  qed
qed simp

lemma admitted_in: "map_of xs n = Some v \<Longrightarrow> (n, v) \<in> set xs \<and> n \<in> set (ids xs)"
  by (force simp: ids_def dest: map_of_SomeD)

lemma admitted_ok_step:
  assumes ok: "admitted_ok cfg s" and step: "service_step rep cfg ev s = Some t"
  shows "admitted_ok cfg t"
proof (cases ev)
  case (Arrive n route r)
  with step have new: "\<not> known s n" by (auto simp: service_step_def split: if_splits)
  show ?thesis
  proof (cases "before_admission route cfg r")
    case (Inl e)
    with step Arrive new have t: "t = reply_to n (Inl e) s" by (simp add: service_step_def)
    from ok new show ?thesis by (simp add: t admitted_ok_def reply_to_def known_iff)
  next
    case (Inr u)
    with step Arrive new have t: "t = s\<lparr>waiting := waiting s @ [(n, route, r)]\<rparr>" by (simp add: service_step_def)
    from ok new Inr show ?thesis by (simp add: t admitted_ok_def known_iff)
  qed
next
  case (Admit n)
  with step obtain route r where m: "map_of (waiting s) n = Some (route, r)" "permits route s \<noteq> 0"
    "t = take_permit route (s\<lparr>waiting := drop_request n (waiting s), running := running s @ [(n, route, r)]\<rparr>)"
    by (auto simp: service_step_def split: option.splits if_splits)
  from admitted_in [OF m(1)] ok m(2) show ?thesis
    unfolding m(3) admitted_ok_def take_permit_def permits_def
    by (cases "route = QueryRoute")
      (auto simp: drop_request_ids drop_request_distinct drop_request_all list_all_iff [of _ "waiting s"])
next
  case (AdmissionTimeout n)
  with step obtain route r where m: "map_of (waiting s) n = Some (route, r)"
    "t = reply_to n (Inl (capacity_full route)) (s\<lparr>waiting := drop_request n (waiting s)\<rparr>)"
    by (auto simp: service_step_def split: option.splits)
  from admitted_in [OF m(1)] ok show ?thesis
    unfolding m(2) admitted_ok_def reply_to_def
    by (auto simp: drop_request_ids drop_request_distinct drop_request_all)
next
  case (Complete n i)
  with step obtain route r answer h where m: "map_of (running s) n = Some (route, r)"
    "t = reply_to n answer (release_permit route (s\<lparr>running := drop_request n (running s), service_host := h\<rparr>))"
    by (auto simp: service_step_def split: option.splits prod.splits)
  from ok have "distinct (ids (running s))" by (simp add: admitted_ok_def)
  from on_drop_request [OF this m(1)] admitted_in [OF m(1)] ok show ?thesis
    unfolding m(2) admitted_ok_def reply_to_def release_permit_def
    by (cases "route = QueryRoute") (auto simp: drop_request_ids drop_request_distinct drop_request_all)
qed

lemma service_reaches_ok: "service_reaches rep cfg s \<Longrightarrow> admitted_ok cfg s"
proof (induction rule: service_reaches.induct)
  case start
  show ?case by (simp add: admitted_ok_def started_service_def on_pdf_def on_query_def ids_def)
next
  case (step s ev t)
  from step.IH step.hyps(2) show ?case by (rule admitted_ok_step)
qed

lemma shut_down_removes:
  "(\<And>r. r \<in> set rs \<Longrightarrow> closes r) \<Longrightarrow> set (shut_down closes rs open_now) = set open_now - set rs"
  by (induction closes rs open_now rule: shut_down.induct) auto

lemma all_resources: "set close_order = UNIV"
proof -
  have "r \<in> set close_order" for r by (cases r) (simp_all add: close_order_def)
  then show ?thesis by blast
qed

subsection \<open>Properties\<close>

text \<open>
  C17. Admission control: in every reachable state of the service, whatever the interleaving of arrivals,
  admissions, timeouts and completions, at most \<open>max_concurrent_jobs\<close> PDF workers and
  \<open>max_concurrent_queries\<close> query workers run, no permit is ever lost (permits and running requests add
  up to the configured number), and every request is answered at most once.
\<close>

theorem admission_bounds_workers:
  assumes "service_reaches rep cfg s"
  shows "pdf_permits s + on_pdf (running s) = nat (int_setting (max_concurrent_jobs cfg)) \<and>
    query_permits s + on_query (running s) = nat (int_setting (max_concurrent_queries cfg)) \<and>
    distinct (ids (waiting s) @ ids (running s) @ ids (replies s)) \<and>
    (running s = [] \<longrightarrow> pdf_permits s = nat (int_setting (max_concurrent_jobs cfg)) \<and>
      query_permits s = nat (int_setting (max_concurrent_queries cfg)))"
  using service_reaches_ok [OF assms] by (auto simp: admitted_ok_def)

text \<open>
  C18. Only authorized work: under a validated configuration outside development and test, every request
  that waits for or holds a permit presented exactly the configured token, which has at least 32 bytes,
  and its content type is one the route accepts.
\<close>

theorem only_authorized_requests_run:
  assumes "service_reaches rep cfg s" and "validate_service cfg = Inr ()"
    and "environment cfg \<notin> {''development'', ''test''}" and "(n, route, r) \<in> set (waiting s @ running s)"
  shows "rq_authorization r = Some (''Bearer '' @ service_token cfg) \<and> 32 \<le> length (utf8_encode (service_token cfg)) \<and>
    content_kind (rq_content_type r) \<in> set (accepted_types route)"
proof -
  have b: "before_admission route cfg r = Inr ()"
    using service_reaches_ok [OF assms(1)] assms(4) unfolding admitted_ok_def list_all_iff by fast
  have t: "service_token cfg \<noteq> []" "32 \<le> length (utf8_encode (service_token cfg))"
    using validate_service_ok [OF assms(2)] assms(3) by auto
  have "content_kind (rq_content_type r) \<in> set (accepted_types route)"
    using b by (auto simp: before_admission_def split: if_splits)
  with t before_admission_authorized [OF b] show ?thesis by (simp add: authorize_exact)
qed

text \<open>
  A token with a character outside ASCII passes validation, which counts its UTF-8 bytes, and then locks
  everybody out: comparing it with any header raises.
\<close>

theorem token_outside_ascii_locks_out:
  assumes "\<not> ascii_only (service_token cfg)"
  shows "\<exists>e. authorize auth cfg = Inl e"
proof -
  have "service_token cfg \<noteq> []" using assms by (auto simp: ascii_only_def)
  then show ?thesis using assms authorize_exact [of auth cfg] by (cases "authorize auth cfg") auto
qed

theorem token_outside_ascii_locks_out_witness:
  "validate_service (demo_service_config\<lparr>service_token := replicate 16 (char_of (233::nat))\<rparr>) = Inr () \<and>
   (\<exists>e. authorize (Some x) (demo_service_config\<lparr>service_token := replicate 16 (char_of (233::nat))\<rparr>) = Inl e)"
proof -
  let ?c = "demo_service_config\<lparr>service_token := replicate 16 (char_of (233::nat))\<rparr>"
  have "range_rows ?c = range_rows demo_service_config" by (simp add: range_rows_def demo_service_config_def)
  moreover have "mapE check_row (range_rows demo_service_config) \<noteq> Inl e" for e
    using demo_service_config_valid by (auto simp: validate_service_def)
  ultimately obtain us where "mapE check_row (range_rows ?c) = Inr us" by (cases "mapE check_row (range_rows ?c)") auto
  moreover have "length (utf8_encode (replicate 16 (char_of (233::nat)))) = 32" by code_simp
  ultimately have "validate_service ?c = Inr ()"
    by (simp add: validate_service_def demo_service_config_def setting_def del: mapE.simps)
  moreover have "\<not> ascii_only (replicate 16 (char_of (233::nat)))" by code_simp
  then have "\<not> ascii_only (service_token ?c)" by simp
  ultimately show ?thesis using token_outside_ascii_locks_out [of ?c "Some x"] by blast
qed

text \<open>
  Trace headers round trip: a well-formed context printed as a header parses back to itself; only
  printed well-formed contexts parse; and the header of every reply continues the trace of the request,
  with a fresh parent.
\<close>

theorem trace_header_roundtrip:
  assumes "trace_ok t"
  shows "parse_trace (Some (trace_header t)) = Some t \<and>
    (\<forall>v u. parse_trace v = Some u \<longrightarrow> v = Some (trace_header u) \<and> trace_ok u) \<and>
    (\<forall>r i c. rq_traceparent r = Some (trace_header t) \<and> reply_trace r i = Some c \<longrightarrow>
       trace_id c = trace_id t \<and> flags c = flags t \<and> hex_val (parent_id c) \<noteq> 0)"
proof (intro conjI allI impI)
  show p: "parse_trace (Some (trace_header t)) = Some t" by (rule parse_trace_header [OF assms])
  fix r :: http_request and i :: run_input and c
  assume a: "rq_traceparent r = Some (trace_header t) \<and> reply_trace r i = Some c"
  then have "trace_for r i = Some t" using p by (simp add: trace_for_def)
  with a have "trace_child (child_draws i) t = Some c" by (simp add: reply_trace_def)
  then show "trace_id c = trace_id t" "flags c = flags t" "hex_val (parent_id c) \<noteq> 0"
    by (auto simp: trace_child_def dest: nonzero_hex_some split: option.splits)
qed (auto dest: parse_trace_ok)

text \<open>
  Whichever startup step fails, and also after serving, everything that was opened is closed, provided
  that no closing call raises.
\<close>

theorem lifespan_closes_everything:
  assumes "\<forall>r. closes r"
  shows "snd (lifespan platform_enabled ok closes) = []"
proof -
  have "set (shut_down closes close_order xs) = {}" for xs
    using assms all_resources by (simp add: shut_down_removes)
  then show ?thesis by (auto simp: lifespan_def split: prod.splits)
qed

theorem lifespan_closes_everything_witness:
  "snd (lifespan True (\<lambda>st. st \<noteq> PingQdrant) (\<lambda>_. True)) = []"
  by (rule lifespan_closes_everything) simp

text \<open>A run: one request with the right token, one without, one more for the only permit.\<close>

definition demo_http :: "string option \<Rightarrow> http_request" where
  "demo_http auth = \<lparr>rq_authorization = auth, rq_traceparent = None, rq_content_type = Some ''application/pdf; x'',
     rq_content_length = None, rq_chunks = [''%PDF-1.7''], rq_manufacturer = ''TI'', rq_mpn = ''X1'',
     rq_package = ''DIP-8'', rq_source_url = None\<rparr>"

definition demo_auth :: "string option" where
  "demo_auth = Some (''Bearer '' @ replicate 32 CHR ''t'')"

definition run_events :: "(json \<Rightarrow> string) \<Rightarrow> service_config \<Rightarrow> service_event list \<Rightarrow> service option" where
  "run_events rep cfg evs = foldl (\<lambda>s ev. case s of None \<Rightarrow> None | Some t \<Rightarrow> service_step rep cfg ev t)
     (Some (started_service cfg)) evs"

lemma run_events_reaches: "run_events rep cfg evs = Some s \<Longrightarrow> service_reaches rep cfg s"
proof (induction evs arbitrary: s rule: rev_induct)
  case Nil
  then show ?case using service_reaches.start [of rep cfg] by (simp add: run_events_def)
next
  case (snoc ev evs)
  then obtain t where "run_events rep cfg evs = Some t" "service_step rep cfg ev t = Some s"
    by (auto simp: run_events_def split: option.splits)
  with snoc.IH show ?case by (blast intro: service_reaches.step)
qed

definition busy_service :: service where
  "busy_service = (started_service demo_service_config)\<lparr>pdf_permits := 0,
     running := [(1, EvidenceRoute, demo_http demo_auth)],
     waiting := [(3, SymbolRoute, demo_http demo_auth)], replies := [(2, Inl unauthorized)]\<rparr>"

lemma busy_service_run:
  "run_events (\<lambda>_. []) demo_service_config
     [Arrive 1 EvidenceRoute (demo_http demo_auth), Arrive 2 EvidenceRoute (demo_http None),
      Admit 1, Arrive 3 SymbolRoute (demo_http demo_auth)] = Some busy_service"
proof -
  have ok: "before_admission EvidenceRoute demo_service_config (demo_http demo_auth) = Inr ()"
    "before_admission SymbolRoute demo_service_config (demo_http demo_auth) = Inr ()"
    "before_admission EvidenceRoute demo_service_config (demo_http None) = Inl unauthorized"
    by code_simp+
  have c: "nat (int_setting (max_concurrent_jobs demo_service_config)) = 1"
    "nat (int_setting (max_concurrent_queries demo_service_config)) = 2"
    by (simp_all add: demo_service_config_def int_setting_def setting_def)
  show ?thesis
    by (simp add: run_events_def service_step_def started_service_def known_def ok reply_to_def take_permit_def
        permits_def drop_request_def busy_service_def c)
qed

lemma busy_service_reached: "service_reaches (\<lambda>_. []) demo_service_config busy_service"
  by (rule run_events_reaches [OF busy_service_run])

theorem admission_bounds_workers_witness:
  "on_pdf (running busy_service) \<le> 1 \<and> service_step (\<lambda>_. []) demo_service_config (Admit 3) busy_service = None"
proof -
  have "on_pdf (running busy_service) \<le> 1"
    using admission_bounds_workers [OF busy_service_reached]
    by (simp add: demo_service_config_def int_setting_def setting_def)
  then show ?thesis by (simp add: service_step_def busy_service_def permits_def)
qed

theorem only_authorized_requests_run_witness:
  "rq_authorization (demo_http demo_auth) = Some (''Bearer '' @ replicate 32 CHR ''t'')"
  using only_authorized_requests_run [OF busy_service_reached demo_service_config_valid, of 3 SymbolRoute "demo_http demo_auth"]
  by (simp add: busy_service_def demo_service_config_def)

definition demo_trace :: trace_context where
  "demo_trace = \<lparr>trace_id = replicate 32 CHR ''a'', parent_id = replicate 16 CHR ''b'', flags = ''01''\<rparr>"

theorem trace_header_roundtrip_witness:
  "parse_trace (Some (trace_header demo_trace)) = Some demo_trace"
proof -
  have "trace_ok demo_trace" by code_simp
  then show ?thesis using trace_header_roundtrip by blast
qed

end
