(* ===== verification/VectorIndex.thy ===== *)
theory VectorIndex
  imports RetrievalPack
begin

section \<open>The vector index\<close>

text \<open>
  \<open>src/dsvire/accelerators.py\<close>, \<open>QdrantIndex\<close>: the payload of a point, the name of a collection, the
  telemetry record, and the calls that indexing, dropping, rebuilding and searching a pack make to the
  index service, in order (\<open>index_call\<close>). The service itself is not modelled: whether a collection
  exists is an answer it gives (\<open>exists\<close>), and a filter means what its conditions say (\<open>matches\<close>). The
  name-based UUID of the standard library is the parameter \<open>uuid5\<close>.
\<close>

datatype index_error = IndexIdentity string

record point_identity =
  pi_project :: string
  pi_renderer :: string
  pi_preprocess :: string
  pi_policy :: string

definition blank :: "string \<Rightarrow> bool" where
  "blank s \<longleftrightarrow> strip s = []"

definition pack_point_payload :: "string \<Rightarrow> pack \<Rightarrow> region \<Rightarrow> point_identity \<Rightarrow>
    index_error + (string \<times> json) list" where
  "pack_point_payload tenant p r i =
     (if blank tenant \<or> blank (pi_project i)
      then Inl (IndexIdentity ''tenant_id and project_id are required'')
      else if list_ex blank [pi_renderer i, pi_preprocess i, pi_policy i, pack_sha256 p, source_sha256 p]
      then Inl (IndexIdentity ''pack, renderer, preprocess, and policy identities are required'')
      else Inr [(''tenant_id'', JStr tenant), (''project_id'', JStr (pi_project i)),
        (''pack_sha256'', JStr (pack_sha256 p)), (''source_sha256'', JStr (source_sha256 p)),
        (''region_id'', JStr (reg_id r)), (''page'', JInt (reg_page r)), (''type'', JStr (reg_type r)),
        (''content_sha256'', JStr (reg_content_sha256 r)), (''renderer_id'', JStr (pi_renderer i)),
        (''dense_model_sha256'', JStr (model_sha256 (dense_model p))),
        (''multi_model_sha256'', JStr (model_sha256 (multi_model p))),
        (''preprocess_id'', JStr (pi_preprocess i)), (''policy_id'', JStr (pi_policy i)),
        (''text_fields'', JObj (map (\<lambda>(k, v). (k, JStr v)) (reg_text_fields r)))])"

subsection \<open>Telemetry\<close>

definition forbidden_words :: "string list" where
  "forbidden_words = [''query'', ''url'', ''text'', ''pdf'', ''mpn'', ''tenant_name'', ''document'']"

definition telemetry_forbidden :: "string \<Rightarrow> bool" where
  "telemetry_forbidden s \<longleftrightarrow> list_ex (\<lambda>w. contains w (lower s)) forbidden_words"

definition counter_item :: "string \<times> json \<Rightarrow> index_error + (string \<times> json)" where
  "counter_item item =
     (if telemetry_forbidden (fst item)
      then Inl (IndexIdentity ''telemetry keys must not contain tenant/source/query contents'')
      else if \<not> is_number (snd item) then Inl (IndexIdentity ''telemetry values must be numeric counters'')
      else Inr item)"

definition index_telemetry :: "string \<Rightarrow> (string \<times> json) list \<Rightarrow> index_error + (string \<times> json) list" where
  "index_telemetry event counts =
     (if telemetry_forbidden event
      then Inl (IndexIdentity ''telemetry event names must not contain document contents'')
      else bindE (mapE counter_item counts) (\<lambda>items.
        Inr (foldl (\<lambda>d (k, v). AList.update k v d) [(''event'', JStr event)] items)))"

subsection \<open>Collections and points\<close>

definition safe_name_char :: "char \<Rightarrow> char" where
  "safe_name_char c = (if ascii_alnum c \<or> c = CHR ''_'' \<or> c = CHR ''-'' then c else CHR ''_'')"

definition collection :: "pack \<Rightarrow> string" where
  "collection p =
     take 200 (map safe_name_char (''dsvire_'' @ take 12 (model_sha256 (dense_model p)) @ ''_'' @
       take 12 (model_sha256 (multi_model p)) @ ''_'' @ int_str (dense_dim p) @ ''_'' @ int_str (multi_dim p)))"

record point =
  point_id :: string
  point_dense :: "rat list"
  point_multi :: "rat list list"
  point_payload :: "(string \<times> json) list"

datatype index_call =
    CreateCollection string int int
  | CreatePayloadIndex string string
  | Upsert string "point list"
  | DeleteWhere string "(string \<times> string) list"
  | SearchDense string "rat list" "(string \<times> string) list" int

definition point_of :: "(string \<Rightarrow> string) \<Rightarrow> string \<Rightarrow> pack \<Rightarrow> point_identity \<Rightarrow> region \<Rightarrow> index_error + point" where
  "point_of uuid5 tenant p i r =
     bindE (pack_point_payload tenant p r i) (\<lambda>payload.
       Inr \<lparr>point_id = uuid5 (tenant @ '':'' @ pack_sha256 p @ '':'' @ reg_id r), point_dense = reg_dense r,
            point_multi = reg_multi r, point_payload = payload\<rparr>)"

definition points :: "(string \<Rightarrow> string) \<Rightarrow> string \<Rightarrow> pack \<Rightarrow> point_identity \<Rightarrow> index_error + point list" where
  "points uuid5 tenant p i = mapE (point_of uuid5 tenant p i) (regions p)"

definition ensure_collection :: "bool \<Rightarrow> pack \<Rightarrow> index_call list" where
  "ensure_collection exists p =
     (if exists then []
      else CreateCollection (collection p) (dense_dim p) (multi_dim p) #
        map (CreatePayloadIndex (collection p)) [''tenant_id'', ''pack_sha256'', ''source_sha256'', ''project_id''])"

text \<open>The slices of the upsert loop.\<close>

function batches :: "nat \<Rightarrow> 'a list \<Rightarrow> 'a list list" where
  "batches n xs = (if n = 0 \<or> xs = [] then [] else take n xs # batches n (drop n xs))"
  by pat_completeness auto
termination
  by (relation "measure (\<lambda>(n, xs). length xs)") (auto simp: length_greater_0_conv)

declare batches.simps [simp del]

text \<open>The calls of \<open>index_pack\<close>, and its result; the collection is made before the points are built.\<close>

definition index_pack :: "(string \<Rightarrow> string) \<Rightarrow> bool \<Rightarrow> string \<Rightarrow> pack \<Rightarrow> point_identity \<Rightarrow>
    index_call list \<times> (index_error + nat)" where
  "index_pack uuid5 exists tenant p i =
     (case points uuid5 tenant p i of
        Inl e \<Rightarrow> (ensure_collection exists p, Inl e)
      | Inr ps \<Rightarrow> (ensure_collection exists p @ map (Upsert (collection p)) (batches 128 ps), Inr (length ps)))"

definition pack_filter :: "string \<Rightarrow> pack \<Rightarrow> (string \<times> string) list" where
  "pack_filter tenant p = [(''tenant_id'', tenant), (''pack_sha256'', pack_sha256 p)]"

definition drop_pack :: "bool \<Rightarrow> string \<Rightarrow> pack \<Rightarrow> index_call list" where
  "drop_pack exists tenant p = (if exists then [DeleteWhere (collection p) (pack_filter tenant p)] else [])"

text \<open>The answers to the two existence queries of \<open>rebuild_pack\<close> are separate.\<close>

definition rebuild_pack :: "(string \<Rightarrow> string) \<Rightarrow> bool \<Rightarrow> bool \<Rightarrow> string \<Rightarrow> pack \<Rightarrow> point_identity \<Rightarrow>
    index_call list \<times> (index_error + nat)" where
  "rebuild_pack uuid5 exists1 exists2 tenant p i =
     (case index_pack uuid5 exists2 tenant p i of (calls, result) \<Rightarrow> (drop_pack exists1 tenant p @ calls, result))"

definition search_dense :: "string \<Rightarrow> pack \<Rightarrow> rat list \<Rightarrow> int \<Rightarrow> index_error + index_call" where
  "search_dense tenant p vector limit =
     (if int (length vector) \<noteq> dense_dim p then Inl (IndexIdentity ''query vector dimension does not match pack'')
      else Inr (SearchDense (collection p) vector (pack_filter tenant p) (min (max limit 1) 100)))"

text \<open>The meaning of a filter: every condition holds of the payload.\<close>

definition matches :: "(string \<times> string) list \<Rightarrow> point \<Rightarrow> bool" where
  "matches conds x \<longleftrightarrow> list_all (\<lambda>(k, v). map_of (point_payload x) k = Some (JStr v)) conds"

subsection \<open>Facts\<close>

lemma concat_batches: "0 < n \<Longrightarrow> concat (batches n xs) = xs"
proof (induction n xs rule: batches.induct)
  case (1 n xs)
  then show ?case by (subst batches.simps) simp
qed

lemma batches_sizes: "b \<in> set (batches n xs) \<Longrightarrow> b \<noteq> [] \<and> length b \<le> n"
proof (induction n xs rule: batches.induct)
  case (1 n xs)
  then show ?case by (subst (asm) (2) batches.simps) (auto split: if_splits)
qed

lemma payload_fields:
  "pack_point_payload tenant p r i = Inr payload \<Longrightarrow>
     map_of payload ''tenant_id'' = Some (JStr tenant) \<and> map_of payload ''pack_sha256'' = Some (JStr (pack_sha256 p)) \<and>
     map_of payload ''region_id'' = Some (JStr (reg_id r)) \<and>
     map_of payload ''content_sha256'' = Some (JStr (reg_content_sha256 r))"
  by (auto simp: pack_point_payload_def split: if_splits)

lemma point_of_matches:
  assumes "point_of uuid5 tenant p i r = Inr x"
  shows "matches (pack_filter tenant' p') x \<longleftrightarrow> tenant' = tenant \<and> pack_sha256 p' = pack_sha256 p"
proof -
  from assms obtain payload where "pack_point_payload tenant p r i = Inr payload" "point_payload x = payload"
    by (auto simp: point_of_def)
  with payload_fields [of tenant p r i payload] show ?thesis
    by (auto simp: matches_def pack_filter_def)
qed

definition quotes :: "region \<Rightarrow> point \<Rightarrow> bool" where
  "quotes r x \<longleftrightarrow> point_dense x = reg_dense r \<and> point_multi x = reg_multi r \<and>
     map_of (point_payload x) ''region_id'' = Some (JStr (reg_id r)) \<and>
     map_of (point_payload x) ''content_sha256'' = Some (JStr (reg_content_sha256 r))"

lemma point_of_quotes: "point_of uuid5 tenant p i r = Inr x \<Longrightarrow> quotes r x"
  using payload_fields [of tenant p r i] by (auto simp: point_of_def quotes_def)

definition upserted :: "index_call list \<Rightarrow> point list" where
  "upserted calls = concat (map (\<lambda>c. case c of Upsert _ ps \<Rightarrow> ps | _ \<Rightarrow> []) calls)"

lemma upserted_index_pack:
  "points uuid5 tenant p i = Inr ps \<Longrightarrow> upserted (fst (index_pack uuid5 exists tenant p i)) = ps"
  by (simp add: index_pack_def upserted_def ensure_collection_def comp_def concat_batches)

subsection \<open>Properties\<close>

text \<open>
  Indexing covers the pack: when \<open>rebuild_pack\<close> succeeds, the points it upserts are, in order, one per
  region of the pack with its vectors and content hash, in batches of at most 128, and the count is the
  number of regions; the filter with which it first deletes, and with which searches are confined,
  matches exactly the points of the same tenant and pack.
\<close>

theorem rebuild_indexes_pack:
  assumes "rebuild_pack uuid5 exists1 exists2 tenant p i = (calls, Inr n)"
  shows "n = length (regions p) \<and> length (upserted calls) = n \<and>
    list_all2 (\<lambda>r x. quotes r x \<and> (\<forall>tenant' p'. matches (pack_filter tenant' p') x \<longleftrightarrow>
        tenant' = tenant \<and> pack_sha256 p' = pack_sha256 p)) (regions p) (upserted calls) \<and>
    (\<forall>name ps. Upsert name ps \<in> set calls \<longrightarrow> name = collection p \<and> length ps \<le> 128) \<and>
    (\<forall>name conds. DeleteWhere name conds \<in> set calls \<longrightarrow> name = collection p \<and> conds = pack_filter tenant p)"
proof -
  from assms obtain ps where ps: "points uuid5 tenant p i = Inr ps" "n = length ps"
    and calls: "calls = drop_pack exists1 tenant p @ fst (index_pack uuid5 exists2 tenant p i)"
    by (auto simp: rebuild_pack_def index_pack_def split: sum.splits)
  have "upserted (drop_pack exists1 tenant p) = []" by (simp add: drop_pack_def upserted_def)
  then have up: "upserted calls = ps"
    unfolding calls using upserted_index_pack [OF ps(1)] by (simp add: upserted_def)
  have all: "list_all2 (\<lambda>r x. point_of uuid5 tenant p i r = Inr x) (regions p) ps"
    using ps(1) by (simp add: points_def mapE_eq_Inr)
  then have "list_all2 (\<lambda>r x. quotes r x \<and> (\<forall>tenant' p'. matches (pack_filter tenant' p') x \<longleftrightarrow>
      tenant' = tenant \<and> pack_sha256 p' = pack_sha256 p)) (regions p) ps"
    by (rule list_all2_mono) (use point_of_quotes point_of_matches in blast)
  moreover have "Upsert name qs \<in> set calls \<longrightarrow> name = collection p \<and> length qs \<le> 128" for name qs
    using ps(1) batches_sizes [of qs 128 ps]
    by (auto simp: calls drop_pack_def index_pack_def ensure_collection_def)
  moreover have "DeleteWhere name conds \<in> set calls \<longrightarrow> name = collection p \<and> conds = pack_filter tenant p" for name conds
    by (auto simp: calls drop_pack_def index_pack_def ensure_collection_def split: sum.splits)
  ultimately show ?thesis using up ps(2) list_all2_lengthD [OF all] by auto
qed

definition demo_identity :: point_identity where
  "demo_identity = \<lparr>pi_project = ''p'', pi_renderer = ''pdfium'', pi_preprocess = ''v1'', pi_policy = ''unpublished''\<rparr>"

definition demo_calls :: "index_call list \<times> (index_error + nat)" where
  "demo_calls = rebuild_pack (\<lambda>s. s) True True ''T'' demo_pack demo_identity"

lemma demo_calls_ok: "snd demo_calls = Inr 1"
  by code_simp

theorem rebuild_indexes_pack_witness: "length (upserted (fst demo_calls)) = 1"
proof -
  have "rebuild_pack (\<lambda>s. s) True True ''T'' demo_pack demo_identity = (fst demo_calls, Inr 1)"
    using demo_calls_ok by (metis demo_calls_def prod.collapse)
  from rebuild_indexes_pack [OF this] show ?thesis by simp
qed

text \<open>
  A collection does not bind the exact models: only the first twelve digits of each model digest are in
  its name, so packs of different models can share a collection.
\<close>

theorem collection_truncates_models:
  assumes "take 12 (model_sha256 (dense_model p)) = take 12 (model_sha256 (dense_model q))"
    and "take 12 (model_sha256 (multi_model p)) = take 12 (model_sha256 (multi_model q))"
    and "dense_dim p = dense_dim q" and "multi_dim p = multi_dim q"
  shows "collection p = collection q"
  using assms by (simp add: collection_def)

theorem collection_truncates_models_witness:
  "collection demo_pack = collection (demo_pack\<lparr>dense_model := \<lparr>model_id = ''m'',
     model_sha256 = replicate 12 CHR ''d'' @ replicate 52 CHR ''e''\<rparr>\<rparr>)"
  by (rule collection_truncates_models) (simp_all add: demo_pack_def demo_model_def)

text \<open>
  Telemetry carries no document contents: every key of an accepted record, its event name included, is
  free of the forbidden words, and every value but the event name is a number.
\<close>

theorem telemetry_is_numeric:
  assumes "index_telemetry event counts = Inr d" and "(k, v) \<in> set d"
  shows "\<not> telemetry_forbidden k \<and> (is_number v \<or> k = ''event'' \<and> v = JStr event \<and> \<not> telemetry_forbidden event)"
proof -
  from assms(1) obtain items where items: "mapE counter_item counts = Inr items"
    and d: "d = foldl (\<lambda>d (k, v). AList.update k v d) [(''event'', JStr event)] items" "\<not> telemetry_forbidden event"
    by (auto simp: index_telemetry_def split: if_splits)
  have good: "\<not> telemetry_forbidden (fst x) \<and> is_number (snd x)" if "x \<in> set items" for x
    using mapE_in_set [OF items that] by (auto simp: counter_item_def split: if_splits)
  have upd: "(k, v) \<in> set (AList.update k' v' e) \<Longrightarrow> (k, v) = (k', v') \<or> (k, v) \<in> set e" for k v k' v' e
    by (induction e) (auto split: if_splits)
  have "(k, v) \<in> set (foldl (\<lambda>d (k, v). AList.update k v d) e items) \<Longrightarrow>
      (\<And>x. x \<in> set items \<Longrightarrow> \<not> telemetry_forbidden (fst x) \<and> is_number (snd x)) \<Longrightarrow>
      (k, v) \<in> set e \<or> \<not> telemetry_forbidden k \<and> is_number v" for e
  proof (induction items arbitrary: e)
    case (Cons x items)
    obtain k' v' where x: "x = (k', v')" by (cases x)
    from Cons.IH [of "AList.update k' v' e"] Cons.prems x have
      "(k, v) \<in> set (AList.update k' v' e) \<or> \<not> telemetry_forbidden k \<and> is_number v" by auto
    with upd [of k v k' v' e] Cons.prems(2) [of x] x show ?case by auto
  qed simp
  from this [of "[(''event'', JStr event)]"] assms(2) d good have
    "(k, v) = (''event'', JStr event) \<or> \<not> telemetry_forbidden k \<and> is_number v" by auto
  moreover have "\<not> telemetry_forbidden ''event''" by code_simp
  ultimately show ?thesis using d(2) by auto
qed

theorem telemetry_is_numeric_witness:
  "\<not> telemetry_forbidden ''hits'' \<and> (is_number (JInt 3) \<or> ''hits'' = ''event'')"
proof -
  have "index_telemetry ''rebuild'' [(''hits'', JInt 3)] = Inr [(''event'', JStr ''rebuild''), (''hits'', JInt 3)]"
    by code_simp
  from telemetry_is_numeric [OF this, of "''hits''" "JInt 3"] show ?thesis by simp
qed

end
