(* ===== verification/VisualMetrics.thy ===== *)
theory VisualMetrics
  imports Contracts Ranking
begin

section \<open>Calibration and held-out metrics\<close>

text \<open>
  \<open>src/dsvire/visual_metrics.py\<close>: predictions, the frozen policy, and its evaluation. \<open>sha\<close> is SHA-256,
  \<open>frepr\<close> the decimal form of a float, \<open>float_sum\<close> the built-in sum of floats (its rounding depends on
  the version of the interpreter) and \<open>square\<close> the C library's \<open>pow(x, 2)\<close>.
\<close>

datatype metric_error = MetricError string | MetricEscape string

definition allowed_splits :: "string list" where
  "allowed_splits = [''development'', ''calibration'', ''evaluation'']"

definition positive :: string where "positive = ''positive''"
definition wrong_visual_labels :: "string list" where "wrong_visual_labels = [''wrong_figure'', ''wrong_view'']"
definition wrong_identity_labels :: "string list" where "wrong_identity_labels = [''wrong_package'', ''wrong_variant'']"

definition allowed_labels :: "string list" where
  "allowed_labels = positive # wrong_visual_labels @ wrong_identity_labels"

definition metric_text :: "string \<Rightarrow> json \<Rightarrow> metric_error + string" where
  "metric_text = nonempty_text MetricError"

record prediction =
  pr_case :: string
  pr_group :: string
  pr_split :: string
  pr_label :: string
  pr_score :: rat

definition unit_score :: "string \<Rightarrow> json \<Rightarrow> metric_error + rat" where
  "unit_score context v = (case check_number v of
     Overflows \<Rightarrow> Inl (MetricEscape ''OverflowError'')
   | Finite r \<Rightarrow> if 0 \<le> r \<and> r \<le> 1 then Inr r else Inl (MetricError (context @ ''.score must be finite within 0..=1''))
   | NotFinite \<Rightarrow> Inl (MetricError (context @ ''.score must be finite within 0..=1'')))"

definition unsupported :: "string \<Rightarrow> string \<Rightarrow> string" where
  "unsupported context s = context @ '' is unsupported: '' @ repr_str s"

definition parse_prediction :: "string \<Rightarrow> json \<Rightarrow> metric_error + prediction" where
  "parse_prediction context v = (case v of
     JObj d \<Rightarrow>
       bindE (strict_keys MetricError context [''case_id'', ''document_group'', ''split'', ''label'', ''score''] d) (\<lambda>_.
       bindE (metric_text (context @ ''.split'') (field d ''split'')) (\<lambda>split.
       bindE (ensure (split \<in> set allowed_splits) (MetricError (unsupported (context @ ''.split'') split))) (\<lambda>_.
       bindE (metric_text (context @ ''.label'') (field d ''label'')) (\<lambda>label.
       bindE (ensure (label \<in> set allowed_labels) (MetricError (unsupported (context @ ''.label'') label))) (\<lambda>_.
       bindE (unit_score context (field d ''score'')) (\<lambda>score.
       bindE (metric_text (context @ ''.case_id'') (field d ''case_id'')) (\<lambda>case_id.
       bindE (metric_text (context @ ''.document_group'') (field d ''document_group'')) (\<lambda>document_group.
         Inr \<lparr>pr_case = case_id, pr_group = document_group, pr_split = split, pr_label = label, pr_score = score\<rparr>))))))))
   | _ \<Rightarrow> Inl (MetricError (context @ '' must be an object'')))"

subsection \<open>The policy\<close>

record frozen_policy =
  policy_model :: string
  policy_model_sha256 :: string
  preprocessing_id :: string
  dataset_sha256 :: string
  score_semantics :: string
  calibration_id :: "string option"
  threshold :: rat
  maximum_wrong_visual_rate :: rat
  minimum_positive_coverage :: rat
  require_zero_wrong_identity :: bool

definition float_json :: "rat \<Rightarrow> json" where
  "float_json r = JFloat (Flt r)"

definition opt_str :: "string option \<Rightarrow> json" where
  "opt_str v = (case v of None \<Rightarrow> JNull | Some s \<Rightarrow> JStr s)"

definition policy_dict :: "frozen_policy \<Rightarrow> json" where
  "policy_dict p = JObj [(''schema_version'', JStr ''dsvire.egvv-policy.v1''), (''model_id'', JStr (policy_model p)),
     (''model_sha256'', JStr (policy_model_sha256 p)), (''preprocessing_id'', JStr (preprocessing_id p)),
     (''dataset_sha256'', JStr (dataset_sha256 p)), (''metric_version'', JStr ''dsvire.selective-metrics@1.0.0''),
     (''score_semantics'', JStr (score_semantics p)), (''calibration_id'', opt_str (calibration_id p)),
     (''accept_when'', JStr ''score_gt_threshold''), (''threshold'', float_json (threshold p)),
     (''maximum_wrong_visual_rate'', float_json (maximum_wrong_visual_rate p)),
     (''minimum_positive_coverage'', float_json (minimum_positive_coverage p)),
     (''require_zero_wrong_identity'', JBool (require_zero_wrong_identity p))]"

definition policy_sha256 :: "(bytes \<Rightarrow> string) \<Rightarrow> (pyfloat \<Rightarrow> string) \<Rightarrow> frozen_policy \<Rightarrow> string" where
  "policy_sha256 sha frepr p = canonical_sha sha frepr (policy_dict p)"

text \<open>One iteration of the validation loop: the identifiers so far and the split of each group.\<close>

definition check_prediction :: "string set \<times> (string \<times> string) list \<Rightarrow> prediction \<Rightarrow>
    metric_error + (string set \<times> (string \<times> string) list)" where
  "check_prediction state p = (case state of (ids, groups) \<Rightarrow>
     if pr_case p \<in> ids then Inl (MetricError (''duplicate prediction case_id: '' @ pr_case p))
     else (case setdefault groups (pr_group p) (pr_split p) of (previous, groups') \<Rightarrow>
       if previous \<noteq> pr_split p
       then Inl (MetricError (''document group '' @ repr_str (pr_group p) @ '' leaks across splits''))
       else Inr (insert (pr_case p) ids, groups')))"

definition validated_predictions :: "prediction list \<Rightarrow> metric_error + prediction list" where
  "validated_predictions ps =
     (if ps = [] then Inl (MetricError ''predictions must not be empty'')
      else bindE (foldE check_prediction ({}, []) ps) (\<lambda>_. Inr ps))"

definition accepted :: "rat \<Rightarrow> prediction \<Rightarrow> bool" where
  "accepted t p \<longleftrightarrow> t < pr_score p"

record selective =
  sel_cases :: nat
  sel_accepted :: nat
  sel_positives :: nat
  sel_accepted_positives :: nat
  sel_positive_coverage :: rat
  sel_wrong_visual :: nat
  sel_wrong_identity :: nat
  sel_wrong_visual_rate :: rat

definition count_where :: "('a \<Rightarrow> bool) \<Rightarrow> 'a list \<Rightarrow> nat" where
  "count_where p xs = length (filter p xs)"

definition ratio :: "nat \<Rightarrow> nat \<Rightarrow> rat" where
  "ratio a b = (if b = 0 then 0 else fdiv (of_nat a) (of_nat b))"

definition selective_counts :: "rat \<Rightarrow> prediction list \<Rightarrow> selective" where
  "selective_counts t values =
     (let acc = filter (accepted t) values;
          positives = count_where (\<lambda>p. pr_label p = positive) values;
          accepted_positive = count_where (\<lambda>p. pr_label p = positive) acc;
          wrong_visual = count_where (\<lambda>p. pr_label p \<in> set wrong_visual_labels) acc
      in \<lparr>sel_cases = length values, sel_accepted = length acc, sel_positives = positives,
          sel_accepted_positives = accepted_positive, sel_positive_coverage = ratio accepted_positive positives,
          sel_wrong_visual = wrong_visual,
          sel_wrong_identity = count_where (\<lambda>p. pr_label p \<in> set wrong_identity_labels) acc,
          sel_wrong_visual_rate = ratio wrong_visual (length acc)\<rparr>)"

definition feasible :: "rat \<Rightarrow> selective \<Rightarrow> bool" where
  "feasible maximum c \<longleftrightarrow> sel_wrong_identity c = 0 \<and> sel_wrong_visual_rate c \<le> maximum"

definition threshold_candidates :: "prediction list \<Rightarrow> rat list" where
  "threshold_candidates values = sort (remdups (1 # map pr_score values))"

definition threshold_key :: "rat \<times> selective \<Rightarrow> nat \<times> rat" where
  "threshold_key item = (sel_accepted_positives (snd item), fst item)"

definition feasible_thresholds :: "rat \<Rightarrow> prediction list \<Rightarrow> (rat \<times> selective) list" where
  "feasible_thresholds maximum values =
     filter (\<lambda>item. feasible maximum (snd item)) (map (\<lambda>t. (t, selective_counts t values)) (threshold_candidates values))"

definition choose_threshold :: "rat \<Rightarrow> prediction list \<Rightarrow> metric_error + (rat \<times> selective)" where
  "choose_threshold maximum values =
     (case feasible_thresholds maximum values of
        [] \<Rightarrow> Inl (MetricEscape ''ValueError'')
      | items \<Rightarrow> Inr (max_by threshold_key items))"

record policy_request =
  rq_model :: string
  rq_model_sha256 :: string
  rq_preprocessing :: string
  rq_dataset_sha256 :: string
  rq_semantics :: string
  rq_calibration :: "string option"
  rq_maximum_rate :: rat
  rq_minimum_coverage :: rat

definition allowed_semantics :: "string list" where
  "allowed_semantics = [''calibrated_probability'', ''similarity'']"

definition request_checks :: "policy_request \<Rightarrow> metric_error + unit" where
  "request_checks r =
     (if \<not> is_hex 64 (rq_model_sha256 r) then Inl (MetricError ''model_sha256 must be lowercase SHA-256'')
      else if \<not> is_hex 64 (rq_dataset_sha256 r) then Inl (MetricError ''dataset_sha256 must be lowercase SHA-256'')
      else if \<not> (0 \<le> rq_maximum_rate r \<and> rq_maximum_rate r \<le> 1)
      then Inl (MetricError ''maximum_wrong_visual_rate must be within 0..=1'')
      else if \<not> (0 \<le> rq_minimum_coverage r \<and> rq_minimum_coverage r \<le> 1)
      then Inl (MetricError ''minimum_positive_coverage must be within 0..=1'')
      else if rq_semantics r \<notin> set allowed_semantics
      then Inl (MetricError (''score_semantics must be one of '' @ repr_strs allowed_semantics))
      else Inr ())"

definition calibration_of :: "policy_request \<Rightarrow> metric_error + string option" where
  "calibration_of r =
     (if rq_semantics r = ''calibrated_probability''
      then bindE (metric_text ''calibration_id'' (opt_str (rq_calibration r))) (\<lambda>s. Inr (Some s))
      else if rq_calibration r \<noteq> None
      then Inl (MetricError ''similarity scores cannot name a probability calibration'')
      else Inr None)"

definition freeze_policy :: "policy_request \<Rightarrow> prediction list \<Rightarrow> metric_error + (frozen_policy \<times> selective)" where
  "freeze_policy r ps =
     bindE (validated_predictions ps) (\<lambda>values.
     let calibration = filter (\<lambda>p. pr_split p = ''calibration'') values
     in if calibration = [] then Inl (MetricError ''calibration split is empty'')
        else if \<not> list_ex (\<lambda>p. pr_label p = positive) calibration
        then Inl (MetricError ''calibration split has no positive cases'')
        else
        bindE (request_checks r) (\<lambda>_.
        bindE (choose_threshold (rq_maximum_rate r) calibration) (\<lambda>(t, counts).
        bindE (calibration_of r) (\<lambda>cal.
        bindE (metric_text ''model_id'' (JStr (rq_model r))) (\<lambda>model.
        bindE (metric_text ''preprocessing_id'' (JStr (rq_preprocessing r))) (\<lambda>prep.
          Inr (\<lparr>policy_model = model, policy_model_sha256 = rq_model_sha256 r, preprocessing_id = prep,
                 dataset_sha256 = rq_dataset_sha256 r, score_semantics = rq_semantics r, calibration_id = cal,
                 threshold = t, maximum_wrong_visual_rate = rq_maximum_rate r,
                 minimum_positive_coverage = rq_minimum_coverage r, require_zero_wrong_identity = True\<rparr>, counts)))))))"

subsection \<open>Scores\<close>

definition score_key :: "prediction \<Rightarrow> rat \<times> string" where
  "score_key p = (- pr_score p, pr_case p)"

definition order_predictions :: "prediction list \<Rightarrow> prediction list" where
  "order_predictions ps = sort_key score_key ps"

text \<open>The loop that sums the selective risk over the coverage levels.\<close>

fun risk_sum :: "nat \<Rightarrow> nat \<Rightarrow> rat \<Rightarrow> prediction list \<Rightarrow> rat" where
  "risk_sum rank wrong total_risk [] = total_risk"
| "risk_sum rank wrong total_risk (p # ps) =
     (let wrong' = wrong + (if pr_label p \<noteq> positive then 1 else 0)
      in risk_sum (rank + 1) wrong' (fadd total_risk (fdiv (of_nat wrong') (of_nat rank))) ps)"

definition aurc :: "prediction list \<Rightarrow> rat" where
  "aurc ps = fdiv (risk_sum 1 0 0 (order_predictions ps)) (of_nat (length ps))"

definition target :: "prediction \<Rightarrow> rat" where
  "target p = (if pr_label p = positive then 1 else 0)"

definition brier :: "(rat list \<Rightarrow> rat) \<Rightarrow> (rat \<Rightarrow> rat) \<Rightarrow> prediction list \<Rightarrow> rat" where
  "brier float_sum square ps =
     fdiv (float_sum (map (\<lambda>p. square (fsub (pr_score p) (target p))) ps)) (of_nat (length ps))"

definition bucket :: "nat \<Rightarrow> prediction list \<Rightarrow> prediction list" where
  "bucket index ps = filter (\<lambda>p. fdiv (of_nat index) 10 \<le> pr_score p \<and> pr_score p < fdiv (of_nat (index + 1)) 10
     \<or> index = 9 \<and> pr_score p = 1) ps"

definition ece_step :: "(rat list \<Rightarrow> rat) \<Rightarrow> prediction list \<Rightarrow> rat \<Rightarrow> nat \<Rightarrow> rat" where
  "ece_step float_sum ps ece index =
     (let b = bucket index ps
      in if b = [] then ece
         else let confidence = fdiv (float_sum (map pr_score b)) (of_nat (length b));
                  accuracy = fdiv (float_sum (map target b)) (of_nat (length b))
              in fadd ece (fmul (fdiv (of_nat (length b)) (of_nat (length ps))) \<bar>fsub accuracy confidence\<bar>))"

definition ece :: "(rat list \<Rightarrow> rat) \<Rightarrow> prediction list \<Rightarrow> rat" where
  "ece float_sum ps = foldl (ece_step float_sum ps) 0 [0..<10]"

definition score_metrics :: "(rat list \<Rightarrow> rat) \<Rightarrow> (rat \<Rightarrow> rat) \<Rightarrow> prediction list \<Rightarrow> string \<Rightarrow> (string \<times> json) list" where
  "score_metrics float_sum square ps semantics =
     (''aurc'', float_json (aurc ps)) #
     (if semantics = ''calibrated_probability''
      then [(''brier'', float_json (brier float_sum square ps)), (''ece_10_bin'', float_json (ece float_sum ps))] else [])"

definition counts_dict :: "selective \<Rightarrow> (string \<times> json) list" where
  "counts_dict c = [(''cases'', JInt (int (sel_cases c))), (''accepted'', JInt (int (sel_accepted c))),
     (''positives'', JInt (int (sel_positives c))), (''accepted_positives'', JInt (int (sel_accepted_positives c))),
     (''positive_coverage'', float_json (sel_positive_coverage c)),
     (''wrong_visual_accepted'', JInt (int (sel_wrong_visual c))),
     (''wrong_identity_accepted'', JInt (int (sel_wrong_identity c))),
     (''wrong_visual_rate'', float_json (sel_wrong_visual_rate c))]"

definition gate_passed :: "frozen_policy \<Rightarrow> selective \<Rightarrow> bool" where
  "gate_passed p c \<longleftrightarrow> sel_wrong_identity c = 0 \<and> sel_wrong_visual_rate c \<le> maximum_wrong_visual_rate p \<and>
     minimum_positive_coverage p \<le> sel_positive_coverage c"

definition evaluate_policy :: "(bytes \<Rightarrow> string) \<Rightarrow> (pyfloat \<Rightarrow> string) \<Rightarrow> (rat list \<Rightarrow> rat) \<Rightarrow> (rat \<Rightarrow> rat) \<Rightarrow>
    prediction list \<Rightarrow> frozen_policy \<Rightarrow> metric_error + (string \<times> json) list" where
  "evaluate_policy sha frepr float_sum square ps p =
     bindE (validated_predictions ps) (\<lambda>values.
     let evaluation = filter (\<lambda>x. pr_split x = ''evaluation'') values
     in if evaluation = [] then Inl (MetricError ''evaluation split is empty'')
        else let counts = selective_counts (threshold p) evaluation
          in Inr [(''schema_version'', JStr ''dsvire.visual-verifier-eval.v1''),
            (''metric_version'', JStr ''dsvire.selective-metrics@1.0.0''), (''policy'', policy_dict p),
            (''policy_sha256'', JStr (policy_sha256 sha frepr p)), (''gate_passed'', JBool (gate_passed p counts)),
            (''metrics'', JObj (counts_dict counts @ score_metrics float_sum square evaluation (score_semantics p)))])"

interpretation score_order: ranking order_predictions score_key
  by unfold_locales (simp_all add: order_predictions_def)

subsection \<open>Facts\<close>

definition groups_agree :: "prediction list \<Rightarrow> bool" where
  "groups_agree ps \<longleftrightarrow> (\<forall>p \<in> set ps. \<forall>q \<in> set ps. pr_group p = pr_group q \<longrightarrow> pr_split p = pr_split q)"

lemma ball_insert_sym:
  assumes "\<And>a. R a a" and "\<And>a b. R a b \<Longrightarrow> R b a"
  shows "(\<forall>a \<in> insert p S. \<forall>b \<in> insert p S. R a b) \<longleftrightarrow> (\<forall>a \<in> S. \<forall>b \<in> S. R a b) \<and> (\<forall>q \<in> S. R q p)"
  using assms by blast

lemma groups_agree_Cons:
  "groups_agree (p # ps) \<longleftrightarrow> groups_agree ps \<and> (\<forall>q \<in> set ps. pr_group q = pr_group p \<longrightarrow> pr_split q = pr_split p)"
  unfolding groups_agree_def list.set
  by (rule ball_insert_sym) auto

lemma check_predictions_iff:
  "(\<exists>st. foldE check_prediction (ids, groups) ps = Inr st) \<longleftrightarrow>
     distinct (map pr_case ps) \<and> pr_case ` set ps \<inter> ids = {} \<and> groups_agree ps \<and>
     (\<forall>p \<in> set ps. \<forall>s. map_of groups (pr_group p) = Some s \<longrightarrow> s = pr_split p)"
proof (induction ps arbitrary: ids groups)
  case Nil
  show ?case by (simp add: groups_agree_def)
next
  case (Cons p ps)
  show ?case
  proof (cases "pr_case p \<in> ids \<or> fst (setdefault groups (pr_group p) (pr_split p)) \<noteq> pr_split p")
    case True
    then have "\<not> (\<exists>st. foldE check_prediction (ids, groups) (p # ps) = Inr st)"
      by (auto simp: check_prediction_def split: prod.splits)
    moreover have "\<not> (pr_case ` set (p # ps) \<inter> ids = {} \<and>
        (\<forall>q \<in> set (p # ps). \<forall>s. map_of groups (pr_group q) = Some s \<longrightarrow> s = pr_split q))"
      using True by (auto simp: setdefault_fst split: option.splits)
    ultimately show ?thesis by blast
  next
    case False
    let ?groups = "snd (setdefault groups (pr_group p) (pr_split p))"
    obtain prev groups' where sd: "setdefault groups (pr_group p) (pr_split p) = (prev, groups')" by fastforce
    with False have "prev = pr_split p" and fresh: "pr_case p \<notin> ids" by simp_all
    with sd have step: "foldE check_prediction (ids, groups) (p # ps) =
        foldE check_prediction (insert (pr_case p) ids, ?groups) ps"
      by (simp add: check_prediction_def)
    have old: "map_of groups (pr_group p) = None \<or> map_of groups (pr_group p) = Some (pr_split p)"
      using False by (auto simp: setdefault_fst split: option.splits)
    have "(\<forall>q \<in> set ps. \<forall>s. map_of ?groups (pr_group q) = Some s \<longrightarrow> s = pr_split q) \<longleftrightarrow>
        (\<forall>q \<in> set ps. \<forall>s. map_of groups (pr_group q) = Some s \<longrightarrow> s = pr_split q) \<and>
        (\<forall>q \<in> set ps. pr_group q = pr_group p \<longrightarrow> pr_split q = pr_split p)"
      using old by (auto simp: setdefault_lookup)
    then have rest: "(\<forall>q \<in> set ps. \<forall>s. map_of ?groups (pr_group q) = Some s \<longrightarrow> s = pr_split q) \<longleftrightarrow>
        (\<forall>q \<in> set (p # ps). \<forall>s. map_of groups (pr_group q) = Some s \<longrightarrow> s = pr_split q) \<and>
        (\<forall>q \<in> set ps. pr_group q = pr_group p \<longrightarrow> pr_split q = pr_split p)"
      using old by auto
    have ids: "distinct (map pr_case ps) \<and> pr_case ` set ps \<inter> insert (pr_case p) ids = {} \<longleftrightarrow>
        distinct (map pr_case (p # ps)) \<and> pr_case ` set (p # ps) \<inter> ids = {}"
      using fresh by auto
    show ?thesis unfolding step Cons.IH rest groups_agree_Cons using ids by blast
  qed
qed

lemma validated_iff:
  "validated_predictions ps = Inr qs \<longleftrightarrow> qs = ps \<and> ps \<noteq> [] \<and> distinct (map pr_case ps) \<and> groups_agree ps"
proof -
  have "(\<exists>st. foldE check_prediction ({}, []) ps = Inr st) \<longleftrightarrow> distinct (map pr_case ps) \<and> groups_agree ps"
    unfolding check_predictions_iff by simp
  then show ?thesis by (auto simp: validated_predictions_def)
qed

lemma count_where_mset: "mset xs = mset ys \<Longrightarrow> count_where p xs = count_where p ys"
  unfolding count_where_def by (metis mset_filter size_mset)

lemma selective_counts_mset: "mset xs = mset ys \<Longrightarrow> selective_counts t xs = selective_counts t ys"
proof -
  assume m: "mset xs = mset ys"
  then have f: "mset (filter (accepted t) xs) = mset (filter (accepted t) ys)" by simp
  show ?thesis
    using count_where_mset [OF m] count_where_mset [OF f] mset_eq_length [OF m] mset_eq_length [OF f]
    by (simp add: selective_counts_def Let_def)
qed

lemma candidates_mset: "mset xs = mset ys \<Longrightarrow> threshold_candidates xs = threshold_candidates ys"
  unfolding threshold_candidates_def
  by (intro sorted_list_unique) (auto dest: mset_eq_setD)

lemma choose_threshold_mset: "mset xs = mset ys \<Longrightarrow> choose_threshold m xs = choose_threshold m ys"
  by (simp add: choose_threshold_def feasible_thresholds_def selective_counts_mset [of xs ys] candidates_mset [of xs ys])

lemma choose_threshold_best:
  assumes "choose_threshold m values = Inr (t, c)"
  shows "t \<in> set (threshold_candidates values)" "c = selective_counts t values" "feasible m c"
    and "\<And>u. u \<in> set (threshold_candidates values) \<Longrightarrow> feasible m (selective_counts u values) \<Longrightarrow>
      (sel_accepted_positives (selective_counts u values), u) \<le> (sel_accepted_positives c, t)"
proof -
  from assms have ne: "feasible_thresholds m values \<noteq> []" and tc: "max_by threshold_key (feasible_thresholds m values) = (t, c)"
    by (auto simp: choose_threshold_def split: list.splits)
  from max_by_in [OF ne, of threshold_key] tc have i: "(t, c) \<in> set (feasible_thresholds m values)"
    and mx: "\<forall>x \<in> set (feasible_thresholds m values). threshold_key x \<le> threshold_key (t, c)" by simp_all
  from i show "t \<in> set (threshold_candidates values)" "c = selective_counts t values" "feasible m c"
    by (auto simp: feasible_thresholds_def)
  fix u
  assume "u \<in> set (threshold_candidates values)" "feasible m (selective_counts u values)"
  then have "(u, selective_counts u values) \<in> set (feasible_thresholds m values)" by (auto simp: feasible_thresholds_def)
  with mx have "threshold_key (u, selective_counts u values) \<le> threshold_key (t, c)" by blast
  then show "(sel_accepted_positives (selective_counts u values), u) \<le> (sel_accepted_positives c, t)"
    by (simp add: threshold_key_def)
qed

text \<open>Every threshold from the least score on accepts the same cases as one of the candidates.\<close>

lemma candidate_cut:
  assumes "\<exists>p \<in> set values. pr_score p \<le> t"
  shows "\<exists>u \<in> set (threshold_candidates values). u \<le> t \<and> selective_counts u values = selective_counts t values"
proof -
  let ?S = "{pr_score p |p. p \<in> set values \<and> pr_score p \<le> t}"
  have fin: "finite ?S" and ne: "?S \<noteq> {}" using assms by auto
  let ?u = "Max ?S"
  have u: "?u \<in> ?S" using fin ne by (rule Max_in)
  have "accepted t p \<longleftrightarrow> accepted ?u p" if "p \<in> set values" for p
  proof
    assume "accepted t p"
    with u show "accepted ?u p" by (auto simp: accepted_def)
  next
    assume a: "accepted ?u p"
    show "accepted t p"
    proof (rule ccontr)
      assume "\<not> accepted t p"
      with that have "pr_score p \<in> ?S" by (auto simp: accepted_def)
      with fin have "pr_score p \<le> ?u" by (rule Max_ge)
      with a show False by (simp add: accepted_def)
    qed
  qed
  then have "filter (accepted t) values = filter (accepted ?u) values" by (intro filter_cong) simp_all
  then have "selective_counts ?u values = selective_counts t values" by (simp add: selective_counts_def)
  moreover have "?u \<in> set (threshold_candidates values)" "?u \<le> t" using u by (auto simp: threshold_candidates_def)
  ultimately show ?thesis by blast
qed

definition calibration_cases :: "prediction list \<Rightarrow> prediction list" where
  "calibration_cases ps = filter (\<lambda>p. pr_split p = ''calibration'') ps"

lemma freeze_policy_parts:
  assumes "freeze_policy r ps = Inr (policy, counts)"
  obtains cal where "validated_predictions ps = Inr ps" and "calibration_cases ps \<noteq> []"
    and "request_checks r = Inr ()" and "choose_threshold (rq_maximum_rate r) (calibration_cases ps) = Inr (threshold policy, counts)"
    and "calibration_of r = Inr cal" and "maximum_wrong_visual_rate policy = rq_maximum_rate r"
    and "score_semantics policy = rq_semantics r" and "calibration_id policy = cal"
  using assms by (auto simp: freeze_policy_def validated_iff calibration_cases_def Let_def split: if_splits)

subsection \<open>An example\<close>

definition sample_request :: "rat \<Rightarrow> policy_request" where
  "sample_request rate = \<lparr>rq_model = ''m'', rq_model_sha256 = replicate 64 CHR ''a'', rq_preprocessing = ''p'',
     rq_dataset_sha256 = replicate 64 CHR ''b'', rq_semantics = ''similarity'', rq_calibration = None,
     rq_maximum_rate = rate, rq_minimum_coverage = 1 / 2\<rparr>"

definition sample_prediction :: "string \<Rightarrow> string \<Rightarrow> rat \<Rightarrow> prediction" where
  "sample_prediction i label score = \<lparr>pr_case = i, pr_group = i, pr_split = ''calibration'', pr_label = label, pr_score = score\<rparr>"

definition sample_policy :: "rat \<Rightarrow> frozen_policy" where
  "sample_policy t = \<lparr>policy_model = ''m'', policy_model_sha256 = replicate 64 CHR ''a'', preprocessing_id = ''p'',
     dataset_sha256 = replicate 64 CHR ''b'', score_semantics = ''similarity'', calibration_id = None,
     threshold = t, maximum_wrong_visual_rate = 0, minimum_positive_coverage = 1 / 2, require_zero_wrong_identity = True\<rparr>"

definition sample_predictions :: "prediction list" where
  "sample_predictions = [sample_prediction ''a'' ''positive'' (3 / 4), sample_prediction ''b'' ''wrong_view'' (1 / 2)]"

lemma sample_threshold: "choose_threshold 0 sample_predictions = Inr (1 / 2, selective_counts (1 / 2) sample_predictions)"
  by code_simp

lemma sample_frozen:
  "freeze_policy (sample_request 0) sample_predictions = Inr (sample_policy (1 / 2), selective_counts (1 / 2) sample_predictions)"
  by code_simp

text \<open>
  The comment of the search says that it maximises the accepted positives. The thresholds it tries are the
  observed scores and 1, and acceptance is strict, so it never tries one below the least score: with a single
  case, a positive one, it freezes the threshold that accepts nothing, although 1/2 is feasible and accepts it.
\<close>

lemma least_score_never_accepted:
  "choose_threshold 0 [sample_prediction ''a'' ''positive'' (3 / 4)]
     = Inr (1, selective_counts 1 [sample_prediction ''a'' ''positive'' (3 / 4)]) \<and>
   sel_accepted (selective_counts 1 [sample_prediction ''a'' ''positive'' (3 / 4)]) = 0 \<and>
   feasible 0 (selective_counts (1 / 2) [sample_prediction ''a'' ''positive'' (3 / 4)]) \<and>
   sel_accepted_positives (selective_counts (1 / 2) [sample_prediction ''a'' ''positive'' (3 / 4)]) = 1"
  by code_simp

subsection \<open>Properties\<close>


text \<open>
  C39. The frozen threshold is feasible and optimal: on the calibration cases it accepts no wrong identity and
  at most the allowed rate of wrong visuals, and no feasible threshold from the least observed score on
  accepts more positives; among the candidate thresholds that accept as many it is the strictest.
\<close>

theorem frozen_threshold_optimal:
  assumes "freeze_policy r ps = Inr (policy, counts)"
  shows "counts = selective_counts (threshold policy) (calibration_cases ps) \<and> feasible (rq_maximum_rate r) counts \<and>
    (\<forall>t. (\<exists>p \<in> set (calibration_cases ps). pr_score p \<le> t) \<and>
        feasible (rq_maximum_rate r) (selective_counts t (calibration_cases ps)) \<longrightarrow>
      sel_accepted_positives (selective_counts t (calibration_cases ps)) \<le> sel_accepted_positives counts) \<and>
    (\<forall>t \<in> set (threshold_candidates (calibration_cases ps)).
      feasible (rq_maximum_rate r) (selective_counts t (calibration_cases ps)) \<and>
      sel_accepted_positives (selective_counts t (calibration_cases ps)) = sel_accepted_positives counts \<longrightarrow>
      t \<le> threshold policy)"
proof -
  from assms have ch: "choose_threshold (rq_maximum_rate r) (calibration_cases ps) = Inr (threshold policy, counts)"
    by (rule freeze_policy_parts)
  note best = choose_threshold_best [OF ch]
  have "sel_accepted_positives (selective_counts t (calibration_cases ps)) \<le> sel_accepted_positives counts"
    if "\<exists>p \<in> set (calibration_cases ps). pr_score p \<le> t"
      and "feasible (rq_maximum_rate r) (selective_counts t (calibration_cases ps))" for t
  proof -
    from candidate_cut [OF that(1)] obtain u where "u \<in> set (threshold_candidates (calibration_cases ps))"
      "selective_counts u (calibration_cases ps) = selective_counts t (calibration_cases ps)" by blast
    with best(4) [of u] that(2) show ?thesis by (auto simp: less_eq_prod_def)
  qed
  moreover have "t \<le> threshold policy"
    if "t \<in> set (threshold_candidates (calibration_cases ps))"
      and "feasible (rq_maximum_rate r) (selective_counts t (calibration_cases ps))"
      and "sel_accepted_positives (selective_counts t (calibration_cases ps)) = sel_accepted_positives counts" for t
    using best(4) [OF that(1,2)] that(3) by (auto simp: less_eq_prod_def)
  ultimately show ?thesis using best(2,3) by blast
qed

lemma frozen_threshold_optimal_witness:
  "feasible 0 (selective_counts (1 / 2) sample_predictions)"
  using frozen_threshold_optimal [OF sample_frozen, THEN conjunct2, THEN conjunct1] by (simp add: sample_request_def)

text \<open>
  Freezing and evaluating do not depend on the order of the predictions: a permutation of the input
  gives the same policy and counts, and on the evaluation side the same gate, counts and risk.
\<close>

theorem policy_order_independent:
  assumes "mset qs = mset ps" and "freeze_policy r ps = Inr res"
  shows "freeze_policy r qs = Inr res \<and>
    selective_counts t (filter f qs) = selective_counts t (filter f ps) \<and>
    aurc (filter f qs) = aurc (filter f ps)"
proof (intro conjI)
  obtain policy counts where res: "res = (policy, counts)" by (cases res)
  have v: "validated_predictions ps = Inr ps" using freeze_policy_parts [OF assms(2) [unfolded res]] by blast
  have sets: "set qs = set ps" and ne: "qs = [] \<longleftrightarrow> ps = []" using assms(1) mset_eq_setD by (auto dest: mset_eq_setD)
  have d: "distinct (map pr_case qs)" using v assms(1) by (metis validated_iff mset_map mset_eq_imp_distinct_iff)
  have vq: "validated_predictions qs = Inr qs"
    using v d sets ne unfolding validated_iff groups_agree_def by metis
  have m: "mset (filter (\<lambda>p. pr_split p = ''calibration'') qs) = mset (filter (\<lambda>p. pr_split p = ''calibration'') ps)"
    using assms(1) by simp
  have e: "filter (\<lambda>p. pr_split p = ''calibration'') qs = [] \<longleftrightarrow> filter (\<lambda>p. pr_split p = ''calibration'') ps = []"
    using m by (metis mset_zero_iff)
  have x: "list_ex f (filter (\<lambda>p. pr_split p = ''calibration'') qs) = list_ex f (filter (\<lambda>p. pr_split p = ''calibration'') ps)" for f
    unfolding list_ex_iff using mset_eq_setD [OF m] by (simp only:)
  have "freeze_policy r qs = freeze_policy r ps"
    unfolding freeze_policy_def v vq bindE.simps Let_def e x choose_threshold_mset [OF m] ..
  then show "freeze_policy r qs = Inr res" using assms(2) by simp
  have mf: "mset (filter f qs) = mset (filter f ps)" using assms(1) by simp
  then show "selective_counts t (filter f qs) = selective_counts t (filter f ps)" by (rule selective_counts_mset)
  have "distinct (map pr_case (filter f ps))" using v by (simp add: validated_iff distinct_map_filter)
  then have "inj_on score_key (set (filter f ps))" by (auto simp: inj_on_def score_key_def distinct_map)
  from score_order.rank_unique [OF this mf] mset_eq_length [OF mf]
  show "aurc (filter f qs) = aurc (filter f ps)" by (simp add: aurc_def)
qed

lemma policy_order_independent_witness:
  "freeze_policy (sample_request 0) (rev sample_predictions)
     = Inr (sample_policy (1 / 2), selective_counts (1 / 2) sample_predictions)"
  using policy_order_independent [OF _ sample_frozen, of "rev sample_predictions"] by simp

end
