(* ===== verification/VisualRegistry.thy ===== *)
theory VisualRegistry
  imports VisualMetrics
begin

section \<open>The visual registry\<close>

text \<open>
  \<open>src/dsvire/visual_registry.py\<close>: the loader of the reviewed annotations and the binding of adapter scores to
  them. \<open>aware\<close> stands for \<open>datetime.fromisoformat\<close>: no value when it refuses the text, otherwise whether the
  time has a time zone. \<open>sha\<close> is SHA-256 and \<open>frepr\<close> the decimal form of a float.
\<close>

datatype registry_error = RegistryError string | RegistryEscape string

definition allowed_redistribution :: "string list" where
  "allowed_redistribution = [''download_only'', ''redistributable'']"

definition allowed_region_types :: "string list" where
  "allowed_region_types = [''package'', ''pinout'', ''table'']"

definition allowed_views :: "string list" where
  "allowed_views = [''top'', ''bottom'', ''not_applicable'', ''unknown'']"

definition registry_text :: "string \<Rightarrow> json \<Rightarrow> registry_error + string" where
  "registry_text = nonempty_text RegistryError"

definition registry_keys :: "string list \<Rightarrow> (string \<times> json) list \<Rightarrow> string \<Rightarrow> registry_error + unit" where
  "registry_keys required d context = strict_keys RegistryError context required d"

definition registry_object :: "json \<Rightarrow> string \<Rightarrow> registry_error + (string \<times> json) list" where
  "registry_object v context = (case object_items v of
     Some d \<Rightarrow> Inr d | None \<Rightarrow> Inl (RegistryError (context @ '' must be an object'')))"

definition registry_member :: "string \<Rightarrow> string list \<Rightarrow> string \<Rightarrow> registry_error + unit" where
  "registry_member s allowed context = ensure (s \<in> set allowed) (RegistryError (unsupported context s))"

subsection \<open>Identities, sources, reviews\<close>

record case_identity =
  id_manufacturer :: string
  id_mpn :: string
  id_package :: string

definition parse_identity :: "json \<Rightarrow> string \<Rightarrow> registry_error + case_identity" where
  "parse_identity v context =
     bindE (registry_object v context) (\<lambda>d.
     bindE (registry_keys [''manufacturer'', ''mpn'', ''package''] d context) (\<lambda>_.
     bindE (registry_text (context @ ''.manufacturer'') (field d ''manufacturer'')) (\<lambda>manufacturer.
     bindE (registry_text (context @ ''.mpn'') (field d ''mpn'')) (\<lambda>mpn.
     bindE (registry_text (context @ ''.package'') (field d ''package'')) (\<lambda>package.
       Inr \<lparr>id_manufacturer = manufacturer, id_mpn = mpn, id_package = package\<rparr>)))))"

record source_ref =
  src_url :: string
  src_revision :: string

definition parse_source :: "json \<Rightarrow> string \<Rightarrow> registry_error + source_ref" where
  "parse_source v context =
     bindE (registry_object v context) (\<lambda>d.
     bindE (registry_keys [''url'', ''revision''] d context) (\<lambda>_.
     bindE (registry_text (context @ ''.url'') (field d ''url'')) (\<lambda>url.
     bindE (ensure (starts_with ''https://'' url) (RegistryError (context @ ''.url must use HTTPS''))) (\<lambda>_.
     bindE (registry_text (context @ ''.revision'') (field d ''revision'')) (\<lambda>revision.
       Inr \<lparr>src_url = url, src_revision = revision\<rparr>)))))"

record review =
  rev_status :: string
  rev_reviewers :: "string list"
  rev_at :: "string option"
  rev_revision :: string

text \<open>\<open>text.replace("Z", "+00:00")\<close>.\<close>

definition zulu :: "string \<Rightarrow> string" where
  "zulu s = concat (map (\<lambda>c. if c = CHR ''Z'' then ''+00:00'' else [c]) s)"

definition reviewed_at :: "(string \<Rightarrow> bool option) \<Rightarrow> json \<Rightarrow> string \<Rightarrow> registry_error + string option" where
  "reviewed_at aware v context =
     (if v = JNull then Inr None
      else bindE (registry_text (context @ ''.reviewed_at'') v) (\<lambda>time.
        case aware (zulu time) of
          None \<Rightarrow> Inl (RegistryError (context @ ''.reviewed_at must be ISO-8601''))
        | Some tz \<Rightarrow> if tz then Inr (Some time)
            else Inl (RegistryError (context @ ''.reviewed_at must include a timezone''))))"

definition parse_review :: "(string \<Rightarrow> bool option) \<Rightarrow> json \<Rightarrow> string \<Rightarrow> registry_error + review" where
  "parse_review aware v context =
     bindE (registry_object v context) (\<lambda>d.
     bindE (registry_keys [''status'', ''reviewers'', ''reviewed_at'', ''annotation_revision''] d context) (\<lambda>_.
     bindE (registry_text (context @ ''.status'') (field d ''status'')) (\<lambda>status.
     bindE (ensure (status = ''unreviewed'' \<or> status = ''reviewed'')
       (RegistryError (context @ ''.status must be unreviewed or reviewed''))) (\<lambda>_.
     case array_items (field d ''reviewers'') of
       None \<Rightarrow> Inl (RegistryError (context @ ''.reviewers must be an array''))
     | Some raw \<Rightarrow>
     bindE (mapE (\<lambda>(i, r). registry_text (at_index (context @ ''.reviewers'') i) r) (enumerate 0 raw)) (\<lambda>reviewers.
     bindE (ensure (distinct reviewers) (RegistryError (context @ ''.reviewers contains duplicates''))) (\<lambda>_.
     bindE (reviewed_at aware (field d ''reviewed_at'') context) (\<lambda>time.
     if status = ''reviewed'' \<and> (reviewers = [] \<or> time = None)
     then Inl (RegistryError (context @ '' reviewed annotations require reviewers and reviewed_at''))
     else if status = ''unreviewed'' \<and> (reviewers \<noteq> [] \<or> time \<noteq> None)
     then Inl (RegistryError (context @ '' unreviewed annotations cannot claim reviewers or reviewed_at''))
     else bindE (registry_text (context @ ''.annotation_revision'') (field d ''annotation_revision'')) (\<lambda>revision.
       Inr \<lparr>rev_status = status, rev_reviewers = reviewers, rev_at = time, rev_revision = revision\<rparr>))))))))"

subsection \<open>Cases\<close>

definition coordinate :: "string \<Rightarrow> nat \<times> json \<Rightarrow> registry_error + rat" where
  "coordinate context item = (case item of (i, v) \<Rightarrow>
     (case check_number v of
        Overflows \<Rightarrow> Inl (RegistryEscape ''OverflowError'')
      | NotFinite \<Rightarrow> Inl (RegistryError (at_index context i @ '' must be finite within 0..=1''))
      | Finite r \<Rightarrow> if 0 \<le> r \<and> r \<le> 1 then Inr r
          else Inl (RegistryError (at_index context i @ '' must be finite within 0..=1''))))"

definition bbox :: "json \<Rightarrow> string \<Rightarrow> registry_error + (rat \<times> rat \<times> rat \<times> rat)" where
  "bbox v context = (case array_items v of
     None \<Rightarrow> Inl (RegistryError (context @ '' must contain four normalized coordinates''))
   | Some xs \<Rightarrow>
       if length xs \<noteq> 4 then Inl (RegistryError (context @ '' must contain four normalized coordinates''))
       else bindE (mapE (coordinate context) (enumerate 0 xs)) (\<lambda>cs.
         if cs ! 2 \<le> cs ! 0 \<or> cs ! 3 \<le> cs ! 1
         then Inl (RegistryError (context @ '' must have positive width and height''))
         else Inr (cs ! 0, cs ! 1, cs ! 2, cs ! 3)))"

record visual_case =
  vc_id :: string
  vc_label :: string
  vc_region :: string
  vc_page :: int
  vc_bbox :: "rat \<times> rat \<times> rat \<times> rat"
  vc_view :: string
  vc_claimed :: case_identity
  vc_rationale :: string

definition page_number :: "json \<Rightarrow> string \<Rightarrow> registry_error + int" where
  "page_number v context = (case v of
     JInt n \<Rightarrow> if 1 \<le> n then Inr n else Inl (RegistryError (context @ ''.page must be a positive integer''))
   | _ \<Rightarrow> Inl (RegistryError (context @ ''.page must be a positive integer'')))"

definition parse_case :: "json \<Rightarrow> string \<Rightarrow> registry_error + visual_case" where
  "parse_case v context =
     bindE (registry_object v context) (\<lambda>d.
     bindE (registry_keys [''id'', ''label'', ''region_type'', ''page'', ''bbox_norm'', ''view'', ''claimed_identity'',
       ''rationale''] d context) (\<lambda>_.
     bindE (registry_text (context @ ''.label'') (field d ''label'')) (\<lambda>label.
     bindE (registry_member label allowed_labels (context @ ''.label'')) (\<lambda>_.
     bindE (registry_text (context @ ''.region_type'') (field d ''region_type'')) (\<lambda>region.
     bindE (registry_member region allowed_region_types (context @ ''.region_type'')) (\<lambda>_.
     bindE (page_number (field d ''page'') context) (\<lambda>page.
     bindE (registry_text (context @ ''.view'') (field d ''view'')) (\<lambda>view.
     bindE (registry_member view allowed_views (context @ ''.view'')) (\<lambda>_.
     bindE (registry_text (context @ ''.id'') (field d ''id'')) (\<lambda>id.
     bindE (bbox (field d ''bbox_norm'') (context @ ''.bbox_norm'')) (\<lambda>box.
     bindE (parse_identity (field d ''claimed_identity'') (context @ ''.claimed_identity'')) (\<lambda>claimed.
     bindE (registry_text (context @ ''.rationale'') (field d ''rationale'')) (\<lambda>rationale.
       Inr \<lparr>vc_id = id, vc_label = label, vc_region = region, vc_page = page, vc_bbox = box, vc_view = view,
         vc_claimed = claimed, vc_rationale = rationale\<rparr>)))))))))))))"

definition identity_relationship :: "visual_case \<Rightarrow> case_identity \<Rightarrow> string \<Rightarrow> registry_error + unit" where
  "identity_relationship c ident context =
     (let claimed = vc_claimed c in
      if vc_label c = positive \<and> claimed \<noteq> ident
      then Inl (RegistryError (context @ '' positive case must claim the document identity''))
      else if vc_label c = ''wrong_package'' \<and> \<not> (id_manufacturer claimed = id_manufacturer ident \<and>
        id_mpn claimed = id_mpn ident \<and> id_package claimed \<noteq> id_package ident)
      then Inl (RegistryError (context @ '' wrong_package must differ only by package''))
      else if vc_label c = ''wrong_variant'' \<and> \<not> (id_manufacturer claimed = id_manufacturer ident \<and>
        id_mpn claimed \<noteq> id_mpn ident \<and> id_package claimed = id_package ident)
      then Inl (RegistryError (context @ '' wrong_variant must differ only by MPN''))
      else if (vc_label c = ''wrong_figure'' \<or> vc_label c = ''wrong_view'') \<and> claimed \<noteq> ident
      then Inl (RegistryError (context @ '' visual negative must retain the document identity''))
      else if vc_label c \<in> set wrong_identity_labels \<and> vc_region c \<noteq> ''package''
      then Inl (RegistryError (context @ '' identity negative must use a package region''))
      else Inr ())"

text \<open>One iteration of the loop over the cases of a document: the cases, the local and the qualified ids so far.\<close>

definition qualified_id :: "string \<Rightarrow> string \<Rightarrow> string" where
  "qualified_id document_id case_id = document_id @ ''/'' @ case_id"

definition load_case :: "string \<Rightarrow> case_identity \<Rightarrow> string \<Rightarrow> visual_case list \<times> string set \<times> string set \<Rightarrow> nat \<times> json \<Rightarrow>
    registry_error + (visual_case list \<times> string set \<times> string set)" where
  "load_case document_id ident context state item = (case (state, item) of ((cases, local_ids, case_ids), (i, raw)) \<Rightarrow>
     bindE (parse_case raw (at_index (context @ ''.cases'') i)) (\<lambda>c.
     if vc_id c \<in> local_ids \<or> qualified_id document_id (vc_id c) \<in> case_ids
     then Inl (RegistryError (''duplicate visual case id: '' @ qualified_id document_id (vc_id c)))
     else bindE (identity_relationship c ident (at_index (context @ ''.cases'') i)) (\<lambda>_.
       Inr (cases @ [c], insert (vc_id c) local_ids, insert (qualified_id document_id (vc_id c)) case_ids))))"

subsection \<open>Documents\<close>

record visual_document =
  vd_id :: string
  vd_group :: string
  vd_split :: string
  vd_category :: string
  vd_source :: source_ref
  vd_sha256 :: string
  vd_redistribution :: string
  vd_license :: string
  vd_identity :: case_identity
  vd_review :: review
  vd_cases :: "visual_case list"

record visual_registry =
  vr_documents :: "visual_document list"
  vr_sha256 :: string

definition positive_regions :: "visual_case list \<Rightarrow> string list" where
  "positive_regions cases = map vc_region (filter (\<lambda>c. vc_label c = positive) cases)"

definition facing :: "string \<Rightarrow> bool" where
  "facing view \<longleftrightarrow> view = ''top'' \<or> view = ''bottom''"

text \<open>A wrong view opposes a positive top or bottom view of the same region type.\<close>

definition opposes_positive :: "visual_case list \<Rightarrow> visual_case \<Rightarrow> bool" where
  "opposes_positive cases c \<longleftrightarrow> facing (vc_view c) \<and>
     list_ex (\<lambda>p. vc_label p = positive \<and> vc_region p = vc_region c \<and> facing (vc_view p) \<and> vc_view p \<noteq> vc_view c) cases"

definition check_cases :: "visual_case list \<Rightarrow> string \<Rightarrow> registry_error + unit" where
  "check_cases cases context =
     (let missing = filter (\<lambda>r. r \<notin> set (positive_regions cases)) allowed_region_types in
      if missing \<noteq> []
      then Inl (RegistryError (context @ '' is missing positive regions: '' @ repr_strs missing))
      else if \<not> list_ex (\<lambda>c. vc_label c \<noteq> positive) cases
      then Inl (RegistryError (context @ '' must include an adversarial visual case''))
      else if list_ex (\<lambda>c. vc_label c = ''wrong_view'' \<and> \<not> opposes_positive cases c) cases
      then Inl (RegistryError (context @ '' wrong_view must oppose a positive top/bottom view''))
      else Inr ())"

text \<open>The state of the loop over the documents.\<close>

record registry_state =
  rs_documents :: "visual_document list"
  rs_ids :: "string set"
  rs_case_ids :: "string set"
  rs_groups :: "(string \<times> string) list"
  rs_hashes :: "(string \<times> string \<times> string) list"

definition document_keys :: "string list" where
  "document_keys = [''id'', ''document_group'', ''split'', ''category'', ''source'', ''content_sha256'', ''redistribution'',
     ''license_note'', ''identity'', ''review'', ''cases'']"

text \<open>The head of a document: its id, group, split and digest, with the three tables that relate documents.\<close>

definition claim_id :: "registry_state \<Rightarrow> string \<Rightarrow> registry_error + registry_state" where
  "claim_id st i = (if i \<in> rs_ids st then Inl (RegistryError (''duplicate document id: '' @ i))
     else Inr (st\<lparr>rs_ids := insert i (rs_ids st)\<rparr>))"

definition claim_group :: "registry_state \<Rightarrow> string \<Rightarrow> string \<Rightarrow> registry_error + registry_state" where
  "claim_group st grp split = (case setdefault (rs_groups st) grp split of (previous, groups) \<Rightarrow>
     if previous \<noteq> split
     then Inl (RegistryError (''document group '' @ repr_str grp @ '' leaks across splits''))
     else Inr (st\<lparr>rs_groups := groups\<rparr>))"

definition claim_hash :: "registry_state \<Rightarrow> string \<Rightarrow> string \<Rightarrow> string \<Rightarrow> registry_error + registry_state" where
  "claim_hash st digest grp split = (case setdefault (rs_hashes st) digest (grp, split) of (owner, hashes) \<Rightarrow>
     if owner \<noteq> (grp, split)
     then Inl (RegistryError (''content hash '' @ digest @ '' is assigned to multiple groups or splits''))
     else Inr (st\<lparr>rs_hashes := hashes\<rparr>))"

definition load_document :: "(string \<Rightarrow> bool option) \<Rightarrow> bool \<Rightarrow> registry_state \<Rightarrow> nat \<times> json \<Rightarrow>
    registry_error + registry_state" where
  "load_document aware draft st item =
     (let context = at_index ''registry.documents'' (fst item) in
     bindE (registry_object (snd item) context) (\<lambda>raw.
     bindE (registry_keys document_keys raw context) (\<lambda>_.
     bindE (registry_text (context @ ''.id'') (field raw ''id'')) (\<lambda>document_id.
     bindE (claim_id st document_id) (\<lambda>st1.
     bindE (registry_text (context @ ''.document_group'') (field raw ''document_group'')) (\<lambda>grp.
     bindE (registry_text (context @ ''.split'') (field raw ''split'')) (\<lambda>split.
     bindE (registry_member split allowed_splits (context @ ''.split'')) (\<lambda>_.
     bindE (claim_group st1 grp split) (\<lambda>st2.
     bindE (registry_text (context @ ''.content_sha256'') (field raw ''content_sha256'')) (\<lambda>digest.
     bindE (ensure (is_hex 64 digest) (RegistryError (context @ ''.content_sha256 must be lowercase SHA-256''))) (\<lambda>_.
     bindE (claim_hash st2 digest grp split) (\<lambda>st3.
     bindE (registry_text (context @ ''.redistribution'') (field raw ''redistribution'')) (\<lambda>redistribution.
     bindE (ensure (redistribution \<in> set allowed_redistribution)
       (RegistryError (context @ ''.redistribution must be one of '' @ repr_strs allowed_redistribution))) (\<lambda>_.
     bindE (parse_identity (field raw ''identity'') (context @ ''.identity'')) (\<lambda>ident.
     bindE (parse_review aware (field raw ''review'') (context @ ''.review'')) (\<lambda>review.
     bindE (ensure (\<not> ((split = ''calibration'' \<or> split = ''evaluation'') \<and> rev_status review \<noteq> ''reviewed'' \<and> \<not> draft))
       (RegistryError (context @ '' '' @ split @ '' annotations must be reviewed''))) (\<lambda>_.
     case array_items (field raw ''cases'') of
       None \<Rightarrow> Inl (RegistryError (context @ ''.cases must be a non-empty array''))
     | Some cases_raw \<Rightarrow>
     bindE (ensure (cases_raw \<noteq> []) (RegistryError (context @ ''.cases must be a non-empty array''))) (\<lambda>_.
     bindE (foldE (load_case document_id ident context) ([], {}, rs_case_ids st3) (enumerate 0 cases_raw))
       (\<lambda>(cases, local_ids, case_ids).
     bindE (check_cases cases context) (\<lambda>_.
     bindE (registry_text (context @ ''.category'') (field raw ''category'')) (\<lambda>category.
     bindE (parse_source (field raw ''source'') (context @ ''.source'')) (\<lambda>source.
     bindE (registry_text (context @ ''.license_note'') (field raw ''license_note'')) (\<lambda>license.
       Inr (st3\<lparr>rs_case_ids := case_ids,
         rs_documents := rs_documents st3 @ [\<lparr>vd_id = document_id, vd_group = grp, vd_split = split,
           vd_category = category, vd_source = source, vd_sha256 = digest, vd_redistribution = redistribution,
           vd_license = license, vd_identity = ident, vd_review = review, vd_cases = cases\<rparr>]\<rparr>))))))))))))))))))))))))"

definition empty_registry_state :: registry_state where
  "empty_registry_state = \<lparr>rs_documents = [], rs_ids = {}, rs_case_ids = {}, rs_groups = [], rs_hashes = []\<rparr>"

definition load_visual_registry_data :: "(bytes \<Rightarrow> string) \<Rightarrow> (pyfloat \<Rightarrow> string) \<Rightarrow> (string \<Rightarrow> bool option) \<Rightarrow> bool \<Rightarrow> json \<Rightarrow>
    registry_error + visual_registry" where
  "load_visual_registry_data sha frepr aware draft v =
     bindE (registry_object v ''registry'') (\<lambda>d.
     bindE (registry_keys [''schema_version'', ''documents''] d ''registry'') (\<lambda>_.
     bindE (ensure (field d ''schema_version'' = JStr ''dsvire.visual-eval-registry.v1'')
       (RegistryError (''unsupported registry version: '' @ repr_json frepr (field d ''schema_version'')))) (\<lambda>_.
     case array_items (field d ''documents'') of
       None \<Rightarrow> Inl (RegistryError ''registry.documents must be a non-empty array'')
     | Some raw \<Rightarrow>
     bindE (ensure (raw \<noteq> []) (RegistryError ''registry.documents must be a non-empty array'')) (\<lambda>_.
     bindE (foldE (load_document aware draft) empty_registry_state (enumerate 0 raw)) (\<lambda>st.
       Inr \<lparr>vr_documents = rs_documents st, vr_sha256 = canonical_sha sha frepr v\<rparr>)))))"

subsection \<open>Binding scores\<close>

definition case_entries :: "visual_document \<Rightarrow> (string \<times> visual_document \<times> visual_case) list" where
  "case_entries doc = map (\<lambda>c. (qualified_id (vd_id doc) (vc_id c), doc, c)) (vd_cases doc)"

definition registry_cases :: "visual_registry \<Rightarrow> (string \<times> visual_document \<times> visual_case) list" where
  "registry_cases reg = concat (map case_entries (vr_documents reg))"

definition bind_one :: "(string \<times> json) list \<Rightarrow> string \<times> visual_document \<times> visual_case \<Rightarrow> registry_error + prediction" where
  "bind_one scores item = (case item of (case_id, doc, c) \<Rightarrow>
     (case parse_prediction (''adapter score '' @ case_id)
         (JObj [(''case_id'', JStr case_id), (''document_group'', JStr (vd_group doc)), (''split'', JStr (vd_split doc)),
           (''label'', JStr (vc_label c)), (''score'', field scores case_id)]) of
        Inr p \<Rightarrow> Inr p
      | Inl (MetricError m) \<Rightarrow> Inl (RegistryError m)
      | Inl (MetricEscape m) \<Rightarrow> Inl (RegistryEscape m)))"

definition bind_prediction_scores :: "visual_registry \<Rightarrow> (string \<times> json) list \<Rightarrow> registry_error + prediction list" where
  "bind_prediction_scores reg scores =
     (let expected = dict_of (registry_cases reg);
          missing = filter (\<lambda>k. k \<notin> set (map fst scores)) (map fst expected);
          unknown = filter (\<lambda>k. k \<notin> set (map fst expected)) (map fst scores)
      in if missing \<noteq> [] \<or> unknown \<noteq> []
         then Inl (RegistryError (''adapter score keys invalid: missing='' @ repr_strs (sort missing) @
           '', unknown='' @ repr_strs (sort unknown)))
         else mapE (bind_one scores) (sort_key fst expected))"

subsection \<open>What a loaded registry satisfies\<close>

text \<open>The promises of the loader about one case and one document, and about the whole registry.\<close>

definition plain_text :: "string \<Rightarrow> bool" where
  "plain_text s \<longleftrightarrow> s \<noteq> [] \<and> strip s = s"

definition identity_rule :: "case_identity \<Rightarrow> visual_case \<Rightarrow> bool" where
  "identity_rule ident c \<longleftrightarrow>
     (vc_label c = ''wrong_package'' \<and> id_manufacturer (vc_claimed c) = id_manufacturer ident \<and>
        id_mpn (vc_claimed c) = id_mpn ident \<and> id_package (vc_claimed c) \<noteq> id_package ident \<and> vc_region c = ''package'' \<or>
      vc_label c = ''wrong_variant'' \<and> id_manufacturer (vc_claimed c) = id_manufacturer ident \<and>
        id_mpn (vc_claimed c) \<noteq> id_mpn ident \<and> id_package (vc_claimed c) = id_package ident \<and> vc_region c = ''package'' \<or>
      vc_label c \<in> {''positive'', ''wrong_figure'', ''wrong_view''} \<and> vc_claimed c = ident)"

definition case_ok :: "case_identity \<Rightarrow> visual_case \<Rightarrow> bool" where
  "case_ok ident c \<longleftrightarrow> plain_text (vc_id c) \<and> vc_label c \<in> set allowed_labels \<and> vc_region c \<in> set allowed_region_types \<and>
     1 \<le> vc_page c \<and> vc_view c \<in> set allowed_views \<and> identity_rule ident c \<and>
     (case vc_bbox c of (x0, y0, x1, y1) \<Rightarrow> 0 \<le> x0 \<and> x0 < x1 \<and> x1 \<le> 1 \<and> 0 \<le> y0 \<and> y0 < y1 \<and> y1 \<le> 1)"

definition document_ok :: "bool \<Rightarrow> visual_document \<Rightarrow> bool" where
  "document_ok draft d \<longleftrightarrow> plain_text (vd_id d) \<and> plain_text (vd_group d) \<and> vd_split d \<in> set allowed_splits \<and>
     is_hex 64 (vd_sha256 d) \<and> vd_redistribution d \<in> set allowed_redistribution \<and>
     (vd_split d = ''development'' \<or> rev_status (vd_review d) = ''reviewed'' \<or> draft) \<and>
     (rev_status (vd_review d) = ''reviewed'' \<longleftrightarrow> rev_reviewers (vd_review d) \<noteq> []) \<and>
     (\<forall>c \<in> set (vd_cases d). case_ok (vd_identity d) c) \<and>
     set allowed_region_types \<subseteq> set (positive_regions (vd_cases d)) \<and>
     (\<exists>c \<in> set (vd_cases d). vc_label c \<noteq> positive) \<and>
     (\<forall>c \<in> set (vd_cases d). vc_label c = ''wrong_view'' \<longrightarrow> opposes_positive (vd_cases d) c)"

definition registry_ok :: "bool \<Rightarrow> visual_document list \<Rightarrow> bool" where
  "registry_ok draft docs \<longleftrightarrow>
     (\<forall>d \<in> set docs. document_ok draft d) \<and> distinct (map vd_id docs) \<and>
     distinct (map fst (concat (map case_entries docs))) \<and>
     (\<forall>d \<in> set docs. \<forall>e \<in> set docs. vd_group d = vd_group e \<longrightarrow> vd_split d = vd_split e) \<and>
     (\<forall>d \<in> set docs. \<forall>e \<in> set docs. vd_sha256 d = vd_sha256 e \<longrightarrow> vd_group d = vd_group e \<and> vd_split d = vd_split e)"

text \<open>The invariant of the loop: the tables list what the documents so far contain.\<close>

definition state_ok :: "bool \<Rightarrow> registry_state \<Rightarrow> bool" where
  "state_ok draft st \<longleftrightarrow>
     (\<forall>d \<in> set (rs_documents st). document_ok draft d) \<and>
     distinct (map vd_id (rs_documents st)) \<and> rs_ids st = set (map vd_id (rs_documents st)) \<and>
     distinct (map fst (concat (map case_entries (rs_documents st)))) \<and>
     rs_case_ids st = set (map fst (concat (map case_entries (rs_documents st)))) \<and>
     (\<forall>d \<in> set (rs_documents st). map_of (rs_groups st) (vd_group d) = Some (vd_split d)) \<and>
     (\<forall>d \<in> set (rs_documents st). map_of (rs_hashes st) (vd_sha256 d) = Some (vd_group d, vd_split d))"

lemma state_ok_registry: "state_ok draft st \<Longrightarrow> registry_ok draft (rs_documents st)"
  unfolding state_ok_def registry_ok_def by (metis option.inject prod.inject)

lemma registry_text_ok: "registry_text context v = Inr s \<Longrightarrow> plain_text s"
  by (auto simp: registry_text_def plain_text_def dest!: nonempty_text_ok)

lemma unit_check:
  "coordinate context (i, v) = Inr r \<Longrightarrow> 0 \<le> r \<and> r \<le> 1"
  by (auto simp: coordinate_def split: number_check.splits if_splits)

lemma bbox_ok:
  assumes "bbox v context = Inr (x0, y0, x1, y1)"
  shows "0 \<le> x0 \<and> x0 < x1 \<and> x1 \<le> 1 \<and> 0 \<le> y0 \<and> y0 < y1 \<and> y1 \<le> 1"
proof -
  from assms obtain xs cs where xs: "length xs = 4" and cs: "mapE (coordinate context) (enumerate 0 xs) = Inr cs"
    and out: "cs ! 0 < cs ! 2" "cs ! 1 < cs ! 3" "x0 = cs ! 0" "y0 = cs ! 1" "x1 = cs ! 2" "y1 = cs ! 3"
    by (auto simp: bbox_def split: option.splits if_splits)
  have len: "length cs = 4" using mapE_length [OF cs] xs by simp
  have unit: "0 \<le> r \<and> r \<le> 1" if "r \<in> set cs" for r
    using mapE_in_set [OF cs that] unit_check by fastforce
  show ?thesis using out unit [of "cs ! 0"] unit [of "cs ! 1"] unit [of "cs ! 2"] unit [of "cs ! 3"] len by simp
qed

lemma identity_relationship_rule:
  assumes "identity_relationship c ident context = Inr u" and "vc_label c \<in> set allowed_labels"
  shows "identity_rule ident c"
  using assms
  by (auto simp: identity_relationship_def identity_rule_def Let_def allowed_labels_def positive_def wrong_visual_labels_def
      wrong_identity_labels_def split: if_splits)

lemma page_number_ok: "page_number v context = Inr n \<Longrightarrow> 1 \<le> n"
  by (auto simp: page_number_def split: json.splits if_splits)

lemma parse_case_ok:
  assumes "parse_case v context = Inr c" and "identity_relationship c ident ctx = Inr u"
  shows "case_ok ident c"
proof -
  have t: "plain_text (vc_id c)" and l: "vc_label c \<in> set allowed_labels"
    and m: "vc_region c \<in> set allowed_region_types" "vc_view c \<in> set allowed_views"
    using assms(1) by (auto simp: parse_case_def registry_member_def dest: registry_text_ok)
  have p: "1 \<le> vc_page c" using assms(1) by (auto simp: parse_case_def dest: page_number_ok)
  have "\<exists>w ctx. bbox w ctx = Inr (vc_bbox c)" using assms(1) by (simp add: parse_case_def) fastforce
  then have "case vc_bbox c of (x0, y0, x1, y1) \<Rightarrow> 0 \<le> x0 \<and> x0 < x1 \<and> x1 \<le> 1 \<and> 0 \<le> y0 \<and> y0 < y1 \<and> y1 \<le> 1"
    using bbox_ok by (cases "vc_bbox c") fastforce
  then show ?thesis using t l m p identity_relationship_rule [OF assms(2) l] by (simp add: case_ok_def)
qed

text \<open>What the loop over the cases of a document keeps, from the ids \<open>taken\<close> before it.\<close>

definition cases_good :: "string \<Rightarrow> case_identity \<Rightarrow> string set \<Rightarrow> visual_case list \<times> string set \<times> string set \<Rightarrow> bool" where
  "cases_good document_id ident taken state = (case state of (cases, local_ids, case_ids) \<Rightarrow>
     (\<forall>c \<in> set cases. case_ok ident c) \<and> distinct (map (\<lambda>c. qualified_id document_id (vc_id c)) cases) \<and>
     set (map (\<lambda>c. qualified_id document_id (vc_id c)) cases) \<inter> taken = {} \<and>
     case_ids = taken \<union> set (map (\<lambda>c. qualified_id document_id (vc_id c)) cases))"

lemma load_case_good:
  assumes "cases_good document_id ident taken s" and "load_case document_id ident context s x = Inr s'"
  shows "cases_good document_id ident taken s'"
proof -
  obtain cs l q where s: "s = (cs, l, q)" by (cases s)
  from assms(2) s obtain v ctx c where c: "parse_case v ctx = Inr c" "identity_relationship c ident ctx = Inr ()"
    and fresh: "qualified_id document_id (vc_id c) \<notin> q"
    and s': "s' = (cs @ [c], insert (vc_id c) l, insert (qualified_id document_id (vc_id c)) q)"
    by (auto simp: load_case_def split: prod.splits if_splits)
  show ?thesis using assms(1) parse_case_ok [OF c] fresh by (auto simp: s s' cases_good_def)
qed

interpretation case_loop: checked_loop "load_case document_id ident ctx" "cases_good document_id ident taken"
  for document_id ident ctx taken
  by unfold_locales (rule load_case_good)

lemma load_cases_ok:
  assumes "foldE (load_case document_id ident ctx) ([], {}, taken) items = Inr (cases, local_ids, case_ids)"
  shows "(\<forall>c \<in> set cases. case_ok ident c) \<and> distinct (map (\<lambda>c. qualified_id document_id (vc_id c)) cases) \<and>
    set (map (\<lambda>c. qualified_id document_id (vc_id c)) cases) \<inter> taken = {} \<and>
    case_ids = taken \<union> set (map (\<lambda>c. qualified_id document_id (vc_id c)) cases)"
  using case_loop.loop_good [OF assms, of taken] by (simp add: cases_good_def)

lemma check_cases_ok:
  assumes "check_cases cases context = Inr u"
  shows "set allowed_region_types \<subseteq> set (positive_regions cases) \<and> (\<exists>c \<in> set cases. vc_label c \<noteq> positive) \<and>
    (\<forall>c \<in> set cases. vc_label c = ''wrong_view'' \<longrightarrow> opposes_positive cases c)"
proof -
  from assms have "filter (\<lambda>r. r \<notin> set (positive_regions cases)) allowed_region_types = []"
    and "list_ex (\<lambda>c. vc_label c \<noteq> positive) cases"
    and "\<not> list_ex (\<lambda>c. vc_label c = ''wrong_view'' \<and> \<not> opposes_positive cases c) cases"
    by (simp_all add: check_cases_def Let_def split: if_splits)
  then show ?thesis unfolding filter_empty_conv list_ex_iff by blast
qed

lemma review_reviewers:
  assumes "parse_review aware v context = Inr r"
  shows "rev_status r = ''reviewed'' \<longleftrightarrow> rev_reviewers r \<noteq> []"
  using assms by (auto simp: parse_review_def split: option.splits if_splits)

lemma claim_id_iff: "claim_id st i = Inr st' \<longleftrightarrow> i \<notin> rs_ids st \<and> st' = st\<lparr>rs_ids := insert i (rs_ids st)\<rparr>"
  by (auto simp: claim_id_def)

lemma claim_group_iff: "claim_group st grp split = Inr st' \<longleftrightarrow>
    (\<exists>groups. setdefault (rs_groups st) grp split = (split, groups) \<and> st' = st\<lparr>rs_groups := groups\<rparr>)"
  by (auto simp: claim_group_def split: prod.splits)

lemma claim_hash_iff: "claim_hash st digest grp split = Inr st' \<longleftrightarrow>
    (\<exists>hashes. setdefault (rs_hashes st) digest (grp, split) = ((grp, split), hashes) \<and> st' = st\<lparr>rs_hashes := hashes\<rparr>)"
  by (auto simp: claim_hash_def split: prod.splits)

lemma load_document_parts:
  assumes "load_document aware draft st item = Inr st'"
  obtains document_id st1 grp split st2 digest st3 redistribution ident review ctx items cases local_ids case_ids category source license
  where "plain_text document_id" "claim_id st document_id = Inr st1"
    "plain_text grp" "split \<in> set allowed_splits" "claim_group st1 grp split = Inr st2"
    "is_hex 64 digest" "claim_hash st2 digest grp split = Inr st3"
    "redistribution \<in> set allowed_redistribution"
    "rev_status review = ''reviewed'' \<longleftrightarrow> rev_reviewers review \<noteq> []"
    "\<not> ((split = ''calibration'' \<or> split = ''evaluation'') \<and> rev_status review \<noteq> ''reviewed'' \<and> \<not> draft)"
    "foldE (load_case document_id ident ctx) ([], {}, rs_case_ids st3) items = Inr (cases, local_ids, case_ids)"
    "check_cases cases ctx = Inr ()"
    "st' = st3\<lparr>rs_case_ids := case_ids,
         rs_documents := rs_documents st3 @ [\<lparr>vd_id = document_id, vd_group = grp, vd_split = split,
           vd_category = category, vd_source = source, vd_sha256 = digest, vd_redistribution = redistribution,
           vd_license = license, vd_identity = ident, vd_review = review, vd_cases = cases\<rparr>]\<rparr>"
proof -
  let ?ctx = "at_index ''registry.documents'' (fst item)"
  from assms obtain raw document_id st1 grp split st2 digest st3 redistribution ident review items cases local_ids case_ids category source license
    where 1: "registry_text (?ctx @ ''.id'') (field raw ''id'') = Inr document_id" "claim_id st document_id = Inr st1"
    and 2: "registry_text (?ctx @ ''.document_group'') (field raw ''document_group'') = Inr grp"
      "registry_member split allowed_splits (?ctx @ ''.split'') = Inr ()" "claim_group st1 grp split = Inr st2"
    and 3: "is_hex 64 digest" "claim_hash st2 digest grp split = Inr st3" "redistribution \<in> set allowed_redistribution"
    and 4: "parse_review aware (field raw ''review'') (?ctx @ ''.review'') = Inr review"
      "\<not> ((split = ''calibration'' \<or> split = ''evaluation'') \<and> rev_status review \<noteq> ''reviewed'' \<and> \<not> draft)"
    and 5: "foldE (load_case document_id ident ?ctx) ([], {}, rs_case_ids st3) (enumerate 0 items) = Inr (cases, local_ids, case_ids)"
      "check_cases cases ?ctx = Inr ()"
    and 6: "st' = st3\<lparr>rs_case_ids := case_ids,
         rs_documents := rs_documents st3 @ [\<lparr>vd_id = document_id, vd_group = grp, vd_split = split,
           vd_category = category, vd_source = source, vd_sha256 = digest, vd_redistribution = redistribution,
           vd_license = license, vd_identity = ident, vd_review = review, vd_cases = cases\<rparr>]\<rparr>"
    unfolding load_document_def Let_def bindE_eq_Inr ensure_eq_Inr
    by (auto split: option.splits prod.splits)
  show thesis
    by (rule that [OF registry_text_ok [OF 1(1)] 1(2) registry_text_ok [OF 2(1)] _ 2(3) 3 review_reviewers [OF 4(1)] 4(2) 5 6])
      (use 2(2) in \<open>simp add: registry_member_def\<close>)
qed

lemma load_document_state:
  assumes "load_document aware draft st item = Inr st'"
  obtains d local_ids ctx items where
    "vd_id d \<notin> rs_ids st"
    "setdefault (rs_groups st) (vd_group d) (vd_split d) = (vd_split d, rs_groups st')"
    "setdefault (rs_hashes st) (vd_sha256 d) (vd_group d, vd_split d) = ((vd_group d, vd_split d), rs_hashes st')"
    "set (map fst (case_entries d)) \<inter> rs_case_ids st = {}" "distinct (map fst (case_entries d))"
    "rs_case_ids st' = rs_case_ids st \<union> set (map fst (case_entries d))"
    "rs_documents st' = rs_documents st @ [d]" "rs_ids st' = insert (vd_id d) (rs_ids st)"
    "document_ok draft d"
  using assms
proof (rule load_document_parts)
  fix document_id st1 grp split st2 digest st3 redistribution ident review ctx items cases local_ids case_ids category source license
  assume a: "plain_text document_id" "claim_id st document_id = Inr st1"
    "plain_text grp" "split \<in> set allowed_splits" "claim_group st1 grp split = Inr st2"
    "is_hex 64 digest" "claim_hash st2 digest grp split = Inr st3"
    "redistribution \<in> set allowed_redistribution"
    "rev_status review = ''reviewed'' \<longleftrightarrow> rev_reviewers review \<noteq> []"
    "\<not> ((split = ''calibration'' \<or> split = ''evaluation'') \<and> rev_status review \<noteq> ''reviewed'' \<and> \<not> draft)"
    and cs: "foldE (load_case document_id ident ctx) ([], {}, rs_case_ids st3) items = Inr (cases, local_ids, case_ids)"
    and ch: "check_cases cases ctx = Inr ()"
    and st': "st' = st3\<lparr>rs_case_ids := case_ids,
         rs_documents := rs_documents st3 @ [\<lparr>vd_id = document_id, vd_group = grp, vd_split = split,
           vd_category = category, vd_source = source, vd_sha256 = digest, vd_redistribution = redistribution,
           vd_license = license, vd_identity = ident, vd_review = review, vd_cases = cases\<rparr>]\<rparr>"
  let ?d = "\<lparr>vd_id = document_id, vd_group = grp, vd_split = split,
           vd_category = category, vd_source = source, vd_sha256 = digest, vd_redistribution = redistribution,
           vd_license = license, vd_identity = ident, vd_review = review, vd_cases = cases\<rparr>"
  note cases = load_cases_ok [OF cs] check_cases_ok [OF ch]
  have split: "split = ''development'' \<or> split = ''calibration'' \<or> split = ''evaluation''"
    using a(4) by (auto simp: allowed_splits_def)
  have ok: "document_ok draft ?d" using a cases split by (auto simp: document_ok_def)
  have e: "map fst (case_entries ?d) = map (\<lambda>c. qualified_id document_id (vc_id c)) cases"
    by (simp add: case_entries_def)
  show thesis
    using a(2,5,7) cases e ok unfolding claim_id_iff claim_group_iff claim_hash_iff
    by (intro that [of ?d]) (auto simp: st')
qed

lemma load_document_invariant:
  assumes "state_ok draft st" and "load_document aware draft st item = Inr st'"
  shows "state_ok draft st'"
  using assms(2)
proof (rule load_document_state)
  fix d
  assume fresh: "vd_id d \<notin> rs_ids st"
    and g: "setdefault (rs_groups st) (vd_group d) (vd_split d) = (vd_split d, rs_groups st')"
    and h: "setdefault (rs_hashes st) (vd_sha256 d) (vd_group d, vd_split d) = ((vd_group d, vd_split d), rs_hashes st')"
    and c: "set (map fst (case_entries d)) \<inter> rs_case_ids st = {}" "distinct (map fst (case_entries d))"
      "rs_case_ids st' = rs_case_ids st \<union> set (map fst (case_entries d))"
    and docs: "rs_documents st' = rs_documents st @ [d]" and ids: "rs_ids st' = insert (vd_id d) (rs_ids st)"
    and ok: "document_ok draft d"
  have g': "map_of (rs_groups st') x = (if x = vd_group d then Some (vd_split d) else map_of (rs_groups st) x)" for x
    by (rule setdefault_agrees [OF g])
  have h': "map_of (rs_hashes st') x = (if x = vd_sha256 d then Some (vd_group d, vd_split d) else map_of (rs_hashes st) x)" for x
    by (rule setdefault_agrees [OF h])
  show "state_ok draft st'"
    using assms(1) fresh c ids ok setdefault_old [OF g] setdefault_old [OF h]
    unfolding state_ok_def docs g' h' by auto
qed
interpretation document_loop: collecting_loop "load_document aware draft" "state_ok draft" "\<lambda>st. length (rs_documents st)"
  for aware draft
proof unfold_locales
  fix st st' item
  assume "load_document aware draft st item = Inr st'"
  then obtain d where "rs_documents st' = rs_documents st @ [d]" by (rule load_document_state)
  then show "length (rs_documents st') = Suc (length (rs_documents st))" by simp
qed (rule load_document_invariant)

lemma loaded_registry:
  assumes "load_visual_registry_data sha frepr aware draft v = Inr reg"
  shows "registry_ok draft (vr_documents reg)" and "vr_documents reg \<noteq> []" and "vr_sha256 reg = canonical_sha sha frepr v"
proof -
  from assms obtain raw st where raw: "raw \<noteq> []"
    and fold: "foldE (load_document aware draft) empty_registry_state (enumerate 0 raw) = Inr st"
    and reg: "reg = \<lparr>vr_documents = rs_documents st, vr_sha256 = canonical_sha sha frepr v\<rparr>"
    by (auto simp: load_visual_registry_data_def split: option.splits)
  have start: "state_ok draft empty_registry_state" by (simp add: state_ok_def empty_registry_state_def)
  have "state_ok draft st" using fold start by (rule document_loop.loop_good)
  then show "registry_ok draft (vr_documents reg)" by (simp add: reg state_ok_registry)
  show "vr_documents reg \<noteq> []" using document_loop.loop_collects [OF fold start] raw by (auto simp: reg)
  show "vr_sha256 reg = canonical_sha sha frepr v" by (simp add: reg)
qed

subsection \<open>What the bound predictions are\<close>

lemma plain_text_iff: "plain_text s \<longleftrightarrow> s \<noteq> [] \<and> \<not> py_space (hd s) \<and> \<not> py_space (last s)"
  by (cases "s = []") (simp_all add: plain_text_def strip_same)

lemma plain_qualified: "plain_text a \<Longrightarrow> plain_text b \<Longrightarrow> strip (qualified_id a b) = qualified_id a b"
  by (simp add: plain_text_iff qualified_id_def strip_same)

lemma allowed_labels_plain: "l \<in> set allowed_labels \<Longrightarrow> strip l = l"
proof -
  have "list_all (\<lambda>l. strip l = l) allowed_labels" by code_simp
  then show "l \<in> set allowed_labels \<Longrightarrow> strip l = l" by (simp add: list_all_iff)
qed

lemma allowed_splits_plain: "l \<in> set allowed_splits \<Longrightarrow> strip l = l"
proof -
  have "list_all (\<lambda>l. strip l = l) allowed_splits" by code_simp
  then show "l \<in> set allowed_splits \<Longrightarrow> strip l = l" by (simp add: list_all_iff)
qed

lemma metric_text_strip: "metric_text context (JStr s) = Inr t \<Longrightarrow> t = strip s"
  by (auto simp: metric_text_def nonempty_text_def split: if_splits)

lemma parse_prediction_fields:
  assumes "parse_prediction context (JObj [(''case_id'', JStr i), (''document_group'', JStr g), (''split'', JStr s),
    (''label'', JStr l), (''score'', x)]) = Inr p"
  shows "pr_case p = strip i \<and> pr_group p = strip g \<and> pr_split p = strip s \<and> pr_label p = strip l \<and>
    unit_score context x = Inr (pr_score p)"
  using assms by (auto simp: parse_prediction_def field_def dest!: metric_text_strip)

lemma bind_one_fields:
  assumes "registry_ok draft (vr_documents reg)" and "(i, d, c) \<in> set (registry_cases reg)"
    and "bind_one scores (i, d, c) = Inr p"
  shows "pr_case p = i \<and> pr_group p = vd_group d \<and> pr_split p = vd_split d \<and> pr_label p = vc_label c \<and>
    unit_score (''adapter score '' @ i) (field scores i) = Inr (pr_score p)"
proof -
  from assms(2) have d: "d \<in> set (vr_documents reg)" and c: "c \<in> set (vd_cases d)" and i: "i = qualified_id (vd_id d) (vc_id c)"
    by (auto simp: registry_cases_def case_entries_def)
  from assms(1) d have ok: "document_ok draft d" by (simp add: registry_ok_def)
  with c have "case_ok (vd_identity d) c" by (simp add: document_ok_def)
  then have "strip i = i" "strip (vc_label c) = vc_label c" "strip (vd_group d) = vd_group d" "strip (vd_split d) = vd_split d"
    using ok i by (auto simp: plain_qualified case_ok_def document_ok_def allowed_labels_plain allowed_splits_plain plain_text_def)
  moreover from assms(3) have "parse_prediction (''adapter score '' @ i) (JObj [(''case_id'', JStr i),
      (''document_group'', JStr (vd_group d)), (''split'', JStr (vd_split d)), (''label'', JStr (vc_label c)),
      (''score'', field scores i)]) = Inr p"
    by (auto simp: bind_one_def split: sum.splits metric_error.splits)
  ultimately show ?thesis using parse_prediction_fields by simp
qed

lemma bind_prediction_scores_items:
  assumes "registry_ok draft (vr_documents reg)" and "bind_prediction_scores reg scores = Inr ps"
  shows "mapE (bind_one scores) (sort_key fst (registry_cases reg)) = Inr ps"
    and "keys scores = set (map fst (registry_cases reg))"
proof -
  have "distinct (map fst (registry_cases reg))" using assms(1) by (simp add: registry_ok_def registry_cases_def)
  then have e: "dict_of (registry_cases reg) = registry_cases reg" by (rule dict_of_id)
  from assms(2) show "mapE (bind_one scores) (sort_key fst (registry_cases reg)) = Inr ps"
    by (simp add: bind_prediction_scores_def e Let_def split: if_splits)
  from assms(2) have "filter (\<lambda>k. k \<notin> set (map fst scores)) (map fst (registry_cases reg)) = []"
    "filter (\<lambda>k. k \<notin> set (map fst (registry_cases reg))) (map fst scores) = []"
    by (simp_all add: bind_prediction_scores_def e Let_def split: if_splits)
  then show "keys scores = set (map fst (registry_cases reg))" unfolding filter_empty_conv keys_def by blast
qed

lemma registry_cases_doc: "(i, d, c) \<in> set (registry_cases reg) \<Longrightarrow> d \<in> set (vr_documents reg)"
  by (auto simp: registry_cases_def case_entries_def)

lemma registry_cases_nonempty:
  assumes "registry_ok draft (vr_documents reg)" and "vr_documents reg \<noteq> []"
  shows "registry_cases reg \<noteq> []"
proof -
  let ?d = "hd (vr_documents reg)"
  have d: "?d \<in> set (vr_documents reg)" using assms(2) by simp
  with assms(1) have "document_ok draft ?d" by (simp add: registry_ok_def)
  then have "case_entries ?d \<noteq> []" by (auto simp: document_ok_def case_entries_def)
  with d show ?thesis unfolding registry_cases_def by auto
qed

lemma list_all2_map: "list_all2 (\<lambda>x y. f x = g y) xs ys \<Longrightarrow> map f xs = map g ys"
  by (induction rule: list_all2_induct) simp_all

subsection \<open>An example\<close>

definition sample_identity :: "string \<Rightarrow> json" where
  "sample_identity package = JObj [(''manufacturer'', JStr ''m''), (''mpn'', JStr ''n''), (''package'', JStr package)]"

definition sample_case :: "string \<Rightarrow> string \<Rightarrow> string \<Rightarrow> string \<Rightarrow> json" where
  "sample_case i label region package = JObj [(''id'', JStr i), (''label'', JStr label), (''region_type'', JStr region),
     (''page'', JInt 1), (''bbox_norm'', JArr [JInt 0, JInt 0, JInt 1, JInt 1]), (''view'', JStr ''top''),
     (''claimed_identity'', sample_identity package), (''rationale'', JStr ''r'')]"

definition sample_document :: json where
  "sample_document = JObj [(''id'', JStr ''d''), (''document_group'', JStr ''g''), (''split'', JStr ''development''),
     (''category'', JStr ''c''), (''source'', JObj [(''url'', JStr ''https://x''), (''revision'', JStr ''1'')]),
     (''content_sha256'', JStr (replicate 64 CHR ''a'')), (''redistribution'', JStr ''download_only''),
     (''license_note'', JStr ''l''), (''identity'', sample_identity ''p''),
     (''review'', JObj [(''status'', JStr ''unreviewed''), (''reviewers'', JArr []), (''reviewed_at'', JNull),
       (''annotation_revision'', JStr ''1'')]),
     (''cases'', JArr [sample_case ''1'' ''positive'' ''package'' ''p'', sample_case ''2'' ''positive'' ''pinout'' ''p'',
       sample_case ''3'' ''positive'' ''table'' ''p'', sample_case ''4'' ''wrong_package'' ''package'' ''q''])]"

definition sample_registry_json :: json where
  "sample_registry_json = JObj [(''schema_version'', JStr ''dsvire.visual-eval-registry.v1''),
     (''documents'', JArr [sample_document])]"

definition sample_documents :: "visual_document list" where
  "sample_documents = (case load_document (\<lambda>_. None) False empty_registry_state (0, sample_document) of
     Inr st \<Rightarrow> rs_documents st | Inl _ \<Rightarrow> [])"

definition sample_registry :: visual_registry where
  "sample_registry = \<lparr>vr_documents = sample_documents, vr_sha256 = []\<rparr>"

definition sample_scores :: "(string \<times> json) list" where
  "sample_scores = [(''d/1'', JInt 1), (''d/2'', JInt 1), (''d/3'', JInt 1), (''d/4'', JInt 0)]"

lemma sample_document_loads:
  "isl (load_document (\<lambda>_. None) False empty_registry_state (0, sample_document)) = False"
  by code_simp

lemma sample_registry_loads:
  "load_visual_registry_data (\<lambda>_. []) frepr (\<lambda>_. None) False sample_registry_json = Inr sample_registry"
proof -
  obtain st where st: "load_document (\<lambda>_. None) False empty_registry_state (0, sample_document) = Inr st"
    using sample_document_loads by (cases "load_document (\<lambda>_. None) False empty_registry_state (0, sample_document)") simp_all
  then show ?thesis
    by (simp add: load_visual_registry_data_def sample_registry_json_def registry_object_def object_items_def
        registry_keys_def strict_keys_def fields_are_def field_def array_items_def sample_registry_def sample_documents_def
        canonical_sha_def)
qed

lemma sample_scores_bind: "isl (bind_prediction_scores sample_registry sample_scores) = False"
  by code_simp

subsection \<open>Properties\<close>



text \<open>
  The registry owns the truth of the bound predictions: for a loaded registry, a binding that succeeds has
  one prediction for every case and no other, ordered by qualified id, with the group, split and label of the
  registry and only the score of the adapter; these predictions pass the validation of the metrics.
\<close>

theorem bound_predictions_are_registered:
  assumes "load_visual_registry_data sha frepr aware draft v = Inr reg" and "bind_prediction_scores reg scores = Inr ps"
  shows "keys scores = set (map fst (registry_cases reg)) \<and>
    map pr_case ps = sort (map fst (registry_cases reg)) \<and> validated_predictions ps = Inr ps \<and>
    (\<forall>p \<in> set ps. \<exists>d c. (pr_case p, d, c) \<in> set (registry_cases reg) \<and> pr_group p = vd_group d \<and>
       pr_split p = vd_split d \<and> pr_label p = vc_label c \<and>
       unit_score (''adapter score '' @ pr_case p) (field scores (pr_case p)) = Inr (pr_score p))"
proof -
  note ok = loaded_registry(1) [OF assms(1)] and ne = loaded_registry(2) [OF assms(1)]
  note items = bind_prediction_scores_items [OF ok assms(2)]
  have each: "list_all2 (\<lambda>e p. bind_one scores e = Inr p) (sort_key fst (registry_cases reg)) ps"
    using items(1) by (simp add: mapE_eq_Inr)
  have props: "\<exists>d c. (pr_case p, d, c) \<in> set (registry_cases reg) \<and> pr_group p = vd_group d \<and>
       pr_split p = vd_split d \<and> pr_label p = vc_label c \<and>
       unit_score (''adapter score '' @ pr_case p) (field scores (pr_case p)) = Inr (pr_score p)" if "p \<in> set ps" for p
  proof -
    from mapE_in_set [OF items(1) that] obtain i d c where "(i, d, c) \<in> set (registry_cases reg)" "bind_one scores (i, d, c) = Inr p"
      by auto
    with bind_one_fields [OF ok this] show ?thesis by blast
  qed
  have "list_all2 (\<lambda>e p. fst e = pr_case p) (sort_key fst (registry_cases reg)) ps"
    using each by (rule list.rel_mono_strong) (use bind_one_fields [OF ok] in fastforce)
  then have ids: "map pr_case ps = map fst (sort_key fst (registry_cases reg))" by (rule list_all2_map [symmetric])
  have sorted: "map fst (sort_key fst (registry_cases reg)) = sort (map fst (registry_cases reg))"
    by (rule properties_for_sort [symmetric]) simp_all
  have d: "distinct (map fst (registry_cases reg))" using ok by (simp add: registry_ok_def registry_cases_def)
  have agree: "\<forall>d \<in> set (vr_documents reg). \<forall>e \<in> set (vr_documents reg). vd_group d = vd_group e \<longrightarrow> vd_split d = vd_split e"
    using ok unfolding registry_ok_def by blast
  have "registry_cases reg \<noteq> []" using registry_cases_nonempty [OF ok ne] .
  then have "ps \<noteq> []" using ids by (metis map_is_Nil_conv sorted length_sort length_0_conv length_map)
  moreover have "groups_agree ps" unfolding groups_agree_def
  proof (intro ballI impI)
    fix p q assume "p \<in> set ps" "q \<in> set ps" and same: "pr_group p = pr_group q"
    then obtain d e where "d \<in> set (vr_documents reg)" "e \<in> set (vr_documents reg)" "pr_group p = vd_group d"
      "pr_group q = vd_group e" "pr_split p = vd_split d" "pr_split q = vd_split e"
      using props registry_cases_doc by metis
    with same agree show "pr_split p = pr_split q" by metis
  qed
  ultimately have "validated_predictions ps = Inr ps" using ids sorted d by (simp add: validated_iff)
  then show ?thesis using items(2) ids sorted props by simp
qed

lemma bound_predictions_are_registered_witness:
  "\<exists>ps. bind_prediction_scores sample_registry sample_scores = Inr ps \<and> validated_predictions ps = Inr ps \<and>
     map pr_case ps = sort (map fst (registry_cases sample_registry))"
proof -
  obtain ps where ps: "bind_prediction_scores sample_registry sample_scores = Inr ps"
    using sample_scores_bind by (cases "bind_prediction_scores sample_registry sample_scores") simp_all
  from bound_predictions_are_registered [OF sample_registry_loads [of "\<lambda>_. []"] this] ps show ?thesis by blast
qed

end
