(* ===== verification/CorpusCoverage.thy ===== *)
theory CorpusCoverage
  imports VisualRegistry
begin

section \<open>The coverage ledger and the query registry\<close>

text \<open>
  \<open>src/dsvire/corpus_coverage.py\<close>: the coverage policy, the registry of benchmark queries with its relevance
  judgments, and the ledger that counts what a registry covers.
\<close>

datatype coverage_error = CoverageError string | CoverageEscape string

definition positive_count :: "json \<Rightarrow> string \<Rightarrow> coverage_error + int" where
  "positive_count v context = (case v of
     JInt n \<Rightarrow> if 1 \<le> n then Inr n else Inl (CoverageError (context @ '' must be a positive integer''))
   | _ \<Rightarrow> Inl (CoverageError (context @ '' must be a positive integer'')))"

text \<open>\<open>isinstance(item, str) and item.strip()\<close>: the text itself, not stripped.\<close>

definition filled_text :: "json \<Rightarrow> string option" where
  "filled_text v = (case v of JStr s \<Rightarrow> if strip s = [] then None else Some s | _ \<Rightarrow> None)"

definition require_text :: "coverage_error \<Rightarrow> json \<Rightarrow> coverage_error + string" where
  "require_text e v = (case filled_text v of None \<Rightarrow> Inl e | Some s \<Rightarrow> Inr s)"

definition coverage_strings :: "json \<Rightarrow> string \<Rightarrow> coverage_error + string list" where
  "coverage_strings v context = (case array_items v of
     None \<Rightarrow> Inl (CoverageError (context @ '' must be a non-empty array''))
   | Some items \<Rightarrow>
       if items = [] then Inl (CoverageError (context @ '' must be a non-empty array''))
       else bindE (mapE (require_text (CoverageError (context @ '' must contain non-empty strings''))) items) (\<lambda>result.
         if \<not> distinct result then Inl (CoverageError (context @ '' contains duplicates'')) else Inr result))"

subsection \<open>The policy\<close>

record coverage_policy =
  cp_documents :: int
  cp_queries :: int
  cp_splits :: "string list"
  cp_labels :: "string list"
  cp_regions :: "string list"
  cp_strata :: "(string \<times> string list) list"
  cp_sha256 :: string

definition own_category :: "string \<Rightarrow> (string \<times> string) list \<Rightarrow> string \<Rightarrow> coverage_error + (string \<times> string) list" where
  "own_category name owners category = (case setdefault owners category name of (previous, owners') \<Rightarrow>
     if previous \<noteq> name
     then Inl (CoverageError (''category '' @ repr_str category @ '' belongs to multiple strata: '' @ repr_str previous @
       '', '' @ repr_str name))
     else Inr owners')"

definition load_stratum :: "(string \<times> string list) list \<times> (string \<times> string) list \<Rightarrow> string \<times> json \<Rightarrow>
    coverage_error + ((string \<times> string list) list \<times> (string \<times> string) list)" where
  "load_stratum state item = (case (state, item) of ((strata, owners), (name, raw)) \<Rightarrow>
     if strip name = [] then Inl (CoverageError ''policy.category_strata names must be non-empty'')
     else bindE (coverage_strings raw (''policy.category_strata.'' @ name)) (\<lambda>categories.
       bindE (foldE (own_category name) owners categories) (\<lambda>owners'.
         Inr (strata @ [(name, categories)], owners'))))"

definition policy_keys :: "string list" where
  "policy_keys = [''schema_version'', ''targets'', ''required_splits'', ''required_case_labels'', ''required_region_types'',
     ''category_strata'']"

definition policy_targets :: "json \<Rightarrow> coverage_error + (string \<times> json) list" where
  "policy_targets v = (case object_items v of
     None \<Rightarrow> Inl (CoverageError ''policy.targets must contain only documents and queries'')
   | Some d \<Rightarrow> if fields_are [''documents'', ''queries''] d then Inr d
       else Inl (CoverageError ''policy.targets must contain only documents and queries''))"

definition policy_strata :: "json \<Rightarrow> coverage_error + (string \<times> json) list" where
  "policy_strata v = (case object_items v of
     None \<Rightarrow> Inl (CoverageError ''policy.category_strata must be a non-empty object'')
   | Some d \<Rightarrow> if d = [] then Inl (CoverageError ''policy.category_strata must be a non-empty object'') else Inr d)"

definition load_coverage_policy :: "(bytes \<Rightarrow> string) \<Rightarrow> (pyfloat \<Rightarrow> string) \<Rightarrow> json \<Rightarrow> coverage_error + coverage_policy" where
  "load_coverage_policy sha frepr v = (case object_items v of
     None \<Rightarrow> Inl (CoverageError ''policy must be an object'')
   | Some d \<Rightarrow>
     bindE (strict_keys CoverageError ''policy'' policy_keys d) (\<lambda>_.
     bindE (ensure (field d ''schema_version'' = JStr ''dsvire.corpus-coverage-policy.v1'')
       (CoverageError (''unsupported policy version: '' @ repr_json frepr (field d ''schema_version'')))) (\<lambda>_.
     bindE (policy_targets (field d ''targets'')) (\<lambda>targets.
     bindE (policy_strata (field d ''category_strata'')) (\<lambda>strata_raw.
     bindE (foldE load_stratum ([], []) strata_raw) (\<lambda>(strata, owners).
     bindE (positive_count (field targets ''documents'') ''policy.targets.documents'') (\<lambda>documents.
     bindE (positive_count (field targets ''queries'') ''policy.targets.queries'') (\<lambda>queries.
     bindE (coverage_strings (field d ''required_splits'') ''policy.required_splits'') (\<lambda>splits.
     bindE (coverage_strings (field d ''required_case_labels'') ''policy.required_case_labels'') (\<lambda>labels.
     bindE (coverage_strings (field d ''required_region_types'') ''policy.required_region_types'') (\<lambda>regions.
       Inr \<lparr>cp_documents = documents, cp_queries = queries, cp_splits = splits, cp_labels = labels,
         cp_regions = regions, cp_strata = strata, cp_sha256 = canonical_sha sha frepr v\<rparr>)))))))))))"

subsection \<open>The queries\<close>

record query_record =
  qr_id :: string
  qr_group :: string
  qr_split :: string
  qr_text :: string
  qr_type :: string
  qr_judgments :: "(string \<times> int) list"
  qr_hard_negatives :: "string list"
  qr_method :: string
  qr_generator :: string
  qr_reviewed :: bool

record query_registry =
  qg_queries :: "query_record list"
  qg_sha256 :: string

definition documents_by_group :: "visual_registry \<Rightarrow> (string \<times> visual_document) list" where
  "documents_by_group reg = dict_of (map (\<lambda>d. (vd_group d, d)) (vr_documents reg))"

definition case_owners :: "visual_registry \<Rightarrow> (string \<times> visual_document \<times> visual_case) list" where
  "case_owners reg = dict_of (registry_cases reg)"

text \<open>One iteration of the loop over the judgments of a query.\<close>

definition grade_of :: "json \<Rightarrow> int option" where
  "grade_of v = (case v of JInt g \<Rightarrow> if g = 1 \<or> g = 2 then Some g else None | _ \<Rightarrow> None)"

definition load_judgment :: "string \<Rightarrow> (string \<times> int) list \<Rightarrow> nat \<times> json \<Rightarrow> coverage_error + (string \<times> int) list" where
  "load_judgment context judgments item =
     (let judgment_context = at_index (context @ ''.relevance_judgments'') (fst item) in
     case object_items (snd item) of
       None \<Rightarrow> Inl (CoverageError (judgment_context @ '' keys are invalid''))
     | Some d \<Rightarrow>
       bindE (ensure (fields_are [''case_id'', ''grade''] d) (CoverageError (judgment_context @ '' keys are invalid''))) (\<lambda>_.
       bindE (require_text (CoverageError (judgment_context @ ''.case_id must be non-empty text'')) (field d ''case_id'')) (\<lambda>case_id.
       bindE (ensure (case_id \<notin> set (map fst judgments)) (CoverageError (context @ '' contains duplicate relevance judgments''))) (\<lambda>_.
       case grade_of (field d ''grade'') of
         None \<Rightarrow> Inl (CoverageError (judgment_context @ ''.grade must be 1 or 2''))
       | Some g \<Rightarrow> Inr (judgments @ [(case_id, g)])))))"

definition load_judgments :: "json \<Rightarrow> string \<Rightarrow> coverage_error + (string \<times> int) list" where
  "load_judgments v context = (case array_items v of
     None \<Rightarrow> Inl (CoverageError (context @ ''.relevance_judgments must be non-empty''))
   | Some raw \<Rightarrow>
       if raw = [] then Inl (CoverageError (context @ ''.relevance_judgments must be non-empty''))
       else foldE (load_judgment context) [] (enumerate 0 raw))"

text \<open>\<open>method not in {...}\<close> hashes the value first: an array or an object raises \<open>TypeError\<close>.\<close>

definition load_method :: "json \<Rightarrow> string \<Rightarrow> coverage_error + string" where
  "load_method v context = (case v of
     JArr _ \<Rightarrow> Inl (CoverageEscape ''TypeError'')
   | JObj _ \<Rightarrow> Inl (CoverageEscape ''TypeError'')
   | JStr s \<Rightarrow> if s = ''deterministic_template'' \<or> s = ''manual'' then Inr s
       else Inl (CoverageError (context @ ''.provenance.method is unsupported''))
   | _ \<Rightarrow> Inl (CoverageError (context @ ''.provenance.method is unsupported'')))"

definition load_provenance :: "json \<Rightarrow> string \<Rightarrow> coverage_error + (string \<times> string \<times> bool)" where
  "load_provenance v context = (case object_items v of
     None \<Rightarrow> Inl (CoverageError (context @ ''.provenance keys are invalid''))
   | Some d \<Rightarrow>
       bindE (ensure (fields_are [''method'', ''generator'', ''independently_reviewed''] d)
         (CoverageError (context @ ''.provenance keys are invalid''))) (\<lambda>_.
       bindE (load_method (field d ''method'') context) (\<lambda>method.
       bindE (require_text (CoverageError (context @ ''.provenance.generator must be non-empty text'')) (field d ''generator''))
         (\<lambda>generator.
       case field d ''independently_reviewed'' of
         JBool reviewed \<Rightarrow> Inr (method, generator, reviewed)
       | _ \<Rightarrow> Inl (CoverageError (context @ ''.provenance.independently_reviewed must be boolean''))))))"

definition relevant_case :: "visual_registry \<Rightarrow> string \<Rightarrow> string \<Rightarrow> string \<Rightarrow> string \<times> int \<Rightarrow> coverage_error + unit" where
  "relevant_case reg context grp query_type judgment = (case map_of (case_owners reg) (fst judgment) of
     None \<Rightarrow> Inl (CoverageError (context @ '' references unknown case '' @ repr_str (fst judgment)))
   | Some (d, c) \<Rightarrow>
       if vd_group d \<noteq> grp \<or> vc_label c \<noteq> positive
       then Inl (CoverageError (context @ '' relevant cases must be positive cases in its document group''))
       else if vc_region c \<noteq> query_type
       then Inl (CoverageError (context @ '' relevant case type differs from query_type''))
       else Inr ())"

definition negative_case :: "visual_registry \<Rightarrow> string \<Rightarrow> string \<Rightarrow> string \<Rightarrow> string \<Rightarrow> coverage_error + unit" where
  "negative_case reg context grp query_type case_id = (case map_of (case_owners reg) case_id of
     None \<Rightarrow> Inl (CoverageError (context @ '' references unknown hard negative '' @ repr_str case_id))
   | Some (d, c) \<Rightarrow>
       if vd_group d \<noteq> grp \<or> (vc_label c = positive \<and> vc_region c = query_type)
       then Inl (CoverageError (context @ '' hard negatives must be non-relevant cases in its document group''))
       else Inr ())"

definition query_keys :: "string list" where
  "query_keys = [''id'', ''document_group'', ''split'', ''query_text'', ''query_type'', ''relevance_judgments'',
     ''hard_negative_case_ids'', ''provenance'']"

definition load_query :: "visual_registry \<Rightarrow> query_record list \<Rightarrow> nat \<times> json \<Rightarrow> coverage_error + query_record list" where
  "load_query reg records item =
     (let context = at_index ''query registry queries'' (fst item);
          text_field = (\<lambda>d name. require_text (CoverageError (context @ ''.'' @ name @ '' must be non-empty text'')) (field d name))
     in case object_items (snd item) of
       None \<Rightarrow> Inl (CoverageError (context @ '' keys are invalid''))
     | Some d \<Rightarrow>
       bindE (ensure (fields_are query_keys d) (CoverageError (context @ '' keys are invalid''))) (\<lambda>_.
       bindE (text_field d ''id'') (\<lambda>query_id.
       bindE (text_field d ''document_group'') (\<lambda>grp.
       bindE (text_field d ''split'') (\<lambda>split.
       bindE (text_field d ''query_text'') (\<lambda>query_text.
       bindE (text_field d ''query_type'') (\<lambda>query_type.
       bindE (ensure (query_id \<notin> set (map qr_id records)) (CoverageError (''duplicate query id: '' @ query_id))) (\<lambda>_.
       case map_of (documents_by_group reg) grp of
         None \<Rightarrow> Inl (CoverageError (context @ '' references unknown document group''))
       | Some document \<Rightarrow>
       bindE (ensure (split = vd_split document) (CoverageError (context @ '' split differs from its document group''))) (\<lambda>_.
       bindE (load_judgments (field d ''relevance_judgments'') context) (\<lambda>judgments.
       bindE (coverage_strings (field d ''hard_negative_case_ids'') (context @ ''.hard_negative_case_ids'')) (\<lambda>negatives.
       bindE (ensure (\<not> list_ex (\<lambda>i. i \<in> set negatives) (map fst judgments))
         (CoverageError (context @ '' relevance and hard negatives overlap''))) (\<lambda>_.
       bindE (load_provenance (field d ''provenance'') context) (\<lambda>(method, generator, reviewed).
       bindE (ensure (split = ''development'' \<or> reviewed)
         (CoverageError (context @ '' held-out query records require independent review''))) (\<lambda>_.
       bindE (mapE (relevant_case reg context grp query_type) judgments) (\<lambda>_.
       bindE (mapE (negative_case reg context grp query_type) negatives) (\<lambda>_.
         Inr (records @ [\<lparr>qr_id = query_id, qr_group = grp, qr_split = split, qr_text = query_text, qr_type = query_type,
           qr_judgments = judgments, qr_hard_negatives = negatives, qr_method = method, qr_generator = generator,
           qr_reviewed = reviewed\<rparr>])))))))))))))))))"

definition load_query_registry :: "(bytes \<Rightarrow> string) \<Rightarrow> (pyfloat \<Rightarrow> string) \<Rightarrow> json \<Rightarrow> visual_registry \<Rightarrow>
    coverage_error + query_registry" where
  "load_query_registry sha frepr v reg = (case object_items v of
     None \<Rightarrow> Inl (CoverageError ''query registry must contain only schema_version and queries'')
   | Some d \<Rightarrow>
     bindE (ensure (fields_are [''schema_version'', ''queries''] d)
       (CoverageError ''query registry must contain only schema_version and queries'')) (\<lambda>_.
     bindE (ensure (field d ''schema_version'' = JStr ''dsvire.query-registry.v2'')
       (CoverageError (''unsupported query registry version: '' @ repr_json frepr (field d ''schema_version'')))) (\<lambda>_.
     case array_items (field d ''queries'') of
       None \<Rightarrow> Inl (CoverageError ''query registry queries must be an array'')
     | Some raw \<Rightarrow>
       bindE (foldE (load_query reg) [] (enumerate 0 raw)) (\<lambda>records.
         Inr \<lparr>qg_queries = records, qg_sha256 = canonical_sha sha frepr v\<rparr>))))"

subsection \<open>The ledger\<close>

definition count_json :: "nat \<Rightarrow> json" where
  "count_json n = JInt (int n)"

definition counts_of :: "string list \<Rightarrow> string list \<Rightarrow> (string \<times> nat) list" where
  "counts_of values ordered_keys =
     (let ks = (if ordered_keys \<noteq> [] then ordered_keys else sort (remdups values))
      in dict_of (map (\<lambda>k. (k, count_list values k)) ks))"

definition counts_json :: "(string \<times> nat) list \<Rightarrow> json" where
  "counts_json cs = JObj (map (\<lambda>(k, n). (k, count_json n)) cs)"

datatype review_kind = Independent | Agent | Unreviewed

definition kind_of_review :: "visual_document \<Rightarrow> review_kind" where
  "kind_of_review d =
     (if rev_status (vd_review d) \<noteq> ''reviewed'' then Unreviewed
      else if list_all (starts_with ''agent:'') (rev_reviewers (vd_review d)) then Agent
      else Independent)"

definition review_count :: "review_kind \<Rightarrow> visual_document list \<Rightarrow> nat" where
  "review_count k docs = length (filter (\<lambda>d. kind_of_review d = k) docs)"

definition category_owners :: "coverage_policy \<Rightarrow> (string \<times> string) list" where
  "category_owners p = dict_of (concat (map (\<lambda>(stratum, members). map (\<lambda>c. (c, stratum)) members) (cp_strata p)))"

definition stratum_documents :: "coverage_policy \<Rightarrow> visual_document list \<Rightarrow> (string \<times> nat) list" where
  "stratum_documents p docs =
     map (\<lambda>(stratum, _). (stratum, length (filter (\<lambda>d. map_of (category_owners p) (vd_category d) = Some stratum) docs)))
       (cp_strata p)"

definition all_cases :: "visual_document list \<Rightarrow> visual_case list" where
  "all_cases docs = concat (map vd_cases docs)"

text \<open>The checks before the counting; each reports the sorted values it refuses.\<close>

definition outside :: "string list \<Rightarrow> string list \<Rightarrow> string list" where
  "outside xs allowed = sort (remdups (filter (\<lambda>x. x \<notin> set allowed) xs))"

definition audit_checks :: "visual_document list \<Rightarrow> coverage_policy \<Rightarrow> coverage_error + unit" where
  "audit_checks docs p =
     (let unsupported = outside (map vd_category docs) (map fst (category_owners p));
          missing = outside (cp_splits p) (map vd_split docs);
          labels = outside (map vc_label (all_cases docs)) (cp_labels p);
          regions = outside (map vc_region (all_cases docs)) (cp_regions p)
      in if unsupported \<noteq> []
         then Inl (CoverageError (''registry categories are not assigned to a stratum: '' @ repr_strs unsupported))
         else if missing \<noteq> [] then Inl (CoverageError (''registry is missing required splits: '' @ repr_strs missing))
         else if labels \<noteq> [] then Inl (CoverageError (''registry contains unsupported labels: '' @ repr_strs labels))
         else if regions \<noteq> []
         then Inl (CoverageError (''registry contains unsupported region types: '' @ repr_strs regions))
         else Inr ())"

definition distinct_count :: "string list \<Rightarrow> nat" where
  "distinct_count xs = length (remdups xs)"

definition target_met :: "visual_registry \<Rightarrow> coverage_policy \<Rightarrow> query_registry \<Rightarrow> bool" where
  "target_met reg p qs \<longleftrightarrow> cp_documents p \<le> int (length (vr_documents reg)) \<and> cp_queries p \<le> int (length (qg_queries qs))"

definition remaining :: "visual_registry \<Rightarrow> coverage_policy \<Rightarrow> query_registry \<Rightarrow> int \<times> int" where
  "remaining reg p qs =
     (max 0 (cp_documents p - int (length (vr_documents reg))), max 0 (cp_queries p - int (length (qg_queries qs))))"

definition split_entry :: "visual_document list \<Rightarrow> string \<Rightarrow> string \<times> json" where
  "split_entry docs split =
     (let members = filter (\<lambda>d. vd_split d = split) docs in
      (split, JObj [(''documents'', count_json (length members)),
        (''families'', count_json (distinct_count (map vd_group members))),
        (''annotated_cases'', count_json (length (all_cases members)))]))"

definition coverage_limitations :: "string list" where
  "coverage_limitations =
     [''annotated visual cases are not natural-language benchmark queries'',
      ''deterministically templated development queries are not independent annotations or held-out evidence'',
      ''owner-authorized agent review is not independent human annotation'',
      ''download-only source records do not establish legal approval'',
      ''coverage counts do not establish retrieval accuracy or representativeness'']"

definition audit_corpus_coverage :: "visual_registry \<Rightarrow> coverage_policy \<Rightarrow> query_registry \<Rightarrow>
    coverage_error + (string \<times> json) list" where
  "audit_corpus_coverage reg p qs =
     (let docs = vr_documents reg; cases = all_cases docs; queries = qg_queries qs in
     bindE (audit_checks docs p) (\<lambda>_. Inr
       [(''schema_version'', JStr ''dsvire.corpus-coverage.v1''),
        (''registry_sha256'', JStr (vr_sha256 reg)), (''query_registry_sha256'', JStr (qg_sha256 qs)),
        (''policy_sha256'', JStr (cp_sha256 p)),
        (''targets'', JObj [(''documents'', JInt (cp_documents p)), (''queries'', JInt (cp_queries p))]),
        (''achieved'', JObj [(''documents'', count_json (length docs)),
          (''document_families'', count_json (distinct_count (map vd_group docs))),
          (''explicit_queries'', count_json (length queries)), (''annotated_cases'', count_json (length cases)),
          (''manufacturers'', count_json (distinct_count (map (\<lambda>d. id_manufacturer (vd_identity d)) docs))),
          (''categories'', count_json (distinct_count (map vd_category docs)))]),
        (''remaining'', JObj [(''documents'', JInt (fst (remaining reg p qs))), (''queries'', JInt (snd (remaining reg p qs)))]),
        (''target_met'', JBool (target_met reg p qs)),
        (''splits'', JObj (dict_of (map (split_entry docs) (cp_splits p)))),
        (''case_labels'', counts_json (counts_of (map vc_label cases) (cp_labels p))),
        (''case_intents'', counts_json (counts_of (map vc_region cases) (cp_regions p))),
        (''query_intents'', counts_json (counts_of (map qr_type queries) (cp_regions p))),
        (''query_provenance'', JObj [
          (''deterministic_template'', count_json (length (filter (\<lambda>q. qr_method q = ''deterministic_template'') queries))),
          (''manual'', count_json (length (filter (\<lambda>q. qr_method q = ''manual'') queries))),
          (''independently_reviewed'', count_json (length (filter qr_reviewed queries)))]),
        (''category_strata_documents'', counts_json (stratum_documents p docs)),
        (''review'', JObj [(''independent_human_documents'', count_json (review_count Independent docs)),
          (''owner_authorized_agent_documents'', count_json (review_count Agent docs)),
          (''unreviewed_documents'', count_json (review_count Unreviewed docs))]),
        (''limitations'', JArr (map JStr coverage_limitations))]))"

subsection \<open>What a loaded query registry satisfies\<close>

definition judged_query_ok :: "visual_registry \<Rightarrow> query_record \<Rightarrow> bool" where
  "judged_query_ok reg q \<longleftrightarrow> qr_judgments q \<noteq> [] \<and> distinct (map fst (qr_judgments q)) \<and>
     (\<forall>(i, g) \<in> set (qr_judgments q). (g = 1 \<or> g = 2) \<and>
        (\<exists>d c. (i, d, c) \<in> set (registry_cases reg) \<and> vd_group d = qr_group q \<and> vc_label c = positive \<and> vc_region c = qr_type q)) \<and>
     qr_hard_negatives q \<noteq> [] \<and> distinct (qr_hard_negatives q) \<and>
     (\<forall>i \<in> set (qr_hard_negatives q). i \<notin> set (map fst (qr_judgments q)) \<and>
        (\<exists>d c. (i, d, c) \<in> set (registry_cases reg) \<and> vd_group d = qr_group q \<and>
           \<not> (vc_label c = positive \<and> vc_region c = qr_type q))) \<and>
     (\<exists>d \<in> set (vr_documents reg). vd_group d = qr_group q \<and> vd_split d = qr_split q) \<and>
     (qr_split q = ''development'' \<or> qr_reviewed q)"

lemma map_of_dict_ofD: "map_of (dict_of items) k = Some v \<Longrightarrow> (k, v) \<in> set items"
  unfolding map_of_dict_of by (drule map_of_SomeD) simp

lemma case_owners_in: "map_of (case_owners reg) i = Some (d, c) \<Longrightarrow> (i, d, c) \<in> set (registry_cases reg)"
  unfolding case_owners_def by (rule map_of_dict_ofD)

lemma coverage_strings_ok:
  assumes "coverage_strings v context = Inr xs"
  shows "xs \<noteq> [] \<and> distinct xs"
proof -
  from assms obtain items e where "items \<noteq> []" "mapE (require_text e) items = Inr xs" "distinct xs"
    by (auto simp: coverage_strings_def split: option.splits if_splits)
  then show ?thesis using mapE_length by force
qed

definition judgments_ok :: "(string \<times> int) list \<Rightarrow> bool" where
  "judgments_ok js \<longleftrightarrow> distinct (map fst js) \<and> (\<forall>(i, g) \<in> set js. g = 1 \<or> g = 2)"

lemma load_judgment_snoc:
  assumes "load_judgment context js item = Inr js'"
  obtains i g where "i \<notin> set (map fst js)" "g = 1 \<or> g = 2" "js' = js @ [(i, g)]"
  using assms by (auto simp: load_judgment_def grade_of_def Let_def split: option.splits json.splits if_splits)

interpretation judgment_loop: collecting_loop "load_judgment ctx" judgments_ok length for ctx
  by unfold_locales (auto elim!: load_judgment_snoc simp: judgments_ok_def)

lemma load_judgments_ok:
  assumes "load_judgments v context = Inr js"
  shows "judgments_ok js \<and> js \<noteq> []"
proof -
  from assms obtain raw where raw: "raw \<noteq> []" and f: "foldE (load_judgment context) [] (enumerate 0 raw) = Inr js"
    by (auto simp: load_judgments_def split: option.splits if_splits)
  have start: "judgments_ok []" by (simp add: judgments_ok_def)
  show ?thesis using judgment_loop.loop_good [OF f start] judgment_loop.loop_collects [OF f start] raw by auto
qed

lemma relevant_case_ok:
  "relevant_case reg context grp t j = Inr u \<Longrightarrow>
     \<exists>d c. (fst j, d, c) \<in> set (registry_cases reg) \<and> vd_group d = grp \<and> vc_label c = positive \<and> vc_region c = t"
  by (auto simp: relevant_case_def split: option.splits if_splits dest!: case_owners_in) blast

lemma negative_case_ok:
  "negative_case reg context grp t i = Inr u \<Longrightarrow>
     \<exists>d c. (i, d, c) \<in> set (registry_cases reg) \<and> vd_group d = grp \<and> \<not> (vc_label c = positive \<and> vc_region c = t)"
  by (auto simp: negative_case_def split: option.splits if_splits dest!: case_owners_in) blast+

lemma mapE_all: "mapE f xs = Inr ys \<Longrightarrow> x \<in> set xs \<Longrightarrow> \<exists>y. f x = Inr y"
  by (induction xs arbitrary: ys) auto

lemma load_query_ok:
  assumes "load_query reg records item = Inr records'"
  obtains q where "records' = records @ [q]" "qr_id q \<notin> set (map qr_id records)" "judged_query_ok reg q"
proof -
  let ?ctx = "at_index ''query registry queries'' (fst item)"
  from assms obtain d query_id grp split query_text query_type document judgments negatives meth gen reviewed us vs where
    fresh: "query_id \<notin> set (map qr_id records)"
    and doc: "map_of (documents_by_group reg) grp = Some document" "split = vd_split document"
    and js: "load_judgments (field d ''relevance_judgments'') ?ctx = Inr judgments"
    and ns: "coverage_strings (field d ''hard_negative_case_ids'') (?ctx @ ''.hard_negative_case_ids'') = Inr negatives"
    and disj: "\<not> list_ex (\<lambda>i. i \<in> set negatives) (map fst judgments)"
    and rev: "split = ''development'' \<or> reviewed"
    and rel: "mapE (relevant_case reg ?ctx grp query_type) judgments = Inr us"
    and neg: "mapE (negative_case reg ?ctx grp query_type) negatives = Inr vs"
    and out: "records' = records @ [\<lparr>qr_id = query_id, qr_group = grp, qr_split = split, qr_text = query_text, qr_type = query_type,
           qr_judgments = judgments, qr_hard_negatives = negatives, qr_method = meth, qr_generator = gen,
           qr_reviewed = reviewed\<rparr>]"
    unfolding load_query_def Let_def by (auto split: option.splits prod.splits)
  have "document \<in> set (vr_documents reg) \<and> vd_group document = grp"
    using map_of_dict_ofD [OF doc(1) [unfolded documents_by_group_def]] by auto
  moreover have "\<exists>d c. (i, d, c) \<in> set (registry_cases reg) \<and> vd_group d = grp \<and> vc_label c = positive \<and> vc_region c = query_type"
    if "(i, g) \<in> set judgments" for i g
    using mapE_all [OF rel that] relevant_case_ok by fastforce
  moreover have "\<exists>d c. (i, d, c) \<in> set (registry_cases reg) \<and> vd_group d = grp \<and> \<not> (vc_label c = positive \<and> vc_region c = query_type)"
    if "i \<in> set negatives" for i
    using mapE_all [OF neg that] negative_case_ok by blast
  moreover have "\<forall>i \<in> set negatives. i \<notin> set (map fst judgments)" using disj unfolding list_ex_iff by blast
  ultimately have "judged_query_ok reg \<lparr>qr_id = query_id, qr_group = grp, qr_split = split, qr_text = query_text, qr_type = query_type,
           qr_judgments = judgments, qr_hard_negatives = negatives, qr_method = meth, qr_generator = gen,
           qr_reviewed = reviewed\<rparr>"
    using load_judgments_ok [OF js] coverage_strings_ok [OF ns] rev doc(2) unfolding judged_query_ok_def judgments_ok_def
    by (auto simp: list.set_map)
  then show thesis using out fresh by (intro that) simp_all
qed

definition queries_good :: "visual_registry \<Rightarrow> query_record list \<Rightarrow> bool" where
  "queries_good reg qs \<longleftrightarrow> distinct (map qr_id qs) \<and> (\<forall>q \<in> set qs. judged_query_ok reg q)"

interpretation query_loop: collecting_loop "load_query reg" "queries_good reg" length for reg
  by unfold_locales (auto elim!: load_query_ok simp: queries_good_def)

lemma loaded_queries:
  assumes "load_query_registry sha frepr v reg = Inr qs"
  shows "distinct (map qr_id (qg_queries qs))" and "\<forall>q \<in> set (qg_queries qs). judged_query_ok reg q"
    and "qg_sha256 qs = canonical_sha sha frepr v"
proof -
  from assms obtain raw where f: "foldE (load_query reg) [] (enumerate 0 raw) = Inr (qg_queries qs)"
    and s: "qg_sha256 qs = canonical_sha sha frepr v"
    by (auto simp: load_query_registry_def split: option.splits)
  have "queries_good reg []" by (simp add: queries_good_def)
  with f have "queries_good reg (qg_queries qs)" by (rule query_loop.loop_good)
  then show "distinct (map qr_id (qg_queries qs))" "\<forall>q \<in> set (qg_queries qs). judged_query_ok reg q"
    by (simp_all add: queries_good_def)
  show "qg_sha256 qs = canonical_sha sha frepr v" by (rule s)
qed

subsection \<open>What the ledger adds up to\<close>

lemma count_partition:
  assumes "distinct ks" and "\<forall>x \<in> set xs. \<exists>k \<in> set ks. f x = Some k"
  shows "sum_list (map (\<lambda>k. length (filter (\<lambda>x. f x = Some k) xs)) ks) = length xs"
  using assms(2)
proof (induction xs)
  case (Cons x xs)
  then obtain k where k: "k \<in> set ks" "f x = Some k" by auto
  have "sum_list (map (\<lambda>j. length (filter (\<lambda>x. f x = Some j) (x # xs))) ks) =
      sum_list (map (\<lambda>j. (if j = k then 1 else 0) + length (filter (\<lambda>x. f x = Some j) xs)) ks)"
    by (rule arg_cong [of _ _ sum_list], rule map_cong) (auto simp: k(2))
  also have "\<dots> = sum_list (map (\<lambda>j. if j = k then 1 else 0) ks) + length xs"
    using Cons by (simp add: sum_list_addf)
  also have "sum_list (map (\<lambda>j. if j = k then 1 else (0::nat)) ks) = 1"
    using assms(1) k(1) by (simp add: sum_list_distinct_conv_sum_set)
  finally show ?case by simp
qed simp

lemma counts_of_total:
  assumes "ks \<noteq> []" and "distinct ks" and "set values \<subseteq> set ks"
  shows "sum_list (map snd (counts_of values ks)) = length values"
proof -
  have "sum_list (map (\<lambda>k. length (filter (\<lambda>x. Some x = Some k) values)) ks) = length values"
    using assms(2,3) by (intro count_partition) auto
  moreover have "counts_of values ks = map (\<lambda>k. (k, count_list values k)) ks"
    using assms(1,2) by (simp add: counts_of_def Let_def dict_of_id o_def)
  ultimately show ?thesis
    by (simp add: o_def count_list_eq_length_filter eq_commute)
qed

lemma review_counts_total:
  "review_count Independent docs + review_count Agent docs + review_count Unreviewed docs = length docs"
  by (induction docs) (simp_all add: review_count_def kind_of_review_def)

lemma outside_empty: "outside xs allowed = [] \<longleftrightarrow> set xs \<subseteq> set allowed"
proof -
  have "outside xs allowed = [] \<longleftrightarrow> set (outside xs allowed) = {}" by simp
  then show ?thesis by (auto simp: outside_def)
qed

lemma audit_checks_ok:
  assumes "audit_checks docs p = Inr u"
  shows "vd_category ` set docs \<subseteq> fst ` set (category_owners p)" "set (cp_splits p) \<subseteq> vd_split ` set docs"
    "vc_label ` set (all_cases docs) \<subseteq> set (cp_labels p)" "vc_region ` set (all_cases docs) \<subseteq> set (cp_regions p)"
  using assms by (auto simp: audit_checks_def Let_def outside_empty split: if_splits)

lemma category_owner_stratum:
  assumes "map_of (category_owners p) c = Some s"
  shows "s \<in> fst ` set (cp_strata p)"
  using map_of_dict_ofD [OF assms [unfolded category_owners_def]] by force

lemma stratum_documents_total:
  assumes "distinct (map fst (cp_strata p))" and "vd_category ` set docs \<subseteq> fst ` set (category_owners p)"
  shows "sum_list (map snd (stratum_documents p docs)) = length docs"
proof -
  have "\<exists>s \<in> set (map fst (cp_strata p)). map_of (category_owners p) (vd_category d) = Some s" if d: "d \<in> set docs" for d
  proof -
    have "vd_category d \<in> fst ` set (category_owners p)" using assms(2) d by blast
    then obtain s where "map_of (category_owners p) (vd_category d) = Some s"
      by (metis map_of_eq_None_iff not_None_eq)
    with category_owner_stratum [OF this] show ?thesis by auto
  qed
  then have "sum_list (map (\<lambda>k. length (filter (\<lambda>d. map_of (category_owners p) (vd_category d) = Some k) docs)) (map fst (cp_strata p)))
      = length docs"
    by (intro count_partition assms(1)) blast
  then show ?thesis by (simp add: stratum_documents_def o_def case_prod_unfold)
qed

lemma load_strata_names:
  "foldE load_stratum (strata, owners) raw = Inr (strata', owners') \<Longrightarrow> map fst strata' = map fst strata @ map fst raw"
proof (induction raw arbitrary: strata owners)
  case (Cons x raw)
  then obtain st1 where step: "load_stratum (strata, owners) x = Inr st1" and rest: "foldE load_stratum st1 raw = Inr (strata', owners')"
    by auto
  obtain cs os where "st1 = (strata @ [(fst x, cs)], os)"
    using step by (auto simp: load_stratum_def split: prod.splits if_splits)
  with Cons.IH rest show ?case by simp
qed simp

lemma loaded_policy:
  assumes "load_coverage_policy sha frepr v = Inr p" and "json_ok v"
  shows "distinct (map fst (cp_strata p))" and "cp_labels p \<noteq> []" and "distinct (cp_labels p)"
    and "cp_regions p \<noteq> []" and "distinct (cp_regions p)" and "cp_splits p \<noteq> []" and "distinct (cp_splits p)"
proof -
  from assms(1) obtain d raw owners ctx1 ctx2 ctx3 w1 w2 w3 where d: "object_items v = Some d"
    and keys: "fields_are policy_keys d"
    and raw: "policy_strata (field d ''category_strata'') = Inr raw"
    and f: "foldE load_stratum ([], []) raw = Inr (cp_strata p, owners)"
    and s: "coverage_strings w1 ctx1 = Inr (cp_splits p)" "coverage_strings w2 ctx2 = Inr (cp_labels p)"
      "coverage_strings w3 ctx3 = Inr (cp_regions p)"
    by (auto simp: load_coverage_policy_def strict_keys_ok split: option.splits)
  show "cp_labels p \<noteq> []" "distinct (cp_labels p)" "cp_regions p \<noteq> []" "distinct (cp_regions p)"
    "cp_splits p \<noteq> []" "distinct (cp_splits p)"
    using s [THEN coverage_strings_ok] by simp_all
  have obj: "field d ''category_strata'' = JObj raw"
    using raw by (auto simp: policy_strata_def object_items_def split: option.splits json.splits if_splits)
  have "map_of d ''category_strata'' = Some (JObj raw)"
    using fields_are_field [OF keys, of "''category_strata''"] obj by (simp add: policy_keys_def)
  then have "(''category_strata'', JObj raw) \<in> set d" by (rule map_of_SomeD)
  moreover have "v = JObj d" using d by (cases v) (simp_all add: object_items_def)
  ultimately have "distinct (map fst raw)" using assms(2) by (auto simp: list_all_iff)
  then show "distinct (map fst (cp_strata p))" using load_strata_names [OF f] by simp
qed

subsection \<open>An example\<close>

definition sample_query_json :: json where
  "sample_query_json = JObj [(''id'', JStr ''q''), (''document_group'', JStr ''g''), (''split'', JStr ''development''),
     (''query_text'', JStr ''t''), (''query_type'', JStr ''package''),
     (''relevance_judgments'', JArr [JObj [(''case_id'', JStr ''d/1''), (''grade'', JInt 2)]]),
     (''hard_negative_case_ids'', JArr [JStr ''d/4'']),
     (''provenance'', JObj [(''method'', JStr ''manual''), (''generator'', JStr ''x''), (''independently_reviewed'', JBool False)])]"

definition sample_queries_json :: json where
  "sample_queries_json = JObj [(''schema_version'', JStr ''dsvire.query-registry.v2''), (''queries'', JArr [sample_query_json])]"

definition sample_queries :: query_registry where
  "sample_queries = \<lparr>qg_queries = (case load_query sample_registry [] (0, sample_query_json) of Inr qs \<Rightarrow> qs | Inl _ \<Rightarrow> []),
     qg_sha256 = []\<rparr>"

definition sample_coverage_json :: json where
  "sample_coverage_json = JObj [(''schema_version'', JStr ''dsvire.corpus-coverage-policy.v1''),
     (''targets'', JObj [(''documents'', JInt 1), (''queries'', JInt 1)]), (''required_splits'', JArr [JStr ''development'']),
     (''required_case_labels'', JArr [JStr ''positive'', JStr ''wrong_package'']),
     (''required_region_types'', JArr [JStr ''package'', JStr ''pinout'', JStr ''table'']),
     (''category_strata'', JObj [(''s'', JArr [JStr ''c''])])]"

definition sample_coverage :: coverage_policy where
  "sample_coverage = \<lparr>cp_documents = 1, cp_queries = 1, cp_splits = [''development''], cp_labels = [''positive'', ''wrong_package''],
     cp_regions = [''package'', ''pinout'', ''table''], cp_strata = [(''s'', [''c''])], cp_sha256 = []\<rparr>"

lemma sample_query_loads: "isl (load_query sample_registry [] (0, sample_query_json)) = False"
  by code_simp

lemma sample_queries_load:
  "load_query_registry (\<lambda>_. []) frepr sample_queries_json sample_registry = Inr sample_queries"
proof -
  obtain qs where "load_query sample_registry [] (0, sample_query_json) = Inr qs"
    using sample_query_loads by (cases "load_query sample_registry [] (0, sample_query_json)") simp_all
  then show ?thesis
    by (simp add: load_query_registry_def sample_queries_json_def object_items_def fields_are_def field_def array_items_def
        sample_queries_def canonical_sha_def)
qed

lemma sample_coverage_loads:
  "load_coverage_policy (\<lambda>_. []) (\<lambda>_. []) sample_coverage_json = Inr sample_coverage"
  by code_simp

lemma sample_audit: "isl (audit_checks sample_documents sample_coverage) = False"
  by code_simp

text \<open>A method that is an array leaves the loader with the interpreter's exception, not with its own.\<close>

lemma array_method_escapes: "load_method (JArr xs) context = Inl (CoverageEscape ''TypeError'')"
  by (simp add: load_method_def)

subsection \<open>Properties\<close>

text \<open>
  A loaded query registry is sound against the visual registry: ids do not repeat, every judged case is a
  positive case of the query's own group and type with grade 1 or 2, every hard negative is another
  case of the group that is not relevant, the split is that of the group, and a held-out query is
  independently reviewed.
\<close>

theorem query_registry_sound:
  assumes "load_query_registry sha frepr v reg = Inr qs"
  shows "distinct (map qr_id (qg_queries qs)) \<and> (\<forall>q \<in> set (qg_queries qs). judged_query_ok reg q)"
  using loaded_queries [OF assms] by blast

lemma query_registry_sound_witness:
  "distinct (map qr_id (qg_queries sample_queries)) \<and> judged_query_ok sample_registry (hd (qg_queries sample_queries))"
proof -
  have "qg_queries sample_queries \<noteq> []" by code_simp
  then have "hd (qg_queries sample_queries) \<in> set (qg_queries sample_queries)" by simp
  with query_registry_sound [OF sample_queries_load [of "\<lambda>_. []"]] show ?thesis by blast
qed

text \<open>
  The ledger adds up: when the audit of a registry against a loaded policy succeeds, the documents per
  stratum, and the documents per kind of review, sum to the number of documents, the cases per label and
  per region type sum to the number of cases, and the target is met exactly when nothing remains.
\<close>

theorem ledger_adds_up:
  assumes "load_coverage_policy sha frepr v = Inr p" and "json_ok v"
    and "audit_corpus_coverage reg p qs = Inr ledger"
  shows "sum_list (map snd (stratum_documents p (vr_documents reg))) = length (vr_documents reg) \<and>
    review_count Independent (vr_documents reg) + review_count Agent (vr_documents reg) +
      review_count Unreviewed (vr_documents reg) = length (vr_documents reg) \<and>
    sum_list (map snd (counts_of (map vc_label (all_cases (vr_documents reg))) (cp_labels p))) = length (all_cases (vr_documents reg)) \<and>
    sum_list (map snd (counts_of (map vc_region (all_cases (vr_documents reg))) (cp_regions p))) = length (all_cases (vr_documents reg)) \<and>
    (target_met reg p qs \<longleftrightarrow> remaining reg p qs = (0, 0)) \<and>
    map_of ledger ''target_met'' = Some (JBool (target_met reg p qs))"
proof -
  note policy = loaded_policy [OF assms(1,2)]
  from assms(3) have "audit_checks (vr_documents reg) p = Inr ()" by (auto simp: audit_corpus_coverage_def Let_def)
  note checks = audit_checks_ok [OF this]
  have "map_of ledger ''target_met'' = Some (JBool (target_met reg p qs))"
    using assms(3) by (auto simp: audit_corpus_coverage_def Let_def)
  moreover have "target_met reg p qs \<longleftrightarrow> remaining reg p qs = (0, 0)"
    by (auto simp: target_met_def remaining_def)
  ultimately show ?thesis
    using stratum_documents_total [OF policy(1) checks(1)] review_counts_total
      counts_of_total [OF policy(2,3), of "map vc_label (all_cases (vr_documents reg))"] checks(3)
      counts_of_total [OF policy(4,5), of "map vc_region (all_cases (vr_documents reg))"] checks(4)
    by (simp add: image_comp)
qed

lemma ledger_adds_up_witness:
  "sum_list (map snd (stratum_documents sample_coverage (vr_documents sample_registry))) = length (vr_documents sample_registry)"
proof -
  have "isl (audit_checks (vr_documents sample_registry) sample_coverage) = False"
    using sample_audit by (simp add: sample_registry_def)
  then obtain ledger where "audit_corpus_coverage sample_registry sample_coverage sample_queries = Inr ledger"
    by (cases "audit_checks (vr_documents sample_registry) sample_coverage") (simp_all add: audit_corpus_coverage_def Let_def)
  moreover have "json_ok sample_coverage_json" by code_simp
  ultimately show ?thesis using ledger_adds_up [OF sample_coverage_loads] by blast
qed

end
