(* ===== verification/QueryRanking.thy ===== *)
theory QueryRanking
  imports CorpusCoverage
begin

section \<open>Rankings and retrieval metrics\<close>

text \<open>
  \<open>src/dsvire/query_ranking.py\<close>: the two loaders of ranking artifacts, over a judged pool and over the whole
  corpus of a split, and the metrics computed from them. \<open>log2\<close> is the C library's logarithm, \<open>float_sum\<close>
  the built-in sum of floats.
\<close>

datatype ranking_error = RankingError string | RankingEscape string

record candidate =
  rc_case :: string
  rc_score :: rat

record query_ranking =
  rk_query :: string
  rk_candidates :: "candidate list"

record ranking_artifact =
  ra_system :: string
  ra_system_sha256 :: string
  ra_rankings :: "query_ranking list"
  ra_sha256 :: string

record full_artifact =
  fa_split :: string
  fa_system :: string
  fa_system_sha256 :: string
  fa_candidates :: "string list"
  fa_rankings :: "query_ranking list"
  fa_sha256 :: string

definition full_corpus_order_sha256 :: "(bytes \<Rightarrow> string) \<Rightarrow> (pyfloat \<Rightarrow> string) \<Rightarrow> full_artifact \<Rightarrow> string" where
  "full_corpus_order_sha256 sha frepr a = canonical_sha sha frepr (JObj
     [(''schema_version'', JStr ''dsvire.full-corpus-query-order.v1''), (''split'', JStr (fa_split a)),
      (''system'', JObj [(''id'', JStr (fa_system a)), (''sha256'', JStr (fa_system_sha256 a))]),
      (''candidate_case_ids'', JArr (map JStr (fa_candidates a))),
      (''rankings'', JArr (map (\<lambda>r. JObj [(''query_id'', JStr (rk_query r)),
         (''case_ids'', JArr (map (\<lambda>c. JStr (rc_case c)) (rk_candidates r)))]) (fa_rankings a)))])"

definition ranking_text :: "string \<Rightarrow> json \<Rightarrow> ranking_error + string" where
  "ranking_text = nonempty_text RankingError"

text \<open>A dictionary with exactly these keys, one message for both failures.\<close>

definition exact_object :: "string list \<Rightarrow> string \<Rightarrow> json \<Rightarrow> ranking_error + (string \<times> json) list" where
  "exact_object required message v = (case object_items v of
     None \<Rightarrow> Inl (RankingError message)
   | Some d \<Rightarrow> if fields_are required d then Inr d else Inl (RankingError message))"

definition require_array :: "string \<Rightarrow> json \<Rightarrow> ranking_error + json list" where
  "require_array message v = (case array_items v of None \<Rightarrow> Inl (RankingError message) | Some xs \<Rightarrow> Inr xs)"

definition load_system :: "json \<Rightarrow> ranking_error + (string \<times> string)" where
  "load_system v =
     bindE (exact_object [''id'', ''sha256''] ''system must contain only id and sha256'' v) (\<lambda>d.
     bindE (ranking_text ''system.id'' (field d ''id'')) (\<lambda>system_id.
     case field d ''sha256'' of
       JStr s \<Rightarrow> if is_hex 64 s then Inr (system_id, s) else Inl (RankingError ''system.sha256 must be lowercase SHA-256'')
     | _ \<Rightarrow> Inl (RankingError ''system.sha256 must be lowercase SHA-256'')))"

definition finite_score :: "string \<Rightarrow> json \<Rightarrow> ranking_error + rat" where
  "finite_score context v = (case check_number v of
     Finite r \<Rightarrow> Inr r
   | Overflows \<Rightarrow> Inl (RankingEscape ''OverflowError'')
   | NotFinite \<Rightarrow> Inl (RankingError (context @ ''.score must be finite'')))"

definition queries_by_id :: "query_record list \<Rightarrow> (string \<times> query_record) list" where
  "queries_by_id qs = dict_of (map (\<lambda>q. (qr_id q, q)) qs)"

definition judged_ids :: "query_record \<Rightarrow> string list" where
  "judged_ids q = map fst (qr_judgments q) @ qr_hard_negatives q"

text \<open>The candidate parsed by either loader, before the checks that differ.\<close>

definition parse_candidate :: "string \<Rightarrow> nat \<times> json \<Rightarrow> ranking_error + candidate" where
  "parse_candidate context item =
     (let candidate_context = at_index (context @ ''.candidates'') (fst item) in
     bindE (exact_object [''case_id'', ''score''] (candidate_context @ '' keys are invalid'') (snd item)) (\<lambda>d.
     bindE (ranking_text (candidate_context @ ''.case_id'') (field d ''case_id'')) (\<lambda>case_id.
     bindE (finite_score candidate_context (field d ''score'')) (\<lambda>score.
       Inr \<lparr>rc_case = case_id, rc_score = score\<rparr>))))"

subsection \<open>The judged pool\<close>

definition pool_candidate :: "string \<Rightarrow> string list \<Rightarrow> candidate list \<Rightarrow> nat \<times> json \<Rightarrow> ranking_error + candidate list" where
  "pool_candidate context allowed candidates item =
     bindE (parse_candidate context item) (\<lambda>c.
     if rc_case c \<notin> set allowed
     then Inl (RankingError (at_index (context @ ''.candidates'') (fst item) @ '' injects an unjudged candidate''))
     else if rc_case c \<in> set (map rc_case candidates) then Inl (RankingError (context @ '' contains duplicate candidates''))
     else if candidates \<noteq> [] \<and> rc_score (last candidates) < rc_score c
     then Inl (RankingError (context @ '' candidates must be score-descending''))
     else Inr (candidates @ [c]))"

definition pool_ranking :: "(string \<times> query_record) list \<Rightarrow> query_ranking list \<Rightarrow> nat \<times> json \<Rightarrow>
    ranking_error + query_ranking list" where
  "pool_ranking queries rankings item =
     (let context = at_index ''rankings'' (fst item) in
     bindE (exact_object [''query_id'', ''candidates''] (context @ '' keys are invalid'') (snd item)) (\<lambda>d.
     bindE (ranking_text (context @ ''.query_id'') (field d ''query_id'')) (\<lambda>query_id.
     case map_of queries query_id of
       None \<Rightarrow> Inl (RankingError (context @ '' references unknown query''))
     | Some query \<Rightarrow>
     bindE (ensure (query_id \<notin> set (map rk_query rankings))
       (RankingError (''duplicate ranking for query '' @ repr_str query_id))) (\<lambda>_.
     bindE (require_array (context @ ''.candidates must be an array'') (field d ''candidates'')) (\<lambda>raw.
     bindE (foldE (pool_candidate context (judged_ids query)) [] (enumerate 0 raw)) (\<lambda>candidates.
       Inr (rankings @ [\<lparr>rk_query = query_id, rk_candidates = candidates\<rparr>])))))))"

definition check_digests :: "(string \<times> json) list \<Rightarrow> query_registry \<Rightarrow> visual_registry \<Rightarrow> ranking_error + unit" where
  "check_digests d qs reg =
     (if field d ''query_registry_sha256'' \<noteq> JStr (qg_sha256 qs) then Inl (RankingError ''query registry digest mismatch'')
      else if field d ''visual_registry_sha256'' \<noteq> JStr (vr_sha256 reg)
      then Inl (RankingError ''visual registry digest mismatch'')
      else Inr ())"

definition require_object :: "string \<Rightarrow> json \<Rightarrow> ranking_error + (string \<times> json) list" where
  "require_object message v = (case object_items v of None \<Rightarrow> Inl (RankingError message) | Some d \<Rightarrow> Inr d)"

definition load_ranking_artifact :: "(bytes \<Rightarrow> string) \<Rightarrow> (pyfloat \<Rightarrow> string) \<Rightarrow> json \<Rightarrow> query_registry \<Rightarrow> visual_registry \<Rightarrow>
    ranking_error + ranking_artifact" where
  "load_ranking_artifact sha frepr v qs reg =
     bindE (require_object ''ranking artifact must be an object'' v) (\<lambda>d.
     bindE (ensure (fields_are [''schema_version'', ''query_registry_sha256'', ''visual_registry_sha256'', ''system'', ''rankings''] d)
       (RankingError ''ranking artifact keys are invalid'')) (\<lambda>_.
     bindE (ensure (field d ''schema_version'' = JStr ''dsvire.query-ranking.v1'')
       (RankingError (''unsupported ranking version: '' @ repr_json frepr (field d ''schema_version'')))) (\<lambda>_.
     bindE (check_digests d qs reg) (\<lambda>_.
     bindE (load_system (field d ''system'')) (\<lambda>(system_id, system_sha256).
     bindE (require_array ''rankings must be an array'' (field d ''rankings'')) (\<lambda>raw.
     bindE (foldE (pool_ranking (queries_by_id (qg_queries qs))) [] (enumerate 0 raw)) (\<lambda>rankings.
     let missing = filter (\<lambda>i. i \<notin> set (map rk_query rankings)) (map fst (queries_by_id (qg_queries qs)))
     in if missing \<noteq> []
        then Inl (RankingError (''rankings missing '' @ nat_str (length missing) @ '' queries''))
        else Inr \<lparr>ra_system = system_id, ra_system_sha256 = system_sha256, ra_rankings = rankings,
          ra_sha256 = canonical_sha sha frepr v\<rparr>)))))))"

subsection \<open>The whole corpus of a split\<close>

definition candidate_key :: "candidate \<Rightarrow> rat \<times> string" where
  "candidate_key c = (- rc_score c, rc_case c)"

definition full_candidate :: "string \<Rightarrow> string list \<Rightarrow> candidate list \<Rightarrow> nat \<times> json \<Rightarrow> ranking_error + candidate list" where
  "full_candidate context expected candidates item =
     bindE (parse_candidate context item) (\<lambda>c.
     if rc_case c \<notin> set expected
     then Inl (RankingError (at_index (context @ ''.candidates'') (fst item) @ '' injects a candidate''))
     else if rc_case c \<in> set (map rc_case candidates) then Inl (RankingError (context @ '' contains duplicate candidates''))
     else if candidates \<noteq> [] \<and> candidate_key c < candidate_key (last candidates)
     then Inl (RankingError (context @ '' candidates must be score-descending with case-id tie breaks''))
     else Inr (candidates @ [c]))"

definition full_ranking :: "string list \<Rightarrow> string list \<Rightarrow> query_ranking list \<Rightarrow> nat \<times> json \<Rightarrow>
    ranking_error + query_ranking list" where
  "full_ranking selected expected rankings item =
     (let context = at_index ''rankings'' (fst item) in
     bindE (exact_object [''query_id'', ''candidates''] (context @ '' keys are invalid'') (snd item)) (\<lambda>d.
     bindE (ranking_text (context @ ''.query_id'') (field d ''query_id'')) (\<lambda>query_id.
     bindE (ensure (query_id \<in> set selected)
       (RankingError (context @ '' references a query outside the selected split''))) (\<lambda>_.
     bindE (ensure (query_id \<notin> set (map rk_query rankings))
       (RankingError (''duplicate ranking for query '' @ repr_str query_id))) (\<lambda>_.
     bindE (require_array (context @ ''.candidates must be an array'') (field d ''candidates'')) (\<lambda>raw.
     bindE (foldE (full_candidate context expected) [] (enumerate 0 raw)) (\<lambda>candidates.
     bindE (ensure (set (map rc_case candidates) = set expected \<and> length candidates = length expected)
       (RankingError (context @ '' does not rank the complete candidate universe''))) (\<lambda>_.
       Inr (rankings @ [\<lparr>rk_query = query_id, rk_candidates = candidates\<rparr>])))))))))"

definition selected_queries :: "query_registry \<Rightarrow> string \<Rightarrow> string list" where
  "selected_queries qs split = map fst (dict_of (map (\<lambda>q. (qr_id q, q)) (filter (\<lambda>q. qr_split q = split) (qg_queries qs))))"

definition expected_candidates :: "visual_registry \<Rightarrow> string \<Rightarrow> string list" where
  "expected_candidates reg split =
     sort (map fst (concat (map case_entries (filter (\<lambda>d. vd_split d = split) (vr_documents reg)))))"

text \<open>The declared universe: an array of non-empty texts.\<close>

definition candidate_id :: "json \<Rightarrow> ranking_error + string" where
  "candidate_id v = (case v of
     JStr s \<Rightarrow> if s = [] then Inl (RankingError ''candidate_case_ids must be an array of non-empty strings'') else Inr s
   | _ \<Rightarrow> Inl (RankingError ''candidate_case_ids must be an array of non-empty strings''))"

definition full_keys :: "string list" where
  "full_keys = [''schema_version'', ''query_registry_sha256'', ''visual_registry_sha256'', ''split'', ''system'',
     ''candidate_case_ids'', ''rankings'']"

definition load_full_corpus_ranking_artifact :: "(bytes \<Rightarrow> string) \<Rightarrow> (pyfloat \<Rightarrow> string) \<Rightarrow> json \<Rightarrow> query_registry \<Rightarrow>
    visual_registry \<Rightarrow> ranking_error + full_artifact" where
  "load_full_corpus_ranking_artifact sha frepr v qs reg =
     bindE (require_object ''full-corpus ranking artifact must be an object'' v) (\<lambda>d.
     bindE (ensure (fields_are full_keys d) (RankingError ''full-corpus ranking artifact keys are invalid'')) (\<lambda>_.
     bindE (ensure (field d ''schema_version'' = JStr ''dsvire.full-corpus-query-ranking.v1'')
       (RankingError (''unsupported full-corpus ranking version: '' @ repr_json frepr (field d ''schema_version'')))) (\<lambda>_.
     bindE (check_digests d qs reg) (\<lambda>_.
     bindE (ranking_text ''split'' (field d ''split'')) (\<lambda>split.
     let selected = selected_queries qs split; expected = expected_candidates reg split in
     bindE (ensure (selected \<noteq> []) (RankingError (''query registry has no queries for split '' @ repr_str split))) (\<lambda>_.
     bindE (require_array ''candidate_case_ids must be an array of non-empty strings'' (field d ''candidate_case_ids'')) (\<lambda>raw_ids.
     bindE (mapE candidate_id raw_ids) (\<lambda>ids.
     bindE (ensure (ids = expected)
       (RankingError ''candidate_case_ids differ from the complete sorted split universe'')) (\<lambda>_.
     bindE (load_system (field d ''system'')) (\<lambda>(system_id, system_sha256).
     bindE (require_array ''rankings must be an array'' (field d ''rankings'')) (\<lambda>raw.
     bindE (foldE (full_ranking selected expected) [] (enumerate 0 raw)) (\<lambda>rankings.
     bindE (ensure (set (map rk_query rankings) = set selected)
       (RankingError ''rankings do not cover every query in the selected split'')) (\<lambda>_.
       Inr \<lparr>fa_split = split, fa_system = system_id, fa_system_sha256 = system_sha256, fa_candidates = expected,
         fa_rankings = rankings, fa_sha256 = canonical_sha sha frepr v\<rparr>)))))))))))))"

subsection \<open>The metrics of a query\<close>

record query_row =
  qm_query :: string
  qm_split :: string
  qm_type :: string
  qm_returned :: nat
  qm_ndcg :: rat
  qm_recall :: rat
  qm_precision :: rat
  qm_reciprocal :: rat
  qm_negatives :: nat
  qm_abstained :: bool
  qm_judged :: "(nat \<times> nat) option"

definition py_sum :: "(rat list \<Rightarrow> rat) \<Rightarrow> rat list \<Rightarrow> rat" where
  "py_sum float_sum xs = (if xs = [] then 0 else float_sum xs)"

definition gain :: "int \<Rightarrow> int" where
  "gain grade = 2 ^ nat grade - 1"

definition discounted :: "(rat list \<Rightarrow> rat) \<Rightarrow> (nat \<Rightarrow> rat) \<Rightarrow> int list \<Rightarrow> rat" where
  "discounted float_sum log2 gains =
     py_sum float_sum (map (\<lambda>(rank, g). fdiv (of_int g) (log2 (rank + 1))) (enumerate 1 gains))"

definition grade_at :: "(string \<times> int) list \<Rightarrow> candidate \<Rightarrow> int" where
  "grade_at grades c = (case map_of grades (rc_case c) of None \<Rightarrow> 0 | Some g \<Rightarrow> g)"

definition ndcg :: "(rat list \<Rightarrow> rat) \<Rightarrow> (nat \<Rightarrow> rat) \<Rightarrow> (string \<times> int) list \<Rightarrow> candidate list \<Rightarrow> nat \<Rightarrow> rat" where
  "ndcg float_sum log2 grades candidates k =
     (let dcg = discounted float_sum log2 (map (\<lambda>c. gain (grade_at grades c)) (take k candidates));
          idcg = discounted float_sum log2 (take k (rev (sort (map (\<lambda>(_, g). gain g) grades))))
      in if idcg = 0 then 0 else fdiv dcg idcg)"

text \<open>The loop over the ranking: relevant cases seen, sum of the precisions, first relevant rank.\<close>

fun precision_loop :: "string list \<Rightarrow> nat \<Rightarrow> nat \<times> rat \<times> nat option \<Rightarrow> candidate list \<Rightarrow> nat \<times> rat \<times> nat option" where
  "precision_loop relevant rank state [] = state"
| "precision_loop relevant rank (seen, precision_sum, first) (c # cs) =
     precision_loop relevant (rank + 1)
       (if rc_case c \<in> set relevant
        then (seen + 1, fadd precision_sum (fdiv (of_nat (seen + 1)) (of_nat rank)),
          case first of None \<Rightarrow> Some rank | Some r \<Rightarrow> Some r)
        else (seen, precision_sum, first)) cs"

definition query_metrics :: "(rat list \<Rightarrow> rat) \<Rightarrow> (nat \<Rightarrow> rat) \<Rightarrow> query_record \<Rightarrow> query_ranking \<Rightarrow> nat \<Rightarrow>
    ranking_error + query_row" where
  "query_metrics float_sum log2 q r k =
     (let grades = dict_of (qr_judgments q);
          relevant = map fst grades;
          top = take k (rk_candidates r)
      in if grades = [] then Inl (RankingEscape ''ZeroDivisionError'')
         else case precision_loop relevant 1 (0, 0, None) (rk_candidates r) of (seen, precision_sum, first) \<Rightarrow>
           Inr \<lparr>qm_query = qr_id q, qm_split = qr_split q, qm_type = qr_type q, qm_returned = length (rk_candidates r),
             qm_ndcg = ndcg float_sum log2 grades (rk_candidates r) k,
             qm_recall = fdiv (of_nat (length (filter (\<lambda>c. rc_case c \<in> set relevant) top))) (of_nat (length grades)),
             qm_precision = fdiv precision_sum (of_nat (length grades)),
             qm_reciprocal = (case first of None \<Rightarrow> 0 | Some n \<Rightarrow> fdiv 1 (of_nat n)),
             qm_negatives = length (filter (\<lambda>c. rc_case c \<in> set (qr_hard_negatives q)) top),
             qm_abstained = (rk_candidates r = []), qm_judged = None\<rparr>)"

definition row_json :: "query_row \<Rightarrow> json" where
  "row_json row = JObj ([(''query_id'', JStr (qm_query row)), (''split'', JStr (qm_split row)), (''query_type'', JStr (qm_type row)),
     (''returned'', count_json (qm_returned row)), (''ndcg_at_5'', float_json (qm_ndcg row)),
     (''recall_at_5'', float_json (qm_recall row)), (''average_precision'', float_json (qm_precision row)),
     (''reciprocal_rank'', float_json (qm_reciprocal row)), (''hard_negatives_at_5'', count_json (qm_negatives row)),
     (''abstained'', JBool (qm_abstained row))] @
     (case qm_judged row of None \<Rightarrow> []
      | Some (judged, unjudged) \<Rightarrow> [(''judged_at_5'', count_json judged), (''unjudged_at_5'', count_json unjudged)]))"

subsection \<open>Aggregates\<close>

definition mean :: "(rat list \<Rightarrow> rat) \<Rightarrow> (query_row \<Rightarrow> rat) \<Rightarrow> query_row list \<Rightarrow> rat" where
  "mean float_sum f rows = (if rows = [] then 0 else fdiv (float_sum (map f rows)) (of_nat (length rows)))"

definition answered :: "query_row list \<Rightarrow> nat" where
  "answered rows = length (filter (\<lambda>r. \<not> qm_abstained r) rows)"

definition aggregate :: "(rat list \<Rightarrow> rat) \<Rightarrow> query_row list \<Rightarrow> (string \<times> json) list" where
  "aggregate float_sum rows =
     [(''queries'', count_json (length rows)), (''queries_with_results'', count_json (answered rows)),
      (''coverage'', float_json (ratio (answered rows) (length rows))),
      (''ndcg_at_5'', float_json (mean float_sum qm_ndcg rows)), (''recall_at_5'', float_json (mean float_sum qm_recall rows)),
      (''map'', float_json (mean float_sum qm_precision rows)), (''mrr'', float_json (mean float_sum qm_reciprocal rows)),
      (''queries_with_hard_negative_at_5'', count_json (length (filter (\<lambda>r. 0 < qm_negatives r) rows))),
      (''hard_negatives_at_5'', count_json (sum_list (map qm_negatives rows)))]"

text \<open>\<open>round(value, 12)\<close>: the float nearest to the value rounded to twelve decimals.\<close>

definition round12 :: "rat \<Rightarrow> rat" where
  "round12 r = rnd (of_int (round_half_even (r * 10 ^ 12)) / 10 ^ 12)"

definition rounded_item :: "string \<times> json \<Rightarrow> string \<times> json" where
  "rounded_item item = (case item of
     (name, JFloat (Flt r)) \<Rightarrow> (name, float_json (round12 r))
   | _ \<Rightarrow> item)"

definition judged_sum :: "(nat \<times> nat \<Rightarrow> nat) \<Rightarrow> query_row list \<Rightarrow> nat" where
  "judged_sum f rows = sum_list (map (\<lambda>r. case qm_judged r of None \<Rightarrow> 0 | Some n \<Rightarrow> f n) rows)"

definition full_aggregate :: "(rat list \<Rightarrow> rat) \<Rightarrow> query_row list \<Rightarrow> (string \<times> json) list" where
  "full_aggregate float_sum rows = map rounded_item (aggregate float_sum rows @
     [(''judged_at_5'', count_json (judged_sum fst rows)), (''unjudged_at_5'', count_json (judged_sum snd rows))])"

text \<open>The rows grouped under a text, groups in the order of their names.\<close>

definition grouped :: "(query_row list \<Rightarrow> (string \<times> json) list) \<Rightarrow> (query_row \<Rightarrow> string) \<Rightarrow> query_row list \<Rightarrow> json" where
  "grouped f key rows = JObj (map (\<lambda>name. (name, JObj (f (filter (\<lambda>r. key r = name) rows)))) (sort (remdups (map key rows))))"

subsection \<open>Evaluation\<close>

definition query_named :: "query_registry \<Rightarrow> string \<Rightarrow> ranking_error + query_record" where
  "query_named qs i = (case map_of (queries_by_id (qg_queries qs)) i of
     None \<Rightarrow> Inl (RankingEscape ''KeyError'') | Some q \<Rightarrow> Inr q)"

definition evaluate_rankings :: "(rat list \<Rightarrow> rat) \<Rightarrow> (nat \<Rightarrow> rat) \<Rightarrow> query_registry \<Rightarrow> ranking_artifact \<Rightarrow> nat \<Rightarrow>
    ranking_error + (string \<times> json) list" where
  "evaluate_rankings float_sum log2 qs a k =
     (if k \<noteq> 5 then Inl (RankingError ''metric contract currently requires k=5'')
      else bindE (mapE (\<lambda>r. bindE (query_named qs (rk_query r)) (\<lambda>q. query_metrics float_sum log2 q r k)) (ra_rankings a)) (\<lambda>rows.
       Inr [(''schema_version'', JStr ''dsvire.query-ranking-result.v1''),
         (''metric_version'', JStr ''dsvire.query-ranking-metrics@1.0.0''),
         (''query_registry_sha256'', JStr (qg_sha256 qs)), (''ranking_sha256'', JStr (ra_sha256 a)),
         (''system'', JObj [(''id'', JStr (ra_system a)), (''sha256'', JStr (ra_system_sha256 a))]),
         (''scope'', JStr ''closed_judged_pool''), (''cutoff'', count_json k),
         (''metrics'', JObj (aggregate float_sum rows)),
         (''by_split'', grouped (aggregate float_sum) qm_split rows),
         (''by_query_type'', grouped (aggregate float_sum) qm_type rows),
         (''queries'', JArr (map row_json rows)),
         (''limitations'', JArr [JStr ''closed judged-pool metrics do not measure full-corpus retrieval'',
           JStr ''deterministic-template development queries are not held-out or independently reviewed'',
           JStr ''this artifact cannot authorize automated publication''])]))"

definition full_row :: "(rat list \<Rightarrow> rat) \<Rightarrow> (nat \<Rightarrow> rat) \<Rightarrow> nat \<Rightarrow> query_record \<Rightarrow> query_ranking \<Rightarrow> ranking_error + query_row" where
  "full_row float_sum log2 k q r =
     bindE (query_metrics float_sum log2 q r k) (\<lambda>row.
     let top = take k (rk_candidates r)
     in Inr (row\<lparr>qm_judged := Some (length (filter (\<lambda>c. rc_case c \<in> set (judged_ids q)) top),
          length (filter (\<lambda>c. rc_case c \<notin> set (judged_ids q)) top))\<rparr>))"

definition evaluate_full_corpus_rankings :: "(rat list \<Rightarrow> rat) \<Rightarrow> (nat \<Rightarrow> rat) \<Rightarrow> query_registry \<Rightarrow> full_artifact \<Rightarrow> nat \<Rightarrow>
    ranking_error + (string \<times> json) list" where
  "evaluate_full_corpus_rankings float_sum log2 qs a k =
     (if k \<noteq> 5 then Inl (RankingError ''metric contract currently requires k=5'')
      else bindE (mapE (\<lambda>r. bindE (query_named qs (rk_query r)) (\<lambda>q. full_row float_sum log2 k q r)) (fa_rankings a)) (\<lambda>rows.
       Inr [(''schema_version'', JStr ''dsvire.query-ranking-result.v1''),
         (''metric_version'', JStr ''dsvire.query-ranking-metrics@1.0.0''),
         (''query_registry_sha256'', JStr (qg_sha256 qs)), (''ranking_sha256'', JStr (fa_sha256 a)),
         (''system'', JObj [(''id'', JStr (fa_system a)), (''sha256'', JStr (fa_system_sha256 a))]),
         (''scope'', JStr ''complete_split_candidate_universe''), (''split'', JStr (fa_split a)),
         (''candidate_cases'', count_json (length (fa_candidates a))), (''cutoff'', count_json k),
         (''metrics'', JObj (full_aggregate float_sum rows)),
         (''by_split'', grouped (full_aggregate float_sum) qm_split rows),
         (''by_query_type'', grouped (full_aggregate float_sum) qm_type rows),
         (''queries'', JArr (map row_json rows)),
         (''limitations'', JArr [JStr ''development query metrics are not held-out accuracy'',
           JStr ''unjudged candidates are treated as non-relevant for reported retrieval metrics'',
           JStr ''the current query set is deterministic-template and not independently reviewed'',
           JStr ''this artifact cannot authorize automated publication''])]))"

subsection \<open>What a loaded artifact satisfies\<close>

definition order_candidates :: "candidate list \<Rightarrow> candidate list" where
  "order_candidates cs = sort_key candidate_key cs"

interpretation candidate_order: ranking order_candidates candidate_key
  by unfold_locales (simp_all add: order_candidates_def)

definition candidates_ok :: "string list \<Rightarrow> candidate list \<Rightarrow> bool" where
  "candidates_ok allowed cs \<longleftrightarrow> distinct (map rc_case cs) \<and> set (map rc_case cs) \<subseteq> set allowed \<and>
     sorted (map (\<lambda>c. - rc_score c) cs)"

lemma sorted_snoc:
  fixes xs :: "'a::linorder list"
  assumes "sorted xs" and "xs = [] \<or> last xs \<le> y"
  shows "sorted (xs @ [y])"
proof (cases xs rule: rev_cases)
  case (snoc zs z)
  with assms show ?thesis by (auto simp: sorted_append intro: order_trans)
qed simp

lemma pool_candidate_good:
  assumes ok: "candidates_ok allowed cs" and step: "pool_candidate context allowed cs item = Inr cs'"
  shows "candidates_ok allowed cs'"
proof -
  from step obtain c where c: "rc_case c \<in> set allowed" "rc_case c \<notin> set (map rc_case cs)"
    "cs = [] \<or> \<not> rc_score (last cs) < rc_score c" "cs' = cs @ [c]"
    by (auto simp: pool_candidate_def split: if_splits)
  from ok c(3) have "sorted (map (\<lambda>c. - rc_score c) cs @ [- rc_score c])"
    by (intro sorted_snoc) (cases "cs = []"; simp add: candidates_ok_def last_map not_less)+
  with ok c show ?thesis by (simp add: candidates_ok_def)
qed

interpretation pool_candidate_loop: checked_loop "pool_candidate ctx allowed" "candidates_ok allowed" for ctx allowed
  by unfold_locales (rule pool_candidate_good)

definition candidates_ranked :: "candidate list \<Rightarrow> bool" where
  "candidates_ranked cs \<longleftrightarrow> distinct (map rc_case cs) \<and> sorted (map candidate_key cs)"

lemma full_candidate_good:
  assumes ok: "candidates_ranked cs" and step: "full_candidate context expected cs item = Inr cs'"
  shows "candidates_ranked cs'"
proof -
  from step obtain c where c: "rc_case c \<notin> set (map rc_case cs)"
    "cs = [] \<or> \<not> candidate_key c < candidate_key (last cs)" "cs' = cs @ [c]"
    by (auto simp: full_candidate_def split: if_splits)
  from ok c(2) have "sorted (map candidate_key cs @ [candidate_key c])"
    by (intro sorted_snoc) (cases "cs = []"; simp add: candidates_ranked_def last_map not_less)+
  with ok c show ?thesis by (simp add: candidates_ranked_def)
qed

interpretation full_candidate_loop: checked_loop "full_candidate ctx expected" candidates_ranked for ctx expected
  by unfold_locales (rule full_candidate_good)

lemma pool_candidates_ok: "foldE (pool_candidate context allowed) [] items = Inr cs \<Longrightarrow> candidates_ok allowed cs"
  by (erule pool_candidate_loop.loop_good) (simp add: candidates_ok_def)

lemma full_candidates_ok:
  "foldE (full_candidate context expected) [] items = Inr cs \<Longrightarrow> distinct (map rc_case cs) \<and> sorted (map candidate_key cs)"
  by (drule full_candidate_loop.loop_good) (simp_all add: candidates_ranked_def)

definition full_ranking_ok :: "string list \<Rightarrow> query_ranking \<Rightarrow> bool" where
  "full_ranking_ok expected r \<longleftrightarrow> mset (map rc_case (rk_candidates r)) = mset expected \<and> distinct (map rc_case (rk_candidates r)) \<and>
     rk_candidates r = order_candidates (rk_candidates r)"

lemma same_set_mset:
  assumes "distinct xs" and "set xs = set ys" and "length xs = length ys"
  shows "mset xs = mset ys"
proof -
  have "card (set ys) = length ys" using assms distinct_card by metis
  then have "distinct ys" by (rule card_distinct)
  with assms show ?thesis by (simp add: set_eq_iff_mset_eq_distinct)
qed

lemma full_ranking_step:
  assumes "full_ranking selected expected rankings item = Inr rankings'"
  obtains r where "rankings' = rankings @ [r]" "rk_query r \<in> set selected" "rk_query r \<notin> set (map rk_query rankings)"
    "full_ranking_ok expected r"
proof -
  from assms obtain query_id ctx items cs where q: "query_id \<in> set selected" "query_id \<notin> set (map rk_query rankings)"
    and f: "foldE (full_candidate ctx expected) [] items = Inr cs"
    and u: "set (map rc_case cs) = set expected" "length cs = length expected"
    and out: "rankings' = rankings @ [\<lparr>rk_query = query_id, rk_candidates = cs\<rparr>]"
    by (auto simp: full_ranking_def Let_def)
  have d: "distinct (map rc_case cs)" and s: "sorted (map candidate_key cs)" using full_candidates_ok [OF f] by auto
  have "mset (map rc_case cs) = mset expected" using d u by (intro same_set_mset) simp_all
  then have "full_ranking_ok expected \<lparr>rk_query = query_id, rk_candidates = cs\<rparr>"
    using d s by (simp add: full_ranking_ok_def order_candidates_def sort_key_id_if_sorted)
  then show thesis using q out by (intro that) simp_all
qed

lemma pool_ranking_step:
  assumes "pool_ranking queries rankings item = Inr rankings'"
  obtains r q where "rankings' = rankings @ [r]" "map_of queries (rk_query r) = Some q" "rk_query r \<notin> set (map rk_query rankings)"
    "candidates_ok (judged_ids q) (rk_candidates r)" "plain_text (rk_query r)"
proof -
  let ?ctx = "at_index ''rankings'' (fst item)"
  from assms obtain d query_id q items cs where t: "ranking_text (?ctx @ ''.query_id'') (field d ''query_id'') = Inr query_id"
    and q: "map_of queries query_id = Some q" "query_id \<notin> set (map rk_query rankings)"
    and f: "foldE (pool_candidate ?ctx (judged_ids q)) [] items = Inr cs"
    and out: "rankings' = rankings @ [\<lparr>rk_query = query_id, rk_candidates = cs\<rparr>]"
    by (auto simp: pool_ranking_def Let_def split: option.splits)
  have "plain_text query_id" using t by (auto simp: ranking_text_def plain_text_def dest!: nonempty_text_ok)
  then show thesis using q out pool_candidates_ok [OF f] by (intro that [of "\<lparr>rk_query = query_id, rk_candidates = cs\<rparr>" q]) simp_all
qed

text \<open>What both loops over the rankings keep: queries are ranked once, and each ranking is as its loop over the candidates leaves it.\<close>

definition rankings_good :: "(query_ranking \<Rightarrow> bool) \<Rightarrow> query_ranking list \<Rightarrow> bool" where
  "rankings_good p rs \<longleftrightarrow> distinct (map rk_query rs) \<and> (\<forall>r \<in> set rs. p r)"

definition pool_ranking_ok :: "(string \<times> query_record) list \<Rightarrow> query_ranking \<Rightarrow> bool" where
  "pool_ranking_ok queries r \<longleftrightarrow> plain_text (rk_query r) \<and>
     (\<exists>q. map_of queries (rk_query r) = Some q \<and> candidates_ok (judged_ids q) (rk_candidates r))"

interpretation full_ranking_loop: collecting_loop "full_ranking selected expected" "rankings_good (full_ranking_ok expected)" length
  for selected expected
  by unfold_locales (auto elim!: full_ranking_step simp: rankings_good_def)

interpretation pool_ranking_loop: collecting_loop "pool_ranking queries" "rankings_good (pool_ranking_ok queries)" length
  for queries
  by unfold_locales (auto elim!: pool_ranking_step simp: rankings_good_def pool_ranking_ok_def)

lemma rankings_good_Nil [simp]: "rankings_good p []"
  by (simp add: rankings_good_def)

lemma loaded_full:
  assumes "load_full_corpus_ranking_artifact sha frepr v qs reg = Inr a"
  shows "set (map rk_query (fa_rankings a)) = set (selected_queries qs (fa_split a))"
    and "distinct (map rk_query (fa_rankings a))" and "fa_candidates a = expected_candidates reg (fa_split a)"
    and "\<forall>r \<in> set (fa_rankings a). full_ranking_ok (fa_candidates a) r"
proof -
  from assms obtain items where f: "foldE (full_ranking (selected_queries qs (fa_split a)) (fa_candidates a)) [] items = Inr (fa_rankings a)"
    and s: "set (map rk_query (fa_rankings a)) = set (selected_queries qs (fa_split a))"
    and e: "fa_candidates a = expected_candidates reg (fa_split a)"
    by (auto simp: load_full_corpus_ranking_artifact_def Let_def)
  from full_ranking_loop.loop_good [OF f]
  show "distinct (map rk_query (fa_rankings a))" "\<forall>r \<in> set (fa_rankings a). full_ranking_ok (fa_candidates a) r"
    unfolding rankings_good_def by simp_all
  show "set (map rk_query (fa_rankings a)) = set (selected_queries qs (fa_split a))" by (rule s)
  show "fa_candidates a = expected_candidates reg (fa_split a)" by (rule e)
qed

lemma loaded_pool:
  assumes "load_ranking_artifact sha frepr v qs reg = Inr a"
  shows "set (map rk_query (ra_rankings a)) = set (map qr_id (qg_queries qs))" and "distinct (map rk_query (ra_rankings a))"
    and "\<forall>r \<in> set (ra_rankings a). pool_ranking_ok (queries_by_id (qg_queries qs)) r"
proof -
  let ?qs = "queries_by_id (qg_queries qs)"
  from assms obtain items where f: "foldE (pool_ranking ?qs) [] items = Inr (ra_rankings a)"
    and m: "filter (\<lambda>i. i \<notin> set (map rk_query (ra_rankings a))) (map fst ?qs) = []"
    by (auto simp: load_ranking_artifact_def Let_def split: if_splits)
  from pool_ranking_loop.loop_good [OF f]
  show d: "distinct (map rk_query (ra_rankings a))" and p: "\<forall>r \<in> set (ra_rankings a). pool_ranking_ok ?qs r"
    unfolding rankings_good_def by simp_all
  have ids: "set (map fst ?qs) = set (map qr_id (qg_queries qs))" by (simp add: queries_by_id_def image_image)
  have "set (map rk_query (ra_rankings a)) \<subseteq> set (map fst ?qs)"
    using p unfolding pool_ranking_ok_def by (force dest: map_of_SomeD)
  moreover have "set (map fst ?qs) \<subseteq> set (map rk_query (ra_rankings a))"
    using m unfolding filter_empty_conv by blast
  ultimately show "set (map rk_query (ra_rankings a)) = set (map qr_id (qg_queries qs))" using ids by simp
qed

subsection \<open>Bounds of the metrics\<close>

lemma fdiv_unit: "a \<le> b \<Longrightarrow> 0 < b \<Longrightarrow> fdiv (of_nat a) (of_nat b) \<le> 1"
  using rnd_le_int [of "of_nat a / of_nat b" 1] by (simp add: fdiv_def)

lemma fdiv_nonneg: "0 \<le> x \<Longrightarrow> 0 \<le> y \<Longrightarrow> 0 \<le> fdiv x y"
  unfolding fdiv_def by (intro rnd_nonneg divide_nonneg_nonneg)

lemma precision_loop_bounds:
  assumes "precision_loop relevant rank (seen, s, first) cs = (seen', s', first')"
    and "0 \<le> s" "s \<le> of_nat seen" "seen < rank" "rank + length cs < 2 ^ 53" "first \<noteq> Some 0"
  shows "0 \<le> s' \<and> s' \<le> of_nat seen' \<and> seen' = seen + length (filter (\<lambda>c. rc_case c \<in> set relevant) cs) \<and> first' \<noteq> Some 0"
  using assms
proof (induction cs arbitrary: rank seen s first)
  case (Cons c cs)
  show ?case
  proof (cases "rc_case c \<in> set relevant")
    case True
    let ?p = "fdiv (of_nat (seen + 1)) (of_nat rank)"
    have p: "0 \<le> ?p" "?p \<le> 1" using Cons.prems fdiv_unit [of "seen + 1" rank] by (auto intro!: fdiv_nonneg)
    have lo: "0 \<le> fadd s ?p" using p Cons.prems by (simp add: fadd_def rnd_nonneg)
    have "rnd (s + ?p) \<le> of_int (int (seen + 1))"
      using p Cons.prems by (intro rnd_le_int) simp_all
    then have hi: "fadd s ?p \<le> of_nat (seen + 1)" by (simp add: fadd_def)
    have "precision_loop relevant (rank + 1) (seen + 1, fadd s ?p, case first of None \<Rightarrow> Some rank | Some r \<Rightarrow> Some r) cs = (seen', s', first')"
      using Cons.prems(1) True by simp
    from Cons.IH [OF this lo hi] Cons.prems True show ?thesis by (simp split: option.splits)
  next
    case False
    with Cons.prems have "precision_loop relevant (rank + 1) (seen, s, first) cs = (seen', s', first')" by simp
    from Cons.IH [OF this] Cons.prems False show ?thesis by simp
  qed
qed simp

lemma relevant_count:
  assumes "distinct (map rc_case cs)"
  shows "length (filter (\<lambda>c. rc_case c \<in> set ks) cs) \<le> length ks"
proof -
  let ?f = "filter (\<lambda>c. rc_case c \<in> set ks) cs"
  have "length ?f = card (set (map rc_case ?f))" using assms by (metis distinct_card distinct_map_filter length_map)
  also have "\<dots> \<le> card (set ks)" by (rule card_mono) auto
  also have "\<dots> \<le> length ks" by (rule card_length)
  finally show ?thesis .
qed

definition row_bounded :: "query_row \<Rightarrow> bool" where
  "row_bounded row \<longleftrightarrow> 0 \<le> qm_recall row \<and> qm_recall row \<le> 1 \<and> 0 \<le> qm_precision row \<and> qm_precision row \<le> 1 \<and>
     0 \<le> qm_reciprocal row \<and> qm_reciprocal row \<le> 1"

lemma query_metrics_bounds:
  assumes "query_metrics float_sum log2 q r k = Inr row" and "distinct (map rc_case (rk_candidates r))"
    and "length (rk_candidates r) < 2 ^ 53 - 1"
  shows "row_bounded row"
proof -
  let ?grades = "dict_of (qr_judgments q)" and ?cs = "rk_candidates r"
  from assms(1) have ne: "?grades \<noteq> []" by (auto simp: query_metrics_def Let_def)
  obtain seen s first where loop: "precision_loop (map fst ?grades) 1 (0, 0, None) ?cs = (seen, s, first)"
    by (metis prod_cases3)
  from precision_loop_bounds [OF loop] assms(3) have s: "0 \<le> s" "s \<le> of_nat seen" and first: "first \<noteq> Some 0"
    and seen: "seen = length (filter (\<lambda>c. rc_case c \<in> set (map fst ?grades)) ?cs)" by simp_all
  have "seen \<le> length (map fst ?grades)" unfolding seen by (rule relevant_count [OF assms(2)])
  then have sl: "s \<le> of_nat (length ?grades)" using s(2) by (simp add: order_trans)
  have prec: "0 \<le> fdiv s (of_nat (length ?grades))" "fdiv s (of_nat (length ?grades)) \<le> 1"
    using s sl ne rnd_le_int [of "s / of_nat (length ?grades)" 1]
    by (simp add: fdiv_nonneg) (use s sl ne rnd_le_int [of "s / of_nat (length ?grades)" 1] in \<open>simp add: fdiv_def divide_le_eq_1\<close>)
  have d: "distinct (map rc_case (take k ?cs))" using assms(2) by (simp flip: take_map)
  have rec: "0 \<le> fdiv (of_nat (length (filter (\<lambda>c. rc_case c \<in> set (map fst ?grades)) (take k ?cs)))) (of_nat (length ?grades))"
      "fdiv (of_nat (length (filter (\<lambda>c. rc_case c \<in> set (map fst ?grades)) (take k ?cs)))) (of_nat (length ?grades)) \<le> 1"
    using relevant_count [OF d, of "map fst ?grades"] ne by (auto intro!: fdiv_nonneg fdiv_unit)
  have rr: "0 \<le> (case first of None \<Rightarrow> 0 | Some n \<Rightarrow> fdiv 1 (of_nat n))" "(case first of None \<Rightarrow> 0 | Some n \<Rightarrow> fdiv 1 (of_nat n)) \<le> 1"
    using first fdiv_unit [of 1] by (auto split: option.splits intro!: fdiv_nonneg)
  from assms(1) ne loop have row: "qm_recall row = fdiv (of_nat (length (filter (\<lambda>c. rc_case c \<in> set (map fst ?grades)) (take k ?cs)))) (of_nat (length ?grades))"
    "qm_precision row = fdiv s (of_nat (length ?grades))" "qm_reciprocal row = (case first of None \<Rightarrow> 0 | Some n \<Rightarrow> fdiv 1 (of_nat n))"
    by (auto simp: query_metrics_def Let_def)
  show ?thesis unfolding row_bounded_def row using prec rec rr by blast
qed

lemma dict_of_Nil: "dict_of items = [] \<longleftrightarrow> items = []"
  by (metis dict_of_keys image_is_empty set_empty)

lemma query_metrics_total: "qr_judgments q \<noteq> [] \<Longrightarrow> \<exists>row. query_metrics float_sum log2 q r k = Inr row"
  by (simp add: query_metrics_def Let_def dict_of_Nil split: prod.split)

lemma query_named_in:
  assumes "query_named qs i = Inr q"
  shows "q \<in> set (qg_queries qs) \<and> qr_id q = i"
proof -
  from assms have "map_of (queries_by_id (qg_queries qs)) i = Some q" by (auto simp: query_named_def split: option.splits)
  from map_of_dict_ofD [OF this [unfolded queries_by_id_def]] show ?thesis by auto
qed

lemma query_named_total: "i \<in> set (map qr_id (qg_queries qs)) \<Longrightarrow> \<exists>q. query_named qs i = Inr q"
proof -
  assume "i \<in> set (map qr_id (qg_queries qs))"
  then have "i \<in> fst ` set (queries_by_id (qg_queries qs))" by (simp add: queries_by_id_def image_image)
  then show ?thesis by (cases "map_of (queries_by_id (qg_queries qs)) i") (auto simp: query_named_def map_of_eq_None_iff)
qed

subsection \<open>An example\<close>

definition sample_full_json :: json where
  "sample_full_json = JObj [(''schema_version'', JStr ''dsvire.full-corpus-query-ranking.v1''),
     (''query_registry_sha256'', JStr []), (''visual_registry_sha256'', JStr []), (''split'', JStr ''development''),
     (''system'', JObj [(''id'', JStr ''s''), (''sha256'', JStr (replicate 64 CHR ''a''))]),
     (''candidate_case_ids'', JArr [JStr ''d/1'', JStr ''d/2'', JStr ''d/3'', JStr ''d/4'']),
     (''rankings'', JArr [JObj [(''query_id'', JStr ''q''), (''candidates'', JArr
       [JObj [(''case_id'', JStr ''d/1''), (''score'', JInt 2)], JObj [(''case_id'', JStr ''d/2''), (''score'', JInt 1)],
        JObj [(''case_id'', JStr ''d/3''), (''score'', JInt 1)], JObj [(''case_id'', JStr ''d/4''), (''score'', JInt 0)]])]])]"

definition sample_full :: full_artifact where
  "sample_full = \<lparr>fa_split = ''development'', fa_system = ''s'', fa_system_sha256 = replicate 64 CHR ''a'',
     fa_candidates = [''d/1'', ''d/2'', ''d/3'', ''d/4''],
     fa_rankings = [\<lparr>rk_query = ''q'', rk_candidates = [\<lparr>rc_case = ''d/1'', rc_score = 2\<rparr>, \<lparr>rc_case = ''d/2'', rc_score = 1\<rparr>,
       \<lparr>rc_case = ''d/3'', rc_score = 1\<rparr>, \<lparr>rc_case = ''d/4'', rc_score = 0\<rparr>]\<rparr>],
     fa_sha256 = []\<rparr>"

lemma sample_full_loads:
  "load_full_corpus_ranking_artifact (\<lambda>_. []) (\<lambda>_. []) sample_full_json sample_queries sample_registry = Inr sample_full"
  by code_simp

text \<open>
  The query registry keeps the id of a query as it is written, the ranking loaders strip the id they read: a
  query whose id has white space around it is accepted by the registry, and no artifact can then rank it.
\<close>

lemma unstripped_query_unrankable:
  assumes "q \<in> set (qg_queries qs)" and "strip (qr_id q) \<noteq> qr_id q"
  shows "load_ranking_artifact sha frepr v qs reg \<noteq> Inr a"
proof
  assume load: "load_ranking_artifact sha frepr v qs reg = Inr a"
  have "qr_id q \<in> set (map rk_query (ra_rankings a))" using loaded_pool(1) [OF load] assms(1) by simp
  then obtain r where "r \<in> set (ra_rankings a)" "rk_query r = qr_id q" by auto
  then have "plain_text (qr_id q)" using loaded_pool(3) [OF load] by (auto simp: pool_ranking_ok_def)
  with assms(2) show False by (simp add: plain_text_def)
qed

subsection \<open>Properties\<close>

text \<open>
  A loaded full-corpus artifact is the canonical ranking of its scores: it ranks exactly the queries of its
  split, each once, over exactly the cases of the split, and a ranking is what ordering its scored candidates
  by descending score and then by id gives, from whatever order they start.
\<close>

theorem full_ranking_canonical:
  assumes "load_full_corpus_ranking_artifact sha frepr v qs reg = Inr a"
  shows "set (map rk_query (fa_rankings a)) = set (selected_queries qs (fa_split a)) \<and> distinct (map rk_query (fa_rankings a)) \<and>
    (\<forall>r \<in> set (fa_rankings a). mset (map rc_case (rk_candidates r)) = mset (expected_candidates reg (fa_split a)) \<and>
       (\<forall>cs. mset cs = mset (rk_candidates r) \<longrightarrow> order_candidates cs = rk_candidates r))"
proof -
  note loaded = loaded_full [OF assms]
  have "mset (map rc_case (rk_candidates r)) = mset (expected_candidates reg (fa_split a)) \<and>
       (\<forall>cs. mset cs = mset (rk_candidates r) \<longrightarrow> order_candidates cs = rk_candidates r)" if "r \<in> set (fa_rankings a)" for r
  proof -
    from loaded(4) that have ok: "full_ranking_ok (fa_candidates a) r" by blast
    then have inj: "inj_on candidate_key (set (rk_candidates r))"
      by (auto simp: full_ranking_ok_def distinct_map inj_on_def candidate_key_def)
    have same: "order_candidates (rk_candidates r) = rk_candidates r"
      and m: "mset (map rc_case (rk_candidates r)) = mset (expected_candidates reg (fa_split a))"
      using ok unfolding full_ranking_ok_def loaded(3) by auto
    have "order_candidates cs = rk_candidates r" if "mset cs = mset (rk_candidates r)" for cs
      using candidate_order.rank_unique [OF inj that] unfolding same .
    with m show ?thesis by blast
  qed
  then show ?thesis using loaded(1,2) by blast
qed

lemma full_ranking_canonical_witness:
  "set (map rk_query (fa_rankings sample_full)) = set (selected_queries sample_queries ''development'')"
  using full_ranking_canonical [OF sample_full_loads, THEN conjunct1] by (simp add: sample_full_def)

text \<open>
  The metrics of a query are what their names promise: over a loaded full-corpus artifact, with all
  roundings, recall, average precision and reciprocal rank lie within 0 and 1, the judged and unjudged
  candidates add up to the cut-off list, and no more hard negatives are counted than judged candidates.
\<close>

theorem query_metrics_bounded:
  assumes "load_full_corpus_ranking_artifact sha frepr v qs reg = Inr a" and "length (fa_candidates a) < 2 ^ 53 - 1"
    and "r \<in> set (fa_rankings a)" and "full_row float_sum log2 k q r = Inr row"
  shows "row_bounded row \<and> qm_returned row = length (fa_candidates a) \<and>
    (\<exists>judged unjudged. qm_judged row = Some (judged, unjudged) \<and> judged + unjudged = min k (qm_returned row) \<and>
       qm_negatives row \<le> judged)"
proof -
  from loaded_full(4) [OF assms(1)] assms(3) have ok: "full_ranking_ok (fa_candidates a) r" by blast
  then have len: "length (rk_candidates r) = length (fa_candidates a)" using mset_eq_length [of "map rc_case (rk_candidates r)"] unfolding full_ranking_ok_def length_map by blast
  let ?top = "take k (rk_candidates r)"
  let ?j = "length (filter (\<lambda>c. rc_case c \<in> set (judged_ids q)) ?top)"
  let ?u = "length (filter (\<lambda>c. rc_case c \<notin> set (judged_ids q)) ?top)"
  from assms(4) obtain row0 where row0: "query_metrics float_sum log2 q r k = Inr row0" and row: "row = row0\<lparr>qm_judged := Some (?j, ?u)\<rparr>"
    by (auto simp: full_row_def Let_def)
  have b: "row_bounded row0" using ok len assms(2) by (intro query_metrics_bounds [OF row0]) (simp_all add: full_ranking_ok_def)
  have fields: "qm_returned row0 = length (rk_candidates r)" "qm_negatives row0 = length (filter (\<lambda>c. rc_case c \<in> set (qr_hard_negatives q)) ?top)"
    using row0 by (auto simp: query_metrics_def Let_def split: if_splits prod.splits)
  have "?j + ?u = length ?top" by (rule sum_length_filter_compl)
  moreover have "length (filter (\<lambda>c. rc_case c \<in> set (qr_hard_negatives q)) ?top) \<le> ?j"
  proof -
    have "filter (\<lambda>c. rc_case c \<in> set (qr_hard_negatives q)) ?top =
        filter (\<lambda>c. rc_case c \<in> set (qr_hard_negatives q)) (filter (\<lambda>c. rc_case c \<in> set (judged_ids q)) ?top)"
      by (auto simp: judged_ids_def intro: filter_cong)
    then show ?thesis by (metis length_filter_le)
  qed
  ultimately show ?thesis using b fields len by (simp add: row row_bounded_def min.commute)
qed

lemma query_metrics_bounded_witness:
  "\<exists>row. full_row (\<lambda>_. 0) (\<lambda>_. 1) 5 (hd (qg_queries sample_queries)) (hd (fa_rankings sample_full)) = Inr row \<and> row_bounded row"
proof -
  have "qr_judgments (hd (qg_queries sample_queries)) \<noteq> []" by code_simp
  from query_metrics_total [OF this] obtain row0 where
    "query_metrics (\<lambda>_. 0) (\<lambda>_. 1) (hd (qg_queries sample_queries)) (hd (fa_rankings sample_full)) 5 = Inr row0" by blast
  then obtain row where row: "full_row (\<lambda>_. 0) (\<lambda>_. 1) 5 (hd (qg_queries sample_queries)) (hd (fa_rankings sample_full)) = Inr row"
    by (simp add: full_row_def Let_def)
  have "hd (fa_rankings sample_full) \<in> set (fa_rankings sample_full)" and "length (fa_candidates sample_full) < 2 ^ 53 - 1"
    by (simp_all add: sample_full_def)
  from query_metrics_bounded [OF sample_full_loads this(2,1) row] row show ?thesis by blast
qed

text \<open>
  Loaded artifacts can be evaluated: with a loaded query registry, the evaluation of a loaded artifact, over
  the judged pool or over the full corpus, always returns a result and raises neither \<open>KeyError\<close> nor
  \<open>ZeroDivisionError\<close>.
\<close>

theorem loaded_rankings_evaluate:
  assumes "load_query_registry sha frepr w reg = Inr qs"
  shows "(load_full_corpus_ranking_artifact sha frepr v qs reg = Inr a \<longrightarrow>
      (\<exists>out. evaluate_full_corpus_rankings float_sum log2 qs a 5 = Inr out)) \<and>
    (load_ranking_artifact sha frepr v qs reg = Inr b \<longrightarrow> (\<exists>out. evaluate_rankings float_sum log2 qs b 5 = Inr out))"
proof -
  have judged: "qr_judgments q \<noteq> []" if "q \<in> set (qg_queries qs)" for q
    using loaded_queries(2) [OF assms] that by (simp add: judged_query_ok_def)
  have row: "\<exists>q row. query_named qs (rk_query r) = Inr q \<and> query_metrics float_sum log2 q r 5 = Inr row"
    if "rk_query r \<in> set (map qr_id (qg_queries qs))" for r
    using query_named_total [OF that] query_named_in query_metrics_total judged by metis
  show ?thesis
  proof (intro conjI impI)
    assume "load_full_corpus_ranking_artifact sha frepr v qs reg = Inr a"
    then have s: "set (map rk_query (fa_rankings a)) = set (selected_queries qs (fa_split a))" by (rule loaded_full(1))
    have "rk_query r \<in> set (map qr_id (qg_queries qs))" if "r \<in> set (fa_rankings a)" for r
    proof -
      have "rk_query r \<in> set (selected_queries qs (fa_split a))" using s that by auto
      then show ?thesis by (auto simp: selected_queries_def)
    qed
    from row [OF this] have "\<exists>rows. mapE (\<lambda>r. bindE (query_named qs (rk_query r)) (\<lambda>q. full_row float_sum log2 5 q r)) (fa_rankings a) = Inr rows"
      by (intro mapE_total) (fastforce simp: full_row_def Let_def)
    then show "\<exists>out. evaluate_full_corpus_rankings float_sum log2 qs a 5 = Inr out"
      by (auto simp: evaluate_full_corpus_rankings_def)
  next
    assume "load_ranking_artifact sha frepr v qs reg = Inr b"
    then have s: "set (map rk_query (ra_rankings b)) = set (map qr_id (qg_queries qs))" by (rule loaded_pool(1))
    have "rk_query r \<in> set (map qr_id (qg_queries qs))" if "r \<in> set (ra_rankings b)" for r using s that by auto
    from row [OF this] have "\<exists>rows. mapE (\<lambda>r. bindE (query_named qs (rk_query r)) (\<lambda>q. query_metrics float_sum log2 q r 5)) (ra_rankings b) = Inr rows"
      by (intro mapE_total) fastforce
    then show "\<exists>out. evaluate_rankings float_sum log2 qs b 5 = Inr out"
      by (auto simp: evaluate_rankings_def)
  qed
qed

lemma loaded_rankings_evaluate_witness:
  "\<exists>out. evaluate_full_corpus_rankings (\<lambda>_. 0) (\<lambda>_. 1) sample_queries sample_full 5 = Inr out"
  using loaded_rankings_evaluate [OF sample_queries_load [of "\<lambda>_. []"], THEN conjunct1] sample_full_loads by blast

end
