(* ===== verification/SymbolSpec.thy ===== *)
theory SymbolSpec
  imports EvidenceCache
begin

section \<open>Pins from a table\<close>

text \<open>
  \<open>src/dsvire/symbol_extract.py\<close>: the rows of a pin table become pins with an electrical type and a group.
  \<open>ExtractionError\<close> is a \<open>RetrievalError\<close>. The names and kinds that the row expression accepts are ASCII, so
  \<open>upper()\<close> maps characters.
\<close>

subsection \<open>Rows\<close>

definition EXTRACTOR_VERSION :: string where "EXTRACTOR_VERSION = ''dsvire.symbol-extractor-text@1.0.0''"
definition SPEC_SCHEMA_VERSION :: string where "SPEC_SCHEMA_VERSION = ''tokito.symbol-spec.v1''"
definition MIN_PINS :: nat where "MIN_PINS = 4"
definition MIN_CONFIDENCE :: rat where "MIN_CONFIDENCE = dec 6 10"

definition name_char :: "char \<Rightarrow> bool" where
  "name_char c \<longleftrightarrow> ascii_upper c \<or> ascii_digit c \<or> any_of ''_/#'' c"

definition kind_char :: "char \<Rightarrow> bool" where
  "kind_char c \<longleftrightarrow> ascii_letter c \<or> any_of ''/+_-'' c"

definition pin_row :: "rx list" where
  "pin_row =
     [Both (Run ascii_digit 1 (Some 4)) (Perhaps (One ascii_upper)), Run py_space 1 None,
      Both (One ascii_upper) (Run name_char 0 None), Run py_space 1 None,
      Both (One ascii_letter) (Run kind_char 0 None), Boundary]"

definition pin_header :: rx where
  "pin_header = Both (choice (map ilit [''pin'', ''name'', ''type'', ''description''])) Boundary"

text \<open>The number, the name and the kind of a row.\<close>

definition row_match :: "string \<Rightarrow> (string \<times> string \<times> string) option" where
  "row_match l = (case rx_parts pin_row l 0 of
     Some [a, b, c, d, e, f] \<Rightarrow> Some (slice l 0 a, slice l b c, slice l d e)
   | _ \<Rightarrow> None)"

definition ELECTRICAL :: "(string \<times> string) list" where
  "ELECTRICAL =
     [(''input'', ''input''), (''in'', ''input''), (''i'', ''input''), (''output'', ''output''), (''out'', ''output''),
      (''o'', ''output''), (''bidirectional'', ''bidirectional''), (''bidi'', ''bidirectional''), (''io'', ''bidirectional''),
      (''i/o'', ''bidirectional''), (''tri_state'', ''tri_state''), (''tristate'', ''tri_state''), (''passive'', ''passive''),
      (''free'', ''free''), (''unspecified'', ''unspecified''), (''power'', ''power_in''), (''power_in'', ''power_in''),
      (''pwr'', ''power_in''), (''supply'', ''power_in''), (''ground'', ''power_in''), (''gnd'', ''power_in''),
      (''power_out'', ''power_out''), (''open_collector'', ''open_collector''), (''open_emitter'', ''open_emitter''),
      (''nc'', ''no_connect''), (''n/c'', ''no_connect''), (''no_connect'', ''no_connect'')]"

definition POWER_NAMES :: "string list" where
  "POWER_NAMES = [''VIN'', ''VDD'', ''VCC'', ''V+'', ''VBAT'', ''AVDD'', ''DVDD'', ''PVIN'']"

definition GROUND_NAMES :: "string list" where
  "GROUND_NAMES = [''GND'', ''VSS'', ''AGND'', ''DGND'', ''PGND'', ''V-'', ''EP'', ''PWRPAD'', ''PAD'']"

definition upper :: "string \<Rightarrow> string" where
  "upper s = map upper_char s"

definition electrical_of :: "string \<Rightarrow> string \<Rightarrow> string" where
  "electrical_of name kind =
     (let u = upper name in
      if u \<in> set GROUND_NAMES \<or> ends_with ''GND'' u then ''power_in''
      else if u \<in> set POWER_NAMES then ''power_in''
      else if u \<in> {''VOUT'', ''SW'', ''PH''} \<and> casefold kind \<in> {''output'', ''out'', ''o''} then ''output''
      else case map_of ELECTRICAL (replace_char CHR '' '' CHR ''_'' (casefold kind)) of
        Some mapped \<Rightarrow> mapped
      | None \<Rightarrow> ''unspecified'')"

definition port_name :: rx where
  "port_name = sequence [lit ''P'', One ascii_upper, Run ascii_digit 1 None]"

definition pin_group :: "string \<Rightarrow> string \<Rightarrow> string" where
  "pin_group name electrical =
     (let u = upper name in
      if u \<in> set GROUND_NAMES \<or> (electrical = ''power_in'' \<and> contains ''GND'' u) then ''ground''
      else if electrical \<in> {''power_in'', ''power_out''} then ''power''
      else if u \<in> {''BOOT'', ''COMP'', ''FB'', ''VSENSE''} then ''analog''
      else if starts_with ''GPIO'' u \<or> rx_fullmatch port_name u then ''gpio''
      else ''signal'')"

record symbol_pin =
  sp_number :: string
  sp_name :: string
  sp_electrical :: string
  sp_style :: string
  sp_group :: string
  sp_unit :: int
  sp_hidden :: bool
  sp_confidence :: rat
  sp_evidence :: "string list"

definition confidence_of :: "string \<Rightarrow> rat" where
  "confidence_of electrical = (if electrical \<noteq> ''unspecified'' then dec 86 100 else dec 72 100)"

definition make_pin :: "string \<times> string \<times> string \<Rightarrow> symbol_pin" where
  "make_pin row = (case row of (number, raw_name, kind) \<Rightarrow>
     let name = upper raw_name; electrical = electrical_of name kind in
     \<lparr>sp_number = number, sp_name = name, sp_electrical = electrical, sp_style = ''line'', sp_group = pin_group name electrical,
      sp_unit = 1, sp_hidden = False, sp_confidence = confidence_of electrical,
      sp_evidence = [''r_pinout_01'', ''r_pin_table_01'']\<rparr>)"

text \<open>One line: skipped when blank, a header or no row.\<close>

definition line_row :: "string \<Rightarrow> (string \<times> string \<times> string) option" where
  "line_row raw =
     (let l = normalise_text raw in
      if l = [] \<or> rx_ends pin_header (casefold l) 0 \<noteq> [] then None else row_match l)"

definition read_row :: "symbol_pin list \<Rightarrow> string \<Rightarrow> retrieval_error + symbol_pin list" where
  "read_row pins raw = (case line_row raw of
     None \<Rightarrow> Inr pins
   | Some (number, name, kind) \<Rightarrow>
       if number \<in> set (map sp_number pins)
       then Inl (RetrievalError (''duplicate pin number '' @ number @ '' in pin table''))
       else if confidence_of (electrical_of (upper name) kind) < MIN_CONFIDENCE
       then Inl (RetrievalError ''pin confidence fell below the compiler threshold'')
       else Inr (pins @ [make_pin (number, name, kind)]))"

definition parse_pin_table :: "string \<Rightarrow> retrieval_error + symbol_pin list" where
  "parse_pin_table table_text =
     bindE (foldE read_row [] (pieces line_break table_text)) (\<lambda>pins.
     if length pins < MIN_PINS then Inl (RetrievalError ''pin table did not yield enough numbered rows'') else Inr pins)"

subsection \<open>The specification\<close>

record symbol_spec =
  sy_schema :: string
  sy_manufacturer :: string
  sy_mpn :: string
  sy_package :: string
  sy_prefix :: string
  sy_pins :: "symbol_pin list"
  sy_datasheet :: string
  sy_description :: string
  sy_footprint :: string
  sy_keywords :: string
  sy_datasheet_id :: json
  sy_content_sha256 :: json
  sy_extractor :: string
  sy_model :: string
  sy_extracted_at :: string

text \<open>\<open>value[key]\<close> of a decoded value: a missing key escapes.\<close>

definition required_key :: "json \<Rightarrow> string \<Rightarrow> retrieval_error + json" where
  "required_key v k = (case subscript v k of Some w \<Rightarrow> Inr w | None \<Rightarrow> Inl (MissingKey k))"

text \<open>\<open>extracted_at\<close> is the given time or the clock's.\<close>

definition extract_symbol_spec :: "part_identity \<Rightarrow> region_candidate \<Rightarrow> json \<Rightarrow> string option \<Rightarrow> string \<Rightarrow>
    retrieval_error + symbol_spec" where
  "extract_symbol_spec i table evidence extracted_at now =
     bindE (parse_pin_table (ca_text table)) (\<lambda>pins.
     bindE (required_key evidence ''datasheet'') (\<lambda>datasheet.
     bindE (required_key datasheet ''id'') (\<lambda>datasheet_id.
     bindE (required_key datasheet ''content_sha256'') (\<lambda>sha.
     Inr \<lparr>sy_schema = SPEC_SCHEMA_VERSION, sy_manufacturer = strip (di_manufacturer i), sy_mpn = strip (di_mpn i),
       sy_package = strip (di_package i), sy_prefix = ''U'', sy_pins = pins,
       sy_datasheet = (case di_source_url i of None \<Rightarrow> [] | Some url \<Rightarrow> url),
       sy_description = strip (di_mpn i) @ '' '' @ strip (di_package i), sy_footprint = [],
       sy_keywords = lower (join '' '' (map sp_name (take 12 pins))),
       sy_datasheet_id = datasheet_id, sy_content_sha256 = sha, sy_extractor = EXTRACTOR_VERSION,
       sy_model = ''text-layout-heuristic'',
       sy_extracted_at = (case extracted_at of Some t \<Rightarrow> if t = [] then now else t | None \<Rightarrow> now)\<rparr>))))"

subsection \<open>Facts\<close>

definition table_rows :: "string \<Rightarrow> (string \<times> string \<times> string) list" where
  "table_rows t = List.map_filter line_row (pieces line_break t)"

lemma confidence_enough: "\<not> confidence_of electrical < MIN_CONFIDENCE"
proof -
  have "\<not> dec 86 100 < MIN_CONFIDENCE" "\<not> dec 72 100 < MIN_CONFIDENCE" by code_simp+
  then show ?thesis by (simp add: confidence_of_def)
qed

lemma number_make_pin [simp]: "sp_number (make_pin row) = fst row"
  by (simp add: make_pin_def Let_def split: prod.split)

lemma read_row_eq:
  "read_row pins raw = (case line_row raw of None \<Rightarrow> Inr pins
     | Some row \<Rightarrow> if fst row \<in> set (map sp_number pins)
         then Inl (RetrievalError (''duplicate pin number '' @ fst row @ '' in pin table'')) else Inr (pins @ [make_pin row]))"
  by (simp add: read_row_def confidence_enough split: option.split prod.split)

text \<open>The loop over the lines collects the rows, or finds the first number that repeats.\<close>

lemma read_rows:
  assumes "distinct (map sp_number pins)"
  shows "foldE read_row pins ls = Inr result \<longleftrightarrow>
    result = pins @ map make_pin (List.map_filter line_row ls) \<and> distinct (map sp_number result)"
  using assms
proof (induction ls arbitrary: pins)
  case (Cons l ls)
  show ?case
  proof (cases "line_row l")
    case None
    with Cons show ?thesis by (simp add: read_row_eq map_filter_simps)
  next
    case (Some row)
    show ?thesis
    proof (cases "fst row \<in> set (map sp_number pins)")
      case True
      with Some show ?thesis by (auto simp: read_row_eq map_filter_simps)
    next
      case False
      with Cons.prems have "distinct (map sp_number (pins @ [make_pin row]))" by simp
      from Cons.IH [OF this] False Some show ?thesis by (simp add: read_row_eq map_filter_simps)
    qed
  qed
qed (auto simp: map_filter_simps)

lemma parse_pin_table_iff:
  "parse_pin_table t = Inr pins \<longleftrightarrow>
     pins = map make_pin (table_rows t) \<and> distinct (map fst (table_rows t)) \<and> 4 \<le> length (table_rows t)"
proof -
  have n: "map sp_number (map make_pin rows) = map fst rows" for rows by (induction rows) simp_all
  have "foldE read_row [] (pieces line_break t) = Inr ps \<longleftrightarrow> ps = map make_pin (table_rows t) \<and> distinct (map fst (table_rows t))" for ps
    using read_rows [of "[]" "pieces line_break t" ps] n [of "table_rows t"] by (auto simp: table_rows_def simp del: map_map)
  then show ?thesis by (auto simp: parse_pin_table_def MIN_PINS_def)
qed

text \<open>A row is read off its line: number, blank space, name, blank space and kind, in that order from the start.\<close>

definition reads_row :: "string \<Rightarrow> string \<times> string \<times> string \<Rightarrow> bool" where
  "reads_row l row \<longleftrightarrow> (case row of (number, name, kind) \<Rightarrow>
     \<exists>gap gap' rest. l = number @ gap @ name @ gap' @ kind @ rest \<and> gap \<noteq> [] \<and> gap' \<noteq> [] \<and> list_all py_space (gap @ gap') \<and>
       number \<noteq> [] \<and> ascii_digit (hd number) \<and> name \<noteq> [] \<and> list_all name_char name)"

lemma slice_append: "i \<le> j \<Longrightarrow> j \<le> k \<Longrightarrow> slice s i j @ slice s j k = slice s i k"
proof -
  assume ij: "i \<le> j" "j \<le> k"
  have "take k s = take j s @ drop j (take k s)" using ij(2) by (metis append_take_drop_id min.absorb1 take_take)
  then have "drop i (take k s) = drop i (take j s @ drop j (take k s))" by simp
  also have "\<dots> = drop i (take j s) @ drop (i - length (take j s)) (drop j (take k s))" by simp
  also have "drop (i - length (take j s)) (drop j (take k s)) = drop j (take k s)"
    using ij by (cases "j \<le> length s") simp_all
  finally show ?thesis by (simp add: slice_def)
qed

lemma slice_chars: "(\<And>k. i \<le> k \<Longrightarrow> k < j \<Longrightarrow> char_at p s k) \<Longrightarrow> list_all p (slice s i j)"
proof -
  assume all: "\<And>k. i \<le> k \<Longrightarrow> k < j \<Longrightarrow> char_at p s k"
  show ?thesis unfolding list_all_length
  proof (intro allI impI)
    fix n assume n: "n < length (slice s i j)"
    then have "i + n < j" "i + n < length s" by (auto simp: slice_def)
    moreover from this have "slice s i j ! n = s ! (i + n)" by (simp add: slice_def)
    ultimately show "p (slice s i j ! n)" using all [of "i + n"] by (simp add: char_at_def)
  qed
qed

lemma upper_name: "list_all name_char name \<Longrightarrow> upper name = name"
proof -
  have "upper_char c = c" if "name_char c" for c
  proof -
    have "\<not> (97 \<le> code_point c \<and> code_point c \<le> 122)"
      using that by (auto simp: name_char_def ascii_upper_def ascii_digit_def any_of_def code_point_def)
    then show ?thesis by (auto simp: upper_char_def Let_def)
  qed
  then show "list_all name_char name \<Longrightarrow> upper name = name" by (simp add: upper_def list_all_iff map_idI)
qed

lemma row_match_reads: "row_match l = Some row \<Longrightarrow> reads_row l row"
proof -
  assume r: "row_match l = Some row"
  then obtain a b c d e f where m: "rx_parts pin_row l 0 = Some [a, b, c, d, e, f]"
    and row: "row = (slice l 0 a, slice l b c, slice l d e)"
    by (auto simp: row_match_def split: option.splits list.splits)
  have all: "rx_match (pin_row ! k) l ((0 # [a, b, c, d, e, f]) ! k) ([a, b, c, d, e, f] ! k)" if "k < length pin_row" for k
    using rx_parts_match [OF m] that by blast
  have m0: "rx_match (Both (Run ascii_digit 1 (Some 4)) (Perhaps (One ascii_upper))) l 0 a" using all [of 0] by (simp add: pin_row_def)
  have m1: "rx_match (Run py_space 1 None) l a b" using all [of 1] by (simp add: pin_row_def)
  have m2: "rx_match (Both (One ascii_upper) (Run name_char 0 None)) l b c" using all [of 2] by (simp add: pin_row_def)
  have m3: "rx_match (Run py_space 1 None) l c d" using all [of 3] by (simp add: pin_row_def)
  have m4: "rx_match (Both (One ascii_letter) (Run kind_char 0 None)) l d e" using all [of 4] by (simp add: pin_row_def)
  have o: "0 < a" "a < b" "b < c" "c < d" "d \<le> e" using m0 m1 m2 m3 m4 by auto
  have len: "e \<le> length l"
    using rx_match_bounds [OF m4] rx_match_bounds [OF m3] rx_match_bounds [OF m2] rx_match_bounds [OF m1] rx_match_bounds [OF m0] by simp
  have split: "l = slice l 0 a @ slice l a b @ slice l b c @ slice l c d @ slice l d e @ drop e l"
  proof -
    have "l = slice l 0 e @ drop e l" by (simp add: slice_def)
    also have "slice l 0 e = slice l 0 a @ slice l a b @ slice l b c @ slice l c d @ slice l d e"
      using o by (simp add: slice_append)
    finally show ?thesis by simp
  qed
  have size: "length (slice l i j) = j - i" if "i \<le> j" "j \<le> e" for i j using that len by (simp add: slice_def)
  have gaps: "list_all py_space (slice l a b)" "list_all py_space (slice l c d)"
    using m1 m3 by (auto intro!: slice_chars)
  have name: "list_all name_char (slice l b c)"
  proof (rule slice_chars)
    fix k assume k: "b \<le> k" "k < c"
    have first: "char_at ascii_upper l b" and rest: "\<forall>k. b + 1 \<le> k \<and> k < c \<longrightarrow> char_at name_char l k" using m2 by auto
    show "char_at name_char l k"
    proof (cases "k = b")
      case True
      with first show ?thesis by (simp add: char_at_def name_char_def)
    next
      case False
      with k rest show ?thesis by simp
    qed
  qed
  have digit: "ascii_digit (hd (slice l 0 a))"
  proof -
    have "char_at ascii_digit l 0" using m0 by auto
    then show ?thesis using o(1) len by (auto simp: slice_def char_at_def hd_conv_nth)
  qed
  have filled: "slice l 0 a \<noteq> []" "slice l a b \<noteq> []" "slice l b c \<noteq> []" "slice l c d \<noteq> []"
    using size [of 0 a] size [of a b] size [of b c] size [of c d] o by (auto simp flip: length_greater_0_conv)
  show ?thesis unfolding reads_row_def row prod.case
    by (rule exI [of _ "slice l a b"], rule exI [of _ "slice l c d"], rule exI [of _ "drop e l"])
      (use split gaps name digit filled in simp)
qed

lemma line_row_reads: "line_row raw = Some row \<Longrightarrow> reads_row (normalise_text raw) row"
  by (auto simp: line_row_def Let_def split: if_splits intro: row_match_reads)

lemma table_rowsE:
  assumes "row \<in> set (table_rows t)"
  obtains raw where "raw \<in> set (pieces line_break t)" "line_row raw = Some row"
proof -
  have "set (List.map_filter line_row ls) = {r. \<exists>x \<in> set ls. line_row x = Some r}" for ls :: "string list"
    by (induction ls) (auto simp: map_filter_simps split: option.splits)
  with assms that show ?thesis by (auto simp: table_rows_def)
qed

text \<open>The pin of a row bears the row's number and name.\<close>

lemma make_pin_reads:
  assumes "reads_row l (number, name, kind)"
  shows "sp_name (make_pin (number, name, kind)) = name"
    "sp_electrical (make_pin (number, name, kind)) = electrical_of name kind"
  using assms upper_name [of name] by (auto simp: make_pin_def Let_def reads_row_def)

lemma make_pin_confidence: "MIN_CONFIDENCE \<le> sp_confidence (make_pin row)"
  using confidence_enough by (auto simp: make_pin_def Let_def not_less split: prod.split)

text \<open>Pin tables are read exactly: \<open>parse_pin_table\<close> answers with one pin per line that reads as a row, in the order of
  the lines, precisely when no number repeats and at least four lines read; otherwise it raises.\<close>

theorem pin_table_read_exactly:
  "parse_pin_table t = Inr pins \<longleftrightarrow>
     pins = map make_pin (List.map_filter line_row (pieces line_break t)) \<and> distinct (map sp_number pins) \<and> 4 \<le> length pins"
proof -
  have n: "map sp_number (map make_pin rows) = map fst rows" for rows by (induction rows) simp_all
  show ?thesis using parse_pin_table_iff [of t pins] n [of "table_rows t"] unfolding table_rows_def by (auto simp del: map_map)
qed

text \<open>
  C25. No pin is invented: each pin the extractor emits is read off one line of the table text, whose characters give its
  number and its name; its electrical type follows from the name and the line's kind, and its confidence reaches the
  threshold.
\<close>

theorem pins_are_table_rows:
  assumes "parse_pin_table t = Inr pins" and "p \<in> set pins"
  shows "\<exists>raw \<in> set (pieces line_break t). \<exists>kind. reads_row (normalise_text raw) (sp_number p, sp_name p, kind) \<and>
    sp_electrical p = electrical_of (sp_name p) kind \<and> MIN_CONFIDENCE \<le> sp_confidence p"
proof -
  from assms obtain number name kind where row: "(number, name, kind) \<in> set (table_rows t)" "p = make_pin (number, name, kind)"
    by (auto simp: parse_pin_table_iff)
  then obtain raw where raw: "raw \<in> set (pieces line_break t)" "line_row raw = Some (number, name, kind)"
    using table_rowsE by blast
  have r: "reads_row (normalise_text raw) (number, name, kind)" by (rule line_row_reads [OF raw(2)])
  show ?thesis using raw(1) r make_pin_reads [OF r] make_pin_confidence [of "(number, name, kind)"]
    unfolding row(2) by (auto intro!: bexI [of _ raw] exI [of _ kind])
qed

text \<open>Every row's name lacks signs, so the supply names \<open>V+\<close> and \<open>V-\<close> of the name tables cannot be read: their lines are
  skipped, and a table with them gives a symbol without the two supply pins.\<close>

lemma signed_names_never_read: "line_row raw = Some (number, name, kind) \<Longrightarrow> name \<notin> {''V+'', ''V-''}"
  using line_row_reads [of raw "(number, name, kind)"] by (auto simp: reads_row_def name_char_def ascii_upper_def ascii_digit_def any_of_def code_point_def)

definition pin_text :: string where
  "pin_text = join [newline_char] [''PIN NAME TYPE'', ''1 IN1 input'', ''2  OUT output'', ''3 NC nc'', ''4 V- power'',
     ''Absolute maximum ratings'', ''5 GND ground'', ''8 V+ power'']"

lemma pin_text_rows:
  "table_rows pin_text = [(''1'', ''IN1'', ''input''), (''2'', ''OUT'', ''output''), (''3'', ''NC'', ''nc''), (''5'', ''GND'', ''ground'')]"
  by code_simp

lemma supply_rows_dropped: "\<exists>pins. parse_pin_table pin_text = Inr pins \<and> map sp_number pins = [''1'', ''2'', ''3'', ''5'']"
  unfolding parse_pin_table_iff pin_text_rows by simp

theorem pins_are_table_rows_witness:
  "\<exists>pins p. parse_pin_table pin_text = Inr pins \<and> p \<in> set pins \<and>
    (\<exists>raw \<in> set (pieces line_break pin_text). \<exists>kind. reads_row (normalise_text raw) (sp_number p, sp_name p, kind) \<and>
       sp_electrical p = electrical_of (sp_name p) kind \<and> MIN_CONFIDENCE \<le> sp_confidence p)"
proof -
  obtain pins where both: "parse_pin_table pin_text = Inr pins \<and> map sp_number pins = [''1'', ''2'', ''3'', ''5'']"
    using supply_rows_dropped ..
  note pins = conjunct1 [OF both] conjunct2 [OF both]
  from pins(2) obtain p ps where "pins = p # ps" by (cases pins) auto
  then have p: "p \<in> set pins" by simp
  show ?thesis
    by (rule exI [of _ pins], rule exI [of _ p], rule conjI [OF pins(1)], rule conjI [OF p], rule pins_are_table_rows [OF pins(1) p])
qed

end
