(* ===== verification/SymbolLayout.thy ===== *)
theory SymbolLayout
  imports SymbolSpec Ranking "HOL-Library.Product_Lexorder"
begin

section \<open>Drawing a symbol\<close>

text \<open>
  \<open>src/dsvire/symbol_layout.py\<close>: the pins of a specification are distributed over the four sides of a box and drawn as
  SVG. Coordinates are binary64 values, the arithmetic is that of \<open>Float64\<close>; no coordinate is a negative zero. The pins
  are those of the extractor: their numbers are ASCII, so \<open>int\<close> reads the digits, and every pin has a group.
\<close>

subsection \<open>Sides\<close>

datatype side = TopSide | BottomSide | LeftSide | RightSide

definition PITCH :: rat where "PITCH = 1"
definition PIN_LENGTH :: rat where "PIN_LENGTH = 1"
definition BODY_MARGIN :: rat where "BODY_MARGIN = dec 8 10"
definition SCALE :: rat where "SCALE = 36"
definition PAD :: rat where "PAD = 56"

definition pin_side :: "symbol_pin \<Rightarrow> side" where
  "pin_side p =
     (let name = upper (sp_name p); electrical = sp_electrical p in
      if electrical = ''power_in'' \<and> (contains ''GND'' name \<or> name \<in> {''VSS'', ''V-'', ''EP'', ''PWRPAD'', ''PAD''}) then BottomSide
      else if electrical \<in> {''power_in'', ''power_out''} then TopSide
      else if electrical \<in> {''output'', ''open_collector'', ''open_emitter''} then RightSide
      else LeftSide)"

definition re_digits :: "string \<Rightarrow> string" where
  "re_digits number = (let digits = filter ascii_digit number in if digits = [] then ''0'' else digits)"

definition pin_key :: "symbol_pin \<Rightarrow> string \<times> int \<times> string" where
  "pin_key p = (sp_group p, digits_val (re_digits (sp_number p)), sp_number p)"

definition order_pins :: "symbol_pin list \<Rightarrow> symbol_pin list" where
  "order_pins pins = sort_key pin_key pins"

definition pin_bucket :: "side \<Rightarrow> symbol_pin list \<Rightarrow> symbol_pin list" where
  "pin_bucket s pins = order_pins (filter (\<lambda>p. pin_side p = s) pins)"

interpretation pin_order: ranking order_pins pin_key
  by unfold_locales (simp_all add: order_pins_def)

subsection \<open>Positions\<close>

record laid_pin =
  lp_pin :: symbol_pin
  lp_side :: side
  lp_x :: rat
  lp_y :: rat
  lp_angle :: int
  lp_length :: rat

definition body_height :: "symbol_pin list \<Rightarrow> rat" where
  "body_height pins =
     (let vertical = max (max (length (pin_bucket LeftSide pins)) (length (pin_bucket RightSide pins))) 2
      in fadd (fmul (of_nat (max (vertical - 1) 1)) PITCH) (fmul BODY_MARGIN 2))"

definition body_width :: "symbol_pin list \<Rightarrow> rat" where
  "body_width pins =
     (let horizontal = max (max (length (pin_bucket TopSide pins)) (length (pin_bucket BottomSide pins))) 1;
          longest = Max (set (map (\<lambda>p. length (sp_name p)) pins))
      in max (fadd (fmul (of_nat (max (horizontal - 1) 1)) PITCH) (fmul BODY_MARGIN 2))
             (fadd (dec 24 10) (fmul (of_nat longest) (dec 22 100))))"

definition spaced :: "nat \<Rightarrow> rat \<Rightarrow> rat \<Rightarrow> rat list" where
  "spaced n start stop =
     (if n = 1 then [fdiv (fadd start stop) 2]
      else map (\<lambda>i. fadd start (fdiv (fmul (fsub stop start) (of_nat i)) (of_nat (n - 1)))) [0..<n])"

definition lay_column :: "side \<Rightarrow> int \<Rightarrow> rat \<Rightarrow> rat \<Rightarrow> rat \<Rightarrow> symbol_pin list \<Rightarrow> laid_pin list" where
  "lay_column s angle x start stop pins =
     map2 (\<lambda>p y. \<lparr>lp_pin = p, lp_side = s, lp_x = x, lp_y = y, lp_angle = angle, lp_length = PIN_LENGTH\<rparr>)
       pins (spaced (length pins) start stop)"

definition lay_row :: "side \<Rightarrow> int \<Rightarrow> rat \<Rightarrow> rat \<Rightarrow> rat \<Rightarrow> symbol_pin list \<Rightarrow> laid_pin list" where
  "lay_row s angle y start stop pins =
     map2 (\<lambda>p x. \<lparr>lp_pin = p, lp_side = s, lp_x = x, lp_y = y, lp_angle = angle, lp_length = PIN_LENGTH\<rparr>)
       pins (spaced (length pins) start stop)"

text \<open>Left, bottom, right and top of the body; \<open>max\<close> of no names raises.\<close>

definition body_box :: "symbol_pin list \<Rightarrow> rat \<times> rat \<times> rat \<times> rat" where
  "body_box pins =
     (let w = body_width pins; h = body_height pins in (fdiv (- w) 2, fdiv (- h) 2, fdiv w 2, fdiv h 2))"

definition layout_pins :: "symbol_pin list \<Rightarrow> (laid_pin list \<times> rat \<times> rat \<times> rat \<times> rat) option" where
  "layout_pins pins =
     (if pins = [] then None
      else case body_box pins of (x0, y0, x1, y1) \<Rightarrow>
        Some (lay_column LeftSide 180 x0 (fsub y1 BODY_MARGIN) (fadd y0 BODY_MARGIN) (pin_bucket LeftSide pins) @
              lay_column RightSide 0 x1 (fsub y1 BODY_MARGIN) (fadd y0 BODY_MARGIN) (pin_bucket RightSide pins) @
              lay_row TopSide 90 y1 (fadd x0 BODY_MARGIN) (fsub x1 BODY_MARGIN) (pin_bucket TopSide pins) @
              lay_row BottomSide 270 y0 (fadd x0 BODY_MARGIN) (fsub x1 BODY_MARGIN) (pin_bucket BottomSide pins),
              x0, y0, x1, y1))"

subsection \<open>The picture\<close>

text \<open>Cosine and sine of the four angles, as the library's functions give them for \<open>math.radians\<close> of the angle.\<close>

definition direction :: "int \<Rightarrow> rat \<times> rat" where
  "direction angle =
     (if angle = 0 then (1, 0)
      else if angle = 90 then (rnd (6123233995736766 / 10 ^ 32), 1)
      else if angle = 180 then (- 1, rnd (12246467991473532 / 10 ^ 32))
      else (rnd (- 18369701987210297 / 10 ^ 32), - 1))"

definition pin_tip :: "laid_pin \<Rightarrow> rat \<times> rat" where
  "pin_tip p = (case direction (lp_angle p) of (c, s) \<Rightarrow> (fadd (lp_x p) (fmul c (lp_length p)), fadd (lp_y p) (fmul s (lp_length p))))"

text \<open>\<open>html.escape\<close> replaces five characters; the replacements contain none that a later one replaces.\<close>

definition escape_html_char :: "char \<Rightarrow> string" where
  "escape_html_char c =
     (if c = CHR ''&'' then ''&amp;'' else if c = CHR ''<'' then ''&lt;'' else if c = CHR ''>'' then ''&gt;''
      else if c = CHR 0x22 then ''&quot;'' else if c = CHR 0x27 then ''&#x27;'' else [c])"

definition escape_html :: "string \<Rightarrow> string" where
  "escape_html s = concat (map escape_html_char s)"

text \<open>\<open>.0f\<close> and \<open>.1f\<close>: the exact value rounded to even.\<close>

definition fixed :: "nat \<Rightarrow> rat \<Rightarrow> string" where
  "fixed k x =
     (let n = nat (round_half_even (\<bar>x\<bar> * 10 ^ k)); digits = nat_str (n mod 10 ^ k) in
      (if x < 0 then ''-'' else []) @ nat_str (n div 10 ^ k) @
      (if k = 0 then [] else ''.'' @ replicate (k - length digits) CHR ''0'' @ digits))"

record svg_frame =
  fr_min_x :: rat
  fr_max_x :: rat
  fr_min_y :: rat
  fr_max_y :: rat

definition frame_of :: "rat \<times> rat \<times> rat \<times> rat \<Rightarrow> laid_pin list \<Rightarrow> svg_frame" where
  "frame_of body pins = (case body of (x0, y0, x1, y1) \<Rightarrow>
     let xs = [x0, x1] @ concat (map (\<lambda>p. [lp_x p, fst (pin_tip p)]) pins);
         ys = [y0, y1] @ concat (map (\<lambda>p. [lp_y p, snd (pin_tip p)]) pins)
     in \<lparr>fr_min_x = Min (set xs), fr_max_x = Max (set xs), fr_min_y = Min (set ys), fr_max_y = Max (set ys)\<rparr>)"

definition frame_width :: "svg_frame \<Rightarrow> rat" where
  "frame_width f = fadd (fmul (fsub (fr_max_x f) (fr_min_x f)) SCALE) (fmul PAD 2)"

definition frame_height :: "svg_frame \<Rightarrow> rat" where
  "frame_height f = fadd (fadd (fmul (fsub (fr_max_y f) (fr_min_y f)) SCALE) (fmul PAD 2)) 36"

definition sx :: "svg_frame \<Rightarrow> rat \<Rightarrow> rat" where
  "sx f v = fadd PAD (fmul (fsub v (fr_min_x f)) SCALE)"

definition sy :: "svg_frame \<Rightarrow> rat \<Rightarrow> rat" where
  "sy f v = fadd (fadd PAD (fmul (fsub (fr_max_y f) v) SCALE)) 28"

definition text_at :: "string \<Rightarrow> string \<Rightarrow> string \<Rightarrow> string \<Rightarrow> string \<Rightarrow> string" where
  \<open>text_at x y anchor class body =
     ''<text x="'' @ x @ ''" y="'' @ y @ ''"'' @ (if anchor = [] then [] else '' text-anchor="'' @ anchor @ ''"'') @
     '' class="'' @ class @ ''">'' @ body @ ''</text>''\<close>

definition draw_line :: "svg_frame \<Rightarrow> laid_pin \<Rightarrow> string" where
  \<open>draw_line f p = (case pin_tip p of (bx, by') \<Rightarrow>
     ''<line x1="'' @ fixed 1 (sx f (lp_x p)) @ ''" y1="'' @ fixed 1 (sy f (lp_y p)) @ ''" x2="'' @ fixed 1 (sx f bx) @
     ''" y2="'' @ fixed 1 (sy f by') @ ''" class="pin"/>'')\<close>

definition draw_name :: "svg_frame \<Rightarrow> laid_pin \<Rightarrow> string" where
  "draw_name f p =
     (let x = sx f (lp_x p); y = sy f (lp_y p); name = escape_html (sp_name (lp_pin p)) in
      if lp_angle p = 180 then text_at (fixed 1 (fadd x 8)) (fixed 1 (fadd y 4)) [] ''name'' name
      else if lp_angle p = 0 then text_at (fixed 1 (fsub x 8)) (fixed 1 (fadd y 4)) ''end'' ''name'' name
      else if lp_angle p = 90 then text_at (fixed 1 x) (fixed 1 (fadd y 16)) ''middle'' ''name'' name
      else text_at (fixed 1 x) (fixed 1 (fsub y 8)) ''middle'' ''name'' name)"

definition draw_number :: "svg_frame \<Rightarrow> laid_pin \<Rightarrow> string" where
  "draw_number f p =
     (let x = sx f (fst (pin_tip p)); y = sy f (snd (pin_tip p)); number = escape_html (sp_number (lp_pin p)) in
      if lp_angle p = 180 then text_at (fixed 1 (fsub x 6)) (fixed 1 (fsub y 6)) ''end'' ''num'' number
      else if lp_angle p = 0 then text_at (fixed 1 (fadd x 6)) (fixed 1 (fsub y 6)) [] ''num'' number
      else if lp_angle p = 90 then text_at (fixed 1 x) (fixed 1 (fsub y 8)) ''middle'' ''num'' number
      else text_at (fixed 1 x) (fixed 1 (fadd y 14)) ''middle'' ''num'' number)"

definition SVG_BACKGROUND :: string where
  \<open>SVG_BACKGROUND = ''<rect width='100%' height='100%' fill='#f4f1ea'/>''\<close>

definition SVG_STYLE :: string where
  \<open>SVG_STYLE =
     ''<style>text{font-family:'' @ [CHR 0x27] @ ''IBM Plex Sans'' @ [CHR 0x27] @ '',ui-sans-serif,sans-serif;fill:#1c1914}'' @
     ''.pin{stroke:#1c1914;stroke-width:2.6;fill:none}.body{fill:#fffdf8;stroke:#1c1914;stroke-width:3.2}'' @
     ''.name{font-size:13px;font-weight:600}.num{font-size:11px;fill:#6b6458}.title{font-size:18px;font-weight:650}'' @
     ''.meta{font-size:12px;fill:#6b6458}</style>''\<close>

definition svg_head :: "string \<Rightarrow> string \<Rightarrow> string \<Rightarrow> string" where
  \<open>svg_head w h title =
     ''<svg xmlns="http://www.w3.org/2000/svg" width="'' @ w @ ''" height="'' @ h @ ''" viewBox="0 0 '' @ w @ '' '' @ h @
     ''" role="img" aria-label="'' @ title @ '' schematic symbol">''\<close>

definition svg_body :: "svg_frame \<Rightarrow> rat \<times> rat \<times> rat \<times> rat \<Rightarrow> string" where
  \<open>svg_body f body = (case body of (x0, y0, x1, y1) \<Rightarrow>
     ''<rect x="'' @ fixed 1 (sx f x0) @ ''" y="'' @ fixed 1 (sy f y1) @ ''" width="'' @ fixed 1 (fmul (fsub x1 x0) SCALE) @
     ''" height="'' @ fixed 1 (fmul (fsub y1 y0) SCALE) @ ''" rx="3" class="body"/>'')\<close>

definition render_svg :: "symbol_spec \<Rightarrow> laid_pin list \<Rightarrow> rat \<times> rat \<times> rat \<times> rat \<Rightarrow> string" where
  "render_svg spec pins body =
     (let f = frame_of body pins; middle = fixed 1 (fdiv (frame_width f) 2);
          title = escape_html (sy_mpn spec);
          meta = escape_html (sy_manufacturer spec @ '', '' @ sy_package spec @ '', '' @ nat_str (length pins) @ '' pins'')
      in join [newline_char]
        ([svg_head (fixed 0 (frame_width f)) (fixed 0 (frame_height f)) title, SVG_BACKGROUND, SVG_STYLE,
          text_at middle ''22'' ''middle'' ''title'' title, text_at middle ''40'' ''middle'' ''meta'' meta, svg_body f body] @
         concat (map (\<lambda>p. [draw_line f p, draw_name f p, draw_number f p]) pins) @ [''</svg>'']))"

definition compile_layout :: "symbol_spec \<Rightarrow> (laid_pin list \<times> string) option" where
  "compile_layout spec = map_option (\<lambda>(pins, body). (pins, render_svg spec pins body)) (layout_pins (sy_pins spec))"

subsection \<open>Every pin has its place\<close>

lemma length_spaced [simp]: "length (spaced n a b) = n"
  by (simp add: spaced_def)

lemma lay_column_pins [simp]: "map lp_pin (lay_column s angle x a b pins) = pins"
  by (simp add: lay_column_def comp_def case_prod_beta')

lemma lay_row_pins [simp]: "map lp_pin (lay_row s angle y a b pins) = pins"
  by (simp add: lay_row_def comp_def case_prod_beta')

lemma mset_lay [simp]:
  "image_mset lp_pin (mset (lay_column s angle x a b pins)) = mset pins" "image_mset lp_pin (mset (lay_row s angle x a b pins)) = mset pins"
  by (simp_all flip: mset_map)

lemma set_pin_bucket [simp]: "set (pin_bucket s pins) = {p \<in> set pins. pin_side p = s}"
  by (simp add: pin_bucket_def)

lemma mset_bucket [simp]: "mset (pin_bucket s pins) = filter_mset (\<lambda>p. pin_side p = s) (mset pins)"
  by (simp add: pin_bucket_def pin_order.rank_mset)

lemma in_lay_column:
  "l \<in> set (lay_column s angle x a b pins) \<Longrightarrow> lp_pin l \<in> set pins \<and> lp_side l = s \<and> lp_x l = x \<and> lp_angle l = angle"
  by (auto simp: lay_column_def dest: set_zip_leftD)

lemma in_lay_row:
  "l \<in> set (lay_row s angle y a b pins) \<Longrightarrow> lp_pin l \<in> set pins \<and> lp_side l = s \<and> lp_y l = y \<and> lp_angle l = angle"
  by (auto simp: lay_row_def dest: set_zip_leftD)

text \<open>On which edge of the body, and at which angle, a pin of a side is drawn.\<close>

definition on_edge :: "rat \<times> rat \<times> rat \<times> rat \<Rightarrow> laid_pin \<Rightarrow> bool" where
  "on_edge body l = (case body of (x0, y0, x1, y1) \<Rightarrow> (case lp_side l of
     LeftSide \<Rightarrow> lp_x l = x0 \<and> lp_angle l = 180
   | RightSide \<Rightarrow> lp_x l = x1 \<and> lp_angle l = 0
   | TopSide \<Rightarrow> lp_y l = y1 \<and> lp_angle l = 90
   | BottomSide \<Rightarrow> lp_y l = y0 \<and> lp_angle l = 270))"

lemma mset_sides:
  "filter_mset (\<lambda>p. pin_side p = LeftSide) M + (filter_mset (\<lambda>p. pin_side p = RightSide) M +
     (filter_mset (\<lambda>p. pin_side p = TopSide) M + filter_mset (\<lambda>p. pin_side p = BottomSide) M)) = M"
proof (induction M)
  case (add p M)
  then show ?case by (cases "pin_side p") simp_all
qed simp

text \<open>A symbol shows the specified pins and no others: the layout places each pin of the specification exactly once, on the
  side that its type and name call for, on that edge of the body and at that side's angle.\<close>

theorem layout_places_every_pin:
  assumes "layout_pins pins = Some (laid, body)"
  shows "mset (map lp_pin laid) = mset pins \<and> list_all (\<lambda>l. lp_side l = pin_side (lp_pin l) \<and> on_edge body l) laid"
proof
  show "mset (map lp_pin laid) = mset pins"
    using assms mset_sides [of "mset pins"] by (auto simp: layout_pins_def split: if_splits prod.splits)
  show "list_all (\<lambda>l. lp_side l = pin_side (lp_pin l) \<and> on_edge body l) laid"
    using assms by (auto simp: layout_pins_def list_all_iff on_edge_def split: if_splits prod.splits
      dest!: in_lay_column in_lay_row)
qed

theorem layout_places_every_pin_witness:
  "\<exists>pins laid body. layout_pins pins = Some (laid, body) \<and> pins = map make_pin (table_rows pin_text) \<and> mset (map lp_pin laid) = mset pins"
proof -
  let ?pins = "map make_pin (table_rows pin_text)"
  have "?pins \<noteq> []" unfolding pin_text_rows by simp
  then obtain laid body where l: "layout_pins ?pins = Some (laid, body)"
    by (cases "body_box ?pins") (simp add: layout_pins_def)
  from layout_places_every_pin [OF l] l show ?thesis by blast
qed

subsection \<open>Pins are drawn apart\<close>

text \<open>Values below \<open>2^35\<close> are rounded by at most \<open>2^-18\<close>.\<close>

lemma rnd_near: "\<bar>r\<bar> \<le> 2 ^ 35 \<Longrightarrow> \<bar>rnd r - r\<bar> \<le> 1 / 2 ^ 18"
  using rnd_error [of r 35] by (simp add: pow2_def)

lemma rnd_near': "\<bar>x - y\<bar> \<le> d \<Longrightarrow> \<bar>y\<bar> \<le> B \<Longrightarrow> B + d \<le> 34000000000 \<Longrightarrow> \<bar>rnd x - y\<bar> \<le> d + 1 / 262144"
proof -
  assume a: "\<bar>x - y\<bar> \<le> d" "\<bar>y\<bar> \<le> B" "B + d \<le> 34000000000"
  then have "\<bar>x\<bar> \<le> 2 ^ 35" by simp
  from rnd_near [OF this] have "\<bar>rnd x - x\<bar> \<le> 1 / 262144" by simp
  with a(1) show ?thesis by linarith
qed

lemma abs_add_le: "\<bar>x\<bar> \<le> A \<Longrightarrow> \<bar>y\<bar> \<le> B \<Longrightarrow> \<bar>x + y\<bar> \<le> A + (B :: rat)"
  by linarith

lemma scaled_le: "0 \<le> c \<Longrightarrow> c \<le> 1 \<Longrightarrow> \<bar>x\<bar> \<le> B \<Longrightarrow> \<bar>x * c\<bar> \<le> (B :: rat)"
  by (metis abs_ge_zero abs_mult abs_of_nonneg mult_left_le order_trans)

lemma spaced_near:
  assumes "2 \<le> n" and "n \<le> 65536" and "\<bar>a\<bar> \<le> 131072" and "\<bar>b\<bar> \<le> 131072" and "i < n"
  shows "\<bar>spaced n a b ! i - (a + fsub b a * (of_nat i / of_nat (n - 1)))\<bar> \<le> 3 / 262144"
proof -
  let ?s = "fsub b a" and ?m = "of_nat (n - 1) :: rat"
  have s: "\<bar>?s\<bar> \<le> 262145"
  proof -
    have w: "\<bar>b - a\<bar> \<le> 262144" using assms(3,4) by linarith
    have "\<bar>rnd (b - a) - (b - a)\<bar> \<le> 0 + 1 / 262144" by (rule rnd_near' [OF _ w]) simp_all
    with w show ?thesis unfolding fsub_def by linarith
  qed
  have m: "1 \<le> ?m" using assms(1) by (simp flip: of_nat_le_iff)
  have "i \<le> n - 1" using assms(5) by simp
  then have i: "(of_nat i :: rat) \<le> ?m" by (simp only: of_nat_le_iff)
  have "n - 1 \<le> 65535" using assms(2) by simp
  then have m': "?m \<le> of_nat 65535" by (simp only: of_nat_le_iff)
  let ?p = "fmul ?s (of_nat i)"
  have c: "0 \<le> of_nat i / ?m" "of_nat i / ?m \<le> 1" using i m by simp_all
  have "\<bar>?s * of_nat i\<bar> \<le> 262145 * 65535"
    unfolding abs_mult using s i m' by (intro mult_mono) simp_all
  then have p: "\<bar>?p - ?s * of_nat i\<bar> \<le> 1 / 262144" using rnd_near [of "?s * of_nat i"] by (simp add: fmul_def)
  have "\<bar>?p / ?m - ?s * (of_nat i / ?m)\<bar> = \<bar>?p - ?s * of_nat i\<bar> * (1 / ?m)"
    using m by (simp add: abs_divide flip: diff_divide_distrib)
  also have "\<dots> \<le> 1 / 262144 * 1" using p m by (intro mult_mono) simp_all
  finally have q: "\<bar>?p / ?m - ?s * (of_nat i / ?m)\<bar> \<le> 1 / 262144" by simp
  have sc: "\<bar>?s * (of_nat i / ?m)\<bar> \<le> 262145" using scaled_le [OF c s] by simp
  let ?q = "fdiv ?p ?m"
  have d: "\<bar>?q - ?s * (of_nat i / ?m)\<bar> \<le> 2 / 262144"
    using rnd_near' [OF q sc] unfolding fdiv_def [of ?p] by simp
  have "\<bar>(a + ?q) - (a + ?s * (of_nat i / ?m))\<bar> \<le> 2 / 262144" using d by simp
  moreover have "\<bar>a + ?s * (of_nat i / ?m)\<bar> \<le> 131072 + 262145" by (rule abs_add_le [OF assms(3) sc])
  ultimately have "\<bar>rnd (a + ?q) - (a + ?s * (of_nat i / ?m))\<bar> \<le> 2 / 262144 + 1 / 262144" by (rule rnd_near') simp
  then have "\<bar>fadd a ?q - (a + ?s * (of_nat i / ?m))\<bar> \<le> 3 / 262144" by (simp add: fadd_def)
  then show ?thesis using assms(1,5) by (simp add: spaced_def)
qed

lemma three_quarters: "m - 1 / 512 \<le> s \<Longrightarrow> 1 \<le> m \<Longrightarrow> m * (3 / 4) \<le> (s :: rat)"
  by linarith

lemma three_quarters_back: "1 \<le> m \<Longrightarrow> m * (3 / 4) * (1 / m) = (3 / 4 :: rat)"
  by simp

lemma abs_gap: "\<bar>x - (a + u)\<bar> \<le> 3 / 262144 \<Longrightarrow> \<bar>y - (a + v)\<bar> \<le> 3 / 262144 \<Longrightarrow> 3 / 4 \<le> \<bar>v - u\<bar> \<Longrightarrow> 1 / 2 \<le> \<bar>x - (y::rat)\<bar>"
  by linarith

text \<open>Positions on a side whose ends are at least \<open>n - 1\<close> apart, up to rounding.\<close>

lemma spaced_apart:
  assumes "n \<le> 65536" and "\<bar>a\<bar> \<le> 131072" and "\<bar>b\<bar> \<le> 131072" and "of_nat (n - 1) - 1 / 1024 \<le> \<bar>b - a\<bar>" and "i < j" and "j < n"
  shows "1 / 2 \<le> \<bar>spaced n a b ! i - spaced n a b ! j\<bar>"
proof -
  let ?s = "fsub b a" and ?m = "of_nat (n - 1) :: rat"
  let ?u = "?s * (of_nat i / ?m)" and ?v = "?s * (of_nat j / ?m)"
  have n: "2 \<le> n" using assms(5,6) by simp
  have m: "1 \<le> ?m" using n by (simp flip: of_nat_le_iff)
  have "\<bar>rnd (b - a) - (b - a)\<bar> \<le> 0 + 1 / 262144" by (rule rnd_near' [of _ _ _ 262144]) (use assms(2,3) in linarith)+
  then have "?m - 1 / 512 \<le> \<bar>?s\<bar>" using assms(4) unfolding fsub_def by linarith
  then have s: "?m * (3 / 4) \<le> \<bar>?s\<bar>" using m by (rule three_quarters)
  have "?v - ?u = ?s * ((of_nat j - of_nat i) / ?m)" by (simp add: diff_divide_distrib right_diff_distrib)
  then have "\<bar>?v - ?u\<bar> = \<bar>?s\<bar> * ((of_nat j - of_nat i) / ?m)" using assms(5) m by (simp add: abs_mult)
  moreover have "?m * (3 / 4) * (1 / ?m) \<le> \<bar>?s\<bar> * ((of_nat j - of_nat i) / ?m)"
  proof (rule mult_mono [OF s])
    have "of_nat (Suc i) \<le> (of_nat j :: rat)" using assms(5) by (simp only: of_nat_le_iff)
    then show "1 / ?m \<le> (of_nat j - of_nat i) / ?m" using m by (intro divide_right_mono) simp_all
  qed (use m in simp_all)
  moreover have "?m * (3 / 4) * (1 / ?m) = 3 / 4" using m by (rule three_quarters_back)
  ultimately have gap: "3 / 4 \<le> \<bar>?v - ?u\<bar>" by (simp only:)
  have "\<bar>spaced n a b ! i - (a + ?u)\<bar> \<le> 3 / 262144" by (rule spaced_near) (use n assms in simp_all)
  moreover have "\<bar>spaced n a b ! j - (a + ?v)\<bar> \<le> 3 / 262144" by (rule spaced_near) (use n assms in simp_all)
  ultimately show ?thesis using gap by (rule abs_gap)
qed

text \<open>The ends of the sides.\<close>

lemma margin_near: "\<bar>BODY_MARGIN - 4 / 5\<bar> \<le> 1 / 262144"
  using rnd_near [of "8 / 10"] by (simp add: BODY_MARGIN_def dec_def)

lemma size_near:
  assumes "v \<le> 65536"
  shows "\<bar>fadd (fmul (of_nat v) PITCH) (fmul BODY_MARGIN 2) - (of_nat v + 8 / 5)\<bar> \<le> 5 / 262144"
proof -
  have v: "\<bar>of_nat v\<bar> \<le> (65536 :: rat)" using assms by (simp flip: of_nat_le_iff)
  have "\<bar>of_nat v * PITCH - of_nat v\<bar> \<le> 0" by (simp add: PITCH_def)
  then have 1: "\<bar>rnd (of_nat v * PITCH) - of_nat v\<bar> \<le> 0 + 1 / 262144" by (rule rnd_near' [OF _ v]) simp
  have "\<bar>BODY_MARGIN * 2 - 8 / 5\<bar> \<le> 2 / 262144" using margin_near by linarith
  then have 2: "\<bar>rnd (BODY_MARGIN * 2) - 8 / 5\<bar> \<le> 2 / 262144 + 1 / 262144" by (rule rnd_near' [of _ _ _ 2]) simp_all
  have "\<bar>(rnd (of_nat v * PITCH) + rnd (BODY_MARGIN * 2)) - (of_nat v + 8 / 5)\<bar> \<le> 4 / 262144" using 1 2 by linarith
  then have "\<bar>rnd (rnd (of_nat v * PITCH) + rnd (BODY_MARGIN * 2)) - (of_nat v + 8 / 5)\<bar> \<le> 4 / 262144 + 1 / 262144"
    by (rule rnd_near' [of _ _ _ 65540]) (use v in linarith)+
  then show ?thesis by (simp add: fadd_def fmul_def)
qed

text \<open>A side runs between the halves of a size, each less the margin.\<close>

lemma side_ends:
  assumes "0 \<le> w" and "w \<le> 131000"
  shows "\<bar>fsub (fdiv w 2) BODY_MARGIN - (w / 2 - 4 / 5)\<bar> \<le> 3 / 262144" and
    "\<bar>fadd (fdiv (- w) 2) BODY_MARGIN - (4 / 5 - w / 2)\<bar> \<le> 3 / 262144"
proof -
  have "\<bar>rnd (w / 2) - w / 2\<bar> \<le> 0 + 1 / 262144" by (rule rnd_near' [of _ _ _ 131000]) (use assms in linarith)+
  then have "\<bar>(rnd (w / 2) - BODY_MARGIN) - (w / 2 - 4 / 5)\<bar> \<le> 2 / 262144" using margin_near by linarith
  then have "\<bar>rnd (rnd (w / 2) - BODY_MARGIN) - (w / 2 - 4 / 5)\<bar> \<le> 2 / 262144 + 1 / 262144"
    by (rule rnd_near' [of _ _ _ 131000]) (use assms in linarith)+
  then show "\<bar>fsub (fdiv w 2) BODY_MARGIN - (w / 2 - 4 / 5)\<bar> \<le> 3 / 262144" by (simp add: fsub_def fdiv_def)
  have "\<bar>rnd (- w / 2) - - w / 2\<bar> \<le> 0 + 1 / 262144" by (rule rnd_near' [of _ _ _ 131000]) (use assms in linarith)+
  then have "\<bar>(rnd (- w / 2) + BODY_MARGIN) - (4 / 5 - w / 2)\<bar> \<le> 2 / 262144" using margin_near by linarith
  then have "\<bar>rnd (rnd (- w / 2) + BODY_MARGIN) - (4 / 5 - w / 2)\<bar> \<le> 2 / 262144 + 1 / 262144"
    by (rule rnd_near' [of _ _ _ 131000]) (use assms in linarith)+
  then show "\<bar>fadd (fdiv (- w) 2) BODY_MARGIN - (4 / 5 - w / 2)\<bar> \<le> 3 / 262144" by (simp add: fadd_def fdiv_def)
qed

text \<open>The sides are long enough for their pins.\<close>

lemma size_fits:
  assumes "of_nat v + 8 / 5 - 5 / 262144 \<le> w" and "w \<le> 131000" and "n \<le> v + 1" and "n \<le> 65536" and "i < j" and "j < n"
  shows "1 / 2 \<le> \<bar>spaced n (fsub (fdiv w 2) BODY_MARGIN) (fadd (fdiv (- w) 2) BODY_MARGIN) ! i -
      spaced n (fsub (fdiv w 2) BODY_MARGIN) (fadd (fdiv (- w) 2) BODY_MARGIN) ! j\<bar>" (is "_ \<le> \<bar>spaced n ?a ?b ! i - _\<bar>")
    and "1 / 2 \<le> \<bar>spaced n (fadd (fdiv (- w) 2) BODY_MARGIN) (fsub (fdiv w 2) BODY_MARGIN) ! i -
      spaced n (fadd (fdiv (- w) 2) BODY_MARGIN) (fsub (fdiv w 2) BODY_MARGIN) ! j\<bar>"
proof -
  have v: "(0::rat) \<le> of_nat v" by simp
  have w: "0 \<le> w" using assms(1) v by linarith
  note ends = side_ends [OF w assms(2)]
  have "n - 1 \<le> v" using assms(3) by simp
  then have nv: "(of_nat (n - 1) :: rat) \<le> of_nat v" by (simp only: of_nat_le_iff)
  have gap: "of_nat (n - 1) - 1 / 1024 \<le> \<bar>?b - ?a\<bar>"
  proof -
    have "w - 8 / 5 - 6 / 262144 \<le> ?a - ?b" using ends by linarith
    then have "of_nat v - 11 / 262144 \<le> ?a - ?b" using assms(1) by linarith
    then have "of_nat v - 1 / 1024 \<le> \<bar>?b - ?a\<bar>" by linarith
    with nv show ?thesis by (rule order_trans [OF diff_right_mono])
  qed
  have a: "\<bar>?a\<bar> \<le> 131072" "\<bar>?b\<bar> \<le> 131072" using ends w assms(2) by linarith+
  show "1 / 2 \<le> \<bar>spaced n ?a ?b ! i - spaced n ?a ?b ! j\<bar>" by (rule spaced_apart [OF assms(4) a gap assms(5,6)])
  have "of_nat (n - 1) - 1 / 1024 \<le> \<bar>?a - ?b\<bar>" using gap by (simp add: abs_minus_commute)
  from spaced_apart [OF assms(4) a(2,1) this assms(5,6)]
  show "1 / 2 \<le> \<bar>spaced n ?b ?a ! i - spaced n ?b ?a ! j\<bar>" .
qed

lemma columns_nth:
  "i < length pins \<Longrightarrow> lp_y (lay_column s angle x a b pins ! i) = spaced (length pins) a b ! i"
  "i < length pins \<Longrightarrow> lp_x (lay_row s angle y a b pins ! i) = spaced (length pins) a b ! i"
  by (simp_all add: lay_column_def lay_row_def)

lemma length_lay [simp]:
  "length (lay_column s angle x a b pins) = length pins" "length (lay_row s angle y a b pins) = length pins"
  by (simp_all add: lay_column_def lay_row_def)

lemma filter_lay:
  "filter (\<lambda>l. lp_side l = s) (lay_column s' angle x a b pins) = (if s' = s then lay_column s' angle x a b pins else [])"
  "filter (\<lambda>l. lp_side l = s) (lay_row s' angle x a b pins) = (if s' = s then lay_row s' angle x a b pins else [])"
  using in_lay_column [of _ s' angle x a b pins] in_lay_row [of _ s' angle x a b pins]
  by (auto simp: filter_id_conv filter_empty_conv)

lemma length_bucket: "length (pin_bucket s pins) \<le> length pins"
  by (simp add: pin_bucket_def)

lemma body_height_bounds:
  assumes "length pins \<le> 65536" and "s \<in> {LeftSide, RightSide}"
  shows "\<exists>v. of_nat v + 8 / 5 - 5 / 262144 \<le> body_height pins \<and> body_height pins \<le> 131000 \<and> length (pin_bucket s pins) \<le> v + 1"
proof -
  let ?n = "max (max (length (pin_bucket LeftSide pins)) (length (pin_bucket RightSide pins))) 2"
  let ?v = "max (?n - 1) 1"
  have v: "?v \<le> 65536" using assms(1) length_bucket [of LeftSide pins] length_bucket [of RightSide pins] by simp
  then have v': "(of_nat ?v :: rat) \<le> of_nat 65536" by (simp only: of_nat_le_iff)
  have "body_height pins = fadd (fmul (of_nat ?v) PITCH) (fmul BODY_MARGIN 2)" by (simp only: body_height_def Let_def)
  then have "\<bar>body_height pins - (of_nat ?v + 8 / 5)\<bar> \<le> 5 / 262144" using size_near [OF v] by (simp only:)
  with v' have "of_nat ?v + 8 / 5 - 5 / 262144 \<le> body_height pins \<and> body_height pins \<le> 131000" by (auto simp only: of_nat_numeral abs_le_iff)
  moreover have "length (pin_bucket s pins) \<le> ?v + 1" using assms(2) by auto
  ultimately show ?thesis by blast
qed

lemma rnd_small: "\<bar>rnd r - r\<bar> \<le> 1 / 2 ^ 18 \<Longrightarrow> 0 \<le> r \<Longrightarrow> r \<le> 65536 * 1 \<Longrightarrow> - 1 \<le> rnd r \<and> rnd r \<le> 65537"
proof -
  assume "\<bar>rnd r - r\<bar> \<le> 1 / 2 ^ 18" and r: "0 \<le> r" "r \<le> 65536 * 1"
  then have "\<bar>rnd r - r\<bar> \<le> 1 / 262144" by simp
  with r show ?thesis by linarith
qed

lemma label_width:
  assumes "k \<le> 65536"
  shows "fadd (dec 24 10) (fmul (of_nat k) (dec 22 100)) \<le> 131000"
proof -
  have "\<bar>dec 24 10 - 24 / 10\<bar> \<le> 1 / 262144" using rnd_near [of "24 / 10"] by (simp add: dec_def)
  then have a: "0 \<le> dec 24 10" "dec 24 10 \<le> 3" by linarith+
  have "\<bar>dec 22 100 - 22 / 100\<bar> \<le> 1 / 262144" using rnd_near [of "22 / 100"] by (simp add: dec_def)
  then have b: "0 \<le> dec 22 100" "dec 22 100 \<le> 1" by linarith+
  have k: "(of_nat k :: rat) \<le> 65536" using assms by (simp flip: of_nat_le_iff)
  have "of_nat k * dec 22 100 \<le> 65536 * 1" using k b by (intro mult_mono) simp_all
  moreover have "0 \<le> of_nat k * dec 22 100" using b by simp
  ultimately have "\<bar>of_nat k * dec 22 100\<bar> \<le> 2 ^ 35" by (simp only: abs_of_nonneg) simp
  from rnd_small [OF rnd_near [OF this]] have "- 1 \<le> fmul (of_nat k) (dec 22 100)" "fmul (of_nat k) (dec 22 100) \<le> 65537"
    using \<open>0 \<le> of_nat k * dec 22 100\<close> \<open>of_nat k * dec 22 100 \<le> 65536 * 1\<close> unfolding fmul_def by blast+
  then have "\<bar>dec 24 10 + fmul (of_nat k) (dec 22 100)\<bar> \<le> 65540" using a by linarith
  then have "\<bar>rnd (dec 24 10 + fmul (of_nat k) (dec 22 100)) - 0\<bar> \<le> 65540 + 1 / 262144" by (intro rnd_near' [of _ _ _ 0]) simp_all
  then show ?thesis unfolding fadd_def by linarith
qed

lemma body_width_bounds:
  assumes "length pins \<le> 65536" and "pins \<noteq> []" and "list_all (\<lambda>p. length (sp_name p) \<le> 65536) pins" and "s \<in> {TopSide, BottomSide}"
  shows "\<exists>v. of_nat v + 8 / 5 - 5 / 262144 \<le> body_width pins \<and> body_width pins \<le> 131000 \<and> length (pin_bucket s pins) \<le> v + 1"
proof -
  let ?n = "max (max (length (pin_bucket TopSide pins)) (length (pin_bucket BottomSide pins))) 1"
  let ?v = "max (?n - 1) 1" and ?k = "Max (set (map (\<lambda>p. length (sp_name p)) pins))"
  let ?size = "fadd (fmul (of_nat ?v) PITCH) (fmul BODY_MARGIN 2)" and ?label = "fadd (dec 24 10) (fmul (of_nat ?k) (dec 22 100))"
  have v: "?v \<le> 65536" using assms(1) length_bucket [of TopSide pins] length_bucket [of BottomSide pins] by simp
  then have v': "(of_nat ?v :: rat) \<le> of_nat 65536" by (simp only: of_nat_le_iff)
  have "?k \<le> 65536" using assms(2,3) by (simp add: list_all_iff)
  then have label: "?label \<le> 131000" by (rule label_width)
  have w: "body_width pins = max ?size ?label" by (simp only: body_width_def Let_def)
  have "\<bar>?size - (of_nat ?v + 8 / 5)\<bar> \<le> 5 / 262144" by (rule size_near [OF v])
  with v' have size: "of_nat ?v + 8 / 5 - 5 / 262144 \<le> ?size \<and> ?size \<le> 131000" by (auto simp only: of_nat_numeral abs_le_iff)
  have "of_nat ?v + 8 / 5 - 5 / 262144 \<le> body_width pins \<and> body_width pins \<le> 131000"
    unfolding w using size label by (simp only: le_max_iff_disj max.bounded_iff) simp
  moreover have "length (pin_bucket s pins) \<le> ?v + 1" using assms(4) by auto
  ultimately show ?thesis by blast
qed

text \<open>
  C27. Labels never collide: on every side of the drawing any two pins are at least half a pitch apart, although all
  positions are computed in floating point (for up to 65536 pins, with names of at most that length).
\<close>

theorem pins_drawn_apart:
  assumes "layout_pins pins = Some (laid, body)" and "length pins \<le> 65536"
    and "list_all (\<lambda>p. length (sp_name p) \<le> 65536) pins"
    and "i < j" and "j < length (filter (\<lambda>l. lp_side l = s) laid)"
  shows "1 / 2 \<le> \<bar>lp_x (filter (\<lambda>l. lp_side l = s) laid ! i) - lp_x (filter (\<lambda>l. lp_side l = s) laid ! j)\<bar> +
    \<bar>lp_y (filter (\<lambda>l. lp_side l = s) laid ! i) - lp_y (filter (\<lambda>l. lp_side l = s) laid ! j)\<bar>"
proof -
  let ?w = "body_width pins" and ?h = "body_height pins"
  let ?x0 = "fdiv (- ?w) 2" and ?y0 = "fdiv (- ?h) 2" and ?x1 = "fdiv ?w 2" and ?y1 = "fdiv ?h 2"
  have ne: "pins \<noteq> []" using assms(1) by (auto simp: layout_pins_def)
  have n: "length (pin_bucket s pins) \<le> 65536" using length_bucket [of s pins] assms(2) by simp
  have laid: "laid = lay_column LeftSide 180 ?x0 (fsub ?y1 BODY_MARGIN) (fadd ?y0 BODY_MARGIN) (pin_bucket LeftSide pins) @
      lay_column RightSide 0 ?x1 (fsub ?y1 BODY_MARGIN) (fadd ?y0 BODY_MARGIN) (pin_bucket RightSide pins) @
      lay_row TopSide 90 ?y1 (fadd ?x0 BODY_MARGIN) (fsub ?x1 BODY_MARGIN) (pin_bucket TopSide pins) @
      lay_row BottomSide 270 ?y0 (fadd ?x0 BODY_MARGIN) (fsub ?x1 BODY_MARGIN) (pin_bucket BottomSide pins)"
    using assms(1) ne by (simp add: layout_pins_def body_box_def Let_def)
  have vertical: ?thesis if s: "s \<in> {LeftSide, RightSide}"
  proof -
    obtain angle x where on: "filter (\<lambda>l. lp_side l = s) laid =
        lay_column s angle x (fsub ?y1 BODY_MARGIN) (fadd ?y0 BODY_MARGIN) (pin_bucket s pins)"
      using s unfolding laid by (auto simp: filter_lay)
    have ij: "j < length (pin_bucket s pins)" "i < length (pin_bucket s pins)" using assms(4,5) unfolding on by simp_all
    obtain v where v: "of_nat v + 8 / 5 - 5 / 262144 \<le> ?h" "?h \<le> 131000" "length (pin_bucket s pins) \<le> v + 1"
      using body_height_bounds [OF assms(2) s] by blast
    show ?thesis unfolding on columns_nth [OF ij(1)] columns_nth [OF ij(2)]
      by (rule order_trans [OF size_fits(1) [OF v n assms(4) ij(1)]]) simp
  qed
  have horizontal: ?thesis if s: "s \<in> {TopSide, BottomSide}"
  proof -
    obtain angle y where on: "filter (\<lambda>l. lp_side l = s) laid =
        lay_row s angle y (fadd ?x0 BODY_MARGIN) (fsub ?x1 BODY_MARGIN) (pin_bucket s pins)"
      using s unfolding laid by (auto simp: filter_lay)
    have ij: "j < length (pin_bucket s pins)" "i < length (pin_bucket s pins)" using assms(4,5) unfolding on by simp_all
    obtain v where v: "of_nat v + 8 / 5 - 5 / 262144 \<le> ?w" "?w \<le> 131000" "length (pin_bucket s pins) \<le> v + 1"
      using body_width_bounds [OF assms(2) ne assms(3) s] by blast
    show ?thesis unfolding on columns_nth [OF ij(1)] columns_nth [OF ij(2)]
      by (rule order_trans [OF size_fits(2) [OF v n assms(4) ij(1)]]) simp
  qed
  show ?thesis by (cases s) (rule vertical horizontal; simp)+
qed

lemma laid_side: "layout_pins pins = Some (laid, body) \<Longrightarrow> map lp_pin (filter (\<lambda>l. lp_side l = s) laid) = pin_bucket s pins"
  by (cases s) (auto simp: layout_pins_def filter_lay split: if_splits prod.splits)

lemma demo_left: "length (pin_bucket LeftSide (map make_pin (table_rows pin_text))) = 2"
proof -
  have "pin_side (make_pin (''1'', ''IN1'', ''input'')) = LeftSide" "pin_side (make_pin (''2'', ''OUT'', ''output'')) = RightSide"
    "pin_side (make_pin (''3'', ''NC'', ''nc'')) = LeftSide" "pin_side (make_pin (''5'', ''GND'', ''ground'')) = BottomSide"
    by code_simp+
  then show ?thesis unfolding pin_text_rows by (simp add: pin_bucket_def)
qed

theorem pins_drawn_apart_witness:
  "\<exists>laid body. layout_pins (map make_pin (table_rows pin_text)) = Some (laid, body) \<and>
     1 / 2 \<le> \<bar>lp_x (filter (\<lambda>l. lp_side l = LeftSide) laid ! 0) - lp_x (filter (\<lambda>l. lp_side l = LeftSide) laid ! 1)\<bar> +
       \<bar>lp_y (filter (\<lambda>l. lp_side l = LeftSide) laid ! 0) - lp_y (filter (\<lambda>l. lp_side l = LeftSide) laid ! 1)\<bar>"
proof -
  let ?pins = "map make_pin (table_rows pin_text)"
  have "?pins \<noteq> []" unfolding pin_text_rows by simp
  then obtain laid body where l: "layout_pins ?pins = Some (laid, body)"
    by (cases "body_box ?pins") (simp add: layout_pins_def)
  have n: "length (filter (\<lambda>l. lp_side l = LeftSide) laid) = 2"
    using arg_cong [OF laid_side [OF l, of LeftSide], where f = length] demo_left by simp
  have names: "list_all (\<lambda>p. length (sp_name p) \<le> 65536) ?pins"
    unfolding pin_text_rows by (simp add: make_pin_def Let_def upper_def)
  have "1 / 2 \<le> \<bar>lp_x (filter (\<lambda>l. lp_side l = LeftSide) laid ! 0) - lp_x (filter (\<lambda>l. lp_side l = LeftSide) laid ! 1)\<bar> +
       \<bar>lp_y (filter (\<lambda>l. lp_side l = LeftSide) laid ! 0) - lp_y (filter (\<lambda>l. lp_side l = LeftSide) laid ! 1)\<bar>"
    by (rule pins_drawn_apart [OF l _ names]) (simp_all add: pin_text_rows n)
  with l show ?thesis by blast
qed

subsection \<open>The markup\<close>

lemma count_join: "c \<noteq> d \<Longrightarrow> count_list (join [d] ws) c = sum_list (map (\<lambda>w. count_list w c) ws)"
proof (induction ws)
  case (Cons w ws)
  then show ?case by (cases ws) simp_all
qed simp

lemma escape_html_set: "set (escape_html_char c) \<subseteq> set ''&ampltgquox27#;'' \<or> escape_html_char c = [c] \<and> c \<notin> {CHR ''<'', CHR ''>'', CHR 0x22, CHR 0x27}"
  unfolding escape_html_char_def by simp

lemma outside_word: "set w \<subseteq> E \<or> w = [d] \<and> d \<notin> M \<Longrightarrow> c \<in> M \<Longrightarrow> c \<notin> E \<Longrightarrow> c \<notin> set w"
  by auto

lemma escape_html_plain: "c \<in> {CHR ''<'', CHR ''>'', CHR 0x22, CHR 0x27} \<Longrightarrow> count_list (escape_html s) c = 0"
proof -
  assume c: "c \<in> {CHR ''<'', CHR ''>'', CHR 0x22, CHR 0x27}"
  then have "c \<notin> set ''&ampltgquox27#;''" by auto
  then have "c \<notin> set (escape_html_char d)" for d by (rule outside_word [OF escape_html_set c])
  then show ?thesis by (simp add: count_list_0_iff escape_html_def)
qed

lemma fixed_plain: "c \<in> {CHR ''<'', CHR ''>''} \<Longrightarrow> count_list (fixed k x) c = 0"
proof -
  assume c: "c \<in> {CHR ''<'', CHR ''>''}"
  then have d: "c \<notin> set (nat_str n)" for n using nat_str_digits [of c n] by (auto simp: ascii_digit_def code_point_def)
  with c show ?thesis by (auto simp: count_list_0_iff fixed_def Let_def)
qed

named_theorems markup

lemma count_constants [markup]:
  "count_list SVG_BACKGROUND CHR ''<'' = 1" "count_list SVG_BACKGROUND CHR ''>'' = 1"
  "count_list SVG_STYLE CHR ''<'' = 2" "count_list SVG_STYLE CHR ''>'' = 2"
  by code_simp+

lemma plain_lt [simp]: "count_list (fixed k x) CHR ''<'' = 0" "count_list (escape_html s) CHR ''<'' = 0"
  by (simp_all add: fixed_plain escape_html_plain)

lemma plain_gt [simp]: "count_list (fixed k x) CHR ''>'' = 0" "count_list (escape_html s) CHR ''>'' = 0"
  by (simp_all add: fixed_plain escape_html_plain)

lemma count_text [markup]:
  "count_list (text_at x y a k t) CHR ''<'' = 2 + count_list x CHR ''<'' + count_list y CHR ''<'' + count_list a CHR ''<'' +
     count_list k CHR ''<'' + count_list t CHR ''<''"
  "count_list (text_at x y a k t) CHR ''>'' = 2 + count_list x CHR ''>'' + count_list y CHR ''>'' + count_list a CHR ''>'' +
     count_list k CHR ''>'' + count_list t CHR ''>''"
  by (simp_all add: text_at_def)

lemma count_head [markup]:
  "count_list (svg_head x y t) CHR ''<'' = 1 + 2 * count_list x CHR ''<'' + 2 * count_list y CHR ''<'' + count_list t CHR ''<''"
  "count_list (svg_head x y t) CHR ''>'' = 1 + 2 * count_list x CHR ''>'' + 2 * count_list y CHR ''>'' + count_list t CHR ''>''"
  by (simp_all add: svg_head_def)

lemma count_shapes [markup]:
  "count_list (svg_body f body) CHR ''<'' = 1" "count_list (svg_body f body) CHR ''>'' = 1"
  "count_list (draw_line f p) CHR ''<'' = 1" "count_list (draw_line f p) CHR ''>'' = 1"
  by (simp_all add: svg_body_def draw_line_def split: prod.split)

lemma count_labels [markup]:
  "count_list (draw_name f p) CHR ''<'' = 2" "count_list (draw_name f p) CHR ''>'' = 2"
  "count_list (draw_number f p) CHR ''<'' = 2" "count_list (draw_number f p) CHR ''>'' = 2"
  by (simp_all add: draw_name_def draw_number_def Let_def markup)

text \<open>
  The text of a document adds no markup to the picture: whatever the part, the manufacturer, the names and the
  numbers contain, the SVG has its ten fixed and five per-pin tags and not one angle bracket more.
\<close>

theorem svg_markup_fixed:
  "count_list (render_svg spec pins body) CHR ''<'' = 10 + 5 * length pins \<and>
   count_list (render_svg spec pins body) CHR ''>'' = 10 + 5 * length pins"
proof -
  have per_pin: "sum_list (map (\<lambda>w. count_list w c) (concat (map (\<lambda>p. [draw_line f p, draw_name f p, draw_number f p]) pins))) =
      5 * length pins" if "c = CHR ''<'' \<or> c = CHR ''>''" for f c
    using that by (elim disjE; hypsubst; induction pins) (simp_all add: markup)
  have nl: "CHR ''<'' \<noteq> newline_char" "CHR ''>'' \<noteq> newline_char" by code_simp+
  have "count_list (render_svg spec pins body) CHR ''<'' = 10 + 5 * length pins"
    unfolding render_svg_def Let_def count_join [OF nl(1)] map_append sum_list_append per_pin [of "CHR ''<''", simplified]
    by (simp add: markup)
  moreover have "count_list (render_svg spec pins body) CHR ''>'' = 10 + 5 * length pins"
    unfolding render_svg_def Let_def count_join [OF nl(2)] map_append sum_list_append per_pin [of "CHR ''>''", simplified]
    by (simp add: markup)
  ultimately show ?thesis ..
qed

end
