(* ===== verification/SymbolCompile.thy ===== *)
theory SymbolCompile
  imports SymbolLayout EvidenceRun
begin

section \<open>From a document to a symbol\<close>

text \<open>
  \<open>src/dsvire/symbol_compile.py\<close>: the identity, the evidence pack, the verified candidate of the pin table, the pins, the
  drawing and the citations of one request, and the two files of the result. The evidence is the bundle of
  \<open>retrieve_symbol_evidence\<close>, whose regions are always an array.
\<close>

definition RESULT_SCHEMA_VERSION :: string where "RESULT_SCHEMA_VERSION = ''dsvire.symbol-result.v1''"
definition LAYOUT_POLICY_VERSION :: string where "LAYOUT_POLICY_VERSION = ''dsvire.box-layout@1.0.0''"

record symbol_result =
  sr_identity :: part_identity
  sr_spec :: symbol_spec
  sr_pins :: "laid_pin list"
  sr_citations :: "json list"
  sr_svg :: string
  sr_evidence :: json

definition citation_keys :: "string list" where
  "citation_keys = [''region_id'', ''type'', ''page'', ''bbox_norm'', ''content_hash'', ''crop_uri'']"

definition citation :: "json \<Rightarrow> retrieval_error + json" where
  "citation region = bindE (mapE (\<lambda>k. bindE (required_key region k) (\<lambda>v. Inr (k, v))) citation_keys) (\<lambda>items. Inr (JObj items))"

definition citations_of :: "json \<Rightarrow> retrieval_error + json list" where
  "citations_of evidence = bindE (required_key evidence ''regions'') (\<lambda>v. case v of JArr regions \<Rightarrow> mapE citation regions | _ \<Rightarrow> Inr [])"

definition table_candidate :: "candidates \<Rightarrow> retrieval_error + region_candidate" where
  "table_candidate best = (case map_of best ''table'' of
     None \<Rightarrow> Inl (RetrievalError ''no candidate region found for: table'')
   | Some c \<Rightarrow> Inr c)"

definition lay_out :: "symbol_spec \<Rightarrow> retrieval_error + laid_pin list \<times> string" where
  "lay_out spec = (case compile_layout spec of
     None \<Rightarrow> Inl (ValueError ''max() iterable argument is empty'')
   | Some drawn \<Rightarrow> Inr drawn)"

definition compile_symbol :: "engine \<Rightarrow> (io_step \<Rightarrow> bool) \<Rightarrow> bool \<Rightarrow> string \<Rightarrow> string \<Rightarrow> bytes \<Rightarrow> path \<Rightarrow> identity_hint option \<Rightarrow>
    string option \<Rightarrow> symbol_result io" where
  "compile_symbol e ok lock_free tag now payload output_root hint extracted_at =
     bind_io (pure_io (resolve_identity e payload hint)) (\<lambda>i.
     bind_io (retrieve_symbol_evidence e ok lock_free tag payload i output_root) (\<lambda>evidence.
     bind_io (pure_io (load_verified_region_candidates e payload)) (\<lambda>best.
     bind_io (pure_io (table_candidate best)) (\<lambda>table.
     bind_io (pure_io (extract_symbol_spec i table evidence extracted_at now)) (\<lambda>spec.
     bind_io (pure_io (lay_out spec)) (\<lambda>(laid, svg).
     bind_io (pure_io (citations_of evidence)) (\<lambda>citations.
     pure_io (Inr \<lparr>sr_identity = i, sr_spec = spec, sr_pins = laid, sr_citations = citations, sr_svg = svg,
       sr_evidence = evidence\<rparr>))))))))"

subsection \<open>The result as JSON\<close>

definition side_name :: "side \<Rightarrow> string" where
  "side_name s = (case s of TopSide \<Rightarrow> ''top'' | BottomSide \<Rightarrow> ''bottom'' | LeftSide \<Rightarrow> ''left'' | RightSide \<Rightarrow> ''right'')"

definition pin_json :: "symbol_pin \<Rightarrow> json" where
  "pin_json p = JObj
     [(''number'', JStr (sp_number p)), (''name'', JStr (sp_name p)), (''electrical'', JStr (sp_electrical p)),
      (''style'', JStr (sp_style p)), (''group'', JStr (sp_group p)), (''unit'', JInt (sp_unit p)), (''hidden'', JBool (sp_hidden p)),
      (''confidence'', JFloat (Flt (sp_confidence p))), (''evidence_region_ids'', JArr (map JStr (sp_evidence p)))]"

definition public_pin :: "laid_pin \<Rightarrow> json" where
  "public_pin l = (let p = lp_pin l in JObj
     [(''number'', JStr (sp_number p)), (''name'', JStr (sp_name p)), (''electrical'', JStr (sp_electrical p)),
      (''style'', JStr (sp_style p)), (''group'', JStr (sp_group p)), (''side'', JStr (side_name (lp_side l))),
      (''confidence'', JFloat (Flt (sp_confidence p))), (''evidence_region_ids'', JArr (map JStr (sp_evidence p)))])"

definition spec_json :: "symbol_spec \<Rightarrow> json" where
  "spec_json s = JObj
     [(''schema_version'', JStr (sy_schema s)), (''manufacturer'', JStr (sy_manufacturer s)), (''mpn'', JStr (sy_mpn s)),
      (''package'', JStr (sy_package s)), (''reference_prefix'', JStr (sy_prefix s)), (''pins'', JArr (map pin_json (sy_pins s))),
      (''properties'', JObj [(''datasheet'', JStr (sy_datasheet s)), (''description'', JStr (sy_description s)),
         (''footprint'', JStr (sy_footprint s)), (''keywords'', JStr (sy_keywords s))]),
      (''provenance'', JObj [(''evidence_datasheet_id'', sy_datasheet_id s), (''evidence_content_sha256'', sy_content_sha256 s),
         (''extractor_version'', JStr (sy_extractor s)), (''model'', JStr (sy_model s)), (''extracted_at'', JStr (sy_extracted_at s))])]"

definition symbol_json :: "symbol_result \<Rightarrow> json" where
  "symbol_json r = JObj
     [(''schema_version'', JStr RESULT_SCHEMA_VERSION),
      (''identity'', JObj [(''manufacturer'', JStr (strip (di_manufacturer (sr_identity r)))),
         (''mpn'', JStr (strip (di_mpn (sr_identity r)))), (''package'', JStr (strip (di_package (sr_identity r))))]),
      (''layout_policy_version'', JStr LAYOUT_POLICY_VERSION), (''spec'', spec_json (sr_spec r)),
      (''pins'', JArr (map public_pin (sr_pins r))), (''citations'', JArr (sr_citations r)), (''svg'', JStr (sr_svg r))]"

text \<open>The two files; the operating system may refuse the directory or either file (the first \<open>n\<close> steps complete).\<close>

definition write_symbol_bundle :: "engine \<Rightarrow> nat \<Rightarrow> symbol_result \<Rightarrow> path \<Rightarrow> unit io" where
  "write_symbol_bundle e n r dir fs =
     (if n = 0 then (Inl PackOsError, fs)
      else let fs1 = AList.update (dir @ [''symbol.json'']) (utf8_encode (dumps_indent False (en_frepr e) 0 (symbol_json r) @ [newline_char])) fs
           in if n = 1 then (Inl PackOsError, fs)
              else if n = 2 then (Inl PackOsError, fs1)
              else (Inr (), AList.update (dir @ [''symbol.svg'']) (utf8_encode (sr_svg r)) fs1))"

definition ambiguous_candidates :: "part_identity list \<Rightarrow> json list" where
  "ambiguous_candidates found = map (\<lambda>i. JObj [(''manufacturer'', JStr (di_manufacturer i)), (''mpn'', JStr (di_mpn i)),
     (''package'', JStr (di_package i))]) found"

subsection \<open>Citations\<close>

lemma citation_keys_all: "citation region = Inr c \<longleftrightarrow> (\<exists>items. map fst items = citation_keys \<and> c = JObj items \<and>
    list_all (\<lambda>(k, v). subscript region k = Some v) items)"
proof -
  have r: "required_key region k = Inr v \<longleftrightarrow> subscript region k = Some v" for k v by (simp add: required_key_def split: option.split)
  have "mapE (\<lambda>k. bindE (required_key region k) (\<lambda>v. Inr (k, v))) ks = Inr items \<longleftrightarrow>
      map fst items = ks \<and> list_all (\<lambda>(k, v). subscript region k = Some v) items" for ks items
    unfolding mapE_eq_Inr
  proof (induction ks arbitrary: items)
    case (Cons k ks)
    then show ?case by (cases items) (auto simp: r)
  qed auto
  then show ?thesis by (auto simp: citation_def)
qed

lemma citation_of_region: "\<exists>c. citation (region_json e pack_id rid kind c' box crop) = Inr c"
  by (auto simp: citation_def citation_keys_def mapE_eq_Inr required_key_def subscript_def region_json_def)

text \<open>A cited region has the named fields.\<close>

definition cites_region :: "json \<Rightarrow> json \<Rightarrow> bool" where
  "cites_region c region \<longleftrightarrow> (\<exists>items. c = JObj items \<and> map fst items = citation_keys \<and> list_all (\<lambda>(k, v). subscript region k = Some v) items)"

lemma citation_cites: "citation region = Inr c \<Longrightarrow> cites_region c region"
  by (auto simp: citation_keys_all cites_region_def)

subsection \<open>What a compiled symbol rests on\<close>

lemma pure_io_bind: "bind_io (pure_io r) f fs = (case r of Inl x \<Rightarrow> (Inl x, fs) | Inr a \<Rightarrow> f a fs)"
  by (simp add: bind_io_def pure_io_def split: sum.split)

lemma compile_parts:
  assumes "compile_symbol e ok lock_free tag now payload output_root hint extracted_at fs = (Inr r, fs')"
  shows "\<exists>best table. resolve_identity e payload hint = Inr (sr_identity r) \<and>
    retrieve_symbol_evidence e ok lock_free tag payload (sr_identity r) output_root fs = (Inr (sr_evidence r), fs') \<and>
    load_verified_region_candidates e payload = Inr best \<and> map_of best ''table'' = Some table \<and>
    extract_symbol_spec (sr_identity r) table (sr_evidence r) extracted_at now = Inr (sr_spec r) \<and>
    compile_layout (sr_spec r) = Some (sr_pins r, sr_svg r) \<and> citations_of (sr_evidence r) = Inr (sr_citations r)"
  using assms unfolding compile_symbol_def pure_io_bind
  by (auto simp: bind_io_def pure_io_def table_candidate_def lay_out_def split: sum.splits prod.splits option.splits)

lemma extracted_pins:
  "extract_symbol_spec i table evidence extracted_at now = Inr spec \<Longrightarrow> parse_pin_table (ca_text table) = Inr (sy_pins spec)"
  by (auto simp: extract_symbol_spec_def)

lemma laid_pins_mset: "layout_pins pins = Some (laid, body) \<Longrightarrow> mset (map lp_pin laid) = mset pins"
  using mset_sides [of "mset pins"] by (auto simp: layout_pins_def split: if_splits prod.splits)

lemma citations_cite: "citations_of evidence = Inr cs \<Longrightarrow> subscript evidence ''regions'' = Some (JArr regions) \<Longrightarrow> list_all2 cites_region cs regions"
  by (auto simp: citations_of_def required_key_def mapE_eq_Inr list_all2_conv_all_nth citation_cites)

text \<open>
  C24. A compiled symbol invents nothing: its identity is the resolved one, its evidence is the bundle of the retrieval,
  each citation repeats the fields of one region of that bundle, and the drawn pins are exactly the rows of the document's
  verified pin-table candidate, with numbers that are all different.
\<close>

theorem compiled_symbol_grounded:
  assumes "compile_symbol e ok lock_free tag now payload output_root hint extracted_at fs = (Inr r, fs')"
    and "subscript (sr_evidence r) ''regions'' = Some (JArr regions)"
  shows "resolve_identity e payload hint = Inr (sr_identity r) \<and>
    retrieve_symbol_evidence e ok lock_free tag payload (sr_identity r) output_root fs = (Inr (sr_evidence r), fs') \<and>
    list_all2 cites_region (sr_citations r) regions \<and>
    (\<exists>best table. load_verified_region_candidates e payload = Inr best \<and> map_of best ''table'' = Some table \<and>
       mset (map lp_pin (sr_pins r)) = mset (map make_pin (table_rows (ca_text table))) \<and>
       distinct (map (sp_number \<circ> lp_pin) (sr_pins r)))"
proof -
  from compile_parts [OF assms(1)] obtain best table where p: "resolve_identity e payload hint = Inr (sr_identity r)"
    "retrieve_symbol_evidence e ok lock_free tag payload (sr_identity r) output_root fs = (Inr (sr_evidence r), fs')"
    "load_verified_region_candidates e payload = Inr best" "map_of best ''table'' = Some table"
    and spec: "extract_symbol_spec (sr_identity r) table (sr_evidence r) extracted_at now = Inr (sr_spec r)"
    and drawn: "compile_layout (sr_spec r) = Some (sr_pins r, sr_svg r)" and cited: "citations_of (sr_evidence r) = Inr (sr_citations r)"
    by blast
  from extracted_pins [OF spec] have pins: "sy_pins (sr_spec r) = map make_pin (table_rows (ca_text table))"
    and d: "distinct (map sp_number (sy_pins (sr_spec r)))"
    by (simp_all add: parse_pin_table_iff comp_def)
  from drawn obtain body where "layout_pins (sy_pins (sr_spec r)) = Some (sr_pins r, body)" by (auto simp: compile_layout_def)
  then have m: "mset (map lp_pin (sr_pins r)) = mset (sy_pins (sr_spec r))" by (rule laid_pins_mset)
  then have "mset (map sp_number (map lp_pin (sr_pins r))) = mset (map sp_number (sy_pins (sr_spec r)))"
    by (metis mset_map)
  then have "distinct (map sp_number (map lp_pin (sr_pins r)))" using d by (metis mset_eq_imp_distinct_iff)
  then show ?thesis using p m citations_cite [OF cited assms(2)] unfolding pins by auto
qed

lemma list_all2_right: "list_all2 P xs ys \<Longrightarrow> y \<in> set ys \<Longrightarrow> \<exists>x. P x y"
  by (induction rule: list_all2_induct) auto

text \<open>The regions of a bundle that was just built.\<close>

definition three_regions :: "json list \<Rightarrow> bool" where
  "three_regions regions \<longleftrightarrow> map (\<lambda>x. subscript x ''region_id'') regions =
     map (Some \<circ> JStr) [''r_pinout_01'', ''r_pin_table_01'', ''r_package_01'']"

lemma region_of_id: "region_of e document pack_id (kind, item) x \<Longrightarrow> subscript x ''region_id'' = Some (JStr (the (map_of region_ids kind)))"
  by (auto simp: region_of_def region_json_def subscript_def)

lemma built_regions:
  assumes "evidence_pack e payload i pack_id dir fs b"
  shows "\<exists>regions cs did sha. subscript b ''regions'' = Some (JArr regions) \<and> three_regions regions \<and> citations_of b = Inr cs \<and> at_path b ''datasheet'' ''id'' = Some did \<and>
    at_path b ''datasheet'' ''content_sha256'' = Some sha"
proof -
  from assms obtain document cs regions where b: "b = bundle_json e i (en_sha e payload) regions"
    and r: "list_all2 (region_of e document pack_id) (zip (map fst region_ids) cs) regions"
    and cs: "accepted_candidates e document i cs"
    by (auto simp: evidence_pack_def)
  from cs obtain x1 x2 x3 where "cs = [x1, x2, x3]" by (auto simp: accepted_candidates_def split: list.splits)
  then have "zip (map fst region_ids) cs = [(''pinout'', x1), (''table'', x2), (''package'', x3)]" by (simp add: region_ids_def)
  with r obtain y1 y2 y3 where "regions = [y1, y2, y3]" "region_of e document pack_id (''pinout'', x1) y1"
    "region_of e document pack_id (''table'', x2) y2" "region_of e document pack_id (''package'', x3) y3"
    by (auto simp: list_all2_Cons1)
  then have "three_regions regions"
    using region_of_id region_kinds_ids by (simp add: three_regions_def)
  moreover
  have "\<exists>c. citation x = Inr c" if x: "x \<in> set regions" for x
  proof -
    from list_all2_right [OF r x] obtain item where item: "region_of e document pack_id item x" ..
    obtain kind c crop where "item = (kind, c, crop)" by (cases item)
    with item obtain box where "x = region_json e pack_id (the (map_of region_ids kind)) kind c box crop"
      by (auto simp: region_of_def)
    then show ?thesis by (simp only: citation_of_region)
  qed
  then obtain ys where "mapE citation regions = Inr ys" using mapE_total by blast
  ultimately show ?thesis by (simp add: b bundle_json_def citations_of_def required_key_def subscript_def at_path_def)
qed

lemma extract_succeeds:
  assumes "parse_pin_table (ca_text table) = Inr pins" and "at_path evidence ''datasheet'' ''id'' = Some did"
    and "at_path evidence ''datasheet'' ''content_sha256'' = Some sha"
  shows "\<exists>spec. extract_symbol_spec i table evidence extracted_at now = Inr spec \<and> sy_pins spec = pins"
  using assms by (auto simp: extract_symbol_spec_def required_key_def at_path_def bind_eq_Some_conv)

lemma fresh_pack_unread: "\<not> path_exists fs d \<Longrightarrow> load_cached_bundle e d pack_id fs i digest = None"
proof -
  assume "\<not> path_exists fs d"
  then have "map_of fs (manifest_path d) = None" unfolding path_exists_iff by (auto simp: manifest_path_def beneath_def)
  then show ?thesis by (simp add: load_cached_bundle_def read_bytes_def)
qed

lemma compiles:
  assumes "resolve_identity e payload hint = Inr i" and "bindE (validate_identity i) (\<lambda>_. payload_ok payload) = Inr u"
    and "open_pdf e payload = Inr document" and "chosen_candidates e document i = Inr chosen"
    and "list_all (\<lambda>(_, c). renderable document c) chosen" and "\<not> path_exists fs (pack_path e payload i output_root)"
    and "best_candidates (en_unicode e) document = Inr best" and "map_of best ''table'' = Some table"
    and "parse_pin_table (ca_text table) = Inr pins"
  shows "\<exists>r fs' regions. compile_symbol e (\<lambda>_. True) True tag now payload output_root hint extracted_at fs = (Inr r, fs') \<and>
    sy_pins (sr_spec r) = pins \<and> mset (map lp_pin (sr_pins r)) = mset pins \<and> sr_identity r = i \<and>
    subscript (sr_evidence r) ''regions'' = Some (JArr regions) \<and> three_regions regions \<and> list_all2 cites_region (sr_citations r) regions"
proof -
  have "path_exists fs (pack_path e payload i output_root) \<longrightarrow>
      \<not> is_file fs (pack_path e payload i output_root) \<and> \<not> is_file fs (corrupt_path e payload i output_root)" using assms(6) by simp
  from request_succeeds [OF assms(2-5) this] obtain b fs' where run:
    "retrieve_symbol_evidence e (\<lambda>_. True) True tag payload i output_root fs = (Inr b, fs')" by blast
  from built_pack [OF run fresh_pack_unread [OF assms(6)]] obtain regions cs did sha where
    regions: "subscript b ''regions'' = Some (JArr regions)" "three_regions regions" and b: "citations_of b = Inr cs"
    "at_path b ''datasheet'' ''id'' = Some did" "at_path b ''datasheet'' ''content_sha256'' = Some sha"
    using built_regions by blast
  from extract_succeeds [OF assms(9) b(2,3)] obtain spec where spec:
    "extract_symbol_spec i table b extracted_at now = Inr spec" "sy_pins spec = pins" by blast
  have "pins \<noteq> []" using assms(9) by (auto simp: parse_pin_table_iff)
  then obtain laid box svg where laid: "layout_pins pins = Some (laid, box)" and drawn: "lay_out spec = Inr (laid, svg)"
    by (cases "body_box pins") (simp add: lay_out_def compile_layout_def layout_pins_def spec(2))
  have "payload_ok payload = Inr ()" using assms(2) by simp
  then have best: "load_verified_region_candidates e payload = Inr best"
    using assms(3,7) by (simp add: load_verified_region_candidates_def)
  have "\<exists>r fs'. compile_symbol e (\<lambda>_. True) True tag now payload output_root hint extracted_at fs = (Inr r, fs') \<and>
      sr_spec r = spec \<and> sr_identity r = i \<and> sr_pins r = laid \<and> sr_evidence r = b \<and> sr_citations r = cs"
    unfolding compile_symbol_def pure_io_bind
    by (simp add: assms(1) bind_io_def run pure_io_def best table_candidate_def assms(8) spec drawn b(1))
  with spec(2) regions laid_pins_mset [OF laid] citations_cite [OF b(1) regions(1)] show ?thesis by auto
qed

text \<open>
  C26. A readable document compiles. Its hypotheses, all of them: the identity resolves, it and the payload pass their checks, the
  document opens, the scorer and the identity gate choose the three candidates, each can be rendered within the limits of a crop, no pack of
  this request exists yet (a stored one may lack the page the compiler cites), the lock is obtained and the operating
  system completes every step, and the pin-table candidate reads as pins. Then compiling returns a symbol of that identity whose drawn pins
  are these, and one citation for each of the three regions of the bundle, which repeats its fields.
\<close>

theorem readable_document_compiles:
  assumes "resolve_identity e payload hint = Inr i" and "bindE (validate_identity i) (\<lambda>_. payload_ok payload) = Inr u"
    and "open_pdf e payload = Inr document" and "chosen_candidates e document i = Inr chosen"
    and "list_all (\<lambda>(_, c). renderable document c) chosen" and "\<not> path_exists fs (pack_path e payload i output_root)"
    and "best_candidates (en_unicode e) document = Inr best" and "map_of best ''table'' = Some table"
    and "parse_pin_table (ca_text table) = Inr pins"
  shows "\<exists>r fs' regions. compile_symbol e (\<lambda>_. True) True tag now payload output_root hint extracted_at fs = (Inr r, fs') \<and>
    sy_pins (sr_spec r) = pins \<and> mset (map lp_pin (sr_pins r)) = mset pins \<and> sr_identity r = i \<and>
    subscript (sr_evidence r) ''regions'' = Some (JArr regions) \<and> three_regions regions \<and> list_all2 cites_region (sr_citations r) regions"
  using assms by (rule compiles)

subsection \<open>The demo document\<close>

lemma demo_pin_rows:
  "table_rows demo_pin_table = [(''1'', ''VIN'', ''power''), (''2'', ''GND'', ''ground''), (''3'', ''EN'', ''input''), (''4'', ''OUT'', ''output'')]"
  by code_simp

definition demo_hint :: identity_hint where
  "demo_hint = \<lparr>ih_manufacturer = ''U'', ih_mpn = ''A1'', ih_package = ''D8'', ih_source_url = None\<rparr>"

lemma demo_resolved: "resolve_identity demo_engine demo_pdf (Some demo_hint) = Inr demo_part"
  by code_simp

lemma demo_compile_run:
  "\<exists>chosen. chosen_candidates demo_engine demo_document demo_part = Inr chosen \<and>
     list_all (\<lambda>(_, c). renderable demo_document c) chosen \<and>
     \<not> path_exists [] (pack_path demo_engine demo_pdf demo_part [''out'']) \<and>
     best_candidates (en_unicode demo_engine) demo_document = Inr [(''pinout'', demo_pinout), (''table'', demo_table)] \<and>
     parse_pin_table (ca_text demo_table) = Inr (map make_pin (table_rows demo_pin_table))"
  using demo_chosen demo_table by (simp add: path_exists_iff demo_engine_def demo_best parse_pin_table_iff demo_pin_rows)

theorem readable_document_compiles_witness:
  "\<exists>r fs. compile_symbol demo_engine (\<lambda>_. True) True ''x'' ''t'' demo_pdf [''out''] (Some demo_hint) None [] = (Inr r, fs) \<and>
     sy_pins (sr_spec r) = map make_pin (table_rows demo_pin_table) \<and> sr_identity r = demo_part \<and> length (sr_citations r) = 3"
proof -
  obtain chosen where ch: "chosen_candidates demo_engine demo_document demo_part = Inr chosen"
    "list_all (\<lambda>(_, c). renderable demo_document c) chosen" "\<not> path_exists [] (pack_path demo_engine demo_pdf demo_part [''out''])"
    "best_candidates (en_unicode demo_engine) demo_document = Inr [(''pinout'', demo_pinout), (''table'', demo_table)]"
    "parse_pin_table (ca_text demo_table) = Inr (map make_pin (table_rows demo_pin_table))"
    using demo_compile_run by blast
  have "map_of [(''pinout'', demo_pinout), (''table'', demo_table)] ''table'' = Some demo_table" by simp
  from readable_document_compiles [OF demo_resolved demo_valid demo_open ch(1-4) this ch(5)] obtain r fs regions where
    run: "compile_symbol demo_engine (\<lambda>_. True) True ''x'' ''t'' demo_pdf [''out''] (Some demo_hint) None [] = (Inr r, fs)"
      "sy_pins (sr_spec r) = map make_pin (table_rows demo_pin_table)" "sr_identity r = demo_part"
    and cited: "three_regions regions" "list_all2 cites_region (sr_citations r) regions" by blast
  from cited(1) have "length regions = 3" by (auto simp: three_regions_def dest: arg_cong [where f = length])
  with run list_all2_lengthD [OF cited(2)] show ?thesis by auto
qed

theorem compiled_symbol_grounded_witness:
  "\<exists>r fs regions. compile_symbol demo_engine (\<lambda>_. True) True ''x'' ''t'' demo_pdf [''out''] (Some demo_hint) None [] = (Inr r, fs) \<and>
     list_all2 cites_region (sr_citations r) regions \<and> distinct (map (sp_number \<circ> lp_pin) (sr_pins r))"
proof -
  obtain chosen where ch: "chosen_candidates demo_engine demo_document demo_part = Inr chosen"
    "list_all (\<lambda>(_, c). renderable demo_document c) chosen" "\<not> path_exists [] (pack_path demo_engine demo_pdf demo_part [''out''])"
    "best_candidates (en_unicode demo_engine) demo_document = Inr [(''pinout'', demo_pinout), (''table'', demo_table)]"
    "parse_pin_table (ca_text demo_table) = Inr (map make_pin (table_rows demo_pin_table))"
    using demo_compile_run by blast
  have "map_of [(''pinout'', demo_pinout), (''table'', demo_table)] ''table'' = Some demo_table" by simp
  from compiles [OF demo_resolved demo_valid demo_open ch(1-4) this ch(5)] obtain r fs where run:
    "compile_symbol demo_engine (\<lambda>_. True) True ''x'' ''t'' demo_pdf [''out''] (Some demo_hint) None [] = (Inr r, fs)" by blast
  from compile_parts [OF run] have ev: "retrieve_symbol_evidence demo_engine (\<lambda>_. True) True ''x'' demo_pdf (sr_identity r) [''out''] [] = (Inr (sr_evidence r), fs)"
    by blast
  have "\<not> path_exists [] (pack_path demo_engine demo_pdf (sr_identity r) [''out''])" by (simp add: path_exists_iff)
  from built_regions [OF built_pack [OF ev fresh_pack_unread [OF this]]] obtain regions where
    regions: "subscript (sr_evidence r) ''regions'' = Some (JArr regions)" by blast
  from compiled_symbol_grounded [OF run regions] run show ?thesis by blast
qed

subsection \<open>A pack that the loader accepts and the compiler cannot cite\<close>

text \<open>The check of a stored pack never looks at a region's page, nor does a pack without it fail: the request is answered from
  the pack, and compiling stops at the subscript.\<close>

lemma page_never_checked:
  assumes "cached_region_ok e dir fs pack_id seen (JObj r) = Some seen'"
  shows "cached_region_ok e dir fs pack_id seen (JObj (AList.delete ''page'' r)) = Some seen'"
    and "citation (JObj (AList.delete ''page'' r)) = Inl (MissingKey ''page'')"
proof -
  have keys: "map_of (AList.delete ''page'' r) k = (if k = ''page'' then None else map_of r k)" for k by (simp add: delete_conv')
  show "cached_region_ok e dir fs pack_id seen (JObj (AList.delete ''page'' r)) = Some seen'"
  proof -
    have k: "map_of (AList.delete ''page'' r) ''region_id'' = map_of r ''region_id''" "map_of (AList.delete ''page'' r) ''type'' = map_of r ''type''"
      "map_of (AList.delete ''page'' r) ''crop_uri'' = map_of r ''crop_uri''"
      "map_of (AList.delete ''page'' r) ''verification'' = map_of r ''verification''"
      "map_of (AList.delete ''page'' r) ''content_hash'' = map_of r ''content_hash''"
      by (simp_all add: keys)
    show ?thesis using assms unfolding cached_region_ok_def json.case k .
  qed
  from assms obtain rid kind where "map_of r ''region_id'' = Some (JStr rid)" "map_of r ''type'' = Some (JStr kind)"
    by (auto simp: cached_region_ok_def split: option.splits json.splits if_splits)
  then show "citation (JObj (AList.delete ''page'' r)) = Inl (MissingKey ''page'')"
    by (simp add: citation_def citation_keys_def required_key_def subscript_def keys)
qed

end
