(* ===== verification/Preregistration.thy ===== *)
theory Preregistration
  imports ServiceConfig Contracts
begin

section \<open>Registered plans\<close>

text \<open>
  \<open>src/dsvire/retrieval_preregistration.py\<close>: the loader of the plan of an evaluation cycle. \<open>bracket_ok\<close> is the library's
  check of a bracketed host, \<open>sha\<close> SHA-256 and \<open>frepr\<close> the decimal form of a float. The exceptions of the modules of a
  cycle are one type; \<open>CycleTypeError\<close> is the language's \<open>TypeError\<close> with its message, and \<open>CycleEscape\<close> names
  another exception that none of them converts.
\<close>

datatype cycle_error = PreregistrationError string | SourceSealError string | AuthoringError string | CycleError string
  | CampaignError string | CycleTypeError string | CycleEscape string

definition PLAN_VERSION :: string where "PLAN_VERSION = ''dsvire.retrieval-preregistration.v1''"

definition SPLITS :: "string list" where "SPLITS = [''calibration'', ''evaluation'']"

definition REQUIRED_MANUFACTURERS :: "(string \<times> string) list" where
  "REQUIRED_MANUFACTURERS =
     [(''Texas Instruments'', ''www.ti.com''), (''Analog Devices'', ''www.analog.com''), (''Nexperia'', ''assets.nexperia.com''),
      (''Microchip'', ''ww1.microchip.com''), (''STMicroelectronics'', ''www.st.com''), (''onsemi'', ''www.onsemi.com''),
      (''NXP Semiconductors'', ''www.nxp.com''), (''Bosch Sensortec'', ''www.bosch-sensortec.com'')]"

record preregistration =
  pr_plan_id :: string
  pr_sha256 :: string
  pr_family_ids :: "string list"

text \<open>A family of the plan: the texts under its eight keys.\<close>

record family =
  fa_id :: string
  fa_split :: string
  fa_manufacturer :: string
  fa_category :: string
  fa_identity :: string
  fa_mpn :: string
  fa_package :: string
  fa_url :: string

definition family_keys :: "string list" where
  "family_keys = [''id'', ''split'', ''manufacturer'', ''category'', ''datasheet_identity'', ''selected_mpn'', ''selected_package'',
     ''official_source_url'']"

definition text_of :: "json \<Rightarrow> string" where
  "text_of v = (case v of JStr s \<Rightarrow> s | _ \<Rightarrow> [])"

definition filled :: "json \<Rightarrow> bool" where
  "filled v = (case v of JStr s \<Rightarrow> strip s \<noteq> [] | _ \<Rightarrow> False)"

definition family_of :: "(string \<times> json) list \<Rightarrow> family" where
  "family_of d = (let t = (\<lambda>k. text_of (field d k)) in
     \<lparr>fa_id = t ''id'', fa_split = t ''split'', fa_manufacturer = t ''manufacturer'', fa_category = t ''category'',
      fa_identity = t ''datasheet_identity'', fa_mpn = t ''selected_mpn'', fa_package = t ''selected_package'',
      fa_url = t ''official_source_url''\<rparr>)"

text \<open>The parsed address names the registered host over HTTPS and no user.\<close>

definition official :: "parsed_url \<Rightarrow> string \<Rightarrow> bool" where
  "official u manufacturer \<longleftrightarrow> url_scheme u = ''https'' \<and> hostname u = map_of REQUIRED_MANUFACTURERS manufacturer \<and>
     CHR ''@'' \<notin> set (url_netloc u)"

definition parse_url :: "(string \<Rightarrow> bool) \<Rightarrow> string \<Rightarrow> cycle_error + parsed_url" where
  "parse_url bracket_ok url = (case urlparse bracket_ok url of Inl _ \<Rightarrow> Inl (CycleEscape ''ValueError'') | Inr u \<Rightarrow> Inr u)"

definition in_families :: "nat \<Rightarrow> string" where
  "in_families i = at_index ''families'' i"

text \<open>One iteration over the families, which adds to the ids, the splits, the manufacturers and the categories so far.\<close>

definition check_family :: "(string \<Rightarrow> bool) \<Rightarrow> family list \<Rightarrow> nat \<times> json \<Rightarrow> cycle_error + family list" where
  "check_family bracket_ok fams item = (case item of (i, raw) \<Rightarrow> (case raw of
     JObj d \<Rightarrow>
       if \<not> fields_are family_keys d then Inl (PreregistrationError (in_families i @ '' keys are invalid''))
       else if \<not> list_all (\<lambda>k. filled (field d k)) family_keys
       then Inl (PreregistrationError (in_families i @ '' contains empty text''))
       else let f = family_of d in
         if fa_split f \<notin> set SPLITS then Inl (PreregistrationError (in_families i @ ''.split is invalid''))
         else bindE (parse_url bracket_ok (fa_url f)) (\<lambda>u.
           if \<not> official u (fa_manufacturer f)
           then Inl (PreregistrationError (in_families i @ '' source is not official HTTPS''))
           else if fa_category f \<in> set (map fa_category fams)
           then Inl (PreregistrationError ''categories must be unique across the cycle'')
           else Inr (fams @ [f]))
   | _ \<Rightarrow> Inl (PreregistrationError (in_families i @ '' keys are invalid''))))"

definition plan_keys :: "string list" where
  "plan_keys = [''schema_version'', ''plan_id'', ''parent_issue'', ''tracking_issue'', ''sealed_before'', ''families'', ''acquisition'',
     ''annotation'', ''queries'', ''candidate_universe'', ''systems'', ''metrics'', ''frozen_gate'', ''execution_order'', ''invalidation'',
     ''publication_policy'']"

definition expected_gate :: json where
  "expected_gate = JObj
     [(''evaluation_queries_minimum'', JInt 36), (''coverage_minimum'', JFloat (Flt 1)),
      (''crop_recall_at_5_vs_full_page_minimum_delta'', JFloat (Flt (rnd (- 1 / 100)))),
      (''crop_recall_at_5_vs_openclip_minimum_delta'', JFloat (Flt (rnd (15 / 100)))),
      (''crop_recall_at_5_vs_text_rag_minimum_delta'', JFloat (Flt (rnd (15 / 100)))),
      (''verified_wrong_figure_rate_maximum'', JFloat (Flt (rnd (2 / 100)))),
      (''target_gpu_hot_query_p95_ms_maximum'', JInt 800),
      (''crop_index_pages_per_second_per_gpu_minimum'', JFloat (Flt 2)),
      (''compressed_crop_pack_vs_full_page_ratio_maximum'', JFloat (Flt (rnd (15 / 100)))),
      (''all_conditions_required'', JBool True)]"

definition in_split :: "string \<Rightarrow> family list \<Rightarrow> family list" where
  "in_split s fams = filter (\<lambda>f. fa_split f = s) fams"

definition split_manufacturers :: "string \<Rightarrow> family list \<Rightarrow> string set" where
  "split_manufacturers s fams = set (map fa_manufacturer (in_split s fams))"

definition check_families :: "string set \<Rightarrow> family list \<Rightarrow> cycle_error + unit" where
  "check_families consumed fams =
     (if \<not> distinct (map fa_id fams) \<or> list_ex (\<lambda>f. fa_id f \<in> consumed) fams
      then Inl (PreregistrationError ''family IDs are duplicate or previously consumed'')
      else if length (in_split ''calibration'' fams) \<noteq> 6 \<or> length (in_split ''evaluation'' fams) \<noteq> 6
      then Inl (PreregistrationError ''splits must contain six families each'')
      else if split_manufacturers ''calibration'' fams = {} \<or>
        split_manufacturers ''calibration'' fams \<noteq> split_manufacturers ''evaluation'' fams
      then Inl (PreregistrationError ''manufacturer strata must match across splits'')
      else Inr ())"

definition check_policy :: "json \<Rightarrow> cycle_error + unit" where
  "check_policy v = (case v of
     JStr s \<Rightarrow> ensure (starts_with ''automated catalog publication remains disabled'' s)
       (PreregistrationError ''publication policy must remain fail-closed'')
   | _ \<Rightarrow> Inl (CycleEscape ''AttributeError''))"

text \<open>The families of the plan, for the callers that read them again from the value.\<close>

definition plan_families :: "(string \<Rightarrow> bool) \<Rightarrow> string set \<Rightarrow> (string \<times> json) list \<Rightarrow> cycle_error + family list" where
  "plan_families bracket_ok consumed d = (case field d ''families'' of
     JArr raw \<Rightarrow>
       if length raw \<noteq> 12 then Inl (PreregistrationError ''exactly twelve families are required'')
       else bindE (foldE (check_family bracket_ok) [] (enumerate 0 raw)) (\<lambda>fams.
            bindE (check_families consumed fams) (\<lambda>_. Inr fams))
   | _ \<Rightarrow> Inl (PreregistrationError ''exactly twelve families are required''))"

definition load_retrieval_preregistration :: "(string \<Rightarrow> bool) \<Rightarrow> (bytes \<Rightarrow> string) \<Rightarrow> (pyfloat \<Rightarrow> string) \<Rightarrow> string set \<Rightarrow> json \<Rightarrow>
    cycle_error + preregistration" where
  "load_retrieval_preregistration bracket_ok sha frepr consumed v = (case v of
     JObj d \<Rightarrow>
       if field d ''schema_version'' \<noteq> JStr PLAN_VERSION
       then Inl (PreregistrationError ''unsupported retrieval pre-registration'')
       else if \<not> fields_are plan_keys d then Inl (PreregistrationError ''pre-registration keys are invalid'')
       else if \<not> filled (field d ''plan_id'') then Inl (PreregistrationError ''plan_id is invalid'')
       else bindE (plan_families bracket_ok consumed d) (\<lambda>fams.
         if \<not> py_eq (field d ''frozen_gate'') expected_gate
         then Inl (PreregistrationError ''frozen gate differs from the registered target'')
         else bindE (check_policy (field d ''publication_policy'')) (\<lambda>_.
           Inr \<lparr>pr_plan_id = strip (text_of (field d ''plan_id'')), pr_sha256 = canonical_sha sha frepr v,
             pr_family_ids = map fa_id fams\<rparr>))
   | _ \<Rightarrow> Inl (PreregistrationError ''unsupported retrieval pre-registration''))"

subsection \<open>What a loaded plan promises\<close>

definition family_ok :: "(string \<Rightarrow> bool) \<Rightarrow> family \<Rightarrow> bool" where
  "family_ok bracket_ok f \<longleftrightarrow> fa_split f \<in> set SPLITS \<and> (\<exists>u. urlparse bracket_ok (fa_url f) = Inr u \<and> official u (fa_manufacturer f))"

definition families_good :: "(string \<Rightarrow> bool) \<Rightarrow> family list \<Rightarrow> bool" where
  "families_good bracket_ok fams \<longleftrightarrow> list_all (family_ok bracket_ok) fams \<and> distinct (map fa_category fams)"

lemma check_family_ok:
  "check_family bracket_ok fams item = Inr fams' \<longleftrightarrow>
     (\<exists>d f. snd item = JObj d \<and> fields_are family_keys d \<and> list_all (\<lambda>k. filled (field d k)) family_keys \<and> f = family_of d \<and>
        family_ok bracket_ok f \<and> fa_category f \<notin> set (map fa_category fams) \<and> fams' = fams @ [f])"
  by (cases item; cases "snd item")
    (auto simp: check_family_def Let_def family_ok_def parse_url_def split: if_splits sum.splits)

interpretation families: collecting_loop "check_family bracket_ok" "families_good bracket_ok" length
  for bracket_ok
proof
  fix fams :: "family list" and item :: "nat \<times> json" and fams'
  assume "families_good bracket_ok fams" "check_family bracket_ok fams item = Inr fams'"
  then show "families_good bracket_ok fams'" and "length fams' = Suc (length fams)"
    by (auto simp: check_family_ok families_good_def)
qed

lemma check_families_ok: "check_families consumed fams = Inr u \<longleftrightarrow>
    distinct (map fa_id fams) \<and> (\<forall>f \<in> set fams. fa_id f \<notin> consumed) \<and> length (in_split ''calibration'' fams) = 6 \<and>
    length (in_split ''evaluation'' fams) = 6 \<and> split_manufacturers ''calibration'' fams \<noteq> {} \<and>
    split_manufacturers ''calibration'' fams = split_manufacturers ''evaluation'' fams"
  by (auto simp: check_families_def list_ex_iff)

lemma plan_families_ok:
  assumes "plan_families bracket_ok consumed d = Inr fams"
  shows "families_good bracket_ok fams \<and> length fams = 12 \<and> check_families consumed fams = Inr ()"
proof -
  from assms obtain raw where raw: "length raw = 12" "foldE (check_family bracket_ok) [] (enumerate 0 raw) = Inr fams"
    "check_families consumed fams = Inr ()"
    by (auto simp: plan_families_def split: json.splits if_splits)
  have "families_good bracket_ok []" by (simp add: families_good_def)
  from families.loop_good [OF raw(2) this] families.loop_collects [OF raw(2) this] raw show ?thesis by simp
qed

end
