(* ===== verification/SourceSeal.thy ===== *)
theory SourceSeal
  imports Preregistration Regex ObjectStore
begin

section \<open>The sources of a cycle\<close>

text \<open>
  \<open>src/dsvire/retrieval_source_seal.py\<close>: the official documents of the registered families are fetched, checked and
  recorded in a manifest with a digest. The network is a parameter: what each attempt for each family gets. So is the PDF
  reader. The local cache maps digests to bytes; the temporary file of a download never outlives it and is not modelled.
\<close>

definition SOURCE_MANIFEST_VERSION :: string where "SOURCE_MANIFEST_VERSION = ''dsvire.retrieval-cycle-source-manifest.v1''"

definition FROZEN_PLAN_DIGESTS :: "(string \<times> string) list" where
  "FROZEN_PLAN_DIGESTS =
     [(''dsvire-colsmol-cycle-v2@2026-08-13'', ''6acc99d5621fcd3f73efdc801b7fc7754ac244d600e94b106e6c62712116698d''),
      (''dsvire-colsmol-egvv-cycle-v3@2026-08-13'', ''2034c81f041d547249bed9e7e606d2255af0b5df32ebfda7ad025a8c917d7ccf''),
      (''dsvire-colsmol-egvv-cycle-v4@2026-08-13'', ''cd7b1bd89d0e3d382eb7ea0af97107ca6931b3cd49a34964e18e4cef9dbb8acb''),
      (''dsvire-colsmol-egvv-cycle-v5@2026-09-17'', ''62960b1d4e4ffdb4ca34696e985b33e589cae7203c28017f6aed8345f1ca60d4'')]"

record pdf_reading =
  pd_metadata :: "string list"
  pd_pages :: "string list"

record response =
  re_redirects :: "string list"
  re_final_url :: string
  re_content_length :: "string option"
  re_chunks :: "bytes list"
  re_broken :: bool

text \<open>The environment: the fetches by family and attempt (none when the request fails), and the functions it relies on.\<close>

record source_env =
  se_fetch :: "string \<Rightarrow> nat \<Rightarrow> response option"
  se_reader :: "bytes \<Rightarrow> pdf_reading option"
  se_sha :: "bytes \<Rightarrow> string"
  se_frepr :: "pyfloat \<Rightarrow> string"
  se_bracket_ok :: "string \<Rightarrow> bool"

type_synonym source_cache = "(string \<times> bytes) list"

definition seal_error :: "family \<Rightarrow> string \<Rightarrow> cycle_error + 'a" where
  "seal_error f message = Inl (SourceSealError (fa_id f @ '': '' @ message))"

subsection \<open>Identity\<close>

definition marker_char :: "char \<Rightarrow> bool" where
  "marker_char c \<longleftrightarrow> ascii_lower c \<or> ascii_digit c"

definition tokens_of :: "string \<Rightarrow> string list" where
  "tokens_of s = rx_findall (Run marker_char 1 None) s"

definition manifest_sha256 :: "(bytes \<Rightarrow> string) \<Rightarrow> (pyfloat \<Rightarrow> string) \<Rightarrow> (string \<times> json) list \<Rightarrow> string" where
  "manifest_sha256 sha frepr d = canonical_sha sha frepr (JObj (filter (\<lambda>(k, _). k \<noteq> ''manifest_sha256'') d))"

definition ignored_tokens :: "string list" where
  "ignored_tokens = [''datasheet'', ''revision'', ''selected'', ''calibration'', ''evaluation'']"

definition identity_markers :: "family \<Rightarrow> cycle_error + string list" where
  "identity_markers f =
     (let candidates = tokens_of (lower (fa_identity f @ '' '' @ fa_mpn f @ '' '' @ fa_id f));
          markers = sort (remdups (filter (\<lambda>t. 6 \<le> length t \<and> t \<notin> set ignored_tokens) candidates))
      in if markers = [] then seal_error f ''no bounded identity marker can be derived'' else Inr markers)"

text \<open>The first 32 pages, and the last four of a longer document.\<close>

definition read_pages :: "nat \<Rightarrow> nat list" where
  "read_pages n = [0..<min n 32] @ (if 32 < n then [max 32 (n - 4)..<n] else [])"

definition verify_pdf_identity :: "(bytes \<Rightarrow> pdf_reading option) \<Rightarrow> bytes \<Rightarrow> family \<Rightarrow> cycle_error + string list" where
  "verify_pdf_identity reader payload f =
     (if \<not> starts_with ''%PDF-'' payload then seal_error f ''official response is not a PDF''
      else case reader payload of
        None \<Rightarrow> seal_error f ''PDF parsing failed''
      | Some r \<Rightarrow>
          if pd_pages r = [] then seal_error f ''PDF contains no pages''
          else let metadata = join '' '' (filter (\<lambda>v. v \<noteq> []) (pd_metadata r));
                   body = join '' '' (map (\<lambda>i. pd_pages r ! i) (read_pages (length (pd_pages r))));
                   normalised = concat (tokens_of (lower (metadata @ '' '' @ body)))
               in bindE (identity_markers f) (\<lambda>markers.
                  let matched = filter (\<lambda>m. contains m normalised) markers
                  in if matched = [] then seal_error f ''declared datasheet identity was not found'' else Inr matched))"

subsection \<open>One download\<close>

text \<open>\<open>_BoundedRedirectHandler\<close>: each redirect in turn, with the number followed so far.\<close>

definition follow_redirects :: "(string \<Rightarrow> bool) \<Rightarrow> int \<Rightarrow> string list \<Rightarrow> cycle_error + unit" where
  "follow_redirects bracket_ok maximum urls =
     bindE (mapE (\<lambda>(i, url).
       if maximum \<le> int i then Inl (SourceSealError ''official source exceeded the registered redirect limit'')
       else bindE (parse_url bracket_ok url) (\<lambda>u.
         ensure (url_scheme u = ''https'') (SourceSealError ''official source redirected away from HTTPS'')))
       (enumerate 0 urls)) (\<lambda>_. Inr ())"

definition declared_size :: "family \<Rightarrow> int \<Rightarrow> string option \<Rightarrow> cycle_error + int option" where
  "declared_size f max_bytes header = (case header of
     None \<Rightarrow> Inr None
   | Some t \<Rightarrow> (case parse_int t of
       None \<Rightarrow> seal_error f ''invalid content-length''
     | Some n \<Rightarrow> if n < 8 \<or> max_bytes < n then seal_error f ''declared source size is outside bounds'' else Inr (Some n)))"

text \<open>The loop over the chunks: the bytes received so far.\<close>

definition receive :: "family \<Rightarrow> int \<Rightarrow> bytes \<Rightarrow> bytes \<Rightarrow> cycle_error + bytes" where
  "receive f max_bytes got chunk =
     (if max_bytes < int (length (got @ chunk)) then seal_error f ''source exceeds registered byte cap'' else Inr (got @ chunk))"

record sealed_source =
  ss_family :: family
  ss_final_url :: string
  ss_bytes :: int
  ss_sha256 :: string
  ss_markers :: "string list"

definition fetch_payload :: "source_env \<Rightarrow> int \<Rightarrow> int \<Rightarrow> family \<Rightarrow> response \<Rightarrow> cycle_error + bytes" where
  "fetch_payload e max_redirects max_bytes f r =
     bindE (follow_redirects (se_bracket_ok e) max_redirects (re_redirects r)) (\<lambda>_.
     bindE (parse_url (se_bracket_ok e) (re_final_url r)) (\<lambda>u.
     if url_scheme u \<noteq> ''https'' then seal_error f ''final source URL is not HTTPS''
     else bindE (declared_size f max_bytes (re_content_length r)) (\<lambda>declared.
     bindE (foldE (receive f max_bytes) [] (re_chunks r)) (\<lambda>payload.
     if re_broken r then seal_error f ''official source request failed''
     else if declared \<noteq> None \<and> declared \<noteq> Some (int (length payload))
     then seal_error f (''source was truncated; declared '' @ int_str (the declared) @ '', got '' @ nat_str (length payload))
     else if length payload < 8 \<or> \<not> starts_with ''%PDF-'' payload then seal_error f ''official response is not a PDF''
     else Inr payload))))"

definition download_one :: "source_env \<Rightarrow> int \<Rightarrow> int \<Rightarrow> source_cache \<Rightarrow> family \<Rightarrow> response option \<Rightarrow>
    cycle_error + sealed_source \<times> source_cache" where
  "download_one e max_redirects max_bytes cache f fetched = (case fetched of
     None \<Rightarrow> seal_error f ''official source request failed''
   | Some r \<Rightarrow>
       bindE (fetch_payload e max_redirects max_bytes f r) (\<lambda>payload.
       bindE (verify_pdf_identity (se_reader e) payload f) (\<lambda>matched.
       let digest = se_sha e payload;
           s = \<lparr>ss_family = f, ss_final_url = re_final_url r, ss_bytes = int (length payload), ss_sha256 = digest, ss_markers = matched\<rparr>
       in case map_of cache digest of
         None \<Rightarrow> Inr (s, AList.update digest payload cache)
       | Some old \<Rightarrow> if old \<noteq> payload then seal_error f ''digest collision in local cache'' else Inr (s, cache))))"

text \<open>The attempts for one family: the first that succeeds, otherwise the last error. Only a \<open>SourceSealError\<close> is retried.\<close>

fun try_source :: "source_env \<Rightarrow> int \<Rightarrow> int \<Rightarrow> source_cache \<Rightarrow> family \<Rightarrow> nat \<Rightarrow> nat \<Rightarrow>
    cycle_error + (string + sealed_source \<times> source_cache)" where
  "try_source e max_redirects max_bytes cache f attempt remaining =
     (case download_one e max_redirects max_bytes cache f (se_fetch e (fa_id f) attempt) of
        Inr got \<Rightarrow> Inr (Inr got)
      | Inl (SourceSealError m) \<Rightarrow> (case remaining of
          0 \<Rightarrow> Inr (Inl m)
        | Suc n \<Rightarrow> try_source e max_redirects max_bytes cache f (attempt + 1) n)
      | Inl x \<Rightarrow> Inl x)"

record acquisition =
  aq_sources :: "sealed_source list"
  aq_invalidations :: "(family \<times> string) list"
  aq_cache :: source_cache

definition acquire_family :: "source_env \<Rightarrow> int \<Rightarrow> int \<Rightarrow> nat \<Rightarrow> acquisition \<Rightarrow> family \<Rightarrow> cycle_error + acquisition" where
  "acquire_family e max_redirects max_bytes attempts a f =
     bindE (try_source e max_redirects max_bytes (aq_cache a) f 1 (attempts - 1)) (\<lambda>outcome. case outcome of
       Inl reason \<Rightarrow> Inr (a\<lparr>aq_invalidations := aq_invalidations a @ [(f, reason)]\<rparr>)
     | Inr (s, cache) \<Rightarrow> Inr (a\<lparr>aq_sources := aq_sources a @ [s], aq_cache := cache\<rparr>))"

subsection \<open>The manifest\<close>

definition source_json :: "sealed_source \<Rightarrow> json" where
  "source_json s = (let f = ss_family s in JObj
     [(''id'', JStr (fa_id f)), (''split'', JStr (fa_split f)), (''requested_url'', JStr (fa_url f)),
      (''final_url'', JStr (ss_final_url s)), (''bytes'', JInt (ss_bytes s)), (''content_sha256'', JStr (ss_sha256 s)),
      (''identity_markers'', JArr (map JStr (ss_markers s))), (''redistribution'', JStr ''download_only''), (''status'', JStr ''sealed'')])"

definition invalidation_json :: "family \<times> string \<Rightarrow> json" where
  "invalidation_json item = (case item of (f, reason) \<Rightarrow>
     JObj [(''id'', JStr (fa_id f)), (''reason'', JStr reason), (''status'', JStr ''invalidated'')])"

definition manifest_body :: "preregistration \<Rightarrow> acquisition \<Rightarrow> (string \<times> json) list" where
  "manifest_body plan a =
     [(''schema_version'', JStr SOURCE_MANIFEST_VERSION), (''plan_id'', JStr (pr_plan_id plan)), (''plan_sha256'', JStr (pr_sha256 plan)),
      (''sources'', JArr (map source_json (aq_sources a))), (''invalidations'', JArr (map invalidation_json (aq_invalidations a))),
      (''complete'', JBool (length (aq_sources a) = length (pr_family_ids plan) \<and> aq_invalidations a = []))]"

definition manifest_keys :: "string list" where
  "manifest_keys = [''schema_version'', ''plan_id'', ''plan_sha256'', ''sources'', ''invalidations'', ''complete'', ''manifest_sha256'']"

text \<open>The ids of the objects among the items; an id that cannot be hashed raises.\<close>

definition hashable :: "json \<Rightarrow> bool" where
  "hashable v = (case v of JArr _ \<Rightarrow> False | JObj _ \<Rightarrow> False | _ \<Rightarrow> True)"

definition type_name :: "json \<Rightarrow> string" where
  "type_name v = (case v of JArr _ \<Rightarrow> ''list'' | _ \<Rightarrow> ''dict'')"

definition ids_in :: "json list \<Rightarrow> cycle_error + json list" where
  "ids_in items =
     (let ids = List.map_filter (\<lambda>v. case v of JObj d \<Rightarrow> Some (field d ''id'') | _ \<Rightarrow> None) items
      in case find (\<lambda>v. \<not> hashable v) ids of
           None \<Rightarrow> Inr ids
         | Some v \<Rightarrow> Inl (CycleTypeError (''unhashable type: '' @ repr_str (type_name v))))"

text \<open>Distinct as keys of a set: by \<open>==\<close>.\<close>

fun py_distinct :: "json list \<Rightarrow> bool" where
  "py_distinct [] = True"
| "py_distinct (v # vs) \<longleftrightarrow> \<not> list_ex (py_eq v) vs \<and> py_distinct vs"

definition accounts_for :: "string set \<Rightarrow> json list \<Rightarrow> json list \<Rightarrow> bool" where
  "accounts_for expected source_ids invalid_ids \<longleftrightarrow>
     list_all (\<lambda>v. \<not> list_ex (py_eq v) invalid_ids) source_ids \<and> set (source_ids @ invalid_ids) = JStr ` expected"

definition source_keys :: "string list" where
  "source_keys = [''id'', ''split'', ''requested_url'', ''final_url'', ''bytes'', ''content_sha256'', ''identity_markers'', ''redistribution'',
     ''status'']"

definition https_text :: "json \<Rightarrow> bool" where
  "https_text v = (case v of JStr s \<Rightarrow> starts_with ''https://'' s | _ \<Rightarrow> False)"

definition digest_like :: "json \<Rightarrow> bool" where
  "digest_like v = (case v of JStr s \<Rightarrow> is_hex 64 s | JInt i \<Rightarrow> is_hex 64 (int_str i) | _ \<Rightarrow> False)"

definition size_like :: "json \<Rightarrow> bool" where
  "size_like v = (case v of JInt n \<Rightarrow> 8 \<le> n \<and> n \<le> 67108864 | _ \<Rightarrow> False)"

text \<open>One iteration over the sources: the final addresses and the digests so far.\<close>

definition check_source :: "json list \<times> json list \<Rightarrow> json \<Rightarrow> cycle_error + json list \<times> json list" where
  "check_source seen v = (case seen of (urls, digests) \<Rightarrow> (case v of
     JObj d \<Rightarrow>
       if \<not> fields_are source_keys d then Inl (SourceSealError ''sealed source record keys are invalid'')
       else if \<not> https_text (field d ''requested_url'') \<or> \<not> https_text (field d ''final_url'') \<or> \<not> size_like (field d ''bytes'') \<or>
         \<not> digest_like (field d ''content_sha256'') \<or> field d ''redistribution'' \<noteq> JStr ''download_only'' \<or>
         field d ''status'' \<noteq> JStr ''sealed''
       then Inl (SourceSealError ''sealed source record is invalid'')
       else if field d ''final_url'' \<in> set urls \<or> field d ''content_sha256'' \<in> set digests
       then Inl (SourceSealError ''distinct families resolved to duplicate official source bytes or URL'')
       else Inr (urls @ [field d ''final_url''], digests @ [field d ''content_sha256''])
   | _ \<Rightarrow> Inl (SourceSealError ''sealed source record keys are invalid'')))"

definition validate_source_manifest :: "(bytes \<Rightarrow> string) \<Rightarrow> (pyfloat \<Rightarrow> string) \<Rightarrow> string set \<Rightarrow> json \<Rightarrow> cycle_error + unit" where
  "validate_source_manifest sha frepr expected v = (case v of
     JObj d \<Rightarrow>
       if \<not> fields_are manifest_keys d \<or> field d ''schema_version'' \<noteq> JStr SOURCE_MANIFEST_VERSION
       then Inl (SourceSealError ''source manifest keys or version are invalid'')
       else (case (field d ''sources'', field d ''invalidations'') of
         (JArr sources, JArr invalidations) \<Rightarrow>
           bindE (ids_in sources) (\<lambda>source_ids.
           bindE (ids_in invalidations) (\<lambda>invalid_ids.
           if \<not> accounts_for expected source_ids invalid_ids
           then Inl (SourceSealError ''source manifest does not account for each registered family exactly once'')
           else if \<not> py_distinct source_ids \<or> length source_ids \<noteq> length sources \<or> \<not> py_distinct invalid_ids \<or>
             length invalid_ids \<noteq> length invalidations
           then Inl (SourceSealError ''source manifest contains duplicate family records'')
           else bindE (foldE check_source ([], []) sources) (\<lambda>_.
             if field d ''complete'' \<noteq> JBool (set source_ids = JStr ` expected \<and> invalidations = [])
             then Inl (SourceSealError ''source manifest completion flag is inconsistent'')
             else if JStr (manifest_sha256 sha frepr d) \<noteq> field d ''manifest_sha256''
             then Inl (SourceSealError ''source manifest digest is invalid'')
             else Inr ())))
       | _ \<Rightarrow> Inl (SourceSealError ''source manifest accounting is invalid''))
   | _ \<Rightarrow> Inl (SourceSealError ''source manifest must be an object''))"

text \<open>The acquisition's limits; values of other types, or missing ones, raise where they are used.\<close>

definition acquisition_limits :: "(string \<times> json) list \<Rightarrow> cycle_error + int \<times> int" where
  "acquisition_limits d = (case field d ''acquisition'' of
     JObj a \<Rightarrow> (case (field a ''allowed_redirects'', field a ''maximum_pdf_bytes'') of
         (JInt redirects, JInt maximum) \<Rightarrow> Inr (redirects, maximum)
       | _ \<Rightarrow> Inl (CycleEscape ''KeyError''))
   | _ \<Rightarrow> Inl (CycleEscape ''TypeError''))"

definition acquire_source_manifest :: "source_env \<Rightarrow> string set \<Rightarrow> nat \<Rightarrow> rat \<Rightarrow> source_cache \<Rightarrow> json \<Rightarrow>
    cycle_error + json \<times> acquisition" where
  "acquire_source_manifest e consumed attempts delay cache v =
     bindE (load_retrieval_preregistration (se_bracket_ok e) (se_sha e) (se_frepr e) consumed v) (\<lambda>plan.
     if map_of FROZEN_PLAN_DIGESTS (pr_plan_id plan) \<noteq> Some (pr_sha256 plan)
     then Inl (SourceSealError ''refusing an altered or unrecognized retrieval cycle plan'')
     else (case v of JObj d \<Rightarrow>
       bindE (acquisition_limits d) (\<lambda>(redirects, maximum).
       if attempts < 1 \<or> 5 < attempts then Inl (SourceSealError ''source attempts must be within 1..=5'')
       else if delay < 0 \<or> 60 < delay then Inl (SourceSealError ''source retry delay must be within 0..=60 seconds'')
       else bindE (plan_families (se_bracket_ok e) consumed d) (\<lambda>fams.
         bindE (foldE (acquire_family e redirects maximum attempts) \<lparr>aq_sources = [], aq_invalidations = [], aq_cache = cache\<rparr> fams) (\<lambda>a.
         let body = manifest_body plan a; manifest = JObj (body @ [(''manifest_sha256'', JStr (manifest_sha256 (se_sha e) (se_frepr e) body))])
         in bindE (validate_source_manifest (se_sha e) (se_frepr e) (set (pr_family_ids plan)) manifest) (\<lambda>_. Inr (manifest, a)))))
     | _ \<Rightarrow> Inl (CycleEscape ''TypeError'')))"

definition write_manifest_atomic :: "source_env \<Rightarrow> path \<Rightarrow> (string \<times> json) list \<Rightarrow> filesystem \<Rightarrow> cycle_error + filesystem" where
  "write_manifest_atomic e destination d fs =
     (if map_of d ''manifest_sha256'' \<noteq> Some (JStr (manifest_sha256 (se_sha e) (se_frepr e) d))
      then Inl (SourceSealError ''source manifest digest is invalid'')
      else Inr (AList.update destination (utf8_encode (dumps_indent True (se_frepr e) 0 (JObj d) @ [char_of (10::nat)])) fs))"

subsection \<open>A valid manifest accounts for every family once\<close>

lemma strings_distinct: "set vs \<subseteq> range JStr \<Longrightarrow> py_distinct vs \<longleftrightarrow> distinct vs"
proof (induction vs)
  case (Cons v vs)
  then obtain s where "v = JStr s" by auto
  then have "list_ex (py_eq v) vs \<longleftrightarrow> v \<in> set vs" by (auto simp: list_ex_iff)
  with Cons show ?case by simp
qed simp

lemma accounts_distinct:
  assumes "accounts_for expected xs ys" and "py_distinct xs" and "py_distinct ys"
  shows "distinct (xs @ ys) \<and> set (xs @ ys) = JStr ` expected"
proof -
  have set: "set (xs @ ys) = JStr ` expected" using assms(1) by (simp add: accounts_for_def)
  then have strs: "set xs \<subseteq> range JStr" "set ys \<subseteq> range JStr" by auto
  have "x \<notin> set ys" if x: "x \<in> set xs" for x
  proof -
    from x strs(1) obtain s where "x = JStr s" by auto
    moreover have "\<not> list_ex (py_eq x) ys" using assms(1) x by (auto simp: accounts_for_def list_all_iff)
    ultimately show ?thesis by (auto simp: list_ex_iff)
  qed
  then have "set xs \<inter> set ys = {}" by blast
  with set assms(2,3) strs show ?thesis by (simp add: strings_distinct)
qed

definition source_record_ok :: "json \<Rightarrow> bool" where
  "source_record_ok v \<longleftrightarrow> (case v of JObj d \<Rightarrow> fields_are source_keys d \<and> https_text (field d ''requested_url'') \<and>
     https_text (field d ''final_url'') \<and> size_like (field d ''bytes'') \<and> digest_like (field d ''content_sha256'') \<and>
     field d ''status'' = JStr ''sealed'' | _ \<Rightarrow> False)"

definition of_object :: "string \<Rightarrow> json \<Rightarrow> json" where
  "of_object k v = (case v of JObj d \<Rightarrow> field d k | _ \<Rightarrow> JNull)"

text \<open>The sources seen so far have sound records, and their addresses and digests are all different.\<close>

lemma check_source_ok:
  "check_source (us, ds) v = Inr seen' \<longleftrightarrow> source_record_ok v \<and> of_object ''redistribution'' v = JStr ''download_only'' \<and>
     of_object ''final_url'' v \<notin> set us \<and> of_object ''content_sha256'' v \<notin> set ds \<and>
     seen' = (us @ [of_object ''final_url'' v], ds @ [of_object ''content_sha256'' v])"
  by (cases v) (auto simp: check_source_def source_record_ok_def of_object_def)

lemma check_sources_ok:
  "foldE check_source (us, ds) vs = Inr seen' \<Longrightarrow> distinct us \<Longrightarrow> distinct ds \<Longrightarrow>
     list_all source_record_ok vs \<and> distinct (us @ map (of_object ''final_url'') vs) \<and> distinct (ds @ map (of_object ''content_sha256'') vs)"
proof (induction vs arbitrary: us ds)
  case (Cons v vs)
  obtain us' ds' where step: "check_source (us, ds) v = Inr (us', ds')" and rest: "foldE check_source (us', ds') vs = Inr seen'"
    using Cons.prems(1) by auto
  from step have v: "source_record_ok v" "us' = us @ [of_object ''final_url'' v]" "ds' = ds @ [of_object ''content_sha256'' v]"
    "of_object ''final_url'' v \<notin> set us" "of_object ''content_sha256'' v \<notin> set ds" by (simp_all add: check_source_ok)
  with Cons.IH [OF rest] Cons.prems show ?case by simp
qed simp

lemma ids_in_objects:
  assumes "ids_in items = Inr ids" and "length ids = length items"
  shows "ids = map (of_object ''id'') items"
proof -
  let ?id = "\<lambda>v. case v of JObj d \<Rightarrow> Some (field d ''id'') | _ \<Rightarrow> None"
  have le: "length (List.map_filter ?id vs) \<le> length vs" for vs
    by (induction vs) (auto simp: map_filter_simps split: option.split)
  have "length (List.map_filter ?id vs) = length vs \<Longrightarrow> List.map_filter ?id vs = map (of_object ''id'') vs" for vs
  proof (induction vs)
    case (Cons v vs)
    then show ?case using le [of vs] by (cases v) (auto simp: map_filter_simps of_object_def)
  qed (simp add: map_filter_simps)
  with assms show ?thesis by (simp add: ids_in_def Let_def split: option.splits)
qed

lemma valid_manifest:
  assumes "validate_source_manifest sha frepr expected v = Inr u"
  shows "\<exists>d sources invalidations. v = JObj d \<and> field d ''sources'' = JArr sources \<and> field d ''invalidations'' = JArr invalidations \<and>
    distinct (map (of_object ''id'') (sources @ invalidations)) \<and> set (map (of_object ''id'') (sources @ invalidations)) = JStr ` expected \<and>
    field d ''complete'' = JBool (invalidations = []) \<and> list_all source_record_ok sources \<and>
    distinct (map (of_object ''final_url'') sources) \<and> distinct (map (of_object ''content_sha256'') sources) \<and>
    field d ''manifest_sha256'' = JStr (manifest_sha256 sha frepr d)"
proof -
  from assms obtain d sources invalidations xs ys seen where v: "v = JObj d" "field d ''sources'' = JArr sources"
    "field d ''invalidations'' = JArr invalidations" "ids_in sources = Inr xs" "ids_in invalidations = Inr ys"
    "accounts_for expected xs ys" "py_distinct xs" "length xs = length sources" "py_distinct ys" "length ys = length invalidations"
    "foldE check_source ([], []) sources = Inr seen"
    "field d ''complete'' = JBool (set xs = JStr ` expected \<and> invalidations = [])" "field d ''manifest_sha256'' = JStr (manifest_sha256 sha frepr d)"
    by (auto simp: validate_source_manifest_def split: json.splits if_splits)
  have ids: "xs = map (of_object ''id'') sources" "ys = map (of_object ''id'') invalidations"
    using ids_in_objects v(4,5,8,10) by blast+
  have acc: "distinct (xs @ ys)" "set (xs @ ys) = JStr ` expected" using accounts_distinct v(6,7,9) by blast+
  have "(set xs = JStr ` expected \<and> invalidations = []) \<longleftrightarrow> invalidations = []" using acc(2) ids(2) by auto
  then have "field d ''complete'' = JBool (invalidations = [])" using v(12) by simp
  then show ?thesis using v(1-3,13) acc check_sources_ok [OF v(11)] unfolding ids map_append by auto
qed

text \<open>
  A valid source manifest accounts for every registered family exactly once, as a sealed source or as an invalidation;
  it claims completeness exactly when nothing is invalidated, its sources have HTTPS addresses and sizes within bounds, no two
  of them share an address or a digest, and its own digest is that of its content.
\<close>

theorem manifest_accounts_for_families:
  assumes "validate_source_manifest sha frepr expected v = Inr u"
  shows "\<exists>d sources invalidations. v = JObj d \<and> field d ''sources'' = JArr sources \<and> field d ''invalidations'' = JArr invalidations \<and>
    distinct (map (of_object ''id'') (sources @ invalidations)) \<and> set (map (of_object ''id'') (sources @ invalidations)) = JStr ` expected \<and>
    field d ''complete'' = JBool (invalidations = []) \<and> list_all source_record_ok sources \<and>
    distinct (map (of_object ''final_url'') sources) \<and> distinct (map (of_object ''content_sha256'') sources) \<and>
    field d ''manifest_sha256'' = JStr (manifest_sha256 sha frepr d)"
  by (rule valid_manifest [OF assms])

subsection \<open>What an acquisition has verified\<close>

text \<open>A sealed source stands for bytes of the cache: a PDF within the limits whose text names the family.\<close>

definition verified_source :: "source_env \<Rightarrow> int \<Rightarrow> source_cache \<Rightarrow> sealed_source \<Rightarrow> bool" where
  "verified_source e maximum cache s \<longleftrightarrow> (\<exists>payload. map_of cache (ss_sha256 s) = Some payload \<and> ss_sha256 s = se_sha e payload \<and>
     ss_bytes s = int (length payload) \<and> 8 \<le> length payload \<and> int (length payload) \<le> maximum \<and> starts_with ''%PDF-'' payload \<and>
     verify_pdf_identity (se_reader e) payload (ss_family s) = Inr (ss_markers s) \<and> ss_markers s \<noteq> [])"

lemma received: "foldE (receive f maximum) got chunks = Inr payload \<Longrightarrow> chunks \<noteq> [] \<Longrightarrow> int (length payload) \<le> maximum"
proof (induction chunks arbitrary: got)
  case (Cons c cs)
  then obtain g where step: "receive f maximum got c = Inr g" and rest: "foldE (receive f maximum) g cs = Inr payload" by auto
  show ?case
  proof (cases cs)
    case Nil
    with step rest show ?thesis by (auto simp: receive_def seal_error_def split: if_splits)
  next
    case (Cons a as)
    with Cons.IH [OF rest] show ?thesis by simp
  qed
qed simp

lemma fetched_payload:
  assumes "fetch_payload e redirects maximum f r = Inr payload"
  shows "8 \<le> length payload \<and> int (length payload) \<le> maximum \<and> starts_with ''%PDF-'' payload"
proof -
  from assms have got: "foldE (receive f maximum) [] (re_chunks r) = Inr payload" "8 \<le> length payload" "starts_with ''%PDF-'' payload"
    by (auto simp: fetch_payload_def seal_error_def split: if_splits)
  then have "re_chunks r \<noteq> []" by auto
  with received [OF got(1)] got show ?thesis by simp
qed

lemma identity_matched: "verify_pdf_identity reader payload f = Inr matched \<Longrightarrow> matched \<noteq> []"
  by (auto simp: verify_pdf_identity_def seal_error_def Let_def split: if_splits option.splits)

definition extends :: "source_cache \<Rightarrow> source_cache \<Rightarrow> bool" where
  "extends cache cache' \<longleftrightarrow> (\<forall>k p. map_of cache k = Some p \<longrightarrow> map_of cache' k = Some p)"

lemma extends_refl [simp]: "extends cache cache"
  by (simp add: extends_def)

lemma extends_trans: "extends a b \<Longrightarrow> extends b c \<Longrightarrow> extends a c"
  by (simp add: extends_def)

lemma verified_extends: "verified_source e maximum cache s \<Longrightarrow> extends cache cache' \<Longrightarrow> verified_source e maximum cache' s"
  unfolding verified_source_def extends_def by metis

lemma downloaded:
  assumes "download_one e redirects maximum cache f fetched = Inr (s, cache')"
  shows "verified_source e maximum cache' s \<and> ss_family s = f \<and> extends cache cache'"
proof -
  from assms obtain r where r: "fetched = Some r" by (auto simp: download_one_def seal_error_def split: option.splits)
  from assms obtain payload matched where p: "fetch_payload e redirects maximum f r = Inr payload"
    "verify_pdf_identity (se_reader e) payload f = Inr matched"
    and fin: "(let digest = se_sha e payload;
           s = \<lparr>ss_family = f, ss_final_url = re_final_url r, ss_bytes = int (length payload), ss_sha256 = digest, ss_markers = matched\<rparr>
       in case map_of cache digest of
         None \<Rightarrow> Inr (s, AList.update digest payload cache)
       | Some old \<Rightarrow> if old \<noteq> payload then seal_error f ''digest collision in local cache'' else Inr (s, cache)) = Inr (s, cache')"
    unfolding download_one_def r option.case bindE_eq_Inr by blast
  have s: "s = \<lparr>ss_family = f, ss_final_url = re_final_url r, ss_bytes = int (length payload), ss_sha256 = se_sha e payload, ss_markers = matched\<rparr>"
    and cache: "map_of cache (se_sha e payload) = None \<and> cache' = AList.update (se_sha e payload) payload cache \<or>
      map_of cache (se_sha e payload) = Some payload \<and> cache' = cache"
    using fin by (auto simp: Let_def seal_error_def split: option.splits if_splits)
  have "extends cache cache'" using cache by (auto simp: extends_def update_conv')
  moreover have "map_of cache' (se_sha e payload) = Some payload" using cache by (auto simp: update_conv')
  ultimately show ?thesis using fetched_payload [OF p(1)] p(2) identity_matched [OF p(2)] by (simp add: verified_source_def s)
qed

lemma tried:
  "try_source e redirects maximum cache f attempt remaining = Inr (Inr (s, cache')) \<Longrightarrow>
     verified_source e maximum cache' s \<and> ss_family s = f \<and> extends cache cache'"
proof (induction remaining arbitrary: attempt)
  case 0
  then show ?case by (auto split: sum.splits cycle_error.splits dest: downloaded)
next
  case (Suc n)
  from Suc.prems show ?case
    by (subst (asm) try_source.simps) (auto simp del: try_source.simps split: sum.splits cycle_error.splits dest: downloaded Suc.IH)
qed

definition acquired :: "source_env \<Rightarrow> int \<Rightarrow> source_cache \<Rightarrow> family list \<Rightarrow> acquisition \<Rightarrow> bool" where
  "acquired e maximum cache fams a \<longleftrightarrow> list_all (verified_source e maximum (aq_cache a)) (aq_sources a) \<and>
     mset (map ss_family (aq_sources a) @ map fst (aq_invalidations a)) = mset fams \<and> extends cache (aq_cache a)"

lemma acquire_family_step:
  assumes "acquired e maximum cache fams a" and "acquire_family e redirects maximum attempts a f = Inr a'"
  shows "acquired e maximum cache (fams @ [f]) a'"
proof -
  from assms(2) obtain outcome where o: "try_source e redirects maximum (aq_cache a) f 1 (attempts - 1) = Inr outcome"
    and a': "(case outcome of Inl reason \<Rightarrow> Inr (a\<lparr>aq_invalidations := aq_invalidations a @ [(f, reason)]\<rparr>)
       | Inr (s, c) \<Rightarrow> Inr (a\<lparr>aq_sources := aq_sources a @ [s], aq_cache := c\<rparr>)) = (Inr a' :: cycle_error + acquisition)"
    unfolding acquire_family_def by (simp only: bindE_eq_Inr) blast
  show ?thesis
  proof (cases outcome)
    case (Inl reason)
    with a' assms(1) show ?thesis by (auto simp: acquired_def)
  next
    case (Inr got)
    obtain s c where d: "got = (s, c)" by (cases got)
    from tried [OF o [unfolded Inr d]] have s: "verified_source e maximum c s" "ss_family s = f" "extends (aq_cache a) c" by blast+
    have "list_all (verified_source e maximum c) (aq_sources a)"
      using assms(1) s(3) verified_extends by (auto simp: acquired_def list_all_iff)
    with a' assms(1) s show ?thesis by (auto simp: acquired_def Inr d intro: extends_trans)
  qed
qed

lemma acquire_all:
  "foldE (acquire_family e redirects maximum attempts) a fs = Inr a' \<Longrightarrow> acquired e maximum cache fams a \<Longrightarrow>
     acquired e maximum cache (fams @ fs) a'"
proof (induction fs arbitrary: a fams)
  case (Cons f fs)
  then obtain b where b: "acquire_family e redirects maximum attempts a f = Inr b" and rest: "foldE (acquire_family e redirects maximum attempts) b fs = Inr a'"
    by auto
  from Cons.IH [OF rest acquire_family_step [OF Cons.prems(2) b]] show ?case by simp
qed simp


end
