(* ===== verification/Authoring.thy ===== *)
theory Authoring
  imports SourceSeal Pipeline
begin

section \<open>Authoring and its seal\<close>

text \<open>
  \<open>src/dsvire/retrieval_authoring.py\<close>: the packet that shows the authors the sealed sources without splits or scores, the
  submission of regions and queries, the review, and the seal that authorises access to scores. The renderer, SHA-256 and the
  decimal form of a float are those of \<open>engine\<close>; \<open>bracket_ok\<close> is the library's check of a bracketed host. The record of a
  review is what the code host's interface returns for it: its body is a text or null, its login a text.
\<close>

definition PACKET_VERSION :: string where "PACKET_VERSION = ''dsvire.retrieval-authoring-packet.v1''"
definition SUBMISSION_VERSION :: string where "SUBMISSION_VERSION = ''dsvire.retrieval-authoring-submission.v1''"
definition REVIEW_VERSION :: string where "REVIEW_VERSION = ''dsvire.retrieval-authoring-review.v1''"
definition SEAL_VERSION :: string where "SEAL_VERSION = ''dsvire.retrieval-authoring-seal.v1''"

definition REGION_TYPES :: "string list" where "REGION_TYPES = [''pinout'', ''table'', ''package'']"

definition COVERAGE_INTENTS :: "string list" where
  "COVERAGE_INTENTS = [''pinout'', ''package'', ''timing'', ''curve'', ''block'', ''app_circuit'', ''table'', ''other'']"

definition NEGATIVE_KINDS :: "string list" where
  "NEGATIVE_KINDS = [''wrong_intent'', ''wrong_package'', ''wrong_variant'', ''wrong_view'']"

definition login_char :: "char \<Rightarrow> bool" where
  "login_char c \<longleftrightarrow> ascii_alnum c \<or> c = CHR ''-''"

definition human_identity :: rx where
  "human_identity = sequence [lit ''github:'', One ascii_alnum, Run login_char 0 (Some 38)]"

definition case_token :: rx where
  "case_token = sequence [choice [ilit ''case'', ilit ''region'', ilit ''query''], Perhaps (One (any_of ''-_'')), Run ascii_alnum 1 None]"

definition REQUIREMENTS :: json where
  "REQUIREMENTS = JObj
     [(''positive_region_types'', JArr (map JStr REGION_TYPES)), (''hard_negative_kinds'', JArr (map JStr NEGATIVE_KINDS)),
      (''minimum_hard_negatives_per_document'', JInt 4), (''manual_queries_per_intent_per_document'', JInt 2),
      (''annotation_review'', JStr ''distinct independent human, blinded to all model scores''),
      (''query_review'', JStr ''distinct independent human, blinded to all model scores''),
      (''prohibited'', JArr (map JStr [''model-generated queries'', ''template-only queries'', ''labels or case IDs in query text'',
         ''score access before final seal'']))]"

subsection \<open>Checks\<close>

definition author_text :: "string \<Rightarrow> json \<Rightarrow> cycle_error + string" where
  "author_text = nonempty_text AuthoringError"

definition author_keys :: "string list \<Rightarrow> (string \<times> json) list \<Rightarrow> string \<Rightarrow> cycle_error + unit" where
  "author_keys required_keys d part = strict_keys AuthoringError part required_keys d"

definition author_digest :: "string \<Rightarrow> json \<Rightarrow> cycle_error + string" where
  "author_digest part v = bindE (author_text part v) (\<lambda>s.
     if is_hex 64 s then Inr s else Inl (AuthoringError (part @ '' must be lowercase SHA-256'')))"

definition author_human :: "string \<Rightarrow> json \<Rightarrow> cycle_error + string" where
  "author_human part v = bindE (author_text part v) (\<lambda>s.
     if rx_fullmatch human_identity s then Inr s else Inl (AuthoringError (part @ '' must be a github:<human> identity'')))"

definition without_digest :: "string \<Rightarrow> (string \<times> json) list \<Rightarrow> (string \<times> json) list" where
  "without_digest key d = filter (\<lambda>(k, _). k \<noteq> key) d"

definition author_sha :: "engine \<Rightarrow> (string \<times> json) list \<Rightarrow> string" where
  "author_sha e d = canonical_sha (en_sha e) (en_frepr e) (JObj d)"

definition author_object :: "string \<Rightarrow> json \<Rightarrow> cycle_error + (string \<times> json) list" where
  "author_object message v = (case v of JObj d \<Rightarrow> Inr d | _ \<Rightarrow> Inl (AuthoringError message))"

definition author_array :: "string \<Rightarrow> json \<Rightarrow> cycle_error + json list" where
  "author_array message v = (case v of JArr xs \<Rightarrow> Inr xs | _ \<Rightarrow> Inl (AuthoringError message))"

subsection \<open>The packet\<close>

definition page_box :: "raw_page \<Rightarrow> box" where
  "page_box p = (0, 0, rp_width p, rp_height p)"

definition render_page :: "engine \<Rightarrow> raw_page option list \<Rightarrow> nat \<Rightarrow> cycle_error + json" where
  "render_page e document i = (case bindE (load_page document i) (\<lambda>p. bindE (render_png (en_png e) p (page_box p) 96) (\<lambda>png. Inr (p, png))) of
     Inl _ \<Rightarrow> Inl (CycleEscape ''PdfBackendError'')
   | Inr (p, png) \<Rightarrow> Inr (JObj [(''page'', JInt (int i + 1)), (''width_points'', JFloat (Flt (round_digits 3 (rp_width p)))),
       (''height_points'', JFloat (Flt (round_digits 3 (rp_height p)))), (''render_sha256'', JStr (en_sha e png))]))"

definition render_document :: "engine \<Rightarrow> bytes \<Rightarrow> cycle_error + json list" where
  "render_document e payload = (case open_document payload (en_open e payload) of
     Inl _ \<Rightarrow> Inl (CycleEscape ''PdfBackendError'')
   | Inr document \<Rightarrow> mapE (render_page e document) [0..<length document])"

text \<open>\<open>{str(source.get("id")): source for source in sources}\<close>.\<close>

definition str_of :: "(pyfloat \<Rightarrow> string) \<Rightarrow> json \<Rightarrow> string" where
  "str_of frepr v = (case v of JStr s \<Rightarrow> s | _ \<Rightarrow> repr_json frepr v)"

definition source_table :: "(pyfloat \<Rightarrow> string) \<Rightarrow> json list \<Rightarrow> cycle_error + (string \<times> json) list" where
  "source_table frepr sources =
     (if list_all (\<lambda>v. object_items v \<noteq> None) sources
      then Inr (dict_of (map (\<lambda>v. (str_of frepr (of_object ''id'' v), v)) sources))
      else Inl (CycleEscape ''AttributeError''))"

definition packet_document :: "engine \<Rightarrow> (string \<Rightarrow> bytes) \<Rightarrow> (string \<times> json) list \<Rightarrow> json \<Rightarrow> cycle_error + json" where
  "packet_document e loader table v =
     bindE (author_text ''family.id'' (of_object ''id'' v)) (\<lambda>i.
     case map_of table i of
       None \<Rightarrow> Inl (AuthoringError (i @ '': exact source is not sealed''))
     | Some source \<Rightarrow>
         if of_object ''status'' source \<noteq> JStr ''sealed'' then Inl (AuthoringError (i @ '': exact source is not sealed''))
         else
         bindE (author_digest (i @ ''.source_sha256'') (of_object ''content_sha256'' source)) (\<lambda>digest.
         if en_sha e (loader digest) \<noteq> digest then Inl (AuthoringError (i @ '': source SHA-256 mismatch''))
         else
         bindE (render_document e (loader digest)) (\<lambda>pages.
         bindE (author_text (i @ ''.manufacturer'') (of_object ''manufacturer'' v)) (\<lambda>manufacturer.
         bindE (author_text (i @ ''.datasheet_identity'') (of_object ''datasheet_identity'' v)) (\<lambda>identity.
         bindE (author_text (i @ ''.selected_mpn'') (of_object ''selected_mpn'' v)) (\<lambda>mpn.
         bindE (author_text (i @ ''.selected_package'') (of_object ''selected_package'' v)) (\<lambda>package.
         Inr (JObj [(''id'', JStr i), (''manufacturer'', JStr manufacturer), (''datasheet_identity'', JStr identity),
           (''selected_mpn'', JStr mpn), (''selected_package'', JStr package), (''source_sha256'', JStr digest), (''pages'', JArr pages)]))))))))"

definition packet_payload :: "engine \<Rightarrow> string \<Rightarrow> string \<Rightarrow> string \<Rightarrow> json list \<Rightarrow> (string \<times> json) list" where
  "packet_payload e plan_id plan_sha manifest_sha documents =
     [(''schema_version'', JStr PACKET_VERSION), (''plan_id'', JStr plan_id), (''plan_sha256'', JStr plan_sha),
      (''source_manifest_sha256'', JStr manifest_sha), (''renderer'', JStr (en_backend e)), (''requirements'', REQUIREMENTS),
      (''documents'', JArr documents)]"

definition build_authoring_packet :: "engine \<Rightarrow> (string \<Rightarrow> bool) \<Rightarrow> (string \<Rightarrow> bytes) \<Rightarrow> (string \<times> json) list \<Rightarrow>
    (string \<times> json) list \<Rightarrow> cycle_error + (string \<times> json) list" where
  "build_authoring_packet e bracket_ok loader plan manifest =
     (if \<not> truthy (field manifest ''complete'') \<or> truthy (field manifest ''invalidations'')
      then Inl (AuthoringError ''source manifest must be complete and uninvalidated'')
      else
      bindE (author_text ''plan.plan_id'' (field plan ''plan_id'')) (\<lambda>plan_id.
      case map_of FROZEN_PLAN_DIGESTS plan_id of
        None \<Rightarrow> Inl (AuthoringError ''authoring packet requires an explicitly frozen plan'')
      | Some frozen \<Rightarrow>
      bindE (load_retrieval_preregistration bracket_ok (en_sha e) (en_frepr e) {} (JObj plan)) (\<lambda>registered.
      if pr_sha256 registered \<noteq> frozen
      then Inl (AuthoringError ''pre-registration bytes differ from the frozen plan digest'')
      else if field manifest ''plan_id'' \<noteq> JStr plan_id
      then Inl (AuthoringError ''source manifest plan does not match'')
      else if field manifest ''plan_sha256'' \<noteq> JStr frozen
      then Inl (AuthoringError ''source manifest does not bind the frozen plan digest'')
      else if field manifest ''manifest_sha256'' \<noteq> JStr (manifest_sha256 (en_sha e) (en_frepr e) manifest)
      then Inl (AuthoringError ''source manifest digest mismatch'')
      else (case (field plan ''families'', field manifest ''sources'') of
        (JArr families, JArr sources) \<Rightarrow>
          bindE (source_table (en_frepr e) sources) (\<lambda>table.
          if length table \<noteq> length sources then Inl (AuthoringError ''source manifest contains duplicate family IDs'')
          else
          bindE (mapE (packet_document e loader table) families) (\<lambda>documents.
          if set (map fst table) \<noteq> set (map (\<lambda>v. text_of (of_object ''id'' v)) documents)
          then Inl (AuthoringError ''source manifest contains families outside the frozen plan'')
          else
          bindE (author_digest ''manifest.plan_sha256'' (field manifest ''plan_sha256'')) (\<lambda>plan_sha.
          bindE (author_digest ''manifest.manifest_sha256'' (field manifest ''manifest_sha256'')) (\<lambda>manifest_sha.
          let payload = packet_payload e plan_id plan_sha manifest_sha documents
          in Inr (payload @ [(''packet_sha256'', JStr (author_sha e payload))])))))
      | _ \<Rightarrow> Inl (AuthoringError ''plan families and manifest sources must be arrays'')))))"

definition packet_keys :: "string list" where
  "packet_keys = [''schema_version'', ''plan_id'', ''plan_sha256'', ''source_manifest_sha256'', ''renderer'', ''requirements'', ''documents'',
     ''packet_sha256'']"

definition packet_document_keys :: "string list" where
  "packet_document_keys = [''id'', ''manufacturer'', ''datasheet_identity'', ''selected_mpn'', ''selected_package'', ''source_sha256'', ''pages'']"

text \<open>A number that is not a boolean and not \<open>\<le> 0\<close>; \<open>NaN\<close> is not.\<close>

definition positive_dimension :: "json \<Rightarrow> bool" where
  "positive_dimension v = (case v of JInt n \<Rightarrow> 0 < n | JFloat (Flt r) \<Rightarrow> 0 < r | JFloat NegInf \<Rightarrow> False | JFloat _ \<Rightarrow> True | _ \<Rightarrow> False)"

definition check_page :: "string \<Rightarrow> nat \<times> json \<Rightarrow> cycle_error + unit" where
  "check_page document_id item = (case item of (i, v) \<Rightarrow>
     bindE (author_object (document_id @ '': invalid page'') v) (\<lambda>d.
     bindE (author_keys [''page'', ''width_points'', ''height_points'', ''render_sha256''] d (document_id @ ''.page'')) (\<lambda>_.
     if \<not> py_eq (field d ''page'') (JInt (int i + 1)) then Inl (AuthoringError (document_id @ '': pages must be contiguous''))
     else if \<not> positive_dimension (field d ''width_points'') \<or> \<not> positive_dimension (field d ''height_points'')
     then Inl (AuthoringError (document_id @ '': page dimensions must be positive numbers''))
     else bindE (author_digest (document_id @ ''.page.render_sha256'') (field d ''render_sha256'')) (\<lambda>_. Inr ()))))"

text \<open>One iteration over the documents: the ids so far.\<close>

definition check_packet_document :: "string list \<Rightarrow> json \<Rightarrow> cycle_error + string list" where
  "check_packet_document ids v =
     bindE (author_object ''authoring packet document must be an object'' v) (\<lambda>d.
     bindE (author_keys packet_document_keys d ''authoring packet document'') (\<lambda>_.
     bindE (author_text ''authoring packet document.id'' (field d ''id'')) (\<lambda>i.
     if i \<in> set ids then Inl (AuthoringError ''duplicate authoring packet document'')
     else
     bindE (mapE (\<lambda>k. author_text (i @ ''.'' @ k) (field d k)) [''manufacturer'', ''datasheet_identity'', ''selected_mpn'', ''selected_package'']) (\<lambda>_.
     bindE (author_digest (i @ ''.source_sha256'') (field d ''source_sha256'')) (\<lambda>_.
     bindE (author_array (i @ '': pages must be non-empty'') (field d ''pages'')) (\<lambda>pages.
     if pages = [] then Inl (AuthoringError (i @ '': pages must be non-empty''))
     else bindE (mapE (check_page i) (enumerate 0 pages)) (\<lambda>_. Inr (ids @ [i]))))))))"

text \<open>\<open>json.dumps(value, sort_keys=True)\<close> with the default separators.\<close>

fun dumps_default :: "(pyfloat \<Rightarrow> string) \<Rightarrow> json \<Rightarrow> string" where
  "dumps_default frepr (JArr xs) = ''['' @ join '', '' (map (dumps_default frepr) xs) @ '']''"
| "dumps_default frepr (JObj d) =
     ''{'' @ join '', '' (map snd (sort_key fst (map (\<lambda>(k, v). (k, quote_str True k @ '': '' @ dumps_default frepr v)) d))) @ ''}''"
| "dumps_default frepr v = dumps True frepr v"

definition prohibited_fields :: "string list" where
  "prohibited_fields = [''split'', ''score'', ''threshold'', ''calibration'', ''evaluation'']"

definition exposed_fields :: "engine \<Rightarrow> (string \<times> json) list \<Rightarrow> string list" where
  "exposed_fields e d = filter (\<lambda>w. contains (quote_str True w) (casefold (dumps_default (en_frepr e) (JObj d)))) prohibited_fields"

definition check_packet_head :: "engine \<Rightarrow> (string \<times> json) list \<Rightarrow> cycle_error + unit" where
  "check_packet_head e d =
     bindE (author_keys packet_keys d ''authoring packet'') (\<lambda>_.
     if field d ''schema_version'' \<noteq> JStr PACKET_VERSION then Inl (AuthoringError ''unsupported authoring packet schema'')
     else
     bindE (author_text ''authoring packet.plan_id'' (field d ''plan_id'')) (\<lambda>_.
     bindE (author_text ''authoring packet.renderer'' (field d ''renderer'')) (\<lambda>_.
     if \<not> py_eq (field d ''requirements'') REQUIREMENTS
     then Inl (AuthoringError ''authoring packet requirements differ from frozen contract'')
     else
     bindE (author_digest ''authoring packet.plan_sha256'' (field d ''plan_sha256'')) (\<lambda>_.
     bindE (author_digest ''authoring packet.source_manifest_sha256'' (field d ''source_manifest_sha256'')) (\<lambda>_.
     bindE (author_digest ''authoring packet.packet_sha256'' (field d ''packet_sha256'')) (\<lambda>digest.
     if author_sha e (without_digest ''packet_sha256'' d) \<noteq> digest then Inl (AuthoringError ''authoring packet digest mismatch'')
     else Inr ()))))))"

definition load_authoring_packet :: "engine \<Rightarrow> json \<Rightarrow> cycle_error + (string \<times> json) list" where
  "load_authoring_packet e v =
     bindE (author_object ''authoring packet must be an object'' v) (\<lambda>d.
     bindE (check_packet_head e d) (\<lambda>_.
     bindE (author_array ''authoring packet must contain twelve documents'' (field d ''documents'')) (\<lambda>documents.
     if length documents \<noteq> 12 then Inl (AuthoringError ''authoring packet must contain twelve documents'')
     else
     bindE (foldE check_packet_document [] documents) (\<lambda>_.
     case exposed_fields e d of
       w # _ \<Rightarrow> Inl (AuthoringError (''authoring packet exposes prohibited field: '' @ w))
     | [] \<Rightarrow> Inr d))))"

definition submission_template :: "engine \<Rightarrow> json \<Rightarrow> cycle_error + (string \<times> json) list" where
  "submission_template e packet =
     bindE (load_authoring_packet e packet) (\<lambda>d.
     Inr [(''schema_version'', JStr SUBMISSION_VERSION), (''packet_sha256'', field d ''packet_sha256''),
       (''author'', JStr ''github:REPLACE_WITH_HUMAN_AUTHOR''),
       (''manual_query_attestation'', JStr ''REPLACE_WITH_EXPLICIT_HUMAN_ATTESTATION''),
       (''documents'', JArr (map (\<lambda>v. JObj [(''id'', of_object ''id'' v), (''regions'', JArr []), (''queries'', JArr [])])
          (case field d ''documents'' of JArr documents \<Rightarrow> documents | _ \<Rightarrow> []))),
       (''submission_sha256'', JStr ''RECOMPUTED_BY_SEAL_COMMAND'')])"

subsection \<open>The submission\<close>

text \<open>What the loops keep of a region and of a query: ids, kinds and intents, the normalised text and the linked regions.\<close>

record region_mark =
  rm_id :: string
  rm_kind :: string
  rm_intent :: string

record query_mark =
  qm_id :: string
  qm_intent :: string
  qm_text :: string
  qm_relevant :: "string list"
  qm_negative :: "string list"

record document_marks =
  dm_id :: string
  dm_regions :: "region_mark list"
  dm_queries :: "query_mark list"

definition on_page :: "nat \<Rightarrow> json \<Rightarrow> bool" where
  "on_page page_count v = (case v of JInt n \<Rightarrow> 1 \<le> n \<and> n \<le> int page_count | JBool b \<Rightarrow> b \<and> 1 \<le> page_count | _ \<Rightarrow> False)"

definition plain_number :: "json \<Rightarrow> pyfloat option" where
  "plain_number v = (case v of JBool _ \<Rightarrow> None | _ \<Rightarrow> num_val v)"

definition unit_box :: "json \<Rightarrow> bool" where
  "unit_box v = (case v of
     JArr xs \<Rightarrow> (case map plain_number xs of
       [Some (Flt x0), Some (Flt y0), Some (Flt x1), Some (Flt y1)] \<Rightarrow> 0 \<le> x0 \<and> x0 < x1 \<and> x1 \<le> 1 \<and> 0 \<le> y0 \<and> y0 < y1 \<and> y1 \<le> 1
     | _ \<Rightarrow> False)
   | _ \<Rightarrow> False)"

definition REGION_VIEWS :: "string list" where
  "REGION_VIEWS = [''top'', ''bottom'', ''not_applicable'', ''unknown'']"

definition check_region :: "string \<Rightarrow> nat \<Rightarrow> region_mark list \<Rightarrow> json \<Rightarrow> cycle_error + region_mark list" where
  "check_region document_id page_count marks v =
     bindE (author_object (document_id @ '': region must be an object'') v) (\<lambda>d.
     bindE (author_keys [''id'', ''kind'', ''intent'', ''page'', ''bbox_norm'', ''view'', ''note''] d (document_id @ ''.region'')) (\<lambda>_.
     bindE (author_text (document_id @ ''.region.id'') (field d ''id'')) (\<lambda>i.
     if i \<in> set (map rm_id marks) then Inl (AuthoringError (document_id @ '': duplicate region ID''))
     else
     bindE (author_text (document_id @ ''.'' @ i @ ''.kind'') (field d ''kind'')) (\<lambda>kind.
     bindE (author_text (document_id @ ''.'' @ i @ ''.intent'') (field d ''intent'')) (\<lambda>intent.
     if intent \<notin> set COVERAGE_INTENTS then Inl (AuthoringError (document_id @ '': invalid region intent''))
     else if kind \<noteq> ''positive'' \<and> kind \<notin> set NEGATIVE_KINDS then Inl (AuthoringError (document_id @ '': invalid region kind''))
     else if \<not> on_page page_count (field d ''page'') then Inl (AuthoringError (document_id @ '': region page outside packet''))
     else if \<not> unit_box (field d ''bbox_norm'') then Inl (AuthoringError (document_id @ '': invalid normalized bbox''))
     else
     bindE (author_text (document_id @ ''.'' @ i @ ''.note'') (field d ''note'')) (\<lambda>_.
     if \<not> hashable (field d ''view'') then Inl (CycleEscape ''TypeError'')
     else if field d ''view'' \<notin> JStr ` set REGION_VIEWS then Inl (AuthoringError (document_id @ '': invalid region view''))
     else Inr (marks @ [\<lparr>rm_id = i, rm_kind = kind, rm_intent = intent\<rparr>])))))))"

definition positive_intents :: "region_mark list \<Rightarrow> string list" where
  "positive_intents marks = map rm_intent (filter (\<lambda>m. rm_kind m = ''positive'') marks)"

definition negative_kinds :: "region_mark list \<Rightarrow> string list" where
  "negative_kinds marks = filter (\<lambda>k. k \<noteq> ''positive'') (map rm_kind marks)"

definition check_regions :: "string \<Rightarrow> nat \<Rightarrow> json \<Rightarrow> cycle_error + region_mark list" where
  "check_regions document_id page_count v =
     bindE (author_array (document_id @ '': at least seven regions are required'') v) (\<lambda>regions.
     if length regions < 7 then Inl (AuthoringError (document_id @ '': at least seven regions are required''))
     else
     bindE (foldE (check_region document_id page_count) [] regions) (\<lambda>marks.
     if \<not> list_all (\<lambda>t. t \<in> set (positive_intents marks)) REGION_TYPES
     then Inl (AuthoringError (document_id @ '': all three positive intents required''))
     else if set (negative_kinds marks) \<noteq> set NEGATIVE_KINDS
     then Inl (AuthoringError (document_id @ '': all four hard-negative kinds required''))
     else Inr marks))"

text \<open>The linked regions: a non-empty array of known ids that all satisfy \<open>p\<close>; an element that cannot be hashed raises.\<close>

definition linked :: "string \<Rightarrow> region_mark list \<Rightarrow> (region_mark \<Rightarrow> bool) \<Rightarrow> json \<Rightarrow> cycle_error + string list" where
  "linked message marks p v =
     bindE (author_array message v) (\<lambda>items.
     if items = [] then Inl (AuthoringError message)
     else if \<not> list_all hashable items then Inl (CycleEscape ''TypeError'')
     else if \<not> list_all (\<lambda>x. x \<in> JStr ` set (map rm_id marks)) items then Inl (AuthoringError message)
     else if list_ex (\<lambda>x. list_ex (\<lambda>m. JStr (rm_id m) = x \<and> \<not> p m) marks) items then Inl (AuthoringError message)
     else Inr (map text_of items))"

definition normalise_query :: "string \<Rightarrow> string" where
  "normalise_query s = join '' '' (words (casefold s))"

definition label_bearing :: "region_mark list \<Rightarrow> string \<Rightarrow> string \<Rightarrow> bool" where
  "label_bearing marks query_id s \<longleftrightarrow> length (words s) < 4 \<or> rx_search case_token s \<noteq> None \<or>
     list_ex (\<lambda>i. contains (casefold i) (normalise_query s)) (query_id # map rm_id marks)"

text \<open>One iteration over the queries of a document, after the query texts of earlier documents.\<close>

definition check_query :: "string \<Rightarrow> region_mark list \<Rightarrow> string list \<Rightarrow> query_mark list \<Rightarrow> json \<Rightarrow> cycle_error + query_mark list" where
  "check_query document_id marks texts queries v =
     bindE (author_object (document_id @ '': query must be an object'') v) (\<lambda>d.
     bindE (author_keys [''id'', ''intent'', ''text'', ''relevant_region_ids'', ''hard_negative_region_ids''] d (document_id @ ''.query'')) (\<lambda>_.
     bindE (author_text (document_id @ ''.query.intent'') (field d ''intent'')) (\<lambda>intent.
     if intent \<notin> set REGION_TYPES then Inl (AuthoringError (document_id @ '': invalid query intent''))
     else
     bindE (author_text (document_id @ ''.query.id'') (field d ''id'')) (\<lambda>i.
     if i \<in> set (map qm_id queries) then Inl (AuthoringError (document_id @ '': duplicate query ID''))
     else
     bindE (author_text (document_id @ ''.query.text'') (field d ''text'')) (\<lambda>t.
     if normalise_query t \<in> set (texts @ map qm_text queries) then Inl (AuthoringError ''duplicate query text'')
     else if label_bearing marks i t then Inl (AuthoringError (document_id @ '': query text looks templated or label-bearing''))
     else
     bindE (linked (document_id @ '': relevant links must be positive and intent-matched'') marks
       (\<lambda>m. rm_kind m = ''positive'' \<and> rm_intent m = intent) (field d ''relevant_region_ids'')) (\<lambda>relevant.
     bindE (linked (document_id @ '': hard-negative links must reference negative regions'') marks
       (\<lambda>m. rm_kind m \<noteq> ''positive'') (field d ''hard_negative_region_ids'')) (\<lambda>negative.
     Inr (queries @ [\<lparr>qm_id = i, qm_intent = intent, qm_text = normalise_query t, qm_relevant = relevant, qm_negative = negative\<rparr>]))))))))"

definition check_queries :: "string \<Rightarrow> region_mark list \<Rightarrow> string list \<Rightarrow> json \<Rightarrow> cycle_error + query_mark list" where
  "check_queries document_id marks texts v =
     bindE (author_array (document_id @ '': exactly six manual queries required'') v) (\<lambda>queries.
     if length queries \<noteq> 6 then Inl (AuthoringError (document_id @ '': exactly six manual queries required''))
     else
     bindE (foldE (check_query document_id marks texts) [] queries) (\<lambda>qs.
     if list_ex (\<lambda>t. count_list (map qm_intent qs) t \<noteq> 2) REGION_TYPES
     then Inl (AuthoringError (document_id @ '': two queries per intent required''))
     else Inr qs))"

text \<open>The number of pages of each document of the packet, by its id.\<close>

definition page_counts :: "(string \<times> json) list \<Rightarrow> (string \<times> nat) list" where
  "page_counts packet = (case field packet ''documents'' of
     JArr documents \<Rightarrow> map (\<lambda>v. (text_of (of_object ''id'' v), case of_object ''pages'' v of JArr pages \<Rightarrow> length pages | _ \<Rightarrow> 0)) documents
   | _ \<Rightarrow> [])"

definition check_submission_document :: "(string \<times> nat) list \<Rightarrow> document_marks list \<Rightarrow> json \<Rightarrow> cycle_error + document_marks list" where
  "check_submission_document counts accepted v =
     bindE (author_object ''submission document must be an object'' v) (\<lambda>d.
     bindE (author_keys [''id'', ''regions'', ''queries''] d ''submission document'') (\<lambda>_.
     bindE (author_text ''submission document.id'' (field d ''id'')) (\<lambda>i.
     case map_of counts i of
       None \<Rightarrow> Inl (AuthoringError ''submission document coverage is invalid'')
     | Some page_count \<Rightarrow>
         if i \<in> set (map dm_id accepted) then Inl (AuthoringError ''submission document coverage is invalid'')
         else
         bindE (check_regions i page_count (field d ''regions'')) (\<lambda>regions.
         bindE (check_queries i regions (concat (map (\<lambda>m. map qm_text (dm_queries m)) accepted)) (field d ''queries'')) (\<lambda>queries.
         Inr (accepted @ [\<lparr>dm_id = i, dm_regions = regions, dm_queries = queries\<rparr>]))))))"

definition submission_keys :: "string list" where
  "submission_keys = [''schema_version'', ''packet_sha256'', ''author'', ''manual_query_attestation'', ''documents'', ''submission_sha256'']"

definition check_submission_head :: "engine \<Rightarrow> (string \<times> json) list \<Rightarrow> (string \<times> json) list \<Rightarrow> cycle_error + unit" where
  "check_submission_head e packet d =
     bindE (author_keys submission_keys d ''submission'') (\<lambda>_.
     if field d ''schema_version'' \<noteq> JStr SUBMISSION_VERSION then Inl (AuthoringError ''unsupported submission schema'')
     else if field d ''packet_sha256'' \<noteq> field packet ''packet_sha256'' then Inl (AuthoringError ''submission packet digest mismatch'')
     else
     bindE (author_human ''submission.author'' (field d ''author'')) (\<lambda>_.
     bindE (author_text ''manual_query_attestation'' (field d ''manual_query_attestation'')) (\<lambda>attestation.
     if \<not> contains ''human-authored'' (casefold attestation) \<or> \<not> contains ''no model'' (casefold attestation)
     then Inl (AuthoringError ''manual query attestation must state human authorship and no model use'')
     else
     bindE (author_digest ''submission.submission_sha256'' (field d ''submission_sha256'')) (\<lambda>digest.
     if author_sha e (without_digest ''submission_sha256'' d) \<noteq> digest then Inl (AuthoringError ''submission digest mismatch'')
     else Inr ()))))"

definition submission_marks :: "engine \<Rightarrow> json \<Rightarrow> json \<Rightarrow> cycle_error + (string \<times> json) list \<times> document_marks list" where
  "submission_marks e v packet =
     bindE (load_authoring_packet e packet) (\<lambda>p.
     bindE (author_object ''submission must be an object'' v) (\<lambda>d.
     bindE (check_submission_head e p d) (\<lambda>_.
     bindE (author_array ''submission must cover every packet document'' (field d ''documents'')) (\<lambda>documents.
     if length documents \<noteq> length (dict_of (page_counts p))
     then Inl (AuthoringError ''submission must cover every packet document'')
     else
     bindE (foldE (check_submission_document (dict_of (page_counts p))) [] documents) (\<lambda>marks. Inr (d, marks))))))"

definition load_submission :: "engine \<Rightarrow> json \<Rightarrow> json \<Rightarrow> cycle_error + (string \<times> json) list" where
  "load_submission e v packet = bindE (submission_marks e v packet) (\<lambda>(d, _). Inr d)"

definition finalize_submission :: "engine \<Rightarrow> json \<Rightarrow> json \<Rightarrow> cycle_error + (string \<times> json) list" where
  "finalize_submission e v packet =
     bindE (author_object ''submission must be an object'' v) (\<lambda>d.
     let payload = without_digest ''submission_sha256'' d
     in load_submission e (JObj (payload @ [(''submission_sha256'', JStr (author_sha e payload))])) packet)"

subsection \<open>What an accepted submission promises\<close>

definition regions_sound :: "region_mark list \<Rightarrow> bool" where
  "regions_sound marks \<longleftrightarrow> distinct (map rm_id marks) \<and>
     list_all (\<lambda>m. rm_intent m \<in> set COVERAGE_INTENTS \<and> (rm_kind m = ''positive'' \<or> rm_kind m \<in> set NEGATIVE_KINDS)) marks"

text \<open>Linked ids name regions of the document, all of which satisfy \<open>p\<close>.\<close>

definition links :: "region_mark list \<Rightarrow> (region_mark \<Rightarrow> bool) \<Rightarrow> string list \<Rightarrow> bool" where
  "links marks p ids \<longleftrightarrow> ids \<noteq> [] \<and> list_all (\<lambda>i. \<exists>m \<in> set marks. rm_id m = i \<and> p m) ids"

definition query_sound :: "region_mark list \<Rightarrow> query_mark \<Rightarrow> bool" where
  "query_sound marks q \<longleftrightarrow> qm_intent q \<in> set REGION_TYPES \<and>
     links marks (\<lambda>m. rm_kind m = ''positive'' \<and> rm_intent m = qm_intent q) (qm_relevant q) \<and>
     links marks (\<lambda>m. rm_kind m \<noteq> ''positive'') (qm_negative q) \<and>
     list_all (\<lambda>m. \<not> contains (casefold (rm_id m)) (qm_text q)) marks"

definition queries_sound :: "region_mark list \<Rightarrow> string list \<Rightarrow> query_mark list \<Rightarrow> bool" where
  "queries_sound marks texts qs \<longleftrightarrow> list_all (query_sound marks) qs \<and> distinct (map qm_id qs) \<and> distinct (map qm_text qs) \<and>
     set texts \<inter> set (map qm_text qs) = {}"

definition document_sound :: "document_marks \<Rightarrow> bool" where
  "document_sound m \<longleftrightarrow> regions_sound (dm_regions m) \<and> 7 \<le> length (dm_regions m) \<and>
     set REGION_TYPES \<subseteq> set (positive_intents (dm_regions m)) \<and> set (negative_kinds (dm_regions m)) = set NEGATIVE_KINDS \<and>
     length (dm_queries m) = 6 \<and> queries_sound (dm_regions m) [] (dm_queries m) \<and>
     list_all (\<lambda>t. count_list (map qm_intent (dm_queries m)) t = 2) REGION_TYPES"

definition all_query_texts :: "document_marks list \<Rightarrow> string list" where
  "all_query_texts ms = concat (map (\<lambda>m. map qm_text (dm_queries m)) ms)"

definition documents_sound :: "(string \<times> nat) list \<Rightarrow> document_marks list \<Rightarrow> bool" where
  "documents_sound counts ms \<longleftrightarrow> list_all document_sound ms \<and> distinct (map dm_id ms) \<and> set (map dm_id ms) \<subseteq> set (map fst counts) \<and>
     distinct (all_query_texts ms)"

lemma check_region_ok:
  "check_region document_id n marks v = Inr marks' \<Longrightarrow>
     \<exists>m. marks' = marks @ [m] \<and> rm_id m \<notin> set (map rm_id marks) \<and> rm_intent m \<in> set COVERAGE_INTENTS \<and>
       (rm_kind m = ''positive'' \<or> rm_kind m \<in> set NEGATIVE_KINDS)"
  by (auto simp: check_region_def split: if_splits)

interpretation regions: collecting_loop "check_region document_id n" regions_sound length for document_id n
proof
  fix marks :: "region_mark list" and v marks'
  assume good: "regions_sound marks" and step: "check_region document_id n marks v = Inr marks'"
  from check_region_ok [OF step] good show "regions_sound marks'" and "length marks' = Suc (length marks)"
    by (auto simp: regions_sound_def)
qed

lemma linked_ok:
  assumes "linked message marks p v = Inr ids"
  shows "links marks p ids"
proof -
  from assms obtain items where i: "items \<noteq> []" "list_all (\<lambda>x. x \<in> JStr ` set (map rm_id marks)) items"
    "\<not> list_ex (\<lambda>x. list_ex (\<lambda>m. JStr (rm_id m) = x \<and> \<not> p m) marks) items" "ids = map text_of items"
    by (auto simp: linked_def split: if_splits)
  have "\<exists>m \<in> set marks. rm_id m = text_of x \<and> p m" if x: "x \<in> set items" for x
  proof -
    from i(2) x obtain m where m: "m \<in> set marks" "x = JStr (rm_id m)" by (auto simp: list_all_iff)
    with i(3) x have "p m" by (auto simp: list_ex_iff)
    with m show ?thesis by (auto simp: text_of_def)
  qed
  with i(1,4) show ?thesis by (auto simp: links_def list_all_iff)
qed

lemma check_query_ok:
  assumes "check_query document_id marks texts qs v = Inr qs'"
  shows "\<exists>q. qs' = qs @ [q] \<and> query_sound marks q \<and> qm_id q \<notin> set (map qm_id qs) \<and> qm_text q \<notin> set (texts @ map qm_text qs)"
proof -
  from assms obtain intent i t relevant negative where q: "intent \<in> set REGION_TYPES" "i \<notin> set (map qm_id qs)"
    "normalise_query t \<notin> set (texts @ map qm_text qs)" "\<not> label_bearing marks i t"
    and l: "linked (document_id @ '': relevant links must be positive and intent-matched'') marks
       (\<lambda>m. rm_kind m = ''positive'' \<and> rm_intent m = intent) relevant = Inr (qm_relevant (last qs'))"
    "linked (document_id @ '': hard-negative links must reference negative regions'') marks (\<lambda>m. rm_kind m \<noteq> ''positive'') negative =
       Inr (qm_negative (last qs'))"
    and qs': "qs' = qs @ [\<lparr>qm_id = i, qm_intent = intent, qm_text = normalise_query t, qm_relevant = qm_relevant (last qs'),
      qm_negative = qm_negative (last qs')\<rparr>]"
    by (auto simp: check_query_def split: if_splits)
  have "list_all (\<lambda>m. \<not> contains (casefold (rm_id m)) (normalise_query t)) marks"
    using q(4) by (auto simp: label_bearing_def list_ex_iff list_all_iff)
  with q(1-3) linked_ok [OF l(1)] linked_ok [OF l(2)] show ?thesis by (subst qs') (simp add: query_sound_def)
qed

interpretation queries: collecting_loop "check_query document_id marks texts" "queries_sound marks texts" length
  for document_id marks texts
proof
  fix qs :: "query_mark list" and v qs'
  assume good: "queries_sound marks texts qs" and step: "check_query document_id marks texts qs v = Inr qs'"
  from check_query_ok [OF step] obtain q where "qs' = qs @ [q]" "query_sound marks q" "qm_id q \<notin> set (map qm_id qs)"
    "qm_text q \<notin> set texts" "qm_text q \<notin> set (map qm_text qs)" by auto
  with good show "queries_sound marks texts qs'" and "length qs' = Suc (length qs)"
    unfolding queries_sound_def by simp_all
qed

lemma check_regions_ok:
  assumes "check_regions document_id n v = Inr marks"
  shows "regions_sound marks \<and> 7 \<le> length marks \<and> set REGION_TYPES \<subseteq> set (positive_intents marks) \<and>
    set (negative_kinds marks) = set NEGATIVE_KINDS"
proof -
  from assms obtain regions where r: "\<not> length regions < 7" "foldE (check_region document_id n) [] regions = Inr marks"
    "list_all (\<lambda>t. t \<in> set (positive_intents marks)) REGION_TYPES" "set (negative_kinds marks) = set NEGATIVE_KINDS"
    by (auto simp: check_regions_def split: if_splits)
  have "regions_sound []" by (simp add: regions_sound_def)
  from regions.loop_good [OF r(2) this] regions.loop_collects [OF r(2) this] r show ?thesis by (auto simp: list_all_iff)
qed

lemma check_queries_ok:
  assumes "check_queries document_id marks texts v = Inr qs"
  shows "queries_sound marks texts qs \<and> length qs = 6 \<and> list_all (\<lambda>t. count_list (map qm_intent qs) t = 2) REGION_TYPES"
proof -
  from assms obtain queries where q: "length queries = 6" "foldE (check_query document_id marks texts) [] queries = Inr qs"
    "\<not> list_ex (\<lambda>t. count_list (map qm_intent qs) t \<noteq> 2) REGION_TYPES"
    by (auto simp: check_queries_def split: if_splits)
  have "queries_sound marks texts []" by (simp add: queries_sound_def)
  from queries.loop_good [OF q(2) this] queries.loop_collects [OF q(2) this] q show ?thesis by (auto simp: list_all_iff list_ex_iff)
qed

lemma check_submission_document_ok:
  assumes "check_submission_document counts ms v = Inr ms'"
  shows "\<exists>m. ms' = ms @ [m] \<and> document_sound m \<and> dm_id m \<in> set (map fst counts) \<and> dm_id m \<notin> set (map dm_id ms) \<and>
    set (all_query_texts ms) \<inter> set (map qm_text (dm_queries m)) = {}"
proof -
  from assms obtain d i where rest: "(case map_of counts i of
       None \<Rightarrow> Inl (AuthoringError ''submission document coverage is invalid'')
     | Some page_count \<Rightarrow>
         if i \<in> set (map dm_id ms) then Inl (AuthoringError ''submission document coverage is invalid'')
         else
         bindE (check_regions i page_count (field d ''regions'')) (\<lambda>regions.
         bindE (check_queries i regions (concat (map (\<lambda>m. map qm_text (dm_queries m)) ms)) (field d ''queries'')) (\<lambda>queries.
         Inr (ms @ [\<lparr>dm_id = i, dm_regions = regions, dm_queries = queries\<rparr>])))) = Inr ms'"
    unfolding check_submission_document_def bindE_eq_Inr by blast
  then obtain n where i: "map_of counts i = Some n" by (auto split: option.splits)
  with rest have fresh: "i \<notin> set (map dm_id ms)" by (auto split: if_splits)
  with rest i obtain regions queries where parts: "check_regions i n (field d ''regions'') = Inr regions"
      "check_queries i regions (all_query_texts ms) (field d ''queries'') = Inr queries"
    and ms': "ms' = ms @ [\<lparr>dm_id = i, dm_regions = regions, dm_queries = queries\<rparr>]"
    by (auto simp: all_query_texts_def)
  have "i \<in> set (map fst counts)" using i by (force dest: map_of_SomeD)
  with fresh check_regions_ok [OF parts(1)] check_queries_ok [OF parts(2)] show ?thesis
    unfolding ms' by (auto simp: document_sound_def queries_sound_def)
qed

interpretation documents: collecting_loop "check_submission_document counts" "documents_sound counts" length for counts
proof
  fix ms :: "document_marks list" and v ms'
  assume good: "documents_sound counts ms" and step: "check_submission_document counts ms v = Inr ms'"
  from check_submission_document_ok [OF step] obtain m where m: "ms' = ms @ [m]" "document_sound m" "dm_id m \<in> set (map fst counts)"
    "dm_id m \<notin> set (map dm_id ms)" "set (all_query_texts ms) \<inter> set (map qm_text (dm_queries m)) = {}" by blast
  have "distinct (map qm_text (dm_queries m))" using m(2) by (simp add: document_sound_def queries_sound_def)
  then have "distinct (all_query_texts ms')" using good m(1,5) by (auto simp: documents_sound_def all_query_texts_def)
  with good m show "documents_sound counts ms'" by (simp add: documents_sound_def)
  show "length ms' = Suc (length ms)" using m(1) by simp
qed

subsection \<open>The labels in the submission\<close>

text \<open>
  The marks are read off the JSON of the submission: \<open>labels_region n v m\<close> says that the region object \<open>v\<close> has the id, kind and intent
  of \<open>m\<close>, lies on one of the \<open>n\<close> pages, and its box is a rectangle of positive area in the unit square; \<open>labels_query\<close> and
  \<open>labels_document\<close> say the same of a query and of a document whose packet shows \<open>n\<close> pages.
\<close>

definition says :: "json \<Rightarrow> string \<Rightarrow> bool" where
  "says v t \<longleftrightarrow> (\<exists>s. v = JStr s \<and> strip s = t \<and> t \<noteq> [])"

text \<open>A Python integer: \<open>True\<close> passes the code's type test as 1.\<close>

definition page_in :: "nat \<Rightarrow> json \<Rightarrow> bool" where
  "page_in n v \<longleftrightarrow> (\<exists>k. 1 \<le> k \<and> k \<le> int n \<and> (v = JInt k \<or> v = JBool True \<and> k = 1))"

definition rectangle_in_unit :: "json \<Rightarrow> bool" where
  "rectangle_in_unit v \<longleftrightarrow> (\<exists>a b c d x0 y0 x1 y1. v = JArr [a, b, c, d] \<and>
     num_val a = Some (Flt x0) \<and> num_val b = Some (Flt y0) \<and> num_val c = Some (Flt x1) \<and> num_val d = Some (Flt y1) \<and>
     0 \<le> x0 \<and> x1 \<le> 1 \<and> 0 \<le> y0 \<and> y1 \<le> 1 \<and> 0 < (x1 - x0) * (y1 - y0) \<and> x0 < x1)"

definition labels_region :: "nat \<Rightarrow> json \<Rightarrow> region_mark \<Rightarrow> bool" where
  "labels_region n v m \<longleftrightarrow> (\<exists>d. v = JObj d \<and> says (field d ''id'') (rm_id m) \<and> says (field d ''kind'') (rm_kind m) \<and>
     says (field d ''intent'') (rm_intent m) \<and> page_in n (field d ''page'') \<and> rectangle_in_unit (field d ''bbox_norm'') \<and>
     (\<exists>t. says (field d ''note'') t) \<and> field d ''view'' \<in> JStr ` set REGION_VIEWS)"

definition labels_query :: "json \<Rightarrow> query_mark \<Rightarrow> bool" where
  "labels_query v q \<longleftrightarrow> (\<exists>d t. v = JObj d \<and> says (field d ''id'') (qm_id q) \<and> says (field d ''intent'') (qm_intent q) \<and>
     says (field d ''text'') t \<and> qm_text q = normalise_query t \<and> 4 \<le> length (words t) \<and> rx_search case_token t = None \<and>
     \<not> contains (casefold (qm_id q)) (qm_text q) \<and>
     field d ''relevant_region_ids'' = JArr (map JStr (qm_relevant q)) \<and> field d ''hard_negative_region_ids'' = JArr (map JStr (qm_negative q)))"

definition labels_document :: "(string \<times> nat) list \<Rightarrow> json \<Rightarrow> document_marks \<Rightarrow> bool" where
  "labels_document counts v m \<longleftrightarrow> (\<exists>d n regions queries. v = JObj d \<and> says (field d ''id'') (dm_id m) \<and> (dm_id m, n) \<in> set counts \<and>
     field d ''regions'' = JArr regions \<and> list_all2 (labels_region n) regions (dm_regions m) \<and>
     field d ''queries'' = JArr queries \<and> list_all2 labels_query queries (dm_queries m))"

lemma dict_of_subset: "(k, v) \<in> set (dict_of items) \<Longrightarrow> (k, v) \<in> set items"
proof -
  assume "(k, v) \<in> set (dict_of items)"
  then have "map_of (rev items) k = Some v" using map_of_is_SomeI [OF dict_of_distinct] by (metis map_of_dict_of)
  then show ?thesis by (auto dest: map_of_SomeD)
qed

text \<open>A loop that adds a mark for each item.\<close>

lemma foldE_marks:
  assumes "\<And>s v s'. f s v = Inr s' \<Longrightarrow> \<exists>m. s' = s @ [m] \<and> R v m" and "foldE f s items = Inr t"
  shows "\<exists>ms. t = s @ ms \<and> list_all2 R items ms"
  using assms(2)
proof (induction items arbitrary: s)
  case (Cons v items)
  then obtain s' where step: "f s v = Inr s'" "foldE f s' items = Inr t" by auto
  from assms(1) [OF step(1)] obtain m where m: "s' = s @ [m]" "R v m" by blast
  from Cons.IH [OF step(2)] obtain ms where "t = s' @ ms" "list_all2 R items ms" by blast
  with m show ?case by (intro exI [of _ "m # ms"]) simp
qed simp

lemma author_text_says: "author_text part v = Inr t \<Longrightarrow> says v t"
  unfolding author_text_def says_def using nonempty_text_ok by fastforce

lemma on_page_in: "on_page n v \<Longrightarrow> page_in n v"
  by (auto simp: on_page_def page_in_def split: json.splits)

lemma plain_number_val: "plain_number v = Some x \<Longrightarrow> num_val v = Some x"
  by (cases v) (simp_all add: plain_number_def)

lemma four_numbers:
  assumes "case ys of [Some (Flt a), Some (Flt b), Some (Flt c), Some (Flt d)] \<Rightarrow> P a b c d | _ \<Rightarrow> False"
  shows "\<exists>a b c d. ys = [Some (Flt a), Some (Flt b), Some (Flt c), Some (Flt d)] \<and> P a b c d"
proof -
  obtain a r1 where 1: "ys = Some (Flt a) # r1"
    using assms by (cases ys) (auto split: option.split_asm pyfloat.split_asm)
  obtain b r2 where 2: "r1 = Some (Flt b) # r2"
    using assms unfolding 1 by (cases r1) (auto split: option.split_asm pyfloat.split_asm)
  obtain c r3 where 3: "r2 = Some (Flt c) # r3"
    using assms unfolding 1 2 by (cases r2) (auto split: option.split_asm pyfloat.split_asm)
  obtain d r4 where 4: "r3 = Some (Flt d) # r4"
    using assms unfolding 1 2 3 by (cases r3) (auto split: option.split_asm pyfloat.split_asm)
  have "r4 = []" using assms unfolding 1 2 3 4 by (cases r4) simp_all
  then show ?thesis using assms unfolding 1 2 3 4 by simp
qed

lemma unit_box_rectangle:
  assumes "unit_box v"
  shows "rectangle_in_unit v"
proof -
  from assms obtain xs where v: "v = JArr xs" by (cases v) (simp_all add: unit_box_def)
  from four_numbers [OF assms [unfolded unit_box_def v json.case]] obtain x0 y0 x1 y1 where
    n: "map plain_number xs = [Some (Flt x0), Some (Flt y0), Some (Flt x1), Some (Flt y1)]"
    and le: "0 \<le> x0 \<and> x0 < x1 \<and> x1 \<le> 1 \<and> 0 \<le> y0 \<and> y0 < y1 \<and> y1 \<le> 1" by (elim exE conjE) simp
  from n obtain a b c d where "xs = [a, b, c, d]" "plain_number a = Some (Flt x0)" "plain_number b = Some (Flt y0)"
    "plain_number c = Some (Flt x1)" "plain_number d = Some (Flt y1)" by (auto simp: map_eq_Cons_conv)
  with v le show ?thesis unfolding rectangle_in_unit_def
    by (intro exI conjI) (auto intro: plain_number_val)
qed

lemma check_region_labels:
  assumes "check_region document_id n marks v = Inr marks'"
  shows "\<exists>m. marks' = marks @ [m] \<and> labels_region n v m"
proof -
  from assms obtain d i kind intent note_text where v: "v = JObj d"
    and t: "author_text (document_id @ ''.region.id'') (field d ''id'') = Inr i"
      "author_text (document_id @ ''.'' @ i @ ''.kind'') (field d ''kind'') = Inr kind"
      "author_text (document_id @ ''.'' @ i @ ''.intent'') (field d ''intent'') = Inr intent"
      "author_text (document_id @ ''.'' @ i @ ''.note'') (field d ''note'') = Inr note_text"
    and g: "on_page n (field d ''page'')" "unit_box (field d ''bbox_norm'')" "field d ''view'' \<in> JStr ` set REGION_VIEWS"
    and m: "marks' = marks @ [\<lparr>rm_id = i, rm_kind = kind, rm_intent = intent\<rparr>]"
    by (auto simp: check_region_def author_object_def split: json.splits if_splits)
  have "labels_region n v \<lparr>rm_id = i, rm_kind = kind, rm_intent = intent\<rparr>"
    unfolding labels_region_def v using t [THEN author_text_says] on_page_in [OF g(1)] unit_box_rectangle [OF g(2)] g(3) by auto
  with m show ?thesis by blast
qed

lemma linked_array:
  assumes "linked message marks p v = Inr ids"
  shows "v = JArr (map JStr ids)"
proof -
  from assms obtain items where v: "v = JArr items" and i: "list_all (\<lambda>x. x \<in> JStr ` set (map rm_id marks)) items" "ids = map text_of items"
    by (auto simp: linked_def author_array_def split: json.splits if_splits)
  have "items = map JStr (map text_of items)" using i(1) by (induction items) (auto simp: text_of_def)
  then show ?thesis using v i(2) by simp
qed

lemma check_query_labels:
  assumes "check_query document_id marks texts qs v = Inr qs'"
  shows "\<exists>q. qs' = qs @ [q] \<and> labels_query v q"
proof -
  from assms obtain d where v: "v = JObj d" by (cases v) (simp_all add: check_query_def author_object_def)
  from assms obtain intent i t relevant negative where a: "author_text (document_id @ ''.query.intent'') (field d ''intent'') = Inr intent"
      "author_text (document_id @ ''.query.id'') (field d ''id'') = Inr i"
      "author_text (document_id @ ''.query.text'') (field d ''text'') = Inr t"
    and g: "\<not> label_bearing marks i t"
    and l: "linked (document_id @ '': relevant links must be positive and intent-matched'') marks
       (\<lambda>m. rm_kind m = ''positive'' \<and> rm_intent m = intent) (field d ''relevant_region_ids'') = Inr relevant"
      "linked (document_id @ '': hard-negative links must reference negative regions'') marks
       (\<lambda>m. rm_kind m \<noteq> ''positive'') (field d ''hard_negative_region_ids'') = Inr negative"
    and q: "qs' = qs @ [\<lparr>qm_id = i, qm_intent = intent, qm_text = normalise_query t, qm_relevant = relevant, qm_negative = negative\<rparr>]"
    by (auto simp: check_query_def v author_object_def split: if_splits)
  have "4 \<le> length (words t)" "rx_search case_token t = None" "\<not> contains (casefold i) (normalise_query t)"
    using g by (cases "rx_search case_token t"; simp add: label_bearing_def not_less)+
  then have "labels_query v \<lparr>qm_id = i, qm_intent = intent, qm_text = normalise_query t, qm_relevant = relevant, qm_negative = negative\<rparr>"
    unfolding labels_query_def v using a [THEN author_text_says] linked_array [OF l(1)] linked_array [OF l(2)] by auto
  with q show ?thesis by blast
qed

lemma check_regions_labels:
  assumes "check_regions document_id n v = Inr marks"
  shows "\<exists>regions. v = JArr regions \<and> list_all2 (labels_region n) regions marks"
proof -
  from assms obtain regions where v: "v = JArr regions" and loop: "foldE (check_region document_id n) [] regions = Inr marks"
    by (auto simp: check_regions_def author_array_def split: json.splits if_splits)
  from foldE_marks [OF check_region_labels loop] v show ?thesis by auto
qed

lemma check_queries_labels:
  assumes "check_queries document_id marks texts v = Inr qs"
  shows "\<exists>queries. v = JArr queries \<and> list_all2 labels_query queries qs"
proof -
  from assms obtain queries where v: "v = JArr queries" and loop: "foldE (check_query document_id marks texts) [] queries = Inr qs"
    by (auto simp: check_queries_def author_array_def split: json.splits if_splits)
  from foldE_marks [OF check_query_labels loop] v show ?thesis by auto
qed

lemma check_submission_document_labels:
  assumes "check_submission_document counts ms v = Inr ms'"
  shows "\<exists>m. ms' = ms @ [m] \<and> labels_document counts v m"
proof -
  from assms obtain d i where v: "v = JObj d" and i: "author_text ''submission document.id'' (field d ''id'') = Inr i"
    by (auto simp: check_submission_document_def author_object_def split: json.splits)
  with assms obtain n where n: "map_of counts i = Some n"
    by (cases "map_of counts i") (auto simp: check_submission_document_def author_object_def)
  from assms v i n obtain regions queries where r: "check_regions i n (field d ''regions'') = Inr regions"
    and q: "check_queries i regions (concat (map (\<lambda>m. map qm_text (dm_queries m)) ms)) (field d ''queries'') = Inr queries"
    and ms': "ms' = ms @ [\<lparr>dm_id = i, dm_regions = regions, dm_queries = queries\<rparr>]"
    by (auto simp: check_submission_document_def author_object_def split: if_splits)
  have "labels_document counts v \<lparr>dm_id = i, dm_regions = regions, dm_queries = queries\<rparr>"
    unfolding labels_document_def v
    using author_text_says [OF i] map_of_SomeD [OF n] check_regions_labels [OF r] check_queries_labels [OF q] by auto
  with ms' show ?thesis by blast
qed

text \<open>
  C29. An accepted submission is a complete and sound set of labels: its document objects are those of the packet, each exactly once. In
  each, every region object lies on a page of the packet's document with a box of positive area in the unit square, the regions have
  distinct ids, all positive intents and all hard-negative kinds; the six query objects, two per intent, have at least four words, are no case
  tokens, link to positive regions of their intent and to negative regions of the document, name no region, and no two queries of the
  submission have the same text.
\<close>

theorem accepted_submission_sound:
  assumes "submission_marks e v packet = Inr (d, ms)"
  shows "\<exists>p docs. load_authoring_packet e packet = Inr p \<and> v = JObj d \<and> field d ''packet_sha256'' = field p ''packet_sha256'' \<and>
    field d ''documents'' = JArr docs \<and> list_all2 (labels_document (page_counts p)) docs ms \<and>
    list_all document_sound ms \<and> distinct (map dm_id ms) \<and> set (map dm_id ms) = set (map fst (page_counts p)) \<and> distinct (all_query_texts ms)"
proof -
  from assms obtain p docs where p: "load_authoring_packet e packet = Inr p" and v: "v = JObj d"
    and head: "check_submission_head e p d = Inr ()" and docs: "field d ''documents'' = JArr docs"
    and len: "length docs = length (dict_of (page_counts p))"
    and loop: "foldE (check_submission_document (dict_of (page_counts p))) [] docs = Inr ms"
    by (auto simp: submission_marks_def author_object_def author_array_def split: json.splits if_splits)
  have "documents_sound (dict_of (page_counts p)) []" by (simp add: documents_sound_def all_query_texts_def)
  from documents.loop_good [OF loop this] documents.loop_collects [OF loop this] len
  have s: "documents_sound (dict_of (page_counts p)) ms" and n: "length ms = length (dict_of (page_counts p))" by simp_all
  have "set (map dm_id ms) = set (map fst (dict_of (page_counts p)))"
  proof (rule card_subset_eq)
    show "set (map dm_id ms) \<subseteq> set (map fst (dict_of (page_counts p)))" using s by (simp add: documents_sound_def)
    show "card (set (map dm_id ms)) = card (set (map fst (dict_of (page_counts p))))"
      using s n by (simp only: documents_sound_def distinct_card dict_of_distinct length_map)
  qed simp
  then have ids: "set (map dm_id ms) = set (map fst (page_counts p))" by simp
  from foldE_marks [OF check_submission_document_labels loop] have "list_all2 (labels_document (dict_of (page_counts p))) docs ms" by auto
  then have "list_all2 (labels_document (page_counts p)) docs ms"
    by (rule list_all2_mono) (use dict_of_subset in \<open>fastforce simp: labels_document_def\<close>)
  with p v head s ids docs show ?thesis by (auto simp: documents_sound_def check_submission_head_def split: if_splits)
qed

subsection \<open>The seal\<close>

text \<open>What a review on the code host says; a missing part or a part of another type raises.\<close>

record provenance =
  pv_login :: string
  pv_state :: json
  pv_submitted_at :: json
  pv_body :: string
  pv_url :: json

definition read_provenance :: "string \<Rightarrow> json \<Rightarrow> cycle_error + provenance" where
  "read_provenance message v =
     (let part = (\<lambda>k. case v of JObj d \<Rightarrow> map_of d k | _ \<Rightarrow> None) in
      case (part ''user'', part ''state'', part ''submitted_at'', part ''body'', part ''html_url'') of
        (Some (JObj user), Some state, Some submitted_at, Some body, Some url) \<Rightarrow>
          (case map_of user ''login'' of
             Some (JStr login) \<Rightarrow> Inr \<lparr>pv_login = login, pv_state = state, pv_submitted_at = submitted_at,
               pv_body = (if truthy body then text_of body else []), pv_url = url\<rparr>
           | _ \<Rightarrow> Inl (AuthoringError message))
      | _ \<Rightarrow> Inl (AuthoringError message))"

definition review_keys :: "string list" where
  "review_keys = [''schema_version'', ''packet_sha256'', ''submission_sha256'', ''author_attested_at'', ''author_attestation_url'', ''reviewer'',
     ''reviewed_at'', ''review_url'']"

definition submission_marker :: "(string \<times> json) list \<Rightarrow> string" where
  "submission_marker submission = ''DSVIRE_AUTHORING_SUBMISSION_SHA256='' @ text_of (field submission ''submission_sha256'')"

definition packet_marker :: "(string \<times> json) list \<Rightarrow> string" where
  "packet_marker packet = ''DSVIRE_AUTHORING_PACKET_SHA256='' @ text_of (field packet ''packet_sha256'')"

definition author_bound :: "(string \<times> json) list \<Rightarrow> (string \<times> json) list \<Rightarrow> provenance \<Rightarrow> bool" where
  "author_bound submission r pv \<longleftrightarrow> field submission ''author'' = JStr (''github:'' @ pv_login pv) \<and>
     pv_state pv \<in> {JStr ''COMMENTED'', JStr ''APPROVED''} \<and> py_eq (pv_submitted_at pv) (field r ''author_attested_at'') \<and>
     py_eq (pv_url pv) (field r ''author_attestation_url'') \<and> contains (submission_marker submission) (pv_body pv) \<and>
     contains ''HUMAN_AUTHORED_NO_MODEL=TRUE'' (pv_body pv)"

text \<open>The reviewer's own record; a reviewer who is the author may comment instead of approving.\<close>

definition check_reviewer :: "(string \<times> json) list \<Rightarrow> (string \<times> json) list \<Rightarrow> (string \<times> json) list \<Rightarrow> string \<Rightarrow> provenance \<Rightarrow>
    cycle_error + unit" where
  "check_reviewer packet submission r reviewer pv =
     (let solo = (field submission ''author'' = JStr reviewer);
          states = (if solo then {JStr ''COMMENTED'', JStr ''APPROVED''} else {JStr ''APPROVED''});
          markers = submission_marker submission # (if solo then [] else [packet_marker packet, ''DSVIRE_INDEPENDENT_HUMAN_REVIEW=TRUE''])
      in if reviewer \<noteq> ''github:'' @ pv_login pv \<or> pv_state pv \<notin> states
         then Inl (AuthoringError ''review provenance is not an approval by the declared reviewer'')
         else if \<not> py_eq (pv_submitted_at pv) (field r ''reviewed_at'') \<or> \<not> py_eq (pv_url pv) (field r ''review_url'')
         then Inl (AuthoringError ''review provenance timestamp or URL mismatch'')
         else if solo \<and> \<not> contains ''HUMAN_AUTHORED_NO_MODEL=TRUE'' (pv_body pv)
         then Inl (AuthoringError ''solo-maintainer review does not bind human no-model authorship'')
         else if \<not> list_all (\<lambda>m. contains m (pv_body pv)) markers
         then Inl (AuthoringError ''review approval does not bind packet and submission digests'')
         else Inr ())"

definition count_items :: "string \<Rightarrow> (string \<times> json) list \<Rightarrow> json" where
  "count_items k submission = JInt (case field submission ''documents'' of
     JArr docs \<Rightarrow> sum_list (map (\<lambda>v. case of_object k v of JArr xs \<Rightarrow> int (length xs) | _ \<Rightarrow> 0) docs) | _ \<Rightarrow> 0)"

definition document_count :: "(string \<times> json) list \<Rightarrow> json" where
  "document_count packet = JInt (case field packet ''documents'' of JArr docs \<Rightarrow> int (length docs) | _ \<Rightarrow> 0)"

text \<open>What the seal binds of the packet and the submission, and the seal around it.\<close>

definition seal_bindings :: "(string \<times> json) list \<Rightarrow> (string \<times> json) list \<Rightarrow> (string \<times> json) list" where
  "seal_bindings packet submission =
     [(''plan_id'', field packet ''plan_id''), (''plan_sha256'', field packet ''plan_sha256''),
      (''source_manifest_sha256'', field packet ''source_manifest_sha256''), (''packet_sha256'', field packet ''packet_sha256''),
      (''submission_sha256'', field submission ''submission_sha256''), (''author'', field submission ''author''),
      (''documents'', document_count packet), (''regions'', count_items ''regions'' submission), (''queries'', count_items ''queries'' submission),
      (''score_access_authorized'', JBool True)]"

definition seal_payload :: "(string \<times> json) list \<Rightarrow> (string \<times> json) list \<Rightarrow> string \<Rightarrow> json \<Rightarrow> json \<Rightarrow> json \<Rightarrow> json \<Rightarrow> (string \<times> json) list" where
  "seal_payload packet submission reviewer attested_at attestation_url at_time review_url =
     [(''schema_version'', JStr SEAL_VERSION), (''plan_id'', field packet ''plan_id''), (''plan_sha256'', field packet ''plan_sha256''),
      (''source_manifest_sha256'', field packet ''source_manifest_sha256''), (''packet_sha256'', field packet ''packet_sha256''),
      (''submission_sha256'', field submission ''submission_sha256''), (''author'', field submission ''author''),
      (''author_attested_at'', attested_at), (''author_attestation_url'', attestation_url), (''reviewer'', JStr reviewer),
      (''reviewed_at'', at_time), (''review_url'', review_url), (''documents'', document_count packet),
      (''regions'', count_items ''regions'' submission), (''queries'', count_items ''queries'' submission), (''score_access_authorized'', JBool True)]"

definition sealed_with :: "engine \<Rightarrow> (string \<times> json) list \<Rightarrow> (string \<times> json) list" where
  "sealed_with e payload = payload @ [(''seal_sha256'', JStr (author_sha e payload))]"

definition seal_submission :: "engine \<Rightarrow> json \<Rightarrow> json \<Rightarrow> json \<Rightarrow> (string \<Rightarrow> json) \<Rightarrow> cycle_error + (string \<times> json) list" where
  "seal_submission e packet submission review_value provenance_loader =
     bindE (load_authoring_packet e packet) (\<lambda>p.
     bindE (load_submission e submission (JObj p)) (\<lambda>s.
     bindE (author_object ''review must be an object'' review_value) (\<lambda>r.
     bindE (author_keys review_keys r ''review'') (\<lambda>_.
     if field r ''schema_version'' \<noteq> JStr REVIEW_VERSION then Inl (AuthoringError ''unsupported review schema'')
     else
     bindE (author_human ''review.reviewer'' (field r ''reviewer'')) (\<lambda>reviewer.
     if field r ''packet_sha256'' \<noteq> field p ''packet_sha256'' then Inl (AuthoringError ''review packet digest mismatch'')
     else if field r ''submission_sha256'' \<noteq> field s ''submission_sha256'' then Inl (AuthoringError ''review submission digest mismatch'')
     else
     bindE (author_text ''review.author_attestation_url'' (field r ''author_attestation_url'')) (\<lambda>attestation_url.
     bindE (read_provenance ''author provenance is incomplete'' (provenance_loader attestation_url)) (\<lambda>author_pv.
     if \<not> author_bound s r author_pv then Inl (AuthoringError ''author provenance does not bind human no-model authorship'')
     else
     bindE (author_text ''review.review_url'' (field r ''review_url'')) (\<lambda>review_url.
     bindE (read_provenance ''review provenance is incomplete'' (provenance_loader review_url)) (\<lambda>pv.
     bindE (check_reviewer p s r reviewer pv) (\<lambda>_.
     Inr (sealed_with e (seal_payload p s reviewer (field r ''author_attested_at'') (field r ''author_attestation_url'')
       (field r ''reviewed_at'') (field r ''review_url'')))))))))))))"

definition seal_keys :: "string list" where
  "seal_keys = [''schema_version'', ''plan_id'', ''plan_sha256'', ''source_manifest_sha256'', ''packet_sha256'', ''submission_sha256'', ''author'',
     ''author_attested_at'', ''author_attestation_url'', ''reviewer'', ''reviewed_at'', ''review_url'', ''documents'', ''regions'', ''queries'',
     ''score_access_authorized'', ''seal_sha256'']"

definition seal_texts :: "string list" where
  "seal_texts = [''author_attested_at'', ''author_attestation_url'', ''reviewed_at'', ''review_url'']"

definition load_authoring_seal :: "engine \<Rightarrow> json \<Rightarrow> json \<Rightarrow> json \<Rightarrow> cycle_error + (string \<times> json) list" where
  "load_authoring_seal e v packet submission =
     bindE (load_authoring_packet e packet) (\<lambda>p.
     bindE (load_submission e submission (JObj p)) (\<lambda>s.
     bindE (author_object ''authoring seal must be an object'' v) (\<lambda>d.
     bindE (author_keys seal_keys d ''authoring seal'') (\<lambda>_.
     if field d ''schema_version'' \<noteq> JStr SEAL_VERSION then Inl (AuthoringError ''unsupported authoring seal schema'')
     else
     bindE (mapE (\<lambda>(k, expected). ensure (py_eq (field d k) expected) (AuthoringError (''authoring seal '' @ k @ '' binding mismatch'')))
       (seal_bindings p s)) (\<lambda>_.
     bindE (author_human ''authoring seal.reviewer'' (field d ''reviewer'')) (\<lambda>_.
     bindE (mapE (\<lambda>k. author_text (''authoring seal.'' @ k) (field d k)) seal_texts) (\<lambda>_.
     bindE (author_digest ''authoring seal.seal_sha256'' (field d ''seal_sha256'')) (\<lambda>digest.
     if author_sha e (without_digest ''seal_sha256'' d) \<noteq> digest then Inl (AuthoringError ''authoring seal digest mismatch'')
     else Inr d))))))))"

subsection \<open>What the seal binds\<close>

lemma author_text_JStr: "author_text part v = Inr t \<Longrightarrow> \<exists>raw. v = JStr raw \<and> t = strip raw \<and> t \<noteq> []"
  unfolding author_text_def using nonempty_text_ok by fastforce

lemma author_digest_JStr: "author_digest part v = Inr t \<Longrightarrow> \<exists>raw. v = JStr raw \<and> t = strip raw \<and> is_hex 64 t"
  by (auto simp: author_digest_def dest: author_text_JStr split: if_splits)

lemma author_human_JStr: "author_human part v = Inr t \<Longrightarrow> \<exists>raw. v = JStr raw \<and> t = strip raw \<and> t \<noteq> [] \<and> rx_fullmatch human_identity t"
  by (auto simp: author_human_def dest: author_text_JStr split: if_splits)

lemma author_object_JObj [simp]: "author_object message v = Inr d \<longleftrightarrow> v = JObj d"
  by (simp add: author_object_def split: json.split)

lemma loaded_packet:
  assumes "load_authoring_packet e v = Inr p"
  shows "v = JObj p" and "check_packet_head e p = Inr ()" and "load_authoring_packet e (JObj p) = Inr p"
proof -
  show v: "v = JObj p" and "check_packet_head e p = Inr ()"
    using assms by (auto simp: load_authoring_packet_def split: if_splits list.splits)
  show "load_authoring_packet e (JObj p) = Inr p" using assms unfolding v .
qed

lemma packet_head:
  assumes "check_packet_head e p = Inr ()"
  shows "\<exists>plan_id plan_sha manifest_sha digest. field p ''plan_id'' = JStr plan_id \<and> field p ''plan_sha256'' = JStr plan_sha \<and>
    field p ''source_manifest_sha256'' = JStr manifest_sha \<and> field p ''packet_sha256'' = JStr digest \<and>
    author_sha e (without_digest ''packet_sha256'' p) = strip digest"
proof -
  from assms obtain a b c d where "author_text ''authoring packet.plan_id'' (field p ''plan_id'') = Inr a"
    "author_digest ''authoring packet.plan_sha256'' (field p ''plan_sha256'') = Inr b"
    "author_digest ''authoring packet.source_manifest_sha256'' (field p ''source_manifest_sha256'') = Inr c"
    "author_digest ''authoring packet.packet_sha256'' (field p ''packet_sha256'') = Inr d"
    "author_sha e (without_digest ''packet_sha256'' p) = d"
    by (auto simp: check_packet_head_def split: if_splits)
  then show ?thesis using author_text_JStr author_digest_JStr by metis
qed

lemma loaded_submission:
  assumes "load_submission e v packet = Inr s"
  shows "v = JObj s" and "\<exists>p. load_authoring_packet e packet = Inr p \<and> check_submission_head e p s = Inr ()"
  using assms by (auto simp: load_submission_def submission_marks_def split: if_splits)

lemma submission_head:
  assumes "check_submission_head e p s = Inr ()"
  shows "\<exists>author digest. field s ''author'' = JStr author \<and> field s ''submission_sha256'' = JStr digest \<and>
    field s ''packet_sha256'' = field p ''packet_sha256'' \<and> author_sha e (without_digest ''submission_sha256'' s) = strip digest"
proof -
  from assms obtain a d where "author_human ''submission.author'' (field s ''author'') = Inr a"
    "author_digest ''submission.submission_sha256'' (field s ''submission_sha256'') = Inr d"
    "author_sha e (without_digest ''submission_sha256'' s) = d" "field s ''packet_sha256'' = field p ''packet_sha256''"
    by (auto simp: check_submission_head_def split: if_splits)
  then show ?thesis using author_human_JStr author_digest_JStr by metis
qed

lemma py_eq_JStr: "py_eq v (JStr s) \<longleftrightarrow> v = JStr s"
  by (cases v) (auto simp: num_eq_def)

text \<open>
  A seal authorises one content: when the same seal loads for two packets with their submissions, the digests of what the
  packets say, and of what the submissions say, are the same. Changing a sealed packet or submission closes the access.
\<close>

theorem seal_binds_content:
  assumes "load_authoring_seal e v packet submission = Inr d" and "load_authoring_seal e v packet' submission' = Inr d'"
  shows "\<exists>p s p' s'. packet = JObj p \<and> submission = JObj s \<and> packet' = JObj p' \<and> submission' = JObj s' \<and>
    author_sha e (without_digest ''packet_sha256'' p) = author_sha e (without_digest ''packet_sha256'' p') \<and>
    author_sha e (without_digest ''submission_sha256'' s) = author_sha e (without_digest ''submission_sha256'' s')"
proof -
  have parts: "\<exists>p s d. packet = JObj p \<and> submission = JObj s \<and> v = JObj d \<and>
      field d ''packet_sha256'' = field p ''packet_sha256'' \<and> field d ''submission_sha256'' = field s ''submission_sha256'' \<and>
      (\<exists>digest. field p ''packet_sha256'' = JStr digest \<and> author_sha e (without_digest ''packet_sha256'' p) = strip digest) \<and>
      (\<exists>digest. field s ''submission_sha256'' = JStr digest \<and> author_sha e (without_digest ''submission_sha256'' s) = strip digest)"
    if load: "load_authoring_seal e v packet submission = Inr d" for packet submission d
  proof -
    from load obtain p s us where p: "load_authoring_packet e packet = Inr p" and s: "load_submission e submission (JObj p) = Inr s"
      and v: "v = JObj d"
      and bind: "mapE (\<lambda>(k, expected). ensure (py_eq (field d k) expected) (AuthoringError (''authoring seal '' @ k @ '' binding mismatch'')))
        (seal_bindings p s) = Inr us"
      by (auto simp: load_authoring_seal_def split: if_splits)
    have eq: "py_eq (field d k) w" if "(k, w) \<in> set (seal_bindings p s)" for k w
      using bind that by (fastforce simp: mapE_eq_Inr list_all2_conv_all_nth in_set_conv_nth)
    obtain digest where pd: "field p ''packet_sha256'' = JStr digest" "author_sha e (without_digest ''packet_sha256'' p) = strip digest"
      using packet_head [OF loaded_packet(2) [OF p]] by blast
    obtain q where "check_submission_head e q s = Inr ()" using loaded_submission(2) [OF s] by blast
    from submission_head [OF this] obtain digest' where sd: "field s ''submission_sha256'' = JStr digest'"
      "author_sha e (without_digest ''submission_sha256'' s) = strip digest'" by blast
    have "(''packet_sha256'', JStr digest) \<in> set (seal_bindings p s)" "(''submission_sha256'', JStr digest') \<in> set (seal_bindings p s)"
      by (simp_all add: seal_bindings_def pd(1) sd(1))
    then have "field d ''packet_sha256'' = JStr digest" "field d ''submission_sha256'' = JStr digest'"
      using eq py_eq_JStr by blast+
    with pd sd v loaded_packet(1) [OF p] loaded_submission(1) [OF s] show ?thesis by auto
  qed
  from parts [OF assms(1)] parts [OF assms(2)] show ?thesis by auto
qed

text \<open>Any complete set of bindings with a digest loads: the loader never asks the code host.\<close>

definition hex_digests :: "engine \<Rightarrow> bool" where
  "hex_digests e \<longleftrightarrow> (\<forall>payload. is_hex 64 (en_sha e payload))"

lemma hex_not_space: "lower_hex c \<Longrightarrow> \<not> py_space c"
proof -
  have "list_all (\<lambda>c. \<not> py_space c) ''0123456789abcdef''" by code_simp
  then show "lower_hex c \<Longrightarrow> \<not> py_space c" unfolding lower_hex_def list_all_iff by blast
qed

lemma hex_strip: "is_hex n s \<Longrightarrow> 0 < n \<Longrightarrow> strip s = s \<and> s \<noteq> []"
proof -
  assume "is_hex n s" "0 < n"
  then have h: "length s = n" "\<forall>c \<in> set s. lower_hex c" "0 < n" unfolding is_hex_def list_all_iff by blast+
  then have ne: "s \<noteq> []" by force
  with h(2) hex_not_space show ?thesis by (simp add: strip_same)
qed

definition seal_review_ok :: "string \<Rightarrow> json list \<Rightarrow> bool" where
  "seal_review_ok reviewer texts \<longleftrightarrow> rx_fullmatch human_identity reviewer \<and> strip reviewer = reviewer \<and> reviewer \<noteq> [] \<and> list_all filled texts"

lemma author_text_filled: "filled v \<Longrightarrow> \<exists>t. author_text part v = Inr t"
  by (auto simp: filled_def author_text_def nonempty_text_def split: json.splits)

lemma any_seal_loads:
  assumes p: "load_authoring_packet e packet = Inr p" and s: "load_submission e submission (JObj p) = Inr s"
    and r: "seal_review_ok reviewer [a, b, c, d]" and hex: "hex_digests e"
  shows "load_authoring_seal e (JObj (sealed_with e (seal_payload p s reviewer a b c d))) packet submission =
    Inr (sealed_with e (seal_payload p s reviewer a b c d))"
proof -
  let ?pl = "seal_payload p s reviewer a b c d" and ?d = "sealed_with e (seal_payload p s reviewer a b c d)"
  obtain x1 x2 x3 x4 where pf: "field p ''plan_id'' = JStr x1" "field p ''plan_sha256'' = JStr x2"
    "field p ''source_manifest_sha256'' = JStr x3" "field p ''packet_sha256'' = JStr x4"
    using packet_head [OF loaded_packet(2) [OF p]] by blast
  obtain q where "check_submission_head e q s = Inr ()" using loaded_submission(2) [OF s] by blast
  from submission_head [OF this] obtain y1 y2 where sf: "field s ''author'' = JStr y1" "field s ''submission_sha256'' = JStr y2" by blast
  have keys: "author_keys seal_keys ?d ''authoring seal'' = Inr ()"
    by (simp add: author_keys_def strict_keys_ok fields_are_def seal_keys_def sealed_with_def seal_payload_def)
  have "list_all (\<lambda>(k, w). field ?d k = w) (seal_bindings p s)"
    by (simp add: seal_bindings_def sealed_with_def seal_payload_def field_def)
  then have fields_eq: "field ?d k = w" if "(k, w) \<in> set (seal_bindings p s)" for k w
    using that by (auto simp: list_all_iff)
  have "list_all (\<lambda>(k, w). py_eq w w) (seal_bindings p s)"
    by (simp add: seal_bindings_def pf sf num_eq_def document_count_def count_items_def)
  then have bind: "mapE (\<lambda>(k, expected). ensure (py_eq (field ?d k) expected) (AuthoringError (''authoring seal '' @ k @ '' binding mismatch'')))
      (seal_bindings p s) = Inr (map (\<lambda>_. ()) (seal_bindings p s))"
    using fields_eq by (auto simp: mapE_eq_Inr list_all2_map2 list_all2_same list_all_iff)
  have reviewer: "author_human ''authoring seal.reviewer'' (field ?d ''reviewer'') = Inr reviewer"
    using r by (simp add: seal_review_ok_def author_human_def author_text_def nonempty_text_def sealed_with_def seal_payload_def field_def)
  have f: "field ?d ''author_attested_at'' = a" "field ?d ''author_attestation_url'' = b" "field ?d ''reviewed_at'' = c" "field ?d ''review_url'' = d"
    by (simp_all add: sealed_with_def seal_payload_def field_def)
  have filled: "filled a" "filled b" "filled c" "filled d" using r by (simp_all add: seal_review_ok_def)
  have "\<exists>t. author_text (''authoring seal.'' @ k) (field ?d k) = Inr t" if k: "k \<in> set seal_texts" for k
  proof (rule author_text_filled)
    from k consider "k = ''author_attested_at''" | "k = ''author_attestation_url''" | "k = ''reviewed_at''" | "k = ''review_url''"
      unfolding seal_texts_def by auto
    then show "filled (field ?d k)" by cases (simp_all only: f filled)
  qed
  then obtain ts where ts: "mapE (\<lambda>k. author_text (''authoring seal.'' @ k) (field ?d k)) seal_texts = Inr ts"
    using mapE_total [of seal_texts "\<lambda>k. author_text (''authoring seal.'' @ k) (field ?d k)"] by blast
  have h: "is_hex 64 (author_sha e ?pl)" using hex by (simp add: hex_digests_def author_sha_def canonical_sha_def)
  from hex_strip [OF h] h have digest: "author_digest ''authoring seal.seal_sha256'' (field ?d ''seal_sha256'') = Inr (author_sha e ?pl)"
    by (simp add: author_digest_def author_text_def nonempty_text_def sealed_with_def seal_payload_def field_def)
  have without: "without_digest ''seal_sha256'' ?d = ?pl"
    by (simp add: without_digest_def sealed_with_def seal_payload_def)
  have version: "field ?d ''schema_version'' = JStr SEAL_VERSION" by (simp add: sealed_with_def seal_payload_def field_def)
  have object: "author_object message (JObj d) = Inr d" for message d by simp
  show ?thesis
    by (simp only: load_authoring_seal_def p s keys version bind reviewer ts digest without object bindE_def sum.case simp_thms if_False)
qed

text \<open>What \<open>seal_submission\<close> returns is accepted by the loader and comes back unchanged.\<close>

lemma sealed_loads:
  assumes "seal_submission e packet submission (JObj r) provenance_loader = Inr seal" and "hex_digests e"
    and "filled (field r ''author_attested_at'')" and "filled (field r ''reviewed_at'')"
  shows "load_authoring_seal e (JObj seal) packet submission = Inr seal"
proof -
  from assms(1) obtain p s reviewer u w where p: "load_authoring_packet e packet = Inr p"
    and s: "load_submission e submission (JObj p) = Inr s" and h: "author_human ''review.reviewer'' (field r ''reviewer'') = Inr reviewer"
    and texts: "author_text ''review.author_attestation_url'' (field r ''author_attestation_url'') = Inr u"
    "author_text ''review.review_url'' (field r ''review_url'') = Inr w"
    and seal: "seal = sealed_with e (seal_payload p s reviewer (field r ''author_attested_at'') (field r ''author_attestation_url'')
       (field r ''reviewed_at'') (field r ''review_url''))"
    by (auto simp: seal_submission_def split: if_splits)
  from author_human_JStr [OF h] have "seal_review_ok reviewer [field r ''author_attested_at'', field r ''author_attestation_url'',
      field r ''reviewed_at'', field r ''review_url'']"
    using assms(3,4) texts [THEN author_text_JStr] by (auto simp: seal_review_ok_def filled_def)
  from any_seal_loads [OF p s this assms(2)] show ?thesis unfolding seal .
qed

text \<open>
  The loader checks the seal against the packet and the submission only: it accepts a seal that names any reviewer, and any
  addresses and times, although nobody has reviewed anything. The digest of the seal needs no secret.
\<close>

lemma forged_seal_accepted:
  assumes "load_authoring_packet e packet = Inr p" and "load_submission e submission (JObj p) = Inr s" and "hex_digests e"
  shows "\<exists>d. load_authoring_seal e (JObj d) packet submission = Inr d \<and> field d ''reviewer'' = JStr ''github:nobody'' \<and>
    field d ''review_url'' = JStr ''none'' \<and> field d ''score_access_authorized'' = JBool True"
proof -
  have "seal_review_ok ''github:nobody'' [JStr ''never'', JStr ''none'', JStr ''never'', JStr ''none'']" by code_simp
  from any_seal_loads [OF assms(1,2) this assms(3)] show ?thesis
    by (intro exI conjI, assumption) (simp_all add: sealed_with_def seal_payload_def field_def)
qed

text \<open>The registered requirements ask for a distinct independent reviewer; the author's own comment is enough.\<close>

lemma author_may_review_alone:
  assumes "field submission ''author'' = JStr reviewer" and "reviewer = ''github:'' @ pv_login pv" and "pv_state pv = JStr ''COMMENTED''"
    and "py_eq (pv_submitted_at pv) (field r ''reviewed_at'')" and "py_eq (pv_url pv) (field r ''review_url'')"
    and "contains ''HUMAN_AUTHORED_NO_MODEL=TRUE'' (pv_body pv)" and "contains (submission_marker submission) (pv_body pv)"
  shows "check_reviewer packet submission r reviewer pv = Inr ()"
  using assms by (simp add: check_reviewer_def Let_def)

end
