(* ===== verification/CycleExecution.thy ===== *)
theory CycleExecution
  imports Authoring
begin

section \<open>The order of an evaluation cycle\<close>

text \<open>
  \<open>src/dsvire/cycle_execution.py\<close>: sources, authoring and review come before scores. The committed files of the directory
  \<open>evaluation\<close> are parameters, already decoded: the registered plans with their names in the order of the names, and the other
  files by name. \<open>JNull\<close> stands for an argument that is not given. \<open>e\<close> holds the PDF backend, SHA-256 and the decimal form
  of a float, and \<open>bracket_ok\<close> is the library's check of a bracketed host.
\<close>

definition CYCLE_V4_PLAN_ID :: string where "CYCLE_V4_PLAN_ID = ''dsvire-colsmol-egvv-cycle-v4@2026-08-13''"
definition CYCLE_V4_SOURCE_MANIFEST_SHA256 :: string where
  "CYCLE_V4_SOURCE_MANIFEST_SHA256 = ''90d4b2019d284627ef50dded91159b9d4639187d4a39e9346280345292a9fefc''"
definition CYCLE_V4_PACKET_SHA256 :: string where
  "CYCLE_V4_PACKET_SHA256 = ''021118687daf969490ee0f5b6289de4549e42bb76fe63d0038fe96c28ba5cb68''"
definition CYCLE_V5_PLAN_ID :: string where "CYCLE_V5_PLAN_ID = ''dsvire-colsmol-egvv-cycle-v5@2026-09-17''"
definition CYCLE_V5_SOURCE_MANIFEST_SHA256 :: string where
  "CYCLE_V5_SOURCE_MANIFEST_SHA256 = ''804eac0a66d70caa41f49cfdf272bdd1ec44b168a2abb155fbdcad81ce1c22dd''"
definition CYCLE_V5_PACKET_SHA256 :: string where
  "CYCLE_V5_PACKET_SHA256 = ''9387cb64cfa3d4625443b356bbbc4a2281ff2eccf6a2aeac3466a3a7dc0d3801''"

datatype stage = Preregistered | SourcesIncomplete | SourcesComplete | PacketReady | AwaitingHumanAuthoring
  | AwaitingIndependentReview | ScoresAuthorized

record cycle_status =
  cs_plan_id :: string
  cs_stage :: stage
  cs_sources_complete :: bool
  cs_invalidations :: "string list"
  cs_source_manifest_sha256 :: "string option"
  cs_packet_sha256 :: "string option"
  cs_score_access_authorized :: bool
  cs_blockers :: "string list"

definition stage_text :: "stage \<Rightarrow> string" where
  "stage_text s = (case s of Preregistered \<Rightarrow> ''preregistered'' | SourcesIncomplete \<Rightarrow> ''sources_incomplete''
     | SourcesComplete \<Rightarrow> ''sources_complete'' | PacketReady \<Rightarrow> ''packet_complete'' | AwaitingHumanAuthoring \<Rightarrow> ''awaiting_human_authoring''
     | AwaitingIndependentReview \<Rightarrow> ''awaiting_independent_review'' | ScoresAuthorized \<Rightarrow> ''scores_authorized'')"

definition or_null :: "string option \<Rightarrow> json" where
  "or_null o' = (case o' of None \<Rightarrow> JNull | Some s \<Rightarrow> JStr s)"

definition status_dict :: "cycle_status \<Rightarrow> (string \<times> json) list" where
  "status_dict s =
     [(''schema_version'', JStr ''dsvire.cycle-execution.v1''), (''plan_id'', JStr (cs_plan_id s)), (''stage'', JStr (stage_text (cs_stage s))),
      (''sources_complete'', JBool (cs_sources_complete s)), (''invalidations'', JArr (map JStr (cs_invalidations s))),
      (''source_manifest_sha256'', or_null (cs_source_manifest_sha256 s)), (''packet_sha256'', or_null (cs_packet_sha256 s)),
      (''score_access_authorized'', JBool (cs_score_access_authorized s)), (''blockers'', JArr (map JStr (cs_blockers s)))]"

record cycle_files =
  cf_plans :: "(string \<times> json) list"
  cf_file :: "string \<Rightarrow> json option"

subsection \<open>The plan\<close>

definition read_json :: "cycle_files \<Rightarrow> string \<Rightarrow> cycle_error + json" where
  "read_json files name = (case cf_file files name of None \<Rightarrow> Inl (CycleEscape ''FileNotFoundError'') | Some v \<Rightarrow> Inr v)"

definition ids_of_families :: "json list \<Rightarrow> string list" where
  "ids_of_families vs = List.map_filter (\<lambda>v. case v of JObj d \<Rightarrow> (case field d ''id'' of JStr s \<Rightarrow> Some s | _ \<Rightarrow> None) | _ \<Rightarrow> None) vs"

text \<open>One iteration over the plans: the ids consumed so far.\<close>

definition consume_plan :: "(pyfloat \<Rightarrow> string) \<Rightarrow> string \<Rightarrow> string list \<Rightarrow> string \<times> json \<Rightarrow> cycle_error + string list" where
  "consume_plan frepr excluding consumed item = (case item of (name, v) \<Rightarrow> (case v of
     JObj d \<Rightarrow>
       if str_of frepr (case map_of d ''plan_id'' of None \<Rightarrow> JStr [] | Some w \<Rightarrow> w) = excluding then Inr consumed
       else (case field d ''families'' of
         JArr families \<Rightarrow> Inr (consumed @ ids_of_families families)
       | _ \<Rightarrow> Inl (CycleError (name @ '' has no families'')))
   | _ \<Rightarrow> Inl (CycleError (name @ '' is not an object''))))"

definition consumed_family_ids :: "(pyfloat \<Rightarrow> string) \<Rightarrow> cycle_files \<Rightarrow> string \<Rightarrow> cycle_error + string set" where
  "consumed_family_ids frepr files excluding =
     bindE (foldE (consume_plan frepr excluding) [] (cf_plans files)) (\<lambda>ids. Inr (set ids))"

definition as_cycle_error :: "cycle_error + 'a \<Rightarrow> cycle_error + 'a" where
  "as_cycle_error r = (case r of
     Inl (PreregistrationError m) \<Rightarrow> Inl (CycleError m)
   | Inl (AuthoringError m) \<Rightarrow> Inl (CycleError m)
   | _ \<Rightarrow> r)"

text \<open>The loader of either cycle: its name in the messages, the file of its plan and the id of the plan.\<close>

definition load_cycle_plan :: "string \<Rightarrow> string \<Rightarrow> string \<Rightarrow> engine \<Rightarrow> (string \<Rightarrow> bool) \<Rightarrow> cycle_files \<Rightarrow> cycle_error + (string \<times> json) list" where
  "load_cycle_plan cycle name plan_id e bracket_ok files =
     bindE (read_json files name) (\<lambda>v. case v of
       JObj d \<Rightarrow>
         bindE (consumed_family_ids (en_frepr e) files plan_id) (\<lambda>consumed.
         bindE (as_cycle_error (load_retrieval_preregistration bracket_ok (en_sha e) (en_frepr e) consumed v)) (\<lambda>loaded.
         if pr_plan_id loaded \<noteq> plan_id \<or> map_of FROZEN_PLAN_DIGESTS (pr_plan_id loaded) \<noteq> Some (pr_sha256 loaded)
         then Inl (CycleError (''refusing an altered or unrecognized '' @ cycle @ '' plan''))
         else Inr d))
     | _ \<Rightarrow> Inl (CycleError (cycle @ '' plan is not an object'')))"

definition load_cycle_v4_plan :: "engine \<Rightarrow> (string \<Rightarrow> bool) \<Rightarrow> cycle_files \<Rightarrow> cycle_error + (string \<times> json) list" where
  "load_cycle_v4_plan = load_cycle_plan ''cycle v4'' ''retrieval_cycle_v4_preregistration.json'' CYCLE_V4_PLAN_ID"

definition load_cycle_v5_plan :: "engine \<Rightarrow> (string \<Rightarrow> bool) \<Rightarrow> cycle_files \<Rightarrow> cycle_error + (string \<times> json) list" where
  "load_cycle_v5_plan = load_cycle_plan ''cycle v5'' ''retrieval_cycle_v5_preregistration.json'' CYCLE_V5_PLAN_ID"

definition plan_ids :: "(string \<times> json) list \<Rightarrow> string set" where
  "plan_ids d = (case field d ''families'' of JArr vs \<Rightarrow> set (map (\<lambda>v. text_of (of_object ''id'' v)) vs) | _ \<Rightarrow> {})"

subsection \<open>What the manifest and the packet say\<close>

text \<open>
  The first \<open>try\<close> block: whether the sources are complete, the digest of the manifest and the blockers. \<open>rule\<close> raises what the
  cycle raises of a valid manifest.
\<close>

type_synonym manifest_verdict = "bool \<times> string option \<times> string list"

definition judge_manifest :: "(bool \<Rightarrow> string \<Rightarrow> string option) \<Rightarrow> engine \<Rightarrow> string set \<Rightarrow> json \<Rightarrow> cycle_error + manifest_verdict" where
  "judge_manifest rule e expected v = (case validate_source_manifest (en_sha e) (en_frepr e) expected v of
     Inl (SourceSealError m) \<Rightarrow> Inr (False, None, [m])
   | Inl (CycleTypeError m) \<Rightarrow> Inr (False, None, [m])
   | Inl x \<Rightarrow> Inl x
   | Inr _ \<Rightarrow>
       (let ready = truthy (of_object ''complete'' v) \<and> \<not> truthy (of_object ''invalidations'' v);
            sha = str_of (en_frepr e) (of_object ''manifest_sha256'' v)
        in case rule ready sha of None \<Rightarrow> Inr (ready, Some sha, []) | Some m \<Rightarrow> Inr (False, Some sha, [m])))"

definition v4_rule :: "bool \<Rightarrow> string \<Rightarrow> string option" where
  "v4_rule ready sha =
     (if ready then Some ''cycle v4 is retired; official MMA8451Q source was invalidated without replacement''
      else if sha \<noteq> CYCLE_V4_SOURCE_MANIFEST_SHA256 then Some ''live source manifest digest drifted from the retired cycle''
      else None)"

definition v5_rule :: "bool \<Rightarrow> string \<Rightarrow> string option" where
  "v5_rule ready sha =
     (if ready \<and> sha \<noteq> CYCLE_V5_SOURCE_MANIFEST_SHA256 then Some ''live source manifest digest drifted from the frozen cycle''
      else None)"

definition invalidated_ids :: "(pyfloat \<Rightarrow> string) \<Rightarrow> json \<Rightarrow> string list" where
  "invalidated_ids frepr v = (case of_object ''invalidations'' v of
     JArr items \<Rightarrow> map (\<lambda>x. str_of frepr (of_object ''id'' x)) (filter (\<lambda>x. truthy (of_object ''id'' x)) items)
   | _ \<Rightarrow> [])"

definition invalidation_blockers :: "string list \<Rightarrow> string list" where
  "invalidation_blockers ids =
     (if ids = [] then [] else [''official source invalidated without replacement: '' @ join '', '' ids])"

definition judge_packet :: "engine \<Rightarrow> string \<Rightarrow> json \<Rightarrow> cycle_error + string option \<times> string list" where
  "judge_packet e expected v = (case load_authoring_packet e v of
     Inl (AuthoringError m) \<Rightarrow> Inr (None, [m])
   | Inl x \<Rightarrow> Inl x
   | Inr p \<Rightarrow>
       (let sha = str_of (en_frepr e) (field p ''packet_sha256'')
        in Inr (Some sha, if sha \<noteq> expected then [''authoring packet digest drifted from the frozen cycle''] else [])))"

subsection \<open>The stage\<close>

text \<open>The stage, whether scores are authorised and the blockers, from the blockers so far.\<close>

definition judge_stage :: "string \<Rightarrow> engine \<Rightarrow> bool \<Rightarrow> json \<Rightarrow> json \<Rightarrow> json \<Rightarrow> string list \<Rightarrow> cycle_error + stage \<times> bool \<times> string list" where
  "judge_stage incomplete e ready packet submission seal blockers =
     (if \<not> ready then Inr (SourcesIncomplete, False, blockers @ [incomplete])
      else if submission = JNull \<and> seal = JNull
      then Inr (AwaitingHumanAuthoring, False, blockers @ [''Human A must author regions and natural queries; agents must not''])
      else if seal = JNull
      then Inr (AwaitingIndependentReview, False, blockers @ [''Human B must independently review and seal before score access''])
      else if packet = JNull \<or> submission = JNull then Inl (CycleError ''seal validation requires packet and submission'')
      else bindE (as_cycle_error (load_authoring_seal e seal packet submission)) (\<lambda>loaded.
        if \<not> truthy (field loaded ''score_access_authorized'') then Inl (CycleError ''seal does not authorize score access'')
        else Inr (ScoresAuthorized, True, [])))"

definition distinct_blockers :: "string list \<Rightarrow> string list" where
  "distinct_blockers xs = map fst (dict_of (map (\<lambda>x. (x, ())) xs))"

definition or_committed :: "cycle_files \<Rightarrow> string \<Rightarrow> json \<Rightarrow> cycle_error + json" where
  "or_committed files name v = (if v = JNull then read_json files name else Inr v)"

definition or_present :: "cycle_files \<Rightarrow> string \<Rightarrow> json \<Rightarrow> json" where
  "or_present files name v = (if v = JNull then (case cf_file files name of None \<Rightarrow> JNull | Some w \<Rightarrow> w) else v)"

definition inspect_cycle_v4 :: "engine \<Rightarrow> (string \<Rightarrow> bool) \<Rightarrow> cycle_files \<Rightarrow> json \<Rightarrow> json \<Rightarrow> json \<Rightarrow> json \<Rightarrow> cycle_error + cycle_status" where
  "inspect_cycle_v4 e bracket_ok files source_manifest packet submission seal =
     bindE (load_cycle_v4_plan e bracket_ok files) (\<lambda>plan.
     bindE (or_committed files ''retrieval_cycle_v4_source_manifest.json'' source_manifest) (\<lambda>manifest.
     bindE (judge_manifest v4_rule e (plan_ids plan) manifest) (\<lambda>(ready, manifest_sha, blockers).
     bindE (or_committed files ''retrieval_cycle_v4_authoring_packet.json'' packet) (\<lambda>packet.
     bindE (judge_packet e CYCLE_V4_PACKET_SHA256 packet) (\<lambda>(packet_sha, packet_blockers).
     bindE (judge_stage ''cycle v4 is retired; the live visual gate is cycle v5'' e ready packet submission seal
       (blockers @ invalidation_blockers (invalidated_ids (en_frepr e) manifest) @ packet_blockers)) (\<lambda>(stage, access, all_blockers).
     Inr \<lparr>cs_plan_id = CYCLE_V4_PLAN_ID, cs_stage = stage, cs_sources_complete = ready,
       cs_invalidations = invalidated_ids (en_frepr e) manifest, cs_source_manifest_sha256 = manifest_sha, cs_packet_sha256 = packet_sha,
       cs_score_access_authorized = access, cs_blockers = distinct_blockers all_blockers\<rparr>))))))"

definition inspect_cycle_v5 :: "engine \<Rightarrow> (string \<Rightarrow> bool) \<Rightarrow> cycle_files \<Rightarrow> json \<Rightarrow> json \<Rightarrow> json \<Rightarrow> json \<Rightarrow> cycle_error + cycle_status" where
  "inspect_cycle_v5 e bracket_ok files source_manifest packet submission seal =
     bindE (load_cycle_v5_plan e bracket_ok files) (\<lambda>plan.
     bindE (or_committed files ''retrieval_cycle_v5_source_manifest.json'' source_manifest) (\<lambda>manifest.
     bindE (judge_manifest v5_rule e (plan_ids plan) manifest) (\<lambda>(ready, manifest_sha, blockers).
     bindE (or_committed files ''retrieval_cycle_v5_authoring_packet.json'' packet) (\<lambda>packet.
     bindE (judge_packet e CYCLE_V5_PACKET_SHA256 packet) (\<lambda>(packet_sha, packet_blockers).
     bindE (judge_stage ''acquire the exact official PDFs before authoring or scoring'' e ready packet
       (or_present files ''retrieval_cycle_v5_authoring_submission.json'' submission)
       (or_present files ''retrieval_cycle_v5_authoring_seal.json'' seal)
       (blockers @ invalidation_blockers (invalidated_ids (en_frepr e) manifest) @ packet_blockers)) (\<lambda>(stage, access, all_blockers).
     Inr \<lparr>cs_plan_id = CYCLE_V5_PLAN_ID, cs_stage = stage, cs_sources_complete = ready,
       cs_invalidations = invalidated_ids (en_frepr e) manifest, cs_source_manifest_sha256 = manifest_sha, cs_packet_sha256 = packet_sha,
       cs_score_access_authorized = access, cs_blockers = distinct_blockers all_blockers\<rparr>))))))"

definition assert_score_access_authorized :: "cycle_status \<Rightarrow> cycle_error + unit" where
  "assert_score_access_authorized status = ensure (cs_score_access_authorized status)
     (CycleError ''score access is forbidden until sources, human authoring, and independent review are sealed'')"

subsection \<open>When scores may be seen\<close>

lemma as_cycle_error_ok [simp]: "as_cycle_error r = Inr a \<longleftrightarrow> r = Inr a"
  by (auto simp: as_cycle_error_def split: sum.splits cycle_error.splits)

text \<open>A valid manifest is complete when it has no invalidation, and carries its digest as a text.\<close>

lemma manifest_facts:
  assumes "validate_source_manifest sha frepr expected v = Inr ()"
  shows "\<exists>d invalidations. v = JObj d \<and> field d ''invalidations'' = JArr invalidations \<and> field d ''complete'' = JBool (invalidations = []) \<and>
    field d ''manifest_sha256'' = JStr (manifest_sha256 sha frepr d)"
  using valid_manifest [OF assms] by blast

lemma judged_manifest:
  "judge_manifest v5_rule e expected v = Inr (True, sha, blockers) \<longleftrightarrow>
     validate_source_manifest (en_sha e) (en_frepr e) expected v = Inr () \<and> truthy (of_object ''complete'' v) \<and>
     \<not> truthy (of_object ''invalidations'' v) \<and> str_of (en_frepr e) (of_object ''manifest_sha256'' v) = CYCLE_V5_SOURCE_MANIFEST_SHA256 \<and>
     sha = Some CYCLE_V5_SOURCE_MANIFEST_SHA256 \<and> blockers = []"
  by (auto simp: judge_manifest_def v5_rule_def Let_def split: sum.splits cycle_error.splits if_splits)

lemma py_eq_True: "py_eq v (JBool True) \<Longrightarrow> truthy v"
  by (cases v) (auto simp: num_eq_def split: if_splits)

lemma loaded_seal_authorises:
  assumes "load_authoring_seal e v packet submission = Inr d"
  shows "truthy (field d ''score_access_authorized'') \<and> packet \<noteq> JNull \<and> submission \<noteq> JNull \<and> v \<noteq> JNull \<and>
    (\<exists>p. load_authoring_packet e packet = Inr p)"
proof -
  from assms obtain p s us where p: "load_authoring_packet e packet = Inr p" and s: "load_submission e submission (JObj p) = Inr s"
    and v: "v = JObj d"
    and bind: "mapE (\<lambda>(k, expected). ensure (py_eq (field d k) expected) (AuthoringError (''authoring seal '' @ k @ '' binding mismatch'')))
      (seal_bindings p s) = Inr us"
    by (auto simp: load_authoring_seal_def split: if_splits)
  have eq: "py_eq (field d k) w" if "(k, w) \<in> set (seal_bindings p s)" for k w
    using bind that by (fastforce simp: mapE_eq_Inr list_all2_conv_all_nth in_set_conv_nth)
  have "(''score_access_authorized'', JBool True) \<in> set (seal_bindings p s)" by (simp add: seal_bindings_def)
  from py_eq_True [OF eq [OF this]] v p loaded_packet(1) [OF p] loaded_submission(1) [OF s] show ?thesis by simp
qed

lemma judged_stage:
  "judge_stage incomplete e ready packet submission seal blockers = Inr (st, True, out) \<longleftrightarrow>
     ready \<and> (\<exists>d. load_authoring_seal e seal packet submission = Inr d) \<and> st = ScoresAuthorized \<and> out = []"
  by (auto simp: judge_stage_def loaded_seal_authorises dest: loaded_seal_authorises split: if_splits)

text \<open>
  C30. A sealed submission opens. When the review names the time of the author's attestation and the time of the review, and digests
  are 64 hexadecimal characters, what \<open>seal_submission\<close> returns is accepted by \<open>load_authoring_seal\<close> for the same packet and
  submission and comes back unchanged; and once the sources of a cycle are complete, its stage with this packet, submission and seal
  authorises score access, whatever blocked before. The review may be the author's own (\<open>author_may_review_alone\<close>), although the documents of
  the repository ask for distinct humans.
\<close>

theorem sealed_submission_opens:
  assumes "seal_submission e packet submission (JObj r) provenance_loader = Inr seal" and "hex_digests e"
    and "filled (field r ''author_attested_at'')" and "filled (field r ''reviewed_at'')"
  shows "load_authoring_seal e (JObj seal) packet submission = Inr seal \<and>
    (\<forall>incomplete blockers. judge_stage incomplete e True packet submission (JObj seal) blockers = Inr (ScoresAuthorized, True, []))"
  using sealed_loads [OF assms] by (simp add: judged_stage)

text \<open>The status of a cycle whose order is complete.\<close>

lemma authorised_status:
  assumes "load_cycle_v5_plan e bracket_ok files = Inr plan"
    and "or_committed files ''retrieval_cycle_v5_source_manifest.json'' source_manifest = Inr manifest"
    and "validate_source_manifest (en_sha e) (en_frepr e) (plan_ids plan) manifest = Inr ()"
    and "of_object ''invalidations'' manifest = JArr []"
    and "of_object ''manifest_sha256'' manifest = JStr CYCLE_V5_SOURCE_MANIFEST_SHA256"
    and "or_committed files ''retrieval_cycle_v5_authoring_packet.json'' packet = Inr packet'"
    and "load_authoring_seal e (or_present files ''retrieval_cycle_v5_authoring_seal.json'' seal) packet'
         (or_present files ''retrieval_cycle_v5_authoring_submission.json'' submission) = Inr sealed"
  shows "\<exists>status. inspect_cycle_v5 e bracket_ok files source_manifest packet submission seal = Inr status \<and>
    cs_score_access_authorized status \<and> cs_stage status = ScoresAuthorized \<and> cs_blockers status = [] \<and>
    cs_packet_sha256 status = Some (str_of (en_frepr e) (of_object ''packet_sha256'' packet'))"
proof -
  from manifest_facts [OF assms(3)] assms(4) have "truthy (of_object ''complete'' manifest)" by (auto simp: of_object_def)
  with assms(3-5) have manifest: "judge_manifest v5_rule e (plan_ids plan) manifest = Inr (True, Some CYCLE_V5_SOURCE_MANIFEST_SHA256, [])"
    by (simp add: judged_manifest str_of_def)
  from loaded_seal_authorises [OF assms(7)] obtain p where p: "load_authoring_packet e packet' = Inr p" by blast
  then obtain packet_blockers where packet: "judge_packet e CYCLE_V5_PACKET_SHA256 packet' =
      Inr (Some (str_of (en_frepr e) (of_object ''packet_sha256'' packet')), packet_blockers)"
    using loaded_packet(1) [OF p] by (simp add: judge_packet_def of_object_def Let_def)
  have stage: "judge_stage incomplete e True packet' (or_present files ''retrieval_cycle_v5_authoring_submission.json'' submission)
      (or_present files ''retrieval_cycle_v5_authoring_seal.json'' seal) bs = Inr (ScoresAuthorized, True, [])" for incomplete bs
    using assms(7) by (simp add: judged_stage)
  show ?thesis
    by (simp add: inspect_cycle_v5_def assms(1,2,6) manifest packet stage distinct_blockers_def dict_of_def)
qed

text \<open>
  C31. Scores are open exactly at the end of the frozen order: the inspection of the live cycle authorises access if and only if
  the registered plan is the frozen one, the source manifest is valid for its families, nothing in it is invalidated and it has
  the frozen digest, and a seal loads for the packet and the submission. Then nothing else blocks.
\<close>

theorem score_access_exact:
  "(\<exists>status. inspect_cycle_v5 e bracket_ok files source_manifest packet submission seal = Inr status \<and>
      assert_score_access_authorized status = Inr ()) \<longleftrightarrow>
   (\<exists>plan manifest packet'. load_cycle_v5_plan e bracket_ok files = Inr plan \<and>
      or_committed files ''retrieval_cycle_v5_source_manifest.json'' source_manifest = Inr manifest \<and>
      validate_source_manifest (en_sha e) (en_frepr e) (plan_ids plan) manifest = Inr () \<and>
      of_object ''invalidations'' manifest = JArr [] \<and>
      of_object ''manifest_sha256'' manifest = JStr CYCLE_V5_SOURCE_MANIFEST_SHA256 \<and>
      or_committed files ''retrieval_cycle_v5_authoring_packet.json'' packet = Inr packet' \<and>
      (\<exists>sealed. load_authoring_seal e (or_present files ''retrieval_cycle_v5_authoring_seal.json'' seal) packet'
         (or_present files ''retrieval_cycle_v5_authoring_submission.json'' submission) = Inr sealed))"
    (is "?open \<longleftrightarrow> ?order")
proof
  assume ?open
  then obtain status where st: "inspect_cycle_v5 e bracket_ok files source_manifest packet submission seal = Inr status"
    and access: "cs_score_access_authorized status"
    by (auto simp: assert_score_access_authorized_def)
  from st obtain plan manifest ready manifest_sha blockers packet' packet_sha packet_blockers stage granted out where
    parts: "load_cycle_v5_plan e bracket_ok files = Inr plan"
      "or_committed files ''retrieval_cycle_v5_source_manifest.json'' source_manifest = Inr manifest"
      "judge_manifest v5_rule e (plan_ids plan) manifest = Inr (ready, manifest_sha, blockers)"
      "or_committed files ''retrieval_cycle_v5_authoring_packet.json'' packet = Inr packet'"
      "judge_stage ''acquire the exact official PDFs before authoring or scoring'' e ready packet'
         (or_present files ''retrieval_cycle_v5_authoring_submission.json'' submission)
         (or_present files ''retrieval_cycle_v5_authoring_seal.json'' seal)
         (blockers @ invalidation_blockers (invalidated_ids (en_frepr e) manifest) @ packet_blockers) = Inr (stage, granted, out)"
    and status: "cs_score_access_authorized status = granted"
    by (auto simp: inspect_cycle_v5_def)
  have seal: ready "\<exists>sealed. load_authoring_seal e (or_present files ''retrieval_cycle_v5_authoring_seal.json'' seal) packet'
      (or_present files ''retrieval_cycle_v5_authoring_submission.json'' submission) = Inr sealed"
    using parts(5) access status by (simp_all add: judged_stage)
  then have "judge_manifest v5_rule e (plan_ids plan) manifest = Inr (True, manifest_sha, blockers)" using parts(3) by simp
  then have valid: "validate_source_manifest (en_sha e) (en_frepr e) (plan_ids plan) manifest = Inr ()"
    "\<not> truthy (of_object ''invalidations'' manifest)"
    "str_of (en_frepr e) (of_object ''manifest_sha256'' manifest) = CYCLE_V5_SOURCE_MANIFEST_SHA256"
    by (simp_all add: judged_manifest)
  from manifest_facts [OF valid(1)] valid(2,3) have "of_object ''invalidations'' manifest = JArr []"
    "of_object ''manifest_sha256'' manifest = JStr CYCLE_V5_SOURCE_MANIFEST_SHA256"
    by (auto simp: of_object_def str_of_def)
  with parts(1,2,4) valid(1) seal(2) show ?order by blast
next
  assume ?order
  then obtain plan manifest packet' sealed where
    parts: "load_cycle_v5_plan e bracket_ok files = Inr plan"
      "or_committed files ''retrieval_cycle_v5_source_manifest.json'' source_manifest = Inr manifest"
      "validate_source_manifest (en_sha e) (en_frepr e) (plan_ids plan) manifest = Inr ()"
      "of_object ''invalidations'' manifest = JArr []"
      "of_object ''manifest_sha256'' manifest = JStr CYCLE_V5_SOURCE_MANIFEST_SHA256"
      "or_committed files ''retrieval_cycle_v5_authoring_packet.json'' packet = Inr packet'"
      "load_authoring_seal e (or_present files ''retrieval_cycle_v5_authoring_seal.json'' seal) packet'
         (or_present files ''retrieval_cycle_v5_authoring_submission.json'' submission) = Inr sealed" by blast
  from authorised_status [OF parts] show ?open by (auto simp: assert_score_access_authorized_def)
qed

text \<open>
  The packet's digest is reported and not required: with a manifest of the frozen digest and a seal that loads, access is
  granted and the blockers are cleared although the packet is not the frozen one. Nor are the plan and the source manifest that
  the packet names compared with those of the cycle.
\<close>

lemma drifted_packet_authorises:
  assumes "load_cycle_v5_plan e bracket_ok files = Inr plan"
    and "or_committed files ''retrieval_cycle_v5_source_manifest.json'' source_manifest = Inr manifest"
    and "validate_source_manifest (en_sha e) (en_frepr e) (plan_ids plan) manifest = Inr ()"
    and "of_object ''invalidations'' manifest = JArr []"
    and "of_object ''manifest_sha256'' manifest = JStr CYCLE_V5_SOURCE_MANIFEST_SHA256"
    and "or_committed files ''retrieval_cycle_v5_authoring_packet.json'' packet = Inr packet'"
    and "load_authoring_seal e (or_present files ''retrieval_cycle_v5_authoring_seal.json'' seal) packet'
         (or_present files ''retrieval_cycle_v5_authoring_submission.json'' submission) = Inr sealed"
    and "of_object ''packet_sha256'' packet' = JStr drifted" and "drifted \<noteq> CYCLE_V5_PACKET_SHA256"
  shows "\<exists>status. inspect_cycle_v5 e bracket_ok files source_manifest packet submission seal = Inr status \<and>
    cs_score_access_authorized status \<and> cs_blockers status = [] \<and> cs_packet_sha256 status = Some drifted"
  using authorised_status [OF assms(1-7)] assms(8) by (auto simp: str_of_def)

lemma distinct_blockers_set: "set (distinct_blockers xs) = set xs \<and> distinct (distinct_blockers xs)"
  by (simp add: distinct_blockers_def image_image)

text \<open>
  The retired cycle never opens: whatever files and arguments it is given, an inspection of cycle v4 that returns is at the
  stage of incomplete sources, authorises nothing and names its retirement, once, among the blockers.
\<close>

theorem retired_cycle_stays_closed:
  assumes "inspect_cycle_v4 e bracket_ok files source_manifest packet submission seal = Inr status"
  shows "cs_stage status = SourcesIncomplete \<and> \<not> cs_sources_complete status \<and>
    ''cycle v4 is retired; the live visual gate is cycle v5'' \<in> set (cs_blockers status) \<and> distinct (cs_blockers status) \<and>
    assert_score_access_authorized status \<noteq> Inr ()"
proof -
  have never: "judge_manifest v4_rule e expected v = Inr (ready, sha, bs) \<Longrightarrow> \<not> ready" for expected v ready sha bs
    by (auto simp: judge_manifest_def v4_rule_def Let_def split: sum.splits cycle_error.splits if_splits)
  from assms obtain plan manifest ready manifest_sha blockers packet' stage granted bs out where
    m: "judge_manifest v4_rule e (plan_ids plan) manifest = Inr (ready, manifest_sha, blockers)"
    and s: "judge_stage ''cycle v4 is retired; the live visual gate is cycle v5'' e ready packet' submission seal bs = Inr (stage, granted, out)"
    and status: "cs_stage status = stage" "cs_sources_complete status = ready" "cs_score_access_authorized status = granted"
      "cs_blockers status = distinct_blockers out"
    by (auto simp: inspect_cycle_v4_def)
  from s never [OF m] have "stage = SourcesIncomplete" "\<not> granted"
    "''cycle v4 is retired; the live visual gate is cycle v5'' \<in> set out" unfolding judge_stage_def by auto
  with never [OF m] status distinct_blockers_set [of out] show ?thesis by (simp add: assert_score_access_authorized_def)
qed

end
