(* ===== verification/Campaign.thy ===== *)
theory Campaign
  imports CycleExecution VisualMetrics
begin

section \<open>Calibrate, freeze, evaluate once\<close>

text \<open>
  \<open>src/dsvire/egvv_campaign.py\<close>: the decision of the verifier, the calibration that freezes its policy and the evaluation of the
  frozen policy, both behind the status of the cycle. \<open>sha\<close> is SHA-256, \<open>frepr\<close> the decimal form of a float, \<open>float_sum\<close> and
  \<open>square\<close> the float arithmetic of the score metrics.
\<close>

datatype outcome = Accepted | Rejected | Abstained

record egvv_decision =
  ed_outcome :: outcome
  ed_score :: rat
  ed_semantics :: string

definition decide :: "pyfloat \<Rightarrow> frozen_policy \<Rightarrow> cycle_error + egvv_decision" where
  "decide score p =
     (if score_semantics p \<noteq> ''calibrated_probability''
      then Inl (CampaignError ''EGVV production decisions require calibrated_probability semantics'')
      else case score of
        Flt r \<Rightarrow>
          if \<not> (0 \<le> r \<and> r \<le> 1) then Inl (CampaignError ''EGVV score must be within 0..=1'')
          else Inr \<lparr>ed_outcome = (if threshold p < r then Accepted else if r = 0 then Rejected else Abstained),
            ed_score = r, ed_semantics = score_semantics p\<rparr>
      | _ \<Rightarrow> Inl (CampaignError ''EGVV score must be within 0..=1''))"

definition as_campaign_error :: "metric_error + 'a \<Rightarrow> cycle_error + 'a" where
  "as_campaign_error r = (case r of
     Inl (MetricError m) \<Rightarrow> Inl (CampaignError m)
   | Inl (MetricEscape m) \<Rightarrow> Inl (CycleEscape m)
   | Inr a \<Rightarrow> Inr a)"

text \<open>The arguments of \<open>calibrate\<close> and the request it makes of \<open>freeze_policy\<close>.\<close>

record verifier_identity =
  mi_model :: string
  mi_model_sha256 :: string
  mi_preprocessing :: string
  mi_dataset_sha256 :: string
  mi_calibration :: string

definition campaign_request :: "verifier_identity \<Rightarrow> policy_request" where
  "campaign_request m = \<lparr>rq_model = mi_model m, rq_model_sha256 = mi_model_sha256 m, rq_preprocessing = mi_preprocessing m,
     rq_dataset_sha256 = mi_dataset_sha256 m, rq_semantics = ''calibrated_probability'', rq_calibration = Some (mi_calibration m),
     rq_maximum_rate = rnd (2 / 100), rq_minimum_coverage = rnd (1 / 2)\<rparr>"

definition calibrate :: "prediction list \<Rightarrow> cycle_status \<Rightarrow> verifier_identity \<Rightarrow> cycle_error + frozen_policy" where
  "calibrate ps status m =
     bindE (assert_score_access_authorized status) (\<lambda>_.
     if list_ex (\<lambda>p. pr_split p = ''evaluation'') ps
     then Inl (CampaignError ''calibration must not observe evaluation predictions'')
     else
     bindE (as_campaign_error (freeze_policy (campaign_request m) ps)) (\<lambda>(policy, counts).
     if sel_wrong_identity counts \<noteq> 0
     then Inl (CampaignError ''calibration accepted a wrong-variant or wrong-package case'')
     else Inr policy))"

definition evaluate_once :: "(bytes \<Rightarrow> string) \<Rightarrow> (pyfloat \<Rightarrow> string) \<Rightarrow> (rat list \<Rightarrow> rat) \<Rightarrow> (rat \<Rightarrow> rat) \<Rightarrow> prediction list \<Rightarrow>
    frozen_policy \<Rightarrow> cycle_status \<Rightarrow> string \<Rightarrow> cycle_error + (string \<times> json) list" where
  "evaluate_once sha frepr float_sum square ps policy status expected =
     bindE (assert_score_access_authorized status) (\<lambda>_.
     if policy_sha256 sha frepr policy \<noteq> expected
     then Inl (CampaignError ''held-out evaluation policy digest does not match the freeze'')
     else if list_ex (\<lambda>p. pr_split p \<noteq> ''evaluation'') ps
     then Inl (CampaignError ''held-out evaluation must contain only evaluation split predictions'')
     else
     bindE (as_campaign_error (evaluate_policy sha frepr float_sum square ps policy)) (\<lambda>result.
     let metric = (\<lambda>k. of_object k (field result ''metrics''))
     in Inr [(''schema_version'', field result ''schema_version''), (''policy_sha256'', field result ''policy_sha256''),
       (''gate_passed'', JBool (truthy (field result ''gate_passed''))), (''wrong_visual_rate'', metric ''wrong_visual_rate''),
       (''wrong_identity_accepted'', metric ''wrong_identity_accepted''), (''positive_coverage'', metric ''positive_coverage''),
       (''passed_wrong_figure_gate'', JBool (truthy (field result ''gate_passed'')))]))"

subsection \<open>What a campaign shows\<close>

lemma as_campaign_error_ok [simp]: "as_campaign_error r = Inr a \<longleftrightarrow> r = Inr a"
  by (auto simp: as_campaign_error_def split: sum.splits metric_error.splits)

text \<open>
  The decision in production is the one that calibration and evaluation count: a case is accepted exactly if the metrics count
  it as accepted at the policy's threshold.
\<close>

lemma decision_is_the_measured_one:
  assumes "score_semantics policy = ''calibrated_probability''" and "0 \<le> pr_score p" and "pr_score p \<le> 1"
  shows "\<exists>d. decide (Flt (pr_score p)) policy = Inr d \<and> (ed_outcome d = Accepted \<longleftrightarrow> accepted (threshold policy) p)"
  using assms by (auto simp: decide_def accepted_def)

text \<open>
  A passed gate is a held-out result: when \<open>calibrate\<close> freezes a policy and \<open>evaluate_once\<close> reports a passed gate for its
  digest, both ran with score access, the calibration saw no evaluation prediction and the evaluation nothing else, the policy
  was frozen at the registered limits of 2% wrong visuals and 50% coverage, it accepted no wrong identity in either, and in the
  evaluation it is within the limits of the policy it was given.
\<close>

theorem passed_gate_is_held_out:
  assumes "calibrate cs status m = Inr policy"
    and "evaluate_once sha frepr float_sum square es policy' status' (policy_sha256 sha frepr policy) = Inr report"
    and "field report ''passed_wrong_figure_gate'' = JBool True"
  shows "cs_score_access_authorized status \<and> cs_score_access_authorized status' \<and>
    (\<forall>p \<in> set cs. pr_split p \<noteq> ''evaluation'') \<and> es \<noteq> [] \<and> (\<forall>p \<in> set es. pr_split p = ''evaluation'') \<and>
    policy_sha256 sha frepr policy' = policy_sha256 sha frepr policy \<and>
    maximum_wrong_visual_rate policy = rnd (2 / 100) \<and> minimum_positive_coverage policy = rnd (1 / 2) \<and>
    score_semantics policy = ''calibrated_probability'' \<and>
    sel_wrong_identity (selective_counts (threshold policy) (calibration_cases cs)) = 0 \<and>
    gate_passed policy' (selective_counts (threshold policy') es)"
proof -
  from assms(1) obtain counts where c: "cs_score_access_authorized status" "\<forall>p \<in> set cs. pr_split p \<noteq> ''evaluation''"
    "freeze_policy (campaign_request m) cs = Inr (policy, counts)" "sel_wrong_identity counts = 0"
    by (auto simp: calibrate_def assert_score_access_authorized_def list_ex_iff split: if_splits)
  obtain cal where parts: "choose_threshold (rq_maximum_rate (campaign_request m)) (calibration_cases cs) = Inr (threshold policy, counts)"
    "maximum_wrong_visual_rate policy = rq_maximum_rate (campaign_request m)" "score_semantics policy = rq_semantics (campaign_request m)"
    using freeze_policy_parts [OF c(3)] by metis
  note best = choose_threshold_best [OF parts(1)]
  from assms(2) obtain result where e: "cs_score_access_authorized status'" "policy_sha256 sha frepr policy' = policy_sha256 sha frepr policy"
    "\<forall>p \<in> set es. pr_split p = ''evaluation''" "evaluate_policy sha frepr float_sum square es policy' = Inr result"
    "field report ''passed_wrong_figure_gate'' = JBool (truthy (field result ''gate_passed''))"
    by (auto simp: evaluate_once_def assert_score_access_authorized_def list_ex_iff Let_def field_def split: if_splits)
  from e(4) obtain vs where v: "validated_predictions es = Inr vs" "filter (\<lambda>x. pr_split x = ''evaluation'') vs \<noteq> []"
    "field result ''gate_passed'' = JBool (gate_passed policy' (selective_counts (threshold policy') (filter (\<lambda>x. pr_split x = ''evaluation'') vs)))"
    by (auto simp: evaluate_policy_def Let_def field_def split: if_splits)
  have "filter (\<lambda>x. pr_split x = ''evaluation'') vs = es" using v(1) e(3) by (auto simp: validated_iff)
  then have gate: "es \<noteq> []" "gate_passed policy' (selective_counts (threshold policy') es)"
    using v(2,3) e(5) assms(3) by simp_all
  have "minimum_positive_coverage policy = rnd (1 / 2)"
    using c(3) by (auto simp: freeze_policy_def campaign_request_def Let_def split: if_splits)
  with c e gate parts(2,3) best(2) show ?thesis by (simp add: campaign_request_def)
qed

text \<open>
  The metrics refuse predictions of one document in two splits, but each call of the campaign sees one split only: the same
  case, of the same document, calibrates the policy and passes its held-out evaluation.
\<close>

definition leak_model :: verifier_identity where
  "leak_model = \<lparr>mi_model = ''m'', mi_model_sha256 = replicate 64 CHR ''a'', mi_preprocessing = ''p'',
     mi_dataset_sha256 = replicate 64 CHR ''b'', mi_calibration = ''c''\<rparr>"

definition leaked_cases :: "string \<Rightarrow> prediction list" where
  "leaked_cases split = [\<lparr>pr_case = ''a'', pr_group = ''g'', pr_split = split, pr_label = ''positive'', pr_score = 3 / 4\<rparr>,
     \<lparr>pr_case = ''b'', pr_group = ''g'', pr_split = split, pr_label = ''wrong_view'', pr_score = 1 / 2\<rparr>]"

definition open_status :: cycle_status where
  "open_status = \<lparr>cs_plan_id = CYCLE_V5_PLAN_ID, cs_stage = ScoresAuthorized, cs_sources_complete = True, cs_invalidations = [],
     cs_source_manifest_sha256 = Some CYCLE_V5_SOURCE_MANIFEST_SHA256, cs_packet_sha256 = Some CYCLE_V5_PACKET_SHA256,
     cs_score_access_authorized = True, cs_blockers = []\<rparr>"

definition leak_policy :: frozen_policy where
  "leak_policy = (case calibrate (leaked_cases ''calibration'') open_status leak_model of Inr p \<Rightarrow> p | Inl _ \<Rightarrow> sample_policy 0)"

definition leak_report :: "(string \<times> json) list" where
  "leak_report = (case evaluate_once (\<lambda>_. []) (\<lambda>_. []) fsum (\<lambda>x. fmul x x) (leaked_cases ''evaluation'') leak_policy open_status
     (policy_sha256 (\<lambda>_. []) (\<lambda>_. []) leak_policy) of Inr r \<Rightarrow> r | Inl _ \<Rightarrow> [])"

lemma split_leak_passes:
  "calibrate (leaked_cases ''calibration'') open_status leak_model = Inr leak_policy \<and>
   evaluate_once (\<lambda>_. []) (\<lambda>_. []) fsum (\<lambda>x. fmul x x) (leaked_cases ''evaluation'') leak_policy open_status
     (policy_sha256 (\<lambda>_. []) (\<lambda>_. []) leak_policy) = Inr leak_report \<and>
   field leak_report ''passed_wrong_figure_gate'' = JBool True"
  by code_simp

lemma passed_gate_is_held_out_witness:
  "sel_wrong_identity (selective_counts (threshold leak_policy) (calibration_cases (leaked_cases ''calibration''))) = 0"
  using passed_gate_is_held_out [OF split_leak_passes [THEN conjunct1] split_leak_passes [THEN conjunct2, THEN conjunct1]
    split_leak_passes [THEN conjunct2, THEN conjunct2]] by blast

end
