(* ===== verification/CycleDemo.thy ===== *)
theory CycleDemo
  imports Campaign EvidenceRun
begin

section \<open>An example of a cycle\<close>

text \<open>
  A plan of twelve families, an acquisition that seals one of them and invalidates the others, a packet and a submission for
  twelve documents, and a review. SHA-256 is instantiated by a function that returns one digest, which the frozen plan has too.
  The witnesses of the properties of the cycle use them.
\<close>

definition demo_digest :: string where
  "demo_digest = ''62960b1d4e4ffdb4ca34696e985b33e589cae7203c28017f6aed8345f1ca60d4''"

definition letters :: string where
  "letters = ''abdefghijklm''"

definition demo_makers :: "(string \<times> string) list" where
  "demo_makers = take 6 REQUIRED_MANUFACTURERS"

definition demo_family :: "nat \<Rightarrow> json" where
  "demo_family i = (let c = letters ! i; m = demo_makers ! (if i < 6 then i else i - 6) in JObj
     [(''id'', JStr (''family'' @ [c])), (''split'', JStr (if i < 6 then ''calibration'' else ''evaluation'')),
      (''manufacturer'', JStr (fst m)), (''category'', JStr [c]), (''datasheet_identity'', JStr ''d''), (''selected_mpn'', JStr ''m''),
      (''selected_package'', JStr ''p''), (''official_source_url'', JStr (''https://'' @ snd m @ ''/x''))])"

definition demo_plan_items :: "string \<Rightarrow> (string \<times> json) list" where
  "demo_plan_items plan_id =
     [(''schema_version'', JStr PLAN_VERSION), (''plan_id'', JStr plan_id), (''parent_issue'', JNull), (''tracking_issue'', JNull),
      (''sealed_before'', JNull), (''families'', JArr (map demo_family [0..<12])),
      (''acquisition'', JObj [(''allowed_redirects'', JInt 1), (''maximum_pdf_bytes'', JInt 100)]), (''annotation'', JNull),
      (''queries'', JNull), (''candidate_universe'', JNull), (''systems'', JNull), (''metrics'', JNull), (''frozen_gate'', expected_gate),
      (''execution_order'', JNull), (''invalidation'', JNull),
      (''publication_policy'', JStr ''automated catalog publication remains disabled'')]"

definition demo_plan :: json where
  "demo_plan = JObj (demo_plan_items CYCLE_V5_PLAN_ID)"

definition demo_families :: "family list" where
  "demo_families = map (\<lambda>i. case demo_family i of JObj d \<Rightarrow> family_of d | _ \<Rightarrow> undefined) [0..<12]"

lemma demo_plan_families: "plan_families (\<lambda>_. True) {} (demo_plan_items plan_id) = Inr demo_families"
proof -
  have f: "field (demo_plan_items plan_id) ''families'' = JArr (map demo_family [0..<12])"
    by (simp add: demo_plan_items_def field_def)
  have "foldE (check_family (\<lambda>_. True)) [] (enumerate 0 (map demo_family [0..<12])) = Inr demo_families" by code_simp
  moreover have "length (map demo_family [0..<12]) = 12" by simp
  moreover have "distinct (map fa_id demo_families) \<and> length (in_split ''calibration'' demo_families) = 6 \<and>
      length (in_split ''evaluation'' demo_families) = 6" by code_simp
  moreover have "map fa_manufacturer (in_split ''calibration'' demo_families) = map fa_manufacturer (in_split ''evaluation'' demo_families) \<and>
     in_split ''calibration'' demo_families \<noteq> [] \<and> in_split ''evaluation'' demo_families \<noteq> []" by code_simp
  moreover have "check_families {} demo_families = Inr ()"
    using calculation(3,4) unfolding check_families_ok split_manufacturers_def by simp
  ultimately show ?thesis
    by (simp only: plan_families_def f json.case bindE_def sum.case simp_thms if_False)
qed

lemma demo_plan_loads:
  assumes "plan_id \<in> {CYCLE_V4_PLAN_ID, CYCLE_V5_PLAN_ID}"
  shows "load_retrieval_preregistration (\<lambda>_. True) (\<lambda>_. h) frepr {} (JObj (demo_plan_items plan_id)) =
    Inr \<lparr>pr_plan_id = plan_id, pr_sha256 = h, pr_family_ids = map fa_id demo_families\<rparr>"
proof -
  let ?d = "demo_plan_items plan_id"
  have f: "field ?d ''schema_version'' = JStr PLAN_VERSION" "field ?d ''plan_id'' = JStr plan_id" "field ?d ''frozen_gate'' = expected_gate"
    "field ?d ''publication_policy'' = JStr ''automated catalog publication remains disabled''"
    by (simp_all add: demo_plan_items_def field_def)
  have keys: "fields_are plan_keys ?d" by (simp add: fields_are_def plan_keys_def demo_plan_items_def)
  have ids: "filled (JStr CYCLE_V4_PLAN_ID) \<and> filled (JStr CYCLE_V5_PLAN_ID) \<and> strip CYCLE_V4_PLAN_ID = CYCLE_V4_PLAN_ID \<and>
    strip CYCLE_V5_PLAN_ID = CYCLE_V5_PLAN_ID" by code_simp
  have i: "filled (JStr plan_id)" "strip plan_id = plan_id" using assms ids by auto
  have gate: "py_eq expected_gate expected_gate" by (rule py_eq_refl) (simp_all add: expected_gate_def)
  have policy: "check_policy (JStr ''automated catalog publication remains disabled'') = Inr ()" by code_simp
  show ?thesis
    unfolding load_retrieval_preregistration_def json.case f demo_plan_families bindE_def sum.case policy canonical_sha_def
    by (simp only: keys i gate simp_thms if_False text_of_def json.case)
qed

subsection \<open>Acquisition\<close>

definition demo_sources :: source_env where
  "demo_sources = \<lparr>se_fetch = (\<lambda>i _. if i = ''familya'' then Some \<lparr>re_redirects = [], re_final_url = ''https://x/a'', re_content_length = None,
      re_chunks = [''%PDF-1.7''], re_broken = False\<rparr> else None),
    se_reader = (\<lambda>_. Some \<lparr>pd_metadata = [], pd_pages = [''Family A, familya'']\<rparr>), se_sha = (\<lambda>_. demo_digest), se_frepr = (\<lambda>_. ''0''),
    se_bracket_ok = (\<lambda>_. True)\<rparr>"

definition demo_acquired :: "json \<times> acquisition" where
  "demo_acquired = (case acquire_source_manifest demo_sources {} 1 0 [] demo_plan of Inr r \<Rightarrow> r | Inl _ \<Rightarrow> undefined)"

lemma demo_acquisition: "acquire_source_manifest demo_sources {} 1 0 [] demo_plan = Inr (fst demo_acquired, snd demo_acquired)"
proof -
  have "\<not> isl (acquire_source_manifest demo_sources {} 1 0 [] demo_plan)" by code_simp
  then show ?thesis unfolding demo_acquired_def by (cases "acquire_source_manifest demo_sources {} 1 0 [] demo_plan") simp_all
qed


subsection \<open>Where a prohibited field can be\<close>

text \<open>A word without punctuation is in the printed value only if a key or a scalar of it contains the word.\<close>

lemma contains_sublist: "contains w s \<longleftrightarrow> sublist w s"
  by (auto simp: contains_iff sublist_def)

lemma contains_apart: "w \<noteq> [] \<Longrightarrow> c \<notin> set w \<Longrightarrow> contains w (xs @ c # ys) \<longleftrightarrow> contains w xs \<or> contains w ys"
proof -
  assume w: "w \<noteq> []" "c \<notin> set w"
  have head: "sublist w (c # ys) \<longleftrightarrow> sublist w ys" using w by (auto simp: sublist_Cons_right prefix_Cons)
  have "\<not> (\<exists>u v. w = u @ v \<and> v \<noteq> [] \<and> prefix v (c # ys))" using w(2) by (auto simp: prefix_Cons)
  then have "(\<exists>u v. w = u @ v \<and> suffix u xs \<and> prefix v (c # ys)) \<longrightarrow> sublist w xs"
    using suffix_imp_sublist by (metis append_Nil2)
  then show ?thesis unfolding contains_sublist sublist_append head by blast
qed

definition punctuation :: string where
  "punctuation = ''{}[],: ''"

fun exposes :: "(pyfloat \<Rightarrow> string) \<Rightarrow> string \<Rightarrow> json \<Rightarrow> bool" where
  "exposes frepr w (JArr xs) = list_ex (exposes frepr w) xs"
| "exposes frepr w (JObj d) = list_ex (\<lambda>(k, v). contains w (casefold (quote_str True k)) \<or> exposes frepr w v) d"
| "exposes frepr w v = contains w (casefold (dumps True frepr v))"

lemma casefold_append [simp]: "casefold (xs @ ys) = casefold xs @ casefold ys"
  by (simp add: casefold_def)

lemma casefold_punctuation: "c \<in> set punctuation \<Longrightarrow> casefold (c # s) = c # casefold s"
proof -
  have "list_all (\<lambda>c. casefold [c] = [c]) punctuation" by code_simp
  then show "c \<in> set punctuation \<Longrightarrow> casefold (c # s) = c # casefold s"
    using casefold_append [of "[c]" s] by (simp add: list_all_iff)
qed

lemma contains_punctuation:
  assumes "w \<noteq> []" and "set w \<inter> set punctuation = {}" and "c \<in> set punctuation"
  shows "contains w (casefold (xs @ c # ys)) \<longleftrightarrow> contains w (casefold xs) \<or> contains w (casefold ys)"
proof -
  have "c \<notin> set w" using assms(2,3) by blast
  then show ?thesis by (simp add: casefold_punctuation [OF assms(3)] contains_apart [OF assms(1)])
qed

lemma marks: "CHR ''{'' \<in> set punctuation" "CHR ''}'' \<in> set punctuation" "CHR ''['' \<in> set punctuation" "CHR '']'' \<in> set punctuation"
  "CHR '','' \<in> set punctuation" "CHR '':'' \<in> set punctuation" "CHR '' '' \<in> set punctuation"
  by (simp_all add: punctuation_def)

lemma contains_enclosed:
  assumes "w \<noteq> []" and "set w \<inter> set punctuation = {}" and "a \<in> set punctuation" and "b \<in> set punctuation"
  shows "contains w (casefold (a # xs @ [b])) \<longleftrightarrow> contains w (casefold xs)"
proof -
  have none: "\<not> contains w (casefold [])" using assms(1) by (simp add: casefold_def)
  have "contains w (casefold (a # xs @ [b])) \<longleftrightarrow> contains w (casefold (xs @ [b]))"
    using contains_punctuation [OF assms(1-3), of "[]"] none by simp
  also have "\<dots> \<longleftrightarrow> contains w (casefold xs)" using contains_punctuation [OF assms(1,2,4), of xs "[]"] none by blast
  finally show ?thesis .
qed

lemma contains_join:
  assumes "w \<noteq> []" and "set w \<inter> set punctuation = {}"
  shows "contains w (casefold (join '', '' xs)) \<longleftrightarrow> list_ex (\<lambda>x. contains w (casefold x)) xs"
proof (induction xs rule: induct_list012)
  case 1
  then show ?case using assms(1) by (simp add: casefold_def)
next
  case (3 x y zs)
  have "casefold (join '', '' (x # y # zs)) = casefold (x @ CHR '','' # CHR '' '' # join '', '' (y # zs))" by simp
  then have "contains w (casefold (join '', '' (x # y # zs))) \<longleftrightarrow>
      contains w (casefold x) \<or> contains w (casefold (CHR '' '' # join '', '' (y # zs)))"
    by (simp only: contains_punctuation [OF assms marks(5)])
  also have "contains w (casefold (CHR '' '' # join '', '' (y # zs))) \<longleftrightarrow> contains w (casefold (join '', '' (y # zs)))"
    using contains_punctuation [OF assms marks(7), of "[]"] assms(1) by (simp add: casefold_def)
  finally show ?case using 3(2) by simp
qed simp

lemma exposes_iff:
  assumes "w \<noteq> []" and "set w \<inter> set punctuation = {}"
  shows "contains w (casefold (dumps_default frepr v)) \<longleftrightarrow> exposes frepr w v"
proof (induction v)
  case (JArr xs)
  have "dumps_default frepr (JArr xs) = CHR ''['' # join '', '' (map (dumps_default frepr) xs) @ [CHR '']'']" by simp
  then have "contains w (casefold (dumps_default frepr (JArr xs))) \<longleftrightarrow> list_ex (\<lambda>x. contains w (casefold (dumps_default frepr x))) xs"
    by (simp only: contains_enclosed [OF assms marks(3,4)] contains_join [OF assms] list_ex_iff set_map bex_simps)
  then show ?case using JArr by (simp add: list_ex_iff)
next
  case (JObj d)
  let ?item = "\<lambda>(k, v). (k, quote_str True k @ '': '' @ dumps_default frepr v)"
  have "dumps_default frepr (JObj d) = CHR ''{'' # join '', '' (map snd (sort_key fst (map ?item d))) @ [CHR ''}'']" by simp
  then have "contains w (casefold (dumps_default frepr (JObj d))) \<longleftrightarrow>
      (\<exists>x \<in> set d. contains w (casefold (quote_str True (fst x) @ CHR '':'' # CHR '' '' # dumps_default frepr (snd x))))"
    by (simp only: contains_enclosed [OF assms marks(1,2)] contains_join [OF assms] list_ex_iff set_map set_sort bex_simps)
      (simp add: case_prod_unfold)
  also have "\<dots> \<longleftrightarrow> (\<exists>x \<in> set d. contains w (casefold (quote_str True (fst x))) \<or> contains w (casefold (dumps_default frepr (snd x))))"
    using contains_punctuation [OF assms marks(7), of "[]"] assms(1)
    by (simp only: contains_punctuation [OF assms marks(6)] append_Nil) (simp add: casefold_def)
  also have "\<dots> \<longleftrightarrow> exposes frepr w (JObj d)" using JObj by (force simp: list_ex_iff case_prod_unfold)
  finally show ?case .
qed simp_all

text \<open>In a text that needs no escape, a quoted word occurs only as the whole text.\<close>

definition PLAIN :: string where
  "PLAIN = ''abcdefghijklmnopqrstuvwxyzABCDEFGHIJKLMNOPQRSTUVWXYZ0123456789 .-_:;,@/''"

definition plain_chars :: "string \<Rightarrow> bool" where
  "plain_chars s \<longleftrightarrow> list_all (\<lambda>c. c \<in> set PLAIN) s"

fun plain_json :: "json \<Rightarrow> bool" where
  "plain_json (JArr xs) = list_all plain_json xs"
| "plain_json (JObj d) = list_all (\<lambda>(k, v). plain_chars k \<and> plain_json v) d"
| "plain_json (JStr s) = plain_chars s"
| "plain_json _ = True"

definition folds_to :: "string \<Rightarrow> string \<Rightarrow> bool" where
  "folds_to s w \<longleftrightarrow> (if length s = length w then casefold s = w else False)"

fun mentions :: "(pyfloat \<Rightarrow> string) \<Rightarrow> string \<Rightarrow> json \<Rightarrow> bool" where
  "mentions frepr w (JArr xs) = list_ex (mentions frepr w) xs"
| "mentions frepr w (JObj d) = list_ex (\<lambda>(k, v). folds_to k w \<or> mentions frepr w v) d"
| "mentions frepr w (JStr s) = folds_to s w"
| "mentions frepr w v = contains (CHR 0x22 # w @ [CHR 0x22]) (casefold (dumps True frepr v))"

lemma plain_chars: "c \<in> set PLAIN \<Longrightarrow> escape_char True c = [c] \<and> length (casefold [c]) = 1 \<and> CHR 0x22 \<notin> set (casefold [c])"
proof -
  have "list_all (\<lambda>c. escape_char True c = [c] \<and> length (casefold [c]) = 1 \<and> CHR 0x22 \<notin> set (casefold [c])) PLAIN" by code_simp
  then show "c \<in> set PLAIN \<Longrightarrow> escape_char True c = [c] \<and> length (casefold [c]) = 1 \<and> CHR 0x22 \<notin> set (casefold [c])"
    unfolding list_all_iff by blast
qed

lemma plain_texts:
  "plain_chars s \<Longrightarrow> concat (map (escape_char True) s) = s \<and> length (casefold s) = length s \<and> CHR 0x22 \<notin> set (casefold s)"
proof (induction s)
  case (Cons c s)
  then have "c \<in> set PLAIN" "plain_chars s" by (simp_all add: plain_chars_def)
  with Cons.IH plain_chars [of c] casefold_append [of "[c]" s] show ?case by simp
qed (simp add: casefold_def)

lemma whole_between:
  assumes "q \<notin> set t" and "q \<notin> set w"
  shows "contains (q # w @ [q]) (q # t @ [q]) \<longleftrightarrow> t = w"
proof
  assume "contains (q # w @ [q]) (q # t @ [q])"
  then obtain u v where eq: "q # t @ [q] = u @ (q # w @ [q]) @ v" by (auto simp: contains_iff)
  have two: "count_list (q # t @ [q]) q = 2" "count_list (u @ (q # w @ [q]) @ v) q = count_list u q + 2 + count_list v q"
    using assms by simp_all
  then have no: "q \<notin> set u" unfolding eq by (simp add: count_list_0_iff)
  have "u = []" using eq no by (cases u) auto
  with eq have "t @ [q] = w @ q # v" by simp
  then have "takeWhile (\<lambda>x. x \<noteq> q) (t @ [q]) = takeWhile (\<lambda>x. x \<noteq> q) (w @ q # v)" by (rule arg_cong)
  moreover have "takeWhile (\<lambda>x. x \<noteq> q) (xs @ q # ys) = xs" if "q \<notin> set xs" for xs ys
    using that by (subst takeWhile_append2) auto
  ultimately show "t = w" using assms by simp
qed (auto simp: contains_iff intro: exI [of _ "[]"])

lemma quoted_word:
  assumes "plain_chars s" and "CHR 0x22 \<notin> set w"
  shows "contains (CHR 0x22 # w @ [CHR 0x22]) (casefold (quote_str True s)) \<longleftrightarrow> folds_to s w"
proof -
  have q: "char_of (34::nat) = CHR 0x22" "casefold [CHR 0x22] = [CHR 0x22]" by code_simp+
  have "casefold (quote_str True s) = casefold ([CHR 0x22] @ s @ [CHR 0x22])"
    using plain_texts [OF assms(1)] by (simp only: quote_str_def q append_assoc)
  also have "\<dots> = casefold [CHR 0x22] @ casefold s @ casefold [CHR 0x22]" by (simp only: casefold_append)
  also have "\<dots> = CHR 0x22 # casefold s @ [CHR 0x22]" unfolding q by (simp only: append_Cons append_Nil)
  finally show ?thesis
    using whole_between [OF _ assms(2), of "casefold s"] plain_texts [OF assms(1)] by (auto simp: folds_to_def)
qed

lemma mentions_iff:
  assumes "plain_json v" and "CHR 0x22 \<notin> set w"
  shows "exposes frepr (CHR 0x22 # w @ [CHR 0x22]) v \<longleftrightarrow> mentions frepr w v"
  using assms(1)
proof (induction v)
  case (JStr s)
  then show ?case using quoted_word [OF _ assms(2)] by simp
next
  case (JArr xs)
  then show ?case by (simp add: list_ex_iff list_all_iff)
next
  case (JObj d)
  have "contains (CHR 0x22 # w @ [CHR 0x22]) (casefold (quote_str True (fst x))) \<or> exposes frepr (CHR 0x22 # w @ [CHR 0x22]) (snd x) \<longleftrightarrow>
      folds_to (fst x) w \<or> mentions frepr w (snd x)" if x: "x \<in> set d" for x
  proof -
    have "plain_chars (fst x)" "plain_json (snd x)" using JObj.prems x by (auto simp: list_all_iff)
    then show ?thesis using JObj.IH [of x "snd x"] x quoted_word [OF _ assms(2)] by (simp add: snds.simps)
  qed
  then show ?case by (simp add: list_ex_iff case_prod_unfold)
qed simp_all

subsection \<open>A packet and a submission\<close>

definition demo_cycle_engine :: engine where
  "demo_cycle_engine = demo_engine\<lparr>en_sha := (\<lambda>_. demo_digest), en_frepr := (\<lambda>_. ''0'')\<rparr>"

definition demo_packet_document :: "char \<Rightarrow> json" where
  "demo_packet_document c = JObj [(''id'', JStr [c]), (''manufacturer'', JStr ''m''), (''datasheet_identity'', JStr ''d''), (''selected_mpn'', JStr ''n''),
     (''selected_package'', JStr ''p''), (''source_sha256'', JStr demo_digest),
     (''pages'', JArr [JObj [(''page'', JInt 1), (''width_points'', JInt 1), (''height_points'', JInt 1), (''render_sha256'', JStr demo_digest)]])]"

definition demo_packet_items :: "(string \<times> json) list" where
  "demo_packet_items = packet_payload demo_cycle_engine ''plan'' demo_digest demo_digest (map demo_packet_document letters) @
     [(''packet_sha256'', JStr demo_digest)]"


lemma demo_packet_loads: "load_authoring_packet demo_cycle_engine (JObj demo_packet_items) = Inr demo_packet_items"
proof -
  have head: "check_packet_head demo_cycle_engine demo_packet_items = Inr ()" by code_simp
  have docs: "field demo_packet_items ''documents'' = JArr (map demo_packet_document letters)"
    by (simp add: demo_packet_items_def packet_payload_def field_def)
  have twelve: "length (map demo_packet_document letters) = 12" by (simp add: letters_def)
  have checked: "foldE check_packet_document [] (map demo_packet_document letters) = Inr (map (\<lambda>c. [c]) letters)" by code_simp
  have plain: "plain_json (JObj demo_packet_items)" by code_simp
  have quoted: "list_all (\<lambda>w. quote_str True w = CHR 0x22 # w @ [CHR 0x22] \<and> CHR 0x22 \<notin> set w \<and>
      set (CHR 0x22 # w @ [CHR 0x22]) \<inter> set punctuation = {}) prohibited_fields" by code_simp
  have "list_all (\<lambda>w. \<not> mentions (\<lambda>_. ''0'') w (JObj demo_packet_items)) prohibited_fields" by code_simp
  then have "exposed_fields demo_cycle_engine demo_packet_items = []"
    using quoted mentions_iff [OF plain]
    by (simp add: exposed_fields_def filter_empty_conv list_all_iff exposes_iff demo_cycle_engine_def del: mentions.simps exposes.simps dumps_default.simps)
  then show ?thesis
    by (simp only: load_authoring_packet_def head docs twelve checked author_object_def author_array_def json.case bindE.simps simp_thms if_False list.case)
qed

definition demo_region :: "nat \<Rightarrow> string \<Rightarrow> string \<Rightarrow> json" where
  "demo_region i kind intent = JObj [(''id'', JStr (''zr'' @ [letters ! i])), (''kind'', JStr kind), (''intent'', JStr intent), (''page'', JInt 1),
     (''bbox_norm'', JArr [JInt 0, JInt 0, JInt 1, JInt 1]), (''view'', JStr ''unknown''), (''note'', JStr ''n'')]"

definition demo_query :: "char \<Rightarrow> nat \<Rightarrow> nat \<Rightarrow> json" where
  "demo_query c k t = JObj [(''id'', JStr (''zq'' @ [letters ! k])), (''intent'', JStr (REGION_TYPES ! t)),
     (''text'', JStr (''show me the '' @ [c, letters ! k])), (''relevant_region_ids'', JArr [JStr (''zr'' @ [letters ! t])]),
     (''hard_negative_region_ids'', JArr [JStr ''zre''])]"

definition demo_labels :: "char \<Rightarrow> json" where
  "demo_labels c = JObj [(''id'', JStr [c]),
     (''regions'', JArr [demo_region 0 ''positive'' ''pinout'', demo_region 1 ''positive'' ''table'', demo_region 2 ''positive'' ''package'',
        demo_region 3 ''wrong_intent'' ''other'', demo_region 4 ''wrong_package'' ''other'', demo_region 5 ''wrong_variant'' ''other'',
        demo_region 6 ''wrong_view'' ''other'']),
     (''queries'', JArr [demo_query c 0 0, demo_query c 1 0, demo_query c 2 1, demo_query c 3 1, demo_query c 4 2, demo_query c 5 2])]"

definition demo_submission_items :: "(string \<times> json) list" where
  "demo_submission_items =
     [(''schema_version'', JStr SUBMISSION_VERSION), (''packet_sha256'', JStr demo_digest), (''author'', JStr ''github:a''),
      (''manual_query_attestation'', JStr ''human-authored, no model''), (''documents'', JArr (map demo_labels letters)),
      (''submission_sha256'', JStr demo_digest)]"

definition demo_region_marks :: "region_mark list" where
  "demo_region_marks = map (\<lambda>(i, k, t). \<lparr>rm_id = ''zr'' @ [letters ! i], rm_kind = k, rm_intent = t\<rparr>)
     [(0, ''positive'', ''pinout''), (1, ''positive'', ''table''), (2, ''positive'', ''package''), (3, ''wrong_intent'', ''other''),
      (4, ''wrong_package'', ''other''), (5, ''wrong_variant'', ''other''), (6, ''wrong_view'', ''other'')]"

definition demo_text :: "char \<Rightarrow> nat \<Rightarrow> string" where
  "demo_text c k = ''show me the '' @ [c, letters ! k]"

lemma check_demo_regions: "check_regions [c] 1 (of_object ''regions'' (demo_labels c)) = Inr demo_region_marks"
  by code_simp

text \<open>The texts of the queries: four words without the first letters of the forbidden tokens and of the ids.\<close>

lemma letter_facts:
  "c \<in> set letters \<Longrightarrow> \<not> py_space c \<and> casefold [c] = [c] \<and> c \<noteq> CHR ''z'' \<and> \<not> same_letter CHR ''c'' c \<and> \<not> same_letter CHR ''r'' c \<and> \<not> same_letter CHR ''q'' c"
proof -
  have "list_all (\<lambda>c. \<not> py_space c \<and> casefold [c] = [c] \<and> c \<noteq> CHR ''z'' \<and> \<not> same_letter CHR ''c'' c \<and> \<not> same_letter CHR ''r'' c \<and>
      \<not> same_letter CHR ''q'' c) letters" by code_simp
  then show "c \<in> set letters \<Longrightarrow> \<not> py_space c \<and> casefold [c] = [c] \<and> c \<noteq> CHR ''z'' \<and> \<not> same_letter CHR ''c'' c \<and>
      \<not> same_letter CHR ''r'' c \<and> \<not> same_letter CHR ''q'' c" unfolding list_all_iff by blast
qed

lemma start_facts:
  "list_all (\<lambda>c. c \<noteq> CHR ''z'' \<and> \<not> same_letter CHR ''c'' c \<and> \<not> same_letter CHR ''r'' c \<and> \<not> same_letter CHR ''q'' c) ''show me the ''"
  "casefold ''show me the '' = ''show me the ''"
  by code_simp+

lemma letter_nth: "k < 12 \<Longrightarrow> letters ! k \<in> set letters"
  using nth_mem [of k letters] by (simp add: letters_def del: set_simps list.set nth_Cons_pos)

lemma demo_text_casefold: "c \<in> set letters \<Longrightarrow> k < 12 \<Longrightarrow> casefold (demo_text c k) = demo_text c k"
proof -
  assume c: "c \<in> set letters" and k: "k < 12"
  then have "casefold ([c] @ [letters ! k]) = [c] @ [letters ! k]"
    using letter_facts [OF c] letter_facts [OF letter_nth [OF k]] by (simp only: casefold_append)
  moreover have "demo_text c k = ''show me the '' @ [c] @ [letters ! k]" by (simp add: demo_text_def)
  ultimately show ?thesis by (simp only: casefold_append start_facts(2))
qed

lemma demo_words: "\<not> py_space c \<Longrightarrow> \<not> py_space d \<Longrightarrow> words (''show me the '' @ [c, d]) = [''show'', ''me'', ''the'', [c, d]]"
proof -
  assume cd: "\<not> py_space c" "\<not> py_space d"
  have "\<not> py_space CHR ''s''" "\<not> py_space CHR ''h''" "\<not> py_space CHR ''o''" "\<not> py_space CHR ''w''" "\<not> py_space CHR ''m''"
    "\<not> py_space CHR ''e''" "\<not> py_space CHR ''t''" "py_space CHR '' ''" by code_simp+
  with cd show ?thesis by (simp add: words_def)
qed

lemma case_token_start: "rx_match case_token s i j \<Longrightarrow>
    char_at (\<lambda>x. same_letter CHR ''c'' x \<or> same_letter CHR ''r'' x \<or> same_letter CHR ''q'' x) s i"
  by (auto simp: case_token_def sequence_def ilit_def char_at_def)

lemma demo_text_clean:
  assumes c: "c \<in> set letters" and k: "k < 12"
  shows "normalise_query (demo_text c k) = demo_text c k" and "\<not> label_bearing demo_region_marks (CHR ''z'' # q) (demo_text c k)"
proof -
  note d = letter_nth [OF k]
  have w: "words (demo_text c k) = [''show'', ''me'', ''the'', [c, letters ! k]]"
    unfolding demo_text_def by (rule demo_words) (use letter_facts [OF c] letter_facts [OF d] in blast)+
  show n: "normalise_query (demo_text c k) = demo_text c k"
    unfolding normalise_query_def demo_text_casefold [OF c k] w by (simp add: demo_text_def)
  have clean: "x \<noteq> CHR ''z'' \<and> \<not> same_letter CHR ''c'' x \<and> \<not> same_letter CHR ''r'' x \<and> \<not> same_letter CHR ''q'' x"
    if x: "x \<in> set (demo_text c k)" for x
  proof -
    have "x \<in> set ''show me the '' \<or> x \<in> set letters" using x c d by (auto simp: demo_text_def)
    then show ?thesis using letter_facts [of x] start_facts(1) unfolding list_all_iff by blast
  qed
  have "rx_search case_token (demo_text c k) = None"
    unfolding rx_search_None using case_token_start clean by (fastforce simp: char_at_def)
  moreover have "CHR ''z'' \<notin> set (demo_text c k)" using clean by blast
  then have "\<not> contains (CHR ''z'' # w) (demo_text c k)" for w unfolding contains_iff by auto
  moreover have "casefold (CHR ''z'' # w) = CHR ''z'' # casefold w" for w
  proof -
    have "casefold [CHR ''z''] = [CHR ''z'']" by code_simp
    then show ?thesis using casefold_append [of "[CHR ''z'']" w] by simp
  qed
  ultimately show "\<not> label_bearing demo_region_marks (CHR ''z'' # q) (demo_text c k)"
    by (simp add: label_bearing_def n w demo_region_marks_def)
qed

definition demo_query_mark :: "char \<Rightarrow> nat \<Rightarrow> nat \<Rightarrow> query_mark" where
  "demo_query_mark c k t = \<lparr>qm_id = ''zq'' @ [letters ! k], qm_intent = REGION_TYPES ! t, qm_text = demo_text c k,
     qm_relevant = [''zr'' @ [letters ! t]], qm_negative = [''zre'']\<rparr>"

lemma author_text_plain: "s \<noteq> [] \<Longrightarrow> \<not> py_space (hd s) \<Longrightarrow> \<not> py_space (last s) \<Longrightarrow> author_text part (JStr s) = Inr s"
  using strip_same [of s] by (simp add: author_text_def nonempty_text_def)

lemma linked_facts:
  assumes "t < 3"
  shows "linked m demo_region_marks (\<lambda>m. rm_kind m = ''positive'' \<and> rm_intent m = REGION_TYPES ! t) (JArr [JStr (''zr'' @ [letters ! t])]) =
      Inr [''zr'' @ [letters ! t]]"
    and "linked m' demo_region_marks (\<lambda>m. rm_kind m \<noteq> ''positive'') (JArr [JStr ''zre'']) = Inr [''zre'']"
    and "REGION_TYPES ! t \<in> set REGION_TYPES" and "author_text part (JStr (REGION_TYPES ! t)) = Inr (REGION_TYPES ! t)"
proof -
  from assms consider "t = 0" | "t = 1" | "t = 2" by linarith
  then show "linked m demo_region_marks (\<lambda>m. rm_kind m = ''positive'' \<and> rm_intent m = REGION_TYPES ! t) (JArr [JStr (''zr'' @ [letters ! t])]) =
      Inr [''zr'' @ [letters ! t]]" by cases (hypsubst, code_simp)+
  show "linked m' demo_region_marks (\<lambda>m. rm_kind m \<noteq> ''positive'') (JArr [JStr ''zre'']) = Inr [''zre'']" by code_simp
  show "REGION_TYPES ! t \<in> set REGION_TYPES" using assms by (simp add: REGION_TYPES_def nth_mem del: list.set)
  from assms consider "t = 0" | "t = 1" | "t = 2" by linarith
  then show "author_text part (JStr (REGION_TYPES ! t)) = Inr (REGION_TYPES ! t)" by cases (hypsubst, code_simp)+
qed

lemma demo_query_checked:
  assumes c: "c \<in> set letters" and k: "k < 12" and t: "t < 3" and new: "''zq'' @ [letters ! k] \<notin> set (map qm_id qs)"
    and text_new: "demo_text c k \<notin> set (texts @ map qm_text qs)"
  shows "check_query i demo_region_marks texts qs (demo_query c k t) = Inr (qs @ [demo_query_mark c k t])"
proof -
  let ?d = "[(''id'', JStr (''zq'' @ [letters ! k])), (''intent'', JStr (REGION_TYPES ! t)), (''text'', JStr (demo_text c k)),
     (''relevant_region_ids'', JArr [JStr (''zr'' @ [letters ! t])]), (''hard_negative_region_ids'', JArr [JStr ''zre''])]"
  have keys: "author_keys [''id'', ''intent'', ''text'', ''relevant_region_ids'', ''hard_negative_region_ids''] ?d part = Inr ()" for part
    by (simp add: author_keys_def strict_keys_ok fields_are_def)
  have f: "field ?d ''id'' = JStr (''zq'' @ [letters ! k])" "field ?d ''intent'' = JStr (REGION_TYPES ! t)" "field ?d ''text'' = JStr (demo_text c k)"
    "field ?d ''relevant_region_ids'' = JArr [JStr (''zr'' @ [letters ! t])]" "field ?d ''hard_negative_region_ids'' = JArr [JStr ''zre'']"
    by (simp_all add: field_def)
  have sp: "\<not> py_space CHR ''z''" "\<not> py_space CHR ''s''" by code_simp+
  have last: "\<not> py_space (letters ! k)" using letter_facts [OF letter_nth [OF k]] by blast
  have texts: "author_text part (JStr (''zq'' @ [letters ! k])) = Inr (''zq'' @ [letters ! k])"
    "author_text part (JStr (demo_text c k)) = Inr (demo_text c k)" for part
    using sp last by (auto intro!: author_text_plain simp: demo_text_def)
  have bearing: "\<not> label_bearing demo_region_marks (''zq'' @ [letters ! k]) (demo_text c k)"
    using demo_text_clean(2) [OF c k, of "''q'' @ [letters ! k]"] by simp
  show ?thesis
    unfolding demo_query_def demo_text_def [symmetric]
    by (simp only: check_query_def author_object_def json.case bindE.simps keys f linked_facts [OF t] texts new bearing
      demo_text_clean(1) [OF c k] text_new demo_query_mark_def simp_thms if_False not_not not_True_eq_False)
qed

lemma letters_distinct: "i < 12 \<Longrightarrow> j < 12 \<Longrightarrow> letters ! i = letters ! j \<longleftrightarrow> i = j"
proof -
  assume ij: "i < 12" "j < 12"
  have "distinct letters" "length letters = 12" by (simp_all add: letters_def)
  then show "letters ! i = letters ! j \<longleftrightarrow> i = j" using ij by (simp add: nth_eq_iff_index_eq)
qed

lemma demo_texts_differ: "demo_text c k = demo_text c' k' \<longleftrightarrow> c = c' \<and> letters ! k = letters ! k'"
  by (simp add: demo_text_def)

lemma demo_query_loop:
  assumes c: "c \<in> set letters" and new: "\<forall>k < 12. demo_text c k \<notin> set texts"
  shows "list_all (\<lambda>(k, t). k < 12 \<and> t < 3) (before @ kts) \<Longrightarrow> distinct (map fst (before @ kts)) \<Longrightarrow>
    foldE (check_query i demo_region_marks texts) (map (\<lambda>(k, t). demo_query_mark c k t) before) (map (\<lambda>(k, t). demo_query c k t) kts) =
    Inr (map (\<lambda>(k, t). demo_query_mark c k t) (before @ kts))"
proof (induction kts arbitrary: before)
  case (Cons x kts)
  obtain k t where x: "x = (k, t)" by fastforce
  with Cons.prems have kt: "k < 12" "t < 3" by simp_all
  have others: "letters ! k \<noteq> letters ! k' \<and> k' < 12" if "(k', t') \<in> set before" for k' t'
  proof -
    have "k' < 12" "k \<noteq> k'" using Cons.prems that x by (auto simp: list_all_iff rev_image_eqI)
    then show ?thesis using letters_distinct [OF kt(1)] by blast
  qed
  have "''zq'' @ [letters ! k] \<notin> set (map qm_id (map (\<lambda>(k, t). demo_query_mark c k t) before))"
    using others by (auto simp: demo_query_mark_def)
  moreover have "demo_text c k \<notin> set (texts @ map qm_text (map (\<lambda>(k, t). demo_query_mark c k t) before))"
    using others new kt(1) by (auto simp: demo_query_mark_def demo_texts_differ)
  ultimately have "check_query i demo_region_marks texts (map (\<lambda>(k, t). demo_query_mark c k t) before) (demo_query c k t) =
      Inr (map (\<lambda>(k, t). demo_query_mark c k t) before @ [demo_query_mark c k t])"
    by (rule demo_query_checked [OF c kt])
  then have "check_query i demo_region_marks texts (map (\<lambda>(k, t). demo_query_mark c k t) before) (demo_query c k t) =
      Inr (map (\<lambda>(k, t). demo_query_mark c k t) (before @ [x]))" by (simp add: x)
  then show ?case using Cons.IH [of "before @ [x]"] Cons.prems x by simp
qed simp

definition demo_pairs :: "(nat \<times> nat) list" where
  "demo_pairs = [(0, 0), (1, 0), (2, 1), (3, 1), (4, 2), (5, 2)]"

lemma demo_queries_checked:
  assumes c: "c \<in> set letters" and new: "\<forall>k < 12. demo_text c k \<notin> set texts"
  shows "check_queries i demo_region_marks texts (of_object ''queries'' (demo_labels c)) = Inr (map (\<lambda>(k, t). demo_query_mark c k t) demo_pairs)"
proof -
  have "foldE (check_query i demo_region_marks texts) [] (map (\<lambda>(k, t). demo_query c k t) demo_pairs) =
      Inr (map (\<lambda>(k, t). demo_query_mark c k t) demo_pairs)"
    using demo_query_loop [OF c new, of "[]" demo_pairs] by (simp add: demo_pairs_def)
  moreover have "of_object ''queries'' (demo_labels c) = JArr (map (\<lambda>(k, t). demo_query c k t) demo_pairs)"
    by (simp add: demo_labels_def of_object_def field_def demo_pairs_def)
  moreover have "list_all (\<lambda>t. count_list (map qm_intent (map (\<lambda>(k, t). demo_query_mark c k t) demo_pairs)) t = 2) REGION_TYPES"
    by (simp add: demo_pairs_def demo_query_mark_def REGION_TYPES_def)
  moreover have "length demo_pairs = 6" by (simp add: demo_pairs_def)
  ultimately show ?thesis by (simp add: check_queries_def author_array_def list_ex_iff list_all_iff)
qed

definition demo_document_marks :: "char \<Rightarrow> document_marks" where
  "demo_document_marks c = \<lparr>dm_id = [c], dm_regions = demo_region_marks, dm_queries = map (\<lambda>(k, t). demo_query_mark c k t) demo_pairs\<rparr>"

lemma demo_document_checked:
  assumes c: "c \<in> set letters" and counts: "map_of counts [c] = Some 1" and cs: "c \<notin> set cs"
  shows "check_submission_document counts (map demo_document_marks cs) (demo_labels c) = Inr (map demo_document_marks (cs @ [c]))"
proof -
  let ?texts = "concat (map (\<lambda>m. map qm_text (dm_queries m)) (map demo_document_marks cs))"
  have new: "\<forall>k < 12. demo_text c k \<notin> set ?texts"
    using cs by (auto simp: demo_document_marks_def demo_query_mark_def demo_texts_differ)
  obtain d where d: "demo_labels c = JObj d" by (simp add: demo_labels_def)
  have keys: "author_keys [''id'', ''regions'', ''queries''] d part = Inr ()" for part
    using d by (auto simp: demo_labels_def author_keys_def strict_keys_ok fields_are_def)
  have f: "field d ''id'' = JStr [c]" using d by (auto simp: demo_labels_def field_def)
  have "of_object ''regions'' (demo_labels c) = field d ''regions''" "of_object ''queries'' (demo_labels c) = field d ''queries''"
    using d by (simp_all add: of_object_def)
  then have parts: "check_regions [c] 1 (field d ''regions'') = Inr demo_region_marks"
    "check_queries [c] demo_region_marks ?texts (field d ''queries'') = Inr (map (\<lambda>(k, t). demo_query_mark c k t) demo_pairs)"
    using check_demo_regions [of c] demo_queries_checked [OF c new, of "[c]"] by simp_all
  have i: "author_text part (JStr [c]) = Inr [c]" for part
    using letter_facts [OF c] by (intro author_text_plain) simp_all
  have fresh: "[c] \<notin> set (map dm_id (map demo_document_marks cs))" using cs by (auto simp: demo_document_marks_def)
  show ?thesis
    unfolding d by (simp only: check_submission_document_def author_object_def json.case bindE.simps keys f i counts option.case fresh
      parts simp_thms if_False demo_document_marks_def map_append list.map)
qed

lemma demo_documents_checked:
  assumes "\<forall>c \<in> set letters. map_of counts [c] = Some 1"
  shows "set cs \<subseteq> set letters \<Longrightarrow> distinct (before @ cs) \<Longrightarrow>
    foldE (check_submission_document counts) (map demo_document_marks before) (map demo_labels cs) = Inr (map demo_document_marks (before @ cs))"
proof (induction cs arbitrary: before)
  case (Cons c cs)
  have "check_submission_document counts (map demo_document_marks before) (demo_labels c) = Inr (map demo_document_marks (before @ [c]))"
    by (rule demo_document_checked) (use Cons.prems assms in auto)
  then show ?case using Cons.IH [of "before @ [c]"] Cons.prems by simp
qed simp

lemma demo_submission_marks:
  "submission_marks demo_cycle_engine (JObj demo_submission_items) (JObj demo_packet_items) =
     Inr (demo_submission_items, map demo_document_marks letters)"
proof -
  have head: "check_submission_head demo_cycle_engine demo_packet_items demo_submission_items = Inr ()" by code_simp
  have docs: "field demo_submission_items ''documents'' = JArr (map demo_labels letters)"
    by (simp add: demo_submission_items_def field_def)
  have pages: "page_counts demo_packet_items = map (\<lambda>c. ([c], 1)) letters" by code_simp
  have "distinct (map fst (map (\<lambda>c. ([c], 1::nat)) letters))" by (simp add: letters_def)
  from dict_of_id [OF this] have counts: "dict_of (page_counts demo_packet_items) = map (\<lambda>c. ([c], 1)) letters" unfolding pages .
  have "\<forall>c \<in> set letters. map_of (map (\<lambda>c. ([c], 1)) letters) [c] = Some (1::nat)" by (simp add: letters_def)
  moreover have "distinct letters" by (simp add: letters_def)
  ultimately have loop: "foldE (check_submission_document (map (\<lambda>c. ([c], 1)) letters)) [] (map demo_labels letters) = Inr (map demo_document_marks letters)"
    using demo_documents_checked [of "map (\<lambda>c. ([c], 1)) letters" letters "[]"] by simp
  have len: "length (map demo_labels letters) = length (map (\<lambda>c. ([c], 1::nat)) letters)" by simp
  show ?thesis
    by (simp only: submission_marks_def demo_packet_loads author_object_def author_array_def json.case bindE.simps head docs counts len loop
      simp_thms if_False)
qed

lemma accepted_submission_sound_witness:
  "\<exists>p docs. load_authoring_packet demo_cycle_engine (JObj demo_packet_items) = Inr p \<and>
     field demo_submission_items ''documents'' = JArr docs \<and> list_all2 (labels_document (page_counts p)) docs (map demo_document_marks letters) \<and>
     list_all document_sound (map demo_document_marks letters) \<and> distinct (all_query_texts (map demo_document_marks letters))"
  using accepted_submission_sound [OF demo_submission_marks] by blast

subsection \<open>A review\<close>

definition demo_review :: "(string \<times> json) list" where
  "demo_review =
     [(''schema_version'', JStr REVIEW_VERSION), (''packet_sha256'', JStr demo_digest), (''submission_sha256'', JStr demo_digest),
      (''author_attested_at'', JStr ''t''), (''author_attestation_url'', JStr ''u''), (''reviewer'', JStr ''github:b''),
      (''reviewed_at'', JStr ''t''), (''review_url'', JStr ''v'')]"

definition demo_record :: "string \<Rightarrow> string \<Rightarrow> string \<Rightarrow> string \<Rightarrow> json" where
  "demo_record login state body url = JObj [(''user'', JObj [(''login'', JStr login)]), (''state'', JStr state), (''submitted_at'', JStr ''t''),
     (''body'', JStr body), (''html_url'', JStr url)]"

definition demo_author_body :: string where
  "demo_author_body = submission_marker demo_submission_items @ ''HUMAN_AUTHORED_NO_MODEL=TRUE''"

definition demo_review_body :: string where
  "demo_review_body = submission_marker demo_submission_items @ packet_marker demo_packet_items @ ''DSVIRE_INDEPENDENT_HUMAN_REVIEW=TRUE''"

definition demo_records :: "string \<Rightarrow> json" where
  "demo_records url = (if url = ''u'' then demo_record ''a'' ''COMMENTED'' demo_author_body ''u'' else demo_record ''b'' ''APPROVED'' demo_review_body ''v'')"

definition demo_provenance :: "string \<Rightarrow> string \<Rightarrow> string \<Rightarrow> string \<Rightarrow> provenance" where
  "demo_provenance login state body url = \<lparr>pv_login = login, pv_state = JStr state, pv_submitted_at = JStr ''t'', pv_body = body, pv_url = JStr url\<rparr>"

lemma contains_middle: "contains w (u @ w @ v)"
  by (auto simp: contains_iff)

lemma contains_markers: "contains w (w @ v)" "contains v (w @ v)" "contains v (w @ v @ x)" "contains x (w @ v @ x)"
  using contains_middle [of w "[]" v] contains_middle [of v w "[]"] contains_middle [of v w x] contains_middle [of x "w @ v" "[]"] by simp_all

lemma demo_provenances:
  "read_provenance m (demo_records ''u'') = Inr (demo_provenance ''a'' ''COMMENTED'' demo_author_body ''u'')"
  "read_provenance m (demo_records ''v'') = Inr (demo_provenance ''b'' ''APPROVED'' demo_review_body ''v'')"
  by (simp_all add: read_provenance_def demo_records_def demo_record_def demo_provenance_def text_of_def)

lemma demo_fields: "field demo_submission_items ''author'' = JStr ''github:a''" "field demo_submission_items ''submission_sha256'' = JStr demo_digest"
  "field demo_packet_items ''packet_sha256'' = JStr demo_digest"
  "field demo_review ''schema_version'' = JStr REVIEW_VERSION" "field demo_review ''packet_sha256'' = JStr demo_digest"
  "field demo_review ''submission_sha256'' = JStr demo_digest" "field demo_review ''author_attested_at'' = JStr ''t''"
  "field demo_review ''author_attestation_url'' = JStr ''u''" "field demo_review ''reviewer'' = JStr ''github:b''"
  "field demo_review ''reviewed_at'' = JStr ''t''" "field demo_review ''review_url'' = JStr ''v''"
  by (simp_all add: demo_submission_items_def demo_packet_items_def packet_payload_def demo_review_def field_def)

lemma demo_author_bound: "author_bound demo_submission_items demo_review (demo_provenance ''a'' ''COMMENTED'' demo_author_body ''u'')"
  by (simp add: author_bound_def demo_fields demo_provenance_def demo_author_body_def contains_markers)

lemma demo_reviewer_checked:
  "check_reviewer demo_packet_items demo_submission_items demo_review ''github:b'' (demo_provenance ''b'' ''APPROVED'' demo_review_body ''v'') = Inr ()"
  by (simp add: check_reviewer_def demo_fields demo_provenance_def demo_review_body_def contains_markers Let_def)

definition demo_seal :: "(string \<times> json) list" where
  "demo_seal = sealed_with demo_cycle_engine (seal_payload demo_packet_items demo_submission_items ''github:b'' (JStr ''t'') (JStr ''u'') (JStr ''t'') (JStr ''v''))"

lemma demo_sealed:
  "seal_submission demo_cycle_engine (JObj demo_packet_items) (JObj demo_submission_items) (JObj demo_review) demo_records = Inr demo_seal"
proof -
  have keys: "author_keys review_keys demo_review part = Inr ()" for part
    by (simp add: author_keys_def strict_keys_ok fields_are_def review_keys_def demo_review_def)
  have texts: "author_human part (JStr ''github:b'') = Inr ''github:b''" "author_text part (JStr ''u'') = Inr ''u''"
    "author_text part (JStr ''v'') = Inr ''v''" for part by code_simp+
  have sub: "load_submission demo_cycle_engine (JObj demo_submission_items) (JObj demo_packet_items) = Inr demo_submission_items"
    by (simp add: load_submission_def demo_submission_marks)
  show ?thesis
    by (simp only: seal_submission_def demo_packet_loads sub author_object_def json.case bindE.simps keys demo_fields texts demo_provenances
      demo_author_bound demo_reviewer_checked simp_thms if_False demo_seal_def)
qed

lemma sealed_submission_opens_witness:
  "load_authoring_seal demo_cycle_engine (JObj demo_seal) (JObj demo_packet_items) (JObj demo_submission_items) = Inr demo_seal \<and>
   judge_stage ''incomplete'' demo_cycle_engine True (JObj demo_packet_items) (JObj demo_submission_items) (JObj demo_seal) [''blocked''] =
     Inr (ScoresAuthorized, True, [])"
proof -
  have "is_hex 64 demo_digest" by code_simp
  then have "hex_digests demo_cycle_engine" by (simp add: hex_digests_def demo_cycle_engine_def)
  moreover have "filled (JStr ''t'')" by code_simp
  ultimately show ?thesis using sealed_submission_opens [OF demo_sealed] demo_fields by simp
qed

subsection \<open>The retired cycle\<close>

definition cycle_demo_files :: cycle_files where
  "cycle_demo_files = \<lparr>cf_plans = [], cf_file = (\<lambda>name. if name = ''retrieval_cycle_v4_preregistration.json''
     then Some (JObj (demo_plan_items CYCLE_V4_PLAN_ID)) else Some (JBool False))\<rparr>"

definition v4_engine :: engine where
  "v4_engine = demo_engine\<lparr>en_sha := (\<lambda>_. ''cd7b1bd89d0e3d382eb7ea0af97107ca6931b3cd49a34964e18e4cef9dbb8acb''), en_frepr := (\<lambda>_. ''0'')\<rparr>"

definition v4_status :: cycle_status where
  "v4_status = \<lparr>cs_plan_id = CYCLE_V4_PLAN_ID, cs_stage = SourcesIncomplete, cs_sources_complete = False, cs_invalidations = [],
     cs_source_manifest_sha256 = None, cs_packet_sha256 = None, cs_score_access_authorized = False,
     cs_blockers = [''source manifest must be an object'', ''authoring packet must be an object'',
       ''cycle v4 is retired; the live visual gate is cycle v5'']\<rparr>"

lemma demo_inspection: "inspect_cycle_v4 v4_engine (\<lambda>_. True) cycle_demo_files JNull JNull JNull JNull = Inr v4_status"
proof -
  have frozen: "map_of FROZEN_PLAN_DIGESTS CYCLE_V4_PLAN_ID = Some ''cd7b1bd89d0e3d382eb7ea0af97107ca6931b3cd49a34964e18e4cef9dbb8acb''"
    by code_simp
  have plan: "load_cycle_v4_plan v4_engine (\<lambda>_. True) cycle_demo_files = Inr (demo_plan_items CYCLE_V4_PLAN_ID)"
    by (simp add: load_cycle_v4_plan_def load_cycle_plan_def read_json_def cycle_demo_files_def consumed_family_ids_def v4_engine_def
      demo_plan_loads as_cycle_error_def frozen)
  have committed: "or_committed cycle_demo_files ''retrieval_cycle_v4_source_manifest.json'' JNull = Inr (JBool False)"
    "or_committed cycle_demo_files ''retrieval_cycle_v4_authoring_packet.json'' JNull = Inr (JBool False)"
    by (simp_all add: or_committed_def read_json_def cycle_demo_files_def)
  have manifest: "judge_manifest v4_rule v4_engine ids (JBool False) = Inr (False, None, [''source manifest must be an object''])" for ids
    by (simp add: judge_manifest_def validate_source_manifest_def)
  have packet: "judge_packet v4_engine CYCLE_V4_PACKET_SHA256 (JBool False) = Inr (None, [''authoring packet must be an object''])"
    by (simp add: judge_packet_def load_authoring_packet_def author_object_def)
  show ?thesis
    by (simp add: inspect_cycle_v4_def plan committed manifest packet judge_stage_def invalidated_ids_def of_object_def invalidation_blockers_def
      v4_status_def distinct_blockers_def dict_of_def)
qed

lemma retired_cycle_stays_closed_witness: "assert_score_access_authorized v4_status \<noteq> Inr () \<and> \<not> cs_sources_complete v4_status"
  using retired_cycle_stays_closed [OF demo_inspection] by blast

end
