(* ===== verification/FloatOrder.thy ===== *)
theory FloatOrder
  imports Float64
begin

section \<open>Rounding and order\<close>

text \<open>Rounding to the nearest float is monotone on nonnegative values, keeps floats and commutes with doubling a float.\<close>

lemma pow2_less_iff: "pow2 a < pow2 b \<longleftrightarrow> a < b"
proof -
  have "pow2 a < pow2 b" if "a < b" for a b
  proof -
    have "pow2 b = pow2 (b - a) * pow2 a" by (simp flip: pow2_add)
    moreover have "1 < pow2 (b - a)" using that by (simp add: pow2_def)
    ultimately show ?thesis using pow2_pos [of a] by simp
  qed
  then show ?thesis by (metis not_less_iff_gr_or_eq)
qed

lemma rat_exponent_pow2 [simp]: "rat_exponent (pow2 k) = k"
proof -
  have "pow2 (rat_exponent (pow2 k)) \<le> pow2 k" "pow2 k < pow2 (rat_exponent (pow2 k) + 1)"
    by (simp_all add: pow2_rat_exponent rat_exponent_less)
  then have "\<not> k < rat_exponent (pow2 k)" "k < rat_exponent (pow2 k) + 1" by (simp_all add: pow2_less_iff flip: not_less)
  then show ?thesis by simp
qed

text \<open>A multiple of the unit in the last place of its own binade is a float.\<close>

lemma rnd_multiple:
  assumes "x = of_int n * pow2 e" and "0 < x" and "max (- 1074) (rat_exponent x - 52) \<le> e"
  shows "rnd x = x"
proof -
  let ?d = "max (- 1074) (rat_exponent x - 52)"
  have "pow2 e = pow2 (e - ?d) * pow2 ?d" by (simp flip: pow2_add)
  moreover have "pow2 (e - ?d) = of_int (2 ^ nat (e - ?d))" using assms(3) by (simp add: pow2_def)
  ultimately have x: "x = of_int (n * 2 ^ nat (e - ?d)) * pow2 ?d" by (simp add: assms(1))
  have "x / pow2 ?d = of_int (n * 2 ^ nat (e - ?d))"
    using less_imp_neq [OF pow2_pos [of ?d]] by (subst x) simp
  then have "round_half_even (x / pow2 ?d) = n * 2 ^ nat (e - ?d)" by (simp only: round_half_even_int)
  then show ?thesis using assms(2) x by (simp add: rnd_def Let_def abs_of_pos)
qed

lemma float_multiple:
  assumes "rnd x = x" and "0 < x"
  obtains n where "x = of_int n * pow2 (max (- 1074) (rat_exponent x - 52))"
proof (rule that)
  show "x = of_int (round_half_even (x / pow2 (max (- 1074) (rat_exponent x - 52)))) * pow2 (max (- 1074) (rat_exponent x - 52))"
    using assms by (simp add: rnd_def Let_def abs_of_pos)
qed

lemma rnd_pow2: "- 1074 \<le> k \<Longrightarrow> rnd (pow2 k) = pow2 k"
  by (rule rnd_multiple [of _ 1 k]) simp_all

lemma rat_exponent_double: "0 < x \<Longrightarrow> rat_exponent (2 * x) = rat_exponent x + 1"
proof -
  assume x: "0 < x"
  have two: "pow2 (k + 1) = 2 * pow2 k" for k using pow2_add [of k 1] by (simp add: pow2_def [of 1])
  have "pow2 (rat_exponent (2 * x)) \<le> 2 * x" "2 * x < pow2 (rat_exponent (2 * x) + 1)"
    "pow2 (rat_exponent x) \<le> x" "x < pow2 (rat_exponent x + 1)"
    using x by (simp_all add: pow2_rat_exponent rat_exponent_less)
  then have "pow2 (rat_exponent x + 1) < pow2 (rat_exponent (2 * x) + 1)" "pow2 (rat_exponent (2 * x)) < pow2 (rat_exponent x + 1 + 1)"
    unfolding two [of "rat_exponent x"] two [of "rat_exponent x + 1"] by linarith+
  then show ?thesis unfolding pow2_less_iff by simp
qed

lemma rnd_double:
  assumes "rnd x = x" and "0 \<le> x"
  shows "rnd (2 * x) = 2 * x"
proof (cases "x = 0")
  case False
  with assms have x: "0 < x" by simp
  let ?d = "max (- 1074) (rat_exponent x - 52)"
  from float_multiple [OF assms(1) x] obtain n where n: "x = of_int n * pow2 ?d" .
  have two: "pow2 (k + 1) = 2 * pow2 k" for k using pow2_add [of k 1] by (simp add: pow2_def [of 1])
  show ?thesis
  proof (cases "- 1074 \<le> rat_exponent x - 52")
    case True
    then have d: "?d + 1 = max (- 1074) (rat_exponent (2 * x) - 52)" by (simp add: rat_exponent_double x)
    have "2 * x = of_int n * pow2 (?d + 1)" unfolding two by (subst n) simp
    then show ?thesis using x d by (intro rnd_multiple [of _ n "?d + 1"]) simp_all
  next
    case False
    then have "?d = - 1074" "max (- 1074) (rat_exponent (2 * x) - 52) = - 1074" by (simp_all add: rat_exponent_double x)
    then show ?thesis using x n by (intro rnd_multiple [of _ "2 * n" ?d]) simp_all
  qed
qed simp

lemma rnd_mono:
  assumes "0 \<le> r" and "r \<le> w"
  shows "rnd r \<le> rnd w"
proof (cases "r = 0")
  case True
  then show ?thesis using assms by (simp add: rnd_nonneg)
next
  case False
  with assms have pos: "0 < r" "0 < w" by simp_all
  let ?e = "max (- 1074) (rat_exponent r - 52)" and ?d = "max (- 1074) (rat_exponent w - 52)"
  have k: "rat_exponent r \<le> rat_exponent w" by (rule rat_exponent_mono) (use pos assms in simp_all)
  show ?thesis
  proof (cases "?e = ?d")
    case True
    have "r / pow2 ?d \<le> w / pow2 ?d" using assms(2) by (intro divide_right_mono) (simp_all add: less_imp_le)
    then have "round_half_even (r / pow2 ?d) \<le> round_half_even (w / pow2 ?d)" by (rule round_half_even_mono)
    then have "of_int (round_half_even (r / pow2 ?d)) * pow2 ?d \<le> of_int (round_half_even (w / pow2 ?d)) * pow2 ?d"
      by (intro mult_right_mono) (simp_all add: less_imp_le)
    then show ?thesis using pos True by (simp add: rnd_def Let_def abs_of_pos)
  next
    case False
    with k have d: "?d = rat_exponent w - 52" "- 1074 \<le> rat_exponent w" "rat_exponent r < rat_exponent w" by (auto simp: max_def split: if_splits)
    have "pow2 (rat_exponent r + 1) \<le> pow2 (rat_exponent w)" using d(3) by (intro pow2_mono) simp
    then have "r \<le> pow2 (rat_exponent w)" using rat_exponent_less [OF pos(1)] by simp
    then have "rnd r \<le> pow2 (rat_exponent w)" using assms(1) rnd_pow2 [OF d(2)] by (rule rnd_le_float)
    also have "\<dots> \<le> rnd w"
    proof -
      have split: "pow2 (rat_exponent w) = of_int (2 ^ 52) * pow2 ?d"
        unfolding d(1) using pow2_add [of 52 "rat_exponent w - 52"] by (simp add: pow2_def [of 52])
      have "of_int (2 ^ 52) \<le> w / pow2 ?d"
        using pow2_rat_exponent [OF pos(2)] unfolding split by (simp add: pos_le_divide_eq)
      then have "2 ^ 52 \<le> round_half_even (w / pow2 ?d)" using round_half_even_mono round_half_even_int by metis
      then have "of_int (2 ^ 52) \<le> (of_int (round_half_even (w / pow2 ?d)) :: rat)" by (simp only: of_int_le_iff)
      then have "of_int (2 ^ 52) * pow2 ?d \<le> of_int (round_half_even (w / pow2 ?d)) * pow2 ?d"
        by (rule mult_right_mono) (simp add: less_imp_le)
      then show ?thesis unfolding split using pos by (simp add: rnd_def Let_def abs_of_pos)
    qed
    finally show ?thesis .
  qed
qed

lemma rnd_idem: "0 \<le> r \<Longrightarrow> rnd (rnd r) = rnd r"
proof (cases "rnd r = 0")
  case False
  assume r: "0 \<le> r"
  with False have pos: "0 < r" "0 < rnd r" using rnd_nonneg [of r] by (auto simp: le_less)
  let ?d = "max (- 1074) (rat_exponent r - 52)"
  have val: "rnd r = of_int (round_half_even (r / pow2 ?d)) * pow2 ?d" using pos by (simp add: rnd_def Let_def abs_of_pos)
  show ?thesis
  proof (cases "- 1074 \<le> rat_exponent r + 1")
    case True
    have "rnd r \<le> pow2 (rat_exponent r + 1)"
      by (rule rnd_le_float) (use r rat_exponent_less [OF pos(1)] rnd_pow2 [OF True] in simp_all)
    show ?thesis
    proof (cases "rnd r = pow2 (rat_exponent r + 1)")
      case True
      then show ?thesis using rnd_pow2 [OF \<open>- 1074 \<le> rat_exponent r + 1\<close>] by simp
    next
      case False
      with \<open>rnd r \<le> pow2 (rat_exponent r + 1)\<close> have "rnd r < pow2 (rat_exponent r + 1)" by simp
      with pow2_rat_exponent [OF pos(2)] have "pow2 (rat_exponent (rnd r)) < pow2 (rat_exponent r + 1)" by simp
      then have "rat_exponent (rnd r) \<le> rat_exponent r" unfolding pow2_less_iff by simp
      then show ?thesis using val pos(2) by (intro rnd_multiple [of _ "round_half_even (r / pow2 ?d)" ?d]) auto
    qed
  next
    case False
    then have "?d = - 1074" by simp
    have "r \<le> pow2 (- 1074)" using rat_exponent_less [OF pos(1)] pow2_mono [of "rat_exponent r + 1" "- 1074"] False by simp
    then have "rnd r \<le> pow2 (- 1074)" by (rule rnd_le_float) (use r rnd_pow2 [of "- 1074"] in simp_all)
    with pow2_rat_exponent [OF pos(2)] have "\<not> pow2 (- 1074) < pow2 (rat_exponent (rnd r))" by simp
    then have "rat_exponent (rnd r) \<le> - 1074" unfolding pow2_less_iff by simp
    then show ?thesis using val pos(2) \<open>?d = - 1074\<close> by (intro rnd_multiple [of _ "round_half_even (r / pow2 ?d)" ?d]) auto
  qed
qed simp

end
