(* ===== verification/Dsff.thy ===== *)
theory Dsff
  imports FloatOrder Regex Pipeline ServiceConfig
begin

section \<open>Figures of the page content\<close>

text \<open>
  \<open>src/dsvire/dsff.py\<close>: the images that the content stream of a page draws, with their boxes from the transformations, and
  their association with the boxes of a layout detector. The structure of the PDF is the library's: for each page the size of its
  media box, the images among its resources with their sizes, and the content. Floats are values of \<open>pyfloat\<close>, since a content
  stream may name infinities; the sign of a zero is not kept, which no branch observes. Sizes of media boxes are finite.
\<close>

subsection \<open>Float arithmetic\<close>

definition sign_of :: "pyfloat \<Rightarrow> int" where
  "sign_of x = (case x of PosInf \<Rightarrow> 1 | NegInf \<Rightarrow> - 1 | Flt r \<Rightarrow> (if 0 < r then 1 else if r < 0 then - 1 else 0) | NotANumber \<Rightarrow> 0)"

definition infinity_of :: "int \<Rightarrow> pyfloat" where
  "infinity_of s = (if 0 < s then PosInf else if s < 0 then NegInf else NotANumber)"

definition py_add :: "pyfloat \<Rightarrow> pyfloat \<Rightarrow> pyfloat" where
  "py_add x y = (case (x, y) of
     (Flt a, Flt b) \<Rightarrow> rounded (a + b)
   | (NotANumber, _) \<Rightarrow> NotANumber
   | (_, NotANumber) \<Rightarrow> NotANumber
   | (Flt _, _) \<Rightarrow> y
   | (_, Flt _) \<Rightarrow> x
   | _ \<Rightarrow> if x = y then x else NotANumber)"

definition py_mul :: "pyfloat \<Rightarrow> pyfloat \<Rightarrow> pyfloat" where
  "py_mul x y = (case (x, y) of
     (Flt a, Flt b) \<Rightarrow> rounded (a * b)
   | (NotANumber, _) \<Rightarrow> NotANumber
   | (_, NotANumber) \<Rightarrow> NotANumber
   | _ \<Rightarrow> infinity_of (sign_of x * sign_of y))"

definition py_neg :: "pyfloat \<Rightarrow> pyfloat" where
  "py_neg x = (case x of Flt a \<Rightarrow> Flt (- a) | PosInf \<Rightarrow> NegInf | NegInf \<Rightarrow> PosInf | NotANumber \<Rightarrow> NotANumber)"

text \<open>Division by a positive finite value.\<close>

definition py_div :: "pyfloat \<Rightarrow> rat \<Rightarrow> pyfloat" where
  "py_div x d = (case x of Flt a \<Rightarrow> rounded (a / d) | _ \<Rightarrow> x)"

definition py_less :: "pyfloat \<Rightarrow> pyfloat \<Rightarrow> bool" where
  "py_less x y = (case (x, y) of
     (NotANumber, _) \<Rightarrow> False
   | (_, NotANumber) \<Rightarrow> False
   | (Flt a, Flt b) \<Rightarrow> a < b
   | (NegInf, _) \<Rightarrow> y \<noteq> NegInf
   | (_, PosInf) \<Rightarrow> x \<noteq> PosInf
   | _ \<Rightarrow> False)"

text \<open>\<open>min\<close> and \<open>max\<close> of several values keep the first of those that no later one beats.\<close>

definition py_min :: "pyfloat list \<Rightarrow> pyfloat" where
  "py_min xs = foldl (\<lambda>m x. if py_less x m then x else m) (hd xs) (tl xs)"

definition py_max :: "pyfloat list \<Rightarrow> pyfloat" where
  "py_max xs = foldl (\<lambda>m x. if py_less m x then x else m) (hd xs) (tl xs)"

subsection \<open>Transformations\<close>

record affine =
  af_a :: pyfloat
  af_b :: pyfloat
  af_c :: pyfloat
  af_d :: pyfloat
  af_e :: pyfloat
  af_f :: pyfloat

definition affine_multiply :: "affine \<Rightarrow> affine \<Rightarrow> affine" where
  "affine_multiply s t = \<lparr>
     af_a = py_add (py_mul (af_a s) (af_a t)) (py_mul (af_b s) (af_c t)),
     af_b = py_add (py_mul (af_a s) (af_b t)) (py_mul (af_b s) (af_d t)),
     af_c = py_add (py_mul (af_c s) (af_a t)) (py_mul (af_d s) (af_c t)),
     af_d = py_add (py_mul (af_c s) (af_b t)) (py_mul (af_d s) (af_d t)),
     af_e = py_add (py_add (py_mul (af_e s) (af_a t)) (py_mul (af_f s) (af_c t))) (af_e t),
     af_f = py_add (py_add (py_mul (af_e s) (af_b t)) (py_mul (af_f s) (af_d t))) (af_f t)\<rparr>"

definition affine_apply :: "affine \<Rightarrow> pyfloat \<Rightarrow> pyfloat \<Rightarrow> pyfloat \<times> pyfloat" where
  "affine_apply m x y =
     (py_add (py_add (py_mul (af_a m) x) (py_mul (af_c m) y)) (af_e m), py_add (py_add (py_mul (af_b m) x) (py_mul (af_d m) y)) (af_f m))"

definition IDENTITY :: affine where
  "IDENTITY = \<lparr>af_a = Flt 1, af_b = Flt 0, af_c = Flt 0, af_d = Flt 1, af_e = Flt 0, af_f = Flt 0\<rparr>"

subsection \<open>Errors and records\<close>

datatype dsff_error = DsffError string

record xobject_figure =
  xf_page :: nat
  xf_name :: string
  xf_bbox :: box
  xf_width :: int
  xf_height :: int

record layout_box =
  lb_page :: nat
  lb_bbox :: box
  lb_label :: string
  lb_score :: rat
  lb_source :: string

record associated_region =
  ar_page :: nat
  ar_bbox :: box
  ar_label :: string
  ar_source :: string
  ar_iou :: rat
  ar_xobject :: "string option"

definition iou :: "box \<Rightarrow> box \<Rightarrow> rat" where
  "iou l r = (case (l, r) of ((l0, l1, l2, l3), (r0, r1, r2, r3)) \<Rightarrow>
     let x0 = max l0 r0; y0 = max l1 r1; x1 = min l2 r2; y1 = min l3 r3 in
     if x1 \<le> x0 \<or> y1 \<le> y0 then 0
     else let inter = fmul (fsub x1 x0) (fsub y1 y0);
              area_left = fmul (fsub l2 l0) (fsub l3 l1);
              area_right = fmul (fsub r2 r0) (fsub r3 r1);
              denom = fsub (fadd area_left area_right) inter
          in if denom \<le> 0 then 0 else fdiv inter denom)"

subsection \<open>Tokens of a content stream\<close>

definition stream_space :: "char \<Rightarrow> bool" where
  "stream_space = any_of [CHR '' '', char_of (9::nat), char_of (13::nat), char_of (10::nat)]"

definition stream_delimiter :: "char \<Rightarrow> bool" where
  "stream_delimiter c \<longleftrightarrow> stream_space c \<or> any_of ''/%[]()'' c"

definition name_byte :: "char \<Rightarrow> bool" where
  "name_byte c \<longleftrightarrow> ascii_alnum c \<or> any_of ''._-'' c"

definition stream_number :: rx where
  "stream_number = sequence [Perhaps (One (any_of ''-+'')),
     choice [sequence [Run ascii_digit 1 None, lit ''.'', Run ascii_digit 0 None], sequence [lit ''.'', Run ascii_digit 1 None],
       Run ascii_digit 1 None]]"

text \<open>The length of the match at the start of the data, if there is one.\<close>

definition number_length :: "bytes \<Rightarrow> nat option" where
  "number_length s = (case rx_ends stream_number s 0 of [] \<Rightarrow> None | n # _ \<Rightarrow> Some n)"

text \<open>The bytes of a string up to its closing bracket, at nesting depth \<open>depth\<close>; at its end when it is not closed.\<close>

fun string_length :: "nat \<Rightarrow> bytes \<Rightarrow> nat" where
  "string_length depth [] = 0"
| "string_length 0 s = 0"
| "string_length (Suc depth) (c # s) =
     (if c = CHR 0x5C \<and> s \<noteq> [] then Suc (Suc (string_length (Suc depth) (tl s)))
      else if c = CHR ''('' then Suc (string_length (Suc (Suc depth)) s)
      else if c = CHR '')'' then Suc (string_length depth s)
      else Suc (string_length (Suc depth) s))"

text \<open>
  One iteration of the loop: the data is finished, an error, a token with the number of bytes it takes, or a comment to skip.
\<close>

datatype token_step = TokensDone | TokenError string | Token bytes nat | SkipTo bytes

definition next_token :: "bytes \<Rightarrow> token_step" where
  "next_token s = (case dropWhile stream_space s of
     [] \<Rightarrow> TokensDone
   | c # t \<Rightarrow>
       if c = CHR ''%'' then SkipTo (drop 1 (dropWhile (\<lambda>x. x \<noteq> char_of (10::nat)) t))
       else if c = CHR ''/'' then (case takeWhile name_byte t of
           [] \<Rightarrow> TokenError ''XObject content stream contains an invalid name''
         | n \<Rightarrow> Token (c # n) (Suc (length n)))
       else if c = CHR ''['' \<or> c = CHR '']'' then Token [c] 1
       else if c = CHR ''('' then (let n = Suc (string_length 1 t) in Token (take n (c # t)) n)
       else (case number_length (c # t) of
           Some n \<Rightarrow> Token (take n (c # t)) n
         | None \<Rightarrow> (let word = takeWhile (\<lambda>x. \<not> stream_delimiter x) (c # t) in Token word (length word))))"

text \<open>The loop; \<open>None\<close> when it does not end.\<close>

partial_function (option) tokenize :: "bytes \<Rightarrow> (dsff_error + bytes list) option" where
  "tokenize s = (case next_token s of
     TokensDone \<Rightarrow> Some (Inr [])
   | TokenError m \<Rightarrow> Some (Inl (DsffError m))
   | SkipTo t \<Rightarrow> tokenize t
   | Token token n \<Rightarrow> Option.bind (tokenize (drop n (dropWhile stream_space s))) (\<lambda>r. case r of
       Inl x \<Rightarrow> Some (Inl x)
     | Inr tokens \<Rightarrow> Some (Inr (token # tokens))))"

subsection \<open>The images of a page\<close>

definition clamp_unit :: "pyfloat \<Rightarrow> rat" where
  "clamp_unit x = (case (if py_less x (Flt 1) then x else Flt 1) of Flt r \<Rightarrow> (if 0 < r then r else 0) | _ \<Rightarrow> 0)"

definition unit_square_bbox :: "affine \<Rightarrow> rat \<Rightarrow> rat \<Rightarrow> dsff_error + box" where
  "unit_square_bbox m width height =
     (let corners = map (\<lambda>(x, y). affine_apply m (Flt x) (Flt y)) [(0, 0), (1, 0), (0, 1), (1, 1)];
          xs = map fst corners; ys = map snd corners;
          y_top = py_add (Flt height) (py_neg (py_max ys)); y_bottom = py_add (Flt height) (py_neg (py_min ys));
          x0 = clamp_unit (py_div (py_min xs) width); y0 = clamp_unit (py_div y_top height);
          x1 = clamp_unit (py_div (py_max xs) width); y1 = clamp_unit (py_div y_bottom height)
      in if x1 \<le> x0 \<or> y1 \<le> y0 then Inl (DsffError ''XObject CTM produced a degenerate crop'') else Inr (x0, y0, x1, y1))"

text \<open>What the library reads of a page: the media box, the images among the resources and the content.\<close>

record stream_page =
  sp_width :: rat
  sp_height :: rat
  sp_images :: "(string \<times> int \<times> int) list"
  sp_contents :: bytes

text \<open>The state of the loop over the tokens: the transformations with the current one first, and the figures so far.\<close>

record stream_state =
  st_stack :: "affine list"
  st_figures :: "xobject_figure list"

fun affine_of :: "pyfloat list \<Rightarrow> affine" where
  "affine_of [a, b, c, d, e, f] = \<lparr>af_a = a, af_b = b, af_c = c, af_d = d, af_e = e, af_f = f\<rparr>"
| "affine_of _ = IDENTITY"

text \<open>\<open>float\<close> of bytes knows ASCII only, and fewer spaces than \<open>float\<close> of a text.\<close>

definition number_byte :: "char \<Rightarrow> bool" where
  "number_byte c \<longleftrightarrow> 9 \<le> code_point c \<and> code_point c \<le> 13 \<or> 32 \<le> code_point c \<and> code_point c < 128"

definition operand :: "bytes \<Rightarrow> dsff_error + pyfloat" where
  "operand token = (case (if list_all number_byte token then parse_float token else None) of
     Some x \<Rightarrow> Inr x | None \<Rightarrow> Inl (DsffError ''cm operands are not numbers''))"

definition run_token :: "nat \<Rightarrow> stream_page \<Rightarrow> bytes list \<Rightarrow> stream_state \<Rightarrow> nat \<Rightarrow> dsff_error + stream_state" where
  "run_token page_index page tokens s index =
     (let token = tokens ! index in
      if token = ''q'' then Inr (s\<lparr>st_stack := hd (st_stack s) # st_stack s\<rparr>)
      else if token = ''Q'' then
        (if length (st_stack s) = 1 then Inl (DsffError ''unbalanced Q in content stream'') else Inr (s\<lparr>st_stack := tl (st_stack s)\<rparr>))
      else if token = ''cm'' then
        (if index < 6 then Inl (DsffError ''cm is missing operands'')
         else bindE (mapE operand (take 6 (drop (index - 6) tokens))) (\<lambda>operands.
           Inr (s\<lparr>st_stack := affine_multiply (hd (st_stack s)) (affine_of operands) # tl (st_stack s)\<rparr>)))
      else if token = ''Do'' then
        (if index = 0 then Inl (DsffError ''Do is missing an XObject name'')
         else if \<not> starts_with ''/'' (tokens ! (index - 1)) then Inl (DsffError ''Do operand is not a name'')
         else (case map_of (sp_images page) (drop 1 (tokens ! (index - 1))) of
             None \<Rightarrow> Inr s
           | Some (width_px, height_px) \<Rightarrow>
               bindE (unit_square_bbox (hd (st_stack s)) (sp_width page) (sp_height page)) (\<lambda>bbox.
               Inr (s\<lparr>st_figures := st_figures s @ [\<lparr>xf_page = page_index, xf_name = drop 1 (tokens ! (index - 1)), xf_bbox = bbox,
                 xf_width = width_px, xf_height = height_px\<rparr>]\<rparr>))))
      else Inr s)"

definition page_figures :: "xobject_figure list \<Rightarrow> nat \<Rightarrow> stream_page \<Rightarrow> (dsff_error + xobject_figure list) option" where
  "page_figures figures page_index page =
     (if sp_width page \<le> 0 \<or> sp_height page \<le> 0
      then Some (Inl (DsffError (''page '' @ nat_str page_index @ '' has invalid media box'')))
      else if sp_images page = [] then Some (Inr figures)
      else map_option (\<lambda>r. bindE r (\<lambda>tokens.
          bindE (foldE (run_token page_index page tokens) \<lparr>st_stack = [IDENTITY], st_figures = figures\<rparr> [0..<length tokens]) (\<lambda>s.
          Inr (st_figures s)))) (tokenize (sp_contents page)))"

text \<open>The pages in turn; a page whose content is never finished stops everything.\<close>

fun pages_figures :: "xobject_figure list \<Rightarrow> nat \<Rightarrow> stream_page list \<Rightarrow> (dsff_error + xobject_figure list) option" where
  "pages_figures figures i [] = Some (Inr figures)"
| "pages_figures figures i (p # ps) = (case page_figures figures i p of
     None \<Rightarrow> None
   | Some (Inl x) \<Rightarrow> Some (Inl x)
   | Some (Inr figures') \<Rightarrow> pages_figures figures' (Suc i) ps)"

definition extract_xobjects :: "(bytes \<Rightarrow> stream_page list option) \<Rightarrow> bytes \<Rightarrow> (dsff_error + xobject_figure list) option" where
  "extract_xobjects reader payload =
     (if \<not> starts_with ''%PDF-'' payload then Some (Inl (DsffError ''DSFF refused a non-PDF payload''))
      else case reader payload of
        None \<Rightarrow> Some (Inl (DsffError ''DSFF could not parse PDF structure''))
      | Some pages \<Rightarrow> pages_figures [] 1 pages)"

subsection \<open>Association\<close>

text \<open>The best figure that is not used yet, with its overlap: the first of those that no later one exceeds, and none at zero.\<close>

definition better_figure :: "xobject_figure list \<Rightarrow> nat set \<Rightarrow> layout_box \<Rightarrow> nat option \<times> rat \<Rightarrow> nat \<Rightarrow> nat option \<times> rat" where
  "better_figure figures used b best index =
     (if index \<in> used \<or> xf_page (figures ! index) \<noteq> lb_page b then best
      else let score = iou (lb_bbox b) (xf_bbox (figures ! index)) in if snd best < score then (Some index, score) else best)"

definition best_figure :: "xobject_figure list \<Rightarrow> nat set \<Rightarrow> layout_box \<Rightarrow> nat option \<times> rat" where
  "best_figure figures used b = foldl (better_figure figures used b) (None, 0) [0..<length figures]"

record association =
  as_used :: "nat list"
  as_regions :: "associated_region list"

definition associate_box :: "xobject_figure list \<Rightarrow> rat \<Rightarrow> association \<Rightarrow> layout_box \<Rightarrow> association" where
  "associate_box figures minimum a b = (case best_figure figures (set (as_used a)) b of
     (Some index, score) \<Rightarrow>
       if minimum \<le> score
       then \<lparr>as_used = as_used a @ [index], as_regions = as_regions a @ [\<lparr>ar_page = lb_page b, ar_bbox = lb_bbox b, ar_label = lb_label b,
         ar_source = ''ensemble'', ar_iou = round_digits 6 score, ar_xobject = Some (xf_name (figures ! index))\<rparr>]\<rparr>
       else a\<lparr>as_regions := as_regions a @ [\<lparr>ar_page = lb_page b, ar_bbox = lb_bbox b, ar_label = lb_label b,
         ar_source = lb_source b, ar_iou = round_digits 6 score, ar_xobject = None\<rparr>]\<rparr>
   | (None, score) \<Rightarrow>
       a\<lparr>as_regions := as_regions a @ [\<lparr>ar_page = lb_page b, ar_bbox = lb_bbox b, ar_label = lb_label b,
         ar_source = lb_source b, ar_iou = round_digits 6 score, ar_xobject = None\<rparr>]\<rparr>)"

definition unused_region :: "xobject_figure \<Rightarrow> associated_region" where
  "unused_region f = \<lparr>ar_page = xf_page f, ar_bbox = xf_bbox f, ar_label = ''other'', ar_source = ''xobject'', ar_iou = 0,
     ar_xobject = Some (xf_name f)\<rparr>"

definition associate :: "xobject_figure list \<Rightarrow> layout_box list \<Rightarrow> rat \<Rightarrow> dsff_error + associated_region list" where
  "associate figures boxes minimum =
     (if \<not> (1 / 2 \<le> minimum \<and> minimum \<le> 1) then Inl (DsffError ''DSFF association IoU must be within 0.5..=1.0'')
      else let a = foldl (associate_box figures minimum) \<lparr>as_used = [], as_regions = []\<rparr> boxes
           in Inr (as_regions a @ map (\<lambda>i. unused_region (figures ! i)) (filter (\<lambda>i. i \<notin> set (as_used a)) [0..<length figures])))"

subsection \<open>Overlap\<close>

lemma fsub_mono: "0 \<le> a - b \<Longrightarrow> a - b \<le> c - d \<Longrightarrow> fsub a b \<le> fsub c d"
  unfolding fsub_def by (rule rnd_mono)

lemma fmul_mono: "0 \<le> a \<Longrightarrow> a \<le> c \<Longrightarrow> 0 \<le> b \<Longrightarrow> b \<le> d \<Longrightarrow> fmul a b \<le> fmul c d"
  unfolding fmul_def by (intro rnd_mono mult_mono mult_nonneg_nonneg) simp_all

text \<open>A common part that is no larger than either area gives a quotient within the unit interval, rounding included.\<close>

lemma overlap_ratio:
  assumes "0 \<le> i" and "rnd i = i" and "i \<le> a" and "i \<le> b" and "0 < fsub (fadd a b) i"
  shows "0 \<le> fdiv i (fsub (fadd a b) i) \<and> fdiv i (fsub (fadd a b) i) \<le> 1"
proof -
  let ?d = "fsub (fadd a b) i"
  have "2 * i \<le> fadd a b"
    using rnd_mono [of "2 * i" "a + b"] rnd_double [OF assms(2,1)] assms(1,3,4) by (simp add: fadd_def)
  then have "i \<le> ?d" using rnd_mono [of i "fadd a b - i"] assms(1,2) by (simp add: fsub_def)
  then have "0 \<le> i / ?d" "i / ?d \<le> of_int 1" using assms(1,5) by (simp_all add: pos_divide_le_eq)
  then show ?thesis using rnd_nonneg [of "i / ?d"] rnd_le_int [of "i / ?d" 1] by (simp add: fdiv_def)
qed

text \<open>
  The overlap of two boxes is a ratio, whatever the coordinates are: it lies in the unit interval although every operation
  rounds, it does not depend on the order of the boxes, and it is positive only if the boxes have a common part.
\<close>

theorem iou_is_a_ratio:
  "0 \<le> iou l r \<and> iou l r \<le> 1 \<and> iou l r = iou r l \<and>
   (0 < iou l r \<longrightarrow> (case (l, r) of ((l0, l1, l2, l3), (r0, r1, r2, r3)) \<Rightarrow> max l0 r0 < min l2 r2 \<and> max l1 r1 < min l3 r3))"
proof -
  obtain l0 l1 l2 l3 where l: "l = (l0, l1, l2, l3)" by (cases l)
  obtain r0 r1 r2 r3 where r: "r = (r0, r1, r2, r3)" by (cases r)
  show ?thesis
  proof (cases "min l2 r2 \<le> max l0 r0 \<or> min l3 r3 \<le> max l1 r1")
    case True
    then show ?thesis by (auto simp: l r iou_def Let_def max.commute min.commute)
  next
    case False
    let ?w = "min l2 r2 - max l0 r0" and ?h = "min l3 r3 - max l1 r1"
    let ?i = "fmul (fsub (min l2 r2) (max l0 r0)) (fsub (min l3 r3) (max l1 r1))"
    let ?a = "fmul (fsub l2 l0) (fsub l3 l1)" and ?b = "fmul (fsub r2 r0) (fsub r3 r1)"
    have lt: "max l0 r0 < min l2 r2" "max l1 r1 < min l3 r3" using False by (simp_all only: not_le de_Morgan_disj)
    then have wh: "0 \<le> ?w" "0 \<le> ?h" by linarith+
    then have nonneg: "0 \<le> fsub (min l2 r2) (max l0 r0)" "0 \<le> fsub (min l3 r3) (max l1 r1)"
      by (simp_all add: fsub_def rnd_nonneg)
    then have i: "0 \<le> ?i" "rnd ?i = ?i" by (simp_all add: fmul_def rnd_nonneg rnd_idem)
    have "fsub (min l2 r2) (max l0 r0) \<le> fsub l2 l0" "fsub (min l3 r3) (max l1 r1) \<le> fsub l3 l1"
      "fsub (min l2 r2) (max l0 r0) \<le> fsub r2 r0" "fsub (min l3 r3) (max l1 r1) \<le> fsub r3 r1"
      using lt wh by (intro fsub_mono; linarith)+
    then have "?i \<le> ?a" "?i \<le> ?b" using nonneg by (simp_all add: fmul_mono)
    note ratio = overlap_ratio [OF i this]
    have eq: "iou l r = (if fsub (fadd ?a ?b) ?i \<le> 0 then 0 else fdiv ?i (fsub (fadd ?a ?b) ?i))"
      using False by (simp add: l r iou_def Let_def)
    have "iou l r = iou r l"
      using False by (simp add: l r iou_def Let_def fadd_def add.commute max.commute min.commute)
    moreover have "0 \<le> iou l r" "iou l r \<le> 1" unfolding eq using ratio by (auto simp: not_le)
    moreover have "case (l, r) of ((l0, l1, l2, l3), (r0, r1, r2, r3)) \<Rightarrow> max l0 r0 < min l2 r2 \<and> max l1 r1 < min l3 r3"
      unfolding l r prod.case using lt by (rule conjI)
    ultimately show ?thesis by (intro conjI impI)
  qed
qed

subsection \<open>When the tokeniser ends\<close>

text \<open>One iteration that goes on, and the data at which the loop makes no progress: a closing bracket outside of a string.\<close>

inductive stream_step :: "bytes \<Rightarrow> bytes \<Rightarrow> bool" where
  skip: "next_token s = SkipTo t \<Longrightarrow> stream_step s t"
| token: "next_token s = Token w n \<Longrightarrow> stream_step s (drop n (dropWhile stream_space s))"

inductive_cases stream_stepE: "stream_step s t"

definition stray_bracket :: "bytes \<Rightarrow> bool" where
  "stray_bracket s \<longleftrightarrow> (\<exists>t. dropWhile stream_space s = CHR '')'' # t)"

text \<open>The least number of characters that an expression takes.\<close>

primrec rx_least :: "rx \<Rightarrow> nat" where
  "rx_least Here = 0"
| "rx_least (One p) = 1"
| "rx_least (Run p lo hi) = lo"
| "rx_least (Both a b) = rx_least a + rx_least b"
| "rx_least (Either a b) = min (rx_least a) (rx_least b)"
| "rx_least (Perhaps a) = 0"
| "rx_least Boundary = 0"
| "rx_least (NotAfter p) = 0"
| "rx_least (NotBefore p) = 0"

lemma rx_match_least: "rx_match r s i j \<Longrightarrow> i + rx_least r \<le> j"
proof (induction r arbitrary: i j)
  case (Both a b)
  then obtain k where "rx_match a s i k" "rx_match b s k j" by auto
  with Both.IH(1) [of i k] Both.IH(2) [of k j] show ?case by simp
next
  case (Either a b)
  have "i + rx_least a \<le> j \<or> i + rx_least b \<le> j" using Either.IH(1) [of i j] Either.IH(2) [of i j] Either.prems by auto
  then show ?case by (auto simp: min_def)
qed (auto dest: rx_match_bounds)

lemma number_length_positive: "number_length s = Some n \<Longrightarrow> 0 < n"
proof -
  assume "number_length s = Some n"
  then have "n \<in> set (rx_ends stream_number s 0)" by (auto simp: number_length_def split: list.splits)
  then have "rx_least stream_number \<le> n" using rx_match_least [of stream_number s 0 n] by (simp add: rx_ends_match)
  moreover have "rx_least stream_number = 1" by code_simp
  ultimately show ?thesis by simp
qed

lemma bracket_no_number: "number_length (CHR '')'' # t) = None"
proof -
  have no: "any_of ''-+'' CHR '')'' = False" "ascii_digit CHR '')'' = False" by code_simp+
  have at_start: "char_at p (CHR '')'' # t) 0 \<longleftrightarrow> p CHR '')''" for p by (simp add: char_at_def)
  have run: "run_length ascii_digit (CHR '')'' # t) 0 = 0" by (simp add: run_length_def no)
  have "rx_ends stream_number (CHR '')'' # t) 0 = []"
    by (simp add: stream_number_def sequence_def lit_def at_start run capped_def no del: char_at_def)
  then show ?thesis by (simp add: number_length_def)
qed

lemma stray_token: "stray_bracket s \<Longrightarrow> next_token s = Token [] 0"
proof -
  assume "stray_bracket s"
  then obtain t where t: "dropWhile stream_space s = CHR '')'' # t" by (auto simp: stray_bracket_def)
  have "stream_delimiter CHR '')''" by code_simp
  with t show ?thesis by (simp add: next_token_def bracket_no_number Let_def)
qed

text \<open>Every other iteration consumes something.\<close>

lemma token_progress:
  assumes "next_token s = Token w n" and "\<not> stray_bracket s"
  shows "length (drop n (dropWhile stream_space s)) < length s"
proof -
  obtain c t where s: "dropWhile stream_space s = c # t" using assms(1) by (auto simp: next_token_def split: list.splits)
  have sp: "\<not> stream_space c" using hd_dropWhile [of stream_space s] s by simp
  have "0 < n"
  proof (cases "stream_delimiter c")
    case True
    with sp have "c = CHR ''/'' \<or> c = CHR ''%'' \<or> c = CHR ''['' \<or> c = CHR '']'' \<or> c = CHR ''('' \<or> c = CHR '')''"
      by (simp add: stream_delimiter_def any_of_def)
    then show ?thesis using assms s by (auto simp: next_token_def stray_bracket_def Let_def split: list.splits if_splits)
  next
    case False
    then show ?thesis using assms(1) number_length_positive [of "c # t"]
      by (auto simp: next_token_def s Let_def split: list.splits if_splits option.splits)
  qed
  moreover have "length (c # t) \<le> length s" using length_dropWhile_le [of stream_space s] s by simp
  ultimately show ?thesis using s by simp
qed

lemma skip_progress: "next_token s = SkipTo t \<Longrightarrow> length t < length s"
proof -
  assume skip: "next_token s = SkipTo t"
  obtain c u where s: "dropWhile stream_space s = c # u" using skip by (auto simp: next_token_def split: list.splits)
  have t: "t = drop 1 (dropWhile (\<lambda>x. x \<noteq> char_of (10::nat)) u)"
    using skip by (auto simp: next_token_def s Let_def split: list.splits if_splits option.splits)
  have "length t \<le> length u" unfolding t using length_dropWhile_le [of "\<lambda>x. x \<noteq> char_of (10::nat)" u] by simp
  moreover have "length (c # u) \<le> length s" using length_dropWhile_le [of stream_space s] s by simp
  ultimately show ?thesis by simp
qed

lemma stray_never_ends: "stray_bracket s \<Longrightarrow> tokenize s = None"
proof (rule ccontr)
  assume stray: "stray_bracket s" and "tokenize s \<noteq> None"
  then obtain r where "tokenize s = Some r" by blast
  then have "\<not> stray_bracket s"
  proof (rule tokenize.raw_induct [rotated, where P = "\<lambda>s _. \<not> stray_bracket s"])
    fix f :: "bytes \<Rightarrow> (dsff_error + bytes list) option" and s r
    assume IH: "\<And>s r. f s = Some r \<Longrightarrow> \<not> stray_bracket s"
    assume run: "(case next_token s of TokensDone \<Rightarrow> Some (Inr []) | TokenError m \<Rightarrow> Some (Inl (DsffError m))
       | Token token n \<Rightarrow> Option.bind (f (drop n (dropWhile stream_space s)))
           (\<lambda>r. case r of Inl x \<Rightarrow> Some (Inl x) | Inr tokens \<Rightarrow> Some (Inr (token # tokens)))
       | SkipTo x \<Rightarrow> f x) = Some r"
    show "\<not> stray_bracket s"
    proof
      assume st: "stray_bracket s"
      with run stray_token obtain q where "f (dropWhile stream_space s) = Some q" by (auto simp: Option.bind_eq_Some_conv)
      moreover have "stray_bracket (dropWhile stream_space s)"
        using st by (auto simp: stray_bracket_def)
      ultimately show False using IH by blast
    qed
  qed
  with stray show False by blast
qed

text \<open>
  C32. The tokeniser of content streams ends exactly on the data in which it never meets a closing bracket outside of a string:
  such a bracket is a delimiter, so that the loop appends empty tokens for ever, and every other iteration consumes data.
\<close>

theorem tokenizer_ends_iff:
  "(\<exists>r. tokenize s = Some r) \<longleftrightarrow> \<not> (\<exists>t. stream_step\<^sup>*\<^sup>* s t \<and> stray_bracket t)"
proof
  assume some: "\<exists>r. tokenize s = Some r"
  have "tokenize s = None" if "stream_step\<^sup>*\<^sup>* s t" "stray_bracket t" for s t
    using that
  proof (induction rule: converse_rtranclp_induct)
    case base
    then show ?case by (rule stray_never_ends)
  next
    case (step s u)
    then show ?case by (auto simp: tokenize.simps [of s] elim!: stream_stepE)
  qed
  with some show "\<not> (\<exists>t. stream_step\<^sup>*\<^sup>* s t \<and> stray_bracket t)" by force
next
  assume "\<not> (\<exists>t. stream_step\<^sup>*\<^sup>* s t \<and> stray_bracket t)"
  then show "\<exists>r. tokenize s = Some r"
  proof (induction s rule: measure_induct_rule [of length])
    case (less s)
    have rest: "\<exists>r. tokenize u = Some r" if u: "stream_step s u" "length u < length s" for u
      using less.IH [OF u(2)] less.prems converse_rtranclp_into_rtranclp [of stream_step, OF u(1)] by blast
    have clear: "\<not> stray_bracket s" using less.prems by blast
    show ?case
    proof (cases "next_token s")
      case (Token w n)
      from rest [OF token [OF Token] token_progress [OF Token clear]] obtain r
        where "tokenize (drop n (dropWhile stream_space s)) = Some r" by blast
      then show ?thesis by (cases r) (simp_all add: tokenize.simps [of s] Token)
    next
      case (SkipTo t)
      from rest [OF skip [OF SkipTo] skip_progress [OF SkipTo]] show ?thesis by (simp add: tokenize.simps [of s] SkipTo)
    qed (simp_all add: tokenize.simps [of s])
  qed
qed

text \<open>One page with an image and the content \<open>)\<close> is enough for an extraction that never returns.\<close>

definition hostile_page :: stream_page where
  "hostile_page = \<lparr>sp_width = 100, sp_height = 100, sp_images = [(''a'', 1, 1)], sp_contents = '')''\<rparr>"

lemma hostile_page_never_returns: "extract_xobjects (\<lambda>_. Some [hostile_page]) ''%PDF-'' = None"
proof -
  have "\<not> stream_space CHR '')''" by code_simp
  then have "stray_bracket '')''" by (simp add: stray_bracket_def)
  from stray_never_ends [OF this] show ?thesis
    by (simp add: extract_xobjects_def hostile_page_def page_figures_def starts_with_def)
qed

subsection \<open>Where the figures are\<close>

definition inside_unit :: "box \<Rightarrow> bool" where
  "inside_unit b \<longleftrightarrow> (case b of (x0, y0, x1, y1) \<Rightarrow> 0 \<le> x0 \<and> x0 < x1 \<and> x1 \<le> 1 \<and> 0 \<le> y0 \<and> y0 < y1 \<and> y1 \<le> 1)"

definition drawn_on :: "nat \<Rightarrow> stream_page \<Rightarrow> xobject_figure \<Rightarrow> bool" where
  "drawn_on i page f \<longleftrightarrow> xf_page f = i \<and> inside_unit (xf_bbox f) \<and>
     map_of (sp_images page) (xf_name f) = Some (xf_width f, xf_height f)"

definition stream_good :: "xobject_figure list \<Rightarrow> nat \<Rightarrow> stream_page \<Rightarrow> stream_state \<Rightarrow> bool" where
  "stream_good old i page s \<longleftrightarrow> st_stack s \<noteq> [] \<and> (\<forall>f \<in> set (st_figures s). f \<in> set old \<or> drawn_on i page f)"

lemma clamp_unit_bounds: "0 \<le> clamp_unit x \<and> clamp_unit x \<le> 1"
  by (auto simp: clamp_unit_def py_less_def split: pyfloat.splits)

lemma bbox_inside: "unit_square_bbox m w h = Inr b \<Longrightarrow> inside_unit b"
  by (auto simp: unit_square_bbox_def Let_def inside_unit_def clamp_unit_bounds split: if_splits)

interpretation stream: checked_loop "run_token i page tokens" "stream_good old i page" for i page tokens old
proof
  fix s index s'
  assume good: "stream_good old i page s" and step: "run_token i page tokens s index = Inr s'"
  have pop: "tl (st_stack s) \<noteq> []" if "length (st_stack s) \<noteq> 1"
    using that good by (cases "st_stack s") (auto simp: stream_good_def)
  show "stream_good old i page s'"
  proof (cases "tokens ! index = ''Do''")
    case True
    have "s' = s \<or> (\<exists>f. drawn_on i page f \<and> s' = s\<lparr>st_figures := st_figures s @ [f]\<rparr>)"
    proof (cases "map_of (sp_images page) (drop 1 (tokens ! (index - 1)))")
      case None
      with step True show ?thesis by (auto simp: run_token_def split: if_splits)
    next
      case (Some wh)
      obtain w h where wh: "wh = (w, h)" by (cases wh)
      let ?f = "\<lambda>b. \<lparr>xf_page = i, xf_name = drop 1 (tokens ! (index - 1)), xf_bbox = b, xf_width = w, xf_height = h\<rparr>"
      from step True Some wh obtain b where "unit_square_bbox (hd (st_stack s)) (sp_width page) (sp_height page) = Inr b"
        "s' = s\<lparr>st_figures := st_figures s @ [?f b]\<rparr>"
        by (auto simp: run_token_def split: if_splits)
      moreover have "drawn_on i page (?f b)" using bbox_inside [OF calculation(1)] Some wh by (simp add: drawn_on_def)
      ultimately show ?thesis by blast
    qed
    with good show ?thesis unfolding stream_good_def by auto
  next
    case False
    with step good pop show ?thesis by (auto simp: run_token_def stream_good_def Let_def split: if_splits)
  qed
qed

lemma page_figures_drawn:
  assumes "page_figures figures i page = Some (Inr figures')" and "f \<in> set figures'"
  shows "f \<in> set figures \<or> drawn_on i page f"
proof (cases "sp_images page = []")
  case True
  with assms show ?thesis by (auto simp: page_figures_def split: if_splits)
next
  case False
  with assms(1) obtain tokens s where "foldE (run_token i page tokens) \<lparr>st_stack = [IDENTITY], st_figures = figures\<rparr> [0..<length tokens] = Inr s"
    and s: "figures' = st_figures s"
    by (auto simp: page_figures_def split: if_splits)
  from stream.loop_good [OF this(1), of figures] assms(2) show ?thesis unfolding s by (auto simp: stream_good_def)
qed

lemma pages_figures_drawn:
  "pages_figures figures i pages = Some (Inr figures') \<Longrightarrow> f \<in> set figures' \<Longrightarrow>
     f \<in> set figures \<or> (\<exists>k < length pages. drawn_on (i + k) (pages ! k) f)"
proof (induction pages arbitrary: figures i)
  case (Cons p ps)
  from Cons.prems(1) obtain figs where p: "page_figures figures i p = Some (Inr figs)" and rest: "pages_figures figs (Suc i) ps = Some (Inr figures')"
    by (auto split: option.splits sum.splits)
  from Cons.IH [OF rest Cons.prems(2)] show ?case
  proof
    assume "f \<in> set figs"
    from page_figures_drawn [OF p this] show ?thesis by (metis add_0_right length_greater_0_conv list.distinct(1) nth_Cons_0)
  next
    assume "\<exists>k < length ps. drawn_on (Suc i + k) (ps ! k) f"
    then show ?thesis by (metis Suc_less_eq add_Suc_shift length_Cons nth_Cons_Suc)
  qed
qed simp

text \<open>
  C33. Whatever a content stream says, an extraction that returns figures returns images of the document: each names an image
  among the resources of its page, with the size recorded there, and its box lies within the page and is not empty, also where
  the transformations overflow or are no numbers.
\<close>

theorem figures_inside_their_page:
  assumes "extract_xobjects reader payload = Some (Inr figures)" and "f \<in> set figures"
  shows "\<exists>pages. reader payload = Some pages \<and> 1 \<le> xf_page f \<and> xf_page f \<le> length pages \<and> inside_unit (xf_bbox f) \<and>
    map_of (sp_images (pages ! (xf_page f - 1))) (xf_name f) = Some (xf_width f, xf_height f)"
proof -
  from assms(1) obtain pages where p: "reader payload = Some pages" and run: "pages_figures [] 1 pages = Some (Inr figures)"
    by (auto simp: extract_xobjects_def split: if_splits option.splits)
  from pages_figures_drawn [OF run assms(2)] obtain k where "k < length pages" "drawn_on (1 + k) (pages ! k) f" by auto
  with p show ?thesis by (auto simp: drawn_on_def)
qed

subsection \<open>An example\<close>

text \<open>The loop by the kind of the iteration, for evaluation.\<close>

definition go_on :: "bytes \<Rightarrow> token_step \<Rightarrow> (dsff_error + bytes list) option" where
  "go_on s t = (case t of
     TokensDone \<Rightarrow> Some (Inr [])
   | TokenError m \<Rightarrow> Some (Inl (DsffError m))
   | SkipTo t \<Rightarrow> tokenize t
   | Token token n \<Rightarrow> Option.bind (tokenize (drop n (dropWhile stream_space s))) (\<lambda>r. case r of
       Inl x \<Rightarrow> Some (Inl x)
     | Inr tokens \<Rightarrow> Some (Inr (token # tokens))))"

lemma go_on_code [code]:
  "go_on s TokensDone = Some (Inr [])"
  "go_on s (TokenError m) = Some (Inl (DsffError m))"
  "go_on s (SkipTo t) = tokenize t"
  "go_on s (Token token n) = Option.bind (tokenize (drop n (dropWhile stream_space s))) (\<lambda>r. case r of
       Inl x \<Rightarrow> Some (Inl x) | Inr tokens \<Rightarrow> Some (Inr (token # tokens)))"
  by (simp_all add: go_on_def)

lemma tokenize_code [code]: "tokenize s = go_on s (next_token s)"
  by (simp add: go_on_def tokenize.simps [of s])

lemma rounded_moderate:
  assumes "0 \<le> r" and "r < 2 ^ 53"
  shows "rounded r = Flt (rnd r)"
proof -
  have big: "(2::rat) ^ 53 < 2 ^ 1024 - 2 ^ 970" by simp
  have neg: "b < c \<Longrightarrow> 0 \<le> b \<Longrightarrow> 0 \<le> x \<Longrightarrow> x < b \<Longrightarrow> \<not> c \<le> x \<and> \<not> x \<le> - c" for b c x :: rat by linarith
  from neg [OF big _ assms] show ?thesis by (simp add: rounded_def)
qed

lemma rounded_int: "0 \<le> i \<Longrightarrow> i < 2 ^ 53 \<Longrightarrow> rounded (of_int i) = Flt (of_int i)"
proof -
  assume i: "0 \<le> i" "i < 2 ^ 53"
  then have "rnd (of_int i) = of_int i" using rnd_le_int [of "of_int i" i] rnd_ge_int [of i "of_int i"] by simp
  moreover have "(of_int i :: rat) < of_int (2 ^ 53)" using i(2) by (simp only: of_int_less_iff)
  ultimately show ?thesis using rounded_moderate [of "of_int i"] i(1) by simp
qed

lemma rounded_numerals: "rounded 0 = Flt 0" "rounded 1 = Flt 1" "rounded 2 = Flt 2" "rounded 10 = Flt 10" "rounded 12 = Flt 12"
  "rounded 20 = Flt 20" "rounded 30 = Flt 30" "rounded 90 = Flt 90" "rounded 100 = Flt 100"
  using rounded_int [of 0] rounded_int [of 1] rounded_int [of 2] rounded_int [of 10] rounded_int [of 12]
    rounded_int [of 20] rounded_int [of 30] rounded_int [of 90] rounded_int [of 100] by simp_all

definition demo_stream :: stream_page where
  "demo_stream = \<lparr>sp_width = 100, sp_height = 100, sp_images = [(''a'', 30, 40)],
     sp_contents = ''10 0 0 10 0 0 cm 1 0 0 1 2 0 cm /a Do''\<rparr>"

definition drawn_figure :: "box \<Rightarrow> xobject_figure" where
  "drawn_figure b = \<lparr>xf_page = 1, xf_name = ''a'', xf_bbox = b, xf_width = 30, xf_height = 40\<rparr>"

definition drawn_box :: box where
  "drawn_box = (rnd (2 / 100), rnd (90 / 100), rnd (12 / 100), 1)"

lemma demo_tokens: "tokenize (sp_contents demo_stream) =
    Some (Inr [''10'', ''0'', ''0'', ''10'', ''0'', ''0'', ''cm'', ''1'', ''0'', ''0'', ''1'', ''2'', ''0'', ''cm'', ''/a'', ''Do''])"
  by code_simp


text \<open>
  The operator \<open>cm\<close> puts its matrix before the current transformation (ISO 32000, 8.3.4), and the code multiplies in the other
  order: after a scaling by 10 and a shift by 2 the image lies at 20 of 100 points and is reported at 2.
\<close>

definition scaled :: affine where
  "scaled = \<lparr>af_a = Flt 10, af_b = Flt 0, af_c = Flt 0, af_d = Flt 10, af_e = Flt 0, af_f = Flt 0\<rparr>"

definition shifted :: affine where
  "shifted = \<lparr>af_a = Flt 1, af_b = Flt 0, af_c = Flt 0, af_d = Flt 1, af_e = Flt 2, af_f = Flt 0\<rparr>"

lemmas float_ops = py_add_def py_mul_def py_neg_def py_less_def py_min_def py_max_def rounded_numerals

lemma code_bbox: "unit_square_bbox (affine_multiply (affine_multiply IDENTITY scaled) shifted) 100 100 = Inr drawn_box"
proof -
  have "affine_multiply (affine_multiply IDENTITY scaled) shifted = \<lparr>af_a = Flt 10, af_b = Flt 0, af_c = Flt 0, af_d = Flt 10, af_e = Flt 2, af_f = Flt 0\<rparr>"
    by (simp add: affine_multiply_def IDENTITY_def scaled_def shifted_def float_ops)
  moreover have "0 < rnd (2 / 100) \<and> rnd (2 / 100) < rnd (12 / 100) \<and> rnd (12 / 100) < 1 \<and> 0 < rnd (90 / 100) \<and> rnd (90 / 100) < 1"
    by code_simp
  ultimately show ?thesis
    by (simp add: unit_square_bbox_def affine_apply_def float_ops drawn_box_def py_div_def clamp_unit_def rounded_moderate)
qed

lemma true_bbox: "unit_square_bbox (affine_multiply shifted (affine_multiply scaled IDENTITY)) 100 100 =
    Inr (rnd (20 / 100), rnd (90 / 100), rnd (30 / 100), 1)"
proof -
  have "affine_multiply shifted (affine_multiply scaled IDENTITY) = \<lparr>af_a = Flt 10, af_b = Flt 0, af_c = Flt 0, af_d = Flt 10, af_e = Flt 20, af_f = Flt 0\<rparr>"
    by (simp add: affine_multiply_def IDENTITY_def scaled_def shifted_def float_ops)
  moreover have "0 < rnd (20 / 100) \<and> rnd (20 / 100) < rnd (30 / 100) \<and> rnd (30 / 100) < 1 \<and> 0 < rnd (90 / 100) \<and> rnd (90 / 100) < 1"
    by code_simp
  ultimately show ?thesis
    by (simp add: unit_square_bbox_def affine_apply_def float_ops py_div_def clamp_unit_def rounded_moderate)
qed

lemma demo_operands: "operand ''0'' = Inr (Flt 0)" "operand ''1'' = Inr (Flt 1)" "operand ''2'' = Inr (Flt 2)" "operand ''10'' = Inr (Flt 10)"
proof -
  have parts: "list_all number_byte ''0'' \<and> list_all number_byte ''1'' \<and> list_all number_byte ''2'' \<and> list_all number_byte ''10''"
    "signed_part (lower (strip ''0'')) = (False, ''0'') \<and> signed_part (lower (strip ''1'')) = (False, ''1'') \<and>
     signed_part (lower (strip ''2'')) = (False, ''2'') \<and> signed_part (lower (strip ''10'')) = (False, ''10'')"
    "decimal_of ''0'' = Some 0 \<and> decimal_of ''1'' = Some 1 \<and> decimal_of ''2'' = Some 2 \<and> decimal_of ''10'' = Some 10" by code_simp+
  then show "operand ''0'' = Inr (Flt 0)" "operand ''1'' = Inr (Flt 1)" "operand ''2'' = Inr (Flt 2)" "operand ''10'' = Inr (Flt 10)"
    by (simp_all add: operand_def parse_float_def rounded_numerals)
qed

lemma demo_figures: "extract_xobjects (\<lambda>_. Some [demo_stream]) ''%PDF-'' = Some (Inr [drawn_figure drawn_box])"
proof -
  let ?ts = "[''10'', ''0'', ''0'', ''10'', ''0'', ''0'', ''cm'', ''1'', ''0'', ''0'', ''1'', ''2'', ''0'', ''cm'', ''/a'', ''Do'']"
  have upto: "[0..<length ?ts] = [0, 1, 2, 3, 4, 5, 6, 7, 8, 9, 10, 11, 12, 13, 14, 15]" by (simp add: upt_conv_Cons)
  have run: "foldE (run_token 1 demo_stream ?ts) \<lparr>st_stack = [IDENTITY], st_figures = []\<rparr> [0..<length ?ts] =
      Inr \<lparr>st_stack = [affine_multiply (affine_multiply IDENTITY scaled) shifted], st_figures = [drawn_figure drawn_box]\<rparr>"
    unfolding upto using code_bbox
    by (simp add: run_token_def demo_operands demo_stream_def starts_with_def drawn_figure_def scaled_def shifted_def)
  have valid: "\<not> (sp_width demo_stream \<le> 0 \<or> sp_height demo_stream \<le> 0)" "sp_images demo_stream \<noteq> []" by (simp_all add: demo_stream_def)
  have "page_figures [] 1 demo_stream = Some (Inr [drawn_figure drawn_box])"
    by (simp only: page_figures_def valid demo_tokens option.map bindE.simps run simp_thms if_False) simp
  then show ?thesis by (simp add: extract_xobjects_def starts_with_def)
qed

lemma nested_transformation_misplaced:
  "extract_xobjects (\<lambda>_. Some [demo_stream]) ''%PDF-'' = Some (Inr [drawn_figure drawn_box]) \<and>
   unit_square_bbox (affine_multiply (affine_multiply IDENTITY scaled) shifted) 100 100 = Inr drawn_box \<and>
   unit_square_bbox (affine_multiply shifted (affine_multiply scaled IDENTITY)) 100 100 =
     Inr (rnd (20 / 100), rnd (90 / 100), rnd (30 / 100), 1)"
  by (intro conjI demo_figures code_bbox true_bbox)

lemma figures_inside_their_page_witness: "inside_unit drawn_box"
  using figures_inside_their_page [OF demo_figures, of "drawn_figure drawn_box"] by (simp add: drawn_figure_def)

subsection \<open>Each figure is associated once\<close>

lemma best_figure_facts:
  "foldl (better_figure figures used b) (None, 0) [0..<n] = (best, score) \<Longrightarrow> 0 \<le> score \<and> (case best of None \<Rightarrow> True
     | Some i \<Rightarrow> i < n \<and> i \<notin> used \<and> xf_page (figures ! i) = lb_page b \<and> score = iou (lb_bbox b) (xf_bbox (figures ! i))) \<and>
     (\<forall>j < n. j \<notin> used \<and> xf_page (figures ! j) = lb_page b \<longrightarrow> iou (lb_bbox b) (xf_bbox (figures ! j)) \<le> score)"
proof (induction n arbitrary: best score)
  case (Suc n)
  obtain best' score' where prev: "foldl (better_figure figures used b) (None, 0) [0..<n] = (best', score')" by fastforce
  note IH = Suc.IH [OF prev]
  have now: "(best, score) = better_figure figures used b (best', score') n" using Suc.prems prev by simp
  show ?case
  proof (cases "n \<in> used \<or> xf_page (figures ! n) \<noteq> lb_page b \<or> \<not> score' < iou (lb_bbox b) (xf_bbox (figures ! n))")
    case True
    then have "best = best'" "score = score'" using now by (auto simp: better_figure_def Let_def split: if_splits)
    with IH True show ?thesis by (auto simp: less_Suc_eq split: option.splits)
  next
    case False
    then have "best = Some n" "score = iou (lb_bbox b) (xf_bbox (figures ! n))" using now by (auto simp: better_figure_def)
    with IH False show ?thesis by (fastforce simp: less_Suc_eq)
  qed
qed simp

text \<open>What a region says of its box.\<close>

definition placed :: "xobject_figure list \<Rightarrow> rat \<Rightarrow> layout_box \<Rightarrow> associated_region \<Rightarrow> bool" where
  "placed figures minimum b r \<longleftrightarrow> ar_page r = lb_page b \<and> ar_bbox r = lb_bbox b \<and> ar_label r = lb_label b \<and>
     (case ar_xobject r of None \<Rightarrow> ar_source r = lb_source b
      | Some n \<Rightarrow> ar_source r = ''ensemble'' \<and>
          (\<exists>f \<in> set figures. xf_name f = n \<and> xf_page f = lb_page b \<and> minimum \<le> iou (lb_bbox b) (xf_bbox f)))"

definition associated :: "xobject_figure list \<Rightarrow> rat \<Rightarrow> layout_box list \<Rightarrow> association \<Rightarrow> bool" where
  "associated figures minimum boxes a \<longleftrightarrow> distinct (as_used a) \<and> set (as_used a) \<subseteq> {..<length figures} \<and>
     list_all2 (placed figures minimum) boxes (as_regions a) \<and>
     List.map_filter ar_xobject (as_regions a) = map (\<lambda>i. xf_name (figures ! i)) (as_used a)"

lemma map_filter_append: "List.map_filter f (xs @ ys) = List.map_filter f xs @ List.map_filter f ys"
  by (simp add: List.map_filter_def)

lemma associate_step:
  assumes "associated figures minimum boxes a"
  shows "associated figures minimum (boxes @ [b]) (associate_box figures minimum a b)"
proof -
  obtain best score where best: "best_figure figures (set (as_used a)) b = (best, score)" by fastforce
  note facts = best_figure_facts [OF best [unfolded best_figure_def]]
  show ?thesis
  proof (cases best)
    case None
    with assms show ?thesis
      by (simp add: associated_def associate_box_def best placed_def map_filter_append map_filter_simps list_all2_appendI)
  next
    case (Some i)
    with facts have i: "i < length figures" "i \<notin> set (as_used a)" "xf_page (figures ! i) = lb_page b"
      "score = iou (lb_bbox b) (xf_bbox (figures ! i))" by simp_all
    then have f: "figures ! i \<in> set figures" by simp
    show ?thesis
    proof (cases "minimum \<le> score")
      case True
      have "list_all2 (placed figures minimum) [b] [\<lparr>ar_page = lb_page b, ar_bbox = lb_bbox b, ar_label = lb_label b,
         ar_source = ''ensemble'', ar_iou = round_digits 6 score, ar_xobject = Some (xf_name (figures ! i))\<rparr>]"
        using i True f by (auto simp: placed_def)
      with assms i True show ?thesis
        by (simp add: associated_def associate_box_def best Some map_filter_append map_filter_simps list_all2_appendI)
    next
      case False
      with assms show ?thesis
        by (simp add: associated_def associate_box_def best Some placed_def map_filter_append map_filter_simps list_all2_appendI)
    qed
  qed
qed

lemma associate_loop:
  "associated figures minimum before a \<Longrightarrow>
     associated figures minimum (before @ boxes) (foldl (associate_box figures minimum) a boxes)"
proof (induction boxes arbitrary: before a)
  case (Cons b boxes)
  from Cons.IH [OF associate_step [OF Cons.prems]] show ?case by simp
qed simp

text \<open>
  C34. The association accounts for every box and every figure: the regions begin with the boxes of the detector in their order,
  each unchanged and either on its own or with a figure of its page that overlaps it enough, and every figure of the document is
  named by exactly one region.
\<close>

theorem association_accounts_for_all:
  assumes "associate figures boxes minimum = Inr regions"
  shows "list_all2 (placed figures minimum) boxes (take (length boxes) regions) \<and>
    mset (List.map_filter ar_xobject regions) = mset (map xf_name figures) \<and>
    (\<forall>r \<in> set (drop (length boxes) regions). \<exists>f \<in> set figures. r = unused_region f)"
proof -
  let ?a = "foldl (associate_box figures minimum) \<lparr>as_used = [], as_regions = []\<rparr> boxes"
  let ?free = "filter (\<lambda>i. i \<notin> set (as_used ?a)) [0..<length figures]"
  have regions: "regions = as_regions ?a @ map (\<lambda>i. unused_region (figures ! i)) ?free"
    using assms by (simp add: associate_def Let_def split: if_splits)
  have "associated figures minimum [] \<lparr>as_used = [], as_regions = []\<rparr>" by (simp add: associated_def map_filter_simps)
  from associate_loop [OF this, of boxes] have a: "associated figures minimum boxes ?a" by simp
  then have len: "length (as_regions ?a) = length boxes" by (auto simp: associated_def dest: list_all2_lengthD)
  have "distinct (as_used ?a @ ?free)" "set (as_used ?a @ ?free) = set [0..<length figures]" using a by (auto simp: associated_def)
  then have used: "mset (as_used ?a @ ?free) = mset [0..<length figures]" by (metis distinct_upt set_eq_iff_mset_eq_distinct)
  have "List.map_filter ar_xobject (map (\<lambda>i. unused_region (figures ! i)) is) = map (\<lambda>i. xf_name (figures ! i)) is" for "is"
    by (induction "is") (simp_all add: map_filter_simps unused_region_def)
  then have "List.map_filter ar_xobject regions = map (\<lambda>i. xf_name (figures ! i)) (as_used ?a @ ?free)"
    using a unfolding regions by (simp add: associated_def map_filter_append)
  then have "mset (List.map_filter ar_xobject regions) = image_mset (\<lambda>i. xf_name (figures ! i)) (mset (as_used ?a @ ?free))"
    by (simp only: mset_map)
  also have "\<dots> = mset (map (\<lambda>i. xf_name (figures ! i)) [0..<length figures])" unfolding used mset_map ..
  also have "map (\<lambda>i. xf_name (figures ! i)) [0..<length figures] = map xf_name figures" by (rule nth_equalityI) simp_all
  finally show ?thesis using a len unfolding regions by (auto simp: associated_def)
qed

text \<open>One detected box over the figure and one elsewhere.\<close>

definition demo_boxes :: "layout_box list" where
  "demo_boxes = map (\<lambda>b. \<lparr>lb_page = 1, lb_bbox = b, lb_label = ''figure'', lb_score = 1, lb_source = ''doclayout_yolo''\<rparr>)
     [(0, 0, 1 / 2, 1 / 2), (0, 1 / 2, 1 / 4, 1)]"

definition demo_figure :: xobject_figure where
  "demo_figure = drawn_figure (0, 1 / 2, 1 / 4, 1)"

definition demo_regions :: "associated_region list" where
  "demo_regions = (case associate [demo_figure] demo_boxes (1 / 2) of Inr rs \<Rightarrow> rs | Inl _ \<Rightarrow> [])"

lemma demo_association: "associate [demo_figure] demo_boxes (1 / 2) = Inr demo_regions"
  by code_simp

lemma association_accounts_for_all_witness:
  "map ar_xobject demo_regions = [None, Some ''a''] \<and> mset (List.map_filter ar_xobject demo_regions) = mset (map xf_name [demo_figure])"
proof -
  have "map ar_xobject demo_regions = [None, Some ''a'']" by code_simp
  then show ?thesis using association_accounts_for_all [OF demo_association] by blast
qed

end
