(* ===== verification/VisualAdapters.thy ===== *)
theory VisualAdapters
  imports VisualRegistry Grounding FloatOrder
begin

section \<open>The adapters of the visual benchmark\<close>

text \<open>
  \<open>src/dsvire/visual_adapters.py\<close>: what scores the registered crops. The PDF backend is the engine of the
  pipeline with \<open>crop_text\<close>, PDFium's text in a rectangle given by its left, bottom, right and top. The optical reader
  gives the texts it read with their confidences, the image model a cosine; \<open>None\<close> is an exception. A document is
  the list of its pages.
\<close>

datatype adapter_error = AdapterError string | AdapterEscape string

definition OPENCLIP_MODEL_SHA256 :: string where
  "OPENCLIP_MODEL_SHA256 = ''ac4f8c4b88af6d963118cbf40ad93176d092abbedfcb752601ae1866352656e6''"

definition OPENCLIP_MODEL_BYTES :: nat where
  "OPENCLIP_MODEL_BYTES = 605143316"

subsection \<open>The registered crop\<close>

definition checked_page :: "raw_page option list \<Rightarrow> visual_case \<Rightarrow> adapter_error + nat" where
  "checked_page document c =
     (let n = int (length document) in
      if n < 1 \<or> MAX_PAGES < n then Inl (AdapterError (page_range_message n MAX_PAGES))
      else if n < vc_page c
      then Inl (AdapterError (''case '' @ repr_str (vc_id c) @ '' references page '' @ int_str (vc_page c) @ '', PDF has '' @ int_str n))
      else Inr (nat (vc_page c - 1)))"

definition crop_box :: "raw_page \<Rightarrow> visual_case \<Rightarrow> box" where
  "crop_box p c = (case vc_bbox c of (x0, y0, x1, y1) \<Rightarrow>
     (fmul x0 (rp_width p), fmul y0 (rp_height p), fmul x1 (rp_width p), fmul y1 (rp_height p)))"

definition crop_pixels :: "rat \<Rightarrow> rat \<Rightarrow> rat \<Rightarrow> rat" where
  "crop_pixels a b side = fdiv (fmul (fmul (fsub b a) side) (of_int RENDER_DPI)) 72"

definition render_registered_crop :: "engine \<Rightarrow> raw_page option list \<Rightarrow> visual_case \<Rightarrow> adapter_error + bytes" where
  "render_registered_crop e document c =
     bindE (checked_page document c) (\<lambda>i.
     let failed = AdapterError (''failed to render registered crop '' @ repr_str (vc_id c)) in
     case load_page document i of
       Inl _ \<Rightarrow> Inl failed
     | Inr p \<Rightarrow> (case vc_bbox c of (x0, y0, x1, y1) \<Rightarrow>
         let w = crop_pixels x0 x1 (rp_width p); h = crop_pixels y0 y1 (rp_height p) in
         if w \<le> 0 \<or> h \<le> 0 \<or> MAX_RENDER_SIDE_PIXELS < w \<or> MAX_RENDER_SIDE_PIXELS < h \<or> MAX_RENDER_PIXELS < fmul w h
         then Inl (AdapterError ''registered crop exceeds render safety limit'')
         else (case render_png (en_png e) p (crop_box p c) RENDER_DPI of Inl _ \<Rightarrow> Inl failed | Inr png \<Rightarrow> Inr png)))"

subsection \<open>The text of a crop\<close>

type_synonym crop_text = "raw_page \<Rightarrow> rat \<Rightarrow> rat \<Rightarrow> rat \<Rightarrow> rat \<Rightarrow> string"

definition text_bounded :: "crop_text \<Rightarrow> raw_page \<Rightarrow> box \<Rightarrow> string + string" where
  "text_bounded get p b = bindE (validated_bbox p b) (\<lambda>(x0, y0, x1, y1).
     Inr (unix_lines (get p x0 (fsub (rp_height p) y1) x1 (fsub (rp_height p) y0))))"

definition semantic_score :: "unicode \<Rightarrow> string \<Rightarrow> visual_case \<Rightarrow> adapter_error + rat" where
  "semantic_score u s c =
     bindE (if vc_region c = ''package''
       then Inr (((if contains_exact_mpn u s (id_mpn (vc_claimed c)) then 1 else 0) +
         (if contains_ordered_tokens u s (id_package (vc_claimed c)) 2 then 1 else 0)) / 2)
       else (case score_candidate u (vc_region c) s of
         Inl _ \<Rightarrow> Inl (AdapterEscape ''ValueError'') | Inr (score, _) \<Rightarrow> Inr score)) (\<lambda>score.
     let seen = (if facing (vc_view c) \<and> \<not> contains_phrase u s (vc_view c @ '' view'') then 0 else score)
     in Inr (round_digits 6 (min 1 (max 0 seen))))"

definition text_layout_score :: "unicode \<Rightarrow> crop_text \<Rightarrow> raw_page option list \<Rightarrow> visual_case \<Rightarrow> adapter_error + rat" where
  "text_layout_score u get document c =
     bindE (checked_page document c) (\<lambda>i.
     case bindE (load_page document i) (\<lambda>p. text_bounded get p (crop_box p c)) of
       Inl _ \<Rightarrow> Inl (AdapterError (''failed to read registered crop for '' @ repr_str (vc_id c)))
     | Inr s \<Rightarrow>
         if MAX_TEXT_CHARS_PER_PAGE < int (length s)
         then Inl (AdapterError (''registered crop text exceeds '' @ int_str MAX_TEXT_CHARS_PER_PAGE @ '' characters''))
         else semantic_score u s c)"

subsection \<open>Reading the pixels\<close>

text \<open>\<open>max(1, len(text))\<close>, and the weighted mean of the confidences; \<open>float_sum\<close> is the built-in sum.\<close>

definition text_weight :: "string \<Rightarrow> nat" where
  "text_weight s = max 1 (length s)"

definition finite_parts :: "pyfloat list \<Rightarrow> rat list option" where
  "finite_parts xs = (if list_all (\<lambda>x. case x of Flt _ \<Rightarrow> True | _ \<Rightarrow> False) xs
     then Some (map (\<lambda>x. case x of Flt r \<Rightarrow> r | _ \<Rightarrow> 0) xs) else None)"

text \<open>One infinite or undefined confidence makes the mean infinite or undefined, which is outside of the interval.\<close>

definition ocr_confidence :: "(rat list \<Rightarrow> rat) \<Rightarrow> string list \<Rightarrow> pyfloat list \<Rightarrow> adapter_error + rat" where
  "ocr_confidence float_sum texts confidences =
     (let outside = Inl (AdapterError ''OCR confidence must be within 0..=1'') in
      case finite_parts confidences of
        None \<Rightarrow> outside
      | Some rs \<Rightarrow>
          let mean = fdiv (float_sum (map2 (\<lambda>r s. fmul r (of_nat (text_weight s))) rs texts)) (of_nat (sum_list (map text_weight texts)))
          in if 0 \<le> mean \<and> mean \<le> 1 then Inr mean else outside)"

definition rapid_ocr_score :: "unicode \<Rightarrow> (rat list \<Rightarrow> rat) \<Rightarrow> (bytes \<Rightarrow> (string list \<times> pyfloat list) option) \<Rightarrow> engine \<Rightarrow>
    raw_page option list \<Rightarrow> visual_case \<Rightarrow> adapter_error + rat" where
  "rapid_ocr_score u float_sum ocr e document c =
     bindE (render_registered_crop e document c) (\<lambda>png.
     case ocr png of
       None \<Rightarrow> Inl (AdapterError (''OCR failed for registered crop '' @ repr_str (vc_id c)))
     | Some (texts, confidences) \<Rightarrow>
         if length texts \<noteq> length confidences then Inl (AdapterError ''OCR returned mismatched text and confidence arrays'')
         else if texts = [] then Inr 0
         else let s = join [newline_char] texts in
           if MAX_TEXT_CHARS_PER_PAGE < int (length s) then Inl (AdapterError ''OCR text exceeds safety limit'')
           else bindE (ocr_confidence float_sum texts confidences) (\<lambda>confidence.
             bindE (semantic_score u s c) (\<lambda>score. Inr (round_digits 5 (fmul score confidence)))))"

subsection \<open>The image and text model\<close>

definition region_prompts :: "(string \<times> string) list" where
  "region_prompts = [(''pinout'', ''pin configuration diagram''), (''table'', ''pin functions table''),
     (''package'', ''orderable package table row'')]"

definition openclip_prompt :: "visual_case \<Rightarrow> adapter_error + string" where
  "openclip_prompt c = (case map_of region_prompts (vc_region c) of
     None \<Rightarrow> Inl (AdapterEscape ''KeyError'')
   | Some region \<Rightarrow>
       let orientation = (if vc_view c = ''not_applicable'' \<or> vc_view c = ''unknown'' then [] else '', '' @ vc_view c @ '' view'');
           ident = vc_claimed c
       in Inr (''semiconductor datasheet '' @ region @ '' for '' @ id_manufacturer ident @ '' '' @ id_mpn ident @ '', package '' @
         id_package ident @ orientation))"

definition pinned_model :: "(bytes \<Rightarrow> string) \<Rightarrow> string \<Rightarrow> bytes option \<Rightarrow> adapter_error + unit" where
  "pinned_model sha path content = (case content of
     None \<Rightarrow> Inl (AdapterError (''OpenCLIP model file does not exist: '' @ path))
   | Some b \<Rightarrow>
       if length b \<noteq> OPENCLIP_MODEL_BYTES then Inl (AdapterError ''OpenCLIP model size does not match the pinned artifact'')
       else if sha b \<noteq> OPENCLIP_MODEL_SHA256 then Inl (AdapterError ''OpenCLIP model SHA-256 does not match the pinned artifact'')
       else Inr ())"

text \<open>The backend's similarity from the cosine the model computes, a 64-bit float.\<close>

definition openclip_similarity :: "(bytes \<Rightarrow> string \<Rightarrow> pyfloat option) \<Rightarrow> bytes \<Rightarrow> string \<Rightarrow> adapter_error + rat" where
  "openclip_similarity cosine png prompt = (case cosine png prompt of
     None \<Rightarrow> Inl (AdapterError ''OpenCLIP inference failed'')
   | Some (Flt r) \<Rightarrow>
       if - dec 1000001 1000000 \<le> r \<and> r \<le> dec 1000001 1000000 then Inr (min 1 (max 0 (fdiv (fadd r 1) 2)))
       else Inl (AdapterError ''OpenCLIP cosine similarity is outside -1..=1'')
   | Some _ \<Rightarrow> Inl (AdapterError ''OpenCLIP cosine similarity is outside -1..=1''))"

definition openclip_score :: "(bytes \<Rightarrow> string \<Rightarrow> adapter_error + rat) \<Rightarrow> engine \<Rightarrow> raw_page option list \<Rightarrow> visual_case \<Rightarrow>
    adapter_error + rat" where
  "openclip_score similarity e document c =
     bindE (render_registered_crop e document c) (\<lambda>png.
     bindE (openclip_prompt c) (\<lambda>prompt.
     bindE (similarity png prompt) (\<lambda>value.
     if 0 \<le> value \<and> value \<le> 1 then Inr (round_digits 5 value)
     else Inl (AdapterError ''OpenCLIP similarity must be within 0..=1''))))"

subsection \<open>A document\<close>

definition score_document :: "engine \<Rightarrow> (raw_page option list \<Rightarrow> visual_case \<Rightarrow> adapter_error + rat) \<Rightarrow> bytes \<Rightarrow> visual_document \<Rightarrow>
    adapter_error + (string \<times> rat) list" where
  "score_document e score payload doc =
     (if en_sha e payload \<noteq> vd_sha256 doc
      then Inl (AdapterError (vd_id doc @ '': source SHA-256 mismatch; expected '' @ vd_sha256 doc @ '', got '' @ en_sha e payload))
      else (case open_document payload (en_open e payload) of
        Inl _ \<Rightarrow> Inl (AdapterError ''PDF parser rejected benchmark input'')
      | Inr document \<Rightarrow>
          bindE (mapE (\<lambda>(case_id, _, c). bindE (score document c) (\<lambda>s. Inr (case_id, s))) (case_entries doc))
            (\<lambda>items. Inr (dict_of items))))"

subsection \<open>What an adapter promises\<close>

lemma fmul_unit: "0 \<le> a \<Longrightarrow> a \<le> 1 \<Longrightarrow> 0 \<le> b \<Longrightarrow> b \<le> 1 \<Longrightarrow> 0 \<le> fmul a b \<and> fmul a b \<le> 1"
  using rnd_le_int [of "a * b" 1] by (simp add: fmul_def rnd_nonneg mult_le_one)

lemma semantic_score_unit: "semantic_score u s c = Inr r \<Longrightarrow> 0 \<le> r \<and> r \<le> 1"
  by (auto simp: semantic_score_def bindE_eq_Inr Let_def round_digits_unit)

lemma ocr_confidence_unit: "ocr_confidence float_sum texts confidences = Inr r \<Longrightarrow> 0 \<le> r \<and> r \<le> 1"
  by (auto simp: ocr_confidence_def Let_def split: option.splits if_splits)

text \<open>
  The interface of an adapter: its scores are between 0 and 1, and it does not see the ground truth, which is the label
  and the rationale of a case.
\<close>

definition relabel :: "(visual_case \<Rightarrow> string) \<Rightarrow> (visual_case \<Rightarrow> string) \<Rightarrow> visual_case \<Rightarrow> visual_case" where
  "relabel label rationale c = c\<lparr>vc_label := label c, vc_rationale := rationale c\<rparr>"

definition relabelled :: "(visual_case \<Rightarrow> string) \<Rightarrow> (visual_case \<Rightarrow> string) \<Rightarrow> visual_document \<Rightarrow> visual_document" where
  "relabelled label rationale d = d\<lparr>vd_cases := map (relabel label rationale) (vd_cases d)\<rparr>"

lemma relabel_parts [simp]:
  "vc_id (relabel l r c) = vc_id c" "vc_region (relabel l r c) = vc_region c" "vc_page (relabel l r c) = vc_page c"
  "vc_bbox (relabel l r c) = vc_bbox c" "vc_view (relabel l r c) = vc_view c" "vc_claimed (relabel l r c) = vc_claimed c"
  by (simp_all add: relabel_def)

lemma relabelled_parts:
  "vd_id (relabelled l r d) = vd_id d" "vd_sha256 (relabelled l r d) = vd_sha256 d"
  "vd_cases (relabelled l r d) = map (relabel l r) (vd_cases d)"
  by (simp_all add: relabelled_def)

locale visual_adapter =
  fixes score :: "raw_page option list \<Rightarrow> visual_case \<Rightarrow> adapter_error + rat"
  assumes score_unit: "score document c = Inr s \<Longrightarrow> 0 \<le> s \<and> s \<le> 1"
    and score_blind: "score document (relabel l r c) = score document c"
begin

lemma scored_document:
  assumes "score_document e score payload d = Inr items" and "distinct (map fst (case_entries d))"
  shows "map fst items = map fst (case_entries d) \<and> (\<forall>x \<in> set items. 0 \<le> snd x \<and> snd x \<le> 1) \<and> en_sha e payload = vd_sha256 d"
proof -
  from assms(1) obtain document cells where
    cells: "mapE (\<lambda>(case_id, _, c). bindE (score document c) (\<lambda>s. Inr (case_id, s))) (case_entries d) = Inr cells"
    and items: "items = dict_of cells" and sha: "en_sha e payload = vd_sha256 d"
    by (auto simp: score_document_def bindE_eq_Inr split: if_splits sum.splits)
  have each: "list_all2 (\<lambda>x y. fst x = fst y \<and> 0 \<le> snd y \<and> snd y \<le> 1) (case_entries d) cells"
    using cells unfolding mapE_eq_Inr
    by (rule list_all2_mono) (auto simp: bindE_eq_Inr dest: score_unit)
  then have names: "map fst cells = map fst (case_entries d)"
    by (induction rule: list_all2_induct) simp_all
  have "dict_of cells = cells" using assms(2) by (intro dict_of_id) (simp add: names)
  moreover have "\<forall>y \<in> set cells. 0 \<le> snd y \<and> snd y \<le> 1"
    using each by (induction rule: list_all2_induct) simp_all
  ultimately show ?thesis using names items sha by simp
qed

lemma document_scores_blind: "score_document e score payload (relabelled l r d) = score_document e score payload d"
proof -
  have same: "mapE (\<lambda>(case_id, _, c). bindE (score document c) (\<lambda>s. Inr (case_id, s)))
        (map (\<lambda>c. (qualified_id i (vc_id c), d1, c)) (map (relabel l r) cs)) =
      mapE (\<lambda>(case_id, _, c). bindE (score document c) (\<lambda>s. Inr (case_id, s)))
        (map (\<lambda>c. (qualified_id i (vc_id c), d2, c)) cs)" for document i d1 d2 cs
    by (induction cs) (simp_all add: score_blind)
  show ?thesis unfolding score_document_def case_entries_def relabelled_parts
    by (simp only: same [of _ _ "relabelled l r d" _ d])
qed

end

lemma text_layout_adapter: "visual_adapter (text_layout_score u get)"
proof
  show "text_layout_score u get document c = Inr s \<Longrightarrow> 0 \<le> s \<and> s \<le> 1" for document c s
  proof -
    assume "text_layout_score u get document c = Inr s"
    then obtain i where "(case bindE (load_page document i) (\<lambda>p. text_bounded get p (crop_box p c)) of
        Inl _ \<Rightarrow> Inl (AdapterError (''failed to read registered crop for '' @ repr_str (vc_id c)))
      | Inr t \<Rightarrow> if MAX_TEXT_CHARS_PER_PAGE < int (length t)
          then Inl (AdapterError (''registered crop text exceeds '' @ int_str MAX_TEXT_CHARS_PER_PAGE @ '' characters''))
          else semantic_score u t c) = Inr s" unfolding text_layout_score_def bindE_eq_Inr by blast
    then show ?thesis by (auto split: sum.splits if_splits dest: semantic_score_unit)
  qed
  show "text_layout_score u get document (relabel l r c) = text_layout_score u get document c" for document l r c
    unfolding text_layout_score_def checked_page_def crop_box_def semantic_score_def relabel_parts by (rule refl)
qed

lemma rapid_ocr_adapter: "visual_adapter (rapid_ocr_score u float_sum ocr e)"
proof
  show "0 \<le> s \<and> s \<le> 1" if scored: "rapid_ocr_score u float_sum ocr e document c = Inr s" for document c s
  proof -
    obtain png where png: "render_registered_crop e document c = Inr png"
      using scored unfolding rapid_ocr_score_def bindE_eq_Inr by blast
    obtain texts confidences where read: "ocr png = Some (texts, confidences)"
      using scored png by (cases "ocr png") (auto simp: rapid_ocr_score_def)
    show ?thesis
    proof (cases "texts = []")
      case True
      then show ?thesis using scored png read by (auto simp: rapid_ocr_score_def split: if_splits)
    next
      case False
      let ?s = "join [newline_char] texts"
      from scored png read False have
        "bindE (ocr_confidence float_sum texts confidences) (\<lambda>confidence. bindE (semantic_score u ?s c) (\<lambda>score.
          Inr (round_digits 5 (fmul score confidence)))) = Inr s"
        by (simp add: rapid_ocr_score_def Let_def split: if_splits)
      then obtain a b where "ocr_confidence float_sum texts confidences = Inr a" "semantic_score u ?s c = Inr b"
        and s: "s = round_digits 5 (fmul b a)" by (auto simp: bindE_eq_Inr)
      then show ?thesis using fmul_unit round_digits_unit semantic_score_unit ocr_confidence_unit by meson
    qed
  qed
  show "rapid_ocr_score u float_sum ocr e document (relabel l r c) = rapid_ocr_score u float_sum ocr e document c" for document l r c
    unfolding rapid_ocr_score_def render_registered_crop_def checked_page_def crop_box_def semantic_score_def relabel_parts by (rule refl)
qed

lemma openclip_adapter: "visual_adapter (openclip_score similarity e)"
proof
  show "openclip_score similarity e document c = Inr s \<Longrightarrow> 0 \<le> s \<and> s \<le> 1" for document c s
    by (auto simp: openclip_score_def bindE_eq_Inr round_digits_unit split: if_splits)
  show "openclip_score similarity e document (relabel l r c) = openclip_score similarity e document c" for document l r c
    unfolding openclip_score_def render_registered_crop_def checked_page_def crop_box_def openclip_prompt_def relabel_parts by (rule refl)
qed

interpretation text_layout: visual_adapter "text_layout_score u get" for u get
  by (rule text_layout_adapter)

interpretation rapid_ocr: visual_adapter "rapid_ocr_score u float_sum ocr e" for u float_sum ocr e
  by (rule rapid_ocr_adapter)

interpretation openclip: visual_adapter "openclip_score similarity e" for similarity e
  by (rule openclip_adapter)

end
