(* ===== verification/RegistryFacts.thy ===== *)
theory RegistryFacts
  imports VisualRegistry
begin

section \<open>The loaded registry, document by document\<close>

text \<open>
  How a loaded document depends on its decoded form: \<open>document_from\<close> relates the two, member by member, and a loaded
  registry is the list of documents so related to the array it was loaded from.
\<close>

definition document_context :: "nat \<Rightarrow> string" where
  "document_context i = at_index ''registry.documents'' i"

definition cases_from :: "string \<Rightarrow> json \<Rightarrow> visual_case list \<Rightarrow> bool" where
  "cases_from outer v cases \<longleftrightarrow> (\<exists>raws. array_items v = Some raws \<and> raws \<noteq> [] \<and>
     mapE (\<lambda>(i, raw). parse_case raw (at_index (outer @ ''.cases'') i)) (enumerate 0 raws) = Inr cases)"

definition document_from :: "(string \<Rightarrow> bool option) \<Rightarrow> nat \<times> json \<Rightarrow> visual_document \<Rightarrow> bool" where
  "document_from aware item d \<longleftrightarrow> (case item of (i, v) \<Rightarrow> \<exists>raw. v = JObj raw \<and> fields_are document_keys raw \<and>
     registry_text (document_context i @ ''.id'') (field raw ''id'') = Inr (vd_id d) \<and>
     registry_text (document_context i @ ''.document_group'') (field raw ''document_group'') = Inr (vd_group d) \<and>
     registry_text (document_context i @ ''.split'') (field raw ''split'') = Inr (vd_split d) \<and>
     registry_text (document_context i @ ''.content_sha256'') (field raw ''content_sha256'') = Inr (vd_sha256 d) \<and>
     registry_text (document_context i @ ''.redistribution'') (field raw ''redistribution'') = Inr (vd_redistribution d) \<and>
     parse_identity (field raw ''identity'') (document_context i @ ''.identity'') = Inr (vd_identity d) \<and>
     parse_review aware (field raw ''review'') (document_context i @ ''.review'') = Inr (vd_review d) \<and>
     cases_from (document_context i) (field raw ''cases'') (vd_cases d) \<and>
     registry_text (document_context i @ ''.category'') (field raw ''category'') = Inr (vd_category d) \<and>
     parse_source (field raw ''source'') (document_context i @ ''.source'') = Inr (vd_source d) \<and>
     registry_text (document_context i @ ''.license_note'') (field raw ''license_note'') = Inr (vd_license d))"

lemma load_case_parses:
  assumes "load_case document_id ident outer (cases, l, q) (i, raw) = Inr (cases', l', q')"
  shows "\<exists>c. parse_case raw (at_index (outer @ ''.cases'') i) = Inr c \<and> cases' = cases @ [c]"
  using assms by (auto simp: load_case_def bindE_eq_Inr split: if_splits)

lemma load_cases_parse:
  assumes "foldE (load_case document_id ident outer) (cases, l, q) items = Inr (cases', l', q')"
  shows "\<exists>new. mapE (\<lambda>(i, raw). parse_case raw (at_index (outer @ ''.cases'') i)) items = Inr new \<and> cases' = cases @ new"
  using assms
proof (induction items arbitrary: cases l q)
  case (Cons x items)
  obtain i raw where x: "x = (i, raw)" by (cases x)
  from Cons.prems obtain s where s: "load_case document_id ident outer (cases, l, q) x = Inr s"
    and rest: "foldE (load_case document_id ident outer) s items = Inr (cases', l', q')"
    by (auto simp: bindE_eq_Inr)
  obtain cases1 l1 q1 where s1: "s = (cases1, l1, q1)" by (cases s)
  from load_case_parses [OF s [unfolded x s1]] obtain c where
    c: "parse_case raw (at_index (outer @ ''.cases'') i) = Inr c" "cases1 = cases @ [c]" by blast
  from Cons.IH [OF rest [unfolded s1]] c show ?case by (auto simp: x)
qed simp

lemma load_document_from:
  assumes "load_document aware draft st item = Inr st'"
  shows "\<exists>d. document_from aware item d \<and> rs_documents st' = rs_documents st @ [d]"
proof -
  obtain i v where item: "item = (i, v)" by (cases item)
  let ?x = "document_context i"
  from assms obtain raw document_id st1 grp split st2 digest st3 redistribution ident review items cases local_ids case_ids category source license
    where 0: "v = JObj raw" "fields_are document_keys raw"
    and 1: "registry_text (?x @ ''.id'') (field raw ''id'') = Inr document_id" "claim_id st document_id = Inr st1"
    and 2: "registry_text (?x @ ''.document_group'') (field raw ''document_group'') = Inr grp"
      "registry_text (?x @ ''.split'') (field raw ''split'') = Inr split" "claim_group st1 grp split = Inr st2"
    and 3: "registry_text (?x @ ''.content_sha256'') (field raw ''content_sha256'') = Inr digest" "claim_hash st2 digest grp split = Inr st3"
      "registry_text (?x @ ''.redistribution'') (field raw ''redistribution'') = Inr redistribution"
    and 4: "parse_identity (field raw ''identity'') (?x @ ''.identity'') = Inr ident"
      "parse_review aware (field raw ''review'') (?x @ ''.review'') = Inr review"
    and 5: "array_items (field raw ''cases'') = Some items" "items \<noteq> []"
      "foldE (load_case document_id ident ?x) ([], {}, rs_case_ids st3) (enumerate 0 items) = Inr (cases, local_ids, case_ids)"
    and 6: "registry_text (?x @ ''.category'') (field raw ''category'') = Inr category"
      "parse_source (field raw ''source'') (?x @ ''.source'') = Inr source"
      "registry_text (?x @ ''.license_note'') (field raw ''license_note'') = Inr license"
    and 7: "st' = st3\<lparr>rs_case_ids := case_ids,
         rs_documents := rs_documents st3 @ [\<lparr>vd_id = document_id, vd_group = grp, vd_split = split,
           vd_category = category, vd_source = source, vd_sha256 = digest, vd_redistribution = redistribution,
           vd_license = license, vd_identity = ident, vd_review = review, vd_cases = cases\<rparr>]\<rparr>"
    unfolding load_document_def Let_def bindE_eq_Inr ensure_eq_Inr item fst_conv snd_conv document_context_def
      registry_object_def registry_keys_def strict_keys_ok object_items_def
    by (auto split: option.splits prod.splits json.splits)
  have "cases_from ?x (field raw ''cases'') cases"
    using 5 load_cases_parse [OF 5(3)] by (simp add: cases_from_def)
  moreover have "rs_documents st3 = rs_documents st"
    using 1(2) 2(3) 3(2) by (auto simp: claim_id_iff claim_group_iff claim_hash_iff)
  ultimately show ?thesis using 0 1 2 3 4 6 unfolding 7 item document_from_def
    by (intro exI [of _ "\<lparr>vd_id = document_id, vd_group = grp, vd_split = split,
           vd_category = category, vd_source = source, vd_sha256 = digest, vd_redistribution = redistribution,
           vd_license = license, vd_identity = ident, vd_review = review, vd_cases = cases\<rparr>"]) auto
qed

lemma load_documents_from:
  assumes "foldE (load_document aware draft) st items = Inr st'"
  shows "\<exists>ds. rs_documents st' = rs_documents st @ ds \<and> list_all2 (document_from aware) items ds"
  using assms
proof (induction items arbitrary: st)
  case (Cons x items)
  then obtain s where s: "load_document aware draft st x = Inr s" and rest: "foldE (load_document aware draft) s items = Inr st'"
    by (auto simp: bindE_eq_Inr)
  from load_document_from [OF s] Cons.IH [OF rest] show ?case by fastforce
qed simp

lemma loaded_from:
  assumes "load_visual_registry_data sha frepr aware draft v = Inr reg"
  shows "\<exists>top docs. v = JObj top \<and> fields_are [''schema_version'', ''documents''] top \<and> field top ''documents'' = JArr docs \<and> docs \<noteq> [] \<and>
    list_all2 (document_from aware) (enumerate 0 docs) (vr_documents reg)"
proof -
  from assms obtain top docs st where top: "v = JObj top" "fields_are [''schema_version'', ''documents''] top"
    and docs: "array_items (field top ''documents'') = Some docs" "docs \<noteq> []"
    and fold: "foldE (load_document aware draft) empty_registry_state (enumerate 0 docs) = Inr st"
    and reg: "reg = \<lparr>vr_documents = rs_documents st, vr_sha256 = canonical_sha sha frepr v\<rparr>"
    unfolding load_visual_registry_data_def bindE_eq_Inr ensure_eq_Inr registry_object_def registry_keys_def strict_keys_ok object_items_def
    by (auto split: option.splits json.splits)
  have "field top ''documents'' = JArr docs" using docs(1) by (auto simp: array_items_def split: json.splits)
  then show ?thesis using top docs(2) load_documents_from [OF fold] by (auto simp: reg empty_registry_state_def)
qed

text \<open>A related document is determined by its decoded form.\<close>

lemma document_from_split: "document_from aware (i, JObj raw) d \<Longrightarrow> field raw ''split'' = JStr s \<Longrightarrow> vd_split d = strip s"
  by (auto simp: document_from_def registry_text_def nonempty_text_def split: if_splits)

lemma plain_qualified_text: "plain_text a \<Longrightarrow> plain_text b \<Longrightarrow> plain_text (qualified_id a b)"
  by (simp add: plain_text_iff qualified_id_def)

lemma list_all2_partner: "list_all2 R xs ys \<Longrightarrow> y \<in> set ys \<Longrightarrow> \<exists>x \<in> set xs. R x y"
  by (induction rule: list_all2_induct) auto

lemma distinct_entries_filter:
  "distinct (map fst (concat (map case_entries docs))) \<Longrightarrow> distinct (map fst (concat (map case_entries (filter p docs))))"
  by (induction docs) auto

lemma parse_review_parts:
  assumes "parse_review aware v ctx = Inr r"
  shows "\<exists>d raw. v = JObj d \<and> registry_text (ctx @ ''.status'') (field d ''status'') = Inr (rev_status r) \<and>
    array_items (field d ''reviewers'') = Some raw \<and>
    mapE (\<lambda>(i, x). registry_text (at_index (ctx @ ''.reviewers'') i) x) (enumerate 0 raw) = Inr (rev_reviewers r) \<and>
    reviewed_at aware (field d ''reviewed_at'') ctx = Inr (rev_at r) \<and>
    registry_text (ctx @ ''.annotation_revision'') (field d ''annotation_revision'') = Inr (rev_revision r)"
  using assms unfolding parse_review_def bindE_eq_Inr registry_object_def object_items_def
  by (auto simp: bindE_eq_Inr split: option.splits json.splits if_splits)

end
