(* ===== verification/VisualBenchmark.thy ===== *)
theory VisualBenchmark
  imports VisualAdapters RegistryFacts
begin

section \<open>The visual benchmark and its artifacts\<close>

text \<open>
  \<open>src/dsvire/visual_benchmark.py\<close>, \<open>visual_split_plan.py\<close> and \<open>visual_policy_artifact.py\<close> with the two commands that join
  them, \<open>scripts/evaluate_visual.py\<close> and \<open>scripts/evaluate_visual_policy.py\<close>: one adapter scores a registry, the artifact is
  written, and a policy is frozen from it. Times and memory are inputs: \<open>run_clock\<close> gives the milliseconds of every
  document in order, the seconds of the run and the peak memory. The adapter comes with the JSON form of its metadata.
\<close>

datatype benchmark_error = BenchAdapter adapter_error | BenchRegistry registry_error | BenchValue string | BenchEscape string

record run_clock =
  rc_document_ms :: "nat \<Rightarrow> rat"
  rc_seconds :: rat
  rc_peak :: int

subsection \<open>Scoring a registry\<close>

definition RESULT_VERSION :: string where
  "RESULT_VERSION = ''dsvire.visual-adapter-benchmark.v1''"

definition percentile_of :: "rat list \<Rightarrow> rat \<Rightarrow> rat" where
  "percentile_of values quantile = (if values = [] then 0 else
     let ordered = sort values; last_index = int (length ordered) - 1;
         index = max 0 (min last_index (round_half_even (fmul (of_int last_index) quantile)))
     in ordered ! nat index)"

definition update_all :: "('k \<times> 'v) list \<Rightarrow> ('k \<times> 'v) list \<Rightarrow> ('k \<times> 'v) list" where
  "update_all d items = foldl (\<lambda>acc (k, v). AList.update k v acc) d items"

definition score_row :: "(string \<times> rat) list \<Rightarrow> string \<times> visual_document \<times> visual_case \<Rightarrow> benchmark_error + json" where
  "score_row scores item = (case item of (case_id, _, c) \<Rightarrow> (case map_of scores case_id of
     None \<Rightarrow> Inl (BenchEscape ''KeyError'')
   | Some s \<Rightarrow> Inr (JObj [(''case_id'', JStr case_id), (''label'', JStr (vc_label c)), (''score'', float_json s)])))"

definition document_row :: "visual_document \<Rightarrow> rat \<Rightarrow> json list \<Rightarrow> json" where
  "document_row doc ms rows = JObj [(''id'', JStr (vd_id doc)), (''document_group'', JStr (vd_group doc)), (''split'', JStr (vd_split doc)),
     (''review_status'', JStr (rev_status (vd_review doc))), (''elapsed_ms'', float_json (round_digits 3 ms)), (''scores'', JArr rows)]"

text \<open>One iteration over the documents: the scores and the rows so far.\<close>

definition benchmark_document :: "engine \<Rightarrow> (raw_page option list \<Rightarrow> visual_case \<Rightarrow> adapter_error + rat) \<Rightarrow> (visual_document \<Rightarrow> bytes) \<Rightarrow>
    (nat \<Rightarrow> rat) \<Rightarrow>
    (string \<times> rat) list \<times> json list \<Rightarrow> nat \<times> visual_document \<Rightarrow> benchmark_error + ((string \<times> rat) list \<times> json list)" where
  "benchmark_document e score fetch ms state item = (case (state, item) of ((score_map, rows), (i, doc)) \<Rightarrow>
     (case score_document e score (fetch doc) doc of
        Inl m \<Rightarrow> Inl (BenchAdapter m)
      | Inr scores \<Rightarrow>
          bindE (mapE (score_row scores) (case_entries doc)) (\<lambda>cells.
          Inr (update_all score_map scores, rows @ [document_row doc (ms i) cells]))))"

definition as_scores :: "(string \<times> rat) list \<Rightarrow> (string \<times> json) list" where
  "as_scores items = map (\<lambda>(k, s). (k, float_json s)) items"

definition bound_predictions :: "visual_registry \<Rightarrow> (string \<times> rat) list \<Rightarrow> benchmark_error + prediction list" where
  "bound_predictions reg score_map = (case bind_prediction_scores reg (as_scores score_map) of
     Inl m \<Rightarrow> Inl (BenchRegistry m) | Inr ps \<Rightarrow> Inr ps)"

definition score_digest :: "engine \<Rightarrow> visual_registry \<Rightarrow> json \<Rightarrow> prediction list \<Rightarrow> string" where
  "score_digest e reg metadata ps = canonical_sha (en_sha e) (en_frepr e) (JObj [(''registry_sha256'', JStr (vr_sha256 reg)), (''adapter'', metadata),
     (''scores'', JObj (dict_of (map (\<lambda>p. (pr_case p, float_json (pr_score p))) ps)))])"

definition label_counts :: "prediction list \<Rightarrow> json" where
  "label_counts ps = JObj (map (\<lambda>l. (l, JInt (int (count_where (\<lambda>p. pr_label p = l) ps)))) (sort (remdups (map pr_label ps))))"

definition reviewed_in :: "string \<Rightarrow> visual_registry \<Rightarrow> nat" where
  "reviewed_in split reg = count_where (\<lambda>d. rev_status (vd_review d) = ''reviewed'' \<and> vd_split d = split) (vr_documents reg)"

definition run_summary :: "run_clock \<Rightarrow> visual_registry \<Rightarrow> prediction list \<Rightarrow> benchmark_error + json" where
  "run_summary k reg ps =
     (let n = length (vr_documents reg); ms = map (rc_document_ms k) [0..<n] in
      if rc_seconds k = 0 then Inl (BenchEscape ''ZeroDivisionError'')
      else if ms = [] then Inl (BenchEscape ''StatisticsError'')
      else Inr (JObj [(''documents'', JInt (int n)), (''cases'', JInt (int (length ps))), (''labels'', label_counts ps),
        (''reviewed_calibration_documents'', JInt (int (reviewed_in ''calibration'' reg))),
        (''reviewed_evaluation_documents'', JInt (int (reviewed_in ''evaluation'' reg))),
        (''elapsed_seconds'', float_json (round_digits 6 (rc_seconds k))),
        (''documents_per_second'', float_json (round_digits 6 (fdiv (of_nat n) (rc_seconds k)))),
        (''document_latency_mean_ms'', float_json (round_digits 3 (fdiv (fsum ms) (of_nat (length ms))))),
        (''document_latency_p50_ms'', float_json (round_digits 3 (percentile_of ms (dec 5 10)))),
        (''document_latency_p95_ms'', float_json (round_digits 3 (percentile_of ms (dec 95 100)))),
        (''peak_rss_bytes'', JInt (rc_peak k)), (''external_cost_usd'', float_json 0)]))"

definition benchmark_registry :: "engine \<Rightarrow> (raw_page option list \<Rightarrow> visual_case \<Rightarrow> adapter_error + rat) \<Rightarrow> json \<Rightarrow> run_clock \<Rightarrow> visual_registry \<Rightarrow>
    (visual_document \<Rightarrow> bytes) \<Rightarrow> benchmark_error + (string \<times> json) list" where
  "benchmark_registry e score metadata k reg fetch =
     bindE (foldE (benchmark_document e score fetch (rc_document_ms k)) ([], []) (enumerate 0 (vr_documents reg))) (\<lambda>(score_map, rows).
     bindE (bound_predictions reg score_map) (\<lambda>ps.
     bindE (run_summary k reg ps) (\<lambda>summary.
     Inr [(''schema_version'', JStr RESULT_VERSION), (''registry_sha256'', JStr (vr_sha256 reg)), (''score_sha256'', JStr (score_digest e reg metadata ps)),
       (''adapter'', metadata), (''eligible_for_policy_fitting'', JBool (0 < reviewed_in ''calibration'' reg)), (''summary'', summary),
       (''documents'', JArr rows)])))"

subsection \<open>The split plan\<close>

definition plan_entry :: "(string \<times> (string \<times> json) list) list \<Rightarrow> nat \<times> json \<Rightarrow> benchmark_error + (string \<times> (string \<times> json) list) list" where
  "plan_entry by_id item = (case item of (i, v) \<Rightarrow> (case v of
     JObj d \<Rightarrow> (case field d ''id'' of
       JStr s \<Rightarrow> if s = [] \<or> s \<in> set (map fst by_id)
         then Inl (BenchValue (''visual split plan family '' @ nat_str i @ '' has an invalid or duplicate id''))
         else Inr (by_id @ [(s, d)])
     | _ \<Rightarrow> Inl (BenchValue (''visual split plan family '' @ nat_str i @ '' has an invalid or duplicate id'')))
   | _ \<Rightarrow> Inl (BenchValue (''visual split plan family '' @ nat_str i @ '' is invalid''))))"

definition load_visual_split_plan_data :: "(bytes \<Rightarrow> string) \<Rightarrow> (pyfloat \<Rightarrow> string) \<Rightarrow> json \<Rightarrow>
    benchmark_error + ((string \<times> (string \<times> json) list) list \<times> string)" where
  "load_visual_split_plan_data sha frepr v = (case v of
     JObj d \<Rightarrow>
       if field d ''schema_version'' \<noteq> JStr ''dsvire.visual-split-plan.v1'' then Inl (BenchValue ''unsupported visual split plan'')
       else (case field d ''families'' of
         JArr families \<Rightarrow>
           if families = [] then Inl (BenchValue ''visual split plan has no families'')
           else bindE (foldE plan_entry [] (enumerate 0 families)) (\<lambda>by_id. Inr (by_id, canonical_sha sha frepr v))
       | _ \<Rightarrow> Inl (BenchValue ''visual split plan has no families''))
   | _ \<Rightarrow> Inl (BenchValue ''unsupported visual split plan''))"

definition planned_match :: "(string \<times> (string \<times> json) list) list \<Rightarrow> unit \<Rightarrow> visual_document \<Rightarrow> benchmark_error + unit" where
  "planned_match planned _ doc = (case map_of planned (vd_id doc) of
     None \<Rightarrow> Inl (BenchEscape ''KeyError'')
   | Some d \<Rightarrow>
       if field d ''content_sha256'' \<noteq> JStr (vd_sha256 doc) \<or> field d ''category'' \<noteq> JStr (vd_category doc) \<or>
         field d ''source_url'' \<noteq> JStr (src_url (vd_source doc))
       then Inl (BenchValue (vd_id doc @ '': registry drifted from frozen split plan'')) else Inr ())"

definition bind_registry_to_split_plan :: "visual_registry \<Rightarrow> (string \<times> (string \<times> json) list) list \<Rightarrow> string \<Rightarrow> benchmark_error + unit" where
  "bind_registry_to_split_plan reg plan split =
     (let planned = filter (\<lambda>(_, d). field d ''split'' = JStr split) plan;
          observed = map vd_id (vr_documents reg);
          missing = filter (\<lambda>i. i \<notin> set observed) (map fst planned);
          unknown = filter (\<lambda>i. i \<notin> set (map fst planned)) (remdups observed)
      in if missing \<noteq> [] \<or> unknown \<noteq> []
         then Inl (BenchValue (split @ '' registry does not exactly match frozen split plan: missing='' @ repr_strs (sort missing) @
           '', unknown='' @ repr_strs (sort unknown)))
         else foldE (planned_match planned) () (vr_documents reg))"

subsection \<open>The command that scores\<close>

text \<open>The documents of one split, as the command selects them from the decoded registry.\<close>

definition of_split :: "string \<Rightarrow> json \<Rightarrow> bool" where
  "of_split split v = (case v of JObj d \<Rightarrow> field d ''split'' = JStr split | _ \<Rightarrow> False)"

datatype selection = Everything | OneSplit string | Documents "string list"

definition with_documents :: "(json list \<Rightarrow> benchmark_error + json list) \<Rightarrow> json \<Rightarrow> benchmark_error + json" where
  "with_documents pick v = (case v of
     JObj d \<Rightarrow> (case field d ''documents'' of
       JArr docs \<Rightarrow> bindE (pick docs) (\<lambda>chosen.
         Inr (JObj [(''schema_version'', field d ''schema_version''), (''documents'', JArr chosen)]))
     | _ \<Rightarrow> Inl (BenchEscape ''TypeError''))
   | _ \<Rightarrow> Inl (BenchEscape ''TypeError''))"

definition id_of :: "json \<Rightarrow> string" where
  "id_of v = (case v of JObj d \<Rightarrow> (case field d ''id'' of JStr s \<Rightarrow> s | _ \<Rightarrow> []) | _ \<Rightarrow> [])"

definition select_documents :: "selection \<Rightarrow> json \<Rightarrow> benchmark_error + json" where
  "select_documents sel v = (case sel of
     Everything \<Rightarrow> Inr v
   | OneSplit split \<Rightarrow> with_documents (\<lambda>docs.
       let chosen = filter (of_split split) docs
       in if chosen = [] then Inl (BenchValue (''registry has no '' @ split @ '' documents'')) else Inr chosen) v
   | Documents ids \<Rightarrow> with_documents (\<lambda>docs.
       let unknown = filter (\<lambda>i. i \<notin> set (map id_of docs)) (remdups ids)
       in if unknown \<noteq> [] then Inl (BenchValue (''unknown document IDs: '' @ repr_strs (sort unknown)))
          else Inr (filter (\<lambda>v. id_of v \<in> set ids) docs)) v)"

definition selected_split :: "selection \<Rightarrow> string option" where
  "selected_split sel = (case sel of OneSplit split \<Rightarrow> Some split | _ \<Rightarrow> None)"

definition as_benchmark_error :: "registry_error + 'a \<Rightarrow> benchmark_error + 'a" where
  "as_benchmark_error r = (case r of Inl m \<Rightarrow> Inl (BenchRegistry m) | Inr x \<Rightarrow> Inr x)"

definition dataset_digest :: "engine \<Rightarrow> string option \<Rightarrow> visual_registry \<Rightarrow> visual_registry \<Rightarrow> json \<Rightarrow> benchmark_error + string" where
  "dataset_digest e split full reg plan_value = (case split of
     None \<Rightarrow> Inr (vr_sha256 full)
   | Some s \<Rightarrow>
       if s = ''calibration'' \<or> s = ''evaluation''
       then bindE (load_visual_split_plan_data (en_sha e) (en_frepr e) plan_value) (\<lambda>(plan, digest).
         bindE (bind_registry_to_split_plan reg plan s) (\<lambda>_. Inr digest))
       else Inr (vr_sha256 full))"

definition evaluate_visual :: "engine \<Rightarrow> (string \<Rightarrow> bool option) \<Rightarrow> (raw_page option list \<Rightarrow> visual_case \<Rightarrow> adapter_error + rat) \<Rightarrow> json \<Rightarrow>
    run_clock \<Rightarrow> (visual_document \<Rightarrow> bytes) \<Rightarrow> selection \<Rightarrow> json \<Rightarrow> json \<Rightarrow> benchmark_error + (string \<times> json) list" where
  "evaluate_visual e aware score metadata k fetch sel registry_value plan_value =
     bindE (as_benchmark_error (load_visual_registry_data (en_sha e) (en_frepr e) aware False registry_value)) (\<lambda>full.
     bindE (select_documents sel registry_value) (\<lambda>chosen.
     bindE (as_benchmark_error (load_visual_registry_data (en_sha e) (en_frepr e) aware False chosen)) (\<lambda>reg.
     bindE (benchmark_registry e score metadata k reg fetch) (\<lambda>result.
     bindE (dataset_digest e (selected_split sel) full reg plan_value) (\<lambda>dataset.
     Inr (result @ [(''dataset_sha256'', JStr dataset), (''selected_split'', opt_str (selected_split sel))]))))))"

subsection \<open>The artifacts of a policy\<close>

definition score_prediction :: "string \<Rightarrow> nat \<Rightarrow> (string \<times> json) list \<Rightarrow> json \<Rightarrow> benchmark_error + prediction" where
  "score_prediction split i document v = (case v of
     JObj s \<Rightarrow> (case (map_of s ''case_id'', map_of document ''document_group'', map_of s ''label'', map_of s ''score'') of
       (Some case_id, Some grp, Some label, Some score) \<Rightarrow>
         (case parse_prediction ''prediction'' (JObj [(''case_id'', case_id), (''document_group'', grp), (''split'', JStr split),
             (''label'', label), (''score'', score)]) of
            Inr p \<Rightarrow> Inr p
          | Inl (MetricError m) \<Rightarrow> Inl (BenchValue m)
          | Inl (MetricEscape m) \<Rightarrow> Inl (BenchEscape m))
     | _ \<Rightarrow> Inl (BenchEscape ''KeyError''))
   | _ \<Rightarrow> Inl (BenchValue (at_index ''documents'' i @ '' contains an invalid score'')))"

definition document_predictions :: "string \<Rightarrow> nat \<times> json \<Rightarrow> benchmark_error + prediction list" where
  "document_predictions split item = (case item of (i, v) \<Rightarrow> (case v of
     JObj document \<Rightarrow>
       if field document ''split'' \<noteq> JStr split then Inl (BenchValue (at_index ''documents'' i @ '' is not isolated to '' @ split))
       else (case field document ''scores'' of
         JArr scores \<Rightarrow>
           if scores = [] then Inl (BenchValue (at_index ''documents'' i @ '' has no scores''))
           else mapE (score_prediction split i document) scores
       | _ \<Rightarrow> Inl (BenchValue (at_index ''documents'' i @ '' has no scores'')))
   | _ \<Rightarrow> Inl (BenchValue (at_index ''documents'' i @ '' is not isolated to '' @ split))))"

definition artifact_predictions :: "(string \<times> json) list \<Rightarrow> string \<Rightarrow> benchmark_error + prediction list" where
  "artifact_predictions artifact split =
     (if field artifact ''schema_version'' \<noteq> JStr RESULT_VERSION then Inl (BenchValue ''unsupported benchmark artifact schema'')
      else if field artifact ''selected_split'' \<noteq> JStr split
      then Inl (BenchValue (''artifact must be generated with --split '' @ split))
      else (case field artifact ''documents'' of
        JArr documents \<Rightarrow>
          if documents = [] then Inl (BenchValue ''benchmark artifact has no documents'')
          else bindE (mapE (document_predictions split) (enumerate 0 documents)) (\<lambda>parts. Inr (concat parts))
      | _ \<Rightarrow> Inl (BenchValue ''benchmark artifact has no documents'')))"

definition or_else :: "json \<Rightarrow> json \<Rightarrow> json" where
  "or_else a b = (if truthy a then a else b)"

definition adapter_identity :: "(string \<times> json) list \<Rightarrow> benchmark_error + (string \<times> string \<times> string \<times> string)" where
  "adapter_identity artifact = (case field artifact ''adapter'' of
     JObj a \<Rightarrow>
       (case (field a ''adapter_id'', or_else (field a ''model_sha256'') (field a ''implementation_sha256''), field a ''preprocessing_id'',
           field a ''score_semantics'') of
          (JStr i, JStr m, JStr p, JStr s) \<Rightarrow>
            if i = [] \<or> m = [] \<or> p = [] \<or> s = [] then Inl (BenchValue ''benchmark adapter identity is incomplete'') else Inr (i, m, p, s)
        | _ \<Rightarrow> Inl (BenchValue ''benchmark adapter identity is incomplete''))
   | _ \<Rightarrow> Inl (BenchValue ''benchmark artifact has no adapter metadata''))"

text \<open>
  The policy of an artifact, with its members as they were decoded; its digest is that of \<open>as_dict\<close>, which adds the
  members that every policy has.
\<close>

definition policy_members :: "string list" where
  "policy_members = [''model_id'', ''model_sha256'', ''preprocessing_id'', ''dataset_sha256'', ''score_semantics'', ''calibration_id'', ''threshold'',
     ''maximum_wrong_visual_rate'', ''minimum_positive_coverage'', ''require_zero_wrong_identity'']"

definition decoded_policy_dict :: "(string \<times> json) list \<Rightarrow> json" where
  "decoded_policy_dict d = JObj [(''schema_version'', JStr ''dsvire.egvv-policy.v1''), (''model_id'', field d ''model_id''),
     (''model_sha256'', field d ''model_sha256''), (''preprocessing_id'', field d ''preprocessing_id''),
     (''dataset_sha256'', field d ''dataset_sha256''), (''metric_version'', JStr ''dsvire.selective-metrics@1.0.0''),
     (''score_semantics'', field d ''score_semantics''), (''calibration_id'', field d ''calibration_id''),
     (''accept_when'', JStr ''score_gt_threshold''), (''threshold'', field d ''threshold''),
     (''maximum_wrong_visual_rate'', field d ''maximum_wrong_visual_rate''),
     (''minimum_positive_coverage'', field d ''minimum_positive_coverage''),
     (''require_zero_wrong_identity'', field d ''require_zero_wrong_identity'')]"

definition load_policy_artifact :: "(bytes \<Rightarrow> string) \<Rightarrow> (pyfloat \<Rightarrow> string) \<Rightarrow> (string \<times> json) list \<Rightarrow> benchmark_error + (string \<times> json) list" where
  "load_policy_artifact sha frepr artifact = (case field artifact ''policy'' of
     JObj d \<Rightarrow>
       if \<not> list_all (\<lambda>k. k \<in> set (map fst d)) policy_members then Inl (BenchEscape ''KeyError'')
       else if field artifact ''policy_sha256'' \<noteq> JStr (canonical_sha sha frepr (decoded_policy_dict d))
       then Inl (BenchValue ''policy artifact digest mismatch'')
       else Inr (map (\<lambda>k. (k, field d k)) policy_members)
   | _ \<Rightarrow> Inl (BenchValue ''policy artifact has no policy''))"

subsection \<open>The command that freezes\<close>

definition freeze_command :: "(bytes \<Rightarrow> string) \<Rightarrow> (pyfloat \<Rightarrow> string) \<Rightarrow> rat \<Rightarrow> (string \<times> json) list \<Rightarrow> benchmark_error + (string \<times> json) list" where
  "freeze_command sha frepr minimum artifact =
     bindE (adapter_identity artifact) (\<lambda>(model, model_sha, preprocessing, semantics).
     case field artifact ''dataset_sha256'' of
       JStr dataset \<Rightarrow>
         bindE (artifact_predictions artifact ''calibration'') (\<lambda>ps.
         case freeze_policy \<lparr>rq_model = model, rq_model_sha256 = model_sha, rq_preprocessing = preprocessing, rq_dataset_sha256 = dataset,
             rq_semantics = semantics, rq_calibration = None, rq_maximum_rate = dec 2 100, rq_minimum_coverage = minimum\<rparr> ps of
           Inl (MetricError m) \<Rightarrow> Inl (BenchValue m)
         | Inl (MetricEscape m) \<Rightarrow> Inl (BenchEscape m)
         | Inr (p, counts) \<Rightarrow> (case map_of artifact ''score_sha256'' of
             None \<Rightarrow> Inl (BenchEscape ''KeyError'')
           | Some digest \<Rightarrow> Inr [(''schema_version'', JStr ''dsvire.visual-policy-freeze.v1''), (''calibration_score_sha256'', digest),
               (''policy'', policy_dict p), (''policy_sha256'', JStr (policy_sha256 sha frepr p)), (''calibration_metrics'', JObj (counts_dict counts))]))
     | _ \<Rightarrow> Inl (BenchValue ''benchmark does not bind the full dataset digest''))"

subsection \<open>What a run scores\<close>

definition entry_row :: "(string \<times> rat) list \<Rightarrow> string \<times> visual_document \<times> visual_case \<Rightarrow> json" where
  "entry_row m item = (case item of (i, _, c) \<Rightarrow>
     JObj [(''case_id'', JStr i), (''label'', JStr (vc_label c)), (''score'', float_json (the (map_of m i)))])"

definition entry_prediction :: "(string \<times> rat) list \<Rightarrow> string \<times> visual_document \<times> visual_case \<Rightarrow> prediction" where
  "entry_prediction m item = (case item of (i, d, c) \<Rightarrow>
     \<lparr>pr_case = i, pr_group = vd_group d, pr_split = vd_split d, pr_label = vc_label c, pr_score = the (map_of m i)\<rparr>)"

definition scored_unit :: "(string \<times> rat) list \<Rightarrow> bool" where
  "scored_unit m \<longleftrightarrow> (\<forall>x \<in> set m. 0 \<le> snd x \<and> snd x \<le> 1)"

lemma update_all_fresh: "distinct (map fst (d @ items)) \<Longrightarrow> update_all d items = d @ items"
proof (induction items arbitrary: d)
  case (Cons x items)
  obtain k v where x: "x = (k, v)" by (cases x)
  then have "update_all d (x # items) = update_all (d @ [(k, v)]) items"
    using Cons.prems by (simp add: update_all_def update_fresh)
  also have "\<dots> = (d @ [(k, v)]) @ items" using Cons.prems x by (intro Cons.IH) simp
  finally show ?case by (simp add: x)
qed (simp add: update_all_def)

lemma map_of_left: "i \<in> set (map fst m) \<Longrightarrow> map_of (m @ n) i = map_of m i"
  by (cases "map_of m i") (simp_all add: map_add_def map_of_eq_None_iff)

lemma map_of_right: "distinct (map fst (m @ n)) \<Longrightarrow> i \<in> set (map fst n) \<Longrightarrow> map_of (m @ n) i = map_of n i"
proof -
  assume "distinct (map fst (m @ n))" and "i \<in> set (map fst n)"
  then have "i \<notin> fst ` set m" by auto
  then have "map_of m i = None" by (simp add: map_of_eq_None_iff)
  then show ?thesis by (simp add: map_add_def)
qed

lemma entry_row_cong: "map_of m i = map_of n i \<Longrightarrow> entry_row m (i, d, c) = entry_row n (i, d, c)"
  by (simp add: entry_row_def)

lemma score_rows:
  assumes "mapE (score_row scores) entries = Inr cells"
  shows "cells = map (entry_row scores) entries"
proof -
  have "list_all2 (\<lambda>x y. y = entry_row scores x) entries cells"
    using assms unfolding mapE_eq_Inr
    by (rule list_all2_mono) (auto simp: score_row_def entry_row_def split: option.splits)
  then show ?thesis by (induction rule: list_all2_induct) simp_all
qed

lemma benchmark_document_step:
  assumes "benchmark_document e score fetch ms (m, rows) (i, d) = Inr s"
  obtains items where "score_document e score (fetch d) d = Inr items"
    and "s = (update_all m items, rows @ [document_row d (ms i) (map (entry_row items) (case_entries d))])"
  using assms unfolding benchmark_document_def by (auto simp: bindE_eq_Inr split: sum.splits dest!: score_rows)

text \<open>The rows of the artifact: each document with all its cases, under the scores of the whole run.\<close>

definition rows_of :: "(string \<times> rat) list \<Rightarrow> (nat \<Rightarrow> rat) \<Rightarrow> (nat \<times> visual_document) list \<Rightarrow> json list" where
  "rows_of m ms items = map (\<lambda>(i, d). document_row d (ms i) (map (entry_row m) (case_entries d))) items"

lemma rows_of_grow:
  assumes covered: "\<And>i d. (i, d) \<in> set items \<Longrightarrow> set (map fst (case_entries d)) \<subseteq> set (map fst m)"
  shows "rows_of (m @ n) ms items = rows_of m ms items"
proof -
  have same: "map (entry_row (m @ n)) (case_entries d) = map (entry_row m) (case_entries d)" if d: "(i, d) \<in> set items" for i d
  proof (rule map_cong [OF refl])
    fix x assume x: "x \<in> set (case_entries d)"
    obtain k d' c where k: "x = (k, d', c)" by (cases x)
    with x covered [OF d] have "k \<in> set (map fst m)" by force
    then show "entry_row (m @ n) x = entry_row m x" unfolding k by (intro entry_row_cong map_of_left)
  qed
  show ?thesis unfolding rows_of_def by (intro map_cong [OF refl]) (auto simp del: map_eq_conv simp: same)
qed

context visual_adapter
begin

lemma scored_registry:
  assumes "foldE (benchmark_document e score fetch ms) ([], []) (enumerate 0 docs) = Inr (m, rows)"
    and "distinct (map fst (concat (map case_entries docs)))"
  shows "map fst m = map fst (concat (map case_entries docs)) \<and> scored_unit m \<and> rows = rows_of m ms (enumerate 0 docs) \<and>
    (\<forall>d \<in> set docs. \<exists>items. score_document e score (fetch d) d = Inr items \<and> set items \<subseteq> set m)"
  using assms
proof (induction docs arbitrary: m rows rule: rev_induct)
  case (snoc d docs)
  let ?n = "length docs"
  have en: "enumerate 0 (docs @ [d]) = enumerate 0 docs @ [(?n, d)]" by (simp add: enumerate_append_eq)
  from snoc.prems(1) obtain s where s: "foldE (benchmark_document e score fetch ms) ([], []) (enumerate 0 docs) = Inr s"
    and last: "benchmark_document e score fetch ms s (?n, d) = Inr (m, rows)"
    unfolding en foldE_append by (auto simp: bindE_eq_Inr)
  obtain m0 rows0 where s0: "s = (m0, rows0)" by (cases s)
  have dist: "distinct (map fst (concat (map case_entries docs)))" "distinct (map fst (case_entries d))"
    "set (map fst (concat (map case_entries docs))) \<inter> set (map fst (case_entries d)) = {}"
    using snoc.prems(2) by auto
  from snoc.IH [OF s [unfolded s0] dist(1)] have m0: "map fst m0 = map fst (concat (map case_entries docs))" "scored_unit m0"
    and rows0: "rows0 = rows_of m0 ms (enumerate 0 docs)"
    and before: "\<forall>d \<in> set docs. \<exists>items. score_document e score (fetch d) d = Inr items \<and> set items \<subseteq> set m0" by simp_all
  from last [unfolded s0] obtain items where scored: "score_document e score (fetch d) d = Inr items"
    and out: "m = update_all m0 items" "rows = rows0 @ [document_row d (ms ?n) (map (entry_row items) (case_entries d))]"
    by (rule benchmark_document_step) auto
  note items = scored_document [OF scored dist(2)]
  have fresh: "distinct (map fst (m0 @ items))" using dist m0(1) items by simp
  then have m: "m = m0 @ items" by (simp add: out(1) update_all_fresh)
  have old: "rows_of m ms (enumerate 0 docs) = rows0"
    unfolding m rows0 by (rule rows_of_grow) (force simp: m0(1) in_set_enumerate_eq)
  have now: "map (entry_row items) (case_entries d) = map (entry_row m) (case_entries d)"
  proof (rule map_cong [OF refl])
    fix x assume x: "x \<in> set (case_entries d)"
    obtain k d' c where k: "x = (k, d', c)" by (cases x)
    with x items have "k \<in> set (map fst items)" by force
    then show "entry_row items x = entry_row m x" unfolding k m using map_of_right [OF fresh] by (intro entry_row_cong) simp
  qed
  have "rows = rows_of m ms (enumerate 0 (docs @ [d]))" unfolding out(2) now en by (simp only: old [symmetric]) (simp add: rows_of_def)
  moreover have "scored_unit m" using m0(2) items by (auto simp: m scored_unit_def)
  moreover have "map fst m = map fst (concat (map case_entries (docs @ [d])))" using m0(1) items by (simp add: m)
  moreover have "\<forall>d' \<in> set (docs @ [d]). \<exists>items. score_document e score (fetch d') d' = Inr items \<and> set items \<subseteq> set m"
    using before scored by (fastforce simp: m)
  ultimately show ?case by blast
qed (simp add: rows_of_def scored_unit_def)

end

subsection \<open>The artifact reads back\<close>

lemma parse_prediction_accepts:
  assumes "plain_text i" and "plain_text g" and "s \<in> set allowed_splits" and "l \<in> set allowed_labels" and "0 \<le> x" and "x \<le> 1"
  shows "parse_prediction part (JObj [(''case_id'', JStr i), (''document_group'', JStr g), (''split'', JStr s), (''label'', JStr l),
      (''score'', float_json x)]) = Inr \<lparr>pr_case = i, pr_group = g, pr_split = s, pr_label = l, pr_score = x\<rparr>"
proof -
  have text_ok: "metric_text t (JStr w) = Inr w" if "plain_text w" for t w
    using that by (simp add: metric_text_def nonempty_text_def plain_text_def)
  have split_ok: "plain_text s" using assms(3) by (auto simp: allowed_splits_def plain_text_iff py_space_def code_point_def)
  have label_ok: "plain_text l" using assms(4)
    by (auto simp: allowed_labels_def positive_def wrong_visual_labels_def wrong_identity_labels_def plain_text_iff py_space_def code_point_def)
  have score_ok: "unit_score t (float_json x) = Inr x" for t
    using assms(5,6) by (simp add: unit_score_def float_json_def check_number_def)
  show ?thesis using assms(3,4)
    by (simp add: parse_prediction_def strict_keys_def fields_are_def field_def text_ok assms(1,2) split_ok label_ok score_ok ensure_def)
qed

definition entry_ok :: "string \<times> visual_document \<times> visual_case \<Rightarrow> bool" where
  "entry_ok item \<longleftrightarrow> (case item of (i, d, c) \<Rightarrow> plain_text i \<and> plain_text (vd_group d) \<and> vd_split d \<in> set allowed_splits \<and>
     vc_label c \<in> set allowed_labels)"

lemma case_entries_ok: "document_ok draft d \<Longrightarrow> x \<in> set (case_entries d) \<Longrightarrow> entry_ok x"
  by (auto simp: entry_ok_def case_entries_def document_ok_def case_ok_def plain_qualified_text)

lemma scored_lookup:
  assumes "scored_unit m" and "i \<in> set (map fst m)"
  shows "\<exists>x. map_of m i = Some x \<and> 0 \<le> x \<and> x \<le> 1"
proof -
  obtain x where x: "map_of m i = Some x" using assms(2) by (cases "map_of m i") (auto simp: map_of_eq_None_iff)
  then show ?thesis using assms(1) map_of_SomeD [OF x] by (force simp: scored_unit_def)
qed

lemma mapE_map_total: "(\<And>x. x \<in> set xs \<Longrightarrow> f (g x) = Inr (h x)) \<Longrightarrow> mapE f (map g xs) = Inr (map h xs)"
  by (induction xs) auto

lemma row_reads_back:
  assumes "document_ok draft d" and "scored_unit m" and "set (map fst (case_entries d)) \<subseteq> set (map fst m)"
  shows "document_predictions (vd_split d) (i, document_row d t (map (entry_row m) (case_entries d))) =
    Inr (map (entry_prediction m) (case_entries d))"
proof -
  have "vd_cases d \<noteq> []" using assms(1) by (auto simp: document_ok_def)
  then have some: "case_entries d \<noteq> []" by (simp add: case_entries_def)
  let ?row = "[(''id'', JStr (vd_id d)), (''document_group'', JStr (vd_group d)), (''split'', JStr (vd_split d)),
     (''review_status'', JStr (rev_status (vd_review d))), (''elapsed_ms'', float_json (round_digits 3 t)),
     (''scores'', JArr (map (entry_row m) (case_entries d)))]"
  have "mapE (score_prediction (vd_split d) i ?row) (map (entry_row m) (case_entries d)) = Inr (map (entry_prediction m) (case_entries d))"
  proof (rule mapE_map_total)
    fix x assume x: "x \<in> set (case_entries d)"
    obtain k c where k: "x = (k, d, c)" using x by (auto simp: case_entries_def)
    have ok: "entry_ok (k, d, c)" using case_entries_ok [OF assms(1) x] k by simp
    have "k \<in> set (map fst m)" using x k assms(3) by force
    with scored_lookup [OF assms(2)] obtain y where y: "map_of m k = Some y" "0 \<le> y" "y \<le> 1" by blast
    show "score_prediction (vd_split d) i ?row (entry_row m x) = Inr (entry_prediction m x)"
      using ok y by (simp add: k score_prediction_def entry_row_def entry_prediction_def entry_ok_def parse_prediction_accepts)
  qed
  then show ?thesis using some by (simp add: document_predictions_def document_row_def field_def)
qed

lemma rows_read_back:
  assumes "\<forall>d \<in> set docs. document_ok draft d \<and> vd_split d = split" and "scored_unit m"
    and "\<And>d. d \<in> set docs \<Longrightarrow> set (map fst (case_entries d)) \<subseteq> set (map fst m)"
  shows "mapE (document_predictions split) (enumerate k (rows_of m ms (enumerate j docs))) =
    Inr (map (\<lambda>d. map (entry_prediction m) (case_entries d)) docs)"
  using assms
proof (induction docs arbitrary: j k)
  case (Cons d docs)
  have "document_predictions split (k, document_row d (ms j) (map (entry_row m) (case_entries d))) =
      Inr (map (entry_prediction m) (case_entries d))"
    using row_reads_back [of draft d m k] Cons.prems by simp
  then show ?case using Cons.IH [of "Suc k" "Suc j"] Cons.prems by (simp add: rows_of_def)
qed (simp add: rows_of_def)

text \<open>The artifact of a run with the members the command appends.\<close>

context visual_adapter
begin

lemma run_reads_back:
  assumes "registry_ok draft (vr_documents reg)" and "vr_documents reg \<noteq> []" and "\<forall>d \<in> set (vr_documents reg). vd_split d = split"
    and "benchmark_registry e score metadata k reg fetch = Inr result"
  shows "\<exists>m. map fst m = map fst (registry_cases reg) \<and> scored_unit m \<and>
    artifact_predictions (result @ [(''dataset_sha256'', dataset), (''selected_split'', JStr split)]) split =
      Inr (map (entry_prediction m) (registry_cases reg)) \<and>
    (\<forall>d \<in> set (vr_documents reg). \<exists>items. score_document e score (fetch d) d = Inr items \<and> set items \<subseteq> set m)"
proof -
  let ?docs = "vr_documents reg"
  from assms(4) obtain m rows ps summary where
    fold: "foldE (benchmark_document e score fetch (rc_document_ms k)) ([], []) (enumerate 0 ?docs) = Inr (m, rows)"
    and result: "result = [(''schema_version'', JStr RESULT_VERSION), (''registry_sha256'', JStr (vr_sha256 reg)),
       (''score_sha256'', JStr (score_digest e reg metadata ps)), (''adapter'', metadata),
       (''eligible_for_policy_fitting'', JBool (0 < reviewed_in ''calibration'' reg)), (''summary'', summary), (''documents'', JArr rows)]"
    unfolding benchmark_registry_def bindE_eq_Inr by (auto split: prod.splits simp: bindE_eq_Inr)
  have names: "distinct (map fst (concat (map case_entries ?docs)))" using assms(1) by (simp add: registry_ok_def)
  note run = scored_registry [OF fold names]
  have cover: "set (map fst (case_entries d)) \<subseteq> set (map fst m)" if "d \<in> set ?docs" for d
    using run that by force
  have "mapE (document_predictions split) (enumerate 0 rows) = Inr (map (\<lambda>d. map (entry_prediction m) (case_entries d)) ?docs)"
    using run assms(1,3) cover rows_read_back [of ?docs draft split m 0 "rc_document_ms k" 0] by (simp add: registry_ok_def)
  moreover have "rows \<noteq> []" using run assms(2) by (cases ?docs) (simp_all add: rows_of_def)
  ultimately have "artifact_predictions (result @ [(''dataset_sha256'', dataset), (''selected_split'', JStr split)]) split =
      Inr (concat (map (\<lambda>d. map (entry_prediction m) (case_entries d)) ?docs))"
    by (simp add: artifact_predictions_def result field_def)
  then show ?thesis using run by (intro exI [of _ m]) (simp add: registry_cases_def map_concat comp_def)
qed

end

lemma as_benchmark_error_iff: "as_benchmark_error r = Inr x \<longleftrightarrow> r = Inr x"
  by (cases r) (simp_all add: as_benchmark_error_def)

lemma split_name_plain: "split \<in> set allowed_splits \<Longrightarrow> strip split = split"
  by (rule allowed_splits_plain)

lemma selected_documents_split:
  assumes "select_documents (OneSplit split) registry = Inr chosen"
    and "load_visual_registry_data sha frepr aware draft chosen = Inr reg" and "split \<in> set allowed_splits"
  shows "\<forall>d \<in> set (vr_documents reg). vd_split d = split"
proof -
  from assms(1) obtain top docs where chosen: "chosen = JObj [(''schema_version'', top), (''documents'', JArr docs)]"
    and only: "\<forall>v \<in> set docs. of_split split v"
    by (auto simp: select_documents_def with_documents_def bindE_eq_Inr Let_def split: json.splits if_splits)
  from loaded_from [OF assms(2)] have from': "list_all2 (document_from aware) (enumerate 0 docs) (vr_documents reg)"
    by (auto simp: chosen field_def)
  show ?thesis
  proof
    fix d assume "d \<in> set (vr_documents reg)"
    then obtain item where item: "item \<in> set (enumerate 0 docs)" "document_from aware item d"
      using list_all2_partner [OF from'] by blast
    obtain i v where iv: "item = (i, v)" by (cases item)
    with item(1) have "v \<in> set docs" by (auto simp: in_set_enumerate_eq)
    with only have "of_split split v" by blast
    then obtain raw where raw: "v = JObj raw" "field raw ''split'' = JStr split" by (auto simp: of_split_def split: json.splits)
    show "vd_split d = split"
      using document_from_split [OF item(2) [unfolded iv raw(1)] raw(2)] assms(3) by (simp add: split_name_plain)
  qed
qed

definition shipped_adapters :: "unicode \<Rightarrow> crop_text \<Rightarrow> (rat list \<Rightarrow> rat) \<Rightarrow> (bytes \<Rightarrow> (string list \<times> pyfloat list) option) \<Rightarrow>
    (bytes \<Rightarrow> string \<Rightarrow> pyfloat option) \<Rightarrow> engine \<Rightarrow> (raw_page option list \<Rightarrow> visual_case \<Rightarrow> adapter_error + rat) set" where
  "shipped_adapters u get float_sum ocr cosine e =
     {text_layout_score u get, rapid_ocr_score u float_sum ocr e, openclip_score (openclip_similarity cosine) e}"

lemma shipped_adapter: "score \<in> shipped_adapters u get float_sum ocr cosine e \<Longrightarrow> visual_adapter score"
  by (auto simp: shipped_adapters_def text_layout_adapter rapid_ocr_adapter openclip_adapter)

text \<open>
  C35. A benchmark artifact reads back as what was scored: the predictions that the policy command reads from the artifact of one split
  are those of the registered cases of this split, each exactly once and in the order of the registry, with the group and the
  label of the registry, and each score is the one that the adapter gave to this case, between 0 and 1.
\<close>

theorem benchmark_artifact_reads_back:
  assumes "evaluate_visual e aware score metadata k fetch (OneSplit split) registry plan = Inr artifact"
    and "split \<in> set allowed_splits" and "score \<in> shipped_adapters u get float_sum ocr cosine e"
  shows "\<exists>chosen reg ps. select_documents (OneSplit split) registry = Inr chosen \<and>
    load_visual_registry_data (en_sha e) (en_frepr e) aware False chosen = Inr reg \<and> artifact_predictions artifact split = Inr ps \<and>
    map (\<lambda>p. (pr_case p, pr_group p, pr_split p, pr_label p)) ps = map (\<lambda>(i, d, c). (i, vd_group d, split, vc_label c)) (registry_cases reg) \<and>
    (\<forall>d \<in> set (vr_documents reg). \<exists>items. score_document e score (fetch d) d = Inr items \<and> map fst items = map fst (case_entries d) \<and>
      set items \<subseteq> set (map (\<lambda>p. (pr_case p, pr_score p)) ps)) \<and>
    (\<forall>p \<in> set ps. 0 \<le> pr_score p \<and> pr_score p \<le> 1)"
proof -
  note adapter = shipped_adapter [OF assms(3)]
  from assms(1) obtain chosen reg result dataset where
    chosen: "select_documents (OneSplit split) registry = Inr chosen"
    and reg: "load_visual_registry_data (en_sha e) (en_frepr e) aware False chosen = Inr reg"
    and result: "benchmark_registry e score metadata k reg fetch = Inr result"
    and artifact: "artifact = result @ [(''dataset_sha256'', JStr dataset), (''selected_split'', JStr split)]"
    unfolding evaluate_visual_def bindE_eq_Inr as_benchmark_error_iff by (auto simp: selected_split_def opt_str_def)
  note splits = selected_documents_split [OF chosen reg assms(2)]
  note loaded = loaded_registry [OF reg]
  from visual_adapter.run_reads_back [OF adapter loaded(1,2) splits result, of "JStr dataset"] obtain m where
    m: "map fst m = map fst (registry_cases reg)" "scored_unit m"
    and reads: "artifact_predictions artifact split = Inr (map (entry_prediction m) (registry_cases reg))"
    and each: "\<forall>d \<in> set (vr_documents reg). \<exists>items. score_document e score (fetch d) d = Inr items \<and> set items \<subseteq> set m"
    unfolding artifact by blast
  let ?ps = "map (entry_prediction m) (registry_cases reg)"
  have names: "distinct (map fst (registry_cases reg))" using loaded(1) by (simp add: registry_ok_def registry_cases_def)
  have pairs: "map (\<lambda>p. (pr_case p, pr_score p)) ?ps = m"
  proof (rule nth_equalityI)
    show len: "length (map (\<lambda>p. (pr_case p, pr_score p)) ?ps) = length m" using arg_cong [OF m(1), of length] by simp
    fix j assume "j < length (map (\<lambda>p. (pr_case p, pr_score p)) ?ps)"
    then have j: "j < length m" "j < length (registry_cases reg)" using len by simp_all
    obtain i d c where entry: "registry_cases reg ! j = (i, d, c)" by (cases "registry_cases reg ! j")
    have fst_j: "fst (m ! j) = i" using arg_cong [OF m(1), of "\<lambda>l. l ! j"] j entry by simp
    have "map_of m i = Some (snd (m ! j))"
      using j names m(1) fst_j by (intro map_of_is_SomeI) (auto simp: in_set_conv_nth intro: exI [of _ j] prod_eqI)
    then show "map (\<lambda>p. (pr_case p, pr_score p)) ?ps ! j = m ! j"
      using j fst_j by (simp add: entry entry_prediction_def) (simp add: prod_eq_iff)
  qed
  have "\<exists>items. score_document e score (fetch d) d = Inr items \<and> map fst items = map fst (case_entries d) \<and>
      set items \<subseteq> set (map (\<lambda>p. (pr_case p, pr_score p)) ?ps)" if d: "d \<in> set (vr_documents reg)" for d
  proof -
    from each d obtain items where items: "score_document e score (fetch d) d = Inr items" "set items \<subseteq> set m" by blast
    have "distinct (map fst (case_entries d))" using names d
      by (auto simp: registry_cases_def distinct_concat_iff map_concat)
    with visual_adapter.scored_document [OF adapter items(1)] items show ?thesis unfolding pairs by blast
  qed
  moreover have "0 \<le> pr_score p \<and> pr_score p \<le> 1" if "p \<in> set ?ps" for p
  proof -
    have "(\<lambda>p. (pr_case p, pr_score p)) p \<in> (\<lambda>p. (pr_case p, pr_score p)) ` set ?ps" using that by (rule imageI)
    then have "(pr_case p, pr_score p) \<in> set m" unfolding set_map [symmetric] pairs .
    then show ?thesis using m(2) by (fastforce simp: scored_unit_def)
  qed
  moreover have "map (\<lambda>p. (pr_case p, pr_group p, pr_split p, pr_label p)) ?ps =
      map (\<lambda>(i, d, c). (i, vd_group d, split, vc_label c)) (registry_cases reg)"
    using splits registry_cases_doc by (auto simp: entry_prediction_def)
  ultimately show ?thesis using chosen reg reads by blast
qed

subsection \<open>Binding and freezing\<close>

text \<open>Scores that cover the registry within 0 and 1 always bind.\<close>

lemma scores_bind:
  assumes "registry_ok draft (vr_documents reg)" and "map fst m = map fst (registry_cases reg)" and "scored_unit m"
  shows "bound_predictions reg m = Inr (map (entry_prediction m) (sort_key fst (registry_cases reg)))"
proof -
  have names: "distinct (map fst (registry_cases reg))" using assms(1) by (simp add: registry_ok_def registry_cases_def)
  then have same: "dict_of (registry_cases reg) = registry_cases reg" by (rule dict_of_id)
  have scored: "map fst (as_scores m) = map fst (registry_cases reg)" using assms(2) by (simp add: as_scores_def comp_def split_beta)
  have "bind_one (as_scores m) x = Inr (entry_prediction m x)" if x: "x \<in> set (registry_cases reg)" for x
  proof -
    obtain i d c where e: "x = (i, d, c)" by (cases x)
    have d: "d \<in> set (vr_documents reg)" and entry: "(i, d, c) \<in> set (case_entries d)"
      using x e by (auto simp: registry_cases_def case_entries_def)
    have ok: "entry_ok (i, d, c)" using assms(1) d case_entries_ok [OF _ entry] by (auto simp: registry_ok_def)
    have "i \<in> set (map fst m)" unfolding assms(2) using x e by force
    with scored_lookup [OF assms(3)] obtain y where y: "map_of m i = Some y" "0 \<le> y" "y \<le> 1" by blast
    have "map_of (as_scores m) i = Some (float_json y)" using y(1) by (simp add: as_scores_def map_of_map)
    then show ?thesis using ok y
      by (simp add: e bind_one_def entry_prediction_def entry_ok_def parse_prediction_accepts field_def)
  qed
  then have "mapE (bind_one (as_scores m)) (map (\<lambda>x. x) (sort_key fst (registry_cases reg))) =
      Inr (map (entry_prediction m) (sort_key fst (registry_cases reg)))"
    by (intro mapE_map_total) simp
  then show ?thesis
    by (simp add: bound_predictions_def bind_prediction_scores_def Let_def same scored filter_empty_conv)
qed

definition policy_items :: "frozen_policy \<Rightarrow> (string \<times> json) list" where
  "policy_items p = [(''model_id'', JStr (policy_model p)), (''model_sha256'', JStr (policy_model_sha256 p)),
     (''preprocessing_id'', JStr (preprocessing_id p)), (''dataset_sha256'', JStr (dataset_sha256 p)),
     (''score_semantics'', JStr (score_semantics p)), (''calibration_id'', opt_str (calibration_id p)),
     (''threshold'', float_json (threshold p)), (''maximum_wrong_visual_rate'', float_json (maximum_wrong_visual_rate p)),
     (''minimum_positive_coverage'', float_json (minimum_positive_coverage p)),
     (''require_zero_wrong_identity'', JBool (require_zero_wrong_identity p))]"

definition of_items :: "json \<Rightarrow> (string \<times> json) list" where
  "of_items v = (case v of JObj d \<Rightarrow> d | _ \<Rightarrow> [])"

lemma policy_loads:
  assumes "list_all (\<lambda>k. k \<in> set (map fst d)) policy_members"
  shows "load_policy_artifact sha frepr [(''schema_version'', a), (''calibration_score_sha256'', b), (''policy'', JObj d),
    (''policy_sha256'', JStr (canonical_sha sha frepr (decoded_policy_dict d))), (''calibration_metrics'', c)] =
    Inr (map (\<lambda>k. (k, field d k)) policy_members)"
  using assms by (simp add: load_policy_artifact_def field_def [of "_ # _"])

lemma freeze_command_parts:
  assumes "freeze_command sha frepr minimum artifact = Inr out"
  obtains ps r p counts digest where "artifact_predictions artifact ''calibration'' = Inr ps" "freeze_policy r ps = Inr (p, counts)"
    "field artifact ''dataset_sha256'' = JStr (rq_dataset_sha256 r)"
    "out = [(''schema_version'', JStr ''dsvire.visual-policy-freeze.v1''), (''calibration_score_sha256'', digest),
      (''policy'', policy_dict p), (''policy_sha256'', JStr (policy_sha256 sha frepr p)), (''calibration_metrics'', JObj (counts_dict counts))]"
proof -
  from assms obtain ident where ident: "adapter_identity artifact = Inr ident"
    by (cases "adapter_identity artifact") (simp_all add: freeze_command_def)
  obtain model model_sha preprocessing semantics where parts: "ident = (model, model_sha, preprocessing, semantics)" by (cases ident)
  from assms obtain dataset where dataset: "field artifact ''dataset_sha256'' = JStr dataset"
    by (cases "field artifact ''dataset_sha256''") (simp_all add: freeze_command_def ident parts)
  from assms obtain ps where ps: "artifact_predictions artifact ''calibration'' = Inr ps"
    by (cases "artifact_predictions artifact ''calibration''") (simp_all add: freeze_command_def ident parts dataset)
  let ?r = "\<lparr>rq_model = model, rq_model_sha256 = model_sha, rq_preprocessing = preprocessing, rq_dataset_sha256 = dataset,
    rq_semantics = semantics, rq_calibration = None, rq_maximum_rate = dec 2 100, rq_minimum_coverage = minimum\<rparr>"
  from assms obtain fc where frozen: "freeze_policy ?r ps = Inr fc"
    by (cases "freeze_policy ?r ps") (simp_all add: freeze_command_def ident parts dataset ps split: metric_error.splits)
  obtain p counts where fc: "fc = (p, counts)" by (cases fc)
  from assms obtain digest where digest: "map_of artifact ''score_sha256'' = Some digest"
    by (cases "map_of artifact ''score_sha256''") (simp_all add: freeze_command_def ident parts dataset ps frozen fc)
  show thesis
    by (rule that [of ps ?r p counts digest])
      (use assms in \<open>simp_all add: freeze_command_def ident parts dataset ps frozen fc digest\<close>)
qed

text \<open>The policy that the command freezes from an artifact is the one the second command reads.\<close>

theorem frozen_policy_reads_back:
  assumes "freeze_command sha frepr minimum artifact = Inr out"
  shows "\<exists>p ps request counts. artifact_predictions artifact ''calibration'' = Inr ps \<and> freeze_policy request ps = Inr (p, counts) \<and>
    JStr (rq_dataset_sha256 request) = field artifact ''dataset_sha256'' \<and> load_policy_artifact sha frepr out = Inr (policy_items p)"
proof -
  from assms obtain ps r p counts digest where
    ps: "artifact_predictions artifact ''calibration'' = Inr ps" and frozen: "freeze_policy r ps = Inr (p, counts)"
    and dataset: "field artifact ''dataset_sha256'' = JStr (rq_dataset_sha256 r)"
    and out: "out = [(''schema_version'', JStr ''dsvire.visual-policy-freeze.v1''), (''calibration_score_sha256'', digest),
      (''policy'', policy_dict p), (''policy_sha256'', JStr (policy_sha256 sha frepr p)), (''calibration_metrics'', JObj (counts_dict counts))]"
    by (rule freeze_command_parts)
  let ?d = "of_items (policy_dict p)"
  have d: "policy_dict p = JObj ?d" by (simp add: policy_dict_def of_items_def)
  have members: "list_all (\<lambda>k. k \<in> set (map fst ?d)) policy_members"
    by (simp add: policy_dict_def policy_members_def of_items_def)
  have items: "map (\<lambda>k. (k, field ?d k)) policy_members = policy_items p"
    by (simp add: policy_dict_def policy_members_def policy_items_def field_def of_items_def)
  have whole: "decoded_policy_dict ?d = policy_dict p"
    by (simp add: policy_dict_def decoded_policy_dict_def field_def of_items_def)
  have "load_policy_artifact sha frepr out = Inr (policy_items p)"
    using policy_loads [OF members, of sha frepr] unfolding whole items d [symmetric] out policy_sha256_def by blast
  with ps frozen dataset show ?thesis by (intro exI [of _ p] exI [of _ ps] exI [of _ r] exI [of _ counts]) simp
qed

text \<open>The registry of a split agrees with the frozen plan, document by document.\<close>

lemma bound_split_planned:
  assumes "bind_registry_to_split_plan reg plan split = Inr ()" and "distinct (map fst plan)"
  shows "set (map vd_id (vr_documents reg)) = {i. \<exists>d. map_of plan i = Some d \<and> field d ''split'' = JStr split} \<and>
    (\<forall>doc \<in> set (vr_documents reg). \<exists>d. map_of plan (vd_id doc) = Some d \<and> field d ''content_sha256'' = JStr (vd_sha256 doc) \<and>
      field d ''category'' = JStr (vd_category doc) \<and> field d ''source_url'' = JStr (src_url (vd_source doc)))"
proof -
  let ?planned = "filter (\<lambda>(_, d). field d ''split'' = JStr split) plan"
  have names: "set (map vd_id (vr_documents reg)) = set (map fst ?planned)"
    and loop: "foldE (planned_match ?planned) () (vr_documents reg) = Inr ()"
    using assms(1) by (auto simp: bind_registry_to_split_plan_def Let_def filter_empty_conv split: if_splits)
  have planned: "map_of ?planned i = Some d \<longleftrightarrow> map_of plan i = Some d \<and> field d ''split'' = JStr split" for i d
    using assms(2) distinct_map_filter [OF assms(2)] by (auto simp: map_of_eq_Some_iff)
  have "\<exists>d. map_of ?planned (vd_id doc) = Some d \<and> field d ''content_sha256'' = JStr (vd_sha256 doc) \<and>
      field d ''category'' = JStr (vd_category doc) \<and> field d ''source_url'' = JStr (src_url (vd_source doc))"
    if "doc \<in> set docs" "foldE (planned_match ?planned) () docs = Inr ()" for doc docs
    using that by (induction docs) (auto simp: planned_match_def bindE_eq_Inr split: option.splits if_splits)
  from this [OF _ loop] have each: "\<forall>doc \<in> set (vr_documents reg). \<exists>d. map_of ?planned (vd_id doc) = Some d \<and>
      field d ''content_sha256'' = JStr (vd_sha256 doc) \<and> field d ''category'' = JStr (vd_category doc) \<and>
      field d ''source_url'' = JStr (src_url (vd_source doc))" by blast
  have "set (map fst ?planned) = {i. \<exists>d. map_of ?planned i = Some d}"
    using distinct_map_filter [OF assms(2)] by (force simp: map_of_eq_Some_iff)
  then show ?thesis using names each unfolding planned by auto
qed

text \<open>
  C36. No adapter of the benchmark sees the ground truth: if the labels and rationales of the cases of a document are replaced by any
  others, each of the three adapters gives the same scores, and fails in the same way where it fails.
\<close>

theorem adapters_blind_to_labels:
  "score_document e (text_layout_score u get) payload (relabelled labels rationales d) = score_document e (text_layout_score u get) payload d \<and>
   score_document e (rapid_ocr_score u float_sum ocr e) payload (relabelled labels rationales d) =
     score_document e (rapid_ocr_score u float_sum ocr e) payload d \<and>
   score_document e (openclip_score similarity e) payload (relabelled labels rationales d) =
     score_document e (openclip_score similarity e) payload d"
  by (intro conjI text_layout.document_scores_blind rapid_ocr.document_scores_blind openclip.document_scores_blind)

subsection \<open>A run on the example registry\<close>

definition bench_unicode :: unicode where
  "bench_unicode = \<lparr>uni_nfkc = (\<lambda>s. s), uni_upper = (\<lambda>s. s)\<rparr>"

definition bench_page :: raw_page where
  "bench_page = \<lparr>rp_rotation = 0, rp_width = 1, rp_height = 1, rp_text = [], rp_chars = []\<rparr>"

definition bench_engine :: engine where
  "bench_engine = \<lparr>en_unicode = bench_unicode, en_open = (\<lambda>_. Opened [Some bench_page] 0 True), en_png = (\<lambda>_ _ _. []), en_webp = (\<lambda>_. []),
     en_sha = (\<lambda>_. replicate 64 CHR ''a''), en_frepr = (\<lambda>_. []), en_decode = (\<lambda>_. None), en_backend = []\<rparr>"

definition bench_clock :: run_clock where
  "bench_clock = \<lparr>rc_document_ms = (\<lambda>_. 1), rc_seconds = 1, rc_peak = 1\<rparr>"

definition bench_score :: "raw_page option list \<Rightarrow> visual_case \<Rightarrow> adapter_error + rat" where
  "bench_score = text_layout_score bench_unicode (\<lambda>_ _ _ _ _. [])"

definition bench_registry :: visual_registry where
  "bench_registry = \<lparr>vr_documents = sample_documents, vr_sha256 = canonical_sha (en_sha bench_engine) (en_frepr bench_engine) sample_registry_json\<rparr>"

lemma bench_loads:
  "load_visual_registry_data (en_sha bench_engine) (en_frepr bench_engine) (\<lambda>_. None) False sample_registry_json = Inr bench_registry"
proof -
  obtain st where st: "load_document (\<lambda>_. None) False empty_registry_state (0, sample_document) = Inr st"
    using sample_document_loads by (cases "load_document (\<lambda>_. None) False empty_registry_state (0, sample_document)") simp_all
  then show ?thesis
    by (simp add: load_visual_registry_data_def sample_registry_json_def registry_object_def object_items_def
        registry_keys_def strict_keys_def fields_are_def field_def array_items_def bench_registry_def sample_documents_def)
qed

lemma bench_selects: "select_documents (OneSplit ''development'') sample_registry_json = Inr sample_registry_json"
  by (simp add: select_documents_def with_documents_def sample_registry_json_def field_def of_split_def sample_document_def)

lemma bench_cases: "list_all (\<lambda>d. vd_sha256 d = replicate 64 CHR ''a'' \<and> list_all (\<lambda>c. vc_page c = 1 \<and> vc_bbox c = (0, 0, 1, 1)) (vd_cases d)) sample_documents"
  by code_simp

lemma bench_text:
  "term_hits [] PINOUT_TERMS = 0" "term_hits [] PIN_TABLE_TERMS = 0" "term_hits [] TABLE_HEADER_TERMS = 0" "normalise_text [] = []"
  "pin_token_count bench_unicode [] = 0" "contains_exact_mpn bench_unicode [] ''n'' = False" "contains_phrase bench_unicode [] ''top view'' = False"
  "contains_ordered_tokens bench_unicode [] ''p'' 2 = False" "contains_ordered_tokens bench_unicode [] ''q'' 2 = False"
  by code_simp+

lemma round_digits_0 [simp]: "round_digits n 0 = 0"
  using round_half_even_int [of 0] by (simp add: round_digits_def)

lemma bench_semantics:
  assumes "vc_region c \<in> set allowed_region_types" and "vc_view c = ''top''"
    and "id_mpn (vc_claimed c) = ''n''" and "id_package (vc_claimed c) \<in> {''p'', ''q''}"
  shows "semantic_score bench_unicode [] c = Inr 0"
  using assms by (auto simp: semantic_score_def bench_text score_candidate_def allowed_region_types_def facing_def Let_def
      pinout_score_def table_score_def fmul_def fadd_def)

lemma bench_sample: "list_all (\<lambda>d. vd_sha256 d = replicate 64 CHR ''a'' \<and> vd_cases d \<noteq> [] \<and> list_all (\<lambda>c. vc_page c = 1 \<and> vc_bbox c = (0, 0, 1, 1) \<and>
    vc_region c \<in> set allowed_region_types \<and> vc_view c = ''top'' \<and> id_mpn (vc_claimed c) = ''n'' \<and>
    id_package (vc_claimed c) \<in> {''p'', ''q''}) (vd_cases d)) sample_documents"
  by code_simp

lemma bench_case_scored:
  assumes "vc_page c = 1" and "vc_bbox c = (0, 0, 1, 1)" and "semantic_score bench_unicode [] c = Inr 0"
  shows "bench_score [Some bench_page] c = Inr 0"
  using assms rnd_pow2 [of 0]
  by (simp add: bench_score_def text_layout_score_def checked_page_def MAX_PAGES_def load_page_def text_bounded_def validated_bbox_def
      crop_box_def bench_page_def fmul_def pow2_def unix_lines_def replace_char_def MAX_TEXT_CHARS_PER_PAGE_def)

lemma bench_document_scored:
  assumes "d \<in> set sample_documents" and "distinct (map fst (case_entries d))"
  shows "\<exists>items. score_document bench_engine bench_score [] d = Inr items \<and> map fst items = map fst (case_entries d)"
proof -
  from bench_sample assms(1) have d: "vd_sha256 d = replicate 64 CHR ''a''" and cs: "\<forall>c \<in> set (vd_cases d). bench_score [Some bench_page] c = Inr 0"
    by (auto simp: list_all_iff intro!: bench_case_scored bench_semantics)
  have opened: "open_document [] (en_open bench_engine []) = Inr [Some bench_page]"
    by (simp add: bench_engine_def open_document_def max_document_pages_def)
  have "mapE (\<lambda>(case_id, _, c). bindE (bench_score [Some bench_page] c) (\<lambda>s. Inr (case_id, s))) (map (\<lambda>x. x) (case_entries d)) =
      Inr (map (\<lambda>x. (fst x, 0)) (case_entries d))"
    by (rule mapE_map_total) (auto simp: case_entries_def cs)
  moreover have "dict_of (map (\<lambda>x. (fst x, 0 :: rat)) (case_entries d)) = map (\<lambda>x. (fst x, 0)) (case_entries d)"
    using assms(2) by (intro dict_of_id) (simp add: comp_def)
  ultimately show ?thesis using d opened by (simp add: score_document_def comp_def) (simp add: bench_engine_def)
qed

lemma bench_documents: "length sample_documents = 1"
  by code_simp

lemma bench_run: "\<exists>result. benchmark_registry bench_engine bench_score JNull bench_clock bench_registry (\<lambda>_. []) = Inr result"
proof -
  obtain d where docs: "sample_documents = [d]" using bench_documents by (auto simp: length_Suc_conv)
  note ok = loaded_registry(1) [OF bench_loads]
  have some: "distinct (map fst (case_entries d))" using ok by (simp add: registry_ok_def bench_registry_def docs)
  from bench_document_scored [of d, OF _ some] obtain items where items: "score_document bench_engine bench_score [] d = Inr items"
    and names: "map fst items = map fst (case_entries d)" by (auto simp: docs)
  have "score_row items x = Inr (entry_row items x)" if "x \<in> set (case_entries d)" for x
  proof -
    obtain i d' c where x: "x = (i, d', c)" by (cases x)
    with that have "i \<in> set (map fst items)" unfolding names by force
    then show ?thesis by (cases "map_of items i") (auto simp: x score_row_def entry_row_def map_of_eq_None_iff)
  qed
  then have "mapE (score_row items) (map (\<lambda>x. x) (case_entries d)) = Inr (map (entry_row items) (case_entries d))"
    by (rule mapE_map_total)
  then have "foldE (benchmark_document bench_engine bench_score (\<lambda>_. []) (rc_document_ms bench_clock)) ([], []) (enumerate 0 sample_documents) =
      Inr (update_all [] items, [document_row d (rc_document_ms bench_clock 0) (map (entry_row items) (case_entries d))])"
    using items by (simp add: docs benchmark_document_def)
  then obtain m rows where fold: "foldE (benchmark_document bench_engine bench_score (\<lambda>_. []) (rc_document_ms bench_clock)) ([], [])
      (enumerate 0 (vr_documents bench_registry)) = Inr (m, rows)" by (simp add: bench_registry_def)
  have adapter: "visual_adapter bench_score" unfolding bench_score_def by (rule text_layout_adapter)
  have "distinct (map fst (concat (map case_entries (vr_documents bench_registry))))" using ok by (simp add: registry_ok_def)
  from visual_adapter.scored_registry [OF adapter fold this] have "map fst m = map fst (registry_cases bench_registry)" "scored_unit m"
    by (simp_all add: registry_cases_def)
  from scores_bind [OF ok this] fold show ?thesis
    by (simp add: benchmark_registry_def run_summary_def bench_clock_def bench_registry_def docs Let_def)
qed

theorem benchmark_artifact_reads_back_witness:
  "\<exists>artifact reg ps. evaluate_visual bench_engine (\<lambda>_. None) bench_score JNull bench_clock (\<lambda>_. []) (OneSplit ''development'')
      sample_registry_json JNull = Inr artifact \<and> artifact_predictions artifact ''development'' = Inr ps \<and>
    map pr_case ps = map fst (registry_cases bench_registry) \<and> ps \<noteq> []"
proof -
  obtain result where result: "benchmark_registry bench_engine bench_score JNull bench_clock bench_registry (\<lambda>_. []) = Inr result"
    using bench_run by blast
  let ?artifact = "result @ [(''dataset_sha256'', JStr (vr_sha256 bench_registry)), (''selected_split'', JStr ''development'')]"
  have run: "evaluate_visual bench_engine (\<lambda>_. None) bench_score JNull bench_clock (\<lambda>_. []) (OneSplit ''development'')
      sample_registry_json JNull = Inr ?artifact"
    by (simp add: evaluate_visual_def bench_loads bench_selects as_benchmark_error_def result dataset_digest_def selected_split_def opt_str_def)
  have shipped: "bench_score \<in> shipped_adapters bench_unicode (\<lambda>_ _ _ _ _. []) (\<lambda>_. 0) (\<lambda>_. None) (\<lambda>_ _. None) bench_engine"
    by (simp add: shipped_adapters_def bench_score_def)
  have split: "''development'' \<in> set allowed_splits" by (simp add: allowed_splits_def)
  from benchmark_artifact_reads_back [OF run split shipped] obtain chosen reg ps where
    chosen: "select_documents (OneSplit ''development'') sample_registry_json = Inr chosen"
    and reg: "load_visual_registry_data (en_sha bench_engine) (en_frepr bench_engine) (\<lambda>_. None) False chosen = Inr reg"
    and ps: "artifact_predictions ?artifact ''development'' = Inr ps"
    and cases: "map (\<lambda>p. (pr_case p, pr_group p, pr_split p, pr_label p)) ps =
      map (\<lambda>(i, d, c). (i, vd_group d, ''development'', vc_label c)) (registry_cases reg)" by blast
  have same: "reg = bench_registry" using chosen reg by (simp add: bench_selects bench_loads)
  have "map pr_case ps = map fst (registry_cases bench_registry)"
    using arg_cong [OF cases, of "map fst"] by (simp add: same comp_def split_beta)
  moreover have "registry_cases bench_registry \<noteq> []"
    by (rule registry_cases_nonempty [OF loaded_registry(1,2) [OF bench_loads]])
  ultimately show ?thesis using run ps by (intro exI [of _ ?artifact] exI [of _ reg] exI [of _ ps]) auto
qed

end
