(* ===== verification/VisualReview.thy ===== *)
theory VisualReview
  imports VisualBenchmark Authoring
begin

section \<open>The review of the visual registry\<close>

text \<open>
  \<open>src/dsvire/visual_review.py\<close>: packets that bind annotations to crops, decisions about them, and their application
  to the registry. \<open>e\<close> is the PDF engine with SHA-256, \<open>parse_time\<close> stands for \<open>datetime.fromisoformat\<close> and yields
  the microseconds of a time, in UTC when it has a time zone. A set of ids is a list.
\<close>

datatype review_error = ReviewError string | ReviewEscape string

datatype instant = Naive int | Aware int

definition is_aware :: "(string \<Rightarrow> instant option) \<Rightarrow> string \<Rightarrow> bool option" where
  "is_aware parse_time s = map_option (\<lambda>t. case t of Naive _ \<Rightarrow> False | Aware _ \<Rightarrow> True) (parse_time s)"

definition REVIEW_PACKET_VERSION :: string where "REVIEW_PACKET_VERSION = ''dsvire.visual-review-packet.v2''"
definition REVIEW_DECISION_VERSION :: string where "REVIEW_DECISION_VERSION = ''dsvire.visual-review-decision.v1''"
definition AGENT_REVIEW_DECISION_VERSION :: string where
  "AGENT_REVIEW_DECISION_VERSION = ''dsvire.visual-agent-review-decision.v1''"
definition MAX_GITHUB_REVIEW_BYTES :: nat where "MAX_GITHUB_REVIEW_BYTES = 1000000"

subsection \<open>Checks\<close>

definition rv_text :: "string \<Rightarrow> json \<Rightarrow> review_error + string" where
  "rv_text = nonempty_text ReviewError"

definition rv_keys :: "string list \<Rightarrow> (string \<times> json) list \<Rightarrow> string \<Rightarrow> review_error + unit" where
  "rv_keys required d part = strict_keys ReviewError part required d"

definition rv_digest :: "string \<Rightarrow> json \<Rightarrow> review_error + string" where
  "rv_digest part v = bindE (rv_text part v) (\<lambda>s.
     if is_hex 64 s then Inr s else Inl (ReviewError (part @ '' must be lowercase SHA-256'')))"

definition rv_object :: "string \<Rightarrow> json \<Rightarrow> review_error + (string \<times> json) list" where
  "rv_object message v = (case v of JObj d \<Rightarrow> Inr d | _ \<Rightarrow> Inl (ReviewError message))"

definition rv_array :: "string \<Rightarrow> json \<Rightarrow> review_error + json list" where
  "rv_array message v = (case v of JArr xs \<Rightarrow> Inr xs | _ \<Rightarrow> Inl (ReviewError message))"

definition rv_nonempty :: "string \<Rightarrow> json \<Rightarrow> review_error + json list" where
  "rv_nonempty message v = bindE (rv_array message v) (\<lambda>xs. if xs = [] then Inl (ReviewError message) else Inr xs)"

definition rv_member :: "string \<Rightarrow> string list \<Rightarrow> string \<Rightarrow> review_error + unit" where
  "rv_member s allowed part = ensure (s \<in> set allowed) (ReviewError (part @ '' is unsupported''))"

subsection \<open>The digest of an annotation\<close>

definition case_identity_json :: "case_identity \<Rightarrow> json" where
  "case_identity_json i = JObj [(''manufacturer'', JStr (id_manufacturer i)), (''mpn'', JStr (id_mpn i)), (''package'', JStr (id_package i))]"

definition box_json :: "rat \<times> rat \<times> rat \<times> rat \<Rightarrow> json" where
  "box_json b = (case b of (x0, y0, x1, y1) \<Rightarrow> JArr (map float_json [x0, y0, x1, y1]))"

definition case_json :: "visual_case \<Rightarrow> json" where
  "case_json c = JObj [(''case_id'', JStr (vc_id c)), (''label'', JStr (vc_label c)), (''region_type'', JStr (vc_region c)),
     (''page'', JInt (vc_page c)), (''bbox_norm'', box_json (vc_bbox c)), (''view'', JStr (vc_view c)),
     (''claimed_identity'', case_identity_json (vc_claimed c)), (''rationale'', JStr (vc_rationale c))]"

definition review_json :: "review \<Rightarrow> json" where
  "review_json r = JObj [(''status'', JStr (rev_status r)), (''reviewers'', JArr (map JStr (rev_reviewers r))),
     (''reviewed_at'', opt_str (rev_at r)), (''annotation_revision'', JStr (rev_revision r))]"

definition annotation_json :: "visual_document \<Rightarrow> json" where
  "annotation_json d = JObj [(''document_id'', JStr (vd_id d)), (''document_group'', JStr (vd_group d)), (''split'', JStr (vd_split d)),
     (''category'', JStr (vd_category d)),
     (''source'', JObj [(''url'', JStr (src_url (vd_source d))), (''revision'', JStr (src_revision (vd_source d)))]),
     (''content_sha256'', JStr (vd_sha256 d)), (''redistribution'', JStr (vd_redistribution d)), (''license_note'', JStr (vd_license d)),
     (''identity'', case_identity_json (vd_identity d)), (''review'', review_json (vd_review d)), (''cases'', JArr (map case_json (vd_cases d)))]"

definition annotation_sha256 :: "engine \<Rightarrow> visual_document \<Rightarrow> string" where
  "annotation_sha256 e d = canonical_sha (en_sha e) (en_frepr e) (annotation_json d)"

subsection \<open>The name of a contact sheet\<close>

definition filename_char :: "char \<Rightarrow> bool" where
  "filename_char c \<longleftrightarrow> ascii_alnum c \<or> c = CHR ''.'' \<or> c = CHR ''_'' \<or> c = CHR ''-''"

text \<open>Every maximal run of other characters becomes one dash; the flag says that one has just been written.\<close>

fun filename_slug :: "bool \<Rightarrow> string \<Rightarrow> string" where
  "filename_slug _ [] = []"
| "filename_slug dashed (c # s) =
     (if filename_char c then c # filename_slug False s
      else if dashed then filename_slug True s else CHR ''-'' # filename_slug True s)"

definition review_sheet_filename :: "(bytes \<Rightarrow> string) \<Rightarrow> string \<Rightarrow> string" where
  "review_sheet_filename sha document_id =
     (let stripped = strip_chars ''.-'' (filename_slug False document_id);
          slug = (if stripped = [] then ''document'' else stripped)
      in take 100 slug @ ''-'' @ take 10 (sha (utf8_encode document_id)) @ ''.png'')"

subsection \<open>The review on the code host\<close>

definition repo_char :: "char \<Rightarrow> bool" where
  "repo_char c \<longleftrightarrow> ascii_alnum c \<or> c = CHR ''_'' \<or> c = CHR ''.'' \<or> c = CHR ''-''"

definition positive_number :: rx where
  "positive_number = Both (One (any_of ''123456789'')) (Run ascii_digit 0 None)"

definition review_url_parts :: "rx list" where
  "review_url_parts = [lit ''https://github.com/TokitoAI/'', Run repo_char 1 None, lit ''/pull/'', positive_number,
     lit ''#pullrequestreview-'', positive_number, NotBefore (\<lambda>_. True)]"

definition is_review_url :: "string \<Rightarrow> bool" where
  "is_review_url s \<longleftrightarrow> rx_parts review_url_parts s 0 \<noteq> None"

definition api_url :: "string \<Rightarrow> string option" where
  "api_url s = (case rx_parts review_url_parts s 0 of
     Some [a, b, c, d, f, g, _] \<Rightarrow>
       Some (''https://api.github.com/repos/TokitoAI/'' @ slice s a b @ ''/pulls/'' @ slice s c d @ ''/reviews/'' @ slice s f g)
   | _ \<Rightarrow> None)"

record api_reply =
  ap_url :: string
  ap_content_length :: "string option"
  ap_body :: bytes

text \<open>
  \<open>call\<close> is the request with its headers; no reply is an error of the network. \<open>decode\<close> is the JSON decoder. The
  decoder of a review refuses what is not an object.
\<close>

definition api_headers :: "string option \<Rightarrow> (string \<times> string) list" where
  "api_headers token = [(''Accept'', ''application/vnd.github+json''), (''User-Agent'', ''tokito-dsvire-review/1''),
     (''X-GitHub-Api-Version'', ''2022-11-28'')] @
     (case token of None \<Rightarrow> [] | Some t \<Rightarrow> if t = [] then [] else [(''Authorization'', ''Bearer '' @ t)])"

definition fetch_github_review_provenance :: "(string \<Rightarrow> (string \<times> string) list \<Rightarrow> api_reply option) \<Rightarrow> (bytes \<Rightarrow> json option) \<Rightarrow> string \<Rightarrow>
    string option \<Rightarrow> review_error + (string \<times> json) list" where
  "fetch_github_review_provenance call decode url token =
     (let failed = ReviewError ''failed to fetch GitHub review provenance'';
          oversized = ReviewError ''GitHub review response exceeds size limit'' in
      case api_url url of
        None \<Rightarrow> Inl (ReviewError ''review URL must identify a TokitoAI pull-request review'')
      | Some address \<Rightarrow> (case call address (api_headers token) of
          None \<Rightarrow> Inl failed
        | Some r \<Rightarrow>
            if ap_url r \<noteq> address then Inl (ReviewError ''GitHub review API redirected unexpectedly'')
            else bindE (case ap_content_length r of
                None \<Rightarrow> Inr ()
              | Some s \<Rightarrow> (case parse_int s of None \<Rightarrow> Inl failed
                  | Some n \<Rightarrow> if int MAX_GITHUB_REVIEW_BYTES < n then Inl oversized else Inr ())) (\<lambda>_.
              let payload = take (MAX_GITHUB_REVIEW_BYTES + 1) (ap_body r) in
              if MAX_GITHUB_REVIEW_BYTES < length payload then Inl oversized
              else (case decode payload of
                None \<Rightarrow> Inl (ReviewError ''GitHub review response is not valid JSON'')
              | Some v \<Rightarrow> rv_object ''GitHub review response must be an object'' v))))"

text \<open>\<open>marker in body\<close>: membership in a text, a list or the keys of a dictionary; anything else raises.\<close>

definition py_in :: "string \<Rightarrow> json \<Rightarrow> review_error + bool" where
  "py_in s v = (case v of
     JStr t \<Rightarrow> Inr (contains s t)
   | JArr xs \<Rightarrow> Inr (JStr s \<in> set xs)
   | JObj d \<Rightarrow> Inr (s \<in> set (map fst d))
   | _ \<Rightarrow> Inl (ReviewEscape ''TypeError''))"

definition packet_mark :: "(string \<times> json) list \<Rightarrow> string" where
  "packet_mark decision = ''DSVIRE_REVIEW_PACKET_SHA256='' @ text_of (field decision ''packet_sha256'')"

definition verify_github_review_provenance :: "(pyfloat \<Rightarrow> string) \<Rightarrow> (string \<Rightarrow> instant option) \<Rightarrow> (string \<times> json) list \<Rightarrow> (string \<Rightarrow> json) \<Rightarrow>
    review_error + unit" where
  "verify_github_review_provenance frepr parse_time decision loader =
     (let part = (\<lambda>k. case loader (text_of (field decision ''review_url'')) of JObj d \<Rightarrow> map_of d k | _ \<Rightarrow> None);
          login = (case part ''user'' of Some (JObj user) \<Rightarrow> map_of user ''login'' | _ \<Rightarrow> None) in
      case (login, part ''state'', part ''submitted_at'', part ''body'', part ''html_url'') of
        (Some name, Some state, Some submitted_at, Some body, Some url) \<Rightarrow>
          if name \<noteq> JStr (remove_prefix ''github:'' (text_of (field decision ''reviewer'')))
          then Inl (ReviewError ''GitHub review author does not match decision reviewer'')
          else if state \<noteq> JStr ''APPROVED'' then Inl (ReviewError ''GitHub review is not approved'')
          else if url \<noteq> field decision ''review_url'' then Inl (ReviewError ''GitHub review URL does not match API provenance'')
          else (case (parse_time (zulu (text_of (field decision ''reviewed_at''))), parse_time (zulu (str_of frepr submitted_at))) of
              (Some t, Some t') \<Rightarrow>
                if t \<noteq> t' then Inl (ReviewError ''GitHub review time does not match decision reviewed_at'')
                else bindE (py_in (packet_mark decision) (if truthy body then body else JStr [])) (\<lambda>bound.
                  if bound then Inr () else Inl (ReviewError ''GitHub approval does not bind the review packet digest''))
            | _ \<Rightarrow> Inl (ReviewError ''GitHub review submitted_at is not ISO-8601''))
      | _ \<Rightarrow> Inl (ReviewError ''GitHub review provenance response is incomplete''))"

subsection \<open>The packet\<close>

definition packet_case :: "engine \<Rightarrow> raw_page option list \<Rightarrow> string \<times> visual_document \<times> visual_case \<Rightarrow> review_error + json" where
  "packet_case e document item = (case item of (case_id, _, c) \<Rightarrow>
     (case render_registered_crop e document c of
        Inl _ \<Rightarrow> Inl (ReviewEscape ''AdapterError'')
      | Inr png \<Rightarrow> Inr (JObj [(''case_id'', JStr case_id), (''label'', JStr (vc_label c)), (''region_type'', JStr (vc_region c)),
          (''page'', JInt (vc_page c)), (''bbox_norm'', box_json (vc_bbox c)), (''view'', JStr (vc_view c)),
          (''crop_sha256'', JStr (en_sha e png))])))"

definition packet_annotation :: "engine \<Rightarrow> (visual_document \<Rightarrow> bytes) \<Rightarrow> visual_document \<Rightarrow> review_error + json" where
  "packet_annotation e loader d =
     (if rev_status (vd_review d) \<noteq> ''unreviewed''
      then Inl (ReviewError (vd_id d @ '': only unreviewed annotations may be exported''))
      else if en_sha e (loader d) \<noteq> vd_sha256 d then Inl (ReviewError (vd_id d @ '': source SHA-256 mismatch''))
      else (case open_document (loader d) (en_open e (loader d)) of
        Inl _ \<Rightarrow> Inl (ReviewError (vd_id d @ '': PDF parser rejected input''))
      | Inr document \<Rightarrow>
          bindE (mapE (packet_case e document) (case_entries d)) (\<lambda>cases.
          Inr (JObj [(''id'', JStr (vd_id d)), (''source_sha256'', JStr (vd_sha256 d)),
            (''annotation_revision'', JStr (rev_revision (vd_review d))), (''annotation_sha256'', JStr (annotation_sha256 e d)),
            (''cases'', JArr cases)]))))"

definition review_payload :: "string \<Rightarrow> json list \<Rightarrow> (string \<times> json) list" where
  "review_payload registry_sha256 rows = [(''schema_version'', JStr REVIEW_PACKET_VERSION), (''registry_sha256'', JStr registry_sha256),
     (''documents'', JArr rows)]"

definition build_review_packet :: "engine \<Rightarrow> visual_registry \<Rightarrow> (visual_document \<Rightarrow> bytes) \<Rightarrow> string list option \<Rightarrow>
    review_error + (string \<times> json) list" where
  "build_review_packet e reg loader chosen =
     (let known = map vd_id (vr_documents reg);
          selected = (case chosen of None \<Rightarrow> known | Some ids \<Rightarrow> ids);
          unknown = filter (\<lambda>i. i \<notin> set known) (remdups selected)
      in if selected = [] then Inl (ReviewError ''review packet must select at least one document'')
         else if unknown \<noteq> [] then Inl (ReviewError (''unknown review document IDs: '' @ repr_strs (sort unknown)))
         else bindE (mapE (packet_annotation e loader) (filter (\<lambda>d. vd_id d \<in> set selected) (vr_documents reg))) (\<lambda>rows.
           let payload = review_payload (vr_sha256 reg) rows
           in Inr (payload @ [(''packet_sha256'', JStr (author_sha e payload))])))"

definition packet_case_keys :: "string list" where
  "packet_case_keys = [''case_id'', ''label'', ''region_type'', ''page'', ''bbox_norm'', ''view'', ''crop_sha256'']"

definition packet_annotation_keys :: "string list" where
  "packet_annotation_keys = [''id'', ''source_sha256'', ''annotation_revision'', ''annotation_sha256'', ''cases'']"

definition finite_coordinate :: "string \<Rightarrow> json \<Rightarrow> review_error + rat" where
  "finite_coordinate part v = (case check_number v of
     Overflows \<Rightarrow> Inl (ReviewEscape ''OverflowError'')
   | NotFinite \<Rightarrow> Inl (ReviewError (part @ '' must be finite within 0..=1''))
   | Finite r \<Rightarrow> if 0 \<le> r \<and> r \<le> 1 then Inr r else Inl (ReviewError (part @ '' must be finite within 0..=1'')))"

definition check_box :: "string \<Rightarrow> json \<Rightarrow> review_error + unit" where
  "check_box part v =
     bindE (rv_array (part @ '' must contain four values'') v) (\<lambda>xs.
     if length xs \<noteq> 4 then Inl (ReviewError (part @ '' must contain four values''))
     else bindE (mapE (finite_coordinate part) xs) (\<lambda>cs.
       ensure (cs ! 0 < cs ! 2 \<and> cs ! 1 < cs ! 3) (ReviewError (part @ '' must have positive area''))))"

definition check_packet_case :: "string \<Rightarrow> string \<Rightarrow> string list \<Rightarrow> nat \<times> json \<Rightarrow> review_error + string list" where
  "check_packet_case document_id outer taken item = (case item of (i, v) \<Rightarrow>
     let part = at_index (outer @ ''.cases'') i in
     bindE (rv_object (part @ '' must be an object'') v) (\<lambda>d.
     bindE (rv_keys packet_case_keys d part) (\<lambda>_.
     bindE (rv_text (part @ ''.case_id'') (field d ''case_id'')) (\<lambda>case_id.
     if \<not> starts_with (document_id @ ''/'') case_id then Inl (ReviewError (part @ ''.case_id must belong to its document''))
     else if case_id \<in> set taken then Inl (ReviewError (''duplicate review case ID: '' @ case_id))
     else
     bindE (rv_text (part @ ''.label'') (field d ''label'')) (\<lambda>label.
     bindE (rv_member label allowed_labels (part @ ''.label'')) (\<lambda>_.
     bindE (rv_text (part @ ''.region_type'') (field d ''region_type'')) (\<lambda>region.
     bindE (rv_member region allowed_region_types (part @ ''.region_type'')) (\<lambda>_.
     bindE (ensure (case field d ''page'' of JInt n \<Rightarrow> 1 \<le> n | _ \<Rightarrow> False) (ReviewError (part @ ''.page must be a positive integer''))) (\<lambda>_.
     bindE (check_box (part @ ''.bbox_norm'') (field d ''bbox_norm'')) (\<lambda>_.
     bindE (rv_text (part @ ''.view'') (field d ''view'')) (\<lambda>view.
     bindE (rv_member view allowed_views (part @ ''.view'')) (\<lambda>_.
     bindE (rv_digest (part @ ''.crop_sha256'') (field d ''crop_sha256'')) (\<lambda>_.
     Inr (taken @ [case_id]))))))))))))))"

definition check_packet_annotation :: "string list \<times> string list \<Rightarrow> nat \<times> json \<Rightarrow> review_error + (string list \<times> string list)" where
  "check_packet_annotation state item = (case (state, item) of ((document_ids, case_ids), (i, v)) \<Rightarrow>
     let part = at_index ''review packet.documents'' i in
     bindE (rv_object (part @ '' must be an object'') v) (\<lambda>d.
     bindE (rv_keys packet_annotation_keys d part) (\<lambda>_.
     bindE (rv_text (part @ ''.id'') (field d ''id'')) (\<lambda>document_id.
     if document_id \<in> set document_ids then Inl (ReviewError (''duplicate review document ID: '' @ document_id))
     else
     bindE (rv_digest (part @ ''.source_sha256'') (field d ''source_sha256'')) (\<lambda>_.
     bindE (rv_text (part @ ''.annotation_revision'') (field d ''annotation_revision'')) (\<lambda>_.
     bindE (rv_digest (part @ ''.annotation_sha256'') (field d ''annotation_sha256'')) (\<lambda>_.
     bindE (rv_nonempty (part @ ''.cases must be a non-empty array'') (field d ''cases'')) (\<lambda>cases.
     bindE (foldE (check_packet_case document_id part) case_ids (enumerate 0 cases)) (\<lambda>case_ids'.
     Inr (document_ids @ [document_id], case_ids'))))))))))"

definition load_review_packet_data :: "engine \<Rightarrow> json \<Rightarrow> review_error + (string \<times> json) list" where
  "load_review_packet_data e v =
     bindE (rv_object ''review packet must be an object'' v) (\<lambda>d.
     bindE (rv_keys [''schema_version'', ''registry_sha256'', ''documents'', ''packet_sha256''] d ''review packet'') (\<lambda>_.
     if field d ''schema_version'' \<noteq> JStr REVIEW_PACKET_VERSION then Inl (ReviewError ''unsupported review packet schema'')
     else
     bindE (rv_digest ''review packet.registry_sha256'' (field d ''registry_sha256'')) (\<lambda>_.
     bindE (rv_digest ''review packet.packet_sha256'' (field d ''packet_sha256'')) (\<lambda>digest.
     bindE (rv_nonempty ''review packet.documents must be a non-empty array'' (field d ''documents'')) (\<lambda>documents.
     bindE (foldE check_packet_annotation ([], []) (enumerate 0 documents)) (\<lambda>_.
     if author_sha e [(''schema_version'', field d ''schema_version''), (''registry_sha256'', field d ''registry_sha256''),
         (''documents'', field d ''documents'')] \<noteq> digest
     then Inl (ReviewError ''review packet digest mismatch'') else Inr d))))))"

subsection \<open>The decision\<close>

definition agent_char :: "char \<Rightarrow> bool" where
  "agent_char c \<longleftrightarrow> ascii_alnum c \<or> c = CHR ''_'' \<or> c = CHR ''.'' \<or> c = CHR ''-''"

definition agent_identity :: rx where
  "agent_identity = sequence [lit ''agent:'', One ascii_alnum, Run agent_char 0 (Some 63)]"

definition expected_cases :: "(string \<times> json) list \<Rightarrow> string list" where
  "expected_cases packet = (case field packet ''documents'' of
     JArr documents \<Rightarrow> concat (map (\<lambda>v. case of_object ''cases'' v of
       JArr cases \<Rightarrow> map (\<lambda>c. text_of (of_object ''case_id'' c)) cases | _ \<Rightarrow> []) documents)
   | _ \<Rightarrow> [])"

definition check_instant :: "(string \<Rightarrow> instant option) \<Rightarrow> string \<Rightarrow> json \<Rightarrow> review_error + unit" where
  "check_instant parse_time part v = bindE (rv_text part v) (\<lambda>s. case parse_time (zulu s) of
     None \<Rightarrow> Inl (ReviewError (part @ '' must be ISO-8601''))
   | Some (Naive _) \<Rightarrow> Inl (ReviewError (part @ '' must include a timezone''))
   | Some (Aware _) \<Rightarrow> Inr ())"

definition outcomes :: "string list" where
  "outcomes = [''accepted'', ''rejected'']"

text \<open>The outcome as each kind of decision reads it: a person's is stripped, an agent's is looked up as it is.\<close>

definition human_outcome :: "string \<Rightarrow> json \<Rightarrow> review_error + string" where
  "human_outcome part v = bindE (rv_text (part @ ''.outcome'') v) (\<lambda>s.
     if s \<in> set outcomes then Inr s else Inl (ReviewError (part @ ''.outcome must be accepted or rejected'')))"

definition agent_outcome :: "string \<Rightarrow> json \<Rightarrow> review_error + string" where
  "agent_outcome part v = (case v of
     JStr s \<Rightarrow> if s \<in> set outcomes then Inr s else Inl (ReviewError (part @ ''.outcome must be accepted or rejected''))
   | JArr _ \<Rightarrow> Inl (ReviewEscape ''TypeError'')
   | JObj _ \<Rightarrow> Inl (ReviewEscape ''TypeError'')
   | _ \<Rightarrow> Inl (ReviewError (part @ ''.outcome must be accepted or rejected'')))"

definition check_decision :: "(string \<Rightarrow> json \<Rightarrow> review_error + string) \<Rightarrow> string \<Rightarrow> string \<Rightarrow> string list \<Rightarrow> nat \<times> json \<Rightarrow>
    review_error + string list" where
  "check_decision outcome_of outer duplicate observed item = (case item of (i, v) \<Rightarrow>
     let part = at_index (outer @ ''.decisions'') i in
     bindE (rv_object (part @ '' must be an object'') v) (\<lambda>d.
     bindE (rv_keys [''case_id'', ''outcome'', ''note''] d part) (\<lambda>_.
     bindE (rv_text (part @ ''.case_id'') (field d ''case_id'')) (\<lambda>case_id.
     if case_id \<in> set observed then Inl (ReviewError (duplicate @ case_id))
     else
     bindE (outcome_of part (field d ''outcome'')) (\<lambda>outcome.
     case field d ''note'' of
       JStr note \<Rightarrow> if outcome = ''rejected'' \<and> strip note = [] then Inl (ReviewError (part @ ''.note is required for rejection''))
         else Inr (observed @ [case_id])
     | _ \<Rightarrow> Inl (ReviewError (part @ ''.note must be text'')))))))"

definition check_decisions :: "(string \<Rightarrow> json \<Rightarrow> review_error + string) \<Rightarrow> string \<Rightarrow> string \<Rightarrow> string \<Rightarrow> string list \<Rightarrow> json \<Rightarrow> review_error + unit" where
  "check_decisions outcome_of outer duplicate incomplete expected v =
     bindE (rv_array (outer @ ''.decisions must be an array'') v) (\<lambda>items.
     bindE (foldE (check_decision outcome_of outer duplicate) [] (enumerate 0 items)) (\<lambda>observed.
     ensure (set observed = set expected) (ReviewError (incomplete @ '' incomplete: missing='' @
       repr_strs (sort (filter (\<lambda>c. c \<notin> set observed) (remdups expected))) @ '', unknown='' @
       repr_strs (sort (filter (\<lambda>c. c \<notin> set expected) observed))))))"

definition decision_keys :: "string list" where
  "decision_keys = [''schema_version'', ''packet_sha256'', ''registry_sha256'', ''reviewer'', ''reviewed_at'', ''review_url'', ''decisions'']"

definition load_review_decision_data :: "engine \<Rightarrow> (string \<Rightarrow> instant option) \<Rightarrow> json \<Rightarrow> json \<Rightarrow> review_error + (string \<times> json) list" where
  "load_review_decision_data e parse_time v packet =
     bindE (load_review_packet_data e packet) (\<lambda>p.
     bindE (rv_object ''review decision must be an object'' v) (\<lambda>d.
     bindE (rv_keys decision_keys d ''review decision'') (\<lambda>_.
     if field d ''schema_version'' \<noteq> JStr REVIEW_DECISION_VERSION then Inl (ReviewError ''unsupported review decision schema'')
     else if field d ''packet_sha256'' \<noteq> field p ''packet_sha256'' then Inl (ReviewError ''review decision packet digest mismatch'')
     else if field d ''registry_sha256'' \<noteq> field p ''registry_sha256'' then Inl (ReviewError ''review decision registry digest mismatch'')
     else
     bindE (rv_text ''review decision.reviewer'' (field d ''reviewer'')) (\<lambda>reviewer.
     if \<not> rx_fullmatch human_identity reviewer then Inl (ReviewError ''review decision.reviewer must be github:<username>'')
     else
     bindE (check_instant parse_time ''review decision.reviewed_at'' (field d ''reviewed_at'')) (\<lambda>_.
     bindE (rv_text ''review decision.review_url'' (field d ''review_url'')) (\<lambda>url.
     if \<not> is_review_url url
     then Inl (ReviewError ''review decision.review_url must identify a TokitoAI pull-request review'')
     else
     bindE (check_decisions human_outcome ''review decision'' ''duplicate review decision: '' ''review decisions'' (expected_cases p)
       (field d ''decisions'')) (\<lambda>_.
     Inr d)))))))"

definition agent_decision_keys :: "string list" where
  "agent_decision_keys = [''schema_version'', ''packet_sha256'', ''registry_sha256'', ''reviewer'', ''reviewed_at'', ''authorization_note'',
     ''verification_summary'', ''decisions'']"

definition check_audit :: "nat \<Rightarrow> nat \<Rightarrow> json \<Rightarrow> review_error + unit" where
  "check_audit documents cases v =
     bindE (rv_object ''agent review decision.verification_summary must be an object'' v) (\<lambda>s.
     bindE (rv_keys [''documents'', ''cases'', ''exact_source_hashes'', ''excluded_findings''] s ''agent review decision.verification_summary'') (\<lambda>_.
     if \<not> py_eq (field s ''documents'') (JInt (int documents)) \<or> \<not> py_eq (field s ''cases'') (JInt (int cases))
     then Inl (ReviewError ''agent review decision verification counts do not match packet'')
     else if \<not> py_eq (field s ''exact_source_hashes'') (JInt (int documents))
     then Inl (ReviewError ''agent review decision must bind every exact source hash'')
     else (case field s ''excluded_findings'' of
       JArr xs \<Rightarrow> ensure (list_all (\<lambda>x. case x of JStr t \<Rightarrow> strip t \<noteq> [] | _ \<Rightarrow> False) xs)
         (ReviewError ''agent review decision.excluded_findings must be text entries'')
     | _ \<Rightarrow> Inl (ReviewError ''agent review decision.excluded_findings must be text entries''))))"

definition documents_in :: "(string \<times> json) list \<Rightarrow> json list" where
  "documents_in packet = (case field packet ''documents'' of JArr documents \<Rightarrow> documents | _ \<Rightarrow> [])"

definition load_agent_review_decision_data :: "engine \<Rightarrow> (string \<Rightarrow> instant option) \<Rightarrow> json \<Rightarrow> json \<Rightarrow> review_error + (string \<times> json) list" where
  "load_agent_review_decision_data e parse_time v packet =
     bindE (load_review_packet_data e packet) (\<lambda>p.
     bindE (rv_object ''agent review decision must be an object'' v) (\<lambda>d.
     bindE (rv_keys agent_decision_keys d ''agent review decision'') (\<lambda>_.
     if field d ''schema_version'' \<noteq> JStr AGENT_REVIEW_DECISION_VERSION then Inl (ReviewError ''unsupported agent review decision schema'')
     else if field d ''packet_sha256'' \<noteq> field p ''packet_sha256'' then Inl (ReviewError ''agent review decision packet digest mismatch'')
     else if field d ''registry_sha256'' \<noteq> field p ''registry_sha256'' then Inl (ReviewError ''agent review decision registry digest mismatch'')
     else
     bindE (rv_text ''agent review decision.reviewer'' (field d ''reviewer'')) (\<lambda>reviewer.
     if \<not> rx_fullmatch agent_identity reviewer then Inl (ReviewError ''agent review decision.reviewer must be agent:<id>'')
     else
     bindE (check_instant parse_time ''agent review decision.reviewed_at'' (field d ''reviewed_at'')) (\<lambda>_.
     bindE (rv_text ''agent review decision.authorization_note'' (field d ''authorization_note'')) (\<lambda>_.
     bindE (check_audit (length (documents_in p)) (card (set (expected_cases p))) (field d ''verification_summary'')) (\<lambda>_.
     bindE (check_decisions agent_outcome ''agent review decision'' ''duplicate agent review decision: '' ''agent review decisions'' (expected_cases p)
       (field d ''decisions'')) (\<lambda>_.
     Inr d))))))))"

subsection \<open>Applying a decision\<close>

definition decision_items :: "(string \<times> json) list \<Rightarrow> json list" where
  "decision_items decision = (case field decision ''decisions'' of JArr items \<Rightarrow> items | _ \<Rightarrow> [])"

definition rejected_cases :: "(string \<times> json) list \<Rightarrow> string list" where
  "rejected_cases decision = map (\<lambda>v. text_of (of_object ''case_id'' v))
     (filter (\<lambda>v. of_object ''outcome'' v = JStr ''rejected'') (decision_items decision))"

definition packet_rows :: "(string \<times> json) list \<Rightarrow> (string \<times> json) list" where
  "packet_rows packet = dict_of (map (\<lambda>v. (text_of (of_object ''id'' v), v)) (documents_in packet))"

definition check_drift :: "engine \<Rightarrow> visual_document list \<Rightarrow> unit \<Rightarrow> string \<times> json \<Rightarrow> review_error + unit" where
  "check_drift e current _ item = (case item of (i, row) \<Rightarrow>
     (case map_of (map (\<lambda>d. (vd_id d, d)) current) i of
        None \<Rightarrow> Inl (ReviewEscape ''KeyError'')
      | Some d \<Rightarrow> if JStr (annotation_sha256 e d) \<noteq> of_object ''annotation_sha256'' row
          then Inl (ReviewError (i @ '': annotation drifted after review'')) else Inr ()))"

definition raw_case_ids :: "string \<Rightarrow> (string \<times> json) list \<Rightarrow> string set" where
  "raw_case_ids i document = (case field document ''cases'' of
     JArr cases \<Rightarrow> set (map (\<lambda>c. qualified_id i (text_of (of_object ''id'' c))) cases) | _ \<Rightarrow> {})"

definition row_case_ids :: "json \<Rightarrow> string set" where
  "row_case_ids row = (case of_object ''cases'' row of
     JArr cases \<Rightarrow> set (map (\<lambda>c. text_of (of_object ''case_id'' c)) cases) | _ \<Rightarrow> {})"

definition reviewed_entry :: "(string \<times> json) list \<Rightarrow> json \<Rightarrow> json" where
  "reviewed_entry decision revision = JObj [(''status'', JStr ''reviewed''), (''reviewers'', JArr [field decision ''reviewer'']),
     (''reviewed_at'', field decision ''reviewed_at''), (''annotation_revision'', revision)]"

text \<open>One document of the registry: unchanged when the packet does not have its id, otherwise checked and marked reviewed.\<close>

definition mark_reviewed :: "(string \<times> json) list \<Rightarrow> (string \<times> json) list \<Rightarrow> json \<Rightarrow> review_error + json" where
  "mark_reviewed rows decision v = (case v of
     JObj d \<Rightarrow>
       (let i = text_of (field d ''id''); r = field d ''review'' in
        case map_of rows i of
          None \<Rightarrow> Inr v
        | Some row \<Rightarrow>
            if of_object ''status'' r \<noteq> JStr ''unreviewed'' then Inl (ReviewError (i @ '': annotation is already reviewed''))
            else if field d ''content_sha256'' \<noteq> of_object ''source_sha256'' row
            then Inl (ReviewError (i @ '': source hash drifted after review''))
            else if of_object ''annotation_revision'' r \<noteq> of_object ''annotation_revision'' row
            then Inl (ReviewError (i @ '': annotation revision drifted after review''))
            else if raw_case_ids i d \<noteq> row_case_ids row then Inl (ReviewError (i @ '': case set drifted after review''))
            else Inr (JObj (AList.update ''review'' (reviewed_entry decision (of_object ''annotation_revision'' r)) d)))
   | _ \<Rightarrow> Inl (ReviewEscape ''TypeError''))"

definition load_registry :: "engine \<Rightarrow> (string \<Rightarrow> instant option) \<Rightarrow> bool \<Rightarrow> json \<Rightarrow> review_error + visual_registry" where
  "load_registry e parse_time draft v = (case load_visual_registry_data (en_sha e) (en_frepr e) (is_aware parse_time) draft v of
     Inr reg \<Rightarrow> Inr reg
   | Inl (RegistryError _) \<Rightarrow> Inl (ReviewEscape ''VisualRegistryError'')
   | Inl (RegistryEscape m) \<Rightarrow> Inl (ReviewEscape m))"

definition apply_validated_decision :: "engine \<Rightarrow> (string \<Rightarrow> instant option) \<Rightarrow> json \<Rightarrow> (string \<times> json) list \<Rightarrow> (string \<times> json) list \<Rightarrow>
    review_error + (string \<times> json) list" where
  "apply_validated_decision e parse_time registry_value packet decision =
     bindE (load_registry e parse_time True registry_value) (\<lambda>reg.
     if rejected_cases decision \<noteq> []
     then Inl (ReviewError (''cannot apply a review containing rejections: '' @ repr_strs (rejected_cases decision)))
     else
     let rows = packet_rows packet;
         missing = filter (\<lambda>i. i \<notin> set (map vd_id (vr_documents reg))) (map fst rows) in
     if missing \<noteq> [] then Inl (ReviewError (''reviewed documents are missing from current registry: '' @ repr_strs (sort missing)))
     else
     bindE (foldE (check_drift e (vr_documents reg)) () rows) (\<lambda>_.
     bindE (rv_object ''registry'' registry_value) (\<lambda>top.
     bindE (mapE (mark_reviewed rows decision) (documents_in top)) (\<lambda>documents.
     let out = AList.update ''documents'' (JArr documents) top in
     bindE (load_registry e parse_time False (JObj out)) (\<lambda>_.
     Inr out)))))"

definition apply_review_decision :: "engine \<Rightarrow> (string \<Rightarrow> instant option) \<Rightarrow> (string \<Rightarrow> json) \<Rightarrow> json \<Rightarrow> json \<Rightarrow> json \<Rightarrow>
    review_error + (string \<times> json) list" where
  "apply_review_decision e parse_time loader registry_value packet_value decision_value =
     bindE (load_review_packet_data e packet_value) (\<lambda>packet.
     bindE (load_review_decision_data e parse_time decision_value (JObj packet)) (\<lambda>decision.
     bindE (verify_github_review_provenance (en_frepr e) parse_time decision loader) (\<lambda>_.
     apply_validated_decision e parse_time registry_value packet decision)))"

definition apply_agent_review_decision :: "engine \<Rightarrow> (string \<Rightarrow> instant option) \<Rightarrow> json \<Rightarrow> json \<Rightarrow> json \<Rightarrow>
    review_error + (string \<times> json) list" where
  "apply_agent_review_decision e parse_time registry_value packet_value decision_value =
     bindE (load_review_packet_data e packet_value) (\<lambda>packet.
     bindE (load_agent_review_decision_data e parse_time decision_value (JObj packet)) (\<lambda>decision.
     apply_validated_decision e parse_time registry_value packet decision))"

subsection \<open>A built packet loads\<close>

lemma rv_text_plain: "plain_text s \<Longrightarrow> rv_text part (JStr s) = Inr s"
  by (simp add: rv_text_def nonempty_text_def plain_text_def)

lemma rv_digest_hex: "is_hex 64 s \<Longrightarrow> rv_digest part (JStr s) = Inr s"
  using hex_strip [of 64 s] by (simp add: rv_digest_def rv_text_plain plain_text_def)

lemma listed_plain:
  "s \<in> set allowed_labels \<Longrightarrow> plain_text s" "s \<in> set allowed_region_types \<Longrightarrow> plain_text s" "s \<in> set allowed_views \<Longrightarrow> plain_text s"
  by (auto simp: allowed_labels_def positive_def wrong_visual_labels_def wrong_identity_labels_def allowed_region_types_def allowed_views_def
      plain_text_iff py_space_def code_point_def)

lemma box_accepted:
  assumes "case b of (x0, y0, x1, y1) \<Rightarrow> 0 \<le> x0 \<and> x0 < x1 \<and> x1 \<le> (1::rat) \<and> 0 \<le> y0 \<and> y0 < y1 \<and> y1 \<le> 1"
  shows "check_box part (box_json b) = Inr ()"
proof -
  obtain x0 y0 x1 y1 where b: "b = (x0, y0, x1, y1)" by (cases b)
  have coord: "finite_coordinate part (float_json r) = Inr r" if "0 \<le> r" "r \<le> 1" for r
    using that by (simp add: finite_coordinate_def float_json_def check_number_def)
  show ?thesis using assms by (simp add: b check_box_def box_json_def rv_array_def coord ensure_def)
qed

lemma qualified_starts: "starts_with (i @ ''/'') (qualified_id i c)"
  by (simp add: qualified_id_def starts_with_iff)

text \<open>What the exporter writes of a document, and what the loader makes of it.\<close>

definition exported_case :: "engine \<Rightarrow> string \<times> visual_document \<times> visual_case \<Rightarrow> json \<Rightarrow> bool" where
  "exported_case e item v \<longleftrightarrow> (case item of (i, d, c) \<Rightarrow> \<exists>png. v = JObj [(''case_id'', JStr i), (''label'', JStr (vc_label c)),
     (''region_type'', JStr (vc_region c)), (''page'', JInt (vc_page c)), (''bbox_norm'', box_json (vc_bbox c)), (''view'', JStr (vc_view c)),
     (''crop_sha256'', JStr (en_sha e png))])"

lemma packet_case_exported: "packet_case e document item = Inr v \<Longrightarrow> exported_case e item v"
  by (auto simp: packet_case_def exported_case_def split: prod.splits sum.splits)

lemma exported_case_loads:
  assumes "hex_digests e" and "case_ok ident c" and "plain_text document_id" and "exported_case e (qualified_id document_id (vc_id c), d, c) v"
    and "qualified_id document_id (vc_id c) \<notin> set taken"
  shows "check_packet_case document_id outer taken (i, v) = Inr (taken @ [qualified_id document_id (vc_id c)])"
proof -
  obtain png where v: "v = JObj [(''case_id'', JStr (qualified_id document_id (vc_id c))), (''label'', JStr (vc_label c)),
     (''region_type'', JStr (vc_region c)), (''page'', JInt (vc_page c)), (''bbox_norm'', box_json (vc_bbox c)), (''view'', JStr (vc_view c)),
     (''crop_sha256'', JStr (en_sha e png))]" using assms(4) by (auto simp: exported_case_def)
  have members: "vc_label c \<in> set allowed_labels" "vc_region c \<in> set allowed_region_types" "vc_view c \<in> set allowed_views" "1 \<le> vc_page c"
    and own: "plain_text (vc_id c)"
    using assms(2) by (simp_all add: case_ok_def)
  note texts = plain_qualified_text [OF assms(3) own] listed_plain(1) [OF members(1)] listed_plain(2) [OF members(2)] listed_plain(3) [OF members(3)]
  have box: "check_box part (box_json (vc_bbox c)) = Inr ()" for part
    by (rule box_accepted) (use assms(2) in \<open>simp add: case_ok_def\<close>)
  have hex: "is_hex 64 (en_sha e png)" using assms(1) by (simp add: hex_digests_def)
  show ?thesis
    by (simp add: check_packet_case_def v rv_object_def rv_keys_def strict_keys_def fields_are_def packet_case_keys_def field_def
        rv_text_plain texts rv_member_def members rv_digest_hex hex box assms(5) ensure_def qualified_starts Let_def del: One_nat_def)
qed

lemma exported_cases_load:
  assumes "hex_digests e" and "\<forall>c \<in> set cs. case_ok ident c" and "plain_text document_id"
    and "list_all2 (exported_case e) (map (\<lambda>c. (qualified_id document_id (vc_id c), d, c)) cs) vs"
    and "distinct (taken @ map (\<lambda>c. qualified_id document_id (vc_id c)) cs)"
  shows "foldE (check_packet_case document_id outer) taken (enumerate k vs) =
    Inr (taken @ map (\<lambda>c. qualified_id document_id (vc_id c)) cs)"
  using assms(2,4,5)
proof (induction cs arbitrary: vs taken k)
  case (Cons c cs)
  then obtain v vs' where vs: "vs = v # vs'" and v: "exported_case e (qualified_id document_id (vc_id c), d, c) v"
    and rest: "list_all2 (exported_case e) (map (\<lambda>c. (qualified_id document_id (vc_id c), d, c)) cs) vs'"
    by (auto simp: list_all2_Cons1)
  have "check_packet_case document_id outer taken (k, v) = Inr (taken @ [qualified_id document_id (vc_id c)])"
    by (rule exported_case_loads [OF assms(1) _ assms(3) v]) (use Cons.prems in auto)
  then show ?case using Cons.IH [OF _ rest, of "taken @ [qualified_id document_id (vc_id c)]" "Suc k"] Cons.prems by (simp add: vs)
qed simp

definition exported_annotation :: "engine \<Rightarrow> visual_document \<Rightarrow> json \<Rightarrow> bool" where
  "exported_annotation e d v \<longleftrightarrow> rev_status (vd_review d) = ''unreviewed'' \<and> (\<exists>cases. list_all2 (exported_case e) (case_entries d) cases \<and>
     v = JObj [(''id'', JStr (vd_id d)), (''source_sha256'', JStr (vd_sha256 d)),
       (''annotation_revision'', JStr (rev_revision (vd_review d))), (''annotation_sha256'', JStr (annotation_sha256 e d)),
       (''cases'', JArr cases)])"

lemma packet_annotation_exported: "packet_annotation e loader d = Inr v \<Longrightarrow> exported_annotation e d v"
proof -
  assume "packet_annotation e loader d = Inr v"
  then obtain document cases where status: "rev_status (vd_review d) = ''unreviewed''"
    and cases: "mapE (packet_case e document) (case_entries d) = Inr cases"
    and v: "v = JObj [(''id'', JStr (vd_id d)), (''source_sha256'', JStr (vd_sha256 d)),
       (''annotation_revision'', JStr (rev_revision (vd_review d))), (''annotation_sha256'', JStr (annotation_sha256 e d)),
       (''cases'', JArr cases)]"
    by (auto simp: packet_annotation_def bindE_eq_Inr split: if_splits sum.splits)
  have "list_all2 (exported_case e) (case_entries d) cases"
    using cases unfolding mapE_eq_Inr by (rule list_all2_mono) (rule packet_case_exported)
  then show ?thesis using status v by (auto simp: exported_annotation_def)
qed

lemma exported_annotation_loads:
  assumes hex: "hex_digests e" and ok: "document_ok draft d" and revision: "plain_text (rev_revision (vd_review d))"
    and v: "exported_annotation e d v" and fresh: "vd_id d \<notin> set ids" "distinct (taken @ map fst (case_entries d))"
  shows "check_packet_annotation (ids, taken) (i, v) = Inr (ids @ [vd_id d], taken @ map fst (case_entries d))"
proof -
  from v obtain cases where cases: "list_all2 (exported_case e) (case_entries d) cases"
    and v': "v = JObj [(''id'', JStr (vd_id d)), (''source_sha256'', JStr (vd_sha256 d)),
       (''annotation_revision'', JStr (rev_revision (vd_review d))), (''annotation_sha256'', JStr (annotation_sha256 e d)),
       (''cases'', JArr cases)]" by (auto simp: exported_annotation_def)
  have names: "map fst (case_entries d) = map (\<lambda>c. qualified_id (vd_id d) (vc_id c)) (vd_cases d)" by (simp add: case_entries_def)
  have "case_entries d \<noteq> []" using ok by (auto simp: document_ok_def case_entries_def)
  then have some: "cases \<noteq> []" using cases by auto
  have id_ok: "plain_text (vd_id d)" "is_hex 64 (vd_sha256 d)" using ok by (simp_all add: document_ok_def)
  have digest: "is_hex 64 (annotation_sha256 e d)" using hex by (simp add: hex_digests_def annotation_sha256_def canonical_sha_def)
  have each: "\<forall>c \<in> set (vd_cases d). case_ok (vd_identity d) c" using ok by (simp add: document_ok_def)
  have loop: "foldE (check_packet_case (vd_id d) outer) taken (enumerate 0 cases) = Inr (taken @ map fst (case_entries d))" for outer
    using exported_cases_load [OF hex each id_ok(1) cases [unfolded case_entries_def] fresh(2) [unfolded names]] unfolding names .
  show ?thesis
    by (simp add: check_packet_annotation_def v' rv_object_def rv_keys_def strict_keys_def fields_are_def packet_annotation_keys_def field_def
        rv_text_plain id_ok rv_digest_hex digest revision fresh(1) rv_nonempty_def rv_array_def some loop ensure_def Let_def)
qed

lemma exported_annotations_load:
  assumes "hex_digests e" and "\<forall>d \<in> set ds. document_ok draft d \<and> plain_text (rev_revision (vd_review d))"
    and "list_all2 (exported_annotation e) ds vs" and "distinct (ids @ map vd_id ds)"
    and "distinct (taken @ map fst (concat (map case_entries ds)))"
  shows "\<exists>s. foldE check_packet_annotation (ids, taken) (enumerate k vs) = Inr s"
  using assms(2-5)
proof (induction ds arbitrary: vs ids taken k)
  case (Cons d ds)
  then obtain v vs' where vs: "vs = v # vs'" and v: "exported_annotation e d v" and rest: "list_all2 (exported_annotation e) ds vs'"
    by (auto simp: list_all2_Cons1)
  have "check_packet_annotation (ids, taken) (k, v) = Inr (ids @ [vd_id d], taken @ map fst (case_entries d))"
    by (rule exported_annotation_loads [OF assms(1) _ _ v]) (use Cons.prems in auto)
  then show ?case
    using Cons.IH [OF _ rest, of "ids @ [vd_id d]" "taken @ map fst (case_entries d)" "Suc k"] Cons.prems by (simp add: vs)
qed simp

lemma loaded_revisions:
  assumes "load_visual_registry_data sha frepr aware draft v = Inr reg" and "d \<in> set (vr_documents reg)"
  shows "plain_text (rev_revision (vd_review d))"
proof -
  from loaded_from [OF assms(1)] obtain docs where "list_all2 (document_from aware) (enumerate 0 docs) (vr_documents reg)" by blast
  then obtain item where "document_from aware item d" using assms(2) by (induction rule: list_all2_induct) auto
  then obtain w ctx where "parse_review aware w ctx = Inr (vd_review d)" by (auto simp: document_from_def split: prod.splits)
  from parse_review_parts [OF this] show ?thesis by (auto dest: registry_text_ok)
qed

lemma load_registry_iff: "load_registry e parse_time draft v = Inr reg \<longleftrightarrow>
    load_visual_registry_data (en_sha e) (en_frepr e) (is_aware parse_time) draft v = Inr reg"
  by (auto simp: load_registry_def split: sum.splits registry_error.splits)

text \<open>
  C37. A packet that is exported from a loaded registry is accepted by its loader: whatever documents are chosen, its identifiers are distinct, its
  rows have every required member in its form, and its digest is right.
\<close>

theorem exported_packet_loads:
  assumes "load_registry e parse_time draft v = Inr reg" and "build_review_packet e reg loader chosen = Inr packet" and "hex_digests e"
  shows "load_review_packet_data e (JObj packet) = Inr packet"
proof -
  note loaded = loaded_registry [OF assms(1) [unfolded load_registry_iff]]
  let ?selected = "case chosen of None \<Rightarrow> map vd_id (vr_documents reg) | Some ids \<Rightarrow> ids"
  let ?ds = "filter (\<lambda>d. vd_id d \<in> set ?selected) (vr_documents reg)"
  from assms(2) obtain rows where rows: "mapE (packet_annotation e loader) ?ds = Inr rows"
    and some: "?selected \<noteq> []" and known: "filter (\<lambda>i. i \<notin> set (map vd_id (vr_documents reg))) (remdups ?selected) = []"
    and packet: "packet = review_payload (vr_sha256 reg) rows @ [(''packet_sha256'', JStr (author_sha e (review_payload (vr_sha256 reg) rows)))]"
    by (auto simp: build_review_packet_def Let_def bindE_eq_Inr split: if_splits)
  have exported: "list_all2 (exported_annotation e) ?ds rows"
    using rows unfolding mapE_eq_Inr by (rule list_all2_mono) (rule packet_annotation_exported)
  have "?ds \<noteq> []"
  proof -
    from some obtain i where i: "i \<in> set ?selected" by (cases ?selected) auto
    then have "i \<in> set (map vd_id (vr_documents reg))" using known unfolding filter_empty_conv by auto
    then show ?thesis using i by (auto simp: filter_empty_conv)
  qed
  then have nonempty: "rows \<noteq> []" using exported by auto
  have parts: "distinct (map fst (concat (map case_entries ?ds)))" "distinct (map vd_id ?ds)" "\<forall>d \<in> set ?ds. document_ok draft d"
    using loaded(1) distinct_entries_filter by (simp_all add: registry_ok_def distinct_map_filter)
  have "\<forall>d \<in> set ?ds. document_ok draft d \<and> plain_text (rev_revision (vd_review d))"
    using parts(3) loaded_revisions [OF assms(1) [unfolded load_registry_iff]] by simp
  from exported_annotations_load [OF assms(3) this exported, of "[]" "[]" 0] parts obtain s where
    loop: "foldE check_packet_annotation ([], []) (enumerate 0 rows) = Inr s" by auto
  have hex: "is_hex 64 (vr_sha256 reg)" "is_hex 64 (author_sha e d)" for d
    using assms(3) loaded(3) by (simp_all add: hex_digests_def canonical_sha_def author_sha_def)
  show ?thesis
    by (simp add: packet review_payload_def load_review_packet_data_def rv_object_def rv_keys_def strict_keys_def fields_are_def field_def
        rv_digest_hex hex rv_nonempty_def rv_array_def nonempty loop ensure_def)
qed

subsection \<open>An applied decision\<close>

lemma field_update: "field (AList.update k v d) j = (if j = k then v else field d j)"
  by (simp add: field_def update_conv)

lemma document_from_update:
  assumes "document_from aware (i, JObj raw) d" and "document_from aware (i, JObj (AList.update ''review'' r raw)) d'"
  shows "d' = d\<lparr>vd_review := vd_review d'\<rparr> \<and> parse_review aware r (document_context i @ ''.review'') = Inr (vd_review d')"
  using assms by (cases d; cases d') (auto simp: document_from_def field_update cases_from_def)

lemma document_from_same: "document_from aware x d \<Longrightarrow> document_from aware x d' \<Longrightarrow> d' = d"
  by (cases d; cases d'; cases x) (auto simp: document_from_def cases_from_def)

text \<open>The annotation after the decision: only the review entry is another one.\<close>

definition marked_by :: "(string \<times> json) list \<Rightarrow> visual_document \<Rightarrow> visual_document" where
  "marked_by decision v = v\<lparr>vd_review := \<lparr>rev_status = ''reviewed'', rev_reviewers = [strip (text_of (field decision ''reviewer''))],
     rev_at = Some (strip (text_of (field decision ''reviewed_at''))), rev_revision = rev_revision (vd_review v)\<rparr>\<rparr>"

lemma registry_text_strip: "registry_text part v = Inr s \<Longrightarrow> s = strip (text_of v)"
  by (auto simp: registry_text_def text_of_def dest!: nonempty_text_ok)

lemma reviewed_at_time:
  assumes "reviewed_at aware v part = Inr out" and "v \<noteq> JNull"
  obtains t where "registry_text (part @ ''.reviewed_at'') v = Inr t" "out = Some t"
proof -
  from assms have "bindE (registry_text (part @ ''.reviewed_at'') v) (\<lambda>time. case aware (zulu time) of
      None \<Rightarrow> Inl (RegistryError (part @ ''.reviewed_at must be ISO-8601''))
    | Some tz \<Rightarrow> if tz then Inr (Some time) else Inl (RegistryError (part @ ''.reviewed_at must include a timezone''))) = Inr out"
    by (simp only: reviewed_at_def if_False)
  then obtain t where t: "registry_text (part @ ''.reviewed_at'') v = Inr t" and "(case aware (zulu t) of
      None \<Rightarrow> Inl (RegistryError (part @ ''.reviewed_at must be ISO-8601''))
    | Some tz \<Rightarrow> if tz then Inr (Some t) else Inl (RegistryError (part @ ''.reviewed_at must include a timezone''))) = Inr out"
    unfolding bindE_eq_Inr by blast
  then have "out = Some t" by (cases "aware (zulu t)") (simp_all split: if_splits)
  with t show thesis by (rule that)
qed

lemma reviewed_entry_parses:
  assumes "parse_review aware (reviewed_entry decision revision) part = Inr r" and "field decision ''reviewed_at'' \<noteq> JNull"
  shows "r = \<lparr>rev_status = ''reviewed'', rev_reviewers = [strip (text_of (field decision ''reviewer''))],
    rev_at = Some (strip (text_of (field decision ''reviewed_at''))), rev_revision = strip (text_of revision)\<rparr>"
proof -
  have status: "strip ''reviewed'' = ''reviewed''" by code_simp
  from parse_review_parts [OF assms(1)] obtain d raw where d: "reviewed_entry decision revision = JObj d"
    and parts: "registry_text (part @ ''.status'') (field d ''status'') = Inr (rev_status r)"
    "array_items (field d ''reviewers'') = Some raw"
    "mapE (\<lambda>(i, x). registry_text (at_index (part @ ''.reviewers'') i) x) (enumerate 0 raw) = Inr (rev_reviewers r)"
    "reviewed_at aware (field d ''reviewed_at'') part = Inr (rev_at r)"
    "registry_text (part @ ''.annotation_revision'') (field d ''annotation_revision'') = Inr (rev_revision r)" by blast
  have members: "field d ''status'' = JStr ''reviewed''" "field d ''reviewers'' = JArr [field decision ''reviewer'']"
    "field d ''reviewed_at'' = field decision ''reviewed_at''" "field d ''annotation_revision'' = revision"
    using d [symmetric] by (simp_all add: reviewed_entry_def field_def [of "_ # _"])
  note 1 = parts(1) [unfolded members] and 3 = parts(4) [unfolded members] and 4 = parts(5) [unfolded members]
  have "raw = [field decision ''reviewer'']" using parts(2) members(2) by (simp add: array_items_def)
  with parts(3) have 2: "mapE (\<lambda>(i, x). registry_text (at_index (part @ ''.reviewers'') i) x) (enumerate 0 [field decision ''reviewer'']) =
    Inr (rev_reviewers r)" by simp
  have "rev_status r = ''reviewed''" using registry_text_strip [OF 1] status by (simp add: text_of_def)
  moreover obtain w where w: "registry_text (at_index (part @ ''.reviewers'') 0) (field decision ''reviewer'') = Inr w" "rev_reviewers r = [w]"
    using 2 by (auto simp: bindE_eq_Inr)
  have "rev_reviewers r = [strip (text_of (field decision ''reviewer''))]" using registry_text_strip [OF w(1)] w(2) by simp
  moreover obtain t where t: "registry_text (part @ ''.reviewed_at'') (field decision ''reviewed_at'') = Inr t" "rev_at r = Some t"
    by (rule reviewed_at_time [OF 3 assms(2)])
  have "rev_at r = Some (strip (text_of (field decision ''reviewed_at'')))" using registry_text_strip [OF t(1)] t(2) by simp
  moreover have "rev_revision r = strip (text_of revision)" by (rule registry_text_strip [OF 4])
  ultimately show ?thesis by (cases r) simp
qed

lemma unreviewed_plain: "strip ''unreviewed'' = ''unreviewed''"
  by code_simp

lemma mark_reviewed_loaded:
  assumes v: "document_from aware (i, raw) v" and mark: "mark_reviewed rows decision raw = Inr raw'"
    and v': "document_from aware (i, raw') v'" and at: "field decision ''reviewed_at'' \<noteq> JNull"
    and plain: "\<forall>k \<in> set (map fst rows). plain_text k"
  shows "v' = v \<or> vd_id v \<in> set (map fst rows) \<and> rev_status (vd_review v) = ''unreviewed'' \<and> v' = marked_by decision v"
proof -
  from v obtain d where raw: "raw = JObj d" by (auto simp: document_from_def)
  let ?i = "text_of (field d ''id'')" and ?r = "field d ''review''"
  show ?thesis
  proof (cases "map_of rows ?i")
    case None
    then have "raw' = raw" using mark by (simp add: mark_reviewed_def raw Let_def)
    then show ?thesis using document_from_same [OF v] v' by blast
  next
    case (Some row)
    with mark have status: "of_object ''status'' ?r = JStr ''unreviewed''"
      and raw': "raw' = JObj (AList.update ''review'' (reviewed_entry decision (of_object ''annotation_revision'' ?r)) d)"
      by (auto simp: mark_reviewed_def raw Let_def split: if_splits)
    have names: "registry_text (document_context i @ ''.id'') (field d ''id'') = Inr (vd_id v)"
      and parsed: "parse_review aware ?r (document_context i @ ''.review'') = Inr (vd_review v)"
      using v by (auto simp: document_from_def raw)
    have key: "?i \<in> set (map fst rows)" using Some map_of_SomeD by force
    then have "vd_id v = ?i" using registry_text_strip [OF names] bspec [OF plain key] by (simp add: plain_text_def)
    moreover from parse_review_parts [OF parsed] status have "rev_status (vd_review v) = ''unreviewed''"
      "rev_revision (vd_review v) = strip (text_of (of_object ''annotation_revision'' ?r))"
      by (auto simp: of_object_def text_of_def unreviewed_plain dest!: registry_text_strip)
    moreover note updated = document_from_update [OF v [unfolded raw] v' [unfolded raw']]
    moreover note reviewed_entry_parses [OF conjunct2 [OF updated] at]
    ultimately have "v' = marked_by decision v" by (metis marked_by_def)
    with key \<open>vd_id v = ?i\<close> \<open>rev_status (vd_review v) = ''unreviewed''\<close> show ?thesis by simp
  qed
qed

text \<open>What an application establishes, for either kind of decision.\<close>

definition decision_applied :: "engine \<Rightarrow> (string \<times> json) list \<Rightarrow> (string \<times> json) list \<Rightarrow> visual_document list \<Rightarrow> visual_document list \<Rightarrow> bool" where
  "decision_applied e packet decision before after \<longleftrightarrow>
     (\<forall>(i, row) \<in> set (packet_rows packet). \<exists>v \<in> set before. vd_id v = i \<and> of_object ''annotation_sha256'' row = JStr (annotation_sha256 e v)) \<and>
     list_all2 (\<lambda>v v'. v' = v \<or> vd_id v \<in> set (map fst (packet_rows packet)) \<and> rev_status (vd_review v) = ''unreviewed'' \<and>
       v' = marked_by decision v) before after"

lemma check_drift_all:
  assumes "foldE (check_drift e current) () rows = Inr ()"
  shows "\<forall>(i, row) \<in> set rows. \<exists>v \<in> set current. vd_id v = i \<and> of_object ''annotation_sha256'' row = JStr (annotation_sha256 e v)"
  using assms
proof (induction rows)
  case (Cons x rows)
  obtain i row where x: "x = (i, row)" by (cases x)
  from Cons.prems have first: "check_drift e current () x = Inr ()" and rest: "foldE (check_drift e current) () rows = Inr ()"
    by (auto simp: bindE_eq_Inr)
  from first obtain v where "map_of (map (\<lambda>d. (vd_id d, d)) current) i = Some v" "of_object ''annotation_sha256'' row = JStr (annotation_sha256 e v)"
    by (auto simp: x check_drift_def split: option.splits if_splits)
  then have "v \<in> set current \<and> vd_id v = i" by (auto dest!: map_of_SomeD)
  with Cons.IH [OF rest] \<open>of_object ''annotation_sha256'' row = JStr (annotation_sha256 e v)\<close> show ?case by (auto simp: x)
qed simp

lemma apply_validated_parts:
  assumes "apply_validated_decision e parse_time registry_value packet decision = Inr out"
  obtains reg top documents reg' where "load_registry e parse_time True registry_value = Inr reg" "rejected_cases decision = []"
    "filter (\<lambda>i. i \<notin> set (map vd_id (vr_documents reg))) (map fst (packet_rows packet)) = []"
    "foldE (check_drift e (vr_documents reg)) () (packet_rows packet) = Inr ()" "registry_value = JObj top"
    "mapE (mark_reviewed (packet_rows packet) decision) (documents_in top) = Inr documents"
    "out = AList.update ''documents'' (JArr documents) top" "load_registry e parse_time False (JObj out) = Inr reg'"
proof -
  from assms obtain reg where reg: "load_registry e parse_time True registry_value = Inr reg"
    by (cases "load_registry e parse_time True registry_value") (simp_all add: apply_validated_decision_def)
  from assms have none: "rejected_cases decision = []"
    by (rule contrapos_pp) (simp add: apply_validated_decision_def reg)
  have known: "filter (\<lambda>i. i \<notin> set (map vd_id (vr_documents reg))) (map fst (packet_rows packet)) = []"
    using assms by (rule contrapos_pp) (simp add: apply_validated_decision_def reg none Let_def)
  note known' = known [unfolded set_map]
  from assms have drift: "foldE (check_drift e (vr_documents reg)) () (packet_rows packet) = Inr ()"
    by (cases "foldE (check_drift e (vr_documents reg)) () (packet_rows packet)")
      (simp_all add: apply_validated_decision_def reg none known' Let_def)
  from loaded_from [OF reg [unfolded load_registry_iff]] obtain top where top: "registry_value = JObj top" by blast
  note reg_top = reg [unfolded top]
  from assms obtain documents where marks: "mapE (mark_reviewed (packet_rows packet) decision) (documents_in top) = Inr documents"
    by (cases "mapE (mark_reviewed (packet_rows packet) decision) (documents_in top)")
      (simp_all add: apply_validated_decision_def reg_top none known' drift top Let_def rv_object_def del: mapE.simps)
  let ?out = "AList.update ''documents'' (JArr documents) top"
  from assms have "(\<exists>x. load_registry e parse_time False (JObj ?out) = Inr x) \<and> ?out = out"
    by (auto simp add: apply_validated_decision_def reg_top none known' drift top marks Let_def rv_object_def)
  then obtain reg' where reg': "load_registry e parse_time False (JObj ?out) = Inr reg'" and out: "out = ?out" by blast
  show thesis by (rule that [OF reg none known drift top marks out reg' [folded out]])
qed

lemma validated_decision_applied:
  assumes "apply_validated_decision e parse_time registry_value packet decision = Inr out" and at: "field decision ''reviewed_at'' \<noteq> JNull"
  shows "rejected_cases decision = [] \<and> (\<exists>reg reg'. load_registry e parse_time True registry_value = Inr reg \<and>
    load_registry e parse_time False (JObj out) = Inr reg' \<and> decision_applied e packet decision (vr_documents reg) (vr_documents reg'))"
proof -
  let ?rows = "packet_rows packet"
  from assms(1) obtain reg top documents reg' where reg: "load_registry e parse_time True registry_value = Inr reg"
    and none: "rejected_cases decision = []" and all_known: "filter (\<lambda>i. i \<notin> set (map vd_id (vr_documents reg))) (map fst ?rows) = []"
    and drift: "foldE (check_drift e (vr_documents reg)) () ?rows = Inr ()" and top: "registry_value = JObj top"
    and marks: "mapE (mark_reviewed ?rows decision) (documents_in top) = Inr documents"
    and out: "out = AList.update ''documents'' (JArr documents) top" and reg': "load_registry e parse_time False (JObj out) = Inr reg'"
    by (rule apply_validated_parts)
  note loaded = loaded_registry [OF reg [unfolded load_registry_iff]]
  have plain: "\<forall>k \<in> set (map fst ?rows). plain_text k"
  proof
    fix k assume "k \<in> set (map fst ?rows)"
    then have "k \<in> set (map vd_id (vr_documents reg))" using all_known unfolding filter_empty_conv by blast
    then obtain v where "v \<in> set (vr_documents reg)" "k = vd_id v" by auto
    then show "plain_text k" using loaded(1) by (simp add: registry_ok_def document_ok_def)
  qed
  from loaded_from [OF reg [unfolded load_registry_iff]] obtain docs where docs: "documents_in top = docs"
    and before: "list_all2 (document_from (is_aware parse_time)) (enumerate 0 docs) (vr_documents reg)"
    by (auto simp: top documents_in_def)
  from loaded_from [OF reg' [unfolded load_registry_iff]]
  have after: "list_all2 (document_from (is_aware parse_time)) (enumerate 0 documents) (vr_documents reg')"
    by (auto simp: out field_update)
  have marked: "list_all2 (\<lambda>x y. mark_reviewed ?rows decision x = Inr y) docs documents"
    using marks by (simp add: mapE_eq_Inr docs)
  have "list_all2 (\<lambda>v v'. v' = v \<or> vd_id v \<in> set (map fst ?rows) \<and> rev_status (vd_review v) = ''unreviewed'' \<and> v' = marked_by decision v)
      (vr_documents reg) (vr_documents reg')"
  proof (rule list_all2_all_nthI)
    show len: "length (vr_documents reg) = length (vr_documents reg')"
      using list_all2_lengthD [OF before] list_all2_lengthD [OF after] list_all2_lengthD [OF marked] by simp
    fix n assume n: "n < length (vr_documents reg)"
    have n': "n < length docs" "n < length documents" "n < length (vr_documents reg')"
      using n len list_all2_lengthD [OF before] list_all2_lengthD [OF marked] by simp_all
    have "document_from (is_aware parse_time) (n, docs ! n) (vr_documents reg ! n)"
      "document_from (is_aware parse_time) (n, documents ! n) (vr_documents reg' ! n)"
      using list_all2_nthD2 [OF before n] list_all2_nthD2 [OF after n'(3)] n' by (simp_all add: nth_enumerate_eq)
    from mark_reviewed_loaded [OF this(1) list_all2_nthD [OF marked n'(1)] this(2) at plain]
    show "vr_documents reg' ! n = vr_documents reg ! n \<or> vd_id (vr_documents reg ! n) \<in> set (map fst ?rows) \<and>
      rev_status (vd_review (vr_documents reg ! n)) = ''unreviewed'' \<and> vr_documents reg' ! n = marked_by decision (vr_documents reg ! n)" .
  qed
  with check_drift_all [OF drift] show ?thesis using none reg reg' by (auto simp: decision_applied_def)
qed

subsection \<open>What an approval is\<close>

text \<open>The review on the code host that a decision names: approved by the reviewer, at its address, with the digest of the packet.\<close>

definition approves :: "(string \<times> json) list \<Rightarrow> json \<Rightarrow> bool" where
  "approves decision review \<longleftrightarrow> (\<exists>d user body. review = JObj d \<and> map_of d ''user'' = Some (JObj user) \<and>
     map_of user ''login'' = Some (JStr (remove_prefix ''github:'' (text_of (field decision ''reviewer'')))) \<and>
     map_of d ''state'' = Some (JStr ''APPROVED'') \<and> map_of d ''html_url'' = Some (field decision ''review_url'') \<and>
     map_of d ''body'' = Some body \<and> py_in (packet_mark decision) body = Inr True)"

lemma mark_not_in_empty: "py_in (packet_mark decision) (JStr []) = Inr False"
  by (simp add: py_in_def packet_mark_def contains_iff)

lemma verified_approves:
  assumes "verify_github_review_provenance frepr parse_time decision loader = Inr ()"
  shows "approves decision (loader (text_of (field decision ''review_url'')))"
proof -
  obtain d where d: "loader (text_of (field decision ''review_url'')) = JObj d"
    using assms by (cases "loader (text_of (field decision ''review_url''))") (simp_all add: verify_github_review_provenance_def)
  note verify = assms [unfolded verify_github_review_provenance_def d json.case Let_def]
  from verify obtain user where user: "map_of d ''user'' = Some (JObj user)"
    by (auto split: option.splits json.splits)
  from verify obtain name state submitted_at body url where parts: "map_of user ''login'' = Some name" "map_of d ''state'' = Some state"
    "map_of d ''submitted_at'' = Some submitted_at" "map_of d ''body'' = Some body" "map_of d ''html_url'' = Some url"
    by (auto simp: user split: option.splits)
  from verify have "name = JStr (remove_prefix ''github:'' (text_of (field decision ''reviewer'')))" "state = JStr ''APPROVED''"
    "url = field decision ''review_url''" "py_in (packet_mark decision) (if truthy body then body else JStr []) = Inr True"
    by (auto simp: user parts split: if_splits option.splits)
  then show ?thesis using mark_not_in_empty [of decision] by (auto simp: approves_def d user parts split: if_splits)
qed

lemma loaded_packet_digest:
  assumes "load_review_packet_data e v = Inr packet"
  shows "v = JObj packet \<and> author_sha e [(''schema_version'', field packet ''schema_version''), (''registry_sha256'', field packet ''registry_sha256''),
     (''documents'', field packet ''documents'')] = strip (text_of (field packet ''packet_sha256''))"
  using assms
  by (auto simp: load_review_packet_data_def rv_object_def rv_digest_def rv_text_def text_of_def
      split: json.splits if_splits dest!: nonempty_text_ok)

lemma loaded_decision_binds:
  assumes "load_review_decision_data e parse_time v (JObj packet) = Inr decision"
  shows "field decision ''packet_sha256'' = field packet ''packet_sha256'' \<and> field decision ''reviewed_at'' \<noteq> JNull"
proof -
  from assms obtain p where p: "load_review_packet_data e (JObj packet) = Inr p"
    by (cases "load_review_packet_data e (JObj packet)") (simp_all add: load_review_decision_data_def)
  with loaded_packet_digest have "p = packet" by blast
  then show ?thesis using assms p
    by (auto simp: load_review_decision_data_def rv_object_def check_instant_def rv_text_def nonempty_text_def split: json.splits if_splits)
qed

text \<open>
  C38. A review is applied only on a person's approval of exactly what is in the registry: the review at the named address is by the named
  reviewer, is an approval and carries the digest of the packet, which is the digest of its contents; no case is recorded as rejected; every
  annotation of the packet is in the registry with the digest it was reviewed with. What comes out loads without the allowance for drafts,
  and differs from what went in at most in the review entries of unreviewed annotations of the packet, which name the reviewer and the time.
\<close>

theorem applied_review_sound:
  assumes "apply_review_decision e parse_time loader registry packet_value decision_value = Inr out"
  shows "\<exists>packet decision before after. load_review_packet_data e packet_value = Inr packet \<and>
    load_review_decision_data e parse_time decision_value (JObj packet) = Inr decision \<and>
    author_sha e [(''schema_version'', field packet ''schema_version''), (''registry_sha256'', field packet ''registry_sha256''),
      (''documents'', field packet ''documents'')] = strip (text_of (field decision ''packet_sha256'')) \<and>
    approves decision (loader (text_of (field decision ''review_url''))) \<and> rejected_cases decision = [] \<and>
    load_registry e parse_time True registry = Inr before \<and> load_registry e parse_time False (JObj out) = Inr after \<and>
    decision_applied e packet decision (vr_documents before) (vr_documents after)"
proof -
  from assms obtain packet decision where packet: "load_review_packet_data e packet_value = Inr packet"
    and decision: "load_review_decision_data e parse_time decision_value (JObj packet) = Inr decision"
    and verified: "verify_github_review_provenance (en_frepr e) parse_time decision loader = Inr ()"
    and applied: "apply_validated_decision e parse_time registry packet decision = Inr out"
    by (auto simp: apply_review_decision_def)
  from loaded_packet_digest [OF packet] loaded_decision_binds [OF decision] verified_approves [OF verified]
    validated_decision_applied [OF applied] packet decision show ?thesis by auto
qed

text \<open>
  A person's outcome is stripped when it is validated and compared as it is when it is applied: a rejection with a space in front is
  accepted as a rejection, and then counts as an acceptance.
\<close>

lemma spaced_rejection_applies:
  "human_outcome part (JStr '' rejected'') = Inr ''rejected''"
  "rejected_cases [(''decisions'', JArr [JObj [(''case_id'', c), (''outcome'', JStr '' rejected''), (''note'', n)]])] = []"
proof -
  have "strip '' rejected'' = ''rejected''" by code_simp
  then show "human_outcome part (JStr '' rejected'') = Inr ''rejected''"
    by (simp add: human_outcome_def rv_text_def nonempty_text_def outcomes_def)
  show "rejected_cases [(''decisions'', JArr [JObj [(''case_id'', c), (''outcome'', JStr '' rejected''), (''note'', n)]])] = []"
    by (simp add: rejected_cases_def decision_items_def of_object_def field_def)
qed

text \<open>A document whose id in the registry has a space in front is found in the packet by its stripped id, and then not marked.\<close>

lemma spaced_document_unmarked:
  "registry_text part (JStr '' d'') = Inr ''d''"
  "mark_reviewed [(''d'', row)] decision (JObj ((''id'', JStr '' d'') # d)) = Inr (JObj ((''id'', JStr '' d'') # d))"
proof -
  have "strip '' d'' = ''d''" by code_simp
  then show "registry_text part (JStr '' d'') = Inr ''d''" by (simp add: registry_text_def nonempty_text_def)
  show "mark_reviewed [(''d'', row)] decision (JObj ((''id'', JStr '' d'') # d)) = Inr (JObj ((''id'', JStr '' d'') # d))"
    by (simp add: mark_reviewed_def field_def text_of_def Let_def)
qed

end
