(* ===== verification/ReviewDemo.thy ===== *)
theory ReviewDemo
  imports VisualReview
begin

section \<open>An example of a review\<close>

text \<open>The example registry of \<open>VisualRegistry\<close>, its packet and an approval of it: the properties of the review apply.\<close>

definition bench_time :: "string \<Rightarrow> instant option" where
  "bench_time _ = Some (Aware 0)"

definition bench_digest :: string where
  "bench_digest = replicate 64 CHR ''a''"

definition bench_packet_case :: "string \<Rightarrow> string \<Rightarrow> string \<Rightarrow> json" where
  "bench_packet_case i label region = JObj [(''case_id'', JStr i), (''label'', JStr label), (''region_type'', JStr region), (''page'', JInt 1),
     (''bbox_norm'', box_json (0, 0, 1, 1)), (''view'', JStr ''top''), (''crop_sha256'', JStr bench_digest)]"

definition bench_row :: json where
  "bench_row = JObj [(''id'', JStr ''d''), (''source_sha256'', JStr bench_digest), (''annotation_revision'', JStr ''1''),
     (''annotation_sha256'', JStr bench_digest), (''cases'', JArr [bench_packet_case ''d/1'' ''positive'' ''package'',
       bench_packet_case ''d/2'' ''positive'' ''pinout'', bench_packet_case ''d/3'' ''positive'' ''table'',
       bench_packet_case ''d/4'' ''wrong_package'' ''package''])]"

definition bench_packet :: "(string \<times> json) list" where
  "bench_packet = review_payload bench_digest [bench_row] @ [(''packet_sha256'', JStr bench_digest)]"

definition bench_url :: string where
  "bench_url = ''https://github.com/TokitoAI/r/pull/1#pullrequestreview-1''"

definition bench_accept :: "string \<Rightarrow> json" where
  "bench_accept i = JObj [(''case_id'', JStr i), (''outcome'', JStr ''accepted''), (''note'', JStr [])]"

definition bench_decision :: "(string \<times> json) list" where
  "bench_decision = [(''schema_version'', JStr REVIEW_DECISION_VERSION), (''packet_sha256'', JStr bench_digest),
     (''registry_sha256'', JStr bench_digest), (''reviewer'', JStr ''github:a''), (''reviewed_at'', JStr ''t''), (''review_url'', JStr bench_url),
     (''decisions'', JArr (map bench_accept [''d/1'', ''d/2'', ''d/3'', ''d/4'']))]"

definition bench_review :: json where
  "bench_review = JObj [(''user'', JObj [(''login'', JStr ''a'')]), (''state'', JStr ''APPROVED''), (''submitted_at'', JStr ''t''),
     (''body'', JStr (packet_mark bench_decision)), (''html_url'', JStr bench_url)]"

lemma bench_sha [simp]: "en_sha bench_engine x = bench_digest" "author_sha bench_engine d = bench_digest"
  "annotation_sha256 bench_engine v = bench_digest" "vr_sha256 bench_registry = bench_digest"
  by (simp_all add: bench_engine_def bench_digest_def author_sha_def canonical_sha_def annotation_sha256_def bench_registry_def)

lemma bench_digest_hex [simp]: "is_hex 64 bench_digest"
  by code_simp

lemma bench_hex_digests: "hex_digests bench_engine"
  by (simp add: hex_digests_def)

lemma bench_load:
  "load_registry bench_engine bench_time draft sample_registry_json = Inr bench_registry"
proof -
  have "case load_document (is_aware bench_time) draft empty_registry_state (0, sample_document) of
      Inr st \<Rightarrow> rs_documents st = sample_documents | Inl _ \<Rightarrow> False"
    by (cases draft) (simp_all only:, code_simp+)
  then obtain st where st: "load_document (is_aware bench_time) draft empty_registry_state (0, sample_document) = Inr st"
    "rs_documents st = sample_documents" by (auto split: sum.splits)
  then show ?thesis
    by (simp add: load_registry_iff load_visual_registry_data_def sample_registry_json_def registry_object_def object_items_def
        registry_keys_def strict_keys_def fields_are_def field_def array_items_def bench_registry_def)
qed

lemma bench_packet_loads: "load_review_packet_data bench_engine (JObj bench_packet) = Inr bench_packet"
proof -
  have "foldE check_packet_annotation ([], []) (enumerate 0 [bench_row]) = Inr ([''d''], [''d/1'', ''d/2'', ''d/3'', ''d/4''])" by code_simp
  then show ?thesis
    by (simp add: load_review_packet_data_def bench_packet_def review_payload_def rv_object_def rv_keys_def strict_keys_def fields_are_def field_def
        rv_digest_hex rv_nonempty_def rv_array_def del: foldE.simps)
qed

lemma bench_expected: "expected_cases bench_packet = [''d/1'', ''d/2'', ''d/3'', ''d/4'']"
  by code_simp

lemma bench_url_ok: "is_review_url bench_url" "strip bench_url = bench_url" "strip ''t'' = ''t''" "strip ''github:a'' = ''github:a''"
    "rx_fullmatch human_identity ''github:a''" "remove_prefix ''github:'' ''github:a'' = ''a''"
  by code_simp+

lemma bench_url_some: "bench_url \<noteq> []"
  by (simp add: bench_url_def)

lemma bench_decision_loads: "load_review_decision_data bench_engine bench_time (JObj bench_decision) (JObj bench_packet) = Inr bench_decision"
proof -
  have checked: "check_decisions human_outcome ''review decision'' ''duplicate review decision: '' ''review decisions''
    [''d/1'', ''d/2'', ''d/3'', ''d/4''] (JArr (map bench_accept [''d/1'', ''d/2'', ''d/3'', ''d/4''])) = Inr ()" by code_simp
  have keys: "rv_keys decision_keys bench_decision part = Inr ()" for part
    by (simp add: rv_keys_def strict_keys_def fields_are_def decision_keys_def bench_decision_def)
  have f: "field bench_decision ''schema_version'' = JStr REVIEW_DECISION_VERSION" "field bench_decision ''packet_sha256'' = JStr bench_digest"
    "field bench_decision ''registry_sha256'' = JStr bench_digest" "field bench_decision ''reviewer'' = JStr ''github:a''"
    "field bench_decision ''reviewed_at'' = JStr ''t''" "field bench_decision ''review_url'' = JStr bench_url"
    "field bench_decision ''decisions'' = JArr (map bench_accept [''d/1'', ''d/2'', ''d/3'', ''d/4''])"
    "field bench_packet ''packet_sha256'' = JStr bench_digest" "field bench_packet ''registry_sha256'' = JStr bench_digest"
    by (simp_all add: bench_decision_def bench_packet_def review_payload_def field_def)
  have t: "rv_text part (JStr ''github:a'') = Inr ''github:a''" "rv_text part (JStr bench_url) = Inr bench_url"
    "check_instant bench_time part (JStr ''t'') = Inr ()" for part
    by (simp_all add: rv_text_def nonempty_text_def bench_url_ok bench_url_some check_instant_def bench_time_def)
  show ?thesis
    unfolding load_review_decision_data_def bench_packet_loads rv_object_def json.case bindE.simps keys f t bench_expected checked
    by (simp add: bench_url_ok)
qed

lemma bench_verified: "verify_github_review_provenance (en_frepr bench_engine) bench_time bench_decision (\<lambda>_. bench_review) = Inr ()"
proof -
  have r: "field bench_decision ''reviewer'' = JStr ''github:a''" "field bench_decision ''review_url'' = JStr bench_url"
    by (simp_all add: bench_decision_def field_def)
  have "packet_mark bench_decision \<noteq> []" by (simp add: packet_mark_def)
  then show ?thesis
    by (simp add: verify_github_review_provenance_def bench_review_def r text_of_def bench_url_ok bench_time_def py_in_def contains_iff)
      (metis append_Nil append_Nil2)
qed

definition bench_reviewed :: json where
  "bench_reviewed = (case mark_reviewed (packet_rows bench_packet) bench_decision sample_document of Inr d \<Rightarrow> d | Inl _ \<Rightarrow> JNull)"

lemma bench_applies: "\<exists>out. apply_validated_decision bench_engine bench_time sample_registry_json bench_packet bench_decision = Inr out"
proof -
  have rows: "packet_rows bench_packet = [(''d'', bench_row)]" by code_simp
  have "\<not> isl (mark_reviewed [(''d'', bench_row)] bench_decision sample_document)" by code_simp
  then have marked: "mark_reviewed [(''d'', bench_row)] bench_decision sample_document = Inr bench_reviewed"
    unfolding bench_reviewed_def rows by (cases "mark_reviewed [(''d'', bench_row)] bench_decision sample_document") simp_all
  have none: "rejected_cases bench_decision = []" by code_simp
  have ids: "map vd_id sample_documents = [''d'']" by code_simp
  then obtain v where docs: "sample_documents = [v]" "vd_id v = ''d''" by auto
  then have bench_documents_are: "vr_documents bench_registry = [v]" "vd_id v = ''d''" by (simp_all add: bench_registry_def)
  have drift: "check_drift bench_engine [v] () (''d'', bench_row) = Inr ()"
    using docs(2) by (simp add: check_drift_def bench_row_def of_object_def field_def)
  have loaded: "\<not> isl (load_document (is_aware bench_time) False empty_registry_state (0, bench_reviewed))" by code_simp
  then obtain st where "load_document (is_aware bench_time) False empty_registry_state (0, bench_reviewed) = Inr st"
    by (cases "load_document (is_aware bench_time) False empty_registry_state (0, bench_reviewed)") simp_all
  then have "\<exists>reg. load_registry bench_engine bench_time False
      (JObj [(''schema_version'', JStr ''dsvire.visual-eval-registry.v1''), (''documents'', JArr [bench_reviewed])]) = Inr reg"
    by (simp add: load_registry_iff load_visual_registry_data_def registry_object_def object_items_def
        registry_keys_def strict_keys_def fields_are_def field_def array_items_def)
  then show ?thesis
    by (simp add: apply_validated_decision_def none rows bench_load bench_documents_are drift Let_def)
      (simp add: sample_registry_json_def rv_object_def documents_in_def field_def marked)
qed

lemma bench_pixels: "0 < crop_pixels 0 1 1 \<and> crop_pixels 0 1 1 \<le> MAX_RENDER_SIDE_PIXELS \<and>
    fmul (crop_pixels 0 1 1) (crop_pixels 0 1 1) \<le> MAX_RENDER_PIXELS"
  by code_simp

lemma bench_crop:
  assumes "vc_page c = 1" and "vc_bbox c = (0, 0, 1, 1)"
  shows "render_registered_crop bench_engine [Some bench_page] c = Inr []"
proof -
  have "render_png (en_png bench_engine) bench_page (crop_box bench_page c) RENDER_DPI = Inr []"
    using assms rnd_pow2 [of 0]
    by (simp add: render_png_def validated_bbox_def crop_box_def bench_page_def fmul_def pow2_def RENDER_DPI_def bench_engine_def)
  then show ?thesis using assms bench_pixels
    by (simp add: render_registered_crop_def checked_page_def MAX_PAGES_def load_page_def Let_def)
      (simp add: bench_page_def not_le not_less)
qed

theorem exported_packet_loads_witness:
  "\<exists>packet. build_review_packet bench_engine bench_registry (\<lambda>_. []) None = Inr packet \<and>
     load_review_packet_data bench_engine (JObj packet) = Inr packet"
proof -
  have status: "list_all (\<lambda>d. rev_status (vd_review d) = ''unreviewed'') sample_documents" by code_simp
  have "\<exists>v. packet_annotation bench_engine (\<lambda>_. []) d = Inr v" if d: "d \<in> set sample_documents" for d
  proof -
    have "packet_case bench_engine [Some bench_page] x = Inr (projr (packet_case bench_engine [Some bench_page] x))" if x: "x \<in> set (case_entries d)" for x
    proof -
      obtain i d' c where "x = (i, d', c)" "c \<in> set (vd_cases d)" using x by (auto simp: case_entries_def)
      moreover then have "vc_page c = 1" "vc_bbox c = (0, 0, 1, 1)" using bench_sample d unfolding list_all_iff by blast+
      ultimately show ?thesis by (simp add: packet_case_def bench_crop)
    qed
    then have "mapE (packet_case bench_engine [Some bench_page]) (map (\<lambda>x. x) (case_entries d)) =
        Inr (map (\<lambda>x. projr (packet_case bench_engine [Some bench_page] x)) (case_entries d))"
      by (rule mapE_map_total)
    then show ?thesis using status bench_sample d
      by (simp add: packet_annotation_def list_all_iff bench_digest_def)
         (simp add: bench_engine_def open_document_def max_document_pages_def)
  qed
  then have "mapE (packet_annotation bench_engine (\<lambda>_. [])) (map (\<lambda>x. x) sample_documents) =
      Inr (map (\<lambda>d. projr (packet_annotation bench_engine (\<lambda>_. []) d)) sample_documents)"
    by (intro mapE_map_total) force
  then have "\<exists>packet. build_review_packet bench_engine bench_registry (\<lambda>_. []) None = Inr packet"
    using bench_documents by (auto simp: build_review_packet_def bench_registry_def)
  with exported_packet_loads [OF bench_load _ bench_hex_digests] show ?thesis by blast
qed

theorem applied_review_sound_witness:
  "\<exists>out packet decision after. apply_review_decision bench_engine bench_time (\<lambda>_. bench_review) sample_registry_json (JObj bench_packet)
      (JObj bench_decision) = Inr out \<and> load_registry bench_engine bench_time False (JObj out) = Inr after \<and>
    decision_applied bench_engine packet decision (vr_documents bench_registry) (vr_documents after)"
proof -
  obtain out where "apply_validated_decision bench_engine bench_time sample_registry_json bench_packet bench_decision = Inr out"
    using bench_applies by blast
  then have run: "apply_review_decision bench_engine bench_time (\<lambda>_. bench_review) sample_registry_json (JObj bench_packet)
      (JObj bench_decision) = Inr out"
    by (simp add: apply_review_decision_def bench_packet_loads bench_decision_loads bench_verified)
  from applied_review_sound [OF run] run show ?thesis by (auto simp: bench_load)
qed

end
