(* ===== verification/Spec2Isabelle.thy ===== *)
theory Spec2Isabelle
  imports LifeCycle ApiRun IdentityGate WorkerRun Outbox HybridQuery QueryRun ServiceApi VectorIndex QueryRanking SymbolCompile CycleDemo Dsff ReviewDemo
begin

text \<open>
  A verification library for \<open>tokito-dsvire\<close>: the service that turns untrusted datasheet PDFs into citable
  evidence regions, the platform that runs it as durable jobs, the retrieval over published packs, and the
  evaluation that decides what a visual verifier may publish. Paths below are relative to \<open>src/dsvire/\<close>.

  \<^bold>\<open>The program.\<close> A client uploads a PDF with a bearer token (\<open>platform_api.py\<close>). The upload is stored under a
  key that names its digest (\<open>object_store.py\<close>), and a job row, an event and an outbox message are written in
  one transaction (\<open>platform_db.py\<close>). A worker (\<open>platform_worker.py\<close>) leases the oldest runnable job, copies the
  document, runs the parser in a child process under resource limits (\<open>worker.py\<close>), stores the evidence and the
  bundle (\<open>bundle.py\<close>), and closes the lease. The parser (\<open>pipeline.py\<close> over \<open>pdf_backend.py\<close>) scores the blocks of every
  page, checks that the text names the requested part, renders the accepted regions and publishes them as a pack; the
  symbol compiler (\<open>symbol_extract.py\<close>, \<open>symbol_layout.py\<close>, \<open>symbol_compile.py\<close>) reads the pin table of such a pack and draws
  it. A dispatcher publishes the outbox to Redis (\<open>dispatch_outbox\<close> of \<open>accelerators.py\<close>), which wakes the event streams
  of the API. A second service (\<open>api.py\<close>, configured by \<open>config.py\<close>) runs the same parser and hybrid retrieval without
  the queue; retrieval reads packs (\<open>retrieval_pack.py\<close>) and ranks them (\<open>hybrid_query.py\<close>, \<open>query_worker.py\<close>); packs are
  mirrored to a vector store (\<open>QdrantIndex\<close> of \<open>accelerators.py\<close>). The evaluation side loads reviewed annotations
  (\<open>visual_registry.py\<close>), reviews them (\<open>visual_review.py\<close>), scores them with adapters (\<open>visual_adapters.py\<close>,
  \<open>visual_benchmark.py\<close>), freezes a threshold and evaluates it (\<open>visual_metrics.py\<close>), accounts for what the corpus covers
  (\<open>corpus_coverage.py\<close>), and measures rankings of queries (\<open>query_ranking.py\<close>). A retrieval cycle is preregistered
  (\<open>retrieval_preregistration.py\<close>), its sources are sealed (\<open>retrieval_source_seal.py\<close>), humans author and review its
  labels (\<open>retrieval_authoring.py\<close>), and only then are scores accessible (\<open>cycle_execution.py\<close>, \<open>egvv_campaign.py\<close>).

  \<^bold>\<open>The theories.\<close>
  \<^item> \<open>Prelude\<close>, \<open>PyStr\<close>, \<open>Json\<close>, \<open>Float64\<close>, \<open>FloatOrder\<close>, \<open>Regex\<close>: results of code that may raise (a sum), tables as lists of
    rows, texts, decoded JSON values with the language's equality and printers, binary64 arithmetic (each operation
    rounds its exact result to even; \<open>rnd_le_int\<close> bounds what rounding can do, \<open>FloatOrder\<close> has its monotonicity), and the part
    of regular expressions the program uses, with the order of a backtracking matcher.
  \<^item> \<open>ObjectStore\<close>: keys, references, the local and the S3 backend. The locale \<open>immutable_store\<close> states what
    clients rely on (a stored object is read back until deleted, and never changes) and is interpreted on the
    local backend.
  \<^item> \<open>PlatformDb\<close>: the tables of \<open>sql/001_platform.sql\<close> as a record \<open>db\<close> and one function per method of
    \<open>PlatformDatabase\<close>. \<open>PlatformInv\<close> collects them as operations \<open>apply_op\<close> of one machine and states the invariant \<open>db_inv\<close>
    and the row steps of the code (\<open>job_step\<close>), which \<open>PlatformRefine\<close> proves of every operation; \<open>PlatformProps\<close> has the
    guarantees over any sequence of operations at any clock readings; \<open>PlatformRun\<close> evaluates a concrete history on which
    they apply. \<open>LifeCycle\<close> is the contract of a job on its own (\<open>life_step\<close>: waiting, held until a time, ended, with guards
    of its own) and the proof that the table refines it.
  \<^item> \<open>PdfWorker\<close>, \<open>Bundle\<close>, \<open>PlatformWorker\<close>, \<open>WorkerRun\<close>: the parser process and its clean-up, the deterministic
    archive, what one worker does with one lease (its database calls are effects against the machine above, with
    other clients' operations in between), and a run of it.
  \<^item> \<open>PlatformApi\<close>, \<open>ApiRun\<close>, \<open>Outbox\<close>: the handlers over database and store, the event stream with interleaved
    transactions, and the dispatcher's rounds.
  \<^item> \<open>PdfBackend\<close>, \<open>PartText\<close>, \<open>Pipeline\<close>: what PDFium's report of a page becomes (blocks, lines, crops), the matching of
    part identities in text, and the scoring and scanning of \<open>pipeline.py\<close>. \<open>Grounding\<close> shows that the scans find the best
    verified candidates and exactly the rows that match, and that crops lie on their page; \<open>IdentityGate\<close> restates the matching
    over words and strings and proves the gate equal to it. \<open>EvidenceCache\<close> is the pack on disk (staging, publication, the check
    of a stored pack) over the files of \<open>ObjectStore\<close>; \<open>EvidenceRun\<close> a document on which all of it applies.
  \<^item> \<open>SymbolSpec\<close>, \<open>SymbolLayout\<close>, \<open>SymbolCompile\<close>: rows of a pin table to pins, pins to a drawing, and a request to a cited symbol.
  \<^item> \<open>Ranking\<close>: the locale \<open>ranking\<close> (a permutation ordered by a key) with the facts about cut-offs and independence of
    the input order; interpreted on every sorted result of the program. \<open>RetrievalPack\<close>, \<open>HybridQuery\<close>,
    \<open>QueryWorker\<close>, \<open>QueryRun\<close>: the pack loader and its contract, ranking and fusion, the query worker's addressing and
    limits, and a run.
  \<^item> \<open>ServiceConfig\<close>, \<open>ServiceApi\<close>: both configurations read from an environment and validated; authorization, trace
    contexts, bounded bodies, admission control as a state machine over service events, start-up and shutdown.
  \<^item> \<open>VectorIndex\<close>: the calls that indexing, dropping, rebuilding and searching make to the vector store.
  \<^item> \<open>Contracts\<close>: the checks the evaluation loaders share, and the locales \<open>checked_loop\<close>, \<open>collecting_loop\<close> and
    \<open>counted_loop\<close>, the contracts between a loader or scanner and its loop, interpreted on the loops over documents, cases,
    queries, judgments, rankings, candidates, pages and lines.
  \<^item> \<open>VisualMetrics\<close>, \<open>VisualRegistry\<close>, \<open>CorpusCoverage\<close>, \<open>QueryRanking\<close>: one theory per module of the same name, in the
    order the modules import each other. \<open>RegistryFacts\<close> relates a loaded registry to its JSON; \<open>VisualAdapters\<close>,
    \<open>VisualBenchmark\<close> (with \<open>visual_split_plan.py\<close>, \<open>visual_policy_artifact.py\<close> and the commands around them), \<open>VisualReview\<close>
    and \<open>ReviewDemo\<close>: scoring a registry, and the review of its annotations.
  \<^item> \<open>Preregistration\<close>, \<open>SourceSeal\<close>, \<open>Authoring\<close>, \<open>CycleExecution\<close>, \<open>Campaign\<close>, \<open>CycleDemo\<close>: the plan of a cycle, the acquisition of
    its sources, the human labels and their seal, the inspection that opens the scores, the calibration and the one evaluation of
    the verifier, and a cycle on which these apply.
  \<^item> \<open>Dsff\<close>: the images a content stream draws (\<open>dsff.py\<close>) and their association with detected boxes.

  \<^bold>\<open>What the lemmas show.\<close> Jobs: exclusive leases, absorbing terminal states, counted attempts, exactly-once
  submission, tenant isolation, refinement of the life cycle. Store and worker: what a succeeded job names can be
  read back and has the digest it names; failures clean up. API: an answered upload is stored and queued, rejected
  requests change nothing, downloads are verified, events are replayed in order, as far as the polls reach. Evidence: the
  bundle is proved by the document, the gate accepts exactly what the text names, failures leave no trace, a second request
  reads the pack. Symbols: pins are the rows of the table, apart on the drawing, and cited. Retrieval: loaded packs meet
  their contract, answers quote the file that was addressed, and their shape is bounded. Service: permits are conserved, only
  authorized requests run, validated settings lie in their intervals. Evaluation: loaded registries are well formed, reviews
  apply to what they saw, benchmark artifacts read back, adapters do not see labels, the frozen threshold is optimal where
  the search looks, ledgers add up, and metrics stay within their bounds. Cycles: acquired sources are verified, accepted labels
  are sound, and scores open exactly at the end of the frozen order. Lemmas named in the findings show where the code departs
  from its documentation or intent.

  \<^bold>\<open>Conventions.\<close> Texts are lists of characters below code point 256 and stand for the language's texts; clocks,
  random draws and identifiers are inputs of the operations. A float is the rational it denotes, so negative zero is
  zero, and overflow to infinity occurs only where a function says so. Event identifiers follow the order of
  commits. Loops over data are structural or bounded by their data; loops over time (heartbeats, streams,
  dispatcher rounds, retries of a download) take the list of observations they react to, so a longer list is a longer run.
  The loop over slices of an index upsert and the search of a part number terminate by the length of what is left; the tokenizer of a
  content stream can run for ever and is a \<open>partial_function\<close>, with the inputs on which it ends.

  \<^bold>\<open>Parameters.\<close> SHA-256 (\<open>sha\<close>), UUIDs, the decimal form of a float (\<open>frepr\<close>), the archive writer, \<open>pow\<close>, \<open>log2\<close>, the built-in
  sum of floats, \<open>datetime.fromisoformat\<close>, the Unicode tables, PDFium with its renderer and the strict reader (what opening a
  payload reports, the pages, the image of a crop), the models behind the adapters, the network of an acquisition, the review
  records of the code host, and the answers of the operating system and of external services. A theorem that needs something
  of a parameter names it as a hypothesis (for instance that digests have 64 hexadecimal digits) and has a witness that
  instantiates it.

  \<^bold>\<open>Not modelled.\<close> SQL as text and the driver, the network, HTTP framing and the event loop's scheduling beyond the
  interleavings above; image and model code behind the adapters (the encoders, \<open>training_*.py\<close>, \<open>layout_detect.py\<close>), the triplet
  metrics (\<open>cppt.py\<close>, \<open>dhpr.py\<close>, \<open>eftri.py\<close>), the downloads and exports of the evaluation (\<open>eval_download.py\<close>, \<open>eval_sources.py\<close>,
  \<open>evaluation.py\<close>, \<open>cycle_eval_export.py\<close>, \<open>cycle_source_cache.py\<close>, \<open>sealed_holdout.py\<close>), \<open>license_policy.py\<close>, and the command line
  and scripts, which are input and output around the functions here.
\<close>

end
